(* ===== verification/G9P_Prelude.thy ===== *)
theory G9P_Prelude
  imports
    Main
    "HOL-Library.Word"
    "HOL-Library.AList"
    "HOL-Library.List_Lexorder"
begin

text \<open>
  The vocabulary every component shares: bytes, thrown errors as values, sequencing of
  steps that may throw, the big-endian integers of the file format, and the interface of a
  byte codec that can be read back from the front of a longer buffer.
\<close>

unbundle bit_operations_syntax

section \<open>Thrown errors and sequencing\<close>

type_synonym byte = "8 word"

text \<open>
  \<open>G9p c\<close> is a \<open>G9pError\<close> with code \<open>c\<close> (src/src/errors.js), \<open>JsTypeError\<close> an error the
  language runtime throws, \<open>PlainError c\<close> an ordinary \<open>Error\<close> that carries the code \<open>c\<close> (empty
  when it carries none).
\<close>

datatype js_error = G9p string | JsTypeError | PlainError string

type_synonym 'a res = "js_error + 'a"

definition bindR :: "'e + 'a \<Rightarrow> ('a \<Rightarrow> 'e + 'b) \<Rightarrow> 'e + 'b" where
  "bindR m f = (case m of Inl e \<Rightarrow> Inl e | Inr x \<Rightarrow> f x)"

definition andThen :: "'e + unit \<Rightarrow> 'e + 'b \<Rightarrow> 'e + 'b" where
  "andThen m k = bindR m (\<lambda>_. k)"

definition failWith :: "string \<Rightarrow> 'a res" where
  "failWith code = Inl (G9p code)"

definition invariant :: "bool \<Rightarrow> string \<Rightarrow> unit res" where
  "invariant condition code = (if condition then Inr () else failWith code)"

text \<open>A run of checks in program order: the first one that throws decides the result.\<close>

fun checks :: "('e + unit) list \<Rightarrow> 'e + unit" where
  "checks [] = Inr ()"
| "checks (c # cs) = andThen c (checks cs)"

fun mapR :: "('a \<Rightarrow> 'e + 'b) \<Rightarrow> 'a list \<Rightarrow> ('e + 'b list)" where
  "mapR f [] = Inr []"
| "mapR f (x # xs) = bindR (f x) (\<lambda>y. bindR (mapR f xs) (\<lambda>ys. Inr (y # ys)))"

fun foldR :: "('s \<Rightarrow> 'a \<Rightarrow> 'e + 's) \<Rightarrow> 's \<Rightarrow> 'a list \<Rightarrow> 'e + 's" where
  "foldR f s [] = Inr s"
| "foldR f s (x # xs) = bindR (f s x) (\<lambda>s'. foldR f s' xs)"

text \<open>Run a reader \<open>n\<close> times, threading the unread input.\<close>

fun repeatR :: "nat \<Rightarrow> ('s \<Rightarrow> 'e + ('a \<times> 's)) \<Rightarrow> 's \<Rightarrow> 'e + ('a list \<times> 's)" where
  "repeatR 0 f s = Inr ([], s)"
| "repeatR (Suc n) f s =
     bindR (f s) (\<lambda>(x, s'). bindR (repeatR n f s') (\<lambda>(xs, s''). Inr (x # xs, s'')))"

named_theorems res_simps \<open>facts that dissolve sequencing of steps that returned a value\<close>

lemma bindR_simps [simp]:
  "bindR (Inl e) f = Inl e"
  "bindR (Inr x) f = f x"
  by (simp_all add: bindR_def)

lemma andThen_simps [simp]:
  "andThen (Inl e) k = Inl e"
  "andThen (Inr u) k = k"
  by (simp_all add: andThen_def)

lemma bindR_cong [fundef_cong]:
  "m = m' \<Longrightarrow> (\<And>x. m' = Inr x \<Longrightarrow> f x = f' x) \<Longrightarrow> bindR m f = bindR m' f'"
  by (cases m') simp_all

lemma andThen_cong [fundef_cong]:
  "m = m' \<Longrightarrow> (m' = Inr () \<Longrightarrow> k = k') \<Longrightarrow> andThen m k = andThen m' k'"
  by (cases m') simp_all

lemma bindR_Inr_iff [res_simps]: "bindR m f = Inr y \<longleftrightarrow> (\<exists>x. m = Inr x \<and> f x = Inr y)"
  by (cases m) simp_all

lemma andThen_Inr_iff [res_simps]: "andThen m k = Inr y \<longleftrightarrow> m = Inr () \<and> k = Inr y"
  by (cases m) simp_all

lemma bindR_Inl_iff: "bindR m f = Inl e \<longleftrightarrow> m = Inl e \<or> (\<exists>x. m = Inr x \<and> f x = Inl e)"
  by (cases m) auto

lemma andThen_Inl_iff: "andThen m k = Inl e \<longleftrightarrow> m = Inl e \<or> m = Inr () \<and> k = Inl e"
  by (cases m) auto

lemma bindR_assoc: "bindR (bindR m f) g = bindR m (\<lambda>x. bindR (f x) g)"
  by (cases m) simp_all

lemma invariant_True [simp]: "invariant True c = Inr ()"
  by (simp add: invariant_def)

lemma invariant_False [simp]: "invariant False c = Inl (G9p c)"
  by (simp add: invariant_def failWith_def)

lemma invariant_Inr_iff [res_simps]: "invariant b c = Inr u \<longleftrightarrow> b"
  by (cases b) simp_all

lemma invariant_Inl_iff: "invariant b c = Inl e \<longleftrightarrow> \<not> b \<and> e = G9p c"
  by (cases b) auto

lemma failWith_neq_Inr [res_simps]: "failWith c \<noteq> Inr x"
  by (simp add: failWith_def)

lemma checks_Inr_iff [res_simps]: "checks cs = Inr u \<longleftrightarrow> (\<forall>c \<in> set cs. c = Inr ())"
  by (induction cs) (auto simp: andThen_Inr_iff)

lemma checks_append: "checks (cs @ ds) = andThen (checks cs) (checks ds)"
proof (induction cs)
  case (Cons c cs)
  then show ?case by (cases c) simp_all
qed simp

lemma mapR_cong [fundef_cong]:
  "xs = ys \<Longrightarrow> (\<And>x. x \<in> set ys \<Longrightarrow> f x = g x) \<Longrightarrow> mapR f xs = mapR g ys"
  by (induction ys arbitrary: xs) auto

lemma mapR_append:
  "mapR f (xs @ ys) = bindR (mapR f xs) (\<lambda>as. bindR (mapR f ys) (\<lambda>bs. Inr (as @ bs)))"
proof (induction xs)
  case Nil
  then show ?case by (cases "mapR f ys") simp_all
next
  case (Cons x xs)
  then show ?case by (cases "f x"; cases "mapR f xs"; cases "mapR f ys") simp_all
qed

lemma mapR_Inr_list_all2: "mapR f xs = Inr ys \<longleftrightarrow> list_all2 (\<lambda>x y. f x = Inr y) xs ys"
  by (induction xs arbitrary: ys) (auto simp: bindR_Inr_iff list_all2_Cons1)

lemma mapR_Inr_length: "mapR f xs = Inr ys \<Longrightarrow> length ys = length xs"
  by (auto simp: mapR_Inr_list_all2 dest: list_all2_lengthD)

lemma mapR_Inr_nth: "mapR f xs = Inr ys \<Longrightarrow> i < length xs \<Longrightarrow> f (xs ! i) = Inr (ys ! i)"
  by (auto simp: mapR_Inr_list_all2 dest: list_all2_nthD)

lemma mapR_Inr_all: "mapR f xs = Inr ys \<Longrightarrow> x \<in> set xs \<Longrightarrow> \<exists>y \<in> set ys. f x = Inr y"
  by (induction xs arbitrary: ys) (auto simp: bindR_Inr_iff)

lemma mapR_total: "(\<And>x. x \<in> set xs \<Longrightarrow> \<exists>y. f x = Inr y) \<Longrightarrow> \<exists>ys. mapR f xs = Inr ys"
proof (induction xs)
  case (Cons x xs)
  then obtain y ys where "f x = Inr y" and "mapR f xs = Inr ys" by force
  then show ?case by simp
qed simp

lemma mapR_eq_map: "(\<And>x. x \<in> set xs \<Longrightarrow> f x = Inr (g x)) \<Longrightarrow> mapR f xs = Inr (map g xs)"
  by (induction xs) auto

lemma foldR_append: "foldR f s (xs @ ys) = bindR (foldR f s xs) (\<lambda>s'. foldR f s' ys)"
  by (induction xs arbitrary: s) (simp_all add: bindR_assoc)

lemma foldR_invariant:
  assumes "\<And>s x s'. P s \<Longrightarrow> x \<in> set xs \<Longrightarrow> f s x = Inr s' \<Longrightarrow> P s'"
    and "P s" and "foldR f s xs = Inr s'"
  shows "P s'"
  using assms(3,2,1)
proof (induction xs arbitrary: s)
  case (Cons x xs)
  from Cons.prems(1) obtain t where t: "f s x = Inr t" and rest: "foldR f t xs = Inr s'"
    by (auto simp: bindR_Inr_iff)
  have "P t" by (rule Cons.prems(3) [OF Cons.prems(2) _ t]) simp
  with rest show ?case by (rule Cons.IH) (auto intro: Cons.prems(3))
qed simp

lemma repeatR_cong [fundef_cong]:
  "n = n' \<Longrightarrow> s = s' \<Longrightarrow> (\<And>x. f x = f' x) \<Longrightarrow> repeatR n f s = repeatR n' f' s'"
  by (metis ext)

lemma repeatR_length: "repeatR n f s = Inr (xs, s') \<Longrightarrow> length xs = n"
  by (induction n arbitrary: s xs s') (auto simp: bindR_Inr_iff split: prod.splits)

section \<open>Byte codecs that can be read from the front of a buffer\<close>

text \<open>
  The interface between a reader and the writer it inverts. \<open>ok\<close> says which values the
  reader's limits admit. Everything the format builds from such pairs (sequences, unique
  parsing, injectivity) follows from the one law.
\<close>

locale prefix_codec =
  fixes enc :: "'a \<Rightarrow> byte list"
    and dec :: "byte list \<Rightarrow> 'e + ('a \<times> byte list)"
    and ok :: "'a \<Rightarrow> bool"
  assumes dec_enc: "ok x \<Longrightarrow> dec (enc x @ rest) = Inr (x, rest)"
begin

lemma dec_enc_nil: "ok x \<Longrightarrow> dec (enc x) = Inr (x, [])"
  using dec_enc [of x "[]"] by simp

lemma unique_parse:
  assumes "ok x" and "ok y" and "enc x @ r = enc y @ s"
  shows "x = y \<and> r = s"
  using dec_enc [OF assms(1), of r] dec_enc [OF assms(2), of s] assms(3)
  by (metis Inr_inject Pair_inject)

lemma enc_inj: "ok x \<Longrightarrow> ok y \<Longrightarrow> enc x = enc y \<Longrightarrow> x = y"
  using unique_parse [of x y "[]" "[]"] by simp

lemma repeat_enc:
  "list_all ok xs \<Longrightarrow> repeatR (length xs) dec (concat (map enc xs) @ rest) = Inr (xs, rest)"
  by (induction xs) (simp_all add: dec_enc)

lemma concat_unique:
  assumes "list_all ok xs" and "list_all ok ys" and "length xs = length ys"
    and "concat (map enc xs) @ r = concat (map enc ys) @ s"
  shows "xs = ys \<and> r = s"
  using repeat_enc [OF assms(1), of r] repeat_enc [OF assms(2), of s] assms(3,4)
  by (metis Inr_inject Pair_inject)

text \<open>With non-empty codes the number of items need not be known in advance.\<close>

lemma concat_inj:
  assumes "list_all ok xs" and "list_all ok ys" and nonempty: "\<And>x. enc x \<noteq> []"
    and "concat (map enc xs) = concat (map enc ys)"
  shows "xs = ys"
  using assms(1,2,4)
proof (induction xs arbitrary: ys)
  case Nil
  then have "concat (map enc ys) = []" by simp
  then show ?case using nonempty by (cases ys) (simp, metis append_is_Nil_conv concat.simps(2) list.simps(9))
next
  case (Cons x xs)
  have "concat (map enc ys) \<noteq> []"
    using Cons.prems(3) nonempty [of x] by (metis append_is_Nil_conv concat.simps(2) list.simps(9))
  then obtain y ys' where ys: "ys = y # ys'"
    by (cases ys) simp_all
  from Cons.prems have "x = y \<and> concat (map enc xs) = concat (map enc ys')"
    unfolding ys by (intro unique_parse) auto
  with Cons.IH [of ys'] Cons.prems show ?case by (simp add: ys)
qed

end

section \<open>Big-endian unsigned integers\<close>

fun be_bytes :: "nat \<Rightarrow> nat \<Rightarrow> byte list" where
  "be_bytes 0 n = []"
| "be_bytes (Suc k) n = be_bytes k (n div 256) @ [of_nat (n mod 256)]"

definition of_be :: "byte list \<Rightarrow> nat" where
  "of_be bs = foldl (\<lambda>a b. a * 256 + unat b) 0 bs"

lemma length_be_bytes [simp]: "length (be_bytes k n) = k"
  by (induction k arbitrary: n) simp_all

lemma of_be_Nil [simp]: "of_be [] = 0"
  by (simp add: of_be_def)

lemma of_be_snoc [simp]: "of_be (bs @ [b]) = of_be bs * 256 + unat b"
  by (simp add: of_be_def)

lemma unat_of_nat_byte [simp]: "unat (of_nat n :: byte) = n mod 256"
  by (simp add: unat_of_nat)

lemma of_be_be_bytes: "n < 256 ^ k \<Longrightarrow> of_be (be_bytes k n) = n"
proof (induction k arbitrary: n)
  case (Suc k)
  then have "n div 256 < 256 ^ k"
    by (simp add: less_mult_imp_div_less mult.commute)
  with Suc.IH show ?case by simp
qed simp

lemma be_bytes_of_be: "length bs = k \<Longrightarrow> be_bytes k (of_be bs) = bs"
proof (induction k arbitrary: bs)
  case (Suc k)
  then obtain cs c where bs: "bs = cs @ [c]" and len: "length cs = k"
    by (cases bs rule: rev_cases) auto
  have c: "unat c < 256"
    using unsigned_less [where ?'a = nat, of c] by simp
  then have "(of_be cs * 256 + unat c) div 256 = of_be cs"
    and "(of_be cs * 256 + unat c) mod 256 = unat c"
    by simp_all
  then show ?case using Suc.IH [OF len] by (simp add: bs)
qed simp

lemma of_be_less: "of_be bs < 256 ^ length bs"
proof (induction bs rule: rev_induct)
  case (snoc b bs)
  have "unat b < 256"
    using unsigned_less [where ?'a = nat, of b] by simp
  moreover have "of_be bs + 1 \<le> 256 ^ length bs"
    using snoc by simp
  then have "(of_be bs + 1) * 256 \<le> 256 ^ length bs * 256"
    by (rule mult_le_mono1)
  ultimately show ?case by (simp add: algebra_simps)
qed simp

lemma be_bytes_inj: "n < 256 ^ k \<Longrightarrow> m < 256 ^ k \<Longrightarrow> be_bytes k n = be_bytes k m \<Longrightarrow> n = m"
  by (metis of_be_be_bytes)

text \<open>\<open>readUInt32BE\<close>, \<open>writeUInt32BE\<close> and the 64-bit pair of the Node buffer library.\<close>

abbreviation u32_be :: "nat \<Rightarrow> byte list" where
  "u32_be \<equiv> be_bytes 4"

abbreviation u64_be :: "nat \<Rightarrow> byte list" where
  "u64_be \<equiv> be_bytes 8"

lemma u32_be_eval:
  "u32_be n = [of_nat (n div 256 div 256 div 256 mod 256), of_nat (n div 256 div 256 mod 256),
     of_nat (n div 256 mod 256), of_nat (n mod 256)]"
proof -
  have "4 = Suc (Suc (Suc (Suc 0)))" by simp
  then show ?thesis by (simp only: be_bytes.simps append.simps)
qed

definition max_safe_integer :: nat where
  "max_safe_integer = 9007199254740991"

section \<open>Insertion-ordered dictionaries\<close>

text \<open>
  A JavaScript \<open>Map\<close> is an association list in insertion order: setting an existing key keeps
  its place, deleting drops it. \<^const>\<open>AList.update\<close> and \<^const>\<open>AList.delete\<close> of the library
  behave so.
\<close>

type_synonym ('k, 'v) jsmap = "('k \<times> 'v) list"

definition jm_get :: "('k, 'v) jsmap \<Rightarrow> 'k \<Rightarrow> 'v option" where
  "jm_get m k = map_of m k"

definition jm_has :: "('k, 'v) jsmap \<Rightarrow> 'k \<Rightarrow> bool" where
  "jm_has m k = (map_of m k \<noteq> None)"

definition jm_set :: "'k \<Rightarrow> 'v \<Rightarrow> ('k, 'v) jsmap \<Rightarrow> ('k, 'v) jsmap" where
  "jm_set k v m = AList.update k v m"

definition jm_delete :: "'k \<Rightarrow> ('k, 'v) jsmap \<Rightarrow> ('k, 'v) jsmap" where
  "jm_delete k m = AList.delete k m"

definition jm_values :: "('k, 'v) jsmap \<Rightarrow> 'v list" where
  "jm_values m = map snd m"

definition jm_wf :: "('k, 'v) jsmap \<Rightarrow> bool" where
  "jm_wf m = distinct (map fst m)"

locale dictionary =
  fixes lookup :: "'m \<Rightarrow> 'k \<Rightarrow> 'v option"
    and upd :: "'k \<Rightarrow> 'v \<Rightarrow> 'm \<Rightarrow> 'm"
    and del :: "'k \<Rightarrow> 'm \<Rightarrow> 'm"
    and wf :: "'m \<Rightarrow> bool"
  assumes lookup_upd: "lookup (upd k v m) = (lookup m)(k \<mapsto> v)"
    and lookup_del: "lookup (del k m) = (lookup m)(k := None)"
    and wf_upd: "wf m \<Longrightarrow> wf (upd k v m)"
    and wf_del: "wf m \<Longrightarrow> wf (del k m)"
begin

lemma lookup_upd_same: "lookup (upd k v m) k = Some v"
  by (simp add: lookup_upd)

lemma lookup_upd_other: "k \<noteq> k' \<Longrightarrow> lookup (upd k v m) k' = lookup m k'"
  by (simp add: lookup_upd)

lemma lookup_fold_upd:
  "distinct (map fst kvs) \<Longrightarrow>
   lookup (fold (\<lambda>(k, v). upd k v) kvs m) k =
     (case map_of kvs k of Some v \<Rightarrow> Some v | None \<Rightarrow> lookup m k)"
proof (induction kvs arbitrary: m)
  case (Cons kv kvs)
  obtain a b where kv: "kv = (a, b)" by (cases kv)
  with Cons.prems have "a \<notin> fst ` set kvs" by simp
  then have "map_of kvs a = None" by (simp add: map_of_eq_None_iff)
  with Cons kv show ?case by (auto simp: lookup_upd split: option.splits)
qed simp

lemma lookup_fold_del:
  "lookup (fold del ks m) k = (if k \<in> set ks then None else lookup m k)"
  by (induction ks arbitrary: m) (auto simp: lookup_del)

lemma wf_fold_del: "wf m \<Longrightarrow> wf (fold del ks m)"
  by (induction ks arbitrary: m) (auto simp: wf_del)

end

interpretation jm: dictionary jm_get jm_set jm_delete jm_wf
  by unfold_locales
    (auto simp: jm_get_def jm_set_def jm_delete_def jm_wf_def fun_eq_iff update_conv'
      delete_conv' distinct_update intro: distinct_delete)

lemmas jm_lookup [simp] = jm.lookup_upd jm.lookup_del

lemma jm_get_Nil [simp]: "jm_get [] k = None"
  by (simp add: jm_get_def)

lemma jm_has_iff [simp]: "jm_has m k \<longleftrightarrow> jm_get m k \<noteq> None"
  by (simp add: jm_has_def jm_get_def)

lemma jm_values_set: "jm_wf m \<Longrightarrow> v \<in> set (jm_values m) \<longleftrightarrow> (\<exists>k. jm_get m k = Some v)"
  by (force simp: jm_values_def jm_wf_def jm_get_def map_of_eq_Some_iff image_iff)

end
