(* ===== verification/G9P_Text.thy ===== *)
theory G9P_Text
  imports G9P_Prelude
begin

text \<open>
  Text as the code has it: JavaScript strings are sequences of 16-bit code units, written to
  buffers as UTF-8 (\<open>Buffer.from(text, "utf8")\<close>) and read back by the strict decoder
  \<open>TextDecoder("utf-8", { fatal: true })\<close>. Also decimal and hexadecimal text and the canonical
  timestamps every component compares.
\<close>

type_synonym jsstr = "16 word list"

text \<open>An ASCII literal of the source as a JavaScript string.\<close>

definition js :: "string \<Rightarrow> jsstr" where
  "js s = map (\<lambda>c. of_nat (of_char c)) s"

lemma js_Nil [simp]: "js [] = []"
  by (simp add: js_def)

lemma js_Cons [simp]: "js (c # s) = of_nat (of_char c) # js s"
  by (simp add: js_def)

lemma js_append: "js (s @ t) = js s @ js t"
  by (simp add: js_def)

lemma length_js [simp]: "length (js s) = length s"
  by (simp add: js_def)

lemma unat_code_unit [simp]: "unat (of_nat (of_char c) :: 16 word) = of_char c"
proof -
  have "(of_char c :: nat) < 65536"
    by (rule less_trans [OF nat_of_char_less_256]) simp
  then show ?thesis by (simp add: unat_of_nat)
qed

lemma inj_code_unit:
  assumes "(of_nat (of_char c) :: 16 word) = of_nat (of_char d)"
  shows "c = d"
proof -
  from assms have "(of_char c :: nat) = of_char d"
    by (metis unat_code_unit)
  then show ?thesis by simp
qed

lemma js_eq_iff [simp]: "js s = js t \<longleftrightarrow> s = t"
  unfolding js_def by (rule inj_map_eq_map) (rule injI, erule inj_code_unit)

lemma js_eq_Nil [simp]: "js s = [] \<longleftrightarrow> s = []"
  by (cases s) simp_all

section \<open>UTF-8\<close>

definition is_high_surrogate :: "nat \<Rightarrow> bool" where
  "is_high_surrogate u = (0xD800 \<le> u \<and> u \<le> 0xDBFF)"

definition is_low_surrogate :: "nat \<Rightarrow> bool" where
  "is_low_surrogate u = (0xDC00 \<le> u \<and> u \<le> 0xDFFF)"

definition is_surrogate :: "nat \<Rightarrow> bool" where
  "is_surrogate u = (0xD800 \<le> u \<and> u \<le> 0xDFFF)"

definition pair_code_point :: "nat \<Rightarrow> nat \<Rightarrow> nat" where
  "pair_code_point hi lo = 0x10000 + (hi - 0xD800) * 0x400 + (lo - 0xDC00)"

text \<open>Unpaired surrogates are written as U+FFFD.\<close>

fun code_points :: "jsstr \<Rightarrow> nat list" where
  "code_points [] = []"
| "code_points [u] = [if is_surrogate (unat u) then 0xFFFD else unat u]"
| "code_points (u # v # us) =
     (if is_high_surrogate (unat u) \<and> is_low_surrogate (unat v)
      then pair_code_point (unat u) (unat v) # code_points us
      else (if is_surrogate (unat u) then 0xFFFD else unat u) # code_points (v # us))"

definition utf8_code_point :: "nat \<Rightarrow> byte list" where
  "utf8_code_point cp =
     (if cp < 0x80 then [of_nat cp]
      else if cp < 0x800 then [of_nat (0xC0 + cp div 64), of_nat (0x80 + cp mod 64)]
      else if cp < 0x10000 then
        [of_nat (0xE0 + cp div 4096), of_nat (0x80 + cp div 64 mod 64), of_nat (0x80 + cp mod 64)]
      else
        [of_nat (0xF0 + cp div 262144), of_nat (0x80 + cp div 4096 mod 64),
         of_nat (0x80 + cp div 64 mod 64), of_nat (0x80 + cp mod 64)])"

definition utf8 :: "jsstr \<Rightarrow> byte list" where
  "utf8 s = concat (map utf8_code_point (code_points s))"

definition is_continuation :: "nat \<Rightarrow> bool" where
  "is_continuation b = (0x80 \<le> b \<and> b \<le> 0xBF)"

text \<open>
  One code point off the front of a buffer, \<open>None\<close> where the strict decoder throws: overlong
  forms, encoded surrogates, values above U+10FFFF and truncated sequences.
\<close>

fun decode_code_point :: "byte list \<Rightarrow> (nat \<times> byte list) option" where
  "decode_code_point [] = None"
| "decode_code_point (b # bs) =
     (let n = unat b in
      if n < 0x80 then Some (n, bs)
      else if 0xC2 \<le> n \<and> n \<le> 0xDF then
        (case bs of
          c1 # rest \<Rightarrow>
            if is_continuation (unat c1) then Some ((n - 0xC0) * 64 + (unat c1 - 0x80), rest)
            else None
        | _ \<Rightarrow> None)
      else if 0xE0 \<le> n \<and> n \<le> 0xEF then
        (case bs of
          c1 # c2 # rest \<Rightarrow>
            if is_continuation (unat c1) \<and> is_continuation (unat c2)
               \<and> (n = 0xE0 \<longrightarrow> 0xA0 \<le> unat c1) \<and> (n = 0xED \<longrightarrow> unat c1 \<le> 0x9F)
            then Some ((n - 0xE0) * 4096 + (unat c1 - 0x80) * 64 + (unat c2 - 0x80), rest)
            else None
        | _ \<Rightarrow> None)
      else if 0xF0 \<le> n \<and> n \<le> 0xF4 then
        (case bs of
          c1 # c2 # c3 # rest \<Rightarrow>
            if is_continuation (unat c1) \<and> is_continuation (unat c2) \<and> is_continuation (unat c3)
               \<and> (n = 0xF0 \<longrightarrow> 0x90 \<le> unat c1) \<and> (n = 0xF4 \<longrightarrow> unat c1 \<le> 0x8F)
            then Some ((n - 0xF0) * 262144 + (unat c1 - 0x80) * 4096
                       + (unat c2 - 0x80) * 64 + (unat c3 - 0x80), rest)
            else None
        | _ \<Rightarrow> None)
      else None)"

lemma decode_code_point_shorter:
  "decode_code_point bs = Some (cp, rest) \<Longrightarrow> length rest < length bs"
  by (cases bs) (auto simp: Let_def split: if_splits list.splits)

function decode_code_points :: "byte list \<Rightarrow> nat list option" where
  "decode_code_points bs =
     (if bs = [] then Some []
      else case decode_code_point bs of
          None \<Rightarrow> None
        | Some (cp, rest) \<Rightarrow> map_option (Cons cp) (decode_code_points rest))"
  by pat_completeness auto
termination
  by (relation "measure length") (auto dest: decode_code_point_shorter)

declare decode_code_points.simps [simp del]

definition code_units :: "nat \<Rightarrow> jsstr" where
  "code_units cp =
     (if cp < 0x10000 then [of_nat cp]
      else [of_nat (0xD800 + (cp - 0x10000) div 0x400), of_nat (0xDC00 + (cp - 0x10000) mod 0x400)])"

definition byte_order_mark :: nat where
  "byte_order_mark = 0xFEFF"

text \<open>
  \<open>TextDecoder\<close> is built without \<open>ignoreBOM\<close>, so a byte order mark at the front of the input
  is consumed and does not appear in the result.
\<close>

definition text_decode :: "byte list \<Rightarrow> jsstr option" where
  "text_decode bs =
     (case decode_code_points bs of
        None \<Rightarrow> None
      | Some cps \<Rightarrow>
          Some (concat (map code_units
            (case cps of [] \<Rightarrow> [] | c # cs \<Rightarrow> if c = byte_order_mark then cs else cps))))"

subsection \<open>Well-formed text\<close>

fun well_formed_utf16 :: "jsstr \<Rightarrow> bool" where
  "well_formed_utf16 [] = True"
| "well_formed_utf16 [u] = (\<not> is_surrogate (unat u))"
| "well_formed_utf16 (u # v # us) =
     (if is_high_surrogate (unat u) \<and> is_low_surrogate (unat v) then well_formed_utf16 us
      else \<not> is_surrogate (unat u) \<and> well_formed_utf16 (v # us))"

definition starts_with_bom :: "jsstr \<Rightarrow> bool" where
  "starts_with_bom s = (case s of [] \<Rightarrow> False | u # _ \<Rightarrow> unat u = byte_order_mark)"

definition portable_text :: "jsstr \<Rightarrow> bool" where
  "portable_text s = (well_formed_utf16 s \<and> \<not> starts_with_bom s)"

definition scalar_value :: "nat \<Rightarrow> bool" where
  "scalar_value cp = (cp < 0x110000 \<and> \<not> is_surrogate cp)"

lemma unat16_less: "unat (u :: 16 word) < 65536"
  using unsigned_less [where ?'a = nat, of u] by simp

lemma scalar_code_points: "cp \<in> set (code_points s) \<Longrightarrow> scalar_value cp"
proof (induction s rule: code_points.induct)
  case (2 u)
  then show ?case using unat16_less [of u]
    by (auto simp: scalar_value_def is_surrogate_def split: if_splits)
next
  case (3 u v us)
  then show ?case using unat16_less [of u]
    by (auto simp: scalar_value_def is_surrogate_def is_high_surrogate_def is_low_surrogate_def
      pair_code_point_def split: if_splits)
qed simp

lemma of_nat_unat16 [simp]: "of_nat (unat (u :: 16 word)) = u"
  by simp

lemma code_units_pair:
  assumes "is_high_surrogate (unat u)" and "is_low_surrogate (unat v)"
  shows "code_units (pair_code_point (unat u) (unat v)) = [u, v]"
proof -
  have h: "0xD800 \<le> unat u" "unat u \<le> 0xDBFF" and l: "0xDC00 \<le> unat v" "unat v \<le> 0xDFFF"
    using assms by (simp_all add: is_high_surrogate_def is_low_surrogate_def)
  define a b where "a = unat u - 0xD800" and "b = unat v - 0xDC00"
  have b: "b < 0x400" using l by (simp add: b_def)
  have "(0x10000 + a * 0x400 + b - 0x10000) div 0x400 = a"
    and "(0x10000 + a * 0x400 + b - 0x10000) mod 0x400 = b"
    using b by simp_all
  moreover have "(of_nat (0xD800 + a) :: 16 word) = u" and "(of_nat (0xDC00 + b) :: 16 word) = v"
    using h l by (simp_all only: a_def b_def le_add_diff_inverse of_nat_unat16)
  ultimately show ?thesis
    by (simp add: code_units_def pair_code_point_def a_def [symmetric] b_def [symmetric]
      del: of_nat_add of_nat_numeral)
qed

lemma code_units_code_points:
  "well_formed_utf16 s \<Longrightarrow> concat (map code_units (code_points s)) = s"
proof (induction s rule: code_points.induct)
  case (2 u)
  then show ?case using unat16_less [of u] by (simp add: code_units_def)
next
  case (3 u v us)
  show ?case
  proof (cases "is_high_surrogate (unat u) \<and> is_low_surrogate (unat v)")
    case True
    with 3 show ?thesis by (simp add: code_units_pair)
  next
    case False
    with 3 have "\<not> is_surrogate (unat u)" and "well_formed_utf16 (v # us)"
      by (simp_all split: if_splits)
    with 3 False unat16_less [of u] show ?thesis by (auto simp: code_units_def)
  qed
qed simp

lemma decode_code_point_utf8:
  assumes "scalar_value cp"
  shows "decode_code_point (utf8_code_point cp @ rest) = Some (cp, rest)"
proof -
  have range: "cp < 0x110000" and nosur: "\<not> (0xD800 \<le> cp \<and> cp \<le> 0xDFFF)"
    using assms by (simp_all add: scalar_value_def is_surrogate_def)
  consider "cp < 0x80" | "0x80 \<le> cp" "cp < 0x800" | "0x800 \<le> cp" "cp < 0x10000"
    | "0x10000 \<le> cp" by linarith
  then show ?thesis
  proof cases
    case 1
    then show ?thesis by (simp add: utf8_code_point_def)
  next
    case 2
    define q r where "q = cp div 64" and "r = cp mod 64"
    have cp: "cp = q * 64 + r" and r: "r < 64" by (simp_all add: q_def r_def)
    have q: "2 \<le> q" "q < 32" using 2 by (simp_all add: q_def)
    have "utf8_code_point cp = [of_nat (0xC0 + q), of_nat (0x80 + r)]"
      using 2 by (simp add: utf8_code_point_def q_def r_def)
    then show ?thesis
      using q r by (simp add: Let_def is_continuation_def cp del: of_nat_add of_nat_numeral)
  next
    case 3
    define q m r where "q = cp div 4096" and "m = cp div 64 mod 64" and "r = cp mod 64"
    have "cp div 64 = q * 64 + m"
      by (simp add: q_def m_def div_mult2_eq [of cp 64 64, simplified])
    then have cp: "cp = q * 4096 + m * 64 + r"
      using div_mult_mod_eq [of cp 64] by (simp add: r_def)
    have r: "r < 64" and m: "m < 64" and q: "q < 16" using 3 by (simp_all add: q_def m_def r_def)
    have low: "q = 0 \<Longrightarrow> 32 \<le> m" and high: "q = 13 \<Longrightarrow> m \<le> 31"
      using 3 nosur cp r m by linarith+
    have "utf8_code_point cp = [of_nat (0xE0 + q), of_nat (0x80 + m), of_nat (0x80 + r)]"
      using 3 by (simp add: utf8_code_point_def q_def r_def m_def)
    then show ?thesis
      using q m r low high
      by (simp add: Let_def is_continuation_def cp del: of_nat_add of_nat_numeral)
  next
    case 4
    define q l m r where "q = cp div 262144" and "l = cp div 4096 mod 64"
      and "m = cp div 64 mod 64" and "r = cp mod 64"
    have "cp div 4096 = q * 64 + l"
      by (simp add: q_def l_def div_mult2_eq [of cp 4096 64, simplified])
    moreover have "cp div 64 = (cp div 4096) * 64 + m"
      by (simp add: m_def div_mult2_eq [of cp 64 64, simplified])
    ultimately have cp: "cp = q * 262144 + l * 4096 + m * 64 + r"
      using div_mult_mod_eq [of cp 64] by (simp add: r_def)
    have r: "r < 64" and m: "m < 64" and l: "l < 64" and q: "q < 5"
      using range by (simp_all add: q_def l_def m_def r_def)
    have low: "q = 0 \<Longrightarrow> 16 \<le> l" and high: "q = 4 \<Longrightarrow> l \<le> 15"
      using 4 range cp r m l by linarith+
    have "utf8_code_point cp =
        [of_nat (0xF0 + q), of_nat (0x80 + l), of_nat (0x80 + m), of_nat (0x80 + r)]"
      using 4 by (simp add: utf8_code_point_def q_def l_def r_def m_def)
    then show ?thesis
      using q l m r low high
      by (simp add: Let_def is_continuation_def cp del: of_nat_add of_nat_numeral)
  qed
qed

lemma utf8_code_point_nonempty: "utf8_code_point cp \<noteq> []"
  by (simp add: utf8_code_point_def)

lemma decode_code_points_utf8:
  "(\<And>cp. cp \<in> set cps \<Longrightarrow> scalar_value cp) \<Longrightarrow>
   decode_code_points (concat (map utf8_code_point cps)) = Some cps"
proof (induction cps)
  case Nil
  then show ?case by (simp add: decode_code_points.simps)
next
  case (Cons cp cps)
  then have "scalar_value cp"
    and "decode_code_points (concat (map utf8_code_point cps)) = Some cps" by simp_all
  then show ?case
    using decode_code_points.simps [of "concat (map utf8_code_point (cp # cps))"]
    by (simp add: decode_code_point_utf8 utf8_code_point_nonempty)
qed

lemma code_points_bom:
  "well_formed_utf16 s \<Longrightarrow> code_points s = cp # cps \<Longrightarrow> cp = byte_order_mark \<longleftrightarrow> starts_with_bom s"
  by (induction s rule: code_points.induct)
    (auto simp: starts_with_bom_def byte_order_mark_def pair_code_point_def is_surrogate_def
      is_high_surrogate_def is_low_surrogate_def split: if_splits)

lemma text_decode_utf8:
  assumes "portable_text s"
  shows "text_decode (utf8 s) = Some s"
proof -
  have wf: "well_formed_utf16 s" and nobom: "\<not> starts_with_bom s"
    using assms by (simp_all add: portable_text_def)
  have "decode_code_points (utf8 s) = Some (code_points s)"
    unfolding utf8_def by (rule decode_code_points_utf8) (rule scalar_code_points)
  moreover have "(case code_points s of [] \<Rightarrow> [] | c # cs \<Rightarrow> if c = byte_order_mark then cs else code_points s)
      = code_points s"
    using code_points_bom [OF wf] nobom by (cases "code_points s") auto
  ultimately show ?thesis
    by (simp add: text_decode_def code_units_code_points [OF wf])
qed

lemma utf8_inj: "portable_text s \<Longrightarrow> portable_text t \<Longrightarrow> utf8 s = utf8 t \<Longrightarrow> s = t"
  by (metis option.inject text_decode_utf8)

lemma code_points_bom_Cons:
  assumes "unat u = byte_order_mark"
  shows "code_points (u # s) = byte_order_mark # code_points s"
    and "well_formed_utf16 (u # s) = well_formed_utf16 s"
proof -
  have u: "\<not> is_high_surrogate (unat u)" "\<not> is_surrogate (unat u)"
    using assms by (simp_all add: byte_order_mark_def is_high_surrogate_def is_surrogate_def)
  then show "code_points (u # s) = byte_order_mark # code_points s"
    using assms by (cases s) simp_all
  from u show "well_formed_utf16 (u # s) = well_formed_utf16 s" by (cases s) simp_all
qed

lemma utf8_bom_Cons: "unat u = byte_order_mark \<Longrightarrow> utf8 (u # s) = utf8_code_point byte_order_mark @ utf8 s"
  by (simp add: utf8_def code_points_bom_Cons)

text \<open>A string that starts with a byte order mark loses it on the way through.\<close>

lemma text_decode_bom:
  assumes "well_formed_utf16 (u # s)" and "unat u = byte_order_mark"
  shows "text_decode (utf8 (u # s)) = Some s"
proof -
  have cps: "code_points (u # s) = byte_order_mark # code_points s" and "well_formed_utf16 s"
    using assms(1) by (simp_all add: code_points_bom_Cons assms(2))
  moreover have "scalar_value cp" if "cp \<in> set (byte_order_mark # code_points s)" for cp
    using that scalar_code_points [of cp "u # s"] cps by simp
  then have "decode_code_points (concat (map utf8_code_point (byte_order_mark # code_points s)))
      = Some (byte_order_mark # code_points s)"
    by (rule decode_code_points_utf8)
  ultimately show ?thesis
    by (simp add: text_decode_def utf8_def cps code_units_code_points del: list.map concat.simps)
qed

lemma of_char_le: "(of_char c :: nat) \<le> 255"
  using nat_of_char_less_256 [of c] by linarith

lemma not_surrogate_char [simp]: "\<not> is_surrogate (of_char c)"
  using of_char_le [of c] by (simp add: is_surrogate_def)

lemma not_high_surrogate_char [simp]: "\<not> is_high_surrogate (of_char c)"
  using of_char_le [of c] by (simp add: is_high_surrogate_def)

lemma portable_js [simp]: "portable_text (js s)"
proof -
  have "well_formed_utf16 (js s)"
  proof (induction s)
    case (Cons c s)
    then show ?case by (cases s) simp_all
  qed simp
  moreover have "\<not> starts_with_bom (js s)"
  proof (cases s)
    case (Cons c t)
    have "(of_char c :: nat) \<noteq> 65279" using of_char_le [of c] by linarith
    then show ?thesis by (simp add: Cons starts_with_bom_def byte_order_mark_def)
  qed (simp add: starts_with_bom_def)
  ultimately show ?thesis by (simp add: portable_text_def)
qed

lemma utf8_Nil [simp]: "utf8 [] = []"
  by (simp add: utf8_def)

section \<open>Decimal and hexadecimal text\<close>

fun decimal_digits :: "nat \<Rightarrow> nat list" where
  "decimal_digits n = (if n < 10 then [n] else decimal_digits (n div 10) @ [n mod 10])"

declare decimal_digits.simps [simp del]

definition digit_unit :: "nat \<Rightarrow> 16 word" where
  "digit_unit d = of_nat (48 + d)"

text \<open>\<open>index.toString()\<close> of a non-negative integer, and \<open>padStart(width, "0")\<close>.\<close>

definition decimal :: "nat \<Rightarrow> jsstr" where
  "decimal n = map digit_unit (decimal_digits n)"

definition pad_start :: "nat \<Rightarrow> jsstr \<Rightarrow> jsstr" where
  "pad_start width s = replicate (width - length s) (digit_unit 0) @ s"

definition padded :: "nat \<Rightarrow> nat \<Rightarrow> jsstr" where
  "padded width n = pad_start width (decimal n)"

definition is_digit :: "16 word \<Rightarrow> bool" where
  "is_digit u = (48 \<le> unat u \<and> unat u \<le> 57)"

definition digits_value :: "jsstr \<Rightarrow> nat" where
  "digits_value s = foldl (\<lambda>v u. v * 10 + (unat u - 48)) 0 s"

lemma unat_digit_unit: "d < 10 \<Longrightarrow> unat (digit_unit d) = 48 + d"
proof -
  assume "d < 10"
  then have "unat (of_nat (48 + d) :: 16 word) = 48 + d"
    by (subst unat_of_nat) simp
  then show ?thesis by (simp only: digit_unit_def)
qed

lemma decimal_digits_small: "d \<in> set (decimal_digits n) \<Longrightarrow> d < 10"
proof (induction n rule: decimal_digits.induct)
  case (1 n)
  then show ?case by (subst (asm) (2) decimal_digits.simps) (auto split: if_splits)
qed

lemma digits_value_snoc: "digits_value (s @ [u]) = digits_value s * 10 + (unat u - 48)"
  by (simp add: digits_value_def)

lemma digits_value_decimal: "digits_value (decimal n) = n"
proof (induction n rule: decimal_digits.induct)
  case (1 n)
  show ?case
  proof (cases "n < 10")
    case True
    then show ?thesis
      by (simp add: decimal_def decimal_digits.simps digits_value_def unat_digit_unit)
  next
    case False
    then have "decimal n = decimal (n div 10) @ [digit_unit (n mod 10)]"
      by (simp add: decimal_def decimal_digits.simps [of n])
    then show ?thesis using 1 False by (simp add: digits_value_snoc unat_digit_unit)
  qed
qed

lemma digits_value_pad: "digits_value (replicate k (digit_unit 0) @ s) = digits_value s"
  by (induction k) (simp_all add: digits_value_def unat_digit_unit)

lemma digits_value_padded: "digits_value (padded w n) = n"
  by (simp add: padded_def pad_start_def digits_value_pad digits_value_decimal)

lemma padded_inj: "padded w n = padded w m \<longleftrightarrow> n = m"
  by (metis digits_value_padded)

lemma is_digit_padded: "u \<in> set (padded w n) \<Longrightarrow> is_digit u"
  by (auto simp: padded_def pad_start_def decimal_def is_digit_def unat_digit_unit
    dest: decimal_digits_small)

lemma length_decimal: "0 < k \<Longrightarrow> n < 10 ^ k \<Longrightarrow> length (decimal_digits n) \<le> k"
proof (induction k arbitrary: n)
  case (Suc k)
  show ?case
  proof (cases "n < 10")
    case True
    then show ?thesis by (subst decimal_digits.simps) simp
  next
    case False
    with Suc.prems have "0 < k" by (cases k) simp_all
    moreover have "n div 10 < 10 ^ k"
      using Suc.prems by (simp add: less_mult_imp_div_less mult.commute)
    ultimately show ?thesis
      using Suc.IH [of "n div 10"] False by (subst decimal_digits.simps) simp
  qed
qed simp

lemma length_padded: "0 < w \<Longrightarrow> n < 10 ^ w \<Longrightarrow> length (padded w n) = w"
  using length_decimal [of w n] by (simp add: padded_def pad_start_def decimal_def)

lemma decimal_digits_lower: "10 ^ k \<le> n \<Longrightarrow> k < length (decimal_digits n)"
proof (induction k arbitrary: n)
  case 0
  then show ?case by (subst decimal_digits.simps) simp
next
  case (Suc k)
  then have "10 ^ k \<le> n div 10" and "\<not> n < 10"
    by (simp_all add: less_eq_div_iff_mult_less_eq mult.commute)
       (metis Suc.prems le_trans less_eq_nat.simps(1) linorder_not_le mult_le_mono1 mult_1 one_le_numeral one_le_power power_Suc2 order.strict_trans1)
  with Suc.IH [of "n div 10"] show ?case by (subst decimal_digits.simps) simp
qed

lemma length_padded_wide: "10 ^ w \<le> n \<Longrightarrow> w < length (padded w n)"
  using decimal_digits_lower [of w n] by (simp add: padded_def pad_start_def decimal_def)

definition hex_unit :: "nat \<Rightarrow> 16 word" where
  "hex_unit d = of_nat (if d < 10 then 48 + d else 87 + d)"

definition to_hex :: "byte list \<Rightarrow> jsstr" where
  "to_hex bs = concat (map (\<lambda>b. [hex_unit (unat b div 16), hex_unit (unat b mod 16)]) bs)"

definition is_lower_hex :: "16 word \<Rightarrow> bool" where
  "is_lower_hex u = (48 \<le> unat u \<and> unat u \<le> 57 \<or> 97 \<le> unat u \<and> unat u \<le> 102)"

definition hex_value :: "16 word \<Rightarrow> nat" where
  "hex_value u = (if unat u \<le> 57 then unat u - 48 else unat u - 87)"

fun hex_bytes :: "jsstr \<Rightarrow> byte list" where
  "hex_bytes (h # l # us) = of_nat (hex_value h * 16 + hex_value l) # hex_bytes us"
| "hex_bytes _ = []"

definition from_hex :: "jsstr \<Rightarrow> nat option \<Rightarrow> byte list res" where
  "from_hex value expectedBytes =
     andThen (invariant (value \<noteq> [] \<and> list_all is_lower_hex value \<and> length value mod 2 = 0)
       ''HEX_VALUE'')
     (case expectedBytes of
        None \<Rightarrow> Inr (hex_bytes value)
      | Some n \<Rightarrow>
          andThen (invariant (length (hex_bytes value) = n) ''HEX_LENGTH'') (Inr (hex_bytes value)))"

text \<open>The pattern \<open>/^[0-9a-f]{64}$/u\<close> the code tests identifiers with.\<close>

definition is_hex64 :: "jsstr \<Rightarrow> bool" where
  "is_hex64 s = (length s = 64 \<and> list_all is_lower_hex s)"

lemma unat_hex_unit: "d < 16 \<Longrightarrow> unat (hex_unit d) = (if d < 10 then 48 + d else 87 + d)"
proof -
  assume "d < 16"
  then have "unat (of_nat (if d < 10 then 48 + d else 87 + d) :: 16 word)
      = (if d < 10 then 48 + d else 87 + d)"
    by (subst unat_of_nat) simp
  then show ?thesis by (simp only: hex_unit_def)
qed

lemma hex_value_hex_unit: "d < 16 \<Longrightarrow> hex_value (hex_unit d) = d"
  by (simp add: hex_value_def unat_hex_unit)

lemma unat8_less: "unat (b :: byte) < 256"
  using unsigned_less [where ?'a = nat, of b] by simp

lemma hex_bytes_to_hex: "hex_bytes (to_hex bs) = bs"
proof (induction bs)
  case (Cons b bs)
  have "unat b div 16 < 16" using unat8_less [of b] by simp
  then have "hex_value (hex_unit (unat b div 16)) * 16 + hex_value (hex_unit (unat b mod 16)) = unat b"
    by (simp add: hex_value_hex_unit)
  with Cons show ?case by (simp add: to_hex_def del: of_nat_add of_nat_mult)
qed (simp add: to_hex_def)

lemma to_hex_inj: "to_hex as = to_hex bs \<longleftrightarrow> as = bs"
  by (metis hex_bytes_to_hex)

lemma length_to_hex [simp]: "length (to_hex bs) = 2 * length bs"
  by (induction bs) (simp_all add: to_hex_def)

lemma is_lower_hex_hex_unit: "d < 16 \<Longrightarrow> is_lower_hex (hex_unit d)"
  by (auto simp: is_lower_hex_def unat_hex_unit)

lemma lower_hex_to_hex: "list_all is_lower_hex (to_hex bs)"
proof (induction bs)
  case (Cons b bs)
  have "unat b div 16 < 16" using unat8_less [of b] by simp
  with Cons show ?case by (simp add: to_hex_def is_lower_hex_hex_unit)
qed (simp add: to_hex_def)

lemma is_hex64_to_hex: "length bs = 32 \<Longrightarrow> is_hex64 (to_hex bs)"
  by (simp add: is_hex64_def lower_hex_to_hex)

lemma from_hex_to_hex: "bs \<noteq> [] \<Longrightarrow> n = length bs \<Longrightarrow> from_hex (to_hex bs) (Some n) = Inr bs"
proof -
  assume "bs \<noteq> []" and "n = length bs"
  moreover from this have "to_hex bs \<noteq> []"
    by (metis length_0_conv length_to_hex mult_eq_0_iff zero_neq_numeral)
  ultimately show ?thesis by (simp add: from_hex_def lower_hex_to_hex hex_bytes_to_hex)
qed

section \<open>Canonical timestamps\<close>

text \<open>
  The code accepts a timestamp exactly when \<open>new Date(value)\<close> is valid and
  \<open>toISOString()\<close> gives the same text back: the fixed-width UTC form of a real calendar date,
  years outside 0 to 9999 with a sign and six digits, within the range of a \<open>Date\<close>. The result
  is the time in milliseconds (\<open>valueOf()\<close>), \<open>None\<close> where the comparison fails.
\<close>

definition leap_year :: "int \<Rightarrow> bool" where
  "leap_year y = (y mod 4 = 0 \<and> (y mod 100 \<noteq> 0 \<or> y mod 400 = 0))"

definition days_in_month :: "int \<Rightarrow> int \<Rightarrow> int" where
  "days_in_month y m =
     (if m = 2 then (if leap_year y then 29 else 28)
      else if m \<in> {4, 6, 9, 11} then 30 else 31)"

definition days_from_civil :: "int \<Rightarrow> int \<Rightarrow> int \<Rightarrow> int" where
  "days_from_civil y m d =
     (let y' = (if m \<le> 2 then y - 1 else y); era = y' div 400; yoe = y' - era * 400;
          doy = (153 * (m + (if 2 < m then -3 else 9)) + 2) div 5 + d - 1;
          doe = yoe * 365 + yoe div 4 - yoe div 100 + doy
      in era * 146097 + doe - 719468)"

definition field_value :: "nat \<Rightarrow> nat \<Rightarrow> jsstr \<Rightarrow> int" where
  "field_value start len s = int (digits_value (take len (drop start s)))"

definition tail_form :: "jsstr \<Rightarrow> bool" where
  "tail_form t =
     (length t = 20
      \<and> list_all (\<lambda>i. is_digit (t ! i)) [1, 2, 4, 5, 7, 8, 10, 11, 13, 14, 16, 17, 18]
      \<and> t ! 0 = of_nat 45 \<and> t ! 3 = of_nat 45 \<and> t ! 6 = of_nat 84 \<and> t ! 9 = of_nat 58
      \<and> t ! 12 = of_nat 58 \<and> t ! 15 = of_nat 46 \<and> t ! 19 = of_nat 90)"

definition split_year :: "jsstr \<Rightarrow> (int \<times> jsstr) option" where
  "split_year s =
     (case s of [] \<Rightarrow> None
      | u # us \<Rightarrow>
          if u = of_nat 43 \<or> u = of_nat 45 then
            (let y = field_value 0 6 us in
             if list_all is_digit (take 6 us) \<and> 6 \<le> length us
                \<and> (if u = of_nat 43 then 10000 \<le> y else 1 \<le> y)
             then Some ((if u = of_nat 43 then y else - y), drop 6 us) else None)
          else if list_all is_digit (take 4 s) \<and> 4 \<le> length s
          then Some (field_value 0 4 s, drop 4 s) else None)"

definition canonical_time :: "jsstr \<Rightarrow> int option" where
  "canonical_time s =
     (case split_year s of
        None \<Rightarrow> None
      | Some (y, t) \<Rightarrow>
          if \<not> tail_form t then None
          else
            (let mo = field_value 1 2 t; d = field_value 4 2 t; h = field_value 7 2 t;
                 mi = field_value 10 2 t; se = field_value 13 2 t; ms = field_value 16 3 t;
                 time = (((days_from_civil y mo d * 24 + h) * 60 + mi) * 60 + se) * 1000 + ms
             in if 1 \<le> mo \<and> mo \<le> 12 \<and> 1 \<le> d \<and> d \<le> days_in_month y mo
                   \<and> h < 24 \<and> mi < 60 \<and> se < 60
                   \<and> \<bar>time\<bar> \<le> 8640000000000000
                then Some time else None))"

definition is_canonical_timestamp :: "jsstr \<Rightarrow> bool" where
  "is_canonical_timestamp s = (canonical_time s \<noteq> None)"

subsection \<open>Plain ASCII text\<close>

definition plain_ascii :: "jsstr \<Rightarrow> bool" where
  "plain_ascii s = list_all (\<lambda>u. unat u < 128) s"

lemma plain_ascii_append [simp]: "plain_ascii (s @ t) \<longleftrightarrow> plain_ascii s \<and> plain_ascii t"
  by (simp add: plain_ascii_def)

lemma plain_ascii_portable: "plain_ascii s \<Longrightarrow> portable_text s"
proof -
  assume s: "plain_ascii s"
  then have "well_formed_utf16 s"
  proof (induction s rule: well_formed_utf16.induct)
    case (3 u v us)
    then show ?case by (auto simp: plain_ascii_def is_surrogate_def is_high_surrogate_def)
  qed (auto simp: plain_ascii_def is_surrogate_def)
  with s show ?thesis
    by (cases s) (auto simp: portable_text_def starts_with_bom_def byte_order_mark_def plain_ascii_def)
qed

lemma is_digit_ascii: "is_digit u \<Longrightarrow> unat u < 128"
  by (simp add: is_digit_def)

lemma to_hex_portable: "portable_text (to_hex bs)"
proof (rule plain_ascii_portable)
  show "plain_ascii (to_hex bs)"
    using lower_hex_to_hex [of bs] by (auto simp: plain_ascii_def list_all_iff is_lower_hex_def)
qed

lemma tail_form_ascii: "tail_form t \<Longrightarrow> plain_ascii t"
proof -
  assume t: "tail_form t"
  have "unat (t ! i) < 128" if "i < 20" for i
  proof -
    from that have "i \<in> {0,3,6,9,12,15,19} \<or> i \<in> set [1, 2, 4, 5, 7, 8, 10, 11, 13, 14, 16, 17, 18]"
      by simp presburger
    then show ?thesis
    proof
      assume "i \<in> {0,3,6,9,12,15,19}"
      then show ?thesis using t by (auto simp: tail_form_def)
    next
      assume "i \<in> set [1, 2, 4, 5, 7, 8, 10, 11, 13, 14, 16, 17, 18]"
      then have "is_digit (t ! i)" using t by (auto simp: tail_form_def list_all_iff simp del: list.set)
      then show ?thesis by (rule is_digit_ascii)
    qed
  qed
  then show ?thesis using t by (auto simp: plain_ascii_def list_all_length tail_form_def)
qed

lemma take_drop_ascii: "plain_ascii (take n s) \<Longrightarrow> plain_ascii (drop n s) \<Longrightarrow> plain_ascii s"
  by (metis append_take_drop_id plain_ascii_append)

lemma canonical_timestamp_portable: "is_canonical_timestamp s \<Longrightarrow> portable_text s"
proof (rule plain_ascii_portable)
  assume "is_canonical_timestamp s"
  then obtain y t where split: "split_year s = Some (y, t)" and t: "tail_form t"
    by (auto simp: is_canonical_timestamp_def canonical_time_def split: option.splits if_splits prod.splits)
  have digits: "plain_ascii ds" if "list_all is_digit ds" for ds
    using that by (auto simp: plain_ascii_def list_all_iff is_digit_ascii)
  from split consider u us where "s = u # us" "u = of_nat 43 \<or> u = of_nat 45" "list_all is_digit (take 6 us)" "t = drop 6 us"
    | "list_all is_digit (take 4 s)" "t = drop 4 s"
    by (auto simp: split_year_def Let_def split: list.splits if_splits)
  then show "plain_ascii s"
  proof cases
    case 1
    then have "plain_ascii us" using t tail_form_ascii digits take_drop_ascii by blast
    with 1 show ?thesis by (auto simp: plain_ascii_def)
  next
    case 2
    then show ?thesis using t tail_form_ascii digits take_drop_ascii by blast
  qed
qed

end
