(* ===== verification/G9P_Codec.thy ===== *)
theory G9P_Codec
  imports G9P_Text
begin

text \<open>
  The deterministic value encoding (src/src/codec/canonical.js): the JavaScript values it
  carries, the encoder with its limits, and the strict decoder. The decoder's buffer and offset
  are represented by the unread rest of the buffer.
\<close>

section \<open>Values\<close>

text \<open>
  A number is \<open>JInt i\<close> when it is a safe integer (both zeros are \<open>JInt 0\<close>) and \<open>JDbl w\<close>, by its
  IEEE-754 bits, otherwise. Objects are plain objects with their properties in order;
  \<open>JOther\<close> is any bigint, symbol or function.
\<close>

datatype jsval =
    JUndef
  | JNull
  | JBool bool
  | JInt int
  | JDbl "64 word"
  | JStr jsstr
  | JBytes "byte list"
  | JArr "jsval list"
  | JObj "(jsstr \<times> jsval) list"
  | JOther

definition dbl_exponent :: "64 word \<Rightarrow> nat" where
  "dbl_exponent w = unat (drop_bit 52 w) mod 2048"

definition dbl_mantissa :: "64 word \<Rightarrow> nat" where
  "dbl_mantissa w = unat w mod 2 ^ 52"

definition dbl_is_finite :: "64 word \<Rightarrow> bool" where
  "dbl_is_finite w = (dbl_exponent w \<noteq> 2047)"

text \<open>\<open>Number.isInteger\<close> and \<open>Number.isSafeInteger\<close> of the number with these bits.\<close>

definition dbl_is_integer :: "64 word \<Rightarrow> bool" where
  "dbl_is_integer w =
     (let e = dbl_exponent w; m = dbl_mantissa w in
      if e = 2047 then False
      else if e = 0 then m = 0
      else if e < 1023 then False
      else if 1075 \<le> e then True
      else m mod 2 ^ (1075 - e) = 0)"

definition dbl_is_safe_integer :: "64 word \<Rightarrow> bool" where
  "dbl_is_safe_integer w = (dbl_is_integer w \<and> dbl_exponent w \<le> 1075)"

definition is_safe_integer :: "jsval \<Rightarrow> bool" where
  "is_safe_integer v = (case v of JInt _ \<Rightarrow> True | _ \<Rightarrow> False)"

text \<open>An object literal of the source.\<close>

definition obj :: "(string \<times> jsval) list \<Rightarrow> jsval" where
  "obj props = JObj (map (\<lambda>(name, v). (js name, v)) props)"

text \<open>Property access on an object; a missing property is \<open>undefined\<close>.\<close>

definition get_prop :: "jsval \<Rightarrow> string \<Rightarrow> jsval" where
  "get_prop v name =
     (case v of
        JObj kvs \<Rightarrow> (case map_of kvs (js name) of Some x \<Rightarrow> x | None \<Rightarrow> JUndef)
      | _ \<Rightarrow> JUndef)"

definition object_keys :: "jsval \<Rightarrow> jsstr list" where
  "object_keys v = (case v of JObj kvs \<Rightarrow> map fst kvs | _ \<Rightarrow> [])"

definition is_object :: "jsval \<Rightarrow> bool" where
  "is_object v = (case v of JObj _ \<Rightarrow> True | _ \<Rightarrow> False)"

text \<open>The sorted-key comparison of \<open>exactFields\<close>.\<close>

definition exact_keys :: "jsval \<Rightarrow> string list \<Rightarrow> bool" where
  "exact_keys v fields = (sort (object_keys v) = sort (map js fields))"

section \<open>Limits and tags\<close>

record limits =
  maxBytes :: nat
  maxCollectionEntries :: nat
  maxDepth :: nat

definition DEFAULT_LIMITS :: limits where
  "DEFAULT_LIMITS = \<lparr>maxBytes = 67108864, maxCollectionEntries = 1000000, maxDepth = 64\<rparr>"

abbreviation TAG_NULL :: byte where "TAG_NULL \<equiv> 0x00"
abbreviation TAG_FALSE :: byte where "TAG_FALSE \<equiv> 0x01"
abbreviation TAG_TRUE :: byte where "TAG_TRUE \<equiv> 0x02"
abbreviation TAG_INTEGER :: byte where "TAG_INTEGER \<equiv> 0x10"
abbreviation TAG_FLOAT64 :: byte where "TAG_FLOAT64 \<equiv> 0x11"
abbreviation TAG_STRING :: byte where "TAG_STRING \<equiv> 0x20"
abbreviation TAG_BYTES :: byte where "TAG_BYTES \<equiv> 0x30"
abbreviation TAG_ARRAY :: byte where "TAG_ARRAY \<equiv> 0x40"
abbreviation TAG_MAP :: byte where "TAG_MAP \<equiv> 0x50"

section \<open>Encoding\<close>

definition MAX_VARUINT_BYTES :: nat where
  "MAX_VARUINT_BYTES = 10"

function varuint_loop :: "nat \<Rightarrow> nat \<Rightarrow> byte list res" where
  "varuint_loop count remaining =
     andThen (invariant (count < MAX_VARUINT_BYTES) ''ENCODE_VARUINT_LIMIT'')
       (let byte = (of_nat (remaining mod 128) :: byte); rest = remaining div 128 in
        if rest = 0 then Inr [byte]
        else bindR (varuint_loop (Suc count) rest) (\<lambda>bs. Inr ((byte OR 0x80) # bs)))"
  by pat_completeness auto
termination
  by (relation "measure (\<lambda>(count, remaining). remaining)") auto

declare varuint_loop.simps [simp del]

definition encode_var_uint :: "nat \<Rightarrow> byte list res" where
  "encode_var_uint value = varuint_loop 0 value"

definition encode_length :: "nat \<Rightarrow> byte list res" where
  "encode_length value =
     andThen (invariant (value \<le> max_safe_integer) ''ENCODE_LENGTH'') (encode_var_uint value)"

definition encode_string_value :: "jsstr \<Rightarrow> byte list res" where
  "encode_string_value value =
     (let bytes = utf8 value in
      bindR (encode_length (length bytes)) (\<lambda>len. Inr (TAG_STRING # len @ bytes)))"

definition zigzag :: "int \<Rightarrow> nat" where
  "zigzag i = (if 0 \<le> i then nat (i * 2) else nat (- i * 2 - 1))"

definition check_depth :: "limits \<Rightarrow> nat \<Rightarrow> unit res" where
  "check_depth L depth = invariant (depth \<le> maxDepth L) ''ENCODE_DEPTH''"

lemma size_entry [termination_simp]:
  "(k, v) \<in> set (sort_key f kvs) \<Longrightarrow> size v < Suc (size_list (size_prod (\<lambda>_. 0) size) kvs)"
  by (simp, induction kvs) auto

fun encode_value :: "limits \<Rightarrow> nat \<Rightarrow> jsval \<Rightarrow> byte list res" where
  "encode_value L depth JNull = andThen (check_depth L depth) (Inr [TAG_NULL])"
| "encode_value L depth (JBool b) =
     andThen (check_depth L depth) (Inr [if b then TAG_TRUE else TAG_FALSE])"
| "encode_value L depth (JInt i) =
     andThen (check_depth L depth)
       (bindR (encode_var_uint (zigzag i)) (\<lambda>bs. Inr (TAG_INTEGER # bs)))"
| "encode_value L depth (JDbl w) =
     andThen (check_depth L depth)
       (andThen (invariant (dbl_is_finite w) ''ENCODE_NUMBER'')
         (Inr (TAG_FLOAT64 # u64_be (unat w))))"
| "encode_value L depth (JStr s) = andThen (check_depth L depth) (encode_string_value s)"
| "encode_value L depth (JBytes bytes) =
     andThen (check_depth L depth)
       (andThen (invariant (length bytes \<le> maxBytes L) ''ENCODE_BYTES_LIMIT'')
         (bindR (encode_length (length bytes)) (\<lambda>len. Inr (TAG_BYTES # len @ bytes))))"
| "encode_value L depth (JArr items) =
     andThen (check_depth L depth)
       (andThen (invariant (length items \<le> maxCollectionEntries L) ''ENCODE_ARRAY_LIMIT'')
         (bindR (encode_length (length items)) (\<lambda>len.
          bindR (mapR (\<lambda>item. encode_value L (Suc depth) item) items) (\<lambda>parts.
          Inr (TAG_ARRAY # len @ concat parts)))))"
| "encode_value L depth (JObj kvs) =
     andThen (check_depth L depth)
       (andThen (invariant (length kvs \<le> maxCollectionEntries L) ''ENCODE_MAP_LIMIT'')
         (bindR (encode_length (length kvs)) (\<lambda>len.
          bindR (mapR (\<lambda>(key, entryValue).
              bindR (encode_string_value key) (\<lambda>keyPart.
              bindR (encode_value L (Suc depth) entryValue) (\<lambda>valuePart.
              Inr (keyPart @ valuePart))))
            (sort_key (\<lambda>(key, _). utf8 key) kvs)) (\<lambda>parts.
          Inr (TAG_MAP # len @ concat parts)))))"
| "encode_value L depth JUndef = andThen (check_depth L depth) (failWith ''ENCODE_TYPE'')"
| "encode_value L depth JOther = andThen (check_depth L depth) (failWith ''ENCODE_TYPE'')"

definition encode_canonical :: "limits \<Rightarrow> jsval \<Rightarrow> byte list res" where
  "encode_canonical L value = encode_value L 0 value"

section \<open>Decoding\<close>

definition read_byte :: "byte list \<Rightarrow> (byte \<times> byte list) res" where
  "read_byte bs = (case bs of [] \<Rightarrow> failWith ''DECODE_TRUNCATED'' | b # rest \<Rightarrow> Inr (b, rest))"

definition read_bytes :: "limits \<Rightarrow> nat \<Rightarrow> byte list \<Rightarrow> (byte list \<times> byte list) res" where
  "read_bytes L len bs =
     andThen (checks
       [invariant (len \<le> max_safe_integer) ''DECODE_LENGTH'',
        invariant (len \<le> maxBytes L) ''DECODE_BYTES_LIMIT'',
        invariant (len \<le> length bs) ''DECODE_TRUNCATED''])
     (Inr (take len bs, drop len bs))"

function varuint_read_loop :: "nat \<Rightarrow> nat \<Rightarrow> nat \<Rightarrow> byte list \<Rightarrow> (nat \<times> byte list) res" where
  "varuint_read_loop value shift count bs =
     andThen (invariant (count < 10) ''DECODE_VARUINT'')
       (bindR (read_byte bs) (\<lambda>(byte, rest).
          let finalPayload = unat (byte AND 0x7F); value' = value OR push_bit shift finalPayload in
          if byte AND 0x80 = 0
          then andThen (invariant (Suc count = 1 \<or> finalPayload \<noteq> 0) ''DECODE_NON_CANONICAL'')
                 (Inr (value', rest))
          else varuint_read_loop value' (shift + 7) (Suc count) rest))"
  by pat_completeness auto
termination
  by (relation "measure (\<lambda>(value, shift, count, bs). 10 - count)") (auto simp: invariant_Inr_iff)

declare varuint_read_loop.simps [simp del]

definition read_var_uint :: "byte list \<Rightarrow> (nat \<times> byte list) res" where
  "read_var_uint bs = varuint_read_loop 0 0 0 bs"

definition read_length :: "byte list \<Rightarrow> (nat \<times> byte list) res" where
  "read_length bs =
     bindR (read_var_uint bs) (\<lambda>(value, rest).
     andThen (invariant (value \<le> max_safe_integer) ''DECODE_LENGTH'') (Inr (value, rest)))"

definition decode_string :: "limits \<Rightarrow> byte list \<Rightarrow> ((jsstr \<times> byte list) \<times> byte list) res" where
  "decode_string L bs =
     bindR (read_length bs) (\<lambda>(len, rest).
     bindR (read_bytes L len rest) (\<lambda>(bytes, rest').
     (case text_decode bytes of
        None \<Rightarrow> failWith ''DECODE_UTF8''
      | Some value \<Rightarrow> Inr ((value, bytes), rest'))))"

definition unzigzag :: "nat \<Rightarrow> int" where
  "unzigzag z = (if z mod 2 = 0 then int (z div 2) else - int ((z + 1) div 2))"

fun decode_entries ::
  "nat \<Rightarrow> limits \<Rightarrow> (byte list \<Rightarrow> (jsval \<times> byte list) res) \<Rightarrow> byte list option
    \<Rightarrow> (jsstr \<times> jsval) list \<Rightarrow> byte list \<Rightarrow> ((jsstr \<times> jsval) list \<times> byte list) res" where
  "decode_entries 0 L readValue previousKeyBytes result bs = Inr (result, bs)"
| "decode_entries (Suc n) L readValue previousKeyBytes result bs =
     bindR (read_byte bs) (\<lambda>(tag, bs1).
     andThen (invariant (tag = TAG_STRING) ''DECODE_MAP_KEY'')
     (bindR (decode_string L bs1) (\<lambda>((key, keyBytes), bs2).
      andThen (case previousKeyBytes of
          None \<Rightarrow> Inr ()
        | Some previous \<Rightarrow> invariant (previous < keyBytes) ''DECODE_MAP_ORDER'')
      (bindR (readValue bs2) (\<lambda>(v, bs3).
       decode_entries n L readValue (Some keyBytes) (AList.update key v result) bs3)))))"

lemma decode_entries_cong [fundef_cong]:
  "n = n' \<Longrightarrow> L = L' \<Longrightarrow> p = p' \<Longrightarrow> r = r' \<Longrightarrow> bs = bs' \<Longrightarrow> (\<And>x. f x = f' x) \<Longrightarrow>
   decode_entries n L f p r bs = decode_entries n' L' f' p' r' bs'"
  by (metis ext)

function decode_value :: "limits \<Rightarrow> nat \<Rightarrow> byte list \<Rightarrow> (jsval \<times> byte list) res" where
  "decode_value L depth bs =
     andThen (invariant (depth \<le> maxDepth L) ''DECODE_DEPTH'')
     (bindR (read_byte bs) (\<lambda>(tag, rest).
        if tag = TAG_NULL then Inr (JNull, rest)
        else if tag = TAG_FALSE then Inr (JBool False, rest)
        else if tag = TAG_TRUE then Inr (JBool True, rest)
        else if tag = TAG_INTEGER then
          bindR (read_var_uint rest) (\<lambda>(z, rest').
          andThen (invariant (\<bar>unzigzag z\<bar> \<le> int max_safe_integer) ''DECODE_INTEGER'')
          (Inr (JInt (unzigzag z), rest')))
        else if tag = TAG_FLOAT64 then
          bindR (read_bytes L 8 rest) (\<lambda>(bytes, rest').
          let w = (of_nat (of_be bytes) :: 64 word) in
          andThen (checks
            [invariant (dbl_is_finite w) ''DECODE_NUMBER'',
             invariant (\<not> dbl_is_safe_integer w) ''DECODE_NON_CANONICAL''])
          (Inr (JDbl w, rest')))
        else if tag = TAG_STRING then
          bindR (decode_string L rest) (\<lambda>((value, _), rest'). Inr (JStr value, rest'))
        else if tag = TAG_BYTES then
          bindR (read_length rest) (\<lambda>(len, rest1).
          bindR (read_bytes L len rest1) (\<lambda>(bytes, rest2). Inr (JBytes bytes, rest2)))
        else if tag = TAG_ARRAY then
          bindR (read_length rest) (\<lambda>(len, rest1).
          andThen (invariant (len \<le> maxCollectionEntries L) ''DECODE_ARRAY_LIMIT'')
          (bindR (repeatR len (\<lambda>s. decode_value L (Suc depth) s) rest1)
             (\<lambda>(items, rest2). Inr (JArr items, rest2))))
        else if tag = TAG_MAP then
          bindR (read_length rest) (\<lambda>(len, rest1).
          andThen (invariant (len \<le> maxCollectionEntries L) ''DECODE_MAP_LIMIT'')
          (bindR (decode_entries len L (\<lambda>s. decode_value L (Suc depth) s) None [] rest1)
             (\<lambda>(entries, rest2). Inr (JObj entries, rest2))))
        else failWith ''DECODE_TAG''))"
  by pat_completeness auto
termination
  by (relation "measure (\<lambda>(L, depth, bs). Suc (maxDepth L) - depth)")
    (auto simp: invariant_Inr_iff)

declare decode_value.simps [simp del]

definition decode_canonical :: "limits \<Rightarrow> byte list \<Rightarrow> jsval res" where
  "decode_canonical L bytes =
     andThen (invariant (length bytes \<le> maxBytes L) ''DECODE_INPUT_LIMIT'')
     (bindR (decode_value L 0 bytes) (\<lambda>(value, rest).
      andThen (invariant (rest = []) ''DECODE_TRAILING'')
      (bindR (encode_canonical L value) (\<lambda>reencoded.
       andThen (invariant (bytes = reencoded) ''DECODE_NON_CANONICAL'') (Inr value)))))"

end
