(* ===== verification/G9P_Codec_Props.thy ===== *)
theory G9P_Codec_Props
  imports G9P_Codec
begin

text \<open>
  What the value encoding promises: lengths and integers read back, the decoder inverts the
  encoder on every portable value, equal encodings come from equal values, and the one kind of
  text the decoder alters.
\<close>

section \<open>Variable-length integers\<close>

lemma low_bits: "unat (w :: byte) < 128 \<Longrightarrow> w AND 0x7F = w"
proof -
  assume "unat w < 128"
  then have "take_bit 7 w = w"
    by (simp add: word_unat_eq_iff unsigned_take_bit_eq take_bit_nat_eq_self)
  then show ?thesis by (simp add: take_bit_eq_mask mask_eq_exp_minus_1)
qed

lemma varint_byte_bits:
  assumes "unat (w :: byte) < 128"
  shows "w AND 0x7F = w" and "w AND 0x80 = 0"
    and "(w OR 0x80) AND 0x80 \<noteq> 0" and "(w OR 0x80) AND 0x7F = w"
proof -
  show low: "w AND 0x7F = w" using assms by (rule low_bits)
  have "w AND 0x80 = (w AND 0x7F) AND 0x80" by (simp only: low)
  also have "\<dots> = 0" by (simp add: and.assoc)
  finally show z: "w AND 0x80 = 0" .
  show "(w OR 0x80) AND 0x80 \<noteq> 0" by (simp add: bit.conj_disj_distrib2 z)
  show "(w OR 0x80) AND 0x7F = w" by (simp add: bit.conj_disj_distrib2 low)
qed

lemma or_push_bit: "v < 2 ^ s \<Longrightarrow> v OR push_bit s p = v + p * 2 ^ s" for v p s :: nat
proof -
  assume "v < 2 ^ s"
  then have v: "take_bit s v = v" by (simp add: take_bit_nat_eq_self)
  have "v AND push_bit s p = 0"
    by (rule bit_eqI) (metis bit_0_eq bit_and_iff bit_push_bit_iff bit_take_bit_iff bot_apply bot_bool_def leD v)
  then have "v + push_bit s p = v OR push_bit s p" by (rule disjunctive_add_eq_or)
  then show ?thesis by (simp add: push_bit_eq_mult)
qed

lemma varuint_loop_read:
  assumes "varuint_loop count n = Inr bs" and "val < 2 ^ (7 * count)" and "count = 0 \<or> n \<noteq> 0"
  shows "varuint_read_loop val (7 * count) count (bs @ rest) = Inr (val + n * 2 ^ (7 * count), rest)"
  using assms
proof (induction count n arbitrary: val bs rule: varuint_loop.induct)
  case (1 count n)
  define byte where "byte = (of_nat (n mod 128) :: byte)"
  have byte: "unat byte = n mod 128" by (simp add: byte_def)
  then have bits: "byte AND 0x7F = byte" "byte AND 0x80 = 0"
      "(byte OR 0x80) AND 0x80 \<noteq> 0" "(byte OR 0x80) AND 0x7F = byte"
    using varint_byte_bits [of byte] by simp_all
  from "1.prems"(1) have count: "count < 10"
    by (subst (asm) varuint_loop.simps) (simp add: andThen_Inr_iff invariant_Inr_iff MAX_VARUINT_BYTES_def)
  show ?case
  proof (cases "n div 128 = 0")
    case True
    with "1.prems"(1) have bs: "bs = [byte]"
      by (subst (asm) varuint_loop.simps) (simp add: andThen_Inr_iff Let_def byte_def)
    from True have n: "n mod 128 = n" by simp
    show ?thesis
      using "1.prems"(2,3) count True unfolding bs
      by (subst varuint_read_loop.simps) (auto simp: read_byte_def Let_def bits byte n or_push_bit)
  next
    case False
    with "1.prems"(1) obtain bs' where rec: "varuint_loop (Suc count) (n div 128) = Inr bs'"
      and bs: "bs = (byte OR 0x80) # bs'"
      by (subst (asm) varuint_loop.simps)
         (auto simp: andThen_Inr_iff bindR_Inr_iff invariant_Inr_iff Let_def byte_def)
    let ?v = "val + (n mod 128) * 2 ^ (7 * count)"
    have "(n mod 128) * 2 ^ (7 * count) \<le> 127 * 2 ^ (7 * count)"
      by (intro mult_le_mono1) simp
    with "1.prems"(2) have "?v < 2 ^ (7 * count) + 127 * 2 ^ (7 * count)"
      by (rule add_less_le_mono)
    also have "\<dots> = 2 ^ (7 * Suc count)" by (simp add: power_add)
    finally have IH: "varuint_read_loop ?v (7 * Suc count) (Suc count) (bs' @ rest)
        = Inr (?v + (n div 128) * 2 ^ (7 * Suc count), rest)"
      using "1.IH" [OF _ refl refl False rec, of ?v] False count
      by (simp add: MAX_VARUINT_BYTES_def invariant_Inr_iff)
    have "v + a * P + b * (128 * P) = v + (a + 128 * b) * P" for v a b P :: nat
      by (simp add: algebra_simps)
    from this [of val "n mod 128" "2 ^ (7 * count)" "n div 128"]
    have "?v + (n div 128) * (128 * 2 ^ (7 * count)) = val + n * 2 ^ (7 * count)"
      by simp
    moreover have "(2::nat) ^ (7 * Suc count) = 128 * 2 ^ (7 * count)"
      by (simp add: power_add)
    ultimately have eq: "?v + (n div 128) * 2 ^ (7 * Suc count) = val + n * 2 ^ (7 * count)"
      by simp
    show ?thesis
      using IH count "1.prems"(2) unfolding bs eq
      by (subst varuint_read_loop.simps)
         (simp only: read_byte_def append_Cons list.case bindR_simps prod.case Let_def bits
            byte or_push_bit if_False andThen_simps invariant_True mult_Suc_right add.commute)
  qed
qed
lemma varuint_loop_total:
  "count < 10 \<Longrightarrow> n < 2 ^ (7 * (10 - count)) \<Longrightarrow> \<exists>bs. varuint_loop count n = Inr bs"
proof (induction count n rule: varuint_loop.induct)
  case (1 count n)
  show ?case
  proof (cases "n div 128 = 0")
    case True
    with "1.prems" show ?thesis
      by (subst varuint_loop.simps) (simp add: MAX_VARUINT_BYTES_def)
  next
    case False
    then have "128 \<le> n" by simp
    have c: "Suc count < 10"
    proof (rule ccontr)
      assume "\<not> Suc count < 10"
      with "1.prems"(1) have "count = 9" by simp
      with "1.prems"(2) \<open>128 \<le> n\<close> show False by simp
    qed
    then have "7 * (10 - count) = 7 * (10 - Suc count) + 7" by simp
    with "1.prems"(2) have "n < 2 ^ (7 * (10 - Suc count)) * 128" by (simp add: power_add)
    then have "n div 128 < 2 ^ (7 * (10 - Suc count))"
      by (simp add: less_mult_imp_div_less)
    with c False "1.prems" "1.IH" [OF _ refl refl] obtain bs where "varuint_loop (Suc count) (n div 128) = Inr bs"
      by (auto simp: MAX_VARUINT_BYTES_def)
    with False "1.prems" show ?thesis
      by (subst varuint_loop.simps) (simp add: MAX_VARUINT_BYTES_def Let_def)
  qed
qed

lemma encode_var_uint_total: "n < 2 ^ 70 \<Longrightarrow> \<exists>bs. encode_var_uint n = Inr bs"
  unfolding encode_var_uint_def by (rule varuint_loop_total) simp_all

lemma read_encode_var_uint: "encode_var_uint n = Inr bs \<Longrightarrow> read_var_uint (bs @ rest) = Inr (n, rest)"
  using varuint_loop_read [of 0 n bs 0] by (simp add: encode_var_uint_def read_var_uint_def)

lemma encode_length_read:
  assumes "encode_length n = Inr bs"
  shows "read_length (bs @ rest) = Inr (n, rest)"
  using assms by (auto simp: encode_length_def read_length_def andThen_Inr_iff invariant_Inr_iff
      read_encode_var_uint)

lemma encode_length_total: "n \<le> max_safe_integer \<Longrightarrow> \<exists>bs. encode_length n = Inr bs"
  using encode_var_uint_total [of n] by (simp add: encode_length_def max_safe_integer_def)

lemma encode_length_bound: "encode_length n = Inr bs \<Longrightarrow> n \<le> max_safe_integer"
  by (simp add: encode_length_def andThen_Inr_iff invariant_Inr_iff)

lemma unzigzag_zigzag: "unzigzag (zigzag i) = i"
proof (cases "0 \<le> i")
  case True
  then show ?thesis by (simp add: zigzag_def unzigzag_def nat_mult_distrib)
next
  case False
  define k where "k = nat (- i - 1)"
  with False have i: "i = - int k - 1" by simp
  have "zigzag i = 2 * k + 1" using False by (simp add: zigzag_def i)
  then show ?thesis by (simp add: unzigzag_def i)
qed

lemma zigzag_unzigzag: "zigzag (unzigzag z) = z"
proof (cases "even z")
  case True
  then show ?thesis by (auto simp: unzigzag_def zigzag_def elim!: evenE)
next
  case False
  then show ?thesis by (auto simp: unzigzag_def zigzag_def elim!: oddE)
qed

lemma read_bytes_append:
  "n \<le> maxBytes L \<Longrightarrow> n \<le> max_safe_integer \<Longrightarrow> length bs = n \<Longrightarrow>
   read_bytes L n (bs @ rest) = Inr (bs, rest)"
  by (simp add: read_bytes_def)

lemma double_round_trip: "(of_nat (of_be (u64_be (unat (w :: 64 word)))) :: 64 word) = w"
proof -
  have "unat w < 256 ^ 8" using unsigned_less [where ?'a = nat, of w] by simp
  then show ?thesis by (simp add: of_be_be_bytes)
qed

lemma encode_string_decode:
  assumes "encode_string_value s = Inr bs" and "portable_text s" and "length bs \<le> maxBytes L"
  shows "\<exists>tail. bs = TAG_STRING # tail \<and> decode_string L (tail @ rest) = Inr ((s, utf8 s), rest)"
proof -
  from assms(1) obtain len where len: "encode_length (length (utf8 s)) = Inr len"
    and bs: "bs = TAG_STRING # len @ utf8 s"
    by (auto simp: encode_string_value_def Let_def bindR_Inr_iff)
  have "read_length (len @ utf8 s @ rest) = Inr (length (utf8 s), utf8 s @ rest)"
    using len by (rule encode_length_read)
  moreover have "read_bytes L (length (utf8 s)) (utf8 s @ rest) = Inr (utf8 s, rest)"
    using assms(3) encode_length_bound [OF len] by (intro read_bytes_append) (simp_all add: bs)
  ultimately have "decode_string L ((len @ utf8 s) @ rest) = Inr ((s, utf8 s), rest)"
    using text_decode_utf8 [OF assms(2)] by (simp add: decode_string_def)
  then show ?thesis using bs by blast
qed

section \<open>Round trip\<close>

fun canon :: "jsval \<Rightarrow> jsval" where
  "canon (JArr items) = JArr (map canon items)"
| "canon (JObj kvs) =
     JObj (map (\<lambda>(k, v). (k, canon v)) (sort_key (\<lambda>(k, _). utf8 k) kvs))"
| "canon v = v"

fun portable :: "jsval \<Rightarrow> bool" where
  "portable (JInt i) = (\<bar>i\<bar> \<le> int max_safe_integer)"
| "portable (JDbl w) = (\<not> dbl_is_safe_integer w)"
| "portable (JStr s) = portable_text s"
| "portable (JArr items) = list_all portable items"
| "portable (JObj kvs) =
     (distinct (map fst kvs) \<and> list_all (\<lambda>(k, v). portable_text k \<and> portable v) kvs)"
| "portable _ = True"

lemma decode_entries_encode:
  assumes enc: "mapR (\<lambda>(k, v). bindR (encode_string_value k) (\<lambda>a. bindR (e v) (\<lambda>b. Inr (a @ b)))) kvs
      = Inr parts"
    and txt_ok: "\<forall>(k, v) \<in> set kvs. portable_text k"
    and sorted: "sorted_wrt (<) (map (\<lambda>(k, _). utf8 k) kvs)"
    and prev: "\<And>p k. prev = Some p \<Longrightarrow> k \<in> fst ` set kvs \<Longrightarrow> p < utf8 k"
    and fresh: "distinct (map fst kvs)" "fst ` set acc \<inter> fst ` set kvs = {}"
    and lim: "length (concat parts) \<le> maxBytes L"
    and vals: "\<And>k v a b rest. (k, v) \<in> set kvs \<Longrightarrow> encode_string_value k = Inr a \<Longrightarrow> e v = Inr b \<Longrightarrow> length b \<le> maxBytes L \<Longrightarrow>
        f (b @ rest) = Inr (g v, rest)"
  shows "decode_entries (length kvs) L f prev acc (concat parts @ rest)
      = Inr (acc @ map (\<lambda>(k, v). (k, g v)) kvs, rest)"
  using assms
proof (induction kvs arbitrary: parts prev acc)
  case Nil
  then show ?case by simp
next
  case (Cons kv kvs)
  obtain k v where kv: "kv = (k, v)" by (cases kv)
  from Cons.prems(1) obtain a b ps where a: "encode_string_value k = Inr a" and b: "e v = Inr b"
    and ps: "mapR (\<lambda>(k, v). bindR (encode_string_value k) (\<lambda>a. bindR (e v) (\<lambda>b. Inr (a @ b)))) kvs
      = Inr ps" and parts: "parts = (a @ b) # ps"
    by (auto simp: kv bindR_Inr_iff)
  have k: "portable_text k" using Cons.prems(2) by (simp add: kv)
  have "length a \<le> maxBytes L" using Cons.prems(7) by (simp add: parts)
  from encode_string_decode [OF a k this, of "b @ concat ps @ rest"]
  obtain tail where tail: "a = TAG_STRING # tail"
    and str: "decode_string L (tail @ b @ concat ps @ rest) = Inr ((k, utf8 k), b @ concat ps @ rest)"
    by auto
  have val: "f (b @ concat ps @ rest) = Inr (g v, concat ps @ rest)"
    by (rule Cons.prems(8) [of k]) (use a b Cons.prems(7) in \<open>simp_all add: kv parts\<close>)
  have order: "(case prev of None \<Rightarrow> Inr () | Some previous \<Rightarrow> invariant (previous < utf8 k) ''DECODE_MAP_ORDER'') = Inr ()"
    using Cons.prems(4) by (auto simp: kv split: option.split)
  have "k \<notin> fst ` set acc" using Cons.prems(6) by (auto simp: kv)
  then have upd: "AList.update k (g v) acc = acc @ [(k, g v)]"
    by (induction acc) auto
  have "decode_entries (length kvs) L f (Some (utf8 k)) (acc @ [(k, g v)]) (concat ps @ rest)
      = Inr ((acc @ [(k, g v)]) @ map (\<lambda>(k, v). (k, g v)) kvs, rest)"
  proof (rule Cons.IH [OF ps])
    show "\<forall>(k, v) \<in> set kvs. portable_text k" using Cons.prems(2) by simp
    show "sorted_wrt (<) (map (\<lambda>(k, _). utf8 k) kvs)" using Cons.prems(3) by simp
    show "p < utf8 k'" if "Some (utf8 k) = Some p" and "k' \<in> fst ` set kvs" for p k'
      using Cons.prems(3) that by (auto simp: kv)
    show "distinct (map fst kvs)" using Cons.prems(5) by simp
    show "fst ` set (acc @ [(k, g v)]) \<inter> fst ` set kvs = {}"
      using Cons.prems(5,6) by (auto simp: kv)
    show "length (concat ps) \<le> maxBytes L" using Cons.prems(7) by (simp add: parts)
    show "f (b @ rest) = Inr (g v, rest)"
      if "(k, v) \<in> set kvs" "encode_string_value k = Inr a" "e v = Inr b" "length b \<le> maxBytes L"
      for k v a b rest by (rule Cons.prems(8) [of k v]) (use that in simp_all)
  qed
  then show ?case
    by (simp add: kv parts tail read_byte_def str order val upd)
qed


lemma repeatR_mapR:
  assumes "mapR e xs = Inr parts" and "length (concat parts) \<le> M"
    and "\<And>x b rest. x \<in> set xs \<Longrightarrow> e x = Inr b \<Longrightarrow> length b \<le> M \<Longrightarrow> d (b @ rest) = Inr (g x, rest)"
  shows "repeatR (length xs) d (concat parts @ rest) = Inr (map g xs, rest)"
  using assms
proof (induction xs arbitrary: parts)
  case (Cons x xs)
  from Cons.prems(1) obtain b ps where b: "e x = Inr b" and ps: "mapR e xs = Inr ps"
    and parts: "parts = b # ps"
    by (auto simp: bindR_Inr_iff)
  have "d (b @ concat ps @ rest) = Inr (g x, concat ps @ rest)"
    by (rule Cons.prems(3)) (use b Cons.prems(2) in \<open>simp_all add: parts\<close>)
  moreover have "repeatR (length xs) d (concat ps @ rest) = Inr (map g xs, rest)"
    using ps Cons.prems(2,3) by (intro Cons.IH) (simp_all add: parts)
  ultimately show ?case by (simp add: parts)
qed simp

lemma distinct_keys_sort: "distinct (map fst kvs) \<Longrightarrow> distinct (map fst (sort_key f kvs))"
  by (simp add: distinct_map)

lemma strictly_sorted_keys:
  assumes "distinct (map fst kvs)" and "\<forall>(k, v) \<in> set kvs. portable_text k"
  shows "sorted_wrt (<) (map (\<lambda>(k, _). utf8 k) (sort_key (\<lambda>(k, _). utf8 k) kvs))"
proof -
  let ?s = "sort_key (\<lambda>(k, _). utf8 k) kvs"
  have keys: "map (\<lambda>(k, _). utf8 k) ?s = map utf8 (map fst ?s)" by (simp add: case_prod_unfold)
  have "distinct (map fst ?s)"
    using assms(1) by (rule distinct_keys_sort)
  moreover have "inj_on utf8 (set (map fst ?s))"
    using assms(2) by (intro inj_onI utf8_inj) auto
  ultimately have "distinct (map utf8 (map fst ?s))" by (simp only: distinct_map)
  then have "distinct (map (\<lambda>(k, _). utf8 k) ?s)" by (simp only: keys)
  then show ?thesis by (simp add: strict_sorted_iff del: distinct_map)
qed

lemma decode_value_encode:
  "encode_value L depth v = Inr bs \<Longrightarrow> portable v \<Longrightarrow> length bs \<le> maxBytes L \<Longrightarrow>
   decode_value L depth (bs @ rest) = Inr (canon v, rest)"
proof (induction L depth v arbitrary: bs rest rule: encode_value.induct)
  case (3 L depth i)
  then obtain z where z: "encode_var_uint (zigzag i) = Inr z" and bs: "bs = TAG_INTEGER # z"
    and d: "depth \<le> maxDepth L"
    by (auto simp: andThen_Inr_iff bindR_Inr_iff check_depth_def invariant_Inr_iff)
  with 3 show ?case
    by (subst decode_value.simps)
       (simp add: read_byte_def read_encode_var_uint [OF z] unzigzag_zigzag)
next
  case (4 L depth w)
  then have bs: "bs = TAG_FLOAT64 # u64_be (unat w)" and d: "depth \<le> maxDepth L"
    and fin: "dbl_is_finite w"
    by (auto simp: andThen_Inr_iff check_depth_def invariant_Inr_iff)
  have "read_bytes L 8 (u64_be (unat w) @ rest) = Inr (u64_be (unat w), rest)"
    using 4(3) by (intro read_bytes_append) (simp_all add: bs max_safe_integer_def)
  with fin d 4(2) show ?case
    by (subst decode_value.simps) (simp add: bs read_byte_def double_round_trip Let_def)
next
  case (5 L depth s)
  then have s: "encode_string_value s = Inr bs" and d: "depth \<le> maxDepth L"
    by (auto simp: andThen_Inr_iff check_depth_def invariant_Inr_iff)
  from encode_string_decode [OF s, of L rest] 5
  obtain tail where "bs = TAG_STRING # tail" and "decode_string L (tail @ rest) = Inr ((s, utf8 s), rest)"
    by auto
  with d show ?case by (subst decode_value.simps) (simp add: read_byte_def)
next
  case (6 L depth bytes)
  then obtain len where len: "encode_length (length bytes) = Inr len"
    and bs: "bs = TAG_BYTES # len @ bytes" and d: "depth \<le> maxDepth L"
    and lim: "length bytes \<le> maxBytes L"
    by (auto simp: andThen_Inr_iff bindR_Inr_iff check_depth_def invariant_Inr_iff)
  have "read_length (len @ bytes @ rest) = Inr (length bytes, bytes @ rest)"
    using len by (rule encode_length_read)
  moreover have "read_bytes L (length bytes) (bytes @ rest) = Inr (bytes, rest)"
    using lim encode_length_bound [OF len] by (intro read_bytes_append) simp_all
  ultimately show ?case
    using d by (subst decode_value.simps) (simp add: bs read_byte_def)
next
  case (7 L depth items)
  then obtain len parts where len: "encode_length (length items) = Inr len"
    and parts: "mapR (encode_value L (Suc depth)) items = Inr parts"
    and bs: "bs = TAG_ARRAY # len @ concat parts" and d: "depth \<le> maxDepth L"
    and lim: "length items \<le> maxCollectionEntries L"
    by (auto simp: andThen_Inr_iff bindR_Inr_iff check_depth_def invariant_Inr_iff)
  have "read_length (len @ concat parts @ rest) = Inr (length items, concat parts @ rest)"
    using len by (rule encode_length_read)
  moreover have "repeatR (length items) (\<lambda>s. decode_value L (Suc depth) s) (concat parts @ rest)
      = Inr (map canon items, rest)"
    using parts
  proof (rule repeatR_mapR)
    show "length (concat parts) \<le> maxBytes L" using 7(4) by (simp add: bs)
    show "decode_value L (Suc depth) (b @ r) = Inr (canon x, r)"
      if "x \<in> set items" "encode_value L (Suc depth) x = Inr b" "length b \<le> maxBytes L" for x b r
      using that 7(1) [of len x] 7(3) d lim len
      by (auto simp: list_all_iff check_depth_def)
  qed
  ultimately show ?case
    using d lim by (subst decode_value.simps) (simp add: bs read_byte_def)
next
  case (8 L depth kvs)
  let ?s = "sort_key (\<lambda>(k, _). utf8 k) kvs"
  from 8 obtain len parts where len: "encode_length (length kvs) = Inr len"
    and parts: "mapR (\<lambda>(key, entryValue). bindR (encode_string_value key) (\<lambda>keyPart.
        bindR (encode_value L (Suc depth) entryValue) (\<lambda>valuePart. Inr (keyPart @ valuePart)))) ?s
        = Inr parts"
    and bs: "bs = TAG_MAP # len @ concat parts" and d: "depth \<le> maxDepth L"
    and lim: "length kvs \<le> maxCollectionEntries L"
    by (auto simp: andThen_Inr_iff bindR_Inr_iff check_depth_def invariant_Inr_iff)
  have "read_length (len @ concat parts @ rest) = Inr (length kvs, concat parts @ rest)"
    using len by (rule encode_length_read)
  moreover have "decode_entries (length ?s) L (\<lambda>s. decode_value L (Suc depth) s) None []
      (concat parts @ rest) = Inr ([] @ map (\<lambda>(k, v). (k, canon v)) ?s, rest)"
    using parts
  proof (rule decode_entries_encode)
    show "\<forall>(k, v) \<in> set ?s. portable_text k" using 8(3) by (auto simp: list_all_iff)
    show "sorted_wrt (<) (map (\<lambda>(k, _). utf8 k) ?s)"
      using 8(3) by (intro strictly_sorted_keys) (auto simp: list_all_iff)
    show "distinct (map fst ?s)"
      using 8(3) by (intro distinct_keys_sort) simp
    show "length (concat parts) \<le> maxBytes L" using 8(4) by (simp add: bs)
    show "decode_value L (Suc depth) (b @ r) = Inr (canon v, r)"
      if "(k, v) \<in> set ?s" "encode_string_value k = Inr a" "encode_value L (Suc depth) v = Inr b"
        "length b \<le> maxBytes L" for k v a b r
    proof (rule 8(1) [OF _ _ len that(1) refl that(2) that(3)])
      show "portable v" using that(1) 8(3) by (auto simp: list_all_iff)
    qed (use d lim that in \<open>simp_all add: check_depth_def\<close>)
  qed simp_all
  ultimately show ?case
    using d lim by (subst decode_value.simps) (simp add: bs read_byte_def)
qed (auto simp: andThen_Inr_iff check_depth_def invariant_Inr_iff read_byte_def decode_value.simps failWith_neq_Inr)

lemma mapR_map: "mapR f (map g xs) = mapR (\<lambda>x. f (g x)) xs"
  by (induction xs) simp_all

lemma encode_value_canon: "encode_value L depth (canon v) = encode_value L depth v"
proof (induction L depth v rule: encode_value.induct)
  case (7 L depth items)
  then show ?case
    by (cases "depth \<le> maxDepth L"; cases "length items \<le> maxCollectionEntries L";
        cases "encode_length (length items)")
       (simp_all add: check_depth_def mapR_map cong: mapR_cong)
next
  case (8 L depth kvs)
  let ?s = "sort_key (\<lambda>(k, _). utf8 k) kvs"
  let ?m = "map (\<lambda>(k, v). (k, canon v)) ?s"
  have "map (\<lambda>(k, _). utf8 k) ?m = map (\<lambda>(k, _). utf8 k) ?s" by (simp add: case_prod_unfold)
  then have "sorted (map (\<lambda>(k, _). utf8 k) ?m)" by (simp only: sorted_sort_key)
  then have "sort_key (\<lambda>(k, _). utf8 k) ?m = ?m" by (rule sort_key_id_if_sorted)
  with 8 show ?case
    by (cases "depth \<le> maxDepth L"; cases "length kvs \<le> maxCollectionEntries L";
        cases "encode_length (length kvs)")
       (auto simp: check_depth_def mapR_map case_prod_unfold intro!: bindR_cong mapR_cong)
qed simp_all


section \<open>Interfaces and properties\<close>

definition varuint_bytes :: "nat \<Rightarrow> byte list" where
  "varuint_bytes n = (case encode_var_uint n of Inr bs \<Rightarrow> bs | Inl _ \<Rightarrow> [])"

interpretation varuint: prefix_codec varuint_bytes read_var_uint "\<lambda>n. n < 2 ^ 70"
proof unfold_locales
  fix n :: nat and rest :: "byte list"
  assume "n < 2 ^ 70"
  then obtain bs where "encode_var_uint n = Inr bs" using encode_var_uint_total by blast
  then show "read_var_uint (varuint_bytes n @ rest) = Inr (n, rest)"
    by (simp add: varuint_bytes_def read_encode_var_uint)
qed

lemma encode_canonical_prefix:
  assumes "encode_canonical L v = Inr bs" and "encode_canonical L w = Inr cs"
    and "portable v" and "portable w" and "length bs \<le> maxBytes L" and "length cs \<le> maxBytes L"
    and "bs @ r = cs @ s"
  shows "canon v = canon w \<and> bs = cs"
proof -
  have "decode_value L 0 (bs @ r) = Inr (canon v, r)" and "decode_value L 0 (cs @ s) = Inr (canon w, s)"
    using assms(1-6) by (simp_all add: encode_canonical_def decode_value_encode)
  then have "canon v = canon w" and "r = s" using assms(7) by simp_all
  with assms(7) show ?thesis by simp
qed

lemma decode_canonical_encode:
  assumes "encode_canonical L v = Inr bs" and "portable v" and "length bs \<le> maxBytes L"
  shows "decode_canonical L bs = Inr (canon v)"
proof -
  have "decode_value L 0 bs = Inr (canon v, [])"
    using decode_value_encode [of L 0 v bs "[]"] assms by (simp add: encode_canonical_def)
  then show ?thesis
    using assms(1,3) by (simp add: decode_canonical_def encode_canonical_def encode_value_canon)
qed

lemma decode_canonical_reencodes:
  "decode_canonical L bs = Inr v \<Longrightarrow> encode_canonical L v = Inr bs \<and> length bs \<le> maxBytes L"
  by (auto simp: decode_canonical_def res_simps)

lemma decode_canonical_inj:
  "decode_canonical L bs = Inr v \<Longrightarrow> decode_canonical L cs = Inr v \<Longrightarrow> bs = cs"
  by (auto dest!: decode_canonical_reencodes)

subsection \<open>Object literals\<close>

lemma map_of_obj: "map_of (map (\<lambda>(name, v). (js name, v)) props) (js name) = map_of props name"
  by (induction props) auto

lemma get_prop_obj [simp]:
  "get_prop (obj props) name = (case map_of props name of Some v \<Rightarrow> v | None \<Rightarrow> JUndef)"
  by (simp add: get_prop_def obj_def map_of_obj)

lemma object_keys_obj [simp]: "object_keys (obj props) = map js (map fst props)"
  by (simp add: object_keys_def obj_def case_prod_unfold)

lemma is_object_obj [simp]: "is_object (obj props)"
  by (simp add: is_object_def obj_def)

lemma inj_js: "inj_on js A"
  by (simp add: inj_on_def)

lemma portable_obj [simp]:
  "portable (obj props) \<longleftrightarrow> distinct (map fst props) \<and> (\<forall>v \<in> snd ` set props. portable v)"
proof -
  have "map fst (map (\<lambda>(name, v). (js name, v)) props) = map js (map fst props)"
    by (simp add: case_prod_unfold)
  then have "distinct (map fst (map (\<lambda>(name, v). (js name, v)) props)) = distinct (map fst props)"
    by (simp only: distinct_map inj_js) simp
  then show ?thesis by (auto simp: obj_def list_all_iff case_prod_unfold)
qed

lemma sort_cong_set: "distinct xs \<Longrightarrow> distinct ys \<Longrightarrow> set xs = set ys \<Longrightarrow> sort xs = sort ys"
  by (intro sorted_distinct_set_unique) simp_all

lemma exact_keys_obj:
  "distinct (map fst props) \<Longrightarrow> distinct names \<Longrightarrow> set (map fst props) = set names \<Longrightarrow>
   exact_keys (obj props) names"
proof -
  assume d: "distinct (map fst props)" "distinct names" and s: "set (map fst props) = set names"
  have "sort (map js (map fst props)) = sort (map js names)"
  proof (rule sort_cong_set)
    show "distinct (map js (map fst props))" "distinct (map js names)"
      using d by (simp_all only: distinct_map [of js] inj_js)
    show "set (map js (map fst props)) = set (map js names)"
      using s by (simp only: set_map [of js])
  qed
  then show "exact_keys (obj props) names" by (simp only: exact_keys_def object_keys_obj)
qed

lemma exact_keys_set: "exact_keys v names \<Longrightarrow> set (object_keys v) = js ` set names"
  unfolding exact_keys_def by (metis set_map set_sort)

lemma exact_keys_canon: "portable v \<Longrightarrow> exact_keys (canon v) names \<longleftrightarrow> exact_keys v names"
proof -
  assume v: "portable v"
  have "sort (object_keys (canon v)) = sort (object_keys v)"
  proof (cases v)
    case (JObj kvs)
    have canonical: "object_keys (canon v) = map fst (sort_key (\<lambda>(k, _). utf8 k) kvs)"
      using JObj by (simp add: object_keys_def case_prod_unfold comp_def)
    have plain: "object_keys v = map fst kvs" using JObj by (simp add: object_keys_def)
    have "distinct (map fst kvs)" using v JObj by simp
    then show ?thesis
      unfolding canonical plain by (intro sort_cong_set) (simp_all add: distinct_keys_sort)
  qed (simp_all add: object_keys_def)
  then show ?thesis by (simp add: exact_keys_def)
qed

lemmas codec_eval = encode_canonical_def encode_string_value_def encode_length_def encode_var_uint_def
  varuint_loop.simps Let_def check_depth_def MAX_VARUINT_BYTES_def max_safe_integer_def zigzag_def
  utf8_def utf8_code_point_def is_surrogate_def is_high_surrogate_def DEFAULT_LIMITS_def

lemma bom_text_decodes_shorter:
  assumes "well_formed_utf16 (u # s)" and "unat u = byte_order_mark"
    and "encode_canonical L (JStr (u # s)) = Inr bs" and "length bs \<le> maxBytes L"
  shows "decode_value L 0 bs = Inr (JStr s, [])"
    and "\<exists>cs. encode_canonical L (JStr s) = Inr cs \<and> cs \<noteq> bs"
proof -
  from assms(3) obtain len where len: "encode_length (length (utf8 (u # s))) = Inr len"
    and bs: "bs = TAG_STRING # len @ utf8 (u # s)"
    by (auto simp: encode_canonical_def check_depth_def encode_string_value_def Let_def res_simps)
  have shorter: "length (utf8 (u # s)) = 3 + length (utf8 s)"
    by (simp add: utf8_bom_Cons assms(2)) (simp add: utf8_code_point_def byte_order_mark_def)
  have read: "read_length (len @ utf8 (u # s) @ r) = Inr (length (utf8 (u # s)), utf8 (u # s) @ r)" for r
    using len by (rule encode_length_read)
  have "read_bytes L (length (utf8 (u # s))) (utf8 (u # s)) = Inr (utf8 (u # s), [])"
    using read_bytes_append [of _ L "utf8 (u # s)" "[]"] assms(4) encode_length_bound [OF len]
    by (simp add: bs)
  then show "decode_value L 0 bs = Inr (JStr s, [])"
    using read [of "[]"] text_decode_bom [OF assms(1,2)]
    by (subst decode_value.simps) (simp add: bs read_byte_def decode_string_def)
  have "length (utf8 s) \<le> max_safe_integer"
    using encode_length_bound [OF len] shorter by (simp add: max_safe_integer_def)
  then obtain len' where len': "encode_length (length (utf8 s)) = Inr len'"
    using encode_length_total by blast
  have "len' @ utf8 s \<noteq> len @ utf8 (u # s)"
    using encode_length_read [OF len', of "utf8 s"] read [of "[]"] shorter by auto
  then show "\<exists>cs. encode_canonical L (JStr s) = Inr cs \<and> cs \<noteq> bs"
    by (simp add: encode_canonical_def check_depth_def encode_string_value_def Let_def len' bs)
qed

text \<open>
  C17: Reading back what was written. Whatever \<open>encodeCanonical\<close> produces for a portable value
  (well-formed text without a leading byte order mark, integers in the safe range, distinct
  property names) within the byte limit, \<open>decodeCanonical\<close> accepts, and returns that value with
  its properties in key order; a second encoding gives the same bytes.
\<close>

theorem canonical_round_trip:
  assumes "encode_canonical L v = Inr bs" and "portable v" and "length bs \<le> maxBytes L"
  shows "decode_canonical L bs = Inr (canon v) \<and> encode_canonical L (canon v) = Inr bs"
  using decode_canonical_encode [OF assms] decode_canonical_reencodes by blast

definition sample_value :: jsval where
  "sample_value = obj [(''b'', JArr [JInt (-3), JNull, JBytes [7, 255]]), (''a'', JStr (js ''x''))]"

lemma canonical_round_trip_witness:
  "\<exists>bs. encode_canonical DEFAULT_LIMITS sample_value = Inr bs
     \<and> decode_canonical DEFAULT_LIMITS bs = Inr (canon sample_value)"
proof -
  have enc: "encode_canonical DEFAULT_LIMITS sample_value
      = Inr [0x50, 2, 0x20, 1, 97, 0x20, 1, 120, 0x20, 1, 98, 0x40, 3, 0x10, 5, 0, 0x30, 2, 7, 255]"
    by (simp add: codec_eval sample_value_def obj_def)
  have "portable sample_value" by (simp add: sample_value_def js_eq_iff max_safe_integer_def del: js_Cons js_Nil)
  then show ?thesis
    using canonical_round_trip [OF enc] enc by (auto simp: DEFAULT_LIMITS_def)
qed

text \<open>
  C19: One encoding cannot stand for two values, nor be the beginning of another encoding: if
  two portable values encode to byte strings one of which starts a buffer that the other also
  starts, the values agree up to property order and the encodings are equal.
\<close>

theorem canonical_encoding_unambiguous:
  assumes "encode_canonical L v = Inr bs" and "encode_canonical L w = Inr cs"
    and "portable v" and "portable w" and "length bs \<le> maxBytes L" and "length cs \<le> maxBytes L"
    and "bs @ r = cs @ s"
  shows "canon v = canon w \<and> bs = cs"
  using assms by (rule encode_canonical_prefix)

lemma canonical_encoding_unambiguous_witness:
  "canon (JArr [JBool True]) = canon (JArr [JBool True])
     \<and> [0x40, 1, 2 :: byte] = [0x40, 1, 2]"
proof -
  have "encode_canonical DEFAULT_LIMITS (JArr [JBool True]) = Inr [0x40, 1, 2]" by (simp add: codec_eval)
  from canonical_encoding_unambiguous [OF this this, of "[9]" "[9]"]
  show ?thesis by (simp add: DEFAULT_LIMITS_def)
qed

text \<open>
  A text that starts with U+FEFF is encoded without complaint and can never be decoded:
  \<open>decodeCanonical\<close> strips the mark, re-encodes a shorter text and reports
  \<open>DECODE_NON_CANONICAL\<close>. This holds for every such well-formed text that fits the limits.
\<close>

theorem leading_bom_is_unreadable:
  assumes "well_formed_utf16 (u # s)" and "unat u = byte_order_mark"
    and "encode_canonical L (JStr (u # s)) = Inr bs" and "length bs \<le> maxBytes L"
  shows "decode_canonical L bs = Inl (G9p ''DECODE_NON_CANONICAL'')"
  using bom_text_decodes_shorter [OF assms] assms(4) by (auto simp: decode_canonical_def)

lemma leading_bom_is_unreadable_witness:
  "encode_canonical DEFAULT_LIMITS (JStr [0xFEFF, 97]) = Inr [0x20, 4, 0xEF, 0xBB, 0xBF, 97]
     \<and> decode_canonical DEFAULT_LIMITS [0x20, 4, 0xEF, 0xBB, 0xBF, 97]
         = Inl (G9p ''DECODE_NON_CANONICAL'')"
proof -
  have enc: "encode_canonical DEFAULT_LIMITS (JStr [0xFEFF, 97]) = Inr [0x20, 4, 0xEF, 0xBB, 0xBF, 97]"
    by (simp add: codec_eval)
  show ?thesis
    using leading_bom_is_unreadable [OF _ _ enc] enc
    by (simp add: DEFAULT_LIMITS_def byte_order_mark_def is_high_surrogate_def is_surrogate_def)
qed

end
