(* ===== verification/G9P_Codec_Total.thy ===== *)
theory G9P_Codec_Total
  imports G9P_Codec_Props
begin

text \<open>
  When encoding succeeds: every value made of supported types, nested and filled within the
  limits, is encoded, into a number of bytes bounded by its size; a value nested too deeply never is.
\<close>
section \<open>Totality and size\<close>

fun size_bound :: "jsval \<Rightarrow> nat" where
  "size_bound (JStr s) = 11 + 3 * length s"
| "size_bound (JBytes b) = 11 + length b"
| "size_bound (JArr items) = 11 + sum_list (map size_bound items)"
| "size_bound (JObj kvs) = 11 + sum_list (map (\<lambda>(k, v). 11 + 3 * length k + size_bound v) kvs)"
| "size_bound v = 11"

fun nesting :: "jsval \<Rightarrow> nat" where
  "nesting (JArr items) = Max (insert 0 (set (map (\<lambda>x. Suc (nesting x)) items)))"
| "nesting (JObj kvs) = Max (insert 0 (set (map (\<lambda>(k, v). Suc (nesting v)) kvs)))"
| "nesting v = 0"

fun widest :: "jsval \<Rightarrow> nat" where
  "widest (JArr items) = Max (insert (length items) (set (map widest items)))"
| "widest (JObj kvs) = Max (insert (length kvs) (set (map (\<lambda>(k, v). widest v) kvs)))"
| "widest v = 0"

fun encodable :: "jsval \<Rightarrow> bool" where
  "encodable JUndef = False"
| "encodable JOther = False"
| "encodable (JInt i) = (\<bar>i\<bar> \<le> int max_safe_integer)"
| "encodable (JDbl w) = dbl_is_finite w"
| "encodable (JArr items) = list_all encodable items"
| "encodable (JObj kvs) = list_all (\<lambda>(k, v). encodable v) kvs"
| "encodable v = True"

lemma length_utf8: "length (utf8 s) \<le> 3 * length s"
proof (induction s rule: code_points.induct)
  case (3 u v us)
  have pair: "length (utf8_code_point (pair_code_point a b)) \<le> 4" for a b
    by (simp add: utf8_code_point_def)
  have one: "length (utf8_code_point (if is_surrogate (unat w) then 0xFFFD else unat w)) \<le> 3" for w :: "16 word"
    using unat16_less [of w] by (simp add: utf8_code_point_def)
  show ?case
  proof (cases "is_high_surrogate (unat u) \<and> is_low_surrogate (unat v)")
    case True
    with 3 pair [of "unat u" "unat v"] show ?thesis by (simp add: utf8_def)
  next
    case False
    then have "utf8 (u # v # us) = utf8_code_point (if is_surrogate (unat u) then 0xFFFD else unat u) @ utf8 (v # us)"
      by (auto simp: utf8_def)
    with 3(2) [OF False] one [of u] show ?thesis by simp
  qed
qed (use unat16_less in \<open>auto simp: utf8_def utf8_code_point_def\<close>)

lemma varuint_loop_length: "varuint_loop count n = Inr bs \<Longrightarrow> count + length bs \<le> 10"
proof (induction count n arbitrary: bs rule: varuint_loop.induct)
  case (1 count n)
  from "1.prems" have c: "count < 10"
    by (subst (asm) varuint_loop.simps) (simp add: res_simps MAX_VARUINT_BYTES_def)
  show ?case
  proof (cases "n div 128 = 0")
    case True
    with "1.prems" c show ?thesis
      by (subst (asm) varuint_loop.simps) (auto simp: res_simps Let_def)
  next
    case False
    with "1.prems" obtain bs' where "varuint_loop (Suc count) (n div 128) = Inr bs'" "length bs = Suc (length bs')"
      by (subst (asm) varuint_loop.simps) (auto simp: res_simps Let_def)
    with "1.IH" [OF _ refl refl False] c show ?thesis by (simp add: MAX_VARUINT_BYTES_def)
  qed
qed

lemma encode_length_bounded:
  "n \<le> max_safe_integer \<Longrightarrow> \<exists>bs. encode_length n = Inr bs \<and> length bs \<le> 10"
  using encode_length_total [of n] varuint_loop_length [of 0 n]
  by (auto simp: encode_length_def encode_var_uint_def res_simps)

lemma encode_string_bounded:
  assumes "3 * length s \<le> max_safe_integer"
  shows "\<exists>bs. encode_string_value s = Inr bs \<and> length bs \<le> 11 + 3 * length s"
proof -
  have "length (utf8 s) \<le> max_safe_integer" using assms length_utf8 [of s] by linarith
  then obtain len where "encode_length (length (utf8 s)) = Inr len" "length len \<le> 10"
    using encode_length_bounded by blast
  then show ?thesis using length_utf8 [of s] by (simp add: encode_string_value_def Let_def)
qed

lemma mapR_bounded:
  assumes "\<And>x. x \<in> set xs \<Longrightarrow> \<exists>bs. f x = Inr bs \<and> length bs \<le> g x"
  shows "\<exists>parts. mapR f xs = Inr parts \<and> length (concat parts) \<le> sum_list (map g xs)"
  using assms
proof (induction xs)
  case (Cons x xs)
  then obtain b parts where "f x = Inr b" "length b \<le> g x" "mapR f xs = Inr parts"
    "length (concat parts) \<le> sum_list (map g xs)" by force
  then show ?case by simp
qed simp

lemma sum_list_sort_key: "sum_list (map g (sort_key f xs)) = sum_list (map g xs)" for g :: "_ \<Rightarrow> nat"
proof -
  have "sum_list (map g (insort_key f x ys)) = g x + sum_list (map g ys)" for x ys
    by (induction ys) simp_all
  then show ?thesis by (induction xs) simp_all
qed

lemma size_bound_items: "x \<in> set items \<Longrightarrow> size_bound x \<le> sum_list (map size_bound items)"
  by (simp add: member_le_sum_list)

lemma length_items_size: "length items \<le> sum_list (map size_bound items)"
proof -
  have "1 \<le> size_bound x" for x by (cases x) simp_all
  then have "sum_list (map (\<lambda>_. 1) items) \<le> sum_list (map size_bound items)"
    by (intro sum_list_mono) simp
  then show ?thesis by (simp add: sum_list_triv)
qed

lemma nesting_member: "(k, v) \<in> set kvs \<Longrightarrow> Suc (nesting v) \<le> nesting (JObj kvs)"
  unfolding nesting.simps by (intro Max_ge) (auto simp: image_iff intro!: bexI [of _ "(k, v)"])

lemma widest_member: "(k, v) \<in> set kvs \<Longrightarrow> widest v \<le> widest (JObj kvs)"
  unfolding widest.simps by (intro Max_ge) (auto simp: image_iff intro!: bexI [of _ "(k, v)"])

lemma encode_value_total:
  assumes "encodable v" and "depth + nesting v \<le> maxDepth L"
    and "widest v \<le> maxCollectionEntries L" and "size_bound v \<le> maxBytes L"
    and "size_bound v \<le> max_safe_integer"
  shows "\<exists>bs. encode_value L depth v = Inr bs \<and> length bs \<le> size_bound v"
  using assms
proof (induction L depth v rule: encode_value.induct)
  case (3 L depth i)
  then have "zigzag i < 2 ^ 70" by (auto simp: zigzag_def max_safe_integer_def)
  then obtain bs where "encode_var_uint (zigzag i) = Inr bs" using encode_var_uint_total by blast
  moreover from this have "length bs \<le> 10"
    using varuint_loop_length [of 0 "zigzag i" bs] by (simp add: encode_var_uint_def)
  ultimately show ?case using 3 by (simp add: check_depth_def)
next
  case (5 L depth s)
  then show ?case using encode_string_bounded [of s] by (simp add: check_depth_def)
next
  case (6 L depth b)
  then have "length b \<le> max_safe_integer" by simp
  from encode_length_bounded [OF this] 6 show ?case by (auto simp: check_depth_def)
next
  case (7 L depth items)
  have len: "length items \<le> sum_list (map size_bound items)" by (rule length_items_size)
  then have "length items \<le> max_safe_integer" using 7 by simp
  then obtain lbs where l: "encode_length (length items) = Inr lbs" "length lbs \<le> 10"
    using encode_length_bounded by blast
  have d: "check_depth L depth = Inr ()" using 7 by (simp add: check_depth_def)
  have "\<exists>bs. encode_value L (Suc depth) x = Inr bs \<and> length bs \<le> size_bound x" if "x \<in> set items" for x
  proof (rule 7(1) [OF d _ l(1) that])
    show "invariant (length items \<le> maxCollectionEntries L) ''ENCODE_ARRAY_LIMIT'' = Inr ()"
      using 7 len by simp
    show "encodable x" using 7 that by (simp add: list_all_iff)
    have "Suc (nesting x) \<le> nesting (JArr items)" using that by simp
    then show "Suc depth + nesting x \<le> maxDepth L" using 7(3) by linarith
    show "widest x \<le> maxCollectionEntries L" using 7(4) that by simp
  qed (use 7 size_bound_items [OF that] in simp_all)
  from mapR_bounded [of items "encode_value L (Suc depth)", OF this] l d 7 len
  show ?case by auto
next
  case (8 L depth kvs)
  let ?g = "\<lambda>(k, v). 11 + 3 * length k + size_bound v" and ?s = "sort_key (\<lambda>(k, _). utf8 k) kvs"
  have "sum_list (map (\<lambda>_. 1) kvs) \<le> sum_list (map ?g kvs)" by (intro sum_list_mono) auto
  then have len: "length kvs \<le> sum_list (map ?g kvs)" by (simp add: sum_list_triv)
  then have "length kvs \<le> max_safe_integer" using 8 by simp
  then obtain lbs where l: "encode_length (length kvs) = Inr lbs" "length lbs \<le> 10"
    using encode_length_bounded by blast
  have d: "check_depth L depth = Inr ()" using 8 by (simp add: check_depth_def)
  have each: "\<exists>bs. (\<lambda>(key, entryValue). bindR (encode_string_value key) (\<lambda>keyPart.
        bindR (encode_value L (Suc depth) entryValue) (\<lambda>valuePart. Inr (keyPart @ valuePart)))) kv = Inr bs
      \<and> length bs \<le> ?g kv" if kv_in: "kv \<in> set ?s" for kv
  proof -
    obtain k v where kv: "kv = (k, v)" by (cases kv)
    have mem: "?g kv \<le> sum_list (map ?g kvs)" using kv_in by (simp add: member_le_sum_list)
    then have "3 * length k \<le> max_safe_integer" using 8(6) by (simp add: kv)
    then obtain a where a: "encode_string_value k = Inr a" "length a \<le> 11 + 3 * length k"
      using encode_string_bounded by blast
    have "\<exists>bs. encode_value L (Suc depth) v = Inr bs \<and> length bs \<le> size_bound v"
    proof (rule 8(1) [OF d _ l(1) kv_in _ a(1)])
      show "invariant (length kvs \<le> maxCollectionEntries L) ''ENCODE_MAP_LIMIT'' = Inr ()"
        using 8 len by simp
      show "(k, v) = kv" by (simp add: kv)
      show "encodable v" using 8(2) kv_in by (auto simp: list_all_iff kv)
      have "Suc (nesting v) \<le> nesting (JObj kvs)" using kv_in by (intro nesting_member) (simp add: kv)
      then show "Suc depth + nesting v \<le> maxDepth L" using 8(3) by linarith
      have "widest v \<le> widest (JObj kvs)" using kv_in by (intro widest_member) (simp add: kv)
      then show "widest v \<le> maxCollectionEntries L" using 8(4) by linarith
    qed (use 8 mem in \<open>simp_all add: kv\<close>)
    with a show ?thesis by (auto simp: kv)
  qed
  obtain parts where
    "mapR (\<lambda>(key, entryValue). bindR (encode_string_value key) (\<lambda>keyPart.
        bindR (encode_value L (Suc depth) entryValue) (\<lambda>valuePart. Inr (keyPart @ valuePart)))) ?s = Inr parts"
    "length (concat parts) \<le> sum_list (map ?g kvs)"
    using mapR_bounded [where xs = ?s and g = ?g, OF each] by (auto simp: sum_list_sort_key)
  with l d 8 len show ?case by auto
qed (auto simp: check_depth_def)


text \<open>Nesting deeper than the limit is always refused.\<close>

lemma encode_value_nesting: "encode_value L depth v = Inr bs \<Longrightarrow> depth + nesting v \<le> maxDepth L"
proof (induction L depth v arbitrary: bs rule: encode_value.induct)
  case (7 L depth items)
  then obtain len parts where len: "encode_length (length items) = Inr len" and d: "check_depth L depth = Inr ()"
    and lim: "length items \<le> maxCollectionEntries L"
    and parts: "mapR (encode_value L (Suc depth)) items = Inr parts"
    by (auto simp: res_simps)
  have depth: "depth \<le> maxDepth L" using d by (simp add: check_depth_def res_simps)
  have "Suc (nesting x) \<le> maxDepth L - depth" if "x \<in> set items" for x
  proof -
    from mapR_Inr_all [OF parts that] obtain b where "encode_value L (Suc depth) x = Inr b" by blast
    from 7(1) [OF d _ len that this] lim show ?thesis by simp
  qed
  then have "nesting (JArr items) \<le> maxDepth L - depth" by (simp add: Suc_le_eq)
  with depth show ?case by linarith
next
  case (8 L depth kvs)
  let ?s = "sort_key (\<lambda>(k, _). utf8 k) kvs"
  from 8 obtain len parts where len: "encode_length (length kvs) = Inr len" and d: "check_depth L depth = Inr ()"
    and lim: "length kvs \<le> maxCollectionEntries L"
    and parts: "mapR (\<lambda>(key, entryValue). bindR (encode_string_value key) (\<lambda>keyPart.
        bindR (encode_value L (Suc depth) entryValue) (\<lambda>valuePart. Inr (keyPart @ valuePart)))) ?s = Inr parts"
    by (auto simp: res_simps)
  have depth: "depth \<le> maxDepth L" using d by (simp add: check_depth_def res_simps)
  have "Suc (nesting v) \<le> maxDepth L - depth" if "(k, v) \<in> set kvs" for k v
  proof -
    have mem: "(k, v) \<in> set ?s" using that by simp
    from mapR_Inr_all [OF parts mem] obtain a b where a: "encode_string_value k = Inr a"
      and b: "encode_value L (Suc depth) v = Inr b" by (auto simp: res_simps)
    from 8(1) [OF d _ len mem refl a b] lim show ?thesis by simp
  qed
  then have "nesting (JObj kvs) \<le> maxDepth L - depth" by (auto simp: Suc_le_eq)
  with depth show ?case by linarith
qed (auto simp: check_depth_def res_simps)

lemma encode_canonical_total:
  assumes "encodable v" and "nesting v \<le> 64" and "widest v \<le> 1000000" and "size_bound v \<le> 67108864"
  shows "\<exists>bs. encode_canonical DEFAULT_LIMITS v = Inr bs \<and> length bs \<le> size_bound v"
  unfolding encode_canonical_def using assms
  by (intro encode_value_total) (simp_all add: DEFAULT_LIMITS_def max_safe_integer_def)

end
