(* ===== verification/G9P_Crypto.thy ===== *)
theory G9P_Crypto
  imports G9P_Codec
begin

text \<open>
  Domain-separated hashing and signing (src/src/crypto.js) and block compression
  (src/src/compression.js). The primitives of the platform (SHA-256, Ed25519, Zstandard, Unicode
  normalisation) are fields of the record \<open>platform\<close> that every definition using them takes as
  its first argument.
\<close>

section \<open>The platform's primitives\<close>

text \<open>
  \<open>import_key\<close> gives the asymmetric key type of an SPKI document, \<open>None\<close> where \<open>createPublicKey\<close>
  throws; \<open>ed_verify key message signature\<close> is \<open>crypto.verify(null, ...)\<close>, \<open>ed_sign\<close> is
  \<open>crypto.sign(null, ...)\<close> with a private key; \<open>zstd_decompress bytes limit\<close> is \<open>None\<close> where the
  decompressor throws.
\<close>

record platform =
  sha256 :: "byte list \<Rightarrow> byte list"
  import_key :: "byte list \<Rightarrow> string option"
  ed_verify :: "byte list \<Rightarrow> byte list \<Rightarrow> byte list \<Rightarrow> bool"
  ed_sign :: "byte list \<Rightarrow> byte list \<Rightarrow> byte list"
  zstd_compress :: "byte list \<Rightarrow> byte list option"
  zstd_decompress :: "byte list \<Rightarrow> nat \<Rightarrow> byte list option"
  is_nfc :: "jsstr \<Rightarrow> bool"

text \<open>
  Documented behaviour: a SHA-256 digest has 32 bytes; Zstandard decompression inverts
  compression when the output limit admits the result, a larger limit does not change a result,
  and an empty input holds no data.
\<close>

definition sha256_ok :: "platform \<Rightarrow> bool" where
  "sha256_ok X = (\<forall>bs. length (sha256 X bs) = 32)"

definition zstd_ok :: "platform \<Rightarrow> bool" where
  "zstd_ok X =
     ((\<forall>bs cs limit. zstd_compress X bs = Some cs \<longrightarrow> length bs \<le> limit \<longrightarrow> zstd_decompress X cs limit = Some bs)
      \<and> (\<forall>cs limit limit' out. zstd_decompress X cs limit = Some out \<longrightarrow> limit \<le> limit' \<longrightarrow>
           zstd_decompress X cs limit' = Some out)
      \<and> (\<forall>limit out. zstd_decompress X [] limit = Some out \<longrightarrow> out = []))"

section \<open>Domain-separated hashing\<close>

definition length_prefix :: "nat \<Rightarrow> byte list" where
  "length_prefix n = u64_be n"

definition prefixed :: "byte list \<Rightarrow> byte list" where
  "prefixed part = length_prefix (length part) @ part"

definition domain_bytes :: "string \<Rightarrow> byte list" where
  "domain_bytes domain = utf8 (js (''G9P'' @ CHR 0x00 # domain))"

definition hash_input :: "string \<Rightarrow> byte list list \<Rightarrow> byte list" where
  "hash_input domain parts = concat (map prefixed (domain_bytes domain # parts))"

text \<open>
  \<open>domain_digest\<close> is the body of \<open>domainHash\<close> behind its guard; the callers, which all pass a
  non-empty literal, use it directly.
\<close>

definition domain_digest :: "platform \<Rightarrow> string \<Rightarrow> byte list list \<Rightarrow> byte list" where
  "domain_digest X domain parts = sha256 X (hash_input domain parts)"

definition domain_hash :: "platform \<Rightarrow> string \<Rightarrow> byte list list \<Rightarrow> byte list res" where
  "domain_hash X domain parts =
     andThen (invariant (domain \<noteq> []) ''HASH_DOMAIN'') (Inr (domain_digest X domain parts))"

lemma domain_hash_literal [simp]: "domain \<noteq> [] \<Longrightarrow> domain_hash X domain parts = Inr (domain_digest X domain parts)"
  by (simp add: domain_hash_def)

lemma length_domain_digest [simp]: "sha256_ok X \<Longrightarrow> length (domain_digest X d ps) = 32"
  by (simp add: sha256_ok_def domain_digest_def)

text \<open>What reading a length-prefixed part back would yield; nothing in the program does.\<close>

definition read_prefixed :: "byte list \<Rightarrow> unit + (byte list \<times> byte list)" where
  "read_prefixed bs =
     (let n = of_be (take 8 bs) in
      if n + 8 \<le> length bs then Inr (take n (drop 8 bs), drop (n + 8) bs) else Inl ())"

interpretation hash_part: prefix_codec prefixed read_prefixed "\<lambda>part. length part < 256 ^ 8"
  by unfold_locales
    (simp add: read_prefixed_def prefixed_def length_prefix_def of_be_be_bytes Let_def)

lemma domain_bytes_inj: "domain_bytes d = domain_bytes e \<longleftrightarrow> d = e"
proof
  assume "domain_bytes d = domain_bytes e"
  then have "js (''G9P'' @ CHR 0x00 # d) = js (''G9P'' @ CHR 0x00 # e)"
    unfolding domain_bytes_def by (rule utf8_inj [OF portable_js portable_js])
  then have "''G9P'' @ CHR 0x00 # d = ''G9P'' @ CHR 0x00 # e" by (simp only: js_eq_iff)
  then show "d = e" by simp
qed simp

lemma prefixed_nonempty: "prefixed part \<noteq> []"
proof -
  have "8 \<le> length (prefixed part)" by (simp add: prefixed_def length_prefix_def)
  then show ?thesis by auto
qed

definition hashable :: "string \<Rightarrow> byte list list \<Rightarrow> bool" where
  "hashable d ps = list_all (\<lambda>part. length part < 256 ^ 8) (domain_bytes d # ps)"

lemma length_utf8_js: "length (utf8 (js s)) \<le> 2 * length s"
proof (induction s)
  case (Cons c s)
  have "length (utf8_code_point (of_char c)) \<le> 2"
    using of_char_le [of c] by (simp add: utf8_code_point_def)
  with Cons show ?case by (cases s) (simp_all add: utf8_def)
qed simp

lemma hashable_short:
  "length d < 256 \<Longrightarrow> list_all (\<lambda>p. length p < 256 ^ 8) ps \<Longrightarrow> hashable d ps"
  using length_utf8_js [of "''G9P'' @ CHR 0x00 # d"]
  by (simp add: hashable_def domain_bytes_def del: js_Cons)

lemma hash_input_inj:
  assumes "hashable d ps" and "hashable e qs" and "hash_input d ps = hash_input e qs"
  shows "d = e \<and> ps = qs"
proof -
  have "domain_bytes d # ps = domain_bytes e # qs"
    using assms unfolding hashable_def hash_input_def
    by (intro hash_part.concat_inj) (simp_all add: prefixed_nonempty)
  then show ?thesis by (simp add: domain_bytes_inj)
qed

text \<open>Two digests that agree without a collision of SHA-256 commit to the same data.\<close>

lemma domain_digest_inj:
  assumes "inj_on (sha256 X) S" and "hash_input d ps \<in> S" and "hash_input e qs \<in> S"
    and "hashable d ps" and "hashable e qs" and "domain_digest X d ps = domain_digest X e qs"
  shows "d = e \<and> ps = qs"
proof -
  have "sha256 X (hash_input d ps) = sha256 X (hash_input e qs)"
    using assms(6) by (simp add: domain_digest_def)
  with assms(1) have "hash_input d ps = hash_input e qs" using assms(2,3) by (rule inj_onD)
  with assms(4,5) show ?thesis by (rule hash_input_inj)
qed

section \<open>Keys and signers\<close>

definition public_key_id :: "platform \<Rightarrow> byte list \<Rightarrow> jsstr" where
  "public_key_id X publicKeyDer = to_hex (domain_digest X ''public-key-id-v1'' [publicKeyDer])"

text \<open>A signer offers an asynchronous sign operation, which may reject, or holds a private key.\<close>

record signer =
  algorithm :: jsstr
  keyId :: jsstr
  publicKeyDer :: "byte list"
  sign_operation :: "(byte list \<Rightarrow> byte list res) option"
  privateKey :: "byte list option"

definition can_sign :: "signer \<Rightarrow> bool" where
  "can_sign s = (sign_operation s \<noteq> None \<or> privateKey s \<noteq> None)"

definition validate_signer :: "platform \<Rightarrow> signer \<Rightarrow> string \<Rightarrow> unit res" where
  "validate_signer X s code = checks
     [invariant (algorithm s = js ''ed25519'') code,
      invariant (keyId s = public_key_id X (publicKeyDer s)) code,
      invariant (can_sign s) code,
      (case import_key X (publicKeyDer s) of
         None \<Rightarrow> failWith code
       | Some keyType \<Rightarrow> invariant (keyType = ''ed25519'') code)]"

definition verify_domain_commitment ::
  "platform \<Rightarrow> byte list \<Rightarrow> string \<Rightarrow> byte list \<Rightarrow> byte list \<Rightarrow> bool" where
  "verify_domain_commitment X publicKey domain commitmentBytes signature =
     ed_verify X publicKey (domain_digest X domain [commitmentBytes]) signature"

definition verify_commitment :: "platform \<Rightarrow> byte list \<Rightarrow> byte list \<Rightarrow> byte list \<Rightarrow> bool" where
  "verify_commitment X publicKey commitmentBytes signature =
     verify_domain_commitment X publicKey ''segment-signature-v1'' commitmentBytes signature"

definition sign_domain_commitment :: "platform \<Rightarrow> byte list \<Rightarrow> string \<Rightarrow> byte list \<Rightarrow> byte list" where
  "sign_domain_commitment X private_key domain commitmentBytes =
     ed_sign X private_key (domain_digest X domain [commitmentBytes])"

definition sign_message :: "platform \<Rightarrow> signer \<Rightarrow> byte list \<Rightarrow> byte list res" where
  "sign_message X s message =
     (case sign_operation s of
        Some operation \<Rightarrow> operation message
      | None \<Rightarrow>
          (case privateKey s of
             Some key \<Rightarrow> Inr (ed_sign X key message)
           | None \<Rightarrow> Inl JsTypeError))"

definition sign_domain_with_signer ::
  "platform \<Rightarrow> signer \<Rightarrow> string \<Rightarrow> byte list \<Rightarrow> byte list res" where
  "sign_domain_with_signer X s domain commitmentBytes =
     andThen (validate_signer X s ''SIGNER_IDENTITY'')
     (let message = domain_digest X domain [commitmentBytes] in
      bindR (sign_message X s message) (\<lambda>signature.
      andThen (invariant (length signature = 64) ''SIGNER_SIGNATURE'')
      (andThen (invariant (ed_verify X (publicKeyDer s) message signature) ''SIGNER_SIGNATURE'')
      (Inr signature))))"

lemma sign_domain_with_signer_verifies:
  "sign_domain_with_signer X s domain bytes = Inr signature \<Longrightarrow>
   verify_domain_commitment X (publicKeyDer s) domain bytes signature \<and> length signature = 64
   \<and> validate_signer X s ''SIGNER_IDENTITY'' = Inr ()"
  by (auto simp: sign_domain_with_signer_def verify_domain_commitment_def Let_def res_simps)

lemma validate_signer_facts:
  "validate_signer X s code = Inr () \<Longrightarrow>
   algorithm s = js ''ed25519'' \<and> keyId s = public_key_id X (publicKeyDer s) \<and> can_sign s
   \<and> import_key X (publicKeyDer s) = Some ''ed25519''"
  by (auto simp: validate_signer_def res_simps simp del: js_Cons split: option.splits)

section \<open>Compression\<close>

definition ZSTD_PROFILE :: jsval where
  "ZSTD_PROFILE = obj
     [(''algorithm'', JStr (js ''zstd'')), (''profile'', JStr (js ''g9p-zstd-v1'')),
      (''level'', JInt 3), (''checksum'', JBool True), (''contentSize'', JBool True)]"

definition compress_block :: "platform \<Rightarrow> byte list \<Rightarrow> byte list res" where
  "compress_block X bytes =
     (case zstd_compress X bytes of None \<Rightarrow> failWith ''COMPRESS_FAILED'' | Some cs \<Rightarrow> Inr cs)"

definition decompress_block :: "platform \<Rightarrow> byte list \<Rightarrow> nat \<Rightarrow> nat \<Rightarrow> byte list res" where
  "decompress_block X bytes expectedLength maxOutputLength =
     andThen (checks
       [invariant (expectedLength \<le> max_safe_integer) ''DECOMPRESS_LENGTH'',
        invariant (expectedLength \<le> maxOutputLength) ''DECOMPRESS_LIMIT''])
     (case zstd_decompress X bytes maxOutputLength of
        None \<Rightarrow> failWith ''DECOMPRESS_FAILED''
      | Some output \<Rightarrow>
          andThen (invariant (length output = expectedLength) ''DECOMPRESS_LENGTH_MISMATCH'')
            (Inr output))"

lemma zstd_okD:
  assumes "zstd_ok X"
  shows "zstd_compress X bs = Some cs \<Longrightarrow> length bs \<le> limit \<Longrightarrow> zstd_decompress X cs limit = Some bs"
    and "zstd_decompress X cs limit = Some out \<Longrightarrow> limit \<le> limit' \<Longrightarrow> zstd_decompress X cs limit' = Some out"
    and "zstd_decompress X [] limit = Some out \<Longrightarrow> out = []"
  using assms unfolding zstd_ok_def by blast+

lemma decompress_block_Inr:
  "decompress_block X bs n limit = Inr out \<longleftrightarrow>
   n \<le> max_safe_integer \<and> n \<le> limit \<and> zstd_decompress X bs limit = Some out \<and> length out = n"
  by (cases "zstd_decompress X bs limit") (auto simp: decompress_block_def res_simps)

lemma decompress_compress:
  "zstd_ok X \<Longrightarrow> compress_block X bs = Inr cs \<Longrightarrow> length bs \<le> limit \<Longrightarrow>
   length bs \<le> max_safe_integer \<Longrightarrow> decompress_block X cs (length bs) limit = Inr bs"
  by (cases "zstd_compress X bs")
    (simp_all add: compress_block_def failWith_neq_Inr decompress_block_Inr zstd_okD(1))

lemma decompress_block_limit:
  "zstd_ok X \<Longrightarrow> decompress_block X cs n limit = Inr bs \<Longrightarrow> limit \<le> limit' \<Longrightarrow>
   decompress_block X cs n limit' = Inr bs"
  unfolding decompress_block_Inr using zstd_okD(2) [of X cs limit bs limit'] by (metis le_trans)

lemma decompress_block_nonempty:
  "zstd_ok X \<Longrightarrow> decompress_block X cs n limit = Inr bs \<Longrightarrow> bs \<noteq> [] \<Longrightarrow> cs \<noteq> []"
  by (metis decompress_block_Inr zstd_okD(3))

lemma decompress_block_length:
  "decompress_block X bs n limit = Inr out \<Longrightarrow> length out = n \<and> n \<le> limit"
  by (simp add: decompress_block_Inr)

section \<open>A small concrete platform\<close>

text \<open>An instance of the parameters with the documented behaviour, for evaluating the model.\<close>

definition toy_digest :: "byte list \<Rightarrow> byte list" where
  "toy_digest bs = take 32 (rev bs @ replicate 32 0)"

definition toy_platform :: platform where
  "toy_platform = \<lparr>sha256 = toy_digest, import_key = (\<lambda>_. Some ''ed25519''),
     ed_verify = (\<lambda>key message signature. signature = message @ replicate 32 7),
     ed_sign = (\<lambda>key message. message @ replicate 32 7),
     zstd_compress = (\<lambda>bs. Some (1 # bs)),
     zstd_decompress = (\<lambda>cs limit. if length cs \<le> limit + 1 then Some (tl cs) else None),
     is_nfc = (\<lambda>_. True)\<rparr>"

lemma toy_sha256_ok: "sha256_ok toy_platform"
  by (simp add: sha256_ok_def toy_platform_def toy_digest_def min_def)

lemma toy_digest_append: "length b = 32 \<Longrightarrow> toy_digest (a @ b) = rev b"
  by (simp add: toy_digest_def)

lemma toy_zstd_ok: "zstd_ok toy_platform"
  by (auto simp: zstd_ok_def toy_platform_def split: if_splits)

end
