(* ===== verification/G9P_Merkle.thy ===== *)
theory G9P_Merkle
  imports G9P_Crypto
begin

text \<open>
  The Merkle commitment to a segment's records (src/src/merkle.js): leaves are hashed, a level is
  paired up left to right, and an odd last node moves up unchanged. Without a collision among
  the inputs hashed on the way, the root determines the list of record hashes, its length
  included.
\<close>

fun next_level :: "('a \<Rightarrow> 'a \<Rightarrow> 'a) \<Rightarrow> 'a list \<Rightarrow> 'a list" where
  "next_level node (a # b # rest) = node a b # next_level node rest"
| "next_level node [a] = [a]"
| "next_level node [] = []"

lemma length_next_level: "length (next_level node xs) = (length xs + 1) div 2"
  by (induction node xs rule: next_level.induct) simp_all

text \<open>The loop \<open>while (level.length > 1)\<close>, whose result is \<open>level[0]\<close>.\<close>

function merkle_levels :: "('a \<Rightarrow> 'a \<Rightarrow> 'a) \<Rightarrow> 'a list \<Rightarrow> 'a list" where
  "merkle_levels node level =
     (if 1 < length level then merkle_levels node (next_level node level) else level)"
  by pat_completeness auto
termination
  by (relation "measure (\<lambda>(node, level). length level)") (auto simp: length_next_level)

declare merkle_levels.simps [simp del]

definition merkle_leaf :: "platform \<Rightarrow> byte list \<Rightarrow> byte list" where
  "merkle_leaf X h = domain_digest X ''merkle-leaf-v1'' [h]"

definition merkle_node :: "platform \<Rightarrow> byte list \<Rightarrow> byte list \<Rightarrow> byte list" where
  "merkle_node X l r = domain_digest X ''merkle-node-v1'' [l, r]"

definition merkle_root :: "platform \<Rightarrow> byte list list \<Rightarrow> byte list res" where
  "merkle_root X recordHashes =
     (if recordHashes = [] then Inr (domain_digest X ''merkle-empty-v1'' [])
      else
        andThen (invariant (list_all (\<lambda>h. length h = 32) recordHashes) ''MERKLE_HASH'')
          (Inr (hd (merkle_levels (merkle_node X) (map (merkle_leaf X) recordHashes)))))"

section \<open>The tree behind the root\<close>

datatype tree = Leaf "byte list" | Node tree tree

fun leaves :: "tree \<Rightarrow> byte list list" where
  "leaves (Leaf h) = [h]"
| "leaves (Node l r) = leaves l @ leaves r"

fun tree_digest :: "platform \<Rightarrow> tree \<Rightarrow> byte list" where
  "tree_digest X (Leaf h) = merkle_leaf X h"
| "tree_digest X (Node l r) = merkle_node X (tree_digest X l) (tree_digest X r)"

fun tree_inputs :: "platform \<Rightarrow> tree \<Rightarrow> byte list set" where
  "tree_inputs X (Leaf h) = {hash_input ''merkle-leaf-v1'' [h]}"
| "tree_inputs X (Node l r) =
     insert (hash_input ''merkle-node-v1'' [tree_digest X l, tree_digest X r])
       (tree_inputs X l \<union> tree_inputs X r)"

definition merkle_tree :: "byte list list \<Rightarrow> tree" where
  "merkle_tree hashes = hd (merkle_levels Node (map Leaf hashes))"

text \<open>Every byte string hashed while the root is computed.\<close>

definition merkle_inputs :: "platform \<Rightarrow> byte list list \<Rightarrow> byte list set" where
  "merkle_inputs X hashes =
     (if hashes = [] then {hash_input ''merkle-empty-v1'' []} else tree_inputs X (merkle_tree hashes))"

lemma next_level_map:
  "(\<And>a b. f (node a b) = node' (f a) (f b)) \<Longrightarrow>
   map f (next_level node xs) = next_level node' (map f xs)"
  by (induction node xs rule: next_level.induct) simp_all

lemma merkle_levels_map:
  "(\<And>a b. f (node a b) = node' (f a) (f b)) \<Longrightarrow>
   map f (merkle_levels node xs) = merkle_levels node' (map f xs)"
proof (induction node xs rule: merkle_levels.induct)
  case (1 node level)
  then show ?case
    by (subst merkle_levels.simps, subst (2) merkle_levels.simps) (simp add: next_level_map)
qed

lemma merkle_levels_single: "xs \<noteq> [] \<Longrightarrow> length (merkle_levels node xs) = 1"
proof (induction node xs rule: merkle_levels.induct)
  case (1 node level)
  show ?case
  proof (cases "1 < length level")
    case True
    then have "next_level node level \<noteq> []"
      by (simp add: length_next_level flip: length_greater_0_conv)
    with 1 True show ?thesis by (subst merkle_levels.simps) simp
  next
    case False
    with 1(2) show ?thesis by (subst merkle_levels.simps) (cases level, simp_all)
  qed
qed

lemma leaves_next_level: "concat (map leaves (next_level Node ts)) = concat (map leaves ts)"
  by (induction "Node" ts rule: next_level.induct) simp_all

lemma leaves_merkle_levels:
  "node = Node \<Longrightarrow> concat (map leaves (merkle_levels node ts)) = concat (map leaves ts)"
proof (induction node ts rule: merkle_levels.induct)
  case (1 node level)
  then show ?case by (subst merkle_levels.simps) (simp add: leaves_next_level)
qed

lemma leaves_merkle_tree: "hashes \<noteq> [] \<Longrightarrow> leaves (merkle_tree hashes) = hashes"
proof -
  assume ne: "hashes \<noteq> []"
  then obtain t where t: "merkle_levels Node (map Leaf hashes) = [t]"
    using merkle_levels_single [of "map Leaf hashes" Node] by (auto simp: length_Suc_conv)
  have "concat (map leaves (merkle_levels Node (map Leaf hashes))) = hashes"
    by (simp add: leaves_merkle_levels comp_def)
  then show ?thesis by (simp add: t merkle_tree_def)
qed

lemma merkle_root_tree:
  "merkle_root X hashes = Inr root \<Longrightarrow> hashes \<noteq> [] \<Longrightarrow> root = tree_digest X (merkle_tree hashes)"
proof -
  assume root: "merkle_root X hashes = Inr root" and ne: "hashes \<noteq> []"
  have "map (tree_digest X) (merkle_levels Node (map Leaf hashes))
      = merkle_levels (merkle_node X) (map (merkle_leaf X) hashes)"
    by (subst merkle_levels_map [where node' = "merkle_node X"]) (simp_all add: comp_def)
  moreover have "merkle_levels Node (map Leaf hashes) \<noteq> []"
    using merkle_levels_single [of "map Leaf hashes" Node] ne by auto
  ultimately show ?thesis
    using root ne by (auto simp: merkle_root_def merkle_tree_def res_simps simp flip: hd_map)
qed

lemma merkle_root_hashes_32: "merkle_root X hashes = Inr root \<Longrightarrow> list_all (\<lambda>h. length h = 32) hashes"
  by (auto simp: merkle_root_def res_simps split: if_splits)

fun tree_domain :: "tree \<Rightarrow> string" where
  "tree_domain (Leaf h) = ''merkle-leaf-v1''"
| "tree_domain (Node l r) = ''merkle-node-v1''"

fun tree_parts :: "platform \<Rightarrow> tree \<Rightarrow> byte list list" where
  "tree_parts X (Leaf h) = [h]"
| "tree_parts X (Node l r) = [tree_digest X l, tree_digest X r]"

lemma tree_digest_parts: "tree_digest X t = domain_digest X (tree_domain t) (tree_parts X t)"
  by (cases t) (simp_all add: merkle_leaf_def merkle_node_def)

lemma tree_parts_input: "hash_input (tree_domain t) (tree_parts X t) \<in> tree_inputs X t"
  by (cases t) simp_all

lemma tree_parts_hashable:
  assumes "sha256_ok X" and "list_all (\<lambda>h. length h = 32) (leaves t)"
  shows "hashable (tree_domain t) (tree_parts X t)"
  using assms by (cases t) (auto intro!: hashable_short simp: tree_digest_parts)

lemma tree_digest_inj:
  assumes "sha256_ok X" and "inj_on (sha256 X) S" and "tree_inputs X s \<subseteq> S" and "tree_inputs X t \<subseteq> S"
    and "list_all (\<lambda>h. length h = 32) (leaves s)" and "list_all (\<lambda>h. length h = 32) (leaves t)"
    and "tree_digest X s = tree_digest X t"
  shows "s = t"
  using assms(3-)
proof (induction s arbitrary: t)
  have same: "tree_domain s = tree_domain t \<and> tree_parts X s = tree_parts X t"
    if "tree_inputs X s \<subseteq> S" "tree_inputs X t \<subseteq> S" "list_all (\<lambda>h. length h = 32) (leaves s)"
      "list_all (\<lambda>h. length h = 32) (leaves t)" "tree_digest X s = tree_digest X t" for s t
  proof (rule domain_digest_inj [OF assms(2)])
    show "hash_input (tree_domain s) (tree_parts X s) \<in> S"
      and "hash_input (tree_domain t) (tree_parts X t) \<in> S"
      using that(1,2) tree_parts_input by blast+
    show "hashable (tree_domain s) (tree_parts X s)" and "hashable (tree_domain t) (tree_parts X t)"
      using assms(1) that(3,4) by (simp_all add: tree_parts_hashable)
    show "domain_digest X (tree_domain s) (tree_parts X s) = domain_digest X (tree_domain t) (tree_parts X t)"
      using that(5) by (simp add: tree_digest_parts)
  qed
  {
    case (Leaf h)
    then show ?case using same [of "Leaf h" t] by (cases t) simp_all
  next
    case (Node l r)
    then show ?case using same [of "Node l r" t] by (cases t) simp_all
  }
qed

text \<open>
  C20: The Merkle root commits to the whole ordered list of record hashes: two lists with the
  same root are equal, their lengths included, unless SHA-256 collides on one of the byte
  strings hashed while the two roots are computed.
\<close>

theorem merkle_root_commits:
  assumes "sha256_ok X" and "inj_on (sha256 X) (merkle_inputs X hs \<union> merkle_inputs X ks)"
    and "merkle_root X hs = Inr root" and "merkle_root X ks = Inr root"
  shows "hs = ks"
proof -
  have empty: "\<not> (merkle_root X [] = Inr root \<and> merkle_root X zs = Inr root)"
    if "zs \<noteq> []" and "inj_on (sha256 X) (merkle_inputs X [] \<union> merkle_inputs X zs)" for zs
  proof
    assume "merkle_root X [] = Inr root \<and> merkle_root X zs = Inr root"
    then have "domain_digest X ''merkle-empty-v1'' [] = tree_digest X (merkle_tree zs)"
      and len: "list_all (\<lambda>h. length h = 32) (leaves (merkle_tree zs))"
      using that(1) merkle_root_tree [of X zs root] merkle_root_hashes_32 [of X zs root]
      by (simp_all add: merkle_root_def [of X "[]"] leaves_merkle_tree)
    then have "''merkle-empty-v1'' = tree_domain (merkle_tree zs) \<and> [] = tree_parts X (merkle_tree zs)"
      using that assms(1) tree_parts_input [of "merkle_tree zs" X]
      by (intro domain_digest_inj [OF that(2)])
         (simp_all add: merkle_inputs_def hashable_short tree_parts_hashable flip: tree_digest_parts)
    then show False by (cases "merkle_tree zs") simp_all
  qed
  show ?thesis
  proof (cases "hs = [] \<or> ks = []")
    case True
    then show ?thesis using empty [of hs] empty [of ks] assms by (metis Un_commute)
  next
    case False
    then have ne: "hs \<noteq> []" "ks \<noteq> []" by simp_all
    have "merkle_tree hs = merkle_tree ks"
      using assms ne by (intro tree_digest_inj [OF assms(1,2)])
        (auto simp: merkle_inputs_def leaves_merkle_tree dest: merkle_root_tree merkle_root_hashes_32)
    then show ?thesis using ne by (metis leaves_merkle_tree)
  qed
qed

definition toy_left :: "byte list" where
  "toy_left = replicate 32 1"

definition toy_right :: "byte list" where
  "toy_right = 9 # replicate 31 2"

lemma merkle_root_commits_witness:
  "\<exists>root. merkle_root toy_platform [toy_left, toy_right] = Inr root
     \<and> [toy_left, toy_right] = [toy_left, toy_right]"
proof -
  have last: "sha256 toy_platform (hash_input d (ps @ [p])) = rev p" if "length p = 32" for d ps p
  proof -
    have "hash_input d (ps @ [p]) = (concat (map prefixed (domain_bytes d # ps)) @ length_prefix (length p)) @ p"
      by (simp add: hash_input_def prefixed_def)
    then have "toy_digest (hash_input d (ps @ [p])) = rev p"
      using that by (simp only: toy_digest_append)
    then show ?thesis by (simp add: toy_platform_def)
  qed
  have one: "sha256 toy_platform (hash_input d [p]) = rev p" if "length p = 32" for d p
    using last [of p d "[]"] that by simp
  have two: "sha256 toy_platform (hash_input d [q, p]) = rev p" if "length p = 32" for d q p
    using last [of p d "[q]"] that by simp
  have tree: "merkle_tree [toy_left, toy_right] = Node (Leaf toy_left) (Leaf toy_right)"
    by (simp add: merkle_tree_def merkle_levels.simps)
  have len: "length toy_left = 32" "length toy_right = 32"
    by (simp_all add: toy_left_def toy_right_def)
  have ne: "rev toy_left \<noteq> rev toy_right" "rev toy_left \<noteq> toy_right" "rev toy_right \<noteq> toy_right"
  proof -
    have "hd (rev toy_left) = 1" "hd (rev toy_right) = 2" "hd toy_right = 9"
      by (simp_all add: toy_left_def toy_right_def)
    moreover have "(1::byte) \<noteq> 2" "(1::byte) \<noteq> 9" "(2::byte) \<noteq> 9" by simp_all
    ultimately show "rev toy_left \<noteq> rev toy_right" "rev toy_left \<noteq> toy_right" "rev toy_right \<noteq> toy_right"
      by metis+
  qed
  have "inj_on (sha256 toy_platform) (merkle_inputs toy_platform [toy_left, toy_right])"
    using ne by (auto simp: merkle_inputs_def tree inj_on_def merkle_leaf_def domain_digest_def one two len)
  moreover obtain root where "merkle_root toy_platform [toy_left, toy_right] = Inr root"
    by (simp add: merkle_root_def len)
  ultimately show ?thesis
    using merkle_root_commits [OF toy_sha256_ok, of "[toy_left, toy_right]" "[toy_left, toy_right]"]
    by auto
qed

end
