(* ===== verification/G9P_Event.thy ===== *)
theory G9P_Event
  imports G9P_Codec_Props G9P_Crypto
begin

text \<open>
  Provenance events (src/src/event.js): validation of every field in the order of the code, the
  canonical bytes of an event, and its record hash. An event is a JavaScript value; whatever is
  not a property of it reads as \<open>undefined\<close>.
\<close>

section \<open>Validation\<close>

definition EVENT_FIELDS :: "string list" where
  "EVENT_FIELDS = [''version'', ''eventId'', ''ledgerId'', ''subject'', ''type'', ''schemaVersion'',
     ''occurredAt'', ''recordedAt'', ''source'', ''payload'', ''payloadHash'', ''previousStateHash'',
     ''resultingStateHash'', ''correlationId'', ''causationId'', ''policyReference'', ''metadata'']"

definition SOURCE_FIELDS :: "string list" where
  "SOURCE_FIELDS = [''kind'', ''identity'', ''keyId'']"

definition SOURCE_KINDS :: "string list" where
  "SOURCE_KINDS = [''semantic'', ''outbox'', ''cdc'', ''webhook'', ''batch'']"

definition validate_text :: "platform \<Rightarrow> nat \<Rightarrow> nat \<Rightarrow> jsval \<Rightarrow> unit res" where
  "validate_text X min_length max_length v =
     (case v of
        JStr s \<Rightarrow> checks
          [invariant (min_length \<le> length s \<and> length s \<le> max_length) ''EVENT_TEXT_LENGTH'',
           invariant (is_nfc X s) ''EVENT_TEXT_NORMALIZATION'',
           invariant (0 \<notin> set s) ''EVENT_TEXT_NULL'']
      | _ \<Rightarrow> failWith ''EVENT_TEXT'')"

definition timestamp_text :: "jsval \<Rightarrow> bool" where
  "timestamp_text v = (case v of JStr s \<Rightarrow> is_canonical_timestamp s | _ \<Rightarrow> False)"

definition validate_timestamp :: "platform \<Rightarrow> jsval \<Rightarrow> unit res" where
  "validate_timestamp X v =
     andThen (validate_text X 1 64 v) (invariant (timestamp_text v) ''EVENT_TIMESTAMP'')"

definition hash_text :: "jsval \<Rightarrow> bool" where
  "hash_text v = (case v of JStr s \<Rightarrow> is_hex64 s | _ \<Rightarrow> False)"

definition validate_hash :: "jsval \<Rightarrow> unit res" where
  "validate_hash v = invariant (hash_text v) ''EVENT_HASH''"

fun validate_data :: "platform \<Rightarrow> nat \<Rightarrow> jsval \<Rightarrow> unit res" where
  "validate_data X depth v =
     andThen (invariant (depth \<le> 64) ''EVENT_DATA_DEPTH'')
     (case v of
        JNull \<Rightarrow> Inr ()
      | JBool _ \<Rightarrow> Inr ()
      | JStr s \<Rightarrow> invariant (is_nfc X s) ''EVENT_DATA_NORMALIZATION''
      | JInt _ \<Rightarrow> Inr ()
      | JDbl w \<Rightarrow> checks
          [invariant (dbl_is_finite w) ''EVENT_DATA_NUMBER'',
           invariant (\<not> dbl_is_integer w \<or> dbl_is_safe_integer w) ''EVENT_DATA_INTEGER'']
      | JBytes _ \<Rightarrow> Inr ()
      | JArr items \<Rightarrow> checks (map (\<lambda>item. validate_data X (Suc depth) item) items)
      | JObj kvs \<Rightarrow>
          checks (map (\<lambda>(key, item).
            andThen (validate_text X 1 256 (JStr key)) (validate_data X (Suc depth) item)) kvs)
      | _ \<Rightarrow> failWith ''EVENT_DATA_TYPE'')"

declare validate_data.simps [simp del]

definition reject_unknown_fields :: "jsval \<Rightarrow> string list \<Rightarrow> unit res" where
  "reject_unknown_fields v allowed =
     checks (map (\<lambda>key. invariant (key \<in> set (map js allowed)) ''EVENT_UNKNOWN_FIELD'') (object_keys v))"

text \<open>\<open>if (value !== undefined) check(value)\<close>\<close>

definition when_present :: "(jsval \<Rightarrow> unit res) \<Rightarrow> jsval \<Rightarrow> unit res" where
  "when_present check v = (if v = JUndef then Inr () else check v)"

definition positive_safe_integer :: "jsval \<Rightarrow> bool" where
  "positive_safe_integer v = (case v of JInt i \<Rightarrow> 1 \<le> i | _ \<Rightarrow> False)"

definition source_kind_ok :: "jsval \<Rightarrow> bool" where
  "source_kind_ok v = (case v of JStr s \<Rightarrow> s \<in> set (map js SOURCE_KINDS) | _ \<Rightarrow> False)"

definition validate_source :: "platform \<Rightarrow> jsval \<Rightarrow> unit res" where
  "validate_source X source = checks
     [invariant (is_object source) ''EVENT_SOURCE'',
      reject_unknown_fields source SOURCE_FIELDS,
      invariant (source_kind_ok (get_prop source ''kind'')) ''EVENT_SOURCE_KIND'',
      validate_text X 1 256 (get_prop source ''identity''),
      when_present (validate_text X 1 256) (get_prop source ''keyId'')]"

definition validate_event :: "platform \<Rightarrow> jsval \<Rightarrow> unit res" where
  "validate_event X event = checks
     [invariant (is_object event) ''EVENT_OBJECT'',
      reject_unknown_fields event EVENT_FIELDS,
      invariant (get_prop event ''version'' = JInt 1) ''EVENT_VERSION'',
      validate_text X 1 128 (get_prop event ''eventId''),
      validate_text X 1 128 (get_prop event ''ledgerId''),
      validate_text X 1 512 (get_prop event ''subject''),
      validate_text X 1 256 (get_prop event ''type''),
      invariant (positive_safe_integer (get_prop event ''schemaVersion'')) ''EVENT_SCHEMA_VERSION'',
      validate_timestamp X (get_prop event ''occurredAt''),
      validate_timestamp X (get_prop event ''recordedAt''),
      validate_source X (get_prop event ''source''),
      when_present (validate_data X 0) (get_prop event ''payload''),
      when_present (validate_data X 0) (get_prop event ''metadata''),
      when_present validate_hash (get_prop event ''payloadHash''),
      when_present validate_hash (get_prop event ''previousStateHash''),
      when_present validate_hash (get_prop event ''resultingStateHash''),
      when_present (validate_text X 1 512) (get_prop event ''correlationId''),
      when_present (validate_text X 1 512) (get_prop event ''causationId''),
      when_present (validate_text X 1 512) (get_prop event ''policyReference''),
      invariant (get_prop event ''payload'' \<noteq> JUndef \<or> get_prop event ''payloadHash'' \<noteq> JUndef)
        ''EVENT_PAYLOAD'']"

section \<open>Canonical bytes and record hash\<close>

definition canonical_event_bytes :: "platform \<Rightarrow> jsval \<Rightarrow> byte list res" where
  "canonical_event_bytes X event =
     andThen (validate_event X event) (encode_canonical DEFAULT_LIMITS event)"

definition decode_event :: "platform \<Rightarrow> byte list \<Rightarrow> jsval res" where
  "decode_event X bytes =
     bindR (decode_canonical DEFAULT_LIMITS bytes) (\<lambda>event.
       andThen (validate_event X event) (Inr event))"

definition event_hash :: "platform \<Rightarrow> byte list \<Rightarrow> byte list" where
  "event_hash X bytes = domain_digest X ''event-record-v1'' [bytes]"

definition event_hash_of_event :: "platform \<Rightarrow> jsval \<Rightarrow> byte list res" where
  "event_hash_of_event X event =
     bindR (canonical_event_bytes X event) (\<lambda>bytes. Inr (event_hash X bytes))"

definition event_hash_hex :: "platform \<Rightarrow> byte list \<Rightarrow> jsstr" where
  "event_hash_hex X bytes = to_hex (event_hash X bytes)"

text \<open>The text of a property, empty where it is not a string.\<close>

definition text_prop :: "jsval \<Rightarrow> string \<Rightarrow> jsstr" where
  "text_prop v name = (case get_prop v name of JStr s \<Rightarrow> s | _ \<Rightarrow> [])"

lemma validate_text_Inr:
  "validate_text X a b v = Inr () \<longleftrightarrow>
   (\<exists>s. v = JStr s \<and> a \<le> length s \<and> length s \<le> b \<and> is_nfc X s \<and> 0 \<notin> set s)"
  by (cases v) (auto simp: validate_text_def res_simps)

section \<open>Property order does not matter\<close>

lemma map_of_canon:
  assumes "distinct (map fst kvs)"
  shows "map_of (map (\<lambda>(k, v). (k, canon v)) (sort_key f kvs)) k = map_option canon (map_of kvs k)"
proof -
  have "map_of (sort_key f kvs) = map_of kvs"
    using assms by (intro map_of_inject_set [THEN iffD2]) (simp_all add: distinct_keys_sort)
  then show ?thesis by (simp add: map_of_map)
qed

lemma get_prop_canon:
  assumes "portable v"
  shows "get_prop (canon v) name = canon (get_prop v name)"
proof (cases v)
  case (JObj kvs)
  with assms have "distinct (map fst kvs)" by simp
  with JObj show ?thesis
    by (simp add: get_prop_def map_of_canon split: option.split)
qed (simp_all add: get_prop_def)

lemma portable_get_prop: "portable v \<Longrightarrow> portable (get_prop v name)"
  by (cases v) (auto simp: get_prop_def list_all_iff split: option.splits dest!: map_of_SomeD)

lemma set_object_keys_canon: "set (object_keys (canon v)) = set (object_keys v)"
  by (cases v) (force simp: object_keys_def)+

lemma canon_cases [simp]:
  "canon v = JUndef \<longleftrightarrow> v = JUndef"
  "canon v = JInt i \<longleftrightarrow> v = JInt i"
  "canon v = JStr s \<longleftrightarrow> v = JStr s"
  "is_object (canon v) = is_object v"
  by (cases v; simp add: is_object_def)+

lemma validate_text_canon [simp]: "validate_text X a b (canon v) = validate_text X a b v"
  by (cases v) (simp_all add: validate_text_def)

lemma validate_timestamp_canon [simp]: "validate_timestamp X (canon v) = validate_timestamp X v"
  by (cases v) (simp_all add: validate_timestamp_def timestamp_text_def validate_text_def)

lemma validate_hash_canon [simp]: "validate_hash (canon v) = validate_hash v"
  by (cases v) (simp_all add: validate_hash_def hash_text_def)

lemma positive_canon [simp]: "positive_safe_integer (canon v) = positive_safe_integer v"
  by (cases v) (simp_all add: positive_safe_integer_def)

lemma source_kind_canon [simp]: "source_kind_ok (canon v) = source_kind_ok v"
  by (cases v) (simp_all add: source_kind_ok_def)

lemma reject_unknown_canon:
  "reject_unknown_fields (canon v) allowed = Inr () \<longleftrightarrow> reject_unknown_fields v allowed = Inr ()"
  by (auto simp: reject_unknown_fields_def res_simps set_object_keys_canon)

lemma validate_data_canon: "validate_data X d (canon v) = Inr () \<longleftrightarrow> validate_data X d v = Inr ()"
proof (induction X d v rule: validate_data.induct)
  case (1 X d v)
  show ?case
  proof (cases "d \<le> 64")
    case True
    show ?thesis
    proof (cases v)
      case (JArr items)
      then show ?thesis using 1(1) [of items] True
        by (simp add: validate_data.simps [of X d] res_simps)
    next
      case (JObj kvs)
      have IH: "validate_data X (Suc d) (canon b) = Inr () \<longleftrightarrow> validate_data X (Suc d) b = Inr ()"
        if "(a, b) \<in> set kvs" and "validate_text X 1 256 (JStr a) = Inr ()" for a b
        by (rule 1(2) [OF _ JObj that(1) refl]) (use True that in simp_all)
      then show ?thesis using True JObj
        by (simp add: validate_data.simps [of X d] res_simps case_prod_unfold) (metis IH prod.collapse)
    qed (simp_all add: validate_data.simps [of X d])
  qed (simp add: validate_data.simps [of X d])
qed

lemma validate_source_canon:
  "portable v \<Longrightarrow> validate_source X (canon v) = Inr () \<longleftrightarrow> validate_source X v = Inr ()"
  by (simp add: validate_source_def res_simps reject_unknown_canon get_prop_canon when_present_def)

lemma validate_event_canon:
  assumes "portable v"
  shows "validate_event X (canon v) = Inr () \<longleftrightarrow> validate_event X v = Inr ()"
  using assms portable_get_prop [OF assms]
  by (simp add: validate_event_def res_simps reject_unknown_canon get_prop_canon
      validate_source_canon validate_data_canon when_present_def)

lemma decode_event_bytes:
  assumes "canonical_event_bytes X event = Inr bs" and "portable event"
    and "length bs \<le> maxBytes DEFAULT_LIMITS"
  shows "decode_event X bs = Inr (canon event)"
proof -
  from assms(1) have valid: "validate_event X event = Inr ()"
    and enc: "encode_canonical DEFAULT_LIMITS event = Inr bs"
    by (simp_all add: canonical_event_bytes_def res_simps)
  show ?thesis
    using decode_canonical_encode [OF enc assms(2,3)] valid validate_event_canon [OF assms(2), of X]
    by (simp add: decode_event_def)
qed

lemma decode_event_valid:
  "decode_event X bs = Inr event \<Longrightarrow>
   validate_event X event = Inr () \<and> encode_canonical DEFAULT_LIMITS event = Inr bs"
  by (auto simp: decode_event_def res_simps dest: decode_canonical_reencodes)

end
