(* ===== verification/G9P_Sharding.thy ===== *)
theory G9P_Sharding
  imports G9P_Event
begin

text \<open>
  Routing of events to shards (src/src/sharding.js) and the planner that reports how a set of
  subjects is distributed (src/src/shard-planner.js).
\<close>

definition ROUTING_POLICY_ID :: jsstr where
  "ROUTING_POLICY_ID = js ''subject-sha256-v1''"

definition routing_policy :: "nat \<Rightarrow> jsval" where
  "routing_policy shardCount = obj
     [(''id'', JStr ROUTING_POLICY_ID), (''version'', JInt 1), (''shardCount'', JInt (int shardCount))]"

definition create_routing_policy :: "nat \<Rightarrow> jsval res" where
  "create_routing_policy shardCount =
     andThen (invariant (1 \<le> shardCount \<and> shardCount \<le> 65536) ''SHARD_COUNT'')
       (Inr (routing_policy shardCount))"

record route =
  index :: nat
  shardId :: jsstr

text \<open>\<open>shard-\<close> and the index, padded with zeros to four digits.\<close>

definition shard_name :: "nat \<Rightarrow> jsstr" where
  "shard_name i = js ''shard-'' @ padded 4 i"

definition policy_shard_count :: "jsval \<Rightarrow> nat" where
  "policy_shard_count policy =
     (case get_prop policy ''shardCount'' of JInt n \<Rightarrow> nat n | _ \<Rightarrow> 0)"

definition route_digest :: "platform \<Rightarrow> jsstr \<Rightarrow> jsstr \<Rightarrow> byte list" where
  "route_digest X ledgerId subject =
     domain_digest X ''shard-route-v1'' [utf8 ledgerId, utf8 subject]"

definition is_text :: "jsval \<Rightarrow> bool" where
  "is_text v = (case v of JStr _ \<Rightarrow> True | _ \<Rightarrow> False)"

definition route_event :: "platform \<Rightarrow> jsval \<Rightarrow> jsval \<Rightarrow> route res" where
  "route_event X event policy =
     andThen (checks
       [invariant (get_prop policy ''id'' = JStr ROUTING_POLICY_ID
          \<and> get_prop policy ''version'' = JInt 1) ''ROUTING_POLICY'',
        invariant (positive_safe_integer (get_prop policy ''shardCount'')) ''SHARD_COUNT'',
        invariant (is_text (get_prop event ''ledgerId'') \<and> is_text (get_prop event ''subject''))
          ''SHARD_EVENT''])
     (let digest = route_digest X (text_prop event ''ledgerId'') (text_prop event ''subject'');
          position = of_be (take 8 digest) mod policy_shard_count policy in
      Inr \<lparr>index = position, shardId = shard_name position\<rparr>)"

text \<open>The pattern \<open>/^shard-[0-9]{4}$/u\<close> the verifiers require of a shard name.\<close>

definition is_shard_id :: "jsstr \<Rightarrow> bool" where
  "is_shard_id s = (take 6 s = js ''shard-'' \<and> length s = 10 \<and> list_all is_digit (drop 6 s))"

section \<open>The planner\<close>

record assignment =
  inputIndex :: nat
  assigned_subject :: jsstr
  shardIndex :: nat
  assigned_shard :: jsstr

record shard_load =
  load_index :: nat
  load_shard :: jsstr
  subjectCount :: nat
  load_subjects :: "jsstr list"

record shard_plan =
  plan_ledger :: jsstr
  plan_policy :: jsval
  plan_subjectCount :: nat
  populatedShardCount :: nat
  emptyShardCount :: int
  assignments :: "assignment list"
  distribution :: "shard_load list"

definition non_empty_text :: "platform \<Rightarrow> jsval \<Rightarrow> unit res" where
  "non_empty_text X v =
     (case v of
        JStr s \<Rightarrow> checks [invariant (s \<noteq> []) ''SHARD_PLAN_INPUT'', invariant (is_nfc X s) ''SHARD_PLAN_INPUT'']
      | _ \<Rightarrow> failWith ''SHARD_PLAN_INPUT'')"

definition subject_event :: "jsstr \<Rightarrow> jsstr \<Rightarrow> jsval" where
  "subject_event ledger subject = obj [(''ledgerId'', JStr ledger), (''subject'', JStr subject)]"

definition plan_assignment :: "platform \<Rightarrow> jsstr \<Rightarrow> jsval \<Rightarrow> nat \<times> jsval \<Rightarrow> assignment res" where
  "plan_assignment X ledger policy = (\<lambda>(i, subject).
     andThen (non_empty_text X subject)
     (case subject of
        JStr s \<Rightarrow>
          bindR (route_event X (subject_event ledger s) policy) (\<lambda>r.
          Inr \<lparr>inputIndex = i, assigned_subject = s, shardIndex = index r, assigned_shard = shardId r\<rparr>)
      | _ \<Rightarrow> failWith ''SHARD_PLAN_INPUT''))"

definition add_assignment :: "(jsstr, shard_load) jsmap \<Rightarrow> assignment \<Rightarrow> (jsstr, shard_load) jsmap" where
  "add_assignment m a =
     (let existing = (case jm_get m (assigned_shard a) of
            Some l \<Rightarrow> l
          | None \<Rightarrow> \<lparr>load_index = shardIndex a, load_shard = assigned_shard a, subjectCount = 0, load_subjects = []\<rparr>)
      in jm_set (assigned_shard a)
           (existing\<lparr>subjectCount := subjectCount existing + 1,
                     load_subjects := load_subjects existing @ [assigned_subject a]\<rparr>) m)"

definition plan_shard_assignments :: "platform \<Rightarrow> jsval \<Rightarrow> nat \<Rightarrow> jsval list \<Rightarrow> shard_plan res" where
  "plan_shard_assignments X ledgerId shardCount subjects =
     andThen (non_empty_text X ledgerId)
     (andThen (invariant (subjects \<noteq> []) ''SHARD_PLAN_INPUT'')
     (bindR (create_routing_policy shardCount) (\<lambda>policy.
      let ledger = (case ledgerId of JStr s \<Rightarrow> s | _ \<Rightarrow> []) in
      bindR (mapR (plan_assignment X ledger policy) (enumerate 0 subjects)) (\<lambda>as.
      let loads = sort_key load_index (jm_values (foldl add_assignment [] as)) in
      Inr \<lparr>plan_ledger = ledger, plan_policy = policy, plan_subjectCount = length as,
           populatedShardCount = length loads, emptyShardCount = int shardCount - int (length loads),
           assignments = as, distribution = loads\<rparr>))))"

section \<open>Routing lemmas\<close>

lemma shard_name_inj: "shard_name i = shard_name j \<longleftrightarrow> i = j"
  by (simp add: shard_name_def padded_inj del: js_Cons)

lemma is_shard_id_shard_name: "is_shard_id (shard_name i) \<longleftrightarrow> i < 10000"
proof
  assume "is_shard_id (shard_name i)"
  then have "length (padded 4 i) = 4" by (simp add: is_shard_id_def shard_name_def del: js_Cons)
  then show "i < 10000" using length_padded_wide [of 4 i] by (cases "i < 10000") simp_all
next
  assume "i < 10000"
  then have "length (padded 4 i) = 4" by (intro length_padded) simp_all
  then show "is_shard_id (shard_name i)"
    using is_digit_padded [of _ 4 i]
    by (simp add: is_shard_id_def shard_name_def list_all_iff del: js_Cons)
qed

lemma policy_facts [simp]:
  "get_prop (routing_policy n) ''id'' = JStr ROUTING_POLICY_ID"
  "get_prop (routing_policy n) ''version'' = JInt 1"
  "get_prop (routing_policy n) ''shardCount'' = JInt (int n)"
  "policy_shard_count (routing_policy n) = n"
  by (simp_all add: routing_policy_def policy_shard_count_def)

lemma route_event_Inr:
  "route_event X event policy = Inr r \<Longrightarrow>
   index r < policy_shard_count policy \<and> shardId r = shard_name (index r)
   \<and> index r = of_be (take 8 (route_digest X (text_prop event ''ledgerId'') (text_prop event ''subject'')))
       mod policy_shard_count policy"
  by (auto simp: route_event_def res_simps Let_def policy_shard_count_def positive_safe_integer_def
      split: jsval.splits)

lemma route_event_determined:
  "text_prop e ''ledgerId'' = text_prop f ''ledgerId'' \<Longrightarrow> text_prop e ''subject'' = text_prop f ''subject'' \<Longrightarrow>
   route_event X e policy = Inr r \<Longrightarrow> route_event X f policy = Inr s \<Longrightarrow> r = s"
  by (auto simp: route_event_def res_simps Let_def)

lemma text_prop_canon [simp]: "portable e \<Longrightarrow> text_prop (canon e) name = text_prop e name"
  by (cases "get_prop e name") (simp_all add: text_prop_def get_prop_canon)

lemma is_text_canon [simp]: "is_text (canon v) = is_text v"
  by (cases v) (simp_all add: is_text_def)

lemma route_event_canon:
  "portable e \<Longrightarrow> portable p \<Longrightarrow> route_event X (canon e) (canon p) = route_event X e p"
  "portable e \<Longrightarrow> route_event X (canon e) p = route_event X e p"
proof -
  have count: "policy_shard_count (canon p) = policy_shard_count p" if "portable p"
    using that by (cases "get_prop p ''shardCount''") (simp_all add: policy_shard_count_def get_prop_canon)
  show "portable e \<Longrightarrow> portable p \<Longrightarrow> route_event X (canon e) (canon p) = route_event X e p"
    by (simp add: route_event_def get_prop_canon count)
  show "portable e \<Longrightarrow> route_event X (canon e) p = route_event X e p"
    by (simp add: route_event_def get_prop_canon)
qed

end
