(* ===== verification/G9P_Framing.thy ===== *)
theory G9P_Framing
  imports G9P_Crypto
begin

text \<open>
  The two length-delimited layers of a sealed file: typed frames (src/src/format/framing.js) and
  the records inside a block (src/src/format/records.js). A reader's buffer and offset are the
  unread rest of the buffer.
\<close>

section \<open>Frames\<close>

definition G9P_MAGIC_V1 :: "byte list" where
  "G9P_MAGIC_V1 = [0x47, 0x39, 0x50, 0x0d, 0x0a, 0x1a, 0x0a, 0x01]"

definition G9P_MAGIC_V2 :: "byte list" where
  "G9P_MAGIC_V2 = [0x47, 0x39, 0x50, 0x0d, 0x0a, 0x1a, 0x0a, 0x02]"

abbreviation G9P_MAGIC :: "byte list" where
  "G9P_MAGIC \<equiv> G9P_MAGIC_V1"

definition FRAME_HEADER_BYTES :: nat where
  "FRAME_HEADER_BYTES = 8"

definition FRAME_TYPES :: "string list" where
  "FRAME_TYPES = [''HEAD'', ''HED2'', ''BLK1'', ''MNF1'', ''MNF2'', ''RTE1'', ''CHK1'', ''WIT1'',
     ''SIG1'', ''END!'']"

text \<open>\<open>frame.write(type, 0, 4, "ascii")\<close> stores the code units; \<open>toString("ascii")\<close> reads bytes
  back with their highest bit cleared.\<close>

definition ascii_bytes :: "string \<Rightarrow> byte list" where
  "ascii_bytes s = map (\<lambda>c. of_nat (of_char c)) s"

definition to_ascii :: "byte list \<Rightarrow> string" where
  "to_ascii bs = map (\<lambda>b. char_of (unat b mod 128)) bs"

definition frame_type_ok :: "string \<Rightarrow> bool" where
  "frame_type_ok type = (length type = 4
     \<and> list_all (\<lambda>c. let n = (of_char c :: nat) in
          65 \<le> n \<and> n \<le> 90 \<or> 48 \<le> n \<and> n \<le> 57 \<or> n = 33) type)"

definition encode_frame :: "string \<Rightarrow> byte list \<Rightarrow> byte list res" where
  "encode_frame type payload =
     andThen (checks
       [invariant (frame_type_ok type) ''FRAME_TYPE'',
        invariant (length payload \<le> 0xffffffff) ''FRAME_LENGTH''])
     (Inr (ascii_bytes type @ u32_be (length payload) @ payload))"

definition read_magic :: "byte list \<Rightarrow> byte list \<Rightarrow> byte list res" where
  "read_magic expectedMagic bs =
     andThen (checks
       [invariant (length expectedMagic \<le> length bs) ''FORMAT_TRUNCATED'',
        invariant (take (length expectedMagic) bs = expectedMagic) ''FORMAT_MAGIC''])
     (Inr (drop (length expectedMagic) bs))"

definition peek_type :: "byte list \<Rightarrow> string res" where
  "peek_type bs =
     andThen (invariant (FRAME_HEADER_BYTES \<le> length bs) ''FORMAT_TRUNCATED'')
       (Inr (to_ascii (take 4 bs)))"

definition read_frame :: "nat \<Rightarrow> string \<Rightarrow> byte list \<Rightarrow> (byte list \<times> byte list) res" where
  "read_frame maxFrameBytes expectedType bs =
     andThen (invariant (FRAME_HEADER_BYTES \<le> length bs) ''FORMAT_TRUNCATED'')
     (let type = to_ascii (take 4 bs); len = of_be (take 4 (drop 4 bs)) in
      andThen (checks
        [invariant (type = expectedType) ''FORMAT_FRAME_ORDER'',
         invariant (len \<le> maxFrameBytes) ''FORMAT_FRAME_LIMIT'',
         invariant (FRAME_HEADER_BYTES + len \<le> length bs) ''FORMAT_TRUNCATED''])
      (Inr (take len (drop FRAME_HEADER_BYTES bs), drop (FRAME_HEADER_BYTES + len) bs)))"

definition assert_end :: "byte list \<Rightarrow> unit res" where
  "assert_end bs = invariant (bs = []) ''FORMAT_TRAILING''"

lemma length_ascii_bytes [simp]: "length (ascii_bytes s) = length s"
  by (simp add: ascii_bytes_def)

lemma to_ascii_bytes: "list_all (\<lambda>c. (of_char c :: nat) < 128) s \<Longrightarrow> to_ascii (ascii_bytes s) = s"
  by (induction s) (simp_all add: to_ascii_def ascii_bytes_def mod_less)

lemma frame_type_ascii:
  assumes "frame_type_ok type"
  shows "to_ascii (ascii_bytes type) = type" and "length type = 4"
proof -
  have "list_all (\<lambda>c. (of_char c :: nat) < 128) type"
    using assms by (auto simp: frame_type_ok_def list_all_iff Let_def)
  then show "to_ascii (ascii_bytes type) = type" by (rule to_ascii_bytes)
  show "length type = 4" using assms by (simp add: frame_type_ok_def)
qed

lemma encode_frame_Inr:
  "encode_frame type payload = Inr bs \<Longrightarrow>
   bs = ascii_bytes type @ u32_be (length payload) @ payload \<and> frame_type_ok type
   \<and> length payload < 256 ^ 4"
  by (auto simp: encode_frame_def res_simps)

lemma peek_encode_frame:
  assumes "encode_frame type payload = Inr bs"
  shows "peek_type (bs @ rest) = Inr type"
proof -
  from encode_frame_Inr [OF assms] have bs: "bs = ascii_bytes type @ u32_be (length payload) @ payload"
    and ok: "frame_type_ok type" by simp_all
  from frame_type_ascii [OF ok] show ?thesis
    by (simp add: bs peek_type_def FRAME_HEADER_BYTES_def)
qed

lemma read_encode_frame:
  assumes "encode_frame type payload = Inr bs" and "length payload \<le> M"
  shows "read_frame M type (bs @ rest) = Inr (payload, rest)"
proof -
  from encode_frame_Inr [OF assms(1)]
  have bs: "bs = ascii_bytes type @ u32_be (length payload) @ payload"
    and ok: "frame_type_ok type" and len: "length payload < 256 ^ 4" by simp_all
  from frame_type_ascii [OF ok] len assms(2) show ?thesis
    by (simp add: bs read_frame_def FRAME_HEADER_BYTES_def of_be_be_bytes Let_def)
qed

text \<open>Frames are a prefix codec, one for every type and limit.\<close>

definition frame_bytes :: "string \<Rightarrow> byte list \<Rightarrow> byte list" where
  "frame_bytes type payload = ascii_bytes type @ u32_be (length payload) @ payload"

lemma encode_frame_bytes:
  "frame_type_ok type \<Longrightarrow> length payload < 256 ^ 4 \<Longrightarrow>
   encode_frame type payload = Inr (frame_bytes type payload)"
  by (simp add: encode_frame_def frame_bytes_def)

interpretation frame: prefix_codec "frame_bytes type" "read_frame M type"
    "\<lambda>payload. frame_type_ok type \<and> length payload < 256 ^ 4 \<and> length payload \<le> M" for type M
  by unfold_locales (metis encode_frame_bytes read_encode_frame)

lemma read_frame_shorter: "read_frame M type bs = Inr (payload, rest) \<Longrightarrow> length rest < length bs"
  by (auto simp: read_frame_def Let_def res_simps FRAME_HEADER_BYTES_def)

text \<open>The comparison of frame types ignores the highest bit of each stored byte.\<close>

lemma low_seven_bits: "unat (b OR 0x80 :: byte) mod 128 = unat b mod 128"
proof -
  have "(b OR 0x80) AND 0x7F = b AND 0x7F" by (simp add: bit.conj_disj_distrib2)
  then have "take_bit 7 (b OR 0x80) = take_bit 7 b"
    by (simp add: take_bit_eq_mask mask_eq_exp_minus_1)
  then have "unat (take_bit 7 (b OR 0x80)) = unat (take_bit 7 b)" by simp
  then show ?thesis by (simp only: unsigned_take_bit_eq) (simp add: take_bit_eq_mod)
qed

lemma to_ascii_high_bit: "to_ascii (bs[i := bs ! i OR 0x80]) = to_ascii bs"
proof (cases "i < length bs")
  case True
  have "to_ascii (bs[i := bs ! i OR 0x80]) = (to_ascii bs)[i := char_of (unat (bs ! i OR 0x80) mod 128)]"
    by (simp add: to_ascii_def map_update)
  also have "\<dots> = (to_ascii bs)[i := to_ascii bs ! i]"
    using True by (simp only: low_seven_bits) (simp add: to_ascii_def)
  finally show ?thesis by simp
qed (simp add: list_update_beyond)

section \<open>Records\<close>

definition frame_record :: "byte list \<Rightarrow> byte list res" where
  "frame_record bytes =
     andThen (invariant (length bytes \<le> 0xffffffff) ''RECORD_LENGTH'')
       (Inr (u32_be (length bytes) @ bytes))"

definition framed_record :: "byte list \<Rightarrow> byte list" where
  "framed_record bytes = u32_be (length bytes) @ bytes"

function read_records_loop :: "nat \<Rightarrow> byte list \<Rightarrow> byte list list res" where
  "read_records_loop maxRecordBytes input =
     (if input = [] then Inr []
      else
        andThen (invariant (4 \<le> length input) ''RECORD_TRUNCATED'')
        (let len = of_be (take 4 input); rest = drop 4 input in
         andThen (checks
           [invariant (len \<le> maxRecordBytes) ''RECORD_LIMIT'',
            invariant (len \<le> length rest) ''RECORD_TRUNCATED''])
         (bindR (read_records_loop maxRecordBytes (drop len rest)) (\<lambda>records.
            Inr (take len rest # records)))))"
  by pat_completeness auto
termination
  by (relation "measure (\<lambda>(m, input). length input)") auto

declare read_records_loop.simps [simp del]

definition read_framed_records :: "nat \<Rightarrow> byte list \<Rightarrow> nat \<Rightarrow> byte list list res" where
  "read_framed_records maxRecordBytes bytes expectedCount =
     bindR (read_records_loop maxRecordBytes bytes) (\<lambda>records.
       andThen (invariant (length records = expectedCount) ''RECORD_COUNT'') (Inr records))"

lemma read_records_loop_framed:
  "list_all (\<lambda>r. length r \<le> M \<and> length r < 256 ^ 4) records \<Longrightarrow>
   read_records_loop M (concat (map framed_record records)) = Inr records"
proof (induction records)
  case Nil
  then show ?case by (simp add: read_records_loop.simps)
next
  case (Cons r records)
  then show ?case
    by (subst read_records_loop.simps) (simp add: framed_record_def [of r] of_be_be_bytes Let_def flip: length_0_conv)
qed

text \<open>The reader accepts exactly the concatenations of framed records.\<close>

lemma read_records_loop_sound:
  "read_records_loop M bs = Inr records \<Longrightarrow>
   bs = concat (map framed_record records) \<and> list_all (\<lambda>r. length r \<le> M) records"
proof (induction M bs arbitrary: records rule: read_records_loop.induct)
  case (1 M input)
  show ?case
  proof (cases "input = []")
    case True
    then show ?thesis using 1 by (simp add: read_records_loop.simps)
  next
    case False
    let ?n = "of_be (take 4 input)"
    from 1(2) False obtain rs where len: "4 \<le> length input" "?n \<le> M" "?n \<le> length (drop 4 input)"
      and rs: "read_records_loop M (drop ?n (drop 4 input)) = Inr rs"
      and records: "records = take ?n (drop 4 input) # rs"
      by (subst (asm) read_records_loop.simps) (auto simp: Let_def res_simps)
    have "drop ?n (drop 4 input) = concat (map framed_record rs) \<and> list_all (\<lambda>r. length r \<le> M) rs"
      using False len rs by (intro 1(1) [OF False _ refl refl _]) (simp_all add: res_simps)
    moreover have "u32_be ?n = take 4 input"
      using len by (intro be_bytes_of_be) simp
    moreover have "input = take 4 input @ take ?n (drop 4 input) @ drop ?n (drop 4 input)"
      by (simp only: append_take_drop_id)
    ultimately show ?thesis
      using len by (simp add: records framed_record_def [of "take ?n (drop 4 input)"] min.absorb2)
  qed
qed

lemma read_framed_records_framed:
  "list_all (\<lambda>r. length r \<le> M \<and> length r < 256 ^ 4) records \<Longrightarrow> n = length records \<Longrightarrow>
   read_framed_records M (concat (map framed_record records)) n = Inr records"
  by (simp add: read_framed_records_def read_records_loop_framed)

lemma read_framed_records_iff:
  assumes "M < 256 ^ 4"
  shows "read_framed_records M bs n = Inr records \<longleftrightarrow>
    bs = concat (map framed_record records) \<and> n = length records \<and> list_all (\<lambda>r. length r \<le> M) records"
proof
  assume "read_framed_records M bs n = Inr records"
  then show "bs = concat (map framed_record records) \<and> n = length records \<and> list_all (\<lambda>r. length r \<le> M) records"
    by (auto simp: read_framed_records_def res_simps dest: read_records_loop_sound)
next
  assume "bs = concat (map framed_record records) \<and> n = length records \<and> list_all (\<lambda>r. length r \<le> M) records"
  moreover from this assms have "list_all (\<lambda>r. length r \<le> M \<and> length r < 256 ^ 4) records"
    by (auto simp: list_all_iff)
  ultimately show "read_framed_records M bs n = Inr records"
    by (simp add: read_framed_records_framed)
qed

end
