(* ===== verification/G9P_Samples.thy ===== *)
theory G9P_Samples
  imports G9P_Sharding G9P_Merkle G9P_Framing
begin

text \<open>
  Concrete events, evaluated once: later theories instantiate their theorems with them.
\<close>

definition sample_event :: "string \<Rightarrow> jsval" where
  "sample_event n = obj
     [(''version'', JInt 1), (''eventId'', JStr (js n)), (''ledgerId'', JStr (js ''L'')),
      (''subject'', JStr (js ''s'')), (''type'', JStr (js ''t'')), (''schemaVersion'', JInt 1),
      (''occurredAt'', JStr (js ''2026-01-02T03:04:05.006Z'')),
      (''recordedAt'', JStr (js ''2026-01-02T03:04:05.007Z'')),
      (''source'', obj [(''kind'', JStr (js ''outbox'')), (''identity'', JStr (js ''i''))]),
      (''payload'', JNull)]"

lemma sample_props:
  "get_prop (sample_event n) ''eventId'' = JStr (js n)"
  "get_prop (sample_event n) ''ledgerId'' = JStr (js ''L'')"
  "get_prop (sample_event n) ''subject'' = JStr (js ''s'')"
  "get_prop (sample_event n) ''type'' = JStr (js ''t'')"
  "get_prop (sample_event n) ''version'' = JInt 1"
  "get_prop (sample_event n) ''schemaVersion'' = JInt 1"
  "get_prop (sample_event n) ''occurredAt'' = JStr (js ''2026-01-02T03:04:05.006Z'')"
  "get_prop (sample_event n) ''recordedAt'' = JStr (js ''2026-01-02T03:04:05.007Z'')"
  "get_prop (sample_event n) ''source'' = obj [(''kind'', JStr (js ''outbox'')), (''identity'', JStr (js ''i''))]"
  "get_prop (sample_event n) ''payload'' = JNull"
  "get_prop (sample_event n) ''metadata'' = JUndef"
  "get_prop (sample_event n) ''payloadHash'' = JUndef"
  "get_prop (sample_event n) ''previousStateHash'' = JUndef"
  "get_prop (sample_event n) ''resultingStateHash'' = JUndef"
  "get_prop (sample_event n) ''correlationId'' = JUndef"
  "get_prop (sample_event n) ''causationId'' = JUndef"
  "get_prop (sample_event n) ''policyReference'' = JUndef"
  by (simp_all add: sample_event_def del: js_Cons)


lemmas time_eval = is_canonical_timestamp_def canonical_time_def split_year_def tail_form_def
  field_value_def digits_value_def is_digit_def days_from_civil_def days_in_month_def leap_year_def Let_def

lemma sample_times:
  "is_canonical_timestamp (js ''2026-01-02T03:04:05.006Z'')"
  "is_canonical_timestamp (js ''2026-01-02T03:04:05.007Z'')"
  by (simp_all add: time_eval)

lemma toy_nfc [simp]: "is_nfc toy_platform s"
  by (simp add: toy_platform_def)

lemma sample_event_valid:
  assumes "n = ''e1'' \<or> n = ''e2''"
  shows "validate_event toy_platform (sample_event n) = Inr ()"
proof -
  have fields: "reject_unknown_fields (sample_event n) EVENT_FIELDS = Inr ()"
    by (simp add: reject_unknown_fields_def EVENT_FIELDS_def sample_event_def del: js_Cons)
  let ?source = "obj [(''kind'', JStr (js ''outbox'')), (''identity'', JStr (js ''i''))]"
  have "reject_unknown_fields ?source SOURCE_FIELDS = Inr ()"
    by (simp add: reject_unknown_fields_def SOURCE_FIELDS_def del: js_Cons)
  then have "validate_source toy_platform ?source = Inr ()"
    by (simp add: validate_source_def when_present_def source_kind_ok_def
        SOURCE_KINDS_def validate_text_Inr res_simps del: js_Cons) simp
  moreover have "is_object (sample_event n)" by (simp add: sample_event_def)
  ultimately have "validate_event toy_platform (sample_event n) = Inr () \<longleftrightarrow>
      n \<noteq> [] \<and> length n \<le> 128 \<and> 0 \<notin> set (js n)"
    by (simp add: validate_event_def sample_props when_present_def fields validate_data.simps
      positive_safe_integer_def validate_text_Inr validate_timestamp_def timestamp_text_def
      sample_times res_simps del: js_Cons) (auto simp: Suc_le_eq)
  then show ?thesis using assms by auto
qed

lemma sample_event_portable: "portable (sample_event n)"
  by (simp add: sample_event_def max_safe_integer_def del: js_Cons)

lemma sample_event_bytes:
  assumes "n = ''e1'' \<or> n = ''e2''"
  obtains bs where "canonical_event_bytes toy_platform (sample_event n) = Inr bs" and "length bs < 1000"
proof -
  have "\<exists>bs. encode_canonical DEFAULT_LIMITS (sample_event ''e1'') = Inr bs \<and> length bs < 1000"
    and "\<exists>bs. encode_canonical DEFAULT_LIMITS (sample_event ''e2'') = Inr bs \<and> length bs < 1000"
    by (simp_all add: codec_eval sample_event_def obj_def)
  then have "\<exists>bs. encode_canonical DEFAULT_LIMITS (sample_event n) = Inr bs \<and> length bs < 1000"
    using assms by blast
  then show thesis
    using that sample_event_valid [OF assms] by (auto simp: canonical_event_bytes_def)
qed

end
