(* ===== verification/G9P_Event_Props.thy ===== *)
theory G9P_Event_Props
  imports G9P_Samples "HOL-Library.Multiset"
begin

text \<open>
  What holds of hashing, framing, events and routing: the preimage of every digest determines
  its domain and parts, an accepted event reads back as itself, records of one subject stay
  together, and the shard planner accounts for every subject exactly once.
\<close>

section \<open>Hashing and framing\<close>

text \<open>
  C21: The bytes hashed for a domain and a list of parts determine both: no two different
  (domain, parts) pairs are ever presented to SHA-256 as the same input, so a digest of one
  kind of object cannot stand for another kind, nor can bytes move between adjacent parts.
\<close>

theorem hash_preimages_are_disjoint:
  assumes "hashable d ps" and "hashable e qs"
  shows "hash_input d ps = hash_input e qs \<longleftrightarrow> d = e \<and> ps = qs"
  using hash_input_inj [OF assms] by auto

lemma hash_preimages_are_disjoint_witness:
  "(hash_input ''a'' [[1], [2, 3]] = hash_input ''a'' [[1, 2], [3]]) = False"
  using hash_preimages_are_disjoint [of "''a''" "[[1], [2, 3]]" "''a''" "[[1, 2], [3]]"]
  by (simp add: hashable_short)

text \<open>
  The frame reader compares frame types as ASCII text, which ignores the highest bit of each
  byte: setting that bit in any byte of a frame type leaves the outcome unchanged, so the bytes
  of an accepted file are not the only ones that are accepted.
\<close>

theorem frame_type_high_bit_ignored:
  assumes "i < 4" and "read_frame M type bs = Inr (payload, rest)"
  shows "read_frame M type (bs[i := bs ! i OR 0x80]) = Inr (payload, rest)"
proof -
  have "take 4 (bs[i := bs ! i OR 0x80]) = (take 4 bs)[i := take 4 bs ! i OR 0x80]"
    using assms(1) by (simp add: take_update_swap)
  then have "to_ascii (take 4 (bs[i := bs ! i OR 0x80])) = to_ascii (take 4 bs)"
    by (simp only: to_ascii_high_bit)
  moreover have "drop n (bs[i := bs ! i OR 0x80]) = drop n bs" if "4 \<le> n" for n
    using assms(1) that by (simp add: drop_update_cancel)
  ultimately show ?thesis
    using assms(2) by (simp add: read_frame_def FRAME_HEADER_BYTES_def)
qed

lemma frame_type_high_bit_ignored_witness:
  "read_frame 100 ''END!'' [0x45, 0x4E, 0x44, 0x21, 0, 0, 0, 0] = Inr ([], [])
   \<and> read_frame 100 ''END!'' [0xC5, 0x4E, 0x44, 0x21, 0, 0, 0, 0] = Inr ([], [])"
proof -
  have ok: "read_frame 100 ''END!'' [0x45, 0x4E, 0x44, 0x21, 0, 0, 0, 0] = Inr ([], [])"
  proof -
    have "encode_frame ''END!'' [] = Inr [0x45, 0x4E, 0x44, 0x21, 0, 0, 0, 0]"
      by (simp add: encode_frame_def frame_type_ok_def ascii_bytes_def u32_be_eval)
    from read_encode_frame [OF this, of 100 "[]"] show ?thesis by simp
  qed
  show ?thesis using frame_type_high_bit_ignored [OF _ ok, of 0] ok by simp
qed

text \<open>
  The record reader accepts a block exactly when it is the concatenation of the expected
  number of framed records, each within the limit, and it returns just those records.
\<close>

theorem record_block_is_concatenation:
  assumes "M < 256 ^ 4"
  shows "read_framed_records M bs n = Inr records \<longleftrightarrow>
    bs = concat (map framed_record records) \<and> n = length records
    \<and> list_all (\<lambda>r. length r \<le> M) records"
  using assms by (rule read_framed_records_iff)

lemma record_block_is_concatenation_witness:
  "read_framed_records 16 [0, 0, 0, 1, 7, 0, 0, 0, 0] 2 = Inr [[7], []]"
  using record_block_is_concatenation [of 16 "[0, 0, 0, 1, 7, 0, 0, 0, 0]" 2 "[[7], []]"]
  by (simp add: framed_record_def u32_be_eval)

section \<open>Events\<close>

text \<open>
  An event that \<open>canonicalEventBytes\<close> accepts and whose texts are portable is read back by
  \<open>decodeEvent\<close> as the same event, with its properties in key order, and the record hash of
  the decoded event is the hash of the stored bytes.
\<close>

theorem event_round_trip:
  assumes "canonical_event_bytes X event = Inr bs" and "portable event"
    and "length bs \<le> maxBytes DEFAULT_LIMITS"
  shows "decode_event X bs = Inr (canon event)
    \<and> event_hash_of_event X (canon event) = Inr (event_hash X bs)"
proof -
  from assms(1) have "validate_event X event = Inr ()"
    and "encode_canonical DEFAULT_LIMITS event = Inr bs"
    by (simp_all add: canonical_event_bytes_def res_simps)
  then have "canonical_event_bytes X (canon event) = Inr bs"
    using validate_event_canon [OF assms(2), of X] encode_value_canon
    by (simp add: canonical_event_bytes_def encode_canonical_def)
  then show ?thesis
    using decode_event_bytes [OF assms] by (simp add: event_hash_of_event_def)
qed

lemma event_round_trip_witness:
  "\<exists>bs. canonical_event_bytes toy_platform (sample_event ''e1'') = Inr bs
    \<and> decode_event toy_platform bs = Inr (canon (sample_event ''e1''))"
proof -
  obtain bs where bs: "canonical_event_bytes toy_platform (sample_event ''e1'') = Inr bs" "length bs < 1000"
    using sample_event_bytes [of "''e1''"] by blast
  with event_round_trip [OF bs(1) sample_event_portable] show ?thesis
    by (auto simp: DEFAULT_LIMITS_def)
qed

section \<open>Routing\<close>

text \<open>
  C38: Routing sends an event to a shard below the policy's shard count, and any other event of
  the same ledger and subject to the same shard. The shard's name has the form every verifier
  requires exactly when the index is below 10,000, although policies may have up to 65,536
  shards.
\<close>

theorem routing_is_by_subject:
  assumes "route_event X e policy = Inr r" and "route_event X f policy = Inr s"
    and "text_prop f ''ledgerId'' = text_prop e ''ledgerId''"
    and "text_prop f ''subject'' = text_prop e ''subject''"
  shows "s = r \<and> index r < policy_shard_count policy \<and> (is_shard_id (shardId r) \<longleftrightarrow> index r < 10000)"
proof -
  have "s = r" using assms by (intro route_event_determined [of f e])
  then show ?thesis
    using route_event_Inr [OF assms(1)] is_shard_id_shard_name [of "index r"] by simp
qed

lemma routing_is_by_subject_witness:
  "\<exists>r. route_event toy_platform (sample_event ''e1'') (routing_policy 3) = Inr r
    \<and> route_event toy_platform (sample_event ''e2'') (routing_policy 3) = Inr r \<and> index r < 3"
proof -
  have "\<exists>r. route_event toy_platform (sample_event n) (routing_policy 3) = Inr r" for n
    by (simp add: route_event_def positive_safe_integer_def sample_props is_text_def Let_def)
  then obtain r s where "route_event toy_platform (sample_event ''e1'') (routing_policy 3) = Inr r"
    and "route_event toy_platform (sample_event ''e2'') (routing_policy 3) = Inr s" by blast
  from this routing_is_by_subject [OF this] show ?thesis
    by (simp add: text_prop_def sample_props)
qed

section \<open>The shard planner\<close>

lemma add_assignment_get:
  "jm_get (add_assignment m a) s =
     (if s = assigned_shard a then
        Some (case jm_get m s of
          Some l \<Rightarrow> l\<lparr>subjectCount := subjectCount l + 1, load_subjects := load_subjects l @ [assigned_subject a]\<rparr>
        | None \<Rightarrow> \<lparr>load_index = shardIndex a, load_shard = s, subjectCount = 1, load_subjects = [assigned_subject a]\<rparr>)
      else jm_get m s)"
  by (simp add: add_assignment_def Let_def split: option.split)

definition load_of :: "jsstr \<Rightarrow> assignment list \<Rightarrow> shard_load option" where
  "load_of s as =
     (if as = [] then None
      else Some \<lparr>load_index = shardIndex (hd as), load_shard = s, subjectCount = length as,
                 load_subjects = map assigned_subject as\<rparr>)"

lemma add_assignment_lookup:
  "jm_get (foldl add_assignment [] as) s = load_of s (filter (\<lambda>a. assigned_shard a = s) as)"
proof (induction as rule: rev_induct)
  case (snoc a as)
  then show ?case by (auto simp: add_assignment_get load_of_def)
qed (simp add: load_of_def)

lemma add_assignment_wf: "jm_wf (foldl add_assignment [] as)"
proof (induction as rule: rev_induct)
  case (snoc a as)
  then show ?case by (simp add: add_assignment_def Let_def jm.wf_upd)
qed (simp add: jm_wf_def)

lemma plan_loads:
  "set (jm_values (foldl add_assignment [] as)) =
     {l. \<exists>s. load_of s (filter (\<lambda>a. assigned_shard a = s) as) = Some l}"
  using jm_values_set [OF add_assignment_wf, of _ as] by (auto simp: add_assignment_lookup)

lemma plan_keys:
  "(s, l) \<in> set (foldl add_assignment [] as) \<Longrightarrow> load_shard l = s"
  using add_assignment_wf [of as] add_assignment_lookup [of as s]
  by (auto simp: jm_get_def jm_wf_def load_of_def split: if_splits)

lemma distinct_load_shards: "distinct (map load_shard (jm_values (foldl add_assignment [] as)))"
proof -
  have "map load_shard (jm_values (foldl add_assignment [] as)) = map fst (foldl add_assignment [] as)"
    by (auto simp: jm_values_def dest: plan_keys)
  then show ?thesis using add_assignment_wf [of as] by (simp add: jm_wf_def)
qed

lemma plan_total: "sum_list (map subjectCount (jm_values (foldl add_assignment [] as))) = length as"
proof (induction as rule: rev_induct)
  case (snoc a as)
  let ?m = "foldl add_assignment [] as"
  have upd: "sum_list (map f (jm_values (jm_set k v m))) + (case jm_get m k of None \<Rightarrow> 0 | Some w \<Rightarrow> f w)
      = sum_list (map f (jm_values m)) + f v"
    if "jm_wf m" for f :: "shard_load \<Rightarrow> nat" and k v m
    using that
  proof (induction m)
    case (Cons kv m)
    then show ?case
      by (cases kv) (auto simp: jm_values_def jm_set_def jm_get_def jm_wf_def map_of_eq_None_iff
          split: option.splits)
  qed (simp add: jm_values_def jm_set_def)
  have wf: "jm_wf ?m" by (rule add_assignment_wf)
  show ?case
  proof (cases "jm_get ?m (assigned_shard a)")
    case None
    then have "add_assignment ?m a = jm_set (assigned_shard a)
        \<lparr>load_index = shardIndex a, load_shard = assigned_shard a, subjectCount = 1,
         load_subjects = [assigned_subject a]\<rparr> ?m"
      by (simp add: add_assignment_def Let_def)
    with upd [OF wf, of subjectCount "assigned_shard a" "\<lparr>load_index = shardIndex a, load_shard = assigned_shard a,
        subjectCount = 1, load_subjects = [assigned_subject a]\<rparr>"] snoc None
    show ?thesis by simp
  next
    case (Some l)
    then have "add_assignment ?m a = jm_set (assigned_shard a)
        (l\<lparr>subjectCount := subjectCount l + 1, load_subjects := load_subjects l @ [assigned_subject a]\<rparr>) ?m"
      by (simp add: add_assignment_def Let_def)
    with upd [OF wf, of subjectCount "assigned_shard a" "l\<lparr>subjectCount := subjectCount l + 1,
        load_subjects := load_subjects l @ [assigned_subject a]\<rparr>"] snoc Some
    show ?thesis by simp
  qed
qed (simp add: jm_values_def)

lemma subject_event_props:
  "get_prop (subject_event l s) ''ledgerId'' = JStr l" "get_prop (subject_event l s) ''subject'' = JStr s"
  by (simp_all add: subject_event_def)

lemma plan_assignment_Inr:
  "plan_assignment X ledger policy (i, v) = Inr a \<Longrightarrow>
   v = JStr (assigned_subject a) \<and> (\<exists>r. route_event X (subject_event ledger (assigned_subject a)) policy = Inr r
     \<and> shardIndex a = index r \<and> assigned_shard a = shardId r)"
  by (auto simp: plan_assignment_def res_simps split: jsval.splits)

text \<open>
  C39: A shard plan accounts for every subject exactly once and agrees with the router: each
  subject is assigned, in input order, to the shard that \<open>routeEvent\<close> gives it; the loads are of
  distinct shards, their counts add up to the number of subjects, each lists exactly the
  subjects assigned to it; populated and empty shards make up the shard count.
\<close>

theorem shard_plan_accounts_for_all:
  assumes "plan_shard_assignments X (JStr ledger) shardCount subjects = Inr plan"
  shows "subjects = map (\<lambda>a. JStr (assigned_subject a)) (assignments plan)
    \<and> (\<forall>a \<in> set (assignments plan). \<exists>r. route_event X (subject_event ledger (assigned_subject a))
          (routing_policy shardCount) = Inr r \<and> shardIndex a = index r \<and> assigned_shard a = shardId r)
    \<and> distinct (map load_shard (distribution plan))
    \<and> sum_list (map subjectCount (distribution plan)) = length subjects
    \<and> (\<forall>l \<in> set (distribution plan). load_subjects l =
          map assigned_subject (filter (\<lambda>a. assigned_shard a = load_shard l) (assignments plan)))
    \<and> int (populatedShardCount plan) + emptyShardCount plan = int shardCount"
proof -
  from assms obtain as where as: "mapR (plan_assignment X ledger (routing_policy shardCount)) (enumerate 0 subjects) = Inr as"
    and plan: "assignments plan = as" "distribution plan = sort_key load_index (jm_values (foldl add_assignment [] as))"
      "int (populatedShardCount plan) + emptyShardCount plan = int shardCount"
    by (auto simp: plan_shard_assignments_def create_routing_policy_def Let_def res_simps)
  have step: "subjects ! i = JStr (assigned_subject (as ! i))
      \<and> (\<exists>r. route_event X (subject_event ledger (assigned_subject (as ! i))) (routing_policy shardCount) = Inr r
          \<and> shardIndex (as ! i) = index r \<and> assigned_shard (as ! i) = shardId r)"
    if "i < length subjects" for i
    using mapR_Inr_nth [OF as, of i] that
    by (intro plan_assignment_Inr) (simp add: nth_enumerate_eq)
  have len: "length as = length subjects" using mapR_Inr_length [OF as] by simp
  have "subjects = map (\<lambda>a. JStr (assigned_subject a)) as"
    using step len by (intro nth_equalityI) auto
  moreover have "\<forall>a \<in> set as. \<exists>r. route_event X (subject_event ledger (assigned_subject a))
          (routing_policy shardCount) = Inr r \<and> shardIndex a = index r \<and> assigned_shard a = shardId r"
    using step len by (auto simp: in_set_conv_nth)
  moreover have "distinct (map load_shard (sort_key load_index (jm_values (foldl add_assignment [] as))))"
    using distinct_load_shards [of as] by (simp add: distinct_map)
  moreover have "sum_list (map subjectCount (sort_key load_index (jm_values (foldl add_assignment [] as)))) = length subjects"
    using plan_total [of as] len by (metis mset_map mset_sort sum_mset_sum_list)
  ultimately show ?thesis
    using plan by (auto simp: plan_loads load_of_def split: if_splits)
qed

lemma shard_plan_accounts_for_all_witness:
  "\<exists>plan. plan_shard_assignments toy_platform (JStr (js ''L'')) 4 [JStr (js ''s''), JStr (js ''t''), JStr (js ''s'')] = Inr plan
     \<and> sum_list (map subjectCount (distribution plan)) = 3"
proof -
  let ?subjects = "[JStr (js ''s''), JStr (js ''t''), JStr (js ''s'')]"
  have route: "\<exists>r. route_event toy_platform (subject_event l s) (routing_policy 4) = Inr r" for l s
    by (simp add: route_event_def positive_safe_integer_def is_text_def subject_event_props Let_def)
  have "\<exists>as. mapR (plan_assignment toy_platform (js ''L'') (routing_policy 4)) (enumerate 0 ?subjects) = Inr as"
  proof (rule mapR_total)
    fix x assume "x \<in> set (enumerate 0 ?subjects)"
    then obtain i s where "x = (i, JStr s)" and "s \<noteq> []" by auto
    then show "\<exists>a. plan_assignment toy_platform (js ''L'') (routing_policy 4) x = Inr a"
      using route [of "js ''L''" s] by (auto simp: plan_assignment_def non_empty_text_def)
  qed
  then obtain plan where p: "plan_shard_assignments toy_platform (JStr (js ''L'')) 4 ?subjects = Inr plan"
    by (auto simp: plan_shard_assignments_def non_empty_text_def create_routing_policy_def Let_def
        simp del: js_Cons)
  from shard_plan_accounts_for_all [OF p] p show ?thesis by auto
qed

end
