(* ===== verification/G9P_Segment_Writer.thy ===== *)
theory G9P_Segment_Writer
  imports G9P_Sharding G9P_Merkle G9P_Framing
begin

text \<open>
  Building a sealed segment (src/src/segment-writer.js): validation of the request, preparation
  and partition of the records, the block, manifest and signature payloads, and the file bytes.
  Publication of the bytes is the sealed storage's part.
\<close>

section \<open>Requests\<close>

record format_profile =
  fp_version :: nat
  fp_magic :: "byte list"
  headerFrame :: string
  manifestFrame :: string
  headerHashDomain :: string
  blockHashDomain :: string
  signatureDomain :: string
  fileHashDomain :: string

definition profile_v1 :: format_profile where
  "profile_v1 = \<lparr>fp_version = 1, fp_magic = G9P_MAGIC, headerFrame = ''HEAD'', manifestFrame = ''MNF1'',
     headerHashDomain = ''header-payload-v1'', blockHashDomain = ''block-payload-v1'',
     signatureDomain = ''segment-signature-v1'', fileHashDomain = ''segment-file-v1''\<rparr>"

definition profile_v2 :: format_profile where
  "profile_v2 = \<lparr>fp_version = 2, fp_magic = G9P_MAGIC_V2, headerFrame = ''HED2'', manifestFrame = ''MNF2'',
     headerHashDomain = ''header-payload-v2'', blockHashDomain = ''block-payload-v2'',
     signatureDomain = ''segment-signature-v2'', fileHashDomain = ''segment-file-v2''\<rparr>"

record epoch_ref =
  epochNumber :: nat
  epochHash :: "byte list"

record precompressed =
  pc_data :: "byte list"
  pc_uncompressedLength :: nat
  pc_recordsHash :: "byte list"

record segment_request =
  rq_events :: "jsval list"
  rq_routingPolicy :: jsval
  rq_segmentNumber :: nat
  rq_previousSegmentHash :: "byte list option"
  rq_routingEpoch :: "epoch_ref option"
  rq_signer :: signer
  rq_createdAt :: jsstr
  rq_blockTargetBytes :: nat
  rq_blockMaxRecords :: nat
  rq_blockRecordCounts :: "nat list option"
  rq_precompressedBlocks :: "precompressed list option"
  rq_maxRecordBytes :: nat

definition DEFAULT_BLOCK_TARGET :: nat where
  "DEFAULT_BLOCK_TARGET = 1048576"

definition DEFAULT_MAX_RECORD :: nat where
  "DEFAULT_MAX_RECORD = 16777216"

definition validate_request :: "platform \<Rightarrow> segment_request \<Rightarrow> unit res" where
  "validate_request X rq = checks
     [invariant (rq_events rq \<noteq> []) ''SEGMENT_EVENTS'',
      invariant (rq_segmentNumber rq \<le> max_safe_integer) ''SEGMENT_NUMBER'',
      invariant (rq_blockTargetBytes rq \<le> max_safe_integer \<and> 1024 \<le> rq_blockTargetBytes rq) ''BLOCK_TARGET'',
      invariant (rq_blockMaxRecords rq \<le> max_safe_integer \<and> 1 \<le> rq_blockMaxRecords rq) ''BLOCK_RECORD_LIMIT'',
      (case rq_precompressedBlocks rq of
         None \<Rightarrow> Inr ()
       | Some blocks \<Rightarrow> invariant (case rq_blockRecordCounts rq of
             None \<Rightarrow> False | Some counts \<Rightarrow> length blocks = length counts) ''BLOCK_PRECOMPRESSED''),
      invariant (rq_maxRecordBytes rq \<le> max_safe_integer \<and> rq_blockTargetBytes rq \<le> rq_maxRecordBytes rq)
        ''RECORD_LIMIT'',
      invariant (algorithm (rq_signer rq) = js ''ed25519'' \<and> can_sign (rq_signer rq)) ''SEGMENT_SIGNER'',
      invariant (keyId (rq_signer rq) = public_key_id X (publicKeyDer (rq_signer rq))) ''SEGMENT_SIGNER_ID'',
      invariant (is_canonical_timestamp (rq_createdAt rq)) ''SEGMENT_TIMESTAMP'',
      (case rq_previousSegmentHash rq of
         None \<Rightarrow> Inr ()
       | Some h \<Rightarrow> invariant (length h = 32) ''SEGMENT_PREVIOUS_HASH''),
      (case rq_routingEpoch rq of
         None \<Rightarrow> Inr ()
       | Some e \<Rightarrow> checks
           [invariant (epochNumber e \<le> max_safe_integer) ''SEGMENT_ROUTING_EPOCH'',
            invariant (length (epochHash e) = 32) ''SEGMENT_ROUTING_EPOCH''])]"

section \<open>Records and blocks\<close>

record prepared =
  pr_event :: jsval
  pr_route :: route
  pr_bytes :: "byte list"
  pr_hash :: "byte list"

definition prepare_event :: "platform \<Rightarrow> jsval \<Rightarrow> nat \<Rightarrow> jsval \<Rightarrow> prepared res" where
  "prepare_event X policy maxRecordBytes event =
     andThen (validate_event X event)
     (bindR (route_event X event policy) (\<lambda>r.
      bindR (canonical_event_bytes X event) (\<lambda>bytes.
      andThen (invariant (length bytes \<le> maxRecordBytes) ''RECORD_LIMIT'')
      (Inr \<lparr>pr_event = event, pr_route = r, pr_bytes = bytes, pr_hash = event_hash X bytes\<rparr>))))"

definition same_destination :: "prepared list \<Rightarrow> unit res" where
  "same_destination ps = checks (map (\<lambda>p. checks
     [invariant (text_prop (pr_event p) ''ledgerId'' = text_prop (pr_event (hd ps)) ''ledgerId'') ''SEGMENT_LEDGER'',
      invariant (shardId (pr_route p) = shardId (pr_route (hd ps))) ''SEGMENT_SHARD'']) ps)"

text \<open>A record with its framed bytes.\<close>

type_synonym framed = "prepared \<times> byte list"

definition frame_prepared :: "prepared \<Rightarrow> framed res" where
  "frame_prepared p = bindR (frame_record (pr_bytes p)) (\<lambda>framed. Inr (p, framed))"

fun take_blocks :: "nat list \<Rightarrow> 'a list \<Rightarrow> 'a list list" where
  "take_blocks [] records = []"
| "take_blocks (n # counts) records = take n records # take_blocks counts (drop n records)"

fun partition_greedy :: "nat \<Rightarrow> nat \<Rightarrow> framed list \<Rightarrow> nat \<Rightarrow> framed list \<Rightarrow> framed list list" where
  "partition_greedy targetBytes maxRecords current currentBytes [] =
     (if 0 < length current then [current] else [])"
| "partition_greedy targetBytes maxRecords current currentBytes (r # records) =
     (if 0 < length current \<and> (targetBytes < currentBytes + length (snd r) \<or> maxRecords \<le> length current)
      then current # partition_greedy targetBytes maxRecords [r] (length (snd r)) records
      else partition_greedy targetBytes maxRecords (current @ [r]) (currentBytes + length (snd r)) records)"

definition partition_records ::
  "prepared list \<Rightarrow> nat \<Rightarrow> nat \<Rightarrow> nat list option \<Rightarrow> framed list list res" where
  "partition_records records targetBytes maxRecords blockRecordCounts =
     (case blockRecordCounts of
        Some counts \<Rightarrow>
          andThen (checks
            [invariant (counts \<noteq> []) ''BLOCK_PARTITION'',
             invariant (list_all (\<lambda>n. 0 < n \<and> n \<le> max_safe_integer) counts) ''BLOCK_PARTITION'',
             invariant (sum_list counts = length records) ''BLOCK_PARTITION''])
          (bindR (mapR frame_prepared records) (\<lambda>framed. Inr (take_blocks counts framed)))
      | None \<Rightarrow>
          bindR (mapR frame_prepared records) (\<lambda>framed.
            Inr (partition_greedy targetBytes maxRecords [] 0 framed)))"

record encoded_block =
  eb_uncompressed :: "byte list"
  eb_block :: jsval
  eb_payload :: "byte list"
  eb_frame :: "byte list"
  eb_commitment :: jsval

definition precompressed_at :: "precompressed list option \<Rightarrow> nat \<Rightarrow> precompressed option" where
  "precompressed_at pre i =
     (case pre of None \<Rightarrow> None | Some blocks \<Rightarrow> if i < length blocks then Some (blocks ! i) else None)"

definition block_data :: "platform \<Rightarrow> precompressed option \<Rightarrow> byte list \<Rightarrow> byte list res" where
  "block_data X prepared_block uncompressed =
     (case prepared_block of
        None \<Rightarrow> compress_block X uncompressed
      | Some b \<Rightarrow>
          andThen (checks
            [invariant (pc_uncompressedLength b = length uncompressed) ''BLOCK_PRECOMPRESSED'',
             invariant (pc_recordsHash b = domain_digest X ''record-block-v1'' [uncompressed]) ''BLOCK_PRECOMPRESSED''])
          (bindR (decompress_block X (pc_data b) (length uncompressed) (length uncompressed)) (\<lambda>recovered.
           andThen (invariant (recovered = uncompressed) ''BLOCK_PRECOMPRESSED'') (Inr (pc_data b)))))"

definition block_value :: "platform \<Rightarrow> nat \<Rightarrow> nat \<Rightarrow> nat \<Rightarrow> byte list \<Rightarrow> byte list \<Rightarrow> jsval" where
  "block_value X blockIndex firstRecordIndex recordCount uncompressed compressed = obj
     [(''blockIndex'', JInt (int blockIndex)),
      (''firstRecordIndex'', JInt (int firstRecordIndex)),
      (''recordCount'', JInt (int recordCount)),
      (''uncompressedLength'', JInt (int (length uncompressed))),
      (''compression'', JStr (js ''zstd'')),
      (''recordsHash'', JBytes (domain_digest X ''record-block-v1'' [uncompressed])),
      (''data'', JBytes compressed)]"

definition commitment_value :: "platform \<Rightarrow> string \<Rightarrow> nat \<Rightarrow> nat \<Rightarrow> nat \<Rightarrow> byte list \<Rightarrow> jsval" where
  "commitment_value X domain blockIndex firstRecordIndex recordCount payload = obj
     [(''blockIndex'', JInt (int blockIndex)),
      (''firstRecordIndex'', JInt (int firstRecordIndex)),
      (''recordCount'', JInt (int recordCount)),
      (''payloadHash'', JBytes (domain_digest X domain [payload]))]"

definition encode_block ::
  "platform \<Rightarrow> format_profile \<Rightarrow> precompressed list option \<Rightarrow> nat \<Rightarrow> nat \<Rightarrow> framed list \<Rightarrow> encoded_block res" where
  "encode_block X profile pre blockIndex firstRecordIndex records =
     (let uncompressed = concat (map snd records) in
      bindR (block_data X (precompressed_at pre blockIndex) uncompressed) (\<lambda>compressed.
      let block = block_value X blockIndex firstRecordIndex (length records) uncompressed compressed in
      bindR (encode_canonical DEFAULT_LIMITS block) (\<lambda>payload.
      bindR (encode_frame ''BLK1'' payload) (\<lambda>frame.
      Inr \<lparr>eb_uncompressed = uncompressed, eb_block = block, eb_payload = payload, eb_frame = frame,
        eb_commitment = commitment_value X (blockHashDomain profile) blockIndex firstRecordIndex
          (length records) payload\<rparr>))))"

fun encode_blocks ::
  "platform \<Rightarrow> format_profile \<Rightarrow> precompressed list option \<Rightarrow> nat \<Rightarrow> nat \<Rightarrow> framed list list
    \<Rightarrow> encoded_block list res" where
  "encode_blocks X profile pre blockIndex firstRecordIndex [] = Inr []"
| "encode_blocks X profile pre blockIndex firstRecordIndex (records # blocks) =
     bindR (encode_block X profile pre blockIndex firstRecordIndex records) (\<lambda>b.
     bindR (encode_blocks X profile pre (Suc blockIndex) (firstRecordIndex + length records) blocks) (\<lambda>bs.
     Inr (b # bs)))"

section \<open>Header, manifest, signature and file\<close>

definition hash_or_null :: "byte list option \<Rightarrow> jsval" where
  "hash_or_null h = (case h of None \<Rightarrow> JNull | Some b \<Rightarrow> JBytes b)"

definition segment_header :: "segment_request \<Rightarrow> format_profile \<Rightarrow> jsstr \<Rightarrow> jsstr \<Rightarrow> jsval" where
  "segment_header rq profile ledger shard = obj
     ([(''kind'', JStr (js ''g9p-segment'')),
       (''formatVersion'', JInt (int (fp_version profile))),
       (''ledgerId'', JStr ledger),
       (''shardId'', JStr shard),
       (''segmentNumber'', JInt (int (rq_segmentNumber rq))),
       (''createdAt'', JStr (rq_createdAt rq)),
       (''previousSegmentHash'', hash_or_null (rq_previousSegmentHash rq))]
      @ (case rq_routingEpoch rq of
           None \<Rightarrow> []
         | Some e \<Rightarrow> [(''routingEpochNumber'', JInt (int (epochNumber e))),
                      (''routingEpochHash'', JBytes (epochHash e))])
      @ [(''routingPolicy'', rq_routingPolicy rq), (''compression'', ZSTD_PROFILE)])"

definition signer_value :: "signer \<Rightarrow> jsval" where
  "signer_value s = obj
     [(''algorithm'', JStr (algorithm s)), (''keyId'', JStr (keyId s)), (''publicKey'', JBytes (publicKeyDer s))]"

definition segment_manifest ::
  "platform \<Rightarrow> format_profile \<Rightarrow> signer \<Rightarrow> byte list \<Rightarrow> nat \<Rightarrow> encoded_block list \<Rightarrow> byte list \<Rightarrow> jsval" where
  "segment_manifest X profile s headerPayload recordCount blocks root = obj
     [(''kind'', JStr (js ''g9p-segment-manifest'')),
      (''manifestVersion'', JInt (int (fp_version profile))),
      (''headerHash'', JBytes (domain_digest X (headerHashDomain profile) [headerPayload])),
      (''recordCount'', JInt (int recordCount)),
      (''blockCount'', JInt (int (length blocks))),
      (''recordMerkleRoot'', JBytes root),
      (''blocks'', JArr (map eb_commitment blocks)),
      (''signer'', signer_value s)]"

definition signature_value :: "signer \<Rightarrow> byte list \<Rightarrow> jsval" where
  "signature_value s signature = obj
     [(''algorithm'', JStr (algorithm s)), (''keyId'', JStr (keyId s)), (''signature'', JBytes signature)]"

record segment_parts =
  sp_profile :: format_profile
  sp_ledger :: jsstr
  sp_shard :: jsstr
  sp_records :: "prepared list"
  sp_header :: "byte list"
  sp_blocks :: "encoded_block list"
  sp_root :: "byte list"
  sp_manifest :: "byte list"
  sp_signature :: "byte list"

definition request_profile :: "segment_request \<Rightarrow> format_profile" where
  "request_profile rq = (if rq_routingEpoch rq = None then profile_v1 else profile_v2)"

definition build_segment :: "platform \<Rightarrow> segment_request \<Rightarrow> segment_parts res" where
  "build_segment X rq =
     andThen (validate_request X rq)
     (let profile = request_profile rq; s = rq_signer rq in
      bindR (mapR (prepare_event X (rq_routingPolicy rq) (rq_maxRecordBytes rq)) (rq_events rq)) (\<lambda>records.
      let ledger = text_prop (pr_event (hd records)) ''ledgerId''; shard = shardId (pr_route (hd records)) in
      andThen (same_destination records)
      (bindR (encode_canonical DEFAULT_LIMITS (segment_header rq profile ledger shard)) (\<lambda>headerPayload.
       bindR (partition_records records (rq_blockTargetBytes rq) (rq_blockMaxRecords rq)
         (rq_blockRecordCounts rq)) (\<lambda>recordBlocks.
       bindR (encode_blocks X profile (rq_precompressedBlocks rq) 0 0 recordBlocks) (\<lambda>blocks.
       bindR (merkle_root X (map pr_hash records)) (\<lambda>root.
       bindR (encode_canonical DEFAULT_LIMITS
         (segment_manifest X profile s headerPayload (length records) blocks root)) (\<lambda>manifestPayload.
       bindR (sign_domain_with_signer X s (signatureDomain profile) manifestPayload) (\<lambda>signature.
       bindR (encode_canonical DEFAULT_LIMITS (signature_value s signature)) (\<lambda>signaturePayload.
       Inr \<lparr>sp_profile = profile, sp_ledger = ledger, sp_shard = shard, sp_records = records,
         sp_header = headerPayload, sp_blocks = blocks, sp_root = root,
         sp_manifest = manifestPayload, sp_signature = signaturePayload\<rparr>))))))))))"

definition segment_file :: "segment_parts \<Rightarrow> byte list res" where
  "segment_file p =
     bindR (encode_frame (headerFrame (sp_profile p)) (sp_header p)) (\<lambda>headerBytes.
     bindR (encode_frame (manifestFrame (sp_profile p)) (sp_manifest p)) (\<lambda>manifestBytes.
     bindR (encode_frame ''SIG1'' (sp_signature p)) (\<lambda>signatureBytes.
     bindR (encode_frame ''END!'' []) (\<lambda>endBytes.
     Inr (fp_magic (sp_profile p) @ headerBytes @ concat (map eb_frame (sp_blocks p))
          @ manifestBytes @ signatureBytes @ endBytes)))))"

record segment_result =
  sr_formatVersion :: nat
  sr_ledgerId :: jsstr
  sr_shardId :: jsstr
  sr_segmentNumber :: nat
  sr_routingEpochNumber :: "nat option"
  sr_routingEpochHash :: "jsstr option"
  sr_blockCount :: nat
  sr_recordCount :: nat
  sr_logicalRoot :: jsstr
  sr_segmentHash :: jsstr
  sr_signerKeyId :: jsstr
  sr_byteLength :: nat

definition segment_hash :: "platform \<Rightarrow> format_profile \<Rightarrow> byte list \<Rightarrow> byte list" where
  "segment_hash X profile bytes = domain_digest X (fileHashDomain profile) [bytes]"

definition write_segment :: "platform \<Rightarrow> segment_request \<Rightarrow> (byte list \<times> segment_result) res" where
  "write_segment X rq =
     bindR (build_segment X rq) (\<lambda>p.
     bindR (segment_file p) (\<lambda>bytes.
     Inr (bytes,
       \<lparr>sr_formatVersion = fp_version (sp_profile p), sr_ledgerId = sp_ledger p, sr_shardId = sp_shard p,
        sr_segmentNumber = rq_segmentNumber rq,
        sr_routingEpochNumber = map_option epochNumber (rq_routingEpoch rq),
        sr_routingEpochHash = map_option (\<lambda>e. to_hex (epochHash e)) (rq_routingEpoch rq),
        sr_blockCount = length (sp_blocks p), sr_recordCount = length (sp_records p),
        sr_logicalRoot = to_hex (sp_root p),
        sr_segmentHash = to_hex (segment_hash X (sp_profile p) bytes),
        sr_signerKeyId = keyId (rq_signer rq), sr_byteLength = length bytes\<rparr>)))"

section \<open>The partition of records\<close>

lemma concat_take_blocks: "sum_list counts = length records \<Longrightarrow> concat (take_blocks counts records) = records"
  by (induction counts records rule: take_blocks.induct) simp_all

lemma take_blocks_nonempty:
  "list_all (\<lambda>n. 0 < n) counts \<Longrightarrow> sum_list counts \<le> length records \<Longrightarrow> [] \<notin> set (take_blocks counts records)"
  by (induction counts records rule: take_blocks.induct) auto

lemma length_take_blocks [simp]: "length (take_blocks counts records) = length counts"
  by (induction counts records rule: take_blocks.induct) simp_all

lemma concat_partition_greedy: "concat (partition_greedy t m current n records) = current @ records"
  by (induction t m current n records rule: partition_greedy.induct) auto

lemma partition_greedy_nonempty: "[] \<notin> set (partition_greedy t m current n records)"
  by (induction t m current n records rule: partition_greedy.induct) auto

text \<open>A block holds at most the record limit, and exceeds the byte target only when it is a single record.\<close>

lemma partition_greedy_bounds:
  assumes "1 \<le> m" and "length current \<le> m" and "n = sum_list (map (length \<circ> snd) current)"
    and "n \<le> t \<or> length current \<le> 1" and "b \<in> set (partition_greedy t m current n records)"
  shows "length b \<le> m \<and> (sum_list (map (length \<circ> snd) b) \<le> t \<or> length b = 1)"
  using assms
proof (induction t m current n records rule: partition_greedy.induct)
  case (1 t m current n)
  then show ?case by (cases "length current") (auto split: if_splits)
next
  case (2 t m current n r records)
  show ?case
  proof (cases "0 < length current \<and> (t < n + length (snd r) \<or> m \<le> length current)")
    case True
    then consider "b = current" | "b \<in> set (partition_greedy t m [r] (length (snd r)) records)"
      using "2.prems"(5) by auto
    then show ?thesis
    proof cases
      case 1
      with "2.prems" True show ?thesis by (auto simp: le_Suc_eq)
    next
      case 2
      with "2.IH"(1) [OF True] "2.prems"(1) show ?thesis by simp
    qed
  next
    case False
    then show ?thesis using "2.IH"(2) [OF False] "2.prems" by (cases current) auto
  qed
qed

end
