(* ===== verification/G9P_Segment_Verifier.thy ===== *)
theory G9P_Segment_Verifier
  imports G9P_Segment_Writer
begin

text \<open>
  Verification of a sealed segment (src/src/segment-verifier.js): the frames are read in order,
  the four kinds of payload decoded and validated field by field, and every commitment
  recomputed, in the order of the code.
\<close>

record verify_limits =
  maxFileBytes :: nat
  maxFrameBytes :: nat
  maxBlockOutputBytes :: nat
  maxRecordBytes :: nat
  maxBlocks :: nat
  maxRecords :: nat

definition VERIFY_LIMITS :: verify_limits where
  "VERIFY_LIMITS = \<lparr>maxFileBytes = 536870912, maxFrameBytes = 67108864, maxBlockOutputBytes = 67108864,
     maxRecordBytes = 16777216, maxBlocks = 65536, maxRecords = 10000000\<rparr>"

text \<open>An option of the caller is \<open>None\<close> when it is \<open>undefined\<close>; an expected previous hash may
  also be \<open>null\<close> (\<open>Some None\<close>).\<close>

record verify_options =
  vo_limits :: verify_limits
  trustedKeyIds :: "jsstr list"
  requireTrustedSigner :: bool
  expectedPreviousSegmentHash :: "byte list option option"
  expectedLedgerId :: "jsstr option"
  expectedShardId :: "jsstr option"
  expectedRoutingEpochNumber :: "nat option"
  expectedRoutingEpochHash :: "byte list option"

definition default_options :: verify_options where
  "default_options = \<lparr>vo_limits = VERIFY_LIMITS, trustedKeyIds = [], requireTrustedSigner = False,
     expectedPreviousSegmentHash = None, expectedLedgerId = None, expectedShardId = None,
     expectedRoutingEpochNumber = None, expectedRoutingEpochHash = None\<rparr>"

section \<open>Field checks\<close>

definition plain_object :: "jsval \<Rightarrow> unit res" where
  "plain_object v = invariant (is_object v) ''VERIFY_OBJECT''"

definition exact_fields :: "jsval \<Rightarrow> string list \<Rightarrow> unit res" where
  "exact_fields v names = invariant (exact_keys v names) ''VERIFY_FIELDS''"

definition is_bytes :: "nat \<Rightarrow> jsval \<Rightarrow> bool" where
  "is_bytes n v = (case v of JBytes b \<Rightarrow> length b = n | _ \<Rightarrow> False)"

definition bytes_of_length :: "jsval \<Rightarrow> nat \<Rightarrow> unit res" where
  "bytes_of_length v n = invariant (is_bytes n v) ''VERIFY_BYTES''"

definition int_in :: "int \<Rightarrow> int \<Rightarrow> jsval \<Rightarrow> bool" where
  "int_in lo hi v = (case v of JInt i \<Rightarrow> lo \<le> i \<and> i \<le> hi | _ \<Rightarrow> False)"

definition safe_integer :: "jsval \<Rightarrow> int \<Rightarrow> int \<Rightarrow> unit res" where
  "safe_integer v lo hi = invariant (int_in lo hi v) ''VERIFY_INTEGER''"

definition MAX_SAFE :: int where
  "MAX_SAFE = int max_safe_integer"

definition verify_timestamp :: "jsval \<Rightarrow> unit res" where
  "verify_timestamp v = invariant (timestamp_text v) ''VERIFY_TIMESTAMP''"

definition is_js :: "string \<Rightarrow> jsval \<Rightarrow> bool" where
  "is_js s v = (v = JStr (js s))"

definition verify_routing_policy :: "jsval \<Rightarrow> unit res" where
  "verify_routing_policy policy = checks
     [plain_object policy,
      exact_fields policy [''id'', ''version'', ''shardCount''],
      invariant (get_prop policy ''id'' = JStr ROUTING_POLICY_ID \<and> get_prop policy ''version'' = JInt 1)
        ''VERIFY_ROUTING_POLICY'',
      safe_integer (get_prop policy ''shardCount'') 1 65536]"

definition verify_compression_profile :: "jsval \<Rightarrow> unit res" where
  "verify_compression_profile profile = checks
     [plain_object profile,
      exact_fields profile [''algorithm'', ''profile'', ''level'', ''checksum'', ''contentSize''],
      invariant (\<forall>name \<in> set [''algorithm'', ''profile'', ''level'', ''checksum'', ''contentSize''].
          get_prop profile name = get_prop ZSTD_PROFILE name) ''VERIFY_COMPRESSION_PROFILE'']"

definition non_empty_string :: "jsval \<Rightarrow> bool" where
  "non_empty_string v = (case v of JStr s \<Rightarrow> s \<noteq> [] | _ \<Rightarrow> False)"

definition shard_id_text :: "jsval \<Rightarrow> bool" where
  "shard_id_text v = (case v of JStr s \<Rightarrow> is_shard_id s | _ \<Rightarrow> False)"

definition HEADER_FIELDS :: "string list" where
  "HEADER_FIELDS = [''kind'', ''formatVersion'', ''ledgerId'', ''shardId'', ''segmentNumber'', ''createdAt'',
     ''previousSegmentHash'', ''routingPolicy'', ''compression'']"

definition validate_header :: "jsval \<Rightarrow> nat \<Rightarrow> unit res" where
  "validate_header header formatVersion = checks
     [plain_object header,
      exact_fields header (HEADER_FIELDS @
        (if formatVersion = 2 then [''routingEpochNumber'', ''routingEpochHash''] else [])),
      invariant (is_js ''g9p-segment'' (get_prop header ''kind'')
        \<and> get_prop header ''formatVersion'' = JInt (int formatVersion)) ''VERIFY_FORMAT_VERSION'',
      invariant (non_empty_string (get_prop header ''ledgerId'')) ''VERIFY_LEDGER'',
      invariant (shard_id_text (get_prop header ''shardId'')) ''VERIFY_SHARD'',
      safe_integer (get_prop header ''segmentNumber'') 0 MAX_SAFE,
      verify_timestamp (get_prop header ''createdAt''),
      (if get_prop header ''previousSegmentHash'' = JNull then Inr ()
       else bytes_of_length (get_prop header ''previousSegmentHash'') 32),
      (if formatVersion = 2 then checks
         [safe_integer (get_prop header ''routingEpochNumber'') 0 MAX_SAFE,
          bytes_of_length (get_prop header ''routingEpochHash'') 32]
       else Inr ()),
      verify_routing_policy (get_prop header ''routingPolicy''),
      verify_compression_profile (get_prop header ''compression'')]"

definition non_empty_bytes :: "jsval \<Rightarrow> bool" where
  "non_empty_bytes v = (case v of JBytes b \<Rightarrow> 0 < length b | _ \<Rightarrow> False)"

definition validate_block :: "verify_limits \<Rightarrow> jsval \<Rightarrow> unit res" where
  "validate_block L block = checks
     [plain_object block,
      exact_fields block [''blockIndex'', ''firstRecordIndex'', ''recordCount'', ''uncompressedLength'',
        ''compression'', ''recordsHash'', ''data''],
      safe_integer (get_prop block ''blockIndex'') 0 (int (maxBlocks L) - 1),
      safe_integer (get_prop block ''firstRecordIndex'') 0 (int (maxRecords L)),
      safe_integer (get_prop block ''recordCount'') 1 (int (maxRecords L)),
      safe_integer (get_prop block ''uncompressedLength'') 1 (int (maxBlockOutputBytes L)),
      invariant (is_js ''zstd'' (get_prop block ''compression'')) ''VERIFY_BLOCK_COMPRESSION'',
      bytes_of_length (get_prop block ''recordsHash'') 32,
      invariant (non_empty_bytes (get_prop block ''data'')) ''VERIFY_BLOCK_DATA'']"

definition array_items :: "jsval \<Rightarrow> jsval list" where
  "array_items v = (case v of JArr items \<Rightarrow> items | _ \<Rightarrow> [])"

definition is_array :: "jsval \<Rightarrow> bool" where
  "is_array v = (case v of JArr _ \<Rightarrow> True | _ \<Rightarrow> False)"

definition is_any_bytes :: "jsval \<Rightarrow> bool" where
  "is_any_bytes v = (case v of JBytes _ \<Rightarrow> True | _ \<Rightarrow> False)"

definition validate_commitment :: "verify_limits \<Rightarrow> nat \<times> jsval \<Rightarrow> unit res" where
  "validate_commitment L = (\<lambda>(i, commitment). checks
     [plain_object commitment,
      exact_fields commitment [''blockIndex'', ''firstRecordIndex'', ''recordCount'', ''payloadHash''],
      invariant (get_prop commitment ''blockIndex'' = JInt (int i)) ''VERIFY_BLOCK_ORDER'',
      safe_integer (get_prop commitment ''firstRecordIndex'') 0 (int (maxRecords L)),
      safe_integer (get_prop commitment ''recordCount'') 1 (int (maxRecords L)),
      bytes_of_length (get_prop commitment ''payloadHash'') 32])"

definition validate_manifest :: "verify_limits \<Rightarrow> nat \<Rightarrow> jsval \<Rightarrow> unit res" where
  "validate_manifest L formatVersion manifest = checks
     [plain_object manifest,
      exact_fields manifest [''kind'', ''manifestVersion'', ''headerHash'', ''recordCount'', ''blockCount'',
        ''recordMerkleRoot'', ''blocks'', ''signer''],
      invariant (is_js ''g9p-segment-manifest'' (get_prop manifest ''kind'')
        \<and> get_prop manifest ''manifestVersion'' = JInt (int formatVersion)) ''VERIFY_MANIFEST_VERSION'',
      bytes_of_length (get_prop manifest ''headerHash'') 32,
      safe_integer (get_prop manifest ''recordCount'') 1 (int (maxRecords L)),
      safe_integer (get_prop manifest ''blockCount'') 1 (int (maxBlocks L)),
      bytes_of_length (get_prop manifest ''recordMerkleRoot'') 32,
      invariant (is_array (get_prop manifest ''blocks'')
        \<and> get_prop manifest ''blockCount'' = JInt (int (length (array_items (get_prop manifest ''blocks'')))))
        ''VERIFY_MANIFEST_BLOCKS'',
      checks (map (validate_commitment L) (enumerate 0 (array_items (get_prop manifest ''blocks'')))),
      plain_object (get_prop manifest ''signer''),
      exact_fields (get_prop manifest ''signer'') [''algorithm'', ''keyId'', ''publicKey''],
      invariant (is_js ''ed25519'' (get_prop (get_prop manifest ''signer'') ''algorithm''))
        ''VERIFY_SIGNATURE_ALGORITHM'',
      invariant (hash_text (get_prop (get_prop manifest ''signer'') ''keyId'')) ''VERIFY_KEY_ID'',
      invariant (is_any_bytes (get_prop (get_prop manifest ''signer'') ''publicKey'')) ''VERIFY_PUBLIC_KEY'']"

definition validate_signature :: "jsval \<Rightarrow> jsval \<Rightarrow> unit res" where
  "validate_signature signature manifest = checks
     [plain_object signature,
      exact_fields signature [''algorithm'', ''keyId'', ''signature''],
      invariant (get_prop signature ''algorithm'' = get_prop (get_prop manifest ''signer'') ''algorithm'')
        ''VERIFY_SIGNATURE_ALGORITHM'',
      invariant (get_prop signature ''keyId'' = get_prop (get_prop manifest ''signer'') ''keyId'')
        ''VERIFY_KEY_ID'',
      invariant (is_bytes 64 (get_prop signature ''signature'')) ''VERIFY_SIGNATURE_LENGTH'']"

text \<open>\<open>Buffer.from(left).equals(Buffer.from(right))\<close>; \<open>Buffer.from(null)\<close> throws a \<open>TypeError\<close>.\<close>

definition buffers_equal :: "jsval \<Rightarrow> byte list \<Rightarrow> string \<Rightarrow> unit res" where
  "buffers_equal left right code =
     (case left of JBytes b \<Rightarrow> invariant (b = right) code | _ \<Rightarrow> Inl JsTypeError)"

section \<open>Frames\<close>

definition select_profile :: "byte list \<Rightarrow> format_profile option" where
  "select_profile bytes =
     (if take (length G9P_MAGIC) bytes = G9P_MAGIC then Some profile_v1
      else if take (length G9P_MAGIC_V2) bytes = G9P_MAGIC_V2 then Some profile_v2
      else None)"

function read_block_frames :: "verify_limits \<Rightarrow> nat \<Rightarrow> byte list \<Rightarrow> (byte list list \<times> byte list) res" where
  "read_block_frames L n bs =
     bindR (peek_type bs) (\<lambda>type.
       if type = ''BLK1'' then
         andThen (invariant (n < maxBlocks L) ''VERIFY_BLOCK_LIMIT'')
         (bindR (read_frame (maxFrameBytes L) ''BLK1'' bs) (\<lambda>(payload, rest).
          bindR (read_block_frames L (Suc n) rest) (\<lambda>(payloads, rest').
          Inr (payload # payloads, rest'))))
       else Inr ([], bs))"
  by pat_completeness auto
termination
  by (relation "measure (\<lambda>(L, n, bs). length bs)") (auto dest: read_frame_shorter)

declare read_block_frames.simps [simp del]

record segment_frames =
  sf_header :: "byte list"
  sf_blocks :: "byte list list"
  sf_manifest :: "byte list"
  sf_signature :: "byte list"

definition read_segment_frames :: "verify_limits \<Rightarrow> format_profile \<Rightarrow> byte list \<Rightarrow> segment_frames res" where
  "read_segment_frames L profile bytes =
     bindR (read_magic (fp_magic profile) bytes) (\<lambda>bs0.
     bindR (read_frame (maxFrameBytes L) (headerFrame profile) bs0) (\<lambda>(header, bs1).
     bindR (read_block_frames L 0 bs1) (\<lambda>(blocks, bs2).
     andThen (invariant (0 < length blocks) ''VERIFY_BLOCKS'')
     (bindR (read_frame (maxFrameBytes L) (manifestFrame profile) bs2) (\<lambda>(manifest, bs3).
      bindR (read_frame (maxFrameBytes L) ''SIG1'' bs3) (\<lambda>(signature, bs4).
      bindR (read_frame (maxFrameBytes L) ''END!'' bs4) (\<lambda>(endPayload, bs5).
      andThen (invariant (endPayload = []) ''VERIFY_END_FRAME'')
      (andThen (assert_end bs5)
      (Inr \<lparr>sf_header = header, sf_blocks = blocks, sf_manifest = manifest, sf_signature = signature\<rparr>)))))))))"

section \<open>Commitments\<close>

definition int_of :: "jsval \<Rightarrow> int" where
  "int_of v = (case v of JInt i \<Rightarrow> i | _ \<Rightarrow> 0)"

definition bytes_of :: "jsval \<Rightarrow> byte list" where
  "bytes_of v = (case v of JBytes b \<Rightarrow> b | _ \<Rightarrow> [])"

text \<open>The loop over the blocks and their commitments; the accumulator is
  \<open>expectedFirstRecordIndex\<close>. A missing commitment cannot occur, the counts having been compared.\<close>

fun check_commitments ::
  "platform \<Rightarrow> format_profile \<Rightarrow> nat \<Rightarrow> int \<Rightarrow> (jsval \<times> byte list \<times> jsval) list \<Rightarrow> int res" where
  "check_commitments X profile i expected [] = Inr expected"
| "check_commitments X profile i expected ((block, payload, commitment) # rest) =
     andThen (checks
       [invariant (get_prop block ''blockIndex'' = JInt (int i)
          \<and> get_prop commitment ''blockIndex'' = JInt (int i)) ''VERIFY_BLOCK_ORDER'',
        invariant (get_prop block ''firstRecordIndex'' = JInt expected
          \<and> get_prop commitment ''firstRecordIndex'' = JInt expected) ''VERIFY_RECORD_ORDER'',
        invariant (get_prop block ''recordCount'' = get_prop commitment ''recordCount'')
          ''VERIFY_BLOCK_RECORD_COUNT'',
        buffers_equal (get_prop commitment ''payloadHash'')
          (domain_digest X (blockHashDomain profile) [payload]) ''VERIFY_BLOCK_HASH''])
     (check_commitments X profile (Suc i) (expected + int_of (get_prop block ''recordCount'')) rest)"

definition check_event :: "platform \<Rightarrow> jsval \<Rightarrow> byte list \<Rightarrow> (jsval \<times> byte list) res" where
  "check_event X header bytes =
     bindR (decode_event X bytes) (\<lambda>event.
     andThen (invariant (get_prop event ''ledgerId'' = get_prop header ''ledgerId'') ''VERIFY_EVENT_LEDGER'')
     (bindR (route_event X event (get_prop header ''routingPolicy'')) (\<lambda>r.
      andThen (invariant (JStr (shardId r) = get_prop header ''shardId'') ''VERIFY_EVENT_SHARD'')
      (Inr (event, event_hash X bytes)))))"

definition check_block :: "platform \<Rightarrow> verify_limits \<Rightarrow> jsval \<Rightarrow> jsval \<Rightarrow> (jsval \<times> byte list) list res" where
  "check_block X L header block =
     bindR (decompress_block X (bytes_of (get_prop block ''data''))
       (nat (int_of (get_prop block ''uncompressedLength''))) (maxBlockOutputBytes L)) (\<lambda>uncompressed.
     andThen (buffers_equal (get_prop block ''recordsHash'')
       (domain_digest X ''record-block-v1'' [uncompressed]) ''VERIFY_RECORD_BLOCK_HASH'')
     (bindR (read_framed_records (maxRecordBytes L) uncompressed (nat (int_of (get_prop block ''recordCount''))))
       (\<lambda>records. mapR (check_event X header) records)))"

definition check_expectations :: "verify_options \<Rightarrow> format_profile \<Rightarrow> jsval \<Rightarrow> unit res" where
  "check_expectations opts profile header = checks
     [(case expectedPreviousSegmentHash opts of
         None \<Rightarrow> Inr ()
       | Some None \<Rightarrow> invariant (get_prop header ''previousSegmentHash'' = JNull) ''VERIFY_PREVIOUS_SEGMENT''
       | Some (Some h) \<Rightarrow> buffers_equal (get_prop header ''previousSegmentHash'') h ''VERIFY_PREVIOUS_SEGMENT''),
      (case expectedLedgerId opts of
         None \<Rightarrow> Inr ()
       | Some l \<Rightarrow> invariant (get_prop header ''ledgerId'' = JStr l) ''VERIFY_LEDGER''),
      (case expectedShardId opts of
         None \<Rightarrow> Inr ()
       | Some s \<Rightarrow> invariant (get_prop header ''shardId'' = JStr s) ''VERIFY_SHARD''),
      (case expectedRoutingEpochNumber opts of
         None \<Rightarrow> Inr ()
       | Some n \<Rightarrow> invariant (fp_version profile = 2 \<and> get_prop header ''routingEpochNumber'' = JInt (int n))
           ''VERIFY_ROUTING_EPOCH''),
      (case expectedRoutingEpochHash opts of
         None \<Rightarrow> Inr ()
       | Some h \<Rightarrow> andThen (invariant (fp_version profile = 2) ''VERIFY_ROUTING_EPOCH'')
           (buffers_equal (get_prop header ''routingEpochHash'') h ''VERIFY_ROUTING_EPOCH''))]"

record verified_segment =
  vs_formatVersion :: nat
  vs_header :: jsval
  vs_manifest :: jsval
  vs_logicalRoot :: jsstr
  vs_segmentHash :: jsstr
  vs_signerKeyId :: jsstr
  vs_signerTrusted :: bool
  vs_byteLength :: nat
  vs_events :: "jsval list"

definition check_signature ::
  "platform \<Rightarrow> verify_options \<Rightarrow> format_profile \<Rightarrow> byte list \<Rightarrow> jsval \<Rightarrow> jsval \<Rightarrow> bool res" where
  "check_signature X opts profile manifestPayload manifest signature =
     (let signerValue = get_prop manifest ''signer''; key = bytes_of (get_prop signerValue ''publicKey'');
          id = text_prop signerValue ''keyId''; trusted = (id \<in> set (trustedKeyIds opts)) in
      andThen (checks
        [invariant (public_key_id X key = id) ''VERIFY_KEY_ID'',
         invariant (import_key X key \<noteq> None) ''VERIFY_PUBLIC_KEY'',
         invariant (verify_domain_commitment X key (signatureDomain profile) manifestPayload
           (bytes_of (get_prop signature ''signature''))) ''VERIFY_SIGNATURE'',
         (if requireTrustedSigner opts then invariant trusted ''VERIFY_UNTRUSTED_SIGNER'' else Inr ())])
      (Inr trusted))"

definition verify_segment_frames ::
  "platform \<Rightarrow> verify_options \<Rightarrow> format_profile \<Rightarrow> byte list \<Rightarrow> segment_frames \<Rightarrow> verified_segment res" where
  "verify_segment_frames X opts profile bytes f =
     (let L = vo_limits opts in
      bindR (decode_canonical DEFAULT_LIMITS (sf_header f)) (\<lambda>header.
      bindR (mapR (decode_canonical DEFAULT_LIMITS) (sf_blocks f)) (\<lambda>blocks.
      bindR (decode_canonical DEFAULT_LIMITS (sf_manifest f)) (\<lambda>manifest.
      bindR (decode_canonical DEFAULT_LIMITS (sf_signature f)) (\<lambda>signature.
      andThen (checks
        [validate_header header (fp_version profile),
         checks (map (validate_block L) blocks),
         validate_manifest L (fp_version profile) manifest,
         validate_signature signature manifest,
         invariant (get_prop manifest ''blockCount'' = JInt (int (length blocks))) ''VERIFY_BLOCK_COUNT'',
         buffers_equal (get_prop manifest ''headerHash'')
           (domain_digest X (headerHashDomain profile) [sf_header f]) ''VERIFY_HEADER_HASH''])
      (bindR (check_commitments X profile 0 0
         (zip blocks (zip (sf_blocks f) (array_items (get_prop manifest ''blocks''))))) (\<lambda>total.
       andThen (invariant (JInt total = get_prop manifest ''recordCount'') ''VERIFY_RECORD_COUNT'')
       (bindR (check_signature X opts profile (sf_manifest f) manifest signature) (\<lambda>trusted.
        andThen (check_expectations opts profile header)
        (bindR (mapR (check_block X L header) blocks) (\<lambda>checked.
         let events = map fst (concat checked); recordHashes = map snd (concat checked) in
         andThen (invariant (JInt (int (length events)) = get_prop manifest ''recordCount'') ''VERIFY_RECORD_COUNT'')
         (bindR (merkle_root X recordHashes) (\<lambda>root.
          andThen (buffers_equal (get_prop manifest ''recordMerkleRoot'') root ''VERIFY_MERKLE_ROOT'')
          (Inr \<lparr>vs_formatVersion = fp_version profile, vs_header = header, vs_manifest = manifest,
             vs_logicalRoot = to_hex root,
             vs_segmentHash = to_hex (segment_hash X profile bytes),
             vs_signerKeyId = text_prop (get_prop manifest ''signer'') ''keyId'',
             vs_signerTrusted = trusted, vs_byteLength = length bytes, vs_events = events\<rparr>))))))))))))))"

definition verify_segment_bytes :: "platform \<Rightarrow> verify_options \<Rightarrow> byte list \<Rightarrow> verified_segment res" where
  "verify_segment_bytes X opts bytes =
     andThen (invariant (length bytes \<le> maxFileBytes (vo_limits opts)) ''VERIFY_FILE_LIMIT'')
     (case select_profile bytes of
        None \<Rightarrow> failWith ''FORMAT_MAGIC''
      | Some profile \<Rightarrow>
          bindR (read_segment_frames (vo_limits opts) profile bytes) (\<lambda>f.
          verify_segment_frames X opts profile bytes f))"

text \<open>What callers read off the header of a verified segment.\<close>

definition vs_ledgerId :: "verified_segment \<Rightarrow> jsstr" where
  "vs_ledgerId v = text_prop (vs_header v) ''ledgerId''"

definition vs_shardId :: "verified_segment \<Rightarrow> jsstr" where
  "vs_shardId v = text_prop (vs_header v) ''shardId''"

definition vs_segmentNumber :: "verified_segment \<Rightarrow> nat" where
  "vs_segmentNumber v = nat (int_of (get_prop (vs_header v) ''segmentNumber''))"

definition vs_previousSegmentHash :: "verified_segment \<Rightarrow> jsstr option" where
  "vs_previousSegmentHash v =
     (case get_prop (vs_header v) ''previousSegmentHash'' of JBytes b \<Rightarrow> Some (to_hex b) | _ \<Rightarrow> None)"

definition vs_routingEpochNumber :: "verified_segment \<Rightarrow> nat option" where
  "vs_routingEpochNumber v =
     (if vs_formatVersion v = 2 then Some (nat (int_of (get_prop (vs_header v) ''routingEpochNumber''))) else None)"

definition vs_routingEpochHash :: "verified_segment \<Rightarrow> jsstr option" where
  "vs_routingEpochHash v =
     (if vs_formatVersion v = 2 then Some (to_hex (bytes_of (get_prop (vs_header v) ''routingEpochHash''))) else None)"

definition vs_shardCount :: "verified_segment \<Rightarrow> nat" where
  "vs_shardCount v = policy_shard_count (get_prop (vs_header v) ''routingPolicy'')"

definition vs_recordCount :: "verified_segment \<Rightarrow> nat" where
  "vs_recordCount v = nat (int_of (get_prop (vs_manifest v) ''recordCount''))"

definition vs_blockCount :: "verified_segment \<Rightarrow> nat" where
  "vs_blockCount v = nat (int_of (get_prop (vs_manifest v) ''blockCount''))"

end
