(* ===== verification/G9P_Segment_Props.thy ===== *)
theory G9P_Segment_Props
  imports G9P_Segment_Verifier G9P_Samples
begin

text \<open>
  The contract between the segment writer and the verifier: what the writer builds, the verifier
  accepts, with the same events; what the verifier accepts is committed to by its root and its
  signature.
\<close>

section \<open>Frames of a written file\<close>

definition small :: "byte list \<Rightarrow> bool" where
  "small payload \<longleftrightarrow> length payload \<le> 67108864"

lemma verify_limits_values [simp]:
  "maxFileBytes VERIFY_LIMITS = 536870912" "maxFrameBytes VERIFY_LIMITS = 67108864"
  "maxBlockOutputBytes VERIFY_LIMITS = 67108864" "maxRecordBytes VERIFY_LIMITS = 16777216"
  "maxBlocks VERIFY_LIMITS = 65536" "maxRecords VERIFY_LIMITS = 10000000"
  by (simp_all add: VERIFY_LIMITS_def)

lemma default_limits_values [simp]: "maxBytes DEFAULT_LIMITS = 67108864"
  by (simp add: DEFAULT_LIMITS_def)

lemma encode_blocks_frames:
  "encode_blocks X profile pre i n recs = Inr ebs \<Longrightarrow>
   list_all (\<lambda>b. encode_frame ''BLK1'' (eb_payload b) = Inr (eb_frame b)) ebs"
  by (induction recs arbitrary: i n ebs) (auto simp: encode_block_def Let_def res_simps)

lemma read_block_frames_written:
  assumes "list_all (\<lambda>b. encode_frame ''BLK1'' (eb_payload b) = Inr (eb_frame b) \<and> small (eb_payload b)) ebs"
    and "n + length ebs \<le> 65536" and "peek_type rest = Inr type" and "type \<noteq> ''BLK1''"
  shows "read_block_frames VERIFY_LIMITS n (concat (map eb_frame ebs) @ rest) = Inr (map eb_payload ebs, rest)"
  using assms(1,2)
proof (induction ebs arbitrary: n)
  case Nil
  then show ?case using assms(3,4) by (simp add: read_block_frames.simps)
next
  case (Cons b ebs)
  then have f: "encode_frame ''BLK1'' (eb_payload b) = Inr (eb_frame b)" and "small (eb_payload b)" by simp_all
  then have "read_frame 67108864 ''BLK1'' (eb_frame b @ r) = Inr (eb_payload b, r)" for r
    by (intro read_encode_frame) (simp_all add: small_def)
  moreover have "peek_type (eb_frame b @ r) = Inr ''BLK1''" for r
    using f by (rule peek_encode_frame)
  ultimately show ?case using Cons by (subst read_block_frames.simps) simp
qed

lemma profile_cases: "request_profile rq = profile_v1 \<or> request_profile rq = profile_v2"
  by (simp add: request_profile_def)

lemma profile_facts [simp]:
  "fp_version profile_v1 = 1" "fp_version profile_v2 = 2"
  "fp_magic profile_v1 = G9P_MAGIC" "fp_magic profile_v2 = G9P_MAGIC_V2"
  by (simp_all add: profile_v1_def profile_v2_def)

lemma select_profile_written:
  "profile = profile_v1 \<or> profile = profile_v2 \<Longrightarrow> select_profile (fp_magic profile @ bs) = Some profile"
  by (auto simp: select_profile_def G9P_MAGIC_V1_def G9P_MAGIC_V2_def)

lemma read_written_frames:
  assumes "segment_file p = Inr file" and "sp_profile p = profile_v1 \<or> sp_profile p = profile_v2"
    and "list_all (\<lambda>b. encode_frame ''BLK1'' (eb_payload b) = Inr (eb_frame b) \<and> small (eb_payload b)) (sp_blocks p)"
    and "sp_blocks p \<noteq> []" and "length (sp_blocks p) \<le> 65536"
    and "small (sp_header p)" and "small (sp_manifest p)" and "small (sp_signature p)"
  shows "select_profile file = Some (sp_profile p)"
    and "read_segment_frames VERIFY_LIMITS (sp_profile p) file =
      Inr \<lparr>sf_header = sp_header p, sf_blocks = map eb_payload (sp_blocks p),
        sf_manifest = sp_manifest p, sf_signature = sp_signature p\<rparr>"
proof -
  from assms(1) obtain h m s e where frames: "encode_frame (headerFrame (sp_profile p)) (sp_header p) = Inr h"
    "encode_frame (manifestFrame (sp_profile p)) (sp_manifest p) = Inr m"
    "encode_frame ''SIG1'' (sp_signature p) = Inr s" "encode_frame ''END!'' [] = Inr e"
    and whole: "file = fp_magic (sp_profile p) @ h @ concat (map eb_frame (sp_blocks p)) @ m @ s @ e"
    by (auto simp: segment_file_def res_simps)
  show "select_profile file = Some (sp_profile p)"
    unfolding whole by (rule select_profile_written [OF assms(2)])
  have "read_magic (fp_magic (sp_profile p)) file = Inr (h @ concat (map eb_frame (sp_blocks p)) @ m @ s @ e)"
    by (simp add: whole read_magic_def)
  moreover have "read_frame 67108864 (headerFrame (sp_profile p)) (h @ r) = Inr (sp_header p, r)" for r
    using frames(1) assms(6) by (intro read_encode_frame) (simp_all add: small_def)
  moreover have "read_block_frames VERIFY_LIMITS 0 (concat (map eb_frame (sp_blocks p)) @ m @ s @ e)
      = Inr (map eb_payload (sp_blocks p), m @ s @ e)"
  proof (rule read_block_frames_written [OF assms(3)])
    show "peek_type (m @ s @ e) = Inr (manifestFrame (sp_profile p))"
      using frames(2) by (rule peek_encode_frame)
    show "manifestFrame (sp_profile p) \<noteq> ''BLK1''"
      using assms(2) by (auto simp: profile_v1_def profile_v2_def)
  qed (use assms(5) in simp)
  moreover have "read_frame 67108864 (manifestFrame (sp_profile p)) (m @ r) = Inr (sp_manifest p, r)" for r
    using frames(2) assms(7) by (intro read_encode_frame) (simp_all add: small_def)
  moreover have "read_frame 67108864 ''SIG1'' (s @ r) = Inr (sp_signature p, r)" for r
    using frames(3) assms(8) by (intro read_encode_frame) (simp_all add: small_def)
  moreover have "read_frame 67108864 ''END!'' e = Inr ([], [])"
    using read_encode_frame [OF frames(4), of 67108864 "[]"] by simp
  ultimately show "read_segment_frames VERIFY_LIMITS (sp_profile p) file =
      Inr \<lparr>sf_header = sp_header p, sf_blocks = map eb_payload (sp_blocks p),
        sf_manifest = sp_manifest p, sf_signature = sp_signature p\<rparr>"
    using assms(4) by (simp add: read_segment_frames_def assert_end_def)
qed

section \<open>The values of a written file\<close>

lemma validate_request_facts:
  "validate_request X rq = Inr () \<Longrightarrow>
   rq_events rq \<noteq> [] \<and> rq_segmentNumber rq \<le> max_safe_integer \<and> 1 \<le> rq_blockMaxRecords rq
   \<and> is_canonical_timestamp (rq_createdAt rq)
   \<and> (\<forall>h. rq_previousSegmentHash rq = Some h \<longrightarrow> length h = 32)
   \<and> (\<forall>e. rq_routingEpoch rq = Some e \<longrightarrow> epochNumber e \<le> max_safe_integer \<and> length (epochHash e) = 32)
   \<and> (rq_precompressedBlocks rq \<noteq> None \<longrightarrow> rq_blockRecordCounts rq \<noteq> None)"
  by (auto simp: validate_request_def res_simps split: option.splits)

lemma canon_obj_prop:
  "portable (obj props) \<Longrightarrow> get_prop (canon (obj props)) name
     = canon (case map_of props name of Some v \<Rightarrow> v | None \<Rightarrow> JUndef)"
  by (simp only: get_prop_canon get_prop_obj)

lemma canon_obj_keys:
  "portable (obj props) \<Longrightarrow> distinct names \<Longrightarrow> set (map fst props) = set names \<Longrightarrow>
   exact_keys (canon (obj props)) names"
  by (simp only: exact_keys_canon) (intro exact_keys_obj; simp)

lemma shard_name_portable: "portable_text (shard_name i)"
proof (rule plain_ascii_portable)
  have "plain_ascii (padded 4 i)"
    using is_digit_padded [of _ 4 i] by (auto simp: plain_ascii_def list_all_iff is_digit_ascii)
  then show "plain_ascii (shard_name i)"
    unfolding shard_name_def plain_ascii_append by (simp add: plain_ascii_def)
qed

lemma is_shard_id_portable: "is_shard_id s \<Longrightarrow> portable_text s"
proof (rule plain_ascii_portable)
  assume s: "is_shard_id s"
  have "plain_ascii (js ''shard-'')" by (simp add: plain_ascii_def)
  with s have "plain_ascii (take 6 s)" by (simp add: is_shard_id_def)
  moreover have "plain_ascii (drop 6 s)"
    using s by (auto simp: is_shard_id_def plain_ascii_def list_all_iff is_digit_ascii)
  ultimately show "plain_ascii s" by (rule take_drop_ascii)
qed

lemma portable_policy [simp]: "n \<le> max_safe_integer \<Longrightarrow> portable (routing_policy n)"
  by (auto simp: routing_policy_def ROUTING_POLICY_ID_def max_safe_integer_def simp del: js_Cons)

lemma portable_zstd [simp]: "portable ZSTD_PROFILE"
  by (simp add: ZSTD_PROFILE_def max_safe_integer_def del: js_Cons)

lemma verify_routing_policy_written:
  "1 \<le> n \<Longrightarrow> n \<le> 65536 \<Longrightarrow> verify_routing_policy (canon (routing_policy n)) = Inr ()"
proof -
  assume n: "1 \<le> n" "n \<le> 65536"
  then have p: "portable (routing_policy n)" by (simp add: max_safe_integer_def)
  have "exact_keys (canon (routing_policy n)) [''id'', ''version'', ''shardCount'']"
    using p unfolding routing_policy_def by (rule canon_obj_keys) auto
  then show ?thesis
    using n p by (simp add: verify_routing_policy_def plain_object_def exact_fields_def safe_integer_def
        int_in_def get_prop_canon del: js_Cons) (simp add: routing_policy_def)
qed

lemma verify_compression_profile_written: "verify_compression_profile (canon ZSTD_PROFILE) = Inr ()"
proof -
  have "exact_keys (canon ZSTD_PROFILE) [''algorithm'', ''profile'', ''level'', ''checksum'', ''contentSize'']"
    using portable_zstd unfolding ZSTD_PROFILE_def by (rule canon_obj_keys) auto
  moreover have "is_object ZSTD_PROFILE" by (simp add: ZSTD_PROFILE_def)
  ultimately show ?thesis
    by (simp add: verify_compression_profile_def plain_object_def exact_fields_def get_prop_canon)
       (simp add: ZSTD_PROFILE_def)
qed

lemma portable_header:
  assumes "validate_request X rq = Inr ()" and "portable (rq_routingPolicy rq)"
    and "portable_text ledger" and "portable_text shard" and "fp_version profile \<le> 2"
  shows "portable (segment_header rq profile ledger shard)"
  using validate_request_facts [OF assms(1)] assms(2-)
  by (auto simp: segment_header_def hash_or_null_def canonical_timestamp_portable max_safe_integer_def
      simp del: js_Cons split: option.splits)

lemma header_prop:
  assumes "portable (segment_header rq profile ledger shard)"
  shows "get_prop (canon (segment_header rq profile ledger shard)) ''kind'' = JStr (js ''g9p-segment'')"
    "get_prop (canon (segment_header rq profile ledger shard)) ''formatVersion'' = JInt (int (fp_version profile))"
    "get_prop (canon (segment_header rq profile ledger shard)) ''ledgerId'' = JStr ledger"
    "get_prop (canon (segment_header rq profile ledger shard)) ''shardId'' = JStr shard"
    "get_prop (canon (segment_header rq profile ledger shard)) ''segmentNumber'' = JInt (int (rq_segmentNumber rq))"
    "get_prop (canon (segment_header rq profile ledger shard)) ''createdAt'' = JStr (rq_createdAt rq)"
    "get_prop (canon (segment_header rq profile ledger shard)) ''previousSegmentHash'' = hash_or_null (rq_previousSegmentHash rq)"
    "get_prop (canon (segment_header rq profile ledger shard)) ''routingPolicy'' = canon (rq_routingPolicy rq)"
    "get_prop (canon (segment_header rq profile ledger shard)) ''compression'' = canon ZSTD_PROFILE"
    "rq_routingEpoch rq = Some e \<Longrightarrow>
     get_prop (canon (segment_header rq profile ledger shard)) ''routingEpochNumber'' = JInt (int (epochNumber e))"
    "rq_routingEpoch rq = Some e \<Longrightarrow>
     get_prop (canon (segment_header rq profile ledger shard)) ''routingEpochHash'' = JBytes (epochHash e)"
  using assms unfolding segment_header_def
  by (simp_all add: canon_obj_prop hash_or_null_def del: js_Cons portable_obj split: option.split)

lemma validate_header_written:
  assumes "validate_request X rq = Inr ()" and "rq_routingPolicy rq = routing_policy n"
    and "1 \<le> n" and "n \<le> 65536" and "portable_text ledger" and "ledger \<noteq> []" and "is_shard_id shard"
    and "profile = request_profile rq"
  shows "validate_header (canon (segment_header rq profile ledger shard)) (fp_version profile) = Inr ()"
proof -
  let ?h = "canon (segment_header rq profile ledger shard)"
  have port: "portable (segment_header rq profile ledger shard)"
    using assms is_shard_id_portable [OF assms(7)] profile_cases [of rq]
    by (intro portable_header [OF assms(1)]) (auto simp: max_safe_integer_def)
  have "is_object ?h" by (simp add: segment_header_def)
  moreover have "exact_keys ?h (HEADER_FIELDS @
        (if fp_version profile = 2 then [''routingEpochNumber'', ''routingEpochHash''] else []))"
    using port unfolding segment_header_def
    by (rule canon_obj_keys)
      (cases "rq_routingEpoch rq"; simp add: assms(8) request_profile_def HEADER_FIELDS_def insert_commute)+
  moreover note hp = header_prop [OF port]
  have "safe_integer (get_prop ?h ''segmentNumber'') 0 MAX_SAFE = Inr ()"
    using validate_request_facts [OF assms(1)] by (simp add: hp(5) safe_integer_def int_in_def MAX_SAFE_def)
  moreover have "verify_timestamp (get_prop ?h ''createdAt'') = Inr ()"
    using validate_request_facts [OF assms(1)] by (simp add: hp(6) verify_timestamp_def timestamp_text_def)
  moreover have "(if get_prop ?h ''previousSegmentHash'' = JNull then Inr ()
       else bytes_of_length (get_prop ?h ''previousSegmentHash'') 32) = Inr ()"
    using validate_request_facts [OF assms(1)]
    by (simp add: hp(7) hash_or_null_def bytes_of_length_def is_bytes_def split: option.split)
  moreover have "(if fp_version profile = 2 then checks
         [safe_integer (get_prop ?h ''routingEpochNumber'') 0 MAX_SAFE,
          bytes_of_length (get_prop ?h ''routingEpochHash'') 32] else Inr ()) = Inr ()"
  proof (cases "rq_routingEpoch rq")
    case (Some e)
    then show ?thesis
      using validate_request_facts [OF assms(1)]
      by (simp add: hp(10,11) safe_integer_def int_in_def MAX_SAFE_def bytes_of_length_def is_bytes_def)
  qed (simp add: assms(8) request_profile_def)
  moreover have "verify_routing_policy (get_prop ?h ''routingPolicy'') = Inr ()"
    using assms(2-4) by (simp add: hp(8) verify_routing_policy_written)
  moreover have "verify_compression_profile (get_prop ?h ''compression'') = Inr ()"
    by (simp only: hp(9) verify_compression_profile_written)
  ultimately show ?thesis
    using assms(6,7) unfolding validate_header_def
    by (simp only: checks.simps plain_object_def exact_fields_def hp(1-4) is_js_def non_empty_string_def
        shard_id_text_def jsval.case invariant_True andThen_simps simp_thms)
qed

section \<open>Blocks\<close>

lemma length_digest_if [simp]: "sha256_ok X \<Longrightarrow> length (domain_digest X d ps) = 32"
  by (rule length_domain_digest)

lemma portable_block:
  "i \<le> 65536 \<Longrightarrow> n \<le> 10000000 \<Longrightarrow> c \<le> 10000000 \<Longrightarrow> length u \<le> 67108864 \<Longrightarrow> portable (block_value X i n c u d)"
  by (simp add: block_value_def max_safe_integer_def del: js_Cons)

lemma portable_commitment:
  "i \<le> 65536 \<Longrightarrow> n \<le> 10000000 \<Longrightarrow> c \<le> 10000000 \<Longrightarrow> portable (commitment_value X dm i n c payload)"
  by (simp add: commitment_value_def max_safe_integer_def)

lemma block_prop:
  assumes "portable (block_value X i n c u d)"
  shows "get_prop (canon (block_value X i n c u d)) ''blockIndex'' = JInt (int i)"
    "get_prop (canon (block_value X i n c u d)) ''firstRecordIndex'' = JInt (int n)"
    "get_prop (canon (block_value X i n c u d)) ''recordCount'' = JInt (int c)"
    "get_prop (canon (block_value X i n c u d)) ''uncompressedLength'' = JInt (int (length u))"
    "get_prop (canon (block_value X i n c u d)) ''compression'' = JStr (js ''zstd'')"
    "get_prop (canon (block_value X i n c u d)) ''recordsHash'' = JBytes (domain_digest X ''record-block-v1'' [u])"
    "get_prop (canon (block_value X i n c u d)) ''data'' = JBytes d"
  using assms unfolding block_value_def
  by (simp_all add: canon_obj_prop del: js_Cons portable_obj)

lemma commitment_prop:
  assumes "portable (commitment_value X dm i n c payload)"
  shows "get_prop (canon (commitment_value X dm i n c payload)) ''blockIndex'' = JInt (int i)"
    "get_prop (canon (commitment_value X dm i n c payload)) ''firstRecordIndex'' = JInt (int n)"
    "get_prop (canon (commitment_value X dm i n c payload)) ''recordCount'' = JInt (int c)"
    "get_prop (canon (commitment_value X dm i n c payload)) ''payloadHash'' = JBytes (domain_digest X dm [payload])"
  using assms unfolding commitment_value_def
  by (simp_all add: canon_obj_prop del: portable_obj)

lemma validate_block_written:
  assumes "sha256_ok X" and "i < 65536" and "n \<le> 10000000" and "1 \<le> c" and "c \<le> 10000000"
    and "1 \<le> length u" and "length u \<le> 67108864" and "d \<noteq> []"
  shows "validate_block VERIFY_LIMITS (canon (block_value X i n c u d)) = Inr ()"
proof -
  let ?b = "canon (block_value X i n c u d)"
  have port: "portable (block_value X i n c u d)" using assms by (intro portable_block) simp_all
  have "is_object ?b" by (simp add: block_value_def)
  moreover have "exact_keys ?b [''blockIndex'', ''firstRecordIndex'', ''recordCount'', ''uncompressedLength'',
        ''compression'', ''recordsHash'', ''data'']"
    using port unfolding block_value_def by (rule canon_obj_keys) simp_all
  ultimately show ?thesis
    using assms by (simp add: validate_block_def plain_object_def exact_fields_def block_prop [OF port]
        safe_integer_def int_in_def is_js_def bytes_of_length_def is_bytes_def non_empty_bytes_def del: js_Cons)
qed

lemma validate_commitment_written:
  assumes "sha256_ok X" and "i \<le> 65536" and "n \<le> 10000000" and "1 \<le> c" and "c \<le> 10000000"
  shows "validate_commitment VERIFY_LIMITS (i, canon (commitment_value X dm i n c payload)) = Inr ()"
proof -
  let ?b = "canon (commitment_value X dm i n c payload)"
  have port: "portable (commitment_value X dm i n c payload)" using assms by (intro portable_commitment) simp_all
  have "is_object ?b" by (simp add: commitment_value_def)
  moreover have "exact_keys ?b [''blockIndex'', ''firstRecordIndex'', ''recordCount'', ''payloadHash'']"
    using port unfolding commitment_value_def by (rule canon_obj_keys) simp_all
  ultimately show ?thesis
    using assms by (simp add: validate_commitment_def plain_object_def exact_fields_def commitment_prop [OF port]
        safe_integer_def int_in_def bytes_of_length_def is_bytes_def)
qed

lemma encode_block_Inr:
  "encode_block X profile pre i n r = Inr b \<Longrightarrow>
   \<exists>d. block_data X (precompressed_at pre i) (concat (map snd r)) = Inr d
     \<and> eb_block b = block_value X i n (length r) (concat (map snd r)) d
     \<and> encode_canonical DEFAULT_LIMITS (eb_block b) = Inr (eb_payload b)
     \<and> encode_frame ''BLK1'' (eb_payload b) = Inr (eb_frame b)
     \<and> eb_commitment b = commitment_value X (blockHashDomain profile) i n (length r) (eb_payload b)"
  by (auto simp: encode_block_def Let_def res_simps)

text \<open>The sizes at which the verifier's default limits admit a block of records.\<close>

definition block_fits :: "framed list \<Rightarrow> bool" where
  "block_fits r \<longleftrightarrow> r \<noteq> [] \<and> length (concat (map snd r)) \<le> 67108864
     \<and> (\<forall>(p, framed) \<in> set r. framed = framed_record (pr_bytes p) \<and> length (pr_bytes p) \<le> 16777216)"

lemma framed_record_nonempty: "framed_record bs \<noteq> []"
proof -
  have "4 \<le> length (framed_record bs)" by (simp add: framed_record_def)
  then show ?thesis by auto
qed

lemma block_fits_nonempty: "block_fits r \<Longrightarrow> concat (map snd r) \<noteq> []"
  using framed_record_nonempty by (cases r) (auto simp: block_fits_def)

lemma block_fits_length: "block_fits r \<Longrightarrow> 1 \<le> length (concat (map snd r))"
  using block_fits_nonempty [of r] by (simp add: Suc_le_eq del: concat_eq_Nil_conv length_concat)

definition record_total :: "framed list list \<Rightarrow> nat" where
  "record_total recs = sum_list (map length recs)"

lemma record_total_simps [simp]:
  "record_total [] = 0" "record_total (r # recs) = length r + record_total recs"
  by (simp_all add: record_total_def)

lemma check_commitments_written:
  assumes "encode_blocks X profile pre i n recs = Inr ebs"
    and "i + length recs \<le> 65536" and "n + record_total recs \<le> 10000000" and "list_all block_fits recs"
  shows "check_commitments X profile i (int n)
      (zip (map (canon \<circ> eb_block) ebs) (zip (map eb_payload ebs) (map (canon \<circ> eb_commitment) ebs)))
    = Inr (int (n + record_total recs))"
  using assms
proof (induction recs arbitrary: i n ebs)
  case (Cons r recs)
  from Cons.prems(1) obtain b bs where b: "encode_block X profile pre i n r = Inr b"
    and bs: "encode_blocks X profile pre (Suc i) (n + length r) recs = Inr bs" and ebs: "ebs = b # bs"
    by (auto simp: res_simps)
  from encode_block_Inr [OF b] obtain d where v: "eb_block b = block_value X i n (length r) (concat (map snd r)) d"
    and c: "eb_commitment b = commitment_value X (blockHashDomain profile) i n (length r) (eb_payload b)"
    by blast
  have pb: "portable (block_value X i n (length r) (concat (map snd r)) d)"
    using Cons.prems by (intro portable_block) (simp_all add: block_fits_def)
  have pc: "portable (commitment_value X (blockHashDomain profile) i n (length r) (eb_payload b))"
    using Cons.prems by (intro portable_commitment) simp_all
  have "check_commitments X profile (Suc i) (int (n + length r))
      (zip (map (canon \<circ> eb_block) bs) (zip (map eb_payload bs) (map (canon \<circ> eb_commitment) bs)))
    = Inr (int (n + length r + record_total recs))"
    using bs Cons.prems by (intro Cons.IH) simp_all
  then show ?case
    by (simp add: ebs v c block_prop [OF pb] commitment_prop [OF pc] buffers_equal_def int_of_def comp_def algebra_simps)
qed simp

lemma block_data_decompresses:
  assumes "zstd_ok X" and "block_data X pre u = Inr d" and "u \<noteq> []" and "length u \<le> 67108864"
  shows "d \<noteq> [] \<and> decompress_block X d (length u) 67108864 = Inr u"
proof -
  have "decompress_block X d (length u) 67108864 = Inr u"
  proof (cases pre)
    case None
    with assms(2) have "compress_block X u = Inr d" by (simp add: block_data_def)
    from decompress_compress [OF assms(1) this] assms(4) show ?thesis
      by (simp add: max_safe_integer_def)
  next
    case (Some b)
    with assms(2) have "decompress_block X d (length u) (length u) = Inr u"
      by (auto simp: block_data_def res_simps)
    from decompress_block_limit [OF assms(1) this assms(4)] show ?thesis .
  qed
  with decompress_block_nonempty [OF assms(1) this assms(3)] show ?thesis by simp
qed

lemma validate_blocks_written:
  assumes "sha256_ok X" and "zstd_ok X" and "encode_blocks X profile pre i n recs = Inr ebs"
    and "i + length recs \<le> 65536" and "n + record_total recs \<le> 10000000" and "list_all block_fits recs"
  shows "list_all (\<lambda>b. validate_block VERIFY_LIMITS (canon (eb_block b)) = Inr ()) ebs
    \<and> list_all (\<lambda>c. validate_commitment VERIFY_LIMITS c = Inr ()) (enumerate i (map (canon \<circ> eb_commitment) ebs))
    \<and> list_all (\<lambda>b. portable (eb_block b) \<and> portable (eb_commitment b)
        \<and> encode_canonical DEFAULT_LIMITS (eb_block b) = Inr (eb_payload b)) ebs
    \<and> length ebs = length recs"
  using assms(3-)
proof (induction recs arbitrary: i n ebs)
  case (Cons r recs)
  from Cons.prems(1) obtain b bs where b: "encode_block X profile pre i n r = Inr b"
    and bs: "encode_blocks X profile pre (Suc i) (n + length r) recs = Inr bs" and ebs: "ebs = b # bs"
    by (auto simp: res_simps)
  let ?u = "concat (map snd r)"
  have fit: "block_fits r" "1 \<le> length ?u" "1 \<le> length r" "length ?u \<le> 67108864"
    using Cons.prems(4) block_fits_length by (auto simp: block_fits_def Suc_le_eq)
  from encode_block_Inr [OF b] obtain d where d: "block_data X (precompressed_at pre i) ?u = Inr d"
    and v: "eb_block b = block_value X i n (length r) ?u d"
    and e: "encode_canonical DEFAULT_LIMITS (eb_block b) = Inr (eb_payload b)"
    and c: "eb_commitment b = commitment_value X (blockHashDomain profile) i n (length r) (eb_payload b)"
    by blast
  have "?u \<noteq> []" using fit(1) by (rule block_fits_nonempty)
  then have "d \<noteq> []" using block_data_decompresses [OF assms(2) d] fit(4) by simp
  then have "validate_block VERIFY_LIMITS (canon (eb_block b)) = Inr ()"
    unfolding v using Cons.prems fit by (intro validate_block_written [OF assms(1)]) simp_all
  moreover have "validate_commitment VERIFY_LIMITS (i, canon (eb_commitment b)) = Inr ()"
    unfolding c using Cons.prems fit by (intro validate_commitment_written [OF assms(1)]) simp_all
  moreover have "portable (eb_block b)" "portable (eb_commitment b)"
    unfolding v c using Cons.prems fit by (simp_all add: portable_block portable_commitment)
  moreover note Cons.IH [OF bs]
  ultimately show ?case using Cons.prems e by (simp add: ebs)
qed simp

section \<open>Records\<close>

lemma prepare_event_Inr:
  "prepare_event X policy m event = Inr p \<Longrightarrow>
   pr_event p = event \<and> validate_event X event = Inr () \<and> route_event X event policy = Inr (pr_route p)
   \<and> canonical_event_bytes X event = Inr (pr_bytes p) \<and> pr_hash p = event_hash X (pr_bytes p) \<and> length (pr_bytes p) \<le> m"
  by (auto simp: prepare_event_def res_simps)

lemma check_event_written:
  assumes "prepare_event X (routing_policy n) m event = Inr p" and "portable event"
    and "length (pr_bytes p) \<le> 16777216" and "n \<le> max_safe_integer"
    and "get_prop header ''ledgerId'' = JStr (text_prop event ''ledgerId'')"
    and "get_prop header ''routingPolicy'' = canon (routing_policy n)"
    and "get_prop header ''shardId'' = JStr (shardId (pr_route p))"
  shows "check_event X header (pr_bytes p) = Inr (canon event, pr_hash p)"
proof -
  note f = prepare_event_Inr [OF assms(1)]
  have dec: "decode_event X (pr_bytes p) = Inr (canon event)"
    using f assms(2,3) by (intro decode_event_bytes) simp_all
  have "is_text (get_prop event ''ledgerId'')"
    using f by (auto simp: validate_event_def res_simps validate_text_Inr is_text_def)
  then have "get_prop (canon event) ''ledgerId'' = JStr (text_prop event ''ledgerId'')"
    using assms(2) by (cases "get_prop event ''ledgerId''") (simp_all add: get_prop_canon is_text_def text_prop_def)
  moreover have "route_event X (canon event) (canon (routing_policy n)) = Inr (pr_route p)"
    using f assms(4) route_event_canon(1) [OF assms(2), of "routing_policy n" X] by simp
  ultimately show ?thesis using f assms(5-7) by (simp add: check_event_def dec)
qed

lemma check_block_written:
  assumes "sha256_ok X" and "zstd_ok X" and "encode_block X profile pre i n r = Inr b" and "block_fits r"
    and "i \<le> 65536" and "n \<le> 10000000" and "length r \<le> 10000000"
    and "\<And>p fr. (p, fr) \<in> set r \<Longrightarrow> check_event X header (pr_bytes p) = Inr (canon (pr_event p), pr_hash p)"
  shows "check_block X VERIFY_LIMITS header (canon (eb_block b))
    = Inr (map (\<lambda>(p, _). (canon (pr_event p), pr_hash p)) r)"
proof -
  let ?u = "concat (map snd r)"
  from encode_block_Inr [OF assms(3)] obtain d where d: "block_data X (precompressed_at pre i) ?u = Inr d"
    and v: "eb_block b = block_value X i n (length r) ?u d" by blast
  have "?u \<noteq> []" and "length ?u \<le> 67108864"
    using assms(4) block_fits_nonempty [OF assms(4)] by (simp_all add: block_fits_def)
  then have dec: "decompress_block X d (length ?u) 67108864 = Inr ?u"
    using block_data_decompresses [OF assms(2) d] by blast
  have port: "portable (block_value X i n (length r) ?u d)"
    using assms(4-7) by (intro portable_block) (simp_all add: block_fits_def)
  have u: "?u = concat (map framed_record (map (pr_bytes \<circ> fst) r))"
    using assms(4) by (auto simp: block_fits_def case_prod_unfold intro!: arg_cong [of _ _ concat])
  have "read_framed_records 16777216 ?u (length r) = Inr (map (pr_bytes \<circ> fst) r)"
    unfolding u using assms(4)
    by (intro read_framed_records_framed) (auto simp: block_fits_def list_all_iff case_prod_unfold)
  moreover have "mapR (check_event X header) (map (pr_bytes \<circ> fst) r)
      = Inr (map (\<lambda>(p, _). (canon (pr_event p), pr_hash p)) r)"
    using assms(8) by (simp add: mapR_map case_prod_unfold) (intro mapR_eq_map, auto)
  ultimately show ?thesis
    by (simp add: check_block_def v block_prop [OF port] bytes_of_def int_of_def dec buffers_equal_def)
qed

section \<open>Manifest and signature\<close>

lemma portable_manifest:
  assumes "list_all (\<lambda>b. portable (eb_commitment b)) blocks" and "n \<le> 10000000" and "length blocks \<le> 65536"
    and "algorithm s = js ''ed25519''" and "keyId s = to_hex k" and "fp_version profile \<le> 2"
  shows "portable (segment_manifest X profile s h n blocks root)"
  using assms by (auto simp: segment_manifest_def signer_value_def max_safe_integer_def to_hex_portable
      list_all_iff simp del: js_Cons)

lemma manifest_prop:
  assumes "portable (segment_manifest X profile s h n blocks root)"
  shows "get_prop (canon (segment_manifest X profile s h n blocks root)) ''kind'' = JStr (js ''g9p-segment-manifest'')"
    "get_prop (canon (segment_manifest X profile s h n blocks root)) ''manifestVersion'' = JInt (int (fp_version profile))"
    "get_prop (canon (segment_manifest X profile s h n blocks root)) ''headerHash''
       = JBytes (domain_digest X (headerHashDomain profile) [h])"
    "get_prop (canon (segment_manifest X profile s h n blocks root)) ''recordCount'' = JInt (int n)"
    "get_prop (canon (segment_manifest X profile s h n blocks root)) ''blockCount'' = JInt (int (length blocks))"
    "get_prop (canon (segment_manifest X profile s h n blocks root)) ''recordMerkleRoot'' = JBytes root"
    "get_prop (canon (segment_manifest X profile s h n blocks root)) ''blocks'' = JArr (map (canon \<circ> eb_commitment) blocks)"
    "get_prop (canon (segment_manifest X profile s h n blocks root)) ''signer'' = canon (signer_value s)"
  using assms unfolding segment_manifest_def
  by (simp_all add: canon_obj_prop del: js_Cons portable_obj)

lemma portable_signer:
  "algorithm s = js ''ed25519'' \<Longrightarrow> keyId s = to_hex k \<Longrightarrow> portable (signer_value s)"
  by (simp add: signer_value_def to_hex_portable del: js_Cons)

lemma signer_prop:
  assumes "portable (signer_value s)"
  shows "get_prop (canon (signer_value s)) ''algorithm'' = JStr (algorithm s)"
    "get_prop (canon (signer_value s)) ''keyId'' = JStr (keyId s)"
    "get_prop (canon (signer_value s)) ''publicKey'' = JBytes (publicKeyDer s)"
    "exact_keys (canon (signer_value s)) [''algorithm'', ''keyId'', ''publicKey'']"
    "is_object (canon (signer_value s))"
  using assms unfolding signer_value_def
  by (simp_all add: canon_obj_prop canon_obj_keys del: js_Cons portable_obj)

lemma validate_manifest_written:
  assumes "sha256_ok X" and "portable (segment_manifest X profile s h n blocks root)"
    and "portable (signer_value s)"
    and "1 \<le> n" and "n \<le> 10000000" and "blocks \<noteq> []" and "length blocks \<le> 65536" and "length root = 32"
    and "algorithm s = js ''ed25519''" and "keyId s = public_key_id X (publicKeyDer s)"
    and "list_all (\<lambda>c. validate_commitment VERIFY_LIMITS c = Inr ()) (enumerate 0 (map (canon \<circ> eb_commitment) blocks))"
  shows "validate_manifest VERIFY_LIMITS (fp_version profile) (canon (segment_manifest X profile s h n blocks root)) = Inr ()"
proof -
  let ?m = "canon (segment_manifest X profile s h n blocks root)"
  note mp = manifest_prop [OF assms(2)] and sp = signer_prop [OF assms(3)]
  have "is_object ?m" by (simp add: segment_manifest_def)
  moreover have "exact_keys ?m [''kind'', ''manifestVersion'', ''headerHash'', ''recordCount'', ''blockCount'',
        ''recordMerkleRoot'', ''blocks'', ''signer'']"
    using assms(2) unfolding segment_manifest_def by (rule canon_obj_keys) simp_all
  moreover have "checks (map (validate_commitment VERIFY_LIMITS) (enumerate 0 (map (canon \<circ> eb_commitment) blocks))) = Inr ()"
    using assms(11) by (auto simp: checks_Inr_iff list_all_iff)
  moreover have "is_hex64 (keyId s)"
    using assms(1,10) by (simp add: public_key_id_def is_hex64_to_hex)
  moreover have "is_object (signer_value s)" by (simp add: signer_value_def)
  moreover have "1 \<le> length blocks" using assms(6) by (cases blocks) simp_all
  ultimately show ?thesis
    using assms(1,4,5,7-9) unfolding validate_manifest_def mp
    by (simp add: plain_object_def exact_fields_def is_js_def bytes_of_length_def is_bytes_def safe_integer_def
        int_in_def is_array_def array_items_def sp hash_text_def is_any_bytes_def del: js_Cons)
qed

lemma portable_signature:
  "algorithm s = js ''ed25519'' \<Longrightarrow> keyId s = to_hex k \<Longrightarrow> portable (signature_value s sig)"
  by (simp add: signature_value_def to_hex_portable del: js_Cons)

lemma signature_prop:
  assumes "portable (signature_value s sig)"
  shows "get_prop (canon (signature_value s sig)) ''algorithm'' = JStr (algorithm s)"
    "get_prop (canon (signature_value s sig)) ''keyId'' = JStr (keyId s)"
    "get_prop (canon (signature_value s sig)) ''signature'' = JBytes sig"
    "exact_keys (canon (signature_value s sig)) [''algorithm'', ''keyId'', ''signature'']"
    "is_object (canon (signature_value s sig))"
  using assms unfolding signature_value_def
  by (simp_all add: canon_obj_prop canon_obj_keys del: js_Cons portable_obj)

section \<open>Partition\<close>

lemma partition_records_Inr:
  assumes "partition_records records t m counts = Inr blocks"
  shows "concat blocks = map (\<lambda>p. (p, framed_record (pr_bytes p))) records \<and> [] \<notin> set blocks"
proof -
  have fr: "mapR frame_prepared records = Inr fr \<Longrightarrow> fr = map (\<lambda>p. (p, framed_record (pr_bytes p))) records" for fr
    by (induction records arbitrary: fr) (auto simp: frame_prepared_def frame_record_def framed_record_def res_simps)
  show ?thesis
  proof (cases counts)
    case None
    then show ?thesis
      using assms fr by (auto simp: partition_records_def res_simps concat_partition_greedy partition_greedy_nonempty)
  next
    case (Some cs)
    with assms have "list_all (\<lambda>n. 0 < n) cs" and "sum_list cs = length records"
      and "blocks = take_blocks cs (map (\<lambda>p. (p, framed_record (pr_bytes p))) records)"
      using fr by (auto simp: partition_records_def res_simps list_all_iff)
    then show ?thesis by (simp add: concat_take_blocks take_blocks_nonempty)
  qed
qed

lemma encode_blocks_uncompressed:
  "encode_blocks X profile pre i n recs = Inr ebs \<Longrightarrow> map eb_uncompressed ebs = map (\<lambda>r. concat (map snd r)) recs"
  by (induction recs arbitrary: i n ebs) (auto simp: encode_block_def Let_def res_simps)

section \<open>The writer's output verifies\<close>

text \<open>The sizes at which a built segment is within the verifier's default limits.\<close>

definition segment_fits :: "segment_parts \<Rightarrow> bool" where
  "segment_fits p \<longleftrightarrow> small (sp_header p) \<and> small (sp_manifest p) \<and> small (sp_signature p)
     \<and> list_all (\<lambda>b. small (eb_payload b) \<and> length (eb_uncompressed b) \<le> 67108864) (sp_blocks p)
     \<and> length (sp_blocks p) \<le> 65536 \<and> length (sp_records p) \<le> 10000000
     \<and> list_all (\<lambda>r. length (pr_bytes r) \<le> 16777216) (sp_records p)"

text \<open>The caller's expectations agree with what was requested.\<close>

definition options_match :: "segment_request \<Rightarrow> segment_parts \<Rightarrow> verify_options \<Rightarrow> bool" where
  "options_match rq p opts \<longleftrightarrow> vo_limits opts = VERIFY_LIMITS
     \<and> (requireTrustedSigner opts \<longrightarrow> keyId (rq_signer rq) \<in> set (trustedKeyIds opts))
     \<and> (\<forall>h. expectedPreviousSegmentHash opts = Some h \<longrightarrow> h = rq_previousSegmentHash rq)
     \<and> (\<forall>l. expectedLedgerId opts = Some l \<longrightarrow> l = sp_ledger p)
     \<and> (\<forall>s. expectedShardId opts = Some s \<longrightarrow> s = sp_shard p)
     \<and> (\<forall>n. expectedRoutingEpochNumber opts = Some n \<longrightarrow> map_option epochNumber (rq_routingEpoch rq) = Some n)
     \<and> (\<forall>h. expectedRoutingEpochHash opts = Some h \<longrightarrow> map_option epochHash (rq_routingEpoch rq) = Some h)"

lemma build_segment_Inr:
  assumes "build_segment X rq = Inr p"
  shows "\<exists>recs sig. validate_request X rq = Inr () \<and> sp_profile p = request_profile rq
    \<and> mapR (prepare_event X (rq_routingPolicy rq) (G9P_Segment_Writer.rq_maxRecordBytes rq)) (rq_events rq) = Inr (sp_records p)
    \<and> sp_ledger p = text_prop (pr_event (hd (sp_records p))) ''ledgerId''
    \<and> sp_shard p = shardId (pr_route (hd (sp_records p)))
    \<and> same_destination (sp_records p) = Inr ()
    \<and> encode_canonical DEFAULT_LIMITS (segment_header rq (sp_profile p) (sp_ledger p) (sp_shard p)) = Inr (sp_header p)
    \<and> partition_records (sp_records p) (rq_blockTargetBytes rq) (rq_blockMaxRecords rq) (rq_blockRecordCounts rq) = Inr recs
    \<and> encode_blocks X (sp_profile p) (rq_precompressedBlocks rq) 0 0 recs = Inr (sp_blocks p)
    \<and> merkle_root X (map pr_hash (sp_records p)) = Inr (sp_root p)
    \<and> encode_canonical DEFAULT_LIMITS (segment_manifest X (sp_profile p) (rq_signer rq) (sp_header p)
         (length (sp_records p)) (sp_blocks p) (sp_root p)) = Inr (sp_manifest p)
    \<and> sign_domain_with_signer X (rq_signer rq) (signatureDomain (sp_profile p)) (sp_manifest p) = Inr sig
    \<and> encode_canonical DEFAULT_LIMITS (signature_value (rq_signer rq) sig) = Inr (sp_signature p)"
  using assms unfolding build_segment_def Let_def
  by (clarsimp simp: bindR_Inr_iff andThen_Inr_iff)

lemma check_expectations_written:
  assumes "options_match rq p opts" and "portable (segment_header rq profile (sp_ledger p) (sp_shard p))"
    and "profile = request_profile rq"
  shows "check_expectations opts profile (canon (segment_header rq profile (sp_ledger p) (sp_shard p))) = Inr ()"
proof -
  note hp = header_prop [OF assms(2)]
  have version: "fp_version profile = 2" if "rq_routingEpoch rq = Some e" for e
    using that by (simp add: assms(3) request_profile_def)
  let ?h = "canon (segment_header rq profile (sp_ledger p) (sp_shard p))"
  note m = assms(1) [unfolded options_match_def]
  have "(case expectedPreviousSegmentHash opts of None \<Rightarrow> Inr ()
       | Some None \<Rightarrow> invariant (get_prop ?h ''previousSegmentHash'' = JNull) ''VERIFY_PREVIOUS_SEGMENT''
       | Some (Some h) \<Rightarrow> buffers_equal (get_prop ?h ''previousSegmentHash'') h ''VERIFY_PREVIOUS_SEGMENT'') = Inr ()"
    using m unfolding hp(7) by (auto simp: hash_or_null_def buffers_equal_def split: option.split)
  moreover have "(case expectedLedgerId opts of None \<Rightarrow> Inr ()
       | Some l \<Rightarrow> invariant (get_prop ?h ''ledgerId'' = JStr l) ''VERIFY_LEDGER'') = Inr ()"
    using m unfolding hp(3) by (auto split: option.split)
  moreover have "(case expectedShardId opts of None \<Rightarrow> Inr ()
       | Some l \<Rightarrow> invariant (get_prop ?h ''shardId'' = JStr l) ''VERIFY_SHARD'') = Inr ()"
    using m unfolding hp(4) by (auto split: option.split)
  moreover have "(case expectedRoutingEpochNumber opts of None \<Rightarrow> Inr ()
       | Some n \<Rightarrow> invariant (fp_version profile = 2 \<and> get_prop ?h ''routingEpochNumber'' = JInt (int n))
           ''VERIFY_ROUTING_EPOCH'') = Inr ()"
    using m version hp(10) by (auto split: option.split)
  moreover have "(case expectedRoutingEpochHash opts of None \<Rightarrow> Inr ()
       | Some h \<Rightarrow> andThen (invariant (fp_version profile = 2) ''VERIFY_ROUTING_EPOCH'')
           (buffers_equal (get_prop ?h ''routingEpochHash'') h ''VERIFY_ROUTING_EPOCH'')) = Inr ()"
    using m version hp(11) by (auto simp: buffers_equal_def split: option.split)
  ultimately show ?thesis
    unfolding check_expectations_def by (simp only: checks.simps andThen_simps)
qed

lemma check_signature_written:
  assumes "sign_domain_with_signer X s (signatureDomain profile) payload = Inr sig"
    and "portable (signer_value s)" and "portable (signature_value s sig)"
    and "get_prop manifest ''signer'' = canon (signer_value s)"
    and "requireTrustedSigner opts \<longrightarrow> keyId s \<in> set (trustedKeyIds opts)"
  shows "check_signature X opts profile payload manifest (canon (signature_value s sig))
    = Inr (keyId s \<in> set (trustedKeyIds opts))"
proof -
  have v: "verify_domain_commitment X (publicKeyDer s) (signatureDomain profile) payload sig"
    and "validate_signer X s ''SIGNER_IDENTITY'' = Inr ()"
    using sign_domain_with_signer_verifies [OF assms(1)] by simp_all
  from validate_signer_facts [OF this(2)] v show ?thesis
    using assms(4,5) signature_prop [OF assms(3)] signer_prop [OF assms(2)]
    by (simp add: check_signature_def Let_def bytes_of_def text_prop_def)
qed

lemma check_blocks_written:
  assumes "sha256_ok X" and "zstd_ok X" and "encode_blocks X profile pre i n recs = Inr ebs"
    and "i + length recs \<le> 65536" and "n + record_total recs \<le> 10000000" and "list_all block_fits recs"
    and "\<And>p fr. (p, fr) \<in> set (concat recs) \<Longrightarrow> check_event X header (pr_bytes p) = Inr (canon (pr_event p), pr_hash p)"
  shows "mapR (check_block X VERIFY_LIMITS header) (map (canon \<circ> eb_block) ebs)
    = Inr (map (map (\<lambda>(p, _). (canon (pr_event p), pr_hash p))) recs)"
  using assms(3-)
proof (induction recs arbitrary: i n ebs)
  case (Cons r recs)
  from Cons.prems(1) obtain b bs where b: "encode_block X profile pre i n r = Inr b"
    and bs: "encode_blocks X profile pre (Suc i) (n + length r) recs = Inr bs" and ebs: "ebs = b # bs"
    by (auto simp: res_simps)
  have "check_block X VERIFY_LIMITS header (canon (eb_block b))
      = Inr (map (\<lambda>(p, _). (canon (pr_event p), pr_hash p)) r)"
    using Cons.prems by (intro check_block_written [OF assms(1,2) b]) auto
  moreover have "mapR (check_block X VERIFY_LIMITS header) (map (canon \<circ> eb_block) bs)
      = Inr (map (map (\<lambda>(p, _). (canon (pr_event p), pr_hash p))) recs)"
    using Cons.prems by (intro Cons.IH [OF bs]) auto
  ultimately show ?case by (simp add: ebs comp_def)
qed simp

lemma merkle_root_length: "sha256_ok X \<Longrightarrow> merkle_root X hs = Inr root \<Longrightarrow> length root = 32"
  by (cases "hs = []") (auto simp: merkle_root_def [of X "[]"] dest!: merkle_root_tree simp: tree_digest_parts)

lemma decode_frame_payload:
  "encode_canonical DEFAULT_LIMITS v = Inr bs \<Longrightarrow> portable v \<Longrightarrow> small bs \<Longrightarrow>
   decode_canonical DEFAULT_LIMITS bs = Inr (canon v)"
  by (rule decode_canonical_encode) (simp_all add: small_def)

lemma sp_records_facts:
  assumes "mapR (prepare_event X policy m) events = Inr ps" and "events \<noteq> []" and "\<forall>e \<in> set events. portable e"
    and "same_destination ps = Inr ()"
  shows "map pr_event ps = events" and "ps \<noteq> []"
    and "portable_text (text_prop (pr_event (hd ps)) ''ledgerId'')"
    and "text_prop (pr_event (hd ps)) ''ledgerId'' \<noteq> []"
    and "p \<in> set ps \<Longrightarrow> prepare_event X policy m (pr_event p) = Inr p \<and> portable (pr_event p)
      \<and> text_prop (pr_event p) ''ledgerId'' = text_prop (pr_event (hd ps)) ''ledgerId''
      \<and> shardId (pr_route p) = shardId (pr_route (hd ps))"
proof -
  have all2: "list_all2 (\<lambda>e p. prepare_event X policy m e = Inr p) events ps"
    using assms(1) by (simp add: mapR_Inr_list_all2)
  have "list_all2 (\<lambda>e p. pr_event p = e) events ps"
    using all2 by (rule list_all2_mono) (simp add: prepare_event_Inr)
  then show ev: "map pr_event ps = events"
    by (induction rule: list_all2_induct) simp_all
  then show ne: "ps \<noteq> []" using assms(2) by auto
  have prep: "prepare_event X policy m (pr_event p) = Inr p \<and> portable (pr_event p)" if "p \<in> set ps" for p
  proof -
    from that obtain j where "j < length ps" "p = ps ! j" by (auto simp: in_set_conv_nth)
    moreover from this have "prepare_event X policy m (events ! j) = Inr (ps ! j)"
      using all2 by (auto dest: list_all2_nthD2)
    moreover have "events ! j = pr_event (ps ! j)" using \<open>j < length ps\<close> by (simp add: ev [symmetric])
    moreover have "events ! j \<in> set events" using \<open>j < length ps\<close> by (simp add: ev [symmetric])
    ultimately show ?thesis using assms(3) by simp
  qed
  then show "p \<in> set ps \<Longrightarrow> prepare_event X policy m (pr_event p) = Inr p \<and> portable (pr_event p)
      \<and> text_prop (pr_event p) ''ledgerId'' = text_prop (pr_event (hd ps)) ''ledgerId''
      \<and> shardId (pr_route p) = shardId (pr_route (hd ps))"
    using assms(4) by (auto simp: same_destination_def res_simps)
  from prep [of "hd ps"] ne have p: "prepare_event X policy m (pr_event (hd ps)) = Inr (hd ps)"
    and port: "portable (pr_event (hd ps))" by simp_all
  from prepare_event_Inr [OF p] obtain s where "get_prop (pr_event (hd ps)) ''ledgerId'' = JStr s" "1 \<le> length s"
    by (auto simp: validate_event_def res_simps validate_text_Inr)
  with portable_get_prop [OF port, of "''ledgerId''"]
  show "portable_text (text_prop (pr_event (hd ps)) ''ledgerId'')" "text_prop (pr_event (hd ps)) ''ledgerId'' \<noteq> []"
    by (auto simp: text_prop_def)
qed

lemma blocks_fit:
  assumes "segment_fits p" and "concat recs = map (\<lambda>r. (r, framed_record (pr_bytes r))) (sp_records p)"
    and "[] \<notin> set recs" and "map eb_uncompressed (sp_blocks p) = map (\<lambda>r. concat (map snd r)) recs"
  shows "list_all block_fits recs" and "record_total recs = length (sp_records p)"
    and "length recs = length (sp_blocks p)"
proof -
  show "record_total recs = length (sp_records p)"
    using assms(2) by (metis length_concat length_map record_total_def)
  show len: "length recs = length (sp_blocks p)" using assms(4) by (metis length_map)
  have "block_fits r" if r: "r \<in> set recs" for r
  proof -
    have "concat (map snd r) \<in> set (map eb_uncompressed (sp_blocks p))" using r assms(4) by auto
    then have "length (concat (map snd r)) \<le> 67108864"
      using assms(1) by (auto simp: segment_fits_def list_all_iff)
    moreover have "set r \<subseteq> set (map (\<lambda>r. (r, framed_record (pr_bytes r))) (sp_records p))"
      using r unfolding assms(2) [symmetric] by auto
    then have "\<forall>(q, fr) \<in> set r. fr = framed_record (pr_bytes q) \<and> length (pr_bytes q) \<le> 16777216"
      using assms(1) by (auto simp: segment_fits_def list_all_iff)
    moreover have "r \<noteq> []" using r assms(3) by auto
    ultimately show ?thesis by (simp add: block_fits_def)
  qed
  then show "list_all block_fits recs" by (simp add: list_all_iff)
qed

lemma written_frames_verify:
  assumes X: "sha256_ok X" "zstd_ok X" and build: "build_segment X rq = Inr p"
    and policy: "rq_routingPolicy rq = routing_policy n" "1 \<le> n" "n \<le> 65536"
    and port: "\<forall>e \<in> set (rq_events rq). portable e" and shard: "is_shard_id (sp_shard p)"
    and fits: "segment_fits p" and opts: "options_match rq p opts"
  shows "sp_blocks p \<noteq> []"
    and "portable (segment_header rq (sp_profile p) (sp_ledger p) (sp_shard p))"
    and "portable (segment_manifest X (sp_profile p) (rq_signer rq) (sp_header p)
      (length (sp_records p)) (sp_blocks p) (sp_root p))"
    and "verify_segment_frames X opts (sp_profile p) bytes
      \<lparr>sf_header = sp_header p, sf_blocks = map eb_payload (sp_blocks p),
        sf_manifest = sp_manifest p, sf_signature = sp_signature p\<rparr>
    = Inr \<lparr>vs_formatVersion = fp_version (sp_profile p),
        vs_header = canon (segment_header rq (sp_profile p) (sp_ledger p) (sp_shard p)),
        vs_manifest = canon (segment_manifest X (sp_profile p) (rq_signer rq) (sp_header p)
          (length (sp_records p)) (sp_blocks p) (sp_root p)),
        vs_logicalRoot = to_hex (sp_root p),
        vs_segmentHash = to_hex (segment_hash X (sp_profile p) bytes),
        vs_signerKeyId = keyId (rq_signer rq),
        vs_signerTrusted = (keyId (rq_signer rq) \<in> set (trustedKeyIds opts)),
        vs_byteLength = length bytes, vs_events = map canon (rq_events rq)\<rparr>"
proof -
  from build_segment_Inr [OF build] obtain recs sig where
    req: "validate_request X rq = Inr ()" and prof: "sp_profile p = request_profile rq"
    and prep: "mapR (prepare_event X (routing_policy n) (G9P_Segment_Writer.rq_maxRecordBytes rq)) (rq_events rq) = Inr (sp_records p)"
    and ledger: "sp_ledger p = text_prop (pr_event (hd (sp_records p))) ''ledgerId''"
    and sh: "sp_shard p = shardId (pr_route (hd (sp_records p)))"
    and same: "same_destination (sp_records p) = Inr ()"
    and h: "encode_canonical DEFAULT_LIMITS (segment_header rq (sp_profile p) (sp_ledger p) (sp_shard p)) = Inr (sp_header p)"
    and part: "partition_records (sp_records p) (rq_blockTargetBytes rq) (rq_blockMaxRecords rq) (rq_blockRecordCounts rq) = Inr recs"
    and blocks: "encode_blocks X (sp_profile p) (rq_precompressedBlocks rq) 0 0 recs = Inr (sp_blocks p)"
    and root: "merkle_root X (map pr_hash (sp_records p)) = Inr (sp_root p)"
    and m: "encode_canonical DEFAULT_LIMITS (segment_manifest X (sp_profile p) (rq_signer rq) (sp_header p)
         (length (sp_records p)) (sp_blocks p) (sp_root p)) = Inr (sp_manifest p)"
    and sign: "sign_domain_with_signer X (rq_signer rq) (signatureDomain (sp_profile p)) (sp_manifest p) = Inr sig"
    and s: "encode_canonical DEFAULT_LIMITS (signature_value (rq_signer rq) sig) = Inr (sp_signature p)"
    unfolding policy(1) by blast
  let ?ps = "sp_records p" and ?blocks = "sp_blocks p"
  let ?header = "segment_header rq (sp_profile p) (sp_ledger p) (sp_shard p)"
  let ?manifest = "segment_manifest X (sp_profile p) (rq_signer rq) (sp_header p) (length ?ps) ?blocks (sp_root p)"
  let ?signature = "signature_value (rq_signer rq) sig"
  note fits' = fits [unfolded segment_fits_def] and reqf = validate_request_facts [OF req]
  note recf = sp_records_facts [OF prep _ port same]
  have ev: "map pr_event ?ps = rq_events rq" and ne: "?ps \<noteq> []"
    and led: "portable_text (sp_ledger p)" "sp_ledger p \<noteq> []"
    using recf(1-4) reqf ledger by simp_all
  note part' = partition_records_Inr [OF part]
  note bf = blocks_fit [OF fits part' [THEN conjunct1] part' [THEN conjunct2] encode_blocks_uncompressed [OF blocks]]
  have "recs \<noteq> []" using part' ne by auto
  then show bne: "?blocks \<noteq> []" using bf(3) by auto
  have lens: "0 + length recs \<le> 65536" "0 + record_total recs \<le> 10000000"
    using fits' bf by simp_all
  note vb = validate_blocks_written [OF X blocks lens bf(1)]
  have signer: "algorithm (rq_signer rq) = js ''ed25519''"
      "keyId (rq_signer rq) = public_key_id X (publicKeyDer (rq_signer rq))"
    using sign_domain_with_signer_verifies [OF sign] validate_signer_facts by blast+
  note hex = signer(2) [unfolded public_key_id_def]
  have prof2: "fp_version (sp_profile p) \<le> 2" using profile_cases [of rq] prof by auto
  show ph: "portable ?header"
    using policy led is_shard_id_portable [OF shard] prof2
    by (intro portable_header [OF req]) (simp_all add: max_safe_integer_def)
  show pm: "portable ?manifest"
    using vb fits' prof2 by (intro portable_manifest [OF _ _ _ signer(1) hex]) (auto simp: list_all_iff)
  have psv: "portable (signer_value (rq_signer rq))" by (rule portable_signer [OF signer(1) hex])
  have pss: "portable ?signature" by (rule portable_signature [OF signer(1) hex])
  have dec: "decode_canonical DEFAULT_LIMITS (sp_header p) = Inr (canon ?header)"
    "decode_canonical DEFAULT_LIMITS (sp_manifest p) = Inr (canon ?manifest)"
    "decode_canonical DEFAULT_LIMITS (sp_signature p) = Inr (canon ?signature)"
    using decode_frame_payload [OF h ph] decode_frame_payload [OF m pm] decode_frame_payload [OF s pss] fits' by simp_all
  have decb: "mapR (decode_canonical DEFAULT_LIMITS) (map eb_payload ?blocks) = Inr (map (canon \<circ> eb_block) ?blocks)"
    using vb fits' by (simp add: mapR_map) (intro mapR_eq_map, auto simp: list_all_iff intro: decode_frame_payload)
  have rootlen: "length (sp_root p) = 32" by (rule merkle_root_length [OF X(1) root])
  have vh: "validate_header (canon ?header) (fp_version (sp_profile p)) = Inr ()"
    using policy led shard by (intro validate_header_written [OF req _ _ _ _ _ _ prof]) simp_all
  have vm: "validate_manifest VERIFY_LIMITS (fp_version (sp_profile p)) (canon ?manifest) = Inr ()"
    using ne fits' bne vb by (intro validate_manifest_written [OF X(1) pm psv _ _ _ _ rootlen signer])
      (simp_all add: Suc_le_eq)
  note mp = manifest_prop [OF pm]
  have vsig: "validate_signature (canon ?signature) (canon ?manifest) = Inr ()"
    using signature_prop [OF pss] signer_prop [OF psv] sign_domain_with_signer_verifies [OF sign]
    unfolding validate_signature_def mp(8)
    by (simp only: checks.simps plain_object_def exact_fields_def is_bytes_def jsval.case invariant_True andThen_simps simp_thms)
  have cc: "check_commitments X (sp_profile p) 0 0 (zip (map (canon \<circ> eb_block) ?blocks)
      (zip (map eb_payload ?blocks) (map (canon \<circ> eb_commitment) ?blocks))) = Inr (int (length ?ps))"
    using check_commitments_written [OF blocks lens bf(1)] bf(2) by simp
  have cs: "check_signature X opts (sp_profile p) (sp_manifest p) (canon ?manifest) (canon ?signature)
      = Inr (keyId (rq_signer rq) \<in> set (trustedKeyIds opts))"
    using opts by (intro check_signature_written [OF sign psv pss mp(8)]) (simp add: options_match_def)
  have ce: "check_expectations opts (sp_profile p) (canon ?header) = Inr ()"
    by (rule check_expectations_written [OF opts ph prof])
  note hp = header_prop [OF ph]
  have "check_event X (canon ?header) (pr_bytes q) = Inr (canon (pr_event q), pr_hash q)"
    if "(q, fr) \<in> set (concat recs)" for q fr
  proof -
    have q: "q \<in> set ?ps" using that part' by auto
    then have "length (pr_bytes q) \<le> 16777216" using fits' by (simp add: list_all_iff)
    moreover have "rq_events rq \<noteq> []" using reqf by simp
    note qf = recf(5) [OF this q]
    ultimately show ?thesis
      using policy(3) qf
      by (intro check_event_written [OF qf [THEN conjunct1]])
         (simp_all add: hp(3,4,8) policy(1) max_safe_integer_def flip: ledger sh)
  qed
  then have cb: "mapR (check_block X VERIFY_LIMITS (canon ?header)) (map (canon \<circ> eb_block) ?blocks)
      = Inr (map (map (\<lambda>(p, _). (canon (pr_event p), pr_hash p))) recs)"
    by (intro check_blocks_written [OF X blocks lens bf(1)]) simp
  have "concat (map (map (\<lambda>(p, _). (canon (pr_event p), pr_hash p))) recs)
      = map (\<lambda>(p, _). (canon (pr_event p), pr_hash p)) (concat recs)"
    by (simp add: map_concat)
  then have flat: "map fst (concat (map (map (\<lambda>(p, _). (canon (pr_event p), pr_hash p))) recs)) = map canon (rq_events rq)"
    "map snd (concat (map (map (\<lambda>(p, _). (canon (pr_event p), pr_hash p))) recs)) = map pr_hash ?ps"
    using part' by (simp_all add: comp_def flip: ev)
  have evlen: "length (concat (map (map (\<lambda>(p, _). (canon (pr_event p), pr_hash p))) recs)) = length ?ps"
    using arg_cong [OF flat(2), of length] by (simp only: length_map)
  have L: "vo_limits opts = VERIFY_LIMITS" using opts by (simp add: options_match_def)
  have keyid: "text_prop (canon (signer_value (rq_signer rq))) ''keyId'' = keyId (rq_signer rq)"
    using signer_prop [OF psv] by (simp add: text_prop_def)
  have vbs: "checks (map (validate_block VERIFY_LIMITS) (map (canon \<circ> eb_block) ?blocks)) = Inr ()"
    using vb by (auto simp: checks_Inr_iff list_all_iff)
  show "verify_segment_frames X opts (sp_profile p) bytes
      \<lparr>sf_header = sp_header p, sf_blocks = map eb_payload (sp_blocks p),
        sf_manifest = sp_manifest p, sf_signature = sp_signature p\<rparr>
    = Inr \<lparr>vs_formatVersion = fp_version (sp_profile p), vs_header = canon ?header,
        vs_manifest = canon ?manifest, vs_logicalRoot = to_hex (sp_root p),
        vs_segmentHash = to_hex (segment_hash X (sp_profile p) bytes),
        vs_signerKeyId = keyId (rq_signer rq),
        vs_signerTrusted = (keyId (rq_signer rq) \<in> set (trustedKeyIds opts)),
        vs_byteLength = length bytes, vs_events = map canon (rq_events rq)\<rparr>"
    unfolding verify_segment_frames_def Let_def L
    by (simp only: segment_frames.select_convs dec decb bindR_simps checks.simps vh vbs vm vsig mp
        length_map buffers_equal_def jsval.case invariant_True andThen_simps array_items_def cc cs ce cb flat
        evlen root keyid simp_thms)
qed

end
