(* ===== verification/G9P_Segment_Total.thy ===== *)
theory G9P_Segment_Total
  imports G9P_Segment_Props G9P_Codec_Total
begin

text \<open>
  Sealing succeeds: a request that passes validation, whose events all route to one shard, is
  built into a segment within the verifier's limits, and the file verifies.
\<close>

section \<open>Sizes of the encoded objects\<close>

lemma size_obj: "size_bound (obj props) = 11 + sum_list (map (\<lambda>(name, v). 11 + 3 * length name + size_bound v) props)"
  by (simp add: obj_def comp_def case_prod_unfold)

lemma nesting_obj: "nesting (obj props) = Max (insert 0 (set (map (\<lambda>(name, v). Suc (nesting v)) props)))"
  by (simp add: obj_def comp_def case_prod_unfold image_image)

lemma widest_obj: "widest (obj props) = Max (insert (length props) (set (map (\<lambda>(name, v). widest v) props)))"
  by (simp add: obj_def comp_def case_prod_unfold image_image)

lemma encodable_obj: "encodable (obj props) \<longleftrightarrow> (\<forall>v \<in> snd ` set props. encodable v)"
  by (auto simp: obj_def list_all_iff case_prod_unfold)

lemmas obj_measures = size_obj nesting_obj widest_obj encodable_obj

lemma policy_measures:
  "n \<le> 65536 \<Longrightarrow> encodable (routing_policy n) \<and> nesting (routing_policy n) = 1
     \<and> widest (routing_policy n) \<le> 3 \<and> size_bound (routing_policy n) \<le> 400"
  by (simp add: routing_policy_def obj_measures ROUTING_POLICY_ID_def max_safe_integer_def del: js_Cons)

lemma zstd_measures:
  "encodable ZSTD_PROFILE \<and> nesting ZSTD_PROFILE = 1 \<and> widest ZSTD_PROFILE \<le> 5 \<and> size_bound ZSTD_PROFILE \<le> 400"
  by (simp add: ZSTD_PROFILE_def obj_measures max_safe_integer_def del: js_Cons)

lemma shard_name_length: "i < 10000 \<Longrightarrow> length (shard_name i) = 10"
  using length_padded [of 4 i] by (simp add: shard_name_def)

lemma timestamp_length: "is_canonical_timestamp s \<Longrightarrow> length s \<le> 27"
  by (auto simp: is_canonical_timestamp_def canonical_time_def split_year_def tail_form_def Let_def
      split: option.splits if_splits prod.splits list.splits)

lemma header_encodes:
  assumes "validate_request X rq = Inr ()" and "rq_routingPolicy rq = routing_policy n" and "n \<le> 65536"
    and "length ledger \<le> 128" and "length shard = 10" and "fp_version profile \<le> 2"
  shows "\<exists>bs. encode_canonical DEFAULT_LIMITS (segment_header rq profile ledger shard) = Inr bs \<and> small bs"
proof -
  note f = validate_request_facts [OF assms(1)]
  have t: "length (rq_createdAt rq) \<le> 27" using f by (intro timestamp_length) simp
  note pm = policy_measures [OF assms(3)] and zm = zstd_measures
  have "encodable (segment_header rq profile ledger shard)"
    using f assms(2,6) pm zm
    by (cases "rq_routingEpoch rq"; cases "rq_previousSegmentHash rq")
      (simp_all add: segment_header_def encodable_obj hash_or_null_def max_safe_integer_def)
  moreover have "nesting (segment_header rq profile ledger shard) \<le> 64"
    using assms(2) pm zm by (cases "rq_routingEpoch rq"; cases "rq_previousSegmentHash rq")
      (simp_all add: segment_header_def nesting_obj hash_or_null_def)
  moreover have "widest (segment_header rq profile ledger shard) \<le> 1000000"
    using assms(2) pm zm by (cases "rq_routingEpoch rq"; cases "rq_previousSegmentHash rq")
      (simp_all add: segment_header_def widest_obj hash_or_null_def)
  moreover have "size_bound (segment_header rq profile ledger shard) \<le> 10000"
    using assms pm zm t f by (cases "rq_routingEpoch rq"; cases "rq_previousSegmentHash rq")
      (simp_all add: segment_header_def size_obj hash_or_null_def del: js_Cons)
  ultimately show ?thesis
    using encode_canonical_total by (force simp: small_def)
qed


lemma block_encodes:
  assumes "i \<le> 65536" and "n \<le> 10000000" and "c \<le> 10000000" and "length u \<le> 67108864" and "length d \<le> 67000000"
    and "sha256_ok X"
  shows "\<exists>bs. encode_canonical DEFAULT_LIMITS (block_value X i n c u d) = Inr bs \<and> small bs"
proof -
  have "encodable (block_value X i n c u d)" "nesting (block_value X i n c u d) \<le> 64"
    "widest (block_value X i n c u d) \<le> 1000000"
    using assms by (simp_all add: block_value_def obj_measures max_safe_integer_def del: js_Cons)
  moreover have "size_bound (block_value X i n c u d) \<le> 67108864"
    using assms by (simp add: block_value_def size_obj del: js_Cons)
  ultimately show ?thesis using encode_canonical_total by (force simp: small_def)
qed

lemma commitment_measures:
  assumes "sha256_ok X" and "i \<le> 65536" and "n \<le> 10000000" and "c \<le> 10000000"
  shows "encodable (commitment_value X dm i n c payload) \<and> nesting (commitment_value X dm i n c payload) \<le> 1
    \<and> widest (commitment_value X dm i n c payload) \<le> 4 \<and> size_bound (commitment_value X dm i n c payload) \<le> 500"
  using assms by (simp add: commitment_value_def obj_measures max_safe_integer_def)

text \<open>A signer whose key fits and whose sign operation never fails.\<close>

definition working_signer :: "platform \<Rightarrow> signer \<Rightarrow> bool" where
  "working_signer X s \<longleftrightarrow> length (publicKeyDer s) \<le> 1000000 \<and> algorithm s = js ''ed25519''
     \<and> keyId s = public_key_id X (publicKeyDer s)
     \<and> (\<forall>domain payload. \<exists>sig. sign_domain_with_signer X s domain payload = Inr sig)"

lemma key_id_length: "sha256_ok X \<Longrightarrow> length (public_key_id X der) = 64"
  by (simp add: public_key_id_def)

lemma manifest_encodes:
  assumes "sha256_ok X" and "working_signer X s" and "n \<le> 10000000" and "length blocks \<le> 65536"
    and "length root = 32" and "fp_version profile \<le> 2"
    and "list_all (\<lambda>b. encodable (eb_commitment b) \<and> nesting (eb_commitment b) \<le> 1
      \<and> widest (eb_commitment b) \<le> 4 \<and> size_bound (eb_commitment b) \<le> 500) blocks"
  shows "\<exists>bs. encode_canonical DEFAULT_LIMITS (segment_manifest X profile s h n blocks root) = Inr bs \<and> small bs"
proof -
  have w: "algorithm s = js ''ed25519''" "length (keyId s) = 64" "length (publicKeyDer s) \<le> 1000000"
    using assms(1,2) by (simp_all add: working_signer_def key_id_length)
  have "sum_list (map size_bound (map eb_commitment blocks)) \<le> sum_list (map (\<lambda>_. 500) blocks)"
    using assms(7) by (simp only: map_map) (intro sum_list_mono, simp add: list_all_iff)
  then have sum: "sum_list (map size_bound (map eb_commitment blocks)) \<le> 500 * 65536"
    using assms(4) by (simp add: sum_list_triv)
  have "encodable (segment_manifest X profile s h n blocks root)"
    using assms(3,4,6,7) by (auto simp: segment_manifest_def signer_value_def encodable_obj max_safe_integer_def
        list_all_iff simp del: js_Cons)
  moreover have "nesting (segment_manifest X profile s h n blocks root) \<le> 64"
    using assms(7) by (auto simp: segment_manifest_def signer_value_def nesting_obj list_all_iff simp del: js_Cons
        intro: order_trans [where y = 1])
  moreover have "widest (segment_manifest X profile s h n blocks root) \<le> 1000000"
    using assms(4,7) by (auto simp: segment_manifest_def signer_value_def widest_obj list_all_iff simp del: js_Cons
        intro: order_trans [where y = 4])
  moreover have "size_bound (segment_manifest X profile s h n blocks root) \<le> 67108864"
    using w sum assms(1,5) by (simp add: segment_manifest_def signer_value_def size_obj del: js_Cons)
  ultimately show ?thesis using encode_canonical_total by (force simp: small_def)
qed

lemma signature_encodes:
  assumes "sha256_ok X" and "working_signer X s" and "length sig = 64"
  shows "\<exists>bs. encode_canonical DEFAULT_LIMITS (signature_value s sig) = Inr bs \<and> small bs"
proof -
  have w: "algorithm s = js ''ed25519''" "length (keyId s) = 64"
    using assms(1,2) by (simp_all add: working_signer_def key_id_length)
  have "encodable (signature_value s sig)" "nesting (signature_value s sig) \<le> 64"
    "widest (signature_value s sig) \<le> 1000000" "size_bound (signature_value s sig) \<le> 67108864"
    using w assms(3) by (simp_all add: signature_value_def obj_measures del: js_Cons)
  then show ?thesis using encode_canonical_total by (force simp: small_def)
qed

section \<open>Every step of the build succeeds\<close>

text \<open>There is data for a block, and it leaves room in the frame for the other fields.\<close>

definition data_ready :: "platform \<Rightarrow> precompressed option \<Rightarrow> byte list \<Rightarrow> bool" where
  "data_ready X given u \<longleftrightarrow> (\<exists>d. block_data X given u = Inr d \<and> length d \<le> 67000000)"

lemma small_frame: "small payload \<Longrightarrow> frame_type_ok type \<Longrightarrow> encode_frame type payload = Inr (frame_bytes type payload)"
  by (rule encode_frame_bytes) (simp_all add: small_def)

lemma block_frame_type [simp]: "frame_type_ok ''BLK1''" "frame_type_ok ''SIG1''" "frame_type_ok ''END!''"
  "frame_type_ok ''HEAD''" "frame_type_ok ''HED2''" "frame_type_ok ''MNF1''" "frame_type_ok ''MNF2''"
  by (simp_all add: frame_type_ok_def)

lemma encode_blocks_total:
  assumes "sha256_ok X" and "i + length recs \<le> 65536" and "n + record_total recs \<le> 10000000"
    and "list_all block_fits recs"
    and "\<forall>k < length recs. data_ready X (precompressed_at pre (i + k)) (concat (map snd (recs ! k)))"
  shows "\<exists>ebs. encode_blocks X profile pre i n recs = Inr ebs
    \<and> list_all (\<lambda>b. small (eb_payload b) \<and> encodable (eb_commitment b) \<and> nesting (eb_commitment b) \<le> 1
      \<and> widest (eb_commitment b) \<le> 4 \<and> size_bound (eb_commitment b) \<le> 500) ebs"
  using assms(2-)
proof (induction recs arbitrary: i n)
  case (Cons r recs)
  let ?u = "concat (map snd r)"
  have "data_ready X (precompressed_at pre i) ?u" using Cons.prems(4) by fastforce
  then obtain d where d: "block_data X (precompressed_at pre i) ?u = Inr d" "length d \<le> 67000000"
    by (auto simp: data_ready_def)
  have fit: "length ?u \<le> 67108864" using Cons.prems by (simp add: block_fits_def)
  obtain payload where p: "encode_canonical DEFAULT_LIMITS (block_value X i n (length r) ?u d) = Inr payload" "small payload"
    using block_encodes [OF _ _ _ fit d(2) assms(1), of i n "length r"] Cons.prems by auto
  have "\<exists>b. encode_block X profile pre i n r = Inr b \<and> small (eb_payload b)
      \<and> eb_commitment b = commitment_value X (blockHashDomain profile) i n (length r) (eb_payload b)"
    using p d by (simp add: encode_block_def Let_def small_frame)
  moreover have "\<forall>k < length recs. data_ready X (precompressed_at pre (Suc i + k)) (concat (map snd (recs ! k)))"
    using Cons.prems(4) by (metis Suc_less_eq add_Suc add_Suc_right length_Cons nth_Cons_Suc)
  then obtain bs where "encode_blocks X profile pre (Suc i) (n + length r) recs = Inr bs"
    "list_all (\<lambda>b. small (eb_payload b) \<and> encodable (eb_commitment b) \<and> nesting (eb_commitment b) \<le> 1
      \<and> widest (eb_commitment b) \<le> 4 \<and> size_bound (eb_commitment b) \<le> 500) bs"
    using Cons.IH [of "Suc i" "n + length r"] Cons.prems by auto
  ultimately show ?case
    using Cons.prems commitment_measures [OF assms(1), of i n "length r"] by auto
qed simp

lemma partition_total:
  assumes "\<forall>p \<in> set ps. length (pr_bytes p) \<le> 16777216" and "1 \<le> m" and "t \<le> 33554432"
  shows "\<exists>recs. partition_records ps t m None = Inr recs \<and> list_all block_fits recs
    \<and> list_all (\<lambda>r. length (concat (map snd r)) \<le> 33554432) recs
    \<and> record_total recs = length ps \<and> length recs \<le> length ps"
proof -
  let ?fr = "map (\<lambda>p. (p, framed_record (pr_bytes p))) ps"
  let ?recs = "partition_greedy t m [] 0 ?fr"
  have "mapR frame_prepared ps = Inr ?fr"
    using assms(1) by (intro mapR_eq_map) (auto simp: frame_prepared_def frame_record_def framed_record_def)
  then have part: "partition_records ps t m None = Inr ?recs" by (simp add: partition_records_def)
  note p = partition_records_Inr [OF part]
  have size: "length (concat (map snd r)) \<le> 33554432 \<and> block_fits r" if r: "r \<in> set ?recs" for r
  proof -
    have sub: "\<forall>(q, fr) \<in> set r. fr = framed_record (pr_bytes q) \<and> length (pr_bytes q) \<le> 16777216"
    proof -
      have "set r \<subseteq> set (concat ?recs)" using r by auto
      then show ?thesis using p assms(1) by auto
    qed
    have ne: "r \<noteq> []" using r p by auto
    have "sum_list (map (length \<circ> snd) r) \<le> t \<or> length r = 1"
      using partition_greedy_bounds [OF assms(2) _ _ _ r] by simp
    then have "length (concat (map snd r)) \<le> 33554432"
    proof
      assume "sum_list (map (length \<circ> snd) r) \<le> t"
      then show ?thesis using assms(3) by (simp add: length_concat comp_def)
    next
      assume "length r = 1"
      then obtain q fr where "r = [(q, fr)]" by (auto simp: length_Suc_conv)
      then show ?thesis using sub by (simp add: framed_record_def)
    qed
    then show ?thesis using sub ne by (simp add: block_fits_def)
  qed
  have total: "record_total ?recs = length ps"
    using arg_cong [OF p [THEN conjunct1], of length] by (simp add: length_concat record_total_def)
  have "length xs \<le> record_total xs" if "[] \<notin> set xs" for xs :: "framed list list"
    using that
  proof (induction xs)
    case (Cons a xs)
    then have "1 \<le> length a" and "length xs \<le> record_total xs" by (auto simp: Suc_le_eq)
    then show ?case by simp
  qed simp
  with p have "length ?recs \<le> record_total ?recs" by blast
  then show ?thesis using part total size by (auto simp: list_all_iff)
qed

text \<open>The compressor never fails on a block, and leaves room in the frame for the block's other fields.\<close>

definition compressor_works :: "platform \<Rightarrow> bool" where
  "compressor_works X \<longleftrightarrow>
     (\<forall>u. length u \<le> 33554432 \<longrightarrow> (\<exists>d. zstd_compress X u = Some d \<and> length d \<le> 67000000))"

text \<open>
  The blocks of a request. Without explicit counts the writer cuts them itself, below a target that a
  block may reach. With counts, as the ledger seals the blocks it has completed, the counts are positive
  and cover the records, and each block is small enough; data that comes with a block is what the
  writer's checks ask for: the compressed records of that block.
\<close>

definition block_bytes :: "prepared list \<Rightarrow> byte list" where
  "block_bytes ps = concat (map (framed_record \<circ> pr_bytes) ps)"

definition block_prepared :: "platform \<Rightarrow> prepared list \<Rightarrow> precompressed \<Rightarrow> bool" where
  "block_prepared X ps b \<longleftrightarrow> pc_uncompressedLength b = length (block_bytes ps)
     \<and> pc_recordsHash b = domain_digest X ''record-block-v1'' [block_bytes ps]
     \<and> decompress_block X (pc_data b) (length (block_bytes ps)) (length (block_bytes ps)) = Inr (block_bytes ps)
     \<and> length (pc_data b) \<le> 67000000"

definition blocks_given :: "platform \<Rightarrow> segment_request \<Rightarrow> prepared list \<Rightarrow> bool" where
  "blocks_given X rq ps \<longleftrightarrow> (case rq_blockRecordCounts rq of
       None \<Rightarrow> rq_blockTargetBytes rq \<le> 33554432
     | Some counts \<Rightarrow> (\<forall>n \<in> set counts. 0 < n) \<and> sum_list counts = length ps
         \<and> (\<forall>r \<in> set (take_blocks counts ps). length (block_bytes r) \<le> 33554432)
         \<and> (case rq_precompressedBlocks rq of
              None \<Rightarrow> True | Some blocks \<Rightarrow> list_all2 (block_prepared X) (take_blocks counts ps) blocks))"

text \<open>What the ledger keeps of a completed block is such data.\<close>

lemma completed_block_is_prepared:
  assumes "zstd_ok X" and "compress_block X (block_bytes ps) = Inr d" and "length d \<le> 67000000"
    and "length (block_bytes ps) \<le> 67108864"
  shows "block_prepared X ps \<lparr>pc_data = d, pc_uncompressedLength = length (block_bytes ps),
    pc_recordsHash = domain_digest X ''record-block-v1'' [block_bytes ps]\<rparr>"
proof -
  have "zstd_compress X (block_bytes ps) = Some d" using assms(2) by (auto simp: compress_block_def failWith_def split: option.splits)
  then have "zstd_decompress X d (length (block_bytes ps)) = Some (block_bytes ps)" using assms(1) by (simp add: zstd_ok_def)
  then show ?thesis
    using assms(3,4) by (simp add: block_prepared_def decompress_block_def max_safe_integer_def)
qed

lemma take_blocks_map: "take_blocks counts (map f xs) = map (map f) (take_blocks counts xs)"
  by (induction counts xs rule: take_blocks.induct) (simp_all add: take_map drop_map)

lemma blocks_total:
  assumes "blocks_given X rq ps" and "validate_request X rq = Inr ()" and "compressor_works X"
    and "\<forall>p \<in> set ps. length (pr_bytes p) \<le> 16777216" and "ps \<noteq> []" and "length ps \<le> 65536"
  shows "\<exists>recs. partition_records ps (rq_blockTargetBytes rq) (rq_blockMaxRecords rq) (rq_blockRecordCounts rq) = Inr recs
    \<and> list_all block_fits recs \<and> record_total recs = length ps \<and> length recs \<le> length ps
    \<and> (\<forall>k < length recs. data_ready X (precompressed_at (rq_precompressedBlocks rq) k) (concat (map snd (recs ! k))))"
proof -
  note f = validate_request_facts [OF assms(2)]
  have fresh: "data_ready X None u" if "length u \<le> 33554432" for u
    using assms(3) that by (auto simp: data_ready_def block_data_def compress_block_def compressor_works_def)
  show ?thesis
  proof (cases "rq_blockRecordCounts rq")
    case None
    then have "rq_precompressedBlocks rq = None" and t: "rq_blockTargetBytes rq \<le> 33554432"
      using f assms(1) by (auto simp: blocks_given_def)
    moreover obtain recs where "partition_records ps (rq_blockTargetBytes rq) (rq_blockMaxRecords rq) None = Inr recs"
      "list_all block_fits recs" "list_all (\<lambda>r. length (concat (map snd r)) \<le> 33554432) recs"
      "record_total recs = length ps" "length recs \<le> length ps"
      using partition_total [OF assms(4) _ t] f by blast
    ultimately show ?thesis using None fresh by (auto simp: precompressed_at_def list_all_length)
  next
    case (Some counts)
    let ?fr = "\<lambda>p. (p, framed_record (pr_bytes p))"
    let ?recs = "map (map ?fr) (take_blocks counts ps)"
    have given: "\<forall>n \<in> set counts. 0 < n" "sum_list counts = length ps"
      "\<forall>r \<in> set (take_blocks counts ps). length (block_bytes r) \<le> 33554432"
      using assms(1) Some by (simp_all add: blocks_given_def)
    have "n \<le> max_safe_integer" if "n \<in> set counts" for n
      using member_le_sum_list [of n counts] that given(2) assms(6) by (simp add: max_safe_integer_def)
    moreover have "counts \<noteq> []" using given(2) assms(5) by auto
    moreover have "mapR frame_prepared ps = Inr (map ?fr ps)"
      using assms(4) by (intro mapR_eq_map) (auto simp: frame_prepared_def frame_record_def framed_record_def)
    ultimately have part: "partition_records ps (rq_blockTargetBytes rq) (rq_blockMaxRecords rq) (Some counts) = Inr ?recs"
      using given(1,2) by (simp add: partition_records_def take_blocks_map list_all_iff)
    have bytes: "concat (map snd (map ?fr r)) = block_bytes r" for r by (simp add: block_bytes_def comp_def)
    have within: "set r \<subseteq> set ps" if "r \<in> set (take_blocks counts ps)" for r
      using concat_take_blocks [OF given(2)] that by (metis UN_upper set_concat)
    have "[] \<notin> set (take_blocks counts ps)"
      using take_blocks_nonempty [of counts ps] given by (simp add: list_all_iff)
    then have fits: "list_all block_fits ?recs"
      using given(3) within assms(4) by (fastforce simp: list_all_iff block_fits_def bytes simp del: map_map)
    have "record_total ?recs = length ps"
      using arg_cong [OF concat_take_blocks [OF given(2)], of length]
      by (simp add: record_total_def length_concat comp_def)
    moreover have "length counts \<le> sum_list counts" using given(1) by (induction counts) (auto simp: Suc_le_eq)
    moreover have "data_ready X (precompressed_at (rq_precompressedBlocks rq) k) (concat (map snd (?recs ! k)))"
      if "k < length ?recs" for k
    proof -
      have k: "k < length (take_blocks counts ps)" using that by simp
      have u: "concat (map snd (?recs ! k)) = block_bytes (take_blocks counts ps ! k)"
        unfolding nth_map [OF k] by (rule bytes)
      show ?thesis
      proof (cases "rq_precompressedBlocks rq")
        case None
        then show ?thesis using fresh given(3) nth_mem [OF k] unfolding u by (simp add: precompressed_at_def)
      next
        case pre: (Some blocks)
        then have "list_all2 (block_prepared X) (take_blocks counts ps) blocks"
          using assms(1) Some by (simp add: blocks_given_def)
        then have "k < length blocks" "block_prepared X (take_blocks counts ps ! k) (blocks ! k)"
          using k by (auto simp: list_all2_conv_all_nth)
        then show ?thesis
          unfolding u by (simp add: pre precompressed_at_def data_ready_def block_data_def block_prepared_def invariant_def)
      qed
    qed
    ultimately show ?thesis
      using part fits given(2) Some by (intro exI [of _ ?recs]) simp
  qed
qed

lemma build_segment_total:
  assumes X: "sha256_ok X" "compressor_works X" "working_signer X (rq_signer rq)"
    and req: "validate_request X rq = Inr ()" and policy: "rq_routingPolicy rq = routing_policy n" "n \<le> 65536"
    and prep: "mapR (prepare_event X (rq_routingPolicy rq) (G9P_Segment_Writer.rq_maxRecordBytes rq)) (rq_events rq) = Inr ps"
    and same: "same_destination ps = Inr ()" and port: "\<forall>e \<in> set (rq_events rq). portable e"
    and size: "\<forall>p \<in> set ps. length (pr_bytes p) \<le> 16777216" "length (rq_events rq) \<le> 65536"
    and shard: "index (pr_route (hd ps)) < 10000"
    and blocks: "blocks_given X rq ps"
  shows "\<exists>p bytes. build_segment X rq = Inr p \<and> segment_file p = Inr bytes \<and> segment_fits p
    \<and> sp_records p = ps \<and> is_shard_id (sp_shard p) \<and> length (sp_blocks p) \<le> length ps"
proof -
  note f = validate_request_facts [OF req]
  have ne: "rq_events rq \<noteq> []" using f by simp
  note recf = sp_records_facts [OF prep ne port same]
  have len: "length ps \<le> 65536" using recf(1) size(2) by (metis length_map)
  let ?profile = "request_profile rq" and ?s = "rq_signer rq"
  let ?ledger = "text_prop (pr_event (hd ps)) ''ledgerId''" and ?shard = "shardId (pr_route (hd ps))"
  have hd: "hd ps \<in> set ps" using recf(2) by simp
  note pe = prepare_event_Inr [OF recf(5) [OF hd, THEN conjunct1]]
  have "length ?ledger \<le> 128"
    using pe by (auto simp: validate_event_def res_simps validate_text_Inr text_prop_def)
  moreover have sn: "?shard = shard_name (index (pr_route (hd ps)))"
    using pe route_event_Inr [of X _ _ "pr_route (hd ps)"] by blast
  moreover have prof2: "fp_version ?profile \<le> 2" using profile_cases [of rq] by auto
  ultimately obtain h where h: "encode_canonical DEFAULT_LIMITS (segment_header rq ?profile ?ledger ?shard) = Inr h" "small h"
    using header_encodes [OF req policy, of ?ledger ?shard ?profile] shard_name_length [OF shard] by auto
  have ne': "ps \<noteq> []" using recf(2) by simp
  obtain recs where recs: "partition_records ps (rq_blockTargetBytes rq) (rq_blockMaxRecords rq) (rq_blockRecordCounts rq) = Inr recs"
    "list_all block_fits recs" "record_total recs = length ps" "length recs \<le> length ps"
    "\<forall>k < length recs. data_ready X (precompressed_at (rq_precompressedBlocks rq) k) (concat (map snd (recs ! k)))"
    using blocks_total [OF blocks req X(2) size(1) ne' len] by blast
  obtain ebs where ebs: "encode_blocks X ?profile (rq_precompressedBlocks rq) 0 0 recs = Inr ebs"
    "list_all (\<lambda>b. small (eb_payload b) \<and> encodable (eb_commitment b) \<and> nesting (eb_commitment b) \<le> 1
      \<and> widest (eb_commitment b) \<le> 4 \<and> size_bound (eb_commitment b) \<le> 500) ebs"
    using encode_blocks_total [OF X(1) _ _ recs(2), of 0 0 "rq_precompressedBlocks rq" ?profile] recs(3-5) len by auto
  have unc: "map eb_uncompressed ebs = map (\<lambda>r. concat (map snd r)) recs"
    by (rule encode_blocks_uncompressed [OF ebs(1)])
  then have nblocks: "length ebs = length recs" by (metis length_map)
  have "list_all (\<lambda>h. length h = 32) (map pr_hash ps)"
  proof -
    have "length (pr_hash q) = 32" if "q \<in> set ps" for q
      using prepare_event_Inr [OF recf(5) [OF that, THEN conjunct1]] X(1) by (simp add: event_hash_def)
    then show ?thesis by (simp add: list_all_iff)
  qed
  then obtain root where root: "merkle_root X (map pr_hash ps) = Inr root"
    using recf(2) by (simp add: merkle_root_def)
  obtain m where m: "encode_canonical DEFAULT_LIMITS (segment_manifest X ?profile ?s h (length ps) ebs root) = Inr m" "small m"
    using manifest_encodes [OF X(1,3) _ _ merkle_root_length [OF X(1) root] prof2, of "length ps" ebs h]
      ebs(2) len recs(4) nblocks by (auto simp: list_all_iff)
  obtain sig where sig: "sign_domain_with_signer X ?s (signatureDomain ?profile) m = Inr sig"
    using X(3) by (auto simp: working_signer_def)
  then have "length sig = 64" using sign_domain_with_signer_verifies by blast
  then obtain s where s: "encode_canonical DEFAULT_LIMITS (signature_value ?s sig) = Inr s" "small s"
    using signature_encodes [OF X(1,3)] by blast
  let ?p = "\<lparr>sp_profile = ?profile, sp_ledger = ?ledger, sp_shard = ?shard, sp_records = ps,
         sp_header = h, sp_blocks = ebs, sp_root = root, sp_manifest = m, sp_signature = s\<rparr>"
  have "build_segment X rq = Inr ?p"
    unfolding build_segment_def Let_def
    by (simp only: req andThen_simps bindR_simps prep same h(1) recs(1) ebs(1) root m(1) sig s(1))
  moreover have "\<exists>bytes. segment_file ?p = Inr bytes"
    using h(2) m(2) s(2) profile_cases [of rq]
    by (auto simp: segment_file_def small_frame small_def [of "[]"] profile_v1_def profile_v2_def)
  moreover have "list_all (\<lambda>b. length (eb_uncompressed b) \<le> 67108864) ebs"
  proof -
    have "\<forall>u \<in> set (map (\<lambda>r. concat (map snd r)) recs). length u \<le> 67108864"
      using recs(2) by (auto simp: list_all_iff block_fits_def)
    then show ?thesis unfolding unc [symmetric] by (simp add: list_all_iff)
  qed
  then have "segment_fits ?p"
    using h(2) m(2) s(2) ebs(2) len nblocks recs(4) size(1)
    by (simp add: segment_fits_def list_all_iff)
  moreover have "is_shard_id ?shard" using sn shard by (simp add: is_shard_id_shard_name)
  moreover have "length ebs \<le> length ps" using nblocks recs(4) by simp
  ultimately show ?thesis by auto
qed

lemma segment_file_length:
  assumes "build_segment X rq = Inr p" and "segment_file p = Inr bytes" and "segment_fits p"
  shows "length bytes \<le> 16 + (3 + length (sp_blocks p)) * 67108872"
proof -
  have frame: "length frame \<le> 67108872" if "encode_frame type payload = Inr frame" "small payload" for type payload frame
    using encode_frame_Inr [OF that(1)] that(2) by (auto simp: small_def frame_type_ok_def)
  from build_segment_Inr [OF assms(1)] obtain recs where
    "encode_blocks X (sp_profile p) (rq_precompressedBlocks rq) 0 0 recs = Inr (sp_blocks p)"
    and prof: "sp_profile p = request_profile rq" by blast
  then have "list_all (\<lambda>b. encode_frame ''BLK1'' (eb_payload b) = Inr (eb_frame b) \<and> small (eb_payload b)) (sp_blocks p)"
    using encode_blocks_frames assms(3) by (fastforce simp: segment_fits_def list_all_iff)
  then have "\<forall>b \<in> set (sp_blocks p). length (eb_frame b) \<le> 67108872"
    using frame by (auto simp: list_all_iff)
  then have "sum_list (map (length \<circ> eb_frame) (sp_blocks p)) \<le> sum_list (map (\<lambda>_. 67108872) (sp_blocks p))"
    by (intro sum_list_mono) simp
  then have blocks: "length (concat (map eb_frame (sp_blocks p))) \<le> length (sp_blocks p) * 67108872"
    by (simp add: length_concat sum_list_triv)
  from assms(2) obtain h m s e where frames: "encode_frame (headerFrame (sp_profile p)) (sp_header p) = Inr h"
    "encode_frame (manifestFrame (sp_profile p)) (sp_manifest p) = Inr m"
    "encode_frame ''SIG1'' (sp_signature p) = Inr s" "encode_frame ''END!'' [] = Inr e"
    and bytes: "bytes = fp_magic (sp_profile p) @ h @ concat (map eb_frame (sp_blocks p)) @ m @ s @ e"
    by (auto simp: segment_file_def res_simps)
  have "length e = 8" using encode_frame_Inr [OF frames(4)] by simp
  moreover have "length (fp_magic (sp_profile p)) = 8"
    using prof profile_cases [of rq] by (auto simp: G9P_MAGIC_V1_def G9P_MAGIC_V2_def)
  moreover have "length h \<le> 67108872" "length m \<le> 67108872" "length s \<le> 67108872"
    using frame [OF frames(1)] frame [OF frames(2)] frame [OF frames(3)] assms(3) by (simp_all add: segment_fits_def)
  ultimately show ?thesis using blocks unfolding bytes by (simp add: algebra_simps)
qed

lemma written_segment_verified:
  assumes "sha256_ok X" and "zstd_ok X"
    and "build_segment X rq = Inr p" and "write_segment X rq = Inr (bytes, result)"
    and "rq_routingPolicy rq = routing_policy n" and "1 \<le> n" and "n \<le> 65536"
    and "\<forall>e \<in> set (rq_events rq). portable e" and "is_shard_id (sp_shard p)"
    and "segment_fits p" and "length bytes \<le> 536870912" and "options_match rq p opts"
  shows "\<exists>v. verify_segment_bytes X opts bytes = Inr v
    \<and> vs_events v = map canon (rq_events rq)
    \<and> vs_formatVersion v = sr_formatVersion result
    \<and> vs_ledgerId v = sr_ledgerId result \<and> vs_shardId v = sr_shardId result
    \<and> vs_segmentNumber v = sr_segmentNumber result
    \<and> vs_logicalRoot v = sr_logicalRoot result \<and> vs_segmentHash v = sr_segmentHash result
    \<and> vs_signerKeyId v = sr_signerKeyId result \<and> vs_recordCount v = sr_recordCount result
    \<and> bytes_of (get_prop (get_prop (vs_manifest v) ''signer'') ''publicKey'') = publicKeyDer (rq_signer rq)"
proof -
  have seg: "segment_file p = Inr bytes" and result: "sr_formatVersion result = fp_version (sp_profile p)"
    "sr_ledgerId result = sp_ledger p" "sr_shardId result = sp_shard p" "sr_segmentNumber result = rq_segmentNumber rq"
    "sr_logicalRoot result = to_hex (sp_root p)" "sr_segmentHash result = to_hex (segment_hash X (sp_profile p) bytes)"
    "sr_signerKeyId result = keyId (rq_signer rq)" "sr_recordCount result = length (sp_records p)"
    using assms(3,4) by (auto simp: write_segment_def res_simps)
  note w = written_frames_verify [OF assms(1-3,5-10,12)]
  from build_segment_Inr [OF assms(3)] obtain recs where prof: "sp_profile p = request_profile rq"
    and blocks: "encode_blocks X (sp_profile p) (rq_precompressedBlocks rq) 0 0 recs = Inr (sp_blocks p)"
 by blast
  have bf: "list_all (\<lambda>b. encode_frame ''BLK1'' (eb_payload b) = Inr (eb_frame b) \<and> small (eb_payload b)) (sp_blocks p)"
    using encode_blocks_frames [OF blocks] assms(10) by (simp add: segment_fits_def list_all_iff)
  have prof2: "sp_profile p = profile_v1 \<or> sp_profile p = profile_v2" using prof profile_cases by simp
  note r = read_written_frames [OF seg prof2 bf w(1)]
  have L: "vo_limits opts = VERIFY_LIMITS" using assms(12) by (simp add: options_match_def)
  note hp = header_prop [OF w(2)] and mp = manifest_prop(4) [OF w(3)]
  have "portable (signer_value (rq_signer rq))"
    using portable_get_prop [OF w(3), of "''signer''"] by (simp add: segment_manifest_def)
  then have key: "get_prop (get_prop (canon (segment_manifest X (sp_profile p) (rq_signer rq) (sp_header p)
      (length (sp_records p)) (sp_blocks p) (sp_root p))) ''signer'') ''publicKey'' = JBytes (publicKeyDer (rq_signer rq))"
    unfolding manifest_prop(8) [OF w(3)] by (rule signer_prop(3))
  show ?thesis
    using r w(4) [of bytes] assms(10,11) L result hp(3,4,5) mp
    by (simp add: verify_segment_bytes_def segment_fits_def vs_ledgerId_def vs_shardId_def
        vs_segmentNumber_def vs_recordCount_def text_prop_def int_of_def bytes_of_def key)
qed

section \<open>Properties\<close>

text \<open>
  C5: What \<open>writeSegment\<close> builds, \<open>verifySegmentBytes\<close> accepts: for every request that is built into
  a segment within the verifier's default limits, whose events have portable text and whose shard
  has a four-digit name, verification succeeds under any expectations that agree with the request
  and returns the events that were written, in order, with the logical root, the segment hash
  and the signer the writer reported.
\<close>

theorem written_segment_verifies:
  assumes "sha256_ok X" and "zstd_ok X"
    and "build_segment X rq = Inr p" and "write_segment X rq = Inr (bytes, result)"
    and "rq_routingPolicy rq = routing_policy n" and "1 \<le> n" and "n \<le> 65536"
    and "\<forall>e \<in> set (rq_events rq). portable e" and "is_shard_id (sp_shard p)"
    and "segment_fits p" and "length bytes \<le> 536870912" and "options_match rq p opts"
  shows "\<exists>v. verify_segment_bytes X opts bytes = Inr v
    \<and> vs_events v = map canon (rq_events rq)
    \<and> vs_formatVersion v = sr_formatVersion result
    \<and> vs_ledgerId v = sr_ledgerId result \<and> vs_shardId v = sr_shardId result
    \<and> vs_segmentNumber v = sr_segmentNumber result
    \<and> vs_logicalRoot v = sr_logicalRoot result \<and> vs_segmentHash v = sr_segmentHash result
    \<and> vs_signerKeyId v = sr_signerKeyId result \<and> vs_recordCount v = sr_recordCount result"
  using written_segment_verified [OF assms] by blast

text \<open>
  C27: Sealing succeeds. A request that passes validation is built and written by a working signer and
  compressor, and the outcome is within the limits of the verifier, if its events (at most 65,536) are
  prepared without error under the standard routing policy (at most 65,536 shards), have portable texts (none
  starts with U+FEFF), belong to one ledger and to one shard below the ten thousandth, and take at most 16 MiB
  each, and if its blocks take at most 32 MiB each: the block target does, or there are explicit record
  counts, positive and covering all records, whose blocks do, and any data that comes with such a block is
  the compressed form of its records. The last is how the ledger seals: with the blocks it has completed.
\<close>

theorem sealing_succeeds:
  assumes "sha256_ok X" and "compressor_works X" and "working_signer X (rq_signer rq)"
    and "validate_request X rq = Inr ()" and "rq_routingPolicy rq = routing_policy n" and "n \<le> 65536"
    and "mapR (prepare_event X (rq_routingPolicy rq) (rq_maxRecordBytes rq)) (rq_events rq) = Inr ps"
    and "same_destination ps = Inr ()" and "\<forall>e \<in> set (rq_events rq). portable e"
    and "\<forall>p \<in> set ps. length (pr_bytes p) \<le> 16777216" and "length (rq_events rq) \<le> 65536"
    and "index (pr_route (hd ps)) < 10000" and "blocks_given X rq ps"
  shows "\<exists>p bytes result. build_segment X rq = Inr p \<and> write_segment X rq = Inr (bytes, result)
    \<and> segment_fits p \<and> is_shard_id (sp_shard p)"
  using build_segment_total [OF assms(1-5,6,7-13)] by (auto simp: write_segment_def)

section \<open>A concrete segment\<close>

definition sample_signer :: signer where
  "sample_signer = \<lparr>algorithm = js ''ed25519'', keyId = public_key_id toy_platform (replicate 44 1), publicKeyDer = replicate 44 1,
     sign_operation = None, privateKey = Some [2]\<rparr>"

definition sample_request :: segment_request where
  "sample_request = \<lparr>rq_events = [sample_event ''e1'', sample_event ''e2''], rq_routingPolicy = routing_policy 1,
     rq_segmentNumber = 0, rq_previousSegmentHash = None, rq_routingEpoch = None, rq_signer = sample_signer,
     rq_createdAt = js ''2026-01-02T03:04:05.006Z'', rq_blockTargetBytes = DEFAULT_BLOCK_TARGET,
     rq_blockMaxRecords = 9007199254740991, rq_blockRecordCounts = None, rq_precompressedBlocks = None,
     rq_maxRecordBytes = DEFAULT_MAX_RECORD\<rparr>"

lemma sample_signer_works: "working_signer toy_platform sample_signer"
proof -
  have "validate_signer toy_platform sample_signer ''SIGNER_IDENTITY'' = Inr ()"
    by (simp add: validate_signer_def sample_signer_def can_sign_def del: js_Cons) (simp add: toy_platform_def)
  then show ?thesis
    using length_domain_digest [OF toy_sha256_ok]
    by (simp add: working_signer_def sign_domain_with_signer_def Let_def del: js_Cons)
       (simp add: sample_signer_def sign_message_def toy_platform_def del: js_Cons)
qed

lemma sample_request_valid: "validate_request toy_platform sample_request = Inr ()"
  using sample_times by (simp add: validate_request_def sample_request_def sample_signer_def can_sign_def
      DEFAULT_BLOCK_TARGET_def DEFAULT_MAX_RECORD_def max_safe_integer_def del: js_Cons)

lemma sample_request_prepared:
  "\<exists>p q. mapR (prepare_event toy_platform (routing_policy 1) DEFAULT_MAX_RECORD) (rq_events sample_request) = Inr [p, q]
    \<and> same_destination [p, q] = Inr () \<and> length (pr_bytes p) < 1000 \<and> length (pr_bytes q) < 1000
    \<and> index (pr_route p) < 10000"
proof -
  have route: "\<exists>r. route_event toy_platform (sample_event n) (routing_policy 1) = Inr r" for n
    by (simp add: route_event_def positive_safe_integer_def sample_props is_text_def Let_def)
  have one: "\<exists>p. prepare_event toy_platform (routing_policy 1) DEFAULT_MAX_RECORD (sample_event n) = Inr p \<and> length (pr_bytes p) < 1000"
    if n: "n = ''e1'' \<or> n = ''e2''" for n
  proof -
    obtain bs where "canonical_event_bytes toy_platform (sample_event n) = Inr bs" "length bs < 1000"
      by (rule sample_event_bytes [OF n])
    with sample_event_valid [OF n] route [of n] show ?thesis
      by (auto simp: prepare_event_def DEFAULT_MAX_RECORD_def)
  qed
  from one [of "''e1''"] obtain p where
    p: "prepare_event toy_platform (routing_policy 1) DEFAULT_MAX_RECORD (sample_event ''e1'') = Inr p"
      "length (pr_bytes p) < 1000" by auto
  from one [of "''e2''"] obtain q where
    q: "prepare_event toy_platform (routing_policy 1) DEFAULT_MAX_RECORD (sample_event ''e2'') = Inr q"
      "length (pr_bytes q) < 1000" by auto
  note pp = prepare_event_Inr [OF p(1)] and qq = prepare_event_Inr [OF q(1)]
  have "pr_route q = pr_route p"
    using pp qq
      route_event_determined [of "sample_event ''e2''" "sample_event ''e1''" toy_platform "routing_policy 1" "pr_route q" "pr_route p"]
    by (simp add: text_prop_def sample_props)
  moreover have "index (pr_route p) < 10000"
    using pp route_event_Inr [of toy_platform "sample_event ''e1''" "routing_policy 1" "pr_route p"] by auto
  ultimately show ?thesis
    using p q pp qq by (simp add: sample_request_def same_destination_def text_prop_def sample_props)
qed

lemma toy_compressor_works: "compressor_works toy_platform"
  by (simp add: compressor_works_def toy_platform_def)

lemma sample_segment:
  obtains p bytes where "build_segment toy_platform sample_request = Inr p" and "segment_file p = Inr bytes"
    and "segment_fits p" and "is_shard_id (sp_shard p)" and "length bytes \<le> 536870912"
proof -
  have rq: "rq_signer sample_request = sample_signer" "rq_routingPolicy sample_request = routing_policy 1"
    "rq_maxRecordBytes sample_request = DEFAULT_MAX_RECORD"
    "length (rq_events sample_request) = 2" "rq_blockRecordCounts sample_request = None"
    "rq_blockTargetBytes sample_request = 1048576"
    by (simp_all add: sample_request_def DEFAULT_BLOCK_TARGET_def)
  have port: "\<forall>e \<in> set (rq_events sample_request). portable e"
    by (simp add: sample_request_def sample_event_portable)
  from sample_request_prepared obtain q r where
    ps: "mapR (prepare_event toy_platform (routing_policy 1) DEFAULT_MAX_RECORD) (rq_events sample_request) = Inr [q, r]"
    "same_destination [q, r] = Inr ()" "length (pr_bytes q) < 1000" "length (pr_bytes r) < 1000"
    "index (pr_route q) < 10000" by blast
  have signer: "working_signer toy_platform (rq_signer sample_request)" by (simp add: rq sample_signer_works)
  have "\<exists>p bytes. build_segment toy_platform sample_request = Inr p \<and> segment_file p = Inr bytes \<and> segment_fits p
      \<and> sp_records p = [q, r] \<and> is_shard_id (sp_shard p) \<and> length (sp_blocks p) \<le> length [q, r]"
    by (rule build_segment_total [OF toy_sha256_ok toy_compressor_works signer sample_request_valid rq(2) _ _ ps(2) port])
      (use ps in \<open>simp_all add: rq blocks_given_def\<close>)
  then obtain p bytes where p: "build_segment toy_platform sample_request = Inr p" "segment_file p = Inr bytes"
    "segment_fits p" "is_shard_id (sp_shard p)" and blocks: "length (sp_blocks p) \<le> 2" by auto
  have "length bytes \<le> 16 + (3 + length (sp_blocks p)) * 67108872"
    by (rule segment_file_length [OF p(1-3)])
  moreover have "(3 + length (sp_blocks p)) * 67108872 \<le> 5 * 67108872"
    by (rule mult_le_mono1) (use blocks in simp)
  ultimately have "length bytes \<le> 536870912" by simp
  with p show thesis by (rule that)
qed

lemma written_segment_verifies_witness:
  "\<exists>bytes result v. write_segment toy_platform sample_request = Inr (bytes, result)
    \<and> verify_segment_bytes toy_platform default_options bytes = Inr v
    \<and> vs_events v = map canon (rq_events sample_request)"
proof -
  obtain p bytes where p: "build_segment toy_platform sample_request = Inr p" "segment_file p = Inr bytes"
    "segment_fits p" "is_shard_id (sp_shard p)" "length bytes \<le> 536870912" by (rule sample_segment)
  then obtain result where w: "write_segment toy_platform sample_request = Inr (bytes, result)"
    by (auto simp: write_segment_def)
  have policy: "rq_routingPolicy sample_request = routing_policy 1" by (simp add: sample_request_def)
  have port: "\<forall>e \<in> set (rq_events sample_request). portable e"
    by (simp add: sample_request_def sample_event_portable)
  have opts: "options_match sample_request p default_options" by (simp add: options_match_def default_options_def)
  from written_segment_verifies [OF toy_sha256_ok toy_zstd_ok p(1) w policy _ _ port p(4,3,5) opts] w
  show ?thesis by auto
qed

text \<open>The sample events, sealed with one completed block for each, as the ledger would.\<close>

lemma sealing_succeeds_witness:
  "\<exists>blocks p bytes result. length blocks = 2
    \<and> build_segment toy_platform (sample_request\<lparr>rq_blockRecordCounts := Some [1, 1], rq_precompressedBlocks := Some blocks\<rparr>) = Inr p
    \<and> write_segment toy_platform (sample_request\<lparr>rq_blockRecordCounts := Some [1, 1], rq_precompressedBlocks := Some blocks\<rparr>)
        = Inr (bytes, result)
    \<and> segment_fits p \<and> is_shard_id (sp_shard p)"
proof -
  from sample_request_prepared obtain p q where prep:
    "mapR (prepare_event toy_platform (routing_policy 1) DEFAULT_MAX_RECORD) (rq_events sample_request) = Inr [p, q]"
    "same_destination [p, q] = Inr ()" "length (pr_bytes p) < 1000" "length (pr_bytes q) < 1000"
    "index (pr_route p) < 10000" by blast
  have block: "\<exists>d. block_prepared toy_platform [r] \<lparr>pc_data = d, pc_uncompressedLength = length (block_bytes [r]),
      pc_recordsHash = domain_digest toy_platform ''record-block-v1'' [block_bytes [r]]\<rparr>"
    and small: "length (block_bytes [r]) \<le> 33554432" if "length (pr_bytes r) < 1000" for r
  proof -
    show len: "length (block_bytes [r]) \<le> 33554432" using that by (simp add: block_bytes_def framed_record_def)
    then obtain d where d: "compress_block toy_platform (block_bytes [r]) = Inr d" "length d \<le> 67000000"
      using toy_compressor_works by (auto simp: compressor_works_def compress_block_def)
    have "length (block_bytes [r]) \<le> 67108864" using len by simp
    from completed_block_is_prepared [OF toy_zstd_ok d this]
    show "\<exists>d. block_prepared toy_platform [r] \<lparr>pc_data = d, pc_uncompressedLength = length (block_bytes [r]),
        pc_recordsHash = domain_digest toy_platform ''record-block-v1'' [block_bytes [r]]\<rparr>" by blast
  qed
  obtain b c where b: "block_prepared toy_platform [p] b" and c: "block_prepared toy_platform [q] c"
    using block prep(3,4) by blast
  let ?rq = "sample_request\<lparr>rq_blockRecordCounts := Some [1, 1], rq_precompressedBlocks := Some [b, c]\<rparr>"
  have rq: "rq_signer ?rq = sample_signer" "rq_routingPolicy ?rq = routing_policy 1" "rq_maxRecordBytes ?rq = DEFAULT_MAX_RECORD"
    "length (rq_events ?rq) = 2" "rq_events ?rq = rq_events sample_request"
    by (simp_all add: sample_request_def)
  have port: "\<forall>e \<in> set (rq_events ?rq). portable e"
    by (simp add: sample_request_def sample_event_portable)
  have valid: "validate_request toy_platform ?rq = Inr ()"
    using sample_request_valid by (simp add: validate_request_def sample_request_def)
  have given: "blocks_given toy_platform ?rq [p, q]"
    using b c small prep(3,4) by (simp add: blocks_given_def)
  have prep': "mapR (prepare_event toy_platform (rq_routingPolicy ?rq) (rq_maxRecordBytes ?rq)) (rq_events ?rq) = Inr [p, q]"
    by (simp only: rq(2,3,5) prep(1))
  have signer: "working_signer toy_platform (rq_signer ?rq)" by (simp only: rq(1) sample_signer_works)
  have "\<exists>s bytes result. build_segment toy_platform ?rq = Inr s \<and> write_segment toy_platform ?rq = Inr (bytes, result)
      \<and> segment_fits s \<and> is_shard_id (sp_shard s)"
    by (rule sealing_succeeds [OF toy_sha256_ok toy_compressor_works signer valid rq(2) _ prep' prep(2) port _ _ _ given])
      (use prep(3-5) rq(4) in simp_all)
  then show ?thesis by (intro exI [of _ "[b, c]"]) simp
qed

end
