(* ===== verification/G9P_Statement.thy ===== *)
theory G9P_Statement
  imports G9P_Segment_Props G9P_Codec_Total
begin

text \<open>
  Signed statements: the one-frame container that routing epochs, checkpoints and witness
  receipts share (the \<open>container\<close> and \<open>parse\<close> functions of src/src/checkpoint.js, and the same
  steps written out in src/src/routing-epoch.js), the shard heads that epochs and checkpoints
  list, and the interface of a statement that can be written and read back.
\<close>

section \<open>The container\<close>

definition statement_file :: "string \<Rightarrow> byte list \<Rightarrow> byte list \<Rightarrow> byte list res" where
  "statement_file type payload signaturePayload =
     bindR (encode_frame type payload) (\<lambda>statementFrame.
     bindR (encode_frame ''SIG1'' signaturePayload) (\<lambda>signatureFrame.
     bindR (encode_frame ''END!'' []) (\<lambda>endFrame.
     Inr (G9P_MAGIC_V2 @ statementFrame @ signatureFrame @ endFrame))))"

definition container :: "platform \<Rightarrow> string \<Rightarrow> byte list \<Rightarrow> signer \<Rightarrow> string \<Rightarrow> byte list res" where
  "container X frameType payload s domain =
     bindR (sign_domain_with_signer X s domain payload) (\<lambda>signature.
     bindR (encode_canonical DEFAULT_LIMITS (signature_value s signature)) (\<lambda>signaturePayload.
     statement_file frameType payload signaturePayload))"

text \<open>The frames of a statement file; the error code of a non-empty end frame is the caller's.\<close>

definition read_statement :: "nat \<Rightarrow> string \<Rightarrow> string \<Rightarrow> byte list \<Rightarrow> (byte list \<times> byte list) res" where
  "read_statement maxFrame frameType endCode bytes =
     bindR (read_magic G9P_MAGIC_V2 bytes) (\<lambda>bs0.
     bindR (read_frame maxFrame frameType bs0) (\<lambda>(statement, bs1).
     bindR (read_frame maxFrame ''SIG1'' bs1) (\<lambda>(signed, bs2).
     bindR (read_frame maxFrame ''END!'' bs2) (\<lambda>(endPayload, bs3).
     andThen (invariant (endPayload = []) endCode)
     (andThen (assert_end bs3) (Inr (statement, signed)))))))"

lemma statement_file_Inr:
  "statement_file type payload sp = Inr file \<Longrightarrow>
   \<exists>a b c. encode_frame type payload = Inr a \<and> encode_frame ''SIG1'' sp = Inr b
     \<and> encode_frame ''END!'' [] = Inr c \<and> file = G9P_MAGIC_V2 @ a @ b @ c
     \<and> length payload \<le> length file \<and> length sp \<le> length file"
proof -
  assume "statement_file type payload sp = Inr file"
  then obtain a b c where f: "encode_frame type payload = Inr a" "encode_frame ''SIG1'' sp = Inr b"
    "encode_frame ''END!'' [] = Inr c" "file = G9P_MAGIC_V2 @ a @ b @ c"
    by (auto simp: statement_file_def res_simps)
  with encode_frame_Inr [OF f(1)] encode_frame_Inr [OF f(2)] show ?thesis by auto
qed

lemma read_statement_file:
  assumes "statement_file type payload sp = Inr file" and "length payload \<le> M" and "length sp \<le> M"
  shows "read_statement M type code file = Inr (payload, sp)"
proof -
  from statement_file_Inr [OF assms(1)] obtain a b c where
    f: "encode_frame type payload = Inr a" "encode_frame ''SIG1'' sp = Inr b" "encode_frame ''END!'' [] = Inr c"
    and whole: "file = G9P_MAGIC_V2 @ a @ b @ c" by blast
  have "read_frame M ''END!'' c = Inr ([], [])"
    using read_encode_frame [OF f(3), of M "[]"] by simp
  then show ?thesis
    by (simp add: read_statement_def whole read_magic_def read_encode_frame [OF f(1) assms(2)]
        read_encode_frame [OF f(2) assms(3)] assert_end_def)
qed

lemma signer_key_hex:
  assumes "validate_signer X s code = Inr ()" and "sha256_ok X"
  shows "algorithm s = js ''ed25519''" and "keyId s = public_key_id X (publicKeyDer s)"
    and "length (keyId s) = 64" and "is_hex64 (keyId s)" and "portable_text (keyId s)"
    and "import_key X (publicKeyDer s) \<noteq> None"
  using validate_signer_facts [OF assms(1)] assms(2)
  by (simp_all add: public_key_id_def is_hex64_to_hex to_hex_portable del: js_Cons)

lemma signature_value_payload:
  assumes "validate_signer X s code = Inr ()" and "sha256_ok X" and "length sig = 64"
    and "encode_canonical DEFAULT_LIMITS (signature_value s sig) = Inr sp"
  shows "portable (signature_value s sig) \<and> length sp \<le> 67108864
    \<and> decode_canonical DEFAULT_LIMITS sp = Inr (canon (signature_value s sig))"
proof -
  note k = signer_key_hex [OF assms(1,2)]
  have port: "portable (signature_value s sig)"
    using k by (simp add: signature_value_def del: js_Cons)
  have "\<exists>bs. encode_canonical DEFAULT_LIMITS (signature_value s sig) = Inr bs \<and> length bs \<le> size_bound (signature_value s sig)"
    by (rule encode_canonical_total)
      (simp_all add: signature_value_def obj_def k(1,3) assms(3) max_safe_integer_def del: js_Cons)
  moreover have "size_bound (signature_value s sig) \<le> 67108864"
    by (simp add: signature_value_def obj_def k(1,3) assms(3) del: js_Cons)
  ultimately have "length sp \<le> 67108864" using assms(4) by auto
  with port assms(4) show ?thesis by (auto intro: decode_canonical_encode)
qed

lemma container_reads:
  assumes "container X type payload s domain = Inr file" and "sha256_ok X" and "length payload \<le> M" and "67108864 \<le> M"
  obtains sig sp where "read_statement M type code file = Inr (payload, sp)"
    and "decode_canonical DEFAULT_LIMITS sp = Inr (canon (signature_value s sig))"
    and "portable (signature_value s sig)" and "length sig = 64"
    and "verify_domain_commitment X (publicKeyDer s) domain payload sig"
    and "validate_signer X s ''SIGNER_IDENTITY'' = Inr ()"
proof -
  from assms(1) obtain sig sp where sig: "sign_domain_with_signer X s domain payload = Inr sig"
    and sp: "encode_canonical DEFAULT_LIMITS (signature_value s sig) = Inr sp"
    and whole: "statement_file type payload sp = Inr file"
    by (auto simp: container_def res_simps)
  note v = sign_domain_with_signer_verifies [OF sig]
  then have "portable (signature_value s sig) \<and> length sp \<le> 67108864
    \<and> decode_canonical DEFAULT_LIMITS sp = Inr (canon (signature_value s sig))"
    using assms(2) sp by (intro signature_value_payload) auto
  moreover from this have "read_statement M type code file = Inr (payload, sp)"
    using whole assms(3,4) by (intro read_statement_file) auto
  ultimately show ?thesis using v by (intro that) auto
qed

lemma container_length: "container X type payload s domain = Inr file \<Longrightarrow> length payload \<le> length file"
  by (auto simp: container_def res_simps dest: statement_file_Inr)

section \<open>Identities and shard heads\<close>

record identity =
  id_keyId :: jsstr
  id_publicKey :: "byte list"

definition identity_value :: "identity \<Rightarrow> jsval" where
  "identity_value i = obj
     [(''algorithm'', JStr (js ''ed25519'')), (''keyId'', JStr (id_keyId i)), (''publicKey'', JBytes (id_publicKey i))]"

definition identity_of :: "jsval \<Rightarrow> identity" where
  "identity_of v = \<lparr>id_keyId = text_prop v ''keyId'', id_publicKey = bytes_of (get_prop v ''publicKey'')\<rparr>"

definition identity_ok :: "identity \<Rightarrow> bool" where
  "identity_ok i \<longleftrightarrow> is_hex64 (id_keyId i) \<and> length (id_publicKey i) = 44"

text \<open>A head names the last sealed segment of a shard, or states that the shard is empty.\<close>

record shard_head =
  head_epoch :: nat
  head_shard :: jsstr
  head_sealed :: "(nat \<times> byte list) option"

definition head_value :: "shard_head \<Rightarrow> jsval" where
  "head_value h = obj
     [(''epochNumber'', JInt (int (head_epoch h))),
      (''shardId'', JStr (head_shard h)),
      (''segmentNumber'', (case head_sealed h of None \<Rightarrow> JNull | Some (n, _) \<Rightarrow> JInt (int n))),
      (''segmentHash'', (case head_sealed h of None \<Rightarrow> JNull | Some (_, digest) \<Rightarrow> JBytes digest))]"

definition head_empty :: "jsval \<Rightarrow> bool" where
  "head_empty v \<longleftrightarrow> get_prop v ''segmentNumber'' = JNull \<and> get_prop v ''segmentHash'' = JNull"

definition head_full :: "jsval \<Rightarrow> bool" where
  "head_full v \<longleftrightarrow> int_in 0 MAX_SAFE (get_prop v ''segmentNumber'') \<and> is_bytes 32 (get_prop v ''segmentHash'')"

definition head_of :: "jsval \<Rightarrow> shard_head" where
  "head_of v = \<lparr>head_epoch = nat (int_of (get_prop v ''epochNumber'')), head_shard = text_prop v ''shardId'',
     head_sealed = (if get_prop v ''segmentHash'' = JNull then None
       else Some (nat (int_of (get_prop v ''segmentNumber'')), bytes_of (get_prop v ''segmentHash'')))\<rparr>"

definition HEAD_FIELDS :: "string list" where
  "HEAD_FIELDS = [''epochNumber'', ''shardId'', ''segmentNumber'', ''segmentHash'']"

definition head_ok :: "nat \<Rightarrow> nat \<Rightarrow> shard_head \<Rightarrow> bool" where
  "head_ok e i h \<longleftrightarrow> head_epoch h = e \<and> head_shard h = shard_name i
     \<and> (case head_sealed h of None \<Rightarrow> True | Some (n, digest) \<Rightarrow> n \<le> max_safe_integer \<and> length digest = 32)"

definition heads_ok :: "nat \<Rightarrow> shard_head list \<Rightarrow> bool" where
  "heads_ok e hs \<longleftrightarrow> (\<forall>i < length hs. head_ok e i (hs ! i))"

lemma head_value_props:
  assumes "head_ok e i h" and "e \<le> max_safe_integer"
  shows "portable (head_value h)"
    and "is_object (canon (head_value h))" and "exact_keys (canon (head_value h)) HEAD_FIELDS"
    and "get_prop (canon (head_value h)) ''epochNumber'' = JInt (int e)"
    and "get_prop (canon (head_value h)) ''shardId'' = JStr (shard_name i)"
    and "head_empty (canon (head_value h)) \<or> head_full (canon (head_value h))"
    and "head_of (canon (head_value h)) = h"
proof -
  show port: "portable (head_value h)"
    using assms by (auto simp: head_value_def head_ok_def shard_name_portable split: option.splits)
  show "is_object (canon (head_value h))" by (simp add: head_value_def)
  show "exact_keys (canon (head_value h)) HEAD_FIELDS"
    using port unfolding head_value_def HEAD_FIELDS_def by (rule canon_obj_keys) simp_all
  note p = canon_obj_prop [OF port [unfolded head_value_def], folded head_value_def]
  show "get_prop (canon (head_value h)) ''epochNumber'' = JInt (int e)"
    and "get_prop (canon (head_value h)) ''shardId'' = JStr (shard_name i)"
    using assms by (simp_all add: p head_ok_def)
  show "head_empty (canon (head_value h)) \<or> head_full (canon (head_value h))"
    using assms by (cases "head_sealed h")
      (auto simp: p head_ok_def head_empty_def head_full_def int_in_def is_bytes_def MAX_SAFE_def)
  show "head_of (canon (head_value h)) = h"
    using assms by (intro shard_head.equality; cases "head_sealed h")
      (auto simp: p head_ok_def head_of_def int_of_def bytes_of_def text_prop_def)
qed

lemma identity_value_props:
  assumes "identity_ok i" and "portable_text (id_keyId i)"
  shows "portable (identity_value i)"
    and "is_object (canon (identity_value i))"
    and "exact_keys (canon (identity_value i)) [''algorithm'', ''keyId'', ''publicKey'']"
    and "get_prop (canon (identity_value i)) ''algorithm'' = JStr (js ''ed25519'')"
    and "get_prop (canon (identity_value i)) ''keyId'' = JStr (id_keyId i)"
    and "get_prop (canon (identity_value i)) ''publicKey'' = JBytes (id_publicKey i)"
    and "identity_of (canon (identity_value i)) = i"
proof -
  show port: "portable (identity_value i)"
    using assms by (simp add: identity_value_def del: js_Cons)
  show "is_object (canon (identity_value i))" by (simp add: identity_value_def)
  show "exact_keys (canon (identity_value i)) [''algorithm'', ''keyId'', ''publicKey'']"
    using port unfolding identity_value_def by (rule canon_obj_keys) simp_all
  note p = canon_obj_prop [OF port [unfolded identity_value_def], folded identity_value_def]
  show "get_prop (canon (identity_value i)) ''algorithm'' = JStr (js ''ed25519'')"
    "get_prop (canon (identity_value i)) ''keyId'' = JStr (id_keyId i)"
    "get_prop (canon (identity_value i)) ''publicKey'' = JBytes (id_publicKey i)"
    "identity_of (canon (identity_value i)) = i"
    by (simp_all add: p identity_of_def text_prop_def bytes_of_def del: js_Cons)
qed

section \<open>Statements that can be written and read back\<close>

text \<open>
  \<open>value_of\<close> is the object a statement is written as, \<open>parse\<close> the reader's validation, \<open>ok\<close> the
  statements the laws are promised for. The consequences are those every signed statement of the
  program relies on: the payload reads back as the statement, and payloads and their digests
  determine it.
\<close>

locale signed_statement =
  fixes value_of :: "'d \<Rightarrow> jsval"
    and parse :: "jsval \<Rightarrow> 'd res"
    and ok :: "'d \<Rightarrow> bool"
  assumes portable_value: "ok d \<Longrightarrow> portable (value_of d)"
    and parse_value: "ok d \<Longrightarrow> parse (canon (value_of d)) = Inr d"
begin

lemma decode_payload:
  assumes "ok d" and "encode_canonical DEFAULT_LIMITS (value_of d) = Inr payload" and "length payload \<le> 67108864"
  shows "decode_canonical DEFAULT_LIMITS payload = Inr (canon (value_of d))"
  using assms portable_value by (intro decode_canonical_encode) auto

lemma parse_payload:
  assumes "ok d" and "encode_canonical DEFAULT_LIMITS (value_of d) = Inr payload" and "length payload \<le> 67108864"
  shows "bindR (decode_canonical DEFAULT_LIMITS payload) parse = Inr d"
  using decode_payload [OF assms] parse_value [OF assms(1)] by simp

lemma payload_determines:
  assumes "ok d" and "ok e" and "encode_canonical DEFAULT_LIMITS (value_of d) = Inr payload"
    and "encode_canonical DEFAULT_LIMITS (value_of e) = Inr payload" and "length payload \<le> 67108864"
  shows "d = e"
  using parse_payload [OF assms(1,3,5)] parse_payload [OF assms(2,4,5)] by simp

lemma digest_determines:
  assumes "ok d" and "ok e" and "encode_canonical DEFAULT_LIMITS (value_of d) = Inr p"
    and "encode_canonical DEFAULT_LIMITS (value_of e) = Inr q"
    and "length p \<le> 67108864" and "length q \<le> 67108864" and "length domain < 256"
    and "inj_on (sha256 X) {hash_input domain [p], hash_input domain [q]}"
    and "domain_digest X domain [p] = domain_digest X domain [q]"
  shows "d = e"
proof -
  have "hashable domain [p]" "hashable domain [q]"
    using assms(5-7) by (auto intro!: hashable_short)
  from domain_digest_inj [OF assms(8) _ _ this assms(9)] have "p = q" by simp
  with assms(1-5) show ?thesis by (intro payload_determines) auto
qed

end

end
