(* ===== verification/G9P_Routing_Epoch.thy ===== *)
theory G9P_Routing_Epoch
  imports G9P_Statement
begin

text \<open>
  Routing epochs (src/src/routing-epoch.js): the signed descriptors that authorise a routing
  policy for a ledger, chained by hash and carrying the last heads of every shard of the epoch
  before. A descriptor is a record; \<open>descriptor_value\<close> is the object it is written as.
\<close>

section \<open>Descriptors\<close>

record epoch_limits =
  el_maxFileBytes :: nat
  el_maxFrameBytes :: nat
  el_maxPreviousShardHeads :: nat
  el_maxLedgerIdBytes :: nat
  el_maxReasonBytes :: nat

definition EPOCH_LIMITS :: epoch_limits where
  "EPOCH_LIMITS = \<lparr>el_maxFileBytes = 67108864, el_maxFrameBytes = 67108864,
     el_maxPreviousShardHeads = 65536, el_maxLedgerIdBytes = 1024, el_maxReasonBytes = 4096\<rparr>"

record epoch_descriptor =
  ep_ledgerId :: jsstr
  ep_epochNumber :: nat
  ep_createdAt :: jsstr
  ep_previousEpochHash :: "byte list option"
  ep_previousShardHeads :: "shard_head list"
  ep_shardCount :: nat
  ep_topologyAuthority :: identity
  ep_reason :: jsstr

definition AUTHORIZATION_POLICY :: jsval where
  "AUTHORIZATION_POLICY = obj
     [(''kind'', JStr (js ''single-ed25519'')), (''version'', JInt 1), (''threshold'', JInt 1)]"

definition DESCRIPTOR_FIELDS :: "string list" where
  "DESCRIPTOR_FIELDS = [''kind'', ''protocolVersion'', ''ledgerId'', ''epochNumber'', ''createdAt'',
     ''previousEpochHash'', ''previousShardHeads'', ''routingPolicy'', ''topologyAuthority'',
     ''authorizationPolicy'', ''reason'']"

text \<open>The object that is encoded; the routing and authorization policies are the literals that
  validation lets through.\<close>

definition descriptor_value :: "epoch_descriptor \<Rightarrow> jsval" where
  "descriptor_value d = obj
     [(''kind'', JStr (js ''g9p-routing-epoch'')),
      (''protocolVersion'', JInt 1),
      (''ledgerId'', JStr (ep_ledgerId d)),
      (''epochNumber'', JInt (int (ep_epochNumber d))),
      (''createdAt'', JStr (ep_createdAt d)),
      (''previousEpochHash'', hash_or_null (ep_previousEpochHash d)),
      (''previousShardHeads'', JArr (map head_value (ep_previousShardHeads d))),
      (''routingPolicy'', routing_policy (ep_shardCount d)),
      (''topologyAuthority'', identity_value (ep_topologyAuthority d)),
      (''authorizationPolicy'', AUTHORIZATION_POLICY),
      (''reason'', JStr (ep_reason d))]"

section \<open>Validation\<close>

definition epoch_object :: "jsval \<Rightarrow> string list \<Rightarrow> unit res" where
  "epoch_object v names = checks
     [invariant (is_object v) ''EPOCH_OBJECT'', invariant (exact_keys v names) ''EPOCH_FIELDS'']"

definition epoch_integer :: "jsval \<Rightarrow> int \<Rightarrow> int \<Rightarrow> unit res" where
  "epoch_integer v lo hi = invariant (int_in lo hi v) ''EPOCH_INTEGER''"

definition canonical_text :: "platform \<Rightarrow> nat \<Rightarrow> jsval \<Rightarrow> unit res" where
  "canonical_text X maxTextBytes v =
     (case v of
        JStr s \<Rightarrow> checks
          [invariant (0 < length s) ''EPOCH_TEXT'',
           invariant (is_nfc X s) ''EPOCH_TEXT'',
           invariant (length (utf8 s) \<le> maxTextBytes) ''EPOCH_TEXT'']
      | _ \<Rightarrow> failWith ''EPOCH_TEXT'')"

definition epoch_bytes :: "nat \<Rightarrow> jsval \<Rightarrow> unit res" where
  "epoch_bytes n v = invariant (is_bytes n v) ''EPOCH_BYTES''"

definition epoch_policy :: "jsval \<Rightarrow> nat res" where
  "epoch_policy v =
     andThen (checks
       [epoch_object v [''id'', ''version'', ''shardCount''],
        invariant (get_prop v ''id'' = JStr ROUTING_POLICY_ID \<and> get_prop v ''version'' = JInt 1)
          ''EPOCH_ROUTING_POLICY'',
        epoch_integer (get_prop v ''shardCount'') 1 65536])
     (Inr (policy_shard_count v))"

definition epoch_authorization :: "jsval \<Rightarrow> unit res" where
  "epoch_authorization v = checks
     [epoch_object v [''kind'', ''version'', ''threshold''],
      invariant (\<forall>name \<in> set [''kind'', ''version'', ''threshold''].
          get_prop v name = get_prop AUTHORIZATION_POLICY name) ''EPOCH_AUTHORIZATION_POLICY'']"

definition epoch_head :: "nat \<Rightarrow> nat \<times> jsval \<Rightarrow> shard_head res" where
  "epoch_head number = (\<lambda>(i, head).
     andThen (checks
       [epoch_object head HEAD_FIELDS,
        invariant (get_prop head ''epochNumber'' = JInt (int number - 1)) ''EPOCH_SHARD_HEAD'',
        invariant (get_prop head ''shardId'' = JStr (shard_name i)) ''EPOCH_SHARD_HEAD'',
        invariant (head_empty head \<or> head_full head) ''EPOCH_SHARD_HEAD''])
     (Inr (head_of head)))"

definition epoch_heads :: "epoch_limits \<Rightarrow> nat \<Rightarrow> jsval \<Rightarrow> shard_head list res" where
  "epoch_heads L number v =
     andThen (checks
       [invariant (is_array v) ''EPOCH_SHARD_HEADS'',
        invariant (length (array_items v) \<le> el_maxPreviousShardHeads L) ''EPOCH_SHARD_HEADS''])
     (if number = 0
      then andThen (invariant (length (array_items v) = 0) ''EPOCH_GENESIS'') (Inr [])
      else andThen (invariant (0 < length (array_items v)) ''EPOCH_SHARD_HEADS'')
             (mapR (epoch_head number) (enumerate 0 (array_items v))))"

definition epoch_authority :: "jsval \<Rightarrow> identity res" where
  "epoch_authority v =
     andThen (checks
       [epoch_object v [''algorithm'', ''keyId'', ''publicKey''],
        invariant (is_js ''ed25519'' (get_prop v ''algorithm'')) ''EPOCH_SIGNATURE_ALGORITHM'',
        invariant (hash_text (get_prop v ''keyId'')) ''EPOCH_KEY_ID'',
        invariant (is_bytes 44 (get_prop v ''publicKey'')) ''EPOCH_PUBLIC_KEY''])
     (Inr (identity_of v))"

definition optional_bytes :: "jsval \<Rightarrow> byte list option" where
  "optional_bytes v = (case v of JBytes b \<Rightarrow> Some b | _ \<Rightarrow> None)"

definition validate_descriptor :: "platform \<Rightarrow> epoch_limits \<Rightarrow> jsval \<Rightarrow> epoch_descriptor res" where
  "validate_descriptor X L v =
     (let number = nat (int_of (get_prop v ''epochNumber'')) in
      andThen (checks
        [epoch_object v DESCRIPTOR_FIELDS,
         invariant (is_js ''g9p-routing-epoch'' (get_prop v ''kind'') \<and> get_prop v ''protocolVersion'' = JInt 1)
           ''EPOCH_VERSION'',
         canonical_text X (el_maxLedgerIdBytes L) (get_prop v ''ledgerId''),
         epoch_integer (get_prop v ''epochNumber'') 0 MAX_SAFE,
         invariant (timestamp_text (get_prop v ''createdAt'')) ''EPOCH_TIMESTAMP'',
         (if number = 0 then invariant (get_prop v ''previousEpochHash'' = JNull) ''EPOCH_GENESIS''
          else epoch_bytes 32 (get_prop v ''previousEpochHash''))])
      (bindR (epoch_heads L number (get_prop v ''previousShardHeads'')) (\<lambda>heads.
       bindR (epoch_policy (get_prop v ''routingPolicy'')) (\<lambda>shardCount.
       bindR (epoch_authority (get_prop v ''topologyAuthority'')) (\<lambda>authority.
       andThen (epoch_authorization (get_prop v ''authorizationPolicy''))
       (andThen (canonical_text X (el_maxReasonBytes L) (get_prop v ''reason''))
       (Inr \<lparr>ep_ledgerId = text_prop v ''ledgerId'', ep_epochNumber = number,
          ep_createdAt = text_prop v ''createdAt'',
          ep_previousEpochHash = optional_bytes (get_prop v ''previousEpochHash''),
          ep_previousShardHeads = heads, ep_shardCount = shardCount, ep_topologyAuthority = authority,
          ep_reason = text_prop v ''reason''\<rparr>)))))))"

definition epoch_signature :: "jsval \<Rightarrow> epoch_descriptor \<Rightarrow> unit res" where
  "epoch_signature v d = checks
     [epoch_object v [''algorithm'', ''keyId'', ''signature''],
      invariant (is_js ''ed25519'' (get_prop v ''algorithm'')) ''EPOCH_SIGNATURE_ALGORITHM'',
      invariant (get_prop v ''keyId'' = JStr (id_keyId (ep_topologyAuthority d))) ''EPOCH_KEY_ID'',
      invariant (is_bytes 64 (get_prop v ''signature'')) ''EPOCH_SIGNATURE_LENGTH'']"

section \<open>Writing\<close>

record epoch_request =
  er_ledgerId :: jsstr
  er_epochNumber :: nat
  er_routingPolicy :: jsval
  er_topologyAuthority :: signer
  er_reason :: jsstr
  er_createdAt :: jsstr
  er_previousEpochHash :: "byte list option"
  er_previousShardHeads :: "shard_head list"
  er_previousRoutingPolicy :: "jsval option"
  er_authorizationPolicy :: jsval

definition request_value :: "epoch_request \<Rightarrow> jsval" where
  "request_value rq = obj
     [(''kind'', JStr (js ''g9p-routing-epoch'')),
      (''protocolVersion'', JInt 1),
      (''ledgerId'', JStr (er_ledgerId rq)),
      (''epochNumber'', JInt (int (er_epochNumber rq))),
      (''createdAt'', JStr (er_createdAt rq)),
      (''previousEpochHash'', hash_or_null (er_previousEpochHash rq)),
      (''previousShardHeads'', JArr (map head_value (er_previousShardHeads rq))),
      (''routingPolicy'', er_routingPolicy rq),
      (''topologyAuthority'', signer_value (er_topologyAuthority rq)),
      (''authorizationPolicy'', er_authorizationPolicy rq),
      (''reason'', JStr (er_reason rq))]"

definition descriptor_for_write :: "platform \<Rightarrow> epoch_limits \<Rightarrow> epoch_request \<Rightarrow> epoch_descriptor res" where
  "descriptor_for_write X L rq =
     (let s = er_topologyAuthority rq in
      andThen (checks
        [invariant (algorithm s = js ''ed25519'' \<and> can_sign s) ''EPOCH_SIGNER'',
         invariant (keyId s = public_key_id X (publicKeyDer s)) ''EPOCH_SIGNER''])
      (bindR (validate_descriptor X L (request_value rq)) (\<lambda>d.
       andThen
         (if ep_epochNumber d = 0 then invariant (er_previousRoutingPolicy rq = None) ''EPOCH_GENESIS''
          else bindR (epoch_policy (case er_previousRoutingPolicy rq of Some p \<Rightarrow> p | None \<Rightarrow> JNull)) (\<lambda>n.
            invariant (length (ep_previousShardHeads d) = n) ''EPOCH_SHARD_HEADS''))
       (Inr d))))"

record epoch_result =
  ew_ledgerId :: jsstr
  ew_epochNumber :: nat
  ew_shardCount :: nat
  ew_epochHash :: jsstr
  ew_fileHash :: jsstr
  ew_topologyAuthorityKeyId :: jsstr
  ew_byteLength :: nat

definition epoch_hash :: "platform \<Rightarrow> byte list \<Rightarrow> byte list" where
  "epoch_hash X payload = domain_digest X ''routing-epoch-v1'' [payload]"

definition write_routing_epoch :: "platform \<Rightarrow> epoch_request \<Rightarrow> (byte list \<times> epoch_result) res" where
  "write_routing_epoch X rq =
     bindR (descriptor_for_write X EPOCH_LIMITS rq) (\<lambda>d.
     bindR (encode_canonical DEFAULT_LIMITS (descriptor_value d)) (\<lambda>payload.
     bindR (container X ''RTE1'' payload (er_topologyAuthority rq) ''routing-epoch-signature-v1'') (\<lambda>bytes.
     Inr (bytes,
       \<lparr>ew_ledgerId = ep_ledgerId d, ew_epochNumber = ep_epochNumber d, ew_shardCount = ep_shardCount d,
        ew_epochHash = to_hex (epoch_hash X payload),
        ew_fileHash = to_hex (domain_digest X ''routing-epoch-file-v1'' [bytes]),
        ew_topologyAuthorityKeyId = id_keyId (ep_topologyAuthority d),
        ew_byteLength = length bytes\<rparr>))))"

section \<open>Verification\<close>

record epoch_options =
  eo_limits :: epoch_limits
  eo_trustedKeyIds :: "jsstr list"
  eo_requireTrustedAuthority :: bool
  eo_expectedLedgerId :: "jsstr option"
  eo_expectedEpochNumber :: "nat option"
  eo_expectedPreviousEpochHash :: "byte list option option"
  eo_expectedPreviousRoutingPolicy :: "jsval option"

record verified_epoch =
  ve_descriptor :: epoch_descriptor
  ve_epochHash :: jsstr
  ve_fileHash :: jsstr
  ve_trusted :: bool
  ve_byteLength :: nat

definition epoch_expectations :: "epoch_options \<Rightarrow> epoch_descriptor \<Rightarrow> unit res" where
  "epoch_expectations opts d = checks
     [(case eo_expectedLedgerId opts of
         None \<Rightarrow> Inr ()
       | Some l \<Rightarrow> invariant (ep_ledgerId d = l) ''EPOCH_LEDGER''),
      (case eo_expectedEpochNumber opts of
         None \<Rightarrow> Inr ()
       | Some n \<Rightarrow> invariant (ep_epochNumber d = n) ''EPOCH_NUMBER''),
      (case eo_expectedPreviousEpochHash opts of
         None \<Rightarrow> Inr ()
       | Some None \<Rightarrow> invariant (ep_previousEpochHash d = None) ''EPOCH_PREVIOUS''
       | Some (Some h) \<Rightarrow> buffers_equal (hash_or_null (ep_previousEpochHash d)) h ''EPOCH_PREVIOUS''),
      (case eo_expectedPreviousRoutingPolicy opts of
         None \<Rightarrow> Inr ()
       | Some policy \<Rightarrow> bindR (epoch_policy policy) (\<lambda>n. checks
           [invariant (0 < ep_epochNumber d) ''EPOCH_PREVIOUS_POLICY'',
            invariant (length (ep_previousShardHeads d) = n) ''EPOCH_SHARD_HEADS'']))]"

definition epoch_authority_signed ::
  "platform \<Rightarrow> epoch_options \<Rightarrow> epoch_descriptor \<Rightarrow> byte list \<Rightarrow> byte list \<Rightarrow> bool res" where
  "epoch_authority_signed X opts d payload signature =
     (let authority = ep_topologyAuthority d; trusted = (id_keyId authority \<in> set (eo_trustedKeyIds opts)) in
      andThen (checks
        [invariant (public_key_id X (id_publicKey authority) = id_keyId authority) ''EPOCH_KEY_ID'',
         invariant (import_key X (id_publicKey authority) \<noteq> None) ''EPOCH_PUBLIC_KEY'',
         invariant (verify_domain_commitment X (id_publicKey authority) ''routing-epoch-signature-v1'' payload signature)
           ''EPOCH_SIGNATURE'',
         (if eo_requireTrustedAuthority opts then invariant trusted ''EPOCH_UNTRUSTED_AUTHORITY'' else Inr ())])
      (Inr trusted))"

definition verify_routing_epoch_bytes :: "platform \<Rightarrow> epoch_options \<Rightarrow> byte list \<Rightarrow> verified_epoch res" where
  "verify_routing_epoch_bytes X opts bytes =
     (let L = eo_limits opts in
      andThen (invariant (length bytes \<le> el_maxFileBytes L) ''EPOCH_FILE_LIMIT'')
      (bindR (read_statement (el_maxFrameBytes L) ''RTE1'' ''EPOCH_END_FRAME'' bytes) (\<lambda>(payload, signed).
       bindR (bindR (decode_canonical DEFAULT_LIMITS payload) (validate_descriptor X L)) (\<lambda>d.
       bindR (decode_canonical DEFAULT_LIMITS signed) (\<lambda>signature.
       andThen (epoch_signature signature d)
       (bindR (epoch_authority_signed X opts d payload (bytes_of (get_prop signature ''signature''))) (\<lambda>trusted.
        andThen (epoch_expectations opts d)
        (Inr \<lparr>ve_descriptor = d, ve_epochHash = to_hex (epoch_hash X payload),
           ve_fileHash = to_hex (domain_digest X ''routing-epoch-file-v1'' [bytes]),
           ve_trusted = trusted, ve_byteLength = length bytes\<rparr>))))))))"

end
