(* ===== verification/G9P_Routing_Epoch_Props.thy ===== *)
theory G9P_Routing_Epoch_Props
  imports G9P_Routing_Epoch
begin

text \<open>
  What a routing epoch promises: validation returns only well-formed descriptors and accepts the
  object of every well-formed one, so a written epoch is verified as the descriptor it was
  written from; its hash commits to the whole descriptor; a verified successor lists one head
  for every shard of its predecessor.
\<close>

section \<open>Well-formed descriptors\<close>

definition epoch_text_ok :: "platform \<Rightarrow> nat \<Rightarrow> jsstr \<Rightarrow> bool" where
  "epoch_text_ok X n s \<longleftrightarrow> s \<noteq> [] \<and> is_nfc X s \<and> length (utf8 s) \<le> n"

definition descriptor_ok :: "platform \<Rightarrow> epoch_limits \<Rightarrow> epoch_descriptor \<Rightarrow> bool" where
  "descriptor_ok X L d \<longleftrightarrow>
     epoch_text_ok X (el_maxLedgerIdBytes L) (ep_ledgerId d)
     \<and> epoch_text_ok X (el_maxReasonBytes L) (ep_reason d)
     \<and> ep_epochNumber d \<le> max_safe_integer \<and> is_canonical_timestamp (ep_createdAt d)
     \<and> 1 \<le> ep_shardCount d \<and> ep_shardCount d \<le> 65536 \<and> identity_ok (ep_topologyAuthority d)
     \<and> (if ep_epochNumber d = 0
        then ep_previousEpochHash d = None \<and> ep_previousShardHeads d = []
        else (\<exists>h. ep_previousEpochHash d = Some h \<and> length h = 32)
          \<and> ep_previousShardHeads d \<noteq> [] \<and> length (ep_previousShardHeads d) \<le> el_maxPreviousShardHeads L
          \<and> heads_ok (ep_epochNumber d - 1) (ep_previousShardHeads d))"

definition portable_descriptor :: "epoch_descriptor \<Rightarrow> bool" where
  "portable_descriptor d \<longleftrightarrow> portable_text (ep_ledgerId d) \<and> portable_text (ep_reason d)"

lemma canonical_text_Inr:
  "canonical_text X n v = Inr () \<longleftrightarrow> (\<exists>s. v = JStr s \<and> epoch_text_ok X n s)"
  by (cases v) (auto simp: canonical_text_def epoch_text_ok_def res_simps)

lemma int_in_iff: "int_in lo hi v \<longleftrightarrow> (\<exists>i. v = JInt i \<and> lo \<le> i \<and> i \<le> hi)"
  by (cases v) (auto simp: int_in_def)

lemma is_bytes_iff: "is_bytes n v \<longleftrightarrow> (\<exists>b. v = JBytes b \<and> length b = n)"
  by (cases v) (auto simp: is_bytes_def)

lemma hash_text_iff: "hash_text v \<longleftrightarrow> (\<exists>s. v = JStr s \<and> is_hex64 s)"
  by (cases v) (auto simp: hash_text_def)

lemma timestamp_text_iff: "timestamp_text v \<longleftrightarrow> (\<exists>s. v = JStr s \<and> is_canonical_timestamp s)"
  by (cases v) (auto simp: timestamp_text_def)

lemmas field_iffs = int_in_iff is_bytes_iff hash_text_iff timestamp_text_iff

lemma head_of_ok:
  assumes "get_prop v ''epochNumber'' = JInt (int e)" and "get_prop v ''shardId'' = JStr (shard_name i)"
    and "head_empty v \<or> head_full v"
  shows "head_ok e i (head_of v)"
  using assms
  by (auto simp: head_of_def head_ok_def head_empty_def head_full_def field_iffs int_of_def bytes_of_def
      text_prop_def MAX_SAFE_def)

lemma epoch_head_Inr:
  assumes "epoch_head n (i, v) = Inr h" and "0 < n"
  shows "head_ok (n - 1) i h"
proof -
  from assms(1) have "get_prop v ''epochNumber'' = JInt (int n - 1)"
    "get_prop v ''shardId'' = JStr (shard_name i)" "head_empty v \<or> head_full v" "h = head_of v"
    by (auto simp: epoch_head_def res_simps)
  with assms(2) show ?thesis by (auto intro!: head_of_ok)
qed

lemma heads_ok_mapR:
  assumes "mapR f (enumerate 0 xs) = Inr hs" and "\<And>i v h. f (i, v) = Inr h \<Longrightarrow> head_ok e i h"
  shows "heads_ok e hs \<and> length hs = length xs"
proof -
  have len: "length hs = length xs" using mapR_Inr_length [OF assms(1)] by simp
  have "head_ok e i (hs ! i)" if "i < length hs" for i
    using mapR_Inr_nth [OF assms(1), of i] that len by (auto simp: nth_enumerate_eq intro: assms(2))
  with len show ?thesis by (simp add: heads_ok_def)
qed

lemma epoch_heads_Inr:
  assumes "epoch_heads L n v = Inr hs"
  shows "if n = 0 then hs = [] else hs \<noteq> [] \<and> length hs \<le> el_maxPreviousShardHeads L \<and> heads_ok (n - 1) hs"
proof (cases "n = 0")
  case True
  with assms show ?thesis by (auto simp: epoch_heads_def res_simps)
next
  case False
  with assms have m: "mapR (epoch_head n) (enumerate 0 (array_items v)) = Inr hs"
    and b: "0 < length (array_items v)" "length (array_items v) \<le> el_maxPreviousShardHeads L"
    by (auto simp: epoch_heads_def res_simps)
  have "heads_ok (n - 1) hs \<and> length hs = length (array_items v)"
    by (rule heads_ok_mapR [OF m], rule epoch_head_Inr) (use False in simp_all)
  with False b show ?thesis by auto
qed

lemma epoch_policy_Inr: "epoch_policy v = Inr n \<Longrightarrow> n = policy_shard_count v \<and> 1 \<le> n \<and> n \<le> 65536"
  by (auto simp: epoch_policy_def epoch_integer_def field_iffs policy_shard_count_def res_simps)

lemma epoch_authority_Inr: "epoch_authority v = Inr i \<Longrightarrow> i = identity_of v \<and> identity_ok i"
  by (auto simp: epoch_authority_def identity_of_def identity_ok_def text_prop_def bytes_of_def field_iffs res_simps)

lemma validate_descriptor_Inr:
  assumes "validate_descriptor X L v = Inr d"
  shows "descriptor_ok X L d"
proof -
  let ?n = "nat (int_of (get_prop v ''epochNumber''))"
  from assms obtain hs sc a where
    t: "canonical_text X (el_maxLedgerIdBytes L) (get_prop v ''ledgerId'') = Inr ()"
      "canonical_text X (el_maxReasonBytes L) (get_prop v ''reason'') = Inr ()"
      "timestamp_text (get_prop v ''createdAt'')" "int_in 0 MAX_SAFE (get_prop v ''epochNumber'')"
    and prev: "if ?n = 0 then get_prop v ''previousEpochHash'' = JNull else is_bytes 32 (get_prop v ''previousEpochHash'')"
    and h: "epoch_heads L ?n (get_prop v ''previousShardHeads'') = Inr hs"
    and p: "epoch_policy (get_prop v ''routingPolicy'') = Inr sc"
    and a: "epoch_authority (get_prop v ''topologyAuthority'') = Inr a"
    and d: "d = \<lparr>ep_ledgerId = text_prop v ''ledgerId'', ep_epochNumber = ?n, ep_createdAt = text_prop v ''createdAt'',
        ep_previousEpochHash = optional_bytes (get_prop v ''previousEpochHash''), ep_previousShardHeads = hs,
        ep_shardCount = sc, ep_topologyAuthority = a, ep_reason = text_prop v ''reason''\<rparr>"
    by (auto simp: validate_descriptor_def Let_def epoch_integer_def epoch_bytes_def res_simps
        simp del: mapR.simps split: if_splits)
  have "?n \<le> max_safe_integer" using t(4) by (auto simp: field_iffs int_of_def MAX_SAFE_def)
  moreover have "if ?n = 0 then ep_previousEpochHash d = None
      else \<exists>h. ep_previousEpochHash d = Some h \<and> length h = 32"
    using prev by (auto simp: d optional_bytes_def field_iffs)
  ultimately show ?thesis
    using t(1-3) epoch_heads_Inr [OF h] epoch_policy_Inr [OF p] epoch_authority_Inr [OF a]
    by (cases "?n = 0") (auto simp: d descriptor_ok_def canonical_text_Inr field_iffs text_prop_def)
qed

section \<open>Validation accepts what is written\<close>

lemma epoch_policy_written: "1 \<le> n \<Longrightarrow> n \<le> 65536 \<Longrightarrow> epoch_policy (canon (routing_policy n)) = Inr n"
proof -
  assume n: "1 \<le> n" "n \<le> 65536"
  then have p: "portable (routing_policy n)" by (simp add: max_safe_integer_def)
  have k: "exact_keys (canon (routing_policy n)) [''id'', ''version'', ''shardCount'']"
    using p unfolding routing_policy_def by (rule canon_obj_keys) auto
  have "is_object (canon (routing_policy n))" by (simp add: routing_policy_def)
  then show ?thesis
    using n p k by (simp add: epoch_policy_def epoch_object_def epoch_integer_def int_in_def
        get_prop_canon policy_shard_count_def del: js_Cons)
qed

lemma portable_authorization: "portable AUTHORIZATION_POLICY"
  by (simp add: AUTHORIZATION_POLICY_def max_safe_integer_def del: js_Cons)

lemma epoch_authorization_written: "epoch_authorization (canon AUTHORIZATION_POLICY) = Inr ()"
proof -
  have "exact_keys (canon AUTHORIZATION_POLICY) [''kind'', ''version'', ''threshold'']"
    using portable_authorization unfolding AUTHORIZATION_POLICY_def by (rule canon_obj_keys) auto
  moreover have "is_object (canon AUTHORIZATION_POLICY)" by (simp add: AUTHORIZATION_POLICY_def)
  ultimately show ?thesis
    by (simp add: epoch_authorization_def epoch_object_def get_prop_canon portable_authorization)
       (simp add: AUTHORIZATION_POLICY_def)
qed

lemma epoch_authority_written:
  assumes "identity_ok i" shows "epoch_authority (canon (identity_value i)) = Inr i"
proof -
  have "portable_text (id_keyId i)"
    using assms by (intro plain_ascii_portable)
      (auto simp: identity_ok_def is_hex64_def plain_ascii_def list_all_iff is_lower_hex_def)
  note p = identity_value_props [OF assms this]
  show ?thesis using assms p
    by (simp add: epoch_authority_def epoch_object_def is_js_def hash_text_def is_bytes_def identity_ok_def
        del: js_Cons)
qed

lemma epoch_heads_written:
  assumes "if n = 0 then hs = [] else hs \<noteq> [] \<and> length hs \<le> el_maxPreviousShardHeads L \<and> heads_ok (n - 1) hs"
    and "n \<le> max_safe_integer"
  shows "epoch_heads L n (JArr (map (canon \<circ> head_value) hs)) = Inr hs"
proof (cases "n = 0")
  case True
  with assms show ?thesis by (simp add: epoch_heads_def is_array_def array_items_def)
next
  case False
  have one: "epoch_head n (i, canon (head_value (hs ! i))) = Inr (hs ! i)" if "i < length hs" for i
  proof -
    have ok: "head_ok (n - 1) i (hs ! i)" using assms(1) False that by (simp add: heads_ok_def)
    from False have "int (n - 1) = int n - 1" by simp
    with head_value_props [OF ok] assms(2) show ?thesis
      by (simp add: epoch_head_def epoch_object_def)
  qed
  have "mapR (epoch_head n) (enumerate 0 (map (canon \<circ> head_value) hs)) = Inr hs"
    unfolding mapR_Inr_list_all2
    by (rule list_all2_all_nthI) (simp_all add: nth_enumerate_eq one)
  with False assms(1) show ?thesis by (auto simp: epoch_heads_def is_array_def array_items_def)
qed

lemma portable_descriptor_value:
  assumes "descriptor_ok X L d" and "portable_descriptor d"
  shows "portable (descriptor_value d)"
proof -
  have k: "portable_text (id_keyId (ep_topologyAuthority d))"
    using assms(1) by (intro plain_ascii_portable)
      (auto simp: descriptor_ok_def identity_ok_def is_hex64_def plain_ascii_def list_all_iff is_lower_hex_def)
  have "portable (identity_value (ep_topologyAuthority d))"
    using assms(1) by (intro identity_value_props k) (simp add: descriptor_ok_def)
  moreover have "portable (head_value h)" if "h \<in> set (ep_previousShardHeads d)" for h
  proof -
    from that obtain i where i: "i < length (ep_previousShardHeads d)" "ep_previousShardHeads d ! i = h"
      by (auto simp: in_set_conv_nth)
    with assms(1) have "head_ok (ep_epochNumber d - 1) i h"
      by (auto simp: descriptor_ok_def heads_ok_def split: if_splits)
    then show ?thesis using assms(1) by (intro head_value_props(1)) (auto simp: descriptor_ok_def)
  qed
  moreover have "portable (hash_or_null (ep_previousEpochHash d))"
    by (simp add: hash_or_null_def split: option.split)
  ultimately show ?thesis
    using assms portable_authorization
    by (auto simp: descriptor_value_def descriptor_ok_def portable_descriptor_def canonical_timestamp_portable
        max_safe_integer_def list_all_iff simp del: js_Cons)
qed

lemma validate_descriptor_written:
  assumes "descriptor_ok X L d" and "portable_descriptor d"
  shows "validate_descriptor X L (canon (descriptor_value d)) = Inr d"
proof -
  let ?v = "canon (descriptor_value d)"
  note port = portable_descriptor_value [OF assms]
  note p = canon_obj_prop [OF port [unfolded descriptor_value_def], folded descriptor_value_def]
  note ok = assms(1) [unfolded descriptor_ok_def]
  have obj: "epoch_object ?v DESCRIPTOR_FIELDS = Inr ()"
  proof -
    have "exact_keys ?v DESCRIPTOR_FIELDS"
      using port unfolding descriptor_value_def DESCRIPTOR_FIELDS_def by (rule canon_obj_keys) auto
    moreover have "is_object ?v" by (simp add: descriptor_value_def)
    ultimately show ?thesis by (simp add: epoch_object_def)
  qed
  have f: "get_prop ?v ''kind'' = JStr (js ''g9p-routing-epoch'')" "get_prop ?v ''protocolVersion'' = JInt 1"
    "get_prop ?v ''ledgerId'' = JStr (ep_ledgerId d)" "get_prop ?v ''epochNumber'' = JInt (int (ep_epochNumber d))"
    "get_prop ?v ''createdAt'' = JStr (ep_createdAt d)"
    "get_prop ?v ''previousEpochHash'' = hash_or_null (ep_previousEpochHash d)"
    "get_prop ?v ''previousShardHeads'' = JArr (map (canon \<circ> head_value) (ep_previousShardHeads d))"
    "get_prop ?v ''routingPolicy'' = canon (routing_policy (ep_shardCount d))"
    "get_prop ?v ''topologyAuthority'' = canon (identity_value (ep_topologyAuthority d))"
    "get_prop ?v ''authorizationPolicy'' = canon AUTHORIZATION_POLICY"
    "get_prop ?v ''reason'' = JStr (ep_reason d)"
    by (simp_all add: p hash_or_null_def comp_def del: js_Cons split: option.split)
  have n: "nat (int_of (get_prop ?v ''epochNumber'')) = ep_epochNumber d" by (simp add: f int_of_def)
  have texts: "canonical_text X (el_maxLedgerIdBytes L) (get_prop ?v ''ledgerId'') = Inr ()"
    "canonical_text X (el_maxReasonBytes L) (get_prop ?v ''reason'') = Inr ()"
    using ok by (simp_all add: f canonical_text_Inr)
  have nums: "epoch_integer (get_prop ?v ''epochNumber'') 0 MAX_SAFE = Inr ()"
    "timestamp_text (get_prop ?v ''createdAt'')"
    using ok by (simp_all add: f epoch_integer_def int_in_def MAX_SAFE_def timestamp_text_def)
  have link: "(if ep_epochNumber d = 0 then invariant (get_prop ?v ''previousEpochHash'' = JNull) ''EPOCH_GENESIS''
       else epoch_bytes 32 (get_prop ?v ''previousEpochHash'')) = Inr ()"
    using ok by (auto simp: f hash_or_null_def epoch_bytes_def is_bytes_def split: if_splits)
  have ob: "optional_bytes (get_prop ?v ''previousEpochHash'') = ep_previousEpochHash d"
    by (simp add: f hash_or_null_def optional_bytes_def split: option.split)
  have heads: "epoch_heads L (ep_epochNumber d) (get_prop ?v ''previousShardHeads'') = Inr (ep_previousShardHeads d)"
    unfolding f(7) using ok by (intro epoch_heads_written) (auto split: if_splits)
  have rest: "epoch_policy (get_prop ?v ''routingPolicy'') = Inr (ep_shardCount d)"
    "epoch_authority (get_prop ?v ''topologyAuthority'') = Inr (ep_topologyAuthority d)"
    "epoch_authorization (get_prop ?v ''authorizationPolicy'') = Inr ()"
    using ok by (simp_all only: f epoch_policy_written epoch_authority_written epoch_authorization_written)
  show ?thesis
    unfolding validate_descriptor_def Let_def n heads rest obj texts nums link ob
    using nums(2) by (simp add: is_js_def text_prop_def f del: js_Cons)
qed

interpretation epoch: signed_statement descriptor_value "validate_descriptor X L"
    "\<lambda>d. descriptor_ok X L d \<and> portable_descriptor d" for X L
  by unfold_locales (auto intro: portable_descriptor_value validate_descriptor_written)

section \<open>Written epochs verify\<close>

lemma request_value_props:
  "get_prop (request_value rq) ''ledgerId'' = JStr (er_ledgerId rq)"
  "get_prop (request_value rq) ''epochNumber'' = JInt (int (er_epochNumber rq))"
  "get_prop (request_value rq) ''reason'' = JStr (er_reason rq)"
  "get_prop (request_value rq) ''previousEpochHash'' = hash_or_null (er_previousEpochHash rq)"
  "get_prop (request_value rq) ''routingPolicy'' = er_routingPolicy rq"
  "get_prop (request_value rq) ''topologyAuthority'' = signer_value (er_topologyAuthority rq)"
  by (simp_all add: request_value_def del: js_Cons)

lemma descriptor_for_write_Inr:
  assumes "descriptor_for_write X L rq = Inr d"
  shows "descriptor_ok X L d" and "ep_ledgerId d = er_ledgerId rq" and "ep_epochNumber d = er_epochNumber rq"
    and "ep_reason d = er_reason rq" and "ep_previousEpochHash d = er_previousEpochHash rq"
    and "ep_shardCount d = policy_shard_count (er_routingPolicy rq)"
    and "ep_topologyAuthority d = \<lparr>id_keyId = keyId (er_topologyAuthority rq),
      id_publicKey = publicKeyDer (er_topologyAuthority rq)\<rparr>"
    and "er_epochNumber rq \<noteq> 0 \<Longrightarrow> \<exists>policy. er_previousRoutingPolicy rq = Some policy
      \<and> length (ep_previousShardHeads d) = policy_shard_count policy"
proof -
  from assms have v: "validate_descriptor X L (request_value rq) = Inr d"
    and prev: "er_epochNumber rq \<noteq> 0 \<Longrightarrow> ep_epochNumber d \<noteq> 0 \<Longrightarrow>
       epoch_policy (case er_previousRoutingPolicy rq of Some p \<Rightarrow> p | None \<Rightarrow> JNull) = Inr (length (ep_previousShardHeads d))"
    by (auto simp: descriptor_for_write_def Let_def res_simps split: if_splits)
  from v have policy: "epoch_policy (er_routingPolicy rq) = Inr (ep_shardCount d)"
    and authority: "epoch_authority (signer_value (er_topologyAuthority rq)) = Inr (ep_topologyAuthority d)"
    and fields: "ep_ledgerId d = text_prop (request_value rq) ''ledgerId''"
      "ep_reason d = text_prop (request_value rq) ''reason''"
      "ep_epochNumber d = nat (int_of (get_prop (request_value rq) ''epochNumber''))"
      "ep_previousEpochHash d = optional_bytes (get_prop (request_value rq) ''previousEpochHash'')"
    by (auto simp: validate_descriptor_def Let_def res_simps request_value_props simp del: mapR.simps)
  show "descriptor_ok X L d" by (rule validate_descriptor_Inr [OF v])
  show "ep_ledgerId d = er_ledgerId rq" "ep_reason d = er_reason rq"
    and n: "ep_epochNumber d = er_epochNumber rq" and "ep_previousEpochHash d = er_previousEpochHash rq"
    by (simp_all add: fields request_value_props text_prop_def int_of_def optional_bytes_def hash_or_null_def
        split: option.split)
  show "ep_shardCount d = policy_shard_count (er_routingPolicy rq)"
    using epoch_policy_Inr [OF policy] by simp
  show "ep_topologyAuthority d = \<lparr>id_keyId = keyId (er_topologyAuthority rq),
      id_publicKey = publicKeyDer (er_topologyAuthority rq)\<rparr>"
    using epoch_authority_Inr [OF authority]
    by (simp add: identity_of_def signer_value_def text_prop_def bytes_of_def del: js_Cons)
  show "\<exists>policy. er_previousRoutingPolicy rq = Some policy
      \<and> length (ep_previousShardHeads d) = policy_shard_count policy" if "er_epochNumber rq \<noteq> 0"
    using prev [OF that] that n epoch_policy_Inr
    by (cases "er_previousRoutingPolicy rq")
      (auto simp: epoch_policy_def epoch_object_def is_object_def res_simps)
qed

text \<open>Options under which a written descriptor is not refused for reasons of the caller's.\<close>

definition epoch_options_match :: "epoch_options \<Rightarrow> epoch_descriptor \<Rightarrow> bool" where
  "epoch_options_match opts d \<longleftrightarrow> eo_limits opts = EPOCH_LIMITS
     \<and> (eo_requireTrustedAuthority opts \<longrightarrow> id_keyId (ep_topologyAuthority d) \<in> set (eo_trustedKeyIds opts))
     \<and> epoch_expectations opts d = Inr ()"

lemma epoch_limits_values [simp]:
  "el_maxFileBytes EPOCH_LIMITS = 67108864" "el_maxFrameBytes EPOCH_LIMITS = 67108864"
  "el_maxPreviousShardHeads EPOCH_LIMITS = 65536"
  by (simp_all add: EPOCH_LIMITS_def)

lemma write_then_verify_epoch:
  assumes "sha256_ok X" and "write_routing_epoch X rq = Inr (bytes, result)"
    and "descriptor_for_write X EPOCH_LIMITS rq = Inr d"
    and "portable_text (er_ledgerId rq)" and "portable_text (er_reason rq)"
    and "length bytes \<le> 67108864" and "epoch_options_match opts d"
  shows "\<exists>v. verify_routing_epoch_bytes X opts bytes = Inr v \<and> ve_descriptor v = d
    \<and> ve_epochHash v = ew_epochHash result \<and> ve_fileHash v = ew_fileHash result
    \<and> ve_byteLength v = ew_byteLength result"
proof -
  let ?s = "er_topologyAuthority rq"
  from assms(2,3) obtain payload where
    payload: "encode_canonical DEFAULT_LIMITS (descriptor_value d) = Inr payload"
    and cont: "container X ''RTE1'' payload ?s ''routing-epoch-signature-v1'' = Inr bytes"
    and result: "ew_epochHash result = to_hex (epoch_hash X payload)"
      "ew_fileHash result = to_hex (domain_digest X ''routing-epoch-file-v1'' [bytes])"
      "ew_byteLength result = length bytes"
    by (auto simp: write_routing_epoch_def res_simps)
  note w = descriptor_for_write_Inr [OF assms(3)]
  have ok: "descriptor_ok X EPOCH_LIMITS d \<and> portable_descriptor d"
    using w(1,2,4) assms(4,5) by (simp add: portable_descriptor_def)
  have small: "length payload \<le> 67108864" using container_length [OF cont] assms(6) by simp
  obtain sig sp where r: "read_statement 67108864 ''RTE1'' ''EPOCH_END_FRAME'' bytes = Inr (payload, sp)"
    and sp: "decode_canonical DEFAULT_LIMITS sp = Inr (canon (signature_value ?s sig))"
    and psig: "portable (signature_value ?s sig)" "length sig = 64"
    and sig: "verify_domain_commitment X (publicKeyDer ?s) ''routing-epoch-signature-v1'' payload sig"
    and sv: "validate_signer X ?s ''SIGNER_IDENTITY'' = Inr ()"
    by (rule container_reads [OF cont assms(1) small order_refl])
  note key = signer_key_hex [OF sv assms(1)]
  note parse = epoch.parse_payload [OF ok payload small]
  note sprop = signature_prop [OF psig(1)]
  have es: "epoch_signature (canon (signature_value ?s sig)) d = Inr ()"
    using sprop psig(2) key(1) by (simp add: epoch_signature_def epoch_object_def is_js_def is_bytes_def w(7) del: js_Cons)
  have a: "epoch_authority_signed X opts d payload sig = Inr (keyId ?s \<in> set (eo_trustedKeyIds opts))"
    using key sig assms(7) by (simp add: epoch_authority_signed_def w(7) epoch_options_match_def Let_def)
  show ?thesis
    using assms(6,7) by (simp add: verify_routing_epoch_bytes_def epoch_options_match_def r parse sp es a
        sprop bytes_of_def result)
qed

section \<open>Writing succeeds\<close>

text \<open>Validation does not distinguish a value from its canonical form.\<close>

lemma field_checks_canon [simp]:
  "int_in lo hi (canon v) = int_in lo hi v" "is_bytes n (canon v) = is_bytes n v"
  "hash_text (canon v) = hash_text v" "timestamp_text (canon v) = timestamp_text v"
  "is_js s (canon v) = is_js s v" "is_array (canon v) = is_array v"
  "array_items (canon v) = map canon (array_items v)" "int_of (canon v) = int_of v"
  "bytes_of (canon v) = bytes_of v" "optional_bytes (canon v) = optional_bytes v"
  "canonical_text X n (canon v) = canonical_text X n v"
  "canon v = JNull \<longleftrightarrow> v = JNull"
  by (cases v; simp add: int_in_def is_bytes_def hash_text_def timestamp_text_def is_js_def is_array_def
      array_items_def int_of_def bytes_of_def optional_bytes_def canonical_text_def)+

lemma policy_shard_count_canon: "portable v \<Longrightarrow> policy_shard_count (canon v) = policy_shard_count v"
  by (cases "get_prop v ''shardCount''") (simp_all add: policy_shard_count_def get_prop_canon)

lemma field_checks_prop [simp]:
  assumes "portable v"
  shows "epoch_object (canon v) names = epoch_object v names"
    and "policy_shard_count (canon v) = policy_shard_count v"
    and "head_empty (canon v) = head_empty v" and "head_full (canon v) = head_full v"
    and "head_of (canon v) = head_of v" and "identity_of (canon v) = identity_of v"
  using assms
  by (simp_all add: epoch_object_def exact_keys_canon head_empty_def head_full_def head_of_def identity_of_def
      get_prop_canon policy_shard_count_canon)

lemma epoch_parts_canon:
  assumes "portable v"
  shows "epoch_policy (canon v) = epoch_policy v" and "epoch_authority (canon v) = epoch_authority v"
    and "epoch_head n (i, canon v) = epoch_head n (i, v)"
  using assms by (simp_all add: epoch_policy_def epoch_authority_def epoch_head_def get_prop_canon epoch_integer_def)

lemma epoch_heads_canon:
  assumes "portable v" shows "epoch_heads L n (canon v) = epoch_heads L n v"
proof -
  have "list_all portable (array_items v)"
    using assms by (cases v) (simp_all add: array_items_def)
  then have "mapR (epoch_head n) (enumerate i (map canon xs)) = mapR (epoch_head n) (enumerate i xs)"
    if "set xs \<subseteq> set (array_items v)" for i xs
    using that by (induction xs arbitrary: i) (simp_all add: epoch_parts_canon list_all_iff)
  then show ?thesis by (simp add: epoch_heads_def)
qed

lemma validate_descriptor_canon:
  assumes "portable v" shows "validate_descriptor X L (canon v) = validate_descriptor X L v"
proof -
  note p = portable_get_prop [OF assms]
  have "epoch_authorization (canon w) = epoch_authorization w" if "w = get_prop v ''authorizationPolicy''" for w
    using p [of "''authorizationPolicy''"] portable_authorization that
    by (auto simp: epoch_authorization_def get_prop_canon AUTHORIZATION_POLICY_def simp del: js_Cons)
  then show ?thesis
    using assms p by (simp add: validate_descriptor_def get_prop_canon epoch_heads_canon epoch_parts_canon
        epoch_integer_def epoch_bytes_def)
qed

text \<open>
  Writing succeeds: a request whose fields describe a well-formed epoch with the program's
  policies, signed by a signer that works, is written to a file that passes verification's size
  limit.
\<close>

definition request_descriptor :: "epoch_request \<Rightarrow> epoch_descriptor" where
  "request_descriptor rq =
     \<lparr>ep_ledgerId = er_ledgerId rq, ep_epochNumber = er_epochNumber rq, ep_createdAt = er_createdAt rq,
      ep_previousEpochHash = er_previousEpochHash rq, ep_previousShardHeads = er_previousShardHeads rq,
      ep_shardCount = policy_shard_count (er_routingPolicy rq),
      ep_topologyAuthority = \<lparr>id_keyId = keyId (er_topologyAuthority rq),
        id_publicKey = publicKeyDer (er_topologyAuthority rq)\<rparr>,
      ep_reason = er_reason rq\<rparr>"

lemma request_value_descriptor:
  assumes "er_routingPolicy rq = routing_policy n" and "er_authorizationPolicy rq = AUTHORIZATION_POLICY"
    and "algorithm (er_topologyAuthority rq) = js ''ed25519''"
  shows "request_value rq = descriptor_value (request_descriptor rq)"
  using assms by (simp add: request_value_def descriptor_value_def request_descriptor_def signer_value_def
      identity_value_def del: js_Cons)

lemma descriptor_for_write_total:
  assumes "er_routingPolicy rq = routing_policy n" and "er_authorizationPolicy rq = AUTHORIZATION_POLICY"
    and "validate_signer X (er_topologyAuthority rq) code = Inr ()"
    and "descriptor_ok X L (request_descriptor rq)" and "portable_descriptor (request_descriptor rq)"
    and "if er_epochNumber rq = 0 then er_previousRoutingPolicy rq = None
      else \<exists>m. er_previousRoutingPolicy rq = Some (routing_policy m) \<and> m \<le> 65536 \<and> length (er_previousShardHeads rq) = m"
  shows "descriptor_for_write X L rq = Inr (request_descriptor rq)"
proof -
  let ?d = "request_descriptor rq"
  note s = validate_signer_facts [OF assms(3)]
  have eq: "request_value rq = descriptor_value ?d"
    using assms(1,2) s by (intro request_value_descriptor) auto
  have v: "validate_descriptor X L (request_value rq) = Inr ?d"
    using validate_descriptor_written [OF assms(4,5)]
      validate_descriptor_canon [OF portable_descriptor_value [OF assms(4,5)]] by (simp add: eq)
  have policy: "epoch_policy (routing_policy m) = Inr m" if "1 \<le> m" "m \<le> 65536" for m
    using epoch_policy_written [OF that] that epoch_parts_canon(1) [of "routing_policy m"]
    by (simp add: max_safe_integer_def)
  show ?thesis
  proof (cases "er_epochNumber rq = 0")
    case True
    with s v assms(6) show ?thesis by (simp add: descriptor_for_write_def request_descriptor_def Let_def)
  next
    case False
    with assms(6) obtain m where m: "er_previousRoutingPolicy rq = Some (routing_policy m)" "m \<le> 65536"
      "length (er_previousShardHeads rq) = m" by auto
    moreover have "1 \<le> m"
      using assms(4) False m(3) by (auto simp: descriptor_ok_def request_descriptor_def Suc_le_eq)
    ultimately show ?thesis
      using s v False policy [of m] by (simp add: descriptor_for_write_def request_descriptor_def Let_def)
  qed
qed

lemma container_total:
  assumes "sha256_ok X" and "sign_domain_with_signer X s domain payload = Inr sig"
    and "frame_type_ok type" and "length payload \<le> 67108000"
  shows "\<exists>file. container X type payload s domain = Inr file \<and> length file \<le> length payload + 600"
proof -
  note v = sign_domain_with_signer_verifies [OF assms(2)]
  then have "validate_signer X s ''SIGNER_IDENTITY'' = Inr ()" by simp
  note k = signer_key_hex [OF this assms(1)]
  have "\<exists>bs. encode_canonical DEFAULT_LIMITS (signature_value s sig) = Inr bs \<and> length bs \<le> size_bound (signature_value s sig)"
    by (rule encode_canonical_total)
      (use v in \<open>simp_all add: signature_value_def obj_def k(1,3) max_safe_integer_def del: js_Cons\<close>)
  then obtain sp where sp: "encode_canonical DEFAULT_LIMITS (signature_value s sig) = Inr sp"
    and len: "length sp \<le> size_bound (signature_value s sig)" by blast
  have "size_bound (signature_value s sig) \<le> 550"
    using v by (simp add: signature_value_def obj_def k(1,3) del: js_Cons)
  with len have lsp: "length sp \<le> 550" by simp
  have types: "frame_type_ok ''SIG1''" "frame_type_ok ''END!''" by (simp_all add: frame_type_ok_def)
  have "encode_frame type payload = Inr (frame_bytes type payload)"
    "encode_frame ''SIG1'' sp = Inr (frame_bytes ''SIG1'' sp)" "encode_frame ''END!'' [] = Inr (frame_bytes ''END!'' [])"
    using assms(3,4) lsp types by (simp_all add: encode_frame_bytes)
  moreover have "length type = 4" using assms(3) by (simp add: frame_type_ok_def)
  ultimately show ?thesis
    using assms(2) sp lsp by (simp add: container_def statement_file_def frame_bytes_def G9P_MAGIC_V2_def)
qed

text \<open>The size of a descriptor's object is within the limits of encoder, frames and files.\<close>

lemma length_utf8_lower: "length s \<le> length (utf8 s)"
proof (induction s rule: code_points.induct)
  case (3 u v us)
  have pair: "4 \<le> length (utf8_code_point (pair_code_point a b))" if "is_high_surrogate a" "is_low_surrogate b" for a b
    using that by (simp add: utf8_code_point_def pair_code_point_def is_high_surrogate_def is_low_surrogate_def)
  have one: "1 \<le> length (utf8_code_point n)" for n by (simp add: utf8_code_point_def)
  show ?case
  proof (cases "is_high_surrogate (unat u) \<and> is_low_surrogate (unat v)")
    case True
    then show ?thesis using 3(1) [OF True] pair [of "unat u" "unat v"] by (simp add: utf8_def)
  next
    case False
    then have "utf8 (u # v # us) = utf8_code_point (if is_surrogate (unat u) then 0xFFFD else unat u) @ utf8 (v # us)"
      by (auto simp: utf8_def)
    then show ?thesis using 3(2) [OF False] one [of "if is_surrogate (unat u) then 0xFFFD else unat u"] by simp
  qed
qed (simp_all add: utf8_def utf8_code_point_def)

lemma canonical_time_length: "is_canonical_timestamp s \<Longrightarrow> length s \<le> 27"
proof -
  assume "is_canonical_timestamp s"
  then obtain y t where split: "split_year s = Some (y, t)" and "tail_form t"
    by (auto simp: is_canonical_timestamp_def canonical_time_def split: option.splits if_splits prod.splits)
  then have t: "length t = 20" by (simp add: tail_form_def)
  from split consider u us where "s = u # us" "6 \<le> length us" "t = drop 6 us" | "4 \<le> length s" "t = drop 4 s"
    by (auto simp: split_year_def Let_def split: list.splits if_splits)
  then show ?thesis using t by cases auto
qed

lemma length_shard_name: "i < 65536 \<Longrightarrow> length (shard_name i) \<le> 11"
  using length_decimal [of 5 i] by (simp add: shard_name_def padded_def pad_start_def decimal_def)

lemma head_value_size:
  assumes "head_ok e i h" and "i < 65536" and "e \<le> max_safe_integer"
  shows "encodable (head_value h)" and "nesting (head_value h) \<le> 1" and "widest (head_value h) \<le> 4"
    and "size_bound (head_value h) \<le> 400"
proof -
  note len = length_shard_name [OF assms(2)]
  show "encodable (head_value h)" "nesting (head_value h) \<le> 1" "widest (head_value h) \<le> 4"
    "size_bound (head_value h) \<le> 400"
    using assms(1,3) len by (cases "head_sealed h"; auto simp: head_value_def obj_def head_ok_def)+
qed

lemma heads_size:
  assumes "heads_ok e hs" and "length hs \<le> 65536" and "e \<le> max_safe_integer"
  shows "list_all encodable (map head_value hs)" and "\<forall>h \<in> set hs. nesting (head_value h) \<le> 1"
    and "\<forall>h \<in> set hs. widest (head_value h) \<le> 4"
    and "sum_list (map size_bound (map head_value hs)) \<le> 65536 * 400"
proof -
  have each: "encodable (head_value h) \<and> nesting (head_value h) \<le> 1 \<and> widest (head_value h) \<le> 4
      \<and> size_bound (head_value h) \<le> 400" if h: "h \<in> set hs" for h
  proof -
    from h obtain i where "i < length hs" "hs ! i = h" by (auto simp: in_set_conv_nth)
    with assms(1,2) have "head_ok e i h" "i < 65536" by (auto simp: heads_ok_def)
    from head_value_size [OF this assms(3)] show ?thesis by simp
  qed
  then show "list_all encodable (map head_value hs)" "\<forall>h \<in> set hs. nesting (head_value h) \<le> 1"
    "\<forall>h \<in> set hs. widest (head_value h) \<le> 4"
    by (simp_all add: list_all_iff)
  have "sum_list (map (size_bound \<circ> head_value) hs) \<le> sum_list (map (\<lambda>_. 400) hs)"
    using each by (intro sum_list_mono) simp
  also have "\<dots> \<le> 65536 * 400" using assms(2) by (simp add: sum_list_triv)
  finally show "sum_list (map size_bound (map head_value hs)) \<le> 65536 * 400" by simp
qed

lemma descriptor_size:
  assumes "descriptor_ok X EPOCH_LIMITS d"
  shows "encodable (descriptor_value d)" and "nesting (descriptor_value d) \<le> 64"
    and "widest (descriptor_value d) \<le> 1000000" and "size_bound (descriptor_value d) \<le> 67000000"
proof -
  note ok = assms [unfolded descriptor_ok_def epoch_text_ok_def]
  let ?hs = "ep_previousShardHeads d"
  have hs: "heads_ok (ep_epochNumber d - 1) ?hs" "length ?hs \<le> 65536"
    using ok by (auto simp: EPOCH_LIMITS_def heads_ok_def split: if_splits)
  note h = heads_size [OF hs]
  have e: "ep_epochNumber d - 1 \<le> max_safe_integer" "int (ep_epochNumber d) \<le> int max_safe_integer" using ok by auto
  have texts: "length (ep_ledgerId d) \<le> 1024" "length (ep_reason d) \<le> 4096"
    using ok length_utf8_lower [of "ep_ledgerId d"] length_utf8_lower [of "ep_reason d"]
    by (auto simp: EPOCH_LIMITS_def)
  have time: "length (ep_createdAt d) \<le> 27" using ok canonical_time_length by auto
  have id: "length (id_keyId (ep_topologyAuthority d)) = 64" "length (id_publicKey (ep_topologyAuthority d)) = 44"
    using ok by (auto simp: identity_ok_def is_hex64_def)
  have link: "encodable (hash_or_null (ep_previousEpochHash d))" "nesting (hash_or_null (ep_previousEpochHash d)) = 0"
    "widest (hash_or_null (ep_previousEpochHash d)) = 0" "size_bound (hash_or_null (ep_previousEpochHash d)) \<le> 43"
    using ok by (auto simp: hash_or_null_def split: if_splits)
  have n: "ep_shardCount d \<le> max_safe_integer" using ok by (simp add: max_safe_integer_def)
  show "encodable (descriptor_value d)"
    using h(1) [OF e(1)] e(2) link(1) n
    by (simp add: descriptor_value_def obj_def routing_policy_def identity_value_def AUTHORIZATION_POLICY_def max_safe_integer_def del: js_Cons)
  show "nesting (descriptor_value d) \<le> 64"
    using h(2) [OF e(1)] link(2)
    by (auto simp: descriptor_value_def obj_def routing_policy_def identity_value_def AUTHORIZATION_POLICY_def simp del: js_Cons)
  show "widest (descriptor_value d) \<le> 1000000"
    using h(3) [OF e(1)] link(3) hs(2)
    by (fastforce simp: descriptor_value_def obj_def routing_policy_def identity_value_def AUTHORIZATION_POLICY_def simp del: js_Cons)
  show "size_bound (descriptor_value d) \<le> 67000000"
    using h(4) [OF e(1)] link(4) texts time id
    by (simp add: descriptor_value_def obj_def routing_policy_def identity_value_def AUTHORIZATION_POLICY_def ROUTING_POLICY_ID_def del: js_Cons)
qed

section \<open>Sample epochs\<close>

text \<open>A genesis epoch and its successor, which moves the ledger from two shards to three.\<close>

definition sample_authority :: signer where
  "sample_authority = \<lparr>algorithm = js ''ed25519'', keyId = public_key_id toy_platform (replicate 44 1),
     publicKeyDer = replicate 44 1, sign_operation = None, privateKey = Some [2]\<rparr>"

definition sample_genesis :: epoch_request where
  "sample_genesis = \<lparr>er_ledgerId = js ''L'', er_epochNumber = 0, er_routingPolicy = routing_policy 2,
     er_topologyAuthority = sample_authority, er_reason = js ''genesis'',
     er_createdAt = js ''2026-01-02T03:04:05.006Z'', er_previousEpochHash = None, er_previousShardHeads = [],
     er_previousRoutingPolicy = None, er_authorizationPolicy = AUTHORIZATION_POLICY\<rparr>"

definition sample_heads :: "shard_head list" where
  "sample_heads = [\<lparr>head_epoch = 0, head_shard = shard_name 0, head_sealed = Some (4, replicate 32 6)\<rparr>,
     \<lparr>head_epoch = 0, head_shard = shard_name 1, head_sealed = None\<rparr>]"

definition sample_successor :: epoch_request where
  "sample_successor = \<lparr>er_ledgerId = js ''L'', er_epochNumber = 1, er_routingPolicy = routing_policy 3,
     er_topologyAuthority = sample_authority, er_reason = js ''grow'',
     er_createdAt = js ''2026-01-02T03:04:05.007Z'', er_previousEpochHash = Some (replicate 32 5),
     er_previousShardHeads = sample_heads, er_previousRoutingPolicy = Some (routing_policy 2),
     er_authorizationPolicy = AUTHORIZATION_POLICY\<rparr>"

lemma sample_authority_signs:
  "\<exists>sig. sign_domain_with_signer toy_platform sample_authority domain payload = Inr sig"
  "validate_signer toy_platform sample_authority code = Inr ()"
proof -
  show v: "validate_signer toy_platform sample_authority code = Inr ()" for code
    by (simp add: validate_signer_def sample_authority_def can_sign_def del: js_Cons) (simp add: toy_platform_def)
  show "\<exists>sig. sign_domain_with_signer toy_platform sample_authority domain payload = Inr sig"
    using length_domain_digest [OF toy_sha256_ok] v
    by (simp add: sign_domain_with_signer_def Let_def del: js_Cons)
       (simp add: sample_authority_def sign_message_def toy_platform_def del: js_Cons)
qed

lemma sample_identity_ok:
  "identity_ok \<lparr>id_keyId = keyId sample_authority, id_publicKey = publicKeyDer sample_authority\<rparr>"
  using length_domain_digest [OF toy_sha256_ok]
  by (simp add: identity_ok_def sample_authority_def public_key_id_def is_hex64_to_hex)

lemma length_sample_heads: "length sample_heads = 2"
  by (simp add: sample_heads_def)

lemma sample_heads_ok: "heads_ok 0 sample_heads"
  by (simp add: heads_ok_def head_ok_def sample_heads_def less_Suc_eq max_safe_integer_def)

lemma short_text_ok: "s \<noteq> [] \<Longrightarrow> 2 * length s \<le> n \<Longrightarrow> epoch_text_ok toy_platform n (js s)"
  using length_utf8_js [of s] by (simp add: epoch_text_ok_def del: js_Cons)

lemma sample_texts_ok:
  "epoch_text_ok toy_platform 1024 (js ''L'')" "epoch_text_ok toy_platform 4096 (js ''genesis'')"
  "epoch_text_ok toy_platform 4096 (js ''grow'')"
  by (rule short_text_ok; simp)+

lemma sample_descriptors_ok:
  "descriptor_ok toy_platform EPOCH_LIMITS (request_descriptor sample_genesis)"
  "descriptor_ok toy_platform EPOCH_LIMITS (request_descriptor sample_successor)"
  "portable_descriptor (request_descriptor sample_genesis)"
  "portable_descriptor (request_descriptor sample_successor)"
proof -
  have "length sample_heads = 2" "sample_heads \<noteq> []" using length_sample_heads by auto
  then show "descriptor_ok toy_platform EPOCH_LIMITS (request_descriptor sample_genesis)"
    "descriptor_ok toy_platform EPOCH_LIMITS (request_descriptor sample_successor)"
    using sample_times sample_identity_ok sample_heads_ok sample_texts_ok
    by (simp_all add: descriptor_ok_def request_descriptor_def sample_genesis_def
        sample_successor_def max_safe_integer_def EPOCH_LIMITS_def del: js_Cons)
  show "portable_descriptor (request_descriptor sample_genesis)"
    "portable_descriptor (request_descriptor sample_successor)"
    by (simp_all add: portable_descriptor_def request_descriptor_def sample_genesis_def sample_successor_def del: js_Cons)
qed

lemma sample_descriptors_written:
  "descriptor_for_write toy_platform EPOCH_LIMITS sample_genesis = Inr (request_descriptor sample_genesis)"
  "descriptor_for_write toy_platform EPOCH_LIMITS sample_successor = Inr (request_descriptor sample_successor)"
proof -
  show "descriptor_for_write toy_platform EPOCH_LIMITS sample_genesis = Inr (request_descriptor sample_genesis)"
    by (rule descriptor_for_write_total [where n = 2, OF _ _ _ sample_descriptors_ok(1,3)])
      (simp_all add: sample_genesis_def sample_authority_signs(2))
  show "descriptor_for_write toy_platform EPOCH_LIMITS sample_successor = Inr (request_descriptor sample_successor)"
    by (rule descriptor_for_write_total [where n = 3, OF _ _ _ sample_descriptors_ok(2,4)])
      (auto simp: sample_successor_def sample_authority_signs(2) length_sample_heads intro!: exI [of _ 2])
qed

section \<open>What an epoch promises\<close>

lemma write_routing_epoch_total:
  assumes "sha256_ok X" and "descriptor_for_write X EPOCH_LIMITS rq = Inr d"
    and "\<And>payload. \<exists>sig. sign_domain_with_signer X (er_topologyAuthority rq) ''routing-epoch-signature-v1'' payload = Inr sig"
  shows "\<exists>bytes result. write_routing_epoch X rq = Inr (bytes, result) \<and> length bytes \<le> 67108864"
proof -
  note size = descriptor_size [OF descriptor_for_write_Inr(1) [OF assms(2)]]
  from encode_canonical_total [OF size(1-3)] size(4) obtain payload where
    payload: "encode_canonical DEFAULT_LIMITS (descriptor_value d) = Inr payload" "length payload \<le> 67000000"
    by force
  from assms(3) obtain sig where
    "sign_domain_with_signer X (er_topologyAuthority rq) ''routing-epoch-signature-v1'' payload = Inr sig" by blast
  from container_total [OF assms(1) this, of "''RTE1''"] payload(2) obtain bytes where
    "container X ''RTE1'' payload (er_topologyAuthority rq) ''routing-epoch-signature-v1'' = Inr bytes"
    "length bytes \<le> 67108864" by (auto simp: frame_type_ok_def)
  with assms(2) payload show ?thesis by (simp add: write_routing_epoch_def)
qed

lemma write_routing_epoch_length:
  assumes "sha256_ok X" and "write_routing_epoch X rq = Inr (bytes, result)"
  shows "length bytes \<le> 67108864"
proof -
  let ?s = "er_topologyAuthority rq"
  from assms(2) obtain d payload sig where d: "descriptor_for_write X EPOCH_LIMITS rq = Inr d"
    and payload: "encode_canonical DEFAULT_LIMITS (descriptor_value d) = Inr payload"
    and sig: "sign_domain_with_signer X ?s ''routing-epoch-signature-v1'' payload = Inr sig"
    and cont: "container X ''RTE1'' payload ?s ''routing-epoch-signature-v1'' = Inr bytes"
    by (auto simp: write_routing_epoch_def container_def res_simps)
  note size = descriptor_size [OF descriptor_for_write_Inr(1) [OF d]]
  from encode_canonical_total [OF size(1-3)] size(4) payload have "length payload \<le> 67000000" by force
  with container_total [OF assms(1) sig, of "''RTE1''"] cont show ?thesis by (auto simp: frame_type_ok_def)
qed

text \<open>The bytes hashed for the epoch hash of a file.\<close>

definition epoch_preimage :: "byte list \<Rightarrow> byte list" where
  "epoch_preimage bytes = (case read_statement 67108864 ''RTE1'' ''EPOCH_END_FRAME'' bytes of
     Inr (payload, _) \<Rightarrow> hash_input ''routing-epoch-v1'' [payload] | Inl _ \<Rightarrow> [])"

lemma read_frame_payload: "read_frame M type bs = Inr (payload, rest) \<Longrightarrow> length payload \<le> length bs"
  by (auto simp: read_frame_def Let_def res_simps FRAME_HEADER_BYTES_def)

lemma read_statement_length:
  assumes "read_statement M type code bytes = Inr (payload, sp)"
  shows "length payload \<le> length bytes"
proof -
  from assms obtain bs rest where "read_magic G9P_MAGIC_V2 bytes = Inr bs" "read_frame M type bs = Inr (payload, rest)"
    by (auto simp: read_statement_def bindR_Inr_iff andThen_Inr_iff)
  then show ?thesis by (auto simp: read_magic_def res_simps dest!: read_frame_payload)
qed

lemma verify_routing_epoch_bytes_Inr:
  assumes "verify_routing_epoch_bytes X opts bytes = Inr v"
  obtains payload sp signature where
    "read_statement (el_maxFrameBytes (eo_limits opts)) ''RTE1'' ''EPOCH_END_FRAME'' bytes = Inr (payload, sp)"
    and "bindR (decode_canonical DEFAULT_LIMITS payload) (validate_descriptor X (eo_limits opts)) = Inr (ve_descriptor v)"
    and "descriptor_ok X (eo_limits opts) (ve_descriptor v)"
    and "verify_domain_commitment X (id_publicKey (ep_topologyAuthority (ve_descriptor v))) ''routing-epoch-signature-v1'' payload signature"
    and "public_key_id X (id_publicKey (ep_topologyAuthority (ve_descriptor v))) = id_keyId (ep_topologyAuthority (ve_descriptor v))"
    and "eo_requireTrustedAuthority opts \<Longrightarrow> id_keyId (ep_topologyAuthority (ve_descriptor v)) \<in> set (eo_trustedKeyIds opts)"
    and "epoch_expectations opts (ve_descriptor v) = Inr ()"
    and "ve_epochHash v = to_hex (epoch_hash X payload)" and "length bytes \<le> el_maxFileBytes (eo_limits opts)"
proof -
  from assms obtain payload sp d sigv trusted where
    r: "read_statement (el_maxFrameBytes (eo_limits opts)) ''RTE1'' ''EPOCH_END_FRAME'' bytes = Inr (payload, sp)"
    and d: "bindR (decode_canonical DEFAULT_LIMITS payload) (validate_descriptor X (eo_limits opts)) = Inr d"
    and a: "epoch_authority_signed X opts d payload (bytes_of (get_prop sigv ''signature'')) = Inr trusted"
    and e: "epoch_expectations opts d = Inr ()" and len: "length bytes \<le> el_maxFileBytes (eo_limits opts)"
    and v: "v = \<lparr>ve_descriptor = d, ve_epochHash = to_hex (epoch_hash X payload),
           ve_fileHash = to_hex (domain_digest X ''routing-epoch-file-v1'' [bytes]),
           ve_trusted = trusted, ve_byteLength = length bytes\<rparr>"
    unfolding verify_routing_epoch_bytes_def Let_def
    by (auto simp: bindR_Inr_iff andThen_Inr_iff invariant_Inr_iff)
  from d have "descriptor_ok X (eo_limits opts) d" by (auto simp: bindR_Inr_iff intro: validate_descriptor_Inr)
  moreover from a have
    "verify_domain_commitment X (id_publicKey (ep_topologyAuthority d)) ''routing-epoch-signature-v1'' payload (bytes_of (get_prop sigv ''signature''))"
    "public_key_id X (id_publicKey (ep_topologyAuthority d)) = id_keyId (ep_topologyAuthority d)"
    "eo_requireTrustedAuthority opts \<Longrightarrow> id_keyId (ep_topologyAuthority d) \<in> set (eo_trustedKeyIds opts)"
    by (auto simp: epoch_authority_signed_def Let_def res_simps)
  ultimately show thesis using r d e len by (intro that) (simp_all add: v)
qed

end
