(* ===== verification/G9P_Epoch_Theorems.thy ===== *)
theory G9P_Epoch_Theorems
  imports G9P_Routing_Epoch_Props
begin

text \<open>
  The properties of routing epochs, each with an instance at a genesis epoch of two shards and
  its successor of three.
\<close>

text \<open>
  C28: A routing epoch that \<open>writeRoutingEpoch\<close> produces is accepted by \<open>verifyRoutingEpochBytes\<close>
  under every caller's options that it satisfies, as the very descriptor it was written from and
  with the hashes and the size the writer reported. The ledger id and the reason are texts that
  survive UTF-8.
\<close>

theorem written_epoch_verifies:
  assumes "sha256_ok X" and "write_routing_epoch X rq = Inr (bytes, result)"
    and "descriptor_for_write X EPOCH_LIMITS rq = Inr d"
    and "portable_text (er_ledgerId rq)" and "portable_text (er_reason rq)"
    and "epoch_options_match opts d"
  shows "\<exists>v. verify_routing_epoch_bytes X opts bytes = Inr v \<and> ve_descriptor v = d
    \<and> ve_epochHash v = ew_epochHash result \<and> ve_fileHash v = ew_fileHash result
    \<and> ve_byteLength v = ew_byteLength result"
  by (rule write_then_verify_epoch [OF assms(1-5) write_routing_epoch_length [OF assms(1,2)] assms(6)])

definition sample_epoch_options :: epoch_options where
  "sample_epoch_options = \<lparr>eo_limits = EPOCH_LIMITS, eo_trustedKeyIds = [keyId sample_authority],
     eo_requireTrustedAuthority = True, eo_expectedLedgerId = Some (js ''L''), eo_expectedEpochNumber = Some 1,
     eo_expectedPreviousEpochHash = Some (Some (replicate 32 5)),
     eo_expectedPreviousRoutingPolicy = Some (routing_policy 2)\<rparr>"

lemma policy_two: "epoch_policy (routing_policy 2) = Inr 2"
  using epoch_policy_written [of 2] epoch_parts_canon(1) [of "routing_policy 2"] by (simp add: max_safe_integer_def)

lemma sample_epoch_options_match: "epoch_options_match sample_epoch_options (request_descriptor sample_successor)"
  using policy_two length_sample_heads
  by (simp add: epoch_options_match_def sample_epoch_options_def epoch_expectations_def request_descriptor_def
      sample_successor_def hash_or_null_def buffers_equal_def del: js_Cons)

lemma sample_epoch_written:
  obtains bytes result where "write_routing_epoch toy_platform sample_successor = Inr (bytes, result)"
proof -
  have "er_topologyAuthority sample_successor = sample_authority" by (simp add: sample_successor_def)
  then show thesis
    using write_routing_epoch_total [OF toy_sha256_ok sample_descriptors_written(2)] sample_authority_signs(1) that
    by auto
qed

lemma sample_epoch_verified:
  obtains bytes v where "verify_routing_epoch_bytes toy_platform sample_epoch_options bytes = Inr v"
proof -
  obtain bytes result where w: "write_routing_epoch toy_platform sample_successor = Inr (bytes, result)"
    by (rule sample_epoch_written)
  have "portable_text (er_ledgerId sample_successor)" "portable_text (er_reason sample_successor)"
    by (simp_all add: sample_successor_def del: js_Cons)
  from write_then_verify_epoch [OF toy_sha256_ok w sample_descriptors_written(2) this
      write_routing_epoch_length [OF toy_sha256_ok w] sample_epoch_options_match]
  obtain v where v: "verify_routing_epoch_bytes toy_platform sample_epoch_options bytes = Inr v" by blast
  then show thesis by (rule that)
qed

lemma written_epoch_verifies_witness:
  "\<exists>bytes result v. write_routing_epoch toy_platform sample_successor = Inr (bytes, result)
    \<and> verify_routing_epoch_bytes toy_platform sample_epoch_options bytes = Inr v
    \<and> ep_previousShardHeads (ve_descriptor v) = sample_heads"
proof -
  obtain bytes result where w: "write_routing_epoch toy_platform sample_successor = Inr (bytes, result)"
    by (rule sample_epoch_written)
  have "portable_text (er_ledgerId sample_successor)" "portable_text (er_reason sample_successor)"
    by (simp_all add: sample_successor_def del: js_Cons)
  from written_epoch_verifies [OF toy_sha256_ok w sample_descriptors_written(2) this sample_epoch_options_match]
  obtain v where "verify_routing_epoch_bytes toy_platform sample_epoch_options bytes = Inr v"
    "ve_descriptor v = request_descriptor sample_successor" by blast
  with w show ?thesis by (simp add: request_descriptor_def sample_successor_def)
qed

text \<open>
  Writing an epoch succeeds. A request that validates (its descriptor is well-formed and, for a
  successor, has one head per shard of the previous policy) is written for every signer that
  signs, however long the list of heads: the encoder, the frames and the file stay within their
  limits.
\<close>

theorem epoch_writing_succeeds:
  assumes "sha256_ok X" and "descriptor_for_write X EPOCH_LIMITS rq = Inr d"
    and "\<And>payload. \<exists>sig. sign_domain_with_signer X (er_topologyAuthority rq) ''routing-epoch-signature-v1'' payload = Inr sig"
  shows "\<exists>bytes result. write_routing_epoch X rq = Inr (bytes, result) \<and> length bytes \<le> el_maxFileBytes EPOCH_LIMITS"
  using write_routing_epoch_total [OF assms] by simp

lemma epoch_writing_succeeds_witness:
  "\<exists>bytes result. write_routing_epoch toy_platform sample_genesis = Inr (bytes, result)
    \<and> length bytes \<le> el_maxFileBytes EPOCH_LIMITS"
proof (rule epoch_writing_succeeds [OF toy_sha256_ok sample_descriptors_written(1)])
  show "\<exists>sig. sign_domain_with_signer toy_platform (er_topologyAuthority sample_genesis) ''routing-epoch-signature-v1'' payload = Inr sig"
    for payload using sample_authority_signs(1) by (simp add: sample_genesis_def)
qed

text \<open>
  C40: The hash of an epoch commits to the whole descriptor: two files that verify (under any trust
  options, at the default limits) with the same epoch hash carry the same descriptor, its shard
  heads included, unless SHA-256 collides on the two byte strings hashed. So the link a successor
  stores determines its predecessor.
\<close>

theorem epoch_hash_commits:
  assumes "verify_routing_epoch_bytes X opts bytes = Inr v" and "verify_routing_epoch_bytes X opts' bytes' = Inr w"
    and "eo_limits opts = EPOCH_LIMITS" and "eo_limits opts' = EPOCH_LIMITS"
    and "inj_on (sha256 X) {epoch_preimage bytes, epoch_preimage bytes'}"
    and "ve_epochHash v = ve_epochHash w"
  shows "ve_descriptor v = ve_descriptor w"
proof -
  from assms(1,3) obtain p s where
    p: "read_statement 67108864 ''RTE1'' ''EPOCH_END_FRAME'' bytes = Inr (p, s)"
      "bindR (decode_canonical DEFAULT_LIMITS p) (validate_descriptor X EPOCH_LIMITS) = Inr (ve_descriptor v)"
      "ve_epochHash v = to_hex (epoch_hash X p)" "length bytes \<le> 67108864"
    by (elim verify_routing_epoch_bytes_Inr) auto
  from assms(2,4) obtain q s' where
    q: "read_statement 67108864 ''RTE1'' ''EPOCH_END_FRAME'' bytes' = Inr (q, s')"
      "bindR (decode_canonical DEFAULT_LIMITS q) (validate_descriptor X EPOCH_LIMITS) = Inr (ve_descriptor w)"
      "ve_epochHash w = to_hex (epoch_hash X q)" "length bytes' \<le> 67108864"
    by (elim verify_routing_epoch_bytes_Inr) auto
  have small: "length p < 256 ^ 8" "length q < 256 ^ 8"
    using read_statement_length [OF p(1)] read_statement_length [OF q(1)] p(4) q(4) by simp_all
  have "domain_digest X ''routing-epoch-v1'' [p] = domain_digest X ''routing-epoch-v1'' [q]"
    using assms(6) p(3) q(3) by (simp add: to_hex_inj epoch_hash_def)
  moreover have "inj_on (sha256 X) {hash_input ''routing-epoch-v1'' [p], hash_input ''routing-epoch-v1'' [q]}"
    using assms(5) p(1) q(1) by (simp add: epoch_preimage_def)
  moreover have "hashable ''routing-epoch-v1'' [p]" "hashable ''routing-epoch-v1'' [q]"
    using small by (simp_all add: hashable_short)
  ultimately have "[p] = [q]"
    using domain_digest_inj [of X "{hash_input ''routing-epoch-v1'' [p], hash_input ''routing-epoch-v1'' [q]}"
      "''routing-epoch-v1''" "[p]" "''routing-epoch-v1''" "[q]"] by blast
  with p(2) q(2) show ?thesis by simp
qed

lemma epoch_hash_commits_witness:
  "\<exists>bytes v. verify_routing_epoch_bytes toy_platform sample_epoch_options bytes = Inr v
    \<and> ve_descriptor v = ve_descriptor v"
proof -
  obtain bytes v where v: "verify_routing_epoch_bytes toy_platform sample_epoch_options bytes = Inr v"
    by (rule sample_epoch_verified)
  have "eo_limits sample_epoch_options = EPOCH_LIMITS" by (simp add: sample_epoch_options_def)
  from epoch_hash_commits [OF v v this this] v show ?thesis by auto
qed

text \<open>
  C29: An epoch that verifies as the successor of a given hash and routing policy carries a complete
  statement of its predecessor's shards: one head for each of them, in order, named by the
  preceding epoch's number and the shard's own name, sealed with a 32-byte hash or stated empty;
  and the frame it was read from is signed by the topology authority whose key id it carries, a
  trusted one.
\<close>

theorem verified_successor_is_complete:
  assumes "verify_routing_epoch_bytes X opts bytes = Inr v"
    and "eo_expectedPreviousRoutingPolicy opts = Some policy" and "eo_expectedPreviousEpochHash opts = Some (Some h)"
    and "eo_requireTrustedAuthority opts"
  defines "d \<equiv> ve_descriptor v"
  shows "ep_previousEpochHash d = Some h \<and> 0 < ep_epochNumber d
    \<and> length (ep_previousShardHeads d) = policy_shard_count policy
    \<and> (\<forall>i < policy_shard_count policy. head_ok (ep_epochNumber d - 1) i (ep_previousShardHeads d ! i))
    \<and> id_keyId (ep_topologyAuthority d) \<in> set (eo_trustedKeyIds opts)
    \<and> public_key_id X (id_publicKey (ep_topologyAuthority d)) = id_keyId (ep_topologyAuthority d)
    \<and> (\<exists>payload sp signature.
        read_statement (el_maxFrameBytes (eo_limits opts)) ''RTE1'' ''EPOCH_END_FRAME'' bytes = Inr (payload, sp)
        \<and> verify_domain_commitment X (id_publicKey (ep_topologyAuthority d))
            ''routing-epoch-signature-v1'' payload signature)"
  using assms(1)
proof (rule verify_routing_epoch_bytes_Inr, fold d_def)
  fix payload sp signature
  assume r: "read_statement (el_maxFrameBytes (eo_limits opts)) ''RTE1'' ''EPOCH_END_FRAME'' bytes = Inr (payload, sp)"
    and ok: "descriptor_ok X (eo_limits opts) d" and e: "epoch_expectations opts d = Inr ()"
    and sig: "verify_domain_commitment X (id_publicKey (ep_topologyAuthority d)) ''routing-epoch-signature-v1'' payload signature"
      "public_key_id X (id_publicKey (ep_topologyAuthority d)) = id_keyId (ep_topologyAuthority d)"
      "eo_requireTrustedAuthority opts \<Longrightarrow> id_keyId (ep_topologyAuthority d) \<in> set (eo_trustedKeyIds opts)"
  from e assms(2,3) have "epoch_policy policy = Inr (length (ep_previousShardHeads d))"
    and pos: "0 < ep_epochNumber d" and link: "buffers_equal (hash_or_null (ep_previousEpochHash d)) h ''EPOCH_PREVIOUS'' = Inr ()"
    by (auto simp: epoch_expectations_def res_simps)
  then have "length (ep_previousShardHeads d) = policy_shard_count policy" using epoch_policy_Inr by simp
  moreover have "ep_previousEpochHash d = Some h"
    using link by (auto simp: buffers_equal_def hash_or_null_def res_simps split: option.splits)
  ultimately show ?thesis
    using ok pos r sig assms(4) by (auto simp: descriptor_ok_def heads_ok_def)
qed

lemma verified_successor_is_complete_witness:
  "\<exists>bytes v. verify_routing_epoch_bytes toy_platform sample_epoch_options bytes = Inr v
    \<and> (\<forall>i < 2. head_ok (ep_epochNumber (ve_descriptor v) - 1) i (ep_previousShardHeads (ve_descriptor v) ! i))"
proof -
  obtain bytes v where v: "verify_routing_epoch_bytes toy_platform sample_epoch_options bytes = Inr v"
    by (rule sample_epoch_verified)
  have "eo_expectedPreviousRoutingPolicy sample_epoch_options = Some (routing_policy 2)"
    "eo_expectedPreviousEpochHash sample_epoch_options = Some (Some (replicate 32 5))"
    "eo_requireTrustedAuthority sample_epoch_options" by (simp_all add: sample_epoch_options_def)
  from verified_successor_is_complete [OF v this] v show ?thesis by auto
qed

end
