(* ===== verification/G9P_Checkpoint.thy ===== *)
theory G9P_Checkpoint
  imports G9P_Routing_Epoch_Props
begin

text \<open>
  Checkpoints, witness receipts and threshold attestation (src/src/checkpoint.js). A checkpoint
  states the heads of all shards of a ledger at one routing epoch; a witness receipt states that a
  witness observed it; a threshold policy says how many distinct witnesses make it attested.
\<close>

section \<open>Descriptors\<close>

record attestation_limits =
  al_maxFileBytes :: nat
  al_maxFrameBytes :: nat
  al_maxShardHeads :: nat
  al_maxWitnesses :: nat

definition ATTESTATION_LIMITS :: attestation_limits where
  "ATTESTATION_LIMITS = \<lparr>al_maxFileBytes = 67108864, al_maxFrameBytes = 67108864,
     al_maxShardHeads = 65536, al_maxWitnesses = 1024\<rparr>"

record checkpoint =
  cp_ledgerId :: jsstr
  cp_checkpointNumber :: nat
  cp_createdAt :: jsstr
  cp_previousCheckpointHash :: "byte list option"
  cp_routingEpochNumber :: nat
  cp_routingEpochHash :: "byte list"
  cp_shardHeads :: "shard_head list"
  cp_publisher :: identity

record witness_receipt =
  wr_ledgerId :: jsstr
  wr_checkpointNumber :: nat
  wr_checkpointHash :: "byte list"
  wr_checkpointFileHash :: "byte list"
  wr_observedAt :: jsstr
  wr_witness :: identity

definition CHECKPOINT_FIELDS :: "string list" where
  "CHECKPOINT_FIELDS = [''kind'', ''protocolVersion'', ''ledgerId'', ''checkpointNumber'', ''createdAt'',
     ''previousCheckpointHash'', ''routingEpochNumber'', ''routingEpochHash'', ''shardHeads'', ''publisher'']"

definition WITNESS_FIELDS :: "string list" where
  "WITNESS_FIELDS = [''kind'', ''protocolVersion'', ''ledgerId'', ''checkpointNumber'', ''checkpointHash'',
     ''checkpointFileHash'', ''observedAt'', ''witness'']"

definition checkpoint_value :: "checkpoint \<Rightarrow> jsval" where
  "checkpoint_value c = obj
     [(''kind'', JStr (js ''g9p-checkpoint'')),
      (''protocolVersion'', JInt 1),
      (''ledgerId'', JStr (cp_ledgerId c)),
      (''checkpointNumber'', JInt (int (cp_checkpointNumber c))),
      (''createdAt'', JStr (cp_createdAt c)),
      (''previousCheckpointHash'', hash_or_null (cp_previousCheckpointHash c)),
      (''routingEpochNumber'', JInt (int (cp_routingEpochNumber c))),
      (''routingEpochHash'', JBytes (cp_routingEpochHash c)),
      (''shardHeads'', JArr (map head_value (cp_shardHeads c))),
      (''publisher'', identity_value (cp_publisher c))]"

definition receipt_value :: "witness_receipt \<Rightarrow> jsval" where
  "receipt_value r = obj
     [(''kind'', JStr (js ''g9p-witness-receipt'')),
      (''protocolVersion'', JInt 1),
      (''ledgerId'', JStr (wr_ledgerId r)),
      (''checkpointNumber'', JInt (int (wr_checkpointNumber r))),
      (''checkpointHash'', JBytes (wr_checkpointHash r)),
      (''checkpointFileHash'', JBytes (wr_checkpointFileHash r)),
      (''observedAt'', JStr (wr_observedAt r)),
      (''witness'', identity_value (wr_witness r))]"

section \<open>Validation\<close>

definition attest_exact :: "jsval \<Rightarrow> string list \<Rightarrow> string \<Rightarrow> unit res" where
  "attest_exact v names code = checks
     [invariant (is_object v) code, invariant (exact_keys v names) code]"

definition attest_integer :: "jsval \<Rightarrow> unit res" where
  "attest_integer v = invariant (int_in 0 MAX_SAFE v) ''ATTESTATION_INTEGER''"

definition attest_timestamp :: "jsval \<Rightarrow> unit res" where
  "attest_timestamp v = invariant (timestamp_text v) ''ATTESTATION_TIMESTAMP''"

definition attest_hash :: "jsval \<Rightarrow> unit res" where
  "attest_hash v = invariant (is_bytes 32 v) ''ATTESTATION_HASH''"

definition attest_hash_or_null :: "jsval \<Rightarrow> unit res" where
  "attest_hash_or_null v = (if v = JNull then Inr () else attest_hash v)"

definition attest_identity :: "platform \<Rightarrow> jsval \<Rightarrow> identity res" where
  "attest_identity X v =
     andThen (checks
       [attest_exact v [''algorithm'', ''keyId'', ''publicKey''] ''ATTESTATION_IDENTITY'',
        invariant (is_js ''ed25519'' (get_prop v ''algorithm'') \<and> hash_text (get_prop v ''keyId''))
          ''ATTESTATION_IDENTITY'',
        invariant (is_bytes 44 (get_prop v ''publicKey'')) ''ATTESTATION_IDENTITY'',
        invariant (get_prop v ''keyId'' = JStr (public_key_id X (bytes_of (get_prop v ''publicKey''))))
          ''ATTESTATION_IDENTITY''])
     (Inr (identity_of v))"

definition attest_signature :: "jsval \<Rightarrow> identity \<Rightarrow> unit res" where
  "attest_signature v s = checks
     [attest_exact v [''algorithm'', ''keyId'', ''signature''] ''ATTESTATION_SIGNATURE'',
      invariant (is_js ''ed25519'' (get_prop v ''algorithm'') \<and> get_prop v ''keyId'' = JStr (id_keyId s)
        \<and> is_bytes 64 (get_prop v ''signature'')) ''ATTESTATION_SIGNATURE'']"

definition signer_identity :: "platform \<Rightarrow> signer \<Rightarrow> identity res" where
  "signer_identity X s =
     andThen (checks
       [invariant (algorithm s = js ''ed25519'' \<and> can_sign s) ''ATTESTATION_SIGNER'',
        invariant (public_key_id X (publicKeyDer s) = keyId s) ''ATTESTATION_SIGNER''])
     (Inr \<lparr>id_keyId = keyId s, id_publicKey = publicKeyDer s\<rparr>)"

definition checkpoint_head :: "nat \<Rightarrow> nat \<times> jsval \<Rightarrow> shard_head res" where
  "checkpoint_head number = (\<lambda>(i, head).
     andThen (checks
       [attest_exact head HEAD_FIELDS ''CHECKPOINT_HEAD'',
        invariant (get_prop head ''epochNumber'' = JInt (int number) \<and> get_prop head ''shardId'' = JStr (shard_name i))
          ''CHECKPOINT_HEAD'',
        invariant (head_empty head \<or> head_full head) ''CHECKPOINT_HEAD''])
     (Inr (head_of head)))"

definition checkpoint_heads :: "attestation_limits \<Rightarrow> nat \<Rightarrow> jsval \<Rightarrow> shard_head list res" where
  "checkpoint_heads L number v =
     andThen (invariant (is_array v \<and> 1 \<le> length (array_items v) \<and> length (array_items v) \<le> al_maxShardHeads L)
       ''CHECKPOINT_HEADS'')
     (mapR (checkpoint_head number) (enumerate 0 (array_items v)))"

definition validate_checkpoint :: "platform \<Rightarrow> attestation_limits \<Rightarrow> jsval \<Rightarrow> checkpoint res" where
  "validate_checkpoint X L v =
     (let number = nat (int_of (get_prop v ''routingEpochNumber'')) in
      andThen (checks
        [attest_exact v CHECKPOINT_FIELDS ''CHECKPOINT_FIELDS'',
         invariant (is_js ''g9p-checkpoint'' (get_prop v ''kind'') \<and> get_prop v ''protocolVersion'' = JInt 1
           \<and> non_empty_string (get_prop v ''ledgerId'')) ''CHECKPOINT_VERSION'',
         attest_integer (get_prop v ''routingEpochNumber''),
         attest_integer (get_prop v ''checkpointNumber''),
         attest_timestamp (get_prop v ''createdAt''),
         attest_hash_or_null (get_prop v ''previousCheckpointHash''),
         attest_hash (get_prop v ''routingEpochHash'')])
      (bindR (checkpoint_heads L number (get_prop v ''shardHeads'')) (\<lambda>heads.
       bindR (attest_identity X (get_prop v ''publisher'')) (\<lambda>publisher.
       Inr \<lparr>cp_ledgerId = text_prop v ''ledgerId'',
         cp_checkpointNumber = nat (int_of (get_prop v ''checkpointNumber'')),
         cp_createdAt = text_prop v ''createdAt'',
         cp_previousCheckpointHash = optional_bytes (get_prop v ''previousCheckpointHash''),
         cp_routingEpochNumber = number,
         cp_routingEpochHash = bytes_of (get_prop v ''routingEpochHash''),
         cp_shardHeads = heads, cp_publisher = publisher\<rparr>))))"

definition validate_witness :: "platform \<Rightarrow> jsval \<Rightarrow> witness_receipt res" where
  "validate_witness X v =
     andThen (checks
       [attest_exact v WITNESS_FIELDS ''WITNESS_FIELDS'',
        invariant (is_js ''g9p-witness-receipt'' (get_prop v ''kind'') \<and> get_prop v ''protocolVersion'' = JInt 1
          \<and> non_empty_string (get_prop v ''ledgerId'')) ''WITNESS_VERSION'',
        attest_integer (get_prop v ''checkpointNumber''),
        attest_hash (get_prop v ''checkpointHash''),
        attest_hash (get_prop v ''checkpointFileHash''),
        attest_timestamp (get_prop v ''observedAt'')])
     (bindR (attest_identity X (get_prop v ''witness'')) (\<lambda>witness.
      Inr \<lparr>wr_ledgerId = text_prop v ''ledgerId'',
        wr_checkpointNumber = nat (int_of (get_prop v ''checkpointNumber'')),
        wr_checkpointHash = bytes_of (get_prop v ''checkpointHash''),
        wr_checkpointFileHash = bytes_of (get_prop v ''checkpointFileHash''),
        wr_observedAt = text_prop v ''observedAt'', wr_witness = witness\<rparr>))"

section \<open>Checkpoints\<close>

definition attest_trusted :: "jsstr list \<Rightarrow> bool \<Rightarrow> jsstr \<Rightarrow> string \<Rightarrow> bool res" where
  "attest_trusted trusted required key code =
     andThen (if required then invariant (key \<in> set trusted) code else Inr ()) (Inr (key \<in> set trusted))"

definition checkpoint_hash :: "platform \<Rightarrow> byte list \<Rightarrow> byte list" where
  "checkpoint_hash X payload = domain_digest X ''checkpoint-v1'' [payload]"

definition checkpoint_file_hash :: "platform \<Rightarrow> byte list \<Rightarrow> byte list" where
  "checkpoint_file_hash X bytes = domain_digest X ''checkpoint-file-v1'' [bytes]"

record checkpoint_request =
  cr_ledgerId :: jsstr
  cr_checkpointNumber :: nat
  cr_previousCheckpointHash :: "byte list option"
  cr_routingEpochNumber :: nat
  cr_routingEpochHash :: "byte list"
  cr_shardHeads :: "shard_head list"
  cr_publisher :: signer
  cr_createdAt :: jsstr

definition requested_checkpoint :: "checkpoint_request \<Rightarrow> identity \<Rightarrow> checkpoint" where
  "requested_checkpoint rq i = \<lparr>cp_ledgerId = cr_ledgerId rq, cp_checkpointNumber = cr_checkpointNumber rq,
     cp_createdAt = cr_createdAt rq, cp_previousCheckpointHash = cr_previousCheckpointHash rq,
     cp_routingEpochNumber = cr_routingEpochNumber rq, cp_routingEpochHash = cr_routingEpochHash rq,
     cp_shardHeads = cr_shardHeads rq, cp_publisher = i\<rparr>"

record checkpoint_result =
  cw_ledgerId :: jsstr
  cw_checkpointNumber :: nat
  cw_checkpointHash :: jsstr
  cw_fileHash :: jsstr
  cw_publisherKeyId :: jsstr
  cw_byteLength :: nat

definition write_checkpoint :: "platform \<Rightarrow> checkpoint_request \<Rightarrow> (byte list \<times> checkpoint_result) res" where
  "write_checkpoint X rq =
     bindR (signer_identity X (cr_publisher rq)) (\<lambda>i.
     bindR (validate_checkpoint X ATTESTATION_LIMITS (checkpoint_value (requested_checkpoint rq i))) (\<lambda>c.
     bindR (encode_canonical DEFAULT_LIMITS (checkpoint_value c)) (\<lambda>payload.
     bindR (container X ''CHK1'' payload (cr_publisher rq) ''checkpoint-signature-v1'') (\<lambda>bytes.
     Inr (bytes,
       \<lparr>cw_ledgerId = cr_ledgerId rq, cw_checkpointNumber = cr_checkpointNumber rq,
        cw_checkpointHash = to_hex (checkpoint_hash X payload),
        cw_fileHash = to_hex (checkpoint_file_hash X bytes),
        cw_publisherKeyId = keyId (cr_publisher rq), cw_byteLength = length bytes\<rparr>)))))"

text \<open>The option \<open>expectedPreviousCheckpointHash\<close> is \<open>None\<close> when it is not an own property.\<close>

record attestation_options =
  ao_limits :: attestation_limits
  ao_trustedKeyIds :: "jsstr list"
  ao_requireTrustedSigner :: bool
  ao_expectedPreviousCheckpointHash :: "byte list option option"

record verified_checkpoint =
  vc_checkpoint :: checkpoint
  vc_previousHashVerified :: bool
  vc_checkpointHash :: jsstr
  vc_fileHash :: jsstr
  vc_publisherTrusted :: bool

definition parse_attestation ::
  "attestation_limits \<Rightarrow> string \<Rightarrow> byte list \<Rightarrow> (byte list \<times> byte list) res" where
  "parse_attestation L frameType bytes =
     andThen (invariant (length bytes \<le> al_maxFileBytes L) ''ATTESTATION_FILE_LIMIT'')
       (read_statement (al_maxFrameBytes L) frameType ''ATTESTATION_END'' bytes)"

definition check_previous_checkpoint :: "byte list option option \<Rightarrow> checkpoint \<Rightarrow> bool res" where
  "check_previous_checkpoint expected c =
     (case expected of
        None \<Rightarrow> Inr False
      | Some h \<Rightarrow>
          andThen (case h of None \<Rightarrow> Inr () | Some b \<Rightarrow> attest_hash (JBytes b))
          (andThen (invariant (cp_previousCheckpointHash c = h) ''CHECKPOINT_PREVIOUS_HASH'')
          (Inr True)))"

definition verify_checkpoint_bytes ::
  "platform \<Rightarrow> attestation_options \<Rightarrow> byte list \<Rightarrow> verified_checkpoint res" where
  "verify_checkpoint_bytes X opts bytes =
     (let L = ao_limits opts in
      bindR (parse_attestation L ''CHK1'' bytes) (\<lambda>(payload, sp).
      bindR (bindR (decode_canonical DEFAULT_LIMITS payload) (validate_checkpoint X L)) (\<lambda>c.
      bindR (decode_canonical DEFAULT_LIMITS sp) (\<lambda>signature.
      let key = id_publicKey (cp_publisher c) in
      andThen (checks
        [attest_signature signature (cp_publisher c),
         invariant (import_key X key \<noteq> None) ''CHECKPOINT_PUBLIC_KEY'',
         invariant (verify_domain_commitment X key ''checkpoint-signature-v1'' payload
           (bytes_of (get_prop signature ''signature''))) ''CHECKPOINT_SIGNATURE''])
      (bindR (attest_trusted (ao_trustedKeyIds opts) (ao_requireTrustedSigner opts) (id_keyId (cp_publisher c))
         ''CHECKPOINT_UNTRUSTED_PUBLISHER'') (\<lambda>trusted.
       bindR (check_previous_checkpoint (ao_expectedPreviousCheckpointHash opts) c) (\<lambda>linked.
       Inr \<lparr>vc_checkpoint = c, vc_previousHashVerified = linked,
         vc_checkpointHash = to_hex (checkpoint_hash X payload),
         vc_fileHash = to_hex (checkpoint_file_hash X bytes),
         vc_publisherTrusted = trusted\<rparr>)))))))"

section \<open>Witness receipts\<close>

definition plain_options :: "jsstr list \<Rightarrow> bool \<Rightarrow> attestation_options" where
  "plain_options trusted required = \<lparr>ao_limits = ATTESTATION_LIMITS, ao_trustedKeyIds = trusted,
     ao_requireTrustedSigner = required, ao_expectedPreviousCheckpointHash = None\<rparr>"

record receipt_result =
  rw_ledgerId :: jsstr
  rw_checkpointNumber :: nat
  rw_checkpointHash :: jsstr
  rw_receiptHash :: jsstr
  rw_fileHash :: jsstr
  rw_witnessKeyId :: jsstr
  rw_byteLength :: nat

definition receipt_for :: "verified_checkpoint \<Rightarrow> jsstr \<Rightarrow> identity \<Rightarrow> witness_receipt" where
  "receipt_for v observedAt i = \<lparr>wr_ledgerId = cp_ledgerId (vc_checkpoint v),
     wr_checkpointNumber = cp_checkpointNumber (vc_checkpoint v),
     wr_checkpointHash = hex_bytes (vc_checkpointHash v), wr_checkpointFileHash = hex_bytes (vc_fileHash v),
     wr_observedAt = observedAt, wr_witness = i\<rparr>"

definition write_witness_receipt ::
  "platform \<Rightarrow> byte list \<Rightarrow> signer \<Rightarrow> jsstr \<Rightarrow> jsstr list \<Rightarrow> bool \<Rightarrow> (byte list \<times> receipt_result) res" where
  "write_witness_receipt X checkpointBytes witness observedAt trustedPublishers requireTrusted =
     bindR (verify_checkpoint_bytes X (plain_options trustedPublishers requireTrusted) checkpointBytes) (\<lambda>v.
     bindR (signer_identity X witness) (\<lambda>i.
     bindR (validate_witness X (receipt_value (receipt_for v observedAt i))) (\<lambda>r.
     bindR (encode_canonical DEFAULT_LIMITS (receipt_value r)) (\<lambda>payload.
     bindR (container X ''WIT1'' payload witness ''witness-signature-v1'') (\<lambda>bytes.
     Inr (bytes,
       \<lparr>rw_ledgerId = wr_ledgerId r, rw_checkpointNumber = wr_checkpointNumber r,
        rw_checkpointHash = vc_checkpointHash v,
        rw_receiptHash = to_hex (domain_digest X ''witness-receipt-v1'' [payload]),
        rw_fileHash = to_hex (domain_digest X ''witness-file-v1'' [bytes]),
        rw_witnessKeyId = keyId witness, rw_byteLength = length bytes\<rparr>))))))"

record verified_receipt =
  vr_receipt :: witness_receipt
  vr_receiptHash :: jsstr
  vr_fileHash :: jsstr
  vr_witnessTrusted :: bool

definition verify_witness_receipt_bytes ::
  "platform \<Rightarrow> attestation_options \<Rightarrow> byte list \<Rightarrow> verified_receipt res" where
  "verify_witness_receipt_bytes X opts bytes =
     bindR (parse_attestation (ao_limits opts) ''WIT1'' bytes) (\<lambda>(payload, sp).
     bindR (bindR (decode_canonical DEFAULT_LIMITS payload) (validate_witness X)) (\<lambda>r.
     bindR (decode_canonical DEFAULT_LIMITS sp) (\<lambda>signature.
     let key = id_publicKey (wr_witness r) in
     andThen (checks
       [attest_signature signature (wr_witness r),
        invariant (import_key X key \<noteq> None) ''WITNESS_PUBLIC_KEY'',
        invariant (verify_domain_commitment X key ''witness-signature-v1'' payload
          (bytes_of (get_prop signature ''signature''))) ''WITNESS_SIGNATURE''])
     (bindR (attest_trusted (ao_trustedKeyIds opts) (ao_requireTrustedSigner opts) (id_keyId (wr_witness r))
        ''WITNESS_UNTRUSTED'') (\<lambda>trusted.
      Inr \<lparr>vr_receipt = r, vr_receiptHash = to_hex (domain_digest X ''witness-receipt-v1'' [payload]),
        vr_fileHash = to_hex (domain_digest X ''witness-file-v1'' [bytes]), vr_witnessTrusted = trusted\<rparr>)))))"

section \<open>Threshold attestation\<close>

definition str_of :: "jsval \<Rightarrow> jsstr" where
  "str_of v = (case v of JStr s \<Rightarrow> s | _ \<Rightarrow> [])"

text \<open>\<open>witnessKeyIds\<close> must be sorted and free of repetitions. The code applies its pattern to the
  text of an element; an element that is not a string is refused here.\<close>

definition sorted_ids :: "jsval list \<Rightarrow> bool" where
  "sorted_ids items \<longleftrightarrow> list_all hash_text items
     \<and> (\<forall>i < length items. i = 0 \<or> str_of (items ! (i - 1)) < str_of (items ! i))"

definition threshold_policy :: "jsval \<Rightarrow> (nat \<times> jsstr list) res" where
  "threshold_policy policy =
     (let threshold = get_prop policy ''threshold''; ids = get_prop policy ''witnessKeyIds'' in
      andThen (checks
        [attest_exact policy [''kind'', ''version'', ''threshold'', ''witnessKeyIds''] ''THRESHOLD_POLICY'',
         invariant (is_js ''g9p-threshold-policy'' (get_prop policy ''kind'') \<and> get_prop policy ''version'' = JInt 1
           \<and> positive_safe_integer threshold) ''THRESHOLD_POLICY'',
         invariant (is_array ids \<and> length (array_items ids) \<le> al_maxWitnesses ATTESTATION_LIMITS
           \<and> sorted_ids (array_items ids)) ''THRESHOLD_POLICY'',
         invariant (int_of threshold \<le> int (length (array_items ids))) ''THRESHOLD_POLICY''])
      (Inr (nat (int_of threshold), map str_of (array_items ids))))"

record threshold_result =
  tr_checkpointHash :: jsstr
  tr_threshold :: nat
  tr_witnessCount :: nat
  tr_witnessKeyIds :: "jsstr list"

definition attests :: "verified_checkpoint \<Rightarrow> verified_receipt \<Rightarrow> bool" where
  "attests v r \<longleftrightarrow> to_hex (wr_checkpointHash (vr_receipt r)) = vc_checkpointHash v
     \<and> to_hex (wr_checkpointFileHash (vr_receipt r)) = vc_fileHash v"

definition verify_threshold_attestation ::
  "platform \<Rightarrow> byte list \<Rightarrow> byte list list \<Rightarrow> jsval \<Rightarrow> jsstr list \<Rightarrow> threshold_result res" where
  "verify_threshold_attestation X checkpointBytes receiptBytes policy trustedPublishers =
     bindR (threshold_policy policy) (\<lambda>(threshold, ids).
     andThen (invariant (length receiptBytes \<le> al_maxWitnesses ATTESTATION_LIMITS) ''THRESHOLD_RECEIPTS'')
     (bindR (verify_checkpoint_bytes X (plain_options trustedPublishers True) checkpointBytes) (\<lambda>v.
      bindR (mapR (verify_witness_receipt_bytes X (plain_options ids True)) receiptBytes) (\<lambda>receipts.
      let matching = remdups (map (\<lambda>r. id_keyId (wr_witness (vr_receipt r))) (filter (attests v) receipts)) in
      andThen (invariant (threshold \<le> length matching) ''THRESHOLD_NOT_MET'')
      (Inr \<lparr>tr_checkpointHash = vc_checkpointHash v, tr_threshold = threshold,
         tr_witnessCount = length matching, tr_witnessKeyIds = sort matching\<rparr>)))))"

end
