(* ===== verification/G9P_Attestation.thy ===== *)
theory G9P_Attestation
  imports G9P_Checkpoint
begin

text \<open>
  What checkpoints and witness receipts promise: written statements verify as what was written,
  and a checkpoint passes a threshold policy exactly on the strength of distinct trusted
  witnesses that signed its hash.
\<close>

section \<open>Well-formed statements\<close>

definition bound_identity :: "platform \<Rightarrow> identity \<Rightarrow> bool" where
  "bound_identity X i \<longleftrightarrow> identity_ok i \<and> public_key_id X (id_publicKey i) = id_keyId i"

definition checkpoint_ok :: "platform \<Rightarrow> attestation_limits \<Rightarrow> checkpoint \<Rightarrow> bool" where
  "checkpoint_ok X L c \<longleftrightarrow> cp_ledgerId c \<noteq> [] \<and> cp_checkpointNumber c \<le> max_safe_integer
     \<and> is_canonical_timestamp (cp_createdAt c) \<and> cp_routingEpochNumber c \<le> max_safe_integer
     \<and> length (cp_routingEpochHash c) = 32
     \<and> (\<forall>h. cp_previousCheckpointHash c = Some h \<longrightarrow> length h = 32)
     \<and> cp_shardHeads c \<noteq> [] \<and> length (cp_shardHeads c) \<le> al_maxShardHeads L
     \<and> heads_ok (cp_routingEpochNumber c) (cp_shardHeads c) \<and> bound_identity X (cp_publisher c)"

definition receipt_ok :: "platform \<Rightarrow> witness_receipt \<Rightarrow> bool" where
  "receipt_ok X r \<longleftrightarrow> wr_ledgerId r \<noteq> [] \<and> wr_checkpointNumber r \<le> max_safe_integer
     \<and> length (wr_checkpointHash r) = 32 \<and> length (wr_checkpointFileHash r) = 32
     \<and> is_canonical_timestamp (wr_observedAt r) \<and> bound_identity X (wr_witness r)"

lemma non_empty_string_iff: "non_empty_string v \<longleftrightarrow> (\<exists>s. v = JStr s \<and> s \<noteq> [])"
  by (cases v) (auto simp: non_empty_string_def)

lemma attest_identity_Inr:
  "attest_identity X v = Inr i \<Longrightarrow> i = identity_of v \<and> bound_identity X i"
  by (auto simp: attest_identity_def identity_of_def bound_identity_def identity_ok_def text_prop_def bytes_of_def
      field_iffs res_simps)

lemma checkpoint_head_Inr: "checkpoint_head n (i, v) = Inr h \<Longrightarrow> head_ok n i h"
  by (auto simp: checkpoint_head_def res_simps intro!: head_of_ok)

lemma checkpoint_heads_Inr:
  assumes "checkpoint_heads L n v = Inr hs"
  shows "hs \<noteq> [] \<and> length hs \<le> al_maxShardHeads L \<and> heads_ok n hs"
proof -
  from assms have m: "mapR (checkpoint_head n) (enumerate 0 (array_items v)) = Inr hs"
    and b: "1 \<le> length (array_items v)" "length (array_items v) \<le> al_maxShardHeads L"
    by (auto simp: checkpoint_heads_def res_simps)
  have "heads_ok n hs \<and> length hs = length (array_items v)"
    by (rule heads_ok_mapR [OF m checkpoint_head_Inr])
  with b show ?thesis by auto
qed

lemma attest_hash_or_null_Inr:
  "attest_hash_or_null v = Inr () \<longleftrightarrow> v = JNull \<or> (\<exists>b. v = JBytes b \<and> length b = 32)"
  by (auto simp: attest_hash_or_null_def attest_hash_def field_iffs res_simps)

lemma validate_checkpoint_Inr:
  assumes "validate_checkpoint X L v = Inr c"
  shows "checkpoint_ok X L c"
proof -
  let ?n = "nat (int_of (get_prop v ''routingEpochNumber''))"
  from assms obtain hs p where
    f: "non_empty_string (get_prop v ''ledgerId'')" "int_in 0 MAX_SAFE (get_prop v ''routingEpochNumber'')"
      "int_in 0 MAX_SAFE (get_prop v ''checkpointNumber'')" "timestamp_text (get_prop v ''createdAt'')"
      "attest_hash_or_null (get_prop v ''previousCheckpointHash'') = Inr ()" "is_bytes 32 (get_prop v ''routingEpochHash'')"
    and h: "checkpoint_heads L ?n (get_prop v ''shardHeads'') = Inr hs"
    and p: "attest_identity X (get_prop v ''publisher'') = Inr p"
    and c: "c = \<lparr>cp_ledgerId = text_prop v ''ledgerId'',
         cp_checkpointNumber = nat (int_of (get_prop v ''checkpointNumber'')),
         cp_createdAt = text_prop v ''createdAt'',
         cp_previousCheckpointHash = optional_bytes (get_prop v ''previousCheckpointHash''),
         cp_routingEpochNumber = ?n, cp_routingEpochHash = bytes_of (get_prop v ''routingEpochHash''),
         cp_shardHeads = hs, cp_publisher = p\<rparr>"
    by (auto simp: validate_checkpoint_def Let_def attest_integer_def attest_timestamp_def attest_hash_def res_simps)
  then show ?thesis
    using checkpoint_heads_Inr [OF h] attest_identity_Inr [OF p]
    by (auto simp: checkpoint_ok_def field_iffs non_empty_string_iff attest_hash_or_null_Inr text_prop_def
        int_of_def bytes_of_def optional_bytes_def MAX_SAFE_def)
qed

lemma validate_witness_Inr:
  assumes "validate_witness X v = Inr r"
  shows "receipt_ok X r"
proof -
  from assms obtain w where
    f: "non_empty_string (get_prop v ''ledgerId'')" "int_in 0 MAX_SAFE (get_prop v ''checkpointNumber'')"
      "timestamp_text (get_prop v ''observedAt'')" "is_bytes 32 (get_prop v ''checkpointHash'')"
      "is_bytes 32 (get_prop v ''checkpointFileHash'')"
    and w: "attest_identity X (get_prop v ''witness'') = Inr w"
    and r: "r = \<lparr>wr_ledgerId = text_prop v ''ledgerId'',
        wr_checkpointNumber = nat (int_of (get_prop v ''checkpointNumber'')),
        wr_checkpointHash = bytes_of (get_prop v ''checkpointHash''),
        wr_checkpointFileHash = bytes_of (get_prop v ''checkpointFileHash''),
        wr_observedAt = text_prop v ''observedAt'', wr_witness = w\<rparr>"
    by (auto simp: validate_witness_def attest_integer_def attest_timestamp_def attest_hash_def res_simps)
  then show ?thesis
    using attest_identity_Inr [OF w]
    by (auto simp: receipt_ok_def field_iffs non_empty_string_iff text_prop_def int_of_def bytes_of_def MAX_SAFE_def)
qed

section \<open>Validation accepts what is written\<close>

lemma identity_portable: "identity_ok i \<Longrightarrow> portable_text (id_keyId i)"
  by (intro plain_ascii_portable)
    (auto simp: identity_ok_def is_hex64_def plain_ascii_def list_all_iff is_lower_hex_def)

lemma attest_identity_written:
  assumes "bound_identity X i" shows "attest_identity X (canon (identity_value i)) = Inr i"
proof -
  from assms have ok: "identity_ok i" by (simp add: bound_identity_def)
  note p = identity_value_props [OF ok identity_portable [OF ok]]
  show ?thesis using assms p
    by (simp add: attest_identity_def attest_exact_def is_js_def hash_text_def is_bytes_def identity_ok_def
        bound_identity_def bytes_of_def del: js_Cons)
qed

lemma checkpoint_heads_written:
  assumes "hs \<noteq> []" and "length hs \<le> al_maxShardHeads L" and "heads_ok n hs" and "n \<le> max_safe_integer"
  shows "checkpoint_heads L n (JArr (map (canon \<circ> head_value) hs)) = Inr hs"
proof -
  have one: "checkpoint_head n (i, canon (head_value (hs ! i))) = Inr (hs ! i)" if "i < length hs" for i
  proof -
    have "head_ok n i (hs ! i)" using assms(3) that by (simp add: heads_ok_def)
    from head_value_props [OF this assms(4)] show ?thesis by (simp add: checkpoint_head_def attest_exact_def)
  qed
  have "mapR (checkpoint_head n) (enumerate 0 (map (canon \<circ> head_value) hs)) = Inr hs"
    unfolding mapR_Inr_list_all2
    by (rule list_all2_all_nthI) (simp_all add: nth_enumerate_eq one)
  with assms(1,2) show ?thesis by (auto simp: checkpoint_heads_def is_array_def array_items_def Suc_le_eq)
qed

lemma heads_portable:
  assumes "heads_ok n hs" and "n \<le> max_safe_integer" and "h \<in> set hs" shows "portable (head_value h)"
proof -
  from assms(3) obtain i where "i < length hs" "hs ! i = h" by (auto simp: in_set_conv_nth)
  with assms(1) have "head_ok n i h" by (auto simp: heads_ok_def)
  from head_value_props(1) [OF this assms(2)] show ?thesis .
qed

lemma portable_checkpoint_value:
  assumes "checkpoint_ok X L c" and "portable_text (cp_ledgerId c)"
  shows "portable (checkpoint_value c)"
proof -
  note ok = assms(1) [unfolded checkpoint_ok_def]
  have "identity_ok (cp_publisher c)" using ok by (simp add: bound_identity_def)
  from identity_value_props(1) [OF this identity_portable [OF this]]
  have "portable (identity_value (cp_publisher c))" .
  moreover have "portable (hash_or_null (cp_previousCheckpointHash c))"
    by (simp add: hash_or_null_def split: option.split)
  ultimately show ?thesis
    using ok assms(2) heads_portable
    by (auto simp: checkpoint_value_def canonical_timestamp_portable max_safe_integer_def list_all_iff simp del: js_Cons)
qed

lemma validate_checkpoint_written:
  assumes "checkpoint_ok X L c" and "portable_text (cp_ledgerId c)"
  shows "validate_checkpoint X L (canon (checkpoint_value c)) = Inr c"
proof -
  let ?v = "canon (checkpoint_value c)"
  note port = portable_checkpoint_value [OF assms]
  note p = canon_obj_prop [OF port [unfolded checkpoint_value_def], folded checkpoint_value_def]
  note ok = assms(1) [unfolded checkpoint_ok_def]
  have exact: "attest_exact ?v CHECKPOINT_FIELDS ''CHECKPOINT_FIELDS'' = Inr ()"
  proof -
    have "exact_keys ?v CHECKPOINT_FIELDS"
      using port unfolding checkpoint_value_def CHECKPOINT_FIELDS_def by (rule canon_obj_keys) auto
    moreover have "is_object ?v" by (simp add: checkpoint_value_def)
    ultimately show ?thesis by (simp add: attest_exact_def)
  qed
  have f: "get_prop ?v ''kind'' = JStr (js ''g9p-checkpoint'')" "get_prop ?v ''protocolVersion'' = JInt 1"
    "get_prop ?v ''ledgerId'' = JStr (cp_ledgerId c)"
    "get_prop ?v ''checkpointNumber'' = JInt (int (cp_checkpointNumber c))"
    "get_prop ?v ''createdAt'' = JStr (cp_createdAt c)"
    "get_prop ?v ''previousCheckpointHash'' = hash_or_null (cp_previousCheckpointHash c)"
    "get_prop ?v ''routingEpochNumber'' = JInt (int (cp_routingEpochNumber c))"
    "get_prop ?v ''routingEpochHash'' = JBytes (cp_routingEpochHash c)"
    "get_prop ?v ''shardHeads'' = JArr (map (canon \<circ> head_value) (cp_shardHeads c))"
    "get_prop ?v ''publisher'' = canon (identity_value (cp_publisher c))"
    by (simp_all add: p hash_or_null_def comp_def del: js_Cons split: option.split)
  have n: "nat (int_of (get_prop ?v ''routingEpochNumber'')) = cp_routingEpochNumber c" by (simp add: f int_of_def)
  have nums: "attest_integer (get_prop ?v ''routingEpochNumber'') = Inr ()"
    "attest_integer (get_prop ?v ''checkpointNumber'') = Inr ()" "attest_timestamp (get_prop ?v ''createdAt'') = Inr ()"
    using ok by (simp_all add: f attest_integer_def int_in_def MAX_SAFE_def attest_timestamp_def timestamp_text_def)
  have hashes: "attest_hash_or_null (get_prop ?v ''previousCheckpointHash'') = Inr ()"
    "attest_hash (get_prop ?v ''routingEpochHash'') = Inr ()"
    using ok by (auto simp: f hash_or_null_def attest_hash_or_null_Inr attest_hash_def is_bytes_def split: option.splits)
  have ob: "optional_bytes (get_prop ?v ''previousCheckpointHash'') = cp_previousCheckpointHash c"
    by (simp add: f hash_or_null_def optional_bytes_def split: option.split)
  have parts: "checkpoint_heads L (cp_routingEpochNumber c) (get_prop ?v ''shardHeads'') = Inr (cp_shardHeads c)"
    "attest_identity X (get_prop ?v ''publisher'') = Inr (cp_publisher c)"
    unfolding f using ok by (simp_all add: checkpoint_heads_written attest_identity_written)
  show ?thesis
    unfolding validate_checkpoint_def Let_def n parts exact nums hashes ob
    using ok by (simp add: is_js_def non_empty_string_def text_prop_def int_of_def bytes_of_def f del: js_Cons)
qed

lemma portable_receipt_value:
  assumes "receipt_ok X r" and "portable_text (wr_ledgerId r)"
  shows "portable (receipt_value r)"
proof -
  note ok = assms(1) [unfolded receipt_ok_def]
  have "identity_ok (wr_witness r)" using ok by (simp add: bound_identity_def)
  from identity_value_props(1) [OF this identity_portable [OF this]]
  show ?thesis
    using ok assms(2)
    by (auto simp: receipt_value_def canonical_timestamp_portable max_safe_integer_def simp del: js_Cons)
qed

lemma validate_witness_written:
  assumes "receipt_ok X r" and "portable_text (wr_ledgerId r)"
  shows "validate_witness X (canon (receipt_value r)) = Inr r"
proof -
  let ?v = "canon (receipt_value r)"
  note port = portable_receipt_value [OF assms]
  note p = canon_obj_prop [OF port [unfolded receipt_value_def], folded receipt_value_def]
  note ok = assms(1) [unfolded receipt_ok_def]
  have exact: "attest_exact ?v WITNESS_FIELDS ''WITNESS_FIELDS'' = Inr ()"
  proof -
    have "exact_keys ?v WITNESS_FIELDS"
      using port unfolding receipt_value_def WITNESS_FIELDS_def by (rule canon_obj_keys) auto
    moreover have "is_object ?v" by (simp add: receipt_value_def)
    ultimately show ?thesis by (simp add: attest_exact_def)
  qed
  have f: "get_prop ?v ''kind'' = JStr (js ''g9p-witness-receipt'')" "get_prop ?v ''protocolVersion'' = JInt 1"
    "get_prop ?v ''ledgerId'' = JStr (wr_ledgerId r)"
    "get_prop ?v ''checkpointNumber'' = JInt (int (wr_checkpointNumber r))"
    "get_prop ?v ''checkpointHash'' = JBytes (wr_checkpointHash r)"
    "get_prop ?v ''checkpointFileHash'' = JBytes (wr_checkpointFileHash r)"
    "get_prop ?v ''observedAt'' = JStr (wr_observedAt r)"
    "get_prop ?v ''witness'' = canon (identity_value (wr_witness r))"
    by (simp_all add: p del: js_Cons)
  have w: "attest_identity X (canon (identity_value (wr_witness r))) = Inr (wr_witness r)"
    using ok by (intro attest_identity_written) simp
  show ?thesis
    unfolding validate_witness_def exact f w
    using ok by (simp add: is_js_def non_empty_string_def text_prop_def int_of_def bytes_of_def f int_in_def
        attest_integer_def attest_hash_def attest_timestamp_def is_bytes_def timestamp_text_def MAX_SAFE_def del: js_Cons)
qed

interpretation checkpoint: signed_statement checkpoint_value "validate_checkpoint X L"
    "\<lambda>c. checkpoint_ok X L c \<and> portable_text (cp_ledgerId c)" for X L
  by unfold_locales (auto intro: portable_checkpoint_value validate_checkpoint_written)

interpretation receipt: signed_statement receipt_value "validate_witness X"
    "\<lambda>r. receipt_ok X r \<and> portable_text (wr_ledgerId r)" for X
  by unfold_locales (auto intro: portable_receipt_value validate_witness_written)

end
