(* ===== verification/G9P_Attestation_Total.thy ===== *)
theory G9P_Attestation_Total
  imports G9P_Attestation
begin

text \<open>
  Writing checkpoints and witness receipts: what is written is verified as the statement it was
  written from, and writing succeeds for every statement with a ledger id of moderate length.
\<close>

section \<open>Written statements verify\<close>

lemma attest_parts_canon:
  assumes "portable v"
  shows "attest_exact (canon v) names code = attest_exact v names code"
    and "attest_identity X (canon v) = attest_identity X v"
    and "checkpoint_head n (i, canon v) = checkpoint_head n (i, v)"
  using assms by (simp_all add: attest_exact_def exact_keys_canon attest_identity_def checkpoint_head_def get_prop_canon)

lemma checkpoint_heads_canon:
  assumes "portable v" shows "checkpoint_heads L n (canon v) = checkpoint_heads L n v"
proof -
  have "list_all portable (array_items v)"
    using assms by (cases v) (simp_all add: array_items_def)
  then have "mapR (checkpoint_head n) (enumerate i (map canon xs)) = mapR (checkpoint_head n) (enumerate i xs)"
    if "set xs \<subseteq> set (array_items v)" for i xs
    using that by (induction xs arbitrary: i) (simp_all add: attest_parts_canon list_all_iff)
  then show ?thesis by (simp add: checkpoint_heads_def)
qed

lemma non_empty_string_canon [simp]: "non_empty_string (canon v) = non_empty_string v"
  by (cases v) (simp_all add: non_empty_string_def)

lemma validate_checkpoint_canon:
  assumes "portable v" shows "validate_checkpoint X L (canon v) = validate_checkpoint X L v"
  using assms portable_get_prop [OF assms]
  by (simp add: validate_checkpoint_def get_prop_canon attest_parts_canon checkpoint_heads_canon attest_integer_def
      attest_timestamp_def attest_hash_def attest_hash_or_null_def)

lemma validate_witness_canon:
  assumes "portable v" shows "validate_witness X (canon v) = validate_witness X v"
  using assms portable_get_prop [OF assms]
  by (simp add: validate_witness_def get_prop_canon attest_parts_canon attest_integer_def attest_timestamp_def attest_hash_def)

text \<open>Validation of the object of a statement returns that statement or fails.\<close>

lemma get_prop_checkpoint_value:
  "get_prop (checkpoint_value c) ''ledgerId'' = JStr (cp_ledgerId c)"
  "get_prop (checkpoint_value c) ''checkpointNumber'' = JInt (int (cp_checkpointNumber c))"
  "get_prop (checkpoint_value c) ''createdAt'' = JStr (cp_createdAt c)"
  "get_prop (checkpoint_value c) ''previousCheckpointHash'' = hash_or_null (cp_previousCheckpointHash c)"
  "get_prop (checkpoint_value c) ''routingEpochNumber'' = JInt (int (cp_routingEpochNumber c))"
  "get_prop (checkpoint_value c) ''routingEpochHash'' = JBytes (cp_routingEpochHash c)"
  "get_prop (checkpoint_value c) ''shardHeads'' = JArr (map head_value (cp_shardHeads c))"
  "get_prop (checkpoint_value c) ''publisher'' = identity_value (cp_publisher c)"
  by (simp_all add: checkpoint_value_def del: js_Cons)

lemma head_of_value: "head_of (head_value h) = h"
  by (intro shard_head.equality; cases "head_sealed h")
    (auto simp: head_value_def head_of_def int_of_def bytes_of_def text_prop_def)

lemma identity_of_value: "identity_of (identity_value i) = i"
  by (simp add: identity_value_def identity_of_def text_prop_def bytes_of_def del: js_Cons)

lemma validate_checkpoint_value:
  assumes "validate_checkpoint X L (checkpoint_value c) = Inr d" shows "d = c"
proof -
  from assms obtain hs p where
    h: "mapR (checkpoint_head (cp_routingEpochNumber c)) (enumerate 0 (map head_value (cp_shardHeads c))) = Inr hs"
    and p: "attest_identity X (identity_value (cp_publisher c)) = Inr p"
    and d: "d = c\<lparr>cp_shardHeads := hs, cp_publisher := p\<rparr>"
    by (cases c) (auto simp: validate_checkpoint_def Let_def checkpoint_heads_def res_simps get_prop_checkpoint_value
        text_prop_def int_of_def bytes_of_def optional_bytes_def hash_or_null_def array_items_def split: option.splits)
  have one: "checkpoint_head n (i, head_value h) = Inr g \<Longrightarrow> g = h" for n i h g
    by (auto simp: checkpoint_head_def res_simps head_of_value)
  have "hs = cp_shardHeads c"
    using mapR_Inr_nth [OF h] mapR_Inr_length [OF h]
    by (intro nth_equalityI) (auto simp: nth_enumerate_eq dest!: one)
  moreover have "p = cp_publisher c" using attest_identity_Inr [OF p] by (simp add: identity_of_value)
  ultimately show ?thesis using d by simp
qed

lemma get_prop_receipt_value:
  "get_prop (receipt_value r) ''ledgerId'' = JStr (wr_ledgerId r)"
  "get_prop (receipt_value r) ''checkpointNumber'' = JInt (int (wr_checkpointNumber r))"
  "get_prop (receipt_value r) ''checkpointHash'' = JBytes (wr_checkpointHash r)"
  "get_prop (receipt_value r) ''checkpointFileHash'' = JBytes (wr_checkpointFileHash r)"
  "get_prop (receipt_value r) ''observedAt'' = JStr (wr_observedAt r)"
  "get_prop (receipt_value r) ''witness'' = identity_value (wr_witness r)"
  by (simp_all add: receipt_value_def del: js_Cons)

lemma validate_witness_value:
  assumes "validate_witness X (receipt_value r) = Inr s" shows "s = r"
proof -
  from assms obtain p where p: "attest_identity X (identity_value (wr_witness r)) = Inr p"
    and s: "s = r\<lparr>wr_witness := p\<rparr>"
    by (cases r) (auto simp: validate_witness_def res_simps get_prop_receipt_value text_prop_def int_of_def bytes_of_def)
  have "p = wr_witness r" using attest_identity_Inr [OF p] by (simp add: identity_of_value)
  with s show ?thesis by simp
qed

text \<open>What the frames, the signature and the signer of a written statement give its verifier.\<close>

lemma attest_signature_written:
  assumes "portable (signature_value s sig)" and "length sig = 64" and "algorithm s = js ''ed25519''"
    and "id_keyId i = keyId s"
  shows "attest_signature (canon (signature_value s sig)) i = Inr ()"
  using signature_prop [OF assms(1)] assms(2-)
  by (simp add: attest_signature_def attest_exact_def is_js_def is_bytes_def del: js_Cons)

lemma signer_identity_Inr:
  "signer_identity X s = Inr i \<Longrightarrow> i = \<lparr>id_keyId = keyId s, id_publicKey = publicKeyDer s\<rparr>"
  by (auto simp: signer_identity_def res_simps)

lemma attestation_limit_values [simp]:
  "al_maxFileBytes ATTESTATION_LIMITS = 67108864" "al_maxFrameBytes ATTESTATION_LIMITS = 67108864"
  "al_maxShardHeads ATTESTATION_LIMITS = 65536" "al_maxWitnesses ATTESTATION_LIMITS = 1024"
  by (simp_all add: ATTESTATION_LIMITS_def)

lemma plain_options_values [simp]:
  "ao_limits (plain_options t b) = ATTESTATION_LIMITS" "ao_trustedKeyIds (plain_options t b) = t"
  "ao_requireTrustedSigner (plain_options t b) = b" "ao_expectedPreviousCheckpointHash (plain_options t b) = None"
  by (simp_all add: plain_options_def)

lemma write_then_verify_checkpoint:
  assumes "sha256_ok X" and "write_checkpoint X rq = Inr (bytes, result)"
    and "portable_text (cr_ledgerId rq)" and "length bytes \<le> 67108864"
    and "ao_limits opts = ATTESTATION_LIMITS"
    and "ao_requireTrustedSigner opts \<Longrightarrow> keyId (cr_publisher rq) \<in> set (ao_trustedKeyIds opts)"
    and "\<And>h. ao_expectedPreviousCheckpointHash opts = Some h \<Longrightarrow> cr_previousCheckpointHash rq = h"
  shows "\<exists>v. verify_checkpoint_bytes X opts bytes = Inr v
    \<and> vc_checkpoint v = requested_checkpoint rq \<lparr>id_keyId = keyId (cr_publisher rq), id_publicKey = publicKeyDer (cr_publisher rq)\<rparr>
    \<and> vc_checkpointHash v = cw_checkpointHash result \<and> vc_fileHash v = cw_fileHash result"
proof -
  let ?s = "cr_publisher rq"
  let ?c = "requested_checkpoint rq \<lparr>id_keyId = keyId ?s, id_publicKey = publicKeyDer ?s\<rparr>"
  from assms(2) obtain d payload where
    val: "validate_checkpoint X ATTESTATION_LIMITS (checkpoint_value ?c) = Inr d"
    and pay: "encode_canonical DEFAULT_LIMITS (checkpoint_value d) = Inr payload"
    and cont: "container X ''CHK1'' payload ?s ''checkpoint-signature-v1'' = Inr bytes"
    and result: "cw_checkpointHash result = to_hex (checkpoint_hash X payload)"
      "cw_fileHash result = to_hex (checkpoint_file_hash X bytes)"
    by (auto simp: write_checkpoint_def res_simps dest!: signer_identity_Inr)
  have d: "d = ?c" by (rule validate_checkpoint_value [OF val])
  have ok: "checkpoint_ok X ATTESTATION_LIMITS ?c \<and> portable_text (cp_ledgerId ?c)"
    using validate_checkpoint_Inr [OF val] assms(3) by (simp add: d requested_checkpoint_def)
  have small: "length payload \<le> 67108864" using container_length [OF cont] assms(4) by simp
  obtain sig sp where r: "read_statement 67108864 ''CHK1'' ''ATTESTATION_END'' bytes = Inr (payload, sp)"
    and sp: "decode_canonical DEFAULT_LIMITS sp = Inr (canon (signature_value ?s sig))"
    and psig: "portable (signature_value ?s sig)" "length sig = 64"
    and sig: "verify_domain_commitment X (publicKeyDer ?s) ''checkpoint-signature-v1'' payload sig"
    and sv: "validate_signer X ?s ''SIGNER_IDENTITY'' = Inr ()"
    by (rule container_reads [OF cont assms(1) small order_refl])
  note key = signer_key_hex [OF sv assms(1)]
  note parse = checkpoint.parse_payload [OF ok pay [unfolded d] small]
  have pub: "id_keyId (cp_publisher ?c) = keyId ?s" "id_publicKey (cp_publisher ?c) = publicKeyDer ?s"
    by (simp_all add: requested_checkpoint_def)
  have as: "attest_signature (canon (signature_value ?s sig)) (cp_publisher ?c) = Inr ()"
    by (rule attest_signature_written [OF psig key(1) pub(1)])
  have tr: "attest_trusted (ao_trustedKeyIds opts) (ao_requireTrustedSigner opts) (keyId ?s) code
      = Inr (keyId ?s \<in> set (ao_trustedKeyIds opts))" for code
    using assms(6) by (simp add: attest_trusted_def)
  have "\<forall>h. ao_expectedPreviousCheckpointHash opts = Some (Some h) \<longrightarrow> length h = 32"
    using ok assms(7) by (auto simp: checkpoint_ok_def requested_checkpoint_def)
  then obtain linked where pr: "check_previous_checkpoint (ao_expectedPreviousCheckpointHash opts) ?c = Inr linked"
    using assms(7) by (cases "ao_expectedPreviousCheckpointHash opts"; cases "the (ao_expectedPreviousCheckpointHash opts)")
      (auto simp: check_previous_checkpoint_def requested_checkpoint_def attest_hash_def is_bytes_def)
  show ?thesis
    using assms(4,5) key(6) sig by (simp add: verify_checkpoint_bytes_def parse_attestation_def Let_def r parse sp
        as pub tr pr result signature_prop [OF psig(1)] bytes_of_def)
qed

lemma write_then_verify_receipt:
  assumes "sha256_ok X" and "write_witness_receipt X cp witness time publishers required = Inr (bytes, result)"
    and "verify_checkpoint_bytes X (plain_options publishers required) cp = Inr v"
    and "portable_text (cp_ledgerId (vc_checkpoint v))" and "length bytes \<le> 67108864"
    and "keyId witness \<in> set ids"
  shows "\<exists>r. verify_witness_receipt_bytes X (plain_options ids True) bytes = Inr r
    \<and> vr_receipt r = receipt_for v time \<lparr>id_keyId = keyId witness, id_publicKey = publicKeyDer witness\<rparr>"
proof -
  let ?r = "receipt_for v time \<lparr>id_keyId = keyId witness, id_publicKey = publicKeyDer witness\<rparr>"
  from assms(2,3) obtain d payload where
    val: "validate_witness X (receipt_value ?r) = Inr d"
    and pay: "encode_canonical DEFAULT_LIMITS (receipt_value d) = Inr payload"
    and cont: "container X ''WIT1'' payload witness ''witness-signature-v1'' = Inr bytes"
    by (auto simp: write_witness_receipt_def res_simps dest!: signer_identity_Inr)
  have d: "d = ?r" by (rule validate_witness_value [OF val])
  have ok: "receipt_ok X ?r \<and> portable_text (wr_ledgerId ?r)"
    using validate_witness_Inr [OF val] assms(4) by (simp add: d receipt_for_def)
  have small: "length payload \<le> 67108864" using container_length [OF cont] assms(5) by simp
  obtain sig sp where r: "read_statement 67108864 ''WIT1'' ''ATTESTATION_END'' bytes = Inr (payload, sp)"
    and sp: "decode_canonical DEFAULT_LIMITS sp = Inr (canon (signature_value witness sig))"
    and psig: "portable (signature_value witness sig)" "length sig = 64"
    and sig: "verify_domain_commitment X (publicKeyDer witness) ''witness-signature-v1'' payload sig"
    and sv: "validate_signer X witness ''SIGNER_IDENTITY'' = Inr ()"
    by (rule container_reads [OF cont assms(1) small order_refl])
  note key = signer_key_hex [OF sv assms(1)]
  note parse = receipt.parse_payload [OF ok pay [unfolded d] small]
  have pub: "id_keyId (wr_witness ?r) = keyId witness" "id_publicKey (wr_witness ?r) = publicKeyDer witness"
    by (simp_all add: receipt_for_def)
  have as: "attest_signature (canon (signature_value witness sig)) (wr_witness ?r) = Inr ()"
    by (rule attest_signature_written [OF psig key(1) pub(1)])
  show ?thesis
    using assms(5,6) key(6) sig by (simp add: verify_witness_receipt_bytes_def parse_attestation_def Let_def r parse sp
        as pub attest_trusted_def signature_prop [OF psig(1)] bytes_of_def)
qed

lemma verify_checkpoint_bytes_Inr:
  assumes "verify_checkpoint_bytes X opts bytes = Inr v"
  obtains payload sp signature where "parse_attestation (ao_limits opts) ''CHK1'' bytes = Inr (payload, sp)"
    and "checkpoint_ok X (ao_limits opts) (vc_checkpoint v)"
    and "verify_domain_commitment X (id_publicKey (cp_publisher (vc_checkpoint v))) ''checkpoint-signature-v1'' payload signature"
    and "ao_requireTrustedSigner opts \<Longrightarrow> id_keyId (cp_publisher (vc_checkpoint v)) \<in> set (ao_trustedKeyIds opts)"
    and "vc_checkpointHash v = to_hex (checkpoint_hash X payload)" and "vc_fileHash v = to_hex (checkpoint_file_hash X bytes)"
proof -
  from assms obtain payload sp c sv linked trusted where
    r: "parse_attestation (ao_limits opts) ''CHK1'' bytes = Inr (payload, sp)"
    and c: "bindR (decode_canonical DEFAULT_LIMITS payload) (validate_checkpoint X (ao_limits opts)) = Inr c"
    and s: "verify_domain_commitment X (id_publicKey (cp_publisher c)) ''checkpoint-signature-v1'' payload (bytes_of (get_prop sv ''signature''))"
    and t: "attest_trusted (ao_trustedKeyIds opts) (ao_requireTrustedSigner opts) (id_keyId (cp_publisher c)) ''CHECKPOINT_UNTRUSTED_PUBLISHER'' = Inr trusted"
    and v: "v = \<lparr>vc_checkpoint = c, vc_previousHashVerified = linked,
         vc_checkpointHash = to_hex (checkpoint_hash X payload),
         vc_fileHash = to_hex (checkpoint_file_hash X bytes), vc_publisherTrusted = trusted\<rparr>"
    unfolding verify_checkpoint_bytes_def Let_def
    by (auto simp: bindR_Inr_iff andThen_Inr_iff invariant_Inr_iff checks_Inr_iff)
  from c have "checkpoint_ok X (ao_limits opts) c" by (auto simp: bindR_Inr_iff intro: validate_checkpoint_Inr)
  moreover from t have "ao_requireTrustedSigner opts \<Longrightarrow> id_keyId (cp_publisher c) \<in> set (ao_trustedKeyIds opts)"
    by (auto simp: attest_trusted_def res_simps)
  ultimately show thesis using r s by (intro that) (simp_all add: v)
qed

lemma verify_receipt_Inr:
  assumes "verify_witness_receipt_bytes X opts bytes = Inr r"
  obtains payload sp signature where "parse_attestation (ao_limits opts) ''WIT1'' bytes = Inr (payload, sp)"
    and "bindR (decode_canonical DEFAULT_LIMITS payload) (validate_witness X) = Inr (vr_receipt r)"
    and "receipt_ok X (vr_receipt r)"
    and "verify_domain_commitment X (id_publicKey (wr_witness (vr_receipt r))) ''witness-signature-v1'' payload signature"
    and "ao_requireTrustedSigner opts \<Longrightarrow> id_keyId (wr_witness (vr_receipt r)) \<in> set (ao_trustedKeyIds opts)"
proof -
  from assms obtain payload sp w sv trusted where
    r: "parse_attestation (ao_limits opts) ''WIT1'' bytes = Inr (payload, sp)"
    and w: "bindR (decode_canonical DEFAULT_LIMITS payload) (validate_witness X) = Inr w"
    and s: "verify_domain_commitment X (id_publicKey (wr_witness w)) ''witness-signature-v1'' payload (bytes_of (get_prop sv ''signature''))"
    and t: "attest_trusted (ao_trustedKeyIds opts) (ao_requireTrustedSigner opts) (id_keyId (wr_witness w)) ''WITNESS_UNTRUSTED'' = Inr trusted"
    and v: "vr_receipt r = w"
    unfolding verify_witness_receipt_bytes_def Let_def
    by (auto simp: bindR_Inr_iff andThen_Inr_iff invariant_Inr_iff checks_Inr_iff)
  from w have "receipt_ok X w" by (auto simp: bindR_Inr_iff intro: validate_witness_Inr)
  moreover from t have "ao_requireTrustedSigner opts \<Longrightarrow> id_keyId (wr_witness w) \<in> set (ao_trustedKeyIds opts)"
    by (auto simp: attest_trusted_def res_simps)
  ultimately show thesis using r w s by (intro that) (simp_all add: v)
qed

section \<open>Writing succeeds\<close>

lemma identity_value_size:
  assumes "identity_ok i"
  shows "encodable (identity_value i)" and "nesting (identity_value i) \<le> 1" and "widest (identity_value i) \<le> 3"
    and "size_bound (identity_value i) \<le> 500"
  using assms by (simp_all add: identity_value_def obj_def identity_ok_def is_hex64_def del: js_Cons)

lemma checkpoint_size:
  assumes "checkpoint_ok X ATTESTATION_LIMITS c" and "length (cp_ledgerId c) \<le> 10000"
  shows "encodable (checkpoint_value c)" and "nesting (checkpoint_value c) \<le> 64"
    and "widest (checkpoint_value c) \<le> 1000000" and "size_bound (checkpoint_value c) \<le> 67000000"
proof -
  note ok = assms(1) [unfolded checkpoint_ok_def]
  let ?hs = "cp_shardHeads c"
  have hs: "heads_ok (cp_routingEpochNumber c) ?hs" "length ?hs \<le> 65536" "cp_routingEpochNumber c \<le> max_safe_integer"
    using ok by simp_all
  note h = heads_size [OF hs]
  have time: "length (cp_createdAt c) \<le> 27" using ok canonical_time_length by auto
  have "identity_ok (cp_publisher c)" using ok by (simp add: bound_identity_def)
  note i = identity_value_size [OF this]
  have link: "encodable (hash_or_null (cp_previousCheckpointHash c))" "nesting (hash_or_null (cp_previousCheckpointHash c)) = 0"
    "widest (hash_or_null (cp_previousCheckpointHash c)) = 0" "size_bound (hash_or_null (cp_previousCheckpointHash c)) \<le> 43"
    using ok by (cases "cp_previousCheckpointHash c"; simp add: hash_or_null_def)+
  show "encodable (checkpoint_value c)"
    using h(1) i(1) link(1) ok by (simp add: checkpoint_value_def obj_def max_safe_integer_def del: js_Cons)
  show "nesting (checkpoint_value c) \<le> 64"
    using h(2) i(2) link(2) by (auto simp: checkpoint_value_def obj_def simp del: js_Cons)
  show "widest (checkpoint_value c) \<le> 1000000"
    using h(3) i(3) link(3) hs(2) by (fastforce simp: checkpoint_value_def obj_def simp del: js_Cons)
  show "size_bound (checkpoint_value c) \<le> 67000000"
    using h(4) i(4) link(4) time ok assms(2) by (simp add: checkpoint_value_def obj_def del: js_Cons)
qed

lemma receipt_size:
  assumes "receipt_ok X r" and "length (wr_ledgerId r) \<le> 10000"
  shows "encodable (receipt_value r)" and "nesting (receipt_value r) \<le> 64"
    and "widest (receipt_value r) \<le> 1000000" and "size_bound (receipt_value r) \<le> 67000000"
proof -
  note ok = assms(1) [unfolded receipt_ok_def]
  have time: "length (wr_observedAt r) \<le> 27" using ok canonical_time_length by auto
  have "identity_ok (wr_witness r)" using ok by (simp add: bound_identity_def)
  note i = identity_value_size [OF this]
  show "encodable (receipt_value r)" "nesting (receipt_value r) \<le> 64" "widest (receipt_value r) \<le> 1000000"
    "size_bound (receipt_value r) \<le> 67000000"
    using i ok time assms(2) by (simp_all add: receipt_value_def obj_def max_safe_integer_def del: js_Cons)
qed

lemma signer_identity_total:
  "validate_signer X s code = Inr () \<Longrightarrow> signer_identity X s = Inr \<lparr>id_keyId = keyId s, id_publicKey = publicKeyDer s\<rparr>"
  by (auto simp: signer_identity_def dest!: validate_signer_facts)

lemma write_checkpoint_total:
  assumes "sha256_ok X" and "validate_signer X (cr_publisher rq) code = Inr ()"
    and "checkpoint_ok X ATTESTATION_LIMITS (requested_checkpoint rq
        \<lparr>id_keyId = keyId (cr_publisher rq), id_publicKey = publicKeyDer (cr_publisher rq)\<rparr>)"
    and "portable_text (cr_ledgerId rq)" and "length (cr_ledgerId rq) \<le> 10000"
    and "\<And>payload. \<exists>sig. sign_domain_with_signer X (cr_publisher rq) ''checkpoint-signature-v1'' payload = Inr sig"
  shows "\<exists>bytes result. write_checkpoint X rq = Inr (bytes, result) \<and> length bytes \<le> 67108864"
proof -
  let ?c = "requested_checkpoint rq \<lparr>id_keyId = keyId (cr_publisher rq), id_publicKey = publicKeyDer (cr_publisher rq)\<rparr>"
  have port: "portable_text (cp_ledgerId ?c)" "length (cp_ledgerId ?c) \<le> 10000"
    using assms(4,5) by (simp_all add: requested_checkpoint_def)
  have val: "validate_checkpoint X ATTESTATION_LIMITS (checkpoint_value ?c) = Inr ?c"
    using validate_checkpoint_written [OF assms(3) port(1)]
      validate_checkpoint_canon [OF portable_checkpoint_value [OF assms(3) port(1)]] by simp
  note size = checkpoint_size [OF assms(3) port(2)]
  from encode_canonical_total [OF size(1-3)] size(4) obtain payload where
    payload: "encode_canonical DEFAULT_LIMITS (checkpoint_value ?c) = Inr payload" "length payload \<le> 67000000"
    by force
  from assms(6) obtain sig where
    "sign_domain_with_signer X (cr_publisher rq) ''checkpoint-signature-v1'' payload = Inr sig" by blast
  from container_total [OF assms(1) this, of "''CHK1''"] payload(2) obtain bytes where
    "container X ''CHK1'' payload (cr_publisher rq) ''checkpoint-signature-v1'' = Inr bytes"
    "length bytes \<le> 67108864" by (auto simp: frame_type_ok_def)
  with signer_identity_total [OF assms(2)] val payload show ?thesis by (simp add: write_checkpoint_def)
qed

lemma write_receipt_total:
  assumes "sha256_ok X" and "validate_signer X witness code = Inr ()" and "length (publicKeyDer witness) = 44"
    and "is_canonical_timestamp time"
    and v: "verify_checkpoint_bytes X (plain_options publishers required) cp = Inr v"
    and "portable_text (cp_ledgerId (vc_checkpoint v))" and "length (cp_ledgerId (vc_checkpoint v)) \<le> 10000"
    and "\<And>payload. \<exists>sig. sign_domain_with_signer X witness ''witness-signature-v1'' payload = Inr sig"
  shows "\<exists>bytes result. write_witness_receipt X cp witness time publishers required = Inr (bytes, result)
    \<and> length bytes \<le> 67108864"
proof -
  let ?r = "receipt_for v time \<lparr>id_keyId = keyId witness, id_publicKey = publicKeyDer witness\<rparr>"
  from v obtain payload where c: "checkpoint_ok X ATTESTATION_LIMITS (vc_checkpoint v)"
    and h: "vc_checkpointHash v = to_hex (checkpoint_hash X payload)" "vc_fileHash v = to_hex (checkpoint_file_hash X cp)"
    by (rule verify_checkpoint_bytes_Inr) simp
  have ok: "receipt_ok X ?r"
    using c h signer_key_hex [OF assms(2,1)] assms(1,3,4)
    by (simp add: receipt_ok_def receipt_for_def checkpoint_ok_def hex_bytes_to_hex checkpoint_hash_def
        checkpoint_file_hash_def bound_identity_def identity_ok_def)
  have port: "portable_text (wr_ledgerId ?r)" "length (wr_ledgerId ?r) \<le> 10000"
    using assms(6,7) by (simp_all add: receipt_for_def)
  have val: "validate_witness X (receipt_value ?r) = Inr ?r"
    using validate_witness_written [OF ok port(1)] validate_witness_canon [OF portable_receipt_value [OF ok port(1)]] by simp
  note size = receipt_size [OF ok port(2)]
  from encode_canonical_total [OF size(1-3)] size(4) obtain payload where
    payload: "encode_canonical DEFAULT_LIMITS (receipt_value ?r) = Inr payload" "length payload \<le> 67000000"
    by force
  from assms(8) obtain sig where
    "sign_domain_with_signer X witness ''witness-signature-v1'' payload = Inr sig" by blast
  from container_total [OF assms(1) this, of "''WIT1''"] payload(2) obtain bytes where
    "container X ''WIT1'' payload witness ''witness-signature-v1'' = Inr bytes"
    "length bytes \<le> 67108864" by (auto simp: frame_type_ok_def)
  with signer_identity_total [OF assms(2)] v val payload show ?thesis by (simp add: write_witness_receipt_def)
qed

section \<open>Samples\<close>

definition sample_witness :: signer where
  "sample_witness = \<lparr>algorithm = js ''ed25519'', keyId = public_key_id toy_platform (replicate 44 9),
     publicKeyDer = replicate 44 9, sign_operation = None, privateKey = Some [3]\<rparr>"

definition sample_checkpoint :: checkpoint_request where
  "sample_checkpoint = \<lparr>cr_ledgerId = js ''L'', cr_checkpointNumber = 0, cr_previousCheckpointHash = None,
     cr_routingEpochNumber = 0, cr_routingEpochHash = replicate 32 5, cr_shardHeads = sample_heads,
     cr_publisher = sample_authority, cr_createdAt = js ''2026-01-02T03:04:05.006Z''\<rparr>"

lemma sample_witness_signs:
  "\<exists>sig. sign_domain_with_signer toy_platform sample_witness domain payload = Inr sig"
  "validate_signer toy_platform sample_witness code = Inr ()"
proof -
  show v: "validate_signer toy_platform sample_witness code = Inr ()" for code
    by (simp add: validate_signer_def sample_witness_def can_sign_def del: js_Cons) (simp add: toy_platform_def)
  show "\<exists>sig. sign_domain_with_signer toy_platform sample_witness domain payload = Inr sig"
    using length_domain_digest [OF toy_sha256_ok] v
    by (simp add: sign_domain_with_signer_def Let_def del: js_Cons)
       (simp add: sample_witness_def sign_message_def toy_platform_def del: js_Cons)
qed

lemma sample_checkpoint_written:
  obtains bytes result where "write_checkpoint toy_platform sample_checkpoint = Inr (bytes, result)"
    and "length bytes \<le> 67108864"
proof -
  have p: "cr_publisher sample_checkpoint = sample_authority" by (simp add: sample_checkpoint_def)
  have ok: "checkpoint_ok toy_platform ATTESTATION_LIMITS (requested_checkpoint sample_checkpoint
        \<lparr>id_keyId = keyId sample_authority, id_publicKey = publicKeyDer sample_authority\<rparr>)"
    using sample_identity_ok sample_heads_ok length_sample_heads sample_times
      signer_key_hex(2) [OF sample_authority_signs(2) toy_sha256_ok]
    by (auto simp: checkpoint_ok_def requested_checkpoint_def sample_checkpoint_def max_safe_integer_def
        bound_identity_def simp del: js_Cons)
  have "\<exists>bytes result. write_checkpoint toy_platform sample_checkpoint = Inr (bytes, result) \<and> length bytes \<le> 67108864"
    by (rule write_checkpoint_total [OF toy_sha256_ok])
      (use ok sample_authority_signs in \<open>simp_all add: p\<close>, simp_all add: sample_checkpoint_def del: js_Cons)
  then show thesis using that by blast
qed

end
