(* ===== verification/G9P_Threshold.thy ===== *)
theory G9P_Threshold
  imports G9P_Attestation_Total
begin

text \<open>
  The properties of checkpoints, witness receipts and threshold policies, with instances at a
  sample checkpoint witnessed by one signer.
\<close>


lemma sample_portable_ledger: "portable_text (cr_ledgerId sample_checkpoint)"
  by (simp add: sample_checkpoint_def del: js_Cons)


section \<open>Thresholds\<close>

lemma threshold_policy_Inr:
  assumes "threshold_policy policy = Inr (n, ids)"
  shows "1 \<le> n" and "n \<le> length ids" and "length ids \<le> 1024"
  using assms
  by (auto simp: threshold_policy_def Let_def res_simps positive_safe_integer_def int_of_def split: jsval.splits)

lemma verify_threshold_Inr:
  assumes "verify_threshold_attestation X cp receiptBytes policy publishers = Inr t"
  obtains n ids v receipts where "threshold_policy policy = Inr (n, ids)" and "length receiptBytes \<le> 1024"
    and "verify_checkpoint_bytes X (plain_options publishers True) cp = Inr v"
    and "mapR (verify_witness_receipt_bytes X (plain_options ids True)) receiptBytes = Inr receipts"
    and "tr_checkpointHash t = vc_checkpointHash v" and "tr_threshold t = n"
    and "set (tr_witnessKeyIds t) = (\<lambda>r. id_keyId (wr_witness (vr_receipt r))) ` {r \<in> set receipts. attests v r}"
    and "distinct (tr_witnessKeyIds t)" and "tr_witnessCount t = length (tr_witnessKeyIds t)"
    and "n \<le> length (tr_witnessKeyIds t)"
  using assms
  by (auto simp: verify_threshold_attestation_def Let_def bindR_Inr_iff andThen_Inr_iff invariant_Inr_iff)

text \<open>
  C9: A threshold is met only by distinct trusted witnesses. When \<open>verifyThresholdAttestation\<close>
  accepts, the key ids it reports are at least as many as the threshold, pairwise distinct and
  all members of the policy; each of them is the key id of a public key under which one of the
  given receipts is signed, and that receipt names this checkpoint by its hash and by the hash
  of the given file. The checkpoint itself verifies with a trusted publisher.
\<close>

theorem threshold_met_by_distinct_witnesses:
  assumes "verify_threshold_attestation X cp receiptBytes policy publishers = Inr t"
    and "threshold_policy policy = Inr (n, ids)"
  shows "tr_threshold t = n \<and> n \<le> card (set (tr_witnessKeyIds t)) \<and> distinct (tr_witnessKeyIds t)
    \<and> set (tr_witnessKeyIds t) \<subseteq> set ids
    \<and> (\<exists>v. verify_checkpoint_bytes X (plain_options publishers True) cp = Inr v \<and> vc_checkpointHash v = tr_checkpointHash t)
    \<and> (\<forall>k \<in> set (tr_witnessKeyIds t). \<exists>bytes \<in> set receiptBytes. \<exists>payload sp r signature.
        parse_attestation ATTESTATION_LIMITS ''WIT1'' bytes = Inr (payload, sp)
        \<and> bindR (decode_canonical DEFAULT_LIMITS payload) (validate_witness X) = Inr r
        \<and> public_key_id X (id_publicKey (wr_witness r)) = k
        \<and> verify_domain_commitment X (id_publicKey (wr_witness r)) ''witness-signature-v1'' payload signature
        \<and> to_hex (wr_checkpointHash r) = tr_checkpointHash t
        \<and> wr_checkpointFileHash r = checkpoint_file_hash X cp)"
  using assms(1)
proof (rule verify_threshold_Inr)
  fix n' ids' v receipts
  assume pol: "threshold_policy policy = Inr (n', ids')"
    and v: "verify_checkpoint_bytes X (plain_options publishers True) cp = Inr v"
    and m: "mapR (verify_witness_receipt_bytes X (plain_options ids' True)) receiptBytes = Inr receipts"
    and t: "tr_checkpointHash t = vc_checkpointHash v" "tr_threshold t = n'"
      "set (tr_witnessKeyIds t) = (\<lambda>r. id_keyId (wr_witness (vr_receipt r))) ` {r \<in> set receipts. attests v r}"
      "distinct (tr_witnessKeyIds t)" "n' \<le> length (tr_witnessKeyIds t)"
  have ids: "n' = n" "ids' = ids" using pol assms(2) by simp_all
  from v have file_hash: "vc_fileHash v = to_hex (checkpoint_file_hash X cp)"
    by (rule verify_checkpoint_bytes_Inr) simp
  have each: "k \<in> set ids \<and> (\<exists>bytes \<in> set receiptBytes. \<exists>payload sp r signature.
        parse_attestation ATTESTATION_LIMITS ''WIT1'' bytes = Inr (payload, sp)
        \<and> bindR (decode_canonical DEFAULT_LIMITS payload) (validate_witness X) = Inr r
        \<and> public_key_id X (id_publicKey (wr_witness r)) = k
        \<and> verify_domain_commitment X (id_publicKey (wr_witness r)) ''witness-signature-v1'' payload signature
        \<and> to_hex (wr_checkpointHash r) = tr_checkpointHash t
        \<and> wr_checkpointFileHash r = checkpoint_file_hash X cp)"
    if "k \<in> set (tr_witnessKeyIds t)" for k
  proof -
    from that t(3) obtain r where r: "r \<in> set receipts" "attests v r" "k = id_keyId (wr_witness (vr_receipt r))" by auto
    from r(1) m obtain bytes where b: "bytes \<in> set receiptBytes"
      "verify_witness_receipt_bytes X (plain_options ids' True) bytes = Inr r"
      by (auto simp: in_set_conv_nth mapR_Inr_length dest: mapR_Inr_nth)
    from b(2) obtain payload sp signature where p: "parse_attestation ATTESTATION_LIMITS ''WIT1'' bytes = Inr (payload, sp)"
      "bindR (decode_canonical DEFAULT_LIMITS payload) (validate_witness X) = Inr (vr_receipt r)"
      "receipt_ok X (vr_receipt r)"
      "verify_domain_commitment X (id_publicKey (wr_witness (vr_receipt r))) ''witness-signature-v1'' payload signature"
      and tr: "id_keyId (wr_witness (vr_receipt r)) \<in> set ids'"
      by (rule verify_receipt_Inr) simp
    from p(3) r(3) have "public_key_id X (id_publicKey (wr_witness (vr_receipt r))) = k"
      by (simp add: receipt_ok_def bound_identity_def)
    moreover have "to_hex (wr_checkpointHash (vr_receipt r)) = tr_checkpointHash t"
      "wr_checkpointFileHash (vr_receipt r) = checkpoint_file_hash X cp"
      using r(2) t(1) file_hash by (simp_all add: attests_def to_hex_inj)
    moreover have "k \<in> set ids" using tr r(3) ids by simp
    ultimately show ?thesis
      using p by (intro conjI bexI [OF _ b(1)]) (assumption, rule exI [of _ payload], rule exI [of _ sp],
        rule exI [of _ "vr_receipt r"], rule exI [of _ signature], simp)
  qed
  have "n \<le> card (set (tr_witnessKeyIds t))" using t(4,5) ids by (simp add: distinct_card)
  with each t v ids show ?thesis by (auto intro: exI [of _ v])
qed

text \<open>
  What attests a checkpoint is the set of receipts: repeating receipts or presenting them in
  another order changes neither acceptance nor the result.
\<close>

theorem threshold_ignores_repetition_and_order:
  assumes "verify_threshold_attestation X cp receiptBytes policy publishers = Inr t"
    and "set receiptBytes' = set receiptBytes" and "length receiptBytes' \<le> 1024"
  shows "verify_threshold_attestation X cp receiptBytes' policy publishers = Inr t"
proof -
  from assms(1) obtain n ids v receipts where pol: "threshold_policy policy = Inr (n, ids)"
    and v: "verify_checkpoint_bytes X (plain_options publishers True) cp = Inr v"
    and m: "mapR (verify_witness_receipt_bytes X (plain_options ids True)) receiptBytes = Inr receipts"
    and t: "(let matching = remdups (map (\<lambda>r. id_keyId (wr_witness (vr_receipt r))) (filter (attests v) receipts)) in
      andThen (invariant (n \<le> length matching) ''THRESHOLD_NOT_MET'')
      (Inr \<lparr>tr_checkpointHash = vc_checkpointHash v, tr_threshold = n,
         tr_witnessCount = length matching, tr_witnessKeyIds = sort matching\<rparr>)) = Inr t"
    by (auto simp: verify_threshold_attestation_def bindR_Inr_iff andThen_Inr_iff)
  let ?f = "verify_witness_receipt_bytes X (plain_options ids True)"
  have "\<exists>ys. mapR ?f receiptBytes' = Inr ys"
    using mapR_Inr_all [OF m] assms(2) by (intro mapR_total) blast
  then obtain receipts' where m': "mapR ?f receiptBytes' = Inr receipts'" by blast
  have image: "set ys = {y. \<exists>x \<in> set xs. ?f x = Inr y}" if "mapR ?f xs = Inr ys" for xs ys
    using that by (induction xs arbitrary: ys) (auto simp: bindR_Inr_iff)
  have "set receipts' = set receipts" using image [OF m] image [OF m'] assms(2) by simp
  then have s: "set (map (\<lambda>r. id_keyId (wr_witness (vr_receipt r))) (filter (attests v) receipts'))
      = set (map (\<lambda>r. id_keyId (wr_witness (vr_receipt r))) (filter (attests v) receipts))" by auto
  then have "sort (remdups (map (\<lambda>r. id_keyId (wr_witness (vr_receipt r))) (filter (attests v) receipts')))
      = sort (remdups (map (\<lambda>r. id_keyId (wr_witness (vr_receipt r))) (filter (attests v) receipts)))"
    by (simp only: flip: sorted_list_of_set_sort_remdups)
  moreover have "length (remdups (map (\<lambda>r. id_keyId (wr_witness (vr_receipt r))) (filter (attests v) receipts')))
      = length (remdups (map (\<lambda>r. id_keyId (wr_witness (vr_receipt r))) (filter (attests v) receipts)))"
    using s by (simp only: length_remdups_card_conv)
  ultimately show ?thesis
    using t [unfolded Let_def] assms(3)
    unfolding verify_threshold_attestation_def by (simp add: pol v m' Let_def)
qed

text \<open>
  C33: Enough receipts attest. Take a checkpoint that verifies with a trusted publisher and
  receipts for it that \<open>writeWitnessReceipt\<close> produced for signers with different key ids, all
  members of the policy: if they are at least as many as the threshold, the attestation is
  accepted and reports exactly those key ids.
\<close>

theorem enough_witnesses_attest:
  assumes "sha256_ok X" and "verify_checkpoint_bytes X (plain_options publishers True) cp = Inr v"
    and "portable_text (cp_ledgerId (vc_checkpoint v))"
    and "\<forall>(witness, time, bytes) \<in> set ws. keyId witness \<in> set ids \<and> length bytes \<le> 67108864
      \<and> (\<exists>result. write_witness_receipt X cp witness time publishers True = Inr (bytes, result))"
    and "distinct (map (keyId \<circ> fst) ws)" and "threshold_policy policy = Inr (n, ids)" and "n \<le> length ws"
    and "length ws \<le> 1024"
  shows "\<exists>t. verify_threshold_attestation X cp (map (snd \<circ> snd) ws) policy publishers = Inr t
    \<and> set (tr_witnessKeyIds t) = keyId ` fst ` set ws \<and> tr_witnessCount t = length ws"
proof -
  let ?f = "verify_witness_receipt_bytes X (plain_options ids True)"
  from assms(2) obtain payload where h: "vc_checkpointHash v = to_hex (checkpoint_hash X payload)"
    "vc_fileHash v = to_hex (checkpoint_file_hash X cp)"
    by (rule verify_checkpoint_bytes_Inr) simp
  have each: "\<forall>x \<in> set ws. \<exists>r. ?f (snd (snd x)) = Inr r \<and> id_keyId (wr_witness (vr_receipt r)) = keyId (fst x) \<and> attests v r"
  proof
    fix x assume x: "x \<in> set ws"
    obtain w time b where e: "x = (w, time, b)" by (cases x)
    with assms(4) x obtain result where "write_witness_receipt X cp w time publishers True = Inr (b, result)"
      "keyId w \<in> set ids" "length b \<le> 67108864" by fast
    from write_then_verify_receipt [OF assms(1) this(1) assms(2,3) this(3,2)] h
    show "\<exists>r. ?f (snd (snd x)) = Inr r \<and> id_keyId (wr_witness (vr_receipt r)) = keyId (fst x) \<and> attests v r"
      by (auto simp: e attests_def receipt_for_def hex_bytes_to_hex)
  qed
  have "\<exists>rs. mapR ?f (map (\<lambda>x. snd (snd x)) ws) = Inr rs \<and> map (\<lambda>r. id_keyId (wr_witness (vr_receipt r))) rs = map (\<lambda>x. keyId (fst x)) ws
      \<and> filter (attests v) rs = rs"
    using each
  proof (induction ws)
    case (Cons x ws)
    then obtain r rs where "?f (snd (snd x)) = Inr r" "id_keyId (wr_witness (vr_receipt r)) = keyId (fst x)" "attests v r"
      and "mapR ?f (map (\<lambda>x. snd (snd x)) ws) = Inr rs"
      "map (\<lambda>r. id_keyId (wr_witness (vr_receipt r))) rs = map (\<lambda>x. keyId (fst x)) ws" "filter (attests v) rs = rs"
      by auto
    then show ?case by auto
  qed simp
  then obtain rs where rs: "mapR ?f (map (\<lambda>x. snd (snd x)) ws) = Inr rs"
    "map (\<lambda>r. id_keyId (wr_witness (vr_receipt r))) rs = map (\<lambda>x. keyId (fst x)) ws" "filter (attests v) rs = rs" by blast
  have "remdups (map (keyId \<circ> fst) ws) = map (keyId \<circ> fst) ws"
    using assms(5) by (simp add: distinct_remdups_id)
  then show ?thesis
    using assms(2,6-8) rs by (simp add: verify_threshold_attestation_def Let_def image_comp comp_def distinct_remdups_id)
qed

section \<open>A sample attestation\<close>

definition sample_threshold_policy :: jsval where
  "sample_threshold_policy = obj
     [(''kind'', JStr (js ''g9p-threshold-policy'')), (''version'', JInt 1), (''threshold'', JInt 1),
      (''witnessKeyIds'', JArr [JStr (keyId sample_witness)])]"

lemma sample_threshold_policy_Inr: "threshold_policy sample_threshold_policy = Inr (1, [keyId sample_witness])"
proof -
  have k: "is_hex64 (keyId sample_witness)"
    by (rule signer_key_hex(4) [OF sample_witness_signs(2) toy_sha256_ok])
  have "exact_keys sample_threshold_policy [''kind'', ''version'', ''threshold'', ''witnessKeyIds'']"
    unfolding sample_threshold_policy_def by (rule exact_keys_obj) auto
  moreover have "is_object sample_threshold_policy" by (simp add: sample_threshold_policy_def)
  ultimately have "attest_exact sample_threshold_policy [''kind'', ''version'', ''threshold'', ''witnessKeyIds''] ''THRESHOLD_POLICY'' = Inr ()"
    by (simp add: attest_exact_def)
  moreover have "get_prop sample_threshold_policy ''kind'' = JStr (js ''g9p-threshold-policy'')"
    "get_prop sample_threshold_policy ''version'' = JInt 1" "get_prop sample_threshold_policy ''threshold'' = JInt 1"
    "get_prop sample_threshold_policy ''witnessKeyIds'' = JArr [JStr (keyId sample_witness)]"
    by (simp_all add: sample_threshold_policy_def del: js_Cons)
  ultimately show ?thesis
    using k by (simp add: threshold_policy_def is_js_def positive_safe_integer_def is_array_def array_items_def
        sorted_ids_def hash_text_def str_of_def int_of_def del: js_Cons)
qed

lemma sample_attestation:
  obtains cp v receipt where
    "verify_checkpoint_bytes toy_platform (plain_options [keyId sample_authority] True) cp = Inr v"
    and "portable_text (cp_ledgerId (vc_checkpoint v))"
    and "\<exists>result. write_witness_receipt toy_platform cp sample_witness (js ''2026-01-02T03:04:05.006Z'')
      [keyId sample_authority] True = Inr (receipt, result)" and "length receipt \<le> 67108864"
proof -
  obtain cp result where w: "write_checkpoint toy_platform sample_checkpoint = Inr (cp, result)"
    "length cp \<le> 67108864" by (rule sample_checkpoint_written)
  have "keyId (cr_publisher sample_checkpoint) \<in> set [keyId sample_authority]" by (simp add: sample_checkpoint_def)
  with write_then_verify_checkpoint [OF toy_sha256_ok w(1) sample_portable_ledger w(2),
      of "plain_options [keyId sample_authority] True"]
  obtain v where v: "verify_checkpoint_bytes toy_platform (plain_options [keyId sample_authority] True) cp = Inr v"
    "cp_ledgerId (vc_checkpoint v) = cr_ledgerId sample_checkpoint"
    by (auto simp: requested_checkpoint_def)
  have l: "cr_ledgerId sample_checkpoint = js ''L''" by (simp add: sample_checkpoint_def)
  have "length (publicKeyDer sample_witness) = 44" by (simp add: sample_witness_def)
  from write_receipt_total [OF toy_sha256_ok sample_witness_signs(2) this sample_times(1) v(1)]
  obtain receipt where "\<exists>result. write_witness_receipt toy_platform cp sample_witness (js ''2026-01-02T03:04:05.006Z'')
      [keyId sample_authority] True = Inr (receipt, result)" "length receipt \<le> 67108864"
    using sample_witness_signs(1) by (auto simp: v(2) l simp del: js_Cons)
  then show thesis by (intro that [OF v(1)]) (simp_all add: v(2) l del: js_Cons)
qed

lemma enough_witnesses_attest_witness:
  "\<exists>cp receipt t. verify_threshold_attestation toy_platform cp [receipt] sample_threshold_policy [keyId sample_authority] = Inr t
    \<and> set (tr_witnessKeyIds t) = {keyId sample_witness}"
proof -
  obtain cp v receipt where s:
    "verify_checkpoint_bytes toy_platform (plain_options [keyId sample_authority] True) cp = Inr v"
    "portable_text (cp_ledgerId (vc_checkpoint v))"
    "\<exists>result. write_witness_receipt toy_platform cp sample_witness (js ''2026-01-02T03:04:05.006Z'')
      [keyId sample_authority] True = Inr (receipt, result)" "length receipt \<le> 67108864" by (rule sample_attestation)
  let ?ws = "[(sample_witness, js ''2026-01-02T03:04:05.006Z'', receipt)]"
  have "\<forall>(witness, time, bytes) \<in> set ?ws. keyId witness \<in> set [keyId sample_witness] \<and> length bytes \<le> 67108864
      \<and> (\<exists>result. write_witness_receipt toy_platform cp witness time [keyId sample_authority] True = Inr (bytes, result))"
    using s(3,4) by simp
  from enough_witnesses_attest [OF toy_sha256_ok s(1,2) this _ sample_threshold_policy_Inr] show ?thesis by auto
qed

lemma sample_attested:
  obtains cp receipt t where
    "verify_threshold_attestation toy_platform cp [receipt] sample_threshold_policy [keyId sample_authority] = Inr t"
proof -
  obtain cp v receipt where s:
    "verify_checkpoint_bytes toy_platform (plain_options [keyId sample_authority] True) cp = Inr v"
    "portable_text (cp_ledgerId (vc_checkpoint v))"
    "\<exists>result. write_witness_receipt toy_platform cp sample_witness (js ''2026-01-02T03:04:05.006Z'')
      [keyId sample_authority] True = Inr (receipt, result)" "length receipt \<le> 67108864" by (rule sample_attestation)
  from s(3) obtain result where w: "write_witness_receipt toy_platform cp sample_witness (js ''2026-01-02T03:04:05.006Z'')
      [keyId sample_authority] True = Inr (receipt, result)" by blast
  from s(1) obtain payload where h: "vc_checkpointHash v = to_hex (checkpoint_hash toy_platform payload)"
    "vc_fileHash v = to_hex (checkpoint_file_hash toy_platform cp)"
    by (rule verify_checkpoint_bytes_Inr) simp
  from write_then_verify_receipt [OF toy_sha256_ok w s(1,2,4), of "[keyId sample_witness]"]
  obtain r where "verify_witness_receipt_bytes toy_platform (plain_options [keyId sample_witness] True) receipt = Inr r"
    and "attests v r" using h by (auto simp: attests_def receipt_for_def hex_bytes_to_hex)
  then have "\<exists>t. verify_threshold_attestation toy_platform cp [receipt] sample_threshold_policy [keyId sample_authority] = Inr t"
    by (simp add: verify_threshold_attestation_def s(1) sample_threshold_policy_Inr Let_def)
  then show thesis using that by blast
qed

lemma threshold_met_by_distinct_witnesses_witness:
  "\<exists>cp receipt t. verify_threshold_attestation toy_platform cp [receipt] sample_threshold_policy [keyId sample_authority] = Inr t
    \<and> 1 \<le> card (set (tr_witnessKeyIds t)) \<and> set (tr_witnessKeyIds t) \<subseteq> {keyId sample_witness}"
proof -
  obtain cp receipt t where t: "verify_threshold_attestation toy_platform cp [receipt] sample_threshold_policy
    [keyId sample_authority] = Inr t" by (rule sample_attested)
  from threshold_met_by_distinct_witnesses [OF t sample_threshold_policy_Inr]
  have "1 \<le> card (set (tr_witnessKeyIds t))" "set (tr_witnessKeyIds t) \<subseteq> {keyId sample_witness}" by auto
  with t show ?thesis by blast
qed

lemma threshold_ignores_repetition_and_order_witness:
  "\<exists>cp receipt t. verify_threshold_attestation toy_platform cp [receipt] sample_threshold_policy [keyId sample_authority] = Inr t
    \<and> verify_threshold_attestation toy_platform cp [receipt, receipt] sample_threshold_policy [keyId sample_authority] = Inr t"
proof -
  obtain cp receipt t where t: "verify_threshold_attestation toy_platform cp [receipt] sample_threshold_policy
    [keyId sample_authority] = Inr t" by (rule sample_attested)
  from threshold_ignores_repetition_and_order [OF t, of "[receipt, receipt]"] t show ?thesis by auto
qed

end
