(* ===== verification/G9P_Signer_Trust.thy ===== *)
theory G9P_Signer_Trust
  imports G9P_Attestation
begin

text \<open>
  Trust bundles (src/src/signer-trust.js): signed-off bindings of segment ranges to signing keys,
  validated to be ordered and free of adjacent overlaps, and the decision about a signer at a position of
  the ledger. \<open>String.prototype.localeCompare\<close> depends on the runtime's locale; it is the parameter
  \<open>collate\<close>. The \<open>WeakSet\<close> that remembers validated bundles only saves work and is not modelled.
\<close>

section \<open>Bundles\<close>

datatype trust_status = Trusted | Revoked | Untrusted | Indeterminate

record trust_binding =
  tb_ledgerId :: jsstr
  tb_epochNumber :: nat
  tb_shardId :: jsstr
  tb_firstSegmentNumber :: nat
  tb_lastSegmentNumber :: "nat option"
  tb_keyId :: jsstr
  tb_status :: trust_status

record trust_bundle =
  tu_bundleId :: jsstr
  tu_bindings :: "trust_binding list"

definition BINDING_FIELDS :: "string list" where
  "BINDING_FIELDS = [''ledgerId'', ''epochNumber'', ''shardId'', ''firstSegmentNumber'', ''lastSegmentNumber'',
     ''keyId'', ''status'']"

definition text_between :: "nat \<Rightarrow> nat \<Rightarrow> jsval \<Rightarrow> bool" where
  "text_between lo hi v = (case v of JStr s \<Rightarrow> lo \<le> length s \<and> length s \<le> hi | _ \<Rightarrow> False)"

definition binding_of :: "jsval \<Rightarrow> trust_binding" where
  "binding_of v = \<lparr>tb_ledgerId = text_prop v ''ledgerId'',
     tb_epochNumber = nat (int_of (get_prop v ''epochNumber'')),
     tb_shardId = text_prop v ''shardId'',
     tb_firstSegmentNumber = nat (int_of (get_prop v ''firstSegmentNumber'')),
     tb_lastSegmentNumber = (if get_prop v ''lastSegmentNumber'' = JNull then None
       else Some (nat (int_of (get_prop v ''lastSegmentNumber'')))),
     tb_keyId = text_prop v ''keyId'',
     tb_status = (if is_js ''trusted'' (get_prop v ''status'') then Trusted else Revoked)\<rparr>"

definition validate_binding :: "jsval \<Rightarrow> trust_binding res" where
  "validate_binding v =
     andThen (checks
       [attest_exact v BINDING_FIELDS ''TRUST_BINDING_FIELDS'',
        invariant (text_between 1 1024 (get_prop v ''ledgerId'')) ''TRUST_BINDING_LEDGER'',
        invariant (int_in 0 MAX_SAFE (get_prop v ''epochNumber'') \<and> shard_id_text (get_prop v ''shardId''))
          ''TRUST_BINDING_STREAM'',
        invariant (int_in 0 MAX_SAFE (get_prop v ''firstSegmentNumber'')) ''TRUST_BINDING_RANGE'',
        invariant (get_prop v ''lastSegmentNumber'' = JNull
          \<or> int_in (int_of (get_prop v ''firstSegmentNumber'')) MAX_SAFE (get_prop v ''lastSegmentNumber''))
          ''TRUST_BINDING_RANGE'',
        invariant (hash_text (get_prop v ''keyId'')
          \<and> (is_js ''trusted'' (get_prop v ''status'') \<or> is_js ''revoked'' (get_prop v ''status'')))
          ''TRUST_BINDING_IDENTITY''])
     (Inr (binding_of v))"

text \<open>\<open>a || b\<close> on numbers: the first that is not zero.\<close>

definition or_else :: "int \<Rightarrow> int \<Rightarrow> int" where
  "or_else a b = (if a \<noteq> 0 then a else b)"

definition position_compare :: "(jsstr \<Rightarrow> jsstr \<Rightarrow> int) \<Rightarrow> trust_binding \<Rightarrow> trust_binding \<Rightarrow> int" where
  "position_compare collate l r =
     or_else (collate (tb_ledgerId l) (tb_ledgerId r))
     (or_else (int (tb_epochNumber l) - int (tb_epochNumber r))
     (or_else (collate (tb_shardId l) (tb_shardId r))
     (int (tb_firstSegmentNumber l) - int (tb_firstSegmentNumber r))))"

definition same_stream :: "trust_binding \<Rightarrow> trust_binding \<Rightarrow> bool" where
  "same_stream l r \<longleftrightarrow> tb_ledgerId l = tb_ledgerId r \<and> tb_epochNumber l = tb_epochNumber r \<and> tb_shardId l = tb_shardId r"

definition ends_before :: "trust_binding \<Rightarrow> trust_binding \<Rightarrow> bool" where
  "ends_before l r = (case tb_lastSegmentNumber l of None \<Rightarrow> False | Some n \<Rightarrow> n < tb_firstSegmentNumber r)"

fun check_binding_order :: "(jsstr \<Rightarrow> jsstr \<Rightarrow> int) \<Rightarrow> trust_binding list \<Rightarrow> unit res" where
  "check_binding_order collate (previous # current # rest) =
     andThen (checks
       [invariant (position_compare collate previous current < 0) ''TRUST_BINDING_ORDER'',
        invariant (\<not> same_stream previous current \<or> ends_before previous current) ''TRUST_BINDING_OVERLAP''])
     (check_binding_order collate (current # rest))"
| "check_binding_order collate _ = Inr ()"

definition validate_trust_bundle :: "(jsstr \<Rightarrow> jsstr \<Rightarrow> int) \<Rightarrow> jsval \<Rightarrow> trust_bundle res" where
  "validate_trust_bundle collate v =
     andThen (checks
       [attest_exact v [''kind'', ''version'', ''bundleId'', ''bindings''] ''TRUST_BUNDLE_FIELDS'',
        invariant (is_js ''g9p-segment-trust-bundle'' (get_prop v ''kind'') \<and> get_prop v ''version'' = JInt 1)
          ''TRUST_BUNDLE_VERSION'',
        invariant (text_between 1 256 (get_prop v ''bundleId'')) ''TRUST_BUNDLE_ID'',
        invariant (is_array (get_prop v ''bindings'') \<and> 1 \<le> length (array_items (get_prop v ''bindings''))
          \<and> length (array_items (get_prop v ''bindings'')) \<le> 65536) ''TRUST_BUNDLE_BINDINGS''])
     (bindR (mapR validate_binding (array_items (get_prop v ''bindings''))) (\<lambda>bindings.
      andThen (check_binding_order collate bindings)
      (Inr \<lparr>tu_bundleId = text_prop v ''bundleId'', tu_bindings = bindings\<rparr>)))"

definition trust_key_ids :: "trust_bundle \<Rightarrow> jsstr set" where
  "trust_key_ids bundle = set (map tb_keyId (tu_bindings bundle))"

section \<open>Decisions\<close>

record trust_position =
  tp_ledgerId :: jsstr
  tp_epochNumber :: nat
  tp_shardId :: jsstr
  tp_segmentNumber :: nat
  tp_keyId :: jsstr

record trust_decision =
  td_status :: trust_status
  td_bundleId :: jsstr
  td_keyId :: jsstr
  td_expectedKeyId :: "jsstr option"

text \<open>The text under which the index files a stream's bindings.\<close>

definition stream_key :: "jsstr \<Rightarrow> nat \<Rightarrow> jsstr \<Rightarrow> jsstr" where
  "stream_key ledger epoch shard = ledger @ [0] @ decimal epoch @ [0] @ shard"

definition binding_key :: "trust_binding \<Rightarrow> jsstr" where
  "binding_key b = stream_key (tb_ledgerId b) (tb_epochNumber b) (tb_shardId b)"

definition covers :: "trust_binding \<Rightarrow> nat \<Rightarrow> bool" where
  "covers b n \<longleftrightarrow> tb_firstSegmentNumber b \<le> n
     \<and> (case tb_lastSegmentNumber b of None \<Rightarrow> True | Some m \<Rightarrow> n \<le> m)"

definition evaluate_segment_trust :: "trust_bundle \<Rightarrow> trust_position \<Rightarrow> trust_decision res" where
  "evaluate_segment_trust bundle p =
     andThen (invariant (tp_epochNumber p \<le> max_safe_integer \<and> is_shard_id (tp_shardId p)
         \<and> tp_segmentNumber p \<le> max_safe_integer \<and> is_hex64 (tp_keyId p)) ''TRUST_POSITION'')
     (case find (\<lambda>b. binding_key b = stream_key (tp_ledgerId p) (tp_epochNumber p) (tp_shardId p)
            \<and> covers b (tp_segmentNumber p)) (tu_bindings bundle) of
        None \<Rightarrow> Inr \<lparr>td_status = Indeterminate, td_bundleId = tu_bundleId bundle, td_keyId = tp_keyId p,
                  td_expectedKeyId = None\<rparr>
      | Some b \<Rightarrow>
          if tb_keyId b \<noteq> tp_keyId p
          then Inr \<lparr>td_status = Untrusted, td_bundleId = tu_bundleId bundle, td_keyId = tp_keyId p,
                 td_expectedKeyId = Some (tb_keyId b)\<rparr>
          else Inr \<lparr>td_status = tb_status b, td_bundleId = tu_bundleId bundle, td_keyId = tp_keyId p,
                 td_expectedKeyId = None\<rparr>)"

definition require_trusted_segment_signer :: "trust_bundle \<Rightarrow> trust_position \<Rightarrow> trust_decision res" where
  "require_trusted_segment_signer bundle p =
     bindR (evaluate_segment_trust bundle p) (\<lambda>decision.
     andThen (invariant (td_status decision = Trusted) ''SEGMENT_SIGNER_TRUST'') (Inr decision))"

section \<open>Bindings of one stream do not overlap\<close>

lemma validate_binding_Inr:
  assumes "validate_binding v = Inr b"
  shows "is_shard_id (tb_shardId b)" and "tb_lastSegmentNumber b = Some n \<Longrightarrow> tb_firstSegmentNumber b \<le> n"
    and "tb_status b = Trusted \<or> tb_status b = Revoked"
proof -
  from assms have shard: "shard_id_text (get_prop v ''shardId'')"
    and first: "int_in 0 MAX_SAFE (get_prop v ''firstSegmentNumber'')"
    and last: "get_prop v ''lastSegmentNumber'' = JNull
      \<or> int_in (int_of (get_prop v ''firstSegmentNumber'')) MAX_SAFE (get_prop v ''lastSegmentNumber'')"
    and b: "b = binding_of v"
    by (simp_all add: validate_binding_def andThen_Inr_iff invariant_Inr_iff)
  show "is_shard_id (tb_shardId b)"
    using shard by (auto simp: b binding_of_def shard_id_text_def text_prop_def split: jsval.splits)
  show "tb_firstSegmentNumber b \<le> n" if "tb_lastSegmentNumber b = Some n"
    using that first last by (auto simp: b binding_of_def int_in_iff int_of_def split: if_splits)
  show "tb_status b = Trusted \<or> tb_status b = Revoked" by (simp add: b binding_of_def)
qed

text \<open>
  What the runtime promises of its collation: to be a consistent comparison. It may find different texts
  equal, as \<open>localeCompare\<close> does with canonically equivalent ones.
\<close>

definition comparator_ok :: "(jsstr \<Rightarrow> jsstr \<Rightarrow> int) \<Rightarrow> bool" where
  "comparator_ok collate \<longleftrightarrow> (\<forall>a. collate a a = 0) \<and> (\<forall>a b. collate a b < 0 \<longleftrightarrow> 0 < collate b a)
     \<and> (\<forall>a b c. collate a b \<le> 0 \<longrightarrow> collate b c \<le> 0 \<longrightarrow> collate a c \<le> 0)"

text \<open>What the order of the bindings rests on: the collation tells the texts in them apart.\<close>

definition texts_apart :: "(jsstr \<Rightarrow> jsstr \<Rightarrow> int) \<Rightarrow> jsstr set \<Rightarrow> bool" where
  "texts_apart collate S \<longleftrightarrow> (\<forall>a \<in> S. \<forall>b \<in> S. collate a b = 0 \<longrightarrow> a = b)"

definition binding_texts :: "trust_binding \<Rightarrow> jsstr set" where
  "binding_texts b = {tb_ledgerId b, tb_shardId b}"

definition ordered_on :: "jsstr set \<Rightarrow> (jsstr \<Rightarrow> jsstr \<Rightarrow> int) \<Rightarrow> bool" where
  "ordered_on S collate \<longleftrightarrow> comparator_ok collate \<and> texts_apart collate S"

lemma ordered_onD:
  assumes "ordered_on S collate"
  shows "\<not> collate a a < 0" and "a \<in> S \<Longrightarrow> b \<in> S \<Longrightarrow> collate a b = 0 \<longleftrightarrow> a = b"
    and "collate a b < 0 \<Longrightarrow> 0 < collate b a" and "collate a b < 0 \<Longrightarrow> collate b c < 0 \<Longrightarrow> collate a c < 0"
proof -
  have r: "collate x x = 0" and s: "collate x y < 0 \<longleftrightarrow> 0 < collate y x"
    and t: "collate x y \<le> 0 \<Longrightarrow> collate y z \<le> 0 \<Longrightarrow> collate x z \<le> 0" for x y z
    using assms unfolding ordered_on_def comparator_ok_def by blast+
  show "\<not> collate a a < 0" by (simp add: r)
  show "collate a b = 0 \<longleftrightarrow> a = b" if "a \<in> S" "b \<in> S"
    using assms that r unfolding ordered_on_def texts_apart_def by blast
  show "0 < collate b a" if "collate a b < 0" using that s by blast
  show "collate a c < 0" if ab: "collate a b < 0" and bc: "collate b c < 0"
  proof (rule ccontr)
    assume "\<not> collate a c < 0"
    then have "collate c a \<le> 0" using s [of a c] by simp
    then have "collate c b \<le> 0" using t [of c a b] ab by simp
    then show False using s [of b c] bc by simp
  qed
qed

lemma position_compare_less:
  assumes "ordered_on S collate" and "binding_texts l \<subseteq> S" and "binding_texts r \<subseteq> S"
  shows "position_compare collate l r < 0 \<longleftrightarrow>
    collate (tb_ledgerId l) (tb_ledgerId r) < 0 \<or> tb_ledgerId l = tb_ledgerId r \<and>
    (tb_epochNumber l < tb_epochNumber r \<or> tb_epochNumber l = tb_epochNumber r \<and>
    (collate (tb_shardId l) (tb_shardId r) < 0 \<or> tb_shardId l = tb_shardId r \<and>
     tb_firstSegmentNumber l < tb_firstSegmentNumber r))"
  using assms(2,3) ordered_onD(1,2) [OF assms(1)]
  by (auto simp: position_compare_def or_else_def binding_texts_def)

lemma position_compare_trans:
  assumes "ordered_on S collate" and "binding_texts a \<subseteq> S" and "binding_texts b \<subseteq> S" and "binding_texts c \<subseteq> S"
    and "position_compare collate a b < 0" and "position_compare collate b c < 0"
  shows "position_compare collate a c < 0"
  using assms(5,6) ordered_onD(4) [OF assms(1), of "tb_ledgerId a" "tb_ledgerId b" "tb_ledgerId c"]
    ordered_onD(4) [OF assms(1), of "tb_shardId a" "tb_shardId b" "tb_shardId c"]
  unfolding position_compare_less [OF assms(1,2,3)] position_compare_less [OF assms(1,3,4)]
    position_compare_less [OF assms(1,2,4)] by auto

lemma stream_between:
  assumes "ordered_on S collate" and "binding_texts a \<subseteq> S" and "binding_texts b \<subseteq> S" and "binding_texts c \<subseteq> S"
    and "position_compare collate a b < 0" and "position_compare collate b c < 0" and "same_stream a c"
  shows "same_stream a b \<and> same_stream b c"
proof -
  have cycle: "x = y" if "collate x y < 0 \<or> x = y" "collate y x < 0 \<or> y = x" for x y
    using that ordered_onD(3) [OF assms(1), of x y] by auto
  note irr = ordered_onD(1) [OF assms(1)]
  note less = assms(5) [unfolded position_compare_less [OF assms(1,2,3)]] assms(6) [unfolded position_compare_less [OF assms(1,3,4)]]
  have ac: "tb_ledgerId c = tb_ledgerId a" "tb_epochNumber c = tb_epochNumber a" "tb_shardId c = tb_shardId a"
    using assms(7) by (simp_all add: same_stream_def)
  have l: "tb_ledgerId a = tb_ledgerId b" by (rule cycle) (use less ac in auto)
  have e: "tb_epochNumber a = tb_epochNumber b"
    using less unfolding ac l [symmetric] by (auto simp: irr)
  have "tb_shardId a = tb_shardId b"
    by (rule cycle) (use less in \<open>auto simp: ac l [symmetric] e [symmetric] irr\<close>)
  with l e ac show ?thesis by (simp add: same_stream_def)
qed

definition separated :: "(jsstr \<Rightarrow> jsstr \<Rightarrow> int) \<Rightarrow> trust_binding \<Rightarrow> trust_binding \<Rightarrow> bool" where
  "separated collate l r \<longleftrightarrow> position_compare collate l r < 0 \<and> (same_stream l r \<longrightarrow> ends_before l r)"

lemma separated_trans:
  assumes "ordered_on S collate" and "\<And>n. tb_lastSegmentNumber b = Some n \<Longrightarrow> tb_firstSegmentNumber b \<le> n"
    and "separated collate a b" and "separated collate b c"
    and "binding_texts a \<subseteq> S" and "binding_texts b \<subseteq> S" and "binding_texts c \<subseteq> S"
  shows "separated collate a c"
proof -
  have p: "position_compare collate a b < 0" "position_compare collate b c < 0"
    using assms(3,4) by (simp_all add: separated_def)
  have "ends_before a c" if "same_stream a c"
  proof -
    from stream_between [OF assms(1,5,6,7) p that] have "ends_before a b" "ends_before b c"
      using assms(3,4) by (simp_all add: separated_def)
    with assms(2) show ?thesis by (auto simp: ends_before_def split: option.splits)
  qed
  with position_compare_trans [OF assms(1,5,6,7) p] show ?thesis by (simp add: separated_def)
qed

lemma ordered_bindings_separated:
  assumes "ordered_on S collate"
  shows "check_binding_order collate bs = Inr () \<Longrightarrow> \<Union>(binding_texts ` set bs) \<subseteq> S \<Longrightarrow>
    \<forall>b \<in> set bs. \<forall>n. tb_lastSegmentNumber b = Some n \<longrightarrow> tb_firstSegmentNumber b \<le> n \<Longrightarrow>
    sorted_wrt (separated collate) bs"
proof (induction bs rule: induct_list012)
  case (3 b c bs)
  then have s: "sorted_wrt (separated collate) (c # bs)" and bc: "separated collate b c"
    using assms by (auto simp: res_simps) (auto simp: separated_def)
  have "separated collate b d" if "d \<in> set bs" for d
    using s that 3(4,5) by (intro separated_trans [OF assms(1) _ bc]) auto
  with s bc show ?case by simp
qed simp_all

text \<open>The index key determines the stream: a shard name has ten characters and an epoch number no
  zero character, so the key is read from its end.\<close>

lemma decimal_no_zero: "0 \<notin> set (decimal n)"
  using is_digit_padded [of 0 0 n] by (auto simp: padded_def pad_start_def is_digit_def)

lemma append_zero_inj:
  assumes "as @ 0 # bs = cs @ 0 # ds" and "0 \<notin> set bs" and "0 \<notin> set ds"
  shows "as = cs \<and> bs = ds"
proof -
  from assms(1) have "rev bs @ 0 # rev as = rev ds @ 0 # rev cs" by (metis append.assoc append_Cons append_Nil rev.simps(2) rev_append)
  moreover have "takeWhile (\<lambda>x. x \<noteq> 0) (rev zs @ 0 # ys) = rev zs" if "0 \<notin> set zs" for zs ys :: "'a list"
    using that by (induction zs rule: rev_induct) auto
  ultimately have "rev bs = rev ds" using assms(2,3) by metis
  with assms(1) show ?thesis by simp
qed

lemma stream_key_inj:
  assumes "stream_key l e s = stream_key l' e' s'" and "is_shard_id s" and "is_shard_id s'"
  shows "l = l' \<and> e = e' \<and> s = s'"
proof -
  have "length s = length s'" using assms(2,3) by (simp add: is_shard_id_def)
  moreover from assms(1) have "(l @ 0 # decimal e @ [0]) @ s = (l' @ 0 # decimal e' @ [0]) @ s'"
    by (simp add: stream_key_def)
  ultimately have "l @ 0 # decimal e @ [0] = l' @ 0 # decimal e' @ [0] \<and> s = s'"
    using append_eq_append_conv [of "l @ 0 # decimal e @ [0]" "l' @ 0 # decimal e' @ [0]" s s'] by blast
  then have "s = s'" and "(l @ 0 # decimal e) @ [0] = (l' @ 0 # decimal e') @ [0]" by simp_all
  then have "s = s'" and "l @ 0 # decimal e = l' @ 0 # decimal e'" by (simp_all only: append1_eq_conv)
  with append_zero_inj [OF this(2) decimal_no_zero decimal_no_zero] show ?thesis
    by (metis digits_value_decimal)
qed

section \<open>The decision\<close>

lemma validate_trust_bundle_Inr:
  assumes "validate_trust_bundle collate v = Inr bundle"
  shows "comparator_ok collate \<Longrightarrow> texts_apart collate (\<Union>(binding_texts ` set (tu_bindings bundle))) \<Longrightarrow>
      sorted_wrt (separated collate) (tu_bindings bundle)"
    and "b \<in> set (tu_bindings bundle) \<Longrightarrow> is_shard_id (tb_shardId b) \<and> (tb_status b = Trusted \<or> tb_status b = Revoked)"
proof -
  from assms have m: "mapR validate_binding (array_items (get_prop v ''bindings'')) = Inr (tu_bindings bundle)"
    and o: "check_binding_order collate (tu_bindings bundle) = Inr ()"
    by (auto simp: validate_trust_bundle_def bindR_Inr_iff andThen_Inr_iff)
  have each: "\<exists>w. validate_binding w = Inr b" if "b \<in> set (tu_bindings bundle)" for b
    using that m by (auto simp: mapR_Inr_list_all2 list_all2_conv_all_nth in_set_conv_nth)
  show "sorted_wrt (separated collate) (tu_bindings bundle)"
    if "comparator_ok collate" "texts_apart collate (\<Union>(binding_texts ` set (tu_bindings bundle)))"
    using each validate_binding_Inr(2) that
    by (intro ordered_bindings_separated [OF _ o subset_refl]) (auto simp: ordered_on_def)
  show "is_shard_id (tb_shardId b) \<and> (tb_status b = Trusted \<or> tb_status b = Revoked)"
    if "b \<in> set (tu_bindings bundle)" using each [OF that] validate_binding_Inr(1,3) by blast
qed

definition binding_for :: "trust_bundle \<Rightarrow> trust_position \<Rightarrow> trust_binding \<Rightarrow> bool" where
  "binding_for bundle p b \<longleftrightarrow> b \<in> set (tu_bindings bundle) \<and> tb_ledgerId b = tp_ledgerId p
     \<and> tb_epochNumber b = tp_epochNumber p \<and> tb_shardId b = tp_shardId p \<and> covers b (tp_segmentNumber p)"

lemma binding_unique:
  assumes "sorted_wrt (separated collate) (tu_bindings bundle)" and "binding_for bundle p b" and "binding_for bundle p c"
  shows "b = c"
proof -
  from assms(2,3) obtain i j where ij: "i < length (tu_bindings bundle)" "tu_bindings bundle ! i = b"
    "j < length (tu_bindings bundle)" "tu_bindings bundle ! j = c"
    by (auto simp: binding_for_def in_set_conv_nth)
  have apart: False if "separated collate d e" "binding_for bundle p d" "binding_for bundle p e" for d e
    using that by (auto simp: separated_def same_stream_def binding_for_def ends_before_def covers_def split: option.splits)
  show ?thesis
  proof (cases i j rule: linorder_cases)
    case less
    with assms(1) ij have "separated collate b c" by (metis sorted_wrt_nth_less)
    with apart assms(2,3) show ?thesis by blast
  next
    case greater
    with assms(1) ij have "separated collate c b" by (metis sorted_wrt_nth_less)
    with apart assms(2,3) show ?thesis by blast
  qed (use ij in auto)
qed

lemma find_binding:
  assumes "\<And>b. b \<in> set (tu_bindings bundle) \<Longrightarrow> is_shard_id (tb_shardId b)" and "is_shard_id (tp_shardId p)"
  shows "case find (\<lambda>b. binding_key b = stream_key (tp_ledgerId p) (tp_epochNumber p) (tp_shardId p)
            \<and> covers b (tp_segmentNumber p)) (tu_bindings bundle) of
      None \<Rightarrow> \<nexists>b. binding_for bundle p b | Some b \<Rightarrow> binding_for bundle p b"
proof -
  have key: "binding_key b = stream_key (tp_ledgerId p) (tp_epochNumber p) (tp_shardId p) \<longleftrightarrow>
      tb_ledgerId b = tp_ledgerId p \<and> tb_epochNumber b = tp_epochNumber p \<and> tb_shardId b = tp_shardId p"
    if "b \<in> set (tu_bindings bundle)" for b
    using stream_key_inj [OF _ assms(1) [OF that] assms(2)] by (auto simp: binding_key_def)
  show ?thesis
  proof (cases "find (\<lambda>b. binding_key b = stream_key (tp_ledgerId p) (tp_epochNumber p) (tp_shardId p)
            \<and> covers b (tp_segmentNumber p)) (tu_bindings bundle)")
    case None
    note none = None [unfolded find_None_iff]
    show ?thesis unfolding None using none key by (auto simp: binding_for_def)
  next
    case (Some b)
    note found = Some [unfolded find_Some_iff]
    then have "b \<in> set (tu_bindings bundle)" by auto
    with found key [of b] show ?thesis unfolding Some by (auto simp: binding_for_def)
  qed
qed


text \<open>A bundle that rotates a key after segment 9 and revokes a third key's stream.\<close>

definition toy_collate :: "jsstr \<Rightarrow> jsstr \<Rightarrow> int" where
  "toy_collate a b = (if a = b then 0 else if a < b then -1 else 1)"

definition toy_key :: "byte \<Rightarrow> jsstr" where
  "toy_key b = to_hex (replicate 32 b)"

definition sample_binding :: "int \<Rightarrow> jsval \<Rightarrow> byte \<Rightarrow> string \<Rightarrow> jsval" where
  "sample_binding first upto_n k status = obj
     [(''ledgerId'', JStr (js ''L'')), (''epochNumber'', JInt 0), (''shardId'', JStr (js ''shard-0000'')),
      (''firstSegmentNumber'', JInt first), (''lastSegmentNumber'', upto_n), (''keyId'', JStr (toy_key k)),
      (''status'', JStr (js status))]"

definition sample_bundle :: jsval where
  "sample_bundle = obj
     [(''kind'', JStr (js ''g9p-segment-trust-bundle'')), (''version'', JInt 1), (''bundleId'', JStr (js ''b'')),
      (''bindings'', JArr [sample_binding 0 (JInt 9) 1 ''trusted'', sample_binding 10 JNull 2 ''trusted''])]"

definition sample_position :: "nat \<Rightarrow> byte \<Rightarrow> trust_position" where
  "sample_position n k = \<lparr>tp_ledgerId = js ''L'', tp_epochNumber = 0, tp_shardId = js ''shard-0000'',
     tp_segmentNumber = n, tp_keyId = toy_key k\<rparr>"

lemma toy_comparator_ok: "comparator_ok toy_collate"
  by (auto simp: comparator_ok_def toy_collate_def)

text \<open>A collation that finds the two spellings of a letter with a ring equal, one code point or two.\<close>

definition composed :: "jsstr \<Rightarrow> jsstr" where
  "composed s = (if s = [65, 778] then [197] else s)"

definition ring_collate :: "jsstr \<Rightarrow> jsstr \<Rightarrow> int" where
  "ring_collate a b = toy_collate (composed a) (composed b)"

definition ring_binding :: "jsstr \<Rightarrow> nat \<Rightarrow> trust_binding" where
  "ring_binding ledger first = \<lparr>tb_ledgerId = ledger, tb_epochNumber = 0, tb_shardId = js ''shard-0000'',
     tb_firstSegmentNumber = first, tb_lastSegmentNumber = None, tb_keyId = [], tb_status = Trusted\<rparr>"

text \<open>Its order is consistent, but a binding under the other spelling hides an overlap.\<close>

lemma equivalent_ids_hide_an_overlap:
  "comparator_ok ring_collate
   \<and> check_binding_order ring_collate [ring_binding [197] 0, ring_binding [65, 778] 1, ring_binding [197] 2] = Inr ()
   \<and> same_stream (ring_binding [197] 0) (ring_binding [197] 2)
   \<and> covers (ring_binding [197] 0) 2 \<and> covers (ring_binding [197] 2) 2"
proof -
  have "comparator_ok ring_collate" using toy_comparator_ok unfolding comparator_ok_def ring_collate_def by blast
  then show ?thesis
    by (simp add: ring_binding_def position_compare_def or_else_def ring_collate_def composed_def toy_collate_def
        same_stream_def covers_def invariant_def)
qed

lemma toy_key_hex: "is_hex64 (toy_key b)"
  by (simp add: toy_key_def is_hex64_to_hex)

lemma sample_binding_valid:
  assumes "0 \<le> first" and "first \<le> 10" and "upto_n = JNull \<or> upto_n = JInt 9 \<and> first = 0" and "status = ''trusted''"
  shows "validate_binding (sample_binding first upto_n k status) = Inr
    \<lparr>tb_ledgerId = js ''L'', tb_epochNumber = 0, tb_shardId = js ''shard-0000'', tb_firstSegmentNumber = nat first,
     tb_lastSegmentNumber = (if upto_n = JNull then None else Some 9), tb_keyId = toy_key k, tb_status = Trusted\<rparr>"
proof -
  let ?b = "sample_binding first upto_n k status"
  have "exact_keys ?b BINDING_FIELDS"
    unfolding sample_binding_def BINDING_FIELDS_def by (rule exact_keys_obj) auto
  moreover have "is_object ?b" by (simp add: sample_binding_def)
  moreover have "get_prop ?b ''ledgerId'' = JStr (js ''L'')" "get_prop ?b ''epochNumber'' = JInt 0"
    "get_prop ?b ''shardId'' = JStr (js ''shard-0000'')" "get_prop ?b ''firstSegmentNumber'' = JInt first"
    "get_prop ?b ''lastSegmentNumber'' = upto_n" "get_prop ?b ''keyId'' = JStr (toy_key k)"
    "get_prop ?b ''status'' = JStr (js status)"
    by (simp_all add: sample_binding_def del: js_Cons)
  moreover have "is_shard_id (js ''shard-0000'')" by (simp add: is_shard_id_def is_digit_def)
  ultimately show ?thesis
    using assms toy_key_hex
    by (auto simp: validate_binding_def attest_exact_def text_between_def int_in_def shard_id_text_def MAX_SAFE_def
        max_safe_integer_def int_of_def hash_text_def is_js_def binding_of_def text_prop_def simp del: js_Cons)
qed

lemma sample_bundle_valid:
  "\<exists>bundle. validate_trust_bundle toy_collate sample_bundle = Inr bundle
    \<and> map tb_keyId (tu_bindings bundle) = [toy_key 1, toy_key 2]
    \<and> (\<forall>b \<in> set (tu_bindings bundle). tb_ledgerId b = js ''L'' \<and> tb_epochNumber b = 0 \<and> tb_shardId b = js ''shard-0000'')
    \<and> covers (tu_bindings bundle ! 1) 10 \<and> length (tu_bindings bundle) = 2
    \<and> tb_status (tu_bindings bundle ! 1) = Trusted"
proof -
  let ?s = "sample_bundle"
  have "exact_keys ?s [''kind'', ''version'', ''bundleId'', ''bindings'']"
    unfolding sample_bundle_def by (rule exact_keys_obj) auto
  moreover have "is_object ?s" by (simp add: sample_bundle_def)
  moreover have "get_prop ?s ''kind'' = JStr (js ''g9p-segment-trust-bundle'')" "get_prop ?s ''version'' = JInt 1"
    "get_prop ?s ''bundleId'' = JStr (js ''b'')"
    "get_prop ?s ''bindings'' = JArr [sample_binding 0 (JInt 9) 1 ''trusted'', sample_binding 10 JNull 2 ''trusted'']"
    by (simp_all add: sample_bundle_def del: js_Cons)
  ultimately show ?thesis
    using sample_binding_valid [of 0 "JInt 9" "''trusted''" 1] sample_binding_valid [of 10 JNull "''trusted''" 2]
    by (simp add: validate_trust_bundle_def attest_exact_def is_js_def text_between_def is_array_def array_items_def
        position_compare_def or_else_def toy_collate_def ends_before_def covers_def del: js_Cons)
qed


end
