(* ===== verification/G9P_Machine.thy ===== *)
theory G9P_Machine
  imports G9P_Text
begin

text \<open>
  The interface of a component that moves by steps: an invariant every step keeps, and a relation
  between earlier and later states that every step respects. What a step promises then holds
  along every run, whatever the order and the number of the steps.
\<close>

locale machine =
  fixes step :: "'s \<Rightarrow> 's \<Rightarrow> bool"
    and inv :: "'s \<Rightarrow> bool"
    and grows :: "'s \<Rightarrow> 's \<Rightarrow> bool"
  assumes step_inv: "inv s \<Longrightarrow> step s t \<Longrightarrow> inv t"
    and step_grows: "inv s \<Longrightarrow> step s t \<Longrightarrow> grows s t"
    and grows_refl: "grows s s"
    and grows_trans: "grows s t \<Longrightarrow> grows t u \<Longrightarrow> grows s u"
begin

lemma run_inv: "step\<^sup>*\<^sup>* s t \<Longrightarrow> inv s \<Longrightarrow> inv t"
  by (induction rule: rtranclp_induct) (auto intro: step_inv)

lemma run_grows: "step\<^sup>*\<^sup>* s t \<Longrightarrow> inv s \<Longrightarrow> grows s t"
proof (induction rule: rtranclp_induct)
  case base
  show ?case by (rule grows_refl)
next
  case (step t u)
  from step have "inv t" by (blast intro: run_inv)
  with step show ?case by (blast intro: grows_trans step_grows)
qed

end

end
