(* ===== verification/G9P_Disk.thy ===== *)
theory G9P_Disk
  imports G9P_Machine
begin

text \<open>
  The file system under the stores (src/src/sealed-file.js, services/ledger/src/durable-intake.js
  and active-segment-store.js): a record with a current and a durable side, the system calls the
  code makes, runs of them that may fail at any point, power failures, and the invariant that every
  file under a final name holds exactly what was synchronised before it got that name. What has not
  been synchronised may be lost, or be found in part, after a power failure. Directories are objects
  with an entry in their parent: \<open>mkdir\<close> makes them, a file or a directory in the way makes a call
  fail, and a power failure takes away what is below a directory whose entry it takes away.
\<close>

section \<open>The file system\<close>

record disk =
  names :: "(jsstr, nat) jsmap"
  contents :: "nat \<Rightarrow> byte list"
  durable_names :: "jsstr \<Rightarrow> nat option"
  durable_contents :: "nat \<Rightarrow> byte list option"
  next_inode :: nat
  folders :: "jsstr set"
  durable_folders :: "jsstr set"

datatype disk_op =
    Make_Directory jsstr
  | Open_Exclusive jsstr
  | Write_File jsstr "byte list"
  | Sync_File jsstr
  | Link_File jsstr jsstr
  | Sync_Directory jsstr
  | Unlink_File jsstr
  | Rename_File jsstr jsstr

text \<open>\<open>path.dirname\<close> of a path with a directory.\<close>

definition dirname :: "jsstr \<Rightarrow> jsstr" where
  "dirname p = rev (tl (dropWhile (\<lambda>u. u \<noteq> 47) (rev p)))"

text \<open>The root of the file system, the directory of a path without another, is always there.\<close>

definition is_folder :: "disk \<Rightarrow> jsstr \<Rightarrow> bool" where
  "is_folder d p \<longleftrightarrow> p = [] \<or> p \<in> folders d"

lemma is_folder_simps [simp]:
  "is_folder d []" "is_folder (d\<lparr>names := x\<rparr>) p = is_folder d p" "is_folder (d\<lparr>contents := c\<rparr>) p = is_folder d p"
  "is_folder (d\<lparr>durable_names := m\<rparr>) p = is_folder d p" "is_folder (d\<lparr>durable_contents := dc\<rparr>) p = is_folder d p"
  "is_folder (d\<lparr>next_inode := n\<rparr>) p = is_folder d p" "is_folder (d\<lparr>durable_folders := D\<rparr>) p = is_folder d p"
  "is_folder (d\<lparr>folders := F\<rparr>) p \<longleftrightarrow> p = [] \<or> p \<in> F"
  by (simp_all add: is_folder_def)

fun disk_step :: "disk_op \<Rightarrow> disk \<Rightarrow> disk res" where
  "disk_step (Make_Directory p) d =
     (if jm_has (names d) p then Inl (PlainError ''EEXIST'')
      else if is_folder d p then Inr d
      else if \<not> is_folder d (dirname p) then Inl (PlainError ''ENOENT'')
      else Inr (d\<lparr>folders := insert p (folders d)\<rparr>))"
| "disk_step (Open_Exclusive p) d =
     (if jm_has (names d) p \<or> is_folder d p then Inl (PlainError ''EEXIST'')
      else if \<not> is_folder d (dirname p) then Inl (PlainError ''ENOENT'')
      else Inr (d\<lparr>names := jm_set p (next_inode d) (names d),
                 contents := (contents d)(next_inode d := []),
                 durable_contents := (durable_contents d)(next_inode d := None),
                 next_inode := Suc (next_inode d)\<rparr>))"
| "disk_step (Write_File p bytes) d =
     (case jm_get (names d) p of
        None \<Rightarrow> Inl (PlainError ''ENOENT'')
      | Some i \<Rightarrow> Inr (d\<lparr>contents := (contents d)(i := bytes)\<rparr>))"
| "disk_step (Sync_File p) d =
     (case jm_get (names d) p of
        None \<Rightarrow> Inl (PlainError ''ENOENT'')
      | Some i \<Rightarrow> Inr (d\<lparr>durable_contents := (durable_contents d)(i := Some (contents d i))\<rparr>))"
| "disk_step (Link_File p q) d =
     (case jm_get (names d) p of
        None \<Rightarrow> Inl (PlainError ''ENOENT'')
      | Some i \<Rightarrow>
          if jm_has (names d) q \<or> is_folder d q then Inl (PlainError ''EEXIST'')
          else if \<not> is_folder d (dirname q) then Inl (PlainError ''ENOENT'')
          else Inr (d\<lparr>names := jm_set q i (names d)\<rparr>))"
| "disk_step (Sync_Directory dir) d =
     (if is_folder d dir
      then Inr (d\<lparr>durable_names := (\<lambda>p. if dirname p = dir then jm_get (names d) p else durable_names d p),
                  durable_folders := durable_folders d \<union> {f \<in> folders d. dirname f = dir}\<rparr>)
      else Inl (PlainError ''ENOENT''))"
| "disk_step (Unlink_File p) d =
     (if jm_has (names d) p then Inr (d\<lparr>names := jm_delete p (names d)\<rparr>) else Inl (PlainError ''ENOENT''))"
| "disk_step (Rename_File p q) d =
     (case jm_get (names d) p of
        None \<Rightarrow> Inl (PlainError ''ENOENT'')
      | Some i \<Rightarrow>
          if is_folder d q then Inl (PlainError ''EISDIR'')
          else if \<not> is_folder d (dirname q) then Inl (PlainError ''ENOENT'')
          else Inr (d\<lparr>names := jm_set q i (jm_delete p (names d))\<rparr>))"

text \<open>
  A run of system calls. A fault \<open>Some (n, written)\<close> makes the call after the first \<open>n\<close> fail, as an
  injected fault, a full disk or an I/O error does; a write that fails leaves \<open>written\<close> behind.
\<close>

type_synonym fault = "(nat \<times> byte list) option"

fun run_ops :: "disk_op list \<Rightarrow> fault \<Rightarrow> disk \<Rightarrow> disk \<times> bool" where
  "run_ops [] fault d = (case fault of None \<Rightarrow> (d, True) | Some _ \<Rightarrow> (d, False))"
| "run_ops (op # ops) fault d =
     (case fault of
        Some (0, written) \<Rightarrow>
          (case op of
             Write_File p bytes \<Rightarrow> (case disk_step (Write_File p written) d of Inr d' \<Rightarrow> (d', False) | Inl _ \<Rightarrow> (d, False))
           | _ \<Rightarrow> (d, False))
      | Some (Suc n, written) \<Rightarrow>
          (case disk_step op d of Inr d' \<Rightarrow> run_ops ops (Some (n, written)) d' | Inl _ \<Rightarrow> (d, False))
      | None \<Rightarrow>
          (case disk_step op d of Inr d' \<Rightarrow> run_ops ops None d' | Inl _ \<Rightarrow> (d, False)))"

section \<open>Directories\<close>

lemma length_dirname: "p \<noteq> [] \<Longrightarrow> length (dirname p) < length p"
  using length_dropWhile_le [of "\<lambda>u. u \<noteq> 47" "rev p"] by (cases p) (auto simp: dirname_def)

lemma dirname_Nil [simp]: "dirname [] = []"
  by (simp add: dirname_def)

lemma dirname_below [simp]: "47 \<notin> set name \<Longrightarrow> dirname (dir @ 47 # name) = dir"
  by (simp add: dirname_def dropWhile_append)

lemma dirname_append: "47 \<notin> set s \<Longrightarrow> dirname (p @ s) = dirname p"
  by (simp add: dirname_def dropWhile_append)

lemma dirname_split: "dirname p \<noteq> [] \<Longrightarrow> \<exists>name. p = dirname p @ 47 # name"
proof -
  assume a: "dirname p \<noteq> []"
  define t where "t = dropWhile (\<lambda>u. u \<noteq> 47) (rev p)"
  have "t \<noteq> []" using a unfolding dirname_def t_def [symmetric] by auto
  then have "hd t = 47" unfolding t_def using hd_dropWhile by blast
  with \<open>t \<noteq> []\<close> have "t = 47 # tl t" by (cases t) simp_all
  moreover have "rev p = takeWhile (\<lambda>u. u \<noteq> 47) (rev p) @ t" by (simp add: t_def)
  ultimately have "p = rev (tl t) @ 47 # rev (takeWhile (\<lambda>u. u \<noteq> 47) (rev p))"
    by (metis append.assoc append_Cons append_Nil rev.simps(2) rev_append rev_rev_ident)
  then show ?thesis unfolding dirname_def t_def by blast
qed

text \<open>The directories on the way to a path, from the top.\<close>

function ancestors :: "jsstr \<Rightarrow> jsstr list" where
  "ancestors p = (if dirname p = [] then [] else ancestors (dirname p) @ [dirname p])"
  by auto
termination
  by (relation "measure length") (auto intro: length_dirname)

declare ancestors.simps [simp del]

text \<open>\<open>mkdir(path, { recursive: true })\<close>: a directory that is missing is made after its parent, one that
  is there needs no call. Each directory is a call of its own, so that a fault may fall between two.\<close>

function make_directories :: "disk \<Rightarrow> jsstr \<Rightarrow> disk_op list" where
  "make_directories d p =
     (if is_folder d p then [] else make_directories d (dirname p) @ [Make_Directory p])"
  by auto
termination
  by (relation "measure (length \<circ> snd)") (auto simp: is_folder_def intro: length_dirname)

declare make_directories.simps [simp del]

definition tree :: "jsstr set \<Rightarrow> bool" where
  "tree F \<longleftrightarrow> (\<forall>f \<in> F. dirname f = [] \<or> dirname f \<in> F)"

text \<open>A path whose directories cannot be taken away: each has been synchronised in its parent.\<close>

definition anchored :: "disk \<Rightarrow> jsstr \<Rightarrow> bool" where
  "anchored d p \<longleftrightarrow> set (ancestors p) \<subseteq> durable_folders d"

text \<open>
  A power failure: a directory is found if its entry and those of all the directories above it were
  synchronised, and found or not otherwise; what is below a directory that is not found is gone. The
  entry of a file is found as it was or as it was last synchronised; a file is found whole if nothing
  was written to it since it was synchronised, and with any content otherwise. What is found is
  durable from then on.
\<close>

definition power_failure :: "disk \<Rightarrow> disk \<Rightarrow> bool" where
  "power_failure d d' \<longleftrightarrow> jm_wf (names d') \<and> next_inode d' = next_inode d
     \<and> tree (folders d') \<and> folders d' \<subseteq> folders d
     \<and> (\<forall>f \<in> folders d. anchored d f \<and> f \<in> durable_folders d \<longrightarrow> f \<in> folders d')
     \<and> (\<forall>p. if is_folder d' (dirname p) \<and> \<not> is_folder d' p
            then jm_get (names d') p = jm_get (names d) p \<or> jm_get (names d') p = durable_names d p
            else jm_get (names d') p = None)
     \<and> (\<forall>i. durable_contents d i = Some (contents d i) \<longrightarrow> contents d' i = contents d i)
     \<and> durable_names d' = jm_get (names d') \<and> durable_contents d' = (\<lambda>i. Some (contents d' i))
     \<and> durable_folders d' = folders d'"

definition read_file :: "disk \<Rightarrow> jsstr \<Rightarrow> byte list option" where
  "read_file d p = map_option (contents d) (jm_get (names d) p)"

section \<open>Provisional files and promotion\<close>

definition ends_with :: "string \<Rightarrow> jsstr \<Rightarrow> bool" where
  "ends_with suffix p \<longleftrightarrow> length suffix \<le> length p \<and> drop (length p - length suffix) p = js suffix"

lemma ends_with_iff: "ends_with suffix p \<longleftrightarrow> (\<exists>a. p = a @ js suffix)"
proof
  assume "ends_with suffix p"
  then have "p = take (length p - length suffix) p @ js suffix"
    unfolding ends_with_def by (metis append_take_drop_id)
  then show "\<exists>a. p = a @ js suffix" ..
next
  assume "\<exists>a. p = a @ js suffix"
  then show "ends_with suffix p" by (auto simp: ends_with_def simp del: js_Cons)
qed

lemma ends_with_append: "ends_with suffix p \<Longrightarrow> ends_with suffix (a @ p)"
  unfolding ends_with_iff by (metis append.assoc)

definition part_path :: "jsstr \<Rightarrow> jsstr" where
  "part_path p = p @ js ''.part''"

definition promotion :: "jsstr \<Rightarrow> byte list \<Rightarrow> disk_op list" where
  "promotion outputPath fileBytes =
     (let partPath = part_path outputPath in
      [Open_Exclusive partPath, Write_File partPath fileBytes, Sync_File partPath,
       Link_File partPath outputPath, Sync_Directory (dirname outputPath),
       Unlink_File partPath, Sync_Directory (dirname outputPath)])"

section \<open>The invariant\<close>

abbreviation sealed_name :: "jsstr \<Rightarrow> bool" where
  "sealed_name p \<equiv> ends_with ''.g9p'' p"

text \<open>The names under which promoted files are found: sealed objects, intake records and active
  states. A sealed object keeps its name for good.\<close>

definition final_name :: "jsstr \<Rightarrow> bool" where
  "final_name p \<longleftrightarrow> sealed_name p \<or> ends_with ''.intake'' p \<or> ends_with ''.state'' p"

text \<open>Every entry lies in a directory that is there, and none is a file and a directory.\<close>

definition tree_ok :: "disk \<Rightarrow> bool" where
  "tree_ok d \<longleftrightarrow> tree (folders d)
     \<and> (\<forall>p. jm_get (names d) p \<noteq> None \<longrightarrow> is_folder d (dirname p) \<and> \<not> is_folder d p)"

definition disk_ok :: "disk \<Rightarrow> bool" where
  "disk_ok d \<longleftrightarrow> jm_wf (names d) \<and> tree_ok d
     \<and> (\<forall>p i. jm_get (names d) p = Some i \<or> durable_names d p = Some i \<longrightarrow> i < next_inode d)
     \<and> (\<forall>p i. final_name p \<longrightarrow> jm_get (names d) p = Some i \<or> durable_names d p = Some i \<longrightarrow>
          durable_contents d i = Some (contents d i))
     \<and> (\<forall>p i. sealed_name p \<longrightarrow> durable_names d p = Some i \<longrightarrow> jm_get (names d) p = Some i)"

text \<open>A file that is there, whole, and synchronised together with its entry: no power failure takes it
  away that leaves its directories.\<close>

definition kept_as :: "disk \<Rightarrow> jsstr \<Rightarrow> byte list \<Rightarrow> bool" where
  "kept_as d p bytes \<longleftrightarrow> final_name p \<and> (\<exists>i. jm_get (names d) p = Some i \<and> durable_names d p = Some i
     \<and> contents d i = bytes)"

definition sealed_as :: "disk \<Rightarrow> jsstr \<Rightarrow> byte list \<Rightarrow> bool" where
  "sealed_as d p bytes \<longleftrightarrow> sealed_name p \<and> kept_as d p bytes"

definition disk_grows :: "disk \<Rightarrow> disk \<Rightarrow> bool" where
  "disk_grows d d' \<longleftrightarrow> (\<forall>p bytes. sealed_as d p bytes \<longrightarrow> sealed_as d' p bytes)"

text \<open>The sealed objects a reader sees.\<close>

definition sealed_objects :: "disk \<Rightarrow> jsstr \<Rightarrow> byte list option" where
  "sealed_objects d p = (if sealed_name p then read_file d p else None)"

text \<open>When a system call respects the invariant.\<close>

fun op_ok :: "disk_op \<Rightarrow> disk \<Rightarrow> bool" where
  "op_ok (Make_Directory p) d \<longleftrightarrow> True"
| "op_ok (Open_Exclusive p) d \<longleftrightarrow> \<not> final_name p"
| "op_ok (Write_File p bytes) d \<longleftrightarrow> (\<forall>i q. jm_get (names d) p = Some i \<longrightarrow> final_name q \<longrightarrow>
     jm_get (names d) q \<noteq> Some i \<and> durable_names d q \<noteq> Some i)"
| "op_ok (Sync_File p) d \<longleftrightarrow> True"
| "op_ok (Link_File p q) d \<longleftrightarrow> (\<forall>i. jm_get (names d) p = Some i \<longrightarrow> durable_contents d i = Some (contents d i))"
| "op_ok (Sync_Directory dir) d \<longleftrightarrow> True"
| "op_ok (Unlink_File p) d \<longleftrightarrow> \<not> sealed_name p"
| "op_ok (Rename_File p q) d \<longleftrightarrow> \<not> sealed_name p \<and> \<not> sealed_name q
     \<and> (\<forall>i. jm_get (names d) p = Some i \<longrightarrow> durable_contents d i = Some (contents d i))"

text \<open>Whether a system call leaves a name alone.\<close>

fun spares :: "disk_op \<Rightarrow> jsstr \<Rightarrow> bool" where
  "spares (Unlink_File p) r \<longleftrightarrow> p \<noteq> r"
| "spares (Rename_File p q) r \<longleftrightarrow> p \<noteq> r \<and> q \<noteq> r"
| "spares _ r \<longleftrightarrow> True"

fun ops_ok :: "disk_op list \<Rightarrow> disk \<Rightarrow> bool" where
  "ops_ok [] d \<longleftrightarrow> True"
| "ops_ok (op # ops) d \<longleftrightarrow> op_ok op d \<and> (\<forall>d'. disk_step op d = Inr d' \<longrightarrow> ops_ok ops d')"

lemma disk_okD:
  assumes "disk_ok d"
  shows "jm_wf (names d)"
    and "jm_get (names d) p = Some i \<Longrightarrow> i < next_inode d"
    and "durable_names d p = Some i \<Longrightarrow> i < next_inode d"
    and "final_name p \<Longrightarrow> jm_get (names d) p = Some i \<Longrightarrow> durable_contents d i = Some (contents d i)"
    and "final_name p \<Longrightarrow> durable_names d p = Some i \<Longrightarrow> durable_contents d i = Some (contents d i)"
    and "sealed_name p \<Longrightarrow> durable_names d p = Some i \<Longrightarrow> jm_get (names d) p = Some i"
    and "tree_ok d"
  using assms unfolding disk_ok_def by blast+

lemma disk_okI:
  assumes "tree_ok d" and "jm_wf (names d)"
    and "\<And>p i. jm_get (names d) p = Some i \<Longrightarrow> i < next_inode d"
    and "\<And>p i. durable_names d p = Some i \<Longrightarrow> i < next_inode d"
    and "\<And>p i. final_name p \<Longrightarrow> jm_get (names d) p = Some i \<Longrightarrow> durable_contents d i = Some (contents d i)"
    and "\<And>p i. final_name p \<Longrightarrow> durable_names d p = Some i \<Longrightarrow> durable_contents d i = Some (contents d i)"
    and "\<And>p i. sealed_name p \<Longrightarrow> durable_names d p = Some i \<Longrightarrow> jm_get (names d) p = Some i"
  shows "disk_ok d"
  using assms unfolding disk_ok_def by blast

lemma sealed_final: "sealed_name p \<Longrightarrow> final_name p"
  by (simp add: final_name_def)

lemma jm_wf_simps [simp]: "jm_wf m \<Longrightarrow> jm_wf (jm_set k v m)" "jm_wf m \<Longrightarrow> jm_wf (jm_delete k m)"
  by (simp_all add: jm.wf_upd jm.wf_del)

lemma disk_step_tree:
  assumes "tree_ok d" and "disk_step op d = Inr d'"
  shows "tree_ok d'"
proof -
  have made: "tree_ok (d\<lparr>folders := insert p (folders d)\<rparr>)"
    if "is_folder d (dirname p)" "jm_get (names d) p = None" for p
    using assms(1) that by (auto simp: tree_ok_def tree_def is_folder_def)
  have named: "tree_ok e" if "folders e = folders d"
    "\<And>q. jm_get (names e) q \<noteq> None \<Longrightarrow> jm_get (names d) q \<noteq> None \<or> is_folder d (dirname q) \<and> \<not> is_folder d q" for e
    using assms(1) that unfolding tree_ok_def is_folder_def by metis
  show ?thesis
  proof (cases op)
    case (Make_Directory p)
    with assms show ?thesis by (auto intro: made split: if_splits)
  qed (use assms(2) in \<open>auto intro!: named split: if_splits option.splits\<close>)
qed

lemma disk_step_ok:
  assumes "disk_ok d" and "op_ok op d" and "disk_step op d = Inr d'"
  shows "disk_ok d'"
proof -
  have tree: "tree_ok d'" by (rule disk_step_tree [OF disk_okD(7) [OF assms(1)] assms(3)])
  show ?thesis
    using assms(2,3)
  proof (cases op)
    case (Make_Directory p)
    with assms(3) have "names d' = names d" "durable_names d' = durable_names d" "contents d' = contents d"
      "durable_contents d' = durable_contents d" "next_inode d' = next_inode d" by (auto split: if_splits)
    then show ?thesis using tree disk_okD [OF assms(1)] by (intro disk_okI) auto
  next
    case (Open_Exclusive p)
    with assms(2,3) have d': "d' = d\<lparr>names := jm_set p (next_inode d) (names d),
        contents := (contents d)(next_inode d := []),
        durable_contents := (durable_contents d)(next_inode d := None), next_inode := Suc (next_inode d)\<rparr>"
      and p: "\<not> final_name p" by (auto split: if_splits)
    have "i \<noteq> next_inode d" if "jm_get (names d) q = Some i \<or> durable_names d q = Some i" for q i
      using that disk_okD(2,3) [OF assms(1)] by (metis less_irrefl)
    moreover have "\<not> sealed_name p" using p sealed_final by blast
    ultimately show ?thesis
      using tree disk_okD [OF assms(1)] p unfolding d' by (intro disk_okI) (auto simp: less_SucI split: if_splits)
  next
    case (Write_File p bytes)
    with assms(3) obtain i where d': "d' = d\<lparr>contents := (contents d)(i := bytes)\<rparr>"
      and i: "jm_get (names d) p = Some i" by (auto split: option.splits)
    show ?thesis
      using tree disk_okD [OF assms(1)] assms(2) i unfolding d' Write_File by (intro disk_okI) (auto split: if_splits)
  next
    case (Link_File p q)
    with assms(3) obtain i where d': "d' = d\<lparr>names := jm_set q i (names d)\<rparr>"
      and i: "jm_get (names d) p = Some i" and q: "jm_get (names d) q = None"
      by (auto split: option.splits if_splits)
    have "durable_names d q = None" if "sealed_name q"
      using disk_okD(6) [OF assms(1) that] q by (cases "durable_names d q") auto
    then show ?thesis
      using tree disk_okD [OF assms(1)] assms(2) i unfolding d' Link_File by (intro disk_okI) (auto split: if_splits)
  next
    case (Unlink_File p)
    with assms(2,3) have "d' = d\<lparr>names := jm_delete p (names d)\<rparr>" and "\<not> sealed_name p" by (auto split: if_splits)
    then show ?thesis using tree disk_okD [OF assms(1)] by (intro disk_okI) (auto split: if_splits)
  next
    case (Sync_File p)
    with assms(3) obtain i where d': "d' = d\<lparr>durable_contents := (durable_contents d)(i := Some (contents d i))\<rparr>"
      by (auto split: option.splits)
    show ?thesis using tree disk_okD [OF assms(1)] unfolding d' by (intro disk_okI) (auto split: if_splits)
  next
    case (Sync_Directory dir)
    then show ?thesis using tree disk_okD [OF assms(1)] assms(3) by (intro disk_okI) (auto split: if_splits)
  next
    case (Rename_File p q)
    with assms(3) obtain i where d': "d' = d\<lparr>names := jm_set q i (jm_delete p (names d))\<rparr>"
      and i: "jm_get (names d) p = Some i" by (auto split: option.splits if_splits)
    show ?thesis
      using tree disk_okD [OF assms(1)] assms(2) i unfolding d' Rename_File by (intro disk_okI) (auto split: if_splits)
  qed
qed

lemma kept_asE:
  assumes "kept_as d p bytes" and "disk_ok d"
  obtains i where "final_name p" and "jm_get (names d) p = Some i" and "durable_names d p = Some i"
    and "contents d i = bytes" and "durable_contents d i = Some bytes" and "i < next_inode d"
  using assms disk_okD [OF assms(2)] unfolding kept_as_def by metis

lemma disk_step_keeps:
  assumes "disk_ok d" and "op_ok op d" and "disk_step op d = Inr d'" and "spares op p" and "kept_as d p bytes"
  shows "kept_as d' p bytes"
proof -
  from assms(1,5) obtain i where "final_name p" "jm_get (names d) p = Some i" "durable_names d p = Some i"
    "contents d i = bytes" "i < next_inode d" by (elim kept_asE)
  then show ?thesis
    using assms(2,3,4) by (cases op) (fastforce simp: kept_as_def split: option.splits if_splits)+
qed

lemma sealed_spared: "op_ok op d \<Longrightarrow> sealed_name p \<Longrightarrow> spares op p"
  by (cases op) auto

lemma disk_step_grows:
  assumes "disk_ok d" and "op_ok op d" and "disk_step op d = Inr d'"
  shows "disk_grows d d'"
  using disk_step_keeps [OF assms] sealed_spared [OF assms(2)] by (simp add: disk_grows_def sealed_as_def)

lemma disk_grows_refl: "disk_grows d d"
  by (simp add: disk_grows_def)

lemma disk_grows_trans: "disk_grows d e \<Longrightarrow> disk_grows e f \<Longrightarrow> disk_grows d f"
  by (simp add: disk_grows_def)

section \<open>Runs of system calls\<close>

text \<open>What the system calls of a run keep, the run keeps, whichever call fails.\<close>

lemma run_ops_preserves:
  assumes "disk_ok d" and "ops_ok ops d" and "P d" and "set ops \<subseteq> S"
    and step: "\<And>op d d'. op \<in> S \<Longrightarrow> disk_ok d \<Longrightarrow> op_ok op d \<Longrightarrow> disk_step op d = Inr d' \<Longrightarrow> P d \<Longrightarrow> P d'"
    and torn: "\<And>p bytes written. Write_File p bytes \<in> S \<Longrightarrow> Write_File p written \<in> S"
  shows "disk_ok (fst (run_ops ops fault d)) \<and> P (fst (run_ops ops fault d))"
  using assms(1-4)
proof (induction ops arbitrary: fault d)
  case Nil
  then show ?case by (simp split: option.split)
next
  case (Cons op ops)
  have one: "disk_ok d' \<and> P d'" if "disk_step op d = Inr d'" for d'
    using that Cons.prems by (simp add: disk_step_ok [of d op d'] step [of op d d'])
  have rest: "disk_ok (fst (run_ops ops f d')) \<and> P (fst (run_ops ops f d'))" if "disk_step op d = Inr d'" for f d'
    using one [OF that] Cons.IH [of d' f] Cons.prems that by simp
  have tear: "disk_ok d' \<and> P d'"
    if "op = Write_File p bytes" and "disk_step (Write_File p written) d = Inr d'" for p bytes written d'
    using that Cons.prems torn [of p bytes written] disk_step_ok [of d "Write_File p written" d']
      step [of "Write_File p written" d d'] by simp
  show ?case
  proof (cases fault)
    case None
    with Cons.prems rest show ?thesis by (auto split: sum.split)
  next
    case (Some f)
    obtain n written where f: "f = (n, written)" by (cases f)
    show ?thesis
    proof (cases n)
      case 0
      with Some f Cons.prems tear show ?thesis by (auto split: sum.split disk_op.split)
    next
      case (Suc m)
      with Some f Cons.prems rest show ?thesis by (auto split: sum.split)
    qed
  qed
qed

lemma run_ops_ok:
  assumes "disk_ok d" and "ops_ok ops d"
  shows "disk_ok (fst (run_ops ops fault d)) \<and> disk_grows d (fst (run_ops ops fault d))"
proof (rule run_ops_preserves [OF assms disk_grows_refl subset_UNIV])
  show "disk_grows d e'" if "disk_ok e" "op_ok op e" "disk_step op e = Inr e'" "disk_grows d e" for op e e'
    using disk_step_grows [OF that(1-3)] that(4) disk_grows_trans by blast
qed simp

lemma run_ops_keeps:
  assumes "disk_ok d" and "ops_ok ops d" and "kept_as d p bytes" and "list_all (\<lambda>op. spares op p) ops"
  shows "kept_as (fst (run_ops ops fault d)) p bytes"
proof -
  have "set ops \<subseteq> {op. spares op p}" using assms(4) by (auto simp: list_all_iff)
  from run_ops_preserves [where P = "\<lambda>e. kept_as e p bytes", OF assms(1-3) this] disk_step_keeps
  show ?thesis by simp
qed

lemma part_path_neq [simp]: "part_path p \<noteq> p" "p \<noteq> part_path p"
  by (simp_all add: part_path_def)

lemma dirname_part_path [simp]: "dirname (part_path p) = dirname p"
  by (simp add: part_path_def dirname_append)

lemma not_final_part [simp]: "\<not> final_name (part_path p)"
  by (simp add: part_path_def final_name_def ends_with_def)

lemma durable_name_known: "disk_ok d \<Longrightarrow> durable_names d p = Some (next_inode d) \<Longrightarrow> False"
  "disk_ok d \<Longrightarrow> jm_get (names d) p = Some (next_inode d) \<Longrightarrow> False"
  by (blast dest: disk_okD(2,3) intro: less_irrefl)+

lemma promotion_ok:
  assumes "disk_ok d" and "final_name p"
  shows "ops_ok (promotion p bytes) d"
proof -
  have "q \<noteq> part_path p" if "final_name q" for q using that not_final_part by metis
  moreover have "\<not> sealed_name (part_path p)" using not_final_part sealed_final by blast
  ultimately show ?thesis
    using assms durable_name_known [OF assms(1)]
    by (auto simp: promotion_def Let_def split: if_splits option.splits)
qed

definition harmless :: "disk_op \<Rightarrow> bool" where
  "harmless op \<longleftrightarrow> (case op of Unlink_File p \<Rightarrow> \<not> sealed_name p | Sync_Directory dir \<Rightarrow> True
     | Make_Directory p \<Rightarrow> True | _ \<Rightarrow> False)"

lemma harmless_ok: "list_all harmless ops \<Longrightarrow> ops_ok ops d"
proof (induction ops arbitrary: d)
  case (Cons op ops)
  then show ?case by (cases op) (simp_all add: harmless_def)
qed simp

section \<open>What a reader sees\<close>

lemma disk_step_objects:
  assumes "disk_ok d" and "op_ok op d" and "disk_step op d = Inr d'"
  shows "sealed_objects d' = (case op of
      Link_File p q \<Rightarrow> if sealed_name q then (sealed_objects d)(q := read_file d p) else sealed_objects d
    | _ \<Rightarrow> sealed_objects d)"
proof (rule ext)
  fix r
  have fresh: "jm_get (names d) r \<noteq> Some (next_inode d)" using durable_name_known(2) [OF assms(1)] by blast
  show "sealed_objects d' r = (case op of
      Link_File p q \<Rightarrow> if sealed_name q then (sealed_objects d)(q := read_file d p) else sealed_objects d
    | _ \<Rightarrow> sealed_objects d) r"
    using assms(2,3) fresh sealed_final [of r]
    by (cases op; cases "jm_get (names d) r")
      (auto simp: sealed_objects_def read_file_def split: option.splits if_splits)
qed

lemma run_ops_objects:
  assumes "disk_ok d" and "ops_ok ops d" and "\<forall>op \<in> set ops. \<forall>p q. op \<noteq> Link_File p q"
  shows "sealed_objects (fst (run_ops ops fault d)) = sealed_objects d"
proof -
  have "set ops \<subseteq> {op. \<forall>p q. op \<noteq> Link_File p q}" using assms(3) by auto
  moreover have "sealed_objects e' = sealed_objects d"
    if "op \<in> {op. \<forall>p q. op \<noteq> Link_File p q}" "disk_ok e" "op_ok op e" "disk_step op e = Inr e'"
      "sealed_objects e = sealed_objects d" for op e e'
    using disk_step_objects [OF that(2-4)] that(1,5) by (cases op) simp_all
  ultimately have "disk_ok (fst (run_ops ops fault d)) \<and> sealed_objects (fst (run_ops ops fault d)) = sealed_objects d"
    by (intro run_ops_preserves [where P = "\<lambda>e. sealed_objects e = sealed_objects d", OF assms(1,2) refl]) auto
  then show ?thesis ..
qed

definition and_then :: "disk \<times> bool \<Rightarrow> (disk \<Rightarrow> disk \<times> bool) \<Rightarrow> disk \<times> bool" where
  "and_then r k = (if snd r then k (fst r) else r)"

lemma run_ops_append:
  "run_ops (xs @ ys) fault d = (case fault of
     None \<Rightarrow> and_then (run_ops xs None d) (run_ops ys None)
   | Some (n, written) \<Rightarrow>
       if n < length xs then run_ops xs fault d
       else and_then (run_ops xs None d) (run_ops ys (Some (n - length xs, written))))"
proof (induction xs arbitrary: fault d)
  case Nil
  show ?case by (auto simp: and_then_def split: option.split)
next
  case (Cons op xs)
  show ?case
  proof (cases fault)
    case None
    then show ?thesis by (auto simp: Cons.IH and_then_def split: sum.split)
  next
    case (Some f)
    obtain n written where f: "f = (n, written)" by (cases f)
    show ?thesis
      by (cases n) (auto simp: Some f Cons.IH and_then_def split: sum.split disk_op.split)
  qed
qed

lemma run_ops_append_cases:
  obtains (first) f where "fst (run_ops (xs @ ys) fault d) = fst (run_ops xs f d)"
  | (second) f where "snd (run_ops xs None d)"
      and "fst (run_ops (xs @ ys) fault d) = fst (run_ops ys f (fst (run_ops xs None d)))"
  unfolding run_ops_append [of xs] and_then_def
  by (cases fault; (cases "fst (the fault) < length xs")?; cases "snd (run_ops xs None d)") auto

lemma ops_ok_append:
  "ops_ok (xs @ ys) d \<Longrightarrow> ops_ok xs d \<and> (snd (run_ops xs None d) \<longrightarrow> ops_ok ys (fst (run_ops xs None d)))"
  by (induction xs arbitrary: d) (auto split: sum.split)

lemma faulted_run_fails: "\<not> snd (run_ops ops (Some f) d)"
proof (induction ops arbitrary: f d)
  case (Cons op ops)
  obtain n written where "f = (n, written)" by (cases f)
  with Cons show ?case by (cases n) (auto split: sum.split disk_op.split)
qed simp

lemma promotion_split:
  "promotion p bytes =
     [Open_Exclusive (part_path p), Write_File (part_path p) bytes, Sync_File (part_path p)]
     @ [Link_File (part_path p) p]
     @ [Sync_Directory (dirname p), Unlink_File (part_path p), Sync_Directory (dirname p)]"
  by (simp add: promotion_def Let_def)

lemma prepared_part:
  assumes "run_ops [Open_Exclusive q, Write_File q bytes, Sync_File q] None d = (e, True)"
  shows "names e = jm_set q (next_inode d) (names d)" and "read_file e q = Some bytes"
  using assms by (auto simp: read_file_def split: if_splits option.splits)

lemma run_ops_Cons_cases:
  assumes "disk_step (Link_File q p) d = Inr e"
  shows "fst (run_ops (Link_File q p # ops) f d) = d \<or> (\<exists>g. fst (run_ops (Link_File q p # ops) f d) = fst (run_ops ops g e))"
proof (cases f)
  case None
  then show ?thesis by (auto simp: assms simp del: disk_step.simps)
next
  case (Some n)
  then show ?thesis by (cases n; cases "fst n") (auto simp: assms simp del: disk_step.simps)
qed

lemma no_links: "\<forall>op \<in> set [Open_Exclusive q, Write_File q bytes, Sync_File q]. \<forall>p r. op \<noteq> Link_File p r"
  "\<forall>op \<in> set [Sync_Directory dir, Unlink_File q, Sync_Directory dir]. \<forall>p r. op \<noteq> Link_File p r"
  by simp_all

lemma run_with_link:
  assumes "disk_ok d" and "ops_ok (A @ Link_File q p # B) d" and "sealed_name p"
    and "\<forall>op \<in> set A. \<forall>p r. op \<noteq> Link_File p r" and "\<forall>op \<in> set B. \<forall>p r. op \<noteq> Link_File p r"
    and "\<And>e. run_ops A None d = (e, True) \<Longrightarrow> read_file e q = Some bytes"
    and "d' = fst (run_ops (A @ Link_File q p # B) fault d)"
  shows "sealed_objects d' = sealed_objects d
    \<or> sealed_objects d p = None \<and> sealed_objects d' = (sealed_objects d)(p \<mapsto> bytes)"
proof (cases rule: run_ops_append_cases [of A "Link_File q p # B" fault d])
  case (first f)
  then show ?thesis
    using run_ops_objects [of d A f] ops_ok_append [OF assms(2)] assms by (simp only: simp_thms)
next
  case (second f)
  define e where "e = fst (run_ops A None d)"
  have e: "run_ops A None d = (e, True)" using second(1) by (simp add: e_def prod_eq_iff)
  have ok: "disk_ok e" using run_ops_ok [of d A None] ops_ok_append [OF assms(2)] assms(1) by (simp add: e_def)
  have same: "sealed_objects e = sealed_objects d"
    using run_ops_objects [of d A None] ops_ok_append [OF assms(2)] assms(1,4) by (simp add: e_def)
  have okL: "ops_ok (Link_File q p # B) e" using ops_ok_append [OF assms(2)] second(1) by (simp add: e_def del: ops_ok.simps)
  have d': "d' = fst (run_ops (Link_File q p # B) f e)" using assms(7) second(2) by (simp only: e_def)
  show ?thesis
  proof (cases "disk_step (Link_File q p) e")
    case (Inl err)
    then have "fst (run_ops (Link_File q p # B) f e) = e"
      by (cases f; (cases "fst (the f)")?) (auto split: prod.split simp del: disk_step.simps)
    with same d' show ?thesis by simp
  next
    case (Inr e')
    from okL Inr have linked: "op_ok (Link_File q p) e" and rest: "ops_ok B e'" by (simp_all only: ops_ok.simps)
    have absent: "sealed_objects d p = None"
      using Inr unfolding same [symmetric] by (auto simp: sealed_objects_def read_file_def split: option.splits if_splits)
    have new: "sealed_objects e' = (sealed_objects d)(p \<mapsto> bytes)"
      using disk_step_objects [OF ok linked Inr] assms(3) assms(6) [OF e] same by simp
    have later: "sealed_objects (fst (run_ops B g e')) = (sealed_objects d)(p \<mapsto> bytes)" for g
      using run_ops_objects [OF disk_step_ok [OF ok linked Inr] rest assms(5), of g] new by simp
    from run_ops_Cons_cases [OF Inr, of B f] show ?thesis
      unfolding d' [symmetric] using same absent later by auto
  qed
qed

lemma promotion_all_or_nothing:
  assumes "disk_ok d" and "sealed_name p" and "run_ops (promotion p bytes) fault d = (d', finished)"
  shows "sealed_objects d' = sealed_objects d
    \<or> sealed_objects d p = None \<and> sealed_objects d' = (sealed_objects d)(p \<mapsto> bytes)"
proof (rule run_with_link [OF assms(1) _ assms(2) no_links prepared_part(2)])
  show "ops_ok ([Open_Exclusive (part_path p), Write_File (part_path p) bytes, Sync_File (part_path p)]
      @ Link_File (part_path p) p
      # [Sync_Directory (dirname p), Unlink_File (part_path p), Sync_Directory (dirname p)]) d"
    using promotion_ok [OF assms(1) sealed_final [OF assms(2)]] unfolding promotion_split by (simp only: append_Cons append_Nil)
  show "d' = fst (run_ops ([Open_Exclusive (part_path p), Write_File (part_path p) bytes, Sync_File (part_path p)]
      @ Link_File (part_path p) p
      # [Sync_Directory (dirname p), Unlink_File (part_path p), Sync_Directory (dirname p)]) fault d)"
    using assms(3) unfolding promotion_split by (simp only: append_Cons append_Nil fst_conv)
qed

lemma promotion_finished:
  assumes "run_ops (promotion p bytes) fault d = (d', True)"
  shows "final_name p \<Longrightarrow> kept_as d' p bytes" and "sealed_name p \<Longrightarrow> sealed_as d' p bytes"
    and "jm_get (names d) p = None" and "jm_get (names d) (part_path p) = None"
    and "sealed_name p \<Longrightarrow> sealed_objects d' p = Some bytes"
proof -
  have "fault = None"
  proof (rule ccontr)
    assume "fault \<noteq> None"
    then show False using assms faulted_run_fails [of "promotion p bytes" "the fault" d] by auto
  qed
  then have run: "run_ops (promotion p bytes) None d = (d', True)" using assms by simp
  from run show "jm_get (names d) (part_path p) = None" and "jm_get (names d) p = None"
    by (auto simp: promotion_def Let_def split: if_splits option.splits)
  from run show kept: "kept_as d' p bytes" if "final_name p"
    using that by (auto simp: promotion_def Let_def kept_as_def split: if_splits option.splits)
  then show "sealed_as d' p bytes" if "sealed_name p" using that sealed_final by (simp add: sealed_as_def)
  show "sealed_objects d' p = Some bytes" if "sealed_name p"
    using kept [OF sealed_final [OF that]] that by (auto simp: kept_as_def sealed_objects_def read_file_def)
qed


lemma promotion_succeeds:
  assumes "jm_get (names d) p = None" and "jm_get (names d) (part_path p) = None"
    and "is_folder d (dirname p)" and "\<not> is_folder d p" and "\<not> is_folder d (part_path p)"
  shows "snd (run_ops (promotion p bytes) None d)"
  using assms by (simp add: promotion_def Let_def)

section \<open>The way to a path\<close>

text \<open>A directory on the way to a path is on the way with its own directories.\<close>

lemma ancestors_closed: "f \<in> set (ancestors p) \<Longrightarrow> set (ancestors f) \<subseteq> set (ancestors p)"
proof (induction p rule: ancestors.induct)
  case (1 p)
  show ?case
  proof (cases "dirname p = []")
    case False
    then have p: "ancestors p = ancestors (dirname p) @ [dirname p]" by (subst ancestors.simps) simp
    with 1 False show ?thesis by auto
  qed (use "1.prems" in \<open>simp add: ancestors.simps [of p]\<close>)
qed

lemma ancestors_prefix: "q \<in> set (ancestors p) \<Longrightarrow> \<exists>r. p = q @ 47 # r"
proof (induction p rule: ancestors.induct)
  case (1 p)
  show ?case
  proof (cases "dirname p = []")
    case False
    then obtain r where r: "p = dirname p @ 47 # r" using dirname_split by blast
    have "q = dirname p \<or> (\<exists>s. dirname p = q @ 47 # s)" using 1 False by (subst (asm) (2) ancestors.simps) auto
    then show ?thesis
    proof
      assume "\<exists>s. dirname p = q @ 47 # s"
      then obtain s where "dirname p = q @ 47 # s" by blast
      with r have "p = q @ 47 # (s @ 47 # r)" by simp
      then show ?thesis by blast
    qed (use r in blast)
  qed (use "1.prems" in \<open>simp add: ancestors.simps [of p]\<close>)
qed

lemma ancestors_shorter: "q \<in> set (ancestors p) \<Longrightarrow> length q < length p"
proof (induction p rule: ancestors.induct)
  case (1 p)
  show ?case
  proof (cases "dirname p = []")
    case False
    then have "length (dirname p) < length p" by (intro length_dirname) auto
    with 1 False show ?thesis by (subst (asm) ancestors.simps) fastforce
  qed (use "1.prems" in \<open>simp add: ancestors.simps [of p]\<close>)
qed

lemma anchored_dirname: "anchored d p \<Longrightarrow> dirname p \<noteq> [] \<Longrightarrow> anchored d (dirname p) \<and> dirname p \<in> durable_folders d"
  by (simp add: anchored_def ancestors.simps [of p])

lemma anchoredI: "(dirname p \<noteq> [] \<Longrightarrow> anchored d (dirname p) \<and> dirname p \<in> durable_folders d) \<Longrightarrow> anchored d p"
  by (simp add: anchored_def ancestors.simps [of p])

lemma ancestors_folders:
  assumes "tree F" and "dirname p = [] \<or> dirname p \<in> F"
  shows "set (ancestors p) \<subseteq> F"
  using assms(2)
proof (induction p rule: ancestors.induct)
  case (1 p)
  show ?case
  proof (cases "dirname p = []")
    case False
    then have "dirname (dirname p) = [] \<or> dirname (dirname p) \<in> F" using "1.prems" assms(1) by (auto simp: tree_def)
    with 1 False show ?thesis by (subst ancestors.simps) simp
  qed (simp add: ancestors.simps [of p])
qed

section \<open>Making directories\<close>

lemma disk_step_folders:
  assumes "disk_step op d = Inr d'"
  shows "folders d \<subseteq> folders d'" and "folders d' \<subseteq> folders d \<union> {p. op = Make_Directory p}"
    and "durable_folders d \<subseteq> durable_folders d'"
  using assms by (cases op; auto split: if_splits option.splits)+

lemma run_ops_folders:
  "folders d \<subseteq> folders (fst (run_ops ops fault d))
   \<and> folders (fst (run_ops ops fault d)) \<subseteq> folders d \<union> {p. Make_Directory p \<in> set ops}
   \<and> durable_folders d \<subseteq> durable_folders (fst (run_ops ops fault d))"
proof (induction ops arbitrary: fault d)
  case Nil
  then show ?case by (simp split: option.split)
next
  case (Cons op ops)
  have rest: "folders d \<subseteq> folders (fst (run_ops ops f d'))
      \<and> folders (fst (run_ops ops f d')) \<subseteq> folders d \<union> {p. Make_Directory p \<in> set (op # ops)}
      \<and> durable_folders d \<subseteq> durable_folders (fst (run_ops ops f d'))" if "disk_step op d = Inr d'" for f d'
    using Cons.IH [of d' f] disk_step_folders [OF that] by auto
  have tear: "folders d' = folders d \<and> durable_folders d' = durable_folders d"
    if "disk_step (Write_File p written) d = Inr d'" for p written d'
    using that by (auto split: option.splits)
  show ?case
  proof (cases fault)
    case None
    with rest show ?thesis by (auto split: sum.split)
  next
    case (Some f)
    obtain n written where f: "f = (n, written)" by (cases f)
    show ?thesis
    proof (cases n)
      case 0
      with Some f tear show ?thesis by (auto split: sum.split disk_op.split)
    next
      case (Suc m)
      with Some f rest show ?thesis by (auto split: sum.split)
    qed
  qed
qed

lemma set_make_directories: "set (make_directories d p) \<subseteq> Make_Directory ` set (ancestors p @ [p])"
proof (induction d p rule: make_directories.induct)
  case (1 d p)
  show ?case
  proof (cases "is_folder d p")
    case False
    then have "make_directories d p = make_directories d (dirname p) @ [Make_Directory p]"
      by (subst make_directories.simps) simp
    moreover have "set (make_directories d (dirname p)) \<subseteq> Make_Directory ` set (ancestors p)"
    proof (cases "dirname p = []")
      case True
      then show ?thesis by (subst make_directories.simps) simp
    next
      case nonempty: False
      then show ?thesis using "1" False by (subst ancestors.simps) simp
    qed
    ultimately show ?thesis by auto
  qed (simp add: make_directories.simps)
qed

lemma directories_harmless: "list_all harmless (make_directories d p)"
  using set_make_directories [of d p] by (auto simp: list_all_iff harmless_def)

lemma run_directories:
  assumes "set ops \<subseteq> range Make_Directory"
  shows "\<exists>F. fst (run_ops ops fault d) = d\<lparr>folders := F\<rparr>"
  using assms
proof (induction ops arbitrary: fault d)
  case Nil
  have "\<exists>F. d = d\<lparr>folders := F\<rparr>" by (rule exI [of _ "folders d"]) simp
  then show ?case by (simp split: option.split)
next
  case (Cons op ops)
  then obtain p where op: "op = Make_Directory p" by auto
  have self: "\<exists>F. d = d\<lparr>folders := F\<rparr>" by (rule exI [of _ "folders d"]) simp
  have rest: "\<exists>F. fst (run_ops ops f d') = d\<lparr>folders := F\<rparr>" if "disk_step op d = Inr d'" for f d'
  proof -
    from that op have "\<exists>G. d' = d\<lparr>folders := G\<rparr>" using self by (auto split: if_splits)
    then show ?thesis using Cons.IH [of f d'] Cons.prems by auto
  qed
  show ?case
  proof (cases fault)
    case None
    with rest self show ?thesis by (auto simp del: disk_step.simps split: sum.split)
  next
    case (Some f)
    then show ?thesis using rest self by (cases f; cases "fst f") (auto simp: op simp del: disk_step.simps split: sum.split)
  qed
qed

lemma make_directories_run: "\<exists>F. fst (run_ops (make_directories d p) fault e) = e\<lparr>folders := F\<rparr>"
  by (rule run_directories) (use set_make_directories [of d p] in auto)

lemma run_ops_snoc:
  "run_ops (ops @ [op]) None d = (case run_ops ops None d of
     (e, True) \<Rightarrow> (case disk_step op e of Inr d' \<Rightarrow> (d', True) | Inl err \<Rightarrow> (e, False)) | (e, False) \<Rightarrow> (e, False))"
  by (auto simp: run_ops_append and_then_def split: prod.split bool.split sum.split)

text \<open>\<open>mkdir\<close> succeeds if no file is in the way, and only then.\<close>

lemma make_directories_succeeds:
  assumes "\<forall>q \<in> set (ancestors p @ [p]). jm_get (names d) q = None"
  shows "\<exists>e. run_ops (make_directories d p) None d = (e, True) \<and> is_folder e p"
  using assms
proof (induction d p rule: make_directories.induct)
  case (1 d p)
  show ?case
  proof (cases "is_folder d p")
    case True
    then show ?thesis by (simp add: make_directories.simps)
  next
    case False
    have "\<forall>q \<in> set (ancestors (dirname p) @ [dirname p]). jm_get (names d) q = None" if "dirname p \<noteq> []"
      using "1.prems" that by (subst (asm) ancestors.simps) simp
    moreover have "run_ops (make_directories d []) None d = (d, True)" by (simp add: make_directories.simps)
    ultimately obtain e where e: "run_ops (make_directories d (dirname p)) None d = (e, True)" "is_folder e (dirname p)"
      using "1.IH" False by (cases "dirname p = []") auto
    obtain F where "e = d\<lparr>folders := F\<rparr>" using make_directories_run [of d "dirname p" None d] e(1) by auto
    then have "jm_get (names e) p = None" using "1.prems" by simp
    moreover have "make_directories d p = make_directories d (dirname p) @ [Make_Directory p]"
      using False by (subst make_directories.simps) simp
    ultimately show ?thesis using e by (auto simp: run_ops_snoc is_folder_def)
  qed
qed

lemma make_directories_made:
  assumes "run_ops (make_directories d p) None d = (e, True)"
  shows "is_folder e p"
proof (cases "is_folder d p")
  case True
  with assms show ?thesis by (simp add: make_directories.simps)
next
  case False
  then have "make_directories d p = make_directories d (dirname p) @ [Make_Directory p]"
    by (subst make_directories.simps) simp
  with assms show ?thesis by (auto simp: run_ops_snoc is_folder_def split: prod.splits bool.splits sum.splits if_splits)
qed

lemma file_not_ancestor:
  assumes "tree_ok d" and "is_folder d (dirname p)" and "q \<in> set (ancestors p)"
  shows "jm_get (names d) q = None"
proof -
  have "dirname p = [] \<or> dirname p \<in> folders d" using assms(2) by (simp add: is_folder_def)
  then have "q \<in> folders d" using assms(1,3) ancestors_folders [of "folders d" p] by (auto simp: tree_ok_def)
  then show ?thesis using assms(1) by (auto simp: tree_ok_def is_folder_def)
qed

section \<open>Publication\<close>

text \<open>The calls of an exclusive write with promotion: the directory is made first. A run of calls in
  two stages meets its fault in one of them.\<close>

definition publication :: "disk \<Rightarrow> jsstr \<Rightarrow> byte list \<Rightarrow> disk_op list" where
  "publication d outputPath fileBytes = make_directories d (dirname outputPath) @ promotion outputPath fileBytes"

definition fault_before :: "nat \<Rightarrow> fault \<Rightarrow> fault" where
  "fault_before n fault = (case fault of Some (k, written) \<Rightarrow> if k < n then fault else None | None \<Rightarrow> None)"

definition fault_after :: "nat \<Rightarrow> fault \<Rightarrow> fault" where
  "fault_after n fault = map_option (\<lambda>(k, written). (k - n, written)) fault"

lemma run_two:
  "run_ops (xs @ ys) fault d = (case run_ops xs (fault_before (length xs) fault) d of
     (e, True) \<Rightarrow> run_ops ys (fault_after (length xs) fault) e
   | (e, False) \<Rightarrow> (e, False))"
  using faulted_run_fails [of xs "the fault" d]
  by (auto simp: run_ops_append and_then_def fault_before_def fault_after_def split: option.split prod.split bool.split)

lemma run_two_finished:
  assumes "run_ops (xs @ ys) fault d = (d', True)"
  obtains e where "run_ops xs None d = (e, True)" and "run_ops ys None e = (d', True)"
proof -
  have "fault = None"
  proof (rule ccontr)
    assume "fault \<noteq> None"
    then show False using assms faulted_run_fails [of "xs @ ys" "the fault" d] by auto
  qed
  then show thesis using assms that by (auto simp: run_ops_append and_then_def prod_eq_iff split: if_splits)
qed

lemma ops_okI_append:
  "ops_ok xs d \<Longrightarrow> (\<And>e. run_ops xs None d = (e, True) \<Longrightarrow> ops_ok ys e) \<Longrightarrow> ops_ok (xs @ ys) d"
  by (induction xs arbitrary: d) auto

lemma publication_ok:
  assumes "disk_ok d" and "final_name p"
  shows "ops_ok (publication d p bytes) d"
  unfolding publication_def
proof (rule ops_okI_append)
  show made: "ops_ok (make_directories d (dirname p)) d" by (rule harmless_ok [OF directories_harmless])
  show "ops_ok (promotion p bytes) e" if "run_ops (make_directories d (dirname p)) None d = (e, True)" for e
    using run_ops_ok [OF assms(1) made, of None] that promotion_ok [OF _ assms(2)] by simp
qed

lemma publication_finished:
  assumes "run_ops (publication d p bytes) fault d = (d', True)"
  shows "final_name p \<Longrightarrow> kept_as d' p bytes" and "sealed_name p \<Longrightarrow> sealed_as d' p bytes"
    and "jm_get (names d) p = None" and "jm_get (names d) (part_path p) = None"
    and "sealed_name p \<Longrightarrow> sealed_objects d' p = Some bytes"
proof -
  obtain e where e: "run_ops (make_directories d (dirname p)) None d = (e, True)" "run_ops (promotion p bytes) None e = (d', True)"
    using assms unfolding publication_def by (rule run_two_finished)
  have "names e = names d" using make_directories_run [of d "dirname p" None d] e(1) by auto
  with promotion_finished [OF e(2)] show "final_name p \<Longrightarrow> kept_as d' p bytes" and "sealed_name p \<Longrightarrow> sealed_as d' p bytes"
    and "jm_get (names d) p = None" and "jm_get (names d) (part_path p) = None"
    and "sealed_name p \<Longrightarrow> sealed_objects d' p = Some bytes" by simp_all
qed

lemma publication_all_or_nothing:
  assumes "disk_ok d" and "sealed_name p" and "run_ops (publication d p bytes) fault d = (d', finished)"
  shows "sealed_objects d' = sealed_objects d
    \<or> sealed_objects d p = None \<and> sealed_objects d' = (sealed_objects d)(p \<mapsto> bytes)"
proof -
  let ?dirs = "make_directories d (dirname p)"
  obtain e made where e: "run_ops ?dirs (fault_before (length ?dirs) fault) d = (e, made)" by fastforce
  obtain F where F: "e = d\<lparr>folders := F\<rparr>" using make_directories_run [of d "dirname p" _ d] e by (metis fst_conv)
  then have same: "sealed_objects e = sealed_objects d" by (simp add: sealed_objects_def read_file_def fun_eq_iff)
  have ok: "disk_ok e" using run_ops_ok [OF assms(1) harmless_ok [OF directories_harmless]] e by (metis fst_conv)
  show ?thesis
  proof (cases made)
    case True
    then have "run_ops (promotion p bytes) (fault_after (length ?dirs) fault) e = (d', finished)"
      using assms(3) e by (simp add: publication_def run_two)
    then show ?thesis using promotion_all_or_nothing [OF ok assms(2)] same by simp
  next
    case False
    then show ?thesis using assms(3) e same by (simp add: publication_def run_two)
  qed
qed

text \<open>What must be clear for the calls to go through.\<close>

lemma publication_clear:
  assumes "disk_ok d" and "run_ops (publication d p bytes) fault d = (d', True)"
  shows "jm_get (names d) p = None \<and> (\<forall>q \<in> set (ancestors p). jm_get (names d) q = None)
    \<and> \<not> is_folder d p \<and> \<not> is_folder d (part_path p)"
proof -
  obtain e where e: "run_ops (make_directories d (dirname p)) None d = (e, True)" "run_ops (promotion p bytes) None e = (d', True)"
    using assms(2) unfolding publication_def by (rule run_two_finished)
  have names': "names e = names d" using make_directories_run [of d "dirname p" None d] e(1) by auto
  have "disk_ok e"
    using run_ops_ok [OF assms(1) harmless_ok [OF directories_harmless], of d "dirname p" None] e(1) by simp
  then have "\<forall>q \<in> set (ancestors p). jm_get (names e) q = None"
    using file_not_ancestor [OF disk_okD(7) make_directories_made [OF e(1)]] by blast
  moreover have "\<not> is_folder e p \<and> \<not> is_folder e (part_path p)"
    using e(2) by (auto simp: promotion_def Let_def split: if_splits option.splits)
  moreover have "is_folder d q \<longrightarrow> is_folder e q" for q
    using run_ops_folders [of d "make_directories d (dirname p)" None] e(1) by (auto simp: is_folder_def)
  ultimately show ?thesis using promotion_finished(3) [OF e(2)] names' by auto
qed

lemma publication_succeeds:
  assumes "jm_get (names d) p = None" and "jm_get (names d) (part_path p) = None"
    and "\<forall>q \<in> set (ancestors p). jm_get (names d) q = None" and "\<not> is_folder d p" and "\<not> is_folder d (part_path p)"
  shows "snd (run_ops (publication d p bytes) None d)"
proof -
  let ?dirs = "make_directories d (dirname p)"
  have "\<exists>e. run_ops ?dirs None d = (e, True) \<and> is_folder e (dirname p)"
  proof (cases "dirname p = []")
    case True
    then show ?thesis by (simp add: make_directories.simps [of d "[]"])
  next
    case False
    then show ?thesis using assms(3) by (intro make_directories_succeeds) (simp add: ancestors.simps [of p])
  qed
  then obtain e where e: "run_ops ?dirs None d = (e, True)" "is_folder e (dirname p)" by blast
  obtain F where F: "e = d\<lparr>folders := F\<rparr>" using make_directories_run [of d "dirname p" None d] e(1) by auto
  have far: "q \<notin> set (ancestors (dirname p) @ [dirname p])" if "length p \<le> length q" "p \<noteq> []" for q
    using that ancestors_shorter [of q "dirname p"] length_dirname [of p] by fastforce
  have "\<not> is_folder e q" if "length p \<le> length q" "p \<noteq> []" "\<not> is_folder d q" for q
  proof -
    have "folders e \<subseteq> folders d \<union> {r. Make_Directory r \<in> set ?dirs}" using run_ops_folders [of d ?dirs None] e(1) by simp
    then show ?thesis using far [OF that(1,2)] set_make_directories [of d "dirname p"] that(3) by (auto simp: is_folder_def)
  qed
  moreover have "p \<noteq> []" using assms(4) by auto
  ultimately have "snd (run_ops (promotion p bytes) None e)"
    using assms e(2) F by (intro promotion_succeeds) (auto simp: part_path_def)
  then show ?thesis using e(1) by (simp add: publication_def run_ops_append and_then_def)
qed

section \<open>Power failures\<close>

lemma power_failureD:
  assumes "power_failure d d'"
  shows "jm_wf (names d')" and "next_inode d' = next_inode d"
    and "jm_get (names d') p = None \<or> jm_get (names d') p = jm_get (names d) p \<or> jm_get (names d') p = durable_names d p"
    and "durable_contents d i = Some (contents d i) \<Longrightarrow> contents d' i = contents d i"
    and "durable_names d' = jm_get (names d')" and "durable_contents d' = (\<lambda>i. Some (contents d' i))"
    and "tree_ok d'" and "folders d' \<subseteq> folders d" and "durable_folders d' = folders d'"
    and "f \<in> folders d \<Longrightarrow> anchored d f \<Longrightarrow> f \<in> durable_folders d \<Longrightarrow> f \<in> folders d'"
    and "is_folder d' (dirname p) \<Longrightarrow> \<not> is_folder d' p \<Longrightarrow>
      jm_get (names d') p = jm_get (names d) p \<or> jm_get (names d') p = durable_names d p"
  using assms unfolding power_failure_def tree_ok_def by metis+

lemma power_failure_ok:
  assumes "disk_ok d" and "power_failure d d'"
  shows "disk_ok d'"
proof -
  note p = power_failureD [OF assms(2)] and ok = disk_okD [OF assms(1)]
  have "i < next_inode d'" if "jm_get (names d') q = Some i" for q i
    using p(3) [of q] ok(2,3) [of q i] that p(2) by auto
  then show "disk_ok d'" by (intro disk_okI) (simp_all add: p(1,5,6,7))
qed

lemma power_failure_anchored:
  assumes "disk_ok d" and "power_failure d d'" and "anchored d q" and "is_folder d (dirname q)"
  shows "anchored d' q" and "is_folder d' (dirname q)"
proof -
  note p = power_failureD [OF assms(2)] and tree = disk_okD(7) [OF assms(1)]
  have "dirname q = [] \<or> dirname q \<in> folders d" using assms(4) by (simp add: is_folder_def)
  then have there: "set (ancestors q) \<subseteq> folders d" using tree by (intro ancestors_folders) (simp_all add: tree_ok_def)
  have found: "f \<in> folders d'" if "f \<in> set (ancestors q)" for f
    using that there assms(3) ancestors_closed [OF that] by (intro p(10)) (auto simp: anchored_def)
  then show "anchored d' q" by (auto simp: anchored_def p(9))
  show "is_folder d' (dirname q)"
    using found [of "dirname q"] by (cases "dirname q = []") (simp_all add: is_folder_def ancestors.simps [of q])
qed

lemma power_failure_keeps:
  assumes "disk_ok d" and "power_failure d d'" and "kept_as d q bytes" and "anchored d q"
  shows "kept_as d' q bytes" and "anchored d' q"
proof -
  note p = power_failureD [OF assms(2)]
  from assms(1,3) obtain i where i: "final_name q" "jm_get (names d) q = Some i" "durable_names d q = Some i"
    "contents d i = bytes" "durable_contents d i = Some bytes" by (elim kept_asE)
  have at: "is_folder d (dirname q)" "\<not> is_folder d q" using disk_okD(7) [OF assms(1)] i(2) by (auto simp: tree_ok_def)
  note a = power_failure_anchored [OF assms(1,2,4) at(1)]
  have "\<not> is_folder d' q" using at(2) p(8) by (auto simp: is_folder_def)
  then show "kept_as d' q bytes" using i p(11) [OF a(2)] p(4) [of i] p(5) by (auto simp: kept_as_def)
  show "anchored d' q" by (rule a)
qed

text \<open>What is found after a power failure will be found again.\<close>

lemma found_is_anchored:
  assumes "power_failure d d'" and "jm_get (names d') q \<noteq> None"
  shows "anchored d' q"
proof -
  note p = power_failureD [OF assms(1)]
  have "dirname q = [] \<or> dirname q \<in> folders d'" using assms(2) p(7) by (auto simp: tree_ok_def is_folder_def)
  then have "set (ancestors q) \<subseteq> folders d'" using p(7) by (intro ancestors_folders) (simp_all add: tree_ok_def)
  then show ?thesis by (simp add: anchored_def p(9))
qed

text \<open>The worst power failure: of the directories only those are found that must be.\<close>

definition worst_failure :: "disk \<Rightarrow> disk" where
  "worst_failure d =
     (let F = {f \<in> folders d. anchored d f \<and> f \<in> durable_folders d};
          found = filter (\<lambda>(p, i). dirname p = [] \<or> dirname p \<in> F) (names d) in
      d\<lparr>names := found, durable_names := jm_get found, durable_contents := (\<lambda>i. Some (contents d i)),
        folders := F, durable_folders := F\<rparr>)"

lemma jm_get_filter: "jm_wf m \<Longrightarrow> jm_get (filter (\<lambda>(p, i). P p) m) q = (if P q then jm_get m q else None)"
  unfolding jm_wf_def jm_get_def by (induction m) auto

lemma worst_failure_possible:
  assumes "disk_ok d"
  shows "power_failure d (worst_failure d)"
proof -
  define F where "F = {f \<in> folders d. anchored d f \<and> f \<in> durable_folders d}"
  define found where "found = filter (\<lambda>(p, i). dirname p = [] \<or> dirname p \<in> F) (names d)"
  have w: "worst_failure d = d\<lparr>names := found, durable_names := jm_get found,
      durable_contents := (\<lambda>i. Some (contents d i)), folders := F, durable_folders := F\<rparr>"
    by (simp add: worst_failure_def F_def found_def Let_def)
  have tree: "tree_ok d" and wf: "jm_wf (names d)" using disk_okD [OF assms] by simp_all
  have "tree F"
    unfolding tree_def
  proof
    fix f
    assume "f \<in> F"
    then have "f \<in> folders d" "anchored d f" by (simp_all add: F_def)
    then show "dirname f = [] \<or> dirname f \<in> F"
      using tree anchored_dirname [of d f] by (auto simp: F_def tree_ok_def tree_def)
  qed
  moreover have "jm_wf found" using wf by (auto simp: found_def jm_wf_def distinct_map intro: inj_on_subset)
  moreover have get: "jm_get found p = (if dirname p = [] \<or> dirname p \<in> F then jm_get (names d) p else None)" for p
    unfolding found_def by (rule jm_get_filter [OF wf])
  moreover have "jm_get (names d) p = None" if "p \<in> F \<or> p = []" for p
  proof (rule ccontr)
    assume "jm_get (names d) p \<noteq> None"
    then show False using tree that by (auto simp: tree_ok_def is_folder_def F_def)
  qed
  ultimately show ?thesis by (auto simp: power_failure_def w F_def is_folder_def)
qed

lemma worst_failure_loses:
  assumes "disk_ok d" and "\<not> anchored d q"
  shows "jm_get (names (worst_failure d)) q = None"
proof -
  have "dirname q \<noteq> [] \<and> \<not> (anchored d (dirname q) \<and> dirname q \<in> durable_folders d)"
    using assms(2) anchoredI by blast
  then show ?thesis
    by (auto simp: worst_failure_def Let_def jm_get_filter [OF disk_okD(1) [OF assms(1)]])
qed

text \<open>After a power failure a reader finds an object as it was, or not at all.\<close>

lemma power_failure_objects:
  assumes "disk_ok d" and "power_failure d d'"
  shows "sealed_objects d' p = sealed_objects d p \<or> sealed_objects d' p = None"
proof (cases "sealed_name p")
  case True
  note names' = power_failureD(3) [OF assms(2), of p] and same = power_failureD(4) [OF assms(2)]
  have known: "jm_get (names d) p = Some i" if "jm_get (names d') p = Some i" for i
    using names' that disk_okD(6) [OF assms(1) True] by (metis option.distinct(1))
  show ?thesis
  proof (cases "jm_get (names d') p")
    case None
    then show ?thesis by (simp add: sealed_objects_def read_file_def)
  next
    case (Some i)
    with known have "jm_get (names d) p = Some i" .
    with Some same [OF disk_okD(4) [OF assms(1) sealed_final [OF True]]] show ?thesis
      by (simp add: sealed_objects_def read_file_def)
  qed
qed (simp add: sealed_objects_def)

end
