(* ===== verification/G9P_Sealed_Storage.thy ===== *)
theory G9P_Sealed_Storage
  imports G9P_Disk
begin

text \<open>
  Sealed storage (src/src/sealed-storage.js) and the exclusive write with promotion it rests on
  (src/src/sealed-file.js).
\<close>

section \<open>Exclusive write and promotion\<close>

text \<open>The file system after the attempt, and what the caller sees. The directory is made before the
  \<open>try\<close>: its failure is passed on as the system reports it, with no code of the package.\<close>

definition write_exclusive_and_promote ::
  "string \<Rightarrow> string \<Rightarrow> jsstr \<Rightarrow> byte list \<Rightarrow> fault \<Rightarrow> disk \<Rightarrow> disk \<times> unit res" where
  "write_exclusive_and_promote errorCode extensionErrorCode outputPath fileBytes fault d =
     (if \<not> ends_with ''.g9p'' outputPath then (d, failWith extensionErrorCode)
      else
        let directories = make_directories d (dirname outputPath) in
        (case run_ops directories (fault_before (length directories) fault) d of
           (d1, False) \<Rightarrow> (d1, Inl (PlainError ''EIO''))
         | (d1, True) \<Rightarrow>
             (case run_ops (promotion outputPath fileBytes) (fault_after (length directories) fault) d1 of
                (d', True) \<Rightarrow> (d', Inr ())
              | (d', False) \<Rightarrow> (d', failWith errorCode))))"

section \<open>Keys and paths\<close>

fun split_slash :: "jsstr \<Rightarrow> jsstr list" where
  "split_slash [] = [[]]"
| "split_slash (u # s) =
     (if u = 47 then [] # split_slash s
      else (case split_slash s of part # parts \<Rightarrow> (u # part) # parts | [] \<Rightarrow> [[u]]))"

fun join_slash :: "jsstr list \<Rightarrow> jsstr" where
  "join_slash [] = []"
| "join_slash [part] = part"
| "join_slash (part # parts) = part @ 47 # join_slash parts"

definition path_part_ok :: "jsstr \<Rightarrow> bool" where
  "path_part_ok part \<longleftrightarrow> part \<noteq> [] \<and> part \<noteq> js ''.'' \<and> part \<noteq> js ''..''"

definition validate_key :: "bool \<Rightarrow> jsstr \<Rightarrow> jsstr res" where
  "validate_key prefix key =
     andThen (checks
       [invariant (0 < length key) ''SEALED_STORAGE_KEY'',
        invariant (hd key \<noteq> 47 \<and> 92 \<notin> set key \<and> 0 \<notin> set key) ''SEALED_STORAGE_KEY''])
     (let all = split_slash key;
          parts = (if prefix \<and> last all = [] then butlast all else all) in
      andThen (invariant (0 < length parts \<and> list_all path_part_ok parts) ''SEALED_STORAGE_KEY'')
      (Inr (if prefix \<and> ends_with ''/'' key then join_slash parts @ [47] else join_slash parts)))"

text \<open>\<open>path.join\<close> of a normalised directory and a name below it.\<close>

definition storage_path :: "jsstr \<Rightarrow> jsstr \<Rightarrow> jsstr" where
  "storage_path root key = root @ 47 # key"

text \<open>\<open>path.resolve\<close> of an absolute path and further parts: empty parts and \<open>.\<close> vanish, \<open>..\<close> drops
  the part before it.\<close>

fun resolve_parts :: "jsstr list \<Rightarrow> jsstr list \<Rightarrow> jsstr list" where
  "resolve_parts resolved [] = resolved"
| "resolve_parts resolved (part # parts) =
     (if part = [] \<or> part = js ''.'' then resolve_parts resolved parts
      else if part = js ''..'' then resolve_parts (butlast resolved) parts
      else resolve_parts (resolved @ [part]) parts)"

definition resolve_path :: "jsstr \<Rightarrow> jsstr list \<Rightarrow> jsstr" where
  "resolve_path root parts = 47 # join_slash (resolve_parts [] (split_slash root @ parts))"

definition local_path :: "jsstr \<Rightarrow> jsstr \<Rightarrow> jsstr res" where
  "local_path root key =
     bindR (validate_key False key) (\<lambda>validated.
     let path = resolve_path root (split_slash validated) in
     andThen (invariant (take (Suc (length root)) path = root @ [47]) ''SEALED_STORAGE_KEY'') (Inr path))"

section \<open>The operations of local sealed storage\<close>

record publish_options =
  errorCode :: "string option"
  extensionErrorCode :: "string option"

definition code_or :: "string \<Rightarrow> string option \<Rightarrow> string" where
  "code_or fallback code = (case code of None \<Rightarrow> fallback | Some c \<Rightarrow> c)"

definition publish :: "jsstr \<Rightarrow> publish_options \<Rightarrow> jsstr \<Rightarrow> byte list \<Rightarrow> fault \<Rightarrow> disk \<Rightarrow> disk \<times> (jsstr \<times> nat) res" where
  "publish root opts key bytes fault d =
     (case bindR (validate_key False key) (\<lambda>validated.
             andThen (invariant (ends_with ''.g9p'' validated) ''SEALED_STORAGE_EXTENSION'')
             (bindR (local_path root validated) (\<lambda>path. Inr (validated, path)))) of
        Inl e \<Rightarrow> (d, Inl e)
      | Inr (validated, path) \<Rightarrow>
          (case write_exclusive_and_promote (code_or ''SEALED_STORAGE_WRITE'' (errorCode opts))
                  (code_or ''SEALED_STORAGE_EXTENSION'' (extensionErrorCode opts)) path bytes fault d of
             (d', Inr _) \<Rightarrow> (d', Inr (validated, length bytes))
           | (d', Inl e) \<Rightarrow> (d', Inl e)))"

definition DEFAULT_MAX_OBJECT_BYTES :: nat where
  "DEFAULT_MAX_OBJECT_BYTES = 536870912"

definition read_object :: "jsstr \<Rightarrow> nat \<Rightarrow> jsstr \<Rightarrow> disk \<Rightarrow> byte list res" where
  "read_object root limit key d =
     bindR (validate_key False key) (\<lambda>validated.
     andThen (invariant (0 < limit \<and> limit \<le> max_safe_integer) ''SEALED_STORAGE_LIMIT'')
     (bindR (local_path root validated) (\<lambda>path.
      case read_file d path of
        None \<Rightarrow> if is_folder d path then failWith ''SEALED_STORAGE_OBJECT'' else Inl (PlainError ''ENOENT'')
      | Some bytes \<Rightarrow>
          andThen (invariant (length bytes \<le> limit) ''SEALED_STORAGE_LIMIT'') (Inr bytes))))"

text \<open>The files below a directory, by their paths relative to it: none if the directory is missing.\<close>

definition walk_files :: "disk \<Rightarrow> jsstr \<Rightarrow> jsstr list" where
  "walk_files d dir =
     map (\<lambda>p. drop (Suc (length dir)) p)
       (filter (\<lambda>p. take (Suc (length dir)) p = dir @ [47]) (map fst (names d)))"

definition list_objects :: "jsstr \<Rightarrow> jsstr \<Rightarrow> disk \<Rightarrow> jsstr list res" where
  "list_objects root prefix d =
     bindR (validate_key True prefix) (\<lambda>validated.
     let directoryKey = (if ends_with ''/'' validated then butlast validated else validated) in
     bindR (local_path root directoryKey) (\<lambda>directory.
     andThen (if jm_has (names d) directory then Inl (PlainError ''ENOTDIR'') else Inr ())
     (Inr (sort (map (\<lambda>relative. directoryKey @ 47 # relative)
       (filter (\<lambda>relative. \<not> ends_with ''.g9p.part'' relative) (walk_files d directory)))))))"

definition NAMESPACES :: "jsstr list" where
  "NAMESPACES = [js ''segments'', js ''routing'', js ''checkpoints'', js ''witnesses'']"

definition stale_parts :: "disk \<Rightarrow> jsstr \<Rightarrow> jsstr list" where
  "stale_parts d namespacePath =
     map (\<lambda>relative. namespacePath @ 47 # relative)
       (filter (ends_with ''.g9p.part'') (walk_files d namespacePath))"

definition namespace_cleanup :: "disk \<Rightarrow> jsstr \<Rightarrow> disk_op list" where
  "namespace_cleanup d namespacePath =
     (let stale = stale_parts d namespacePath in
      map Unlink_File stale @ map Sync_Directory (sort (remdups (map dirname stale))))"

text \<open>The namespaces are disjoint and \<open>mkdir\<close> makes no file, so the files of each are listed once, before
  any is removed. Once the root is there, of the directory of a namespace only itself can be missing.\<close>

definition namespace_calls :: "disk \<Rightarrow> jsstr \<Rightarrow> disk_op list" where
  "namespace_calls d namespacePath =
     (if is_folder d namespacePath then [] else [Make_Directory namespacePath]) @ namespace_cleanup d namespacePath"

definition initialize_calls :: "jsstr \<Rightarrow> disk \<Rightarrow> disk_op list" where
  "initialize_calls root d =
     make_directories d root @ concat (map (\<lambda>namespace. namespace_calls d (storage_path root namespace)) NAMESPACES)"

definition initialize :: "jsstr \<Rightarrow> fault \<Rightarrow> disk \<Rightarrow> disk \<times> bool" where
  "initialize root fault d = run_ops (initialize_calls root d) fault d"

end
