(* ===== verification/G9P_Sealed_Objects.thy ===== *)
theory G9P_Sealed_Objects
  imports G9P_Sealed_Storage
begin

text \<open>
  Sealed storage as its clients see it: where keys lead, what one operation does to the sealed
  objects, and what stays true along every run of publications, faults, power failures and
  restarts.
\<close>

section \<open>Keys\<close>

lemma split_slash_not_Nil [simp]: "split_slash s \<noteq> []"
  by (induction s) (auto split: list.split)

lemma join_split_slash [simp]: "join_slash (split_slash s) = s"
proof (induction s)
  case (Cons u s)
  then show ?case by (cases "split_slash s"; cases "tl (split_slash s)") auto
qed simp

lemma split_slash_append: "split_slash (s @ 47 # t) = split_slash s @ split_slash t"
  by (induction s) (auto split: list.split)

lemma join_slash_append: "xs \<noteq> [] \<Longrightarrow> ys \<noteq> [] \<Longrightarrow> join_slash (xs @ ys) = join_slash xs @ 47 # join_slash ys"
  by (induction xs rule: join_slash.induct) (cases ys; simp)+

lemma resolve_parts_plain: "list_all path_part_ok parts \<Longrightarrow> resolve_parts resolved parts = resolved @ parts"
  by (induction parts arbitrary: resolved) (auto simp: path_part_ok_def)

definition key_ok :: "jsstr \<Rightarrow> bool" where
  "key_ok key \<longleftrightarrow> key \<noteq> [] \<and> hd key \<noteq> 47 \<and> 92 \<notin> set key \<and> 0 \<notin> set key \<and> list_all path_part_ok (split_slash key)"

lemma validate_key_Inr: "validate_key False key = Inr v \<longleftrightarrow> v = key \<and> key_ok key"
  by (auto simp: validate_key_def key_ok_def res_simps Let_def)

text \<open>The constructor resolves the root directory: it is absolute and has no dots in it.\<close>

definition root_ok :: "jsstr \<Rightarrow> bool" where
  "root_ok root \<longleftrightarrow> root \<noteq> [] \<and> hd root = 47 \<and> list_all path_part_ok (split_slash (tl root))"

lemma local_path_eq:
  assumes "root_ok root" and "key_ok key"
  shows "local_path root key = Inr (root @ 47 # key)"
proof -
  have root: "root = 47 # tl root" using assms(1) by (cases root) (auto simp: root_ok_def)
  have "resolve_parts [] (split_slash root @ split_slash key) = split_slash (tl root) @ split_slash key"
    using assms by (subst root) (simp add: resolve_parts_plain root_ok_def key_ok_def)
  then have "resolve_path root (split_slash key) = 47 # tl root @ 47 # key"
    by (simp add: resolve_path_def join_slash_append)
  also have "\<dots> = root @ 47 # key" by (subst (2) root) simp
  finally show ?thesis using assms(2) validate_key_Inr [of key key] by (simp add: local_path_def Let_def)
qed

lemma part_not_sealed: "ends_with ''.g9p.part'' p \<Longrightarrow> \<not> sealed_name p"
  by (auto simp: ends_with_iff append_eq_append_conv2 Cons_eq_append_conv append_eq_Cons_conv)

section \<open>Operations\<close>

text \<open>The two stages of the exclusive write are one run of system calls; only the error differs.\<close>

lemma write_exclusive_runs:
  "write_exclusive_and_promote code extension p bytes fault d =
     (if \<not> sealed_name p then (d, failWith extension)
      else (case run_ops (publication d p bytes) fault d of
         (d', True) \<Rightarrow> (d', Inr ())
       | (d', False) \<Rightarrow> (d', if snd (run_ops (make_directories d (dirname p))
             (fault_before (length (make_directories d (dirname p))) fault) d)
           then failWith code else Inl (PlainError ''EIO''))))"
  by (simp add: write_exclusive_and_promote_def publication_def run_two Let_def split: prod.split bool.split)

lemma publish_Inr:
  assumes "publish root opts key bytes fault d = (d', Inr r)" and "root_ok root"
  shows "key_ok key" and "sealed_name key" and "r = (key, length bytes)"
    and "run_ops (publication d (root @ 47 # key) bytes) fault d = (d', True)"
    and "sealed_name (root @ 47 # key)"
proof -
  show key: "key_ok key" and "sealed_name key" and "r = (key, length bytes)"
    and "run_ops (publication d (root @ 47 # key) bytes) fault d = (d', True)"
    using assms(1)
    by (auto simp: publish_def write_exclusive_runs bindR_Inr_iff andThen_Inr_iff invariant_Inr_iff
        validate_key_Inr local_path_eq [OF assms(2)] failWith_def split: sum.splits if_splits prod.splits bool.splits)
  then show "sealed_name (root @ 47 # key)" using ends_with_append [of _ key "root @ [47]"] by simp
qed

text \<open>Every publication, whatever it returns, is an exclusive write of a sealed name or nothing.\<close>

lemma publish_runs:
  "fst (publish root opts key bytes fault d) = d
    \<or> (\<exists>path. local_path root key = Inr path \<and> sealed_name path
        \<and> fst (publish root opts key bytes fault d) = fst (run_ops (publication d path bytes) fault d))"
proof (cases "validate_key False key")
  case (Inl e)
  then show ?thesis by (simp add: publish_def)
next
  case (Inr v)
  then have key: "v = key" by (simp add: validate_key_Inr)
  show ?thesis
  proof (cases "local_path root key")
    case (Inl e)
    with Inr key show ?thesis by (cases "sealed_name key") (simp_all add: publish_def)
  next
    case (Inr path)
    with \<open>validate_key False key = Inr v\<close> key show ?thesis
      by (cases "sealed_name key"; cases "sealed_name path")
        (auto simp: publish_def write_exclusive_runs failWith_def split: prod.split bool.split)
  qed
qed

lemma publish_fails_unchanged_key:
  assumes "root_ok root" and "publish root opts key bytes fault d = (d', Inl e)"
  shows "d' = d \<or> key_ok key \<and> sealed_name key \<and> d' = fst (run_ops (publication d (root @ 47 # key) bytes) fault d)"
proof (cases "validate_key False key")
  case (Inl e)
  then show ?thesis using assms(2) by (simp add: publish_def)
next
  case (Inr v)
  then have key: "v = key" "key_ok key" by (simp_all add: validate_key_Inr)
  then show ?thesis
    using assms(2) Inr ends_with_append [of _ key "root @ [47]"]
    by (cases "sealed_name key")
      (auto simp: publish_def write_exclusive_runs failWith_def local_path_eq [OF assms(1) key(2)]
        split: prod.splits bool.splits if_splits)
qed

lemma walk_files_names:
  "map (\<lambda>relative. dir @ 47 # relative) (filter P (walk_files d dir)) =
   filter (\<lambda>p. take (Suc (length dir)) p = dir @ [47] \<and> P (drop (Suc (length dir)) p)) (map fst (names d))"
proof -
  have "dir @ 47 # drop (Suc (length dir)) p = p" if "take (Suc (length dir)) p = dir @ [47]" for p
    using append_take_drop_id [of "Suc (length dir)" p] that by simp
  then have "map (\<lambda>p. dir @ 47 # drop (Suc (length dir)) p)
      (filter (\<lambda>p. take (Suc (length dir)) p = dir @ [47] \<and> P (drop (Suc (length dir)) p)) xs)
    = filter (\<lambda>p. take (Suc (length dir)) p = dir @ [47] \<and> P (drop (Suc (length dir)) p)) xs" for xs
    by (induction xs) auto
  moreover have "map (\<lambda>relative. dir @ 47 # relative) (filter P (map (drop (Suc (length dir))) ys))
      = map (\<lambda>p. dir @ 47 # drop (Suc (length dir)) p) (filter (\<lambda>p. P (drop (Suc (length dir)) p)) ys)" for ys
    by (induction ys) auto
  ultimately show ?thesis unfolding walk_files_def by (simp add: conj_commute)
qed

section \<open>Restarts\<close>

lemma stale_parts_names:
  "stale_parts d dir = filter (\<lambda>p. take (Suc (length dir)) p = dir @ [47]
     \<and> ends_with ''.g9p.part'' (drop (Suc (length dir)) p)) (map fst (names d))"
  unfolding stale_parts_def by (rule walk_files_names)

lemma harmless_cleanup: "list_all harmless (namespace_cleanup d dir)"
proof -
  have "\<not> sealed_name p" if "p \<in> set (stale_parts d dir)" for p
  proof -
    from that have "ends_with ''.g9p.part'' (drop (Suc (length dir)) p)" by (simp add: stale_parts_names)
    then have "ends_with ''.g9p.part'' (take (Suc (length dir)) p @ drop (Suc (length dir)) p)"
      by (rule ends_with_append)
    then have "ends_with ''.g9p.part'' p" by (simp only: append_take_drop_id)
    then show ?thesis by (rule part_not_sealed)
  qed
  then show ?thesis by (auto simp: namespace_cleanup_def Let_def list_all_iff harmless_def)
qed

lemma harmless_initialize: "list_all harmless (initialize_calls root d)"
proof -
  have "list_all harmless (namespace_calls d dir)" for dir
    using harmless_cleanup [of d dir] by (simp add: namespace_calls_def harmless_def)
  then show ?thesis using directories_harmless [of d root] by (auto simp: initialize_calls_def list_all_iff)
qed

lemma harmless_not_link: "list_all harmless ops \<Longrightarrow> \<forall>op \<in> set ops. \<forall>p r. op \<noteq> Link_File p r"
  by (auto simp: list_all_iff harmless_def)

definition unlinked :: "disk_op list \<Rightarrow> jsstr list" where
  "unlinked ops = concat (map (\<lambda>op. case op of Unlink_File p \<Rightarrow> [p] | _ \<Rightarrow> []) ops)"

lemma unlinked_simps [simp]:
  "unlinked [] = []" "unlinked (Unlink_File p # ops) = p # unlinked ops" "unlinked (Make_Directory p # ops) = unlinked ops"
  "unlinked (Sync_Directory dir # ops) = unlinked ops" "unlinked (xs @ ys) = unlinked xs @ unlinked ys"
  "unlinked (map Unlink_File ps) = ps" "unlinked (map Sync_Directory dirs) = []"
  by (simp_all add: unlinked_def comp_def)

lemma unlinked_cleanup: "unlinked (namespace_calls d dir) = stale_parts d dir"
  by (simp add: namespace_calls_def namespace_cleanup_def Let_def)

lemma unlinked_concat: "unlinked (concat xs) = concat (map unlinked xs)"
  by (induction xs) simp_all

text \<open>A call of a restart that will succeed.\<close>

definition call_ready :: "disk \<Rightarrow> disk_op \<Rightarrow> bool" where
  "call_ready d op \<longleftrightarrow> (case op of
       Make_Directory p \<Rightarrow> jm_get (names d) p = None \<and> is_folder d (dirname p)
     | Sync_Directory dir \<Rightarrow> is_folder d dir
     | Unlink_File p \<Rightarrow> True
     | _ \<Rightarrow> False)"

lemma ready_later:
  assumes "list_all (call_ready d) ops" and "folders d \<subseteq> folders e" and "\<And>p. jm_get (names d) p = None \<Longrightarrow> jm_get (names e) p = None"
  shows "list_all (call_ready e) ops"
proof -
  have "call_ready e op" if "call_ready d op" for op
    using that assms(2,3) by (cases op) (auto simp: call_ready_def is_folder_def)
  then show ?thesis using assms(1) by (simp add: list_all_iff)
qed

lemma run_harmless:
  assumes "list_all (call_ready d) ops" and "distinct (unlinked ops)" and "\<forall>p \<in> set (unlinked ops). jm_get (names d) p \<noteq> None"
  shows "\<exists>d'. run_ops ops None d = (d', True)
    \<and> (\<forall>p. jm_get (names d') p = (if p \<in> set (unlinked ops) then None else jm_get (names d) p))"
  using assms
proof (induction ops arbitrary: d)
  case Nil
  then show ?case by (simp add: unlinked_def)
next
  case (Cons op ops)
  have one: "call_ready d op" and rest: "list_all (call_ready d) ops" using Cons.prems(1) by simp_all
  show ?case
  proof (cases op)
    case (Unlink_File p)
    let ?d = "d\<lparr>names := jm_delete p (names d)\<rparr>"
    have "list_all (call_ready ?d) ops" by (rule ready_later [OF rest]) auto
    with Unlink_File Cons.prems have "\<exists>d'. run_ops ops None ?d = (d', True)
        \<and> (\<forall>r. jm_get (names d') r = (if r \<in> set (unlinked ops) then None else jm_get (names ?d) r))"
      by (intro Cons.IH) auto
    with Unlink_File Cons.prems show ?thesis by auto
  next
    case (Sync_Directory dir)
    let ?d = "d\<lparr>durable_names := \<lambda>p. if dirname p = dir then jm_get (names d) p else durable_names d p,
        durable_folders := durable_folders d \<union> {f \<in> folders d. dirname f = dir}\<rparr>"
    have "list_all (call_ready ?d) ops" by (rule ready_later [OF rest]) auto
    with Sync_Directory Cons.prems have "\<exists>d'. run_ops ops None ?d = (d', True)
        \<and> (\<forall>r. jm_get (names d') r = (if r \<in> set (unlinked ops) then None else jm_get (names ?d) r))"
      by (intro Cons.IH) auto
    with Sync_Directory one show ?thesis by (auto simp: call_ready_def)
  next
    case (Make_Directory p)
    have "\<exists>e. disk_step op d = Inr e \<and> names e = names d \<and> folders d \<subseteq> folders e"
      using one Make_Directory by (cases "is_folder d p") (auto simp: call_ready_def)
    then obtain e where e: "disk_step op d = Inr e" "names e = names d" "folders d \<subseteq> folders e" by blast
    have "list_all (call_ready e) ops" by (rule ready_later [OF rest e(3)]) (simp add: e(2))
    with Make_Directory Cons.prems e(2) have "\<exists>d'. run_ops ops None e = (d', True)
        \<and> (\<forall>r. jm_get (names d') r = (if r \<in> set (unlinked ops) then None else jm_get (names e) r))"
      by (intro Cons.IH) auto
    with Make_Directory e(1,2) show ?thesis by (auto simp del: disk_step.simps)
  qed (use one in \<open>simp_all add: call_ready_def\<close>)
qed

lemma jm_get_names: "jm_wf m \<Longrightarrow> distinct (map fst m)" "p \<in> set (map fst m) \<Longrightarrow> jm_get m p \<noteq> None"
  by (auto simp: jm_wf_def jm_get_def map_of_eq_None_iff)

lemma prefix_char:
  "take (Suc (length (storage_path root ns))) p = storage_path root ns @ [47] \<Longrightarrow> ns \<noteq> [] \<Longrightarrow>
   p ! Suc (length root) = hd ns"
proof -
  assume a: "take (Suc (length (storage_path root ns))) p = storage_path root ns @ [47]" "ns \<noteq> []"
  then have "p ! Suc (length root) = (storage_path root ns @ [47]) ! Suc (length root)"
    by (metis length_append_singleton length_greater_0_conv less_Suc_eq less_add_same_cancel1 list.size(4)
        length_append nth_take storage_path_def add_Suc_right Suc_less_eq not_less_eq)
  also have "\<dots> = hd ns" using a(2) by (cases ns) (simp_all add: storage_path_def nth_append)
  finally show ?thesis .
qed

lemma stale_part_facts:
  assumes "p \<in> set (stale_parts d dir)"
  shows "jm_get (names d) p \<noteq> None" and "take (Suc (length dir)) p = dir @ [47]"
proof -
  from assms have p: "p \<in> set (map fst (names d))" "take (Suc (length dir)) p = dir @ [47]"
    by (simp_all only: stale_parts_names set_filter mem_Collect_eq)
  from p(1) show "jm_get (names d) p \<noteq> None" by (rule jm_get_names(2))
  from p(2) show "take (Suc (length dir)) p = dir @ [47]" .
qed

lemma distinct_stale:
  assumes "jm_wf (names d)"
  shows "distinct (concat (map (\<lambda>ns. stale_parts d (storage_path root ns)) NAMESPACES))"
proof -
  have each: "distinct (stale_parts d dir)" for dir
    using jm_get_names(1) [OF assms] by (simp add: stale_parts_names)
  have apart: "set (stale_parts d (storage_path root a)) \<inter> set (stale_parts d (storage_path root b)) = {}"
    if "a \<noteq> []" "b \<noteq> []" "hd a \<noteq> hd b" for a b
    using that prefix_char [OF stale_part_facts(2)] by (metis disjoint_iff)
  show ?thesis
    unfolding NAMESPACES_def using each
    by (simp add: Int_Un_distrib apart)
qed

section \<open>Runs\<close>

text \<open>A file system without files, with some directories and those above them, of which some have been
  synchronised.\<close>

definition with_ancestors :: "jsstr set \<Rightarrow> jsstr set" where
  "with_ancestors F = F \<union> (\<Union>f \<in> F. set (ancestors f))"

definition bare_disk :: "jsstr set \<Rightarrow> jsstr set \<Rightarrow> disk" where
  "bare_disk F D = \<lparr>names = [], contents = (\<lambda>i. []), durable_names = (\<lambda>p. None),
     durable_contents = (\<lambda>i. None), next_inode = 0, folders = with_ancestors F, durable_folders = D\<rparr>"

definition empty_disk :: disk where
  "empty_disk = bare_disk {} {}"

lemma bare_disk_simps [simp]:
  "names (bare_disk F D) = []" "is_folder (bare_disk F D) p \<longleftrightarrow> p = [] \<or> p \<in> with_ancestors F"
  "folders (bare_disk F D) = with_ancestors F" "durable_folders (bare_disk F D) = D"
  "durable_names (bare_disk F D) = (\<lambda>p. None)" "read_file (bare_disk F D) p = None" "jm_get [] p = None"
  by (simp_all add: bare_disk_def is_folder_def read_file_def jm_get_def)

lemma with_ancestors_empty [simp]: "with_ancestors {} = {}"
  by (simp add: with_ancestors_def)

lemma tree_with_ancestors: "tree (with_ancestors F)"
  unfolding tree_def
proof
  fix f
  assume "f \<in> with_ancestors F"
  then obtain g where g: "g \<in> F" "f = g \<or> f \<in> set (ancestors g)" by (auto simp: with_ancestors_def)
  then have "set (ancestors f) \<subseteq> set (ancestors g)" using ancestors_closed by blast
  then have "dirname f = [] \<or> dirname f \<in> set (ancestors g)" by (cases "dirname f = []") (simp_all add: ancestors.simps [of f])
  then show "dirname f = [] \<or> dirname f \<in> with_ancestors F" using g(1) by (auto simp: with_ancestors_def)
qed

text \<open>Directories without a dot in their paths are in nobody's way.\<close>

lemma with_ancestors_plain:
  assumes "\<forall>f \<in> F. u \<notin> set f" and "p \<in> with_ancestors F"
  shows "u \<notin> set p"
  using assms ancestors_prefix by (fastforce simp: with_ancestors_def)

lemma bare_disk_ok: "disk_ok (bare_disk F D)"
  by (rule disk_okI) (simp_all add: tree_ok_def jm_wf_def tree_with_ancestors)

lemma empty_disk_ok: "disk_ok empty_disk"
  by (simp add: empty_disk_def bare_disk_ok)

text \<open>What the service does, and what may happen besides.\<close>

inductive service_step :: "jsstr \<Rightarrow> disk \<Rightarrow> disk \<Rightarrow> bool" for root where
  Publication: "service_step root d (fst (publish root opts key bytes fault d))"
| Restart: "service_step root d (fst (initialize root fault d))"

inductive storage_step :: "jsstr \<Rightarrow> disk \<Rightarrow> disk \<Rightarrow> bool" for root where
  Ordinary: "service_step root d d' \<Longrightarrow> storage_step root d d'"
| Power_Loss: "power_failure d d' \<Longrightarrow> storage_step root d d'"

inductive_cases service_stepE: "service_step root d d'"
inductive_cases storage_stepE: "storage_step root d d'"

lemma service_step_runs:
  assumes "disk_ok d" and "service_step root d d'"
  shows "d' = d \<or> (\<exists>ops fault. ops_ok ops d \<and> d' = fst (run_ops ops fault d))"
  using assms(2)
proof (rule service_stepE)
  fix opts key bytes fault
  assume "d' = fst (publish root opts key bytes fault d)"
  then show ?thesis
    using publish_runs [of root opts key bytes fault d] publication_ok [OF assms(1) sealed_final] by metis
next
  fix fault
  assume "d' = fst (initialize root fault d)"
  then show ?thesis unfolding initialize_def using harmless_ok [OF harmless_initialize] by blast
qed

lemma service_step_ok:
  assumes "disk_ok d" and "service_step root d d'"
  shows "disk_ok d' \<and> disk_grows d d' \<and> durable_folders d \<subseteq> durable_folders d'"
  using service_step_runs [OF assms] run_ops_ok [OF assms(1)] run_ops_folders assms(1) disk_grows_refl by blast

interpretation service: machine "service_step root" disk_ok disk_grows for root
  using service_step_ok disk_grows_refl disk_grows_trans by unfold_locales blast+

text \<open>A power failure keeps the objects whose directories it cannot take away.\<close>

definition anchored_grows :: "disk \<Rightarrow> disk \<Rightarrow> bool" where
  "anchored_grows d d' \<longleftrightarrow> (\<forall>p bytes. sealed_as d p bytes \<and> anchored d p \<longrightarrow> sealed_as d' p bytes \<and> anchored d' p)"

lemma storage_step_ok:
  assumes "disk_ok d" and "storage_step root d d'"
  shows "disk_ok d' \<and> anchored_grows d d'"
  using assms(2)
proof (rule storage_stepE)
  assume "service_step root d d'"
  from service_step_ok [OF assms(1) this] show ?thesis
    by (auto simp: anchored_grows_def disk_grows_def anchored_def)
next
  assume "power_failure d d'"
  then show ?thesis
    using power_failure_ok [OF assms(1)] power_failure_keeps [OF assms(1)] by (auto simp: anchored_grows_def sealed_as_def)
qed

interpretation storage: machine "storage_step root" disk_ok anchored_grows for root
proof
  fix d d' e :: disk
  show "disk_ok d'" and "anchored_grows d d'" if "disk_ok d" "storage_step root d d'"
    using storage_step_ok [OF that] by simp_all
  show "anchored_grows d d" by (simp add: anchored_grows_def)
  show "anchored_grows d e" if "anchored_grows d d'" "anchored_grows d' e" using that unfolding anchored_grows_def by blast
qed

definition storage_reachable :: "jsstr \<Rightarrow> disk \<Rightarrow> bool" where
  "storage_reachable root d \<longleftrightarrow> (\<exists>F D. (storage_step root)\<^sup>*\<^sup>* (bare_disk F D) d)"

lemma storage_reachable_ok: "storage_reachable root d \<Longrightarrow> disk_ok d"
  unfolding storage_reachable_def using storage.run_inv bare_disk_ok by blast

lemma storage_reachable_empty: "storage_reachable root empty_disk"
  unfolding storage_reachable_def empty_disk_def by blast

lemma sealed_as_read:
  assumes "sealed_as d (root @ 47 # key) bytes" and "root_ok root" and "key_ok key"
    and "length bytes \<le> limit" and "0 < limit" and "limit \<le> max_safe_integer"
  shows "read_object root limit key d = Inr bytes"
  using assms validate_key_Inr [of key key] local_path_eq [OF assms(2,3)]
  by (auto simp: read_object_def sealed_as_def kept_as_def read_file_def)

lemma publish_succeeds:
  assumes "root_ok root" and "key_ok key" and "sealed_name key"
    and "jm_get (names d) (root @ 47 # key) = None" and "jm_get (names d) (part_path (root @ 47 # key)) = None"
    and "\<forall>q \<in> set (ancestors (root @ 47 # key)). jm_get (names d) q = None"
    and "\<not> is_folder d (root @ 47 # key)" and "\<not> is_folder d (part_path (root @ 47 # key))"
  shows "\<exists>d'. publish root opts key bytes None d = (d', Inr (key, length bytes))"
proof -
  obtain d' where "run_ops (publication d (root @ 47 # key) bytes) None d = (d', True)"
    using publication_succeeds [OF assms(4-8), of bytes] by (metis (full_types) prod.collapse)
  then have "publish root opts key bytes None d = (d', Inr (key, length bytes))"
    using assms(1-3) validate_key_Inr [of key key] local_path_eq [OF assms(1,2)]
      ends_with_append [OF assms(3), of "root @ [47]"]
    by (simp add: publish_def write_exclusive_runs)
  then show ?thesis ..
qed

definition sample_root :: jsstr where "sample_root = js ''/data''"
definition sample_key :: jsstr where "sample_key = js ''segments/a.g9p''"
definition sample_publish_options :: publish_options where
  "sample_publish_options = \<lparr>errorCode = None, extensionErrorCode = None\<rparr>"

lemma sample_key_facts: "root_ok sample_root" "key_ok sample_key" "sealed_name sample_key"
  by (simp_all add: root_ok_def key_ok_def sample_root_def sample_key_def path_part_ok_def ends_with_def)

lemma sample_published:
  "\<exists>d. publish sample_root sample_publish_options sample_key [1, 2, 3] None empty_disk = (d, Inr (sample_key, 3))"
  using publish_succeeds [OF sample_key_facts, of empty_disk sample_publish_options "[1, 2, 3]"]
  by (simp add: empty_disk_def numeral_3_eq_3 part_path_def)

lemma published_disk:
  assumes "root_ok root" and "disk_ok d" and "publish root opts key bytes fault d = (d1, Inr r)"
  shows "disk_ok d1" and "sealed_as d1 (root @ 47 # key) bytes" and "key_ok key"
proof -
  note p = publish_Inr [OF assms(3,1)]
  have "service_step root d d1" using Publication [of root d opts key bytes fault] assms(3) by simp
  then show "disk_ok d1" using service_step_ok assms(2) by blast
  show "sealed_as d1 (root @ 47 # key) bytes" by (rule publication_finished(2) [OF p(4,5)])
  show "key_ok key" by (rule p)
qed

lemma read_lost:
  assumes "root_ok root" and "key_ok key" and "jm_get (names d) (root @ 47 # key) = None" and "\<not> is_folder d (root @ 47 # key)"
    and "0 < limit" and "limit \<le> max_safe_integer"
  shows "read_object root limit key d = Inl (PlainError ''ENOENT'')"
  using assms validate_key_Inr [of key key] local_path_eq [OF assms(1,2)]
  by (simp add: read_object_def read_file_def invariant_def)

text \<open>
  C6: An object that publish has sealed keeps its bytes. However many publications (also under the same
  key) and restarts follow, with whatever injected faults, it is read back as it was published. Power
  failures do not change that either, once every directory on its way has been synchronised in its
  parent. The storage itself synchronises no parent of a directory it makes: while one of them has not
  been, there is a power failure after which the published object is not found.
\<close>

theorem sealed_objects_are_immutable:
  assumes "root_ok root" and "storage_reachable root d"
    and "publish root opts key bytes fault d = (d1, Inr r)"
    and "length bytes \<le> limit" and "0 < limit" and "limit \<le> max_safe_integer"
  shows "(\<forall>d2. (service_step root)\<^sup>*\<^sup>* d1 d2 \<longrightarrow> read_object root limit key d2 = Inr bytes)
    \<and> (anchored d1 (root @ 47 # key) \<longrightarrow> (\<forall>d2. (storage_step root)\<^sup>*\<^sup>* d1 d2 \<longrightarrow> read_object root limit key d2 = Inr bytes))
    \<and> (\<not> anchored d1 (root @ 47 # key) \<longrightarrow>
        (\<exists>d2. power_failure d1 d2 \<and> read_object root limit key d2 = Inl (PlainError ''ENOENT'')))"
proof (intro conjI allI impI)
  note p = published_disk [OF assms(1) storage_reachable_ok [OF assms(2)] assms(3)]
  show "read_object root limit key d2 = Inr bytes" if "(service_step root)\<^sup>*\<^sup>* d1 d2" for d2
    using service.run_grows [OF that p(1)] p assms by (intro sealed_as_read) (auto simp: disk_grows_def)
  show "read_object root limit key d2 = Inr bytes"
    if "anchored d1 (root @ 47 # key)" "(storage_step root)\<^sup>*\<^sup>* d1 d2" for d2
    using storage.run_grows [OF that(2) p(1)] that(1) p assms by (intro sealed_as_read) (auto simp: anchored_grows_def)
  assume far: "\<not> anchored d1 (root @ 47 # key)"
  have "\<not> is_folder d1 (root @ 47 # key)"
    using p(2) disk_okD(7) [OF p(1)] by (auto simp: sealed_as_def kept_as_def tree_ok_def)
  then have "\<not> is_folder (worst_failure d1) (root @ 47 # key)"
    using power_failureD(8) [OF worst_failure_possible [OF p(1)]] by (auto simp: is_folder_def)
  then show "\<exists>d2. power_failure d1 d2 \<and> read_object root limit key d2 = Inl (PlainError ''ENOENT'')"
    using worst_failure_possible [OF p(1)] worst_failure_loses [OF p(1) far] read_lost [OF assms(1) p(3) _ _ assms(5,6)] by blast
qed

text \<open>The first object of a new store: lost if the power fails now, safe once its directories are synchronised.\<close>

theorem sealed_objects_are_immutable_witness:
  "\<exists>d1 r. publish sample_root sample_publish_options sample_key [1, 2, 3] None empty_disk = (d1, Inr r)
     \<and> (\<exists>d2. power_failure d1 d2 \<and> read_object sample_root 100 sample_key d2 = Inl (PlainError ''ENOENT''))
     \<and> (\<exists>d2. publish sample_root sample_publish_options sample_key [1, 2, 3] None
            (bare_disk {js ''/data/segments''} {js ''/data'', js ''/data/segments''}) = (d2, Inr r)
          \<and> read_object sample_root 100 sample_key (worst_failure d2) = Inr [1, 2, 3])"
proof -
  let ?F = "{js ''/data/segments''}" and ?D = "{js ''/data'', js ''/data/segments''}"
  have path: "sample_root @ 47 # sample_key = js ''/data/segments/a.g9p''" by (simp add: sample_root_def sample_key_def)
  have up: "ancestors (js ''/data/segments/a.g9p'') = [js ''/data'', js ''/data/segments'']"
    by code_simp
  obtain d1 where d1: "publish sample_root sample_publish_options sample_key [1, 2, 3] None empty_disk
      = (d1, Inr (sample_key, 3))"
    using sample_published by blast
  have "durable_folders (fst (run_ops (publication empty_disk (js ''/data/segments/a.g9p'') [1, 2, 3]) None empty_disk)) = {}"
    by code_simp
  then have "durable_folders d1 = {}"
    using publish_Inr(4) [OF d1 sample_key_facts(1)] by (simp add: path del: js_Cons)
  then have lost: "\<not> anchored d1 (sample_root @ 47 # sample_key)" by (simp add: anchored_def path up del: js_Cons)
  have start: "storage_reachable sample_root (bare_disk ?F ?D)" unfolding storage_reachable_def by blast
  have plain: "p \<notin> with_ancestors ?F" if "46 \<in> set p" for p
    using with_ancestors_plain [of ?F 46 p] that by auto
  obtain d2 where d2: "publish sample_root sample_publish_options sample_key [1, 2, 3] None (bare_disk ?F ?D)
      = (d2, Inr (sample_key, 3))"
    using publish_succeeds [OF sample_key_facts, of "bare_disk ?F ?D" sample_publish_options "[1, 2, 3]"]
      plain [of "js ''/data/segments/a.g9p''"] plain [of "part_path (js ''/data/segments/a.g9p'')"]
    by (auto simp: path part_path_def numeral_3_eq_3)
  have "service_step sample_root (bare_disk ?F ?D) d2"
    using Publication [of sample_root "bare_disk ?F ?D" sample_publish_options sample_key "[1, 2, 3]" None] d2 by simp
  from service_step_ok [OF bare_disk_ok this] have "?D \<subseteq> durable_folders d2" and ok: "disk_ok d2"
    by (simp_all only: bare_disk_simps)
  then have found: "anchored d2 (sample_root @ 47 # sample_key)" by (simp add: anchored_def path up del: js_Cons)
  have "(storage_step sample_root)\<^sup>*\<^sup>* d2 (worst_failure d2)" using Power_Loss [OF worst_failure_possible [OF ok]] by blast
  then have "read_object sample_root 100 sample_key (worst_failure d2) = Inr [1, 2, 3]"
    using sealed_objects_are_immutable [OF sample_key_facts(1) start d2, of 100] found by (simp add: max_safe_integer_def)
  moreover have "\<exists>d. power_failure d1 d \<and> read_object sample_root 100 sample_key d = Inl (PlainError ''ENOENT'')"
    using sealed_objects_are_immutable [OF sample_key_facts(1) storage_reachable_empty d1, of 100] lost
    by (simp add: max_safe_integer_def)
  ultimately show ?thesis using d1 d2 by blast
qed

section \<open>The abstract store\<close>

text \<open>What a client knows of a store: the objects under the keys it may use.\<close>

definition objects :: "jsstr \<Rightarrow> disk \<Rightarrow> jsstr \<Rightarrow> byte list option" where
  "objects root d key = (if key_ok key then sealed_objects d (root @ 47 # key) else None)"

definition inserted :: "(jsstr \<Rightarrow> byte list option) \<Rightarrow> jsstr \<Rightarrow> byte list \<Rightarrow> (jsstr \<Rightarrow> byte list option) \<Rightarrow> bool" where
  "inserted m key bytes m' \<longleftrightarrow> m key = None \<and> m' = m(key \<mapsto> bytes)"

lemma objects_update:
  assumes "key_ok key" and "sealed_objects d' = (sealed_objects d)(root @ 47 # key \<mapsto> bytes)"
    and "sealed_objects d (root @ 47 # key) = None"
  shows "inserted (objects root d) key bytes (objects root d')"
  using assms by (auto simp: inserted_def objects_def fun_eq_iff)

text \<open>
  C7: publish refines one atomic insertion into a map from keys to contents: on success the key
  was absent and is now bound to the bytes; on any failure, of a check or of a system call, the
  map is as it was or the insertion has happened, and nothing else ever changes. A power failure
  changes no content: it leaves an entry as it is or takes it away.
\<close>

theorem publish_is_an_atomic_insertion:
  assumes "root_ok root" and "storage_reachable root d"
  shows "(case publish root opts key bytes fault d of
      (d', Inr r) \<Rightarrow> r = (key, length bytes) \<and> inserted (objects root d) key bytes (objects root d')
    | (d', Inl e) \<Rightarrow> objects root d' = objects root d \<or> inserted (objects root d) key bytes (objects root d'))
    \<and> (\<forall>d' k. power_failure d d' \<longrightarrow> objects root d' k = objects root d k \<or> objects root d' k = None)"
proof (intro conjI allI impI)
  have ok: "disk_ok d" by (rule storage_reachable_ok [OF assms(2)])
  show "case publish root opts key bytes fault d of
      (d', Inr r) \<Rightarrow> r = (key, length bytes) \<and> inserted (objects root d) key bytes (objects root d')
    | (d', Inl e) \<Rightarrow> objects root d' = objects root d \<or> inserted (objects root d) key bytes (objects root d')"
  proof (cases "publish root opts key bytes fault d")
    case (Pair d' result)
    show ?thesis
    proof (cases result)
      case (Inr r)
      note p = publish_Inr [OF Pair [unfolded Inr] assms(1)]
      have "sealed_objects d' = sealed_objects d
        \<or> sealed_objects d' = (sealed_objects d)(root @ 47 # key \<mapsto> bytes)"
        using publication_all_or_nothing [OF ok p(5,4)] by blast
      moreover have "sealed_objects d (root @ 47 # key) = None"
        using publication_finished(3) [OF p(4)] by (simp add: sealed_objects_def read_file_def)
      ultimately show ?thesis
        using publication_finished(5) [OF p(4,5)] objects_update [OF p(1)] p(3) Pair Inr by auto
    next
      case (Inl e)
      from publish_fails_unchanged_key [OF assms(1) Pair [unfolded Inl]]
      have "objects root d' = objects root d \<or> inserted (objects root d) key bytes (objects root d')"
      proof (elim disjE conjE)
        assume key: "key_ok key" "sealed_name key"
          and d': "d' = fst (run_ops (publication d (root @ 47 # key) bytes) fault d)"
        have "sealed_name (root @ 47 # key)" using ends_with_append [OF key(2), of "root @ [47]"] by simp
        from publication_all_or_nothing [OF ok this, of bytes fault d' "snd (run_ops (publication d (root @ 47 # key) bytes) fault d)"] d'
        show ?thesis using objects_update [OF key(1)] by (auto simp: objects_def fun_eq_iff)
      qed simp
      with Pair Inl show ?thesis by simp
    qed
  qed
next
  fix d' k
  assume "power_failure d d'"
  from power_failure_objects [OF storage_reachable_ok [OF assms(2)] this]
  show "objects root d' k = objects root d k \<or> objects root d' k = None" by (simp add: objects_def)
qed

theorem publish_is_an_atomic_insertion_witness:
  "\<exists>d'. publish sample_root sample_publish_options sample_key [7] (Some (4, [])) empty_disk
       = (d', failWith ''SEALED_STORAGE_WRITE'')
     \<and> (objects sample_root d' = objects sample_root empty_disk
        \<or> inserted (objects sample_root empty_disk) sample_key [7] (objects sample_root d'))"
proof -
  note start = storage_reachable_empty
  have "\<exists>d'. publish sample_root sample_publish_options sample_key [7] (Some (4, [])) empty_disk
      = (d', failWith ''SEALED_STORAGE_WRITE'')"
  proof -
    have "snd (publish sample_root sample_publish_options sample_key [7] (Some (4, [])) empty_disk)
        = failWith ''SEALED_STORAGE_WRITE''" by code_simp
    then show ?thesis by (metis prod.collapse)
  qed
  with publish_is_an_atomic_insertion [OF sample_key_facts(1) start, where opts = sample_publish_options
      and key = sample_key and bytes = "[7]" and fault = "Some (4, [])"]
  show ?thesis by (auto simp: failWith_def)
qed

section \<open>Publishing after a restart\<close>

definition in_namespace :: "jsstr \<Rightarrow> bool" where
  "in_namespace key \<longleftrightarrow> (\<exists>ns \<in> set NAMESPACES. take (Suc (length ns)) key = ns @ [47])"

lemma suffix_after_slash:
  assumes "ends_with suffix (a @ 47 # b)" and "47 \<notin> set (js suffix)"
  shows "ends_with suffix b"
proof -
  obtain c where c: "a @ 47 # b = c @ js suffix" using assms(1) unfolding ends_with_iff by blast
  show ?thesis
  proof (cases "length c \<le> length a")
    case True
    then have "\<exists>e. e @ 47 # b = js suffix" using c by (auto simp: append_eq_append_conv2)
    then show ?thesis using assms(2) by (metis in_set_conv_decomp)
  next
    case False
    then obtain e where "47 # b = e @ js suffix" "e \<noteq> []" using c by (auto simp: append_eq_append_conv2)
    then have "b = tl e @ js suffix" by (cases e) auto
    then show ?thesis unfolding ends_with_iff by blast
  qed
qed

lemma stale_part_of:
  assumes "ns \<in> set NAMESPACES" and "p = root @ 47 # ns @ 47 # rest" and "ends_with ''.g9p.part'' p"
    and "jm_get (names d) p \<noteq> None"
  shows "p \<in> set (stale_parts d (storage_path root ns))"
proof -
  have "ends_with ''.g9p.part'' rest"
    by (rule suffix_after_slash [of _ "root @ 47 # ns"]) (use assms(2,3) in simp_all)
  moreover have "p \<in> set (map fst (names d))" using assms(4) by (auto simp: jm_get_def map_of_eq_None_iff)
  ultimately show ?thesis unfolding stale_parts_names by (simp add: assms(2) storage_path_def)
qed

lemma in_namespaceE:
  assumes "in_namespace key"
  obtains ns rest where "ns \<in> set NAMESPACES" and "key = ns @ 47 # rest"
proof -
  from assms obtain ns where ns: "ns \<in> set NAMESPACES" "take (Suc (length ns)) key = ns @ [47]"
    by (auto simp: in_namespace_def)
  have "key = take (Suc (length ns)) key @ drop (Suc (length ns)) key" by simp
  then have "key = ns @ 47 # drop (Suc (length ns)) key" unfolding ns(2) by simp
  with ns(1) show thesis by (rule that)
qed

text \<open>The names in a store: sealed objects and their provisional files, below the root.\<close>

definition own_name :: "jsstr \<Rightarrow> jsstr \<Rightarrow> bool" where
  "own_name root p \<longleftrightarrow> take (Suc (length root)) p = root @ [47] \<and> (sealed_name p \<or> ends_with ''.g9p.part'' p)"

definition own_names :: "jsstr \<Rightarrow> disk \<Rightarrow> bool" where
  "own_names root d \<longleftrightarrow> (\<forall>p. jm_get (names d) p \<noteq> None \<or> durable_names d p \<noteq> None \<longrightarrow> own_name root p)"

text \<open>Whether a call gives names of the store only.\<close>

definition names_own :: "jsstr \<Rightarrow> disk_op \<Rightarrow> bool" where
  "names_own root op \<longleftrightarrow> (case op of
       Open_Exclusive p \<Rightarrow> own_name root p | Link_File p q \<Rightarrow> own_name root q | Rename_File p q \<Rightarrow> False | _ \<Rightarrow> True)"

lemma run_own_names:
  assumes "disk_ok d" and "ops_ok ops d" and "own_names root d" and "list_all (names_own root) ops"
  shows "own_names root (fst (run_ops ops fault d))"
proof -
  have "own_names root e'" if "names_own root op" "disk_step op e = Inr e'" "own_names root e" for op e e'
    using that by (cases op) (auto simp: own_names_def names_own_def split: if_splits option.splits)
  moreover have "set ops \<subseteq> {op. names_own root op}" using assms(4) by (auto simp: list_all_iff)
  ultimately show ?thesis
    using run_ops_preserves [where P = "own_names root" and S = "{op. names_own root op}", OF assms(1-3)]
    by (simp add: names_own_def)
qed

lemma own_paths:
  assumes "sealed_name (root @ 47 # key)"
  shows "own_name root (root @ 47 # key)" and "own_name root (part_path (root @ 47 # key))"
proof -
  show "own_name root (root @ 47 # key)" using assms by (simp add: own_name_def)
  obtain a where "root @ 47 # key = a @ js ''.g9p''" using assms unfolding ends_with_iff by blast
  then have "ends_with ''.g9p.part'' (part_path (root @ 47 # key))"
    unfolding ends_with_iff part_path_def by (auto simp: js_append [symmetric])
  then show "own_name root (part_path (root @ 47 # key))" by (simp add: own_name_def part_path_def)
qed

lemma directories_name_own: "list_all (names_own root) (make_directories d p)"
  using set_make_directories [of d p] by (auto simp: list_all_iff names_own_def)

lemma reachable_own_names:
  assumes "root_ok root" and "storage_reachable root d"
  shows "own_names root d"
proof -
  obtain F D where "(storage_step root)\<^sup>*\<^sup>* (bare_disk F D) d"
    using assms(2) unfolding storage_reachable_def by blast
  then have "disk_ok d \<and> own_names root d"
  proof (induction rule: rtranclp_induct)
    case base
    show ?case using bare_disk_ok by (simp add: own_names_def)
  next
    case (step d d')
    then have ok: "disk_ok d" and own: "own_names root d" by simp_all
    have "disk_ok d'" using storage_step_ok [OF ok step(2)] by blast
    moreover from step(2) have "own_names root d'"
    proof (rule storage_stepE)
      assume "service_step root d d'"
      then show ?thesis
      proof (rule service_stepE)
        fix opts key bytes fault
        assume d': "d' = fst (publish root opts key bytes fault d)"
        from publish_runs [of root opts key bytes fault d] show ?thesis
        proof (elim disjE exE conjE)
          fix path
          assume path: "local_path root key = Inr path" "sealed_name path"
            and run: "fst (publish root opts key bytes fault d) = fst (run_ops (publication d path bytes) fault d)"
          have "path = root @ 47 # key"
            using path(1) local_path_eq [OF assms(1), of key] validate_key_Inr [of key] by (auto simp: local_path_def bindR_Inr_iff)
          then have "list_all (names_own root) (publication d path bytes)"
            using own_paths [of root key] path(2) directories_name_own
            by (simp add: publication_def promotion_def Let_def names_own_def)
          then show ?thesis
            using run_own_names [OF ok publication_ok [OF ok sealed_final [OF path(2)]] own] d' run by simp
        qed (use d' own in simp)
      next
        fix fault
        assume d': "d' = fst (initialize root fault d)"
        have "list_all (names_own root) (initialize_calls root d)"
          using harmless_initialize [of root d] by (auto simp: list_all_iff harmless_def names_own_def split: disk_op.splits)
        then show ?thesis
          using run_own_names [OF ok harmless_ok [OF harmless_initialize] own] d' by (simp add: initialize_def)
      qed
    next
      assume fail: "power_failure d d'"
      show ?thesis
        using own power_failureD(3,5) [OF fail] unfolding own_names_def by metis
    qed
    ultimately show ?case by blast
  qed
  then show ?thesis ..
qed

lemma own_name_last: "own_name root p \<Longrightarrow> last p = 112 \<or> last p = 116"
  by (auto simp: own_name_def ends_with_iff)

lemma own_name_longer: "own_name root p \<Longrightarrow> length root < length p"
  unfolding own_name_def by (metis Suc_le_eq length_append_singleton length_take min.cobounded1)

lemma namespace_not_own:
  assumes "ns \<in> set NAMESPACES"
  shows "\<not> own_name root (storage_path root ns)" and "dirname (storage_path root ns) = root"
proof -
  show "dirname (storage_path root ns) = root" using assms by (auto simp: NAMESPACES_def storage_path_def)
  show "\<not> own_name root (storage_path root ns)"
    using own_name_last [of root "storage_path root ns"] assms by (auto simp: NAMESPACES_def storage_path_def)
qed

lemma initialize_succeeds:
  assumes "disk_ok d" and "own_names root d"
  shows "\<exists>d'. initialize root None d = (d', True) \<and> (\<forall>p. jm_get (names d') p =
      (if \<exists>ns \<in> set NAMESPACES. p \<in> set (stale_parts d (storage_path root ns)) then None else jm_get (names d) p))"
proof -
  let ?ops = "concat (map (\<lambda>ns. namespace_calls d (storage_path root ns)) NAMESPACES)"
  have own: "jm_get (names d) p = None" if "\<not> own_name root p" for p
    using assms(2) that unfolding own_names_def by metis
  have "\<forall>q \<in> set (ancestors root @ [root]). jm_get (names d) q = None"
    using own own_name_longer ancestors_shorter [of _ root] by fastforce
  from make_directories_succeeds [OF this] obtain e where e: "run_ops (make_directories d root) None d = (e, True)"
    "is_folder e root" by blast
  then obtain F where F: "e = d\<lparr>folders := F\<rparr>" using make_directories_run [of d root None d] by auto
  have grown: "folders d \<subseteq> folders e" using run_ops_folders [of d "make_directories d root" None] e(1) by simp
  have un: "unlinked ?ops = concat (map (\<lambda>ns. stale_parts d (storage_path root ns)) NAMESPACES)"
    by (simp add: unlinked_concat comp_def unlinked_cleanup)
  have there: "is_folder e (dirname p)" if "p \<in> set (stale_parts d dir)" for p dir
    using stale_part_facts(1) [OF that] disk_okD(7) [OF assms(1)] grown by (auto simp: tree_ok_def is_folder_def)
  have "list_all (call_ready e) (namespace_calls d (storage_path root ns))" if "ns \<in> set NAMESPACES" for ns
    using there namespace_not_own [OF that] own e(2) F
    by (auto simp: namespace_calls_def namespace_cleanup_def Let_def list_all_iff call_ready_def)
  then have ready: "list_all (call_ready e) ?ops" by (auto simp: list_all_iff)
  have "\<exists>d'. run_ops ?ops None e = (d', True)
    \<and> (\<forall>p. jm_get (names d') p = (if p \<in> set (unlinked ?ops) then None else jm_get (names e) p))"
  proof (rule run_harmless [OF ready])
    show "distinct (unlinked ?ops)" unfolding un by (rule distinct_stale [OF disk_okD(1) [OF assms(1)]])
    show "\<forall>p \<in> set (unlinked ?ops). jm_get (names e) p \<noteq> None"
      unfolding un using stale_part_facts(1) F by auto
  qed
  then obtain d' where "run_ops ?ops None e = (d', True)"
    "\<forall>p. jm_get (names d') p = (if p \<in> set (unlinked ?ops) then None else jm_get (names d) p)" using F by auto
  moreover have "initialize root None d = (d', True)"
    using e(1) calculation(1) by (simp add: initialize_def initialize_calls_def run_ops_append and_then_def)
  ultimately show ?thesis by (simp only: un set_concat set_map) (simp add: Bex_def)
qed

text \<open>A restart makes no directory in the place of an object.\<close>

lemma initialize_folders:
  assumes "initialize root None d = (d1, True)" and "own_name root p"
  shows "is_folder d1 p = is_folder d p"
proof -
  note f = run_ops_folders [of d "initialize_calls root d" None]
  have "Make_Directory p \<notin> set (make_directories d root)"
    using set_make_directories [of d root] own_name_longer [OF assms(2)] ancestors_shorter [of p root] by fastforce
  moreover have "Make_Directory p \<notin> set (namespace_calls d (storage_path root ns))" if "ns \<in> set NAMESPACES" for ns
    using namespace_not_own(1) [OF that, of root] assms(2) by (auto simp: namespace_calls_def namespace_cleanup_def Let_def)
  ultimately have "Make_Directory p \<notin> set (initialize_calls root d)" by (auto simp: initialize_calls_def)
  then show ?thesis using f assms(1) by (auto simp: initialize_def is_folder_def)
qed

text \<open>A provisional file in the place of a directory of a key is removed by a restart.\<close>

lemma part_in_the_way:
  assumes "in_namespace key" and "q \<in> set (ancestors (root @ 47 # key))" and "own_name root q" and "ends_with ''.g9p.part'' q"
    and "jm_get (names d) q \<noteq> None"
  shows "\<exists>ns \<in> set NAMESPACES. q \<in> set (stale_parts d (storage_path root ns))"
proof -
  obtain ns rest where ns: "ns \<in> set NAMESPACES" "key = ns @ 47 # rest" by (rule in_namespaceE [OF assms(1)])
  have plain: "47 \<notin> set ns" "ns \<noteq> []" "last ns \<noteq> 116" using ns(1) by (auto simp: NAMESPACES_def)
  obtain r where r: "root @ 47 # key = q @ 47 # r" using ancestors_prefix [OF assms(2)] by blast
  obtain k where k: "q = root @ 47 # k" using assms(3) unfolding own_name_def
    by (metis append.assoc append_Cons append_Nil append_take_drop_id)
  have key: "ns @ 47 # rest = k @ 47 # r" using r k ns(2) by simp
  have "k = ns \<or> (\<exists>k'. k = ns @ 47 # k')"
    using key [unfolded append_eq_append_conv2] plain(1) by (auto simp: Cons_eq_append_conv append_eq_Cons_conv)
  then consider "k = ns" | k' where "k = ns @ 47 # k'" by blast
  then show ?thesis
  proof cases
    case 1
    then have "last q \<noteq> 116" using plain by (simp add: k)
    then show ?thesis using assms(4) by (auto simp: ends_with_iff)
  next
    case 2
    then show ?thesis using stale_part_of [OF ns(1) _ assms(4,5), of root k'] ns(1) by (auto simp: k)
  qed
qed

text \<open>
  C31: However a run has gone so far, a restart (initialize, without a fault) completes, keeps every
  sealed object, and clears what interrupted attempts have left: a key of a namespace can then be published
  if and only if it is absent, no sealed object lies where a directory of its path must be, and no directory
  lies where the object or its provisional file must be. (After segments/a.g9p has been published, the key
  segments/a.g9p/b.g9p is accepted and absent, but cannot be published.)
\<close>

theorem restart_makes_publishing_possible:
  assumes "root_ok root" and "storage_reachable root d" and "key_ok key" and "sealed_name key" and "in_namespace key"
  shows "\<exists>d1. initialize root None d = (d1, True) \<and> objects root d1 = objects root d
    \<and> ((\<exists>d2. publish root opts key bytes None d1 = (d2, Inr (key, length bytes)))
       \<longleftrightarrow> objects root d key = None \<and> (\<forall>q \<in> set (ancestors (root @ 47 # key)). sealed_objects d q = None)
           \<and> \<not> is_folder d (root @ 47 # key) \<and> \<not> is_folder d (part_path (root @ 47 # key)))"
proof -
  let ?p = "root @ 47 # key"
  note ok = storage_reachable_ok [OF assms(2)] and own = reachable_own_names [OF assms(1,2)]
  obtain d1 where init: "initialize root None d = (d1, True)"
    and gone: "\<And>p. jm_get (names d1) p = (if \<exists>ns \<in> set NAMESPACES. p \<in> set (stale_parts d (storage_path root ns))
      then None else jm_get (names d) p)"
    using initialize_succeeds [OF ok own] by blast
  have ok1: "disk_ok d1" using run_ops_ok [OF ok harmless_ok [OF harmless_initialize [of root d]], of None] init by (simp add: initialize_def)
  have "\<forall>op \<in> set (initialize_calls root d). \<forall>p r. op \<noteq> Link_File p r"
    by (rule harmless_not_link [OF harmless_initialize])
  from run_ops_objects [OF ok harmless_ok [OF harmless_initialize] this, of None] init
  have same: "sealed_objects d1 = sealed_objects d" unfolding initialize_def by simp
  then have kept: "objects root d1 = objects root d" by (simp add: objects_def fun_eq_iff)
  have sealed: "sealed_name ?p" using ends_with_append [OF assms(4), of "root @ [47]"] by simp
  note mine = own_paths [OF sealed]
  have folder: "is_folder d1 ?p = is_folder d ?p" "is_folder d1 (part_path ?p) = is_folder d (part_path ?p)"
    using initialize_folders [OF init] mine by simp_all
  have possible: "\<exists>d2. publish root opts key bytes None d1 = (d2, Inr (key, length bytes))"
    if absent: "objects root d key = None" and clear: "\<forall>q \<in> set (ancestors ?p). sealed_objects d q = None"
      and "\<not> is_folder d ?p" "\<not> is_folder d (part_path ?p)"
  proof (rule publish_succeeds [OF assms(1,3,4)])
    show "jm_get (names d1) ?p = None"
      using assms(3) absent sealed unfolding kept [symmetric] by (simp add: objects_def sealed_objects_def read_file_def)
    obtain ns rest where ns: "ns \<in> set NAMESPACES" "key = ns @ 47 # rest" by (rule in_namespaceE [OF assms(5)])
    have "\<not> sealed_name (part_path ?p)" using not_final_part sealed_final by blast
    then have "ends_with ''.g9p.part'' (part_path ?p)" using mine(2) by (simp add: own_name_def)
    then show "jm_get (names d1) (part_path ?p) = None"
      using gone [of "part_path ?p"] stale_part_of [OF ns(1), of "part_path ?p" root "rest @ js ''.part''" d] ns
      by (cases "jm_get (names d) (part_path ?p)") (auto simp: part_path_def simp del: js_Cons split: if_splits)
    show "\<forall>q \<in> set (ancestors ?p). jm_get (names d1) q = None"
    proof
      fix q
      assume q: "q \<in> set (ancestors ?p)"
      show "jm_get (names d1) q = None"
      proof (rule ccontr)
        assume there: "jm_get (names d1) q \<noteq> None"
        then have old: "jm_get (names d) q \<noteq> None" and stale: "\<not> (\<exists>ns \<in> set NAMESPACES. q \<in> set (stale_parts d (storage_path root ns)))"
          using gone [of q] by (simp_all split: if_splits)
        have "own_name root q" using own old by (simp add: own_names_def)
        moreover have "\<not> sealed_name q" using clear q old by (auto simp: sealed_objects_def read_file_def)
        ultimately show False using part_in_the_way [OF assms(5) q _ _ old] stale by (auto simp: own_name_def)
      qed
    qed
  qed (use that folder in simp_all)
  have needed: "objects root d key = None \<and> (\<forall>q \<in> set (ancestors ?p). sealed_objects d q = None)
      \<and> \<not> is_folder d ?p \<and> \<not> is_folder d (part_path ?p)"
    if "publish root opts key bytes None d1 = (d2, Inr (key, length bytes))" for d2
  proof -
    note run = publication_clear [OF ok1 publish_Inr(4) [OF that assms(1)]]
    show ?thesis
      using run folder unfolding kept [symmetric] same [symmetric] by (auto simp: objects_def sealed_objects_def read_file_def)
  qed
  show ?thesis
    by (rule exI [of _ d1], rule conjI [OF init], rule conjI [OF kept], rule iffI)
      (erule exE, erule needed, elim conjE, erule (3) possible)
qed

theorem restart_makes_publishing_possible_witness:
  "\<exists>d1. initialize sample_root None empty_disk = (d1, True)
     \<and> (\<exists>d2. publish sample_root sample_publish_options sample_key [1] None d1 = (d2, Inr (sample_key, 1)))"
proof -
  have "in_namespace sample_key"
    by (simp add: in_namespace_def NAMESPACES_def sample_key_def)
  from restart_makes_publishing_possible [OF sample_key_facts(1) storage_reachable_empty sample_key_facts(2,3) this,
      of sample_publish_options "[1]"]
  show ?thesis by (auto simp: objects_def sealed_objects_def empty_disk_def part_path_def)
qed

text \<open>
  The path a key leads to is the root followed by the key: every accepted key stays below the
  root, no part of it is empty or a dot entry, the second check of the path never fails, and
  different keys lead to different paths.
\<close>

theorem keys_stay_below_the_root:
  assumes "root_ok root"
  shows "local_path root key = (if key_ok key then Inr (root @ 47 # key) else failWith ''SEALED_STORAGE_KEY'')
    \<and> (local_path root key = Inr p \<longrightarrow> local_path root other = Inr p \<longrightarrow> other = key)
    \<and> (local_path root key = Inr p \<longrightarrow> (\<exists>parts. split_slash p = split_slash root @ parts \<and> list_all path_part_ok parts))"
proof -
  have fails: "local_path root k = failWith ''SEALED_STORAGE_KEY''" if "\<not> key_ok k" for k
  proof -
    have "validate_key False k = failWith ''SEALED_STORAGE_KEY''"
      using that by (auto simp: validate_key_def key_ok_def Let_def invariant_def failWith_def)
    then show ?thesis by (simp add: local_path_def failWith_def)
  qed
  then have path: "local_path root k = (if key_ok k then Inr (root @ 47 # k) else failWith ''SEALED_STORAGE_KEY'')" for k
    using local_path_eq [OF assms] by simp
  show ?thesis
    unfolding path by (auto simp: failWith_def split_slash_append key_ok_def)
qed

theorem keys_stay_below_the_root_witness:
  "local_path sample_root sample_key = Inr (js ''/data/segments/a.g9p'')
   \<and> local_path sample_root (js ''segments/../../etc'') = failWith ''SEALED_STORAGE_KEY''"
  using keys_stay_below_the_root [OF sample_key_facts(1), of sample_key] sample_key_facts(2)
    keys_stay_below_the_root [OF sample_key_facts(1), of "js ''segments/../../etc''"]
  by (simp add: sample_root_def sample_key_def key_ok_def path_part_ok_def)

end
