(* ===== verification/G9P_Effects.thy ===== *)
theory G9P_Effects
  imports G9P_Disk
begin

text \<open>
  Computations with state and errors. An \<open>async\<close> method of the services is a function from the
  state to the state it leaves and its result; what it changed before it threw stays changed. With
  the combinators come the rules that carry an invariant, and a relation between earlier and later
  states, through every branch of a method.
\<close>

type_synonym ('s, 'a) act = "'s \<Rightarrow> 's \<times> 'a res"

definition retS :: "'a \<Rightarrow> ('s, 'a) act" where
  "retS x = (\<lambda>s. (s, Inr x))"

definition failS :: "string \<Rightarrow> ('s, 'a) act" where
  "failS code = (\<lambda>s. (s, failWith code))"

definition liftS :: "'a res \<Rightarrow> ('s, 'a) act" where
  "liftS r = (\<lambda>s. (s, r))"

definition bindS :: "('s, 'a) act \<Rightarrow> ('a \<Rightarrow> ('s, 'b) act) \<Rightarrow> ('s, 'b) act" where
  "bindS m f = (\<lambda>s. case m s of (s', Inl e) \<Rightarrow> (s', Inl e) | (s', Inr x) \<Rightarrow> f x s')"

definition thenS :: "('s, 'a) act \<Rightarrow> ('s, 'b) act \<Rightarrow> ('s, 'b) act" where
  "thenS m k = bindS m (\<lambda>_. k)"

definition getS :: "('s \<Rightarrow> 'a) \<Rightarrow> ('s, 'a) act" where
  "getS f = (\<lambda>s. (s, Inr (f s)))"

definition modS :: "('s \<Rightarrow> 's) \<Rightarrow> ('s, unit) act" where
  "modS f = (\<lambda>s. (f s, Inr ()))"

definition checkS :: "bool \<Rightarrow> string \<Rightarrow> ('s, unit) act" where
  "checkS b code = liftS (invariant b code)"

definition whenS :: "bool \<Rightarrow> ('s, unit) act \<Rightarrow> ('s, unit) act" where
  "whenS b m = (if b then m else retS ())"

fun forS :: "'a list \<Rightarrow> ('a \<Rightarrow> ('s, unit) act) \<Rightarrow> ('s, unit) act" where
  "forS [] f = retS ()"
| "forS (x # xs) f = thenS (f x) (forS xs f)"

fun mapS :: "('a \<Rightarrow> ('s, 'b) act) \<Rightarrow> 'a list \<Rightarrow> ('s, 'b list) act" where
  "mapS f [] = retS []"
| "mapS f (x # xs) = bindS (f x) (\<lambda>y. bindS (mapS f xs) (\<lambda>ys. retS (y # ys)))"

fun foldS :: "('b \<Rightarrow> 'a \<Rightarrow> ('s, 'b) act) \<Rightarrow> 'b \<Rightarrow> 'a list \<Rightarrow> ('s, 'b) act" where
  "foldS f acc [] = retS acc"
| "foldS f acc (x # xs) = bindS (f acc x) (\<lambda>acc'. foldS f acc' xs)"

text \<open>\<open>catch (error) { throw new G9pError(code, ...) }\<close>.\<close>

definition recodeS :: "string \<Rightarrow> ('s, 'a) act \<Rightarrow> ('s, 'a) act" where
  "recodeS code m = (\<lambda>s. case m s of (s', Inl e) \<Rightarrow> (s', failWith code) | (s', Inr x) \<Rightarrow> (s', Inr x))"

lemma bindS_cong [fundef_cong]:
  "m = m' \<Longrightarrow> s = s' \<Longrightarrow> (\<And>x t. m' s' = (t, Inr x) \<Longrightarrow> f x t = g x t) \<Longrightarrow> bindS m f s = bindS m' g s'"
  by (auto simp: bindS_def split: prod.split sum.split)

lemma run_simps [simp]:
  "retS x s = (s, Inr x)" "failS code s = (s, failWith code)" "liftS r s = (s, r)"
  "getS f s = (s, Inr (f s))" "modS g s = (g s, Inr ())" "checkS b code s = (s, invariant b code)"
  by (simp_all add: retS_def failS_def liftS_def getS_def modS_def checkS_def)

lemma bindS_Inr: "bindS m f s = (t, Inr y) \<longleftrightarrow> (\<exists>u x. m s = (u, Inr x) \<and> f x u = (t, Inr y))"
  by (auto simp: bindS_def split: prod.splits sum.splits)

lemma thenS_Inr: "thenS m k s = (t, Inr y) \<longleftrightarrow> (\<exists>u x. m s = (u, Inr x) \<and> k u = (t, Inr y))"
  by (auto simp: thenS_def bindS_Inr)

section \<open>Triples\<close>

text \<open>From a state with \<open>P\<close>, the computation returns with \<open>Q\<close> or throws with \<open>E\<close>.\<close>

definition triple :: "('s \<Rightarrow> bool) \<Rightarrow> ('s, 'a) act \<Rightarrow> ('a \<Rightarrow> 's \<Rightarrow> bool) \<Rightarrow> ('s \<Rightarrow> bool) \<Rightarrow> bool" where
  "triple P m Q E \<longleftrightarrow> (\<forall>s t x. P s \<longrightarrow> m s = (t, Inr x) \<longrightarrow> Q x t) \<and> (\<forall>s t e. P s \<longrightarrow> m s = (t, Inl e) \<longrightarrow> E t)"

named_theorems triple_intro \<open>rules that follow the structure of a computation\<close>

lemma tripleI:
  assumes "\<And>s t x. P s \<Longrightarrow> m s = (t, Inr x) \<Longrightarrow> Q x t"
    and "\<And>s t e. P s \<Longrightarrow> m s = (t, Inl e) \<Longrightarrow> E t"
  shows "triple P m Q E"
  using assms unfolding triple_def by blast

lemma tripleD: "triple P m Q E \<Longrightarrow> P s \<Longrightarrow> m s = (t, Inr x) \<Longrightarrow> Q x t"
  unfolding triple_def by blast

lemma tripleE: "triple P m Q E \<Longrightarrow> P s \<Longrightarrow> m s = (t, Inl e) \<Longrightarrow> E t"
  unfolding triple_def by blast

lemma triple_weaken:
  assumes "triple P' m Q' E'" and "\<And>s. P s \<Longrightarrow> P' s" and "\<And>x s. Q' x s \<Longrightarrow> Q x s" and "\<And>s. E' s \<Longrightarrow> E s"
  shows "triple P m Q E"
  using assms unfolding triple_def by blast

lemma triple_pre: "triple P' m Q E \<Longrightarrow> (\<And>s. P s \<Longrightarrow> P' s) \<Longrightarrow> triple P m Q E"
  by (rule triple_weaken)

lemma triple_post: "triple P m Q' E \<Longrightarrow> (\<And>x s. Q' x s \<Longrightarrow> Q x s) \<Longrightarrow> triple P m Q E"
  by (rule triple_weaken)

lemma triple_bind [triple_intro]:
  assumes "triple P m R E" and "\<And>x. triple (R x) (f x) Q E"
  shows "triple P (bindS m f) Q E"
proof (rule tripleI)
  fix s t y
  assume s: "P s" and "bindS m f s = (t, Inr y)"
  then obtain u x where "m s = (u, Inr x)" "f x u = (t, Inr y)" by (auto simp: bindS_Inr)
  with s show "Q y t" using tripleD [OF assms(1)] tripleD [OF assms(2)] by blast
next
  fix s t e
  assume s: "P s" and "bindS m f s = (t, Inl e)"
  then consider "m s = (t, Inl e)" | u x where "m s = (u, Inr x)" "f x u = (t, Inl e)"
    by (auto simp: bindS_def split: prod.splits sum.splits)
  then show "E t"
  proof cases
    case 1
    with s show ?thesis by (rule tripleE [OF assms(1)])
  next
    case 2
    with s show ?thesis using tripleD [OF assms(1)] tripleE [OF assms(2)] by blast
  qed
qed

lemma triple_then [triple_intro]:
  "triple P m (\<lambda>_. R) E \<Longrightarrow> triple R k Q E \<Longrightarrow> triple P (thenS m k) Q E"
  unfolding thenS_def by (rule triple_bind)

lemma triple_ret: "(\<And>s. P s \<Longrightarrow> Q x s) \<Longrightarrow> triple P (retS x) Q E"
  by (simp add: triple_def)

lemma triple_fail: "(\<And>s. P s \<Longrightarrow> E s) \<Longrightarrow> triple P (failS code) Q E"
  by (simp add: triple_def failWith_def)

lemma triple_lift: "(\<And>s x. P s \<Longrightarrow> r = Inr x \<Longrightarrow> Q x s) \<Longrightarrow> (\<And>s. P s \<Longrightarrow> E s) \<Longrightarrow> triple P (liftS r) Q E"
  by (auto simp: triple_def split: sum.split)

lemma triple_get: "(\<And>s. P s \<Longrightarrow> Q (f s) s) \<Longrightarrow> triple P (getS f) Q E"
  by (simp add: triple_def)

lemma triple_mod: "(\<And>s. P s \<Longrightarrow> Q () (f s)) \<Longrightarrow> triple P (modS f) Q E"
  by (simp add: triple_def)

lemma triple_check: "(\<And>s. P s \<Longrightarrow> b \<Longrightarrow> Q () s) \<Longrightarrow> (\<And>s. P s \<Longrightarrow> E s) \<Longrightarrow> triple P (checkS b code) Q E"
  by (cases b) (auto simp: triple_def)

lemma triple_when:
  "(b \<Longrightarrow> triple P m Q E) \<Longrightarrow> (\<And>s. P s \<Longrightarrow> \<not> b \<Longrightarrow> Q () s) \<Longrightarrow> triple P (whenS b m) Q E"
  by (auto simp: whenS_def triple_def)

lemma triple_if: "(b \<Longrightarrow> triple P m Q E) \<Longrightarrow> (\<not> b \<Longrightarrow> triple P k Q E) \<Longrightarrow> triple P (if b then m else k) Q E"
  by simp

lemma triple_for:
  assumes "\<And>x. x \<in> set xs \<Longrightarrow> triple P (f x) (\<lambda>_. P) P"
  shows "triple P (forS xs f) (\<lambda>_. P) P"
  using assms
proof (induction xs)
  case (Cons x xs)
  then show ?case by (auto intro!: triple_then)
qed (simp add: triple_ret)

lemma triple_map:
  assumes "\<And>x. x \<in> set xs \<Longrightarrow> triple P (f x) (\<lambda>_. P) P"
  shows "triple P (mapS f xs) (\<lambda>_. P) P"
  using assms
proof (induction xs)
  case (Cons x xs)
  then show ?case by (auto intro!: triple_bind [where R = "\<lambda>_. P"] triple_ret)
qed (simp add: triple_ret)

lemma triple_recode: "triple P m Q E \<Longrightarrow> triple P (recodeS code m) Q E"
  unfolding triple_def recodeS_def failWith_def by (auto split: prod.splits sum.splits)

text \<open>A method that throws or returns with the invariant.\<close>

abbreviation keeps :: "('s \<Rightarrow> bool) \<Rightarrow> ('s, 'a) act \<Rightarrow> bool" where
  "keeps I m \<equiv> triple I m (\<lambda>_. I) I"

lemma keepsD: "keeps I m \<Longrightarrow> I s \<Longrightarrow> I (fst (m s))"
  by (cases "m s"; cases "snd (m s)") (auto dest: tripleD tripleE)

lemma keepsI: "(\<And>s. I s \<Longrightarrow> I (fst (m s))) \<Longrightarrow> keeps I m"
  by (rule tripleI) (metis fst_conv)+

named_theorems keeps_intro \<open>rules that carry an invariant through a method\<close>

lemma keeps_bind [keeps_intro]: "keeps I m \<Longrightarrow> (\<And>x. keeps I (f x)) \<Longrightarrow> keeps I (bindS m f)"
  by (rule triple_bind)

lemma keeps_then [keeps_intro]: "keeps I m \<Longrightarrow> keeps I k \<Longrightarrow> keeps I (thenS m k)"
  by (rule triple_then)

lemma keeps_pure [keeps_intro]:
  "keeps I (retS x)" "keeps I (failS code)" "keeps I (liftS r)" "keeps I (getS g)" "keeps I (checkS b code)"
  by (simp_all add: triple_ret triple_fail triple_lift triple_get triple_check)

lemma keeps_when [keeps_intro]: "keeps I m \<Longrightarrow> keeps I (whenS b m)"
  by (rule triple_when)

lemma keeps_if [keeps_intro]: "keeps I m \<Longrightarrow> keeps I k \<Longrightarrow> keeps I (if b then m else k)"
  by simp

lemma keeps_option [keeps_intro]:
  "keeps I m \<Longrightarrow> (\<And>x. keeps I (f x)) \<Longrightarrow> keeps I (case v of None \<Rightarrow> m | Some x \<Rightarrow> f x)"
  by (simp split: option.split)

lemma keeps_pair [keeps_intro]: "(\<And>x y. keeps I (f x y)) \<Longrightarrow> keeps I (case v of (x, y) \<Rightarrow> f x y)"
  by (simp split: prod.split)

lemma keeps_for [keeps_intro]: "(\<And>x. x \<in> set xs \<Longrightarrow> keeps I (f x)) \<Longrightarrow> keeps I (forS xs f)"
  by (rule triple_for)

lemma keeps_map [keeps_intro]: "(\<And>x. x \<in> set xs \<Longrightarrow> keeps I (f x)) \<Longrightarrow> keeps I (mapS f xs)"
  by (rule triple_map)

lemma keeps_fold [keeps_intro]: "(\<And>acc x. keeps I (f acc x)) \<Longrightarrow> keeps I (foldS f acc xs)"
  by (induction xs arbitrary: acc) (auto intro!: keeps_pure keeps_bind)

lemma keeps_mod: "(\<And>s. I s \<Longrightarrow> I (f s)) \<Longrightarrow> keeps I (modS f)"
  by (rule triple_mod)

text \<open>A value read from the state, with what is known of it at that point.\<close>

lemma triple_bind_get:
  "(\<And>x. triple (\<lambda>s. P s \<and> f s = x) (k x) Q E) \<Longrightarrow> triple P (bindS (getS f) k) Q E"
  by (rule triple_bind [where R = "\<lambda>x s. P s \<and> f s = x"]) (auto intro: triple_get)

lemma triple_then_mod: "(\<And>s. P s \<Longrightarrow> R (f s)) \<Longrightarrow> triple R k Q E \<Longrightarrow> triple P (thenS (modS f) k) Q E"
  by (rule triple_then [where R = R]) (auto intro: triple_mod)

lemma triple_keeps_then: "keeps P m \<Longrightarrow> triple P k Q P \<Longrightarrow> triple P (thenS m k) Q P"
  by (rule triple_then)

lemma triple_keeps_bind: "keeps P m \<Longrightarrow> (\<And>x. triple P (f x) Q P) \<Longrightarrow> triple P (bindS m f) Q P"
  by (rule triple_bind)

end
