(* ===== verification/G9P_Intake.thy ===== *)
theory G9P_Intake
  imports G9P_Effects G9P_Sealed_Storage G9P_Statement
begin

text \<open>
  Durable intake (services/ledger/src/durable-intake.js): accepted events, one file per event, kept
  until the event is sealed. The stores of the ledger service live in directories of their own;
  each has a file system, and the faults that its calls will meet, and the clock, are part of the
  state.
\<close>

section \<open>The stores of the service\<close>

record stores =
  intake_disk :: disk
  intake_sequence :: nat
  state_disk :: disk
  sealed_disk :: disk
  faults :: "fault list"
  clock :: jsstr

type_synonym ('z, 'a) io = "('z stores_scheme, 'a) act"

text \<open>The fault that the next operation on a store meets, if any.\<close>

definition next_fault :: "('z, fault) io" where
  "next_fault = (\<lambda>s. case faults s of
       [] \<Rightarrow> (s, Inr None)
     | f # fs \<Rightarrow> (s\<lparr>faults := fs\<rparr>, Inr f))"

definition intake_ops :: "disk_op list \<Rightarrow> ('z, bool) io" where
  "intake_ops ops = bindS next_fault (\<lambda>f s.
     case run_ops ops f (intake_disk s) of (d, finished) \<Rightarrow> (s\<lparr>intake_disk := d\<rparr>, Inr finished))"

text \<open>\<open>mkdir(directory, { recursive: true })\<close>: a directory that is there needs no call.\<close>

definition ensure_directory ::
  "('z stores_scheme \<Rightarrow> disk) \<Rightarrow> (disk_op list \<Rightarrow> ('z, bool) io) \<Rightarrow> jsstr \<Rightarrow> ('z, unit) io" where
  "ensure_directory disk_of run directory =
     bindS (getS (\<lambda>s. make_directories (disk_of s) directory)) (\<lambda>ops.
     if ops = [] then retS ()
     else bindS (run ops) (\<lambda>finished. if finished then retS () else liftS (Inl (PlainError ''EIO''))))"

text \<open>The files of a directory, by their names.\<close>

definition dir_files :: "disk \<Rightarrow> jsstr \<Rightarrow> jsstr list" where
  "dir_files d dir = filter (\<lambda>name. 47 \<notin> set name) (walk_files d dir)"

section \<open>Records\<close>

definition MAX_SEQUENCE :: nat where
  "MAX_SEQUENCE = 999999999999"

definition MAX_INTAKE_BYTES :: nat where
  "MAX_INTAKE_BYTES = 67108864"

record pending =
  pe_sequence :: nat
  pe_acceptedAt :: jsstr
  pe_recordHash :: jsstr
  pe_event :: jsval
  pe_path :: jsstr
  pe_eventBytes :: nat

definition event_id :: "jsval \<Rightarrow> jsstr" where
  "event_id event = text_prop event ''eventId''"

definition event_ledger :: "jsval \<Rightarrow> jsstr" where
  "event_ledger event = text_prop event ''ledgerId''"

definition is_intake_file :: "jsstr \<Rightarrow> bool" where
  "is_intake_file name \<longleftrightarrow> length name = 91 \<and> take 7 name = js ''intake-''
     \<and> list_all is_digit (take 12 (drop 7 name)) \<and> name ! 19 = 45
     \<and> is_hex64 (take 64 (drop 20 name)) \<and> drop 84 name = js ''.intake''"

definition intake_name :: "nat \<Rightarrow> jsstr \<Rightarrow> jsstr res" where
  "intake_name sequence recordHash =
     andThen (invariant (sequence \<le> MAX_SEQUENCE) ''INTAKE_SEQUENCE'')
     (Inr (js ''intake-'' @ padded 12 sequence @ [45] @ recordHash @ js ''.intake''))"

definition intake_value :: "nat \<Rightarrow> jsstr \<Rightarrow> byte list \<Rightarrow> jsval \<Rightarrow> jsval" where
  "intake_value sequence acceptedAt recordHash event = obj
     [(''kind'', JStr (js ''g9p-durable-intake'')),
      (''version'', JInt 1),
      (''sequence'', JInt (int sequence)),
      (''acceptedAt'', JStr acceptedAt),
      (''recordHash'', JBytes recordHash),
      (''event'', event)]"

definition decode_record :: "platform \<Rightarrow> byte list \<Rightarrow> jsstr \<Rightarrow> pending res" where
  "decode_record X bytes expectedName =
     bindR (case decode_canonical (DEFAULT_LIMITS\<lparr>maxBytes := 67108864\<rparr>) bytes of
              Inl e \<Rightarrow> failWith ''INTAKE_DECODE'' | Inr v \<Rightarrow> Inr v) (\<lambda>record.
     let event = get_prop record ''event''; sequence = nat (int_of (get_prop record ''sequence''));
         recordHash = to_hex (bytes_of (get_prop record ''recordHash'')) in
     andThen (checks
       [invariant (is_object record \<and> exact_keys record
          [''kind'', ''version'', ''sequence'', ''acceptedAt'', ''recordHash'', ''event'']) ''INTAKE_FIELDS'',
        invariant (is_js ''g9p-durable-intake'' (get_prop record ''kind'') \<and> get_prop record ''version'' = JInt 1)
          ''INTAKE_VERSION'',
        invariant (int_in 0 (int MAX_SEQUENCE) (get_prop record ''sequence'')) ''INTAKE_SEQUENCE'',
        invariant (timestamp_text (get_prop record ''acceptedAt'')) ''INTAKE_TIMESTAMP'',
        invariant (is_bytes 32 (get_prop record ''recordHash'')) ''INTAKE_HASH'',
        validate_event X event])
     (bindR (event_hash_of_event X event) (\<lambda>hash.
      andThen (invariant (to_hex hash = recordHash) ''INTAKE_HASH'')
      (bindR (intake_name sequence recordHash) (\<lambda>name.
       andThen (invariant (name = expectedName) ''INTAKE_FILE'')
       (Inr \<lparr>pe_sequence = sequence, pe_acceptedAt = text_prop record ''acceptedAt'', pe_recordHash = recordHash,
          pe_event = event, pe_path = [], pe_eventBytes = 0\<rparr>))))))"

definition read_record :: "platform \<Rightarrow> disk \<Rightarrow> jsstr \<Rightarrow> jsstr \<Rightarrow> pending res" where
  "read_record X d path expectedName =
     (case read_file d path of
        None \<Rightarrow> Inl (PlainError ''ENOENT'')
      | Some bytes \<Rightarrow>
          andThen (invariant (length bytes \<le> MAX_INTAKE_BYTES) ''INTAKE_LIMIT'') (decode_record X bytes expectedName))"

section \<open>Operations\<close>

text \<open>
  The write of an intake record: the same promotion as for a sealed object, but it counts as done
  once the record is under its name and the directory has been synchronised; what happens to the
  provisional name afterwards does not matter.
\<close>

definition retain :: "jsstr \<Rightarrow> byte list \<Rightarrow> fault \<Rightarrow> disk \<Rightarrow> disk \<times> bool" where
  "retain path payload fault d =
     (let ops = promotion path payload;
          early = (case fault of None \<Rightarrow> None | Some (n, written) \<Rightarrow> if n < 5 then fault else None) in
      (fst (run_ops ops fault d), snd (run_ops (take 5 ops) early d)))"

definition append_intake :: "platform \<Rightarrow> jsstr \<Rightarrow> jsval \<Rightarrow> ('z, pending) io" where
  "append_intake X directory event =
     thenS (liftS (validate_event X event))
     (bindS (getS clock) (\<lambda>acceptedAt.
      thenS (checkS (is_canonical_timestamp acceptedAt) ''INTAKE_TIMESTAMP'')
      (bindS (getS intake_sequence) (\<lambda>sequence.
       bindS (liftS (event_hash_of_event X event)) (\<lambda>hash.
       bindS (liftS (intake_name sequence (to_hex hash))) (\<lambda>name.
       bindS (liftS (encode_canonical DEFAULT_LIMITS (intake_value sequence acceptedAt hash event))) (\<lambda>payload.
       thenS (checkS (length payload \<le> MAX_INTAKE_BYTES) ''INTAKE_LIMIT'')
       (bindS next_fault (\<lambda>f s.
          case retain (storage_path directory name) payload f (intake_disk s) of
            (d, False) \<Rightarrow> (s\<lparr>intake_disk := d\<rparr>, failWith ''INTAKE_WRITE'')
          | (d, True) \<Rightarrow>
              (s\<lparr>intake_disk := d, intake_sequence := intake_sequence s + 1\<rparr>,
               Inr \<lparr>pe_sequence = sequence, pe_acceptedAt = acceptedAt, pe_recordHash = to_hex hash,
                 pe_event = event, pe_path = storage_path directory name, pe_eventBytes = 0\<rparr>))))))))))"

text \<open>A record that is gone already needs no removal; the directory is then not synchronised.\<close>

definition remove_intake :: "jsstr \<Rightarrow> pending \<Rightarrow> ('z, unit) io" where
  "remove_intake directory record =
     bindS next_fault (\<lambda>f s.
       if jm_has (names (intake_disk s)) (pe_path record) \<or> (\<exists>written. f = Some (0, written)) then
         (case run_ops [Unlink_File (pe_path record), Sync_Directory directory] f (intake_disk s) of
            (d, finished) \<Rightarrow> (s\<lparr>intake_disk := d\<rparr>, if finished then Inr () else failWith ''INTAKE_REMOVE''))
       else (s, Inr ()))"

text \<open>What happens to a provisional record found at startup: dropped when the record itself is
  there or the provisional one is not whole, promoted otherwise.\<close>

definition recover_ops :: "platform \<Rightarrow> jsstr \<Rightarrow> disk \<Rightarrow> jsstr \<Rightarrow> disk_op list" where
  "recover_ops X directory d finalName =
     (let finalPath = storage_path directory finalName; partPath = part_path finalPath in
      if jm_has (names d) finalPath \<or> (case read_record X d partPath finalName of Inl e \<Rightarrow> True | Inr r \<Rightarrow> False)
      then [Unlink_File partPath, Sync_Directory directory]
      else [Link_File partPath finalPath, Sync_Directory directory, Unlink_File partPath, Sync_Directory directory])"

definition recover_part :: "platform \<Rightarrow> jsstr \<Rightarrow> jsstr \<Rightarrow> ('z, unit) io" where
  "recover_part X directory name =
     (if \<not> ends_with ''.intake.part'' name then retS ()
      else
        let finalName = take (length name - 5) name in
        thenS (checkS (is_intake_file finalName) ''INTAKE_FILE'')
        (bindS (getS (\<lambda>s. recover_ops X directory (intake_disk s) finalName)) (\<lambda>ops.
         bindS (intake_ops ops) (\<lambda>finished.
         if finished then retS () else liftS (Inl (PlainError ''EIO''))))))"

definition load_record :: "platform \<Rightarrow> jsstr \<Rightarrow> jsstr \<Rightarrow> ('z, pending) io" where
  "load_record X directory name =
     thenS (checkS (is_intake_file name) ''INTAKE_FILE'')
     (bindS (getS intake_disk) (\<lambda>d.
      bindS (liftS (read_record X d (storage_path directory name) name)) (\<lambda>record.
      thenS (modS (\<lambda>s. s\<lparr>intake_sequence := max (intake_sequence s) (pe_sequence record + 1)\<rparr>))
      (retS (record\<lparr>pe_path := storage_path directory name\<rparr>)))))"

text \<open>The entries are read in the order of \<open>localeCompare\<close>, which on names of the one form allowed
  here is the order of their code units.\<close>

definition initialize_intake :: "platform \<Rightarrow> jsstr \<Rightarrow> ('z, pending list) io" where
  "initialize_intake X directory =
     thenS (ensure_directory intake_disk intake_ops directory)
     (bindS (getS (\<lambda>s. dir_files (intake_disk s) directory)) (\<lambda>entries.
      thenS (forS entries (recover_part X directory))
      (bindS (getS (\<lambda>s. sort (dir_files (intake_disk s) directory))) (\<lambda>entries'.
       mapS (load_record X directory) entries'))))"

end
