(* ===== verification/G9P_Active_Store.thy ===== *)
theory G9P_Active_Store
  imports G9P_Intake G9P_Routing_Epoch
begin

text \<open>
  The provisional state of active segments (services/ledger/src/active-segment-store.js): one file
  per segment that is being filled, replaced by renaming whenever a block is completed.
\<close>

section \<open>States\<close>

definition MAX_ACTIVE_STATE_BYTES :: nat where
  "MAX_ACTIVE_STATE_BYTES = 134217728"

record record_reference =
  rr_eventId :: jsstr
  rr_recordHash :: jsstr

record stored_block =
  sb_records :: "record_reference list"
  sb_uncompressedLength :: nat
  sb_recordsHash :: "byte list"
  sb_data :: "byte list"

record active_state =
  as_ledgerDirectory :: jsstr
  as_ledgerId :: jsstr
  as_epochNumber :: nat
  as_shardId :: jsstr
  as_segmentNumber :: nat
  as_formatVersion :: nat
  as_openedAt :: jsstr
  as_previousSegmentHash :: "byte list option"
  as_blocks :: "stored_block list"

definition reference_value :: "record_reference \<Rightarrow> jsval" where
  "reference_value r = obj [(''eventId'', JStr (rr_eventId r)), (''recordHash'', JStr (rr_recordHash r))]"

definition stored_block_value :: "nat \<times> stored_block \<Rightarrow> jsval" where
  "stored_block_value = (\<lambda>(i, b). obj
     [(''blockIndex'', JInt (int i)),
      (''records'', JArr (map reference_value (sb_records b))),
      (''uncompressedLength'', JInt (int (sb_uncompressedLength b))),
      (''recordsHash'', JBytes (sb_recordsHash b)),
      (''data'', JBytes (sb_data b))])"

definition active_state_value :: "active_state \<Rightarrow> jsval" where
  "active_state_value a = obj
     [(''kind'', JStr (js ''g9p-active-segment'')),
      (''version'', JInt 1),
      (''ledgerDirectory'', JStr (as_ledgerDirectory a)),
      (''ledgerId'', JStr (as_ledgerId a)),
      (''epochNumber'', JInt (int (as_epochNumber a))),
      (''shardId'', JStr (as_shardId a)),
      (''segmentNumber'', JInt (int (as_segmentNumber a))),
      (''formatVersion'', JInt (int (as_formatVersion a))),
      (''openedAt'', JStr (as_openedAt a)),
      (''previousSegmentHash'', hash_or_null (as_previousSegmentHash a)),
      (''blocks'', JArr (map stored_block_value (enumerate 0 (as_blocks a))))]"

definition state_file_name :: "active_state \<Rightarrow> jsstr" where
  "state_file_name a = js ''active-'' @ as_ledgerDirectory a @ [45] @ padded 12 (as_epochNumber a) @ [45]
     @ as_shardId a @ [45] @ padded 12 (as_segmentNumber a) @ js ''.state''"

definition is_state_file :: "jsstr \<Rightarrow> bool" where
  "is_state_file name \<longleftrightarrow> length name = 114 \<and> take 7 name = js ''active-'' \<and> is_hex64 (take 64 (drop 7 name))
     \<and> name ! 71 = 45 \<and> list_all is_digit (take 12 (drop 72 name)) \<and> name ! 84 = 45
     \<and> is_shard_id (take 10 (drop 85 name)) \<and> name ! 95 = 45
     \<and> list_all is_digit (take 12 (drop 96 name)) \<and> drop 108 name = js ''.state''"

section \<open>Validation\<close>

definition state_fields :: "jsval \<Rightarrow> string list \<Rightarrow> unit res" where
  "state_fields v fieldNames = invariant (is_object v \<and> exact_keys v fieldNames) ''ACTIVE_STATE_FIELDS''"

definition check_reference :: "jsval \<Rightarrow> unit res" where
  "check_reference r = checks
     [state_fields r [''eventId'', ''recordHash''],
      invariant (non_empty_string (get_prop r ''eventId'') \<and> hash_text (get_prop r ''recordHash'')) ''ACTIVE_STATE_RECORD'']"

definition check_stored_block :: "nat \<times> jsval \<Rightarrow> unit res" where
  "check_stored_block = (\<lambda>(i, b). checks
     ([state_fields b [''blockIndex'', ''records'', ''uncompressedLength'', ''recordsHash'', ''data''],
       invariant (get_prop b ''blockIndex'' = JInt (int i) \<and> is_array (get_prop b ''records'')
         \<and> array_items (get_prop b ''records'') \<noteq> []) ''ACTIVE_STATE_BLOCKS'',
       invariant (positive_safe_integer (get_prop b ''uncompressedLength'') \<and> is_bytes 32 (get_prop b ''recordsHash'')
         \<and> non_empty_bytes (get_prop b ''data'')) ''ACTIVE_STATE_BLOCKS'']
      @ map check_reference (array_items (get_prop b ''records''))))"

definition reference_of :: "jsval \<Rightarrow> record_reference" where
  "reference_of r = \<lparr>rr_eventId = text_prop r ''eventId'', rr_recordHash = text_prop r ''recordHash''\<rparr>"

definition stored_block_of :: "jsval \<Rightarrow> stored_block" where
  "stored_block_of b = \<lparr>sb_records = map reference_of (array_items (get_prop b ''records'')),
     sb_uncompressedLength = nat (int_of (get_prop b ''uncompressedLength'')),
     sb_recordsHash = bytes_of (get_prop b ''recordsHash''), sb_data = bytes_of (get_prop b ''data'')\<rparr>"

definition active_state_of :: "jsval \<Rightarrow> active_state" where
  "active_state_of v = \<lparr>as_ledgerDirectory = text_prop v ''ledgerDirectory'', as_ledgerId = text_prop v ''ledgerId'',
     as_epochNumber = nat (int_of (get_prop v ''epochNumber'')), as_shardId = text_prop v ''shardId'',
     as_segmentNumber = nat (int_of (get_prop v ''segmentNumber'')),
     as_formatVersion = nat (int_of (get_prop v ''formatVersion'')), as_openedAt = text_prop v ''openedAt'',
     as_previousSegmentHash = optional_bytes (get_prop v ''previousSegmentHash''),
     as_blocks = map stored_block_of (array_items (get_prop v ''blocks''))\<rparr>"

definition validate_state :: "jsval \<Rightarrow> jsstr \<Rightarrow> active_state res" where
  "validate_state v expectedName =
     andThen (checks
       ([state_fields v [''kind'', ''version'', ''ledgerDirectory'', ''ledgerId'', ''epochNumber'', ''shardId'',
           ''segmentNumber'', ''formatVersion'', ''openedAt'', ''previousSegmentHash'', ''blocks''],
         invariant (is_js ''g9p-active-segment'' (get_prop v ''kind'') \<and> get_prop v ''version'' = JInt 1)
           ''ACTIVE_STATE_VERSION'',
         invariant (hash_text (get_prop v ''ledgerDirectory'')) ''ACTIVE_STATE_LEDGER'',
         invariant (non_empty_string (get_prop v ''ledgerId'')) ''ACTIVE_STATE_LEDGER'',
         invariant (int_in 0 MAX_SAFE (get_prop v ''epochNumber'') \<and> int_in 0 MAX_SAFE (get_prop v ''segmentNumber'')
           \<and> (get_prop v ''formatVersion'' = JInt 1 \<or> get_prop v ''formatVersion'' = JInt 2)) ''ACTIVE_STATE_POSITION'',
         invariant (shard_id_text (get_prop v ''shardId'')) ''ACTIVE_STATE_SHARD'',
         invariant (timestamp_text (get_prop v ''openedAt'')) ''ACTIVE_STATE_TIMESTAMP'',
         invariant (get_prop v ''previousSegmentHash'' = JNull \<or> is_bytes 32 (get_prop v ''previousSegmentHash''))
           ''ACTIVE_STATE_PREVIOUS'',
         invariant (is_array (get_prop v ''blocks'') \<and> array_items (get_prop v ''blocks'') \<noteq> []) ''ACTIVE_STATE_BLOCKS'']
        @ map check_stored_block (enumerate 0 (array_items (get_prop v ''blocks'')))
        @ [invariant (state_file_name (active_state_of v) = expectedName) ''ACTIVE_STATE_FILE'']))
     (Inr (active_state_of v))"

definition read_state :: "disk \<Rightarrow> jsstr \<Rightarrow> jsstr \<Rightarrow> active_state res" where
  "read_state d path expectedName =
     (case read_file d path of
        None \<Rightarrow> Inl (PlainError ''ENOENT'')
      | Some bytes \<Rightarrow>
          andThen (invariant (length bytes \<le> MAX_ACTIVE_STATE_BYTES) ''ACTIVE_STATE_LIMIT'')
          (bindR (case decode_canonical (DEFAULT_LIMITS\<lparr>maxBytes := MAX_ACTIVE_STATE_BYTES\<rparr>) bytes of
                    Inl e \<Rightarrow> failWith ''ACTIVE_STATE_DECODE'' | Inr v \<Rightarrow> Inr v) (\<lambda>v.
           validate_state v expectedName)))"

section \<open>Operations\<close>

definition state_ops :: "disk_op list \<Rightarrow> ('z, bool) io" where
  "state_ops ops = bindS next_fault (\<lambda>f s.
     case run_ops ops f (state_disk s) of (d, finished) \<Rightarrow> (s\<lparr>state_disk := d\<rparr>, Inr finished))"

definition new_path :: "jsstr \<Rightarrow> jsstr" where
  "new_path path = path @ js ''.new''"

text \<open>An operation of the file system that must succeed; its error is passed on as it is.\<close>

definition must :: "('z, bool) io \<Rightarrow> js_error \<Rightarrow> ('z, unit) io" where
  "must m e = bindS m (\<lambda>finished. if finished then retS () else liftS (Inl e))"

definition persist_ops :: "jsstr \<Rightarrow> jsstr \<Rightarrow> byte list \<Rightarrow> disk_op list" where
  "persist_ops directory path payload =
     [Open_Exclusive (new_path path), Write_File (new_path path) payload, Sync_File (new_path path),
      Rename_File (new_path path) path, Sync_Directory directory]"

definition persist_state :: "jsstr \<Rightarrow> active_state \<Rightarrow> ('z, jsstr) io" where
  "persist_state directory a =
     (let name = state_file_name a; path = storage_path directory name in
      bindS (liftS (validate_state (active_state_value a) name)) (\<lambda>_.
      bindS (liftS (encode_canonical DEFAULT_LIMITS (active_state_value a))) (\<lambda>payload.
      thenS (checkS (length payload \<le> MAX_ACTIVE_STATE_BYTES) ''ACTIVE_STATE_LIMIT'')
      (bindS (getS (\<lambda>s. jm_has (names (state_disk s)) (new_path path))) (\<lambda>stale.
       thenS (must (state_ops (if stale then [Unlink_File (new_path path)] else [])) (PlainError ''EIO''))
       (thenS (must (state_ops (persist_ops directory path payload)) (G9p ''ACTIVE_STATE_WRITE''))
       (retS path)))))))"

text \<open>\<open>remove\<close> of the state kept at \<open>path\<close>; \<open>ENOENT\<close> is no error.\<close>

definition remove_state :: "jsstr \<Rightarrow> jsstr \<Rightarrow> ('z, unit) io" where
  "remove_state directory path =
     bindS next_fault (\<lambda>f s.
       if jm_has (names (state_disk s)) path \<or> (\<exists>written. f = Some (0, written)) then
         (case run_ops [Unlink_File path, Sync_Directory directory] f (state_disk s) of
            (d, finished) \<Rightarrow> (s\<lparr>state_disk := d\<rparr>, if finished then Inr () else failWith ''ACTIVE_STATE_REMOVE''))
       else (s, Inr ()))"

definition recover_new_state :: "jsstr \<Rightarrow> jsstr \<Rightarrow> ('z, unit) io" where
  "recover_new_state directory name =
     (if \<not> ends_with ''.state.new'' name then retS ()
      else
        let finalName = take (length name - 4) name; newPath = storage_path directory name;
            finalPath = storage_path directory finalName in
        thenS (checkS (is_state_file finalName) ''ACTIVE_STATE_FILE'')
        (bindS (getS state_disk) (\<lambda>d.
         if jm_has (names d) finalPath
         then must (state_ops [Unlink_File newPath, Sync_Directory directory]) (PlainError ''EIO'')
         else
           bindS (liftS (read_state d newPath finalName)) (\<lambda>_.
           must (state_ops [Rename_File newPath finalPath, Sync_Directory directory]) (PlainError ''EIO'')))))"

definition load_state :: "jsstr \<Rightarrow> jsstr \<Rightarrow> ('z, active_state \<times> jsstr) io" where
  "load_state directory name =
     thenS (checkS (is_state_file name) ''ACTIVE_STATE_FILE'')
     (bindS (getS state_disk) (\<lambda>d.
      bindS (liftS (read_state d (storage_path directory name) name)) (\<lambda>a.
      retS (a, storage_path directory name))))"

definition initialize_states :: "jsstr \<Rightarrow> ('z, (active_state \<times> jsstr) list) io" where
  "initialize_states directory =
     thenS (ensure_directory state_disk state_ops directory)
     (bindS (getS (\<lambda>s. dir_files (state_disk s) directory)) (\<lambda>entries.
      thenS (forS entries (recover_new_state directory))
      (bindS (getS (\<lambda>s. sort (dir_files (state_disk s) directory))) (\<lambda>entries'.
       mapS (load_state directory) entries'))))"

section \<open>A torn first state\<close>

text \<open>
  C36: When the provisional state of a segment was being written for the first time and the file is
  not whole (no state under its name, undecodable content under the provisional one, and no other file
  in the directory), startup fails
  with ACTIVE_STATE_DECODE and changes nothing, so that every later startup fails in the same way.
\<close>

theorem torn_active_state_blocks_startup:
  assumes "is_folder (state_disk s) directory"
    and "dir_files (state_disk s) directory = [finalName @ js ''.new'']" and "is_state_file finalName"
    and "jm_get (names (state_disk s)) (storage_path directory finalName) = None"
    and "read_file (state_disk s) (storage_path directory (finalName @ js ''.new'')) = Some bytes"
    and "length bytes \<le> MAX_ACTIVE_STATE_BYTES"
    and "decode_canonical (DEFAULT_LIMITS\<lparr>maxBytes := MAX_ACTIVE_STATE_BYTES\<rparr>) bytes = Inl e"
  shows "initialize_states directory s = (s, failWith ''ACTIVE_STATE_DECODE'')"
proof -
  have "drop 108 finalName = js ''.state''" using assms(3) by (simp add: is_state_file_def del: js_Cons)
  then have "finalName @ js ''.new'' = take 108 finalName @ js ''.state'' @ js ''.new''"
    using append_take_drop_id [of 108 finalName] by (metis append.assoc)
  then have new: "ends_with ''.state.new'' (finalName @ js ''.new'')"
    unfolding ends_with_iff by (auto simp: js_append [symmetric])
  show ?thesis
    using new assms
    by (simp add: initialize_states_def ensure_directory_def make_directories.simps [of _ directory] bindS_def thenS_def
        recover_new_state_def read_state_def failWith_def Let_def del: js_Cons)
qed

definition sample_state_name :: jsstr where
  "sample_state_name = js ''active-'' @ js (replicate 64 (CHR ''a'')) @ js ''-000000000000-shard-0000-000000000000.state''"

text \<open>The disk after a first write of the state that stopped before any byte arrived.\<close>

definition torn_disk :: disk where
  "torn_disk = fst (run_ops (persist_ops (js ''/p'') (storage_path (js ''/p'') sample_state_name) [1]) (Some (1, []))
     \<lparr>names = [], contents = (\<lambda>i. []), durable_names = (\<lambda>p. None), durable_contents = (\<lambda>i. None), next_inode = 0,
       folders = {js ''/p''}, durable_folders = {}\<rparr>)"

lemma torn_disk_names: "names torn_disk = [(storage_path (js ''/p'') (sample_state_name @ js ''.new''), 0)]"
  "contents torn_disk 0 = []" "is_folder torn_disk (js ''/p'')"
proof -
  have "47 \<notin> set (sample_state_name @ js ''.new'')" by code_simp
  then have "dirname (js ''/p'' @ 47 # sample_state_name @ js ''.new'') = js ''/p''" by (rule dirname_below)
  then show "names torn_disk = [(storage_path (js ''/p'') (sample_state_name @ js ''.new''), 0)]"
    "contents torn_disk 0 = []" "is_folder torn_disk (js ''/p'')"
    by (simp_all add: torn_disk_def persist_ops_def new_path_def storage_path_def jm_set_def jm_get_def is_folder_def)
qed

definition torn_stores :: stores where
  "torn_stores = \<lparr>intake_disk = torn_disk, intake_sequence = 0, state_disk = torn_disk, sealed_disk = torn_disk,
     faults = [], clock = []\<rparr>"

theorem torn_active_state_blocks_startup_witness:
  "initialize_states (js ''/p'') torn_stores = (torn_stores, failWith ''ACTIVE_STATE_DECODE'')"
proof (rule torn_active_state_blocks_startup)
  have state: "state_disk torn_stores = torn_disk" by (simp add: torn_stores_def)
  show "is_folder (state_disk torn_stores) (js ''/p'')" unfolding state by (rule torn_disk_names)
  show "is_state_file sample_state_name" by code_simp
  have "47 \<notin> set (sample_state_name @ js ''.new'')" by code_simp
  then show "dir_files (state_disk torn_stores) (js ''/p'') = [sample_state_name @ js ''.new'']"
    by (simp add: state dir_files_def walk_files_def torn_disk_names storage_path_def)
  show "jm_get (names (state_disk torn_stores)) (storage_path (js ''/p'') sample_state_name) = None"
    by (simp add: state torn_disk_names storage_path_def jm_get_def)
  show "read_file (state_disk torn_stores) (storage_path (js ''/p'') (sample_state_name @ js ''.new'')) = Some []"
    by (simp add: state torn_disk_names read_file_def jm_get_def)
  show "decode_canonical (DEFAULT_LIMITS\<lparr>maxBytes := MAX_ACTIVE_STATE_BYTES\<rparr>) [] = Inl (G9p ''DECODE_TRUNCATED'')"
    by (simp add: decode_canonical_def decode_value.simps [of _ 0 "[]"] read_byte_def failWith_def DEFAULT_LIMITS_def)
qed simp

end
