(* ===== verification/G9P_Ledger_State.thy ===== *)
theory G9P_Ledger_State
  imports G9P_Active_Store G9P_Signer_Trust G9P_Sealed_Objects
begin

text \<open>
  The state of the local ledger (services/ledger/src/local-ledger.js): its configuration, its
  indexes, and the names under which it keeps things.
\<close>

section \<open>Lifecycle limits\<close>

record lifecycle =
  blockMaxBytes :: nat
  blockMaxRecords :: nat
  segmentMaxBytes :: nat
  segmentMaxRecords :: nat
  segmentMaxAgeMs :: nat
  maxAcceptedEvents :: nat
  maxAcceptedBytes :: nat
  maxActiveBlockBytes :: nat

definition DEFAULT_LIFECYCLE :: lifecycle where
  "DEFAULT_LIFECYCLE = \<lparr>blockMaxBytes = 1048576, blockMaxRecords = 1000, segmentMaxBytes = 33554432,
     segmentMaxRecords = 10000, segmentMaxAgeMs = 30000, maxAcceptedEvents = 100000,
     maxAcceptedBytes = 1073741824, maxActiveBlockBytes = 16777216\<rparr>"

definition positive_integer :: "jsval \<Rightarrow> nat res" where
  "positive_integer v =
     andThen (invariant (positive_safe_integer v) ''LEDGER_LIFECYCLE_CONFIG'') (Inr (nat (int_of v)))"

text \<open>\<open>options[name] ?? fallback\<close>.\<close>

definition option_or :: "jsval \<Rightarrow> string \<Rightarrow> nat \<Rightarrow> jsval" where
  "option_or options name fallback =
     (let v = get_prop options name in if v = JUndef \<or> v = JNull then JInt (int fallback) else v)"

definition lifecycle_config :: "jsval \<Rightarrow> lifecycle res" where
  "lifecycle_config options =
     (let limit = (\<lambda>name field. positive_integer (option_or options name (field DEFAULT_LIFECYCLE))) in
      bindR (limit ''blockMaxBytes'' blockMaxBytes) (\<lambda>bytes.
      bindR (limit ''blockMaxRecords'' blockMaxRecords) (\<lambda>recs.
      bindR (limit ''segmentMaxBytes'' segmentMaxBytes) (\<lambda>segmentBytes.
      bindR (limit ''segmentMaxRecords'' segmentMaxRecords) (\<lambda>segmentRecords.
      bindR (limit ''segmentMaxAgeMs'' segmentMaxAgeMs) (\<lambda>age.
      bindR (limit ''maxAcceptedEvents'' maxAcceptedEvents) (\<lambda>acceptedEvents.
      bindR (limit ''maxAcceptedBytes'' maxAcceptedBytes) (\<lambda>acceptedBytes.
      bindR (limit ''maxActiveBlockBytes'' maxActiveBlockBytes) (\<lambda>activeBytes.
      andThen (checks
        [invariant (1024 \<le> bytes) ''LEDGER_LIFECYCLE_CONFIG'',
         invariant (bytes \<le> 67108864 \<and> segmentBytes \<le> 67108864 \<and> segmentRecords \<le> 100000) ''LEDGER_LIFECYCLE_CONFIG'',
         invariant (bytes \<le> segmentBytes \<and> recs \<le> segmentRecords) ''LEDGER_LIFECYCLE_CONFIG'',
         invariant (bytes \<le> activeBytes) ''LEDGER_LIFECYCLE_CONFIG''])
      (Inr \<lparr>blockMaxBytes = bytes, blockMaxRecords = recs, segmentMaxBytes = segmentBytes,
         segmentMaxRecords = segmentRecords, segmentMaxAgeMs = age, maxAcceptedEvents = acceptedEvents,
         maxAcceptedBytes = acceptedBytes, maxActiveBlockBytes = activeBytes\<rparr>))))))))))"

section \<open>Configuration and names\<close>

record ledger_config =
  dataDirectory :: jsstr
  segmentSigner :: signer
  topologyAuthority :: signer
  checkpointPublisher :: signer
  segmentTrustBundle :: "trust_bundle option"
  defaultShardCount :: nat
  adoptLegacyRoutingHistory :: bool
  limits_of :: lifecycle

definition intakeDirectory :: "ledger_config \<Rightarrow> jsstr" where
  "intakeDirectory cfg = storage_path (dataDirectory cfg) (js ''intake'')"

definition activeStateDirectory :: "ledger_config \<Rightarrow> jsstr" where
  "activeStateDirectory cfg = storage_path (dataDirectory cfg) (js ''provisional'')"

definition segmentTrustedKeyIds :: "ledger_config \<Rightarrow> jsstr list" where
  "segmentTrustedKeyIds cfg = (case segmentTrustBundle cfg of
       None \<Rightarrow> [keyId (segmentSigner cfg)]
     | Some trust \<Rightarrow> map tb_keyId (tu_bindings trust))"

definition default_policy :: "ledger_config \<Rightarrow> jsval" where
  "default_policy cfg = routing_policy (defaultShardCount cfg)"

text \<open>The checks of the constructor; the custody of the signers is their own.\<close>

definition check_ledger_config :: "ledger_config \<Rightarrow> unit res" where
  "check_ledger_config cfg = checks
     [invariant (algorithm (topologyAuthority cfg) = js ''ed25519'' \<and> can_sign (topologyAuthority cfg))
        ''LEDGER_TOPOLOGY_AUTHORITY'',
      invariant (algorithm (checkpointPublisher cfg) = js ''ed25519'' \<and> can_sign (checkpointPublisher cfg))
        ''LEDGER_CHECKPOINT_PUBLISHER'',
      bindR (create_routing_policy (defaultShardCount cfg)) (\<lambda>_. Inr ())]"

definition ledger_directory :: "platform \<Rightarrow> jsstr \<Rightarrow> jsstr" where
  "ledger_directory X ledgerId = to_hex (domain_digest X ''ledger-directory-v1'' [utf8 ledgerId])"

definition state_key :: "jsstr \<Rightarrow> nat \<Rightarrow> jsstr \<Rightarrow> jsstr" where
  "state_key ledgerId epoch shard = ledgerId @ [0] @ decimal epoch @ [0] @ shard"

definition epoch_storage_key :: "jsstr \<Rightarrow> nat \<Rightarrow> jsstr" where
  "epoch_storage_key directory epoch = directory @ [0] @ decimal epoch"

definition ledger_epoch_key :: "jsstr \<Rightarrow> nat \<Rightarrow> jsstr" where
  "ledger_epoch_key ledgerId epoch = ledgerId @ [0] @ decimal epoch"

definition numbered_file :: "string \<Rightarrow> nat \<Rightarrow> jsstr" where
  "numbered_file stem n = js stem @ padded 12 n @ js ''.g9p''"

definition segment_file_name :: "nat \<Rightarrow> jsstr" where
  "segment_file_name = numbered_file ''segment-''"

definition routing_epoch_file_name :: "nat \<Rightarrow> jsstr" where
  "routing_epoch_file_name = numbered_file ''epoch-''"

definition checkpoint_file_name :: "nat \<Rightarrow> jsstr" where
  "checkpoint_file_name = numbered_file ''checkpoint-''"

definition epoch_directory_name :: "nat \<Rightarrow> jsstr" where
  "epoch_directory_name n = js ''epoch-'' @ padded 12 n"

definition segment_prefix :: "platform \<Rightarrow> jsstr \<Rightarrow> nat \<Rightarrow> jsstr \<Rightarrow> nat \<Rightarrow> jsstr" where
  "segment_prefix X ledgerId epoch shard formatVersion =
     join_slash ([js ''segments'', ledger_directory X ledgerId]
       @ (if formatVersion = 1 then [] else [epoch_directory_name epoch]) @ [shard])"

definition routing_key :: "platform \<Rightarrow> jsstr \<Rightarrow> nat \<Rightarrow> jsstr" where
  "routing_key X ledgerId epoch =
     join_slash [js ''routing'', ledger_directory X ledgerId, routing_epoch_file_name epoch]"

definition checkpoint_prefix :: "platform \<Rightarrow> jsstr \<Rightarrow> jsstr" where
  "checkpoint_prefix X ledgerId = join_slash [js ''checkpoints'', ledger_directory X ledgerId] @ [47]"

definition routing_policies_equal :: "jsval \<Rightarrow> jsval \<Rightarrow> bool" where
  "routing_policies_equal l r \<longleftrightarrow> get_prop l ''id'' = get_prop r ''id''
     \<and> get_prop l ''version'' = get_prop r ''version'' \<and> get_prop l ''shardCount'' = get_prop r ''shardCount''"

definition policy_of :: "verified_epoch \<Rightarrow> jsval" where
  "policy_of e = routing_policy (ep_shardCount (ve_descriptor e))"

definition epoch_number_of :: "verified_epoch \<Rightarrow> nat" where
  "epoch_number_of e = ep_epochNumber (ve_descriptor e)"

section \<open>Receipts and indexes\<close>

record sealed_receipt =
  rs_eventId :: jsstr
  rs_ledgerId :: jsstr
  rs_shardId :: jsstr
  rs_routingEpochNumber :: nat
  rs_segmentNumber :: nat
  rs_recordIndex :: nat
  rs_recordHash :: jsstr
  rs_segmentHash :: jsstr
  rs_signerKeyId :: jsstr

record provisional_receipt =
  rp_eventId :: jsstr
  rp_ledgerId :: jsstr
  rp_shardId :: jsstr
  rp_routingEpochNumber :: nat
  rp_segmentNumber :: nat
  rp_blockIndex :: nat
  rp_recordIndex :: nat
  rp_recordHash :: jsstr
  rp_intakeSequence :: nat
  rp_acceptedAt :: jsstr
  rp_openedAt :: jsstr

record accepted_receipt =
  ra_eventId :: jsstr
  ra_ledgerId :: jsstr
  ra_recordHash :: jsstr
  ra_intakeSequence :: nat
  ra_acceptedAt :: jsstr

datatype receipt = Sealed sealed_receipt | Provisional provisional_receipt | Accepted accepted_receipt

fun receipt_id :: "receipt \<Rightarrow> jsstr" where
  "receipt_id (Sealed r) = rs_eventId r"
| "receipt_id (Provisional r) = rp_eventId r"
| "receipt_id (Accepted r) = ra_eventId r"

fun receipt_hash :: "receipt \<Rightarrow> jsstr" where
  "receipt_hash (Sealed r) = rs_recordHash r"
| "receipt_hash (Provisional r) = rp_recordHash r"
| "receipt_hash (Accepted r) = ra_recordHash r"

record shard_state =
  ss_ledgerId :: jsstr
  ss_shardId :: jsstr
  ss_epochNumber :: nat
  ss_formatVersion :: nat
  ss_directory :: jsstr
  ss_nextSegmentNumber :: nat
  ss_previousSegmentHash :: "byte list"

record active_block =
  ab_records :: "pending list"
  ab_uncompressedLength :: nat
  ab_recordsHash :: "byte list"
  ab_data :: "byte list"

record active_segment =
  ac_ledgerId :: jsstr
  ac_shardId :: jsstr
  ac_epochNumber :: nat
  ac_formatVersion :: nat
  ac_directory :: jsstr
  ac_segmentNumber :: nat
  ac_previousSegmentHash :: "byte list option"
  ac_openedAt :: jsstr
  ac_blocks :: "active_block list"
  ac_activeBlock :: "pending list"
  ac_activeBlockBytes :: nat
  ac_recordCount :: nat
  ac_byteCount :: nat
  ac_statePath :: "jsstr option"

text \<open>
  The ledger: its indexes on top of the stores. The counters of bytes are integers, as the code
  subtracts from them.
\<close>

record ledger = stores +
  routingEpochs :: "(jsstr, verified_epoch) jsmap"
  routingEpochDirectories :: "(jsstr, verified_epoch) jsmap"
  routingHistory :: "(jsstr, verified_epoch list) jsmap"
  ledgerSegmentFormats :: "(jsstr, nat) jsmap"
  eventIndex :: "(jsstr, sealed_receipt) jsmap"
  pendingIndex :: "(jsstr, pending) jsmap"
  provisionalIndex :: "(jsstr, provisional_receipt) jsmap"
  shardStates :: "(jsstr, shard_state) jsmap"
  activeSegments :: "(jsstr, active_segment) jsmap"
  assignedPendingIds :: "jsstr set"
  pendingBytes :: int
  activeBlockBytes :: int

type_synonym 'a lm = "(ledger, 'a) act"

text \<open>A process that starts: empty indexes on the stores it finds.\<close>

definition fresh_ledger :: "disk \<Rightarrow> disk \<Rightarrow> disk \<Rightarrow> fault list \<Rightarrow> jsstr \<Rightarrow> ledger" where
  "fresh_ledger intake states sealed ahead now = \<lparr>intake_disk = intake, intake_sequence = 0,
     state_disk = states, sealed_disk = sealed, faults = ahead, clock = now,
     routingEpochs = [], routingEpochDirectories = [], routingHistory = [], ledgerSegmentFormats = [],
     eventIndex = [], pendingIndex = [], provisionalIndex = [], shardStates = [], activeSegments = [],
     assignedPendingIds = {}, pendingBytes = 0, activeBlockBytes = 0\<rparr>"

text \<open>A ledger without stored files, on a file system with some directories.\<close>

definition bare_ledger :: "jsstr set \<Rightarrow> jsstr set \<Rightarrow> fault list \<Rightarrow> jsstr \<Rightarrow> ledger" where
  "bare_ledger F D ahead now = fresh_ledger (bare_disk F D) (bare_disk F D) (bare_disk F D) ahead now"

definition accepted_receipt_of :: "pending \<Rightarrow> receipt" where
  "accepted_receipt_of p = Accepted \<lparr>ra_eventId = event_id (pe_event p), ra_ledgerId = event_ledger (pe_event p),
     ra_recordHash = pe_recordHash p, ra_intakeSequence = pe_sequence p, ra_acceptedAt = pe_acceptedAt p\<rparr>"

section \<open>Sealed storage as the ledger uses it\<close>

definition publish_sealed :: "ledger_config \<Rightarrow> publish_options \<Rightarrow> jsstr \<Rightarrow> byte list \<Rightarrow> unit lm" where
  "publish_sealed cfg opts key bytes = bindS next_fault (\<lambda>f s.
     case publish (dataDirectory cfg) opts key bytes f (sealed_disk s) of
       (d, Inl e) \<Rightarrow> (s\<lparr>sealed_disk := d\<rparr>, Inl e)
     | (d, Inr _) \<Rightarrow> (s\<lparr>sealed_disk := d\<rparr>, Inr ()))"

definition read_sealed :: "ledger_config \<Rightarrow> jsstr \<Rightarrow> byte list lm" where
  "read_sealed cfg key = bindS (getS sealed_disk) (\<lambda>d.
     liftS (read_object (dataDirectory cfg) DEFAULT_MAX_OBJECT_BYTES key d))"

definition list_sealed :: "ledger_config \<Rightarrow> jsstr \<Rightarrow> jsstr list lm" where
  "list_sealed cfg prefix = bindS (getS sealed_disk) (\<lambda>d. liftS (list_objects (dataDirectory cfg) prefix d))"

definition write_codes :: "string \<Rightarrow> string \<Rightarrow> publish_options" where
  "write_codes code extension = \<lparr>errorCode = Some code, extensionErrorCode = Some extension\<rparr>"

definition plain_codes :: publish_options where
  "plain_codes = \<lparr>errorCode = None, extensionErrorCode = None\<rparr>"

end
