(* ===== verification/G9P_Ledger.thy ===== *)
theory G9P_Ledger
  imports G9P_Ledger_State
begin

text \<open>
  The operations of the local ledger (services/ledger/src/local-ledger.js): acceptance into durable
  intake, blocks and active segments, sealing, routing transitions, checkpoints and receipts. The
  code runs them one after the other (\<open>#serialize\<close>), so each is one step.
\<close>

section \<open>Routing epochs\<close>

definition epoch_options_for ::
  "ledger_config \<Rightarrow> jsstr option \<Rightarrow> nat \<Rightarrow> byte list option \<Rightarrow> jsval option \<Rightarrow> epoch_options" where
  "epoch_options_for cfg ledgerId epoch previous policy = \<lparr>eo_limits = EPOCH_LIMITS,
     eo_trustedKeyIds = [keyId (topologyAuthority cfg)], eo_requireTrustedAuthority = True,
     eo_expectedLedgerId = ledgerId, eo_expectedEpochNumber = Some epoch,
     eo_expectedPreviousEpochHash = Some previous, eo_expectedPreviousRoutingPolicy = policy\<rparr>"

definition genesis_request :: "ledger_config \<Rightarrow> jsstr \<Rightarrow> string \<Rightarrow> jsstr \<Rightarrow> epoch_request" where
  "genesis_request cfg ledgerId reason createdAt = \<lparr>er_ledgerId = ledgerId, er_epochNumber = 0,
     er_routingPolicy = default_policy cfg, er_topologyAuthority = topologyAuthority cfg, er_reason = js reason,
     er_createdAt = createdAt, er_previousEpochHash = None, er_previousShardHeads = [],
     er_previousRoutingPolicy = None, er_authorizationPolicy = AUTHORIZATION_POLICY\<rparr>"

definition record_epoch :: "platform \<Rightarrow> jsstr \<Rightarrow> verified_epoch \<Rightarrow> verified_epoch list \<Rightarrow> ledger \<Rightarrow> ledger" where
  "record_epoch X ledgerId verified history s = s\<lparr>
     routingEpochs := jm_set ledgerId verified (routingEpochs s),
     routingEpochDirectories := jm_set (epoch_storage_key (ledger_directory X ledgerId) (epoch_number_of verified))
       verified (routingEpochDirectories s),
     routingHistory := jm_set ledgerId history (routingHistory s)\<rparr>"

text \<open>Write a routing epoch, publish it and read back what was published.\<close>

definition publish_epoch :: "platform \<Rightarrow> ledger_config \<Rightarrow> epoch_request \<Rightarrow> jsstr \<Rightarrow> epoch_options \<Rightarrow> verified_epoch lm" where
  "publish_epoch X cfg rq key opts =
     bindS (liftS (write_routing_epoch X rq)) (\<lambda>(bytes, result).
     thenS (publish_sealed cfg (write_codes ''EPOCH_WRITE'' ''EPOCH_EXTENSION'') key bytes)
     (bindS (read_sealed cfg key) (\<lambda>stored. liftS (verify_routing_epoch_bytes X opts stored))))"

definition ensure_genesis :: "platform \<Rightarrow> ledger_config \<Rightarrow> string \<Rightarrow> jsstr \<Rightarrow> verified_epoch lm" where
  "ensure_genesis X cfg reason ledgerId =
     bindS (getS (\<lambda>s. jm_get (routingEpochs s) ledgerId)) (\<lambda>existing.
     case existing of
       Some epoch \<Rightarrow> retS epoch
     | None \<Rightarrow>
         bindS (getS clock) (\<lambda>now.
         bindS (publish_epoch X cfg (genesis_request cfg ledgerId reason now) (routing_key X ledgerId 0)
                  (epoch_options_for cfg (Some ledgerId) 0 None None)) (\<lambda>verified.
         thenS (modS (record_epoch X ledgerId verified [verified])) (retS verified))))"

section \<open>Acceptance\<close>

record item =
  it_event :: jsval
  it_recordHash :: jsstr
  it_eventBytes :: nat

definition prepare_item :: "platform \<Rightarrow> jsval \<Rightarrow> item res" where
  "prepare_item X event =
     bindR (event_hash_of_event X event) (\<lambda>hash.
     bindR (canonical_event_bytes X event) (\<lambda>bytes.
     Inr \<lparr>it_event = event, it_recordHash = to_hex hash, it_eventBytes = length bytes\<rparr>))"

definition it_id :: "item \<Rightarrow> jsstr" where
  "it_id item = event_id (it_event item)"

definition prepare_items :: "platform \<Rightarrow> jsval list \<Rightarrow> item list res" where
  "prepare_items X events =
     andThen (checks (map (validate_event X) events)) (mapR (prepare_item X) events)"

definition agrees :: "jsstr option \<Rightarrow> jsstr \<Rightarrow> unit res" where
  "agrees known recordHash =
     invariant (case known of None \<Rightarrow> True | Some h \<Rightarrow> h = recordHash) ''EVENT_ID_CONFLICT''"

fun check_conflicts :: "ledger \<Rightarrow> (jsstr, jsstr) jsmap \<Rightarrow> item list \<Rightarrow> unit res" where
  "check_conflicts s requestIds [] = Inr ()"
| "check_conflicts s requestIds (item # items) =
     andThen (checks
       [agrees (jm_get requestIds (it_id item)) (it_recordHash item),
        agrees (map_option rs_recordHash (jm_get (eventIndex s) (it_id item))) (it_recordHash item),
        agrees (map_option pe_recordHash (jm_get (pendingIndex s) (it_id item))) (it_recordHash item)])
     (check_conflicts s (jm_set (it_id item) (it_recordHash item) requestIds) items)"

fun first_items :: "jsstr list \<Rightarrow> item list \<Rightarrow> item list" where
  "first_items seen [] = []"
| "first_items seen (item # items) =
     (if it_id item \<in> set seen then first_items seen items
      else item # first_items (it_id item # seen) items)"

definition new_items :: "ledger \<Rightarrow> item list \<Rightarrow> item list" where
  "new_items s items = filter (\<lambda>item. \<not> jm_has (eventIndex s) (it_id item) \<and> \<not> jm_has (pendingIndex s) (it_id item))
     (first_items [] items)"

definition check_capacity :: "lifecycle \<Rightarrow> ledger \<Rightarrow> item list \<Rightarrow> unit res" where
  "check_capacity L s newItems = checks
     [invariant (\<forall>item \<in> set newItems. it_eventBytes item + 4 \<le> maxActiveBlockBytes L) ''LEDGER_BACKPRESSURE'',
      invariant (length (pendingIndex s) + length newItems \<le> maxAcceptedEvents L
        \<and> pendingBytes s + int (sum_list (map it_eventBytes newItems)) \<le> int (maxAcceptedBytes L)) ''LEDGER_BACKPRESSURE'']"

definition accept_item :: "platform \<Rightarrow> ledger_config \<Rightarrow> item \<Rightarrow> receipt lm" where
  "accept_item X cfg item =
     bindS (getS (\<lambda>s. (jm_get (eventIndex s) (it_id item), jm_get (pendingIndex s) (it_id item)))) (\<lambda>known.
     case known of
       (Some r, _) \<Rightarrow> retS (Sealed r)
     | (None, Some p) \<Rightarrow> retS (accepted_receipt_of p)
     | (None, None) \<Rightarrow>
         bindS (append_intake X (intakeDirectory cfg) (it_event item)) (\<lambda>written.
         let p = written\<lparr>pe_eventBytes := it_eventBytes item\<rparr> in
         thenS (modS (\<lambda>s. s\<lparr>pendingIndex := jm_set (it_id item) p (pendingIndex s),
                          pendingBytes := pendingBytes s + int (it_eventBytes item)\<rparr>))
         (retS (accepted_receipt_of p))))"

definition accept_batch :: "platform \<Rightarrow> ledger_config \<Rightarrow> jsval list \<Rightarrow> receipt list lm" where
  "accept_batch X cfg events =
     bindS (liftS (prepare_items X events)) (\<lambda>items.
     bindS (getS (\<lambda>s. andThen (check_conflicts s [] items)
                        (check_capacity (limits_of cfg) s (new_items s items)))) (\<lambda>verdict.
     thenS (liftS verdict) (mapS (accept_item X cfg) items)))"

section \<open>Blocks\<close>

definition framed_event_bytes :: "platform \<Rightarrow> jsval \<Rightarrow> byte list res" where
  "framed_event_bytes X event = bindR (canonical_event_bytes X event) (\<lambda>bytes. Inr (framed_record bytes))"

definition state_of_active :: "platform \<Rightarrow> active_segment \<Rightarrow> active_state" where
  "state_of_active X a = \<lparr>as_ledgerDirectory = ledger_directory X (ac_ledgerId a), as_ledgerId = ac_ledgerId a,
     as_epochNumber = ac_epochNumber a, as_shardId = ac_shardId a, as_segmentNumber = ac_segmentNumber a,
     as_formatVersion = ac_formatVersion a, as_openedAt = ac_openedAt a,
     as_previousSegmentHash = ac_previousSegmentHash a,
     as_blocks = map (\<lambda>b. \<lparr>sb_records = map (\<lambda>p. \<lparr>rr_eventId = event_id (pe_event p), rr_recordHash = pe_recordHash p\<rparr>)
           (ab_records b), sb_uncompressedLength = ab_uncompressedLength b, sb_recordsHash = ab_recordsHash b,
         sb_data = ab_data b\<rparr>) (ac_blocks a)\<rparr>"

definition provisional_receipt_of :: "active_segment \<Rightarrow> nat \<Rightarrow> nat \<Rightarrow> pending \<Rightarrow> provisional_receipt" where
  "provisional_receipt_of a blockIndex recordIndex p = \<lparr>rp_eventId = event_id (pe_event p), rp_ledgerId = ac_ledgerId a,
     rp_shardId = ac_shardId a, rp_routingEpochNumber = ac_epochNumber a, rp_segmentNumber = ac_segmentNumber a,
     rp_blockIndex = blockIndex, rp_recordIndex = recordIndex, rp_recordHash = pe_recordHash p,
     rp_intakeSequence = pe_sequence p, rp_acceptedAt = pe_acceptedAt p, rp_openedAt = ac_openedAt a\<rparr>"

definition provisional_entries :: "active_segment \<Rightarrow> (jsstr \<times> provisional_receipt) list" where
  "provisional_entries a =
     (let placed = concat (map (\<lambda>(i, b). map (\<lambda>p. (i, p)) (ab_records b)) (enumerate 0 (ac_blocks a))) in
      map (\<lambda>(recordIndex, i, p). (event_id (pe_event p), provisional_receipt_of a i recordIndex p)) (enumerate 0 placed))"

definition rebuild_provisional :: "active_segment \<Rightarrow> ledger \<Rightarrow> ledger" where
  "rebuild_provisional a s = s\<lparr>provisionalIndex := fold (\<lambda>(k, r). jm_set k r) (provisional_entries a) (provisionalIndex s)\<rparr>"

text \<open>The segment kept under a key; the methods hold a reference to it.\<close>

definition the_active :: "jsstr \<Rightarrow> active_segment lm" where
  "the_active key = bindS (getS (\<lambda>s. jm_get (activeSegments s) key)) (\<lambda>a.
     case a of None \<Rightarrow> liftS (Inl JsTypeError) | Some active \<Rightarrow> retS active)"

definition set_active :: "jsstr \<Rightarrow> active_segment \<Rightarrow> ledger \<Rightarrow> ledger" where
  "set_active key a s = s\<lparr>activeSegments := jm_set key a (activeSegments s)\<rparr>"

definition completed_block :: "platform \<Rightarrow> active_segment \<Rightarrow> active_block res" where
  "completed_block X active =
     bindR (mapR (\<lambda>p. framed_event_bytes X (pe_event p)) (ac_activeBlock active)) (\<lambda>framed.
     let uncompressed = concat framed in
     bindR (compress_block X uncompressed) (\<lambda>compressed.
     Inr \<lparr>ab_records = ac_activeBlock active, ab_uncompressedLength = length uncompressed,
       ab_recordsHash = domain_digest X ''record-block-v1'' [uncompressed], ab_data = compressed\<rparr>))"

definition complete_active_block :: "platform \<Rightarrow> ledger_config \<Rightarrow> jsstr \<Rightarrow> unit lm" where
  "complete_active_block X cfg key =
     bindS (the_active key) (\<lambda>active.
     if ac_activeBlock active = [] then retS ()
     else
       bindS (liftS (completed_block X active)) (\<lambda>block.
       let completed = active\<lparr>ac_blocks := ac_blocks active @ [block], ac_activeBlock := [], ac_activeBlockBytes := 0\<rparr> in
       thenS (modS (\<lambda>s. set_active key completed
         (s\<lparr>activeBlockBytes := activeBlockBytes s - int (ac_activeBlockBytes active)\<rparr>)))
       (bindS (persist_state (activeStateDirectory cfg) (state_of_active X completed)) (\<lambda>path.
        let persisted = completed\<lparr>ac_statePath := Some path\<rparr> in
        modS (\<lambda>s. rebuild_provisional persisted (set_active key persisted s))))))"

text \<open>
  The segments whose block may be completed to free memory, the largest first. Each round empties
  one block and fills none, so one round per segment is enough; the first argument counts them.
\<close>

definition room_candidates :: "jsstr \<Rightarrow> ledger \<Rightarrow> jsstr list" where
  "room_candidates exceptKey s = map fst (sort_key (\<lambda>(key, a). - int (ac_activeBlockBytes a))
     (filter (\<lambda>(key, a). key \<noteq> exceptKey \<and> ac_activeBlock a \<noteq> []) (activeSegments s)))"

fun make_room_loop :: "platform \<Rightarrow> ledger_config \<Rightarrow> nat \<Rightarrow> nat \<Rightarrow> jsstr \<Rightarrow> unit lm" where
  "make_room_loop X cfg 0 requiredBytes exceptKey = retS ()"
| "make_room_loop X cfg (Suc rounds) requiredBytes exceptKey =
     bindS (getS (\<lambda>s. (activeBlockBytes s, room_candidates exceptKey s))) (\<lambda>(used, candidates).
     if used + int requiredBytes \<le> int (maxActiveBlockBytes (limits_of cfg)) \<or> candidates = [] then retS ()
     else thenS (complete_active_block X cfg (hd candidates)) (make_room_loop X cfg rounds requiredBytes exceptKey))"

definition make_room :: "platform \<Rightarrow> ledger_config \<Rightarrow> nat \<Rightarrow> jsstr \<Rightarrow> unit lm" where
  "make_room X cfg requiredBytes exceptKey =
     bindS (getS (\<lambda>s. length (activeSegments s))) (\<lambda>rounds.
     thenS (make_room_loop X cfg rounds requiredBytes exceptKey)
     (bindS (getS activeBlockBytes) (\<lambda>used.
      checkS (used + int requiredBytes \<le> int (maxActiveBlockBytes (limits_of cfg))) ''LEDGER_BACKPRESSURE'')))"

section \<open>Active segments\<close>

record routed =
  ro_event :: jsval
  ro_shard :: jsstr
  ro_pending :: pending

definition new_active ::
  "platform \<Rightarrow> jsstr \<Rightarrow> jsstr \<Rightarrow> nat \<Rightarrow> nat \<Rightarrow> shard_state option \<Rightarrow> jsstr \<Rightarrow> active_segment" where
  "new_active X ledgerId shard epoch formatVersion known now = \<lparr>ac_ledgerId = ledgerId, ac_shardId = shard,
     ac_epochNumber = epoch, ac_formatVersion = formatVersion,
     ac_directory = (case known of Some st \<Rightarrow> ss_directory st | None \<Rightarrow> segment_prefix X ledgerId epoch shard formatVersion),
     ac_segmentNumber = (case known of Some st \<Rightarrow> ss_nextSegmentNumber st | None \<Rightarrow> 0),
     ac_previousSegmentHash = (case known of Some st \<Rightarrow> Some (ss_previousSegmentHash st) | None \<Rightarrow> None),
     ac_openedAt = now, ac_blocks = [], ac_activeBlock = [], ac_activeBlockBytes = 0, ac_recordCount = 0,
     ac_byteCount = 0, ac_statePath = None\<rparr>"

text \<open>The key under which the segment for an event is found, opening it when there is none.\<close>

definition active_segment_for :: "platform \<Rightarrow> routed \<Rightarrow> verified_epoch \<Rightarrow> jsstr lm" where
  "active_segment_for X item epoch =
     (let ledgerId = event_ledger (ro_event item); key = state_key ledgerId (epoch_number_of epoch) (ro_shard item) in
      bindS (getS (\<lambda>s. jm_has (activeSegments s) key)) (\<lambda>known.
      if known then retS key
      else
        bindS (getS clock) (\<lambda>now.
        thenS (modS (\<lambda>s. set_active key (new_active X ledgerId (ro_shard item) (epoch_number_of epoch)
            (case jm_get (ledgerSegmentFormats s) (ledger_epoch_key ledgerId (epoch_number_of epoch)) of
               None \<Rightarrow> 2 | Some v \<Rightarrow> v)
            (jm_get (shardStates s) key) now) s))
        (retS key))))"

definition record_segment_format :: "jsstr \<Rightarrow> nat \<Rightarrow> nat \<Rightarrow> unit lm" where
  "record_segment_format ledgerId epoch formatVersion =
     (let key = ledger_epoch_key ledgerId epoch in
      bindS (getS (\<lambda>s. jm_get (ledgerSegmentFormats s) key)) (\<lambda>existing.
      thenS (checkS (case existing of None \<Rightarrow> True | Some v \<Rightarrow> v = formatVersion) ''LEDGER_SEGMENT_FORMAT'')
      (modS (\<lambda>s. s\<lparr>ledgerSegmentFormats := jm_set key formatVersion (ledgerSegmentFormats s)\<rparr>))))"

definition seal_request :: "ledger_config \<Rightarrow> active_segment \<Rightarrow> verified_epoch \<Rightarrow> segment_request" where
  "seal_request cfg a epoch = \<lparr>rq_events = map pe_event (concat (map ab_records (ac_blocks a))),
     rq_routingPolicy = policy_of epoch, rq_segmentNumber = ac_segmentNumber a,
     rq_previousSegmentHash = ac_previousSegmentHash a,
     rq_routingEpoch = (if ac_formatVersion a = 1 then None
       else Some \<lparr>epochNumber = epoch_number_of epoch, epochHash = hex_bytes (ve_epochHash epoch)\<rparr>),
     rq_signer = segmentSigner cfg, rq_createdAt = ac_openedAt a,
     rq_blockTargetBytes = blockMaxBytes (limits_of cfg), rq_blockMaxRecords = blockMaxRecords (limits_of cfg),
     rq_blockRecordCounts = Some (map (\<lambda>b. length (ab_records b)) (ac_blocks a)),
     rq_precompressedBlocks = Some (map (\<lambda>b. \<lparr>pc_data = ab_data b, pc_uncompressedLength = ab_uncompressedLength b,
       pc_recordsHash = ab_recordsHash b\<rparr>) (ac_blocks a)),
     rq_maxRecordBytes = DEFAULT_MAX_RECORD\<rparr>"

definition require_segment_trust :: "ledger_config \<Rightarrow> jsstr \<Rightarrow> nat \<Rightarrow> jsstr \<Rightarrow> nat \<Rightarrow> jsstr \<Rightarrow> unit res" where
  "require_segment_trust cfg ledgerId epoch shard n key =
     (case segmentTrustBundle cfg of
        None \<Rightarrow> Inr ()
      | Some trust \<Rightarrow> bindR (require_trusted_segment_signer trust \<lparr>tp_ledgerId = ledgerId, tp_epochNumber = epoch,
          tp_shardId = shard, tp_segmentNumber = n, tp_keyId = key\<rparr>) (\<lambda>_. Inr ()))"

definition sealed_entries ::
  "active_segment \<Rightarrow> segment_result \<Rightarrow> pending list \<Rightarrow> (jsstr \<times> sealed_receipt) list" where
  "sealed_entries a result records =
     map (\<lambda>(i, p). (event_id (pe_event p), \<lparr>rs_eventId = event_id (pe_event p), rs_ledgerId = ac_ledgerId a,
         rs_shardId = ac_shardId a, rs_routingEpochNumber = ac_epochNumber a, rs_segmentNumber = ac_segmentNumber a,
         rs_recordIndex = i, rs_recordHash = pe_recordHash p, rs_segmentHash = sr_segmentHash result,
         rs_signerKeyId = sr_signerKeyId result\<rparr>)) (enumerate 0 records)"

definition sealed_state :: "active_segment \<Rightarrow> segment_result \<Rightarrow> shard_state" where
  "sealed_state a result = \<lparr>ss_ledgerId = ac_ledgerId a, ss_shardId = ac_shardId a, ss_epochNumber = ac_epochNumber a,
     ss_formatVersion = ac_formatVersion a, ss_directory = ac_directory a,
     ss_nextSegmentNumber = ac_segmentNumber a + 1, ss_previousSegmentHash = hex_bytes (sr_segmentHash result)\<rparr>"

text \<open>One accepted record leaves the ledger's pending state, its intake file first.\<close>

definition retire :: "ledger_config \<Rightarrow> pending \<Rightarrow> unit lm" where
  "retire cfg p =
     thenS (modS (\<lambda>s. s\<lparr>provisionalIndex := jm_delete (event_id (pe_event p)) (provisionalIndex s),
                      assignedPendingIds := assignedPendingIds s - {event_id (pe_event p)}\<rparr>))
     (thenS (remove_intake (intakeDirectory cfg) p)
     (modS (\<lambda>s. s\<lparr>pendingIndex := jm_delete (event_id (pe_event p)) (pendingIndex s),
                pendingBytes := pendingBytes s - int (pe_eventBytes p)\<rparr>)))"

definition seal_active_segment :: "platform \<Rightarrow> ledger_config \<Rightarrow> jsstr \<Rightarrow> unit lm" where
  "seal_active_segment X cfg key =
     thenS (complete_active_block X cfg key)
     (bindS (the_active key) (\<lambda>a.
      if ac_blocks a = [] then retS ()
      else
        let records = concat (map ab_records (ac_blocks a)) in
        thenS (liftS (require_segment_trust cfg (ac_ledgerId a) (ac_epochNumber a) (ac_shardId a) (ac_segmentNumber a)
          (keyId (segmentSigner cfg))))
        (bindS (getS (\<lambda>s. jm_get (routingEpochs s) (ac_ledgerId a))) (\<lambda>known.
         bindS (case known of None \<Rightarrow> liftS (Inl JsTypeError) | Some epoch \<Rightarrow> retS epoch) (\<lambda>epoch.
         bindS (liftS (write_segment X (seal_request cfg a epoch))) (\<lambda>(bytes, result).
         thenS (publish_sealed cfg (write_codes ''SEGMENT_WRITE'' ''SEGMENT_EXTENSION'')
           (ac_directory a @ 47 # segment_file_name (ac_segmentNumber a)) bytes)
         (thenS (record_segment_format (ac_ledgerId a) (ac_epochNumber a) (ac_formatVersion a))
         (thenS (modS (\<lambda>s. s\<lparr>eventIndex := fold (\<lambda>(k, r). jm_set k r) (sealed_entries a result records) (eventIndex s),
                    shardStates := jm_set key (sealed_state a result) (shardStates s)\<rparr>))
         (thenS (remove_state (activeStateDirectory cfg) (case ac_statePath a of
              Some path \<Rightarrow> path
            | None \<Rightarrow> storage_path (activeStateDirectory cfg) (state_file_name (state_of_active X a))))
         (thenS (modS (\<lambda>s. s\<lparr>activeSegments := jm_delete key (activeSegments s)\<rparr>))
         (forS records (retire cfg))))))))))))"

definition append_to_active :: "platform \<Rightarrow> ledger_config \<Rightarrow> routed \<Rightarrow> verified_epoch \<Rightarrow> unit lm" where
  "append_to_active X cfg item epoch =
     (let L = limits_of cfg; p = ro_pending item; recordBytes = pe_eventBytes p + 4 in
      bindS (active_segment_for X item epoch) (\<lambda>key.
      bindS (the_active key) (\<lambda>first.
      thenS (if 0 < ac_recordCount first \<and> (segmentMaxRecords L < ac_recordCount first + 1
               \<or> segmentMaxBytes L < ac_byteCount first + recordBytes)
             then thenS (seal_active_segment X cfg key) (bindS (active_segment_for X item epoch) (\<lambda>_. retS ()))
             else retS ())
      (bindS (the_active key) (\<lambda>active.
      thenS (whenS (ac_activeBlock active \<noteq> [] \<and> (blockMaxRecords L < length (ac_activeBlock active) + 1
               \<or> blockMaxBytes L < ac_activeBlockBytes active + recordBytes)) (complete_active_block X cfg key))
      (thenS (make_room X cfg recordBytes key)
      (bindS (the_active key) (\<lambda>open.
      let filled = open\<lparr>ac_activeBlock := ac_activeBlock open @ [p], ac_activeBlockBytes := ac_activeBlockBytes open + recordBytes,
            ac_recordCount := ac_recordCount open + 1, ac_byteCount := ac_byteCount open + recordBytes\<rparr> in
      thenS (modS (\<lambda>s. set_active key filled (s\<lparr>activeBlockBytes := activeBlockBytes s + int recordBytes,
               assignedPendingIds := insert (event_id (ro_event item)) (assignedPendingIds s)\<rparr>)))
      (thenS (whenS (blockMaxRecords L \<le> length (ac_activeBlock filled) \<or> blockMaxBytes L \<le> ac_activeBlockBytes filled)
               (complete_active_block X cfg key))
      (whenS (segmentMaxRecords L \<le> ac_recordCount filled \<or> segmentMaxBytes L \<le> ac_byteCount filled)
         (seal_active_segment X cfg key)))))))))))"

text \<open>\<open>now\<close> is the time in milliseconds, \<open>None\<close> a number that is not finite.\<close>

definition seal_expired :: "platform \<Rightarrow> ledger_config \<Rightarrow> int option \<Rightarrow> unit lm" where
  "seal_expired X cfg now =
     (case now of
        None \<Rightarrow> failS ''LEDGER_TIME''
      | Some ms \<Rightarrow>
          bindS (getS (\<lambda>s. activeSegments s)) (\<lambda>actives.
          forS actives (\<lambda>(key, a).
            whenS (case canonical_time (ac_openedAt a) of
                None \<Rightarrow> False | Some opened \<Rightarrow> int (segmentMaxAgeMs (limits_of cfg)) \<le> ms - opened)
              (seal_active_segment X cfg key))))"

section \<open>Draining\<close>

definition by_sequence :: "ledger \<Rightarrow> pending list" where
  "by_sequence s = sort_key pe_sequence (jm_values (pendingIndex s))"

definition settle :: "ledger_config \<Rightarrow> pending \<Rightarrow> unit lm" where
  "settle cfg p =
     bindS (getS (\<lambda>s. jm_get (eventIndex s) (event_id (pe_event p)))) (\<lambda>known.
     case known of
       None \<Rightarrow> retS ()
     | Some r \<Rightarrow>
         thenS (checkS (rs_recordHash r = pe_recordHash p) ''EVENT_ID_CONFLICT'')
         (thenS (remove_intake (intakeDirectory cfg) p)
         (modS (\<lambda>s. s\<lparr>pendingIndex := jm_delete (event_id (pe_event p)) (pendingIndex s),
                    pendingBytes := pendingBytes s - int (pe_eventBytes p)\<rparr>))))"

definition route_pending :: "platform \<Rightarrow> ledger \<Rightarrow> pending \<Rightarrow> routed res" where
  "route_pending X s p =
     (case jm_get (routingEpochs s) (event_ledger (pe_event p)) of
        None \<Rightarrow> Inl JsTypeError
      | Some epoch \<Rightarrow>
          bindR (route_event X (pe_event p) (policy_of epoch)) (\<lambda>r.
          Inr \<lparr>ro_event = pe_event p, ro_shard = shardId r, ro_pending = p\<rparr>))"

definition append_routed :: "platform \<Rightarrow> ledger_config \<Rightarrow> routed \<Rightarrow> unit lm" where
  "append_routed X cfg item =
     bindS (getS (\<lambda>s. jm_get (routingEpochs s) (event_ledger (ro_event item)))) (\<lambda>known.
     case known of None \<Rightarrow> liftS (Inl JsTypeError) | Some epoch \<Rightarrow> append_to_active X cfg item epoch)"

definition seal_all :: "platform \<Rightarrow> ledger_config \<Rightarrow> unit lm" where
  "seal_all X cfg = bindS (getS (\<lambda>s. map fst (activeSegments s))) (\<lambda>keys. forS keys (seal_active_segment X cfg))"

definition drain_accepted :: "platform \<Rightarrow> ledger_config \<Rightarrow> bool \<Rightarrow> unit lm" where
  "drain_accepted X cfg forceSeal =
     bindS (getS by_sequence) (\<lambda>retained.
     thenS (forS retained (settle cfg))
     (bindS (getS by_sequence) (\<lambda>records.
      thenS (forS (rev (remdups (rev (map (\<lambda>p. event_ledger (pe_event p)) records))))
        (\<lambda>ledgerId. bindS (ensure_genesis X cfg ''Create initial routing epoch'' ledgerId) (\<lambda>_. retS ())))
      (bindS (getS (\<lambda>s. mapR (route_pending X s)
          (filter (\<lambda>p. event_id (pe_event p) \<notin> assignedPendingIds s) records))) (\<lambda>uniqueNew.
       bindS (liftS uniqueNew) (\<lambda>items.
       thenS (forS items (append_routed X cfg))
       (whenS forceSeal (seal_all X cfg))))))))"

section \<open>The public operations\<close>

definition best_receipt :: "bool \<Rightarrow> ledger \<Rightarrow> receipt \<Rightarrow> receipt" where
  "best_receipt provisional s r =
     (case jm_get (eventIndex s) (receipt_id r) of
        Some sealed \<Rightarrow> Sealed sealed
      | None \<Rightarrow> (if provisional then
            (case jm_get (provisionalIndex s) (receipt_id r) of Some p \<Rightarrow> Provisional p | None \<Rightarrow> r) else r))"

definition ingest_batch :: "platform \<Rightarrow> ledger_config \<Rightarrow> jsval list \<Rightarrow> receipt list lm" where
  "ingest_batch X cfg events =
     bindS (accept_batch X cfg events) (\<lambda>accepted.
     thenS (drain_accepted X cfg True) (getS (\<lambda>s. map (best_receipt False s) accepted)))"

definition ingest_accepted_batch :: "platform \<Rightarrow> ledger_config \<Rightarrow> jsval list \<Rightarrow> receipt list lm" where
  "ingest_accepted_batch X cfg events =
     bindS (accept_batch X cfg events) (\<lambda>accepted.
     thenS (drain_accepted X cfg False) (getS (\<lambda>s. map (best_receipt True s) accepted)))"

definition find_receipt :: "ledger \<Rightarrow> jsstr \<Rightarrow> receipt option" where
  "find_receipt s eventId =
     (case jm_get (eventIndex s) eventId of
        Some r \<Rightarrow> Some (Sealed r)
      | None \<Rightarrow> (case jm_get (provisionalIndex s) eventId of
          Some r \<Rightarrow> Some (Provisional r)
        | None \<Rightarrow> map_option accepted_receipt_of (jm_get (pendingIndex s) eventId)))"

definition receipt_lookup :: "jsval \<Rightarrow> jsval \<Rightarrow> receipt lm" where
  "receipt_lookup eventId recordHash =
     thenS (checkS (non_empty_string eventId) ''RECEIPT_EVENT_ID'')
     (thenS (checkS (hash_text recordHash) ''RECEIPT_RECORD_HASH'')
     (bindS (getS (\<lambda>s. find_receipt s (str_of eventId))) (\<lambda>found.
      case found of
        None \<Rightarrow> failS ''RECEIPT_NOT_FOUND''
      | Some r \<Rightarrow> thenS (checkS (receipt_hash r = str_of recordHash) ''EVENT_ID_CONFLICT'') (retS r))))"

text \<open>The heads that a transition and a checkpoint record: one per shard of the epoch.\<close>

definition shard_heads :: "jsstr \<Rightarrow> verified_epoch \<Rightarrow> ledger \<Rightarrow> shard_head list" where
  "shard_heads ledgerId epoch s =
     map (\<lambda>i. \<lparr>head_epoch = epoch_number_of epoch, head_shard = shard_name i,
         head_sealed = map_option (\<lambda>st. (ss_nextSegmentNumber st - 1, ss_previousSegmentHash st))
           (jm_get (shardStates s) (state_key ledgerId (epoch_number_of epoch) (shard_name i)))\<rparr>)
       [0..<ep_shardCount (ve_descriptor epoch)]"

definition transition_request ::
  "ledger_config \<Rightarrow> jsstr \<Rightarrow> verified_epoch \<Rightarrow> jsval \<Rightarrow> jsstr \<Rightarrow> shard_head list \<Rightarrow> jsstr \<Rightarrow> epoch_request" where
  "transition_request cfg ledgerId epoch policy reason heads now = \<lparr>er_ledgerId = ledgerId,
     er_epochNumber = epoch_number_of epoch + 1, er_routingPolicy = policy,
     er_topologyAuthority = topologyAuthority cfg, er_reason = reason, er_createdAt = now,
     er_previousEpochHash = Some (hex_bytes (ve_epochHash epoch)), er_previousShardHeads = heads,
     er_previousRoutingPolicy = Some (policy_of epoch), er_authorizationPolicy = AUTHORIZATION_POLICY\<rparr>"

definition current_epoch :: "platform \<Rightarrow> ledger_config \<Rightarrow> jsstr \<Rightarrow> verified_epoch lm" where
  "current_epoch X cfg ledgerId =
     bindS (getS (\<lambda>s. (jm_get (routingEpochs s) ledgerId,
       \<exists>p \<in> set (jm_values (pendingIndex s)). event_ledger (pe_event p) = ledgerId))) (\<lambda>(known, waiting).
     case known of
       Some epoch \<Rightarrow> retS epoch
     | None \<Rightarrow>
         if waiting then ensure_genesis X cfg ''Create initial routing epoch'' ledgerId
         else failS ''LEDGER_TRANSITION_LEDGER'')"

definition transition_routing ::
  "platform \<Rightarrow> ledger_config \<Rightarrow> jsstr \<Rightarrow> nat \<Rightarrow> jsstr \<Rightarrow> jsval \<Rightarrow> (verified_epoch \<times> bool) lm" where
  "transition_routing X cfg ledgerId shardCount reason expectedCurrentEpoch =
     bindS (current_epoch X cfg ledgerId) (\<lambda>epoch.
     thenS (checkS (int_in 0 MAX_SAFE expectedCurrentEpoch) ''LEDGER_TRANSITION_EPOCH'')
     (bindS (liftS (create_routing_policy shardCount)) (\<lambda>policy.
      let expected = nat (int_of expectedCurrentEpoch) in
      if epoch_number_of epoch \<noteq> expected then
        (if epoch_number_of epoch = expected + 1 \<and> routing_policies_equal (policy_of epoch) policy
         then retS (epoch, True) else failS ''LEDGER_TRANSITION_EPOCH'')
      else
        thenS (checkS (\<not> routing_policies_equal (policy_of epoch) policy) ''LEDGER_TRANSITION_POLICY'')
        (thenS (drain_accepted X cfg True)
        (bindS (getS (shard_heads ledgerId epoch)) (\<lambda>heads.
         bindS (getS clock) (\<lambda>now.
         bindS (publish_epoch X cfg (transition_request cfg ledgerId epoch policy reason heads now)
           (routing_key X ledgerId (epoch_number_of epoch + 1))
           (epoch_options_for cfg (Some ledgerId) (epoch_number_of epoch + 1) (Some (hex_bytes (ve_epochHash epoch)))
             (Some (policy_of epoch)))) (\<lambda>verified.
         bindS (getS (\<lambda>s. case jm_get (routingHistory s) ledgerId of None \<Rightarrow> [] | Some h \<Rightarrow> h)) (\<lambda>history.
         thenS (modS (record_epoch X ledgerId verified (history @ [verified]))) (retS (verified, False)))))))))))"

definition checkpoint_options :: "ledger_config \<Rightarrow> byte list option option \<Rightarrow> attestation_options" where
  "checkpoint_options cfg previous = \<lparr>ao_limits = ATTESTATION_LIMITS, ao_trustedKeyIds = [keyId (checkpointPublisher cfg)],
     ao_requireTrustedSigner = True, ao_expectedPreviousCheckpointHash = previous\<rparr>"

text \<open>One checkpoint of the chain: the hash of the one before it is threaded through.\<close>

definition continue_chain ::
  "platform \<Rightarrow> ledger_config \<Rightarrow> jsstr \<Rightarrow> byte list option \<Rightarrow> nat \<times> jsstr \<Rightarrow> (byte list option) lm" where
  "continue_chain X cfg ledgerId previous = (\<lambda>(n, key).
     thenS (checkS (key = checkpoint_prefix X ledgerId @ checkpoint_file_name n) ''CHECKPOINT_SEQUENCE'')
     (bindS (read_sealed cfg key) (\<lambda>bytes.
      bindS (liftS (verify_checkpoint_bytes X (checkpoint_options cfg (Some previous)) bytes)) (\<lambda>v.
      thenS (checkS (cp_ledgerId (vc_checkpoint v) = ledgerId \<and> cp_checkpointNumber (vc_checkpoint v) = n
        \<and> cp_previousCheckpointHash (vc_checkpoint v) = previous) ''CHECKPOINT_SEQUENCE'')
      (retS (Some (hex_bytes (vc_checkpointHash v))))))))"

definition publish_checkpoint :: "platform \<Rightarrow> ledger_config \<Rightarrow> jsstr \<Rightarrow> verified_checkpoint lm" where
  "publish_checkpoint X cfg ledgerId =
     bindS (getS (\<lambda>s. jm_get (routingEpochs s) ledgerId)) (\<lambda>known.
     case known of
       None \<Rightarrow> failS ''CHECKPOINT_LEDGER''
     | Some epoch \<Rightarrow>
         thenS (drain_accepted X cfg True)
         (bindS (list_sealed cfg (checkpoint_prefix X ledgerId)) (\<lambda>existing.
          bindS (foldS (continue_chain X cfg ledgerId) None (enumerate 0 existing)) (\<lambda>previous.
          bindS (getS (\<lambda>s. (shard_heads ledgerId epoch s, clock s))) (\<lambda>(heads, now).
          let key = checkpoint_prefix X ledgerId @ checkpoint_file_name (length existing) in
          bindS (liftS (write_checkpoint X \<lparr>cr_ledgerId = ledgerId, cr_checkpointNumber = length existing,
             cr_previousCheckpointHash = previous, cr_routingEpochNumber = epoch_number_of epoch,
             cr_routingEpochHash = hex_bytes (ve_epochHash epoch), cr_shardHeads = heads,
             cr_publisher = checkpointPublisher cfg, cr_createdAt = now\<rparr>)) (\<lambda>(bytes, result).
          thenS (publish_sealed cfg plain_codes key bytes)
          (bindS (read_sealed cfg key) (\<lambda>stored.
           liftS (verify_checkpoint_bytes X (checkpoint_options cfg None) stored)))))))))"

end
