(* ===== verification/G9P_Ledger_Startup.thy ===== *)
theory G9P_Ledger_Startup
  imports G9P_Ledger
begin

text \<open>
  Startup of the local ledger (services/ledger/src/local-ledger.js, \<open>initialize\<close> and the loaders):
  the sealed history is verified and indexed, the routing and checkpoint chains are followed, and
  durable intake and provisional state are reconciled with it.
\<close>

section \<open>Storage keys\<close>

definition is_numbered_file :: "string \<Rightarrow> jsstr \<Rightarrow> bool" where
  "is_numbered_file stem name \<longleftrightarrow> length name = length stem + 16 \<and> take (length stem) name = js stem
     \<and> list_all is_digit (take 12 (drop (length stem) name)) \<and> drop (length stem + 12) name = js ''.g9p''"

definition is_epoch_directory :: "jsstr \<Rightarrow> bool" where
  "is_epoch_directory name \<longleftrightarrow> length name = 18 \<and> take 6 name = js ''epoch-'' \<and> list_all is_digit (drop 6 name)"

text \<open>The directory of the ledger in a routing or checkpoint key.\<close>

definition ledger_of_key :: "string \<Rightarrow> string \<Rightarrow> jsstr \<Rightarrow> jsstr option" where
  "ledger_of_key namespace stem key =
     (case split_slash key of
        [space, directory, file_name] \<Rightarrow>
          if space = js namespace \<and> is_hex64 directory \<and> is_numbered_file stem file_name then Some directory else None
      | _ \<Rightarrow> None)"

text \<open>Directory, epoch (\<open>None\<close> for a version 1 key) and shard of a segment key.\<close>

definition segment_stream :: "jsstr \<Rightarrow> (jsstr \<times> nat option \<times> jsstr) option" where
  "segment_stream key =
     (case split_slash key of
        [space, directory, shard, file_name] \<Rightarrow>
          if space = js ''segments'' \<and> is_hex64 directory \<and> is_shard_id shard \<and> is_numbered_file ''segment-'' file_name
          then Some (directory, None, shard) else None
      | [space, directory, epoch, shard, file_name] \<Rightarrow>
          if space = js ''segments'' \<and> is_hex64 directory \<and> is_epoch_directory epoch \<and> is_shard_id shard
            \<and> is_numbered_file ''segment-'' file_name
          then Some (directory, Some (digits_value (drop 6 epoch)), shard) else None
      | _ \<Rightarrow> None)"

text \<open>Keys collected under what they belong to, in the order of first appearance.\<close>

definition collect :: "('k, jsstr list) jsmap \<Rightarrow> 'k \<times> jsstr \<Rightarrow> ('k, jsstr list) jsmap" where
  "collect groups = (\<lambda>(k, key). jm_set k ((case jm_get groups k of None \<Rightarrow> [] | Some keys \<Rightarrow> keys) @ [key]) groups)"

definition grouped :: "(jsstr \<Rightarrow> 'k option) \<Rightarrow> string \<Rightarrow> jsstr list \<Rightarrow> ('k, jsstr list) jsmap res" where
  "grouped stream code keys =
     bindR (mapR (\<lambda>key. case stream key of None \<Rightarrow> failWith code | Some k \<Rightarrow> Inr (k, key)) keys)
       (\<lambda>pairs. Inr (foldl collect [] pairs))"

definition base_name :: "jsstr \<Rightarrow> jsstr" where
  "base_name key = last (split_slash key)"

section \<open>Routing history\<close>

record epoch_chain =
  ec_ledgerId :: "jsstr option"
  ec_previousHash :: "byte list option"
  ec_previousPolicy :: "jsval option"
  ec_epochs :: "verified_epoch list"

definition load_epoch :: "platform \<Rightarrow> ledger_config \<Rightarrow> jsstr \<Rightarrow> epoch_chain \<Rightarrow> nat \<times> jsstr \<Rightarrow> epoch_chain lm" where
  "load_epoch X cfg directory chain = (\<lambda>(n, key).
     thenS (checkS (base_name key = routing_epoch_file_name n) ''LEDGER_ROUTING_SEQUENCE'')
     (bindS (read_sealed cfg key) (\<lambda>bytes.
      bindS (liftS (verify_routing_epoch_bytes X
          (epoch_options_for cfg None n (ec_previousHash chain) (ec_previousPolicy chain)) bytes)) (\<lambda>verified.
      let ledgerId = ep_ledgerId (ve_descriptor verified) in
      thenS (checkS ((case ec_ledgerId chain of None \<Rightarrow> True | Some l \<Rightarrow> l = ledgerId)
        \<and> ledger_directory X ledgerId = directory) ''LEDGER_ROUTING_DIRECTORY'')
      (thenS (modS (\<lambda>s. s\<lparr>routingEpochDirectories :=
          jm_set (epoch_storage_key directory n) verified (routingEpochDirectories s)\<rparr>))
      (retS \<lparr>ec_ledgerId = Some ledgerId, ec_previousHash = Some (hex_bytes (ve_epochHash verified)),
         ec_previousPolicy = Some (policy_of verified), ec_epochs = ec_epochs chain @ [verified]\<rparr>))))))"

definition load_ledger_epochs :: "platform \<Rightarrow> ledger_config \<Rightarrow> jsstr \<times> jsstr list \<Rightarrow> unit lm" where
  "load_ledger_epochs X cfg = (\<lambda>(directory, keys).
     bindS (foldS (load_epoch X cfg directory)
       \<lparr>ec_ledgerId = None, ec_previousHash = None, ec_previousPolicy = None, ec_epochs = []\<rparr> (enumerate 0 (sort keys)))
       (\<lambda>chain.
     if ec_epochs chain = [] then retS ()
     else
       let current = last (ec_epochs chain); ledgerId = ep_ledgerId (ve_descriptor current) in
       thenS (checkS (epoch_number_of current \<noteq> 0 \<or> routing_policies_equal (policy_of current) (default_policy cfg))
         ''LEDGER_ROUTING_POLICY'')
       (modS (\<lambda>s. s\<lparr>routingEpochs := jm_set ledgerId current (routingEpochs s),
                  routingHistory := jm_set ledgerId (ec_epochs chain) (routingHistory s)\<rparr>))))"

text \<open>The directories are 64 hexadecimal digits each, which \<open>localeCompare\<close> sorts as code units.\<close>

definition load_routing_epochs :: "platform \<Rightarrow> ledger_config \<Rightarrow> unit lm" where
  "load_routing_epochs X cfg =
     bindS (list_sealed cfg (js ''routing/'')) (\<lambda>keys.
     bindS (liftS (grouped (ledger_of_key ''routing'' ''epoch-'') ''LEDGER_ROUTING_FILE'' keys)) (\<lambda>ledgers.
     forS (sort_key fst ledgers) (load_ledger_epochs X cfg)))"

section \<open>Segment history\<close>

definition segment_options ::
  "ledger_config \<Rightarrow> byte list option option \<Rightarrow> jsstr option \<Rightarrow> jsstr \<Rightarrow> (nat \<times> byte list) option \<Rightarrow> verify_options" where
  "segment_options cfg previous ledgerId shard epoch = \<lparr>vo_limits = VERIFY_LIMITS, trustedKeyIds = segmentTrustedKeyIds cfg,
     requireTrustedSigner = True, expectedPreviousSegmentHash = previous, expectedLedgerId = ledgerId,
     expectedShardId = Some shard, expectedRoutingEpochNumber = map_option fst epoch,
     expectedRoutingEpochHash = map_option snd epoch\<rparr>"

record shard_history =
  sh_ledgerId :: "jsstr option"
  sh_previousHash :: "byte list option"
  sh_next :: nat

definition historical_entries ::
  "platform \<Rightarrow> jsstr \<Rightarrow> nat \<Rightarrow> verified_segment \<Rightarrow> (jsstr \<times> sealed_receipt) list res" where
  "historical_entries X shard epoch v =
     mapR (\<lambda>(i, event). bindR (event_hash_of_event X event) (\<lambda>hash.
       Inr (event_id event, \<lparr>rs_eventId = event_id event, rs_ledgerId = event_ledger event, rs_shardId = shard,
         rs_routingEpochNumber = epoch, rs_segmentNumber = vs_segmentNumber v, rs_recordIndex = i,
         rs_recordHash = to_hex hash, rs_segmentHash = vs_segmentHash v, rs_signerKeyId = vs_signerKeyId v\<rparr>)))
       (enumerate 0 (vs_events v))"

definition index_event :: "jsstr \<times> sealed_receipt \<Rightarrow> unit lm" where
  "index_event = (\<lambda>(eventId, r).
     bindS (getS (\<lambda>s. jm_get (eventIndex s) eventId)) (\<lambda>existing.
     thenS (checkS (case existing of None \<Rightarrow> True | Some old \<Rightarrow> rs_recordHash old = rs_recordHash r) ''EVENT_ID_CONFLICT'')
     (modS (\<lambda>s. s\<lparr>eventIndex := jm_set eventId r (eventIndex s)\<rparr>))))"

definition load_segment ::
  "platform \<Rightarrow> ledger_config \<Rightarrow> jsstr \<Rightarrow> jsstr \<Rightarrow> verified_epoch option \<Rightarrow> shard_history \<Rightarrow> jsstr \<Rightarrow> shard_history lm" where
  "load_segment X cfg directory shard epoch history key =
     (let formatVersion = (if epoch = None then 1 else 2);
          number = (case epoch of None \<Rightarrow> 0 | Some e \<Rightarrow> epoch_number_of e) in
      bindS (read_sealed cfg key) (\<lambda>bytes.
      bindS (liftS (verify_segment_bytes X (segment_options cfg (Some (sh_previousHash history)) None shard
        (map_option (\<lambda>e. (epoch_number_of e, hex_bytes (ve_epochHash e))) epoch)) bytes)) (\<lambda>v.
      thenS (checkS (vs_formatVersion v = formatVersion) ''LEDGER_SEGMENT_FORMAT'')
      (thenS (checkS (vs_segmentNumber v = sh_next history) ''LEDGER_SEGMENT_SEQUENCE'')
      (thenS (checkS ((case sh_ledgerId history of None \<Rightarrow> True | Some l \<Rightarrow> l = vs_ledgerId v)
         \<and> ledger_directory X (vs_ledgerId v) = directory) ''LEDGER_DIRECTORY'')
      (thenS (liftS (require_segment_trust cfg (vs_ledgerId v) number shard (vs_segmentNumber v) (vs_signerKeyId v)))
      (bindS (getS (\<lambda>s. case epoch of Some e \<Rightarrow> Some e
          | None \<Rightarrow> jm_get (routingEpochDirectories s) (epoch_storage_key directory 0))) (\<lambda>signedEpoch.
       thenS (checkS (routing_policies_equal (get_prop (vs_header v) ''routingPolicy'')
         (case signedEpoch of Some e \<Rightarrow> policy_of e | None \<Rightarrow> default_policy cfg)) ''LEDGER_ROUTING_POLICY'')
       (thenS (record_segment_format (vs_ledgerId v) number formatVersion)
       (bindS (liftS (historical_entries X shard number v)) (\<lambda>entries.
        thenS (forS entries index_event)
        (retS \<lparr>sh_ledgerId = Some (vs_ledgerId v), sh_previousHash = Some (hex_bytes (vs_segmentHash v)),
           sh_next = sh_next history + 1\<rparr>))))))))))))"

definition load_shard_history ::
  "platform \<Rightarrow> ledger_config \<Rightarrow> (jsstr \<times> nat option \<times> jsstr) \<times> jsstr list \<Rightarrow> (jsstr option) lm" where
  "load_shard_history X cfg = (\<lambda>((directory, epochNumber, shard), keys).
     bindS (getS (\<lambda>s. case epochNumber of None \<Rightarrow> None
        | Some n \<Rightarrow> jm_get (routingEpochDirectories s) (epoch_storage_key directory n))) (\<lambda>epoch.
     thenS (checkS (epochNumber = None \<or> epoch \<noteq> None) ''LEDGER_ROUTING_EPOCH'')
     (bindS (foldS (load_segment X cfg directory shard epoch)
        \<lparr>sh_ledgerId = None, sh_previousHash = None, sh_next = 0\<rparr> (sort keys)) (\<lambda>history.
      let number = (case epoch of None \<Rightarrow> 0 | Some e \<Rightarrow> epoch_number_of e) in
      thenS (case (sh_ledgerId history, sh_previousHash history) of
          (Some ledgerId, Some hash) \<Rightarrow> modS (\<lambda>s. s\<lparr>shardStates := jm_set (state_key ledgerId number shard)
            \<lparr>ss_ledgerId = ledgerId, ss_shardId = shard, ss_epochNumber = number,
             ss_formatVersion = (if epoch = None then 1 else 2), ss_directory = join_slash (butlast (split_slash (hd keys))),
             ss_nextSegmentNumber = sh_next history, ss_previousSegmentHash = hash\<rparr> (shardStates s)\<rparr>)
        | _ \<Rightarrow> retS ())
      (retS (sh_ledgerId history))))))"

definition adopt_legacy :: "platform \<Rightarrow> ledger_config \<Rightarrow> jsstr \<Rightarrow> unit lm" where
  "adopt_legacy X cfg ledgerId =
     bindS (getS (\<lambda>s. jm_has (routingEpochs s) ledgerId)) (\<lambda>known.
     thenS (checkS (known \<or> adoptLegacyRoutingHistory cfg) ''LEDGER_ROUTING_HISTORY_MISSING'')
     (bindS (ensure_genesis X cfg ''Adopt existing G9P format version 1 history as routing epoch zero'' ledgerId)
       (\<lambda>_. retS ())))"

text \<open>The streams are visited in the order of their first keys.\<close>

definition load_segments :: "platform \<Rightarrow> ledger_config \<Rightarrow> unit lm" where
  "load_segments X cfg =
     bindS (list_sealed cfg (js ''segments/'')) (\<lambda>keys.
     bindS (liftS (grouped segment_stream ''LEDGER_SEGMENT_FILE'' keys)) (\<lambda>histories.
     bindS (mapS (load_shard_history X cfg) (sort_key (\<lambda>h. hd (snd h)) histories)) (\<lambda>ledgers.
     forS (rev (remdups (rev (List.map_filter (\<lambda>l. l) ledgers)))) (adopt_legacy X cfg))))"

definition head_matches :: "ledger \<Rightarrow> jsstr \<Rightarrow> nat \<Rightarrow> shard_head \<Rightarrow> unit res" where
  "head_matches s ledgerId n head =
     invariant (head_sealed head = map_option (\<lambda>st. (ss_nextSegmentNumber st - 1, ss_previousSegmentHash st))
       (jm_get (shardStates s) (state_key ledgerId (n - 1) (head_shard head)))) ''LEDGER_TRANSITION_HEAD''"

definition verify_transition_heads :: "ledger \<Rightarrow> unit res" where
  "verify_transition_heads s = checks (concat (map (\<lambda>(ledgerId, history).
     concat (map (\<lambda>(n, epoch). map (head_matches s ledgerId n) (ep_previousShardHeads (ve_descriptor epoch)))
       (tl (enumerate 0 history)))) (routingHistory s)))"

section \<open>Checkpoint history\<close>

definition segment_key :: "jsstr \<Rightarrow> nat \<Rightarrow> jsstr \<Rightarrow> nat \<Rightarrow> jsstr" where
  "segment_key directory epoch shard n =
     join_slash [js ''segments'', directory, epoch_directory_name epoch, shard, segment_file_name n]"

definition check_checkpoint_head ::
  "platform \<Rightarrow> ledger_config \<Rightarrow> jsstr \<Rightarrow> jsstr \<Rightarrow> byte list \<Rightarrow> shard_head \<Rightarrow> unit lm" where
  "check_checkpoint_head X cfg directory ledgerId hash head =
     (case head_sealed head of
        None \<Rightarrow> retS ()
      | Some (n, digest) \<Rightarrow>
          bindS (read_sealed cfg (segment_key directory (head_epoch head) (head_shard head) n)) (\<lambda>bytes.
          bindS (liftS (verify_segment_bytes X (segment_options cfg None (Some ledgerId) (head_shard head)
            (Some (head_epoch head, hash))) bytes)) (\<lambda>v.
          thenS (liftS (require_segment_trust cfg ledgerId (head_epoch head) (head_shard head) n (vs_signerKeyId v)))
          (checkS (vs_segmentNumber v = n \<and> vs_segmentHash v = to_hex digest) ''CHECKPOINT_HEAD''))))"

text \<open>The chain so far: the ledger and the hash of the checkpoint before.\<close>

definition load_checkpoint ::
  "platform \<Rightarrow> ledger_config \<Rightarrow> jsstr \<Rightarrow> jsstr option \<times> byte list option \<Rightarrow> nat \<times> jsstr
     \<Rightarrow> (jsstr option \<times> byte list option) lm" where
  "load_checkpoint X cfg directory = (\<lambda>(known, previous) (n, key).
     thenS (checkS (key = join_slash [js ''checkpoints'', directory, checkpoint_file_name n]) ''CHECKPOINT_SEQUENCE'')
     (bindS (read_sealed cfg key) (\<lambda>bytes.
      bindS (liftS (verify_checkpoint_bytes X (checkpoint_options cfg (Some previous)) bytes)) (\<lambda>v.
      let c = vc_checkpoint v in
      thenS (checkS ((case known of None \<Rightarrow> True | Some l \<Rightarrow> l = cp_ledgerId c)
        \<and> ledger_directory X (cp_ledgerId c) = directory \<and> cp_checkpointNumber c = n
        \<and> cp_previousCheckpointHash c = previous) ''CHECKPOINT_SEQUENCE'')
      (bindS (getS (\<lambda>s. jm_get (routingEpochDirectories s) (epoch_storage_key directory (cp_routingEpochNumber c)))) (\<lambda>epoch.
       thenS (checkS (case epoch of None \<Rightarrow> False | Some e \<Rightarrow> ve_epochHash e = to_hex (cp_routingEpochHash c)
         \<and> ep_shardCount (ve_descriptor e) = length (cp_shardHeads c)) ''CHECKPOINT_ROUTING'')
       (thenS (forS (cp_shardHeads c) (check_checkpoint_head X cfg directory (cp_ledgerId c) (cp_routingEpochHash c)))
       (retS (Some (cp_ledgerId c), Some (hex_bytes (vc_checkpointHash v)))))))))))"

definition load_checkpoints :: "platform \<Rightarrow> ledger_config \<Rightarrow> unit lm" where
  "load_checkpoints X cfg =
     bindS (list_sealed cfg (js ''checkpoints/'')) (\<lambda>keys.
     bindS (liftS (grouped (ledger_of_key ''checkpoints'' ''checkpoint-'') ''LEDGER_CHECKPOINT_FILE'' keys)) (\<lambda>ledgers.
     forS (sort_key fst ledgers) (\<lambda>(directory, group).
       bindS (foldS (load_checkpoint X cfg directory) (None, None) (enumerate 0 (sort group))) (\<lambda>_. retS ()))))"

section \<open>Durable intake\<close>

definition load_pending :: "platform \<Rightarrow> ledger_config \<Rightarrow> pending \<Rightarrow> unit lm" where
  "load_pending X cfg p =
     (let eventId = event_id (pe_event p) in
      bindS (getS (\<lambda>s. (jm_get (eventIndex s) eventId, jm_get (pendingIndex s) eventId))) (\<lambda>known.
      case known of
        (Some r, _) \<Rightarrow>
          thenS (checkS (rs_recordHash r = pe_recordHash p) ''EVENT_ID_CONFLICT'') (remove_intake (intakeDirectory cfg) p)
      | (None, Some other) \<Rightarrow>
          thenS (checkS (pe_recordHash other = pe_recordHash p) ''EVENT_ID_CONFLICT'') (failS ''INTAKE_DUPLICATE'')
      | (None, None) \<Rightarrow>
          bindS (liftS (canonical_event_bytes X (pe_event p))) (\<lambda>bytes.
          modS (\<lambda>s. s\<lparr>pendingIndex := jm_set eventId (p\<lparr>pe_eventBytes := length bytes\<rparr>) (pendingIndex s),
                    pendingBytes := pendingBytes s + int (length bytes)\<rparr>))))"

definition load_durable_intake :: "platform \<Rightarrow> ledger_config \<Rightarrow> unit lm" where
  "load_durable_intake X cfg =
     bindS (initialize_intake X (intakeDirectory cfg)) (\<lambda>records. forS records (load_pending X cfg))"

section \<open>Active segments\<close>

definition reference_sealed :: "ledger \<Rightarrow> record_reference \<Rightarrow> bool" where
  "reference_sealed s r \<longleftrightarrow> (case jm_get (eventIndex s) (rr_eventId r) of
       None \<Rightarrow> False | Some sealed \<Rightarrow> rs_recordHash sealed = rr_recordHash r)"

definition position_matches :: "platform \<Rightarrow> ledger \<Rightarrow> active_state \<Rightarrow> bool" where
  "position_matches X s a \<longleftrightarrow>
     (let state = jm_get (shardStates s) (state_key (as_ledgerId a) (as_epochNumber a) (as_shardId a)) in
      (case jm_get (routingEpochs s) (as_ledgerId a) of None \<Rightarrow> False | Some e \<Rightarrow> epoch_number_of e = as_epochNumber a)
      \<and> as_ledgerDirectory a = ledger_directory X (as_ledgerId a)
      \<and> as_segmentNumber a = (case state of None \<Rightarrow> 0 | Some st \<Rightarrow> ss_nextSegmentNumber st)
      \<and> as_formatVersion a = (case jm_get (ledgerSegmentFormats s) (ledger_epoch_key (as_ledgerId a) (as_epochNumber a)) of
           None \<Rightarrow> 2 | Some v \<Rightarrow> v)
      \<and> as_previousSegmentHash a = map_option ss_previousSegmentHash state)"

record recovery =
  rv_seen :: "jsstr list"
  rv_blocks :: "active_block list"
  rv_recordCount :: nat
  rv_byteCount :: nat
  rv_allSealed :: bool

text \<open>One reference of a stored block: the record in durable intake, or nothing when it is sealed.\<close>

definition recover_reference ::
  "platform \<Rightarrow> verified_epoch \<Rightarrow> active_state \<Rightarrow> recovery \<times> pending list \<Rightarrow> record_reference
     \<Rightarrow> (recovery \<times> pending list) lm" where
  "recover_reference X epoch a = (\<lambda>(rv, records) r.
     bindS (getS (\<lambda>s. (rr_eventId r \<in> assignedPendingIds s, jm_get (pendingIndex s) (rr_eventId r), reference_sealed s r)))
       (\<lambda>(assigned, known, sealed).
     thenS (checkS (rr_eventId r \<notin> set (rv_seen rv) \<and> \<not> assigned) ''ACTIVE_STATE_DUPLICATE'')
     (let seen = rv\<lparr>rv_seen := rr_eventId r # rv_seen rv\<rparr> in
      case known of
        None \<Rightarrow> thenS (checkS sealed ''ACTIVE_STATE_RECORD'') (retS (seen, records))
      | Some p \<Rightarrow>
          thenS (checkS (pe_recordHash p = rr_recordHash r) ''ACTIVE_STATE_RECORD'')
          (bindS (liftS (route_event X (pe_event p) (policy_of epoch))) (\<lambda>route.
           thenS (checkS (shardId route = as_shardId a) ''ACTIVE_STATE_SHARD'')
           (thenS (modS (\<lambda>s. s\<lparr>assignedPendingIds := insert (rr_eventId r) (assignedPendingIds s)\<rparr>))
           (retS (seen\<lparr>rv_allSealed := False, rv_recordCount := rv_recordCount seen + 1,
              rv_byteCount := rv_byteCount seen + pe_eventBytes p + 4\<rparr>, records @ [p]))))))))"

definition recover_block ::
  "platform \<Rightarrow> ledger_config \<Rightarrow> verified_epoch \<Rightarrow> active_state \<Rightarrow> recovery \<Rightarrow> stored_block \<Rightarrow> recovery lm" where
  "recover_block X cfg epoch a rv b =
     bindS (foldS (recover_reference X epoch a) (rv, []) (sb_records b)) (\<lambda>(rv', records).
     if records = [] then retS rv'
     else
       bindS (liftS (mapR (\<lambda>p. framed_event_bytes X (pe_event p)) records)) (\<lambda>framed.
       let uncompressed = concat framed in
       thenS (checkS (sb_uncompressedLength b = length uncompressed
         \<and> sb_uncompressedLength b \<le> maxActiveBlockBytes (limits_of cfg)
         \<and> sb_recordsHash b = domain_digest X ''record-block-v1'' [uncompressed]) ''ACTIVE_STATE_BLOCK'')
       (bindS (liftS (decompress_block X (sb_data b) (sb_uncompressedLength b) (sb_uncompressedLength b))) (\<lambda>recovered.
        thenS (checkS (recovered = uncompressed) ''ACTIVE_STATE_BLOCK'')
        (retS (rv'\<lparr>rv_blocks := rv_blocks rv' @ [\<lparr>ab_records = records,
           ab_uncompressedLength = sb_uncompressedLength b, ab_recordsHash = sb_recordsHash b, ab_data = sb_data b\<rparr>]\<rparr>))))))"

definition recovered_segment ::
  "platform \<Rightarrow> active_state \<Rightarrow> jsstr \<Rightarrow> shard_state option \<Rightarrow> recovery \<Rightarrow> active_segment" where
  "recovered_segment X a path known rv = \<lparr>ac_ledgerId = as_ledgerId a, ac_shardId = as_shardId a,
     ac_epochNumber = as_epochNumber a, ac_formatVersion = as_formatVersion a,
     ac_directory = (case known of Some st \<Rightarrow> ss_directory st
       | None \<Rightarrow> segment_prefix X (as_ledgerId a) (as_epochNumber a) (as_shardId a) (as_formatVersion a)),
     ac_segmentNumber = as_segmentNumber a, ac_previousSegmentHash = map_option ss_previousSegmentHash known,
     ac_openedAt = as_openedAt a, ac_blocks = rv_blocks rv, ac_activeBlock = [], ac_activeBlockBytes = 0,
     ac_recordCount = rv_recordCount rv, ac_byteCount = rv_byteCount rv, ac_statePath = Some path\<rparr>"

definition load_active :: "platform \<Rightarrow> ledger_config \<Rightarrow> active_state \<times> jsstr \<Rightarrow> unit lm" where
  "load_active X cfg = (\<lambda>(a, path).
     let key = state_key (as_ledgerId a) (as_epochNumber a) (as_shardId a) in
     bindS (getS (\<lambda>s. jm_has (activeSegments s) key)) (\<lambda>taken.
     thenS (checkS (\<not> taken) ''ACTIVE_STATE_DUPLICATE'')
     (bindS (getS (\<lambda>s. list_all (reference_sealed s) (concat (map sb_records (as_blocks a))))) (\<lambda>allReferencesSealed.
      if allReferencesSealed then remove_state (activeStateDirectory cfg) path
      else
        bindS (getS (\<lambda>s. (position_matches X s a, jm_get (routingEpochs s) (as_ledgerId a), jm_get (shardStates s) key)))
          (\<lambda>(matches, epoch, known).
        thenS (checkS matches ''ACTIVE_STATE_POSITION'')
        (bindS (foldS (recover_block X cfg (the epoch) a)
            \<lparr>rv_seen = [], rv_blocks = [], rv_recordCount = 0, rv_byteCount = 0, rv_allSealed = True\<rparr> (as_blocks a)) (\<lambda>rv.
         if rv_allSealed rv then remove_state (activeStateDirectory cfg) path
         else
           thenS (checkS (rv_recordCount rv \<noteq> 0 \<and> length (rv_blocks rv) = length (as_blocks a)) ''ACTIVE_STATE_RECORD'')
           (let active = recovered_segment X a path known rv in
            modS (\<lambda>s. rebuild_provisional active (set_active key active s))))))))))"

definition load_active_segments :: "platform \<Rightarrow> ledger_config \<Rightarrow> unit lm" where
  "load_active_segments X cfg =
     bindS (initialize_states (activeStateDirectory cfg)) (\<lambda>stored. forS stored (load_active X cfg))"

section \<open>The whole startup\<close>

definition initialize_storage :: "ledger_config \<Rightarrow> unit lm" where
  "initialize_storage cfg = bindS next_fault (\<lambda>f s.
     case initialize (dataDirectory cfg) f (sealed_disk s) of
       (d, finished) \<Rightarrow> (s\<lparr>sealed_disk := d\<rparr>, if finished then Inr () else Inl (PlainError ''EIO'')))"

definition start_ledger :: "platform \<Rightarrow> ledger_config \<Rightarrow> unit lm" where
  "start_ledger X cfg =
     thenS (initialize_storage cfg)
     (thenS (load_routing_epochs X cfg)
     (thenS (load_segments X cfg)
     (bindS (getS verify_transition_heads) (\<lambda>verdict.
      thenS (liftS verdict)
      (thenS (load_checkpoints X cfg)
      (thenS (load_durable_intake X cfg)
      (thenS (load_active_segments X cfg)
      (drain_accepted X cfg True))))))))"

end
