(* ===== verification/G9P_Intake_Props.thy ===== *)
theory G9P_Intake_Props
  imports G9P_Intake G9P_Segment_Total G9P_Sealed_Objects
begin

text \<open>
  What durable intake promises: a record whose append returned is kept, across power failures too if the
  directories on its way have been synchronised, no operation touches the file of another record, and the file of a record reads back as the record.
\<close>

section \<open>Names of records\<close>

definition record_file :: "nat \<Rightarrow> jsstr \<Rightarrow> jsstr" where
  "record_file sequence recordHash = js ''intake-'' @ padded 12 sequence @ [45] @ recordHash @ js ''.intake''"

definition record_path :: "jsstr \<Rightarrow> pending \<Rightarrow> jsstr" where
  "record_path directory p = storage_path directory (record_file (pe_sequence p) (pe_recordHash p))"

lemma intake_name_Inr: "intake_name n h = Inr name \<longleftrightarrow> n \<le> MAX_SEQUENCE \<and> name = record_file n h"
  by (auto simp: intake_name_def record_file_def res_simps)

lemma record_path_final: "final_name (storage_path directory (record_file n h))"
proof -
  have "ends_with ''.intake'' ((directory @ 47 # js ''intake-'' @ padded 12 n @ [45] @ h) @ js ''.intake'')"
    unfolding ends_with_iff by blast
  then show ?thesis by (simp add: final_name_def storage_path_def record_file_def del: js_Cons)
qed

lemma hex_no_slash: "47 \<notin> set (to_hex bs)" "92 \<notin> set (to_hex bs)" "0 \<notin> set (to_hex bs)"
  using lower_hex_to_hex [of bs] by (auto simp: list_all_iff is_lower_hex_def)

lemma digits_no_slash: "47 \<notin> set (padded w n)" "92 \<notin> set (padded w n)" "0 \<notin> set (padded w n)"
  using is_digit_padded [of 47 w n] is_digit_padded [of 92 w n] is_digit_padded [of 0 w n] by (auto simp: is_digit_def)

lemma dirname_record: "dirname (storage_path directory (record_file n (to_hex hash))) = directory"
  using hex_no_slash(1) digits_no_slash(1) by (simp add: storage_path_def record_file_def)

lemma record_file_sequence:
  assumes "record_file m h = record_file n k" and "m \<le> MAX_SEQUENCE" and "n \<le> MAX_SEQUENCE"
  shows "m = n"
proof -
  have "length (padded 12 m) = 12" "length (padded 12 n) = 12"
    using assms(2,3) by (simp_all add: length_padded MAX_SEQUENCE_def)
  then have "padded 12 m = padded 12 n"
    using assms(1) by (simp add: record_file_def append_eq_append_conv del: js_Cons)
  then show ?thesis by (simp add: padded_inj)
qed

lemma record_path_sequence:
  "record_path directory p = record_path directory q \<Longrightarrow> pe_sequence p \<le> MAX_SEQUENCE \<Longrightarrow> pe_sequence q \<le> MAX_SEQUENCE
    \<Longrightarrow> pe_sequence p = pe_sequence q"
  by (auto simp: record_path_def storage_path_def dest: record_file_sequence)

section \<open>Writing a record\<close>

lemma promotion_spares: "final_name q \<Longrightarrow> list_all (\<lambda>op. spares op q) (promotion p bytes)"
  by (auto simp: promotion_def Let_def)

lemma promotion_five:
  "promotion p bytes = take 5 (promotion p bytes) @ [Unlink_File (part_path p), Sync_Directory (dirname p)]"
  "length (take 5 (promotion p bytes)) = 5"
  by (simp_all add: promotion_def Let_def eval_nat_numeral)

lemma promotion_five_kept:
  assumes "run_ops (take 5 (promotion p bytes)) None d = (e, True)" and "final_name p"
  shows "kept_as e p bytes"
  using assms by (auto simp: promotion_def Let_def kept_as_def eval_nat_numeral split: if_splits option.splits)

lemma retain_preserves:
  assumes "disk_ok d" and "final_name path" and "retain path bytes f d = (d', finished)"
  shows "disk_ok d'" and "kept_as d q kept \<Longrightarrow> kept_as d' q kept"
proof -
  have d': "d' = fst (run_ops (promotion path bytes) f d)" using assms(3) by (auto simp: retain_def Let_def)
  note ok = promotion_ok [OF assms(1,2), of bytes]
  show "disk_ok d'" using run_ops_ok [OF assms(1) ok] by (simp add: d')
  show "kept_as d' q kept" if "kept_as d q kept"
  proof -
    have "final_name q" using that by (simp add: kept_as_def)
    then show ?thesis using run_ops_keeps [OF assms(1) ok that promotion_spares] by (simp add: d')
  qed
qed

lemma run_past:
  assumes "run_ops xs None d = (e, True)" and "case f of None \<Rightarrow> True | Some (n, w) \<Rightarrow> length xs \<le> n"
  shows "\<exists>g. fst (run_ops (xs @ ys) f d) = fst (run_ops ys g e)"
proof (cases f)
  case None
  then show ?thesis by (auto simp: run_ops_append assms(1) and_then_def)
next
  case (Some nw)
  then obtain n w where f: "f = Some (n, w)" by (cases nw) simp
  then have "run_ops (xs @ ys) f d = run_ops ys (Some (n - length xs, w)) e"
    using assms by (simp add: run_ops_append and_then_def)
  then show ?thesis by metis
qed

lemma retain_keeps_new:
  assumes "disk_ok d" and "final_name path" and "retain path bytes f d = (d', True)"
  shows "kept_as d' path bytes"
proof -
  let ?five = "take 5 (promotion path bytes)"
  let ?rest = "[Unlink_File (part_path path), Sync_Directory (dirname path)]"
  define early where "early = (case f of None \<Rightarrow> None | Some (n, written) \<Rightarrow> if n < 5 then f else None)"
  have d': "d' = fst (run_ops (?five @ ?rest) f d)" and finished: "snd (run_ops ?five early d)"
    using assms(3) promotion_five(1) [of path bytes] by (auto simp: retain_def Let_def early_def)
  have none: "early = None"
    using finished faulted_run_fails [of ?five _ d] by (cases early) auto
  define e where "e = fst (run_ops ?five None d)"
  from finished none have e: "run_ops ?five None d = (e, True)" by (simp add: e_def prod_eq_iff)
  have kept: "kept_as e path bytes" by (rule promotion_five_kept [OF e assms(2)])
  have all: "ops_ok (?five @ ?rest) d" using promotion_ok [OF assms(1,2), of bytes] promotion_five(1) by metis
  have ok: "disk_ok e" and rest: "ops_ok ?rest e"
    using run_ops_ok [OF assms(1), of ?five None] ops_ok_append [OF all] finished none by (simp_all add: e_def)
  have still: "kept_as (fst (run_ops ?rest g e)) path bytes" for g
    by (rule run_ops_keeps [OF ok rest kept]) simp
  have "case f of None \<Rightarrow> True | Some (n, w) \<Rightarrow> length ?five \<le> n"
    using none promotion_five(2) [of path bytes] by (auto simp: early_def split: option.splits if_splits)
  from run_past [OF e this] have "\<exists>g. d' = fst (run_ops ?rest g e)" unfolding d' by blast
  then show ?thesis using still by blast
qed

section \<open>The operations on the stores\<close>

lemma next_fault_eq: "next_fault s = (s\<lparr>faults := tl (faults s)\<rparr>, Inr (if faults s = [] then None else hd (faults s)))"
  by (cases "faults s") (simp_all add: next_fault_def)

text \<open>An append changes the intake disk and, when it returns, the sequence; what it returns is the
  record that is kept under its path.\<close>

definition record_payload :: "pending \<Rightarrow> byte list \<Rightarrow> byte list \<Rightarrow> bool" where
  "record_payload p hash payload \<longleftrightarrow> to_hex hash = pe_recordHash p
     \<and> encode_canonical DEFAULT_LIMITS (intake_value (pe_sequence p) (pe_acceptedAt p) hash (pe_event p)) = Inr payload
     \<and> length payload \<le> MAX_INTAKE_BYTES"

definition well_recorded :: "platform \<Rightarrow> jsstr \<Rightarrow> pending \<Rightarrow> bool" where
  "well_recorded X directory p \<longleftrightarrow> pe_sequence p \<le> MAX_SEQUENCE \<and> pe_path p = record_path directory p
     \<and> is_canonical_timestamp (pe_acceptedAt p)
     \<and> (\<exists>hash. event_hash_of_event X (pe_event p) = Inr hash \<and> pe_recordHash p = to_hex hash)"

definition retained :: "platform \<Rightarrow> disk \<Rightarrow> pending \<Rightarrow> bool" where
  "retained X d p \<longleftrightarrow> (\<exists>hash payload. event_hash_of_event X (pe_event p) = Inr hash \<and> record_payload p hash payload
     \<and> kept_as d (pe_path p) payload)"

lemma append_intake_spec:
  assumes "append_intake X directory event s = (t, r)" and "disk_ok (intake_disk s)"
  obtains d n fs where "t = s\<lparr>faults := fs, intake_disk := d, intake_sequence := n\<rparr>" and "disk_ok d"
    and "\<And>q kept. kept_as (intake_disk s) q kept \<Longrightarrow> kept_as d q kept"
    and "intake_sequence s \<le> n"
    and "\<And>p. r = Inr p \<Longrightarrow> n = Suc (pe_sequence p) \<and> pe_sequence p = intake_sequence s \<and> pe_event p = event
           \<and> well_recorded X directory p \<and> retained X d p"
proof (cases "\<exists>hash payload. validate_event X event = Inr () \<and> is_canonical_timestamp (clock s)
    \<and> event_hash_of_event X event = Inr hash \<and> intake_sequence s \<le> MAX_SEQUENCE
    \<and> encode_canonical DEFAULT_LIMITS (intake_value (intake_sequence s) (clock s) hash event) = Inr payload
    \<and> length payload \<le> MAX_INTAKE_BYTES")
  case False
  then have "t = s \<and> (\<exists>e. r = Inl e)"
    using assms(1)
    by (auto simp: append_intake_def bindS_def thenS_def intake_name_Inr invariant_def failWith_def
        split: sum.splits if_splits)
  then show ?thesis using assms(2) that [where d = "intake_disk s" and n = "intake_sequence s" and fs = "faults s"] by auto
next
  case True
  then obtain hash payload where valid: "validate_event X event = Inr ()" and time: "is_canonical_timestamp (clock s)"
    and hash: "event_hash_of_event X event = Inr hash" and n: "intake_sequence s \<le> MAX_SEQUENCE"
    and payload: "encode_canonical DEFAULT_LIMITS (intake_value (intake_sequence s) (clock s) hash event) = Inr payload"
    and small: "length payload \<le> MAX_INTAKE_BYTES" by blast
  define path where "path = storage_path directory (record_file (intake_sequence s) (to_hex hash))"
  obtain d finished where d: "retain path payload (if faults s = [] then None else hd (faults s)) (intake_disk s) = (d, finished)"
    by fastforce
  have name: "intake_name (intake_sequence s) (to_hex hash) = Inr (record_file (intake_sequence s) (to_hex hash))"
    using n by (simp add: intake_name_Inr)
  have final: "final_name path" by (simp add: path_def record_path_final)
  note keeps = retain_preserves [OF assms(2) final d]
  have run: "append_intake X directory event s =
     (if finished then (s\<lparr>faults := tl (faults s), intake_disk := d, intake_sequence := intake_sequence s + 1\<rparr>,
        Inr \<lparr>pe_sequence = intake_sequence s, pe_acceptedAt = clock s, pe_recordHash = to_hex hash,
          pe_event = event, pe_path = path, pe_eventBytes = 0\<rparr>)
      else (s\<lparr>faults := tl (faults s), intake_disk := d\<rparr>, failWith ''INTAKE_WRITE''))"
    using d valid time hash name payload small
    by (simp add: append_intake_def bindS_def thenS_def next_fault_eq path_def invariant_def split: bool.split)
  show ?thesis
  proof (cases finished)
    case False
    with run assms(1) have "t = s\<lparr>faults := tl (faults s), intake_disk := d, intake_sequence := intake_sequence s\<rparr>"
      "r = failWith ''INTAKE_WRITE''" by simp_all
    then show ?thesis
      using that [where d = d and n = "intake_sequence s" and fs = "tl (faults s)"] keeps by (simp add: failWith_def)
  next
    case True
    define p where "p = \<lparr>pe_sequence = intake_sequence s, pe_acceptedAt = clock s, pe_recordHash = to_hex hash,
          pe_event = event, pe_path = path, pe_eventBytes = 0\<rparr>"
    from run assms(1) True have t: "t = s\<lparr>faults := tl (faults s), intake_disk := d, intake_sequence := Suc (intake_sequence s)\<rparr>"
      and r: "r = Inr p" by (simp_all add: p_def)
    have "kept_as d path payload" using retain_keeps_new [OF assms(2) final] d True by simp
    then have "retained X d p" using hash payload small by (simp add: retained_def record_payload_def p_def)
    moreover have "well_recorded X directory p" using n time hash by (simp add: well_recorded_def record_path_def path_def p_def)
    moreover have "pe_sequence p = intake_sequence s" "pe_event p = event" by (simp_all add: p_def)
    ultimately show ?thesis using r by (intro that [OF t keeps]) auto
  qed
qed

text \<open>A removal changes the intake disk only, and there only the file of the record.\<close>

lemma remove_intake_spec:
  assumes "remove_intake directory p s = (t, r)" and "disk_ok (intake_disk s)" and "\<not> sealed_name (pe_path p)"
  obtains d fs where "t = s\<lparr>faults := fs, intake_disk := d\<rparr>" and "disk_ok d"
    and "\<And>q kept. q \<noteq> pe_path p \<Longrightarrow> kept_as (intake_disk s) q kept \<Longrightarrow> kept_as d q kept"
proof -
  let ?ops = "[Unlink_File (pe_path p), Sync_Directory directory]"
  have ok: "ops_ok ?ops (intake_disk s)" using assms(3) by simp
  have kept: "kept_as (fst (run_ops ?ops f (intake_disk s))) q kept"
    if "q \<noteq> pe_path p" "kept_as (intake_disk s) q kept" for f q kept
    using run_ops_keeps [OF assms(2) ok that(2)] that(1) by auto
  have "\<exists>d fs. t = s\<lparr>faults := fs, intake_disk := d\<rparr> \<and> (d = intake_disk s \<or> (\<exists>f. d = fst (run_ops ?ops f (intake_disk s))))"
  proof -
    define f where "f = (if faults s = [] then None else hd (faults s))"
    obtain d finished where d: "run_ops ?ops f (intake_disk s) = (d, finished)" by fastforce
    then have "t = s\<lparr>faults := tl (faults s), intake_disk := intake_disk s\<rparr>
        \<or> t = s\<lparr>faults := tl (faults s), intake_disk := d\<rparr>"
      using assms(1) by (simp add: remove_intake_def bindS_def next_fault_eq f_def [symmetric] del: run_ops.simps split: if_splits)
    moreover have "d = fst (run_ops ?ops f (intake_disk s))" by (simp only: d fst_conv)
    ultimately show ?thesis by blast
  qed
  then obtain d fs where t: "t = s\<lparr>faults := fs, intake_disk := d\<rparr>"
    and d: "d = intake_disk s \<or> (\<exists>f. d = fst (run_ops ?ops f (intake_disk s)))" by blast
  show ?thesis
  proof (rule that [OF t])
    show "disk_ok d" using d assms(2) run_ops_ok [OF assms(2) ok] by blast
    show "kept_as d q kept" if "q \<noteq> pe_path p" "kept_as (intake_disk s) q kept" for q kept
      using d that kept by blast
  qed
qed

section \<open>Reading a record back\<close>

lemma kept_as_read: "kept_as d p bytes \<Longrightarrow> read_file d p = Some bytes"
  by (auto simp: kept_as_def read_file_def)

lemma event_hash_facts:
  assumes "event_hash_of_event X event = Inr hash"
  shows "validate_event X event = Inr ()" and "portable event \<Longrightarrow> validate_event X (canon event) = Inr ()"
    and "portable event \<Longrightarrow> event_hash_of_event X (canon event) = Inr hash"
    and "sha256_ok X \<Longrightarrow> length hash = 32"
proof -
  obtain bytes where v: "validate_event X event = Inr ()" and e: "encode_canonical DEFAULT_LIMITS event = Inr bytes"
    and h: "hash = event_hash X bytes"
    using assms by (auto simp: event_hash_of_event_def canonical_event_bytes_def res_simps)
  show "validate_event X event = Inr ()" by (rule v)
  show v': "validate_event X (canon event) = Inr ()" if "portable event"
    using validate_event_canon [OF that] v by blast
  show "event_hash_of_event X (canon event) = Inr hash" if "portable event"
    using v' [OF that] e h encode_value_canon
    by (simp add: event_hash_of_event_def canonical_event_bytes_def encode_canonical_def)
  show "length hash = 32" if "sha256_ok X" using that by (simp add: h event_hash_def)
qed

lemma decode_record_payload:
  assumes "record_payload p hash payload" and "event_hash_of_event X (pe_event p) = Inr hash"
    and "portable (pe_event p)" and "sha256_ok X" and "pe_sequence p \<le> MAX_SEQUENCE"
    and "is_canonical_timestamp (pe_acceptedAt p)"
  shows "decode_record X payload (record_file (pe_sequence p) (pe_recordHash p))
    = Inr (p\<lparr>pe_event := canon (pe_event p), pe_path := [], pe_eventBytes := 0\<rparr>)"
proof -
  define v where "v = intake_value (pe_sequence p) (pe_acceptedAt p) hash (pe_event p)"
  have port: "portable v"
    using assms(3,5,6) by (auto simp: v_def intake_value_def canonical_timestamp_portable MAX_SEQUENCE_def
        max_safe_integer_def simp del: js_Cons)
  note q = canon_obj_prop [OF port [unfolded v_def intake_value_def], folded intake_value_def v_def]
  have keys: "exact_keys (canon v) [''kind'', ''version'', ''sequence'', ''acceptedAt'', ''recordHash'', ''event'']"
    using port unfolding v_def intake_value_def by (rule canon_obj_keys) auto
  have obj: "is_object (canon v)" by (simp add: v_def intake_value_def)
  have f: "get_prop (canon v) ''kind'' = JStr (js ''g9p-durable-intake'')" "get_prop (canon v) ''version'' = JInt 1"
    "get_prop (canon v) ''sequence'' = JInt (int (pe_sequence p))" "get_prop (canon v) ''acceptedAt'' = JStr (pe_acceptedAt p)"
    "get_prop (canon v) ''recordHash'' = JBytes hash" "get_prop (canon v) ''event'' = canon (pe_event p)"
    by (simp_all add: q del: js_Cons)
  have "DEFAULT_LIMITS\<lparr>maxBytes := 67108864\<rparr> = DEFAULT_LIMITS" by (simp add: DEFAULT_LIMITS_def)
  moreover have "encode_canonical DEFAULT_LIMITS v = Inr payload" and "length payload \<le> maxBytes DEFAULT_LIMITS"
    and hash: "pe_recordHash p = to_hex hash"
    using assms(1) by (simp_all add: v_def record_payload_def MAX_INTAKE_BYTES_def DEFAULT_LIMITS_def)
  ultimately have decoded: "decode_canonical (DEFAULT_LIMITS\<lparr>maxBytes := 67108864\<rparr>) payload = Inr (canon v)"
    using decode_canonical_encode [OF _ port, of DEFAULT_LIMITS payload] by metis
  note e = event_hash_facts [OF assms(2)]
  have nums: "int_in 0 (int MAX_SEQUENCE) (JInt (int (pe_sequence p)))" "timestamp_text (JStr (pe_acceptedAt p))"
    "is_bytes 32 (JBytes hash)"
    using assms(4-6) e(4) by (simp_all add: int_in_def timestamp_text_def is_bytes_def)
  have plain: "int_of (JInt i) = i" "bytes_of (JBytes b) = b" for i b by (simp_all add: int_of_def bytes_of_def)
  have name: "intake_name (pe_sequence p) (to_hex hash) = Inr (record_file (pe_sequence p) (to_hex hash))"
    using assms(5) by (simp add: intake_name_Inr)
  show ?thesis
    using nums keys obj e(2,3) [OF assms(3)] name hash
    by (simp add: decode_record_def decoded f plain is_js_def invariant_def text_prop_def Let_def del: js_Cons)
qed

section \<open>When appending succeeds\<close>

lemma intake_value_measures:
  assumes "encodable event" and "nesting event \<le> 63" and "widest event \<le> 1000000" and "size_bound event \<le> 67000000"
    and "n \<le> MAX_SEQUENCE" and "is_canonical_timestamp acceptedAt" and "length hash = 32"
  shows "\<exists>payload. encode_canonical DEFAULT_LIMITS (intake_value n acceptedAt hash event) = Inr payload
    \<and> length payload \<le> MAX_INTAKE_BYTES"
proof -
  let ?v = "intake_value n acceptedAt hash event"
  have "encodable ?v" and "nesting ?v \<le> 64" and "widest ?v \<le> 1000000" and "size_bound ?v \<le> 67108864"
    using assms timestamp_length [OF assms(6)]
    by (simp_all add: intake_value_def obj_measures MAX_SEQUENCE_def max_safe_integer_def del: js_Cons)
  then obtain payload where "encode_canonical DEFAULT_LIMITS ?v = Inr payload" "length payload \<le> size_bound ?v"
    using encode_canonical_total by blast
  with \<open>size_bound ?v \<le> 67108864\<close> show ?thesis by (auto simp: MAX_INTAKE_BYTES_def)
qed

lemma run_ops_prefix: "snd (run_ops (xs @ ys) None d) \<Longrightarrow> snd (run_ops xs None d)"
  by (simp add: run_ops_append and_then_def split: if_splits)

lemma retain_succeeds:
  assumes "jm_get (names d) path = None" and "jm_get (names d) (part_path path) = None"
    and "is_folder d (dirname path)" and "\<not> is_folder d path" and "\<not> is_folder d (part_path path)"
  shows "snd (retain path bytes None d)"
proof -
  have "snd (run_ops (take 5 (promotion path bytes) @ [Unlink_File (part_path path), Sync_Directory (dirname path)]) None d)"
    using promotion_succeeds [OF assms, of bytes] promotion_five(1) by metis
  then have "snd (run_ops (take 5 (promotion path bytes)) None d)" by (rule run_ops_prefix)
  then show ?thesis by (simp add: retain_def Let_def)
qed

lemma append_intake_succeeds:
  assumes "event_hash_of_event X event = Inr hash" and "sha256_ok X"
    and "encodable event" and "nesting event \<le> 63" and "widest event \<le> 1000000" and "size_bound event \<le> 67000000"
    and "faults s = []" and "intake_sequence s \<le> MAX_SEQUENCE" and "is_canonical_timestamp (clock s)"
    and "jm_get (names (intake_disk s)) (storage_path directory (record_file (intake_sequence s) (to_hex hash))) = None"
    and "jm_get (names (intake_disk s)) (part_path (storage_path directory (record_file (intake_sequence s) (to_hex hash)))) = None"
    and "is_folder (intake_disk s) directory"
    and "\<not> is_folder (intake_disk s) (storage_path directory (record_file (intake_sequence s) (to_hex hash)))"
    and "\<not> is_folder (intake_disk s) (part_path (storage_path directory (record_file (intake_sequence s) (to_hex hash))))"
  shows "\<exists>t p. append_intake X directory event s = (t, Inr p)"
proof -
  note e = event_hash_facts [OF assms(1)]
  obtain payload where payload: "length payload \<le> MAX_INTAKE_BYTES"
    "encode_canonical DEFAULT_LIMITS (intake_value (intake_sequence s) (clock s) hash event) = Inr payload"
    using intake_value_measures [OF assms(3-6,8,9) e(4) [OF assms(2)]] by blast
  have name: "intake_name (intake_sequence s) (to_hex hash) = Inr (record_file (intake_sequence s) (to_hex hash))"
    using assms(8) by (simp add: intake_name_Inr)
  obtain d where "retain (storage_path directory (record_file (intake_sequence s) (to_hex hash))) payload None (intake_disk s) = (d, True)"
    using retain_succeeds [OF assms(10,11) _ assms(13,14)] assms(12) by (metis dirname_record prod.collapse)
  then show ?thesis
    using e(1) assms(1,7,9) name payload
    by (simp add: append_intake_def bindS_def thenS_def next_fault_eq invariant_def)
qed

definition sample_stores :: stores where
  "sample_stores = \<lparr>intake_disk = bare_disk {js ''/i''} {}, intake_sequence = 0, state_disk = empty_disk, sealed_disk = empty_disk,
     faults = [], clock = js ''2026-01-02T03:04:05.007Z''\<rparr>"

lemma sample_event_hash:
  assumes "n = ''e1'' \<or> n = ''e2''"
  shows "\<exists>hash. event_hash_of_event toy_platform (sample_event n) = Inr hash"
proof -
  obtain bs where "canonical_event_bytes toy_platform (sample_event n) = Inr bs"
    using assms by (rule sample_event_bytes)
  then show ?thesis by (simp add: event_hash_of_event_def)
qed

lemma sample_event_measures:
  "encodable (sample_event n)" "nesting (sample_event n) \<le> 63" "widest (sample_event n) \<le> 1000000"
  "length n < 1000 \<Longrightarrow> size_bound (sample_event n) \<le> 10000"
  by (simp_all add: sample_event_def obj_measures max_safe_integer_def del: js_Cons)

lemma bare_intake_clear:
  assumes "\<forall>p \<in> F. 46 \<notin> set p"
  shows "\<not> is_folder (bare_disk F D) (storage_path directory (record_file n h))"
    and "\<not> is_folder (bare_disk F D) (part_path (storage_path directory (record_file n h)))"
  using with_ancestors_plain [OF assms] by (fastforce simp: storage_path_def record_file_def part_path_def)+

lemma sample_append:
  "\<exists>t p. append_intake toy_platform (js ''/i'') (sample_event ''e1'') sample_stores = (t, Inr p)"
proof -
  obtain hash where hash: "event_hash_of_event toy_platform (sample_event ''e1'') = Inr hash"
    using sample_event_hash by blast
  have "\<forall>p \<in> {js ''/i''}. 46 \<notin> set p" by simp
  note clear = bare_intake_clear [OF this]
  show ?thesis
    by (rule append_intake_succeeds [OF hash toy_sha256_ok sample_event_measures(1-3)])
      (use sample_event_measures(4) [of "''e1''"] sample_times clear in \<open>simp_all add: sample_stores_def with_ancestors_def del: js_Cons\<close>)
qed



end
