(* ===== verification/G9P_Custody.thy ===== *)
theory G9P_Custody
  imports G9P_Ledger G9P_Intake_Props
begin

text \<open>
  The invariant of the local ledger: every event it has ever accepted is recorded under its hash,
  either with an intake file that is whole and synchronised, as its entry is, or with such a sealed
  segment that contains it. The invariant speaks of the records in the indexes and of those a method has in hand.
\<close>

section \<open>What the ledger knows of an event\<close>

definition pe_id :: "pending \<Rightarrow> jsstr" where
  "pe_id p = event_id (pe_event p)"

definition recorded :: "ledger \<Rightarrow> jsstr \<Rightarrow> jsstr option" where
  "recorded s i = (case jm_get (eventIndex s) i of
       Some r \<Rightarrow> Some (rs_recordHash r)
     | None \<Rightarrow> map_option pe_recordHash (jm_get (pendingIndex s) i))"

definition block_records :: "active_segment \<Rightarrow> pending list" where
  "block_records a = concat (map ab_records (ac_blocks a))"

definition active_records :: "active_segment \<Rightarrow> pending list" where
  "active_records a = block_records a @ ac_activeBlock a"

definition held :: "ledger \<Rightarrow> pending set" where
  "held s = {p. \<exists>i. jm_get (pendingIndex s) i = Some p}
     \<union> {p. \<exists>key a. jm_get (activeSegments s) key = Some a \<and> p \<in> set (active_records a)}"

definition record_ok :: "platform \<Rightarrow> ledger_config \<Rightarrow> ledger \<Rightarrow> pending \<Rightarrow> bool" where
  "record_ok X cfg s p \<longleftrightarrow> pe_sequence p < intake_sequence s \<and> recorded s (pe_id p) = Some (pe_recordHash p)
     \<and> well_recorded X (intakeDirectory cfg) p"

definition records_ok :: "platform \<Rightarrow> ledger_config \<Rightarrow> ledger \<Rightarrow> pending set \<Rightarrow> bool" where
  "records_ok X cfg s S \<longleftrightarrow> (\<forall>p \<in> S. record_ok X cfg s p)
     \<and> (\<forall>p \<in> S. \<forall>q \<in> S. pe_sequence p = pe_sequence q \<longrightarrow> pe_id p = pe_id q)"

text \<open>A receipt for a sealed event is backed by a segment that was written and sealed under the key of
  its position, with the event at the place the receipt names.\<close>

definition segment_path :: "ledger_config \<Rightarrow> jsstr \<Rightarrow> nat \<Rightarrow> jsstr" where
  "segment_path cfg directory n = dataDirectory cfg @ 47 # directory @ 47 # segment_file_name n"

definition evidence :: "platform \<Rightarrow> ledger_config \<Rightarrow> disk \<Rightarrow> sealed_receipt \<Rightarrow> bool" where
  "evidence X cfg d r \<longleftrightarrow> (\<exists>rq bytes result directory hash.
     write_segment X rq = Inr (bytes, result) \<and> rq_segmentNumber rq = rs_segmentNumber r
     \<and> sealed_as d (segment_path cfg directory (rs_segmentNumber r)) bytes
     \<and> rs_segmentHash r = sr_segmentHash result
     \<and> rs_recordIndex r < length (rq_events rq) \<and> event_id (rq_events rq ! rs_recordIndex r) = rs_eventId r
     \<and> event_hash_of_event X (rq_events rq ! rs_recordIndex r) = Inr hash \<and> rs_recordHash r = to_hex hash)"

definition indexes_ok :: "platform \<Rightarrow> ledger_config \<Rightarrow> ledger \<Rightarrow> bool" where
  "indexes_ok X cfg s \<longleftrightarrow> jm_wf (pendingIndex s) \<and> length (pendingIndex s) \<le> maxAcceptedEvents (limits_of cfg)
     \<and> disk_ok (intake_disk s) \<and> disk_ok (sealed_disk s)
     \<and> (\<forall>i p. jm_get (pendingIndex s) i = Some p \<longrightarrow> pe_id p = i
          \<and> (jm_get (eventIndex s) i = None \<longrightarrow> retained X (intake_disk s) p))
     \<and> (\<forall>i r. jm_get (eventIndex s) i = Some r \<longrightarrow> rs_eventId r = i \<and> evidence X cfg (sealed_disk s) r)
     \<and> (\<forall>i r. jm_get (provisionalIndex s) i = Some r \<longrightarrow> rp_eventId r = i \<and> recorded s i = Some (rp_recordHash r))"

text \<open>The invariant with the records \<open>R\<close> in hand.\<close>

definition custody :: "platform \<Rightarrow> ledger_config \<Rightarrow> pending set \<Rightarrow> ledger \<Rightarrow> bool" where
  "custody X cfg R s \<longleftrightarrow> indexes_ok X cfg s \<and> records_ok X cfg s (R \<union> held s)"

text \<open>Nothing that was recorded or sealed is lost or changed.\<close>

definition keeps_faith :: "ledger \<Rightarrow> ledger \<Rightarrow> bool" where
  "keeps_faith s t \<longleftrightarrow> recorded s \<subseteq>\<^sub>m recorded t \<and> disk_grows (sealed_disk s) (sealed_disk t)"

definition guarded :: "platform \<Rightarrow> ledger_config \<Rightarrow> ledger \<Rightarrow> pending set \<Rightarrow> ledger \<Rightarrow> bool" where
  "guarded X cfg s0 R s \<longleftrightarrow> custody X cfg R s \<and> keeps_faith s0 s"

lemma recorded_cong: "eventIndex t = eventIndex s \<Longrightarrow> pendingIndex t = pendingIndex s \<Longrightarrow> recorded t = recorded s"
  by (rule ext) (simp add: recorded_def split: option.split)

lemma keeps_faith_refl: "keeps_faith s s"
  by (simp add: keeps_faith_def disk_grows_refl)

lemma keeps_faith_trans: "keeps_faith s t \<Longrightarrow> keeps_faith t u \<Longrightarrow> keeps_faith s u"
  unfolding keeps_faith_def by (blast intro: map_le_trans disk_grows_trans)

lemma indexes_okD:
  assumes "indexes_ok X cfg s"
  shows "jm_wf (pendingIndex s)" and "disk_ok (intake_disk s)" and "disk_ok (sealed_disk s)"
    and "jm_get (pendingIndex s) i = Some p \<Longrightarrow> pe_id p = i"
    and "jm_get (pendingIndex s) i = Some p \<Longrightarrow> jm_get (eventIndex s) i = None \<Longrightarrow> retained X (intake_disk s) p"
    and "jm_get (eventIndex s) i = Some r \<Longrightarrow> rs_eventId r = i \<and> evidence X cfg (sealed_disk s) r"
    and "jm_get (provisionalIndex s) i = Some v \<Longrightarrow> rp_eventId v = i \<and> recorded s i = Some (rp_recordHash v)"
    and "length (pendingIndex s) \<le> maxAcceptedEvents (limits_of cfg)"
  using assms unfolding indexes_ok_def by blast+

lemma indexes_okI:
  assumes "jm_wf (pendingIndex s)" and "disk_ok (intake_disk s)" and "disk_ok (sealed_disk s)"
    and "\<And>i p. jm_get (pendingIndex s) i = Some p \<Longrightarrow> pe_id p = i"
    and "\<And>i p. jm_get (pendingIndex s) i = Some p \<Longrightarrow> jm_get (eventIndex s) i = None \<Longrightarrow> retained X (intake_disk s) p"
    and "\<And>i r. jm_get (eventIndex s) i = Some r \<Longrightarrow> rs_eventId r = i \<and> evidence X cfg (sealed_disk s) r"
    and "\<And>i v. jm_get (provisionalIndex s) i = Some v \<Longrightarrow> rp_eventId v = i \<and> recorded s i = Some (rp_recordHash v)"
    and "length (pendingIndex s) \<le> maxAcceptedEvents (limits_of cfg)"
  shows "indexes_ok X cfg s"
  using assms unfolding indexes_ok_def by blast

lemma records_ok_mono:
  assumes "records_ok X cfg s S" and "T \<subseteq> S" and "intake_sequence s \<le> intake_sequence t" and "recorded s \<subseteq>\<^sub>m recorded t"
  shows "records_ok X cfg t T"
proof -
  have "recorded t i = Some h" if "recorded s i = Some h" for i h
    using assms(4) that by (metis domI map_le_def)
  then show ?thesis using assms(1,2,3) unfolding records_ok_def record_ok_def by (meson less_le_trans subsetD)
qed

lemma guarded_hand: "guarded X cfg s0 R s \<Longrightarrow> T \<subseteq> R \<union> held s \<Longrightarrow> guarded X cfg s0 T s"
  unfolding guarded_def custody_def by (metis Un_least Un_upper2 map_le_refl order_refl records_ok_mono)

lemma guarded_more: "guarded X cfg s0 R s \<Longrightarrow> T \<subseteq> held s \<Longrightarrow> guarded X cfg s0 (R \<union> T) s"
  by (rule guarded_hand) auto

lemma guarded_record:
  assumes "guarded X cfg s0 R s" and "p \<in> R \<union> held s"
  shows "record_ok X cfg s p"
  using assms by (simp add: guarded_def custody_def records_ok_def)

lemma guarded_sequence:
  assumes "guarded X cfg s0 R s" and "p \<in> R \<union> held s" and "q \<in> R \<union> held s" and "pe_path p = pe_path q"
  shows "pe_id p = pe_id q"
proof -
  have "well_recorded X (intakeDirectory cfg) p" "well_recorded X (intakeDirectory cfg) q"
    using guarded_record [OF assms(1)] assms(2,3) by (simp_all add: record_ok_def)
  then have "pe_sequence p = pe_sequence q"
    using assms(4) unfolding well_recorded_def by (metis record_path_sequence)
  then show ?thesis using assms(1-3) unfolding guarded_def custody_def records_ok_def by blast
qed

section \<open>Changes of the state\<close>

text \<open>The part of the state that the invariant is about; a computation is quiet if it leaves it alone.\<close>

definition core :: "ledger \<Rightarrow> _" where
  "core s = (intake_disk s, intake_sequence s, sealed_disk s, eventIndex s, pendingIndex s, provisionalIndex s,
     activeSegments s)"

lemma guarded_core:
  assumes "core t = core s"
  shows "guarded X cfg s0 R t \<longleftrightarrow> guarded X cfg s0 R s"
proof -
  have f: "intake_disk t = intake_disk s" "intake_sequence t = intake_sequence s" "sealed_disk t = sealed_disk s"
    "eventIndex t = eventIndex s" "pendingIndex t = pendingIndex s" "provisionalIndex t = provisionalIndex s"
    "activeSegments t = activeSegments s"
    using assms by (simp_all add: core_def)
  have "recorded t = recorded s" by (rule recorded_cong) (simp_all add: f)
  moreover have "held t = held s" by (simp add: held_def f)
  ultimately show ?thesis
    by (simp add: guarded_def custody_def keeps_faith_def indexes_ok_def records_ok_def record_ok_def f)
qed

lemma guardedI:
  assumes "guarded X cfg s0 R s" and "indexes_ok X cfg t" and "held t \<subseteq> R \<union> held s"
    and "intake_sequence s \<le> intake_sequence t" and "recorded s \<subseteq>\<^sub>m recorded t"
    and "disk_grows (sealed_disk s) (sealed_disk t)"
  shows "guarded X cfg s0 R t"
proof -
  from assms(1) have "records_ok X cfg s (R \<union> held s)" and "keeps_faith s0 s"
    by (simp_all add: guarded_def custody_def)
  moreover have "R \<union> held t \<subseteq> R \<union> held s" using assms(3) by blast
  ultimately have "records_ok X cfg t (R \<union> held t)" and "keeps_faith s0 t"
    using records_ok_mono [OF _ _ assms(4,5)] assms(5,6) keeps_faith_trans [of s0 s t] by (auto simp: keeps_faith_def)
  then show ?thesis using assms(2) by (simp add: guarded_def custody_def)
qed

lemma evidence_grows: "evidence X cfg d r \<Longrightarrow> disk_grows d d' \<Longrightarrow> evidence X cfg d' r"
  unfolding evidence_def disk_grows_def by (elim exE conjE) (intro exI conjI; blast)

lemma guarded_sealed_disk:
  assumes "guarded X cfg s0 R s" and "disk_ok d" and "disk_grows (sealed_disk s) d"
  shows "guarded X cfg s0 R (s\<lparr>faults := fs, sealed_disk := d\<rparr>)"
proof (rule guardedI [OF assms(1)])
  let ?t = "s\<lparr>faults := fs, sealed_disk := d\<rparr>"
  note ok = indexes_okD [of X cfg s]
  have ix: "indexes_ok X cfg s" using assms(1) by (simp add: guarded_def custody_def)
  have rec: "recorded ?t = recorded s" by (rule recorded_cong) simp_all
  then show "recorded s \<subseteq>\<^sub>m recorded ?t" by simp
  show "held ?t \<subseteq> R \<union> held s" by (auto simp: held_def)
  show "indexes_ok X cfg ?t"
    using ok [OF ix] assms(2) rec evidence_grows [OF _ assms(3)] by (intro indexes_okI) simp_all
qed (simp_all add: assms(3))

lemma guarded_actives:
  assumes "guarded X cfg s0 R s"
    and "\<And>key a. jm_get actives key = Some a \<Longrightarrow> set (active_records a) \<subseteq> R \<union> held s"
  shows "guarded X cfg s0 R (s\<lparr>activeSegments := actives\<rparr>)"
proof (rule guardedI [OF assms(1)])
  let ?t = "s\<lparr>activeSegments := actives\<rparr>"
  have ix: "indexes_ok X cfg s" using assms(1) by (simp add: guarded_def custody_def)
  have rec: "recorded ?t = recorded s" by (rule recorded_cong) simp_all
  then show "recorded s \<subseteq>\<^sub>m recorded ?t" by simp
  show "held ?t \<subseteq> R \<union> held s" using assms(2) by (fastforce simp: held_def)
  show "indexes_ok X cfg ?t" using ix rec by (simp add: indexes_ok_def)
qed (simp_all add: disk_grows_refl)

lemma held_active: "jm_get (activeSegments s) key = Some a \<Longrightarrow> set (active_records a) \<subseteq> held s"
  by (auto simp: held_def)

lemma guarded_set_active:
  assumes "guarded X cfg s0 R s" and "set (active_records a) \<subseteq> R \<union> held s"
  shows "guarded X cfg s0 R (set_active key a s)"
  unfolding set_active_def
  by (rule guarded_actives [OF assms(1)]) (use assms(2) held_active [of s] in \<open>auto split: if_splits\<close>)

lemma guarded_delete_active:
  assumes "guarded X cfg s0 R s"
  shows "guarded X cfg s0 R (s\<lparr>activeSegments := jm_delete key (activeSegments s)\<rparr>)"
  by (rule guarded_actives [OF assms]) (use held_active [of s] in \<open>auto split: if_splits\<close>)

lemma guarded_provisional:
  assumes "guarded X cfg s0 R s"
    and "\<And>i v. jm_get provisional i = Some v \<Longrightarrow> jm_get (provisionalIndex s) i = Some v
           \<or> rp_eventId v = i \<and> recorded s i = Some (rp_recordHash v)"
  shows "guarded X cfg s0 R (s\<lparr>provisionalIndex := provisional\<rparr>)"
proof (rule guardedI [OF assms(1)])
  let ?t = "s\<lparr>provisionalIndex := provisional\<rparr>"
  have ix: "indexes_ok X cfg s" using assms(1) by (simp add: guarded_def custody_def)
  have rec: "recorded ?t = recorded s" by (rule recorded_cong) simp_all
  then show "recorded s \<subseteq>\<^sub>m recorded ?t" by simp
  show "held ?t \<subseteq> R \<union> held s" by (auto simp: held_def)
  show "indexes_ok X cfg ?t" using ix rec assms(2) unfolding indexes_ok_def by fastforce
qed (simp_all add: disk_grows_refl)

lemma fold_set_values:
  "jm_get (fold (\<lambda>(k, v). jm_set k v) entries m) i = Some v \<Longrightarrow> (i, v) \<in> set entries \<or> jm_get m i = Some v"
proof (induction entries arbitrary: m)
  case (Cons e entries)
  obtain k w where e: "e = (k, w)" by (cases e)
  from Cons.IH [of "jm_set k w m"] Cons.prems have "(i, v) \<in> set entries \<or> jm_get (jm_set k w m) i = Some v"
    by (simp add: e)
  then show ?case by (auto simp: e split: if_splits)
qed simp

lemma fold_set_domain:
  "jm_get (fold (\<lambda>(k, v). jm_set k v) entries m) i = None \<longleftrightarrow> i \<notin> fst ` set entries \<and> jm_get m i = None"
proof (induction entries arbitrary: m)
  case (Cons e entries)
  obtain k w where e: "e = (k, w)" by (cases e)
  show ?case using Cons.IH [of "jm_set k w m"] by (auto simp: e)
qed simp

text \<open>Placing sealed receipts in the index changes nothing that is recorded.\<close>

lemma recorded_sealed:
  assumes "\<And>i r. (i, r) \<in> set entries \<Longrightarrow> recorded s i = Some (rs_recordHash r)"
  shows "recorded (s\<lparr>eventIndex := fold (\<lambda>(k, r). jm_set k r) entries (eventIndex s)\<rparr>) = recorded s"
proof
  fix i
  let ?m = "fold (\<lambda>(k, r). jm_set k r) entries (eventIndex s)"
  show "recorded (s\<lparr>eventIndex := ?m\<rparr>) i = recorded s i"
  proof (cases "jm_get ?m i")
    case None
    then show ?thesis using fold_set_domain [of entries "eventIndex s" i] by (simp add: recorded_def)
  next
    case (Some r)
    then consider "(i, r) \<in> set entries" | "jm_get (eventIndex s) i = Some r" by (blast dest: fold_set_values)
    then show ?thesis
    proof cases
      case 1
      then show ?thesis using assms Some by (simp add: recorded_def)
    next
      case 2
      then show ?thesis using Some by (simp add: recorded_def)
    qed
  qed
qed

lemma guarded_event_index:
  assumes "guarded X cfg s0 R s"
    and "\<And>i r. (i, r) \<in> set entries \<Longrightarrow> rs_eventId r = i \<and> evidence X cfg (sealed_disk s) r
           \<and> recorded s i = Some (rs_recordHash r)"
  shows "guarded X cfg s0 R (s\<lparr>eventIndex := fold (\<lambda>(k, r). jm_set k r) entries (eventIndex s)\<rparr>)"
proof (rule guardedI [OF assms(1)])
  let ?m = "fold (\<lambda>(k, r). jm_set k r) entries (eventIndex s)"
  let ?t = "s\<lparr>eventIndex := ?m\<rparr>"
  have ix: "indexes_ok X cfg s" using assms(1) by (simp add: guarded_def custody_def)
  have rec: "recorded ?t = recorded s" using assms(2) by (intro recorded_sealed) blast
  then show "recorded s \<subseteq>\<^sub>m recorded ?t" by simp
  show "held ?t \<subseteq> R \<union> held s" by (auto simp: held_def)
  show "indexes_ok X cfg ?t"
  proof (rule indexes_okI)
    fix i r
    assume "jm_get (eventIndex ?t) i = Some r"
    then have "(i, r) \<in> set entries \<or> jm_get (eventIndex s) i = Some r" by (simp add: fold_set_values)
    then show "rs_eventId r = i \<and> evidence X cfg (sealed_disk ?t) r"
      using assms(2) indexes_okD(6) [OF ix] by auto
  next
    fix i p
    assume "jm_get (pendingIndex ?t) i = Some p" "jm_get (eventIndex ?t) i = None"
    then show "retained X (intake_disk ?t) p" using indexes_okD(5) [OF ix, of i p] by (simp add: fold_set_domain)
  qed (use indexes_okD [OF ix] rec in simp_all)
qed (simp_all add: disk_grows_refl)

lemma length_jm_delete: "length (jm_delete k m) \<le> length m"
  by (simp add: jm_delete_def length_delete_le)

lemma length_jm_set: "length (jm_set k v m) \<le> Suc (length m)"
  by (induction m) (auto simp: jm_set_def)

text \<open>A sealed event may leave the pending index.\<close>

lemma guarded_delete_pending:
  assumes "guarded X cfg s0 R s" and "jm_get (eventIndex s) i \<noteq> None"
  shows "guarded X cfg s0 R (s\<lparr>pendingIndex := jm_delete i (pendingIndex s)\<rparr>)"
proof (rule guardedI [OF assms(1)])
  let ?t = "s\<lparr>pendingIndex := jm_delete i (pendingIndex s)\<rparr>"
  have ix: "indexes_ok X cfg s" using assms(1) by (simp add: guarded_def custody_def)
  have rec: "recorded ?t = recorded s" using assms(2) by (auto simp: recorded_def fun_eq_iff split: option.split)
  then show "recorded s \<subseteq>\<^sub>m recorded ?t" by simp
  show "held ?t \<subseteq> R \<union> held s" by (auto simp: held_def split: if_splits)
  show "indexes_ok X cfg ?t"
    by (rule indexes_okI)
      (use indexes_okD [OF ix] rec length_jm_delete [of i "pendingIndex s"] in \<open>auto split: if_splits\<close>)
qed (simp_all add: disk_grows_refl)

lemma record_path_not_sealed: "well_recorded X directory p \<Longrightarrow> \<not> sealed_name (pe_path p)"
proof
  assume "well_recorded X directory p" "sealed_name (pe_path p)"
  then obtain a b where "a @ js ''.intake'' = b @ js ''.g9p''"
    by (auto simp: well_recorded_def record_path_def record_file_def storage_path_def ends_with_iff simp del: js_Cons)
      (metis append.assoc append_Cons)
  then have "last (a @ js ''.intake'') = last (b @ js ''.g9p'')" by simp
  then show False by simp
qed

lemma retained_kept: "retained X d p \<Longrightarrow> (\<And>kept. kept_as d (pe_path p) kept \<Longrightarrow> kept_as d' (pe_path p) kept) \<Longrightarrow> retained X d' p"
  unfolding retained_def by blast

text \<open>The removal of the intake file of a sealed event spares every other file that is needed.\<close>

lemma guarded_remove_intake:
  assumes "guarded X cfg s0 R s" and "p \<in> R \<union> held s" and "jm_get (eventIndex s) (pe_id p) \<noteq> None"
    and "remove_intake directory p s = (t, r)"
  shows "guarded X cfg s0 R t \<and> eventIndex t = eventIndex s"
proof -
  have ix: "indexes_ok X cfg s" using assms(1) by (simp add: guarded_def custody_def)
  have "\<not> sealed_name (pe_path p)"
    using guarded_record [OF assms(1,2)] record_path_not_sealed by (auto simp: record_ok_def)
  then obtain d fs where t: "t = s\<lparr>faults := fs, intake_disk := d\<rparr>" and ok: "disk_ok d"
    and kept: "\<And>q kept. q \<noteq> pe_path p \<Longrightarrow> kept_as (intake_disk s) q kept \<Longrightarrow> kept_as d q kept"
    using remove_intake_spec [OF assms(4) indexes_okD(2) [OF ix]] by metis
  have rec: "recorded t = recorded s" by (rule recorded_cong) (simp_all add: t)
  have "guarded X cfg s0 R t"
  proof (rule guardedI [OF assms(1)])
    show "held t \<subseteq> R \<union> held s" by (auto simp: held_def t)
    show "indexes_ok X cfg t"
    proof (rule indexes_okI)
      fix i q
      assume q: "jm_get (pendingIndex t) i = Some q" "jm_get (eventIndex t) i = None"
      then have "pe_id q = i" and old: "retained X (intake_disk s) q" and "q \<in> held s"
        using indexes_okD(4,5) [OF ix] by (auto simp: t held_def)
      then have "pe_path p \<noteq> pe_path q"
        using guarded_sequence [OF assms(1,2), of q] assms(3) q(2) by (auto simp: t)
      then show "retained X (intake_disk t) q"
        using kept [of "pe_path q"] by (intro retained_kept [OF old]) (auto simp: t)
    qed (use indexes_okD [OF ix] rec ok in \<open>simp_all add: t\<close>)
    show "recorded s \<subseteq>\<^sub>m recorded t" using rec by simp
  qed (simp_all add: t disk_grows_refl)
  then show ?thesis by (simp add: t)
qed

section \<open>Acceptance\<close>

lemma retained_eventBytes [simp]: "retained X d (p\<lparr>pe_eventBytes := n\<rparr>) = retained X d p"
  "well_recorded X directory (p\<lparr>pe_eventBytes := n\<rparr>) = well_recorded X directory p"
  by (simp_all add: retained_def record_payload_def well_recorded_def record_path_def)

lemma guarded_intake_disk:
  assumes "guarded X cfg s0 R s" and "disk_ok d" and "\<And>q kept. kept_as (intake_disk s) q kept \<Longrightarrow> kept_as d q kept"
    and "intake_sequence s \<le> n" and "t = s\<lparr>faults := fs, intake_disk := d, intake_sequence := n\<rparr>"
  shows "guarded X cfg s0 R t" and "recorded t = recorded s" and "held t = held s"
proof -
  have ix: "indexes_ok X cfg s" using assms(1) by (simp add: guarded_def custody_def)
  show rec: "recorded t = recorded s" by (rule recorded_cong) (simp_all add: assms(5))
  show held: "held t = held s" by (simp add: held_def assms(5))
  show "guarded X cfg s0 R t"
  proof (rule guardedI [OF assms(1)])
    show "indexes_ok X cfg t"
    proof (rule indexes_okI)
      fix i q
      assume "jm_get (pendingIndex t) i = Some q" "jm_get (eventIndex t) i = None"
      then have "retained X (intake_disk s) q" using indexes_okD(5) [OF ix] by (simp add: assms(5))
      then show "retained X (intake_disk t) q" by (rule retained_kept) (simp add: assms(3,5))
    qed (use indexes_okD [OF ix] rec assms(2) in \<open>simp_all add: assms(5)\<close>)
    show "recorded s \<subseteq>\<^sub>m recorded t" using rec by simp
  qed (simp_all add: held, simp_all add: assms(4,5) disk_grows_refl)
qed

lemma guarded_insert:
  assumes "guarded X cfg s0 R s" and "recorded s i = None" and "pe_id p = i" and "retained X (intake_disk s) p"
    and "well_recorded X (intakeDirectory cfg) p" and "pe_sequence p < intake_sequence s"
    and "\<And>q. q \<in> R \<union> held s \<Longrightarrow> pe_sequence q < pe_sequence p"
    and "length (pendingIndex s) < maxAcceptedEvents (limits_of cfg)"
  shows "guarded X cfg s0 R (s\<lparr>pendingIndex := jm_set i p (pendingIndex s)\<rparr>)"
    and "recorded (s\<lparr>pendingIndex := jm_set i p (pendingIndex s)\<rparr>) = (recorded s)(i \<mapsto> pe_recordHash p)"
proof -
  let ?t = "s\<lparr>pendingIndex := jm_set i p (pendingIndex s)\<rparr>"
  have ix: "indexes_ok X cfg s" using assms(1) by (simp add: guarded_def custody_def)
  have new: "jm_get (eventIndex s) i = None" using assms(2) by (simp add: recorded_def split: option.splits)
  show rec: "recorded ?t = (recorded s)(i \<mapsto> pe_recordHash p)"
    using new by (auto simp: recorded_def fun_eq_iff split: option.split)
  have more: "recorded s \<subseteq>\<^sub>m recorded ?t" using assms(2) rec by (auto simp: map_le_def)
  have held: "held ?t \<subseteq> insert p (held s)" by (auto simp: held_def split: if_splits)
  have "records_ok X cfg s (R \<union> held s)" using assms(1) by (simp add: guarded_def custody_def)
  then have old: "records_ok X cfg ?t (R \<union> held s)" by (rule records_ok_mono) (use more in simp_all)
  have this_one: "record_ok X cfg ?t p" using assms(3,5,6) rec by (simp add: record_ok_def)
  have "records_ok X cfg ?t (insert p (R \<union> held s))"
    using old this_one assms(7) unfolding records_ok_def by (metis insert_iff less_irrefl)
  then have all: "records_ok X cfg ?t (R \<union> held ?t)" by (rule records_ok_mono) (use held in auto)
  have "indexes_ok X cfg ?t"
  proof (rule indexes_okI)
    fix j q
    assume "jm_get (pendingIndex ?t) j = Some q"
    then show "pe_id q = j" using indexes_okD(4) [OF ix] assms(3) by (auto split: if_splits)
  next
    fix j q
    assume "jm_get (pendingIndex ?t) j = Some q" "jm_get (eventIndex ?t) j = None"
    then show "retained X (intake_disk ?t) q" using indexes_okD(5) [OF ix] assms(4) by (auto split: if_splits)
  next
    fix j v
    assume "jm_get (provisionalIndex ?t) j = Some v"
    then have v: "rp_eventId v = j" "recorded s j = Some (rp_recordHash v)" using indexes_okD(7) [OF ix] by simp_all
    then have "recorded ?t j = Some (rp_recordHash v)" using more by (metis domI map_le_def)
    with v(1) show "rp_eventId v = j \<and> recorded ?t j = Some (rp_recordHash v)" by blast
  next
    show "length (pendingIndex ?t) \<le> maxAcceptedEvents (limits_of cfg)"
      using length_jm_set [of i p "pendingIndex s"] assms(8) by simp
  qed (use indexes_okD [OF ix] in simp_all)
  moreover have "keeps_faith s0 ?t"
    using assms(1) more by (auto simp: guarded_def keeps_faith_def intro: map_le_trans)
  ultimately show "guarded X cfg s0 R ?t" using all by (simp add: guarded_def custody_def)
qed

end
