(* ===== verification/G9P_Custody_Ops.thy ===== *)
theory G9P_Custody_Ops
  imports G9P_Custody
begin

text \<open>
  Every operation of the ledger keeps the custody of what was accepted, whatever it returns and
  whichever file operation fails on the way.
\<close>

section \<open>Operations that leave custody alone\<close>

definition quiet :: "'a lm \<Rightarrow> bool" where
  "quiet m \<longleftrightarrow> (\<forall>s. core (fst (m s)) = core s)"

lemma quiet_keeps: "quiet m \<Longrightarrow> (\<And>s t. core t = core s \<Longrightarrow> P s \<Longrightarrow> P t) \<Longrightarrow> keeps P m"
  by (rule keepsI) (simp add: quiet_def)

lemma guarded_core_update: "core t = core s \<Longrightarrow> guarded X cfg s0 R s \<Longrightarrow> guarded X cfg s0 R t"
  by (rule guarded_core [THEN iffD2])

lemma quiet_guarded: "quiet m \<Longrightarrow> keeps (guarded X cfg s0 R) m"
  by (erule quiet_keeps) (rule guarded_core_update)

named_theorems quiet_intro \<open>rules for computations that leave the core of the state alone\<close>

lemma quiet_bind [quiet_intro]: "quiet m \<Longrightarrow> (\<And>x. quiet (f x)) \<Longrightarrow> quiet (bindS m f)"
proof -
  assume m: "quiet m" and f: "\<And>x. quiet (f x)"
  have "core (fst (bindS m f s)) = core s" for s
  proof -
    obtain t r where run: "m s = (t, r)" by fastforce
    have "core (fst (m s)) = core s" using m unfolding quiet_def by blast
    then have t: "core t = core s" by (simp add: run)
    have "core (fst (f x t)) = core t" for x using f unfolding quiet_def by blast
    with t run show ?thesis by (simp add: bindS_def split: sum.split)
  qed
  then show "quiet (bindS m f)" by (simp add: quiet_def)
qed

lemma quiet_then [quiet_intro]: "quiet m \<Longrightarrow> quiet k \<Longrightarrow> quiet (thenS m k)"
  unfolding thenS_def by (rule quiet_bind)

lemma quiet_pure [quiet_intro]:
  "quiet (retS x)" "quiet (failS code)" "quiet (liftS r)" "quiet (getS g)" "quiet (checkS b code)"
  by (simp_all add: quiet_def)

lemma quiet_mod [quiet_intro]: "(\<And>s. core (f s) = core s) \<Longrightarrow> quiet (modS f)"
  by (simp add: quiet_def)

lemma quiet_if [quiet_intro]: "quiet m \<Longrightarrow> quiet k \<Longrightarrow> quiet (if b then m else k)"
  by simp

lemma quiet_fault [quiet_intro]: "quiet next_fault"
  by (simp add: quiet_def next_fault_eq core_def)

lemma quiet_state_ops [quiet_intro]: "quiet (state_ops ops)"
  unfolding quiet_def state_ops_def bindS_def next_fault_eq
  by (auto simp: core_def split: prod.split)

lemma quiet_must [quiet_intro]: "quiet m \<Longrightarrow> quiet (must m e)"
  unfolding must_def by (intro quiet_intro)

lemma quiet_persist [quiet_intro]: "quiet (persist_state directory a)"
  unfolding persist_state_def Let_def by (intro quiet_intro)

lemma quiet_remove_state [quiet_intro]: "quiet (remove_state directory path)"
  unfolding quiet_def remove_state_def bindS_def next_fault_eq
  by (auto simp: core_def split: prod.split)

lemma quiet_format [quiet_intro]: "quiet (record_segment_format ledgerId epoch formatVersion)"
  unfolding record_segment_format_def Let_def by (intro quiet_intro) (simp add: core_def)

lemma quiet_read [quiet_intro]: "quiet (read_sealed cfg key)" "quiet (list_sealed cfg key)"
  unfolding read_sealed_def list_sealed_def by (intro quiet_intro)+

lemma quiet_record_epoch [quiet_intro]: "quiet (modS (record_epoch X ledgerId verified history))"
  by (rule quiet_mod) (simp add: core_def record_epoch_def)

lemmas quiet_keeps_intro [keeps_intro] =
  quiet_fault [THEN quiet_guarded] quiet_persist [THEN quiet_guarded] quiet_remove_state [THEN quiet_guarded]
  quiet_format [THEN quiet_guarded] quiet_read [THEN quiet_guarded] quiet_record_epoch [THEN quiet_guarded]

section \<open>Publication\<close>

lemma publish_disk:
  assumes "publish root opts key bytes f d = (d', r)" and "disk_ok d"
  shows "disk_ok d' \<and> disk_grows d d'"
proof -
  from publish_runs [of root opts key bytes f d] assms(1)
  consider "d' = d" | path where "sealed_name path" "d' = fst (run_ops (publication d path bytes) f d)" by auto
  then show ?thesis
  proof cases
    case 1
    then show ?thesis using assms(2) disk_grows_refl by simp
  next
    case 2
    then show ?thesis
      using run_ops_ok [OF assms(2) publication_ok [OF assms(2) sealed_final]] by simp
  qed
qed

lemma publish_sealed_eq:
  "publish_sealed cfg opts key bytes s =
     (let (d, r) = publish (dataDirectory cfg) opts key bytes (if faults s = [] then None else hd (faults s)) (sealed_disk s)
      in (s\<lparr>faults := tl (faults s), sealed_disk := d\<rparr>, case r of Inl e \<Rightarrow> Inl e | Inr _ \<Rightarrow> Inr ()))"
  by (simp add: publish_sealed_def bindS_def next_fault_eq split: prod.split sum.split)

lemma guarded_publish:
  assumes "guarded X cfg s0 R s" and "publish_sealed cfg opts key bytes s = (t, r)"
  shows "guarded X cfg s0 R t"
    and "root_ok (dataDirectory cfg) \<Longrightarrow> r = Inr () \<Longrightarrow> sealed_as (sealed_disk t) (dataDirectory cfg @ 47 # key) bytes"
    and "recorded t = recorded s" and "held t = held s"
proof -
  obtain d q where run: "publish (dataDirectory cfg) opts key bytes (if faults s = [] then None else hd (faults s)) (sealed_disk s)
      = (d, q)" by fastforce
  have t: "t = s\<lparr>faults := tl (faults s), sealed_disk := d\<rparr>" and r: "r = (case q of Inl e \<Rightarrow> Inl e | Inr _ \<Rightarrow> Inr ())"
    using assms(2) run by (simp_all add: publish_sealed_eq)
  have "disk_ok (sealed_disk s)" using assms(1) indexes_okD(3) unfolding guarded_def custody_def by blast
  note ok = publish_disk [OF run this]
  then show "guarded X cfg s0 R t" unfolding t by (intro guarded_sealed_disk [OF assms(1)]) simp_all
  show "recorded t = recorded s" by (rule recorded_cong) (simp_all add: t)
  show "held t = held s" by (simp add: held_def t)
  show "sealed_as (sealed_disk t) (dataDirectory cfg @ 47 # key) bytes" if "root_ok (dataDirectory cfg)" "r = Inr ()"
  proof -
    from that(2) obtain k where "q = Inr k" using r by (cases q) auto
    with run have "publish (dataDirectory cfg) opts key bytes (if faults s = [] then None else hd (faults s)) (sealed_disk s)
        = (d, Inr k)" by simp
    from publish_Inr(4,5) [OF this that(1)] have p: "run_ops (publication (sealed_disk s) (dataDirectory cfg @ 47 # key) bytes)
        (if faults s = [] then None else hd (faults s)) (sealed_disk s) = (d, True)"
      "sealed_name (dataDirectory cfg @ 47 # key)" .
    then show ?thesis using publication_finished(2) [OF p(1)] by (simp add: t)
  qed
qed

lemma keeps_publish [keeps_intro]: "keeps (guarded X cfg s0 R) (publish_sealed cfg opts key bytes)"
  by (rule keepsI) (metis guarded_publish(1) prod.collapse)

lemma keeps_publish_epoch [keeps_intro]: "keeps (guarded X cfg s0 R) (publish_epoch Y cfg rq key opts)"
  unfolding publish_epoch_def by (intro keeps_intro quiet_intro)

lemma keeps_genesis [keeps_intro]: "keeps (guarded X cfg s0 R) (ensure_genesis Y cfg reason ledgerId)"
  unfolding ensure_genesis_def by (intro keeps_intro quiet_intro)

section \<open>Blocks\<close>

text \<open>A segment taken from the state: its records are in hand from then on.\<close>

lemma triple_active:
  assumes "\<And>a. triple (\<lambda>s. guarded X cfg s0 (R \<union> set (active_records a)) s) (k a) Q E"
    and "\<And>s. guarded X cfg s0 R s \<Longrightarrow> E s"
  shows "triple (guarded X cfg s0 R) (bindS (the_active key) k) Q E"
proof (rule triple_bind [where R = "\<lambda>a s. guarded X cfg s0 (R \<union> set (active_records a)) s"])
  show "triple (guarded X cfg s0 R) (the_active key) (\<lambda>a s. guarded X cfg s0 (R \<union> set (active_records a)) s) E"
    unfolding the_active_def
  proof (rule triple_bind_get)
    fix found
    show "triple (\<lambda>s. guarded X cfg s0 R s \<and> jm_get (activeSegments s) key = found)
        (case found of None \<Rightarrow> liftS (Inl JsTypeError) | Some active \<Rightarrow> retS active)
        (\<lambda>a s. guarded X cfg s0 (R \<union> set (active_records a)) s) E"
      by (cases found) (auto intro!: triple_lift triple_ret assms(2) guarded_more held_active)
  qed
qed (rule assms(1))

lemma triple_keep_hand: "keeps (guarded X cfg s0 (R \<union> T)) m \<Longrightarrow> triple (guarded X cfg s0 (R \<union> T)) m (\<lambda>_. guarded X cfg s0 R) (guarded X cfg s0 R)"
  by (erule triple_weaken) (auto intro: guarded_hand)

lemma keeps_with_active:
  assumes "\<And>a. keeps (guarded X cfg s0 (R \<union> set (active_records a))) (k a)"
  shows "keeps (guarded X cfg s0 R) (bindS (the_active key) k)"
  by (rule triple_active) (auto intro: triple_keep_hand assms)

lemma active_records_simps [simp]:
  "active_records (a\<lparr>ac_statePath := path\<rparr>) = active_records a"
  "block_records (a\<lparr>ac_statePath := path\<rparr>) = block_records a"
  by (simp_all add: active_records_def block_records_def)

lemma completed_records:
  "completed_block Y a = Inr b \<Longrightarrow> ab_records b = ac_activeBlock a"
  by (auto simp: completed_block_def res_simps Let_def)

lemma enumerate_member: "(n, x) \<in> set (enumerate m xs) \<Longrightarrow> x \<in> set xs"
  by (auto simp: in_set_enumerate_eq)

lemma provisional_entries_ok:
  assumes "(i, v) \<in> set (provisional_entries a)"
  shows "\<exists>p \<in> set (block_records a). i = pe_id p \<and> rp_eventId v = i \<and> rp_recordHash v = pe_recordHash p"
proof -
  let ?placed = "concat (map (\<lambda>(i, b). map (\<lambda>p. (i, p)) (ab_records b)) (enumerate 0 (ac_blocks a)))"
  from assms obtain n j p where "(n, j, p) \<in> set (enumerate 0 ?placed)" and iv: "i = pe_id p"
    "rp_eventId v = i" "rp_recordHash v = pe_recordHash p"
    by (auto simp: provisional_entries_def Let_def provisional_receipt_of_def pe_id_def)
  from enumerate_member [OF this(1)] have "(j, p) \<in> set ?placed" .
  then obtain b where "(j, b) \<in> set (enumerate 0 (ac_blocks a))" "p \<in> set (ab_records b)" by auto
  with enumerate_member [OF this(1)] have "p \<in> set (block_records a)" unfolding block_records_def by auto
  with iv show ?thesis by blast
qed

lemma guarded_rebuild:
  assumes "guarded X cfg s0 R s" and "set (block_records a) \<subseteq> R \<union> held s"
  shows "guarded X cfg s0 R (rebuild_provisional a s)"
  unfolding rebuild_provisional_def
proof (rule guarded_provisional [OF assms(1)])
  fix i v
  assume "jm_get (fold (\<lambda>(k, r). jm_set k r) (provisional_entries a) (provisionalIndex s)) i = Some v"
  then consider "(i, v) \<in> set (provisional_entries a)" | "jm_get (provisionalIndex s) i = Some v"
    by (blast dest: fold_set_values)
  then show "jm_get (provisionalIndex s) i = Some v \<or> rp_eventId v = i \<and> recorded s i = Some (rp_recordHash v)"
  proof cases
    case 1
    then obtain p where "p \<in> set (block_records a)" "i = pe_id p" "rp_eventId v = i" "rp_recordHash v = pe_recordHash p"
      using provisional_entries_ok by blast
    then show ?thesis using guarded_record [OF assms(1), of p] assms(2) by (auto simp: record_ok_def)
  qed simp
qed

lemma keeps_complete [keeps_intro]: "keeps (guarded X cfg s0 R) (complete_active_block Y cfg key)"
  unfolding complete_active_block_def
proof (rule keeps_with_active)
  fix a
  let ?G = "guarded X cfg s0 (R \<union> set (active_records a))"
  have one: "keeps ?G (bindS (persist_state (activeStateDirectory cfg) (state_of_active Y c)) (\<lambda>path.
      modS (\<lambda>s. rebuild_provisional (c\<lparr>ac_statePath := Some path\<rparr>) (set_active key (c\<lparr>ac_statePath := Some path\<rparr>) s))))"
    if "set (active_records c) = set (active_records a)" for c
    using that by (intro keeps_intro quiet_intro keeps_mod guarded_rebuild guarded_set_active) (auto simp: active_records_def)
  show "keeps ?G (if ac_activeBlock a = [] then retS ()
     else bindS (liftS (completed_block Y a)) (\<lambda>block.
       let completed = a\<lparr>ac_blocks := ac_blocks a @ [block], ac_activeBlock := [], ac_activeBlockBytes := 0\<rparr> in
       thenS (modS (\<lambda>s. set_active key completed
         (s\<lparr>activeBlockBytes := activeBlockBytes s - int (ac_activeBlockBytes a)\<rparr>)))
       (bindS (persist_state (activeStateDirectory cfg) (state_of_active Y completed)) (\<lambda>path.
        let persisted = completed\<lparr>ac_statePath := Some path\<rparr> in
        modS (\<lambda>s. rebuild_provisional persisted (set_active key persisted s))))))"
  proof (cases "completed_block Y a")
    case (Inl e)
    then show ?thesis by (auto simp: bindS_def intro!: keepsI)
  next
    case (Inr b)
    define c where "c = a\<lparr>ac_blocks := ac_blocks a @ [b], ac_activeBlock := [], ac_activeBlockBytes := 0\<rparr>"
    have c: "set (active_records c) = set (active_records a)"
      using completed_records [OF Inr] by (simp add: c_def active_records_def block_records_def)
    have lift: "bindS (liftS (Inr b)) k = k b" for k :: "active_block \<Rightarrow> unit lm"
      by (rule ext) (simp add: bindS_def)
    have "keeps ?G (modS (\<lambda>s. set_active key c (s\<lparr>activeBlockBytes := activeBlockBytes s - int (ac_activeBlockBytes a)\<rparr>)))"
      using c by (intro keeps_mod guarded_set_active) 
        (auto intro: guarded_core_update [rotated] simp: core_def)
    with one [OF c] show ?thesis
      unfolding Inr lift Let_def c_def [symmetric] by (intro keeps_if keeps_then keeps_pure)
  qed
qed

lemma keeps_room_loop [keeps_intro]: "keeps (guarded X cfg s0 R) (make_room_loop Y cfg rounds requiredBytes exceptKey)"
proof (induction rounds)
  case (Suc rounds)
  show ?case unfolding make_room_loop.simps by (intro keeps_intro Suc.IH)
qed (unfold make_room_loop.simps, rule keeps_pure)

lemma keeps_room [keeps_intro]: "keeps (guarded X cfg s0 R) (make_room Y cfg requiredBytes exceptKey)"
  unfolding make_room_def by (intro keeps_intro)

section \<open>Sealing\<close>

lemma sealed_entries_ok:
  assumes "guarded X cfg s0 R s" and "set (block_records a) \<subseteq> R \<union> held s"
    and "write_segment X (seal_request cfg a epoch) = Inr (bytes, result)"
    and "sealed_as (sealed_disk s) (dataDirectory cfg @ 47 # ac_directory a @ 47 # segment_file_name (ac_segmentNumber a)) bytes"
    and "(i, r) \<in> set (sealed_entries a result (block_records a))"
  shows "rs_eventId r = i \<and> evidence X cfg (sealed_disk s) r \<and> recorded s i = Some (rs_recordHash r)"
proof -
  from assms(5) obtain n p where n: "n < length (block_records a)" "block_records a ! n = p"
    and r: "i = pe_id p" "rs_eventId r = pe_id p" "rs_recordHash r = pe_recordHash p" "rs_recordIndex r = n"
      "rs_segmentNumber r = ac_segmentNumber a" "rs_segmentHash r = sr_segmentHash result"
    by (auto simp: sealed_entries_def in_set_enumerate_eq pe_id_def)
  then have "p \<in> R \<union> held s" using assms(2) nth_mem by blast
  from guarded_record [OF assms(1) this] obtain hash where p: "recorded s (pe_id p) = Some (pe_recordHash p)"
    and hash: "event_hash_of_event X (pe_event p) = Inr hash" "pe_recordHash p = to_hex hash"
    by (auto simp: record_ok_def well_recorded_def)
  let ?rq = "seal_request cfg a epoch"
  have events: "rq_events ?rq = map pe_event (block_records a)" "rq_segmentNumber ?rq = ac_segmentNumber a"
    by (simp_all add: seal_request_def block_records_def)
  have "evidence X cfg (sealed_disk s) r"
    unfolding evidence_def
    using assms(3,4) n r hash events
    by (intro exI [of _ ?rq] exI [of _ bytes] exI [of _ result] exI [of _ "ac_directory a"] exI [of _ hash])
      (simp add: segment_path_def pe_id_def)
  then show ?thesis using r p by simp
qed

lemma guarded_sealing:
  assumes "guarded X cfg s0 R s" and "set (block_records a) \<subseteq> R \<union> held s"
    and "write_segment X (seal_request cfg a epoch) = Inr (bytes, result)"
    and "sealed_as (sealed_disk s) (dataDirectory cfg @ 47 # ac_directory a @ 47 # segment_file_name (ac_segmentNumber a)) bytes"
  shows "guarded X cfg s0 R (s\<lparr>eventIndex := fold (\<lambda>(k, r). jm_set k r) (sealed_entries a result (block_records a)) (eventIndex s),
           shardStates := states\<rparr>)"
proof -
  have "guarded X cfg s0 R (s\<lparr>eventIndex := fold (\<lambda>(k, r). jm_set k r) (sealed_entries a result (block_records a)) (eventIndex s)\<rparr>)"
    by (rule guarded_event_index [OF assms(1)]) (rule sealed_entries_ok [OF assms])
  then show ?thesis by (rule guarded_core_update [rotated]) (simp add: core_def)
qed

text \<open>The retirement of records that are in the event index.\<close>

definition indexed :: "pending list \<Rightarrow> ledger \<Rightarrow> bool" where
  "indexed ps s \<longleftrightarrow> (\<forall>p \<in> set ps. jm_get (eventIndex s) (pe_id p) \<noteq> None)"

lemma triple_remove_intake:
  assumes "p \<in> R" and "p \<in> set ps"
  shows "keeps (\<lambda>s. guarded X cfg s0 R s \<and> indexed ps s) (remove_intake directory p)"
proof (rule keepsI)
  fix s
  assume s: "guarded X cfg s0 R s \<and> indexed ps s"
  then have "jm_get (eventIndex s) (pe_id p) \<noteq> None" using assms(2) by (simp add: indexed_def)
  from guarded_remove_intake [where t = "fst (remove_intake directory p s)", OF _ _ this] s assms(1)
  show "guarded X cfg s0 R (fst (remove_intake directory p s)) \<and> indexed ps (fst (remove_intake directory p s))"
    by (metis (no_types, lifting) UnCI indexed_def prod.collapse)
qed

lemma guarded_forget_provisional:
  "guarded X cfg s0 R s \<Longrightarrow> guarded X cfg s0 R (s\<lparr>provisionalIndex := jm_delete i (provisionalIndex s), assignedPendingIds := ids\<rparr>)"
  by (rule guarded_core_update [OF _ guarded_provisional [of _ _ _ _ s "jm_delete i (provisionalIndex s)"]])
    (auto simp: core_def split: if_splits)

lemma guarded_forget_pending:
  "guarded X cfg s0 R s \<Longrightarrow> jm_get (eventIndex s) i \<noteq> None \<Longrightarrow>
   guarded X cfg s0 R (s\<lparr>pendingIndex := jm_delete i (pendingIndex s), pendingBytes := n\<rparr>)"
  by (rule guarded_core_update [OF _ guarded_delete_pending [of _ _ _ _ s i]]) (auto simp: core_def)

lemma keeps_retire:
  assumes "p \<in> R" and "p \<in> set ps"
  shows "keeps (\<lambda>s. guarded X cfg s0 R s \<and> indexed ps s) (retire cfg p)"
  unfolding retire_def
proof (intro keeps_then keeps_mod triple_remove_intake [OF assms])
  show "guarded X cfg s0 R (s\<lparr>provisionalIndex := jm_delete (event_id (pe_event p)) (provisionalIndex s),
      assignedPendingIds := assignedPendingIds s - {event_id (pe_event p)}\<rparr>)
    \<and> indexed ps (s\<lparr>provisionalIndex := jm_delete (event_id (pe_event p)) (provisionalIndex s),
      assignedPendingIds := assignedPendingIds s - {event_id (pe_event p)}\<rparr>)"
    if "guarded X cfg s0 R s \<and> indexed ps s" for s
    using that guarded_forget_provisional by (simp add: indexed_def)
  show "guarded X cfg s0 R (s\<lparr>pendingIndex := jm_delete (event_id (pe_event p)) (pendingIndex s),
      pendingBytes := pendingBytes s - int (pe_eventBytes p)\<rparr>)
    \<and> indexed ps (s\<lparr>pendingIndex := jm_delete (event_id (pe_event p)) (pendingIndex s),
      pendingBytes := pendingBytes s - int (pe_eventBytes p)\<rparr>)"
    if "guarded X cfg s0 R s \<and> indexed ps s" for s
    using that assms(2) guarded_forget_pending [of X cfg s0 R s "event_id (pe_event p)"]
    by (auto simp: indexed_def pe_id_def)
qed

lemma sealing_indexes:
  "indexed (block_records a)
     (s\<lparr>eventIndex := fold (\<lambda>(k, r). jm_set k r) (sealed_entries a result (block_records a)) (eventIndex s), shardStates := states\<rparr>)"
  unfolding indexed_def
proof
  fix p
  assume "p \<in> set (block_records a)"
  then obtain n where "n < length (block_records a)" "block_records a ! n = p" by (auto simp: in_set_conv_nth)
  then have "(n, p) \<in> set (enumerate 0 (block_records a))" by (simp add: in_set_enumerate_eq)
  then have "pe_id p \<in> fst ` set (sealed_entries a result (block_records a))"
    unfolding sealed_entries_def by (force simp: pe_id_def)
  then show "jm_get (eventIndex (s\<lparr>eventIndex := fold (\<lambda>(k, r). jm_set k r) (sealed_entries a result (block_records a)) (eventIndex s),
      shardStates := states\<rparr>)) (pe_id p) \<noteq> None"
    using fold_set_domain [of "sealed_entries a result (block_records a)" "eventIndex s" "pe_id p"] by simp
qed

lemma quiet_indexed: "quiet m \<Longrightarrow> keeps (\<lambda>s. guarded X cfg s0 R s \<and> indexed ps s) m"
  by (erule quiet_keeps) (auto simp: guarded_core_update indexed_def core_def)

lemma quiet_sealed: "quiet m \<Longrightarrow> keeps (\<lambda>s. guarded X cfg s0 R s \<and> sealed_as (sealed_disk s) path bytes) m"
  by (erule quiet_keeps) (auto simp: guarded_core_update core_def)

lemma triple_publish:
  assumes "root_ok (dataDirectory cfg)"
  shows "triple (guarded X cfg s0 R) (publish_sealed cfg opts key bytes)
    (\<lambda>_ s. guarded X cfg s0 R s \<and> sealed_as (sealed_disk s) (dataDirectory cfg @ 47 # key) bytes) (guarded X cfg s0 R)"
proof (rule tripleI)
  fix s t r
  assume s: "guarded X cfg s0 R s" and run: "publish_sealed cfg opts key bytes s = (t, Inr r)"
  from guarded_publish(1,2) [OF s run] assms show "guarded X cfg s0 R t \<and> sealed_as (sealed_disk t) (dataDirectory cfg @ 47 # key) bytes"
    by simp
qed (rule guarded_publish(1))

lemma triple_seal_segment:
  assumes "root_ok (dataDirectory cfg)" and "set (block_records a) \<subseteq> R" and "records = block_records a"
  shows "keeps (guarded X cfg s0 R)
    (bindS (liftS (write_segment X (seal_request cfg a epoch))) (\<lambda>(bytes, result).
       thenS (publish_sealed cfg opts (ac_directory a @ 47 # segment_file_name (ac_segmentNumber a)) bytes)
       (thenS (record_segment_format ledgerId n formatVersion)
       (thenS (modS (\<lambda>s. s\<lparr>eventIndex := fold (\<lambda>(k, r). jm_set k r) (sealed_entries a result records) (eventIndex s),
                  shardStates := jm_set key (sealed_state a result) (shardStates s)\<rparr>))
       (thenS (remove_state directory path)
       (thenS (modS (\<lambda>s. s\<lparr>activeSegments := jm_delete key (activeSegments s)\<rparr>))
       (forS records (retire cfg))))))))"
proof (cases "write_segment X (seal_request cfg a epoch)")
  case (Inl e)
  then show ?thesis by (auto simp: bindS_def intro!: keepsI)
next
  case (Inr br)
  obtain bytes result where w: "write_segment X (seal_request cfg a epoch) = Inr (bytes, result)" using Inr by (cases br) simp
  have lift: "bindS (liftS (Inr b)) k = k b" for k :: "byte list \<times> segment_result \<Rightarrow> unit lm" and b
    by (rule ext) (simp add: bindS_def)
  let ?G = "guarded X cfg s0 R"
  let ?I = "\<lambda>s. ?G s \<and> indexed (block_records a) s"
  let ?S = "\<lambda>s. ?G s \<and> sealed_as (sealed_disk s) (dataDirectory cfg @ 47 # ac_directory a @ 47 # segment_file_name (ac_segmentNumber a)) bytes"
  have retire: "keeps ?I (forS (block_records a) (retire cfg))"
    using assms(2) by (intro keeps_for keeps_retire) auto
  have delete: "keeps ?I (modS (\<lambda>s. s\<lparr>activeSegments := jm_delete key (activeSegments s)\<rparr>))"
    by (intro keeps_mod) (auto simp: guarded_delete_active indexed_def)
  have remove: "keeps ?I (remove_state directory path)" by (intro quiet_indexed quiet_intro)
  have "keeps ?I (thenS (remove_state directory path)
      (thenS (modS (\<lambda>s. s\<lparr>activeSegments := jm_delete key (activeSegments s)\<rparr>)) (forS (block_records a) (retire cfg))))"
    by (intro keeps_then remove delete retire)
  then have rest: "triple ?I (thenS (remove_state directory path)
      (thenS (modS (\<lambda>s. s\<lparr>activeSegments := jm_delete key (activeSegments s)\<rparr>)) (forS (block_records a) (retire cfg))))
      (\<lambda>_. ?G) ?G"
    by (rule triple_weaken) auto
  have sealing: "?I (s\<lparr>eventIndex := fold (\<lambda>(k, r). jm_set k r) (sealed_entries a result (block_records a)) (eventIndex s),
      shardStates := jm_set key (sealed_state a result) (shardStates s)\<rparr>)" if "?S s" for s
    using that by (intro conjI sealing_indexes guarded_sealing [OF _ le_supI1 [OF assms(2)] w]) auto
  have "keeps ?S (record_segment_format ledgerId n formatVersion)" by (intro quiet_sealed quiet_intro)
  then have format: "triple ?S (record_segment_format ledgerId n formatVersion) (\<lambda>_. ?S) ?G"
    by (rule triple_weaken) auto
  show ?thesis
    unfolding w lift assms(3) prod.case
    by (rule triple_then [OF triple_publish [OF assms(1)] triple_then [OF format triple_then_mod [OF sealing rest]]])
qed

lemma keeps_seal [keeps_intro]:
  assumes "root_ok (dataDirectory cfg)"
  shows "keeps (guarded X cfg s0 R) (seal_active_segment X cfg key)"
  unfolding seal_active_segment_def Let_def
  by (intro keeps_then keeps_complete keeps_with_active keeps_if keeps_pure keeps_bind keeps_option
      triple_seal_segment [OF assms]) (auto simp: block_records_def active_records_def)

section \<open>Filling segments\<close>

lemma keeps_segment_for [keeps_intro]: "keeps (guarded X cfg s0 R) (active_segment_for Y item epoch)"
  unfolding active_segment_for_def Let_def
  by (intro keeps_intro keeps_mod guarded_set_active)
    (auto simp: new_active_def active_records_def block_records_def)

lemma filled_records:
  "active_records (a\<lparr>ac_activeBlock := ac_activeBlock a @ [p], ac_activeBlockBytes := bytes, ac_recordCount := count,
     ac_byteCount := filled\<rparr>) = active_records a @ [p]"
  by (simp add: active_records_def block_records_def)

lemma guarded_fill:
  assumes "guarded X cfg s0 R s" and "p \<in> R" and "set (active_records a) \<subseteq> R"
  shows "guarded X cfg s0 R (set_active key (a\<lparr>ac_activeBlock := ac_activeBlock a @ [p], ac_activeBlockBytes := bytes,
      ac_recordCount := count, ac_byteCount := filled\<rparr>) (s\<lparr>activeBlockBytes := used, assignedPendingIds := ids\<rparr>))"
proof (rule guarded_set_active)
  show "guarded X cfg s0 R (s\<lparr>activeBlockBytes := used, assignedPendingIds := ids\<rparr>)"
    by (rule guarded_core_update [OF _ assms(1)]) (simp add: core_def)
qed (use assms(2,3) in \<open>auto simp: filled_records\<close>)

lemma keeps_append:
  assumes "root_ok (dataDirectory cfg)" and "ro_pending item \<in> R"
  shows "keeps (guarded X cfg s0 R) (append_to_active X cfg item epoch)"
  unfolding append_to_active_def Let_def
  by (intro keeps_bind keeps_then keeps_with_active keeps_if keeps_when keeps_pure keeps_seal [OF assms(1)] keeps_complete
      keeps_room keeps_segment_for keeps_mod guarded_fill)
    (use assms(2) in auto)

section \<open>Draining\<close>

lemma keeps_get_fact:
  assumes "\<And>x. (\<exists>s. I s \<and> f s = x) \<Longrightarrow> keeps I (k x)"
  shows "keeps I (bindS (getS f) k)"
proof (rule keepsI)
  fix s
  assume "I s"
  then show "I (fst (bindS (getS f) k s))" using keepsD [OF assms, of "f s" s] by (auto simp: bindS_def)
qed

lemma keeps_lift_fact: "(\<And>x. r = Inr x \<Longrightarrow> keeps I (k x)) \<Longrightarrow> keeps I (bindS (liftS r) k)"
proof (cases r)
  case (Inl e)
  have "bindS (liftS r) k = liftS (Inl e)" by (rule ext) (simp add: bindS_def Inl)
  then show ?thesis by (simp add: keeps_pure)
next
  case (Inr x)
  assume "\<And>x. r = Inr x \<Longrightarrow> keeps I (k x)"
  moreover have "bindS (liftS r) k = k x" by (rule ext) (simp add: bindS_def Inr)
  ultimately show ?thesis using Inr by simp
qed

lemma keeps_in_hand:
  assumes "\<And>s. guarded X cfg s0 R s \<Longrightarrow> set (f s) \<subseteq> held s"
    and "\<And>ps. keeps (guarded X cfg s0 (R \<union> set ps)) (k ps)"
  shows "keeps (guarded X cfg s0 R) (bindS (getS f) k)"
proof (rule triple_bind_get)
  fix ps
  show "triple (\<lambda>s. guarded X cfg s0 R s \<and> f s = ps) (k ps) (\<lambda>_. guarded X cfg s0 R) (guarded X cfg s0 R)"
    by (rule triple_weaken [OF assms(2)]) (auto intro: guarded_hand dest: assms(1))
qed

lemma by_sequence_held:
  assumes "guarded X cfg s0 R s"
  shows "set (by_sequence s) \<subseteq> held s"
proof -
  have "jm_wf (pendingIndex s)" using assms indexes_okD(1) unfolding guarded_def custody_def by blast
  then show ?thesis by (auto simp: by_sequence_def held_def jm_values_set)
qed

lemma keeps_settle:
  assumes "p \<in> R"
  shows "keeps (guarded X cfg s0 R) (settle cfg p)"
  unfolding settle_def
proof (rule triple_bind_get)
  fix known
  let ?G = "guarded X cfg s0 R"
  let ?I = "\<lambda>s. ?G s \<and> indexed [p] s"
  show "triple (\<lambda>s. ?G s \<and> jm_get (eventIndex s) (event_id (pe_event p)) = known)
     (case known of
       None \<Rightarrow> retS ()
     | Some r \<Rightarrow>
         thenS (checkS (rs_recordHash r = pe_recordHash p) ''EVENT_ID_CONFLICT'')
         (thenS (remove_intake (intakeDirectory cfg) p)
         (modS (\<lambda>s. s\<lparr>pendingIndex := jm_delete (event_id (pe_event p)) (pendingIndex s),
                    pendingBytes := pendingBytes s - int (pe_eventBytes p)\<rparr>)))) (\<lambda>_. ?G) ?G"
  proof (cases known)
    case None
    then show ?thesis by (auto intro: triple_ret)
  next
    case (Some r)
    have forget: "?I (s\<lparr>pendingIndex := jm_delete (event_id (pe_event p)) (pendingIndex s), pendingBytes := n\<rparr>)"
      if "?I s" for s n
      using that guarded_forget_pending [of X cfg s0 R s "event_id (pe_event p)"] by (auto simp: indexed_def pe_id_def)
    have "keeps ?I (thenS (checkS (rs_recordHash r = pe_recordHash p) ''EVENT_ID_CONFLICT'')
         (thenS (remove_intake (intakeDirectory cfg) p)
         (modS (\<lambda>s. s\<lparr>pendingIndex := jm_delete (event_id (pe_event p)) (pendingIndex s),
                    pendingBytes := pendingBytes s - int (pe_eventBytes p)\<rparr>))))"
      by (intro keeps_then keeps_pure triple_remove_intake [OF assms] keeps_mod forget) simp_all
    then show ?thesis unfolding Some option.case
      by (rule triple_weaken) (auto simp: indexed_def pe_id_def)
  qed
qed

lemma keeps_seal_all:
  assumes "root_ok (dataDirectory cfg)"
  shows "keeps (guarded X cfg s0 R) (seal_all X cfg)"
  unfolding seal_all_def by (intro keeps_intro assms)

lemma routed_pending:
  assumes "mapR (route_pending Y s) ps = Inr items" and "item \<in> set items"
  shows "ro_pending item \<in> set ps"
  using assms
proof (induction ps arbitrary: items)
  case (Cons p ps)
  then obtain i more where "route_pending Y s p = Inr i" "mapR (route_pending Y s) ps = Inr more" "items = i # more"
    by (auto simp: res_simps)
  moreover have "ro_pending i = p" if "route_pending Y s p = Inr i" for i
    using that by (auto simp: route_pending_def res_simps split: option.splits)
  ultimately show ?case using Cons by auto
qed simp

lemma keeps_drain:
  assumes "root_ok (dataDirectory cfg)"
  shows "keeps (guarded X cfg s0 R) (drain_accepted X cfg forceSeal)"
  unfolding drain_accepted_def
proof (rule keeps_in_hand [OF by_sequence_held])
  fix retained
  show "keeps (guarded X cfg s0 (R \<union> set retained)) (thenS (forS retained (settle cfg))
     (bindS (getS by_sequence) (\<lambda>records.
      thenS (forS (rev (remdups (rev (map (\<lambda>p. event_ledger (pe_event p)) records))))
        (\<lambda>ledgerId. bindS (ensure_genesis X cfg ''Create initial routing epoch'' ledgerId) (\<lambda>_. retS ())))
      (bindS (getS (\<lambda>s. mapR (route_pending X s)
          (filter (\<lambda>p. event_id (pe_event p) \<notin> assignedPendingIds s) records))) (\<lambda>uniqueNew.
       bindS (liftS uniqueNew) (\<lambda>items.
       thenS (forS items (append_routed X cfg))
       (whenS forceSeal (seal_all X cfg))))))))"
  proof (intro keeps_then keeps_for keeps_settle keeps_in_hand [OF by_sequence_held])
    fix records
    let ?G = "guarded X cfg s0 (R \<union> set retained \<union> set records)"
    show "keeps ?G (bindS (ensure_genesis X cfg ''Create initial routing epoch'' ledgerId) (\<lambda>_. retS ()))" for ledgerId
      by (intro keeps_intro)
    show "keeps ?G (bindS (getS (\<lambda>s. mapR (route_pending X s)
          (filter (\<lambda>p. event_id (pe_event p) \<notin> assignedPendingIds s) records))) (\<lambda>uniqueNew.
       bindS (liftS uniqueNew) (\<lambda>items.
       thenS (forS items (append_routed X cfg))
       (whenS forceSeal (seal_all X cfg)))))"
    proof (intro keeps_get_fact keeps_lift_fact)
      fix uniqueNew items
      assume "\<exists>s. ?G s \<and> mapR (route_pending X s) (filter (\<lambda>p. event_id (pe_event p) \<notin> assignedPendingIds s) records) = uniqueNew"
        and "uniqueNew = Inr items"
      then have "ro_pending item \<in> set records" if "item \<in> set items" for item
        using routed_pending [OF _ that] by fastforce
      then show "keeps ?G (thenS (forS items (append_routed X cfg)) (whenS forceSeal (seal_all X cfg)))"
        unfolding append_routed_def
        by (intro keeps_then keeps_for keeps_bind keeps_pure keeps_option keeps_when keeps_seal_all assms keeps_append) auto
    qed
  qed simp
qed

end
