(* ===== verification/G9P_Acceptance.thy ===== *)
theory G9P_Acceptance
  imports G9P_Custody_Ops
begin

text \<open>
  The acceptance of a batch: which batches are refused, and what the receipts of an accepted one say.
\<close>

section \<open>Prepared items\<close>

definition prepared :: "platform \<Rightarrow> item \<Rightarrow> bool" where
  "prepared X item \<longleftrightarrow> (\<exists>hash. event_hash_of_event X (it_event item) = Inr hash \<and> it_recordHash item = to_hex hash)"

lemma prepare_item_Inr:
  "prepare_item X event = Inr item \<Longrightarrow> prepared X item \<and> it_event item = event"
  by (auto simp: prepare_item_def prepared_def res_simps)

lemma prepare_items_Inr:
  assumes "prepare_items X events = Inr items"
  shows "list_all (prepared X) items" and "map it_event items = events"
proof -
  have "mapR (prepare_item X) events = Inr items" using assms by (auto simp: prepare_items_def res_simps)
  then have "list_all (prepared X) items \<and> map it_event items = events"
  proof (induction events arbitrary: items)
    case (Cons event events)
    then obtain i more where i: "prepare_item X event = Inr i" and m: "mapR (prepare_item X) events = Inr more"
      and items: "items = i # more" by (auto simp: res_simps)
    with Cons.IH [OF m] prepare_item_Inr [OF i] show ?case by simp
  qed simp
  then show "list_all (prepared X) items" and "map it_event items = events" by simp_all
qed

section \<open>One item\<close>

lemma accept_known:
  assumes "guarded X cfg s0 R s" and "recorded s (it_id item) = Some (it_recordHash item)"
  shows "\<exists>r. accept_item X cfg item s = (s, Inr r) \<and> receipt_id r = it_id item \<and> receipt_hash r = it_recordHash item"
proof -
  have ix: "indexes_ok X cfg s" using assms(1) by (simp add: guarded_def custody_def)
  show ?thesis
  proof (cases "jm_get (eventIndex s) (it_id item)")
    case (Some r)
    then show ?thesis
      using assms(2) indexes_okD(6) [OF ix Some] by (simp add: accept_item_def bindS_def recorded_def)
  next
    case None
    then obtain p where p: "jm_get (pendingIndex s) (it_id item) = Some p" "pe_recordHash p = it_recordHash item"
      using assms(2) by (auto simp: recorded_def)
    then show ?thesis
      using None indexes_okD(4) [OF ix p(1)]
      by (simp add: accept_item_def bindS_def accepted_receipt_of_def pe_id_def)
  qed
qed

lemma accept_new:
  assumes "guarded X cfg s0 R s" and "prepared X item" and "recorded s (it_id item) = None"
    and "length (pendingIndex s) < maxAcceptedEvents (limits_of cfg)" and "accept_item X cfg item s = (t, r)"
  shows "guarded X cfg s0 R t"
    and "recorded t = (case r of Inl e \<Rightarrow> recorded s | Inr _ \<Rightarrow> (recorded s)(it_id item \<mapsto> it_recordHash item))"
    and "length (pendingIndex t) \<le> (case r of Inl e \<Rightarrow> length (pendingIndex s) | Inr _ \<Rightarrow> Suc (length (pendingIndex s)))"
    and "r = Inr q \<Longrightarrow> receipt_id q = it_id item \<and> receipt_hash q = it_recordHash item"
proof -
  have ix: "indexes_ok X cfg s" using assms(1) by (simp add: guarded_def custody_def)
  have absent: "jm_get (eventIndex s) (it_id item) = None" "jm_get (pendingIndex s) (it_id item) = None"
    using assms(3) by (auto simp: recorded_def split: option.splits)
  obtain u w where run: "append_intake X (intakeDirectory cfg) (it_event item) s = (u, w)" by fastforce
  obtain d n fs where u: "u = s\<lparr>faults := fs, intake_disk := d, intake_sequence := n\<rparr>" and ok: "disk_ok d"
    and kept: "\<And>q kept. kept_as (intake_disk s) q kept \<Longrightarrow> kept_as d q kept" and n: "intake_sequence s \<le> n"
    and new: "\<And>p. w = Inr p \<Longrightarrow> n = Suc (pe_sequence p) \<and> pe_sequence p = intake_sequence s \<and> pe_event p = it_event item
           \<and> well_recorded X (intakeDirectory cfg) p \<and> retained X d p"
    using append_intake_spec [OF run indexes_okD(2) [OF ix]] by metis
  note gu = guarded_intake_disk [OF assms(1) ok kept n u]
  have "guarded X cfg s0 R t
    \<and> recorded t = (case r of Inl e \<Rightarrow> recorded s | Inr _ \<Rightarrow> (recorded s)(it_id item \<mapsto> it_recordHash item))
    \<and> length (pendingIndex t) \<le> (case r of Inl e \<Rightarrow> length (pendingIndex s) | Inr _ \<Rightarrow> Suc (length (pendingIndex s)))
    \<and> (\<forall>q. r = Inr q \<longrightarrow> receipt_id q = it_id item \<and> receipt_hash q = it_recordHash item)"
  proof (cases w)
    case (Inl e)
    with run absent assms(5) have "t = u" "r = Inl e" by (simp_all add: accept_item_def bindS_def)
    then show ?thesis using gu by (simp add: u)
  next
    case (Inr p)
    define p' where "p' = p\<lparr>pe_eventBytes := it_eventBytes item\<rparr>"
    let ?v = "u\<lparr>pendingIndex := jm_set (it_id item) p' (pendingIndex u)\<rparr>"
    from run absent assms(5) Inr
    have t: "t = u\<lparr>pendingIndex := jm_set (it_id item) p' (pendingIndex u), pendingBytes := pendingBytes u + int (it_eventBytes item)\<rparr>"
      and r: "r = Inr (accepted_receipt_of p')"
      by (simp_all add: accept_item_def bindS_def thenS_def p'_def Let_def)
    note p = new [OF Inr]
    have p': "pe_id p' = it_id item" "retained X (intake_disk u) p'" "well_recorded X (intakeDirectory cfg) p'"
      "pe_sequence p' < intake_sequence u"
      using p by (simp_all add: p'_def pe_id_def it_id_def u)
    have hash: "pe_recordHash p' = it_recordHash item"
      using p assms(2) by (auto simp: prepared_def well_recorded_def p'_def)
    have later: "pe_sequence q < pe_sequence p'" if "q \<in> R \<union> held u" for q
      using guarded_record [OF assms(1), of q] that p gu(3) by (simp add: record_ok_def p'_def)
    have none: "recorded u (it_id item) = None" using assms(3) gu(2) by simp
    have room: "length (pendingIndex u) < maxAcceptedEvents (limits_of cfg)" using assms(4) by (simp add: u)
    note ins = guarded_insert [OF gu(1) none p' later room]
    have "guarded X cfg s0 R t" by (rule guarded_core_update [OF _ ins(1)]) (simp add: t core_def)
    moreover have "recorded t = recorded ?v" by (rule recorded_cong) (simp_all add: t)
    moreover have "length (pendingIndex t) \<le> Suc (length (pendingIndex s))"
      using length_jm_set [of "it_id item" p' "pendingIndex u"] by (simp add: t) (simp add: u)
    ultimately show ?thesis using ins(2) gu(2) hash p'(1) by (simp add: r accepted_receipt_of_def pe_id_def)
  qed
  then show "guarded X cfg s0 R t"
    and "recorded t = (case r of Inl e \<Rightarrow> recorded s | Inr _ \<Rightarrow> (recorded s)(it_id item \<mapsto> it_recordHash item))"
    and "length (pendingIndex t) \<le> (case r of Inl e \<Rightarrow> length (pendingIndex s) | Inr _ \<Rightarrow> Suc (length (pendingIndex s)))"
    and "r = Inr q \<Longrightarrow> receipt_id q = it_id item \<and> receipt_hash q = it_recordHash item" by blast+
qed

section \<open>A batch\<close>

definition consistent :: "ledger \<Rightarrow> item list \<Rightarrow> bool" where
  "consistent s items \<longleftrightarrow> (\<forall>x \<in> set items. recorded s (it_id x) = None \<or> recorded s (it_id x) = Some (it_recordHash x))
     \<and> (\<forall>x \<in> set items. \<forall>y \<in> set items. it_id x = it_id y \<longrightarrow> it_recordHash x = it_recordHash y)"

definition unknown_ids :: "ledger \<Rightarrow> item list \<Rightarrow> jsstr set" where
  "unknown_ids s items = it_id ` set items - dom (recorded s)"

text \<open>What the receipt of an item states, and that the ledger has the event on record.\<close>

definition receipted :: "ledger \<Rightarrow> item \<Rightarrow> receipt \<Rightarrow> bool" where
  "receipted s item r \<longleftrightarrow> receipt_id r = it_id item \<and> receipt_hash r = it_recordHash item
     \<and> recorded s (it_id item) = Some (it_recordHash item)"

lemma receipted_later: "receipted s item r \<Longrightarrow> recorded s \<subseteq>\<^sub>m recorded t \<Longrightarrow> receipted t item r"
  unfolding receipted_def by (metis domI map_le_def)

lemma consistent_tl: "consistent s (x # items) \<Longrightarrow> consistent s items"
  unfolding consistent_def by (meson list.set_intros(2))

lemma consistent_later:
  assumes "consistent s (x # items)" and "recorded s (it_id x) = None" and "recorded t = (recorded s)(it_id x \<mapsto> it_recordHash x)"
  shows "consistent t items"
proof -
  have same: "it_recordHash y = it_recordHash x" if "y \<in> set items" "it_id y = it_id x" for y
    using assms(1) that unfolding consistent_def by (meson list.set_intros)
  show ?thesis
    unfolding consistent_def
  proof (intro conjI ballI)
    fix y
    assume y: "y \<in> set items"
    have "recorded s (it_id y) = None \<or> recorded s (it_id y) = Some (it_recordHash y)"
      using consistent_tl [OF assms(1)] y unfolding consistent_def by blast
    then show "recorded t (it_id y) = None \<or> recorded t (it_id y) = Some (it_recordHash y)"
      using same [OF y] unfolding assms(3) by (cases "it_id y = it_id x") (simp_all only: fun_upd_same fun_upd_other simp_thms)
  qed (use consistent_tl [OF assms(1)] in \<open>unfold consistent_def, blast\<close>)
qed

lemma accept_item_step:
  assumes "guarded X cfg s0 R s" and "prepared X x" and "consistent s (x # items)"
    and "length (pendingIndex s) + card (unknown_ids s (x # items)) \<le> maxAcceptedEvents (limits_of cfg)"
    and "accept_item X cfg x s = (t, r)"
  shows "guarded X cfg s0 R t" and "recorded s \<subseteq>\<^sub>m recorded t"
    and "r = Inr q \<Longrightarrow> receipted t x q \<and> consistent t items
          \<and> length (pendingIndex t) + card (unknown_ids t items) \<le> maxAcceptedEvents (limits_of cfg)"
proof -
  have "guarded X cfg s0 R t \<and> recorded s \<subseteq>\<^sub>m recorded t
    \<and> (\<forall>q. r = Inr q \<longrightarrow> receipted t x q \<and> consistent t items
          \<and> length (pendingIndex t) + card (unknown_ids t items) \<le> maxAcceptedEvents (limits_of cfg))"
  proof (cases "recorded s (it_id x)")
    case (Some h)
    then have known: "recorded s (it_id x) = Some (it_recordHash x)" using assms(3) by (simp add: consistent_def)
    obtain q where "accept_item X cfg x s = (s, Inr q)" "receipt_id q = it_id x" "receipt_hash q = it_recordHash x"
      using accept_known [OF assms(1) known] by blast
    with assms(5) known have "t = s" "r = Inr q" "receipted s x q" by (simp_all add: receipted_def)
    moreover have "unknown_ids s items = unknown_ids s (x # items)" using Some by (auto simp: unknown_ids_def)
    moreover have "consistent s items" using assms(3) by (rule consistent_tl)
    ultimately show ?thesis using assms(1,4) by simp
  next
    case None
    have fin: "finite (unknown_ids s (x # items))" and one: "it_id x \<in> unknown_ids s (x # items)"
      using None by (auto simp: unknown_ids_def)
    then have pos: "0 < card (unknown_ids s (x # items))" using card_gt_0_iff by blast
    then have "length (pendingIndex s) < maxAcceptedEvents (limits_of cfg)" using assms(4) by linarith
    note new = accept_new [OF assms(1,2) None this assms(5)]
    show ?thesis
    proof (cases r)
      case (Inl e)
      then show ?thesis using new by simp
    next
      case (Inr q)
      have rec: "recorded t = (recorded s)(it_id x \<mapsto> it_recordHash x)" using new(2) by (simp add: Inr)
      have more: "recorded s \<subseteq>\<^sub>m recorded t" using None by (auto simp: rec map_le_def)
      have "unknown_ids t items \<subseteq> unknown_ids s (x # items) - {it_id x}" by (auto simp: unknown_ids_def rec)
      then have "card (unknown_ids t items) \<le> card (unknown_ids s (x # items) - {it_id x})"
        using fin by (intro card_mono) auto
      also have "\<dots> = card (unknown_ids s (x # items)) - 1" using one by (simp add: card_Diff_singleton)
      finally have "length (pendingIndex t) + card (unknown_ids t items) \<le> maxAcceptedEvents (limits_of cfg)"
        using new(3) assms(4) pos by (simp add: Inr)
      moreover have "consistent t items" using consistent_later [OF assms(3) None] rec by simp
      moreover have "receipted t x q" using new(4) [OF Inr] by (simp add: receipted_def rec)
      ultimately show ?thesis using new(1) more Inr by simp
    qed
  qed
  then show "guarded X cfg s0 R t" and "recorded s \<subseteq>\<^sub>m recorded t"
    and "r = Inr q \<Longrightarrow> receipted t x q \<and> consistent t items
          \<and> length (pendingIndex t) + card (unknown_ids t items) \<le> maxAcceptedEvents (limits_of cfg)" by blast+
qed

lemma accept_items_spec:
  assumes "guarded X cfg s0 R s" and "list_all (prepared X) items" and "consistent s items"
    and "length (pendingIndex s) + card (unknown_ids s items) \<le> maxAcceptedEvents (limits_of cfg)"
    and "mapS (accept_item X cfg) items s = (t, r)"
  shows "guarded X cfg s0 R t \<and> recorded s \<subseteq>\<^sub>m recorded t \<and> (\<forall>rs. r = Inr rs \<longrightarrow> list_all2 (receipted t) items rs)"
  using assms
proof (induction items arbitrary: s r)
  case Nil
  from Nil.prems(5) have "t = s" "r = Inr []" by simp_all
  with Nil.prems(1) show ?case by simp
next
  case (Cons x items)
  obtain u w where one: "accept_item X cfg x s = (u, w)" by fastforce
  note step = accept_item_step [OF Cons.prems(1) _ Cons.prems(3,4) one]
  show ?case
  proof (cases w)
    case (Inl e)
    then have "t = u" "r = Inl e" using Cons.prems(5) one by (simp_all add: bindS_def)
    then show ?thesis using step(1,2) Cons.prems(2) by simp
  next
    case (Inr q)
    obtain k where rest: "mapS (accept_item X cfg) items u = (t, k)"
      and r: "r = (case k of Inl e \<Rightarrow> Inl e | Inr qs \<Rightarrow> Inr (q # qs))"
      using Cons.prems(5) one Inr by (auto simp: bindS_def split: sum.splits prod.splits)
    have px: "prepared X x" and pxs: "list_all (prepared X) items" using Cons.prems(2) by simp_all
    note s3 = step(3) [OF px Inr]
    have ih: "guarded X cfg s0 R t \<and> recorded u \<subseteq>\<^sub>m recorded t \<and> (\<forall>rs. k = Inr rs \<longrightarrow> list_all2 (receipted t) items rs)"
      using s3 by (intro Cons.IH [OF step(1) [OF px] pxs _ _ rest]) simp_all
    then have "receipted t x q" using s3 receipted_later by blast
    with ih step(2) [OF px] show ?thesis by (auto simp: r intro: map_le_trans split: sum.splits)
  qed
qed

section \<open>Which batches are refused\<close>

lemma agrees_Inr: "agrees known h = Inr () \<longleftrightarrow> known = None \<or> known = Some h"
  by (auto simp: agrees_def invariant_Inr_iff split: option.splits)

lemma agrees_cases: "agrees known h = Inr () \<or> agrees known h = failWith ''EVENT_ID_CONFLICT''"
  by (simp add: agrees_def invariant_def)

lemma conflict_cases: "check_conflicts s m items = Inr () \<or> check_conflicts s m items = failWith ''EVENT_ID_CONFLICT''"
proof (induction items arbitrary: m)
  case (Cons x items)
  have both: "andThen a b = Inr () \<or> andThen a b = failWith ''EVENT_ID_CONFLICT''"
    if "a = Inr () \<or> a = failWith ''EVENT_ID_CONFLICT''" "b = Inr () \<or> b = failWith ''EVENT_ID_CONFLICT''"
    for a b :: "unit res"
    using that by (auto simp: failWith_def)
  show ?case unfolding check_conflicts.simps checks.simps by (intro both Cons.IH agrees_cases) simp
qed simp

lemma known_hash:
  assumes "guarded X cfg s0 R s"
  shows "agrees (map_option rs_recordHash (jm_get (eventIndex s) i)) h = Inr ()
      \<and> agrees (map_option pe_recordHash (jm_get (pendingIndex s) i)) h = Inr ()
    \<longleftrightarrow> recorded s i = None \<or> recorded s i = Some h"
proof (cases "jm_get (pendingIndex s) i")
  case None
  then show ?thesis by (simp add: agrees_Inr recorded_def split: option.split)
next
  case (Some p)
  then have "p \<in> R \<union> held s" by (auto simp: held_def)
  moreover have "pe_id p = i" using assms indexes_okD(4) [OF _ Some] unfolding guarded_def custody_def by blast
  ultimately have "recorded s i = Some (pe_recordHash p)" using guarded_record [OF assms] by (auto simp: record_ok_def)
  then show ?thesis by (auto simp: agrees_Inr recorded_def Some split: option.splits)
qed

lemma check_conflicts_Inr:
  assumes "guarded X cfg s0 R s"
  shows "check_conflicts s m items = Inr () \<longleftrightarrow>
    (\<forall>x \<in> set items. jm_get m (it_id x) = None \<or> jm_get m (it_id x) = Some (it_recordHash x)) \<and> consistent s items"
proof (induction items arbitrary: m)
  case Nil
  show ?case by (simp add: consistent_def)
next
  case (Cons x items)
  let ?A = "jm_get m (it_id x) = None \<or> jm_get m (it_id x) = Some (it_recordHash x)"
  let ?B = "recorded s (it_id x) = None \<or> recorded s (it_id x) = Some (it_recordHash x)"
  let ?S = "\<forall>y \<in> set items. it_id y = it_id x \<longrightarrow> it_recordHash y = it_recordHash x"
  have "check_conflicts s m (x # items) = Inr () \<longleftrightarrow>
      ?A \<and> ?B \<and> check_conflicts s (jm_set (it_id x) (it_recordHash x) m) items = Inr ()"
    using known_hash [OF assms, of "it_id x" "it_recordHash x"] by (auto simp: andThen_Inr_iff agrees_Inr)
  also have "\<dots> \<longleftrightarrow> ?A \<and> ?B \<and> (\<forall>y \<in> set items. jm_get (jm_set (it_id x) (it_recordHash x) m) (it_id y) = None
      \<or> jm_get (jm_set (it_id x) (it_recordHash x) m) (it_id y) = Some (it_recordHash y)) \<and> consistent s items"
    unfolding Cons.IH ..
  also have "\<dots> \<longleftrightarrow> ?A \<and> ?B \<and> (\<forall>y \<in> set items. jm_get m (it_id y) = None \<or> jm_get m (it_id y) = Some (it_recordHash y))
      \<and> ?S \<and> consistent s items"
  proof (rule conj_cong [OF refl], rule conj_cong [OF refl], rule iffI)
    show "(\<forall>y \<in> set items. jm_get m (it_id y) = None \<or> jm_get m (it_id y) = Some (it_recordHash y)) \<and> ?S \<and> consistent s items"
      if A: ?A and all: "(\<forall>y \<in> set items. jm_get (jm_set (it_id x) (it_recordHash x) m) (it_id y) = None
        \<or> jm_get (jm_set (it_id x) (it_recordHash x) m) (it_id y) = Some (it_recordHash y)) \<and> consistent s items"
    proof (intro conjI ballI impI)
      fix y
      assume y: "y \<in> set items"
      have *: "jm_get (jm_set (it_id x) (it_recordHash x) m) (it_id y) = None
        \<or> jm_get (jm_set (it_id x) (it_recordHash x) m) (it_id y) = Some (it_recordHash y)" using all y by blast
      then show "jm_get m (it_id y) = None \<or> jm_get m (it_id y) = Some (it_recordHash y)"
        using A by (cases "it_id y = it_id x") auto
      show "it_recordHash y = it_recordHash x" if "it_id y = it_id x" using * that by simp
    qed (use all in blast)
  next
    show "(\<forall>y \<in> set items. jm_get (jm_set (it_id x) (it_recordHash x) m) (it_id y) = None
        \<or> jm_get (jm_set (it_id x) (it_recordHash x) m) (it_id y) = Some (it_recordHash y)) \<and> consistent s items"
      if "(\<forall>y \<in> set items. jm_get m (it_id y) = None \<or> jm_get m (it_id y) = Some (it_recordHash y)) \<and> ?S \<and> consistent s items"
    proof (intro conjI ballI)
      fix y
      assume "y \<in> set items"
      with that show "jm_get (jm_set (it_id x) (it_recordHash x) m) (it_id y) = None
        \<or> jm_get (jm_set (it_id x) (it_recordHash x) m) (it_id y) = Some (it_recordHash y)"
        by (cases "it_id y = it_id x") auto
    qed (use that in blast)
  qed
  also have "\<dots> \<longleftrightarrow> (\<forall>y \<in> set (x # items). jm_get m (it_id y) = None \<or> jm_get m (it_id y) = Some (it_recordHash y))
      \<and> consistent s (x # items)"
    unfolding consistent_def list.set ball_simps by (blast intro: sym)
  finally show ?case .
qed

lemma first_items_ids:
  "it_id ` set (first_items seen items) = it_id ` set items - set seen \<and> distinct (map it_id (first_items seen items))"
proof (induction items arbitrary: seen)
  case (Cons x items)
  show ?case
  proof (cases "it_id x \<in> set seen")
    case True
    then show ?thesis using Cons.IH [of seen] by auto
  next
    case False
    then show ?thesis using Cons.IH [of "it_id x # seen"] by auto
  qed
qed simp

lemma new_items_count: "length (new_items s items) = card (unknown_ids s items)"
proof -
  let ?P = "\<lambda>i. \<not> jm_has (eventIndex s) i \<and> \<not> jm_has (pendingIndex s) i"
  have new: "map it_id (new_items s items) = filter ?P (map it_id (first_items [] items))"
    by (simp add: new_items_def filter_map comp_def)
  have "?P i \<longleftrightarrow> i \<notin> dom (recorded s)" for i by (auto simp: recorded_def split: option.splits)
  then have "set (map it_id (new_items s items)) = unknown_ids s items"
    using first_items_ids [of "[]" items] unfolding new unknown_ids_def by auto
  moreover have "distinct (map it_id (new_items s items))"
    unfolding new using first_items_ids [of "[]" items] by (intro distinct_filter) simp
  ultimately show ?thesis by (metis distinct_card length_map)
qed

lemma accept_batch_eq:
  assumes "guarded X cfg s0 R s" and "prepare_items X events = Inr items"
  shows "accept_batch X cfg events s =
    (if \<not> consistent s items then (s, failWith ''EVENT_ID_CONFLICT'')
     else case check_capacity (limits_of cfg) s (new_items s items) of
       Inl e \<Rightarrow> (s, Inl e)
     | Inr _ \<Rightarrow> mapS (accept_item X cfg) items s)"
proof (cases "check_conflicts s [] items = Inr ()")
  case True
  then have "consistent s items" using check_conflicts_Inr [OF assms(1), of "[]" items] by blast
  with True show ?thesis by (simp add: accept_batch_def bindS_def thenS_def assms(2) split: sum.split)
next
  case False
  then have "check_conflicts s [] items = failWith ''EVENT_ID_CONFLICT''" using conflict_cases by blast
  moreover have "\<not> consistent s items" using False check_conflicts_Inr [OF assms(1), of "[]" items] by simp
  ultimately show ?thesis by (simp add: accept_batch_def bindS_def thenS_def assms(2) failWith_def)
qed

lemma accept_batch_spec:
  assumes "guarded X cfg s0 R s" and "accept_batch X cfg events s = (t, r)"
  shows "guarded X cfg s0 R t"
    and "r = Inr rs \<Longrightarrow> \<exists>items. prepare_items X events = Inr items \<and> list_all2 (receipted t) items rs"
proof -
  have "guarded X cfg s0 R t \<and> (\<forall>rs. r = Inr rs \<longrightarrow> (\<exists>items. prepare_items X events = Inr items \<and> list_all2 (receipted t) items rs))"
  proof (cases "prepare_items X events")
    case (Inl e)
    then have "t = s" "r = Inl e" using assms(2) by (simp_all add: accept_batch_def bindS_def)
    then show ?thesis using assms(1) by simp
  next
    case (Inr items)
    note run = assms(2) [unfolded accept_batch_eq [OF assms(1) Inr]]
    show ?thesis
    proof (cases "consistent s items \<and> check_capacity (limits_of cfg) s (new_items s items) = Inr ()")
      case True
      then have "length (pendingIndex s) + card (unknown_ids s items) \<le> maxAcceptedEvents (limits_of cfg)"
        by (auto simp: check_capacity_def res_simps new_items_count [symmetric])
      from accept_items_spec [OF assms(1) prepare_items_Inr(1) [OF Inr] _ this] True run Inr show ?thesis by simp
    next
      case False
      then have "t = s" "\<exists>e. r = Inl e" using run by (auto simp: failWith_def split: if_splits sum.splits)
      then show ?thesis using assms(1) by auto
    qed
  qed
  then show "guarded X cfg s0 R t"
    and "r = Inr rs \<Longrightarrow> \<exists>items. prepare_items X events = Inr items \<and> list_all2 (receipted t) items rs" by blast+
qed

end
