(* ===== verification/G9P_Ledger_Sample.thy ===== *)
theory G9P_Ledger_Sample
  imports G9P_Acceptance G9P_Epoch_Theorems
begin

text \<open>
  A concrete run of the ledger on empty stores: the acceptance of one event, the publication of the
  first routing epoch of its ledger, and the event in the open block of a segment. On the way: the
  keys that the ledger uses are valid keys of sealed storage.
\<close>

section \<open>The keys of the ledger\<close>

lemma split_slash_plain: "47 \<notin> set s \<Longrightarrow> split_slash s = [s]"
  by (induction s) auto

lemma path_part_long: "2 < length s \<Longrightarrow> path_part_ok s"
  by (auto simp: path_part_ok_def)

lemma routing_key_ok:
  assumes "sha256_ok X"
  shows "key_ok (routing_key X ledgerId epoch)" and "sealed_name (routing_key X ledgerId epoch)"
proof -
  define h where "h = ledger_directory X ledgerId"
  define f where "f = routing_epoch_file_name epoch"
  have key: "routing_key X ledgerId epoch = js ''routing'' @ 47 # h @ 47 # f"
    by (simp add: routing_key_def h_def f_def)
  have h: "47 \<notin> set h" "92 \<notin> set h" "0 \<notin> set h" "length h = 64"
    using hex_no_slash assms by (simp_all add: h_def ledger_directory_def)
  have f: "47 \<notin> set f" "92 \<notin> set f" "0 \<notin> set f" "2 < length f"
    using digits_no_slash by (simp_all add: f_def routing_epoch_file_name_def numbered_file_def)
  have r: "47 \<notin> set (js ''routing'')" "92 \<notin> set (js ''routing'')" "0 \<notin> set (js ''routing'')" "2 < length (js ''routing'')" by simp_all
  have "split_slash (routing_key X ledgerId epoch) = [js ''routing'', h, f]"
    by (simp only: key split_slash_append split_slash_plain [OF h(1)] split_slash_plain [OF f(1)]
        split_slash_plain [OF r(1)] append_Cons append_Nil)
  then show "key_ok (routing_key X ledgerId epoch)"
    using h f r path_part_long [of h] path_part_long [of f] path_part_long [of "js ''routing''"]
    unfolding key_ok_def by (auto simp: key)
  show "sealed_name (routing_key X ledgerId epoch)"
    unfolding key f_def routing_epoch_file_name_def numbered_file_def ends_with_iff
    by (metis append.assoc append_Cons)
qed

section \<open>Publication on an empty store\<close>

lemma publish_on_free_name:
  assumes "root_ok root" and "key_ok key" and "sealed_name key"
    and "jm_get (names d) (root @ 47 # key) = None" and "jm_get (names d) (part_path (root @ 47 # key)) = None"
    and "\<forall>q \<in> set (ancestors (root @ 47 # key)). jm_get (names d) q = None"
    and "\<not> is_folder d (root @ 47 # key)" and "\<not> is_folder d (part_path (root @ 47 # key))"
  shows "\<exists>d'. publish root opts key bytes None d = (d', Inr (key, length bytes)) \<and> read_file d' (root @ 47 # key) = Some bytes"
proof -
  obtain d' where run: "publish root opts key bytes None d = (d', Inr (key, length bytes))"
    using publish_succeeds [OF assms] by blast
  note p = publish_Inr(4,5) [OF run assms(1)]
  show ?thesis using run kept_as_read [OF publication_finished(1) [OF p(1) sealed_final [OF p(2)]]] by blast
qed

lemma read_published:
  assumes "root_ok root" and "key_ok key" and "read_file d (root @ 47 # key) = Some bytes" and "length bytes \<le> DEFAULT_MAX_OBJECT_BYTES"
  shows "read_object root DEFAULT_MAX_OBJECT_BYTES key d = Inr bytes"
  using assms(2-4) validate_key_Inr [of key key]
  by (simp add: read_object_def local_path_eq [OF assms(1,2)] invariant_def DEFAULT_MAX_OBJECT_BYTES_def max_safe_integer_def)

section \<open>The sample ledger\<close>

definition sample_config :: ledger_config where
  "sample_config = \<lparr>dataDirectory = js ''/d'', segmentSigner = sample_signer, topologyAuthority = sample_authority,
     checkpointPublisher = sample_authority, segmentTrustBundle = None, defaultShardCount = 1,
     adoptLegacyRoutingHistory = False, limits_of = DEFAULT_LIFECYCLE\<rparr>"

text \<open>The stores after a first start: their directories, and no file.\<close>

definition sample_folders :: "jsstr set" where
  "sample_folders = {js ''/d/intake'', js ''/d/provisional''}"

lemma sample_folders_plain: "\<forall>f \<in> sample_folders. 46 \<notin> set f"
  by (simp add: sample_folders_def)

definition first_ledger :: ledger where
  "first_ledger = bare_ledger sample_folders {} [] (js ''2026-01-02T03:04:05.007Z'')"

lemma sample_root: "root_ok (dataDirectory sample_config)"
  by (simp add: sample_config_def root_ok_def path_part_ok_def)

lemma first_guarded: "guarded toy_platform sample_config first_ledger {} first_ledger"
proof -
  have "indexes_ok toy_platform sample_config first_ledger"
    by (rule indexes_okI) (simp_all add: first_ledger_def bare_ledger_def fresh_ledger_def jm_wf_def bare_disk_ok)
  moreover have "held first_ledger = {}" by (simp add: held_def first_ledger_def bare_ledger_def fresh_ledger_def)
  ultimately show ?thesis by (simp add: guarded_def custody_def records_ok_def keeps_faith_refl)
qed

lemma sample_item:
  obtains item where "prepare_items toy_platform [sample_event ''e1''] = Inr [item]" and "it_event item = sample_event ''e1''"
    and "it_eventBytes item < 1000" and "it_id item = js ''e1''"
proof -
  obtain bytes where bytes: "canonical_event_bytes toy_platform (sample_event ''e1'') = Inr bytes" "length bytes < 1000"
    using sample_event_bytes [of "''e1''"] by blast
  define item where "item = \<lparr>it_event = sample_event ''e1'', it_recordHash = to_hex (event_hash toy_platform bytes),
    it_eventBytes = length bytes\<rparr>"
  have "prepare_items toy_platform [sample_event ''e1''] = Inr [item]"
    using bytes sample_event_valid [of "''e1''"]
    by (simp add: prepare_items_def prepare_item_def event_hash_of_event_def item_def)
  then show thesis
    by (rule that) (use bytes(2) in \<open>simp_all add: item_def it_id_def event_id_def text_prop_def sample_props\<close>)
qed

lemma sample_append_first:
  obtains d n w where "append_intake toy_platform (intakeDirectory sample_config) (sample_event ''e1'') first_ledger
      = (first_ledger\<lparr>intake_disk := d, intake_sequence := n\<rparr>, Inr w)"
    and "pe_event w = sample_event ''e1''"
proof -
  obtain hash where hash: "event_hash_of_event toy_platform (sample_event ''e1'') = Inr hash"
    using sample_event_hash by blast
  note clear = bare_intake_clear [OF sample_folders_plain, of "{}"]
  have there: "is_folder (bare_disk sample_folders {}) (intakeDirectory sample_config)"
    by (simp add: sample_folders_def with_ancestors_def sample_config_def intakeDirectory_def storage_path_def)
  have "\<exists>t p. append_intake toy_platform (intakeDirectory sample_config) (sample_event ''e1'') first_ledger = (t, Inr p)"
    by (rule append_intake_succeeds [OF hash toy_sha256_ok sample_event_measures(1-3)])
      (use sample_event_measures(4) [of "''e1''"] sample_times clear there in \<open>simp_all add: first_ledger_def bare_ledger_def fresh_ledger_def del: js_Cons\<close>)
  then obtain t w where run: "append_intake toy_platform (intakeDirectory sample_config) (sample_event ''e1'') first_ledger = (t, Inr w)"
    by blast
  have ok: "disk_ok (intake_disk first_ledger)" by (simp add: first_ledger_def bare_ledger_def fresh_ledger_def bare_disk_ok)
  obtain d n fs where t: "t = first_ledger\<lparr>faults := fs, intake_disk := d, intake_sequence := n\<rparr>" "pe_event w = sample_event ''e1''"
    using append_intake_spec [OF run ok] by metis
  have "faults t = []"
    using run by (auto simp: append_intake_def bindS_def thenS_def next_fault_eq first_ledger_def bare_ledger_def fresh_ledger_def
        split: sum.splits if_splits prod.splits bool.splits)
  then have "fs = []" by (simp add: t)
  then have "t = first_ledger\<lparr>intake_disk := d, intake_sequence := n\<rparr>"
    by (simp add: t first_ledger_def bare_ledger_def fresh_ledger_def)
  with run t(2) show thesis by (intro that) auto
qed

text \<open>The ledger after the acceptance of the sample event.\<close>

definition accepted_ledger :: "disk \<Rightarrow> nat \<Rightarrow> pending \<Rightarrow> int \<Rightarrow> ledger" where
  "accepted_ledger d n p bytes = first_ledger\<lparr>intake_disk := d, intake_sequence := n,
     pendingIndex := [(js ''e1'', p)], pendingBytes := bytes\<rparr>"

lemma sample_accept:
  obtains d n p bytes where "accept_batch toy_platform sample_config [sample_event ''e1''] first_ledger
      = (accepted_ledger d n p bytes, Inr [accepted_receipt_of p])"
    and "pe_event p = sample_event ''e1''" and "pe_eventBytes p < 1000"
proof -
  obtain item where item: "prepare_items toy_platform [sample_event ''e1''] = Inr [item]" "it_event item = sample_event ''e1''"
    "it_eventBytes item < 1000" "it_id item = js ''e1''" by (rule sample_item)
  obtain d n w where run: "append_intake toy_platform (intakeDirectory sample_config) (sample_event ''e1'') first_ledger
      = (first_ledger\<lparr>intake_disk := d, intake_sequence := n\<rparr>, Inr w)" and w: "pe_event w = sample_event ''e1''"
    by (rule sample_append_first)
  define p where "p = w\<lparr>pe_eventBytes := it_eventBytes item\<rparr>"
  have none: "eventIndex first_ledger = []" "pendingIndex first_ledger = []" "pendingBytes first_ledger = 0"
    by (simp_all add: first_ledger_def bare_ledger_def fresh_ledger_def)
  have "accept_item toy_platform sample_config item first_ledger
      = (accepted_ledger d n p (int (it_eventBytes item)), Inr (accepted_receipt_of p))"
    by (simp add: accept_item_def bindS_def thenS_def none item(2,4) run Let_def p_def [symmetric] accepted_ledger_def
        jm_set_def)
  moreover have "check_conflicts first_ledger [] [item] = Inr ()"
    by (simp add: agrees_def none invariant_def)
  moreover have "new_items first_ledger [item] = [item]" by (simp add: new_items_def none)
  moreover have "check_capacity (limits_of sample_config) first_ledger [item] = Inr ()"
    using item(3) by (simp add: check_capacity_def none invariant_def sample_config_def DEFAULT_LIFECYCLE_def)
  ultimately have "accept_batch toy_platform sample_config [sample_event ''e1''] first_ledger
      = (accepted_ledger d n p (int (it_eventBytes item)), Inr [accepted_receipt_of p])"
    by (simp add: accept_batch_def bindS_def thenS_def item(1) del: check_conflicts.simps)
  then show thesis by (rule that) (use w item(3) in \<open>simp_all add: p_def\<close>)
qed

section \<open>The first routing epoch\<close>

definition first_request :: epoch_request where
  "first_request = genesis_request sample_config (js ''L'') ''Create initial routing epoch'' (js ''2026-01-02T03:04:05.007Z'')"

lemma first_request_written:
  "descriptor_for_write toy_platform EPOCH_LIMITS first_request = Inr (request_descriptor first_request)"
proof (rule descriptor_for_write_total [where n = 1 and code = "''EPOCH_SIGNER''"])
  have "epoch_text_ok toy_platform 4096 (js ''Create initial routing epoch'')" by (rule short_text_ok) simp_all
  then show "descriptor_ok toy_platform EPOCH_LIMITS (request_descriptor first_request)"
    using sample_times sample_identity_ok sample_texts_ok
    by (simp add: descriptor_ok_def request_descriptor_def first_request_def genesis_request_def default_policy_def
        sample_config_def max_safe_integer_def EPOCH_LIMITS_def del: js_Cons)
  show "portable_descriptor (request_descriptor first_request)"
    by (simp add: portable_descriptor_def request_descriptor_def first_request_def genesis_request_def del: js_Cons)
qed (simp_all add: first_request_def genesis_request_def default_policy_def sample_config_def sample_authority_signs(2))

lemma first_epoch:
  obtains bytes result v where "write_routing_epoch toy_platform first_request = Inr (bytes, result)"
    and "length bytes \<le> DEFAULT_MAX_OBJECT_BYTES"
    and "verify_routing_epoch_bytes toy_platform (epoch_options_for sample_config (Some (js ''L'')) 0 None None) bytes = Inr v"
    and "ve_descriptor v = request_descriptor first_request"
proof -
  have "er_topologyAuthority first_request = sample_authority"
    by (simp add: first_request_def genesis_request_def sample_config_def)
  then obtain bytes result where w: "write_routing_epoch toy_platform first_request = Inr (bytes, result)"
    and len: "length bytes \<le> 67108864"
    using write_routing_epoch_total [OF toy_sha256_ok first_request_written] sample_authority_signs(1) by auto
  have match: "epoch_options_match (epoch_options_for sample_config (Some (js ''L'')) 0 None None) (request_descriptor first_request)"
    by (simp add: epoch_options_match_def epoch_options_for_def epoch_expectations_def request_descriptor_def
        first_request_def genesis_request_def sample_config_def invariant_def del: js_Cons)
  have portable: "portable_text (er_ledgerId first_request)" "portable_text (er_reason first_request)"
    by (simp_all add: first_request_def genesis_request_def del: js_Cons)
  from write_then_verify_epoch [OF toy_sha256_ok w first_request_written portable len match] obtain v where
    "verify_routing_epoch_bytes toy_platform (epoch_options_for sample_config (Some (js ''L'')) 0 None None) bytes = Inr v"
    "ve_descriptor v = request_descriptor first_request" by blast
  with w len show thesis by (intro that) (auto simp: DEFAULT_MAX_OBJECT_BYTES_def)
qed

lemma sample_genesis_published:
  assumes "sealed_disk s = bare_disk sample_folders {}" and "faults s = []" and "routingEpochs s = []" and "clock s = js ''2026-01-02T03:04:05.007Z''"
  obtains d v where "ensure_genesis toy_platform sample_config ''Create initial routing epoch'' (js ''L'') s
      = (record_epoch toy_platform (js ''L'') v [v] (s\<lparr>sealed_disk := d\<rparr>), Inr v)"
    and "policy_of v = routing_policy 1" and "epoch_number_of v = 0"
proof -
  obtain bytes result v where w: "write_routing_epoch toy_platform first_request = Inr (bytes, result)"
    and len: "length bytes \<le> DEFAULT_MAX_OBJECT_BYTES"
    and v: "verify_routing_epoch_bytes toy_platform (epoch_options_for sample_config (Some (js ''L'')) 0 None None) bytes = Inr v"
    and d: "ve_descriptor v = request_descriptor first_request" by (rule first_epoch)
  let ?key = "routing_key toy_platform (js ''L'') 0"
  note key = routing_key_ok [OF toy_sha256_ok, of "js ''L''" 0]
  let ?d = "bare_disk sample_folders {}"
  have "46 \<in> set ?key" using key(2) by (auto simp: ends_with_iff)
  then have plain: "dataDirectory sample_config @ 47 # ?key \<notin> with_ancestors sample_folders"
    "part_path (dataDirectory sample_config @ 47 # ?key) \<notin> with_ancestors sample_folders"
    "part_path (dataDirectory sample_config @ 47 # ?key) \<noteq> []"
    using with_ancestors_plain [OF sample_folders_plain, of "dataDirectory sample_config @ 47 # ?key"]
      with_ancestors_plain [OF sample_folders_plain, of "part_path (dataDirectory sample_config @ 47 # ?key)"]
    by (auto simp: part_path_def simp del: js_Cons)
  obtain e where e: "publish (dataDirectory sample_config) (write_codes ''EPOCH_WRITE'' ''EPOCH_EXTENSION'') ?key bytes None ?d
      = (e, Inr (?key, length bytes))" and found: "read_file e (dataDirectory sample_config @ 47 # ?key) = Some bytes"
    using publish_on_free_name [OF sample_root key, of ?d] plain by auto
  note stored = read_published [OF sample_root key(1) found len]
  have pub: "publish_sealed sample_config (write_codes ''EPOCH_WRITE'' ''EPOCH_EXTENSION'') ?key bytes s
      = (s\<lparr>sealed_disk := e\<rparr>, Inr ())"
    using e assms(1,2) by (simp add: publish_sealed_eq)
  have rq: "genesis_request sample_config (js ''L'') ''Create initial routing epoch'' (js ''2026-01-02T03:04:05.007Z'') = first_request"
    by (simp add: first_request_def)
  have "ensure_genesis toy_platform sample_config ''Create initial routing epoch'' (js ''L'') s
      = (record_epoch toy_platform (js ''L'') v [v] (s\<lparr>sealed_disk := e\<rparr>), Inr v)"
    using assms(3,4) pub stored w v rq
    by (simp add: ensure_genesis_def publish_epoch_def bindS_def thenS_def read_sealed_def del: js_Cons)
  moreover have "policy_of v = routing_policy 1" "epoch_number_of v = 0"
    by (simp_all add: policy_of_def epoch_number_of_def d request_descriptor_def first_request_def genesis_request_def
        default_policy_def sample_config_def)
  ultimately show thesis by (rule that)
qed

section \<open>The event in an open block\<close>

lemma append_first:
  assumes "activeSegments s = []" and "activeBlockBytes s = 0" and "pe_eventBytes (ro_pending item) < 1000"
  shows "\<exists>t. append_to_active toy_platform sample_config item epoch s = (t, Inr ())
    \<and> eventIndex t = eventIndex s \<and> provisionalIndex t = provisionalIndex s"
proof -
  define key where "key = state_key (event_ledger (ro_event item)) (epoch_number_of epoch) (ro_shard item)"
  obtain a where open_one: "active_segment_for toy_platform item epoch s = (set_active key a s, Inr key)"
    and a: "ac_recordCount a = 0" "ac_activeBlock a = []" "ac_activeBlockBytes a = 0" "ac_byteCount a = 0"
    using assms(1) by (auto simp: active_segment_for_def bindS_def thenS_def key_def new_active_def Let_def)
  let ?u = "set_active key a s"
  have L: "limits_of sample_config = DEFAULT_LIFECYCLE" by (simp add: sample_config_def)
  have the: "the_active key ?u = (?u, Inr a)"
    by (simp add: the_active_def bindS_def set_active_def)
  have actives: "activeSegments ?u = [(key, a)]" using assms(1) by (simp add: set_active_def jm_set_def)
  have room: "make_room toy_platform sample_config (pe_eventBytes (ro_pending item) + 4) key ?u = (?u, Inr ())"
    using assms(2,3)
    by (simp add: make_room_def bindS_def thenS_def actives L DEFAULT_LIFECYCLE_def invariant_def) (simp add: set_active_def)
  show ?thesis
    using a assms(3)
    by (simp add: append_to_active_def Let_def bindS_def thenS_def whenS_def open_one the room L)
      (simp add: DEFAULT_LIFECYCLE_def set_active_def)
qed

lemma sample_drain:
  assumes "pe_event p = sample_event ''e1''" and "pe_eventBytes p < 1000"
  shows "\<exists>t. drain_accepted toy_platform sample_config False (accepted_ledger d n p bytes) = (t, Inr ())
    \<and> eventIndex t = [] \<and> provisionalIndex t = []"
proof -
  let ?u = "accepted_ledger d n p bytes"
  have u: "sealed_disk ?u = bare_disk sample_folders {}" "faults ?u = []" "routingEpochs ?u = []" "clock ?u = js ''2026-01-02T03:04:05.007Z''"
    "eventIndex ?u = []" "pendingIndex ?u = [(js ''e1'', p)]" "assignedPendingIds ?u = {}" "activeSegments ?u = []"
    "activeBlockBytes ?u = 0" "provisionalIndex ?u = []"
    by (simp_all add: accepted_ledger_def first_ledger_def bare_ledger_def fresh_ledger_def)
  have ledger: "event_ledger (pe_event p) = js ''L''" by (simp add: assms(1) event_ledger_def text_prop_def sample_props)
  obtain e v where genesis: "ensure_genesis toy_platform sample_config ''Create initial routing epoch'' (js ''L'') ?u
      = (record_epoch toy_platform (js ''L'') v [v] (?u\<lparr>sealed_disk := e\<rparr>), Inr v)" and v: "policy_of v = routing_policy 1"
    using sample_genesis_published [OF u(1-4)] by metis
  let ?w = "record_epoch toy_platform (js ''L'') v [v] (?u\<lparr>sealed_disk := e\<rparr>)"
  have w: "routingEpochs ?w = [(js ''L'', v)]" "assignedPendingIds ?w = {}" "activeSegments ?w = []" "activeBlockBytes ?w = 0"
    "eventIndex ?w = []" "provisionalIndex ?w = []"
    using u by (simp_all add: record_epoch_def jm_set_def del: js_Cons)
  have sorted: "by_sequence ?u = [p]" by (simp add: by_sequence_def jm_values_def u)
  have settled: "settle sample_config p ?u = (?u, Inr ())" by (simp add: settle_def bindS_def u)
  have get: "jm_get [(js ''L'', v)] (js ''L'') = Some v" by (simp add: jm_get_def)
  obtain r where "route_event toy_platform (sample_event ''e1'') (routing_policy 1) = Inr r"
    by (auto simp: route_event_def positive_safe_integer_def sample_props is_text_def Let_def)
  then obtain item where routed: "route_pending toy_platform ?w p = Inr item" "ro_pending item = p" "ro_event item = pe_event p"
    using v assms(1) ledger by (simp add: route_pending_def w get del: js_Cons)
  obtain t where t: "append_to_active toy_platform sample_config item v ?w = (t, Inr ())"
    "eventIndex t = []" "provisionalIndex t = []"
    using append_first [OF w(3,4), of item v] routed(2) assms(2) w(5,6) by auto
  from t(1) have "append_routed toy_platform sample_config item ?w = (t, Inr ())"
    by (simp add: append_routed_def bindS_def routed(3) ledger w get del: js_Cons)
  then show ?thesis using t(2,3)
    by (simp add: drain_accepted_def bindS_def thenS_def whenS_def sorted settled ledger genesis w routed(1) del: js_Cons)
qed

text \<open>The sample event is accepted, and its ingest returns.\<close>

lemma sample_ingest_receipt:
  obtains t p where "ingest_accepted_batch toy_platform sample_config [sample_event ''e1''] first_ledger
      = (t, Inr [accepted_receipt_of p])"
    and "pe_event p = sample_event ''e1''" and "well_recorded toy_platform (intakeDirectory sample_config) p"
proof -
  obtain d n p bytes where a: "accept_batch toy_platform sample_config [sample_event ''e1''] first_ledger
      = (accepted_ledger d n p bytes, Inr [accepted_receipt_of p])" and p: "pe_event p = sample_event ''e1''" "pe_eventBytes p < 1000"
    by (rule sample_accept)
  obtain t where t: "drain_accepted toy_platform sample_config False (accepted_ledger d n p bytes) = (t, Inr ())"
    "eventIndex t = []" "provisionalIndex t = []"
    using sample_drain [OF p] by blast
  have "guarded toy_platform sample_config first_ledger {} (accepted_ledger d n p bytes)"
    by (rule accept_batch_spec(1) [OF first_guarded a])
  moreover have "p \<in> held (accepted_ledger d n p bytes)" by (auto simp: held_def accepted_ledger_def jm_get_def)
  ultimately have "well_recorded toy_platform (intakeDirectory sample_config) p"
    using guarded_record [of toy_platform sample_config first_ledger "{}"] by (simp add: record_ok_def)
  with a t p(1) show thesis
    by (intro that [of t p]) (simp_all add: ingest_accepted_batch_def bindS_def thenS_def getS_def best_receipt_def)
qed

lemma sample_ingest:
  obtains t receipts where "ingest_accepted_batch toy_platform sample_config [sample_event ''e1''] first_ledger = (t, Inr receipts)"
  by (rule sample_ingest_receipt) (rule that)

end
