(* ===== verification/G9P_Ledger_Theorems.thy ===== *)
theory G9P_Ledger_Theorems
  imports G9P_Acceptance G9P_Ledger_Sample
begin

text \<open>
  The local ledger along its runs: any sequence of its operations, with any faults of the file
  system in between, from the first start on empty stores.
\<close>

section \<open>Operations keep custody\<close>

lemma keeps_accept: "keeps (guarded X cfg s0 R) (accept_batch X cfg events)"
  by (rule keepsI) (metis accept_batch_spec(1) prod.collapse)

lemma keeps_ingest:
  assumes "root_ok (dataDirectory cfg)"
  shows "keeps (guarded X cfg s0 R) (ingest_batch X cfg events)"
    and "keeps (guarded X cfg s0 R) (ingest_accepted_batch X cfg events)"
  unfolding ingest_batch_def ingest_accepted_batch_def
  by (intro keeps_bind keeps_then keeps_accept keeps_drain keeps_pure assms)+

lemma keeps_transition:
  assumes "root_ok (dataDirectory cfg)"
  shows "keeps (guarded X cfg s0 R) (transition_routing X cfg ledgerId shardCount reason expected)"
  unfolding transition_routing_def current_epoch_def Let_def
  by (intro keeps_intro keeps_drain assms)

lemma keeps_checkpoint:
  assumes "root_ok (dataDirectory cfg)"
  shows "keeps (guarded X cfg s0 R) (publish_checkpoint X cfg ledgerId)"
  unfolding publish_checkpoint_def continue_chain_def Let_def
  by (intro keeps_intro keeps_drain assms)

lemma keeps_expired:
  assumes "root_ok (dataDirectory cfg)"
  shows "keeps (guarded X cfg s0 R) (seal_expired X cfg now)"
  unfolding seal_expired_def by (intro keeps_intro assms)

section \<open>Runs\<close>

text \<open>The operations run one after the other; between them time passes, and the faults that the file
  system will meet next are anything.\<close>

inductive ledger_step :: "platform \<Rightarrow> ledger_config \<Rightarrow> ledger \<Rightarrow> ledger \<Rightarrow> bool" for X cfg where
  Ingest: "ledger_step X cfg s (fst (ingest_batch X cfg events s))"
| Ingest_Accepted: "ledger_step X cfg s (fst (ingest_accepted_batch X cfg events s))"
| Accept: "ledger_step X cfg s (fst (accept_batch X cfg events s))"
| Drain: "ledger_step X cfg s (fst (drain_accepted X cfg True s))"
| Transition: "ledger_step X cfg s (fst (transition_routing X cfg ledgerId shardCount reason expected s))"
| Checkpoint: "ledger_step X cfg s (fst (publish_checkpoint X cfg ledgerId s))"
| Seal_Expired: "ledger_step X cfg s (fst (seal_expired X cfg now s))"
| Environment: "ledger_step X cfg s (s\<lparr>clock := time, faults := ahead\<rparr>)"

inductive_cases ledger_stepE: "ledger_step X cfg s t"

definition ledger_reachable :: "platform \<Rightarrow> ledger_config \<Rightarrow> ledger \<Rightarrow> bool" where
  "ledger_reachable X cfg s \<longleftrightarrow> (\<exists>F D ahead now.
     (ledger_step X cfg)\<^sup>*\<^sup>* (bare_ledger F D ahead now) s)"

definition in_custody :: "platform \<Rightarrow> ledger_config \<Rightarrow> ledger \<Rightarrow> bool" where
  "in_custody X cfg s \<longleftrightarrow> root_ok (dataDirectory cfg) \<and> custody X cfg {} s"

lemma ledger_step_guarded:
  assumes "root_ok (dataDirectory cfg)" and "guarded X cfg s0 {} s" and "ledger_step X cfg s t"
  shows "guarded X cfg s0 {} t"
  using assms(3)
proof cases
  case (Ingest events)
  then show ?thesis using keepsD [OF keeps_ingest(1) [OF assms(1)] assms(2)] by simp
next
  case (Ingest_Accepted events)
  then show ?thesis using keepsD [OF keeps_ingest(2) [OF assms(1)] assms(2)] by simp
next
  case (Accept events)
  then show ?thesis using keepsD [OF keeps_accept assms(2)] by simp
next
  case Drain
  then show ?thesis using keepsD [OF keeps_drain [OF assms(1)] assms(2)] by simp
next
  case Transition
  then show ?thesis using keepsD [OF keeps_transition [OF assms(1)] assms(2)] by simp
next
  case Checkpoint
  then show ?thesis using keepsD [OF keeps_checkpoint [OF assms(1)] assms(2)] by simp
next
  case Seal_Expired
  then show ?thesis using keepsD [OF keeps_expired [OF assms(1)] assms(2)] by simp
next
  case Environment
  then show ?thesis by (simp only:) (rule guarded_core_update [OF _ assms(2)], simp add: core_def)
qed

lemma in_custody_guarded: "in_custody X cfg s \<longleftrightarrow> root_ok (dataDirectory cfg) \<and> guarded X cfg s {} s"
  by (auto simp: in_custody_def guarded_def keeps_faith_refl)

interpretation ledger: machine "ledger_step X cfg" "in_custody X cfg" keeps_faith for X cfg
proof
  fix s t u
  show "in_custody X cfg t" and "keeps_faith s t" if "in_custody X cfg s" and "ledger_step X cfg s t"
    using ledger_step_guarded [OF _ _ that(2), of s] that(1)
    by (auto simp: in_custody_guarded guarded_def keeps_faith_refl)
  show "keeps_faith s s" by (rule keeps_faith_refl)
  show "keeps_faith s u" if "keeps_faith s t" and "keeps_faith t u" using that by (rule keeps_faith_trans)
qed

lemma fresh_in_custody:
  assumes "root_ok (dataDirectory cfg)"
  shows "in_custody X cfg (bare_ledger F D ahead now)"
proof -
  have "indexes_ok X cfg (bare_ledger F D ahead now)"
    by (rule indexes_okI) (simp_all add: bare_ledger_def fresh_ledger_def jm_wf_def bare_disk_ok)
  moreover have "held (bare_ledger F D ahead now) = {}"
    by (simp add: held_def bare_ledger_def fresh_ledger_def)
  ultimately show ?thesis using assms by (simp add: in_custody_def custody_def records_ok_def)
qed

lemma reachable_in_custody:
  assumes "root_ok (dataDirectory cfg)" and "ledger_reachable X cfg s"
  shows "in_custody X cfg s"
  using assms(2) ledger.run_inv [OF _ fresh_in_custody [OF assms(1)]] by (auto simp: ledger_reachable_def)

lemma reachable_guarded:
  assumes "root_ok (dataDirectory cfg)" and "ledger_reachable X cfg s"
  shows "guarded X cfg s {} s"
  using reachable_in_custody [OF assms] by (simp add: in_custody_guarded)

text \<open>What is on record is backed by a synchronised intake file or by a sealed segment.\<close>

lemma recorded_backed:
  assumes "in_custody X cfg t" and known: "recorded t i = Some h"
  shows "(\<exists>p. jm_get (pendingIndex t) i = Some p \<and> pe_id p = i \<and> pe_recordHash p = h \<and> retained X (intake_disk t) p)
      \<or> (\<exists>r. jm_get (eventIndex t) i = Some r \<and> rs_recordHash r = h \<and> evidence X cfg (sealed_disk t) r)"
proof -
  have ix: "indexes_ok X cfg t" using assms(1) by (simp add: in_custody_def custody_def)
  show ?thesis
  proof (cases "jm_get (eventIndex t) i")
    case (Some r)
    then show ?thesis using known indexes_okD(6) [OF ix Some] by (simp add: recorded_def)
  next
    case None
    then obtain p where p: "jm_get (pendingIndex t) i = Some p" "pe_recordHash p = h"
      using known by (auto simp: recorded_def)
    then show ?thesis using known indexes_okD(4,5) [OF ix p(1)] None by simp
  qed
qed

section \<open>Receipts\<close>

lemma find_receipt_recorded:
  assumes "guarded X cfg s0 R s"
  shows "recorded s i = map_option receipt_hash (find_receipt s i)"
    and "find_receipt s i = Some r \<Longrightarrow> receipt_id r = i"
proof -
  have ix: "indexes_ok X cfg s" using assms by (simp add: guarded_def custody_def)
  note d = indexes_okD [OF ix]
  have "recorded s i = map_option receipt_hash (find_receipt s i) \<and> (\<forall>r. find_receipt s i = Some r \<longrightarrow> receipt_id r = i)"
  proof (cases "jm_get (eventIndex s) i")
    case (Some r)
    then show ?thesis using d(6) [OF Some] by (simp add: recorded_def find_receipt_def)
  next
    case None
    show ?thesis
    proof (cases "jm_get (provisionalIndex s) i")
      case (Some v)
      then show ?thesis using None d(7) [OF Some] by (simp add: find_receipt_def)
    next
      case none: None
      show ?thesis
        using None none d(4) [of i]
        by (cases "jm_get (pendingIndex s) i") (simp_all add: recorded_def find_receipt_def accepted_receipt_of_def pe_id_def)
    qed
  qed
  then show "recorded s i = map_option receipt_hash (find_receipt s i)"
    and "find_receipt s i = Some r \<Longrightarrow> receipt_id r = i" by blast+
qed

lemma best_receipt_receipted:
  assumes "guarded X cfg s0 R s" and "receipted s item r"
  shows "receipted s item (best_receipt provisional s r)"
proof -
  have ix: "indexes_ok X cfg s" using assms(1) by (simp add: guarded_def custody_def)
  note d = indexes_okD [OF ix]
  have r: "receipt_id r = it_id item" "recorded s (it_id item) = Some (it_recordHash item)"
    using assms(2) by (simp_all add: receipted_def)
  show ?thesis
  proof (cases "jm_get (eventIndex s) (it_id item)")
    case (Some q)
    then show ?thesis using d(6) [OF Some] r by (simp add: best_receipt_def receipted_def recorded_def)
  next
    case None
    then show ?thesis
      using d(7) [of "it_id item"] r assms(2)
      by (cases "jm_get (provisionalIndex s) (it_id item)") (auto simp: best_receipt_def receipted_def)
  qed
qed

lemma ingest_receipts:
  assumes "root_ok (dataDirectory cfg)" and "guarded X cfg s {} s"
    and "run = ingest_batch X cfg \<or> run = ingest_accepted_batch X cfg" and "run events s = (t, Inr receipts)"
  shows "\<exists>items. prepare_items X events = Inr items \<and> list_all2 (receipted t) items receipts"
proof -
  obtain force provisional where
    run: "run events s = bindS (accept_batch X cfg events) (\<lambda>accepted. thenS (drain_accepted X cfg force)
      (getS (\<lambda>s. map (best_receipt provisional s) accepted))) s"
    using assms(3) unfolding ingest_batch_def ingest_accepted_batch_def by blast
  from run assms(4) have "bindS (accept_batch X cfg events) (\<lambda>accepted. thenS (drain_accepted X cfg force)
      (getS (\<lambda>s. map (best_receipt provisional s) accepted))) s = (t, Inr receipts)" by simp
  then obtain u accepted v where a: "accept_batch X cfg events s = (u, Inr accepted)"
    and v: "drain_accepted X cfg force u = (v, Inr ())" and t: "t = v" "receipts = map (best_receipt provisional v) accepted"
    by (auto simp: bindS_Inr thenS_Inr)
  obtain items where items: "prepare_items X events = Inr items" "list_all2 (receipted u) items accepted"
    using accept_batch_spec(2) [OF assms(2) a refl] by blast
  have "guarded X cfg s {} u" by (rule accept_batch_spec(1) [OF assms(2) a])
  then have "guarded X cfg u {} u" by (simp add: guarded_def keeps_faith_refl)
  from keepsD [OF keeps_drain [OF assms(1)] this, of force] have g: "guarded X cfg u {} t" by (simp add: v t)
  then have more: "recorded u \<subseteq>\<^sub>m recorded t" by (simp add: guarded_def keeps_faith_def)
  from items(2) have "list_all2 (receipted t) items accepted"
    by (rule list.rel_mono_strong) (rule receipted_later [OF _ more])
  then have "list_all2 (\<lambda>item r. receipted t item (best_receipt provisional t r)) items accepted"
    by (rule list.rel_mono_strong) (rule best_receipt_receipted [OF g])
  then show ?thesis using items(1) by (simp add: t list_all2_map2)
qed

section \<open>A sample run\<close>

definition sample_after :: ledger where
  "sample_after = fst (ingest_accepted_batch toy_platform sample_config [sample_event ''e1''] first_ledger)"

lemma first_reachable: "ledger_reachable toy_platform sample_config first_ledger"
  unfolding ledger_reachable_def first_ledger_def by blast

lemma sample_reachable: "ledger_reachable toy_platform sample_config sample_after"
  unfolding ledger_reachable_def sample_after_def first_ledger_def
  by (rule exI, rule exI, rule exI, rule exI, rule r_into_rtranclp, rule Ingest_Accepted)

lemma sample_recorded:
  obtains hash where "recorded sample_after (js ''e1'') = Some (to_hex hash)" and "length hash = 32"
proof -
  obtain t receipts where run: "ingest_accepted_batch toy_platform sample_config [sample_event ''e1''] first_ledger = (t, Inr receipts)"
    by (rule sample_ingest)
  obtain items where items: "prepare_items toy_platform [sample_event ''e1''] = Inr items" "list_all2 (receipted t) items receipts"
    using ingest_receipts [where run = "ingest_accepted_batch toy_platform sample_config",
        OF sample_root first_guarded disjI2 [OF refl] run] by blast
  obtain item r where item: "items = [item]" "receipted t item r" "it_event item = sample_event ''e1''" "prepared toy_platform item"
    using prepare_items_Inr [OF items(1)] items(2) by (cases items; cases receipts) auto
  then obtain hash where h: "event_hash_of_event toy_platform (it_event item) = Inr hash" "it_recordHash item = to_hex hash"
    by (auto simp: prepared_def)
  have "it_id item = js ''e1''" by (simp add: it_id_def item(3) event_id_def text_prop_def sample_props)
  then have "recorded sample_after (js ''e1'') = Some (to_hex hash)"
    using item(2) h(2) by (simp add: receipted_def sample_after_def run del: js_Cons)
  then show thesis using event_hash_facts(4) [OF h(1) toy_sha256_ok] by (rule that)
qed

lemma sample_later: "(ledger_step toy_platform sample_config)\<^sup>*\<^sup>* sample_after (fst (seal_expired toy_platform sample_config (Some 0) sample_after))"
  by (rule r_into_rtranclp, rule Seal_Expired)

section \<open>Properties\<close>

text \<open>
  C2: Nothing that the ledger has accepted is forgotten or altered. From the first start on, after
  any operations with any faults of the file system, an event identifier that was recorded with a
  record hash is recorded with that hash for good; and it is backed either by an intake file that
  has been synchronised and that holds the record, or by a sealed segment in which the event has
  the place that the receipt states.
\<close>

theorem accepted_events_are_never_lost:
  assumes "root_ok (dataDirectory cfg)" and "ledger_reachable X cfg s"
    and "recorded s i = Some h" and "(ledger_step X cfg)\<^sup>*\<^sup>* s t"
  shows "recorded t i = Some h
    \<and> ((\<exists>p. jm_get (pendingIndex t) i = Some p \<and> pe_id p = i \<and> pe_recordHash p = h \<and> retained X (intake_disk t) p)
      \<or> (\<exists>r. jm_get (eventIndex t) i = Some r \<and> rs_recordHash r = h \<and> evidence X cfg (sealed_disk t) r))"
proof -
  have s: "in_custody X cfg s" by (rule reachable_in_custody [OF assms(1,2)])
  have "keeps_faith s t" by (rule ledger.run_grows [OF assms(4) s])
  then have known: "recorded t i = Some h" using assms(3) unfolding keeps_faith_def by (metis domI map_le_def)
  have "in_custody X cfg t" by (rule ledger.run_inv [OF assms(4) s])
  from recorded_backed [OF this known] known show ?thesis by blast
qed

theorem accepted_events_are_never_lost_witness:
  "\<exists>h. recorded sample_after (js ''e1'') = Some h
    \<and> recorded (fst (seal_expired toy_platform sample_config (Some 0) sample_after)) (js ''e1'') = Some h"
proof -
  obtain hash where h: "recorded sample_after (js ''e1'') = Some (to_hex hash)" by (rule sample_recorded)
  with accepted_events_are_never_lost [OF sample_root sample_reachable h sample_later] show ?thesis by blast
qed

text \<open>
  C11: The receipts of an accepted batch. When \<open>ingestBatch\<close> or \<open>ingestAcceptedBatch\<close> returns, there is
  one receipt per event, in order, with the identifier and the record hash of that event, and the
  ledger has the event on record under that hash.
\<close>

theorem ingested_batch_is_receipted:
  assumes "root_ok (dataDirectory cfg)" and "ledger_reachable X cfg s"
    and "run = ingest_batch X cfg \<or> run = ingest_accepted_batch X cfg" and "run events s = (t, Inr receipts)"
  shows "list_all2 (\<lambda>event r. receipt_id r = event_id event
      \<and> (\<exists>hash. event_hash_of_event X event = Inr hash \<and> receipt_hash r = to_hex hash
           \<and> recorded t (event_id event) = Some (to_hex hash))) events receipts"
proof -
  obtain items where items: "prepare_items X events = Inr items" "list_all2 (receipted t) items receipts"
    using ingest_receipts [OF assms(1) reachable_guarded [OF assms(1,2)] assms(3,4)] by blast
  have p: "list_all (prepared X) items" "events = map it_event items" using prepare_items_Inr [OF items(1)] by simp_all
  show ?thesis unfolding p(2) list_all2_map1
    using items(2) by (rule list.rel_mono_strong)
      (use p(1) in \<open>auto simp: list_all_iff prepared_def receipted_def it_id_def\<close>)
qed

theorem ingested_batch_is_receipted_witness:
  "\<exists>t r. ingest_accepted_batch toy_platform sample_config [sample_event ''e1''] first_ledger = (t, Inr [r])
    \<and> receipt_id r = js ''e1''"
proof -
  obtain t receipts where run: "ingest_accepted_batch toy_platform sample_config [sample_event ''e1''] first_ledger = (t, Inr receipts)"
    by (rule sample_ingest)
  note all = ingested_batch_is_receipted [where run = "ingest_accepted_batch toy_platform sample_config",
      OF sample_root first_reachable disjI2 [OF refl] run]
  have "event_id (sample_event ''e1'') = js ''e1''" by (simp add: event_id_def text_prop_def sample_props)
  with all run show ?thesis by (auto simp: list_all2_Cons1 simp del: js_Cons)
qed

text \<open>
  C12: A refused batch changes nothing. An event that is not valid, an identifier that is on record or
  in the batch with another hash, and a batch for which there is no room are refused before anything
  is written; of these reasons the first one in this order is reported.
\<close>

theorem refused_batch_changes_nothing:
  assumes "root_ok (dataDirectory cfg)" and "ledger_reachable X cfg s"
    and "run = ingest_batch X cfg \<or> run = ingest_accepted_batch X cfg"
  shows "(\<forall>e. prepare_items X events = Inl e \<longrightarrow> run events s = (s, Inl e))
    \<and> (\<forall>items. prepare_items X events = Inr items \<longrightarrow>
        (\<not> consistent s items \<longrightarrow> run events s = (s, failWith ''EVENT_ID_CONFLICT''))
        \<and> (\<forall>e. consistent s items \<and> check_capacity (limits_of cfg) s (new_items s items) = Inl e
             \<longrightarrow> run events s = (s, Inl e)))"
proof -
  have refused: "run events s = (s, Inl e)" if "accept_batch X cfg events s = (s, Inl e)" for e
    using assms(3) that unfolding ingest_batch_def ingest_accepted_batch_def by (auto simp: bindS_def)
  note eq = accept_batch_eq [OF reachable_guarded [OF assms(1,2)]]
  show ?thesis
  proof (intro conjI allI impI)
    show "run events s = (s, Inl e)" if "prepare_items X events = Inl e" for e
      using that by (intro refused) (simp add: accept_batch_def bindS_def)
    show "run events s = (s, failWith ''EVENT_ID_CONFLICT'')"
      if "prepare_items X events = Inr items" "\<not> consistent s items" for items
      using that eq [OF that(1)] unfolding failWith_def by (intro refused) simp
    show "run events s = (s, Inl e)"
      if "prepare_items X events = Inr items"
        "consistent s items \<and> check_capacity (limits_of cfg) s (new_items s items) = Inl e" for items e
      using that eq [OF that(1)] by (intro refused) simp
  qed
qed

theorem refused_batch_changes_nothing_witness:
  "ingest_batch toy_platform sample_config [JNull] first_ledger = (first_ledger, failWith ''EVENT_OBJECT'')"
proof -
  have "prepare_items toy_platform [JNull] = Inl (G9p ''EVENT_OBJECT'')"
    by (simp add: prepare_items_def validate_event_def is_object_def invariant_def failWith_def)
  then show ?thesis
    using refused_batch_changes_nothing [where run = "ingest_batch toy_platform sample_config" and events = "[JNull]",
        OF sample_root first_reachable disjI1 [OF refl]]
    by (simp add: failWith_def)
qed

text \<open>
  C24: Looking up a receipt changes nothing and tells the three cases apart: a receipt with the
  identifier and the hash asked for when the event is on record under it, a conflict when it is on
  record under another hash, and not found otherwise.
\<close>

theorem receipt_lookup_answers:
  assumes "root_ok (dataDirectory cfg)" and "ledger_reachable X cfg s" and "i \<noteq> []" and "is_hex64 h"
  shows "case recorded s i of
      None \<Rightarrow> receipt_lookup (JStr i) (JStr h) s = (s, failWith ''RECEIPT_NOT_FOUND'')
    | Some k \<Rightarrow>
        if k = h then \<exists>r. receipt_lookup (JStr i) (JStr h) s = (s, Inr r) \<and> receipt_id r = i \<and> receipt_hash r = h
        else receipt_lookup (JStr i) (JStr h) s = (s, failWith ''EVENT_ID_CONFLICT'')"
proof -
  note f = find_receipt_recorded [OF reachable_guarded [OF assms(1,2)]]
  have checked: "receipt_lookup (JStr i) (JStr h) s =
      (case find_receipt s i of
         None \<Rightarrow> (s, failWith ''RECEIPT_NOT_FOUND'')
       | Some r \<Rightarrow> if receipt_hash r = h then (s, Inr r) else (s, failWith ''EVENT_ID_CONFLICT''))"
    using assms(3,4)
    by (simp add: receipt_lookup_def bindS_def thenS_def non_empty_string_def hash_text_def str_of_def invariant_def
        failWith_def split: option.split)
  show ?thesis
  proof (cases "find_receipt s i")
    case None
    then show ?thesis using f(1) [of i] by (simp add: checked)
  next
    case (Some r)
    then show ?thesis using f(1) [of i] f(2) [OF Some] by (simp add: checked)
  qed
qed

theorem receipt_lookup_answers_witness:
  "\<exists>h r. receipt_lookup (JStr (js ''e1'')) (JStr h) sample_after = (sample_after, Inr r) \<and> receipt_id r = js ''e1''"
proof -
  obtain hash where h: "recorded sample_after (js ''e1'') = Some (to_hex hash)" "length hash = 32" by (rule sample_recorded)
  have "js ''e1'' \<noteq> []" by simp
  from receipt_lookup_answers [OF sample_root sample_reachable this is_hex64_to_hex [OF h(2)]] h(1)
  show ?thesis by (auto simp del: js_Cons)
qed

text \<open>
  C37: The number of accepted events that wait to be sealed never exceeds \<open>maxAcceptedEvents\<close>.
\<close>

theorem waiting_events_are_bounded:
  assumes "root_ok (dataDirectory cfg)" and "ledger_reachable X cfg s"
  shows "length (pendingIndex s) \<le> maxAcceptedEvents (limits_of cfg) \<and> distinct (map fst (pendingIndex s))"
proof -
  have "indexes_ok X cfg s" using reachable_in_custody [OF assms] by (simp add: in_custody_def custody_def)
  then show ?thesis using indexes_okD(1,8) by (auto simp: jm_wf_def)
qed

theorem waiting_events_are_bounded_witness:
  "length (pendingIndex sample_after) \<le> 100000 \<and> distinct (map fst (pendingIndex sample_after))"
  using waiting_events_are_bounded [OF sample_root sample_reachable]
  by (simp add: sample_config_def DEFAULT_LIFECYCLE_def)

end
