(* ===== verification/G9P_Independent.thy ===== *)
theory G9P_Independent
  imports G9P_Segment_Verifier
begin

text \<open>
  The independent verifier (src/tools/independent-verifier/verify.js): a second implementation of
  the rules for stored bytes that shares no code with the first one. It has its own codec, its own
  frame reader, its own field checks and a single pass over the blocks. Its definitions carry the
  prefix \<open>iv_\<close>; only the primitives of the platform are those of the other implementation.
\<close>

section \<open>Rejections\<close>

text \<open>\<open>reject(category, code, message)\<close> throws an error with a category; \<open>Thrown\<close> is any error of
  the language runtime, such as the \<open>TypeError\<close> of the strict text decoder.\<close>

datatype rejection = Reject string string | Thrown

type_synonym 'a verdict = "rejection + 'a"

definition requireThat :: "bool \<Rightarrow> string \<Rightarrow> string \<Rightarrow> unit verdict" where
  "requireThat condition category code = (if condition then Inr () else Inl (Reject category code))"

definition iv_MAX_FILE :: nat where
  "iv_MAX_FILE = 536870912"

definition iv_MAX_FRAME :: nat where
  "iv_MAX_FRAME = 67108864"

definition iv_MAX_BLOCK_OUTPUT :: nat where
  "iv_MAX_BLOCK_OUTPUT = 67108864"

definition iv_MAX_RECORD :: nat where
  "iv_MAX_RECORD = 16777216"

section \<open>Its domain-separated hash\<close>

definition iv_u64 :: "nat \<Rightarrow> byte list" where
  "iv_u64 n = be_bytes 8 n"

definition iv_domainHash :: "platform \<Rightarrow> string \<Rightarrow> byte list list \<Rightarrow> byte list" where
  "iv_domainHash X domain parts =
     (let prefix = utf8 (js (''G9P'' @ CHR 0x00 # domain)) in
      sha256 X (iv_u64 (length prefix) @ prefix @ concat (map (\<lambda>part. iv_u64 (length part) @ part) parts)))"

lemma iv_domainHash_agrees [simp]: "iv_domainHash = domain_digest"
  by (intro ext) (simp add: iv_domainHash_def domain_digest_def hash_input_def prefixed_def [abs_def] length_prefix_def
      domain_bytes_def iv_u64_def Let_def)

section \<open>Its encoder\<close>

function iv_varuint :: "nat \<Rightarrow> byte list" where
  "iv_varuint n =
     (let byte = (of_nat (n mod 128) :: byte); remaining = n div 128 in
      if 0 < remaining then (byte OR 0x80) # iv_varuint remaining else [byte])"
  by pat_completeness auto
termination
  by (relation "measure id") auto

declare iv_varuint.simps [simp del]

definition iv_text :: "jsstr \<Rightarrow> byte list" where
  "iv_text s = 0x20 # iv_varuint (length (utf8 s)) @ utf8 s"

fun iv_encode :: "jsval \<Rightarrow> byte list verdict" where
  "iv_encode JNull = Inr [0x00]"
| "iv_encode (JBool b) = Inr [if b then 0x02 else 0x01]"
| "iv_encode (JInt i) = Inr (0x10 # iv_varuint (if 0 \<le> i then nat (i * 2) else nat (- i * 2 - 1)))"
| "iv_encode (JDbl w) = Inr (0x11 # u64_be (unat w))"
| "iv_encode (JStr s) = Inr (iv_text s)"
| "iv_encode (JBytes b) = Inr (0x30 # iv_varuint (length b) @ b)"
| "iv_encode (JArr items) =
     bindR (mapR iv_encode items) (\<lambda>parts. Inr (0x40 # iv_varuint (length items) @ concat parts))"
| "iv_encode (JObj kvs) =
     bindR (mapR (\<lambda>(key, item). bindR (iv_encode item) (\<lambda>bs. Inr (iv_text key @ bs)))
       (sort_key (\<lambda>(key, _). utf8 key) kvs)) (\<lambda>parts.
     Inr (0x50 # iv_varuint (length kvs) @ concat parts))"
| "iv_encode JUndef = Inl (Reject ''CANONICAL'' ''VALUE_TYPE'')"
| "iv_encode JOther = Inl (Reject ''CANONICAL'' ''VALUE_TYPE'')"

section \<open>Its reader\<close>

text \<open>The reader's buffer and offset are the unread rest of the buffer.\<close>

definition iv_take :: "nat \<Rightarrow> byte list \<Rightarrow> (byte list \<times> byte list) verdict" where
  "iv_take len bs =
     andThen (requireThat (len \<le> max_safe_integer \<and> len \<le> length bs) ''CANONICAL'' ''TRUNCATED'')
       (Inr (take len bs, drop len bs))"

definition iv_byte :: "byte list \<Rightarrow> (byte \<times> byte list) verdict" where
  "iv_byte bs = bindR (iv_take 1 bs) (\<lambda>(taken, rest). Inr (hd taken, rest))"

function iv_uint_loop :: "nat \<Rightarrow> nat \<Rightarrow> nat \<Rightarrow> byte list \<Rightarrow> (nat \<times> byte list) verdict" where
  "iv_uint_loop value shift count bs =
     andThen (requireThat (count < 10) ''CANONICAL'' ''VARUINT'')
       (bindR (iv_byte bs) (\<lambda>(byte, rest).
          let final = unat (byte AND 0x7F); value' = value OR push_bit shift final; count' = count + 1 in
          if byte AND 0x80 = 0
          then andThen (requireThat (count' = 1 \<or> final \<noteq> 0) ''CANONICAL'' ''NON_MINIMAL'') (Inr (value', rest))
          else iv_uint_loop value' (shift + 7) count' rest))"
  by pat_completeness auto
termination
  by (relation "measure (\<lambda>(value, shift, count, bs). 10 - count)") (auto simp: requireThat_def split: if_splits)

declare iv_uint_loop.simps [simp del]

definition iv_uint :: "byte list \<Rightarrow> (nat \<times> byte list) verdict" where
  "iv_uint bs = iv_uint_loop 0 0 0 bs"

definition iv_length :: "byte list \<Rightarrow> (nat \<times> byte list) verdict" where
  "iv_length bs =
     bindR (iv_uint bs) (\<lambda>(n, rest).
     andThen (requireThat (n \<le> max_safe_integer) ''RESOURCE_LIMIT'' ''INTEGER_LIMIT'') (Inr (n, rest)))"

definition iv_utf8 :: "byte list \<Rightarrow> jsstr verdict" where
  "iv_utf8 bytes = (case text_decode bytes of None \<Rightarrow> Inl Thrown | Some s \<Rightarrow> Inr s)"

fun iv_entries ::
  "nat \<Rightarrow> (byte list \<Rightarrow> (jsval \<times> byte list) verdict) \<Rightarrow> byte list option
    \<Rightarrow> (jsstr \<times> jsval) list \<Rightarrow> byte list \<Rightarrow> ((jsstr \<times> jsval) list \<times> byte list) verdict" where
  "iv_entries 0 readValue previous result bs = Inr (result, bs)"
| "iv_entries (Suc n) readValue previous result bs =
     bindR (iv_byte bs) (\<lambda>(tag, bs1).
     andThen (requireThat (tag = 0x20) ''CANONICAL'' ''MAP_KEY'')
     (bindR (iv_length bs1) (\<lambda>(keyLength, bs2).
      bindR (iv_take keyLength bs2) (\<lambda>(keyBytes, bs3).
      andThen (requireThat (case previous of None \<Rightarrow> True | Some p \<Rightarrow> p < keyBytes) ''CANONICAL'' ''MAP_ORDER'')
      (bindR (iv_utf8 keyBytes) (\<lambda>key.
       bindR (readValue bs3) (\<lambda>(v, bs4).
       iv_entries n readValue (Some keyBytes) (AList.update key v result) bs4)))))))"

lemma iv_entries_cong [fundef_cong]:
  "n = n' \<Longrightarrow> p = p' \<Longrightarrow> r = r' \<Longrightarrow> bs = bs' \<Longrightarrow> (\<And>x. f x = f' x) \<Longrightarrow>
   iv_entries n f p r bs = iv_entries n' f' p' r' bs'"
  by (metis ext)

function iv_value :: "nat \<Rightarrow> byte list \<Rightarrow> (jsval \<times> byte list) verdict" where
  "iv_value depth bs =
     andThen (requireThat (depth \<le> 64) ''RESOURCE_LIMIT'' ''DEPTH_LIMIT'')
     (bindR (iv_byte bs) (\<lambda>(tag, rest).
        if tag = 0x00 then Inr (JNull, rest)
        else if tag = 0x01 then Inr (JBool False, rest)
        else if tag = 0x02 then Inr (JBool True, rest)
        else if tag = 0x10 then
          bindR (iv_uint rest) (\<lambda>(encoded, rest').
          let integer = (if encoded mod 2 = 0 then int (encoded div 2) else - int ((encoded + 1) div 2)) in
          andThen (requireThat (- int max_safe_integer \<le> integer \<and> integer \<le> int max_safe_integer)
            ''RESOURCE_LIMIT'' ''INTEGER_LIMIT'')
          (Inr (JInt integer, rest')))
        else if tag = 0x11 then
          bindR (iv_take 8 rest) (\<lambda>(bytes, rest').
          let w = (of_nat (of_be bytes) :: 64 word) in
          andThen (requireThat (dbl_is_finite w \<and> \<not> dbl_is_safe_integer w) ''CANONICAL'' ''NUMBER'')
          (Inr (JDbl w, rest')))
        else if tag = 0x20 \<or> tag = 0x30 then
          bindR (iv_length rest) (\<lambda>(len, rest1).
          andThen (requireThat (len \<le> iv_MAX_FRAME) ''RESOURCE_LIMIT'' ''VALUE_LIMIT'')
          (bindR (iv_take len rest1) (\<lambda>(bytes, rest2).
           if tag = 0x30 then Inr (JBytes bytes, rest2)
           else bindR (iv_utf8 bytes) (\<lambda>s. Inr (JStr s, rest2)))))
        else if tag = 0x40 then
          bindR (iv_length rest) (\<lambda>(len, rest1).
          andThen (requireThat (len \<le> 1000000) ''RESOURCE_LIMIT'' ''COLLECTION_LIMIT'')
          (bindR (repeatR len (\<lambda>s. iv_value (depth + 1) s) rest1) (\<lambda>(items, rest2). Inr (JArr items, rest2))))
        else if tag = 0x50 then
          bindR (iv_length rest) (\<lambda>(len, rest1).
          andThen (requireThat (len \<le> 1000000) ''RESOURCE_LIMIT'' ''COLLECTION_LIMIT'')
          (bindR (iv_entries len (\<lambda>s. iv_value (depth + 1) s) None [] rest1)
             (\<lambda>(entries, rest2). Inr (JObj entries, rest2))))
        else Inl (Reject ''CANONICAL'' ''TAG'')))"
  by pat_completeness auto
termination
  by (relation "measure (\<lambda>(depth, bs). 65 - depth)") (auto simp: requireThat_def split: if_splits)

declare iv_value.simps [simp del]

definition iv_decode :: "byte list \<Rightarrow> jsval verdict" where
  "iv_decode bytes =
     bindR (iv_value 0 bytes) (\<lambda>(v, rest).
     andThen (requireThat (rest = []) ''CANONICAL'' ''TRAILING_VALUE'')
     (bindR (iv_encode v) (\<lambda>reencoded.
      andThen (requireThat (bytes = reencoded) ''CANONICAL'' ''REENCODE'') (Inr v))))"

section \<open>Its container reader\<close>

definition iv_magic :: "byte list \<Rightarrow> byte list \<Rightarrow> byte list verdict" where
  "iv_magic magic bytes =
     andThen (requireThat (take (length magic) bytes = magic) ''FORMAT'' ''MAGIC'') (Inr (drop (length magic) bytes))"

definition iv_peek :: "byte list \<Rightarrow> string verdict" where
  "iv_peek bs = andThen (requireThat (8 \<le> length bs) ''FORMAT'' ''TRUNCATED'') (Inr (to_ascii (take 4 bs)))"

definition iv_frame :: "string \<Rightarrow> byte list \<Rightarrow> (byte list \<times> byte list) verdict" where
  "iv_frame expected bs =
     bindR (iv_peek bs) (\<lambda>type.
     andThen (requireThat (type = expected) ''FORMAT'' ''FRAME_ORDER'')
     (let len = of_be (take 4 (drop 4 bs)) in
      andThen (requireThat (len \<le> iv_MAX_FRAME) ''RESOURCE_LIMIT'' ''FRAME_LIMIT'')
      (andThen (requireThat (8 + len \<le> length bs) ''FORMAT'' ''TRUNCATED'')
      (Inr (take len (drop 8 bs), drop (8 + len) bs)))))"

definition iv_end :: "byte list \<Rightarrow> unit verdict" where
  "iv_end bs = requireThat (bs = []) ''FORMAT'' ''TRAILING''"

lemma iv_frame_shorter: "iv_frame t bs = Inr (payload, rest) \<Longrightarrow> length rest < length bs"
  by (auto simp: iv_frame_def iv_peek_def requireThat_def Let_def res_simps split: if_splits)

text \<open>\<open>while (reader.peek() === "BLK1") blockFrames.push(reader.frame("BLK1"))\<close>\<close>

function iv_block_frames :: "byte list \<Rightarrow> (byte list list \<times> byte list) verdict" where
  "iv_block_frames bs =
     bindR (iv_peek bs) (\<lambda>type.
       if type = ''BLK1'' then
         bindR (iv_frame ''BLK1'' bs) (\<lambda>(payload, rest).
         bindR (iv_block_frames rest) (\<lambda>(payloads, rest'). Inr (payload # payloads, rest')))
       else Inr ([], bs))"
  by pat_completeness auto
termination
  by (relation "measure length") (auto dest: iv_frame_shorter)

declare iv_block_frames.simps [simp del]

section \<open>Its field checks\<close>

definition exact :: "jsval \<Rightarrow> string list \<Rightarrow> string \<Rightarrow> unit verdict" where
  "exact v expected code = checks
     [requireThat (is_object v) ''SEMANTIC'' code,
      requireThat (sort (object_keys v) = sort (map js expected)) ''SEMANTIC'' code]"

definition iv_integer :: "jsval \<Rightarrow> int \<Rightarrow> int \<Rightarrow> string \<Rightarrow> unit verdict" where
  "iv_integer v lo hi code =
     requireThat (case v of JInt i \<Rightarrow> lo \<le> i \<and> i \<le> hi | _ \<Rightarrow> False) ''SEMANTIC'' code"

definition iv_check_text :: "platform \<Rightarrow> jsval \<Rightarrow> nat \<Rightarrow> nat \<Rightarrow> string \<Rightarrow> unit verdict" where
  "iv_check_text X v lo hi code =
     requireThat (case v of
         JStr s \<Rightarrow> lo \<le> length s \<and> length s \<le> hi \<and> is_nfc X s \<and> 0 \<notin> set s
       | _ \<Rightarrow> False) ''SEMANTIC'' code"

definition iv_timestamp :: "platform \<Rightarrow> jsval \<Rightarrow> string \<Rightarrow> unit verdict" where
  "iv_timestamp X v code =
     andThen (iv_check_text X v 1 64 code)
       (requireThat (case v of JStr s \<Rightarrow> is_canonical_timestamp s | _ \<Rightarrow> False) ''SEMANTIC'' code)"

definition iv_hash_text :: "jsval \<Rightarrow> bool" where
  "iv_hash_text v = (case v of JStr s \<Rightarrow> is_hex64 s | _ \<Rightarrow> False)"

definition iv_bytes32 :: "jsval \<Rightarrow> bool" where
  "iv_bytes32 v = (case v of JBytes b \<Rightarrow> length b = 32 | _ \<Rightarrow> False)"

fun validateData :: "platform \<Rightarrow> nat \<Rightarrow> jsval \<Rightarrow> unit verdict" where
  "validateData X depth v =
     andThen (requireThat (depth \<le> 64) ''RESOURCE_LIMIT'' ''EVENT_DEPTH'')
     (case v of
        JNull \<Rightarrow> Inr ()
      | JBool _ \<Rightarrow> Inr ()
      | JBytes _ \<Rightarrow> Inr ()
      | JStr s \<Rightarrow> requireThat (is_nfc X s) ''SEMANTIC'' ''EVENT_TEXT''
      | JInt _ \<Rightarrow> Inr ()
      | JDbl w \<Rightarrow> requireThat (dbl_is_finite w \<and> (\<not> dbl_is_integer w \<or> dbl_is_safe_integer w))
          ''SEMANTIC'' ''EVENT_NUMBER''
      | JArr items \<Rightarrow> checks (map (\<lambda>item. validateData X (depth + 1) item) items)
      | JObj kvs \<Rightarrow> checks (map (\<lambda>(key, item).
          andThen (iv_check_text X (JStr key) 1 256 ''EVENT_KEY'') (validateData X (depth + 1) item)) kvs)
      | _ \<Rightarrow> Inl (Reject ''SEMANTIC'' ''EVENT_DATA''))"

declare validateData.simps [simp del]

text \<open>\<open>typeof value === "object"\<close> and not an array: a map, or a byte string, whose own properties
  are its indices.\<close>

definition own_keys :: "jsval \<Rightarrow> jsstr list option" where
  "own_keys v = (case v of
       JObj kvs \<Rightarrow> Some (map fst kvs)
     | JBytes b \<Rightarrow> Some (map decimal [0..<length b])
     | _ \<Rightarrow> None)"

definition keys_within :: "jsval \<Rightarrow> string list \<Rightarrow> bool" where
  "keys_within v allowed = (case own_keys v of None \<Rightarrow> False | Some keys \<Rightarrow> list_all (\<lambda>k. k \<in> set (map js allowed)) keys)"

definition if_present :: "jsval \<Rightarrow> (jsval \<Rightarrow> unit verdict) \<Rightarrow> unit verdict" where
  "if_present v check = (if v = JUndef then Inr () else check v)"

definition validateEvent :: "platform \<Rightarrow> jsval \<Rightarrow> unit verdict" where
  "validateEvent X event =
     (let field = get_prop event; source = get_prop event ''source'' in checks
     [requireThat (keys_within event [''version'', ''eventId'', ''ledgerId'', ''subject'', ''type'', ''schemaVersion'',
        ''occurredAt'', ''recordedAt'', ''source'', ''payload'', ''payloadHash'', ''previousStateHash'',
        ''resultingStateHash'', ''correlationId'', ''causationId'', ''policyReference'', ''metadata''])
        ''SEMANTIC'' ''EVENT_FIELDS'',
      requireThat (field ''version'' = JInt 1) ''SEMANTIC'' ''EVENT_VERSION'',
      iv_check_text X (field ''eventId'') 1 128 ''EVENT_ID'',
      iv_check_text X (field ''ledgerId'') 1 128 ''EVENT_LEDGER'',
      iv_check_text X (field ''subject'') 1 512 ''EVENT_SUBJECT'',
      iv_check_text X (field ''type'') 1 256 ''EVENT_TYPE'',
      iv_integer (field ''schemaVersion'') 1 (int max_safe_integer) ''EVENT_SCHEMA_VERSION'',
      iv_timestamp X (field ''occurredAt'') ''EVENT_OCCURRED_AT'',
      iv_timestamp X (field ''recordedAt'') ''EVENT_RECORDED_AT'',
      requireThat (own_keys source \<noteq> None) ''SEMANTIC'' ''EVENT_SOURCE'',
      requireThat (keys_within source [''kind'', ''identity'', ''keyId'']) ''SEMANTIC'' ''EVENT_SOURCE_FIELDS'',
      requireThat (get_prop source ''kind''
          \<in> set (map (\<lambda>kind. JStr (js kind)) [''semantic'', ''outbox'', ''cdc'', ''webhook'', ''batch'']))
        ''SEMANTIC'' ''EVENT_SOURCE_KIND'',
      iv_check_text X (get_prop source ''identity'') 1 256 ''EVENT_SOURCE_IDENTITY'',
      if_present (get_prop source ''keyId'') (\<lambda>v. iv_check_text X v 1 256 ''EVENT_SOURCE_KEY''),
      if_present (field ''payload'') (validateData X 0),
      if_present (field ''metadata'') (validateData X 0),
      checks (map (\<lambda>name. if_present (field name)
          (\<lambda>v. requireThat (iv_hash_text v) ''SEMANTIC'' ''EVENT_HASH''))
        [''payloadHash'', ''previousStateHash'', ''resultingStateHash'']),
      checks (map (\<lambda>name. if_present (field name) (\<lambda>v. iv_check_text X v 1 512 ''EVENT_REFERENCE''))
        [''correlationId'', ''causationId'', ''policyReference'']),
      requireThat (field ''payload'' \<noteq> JUndef \<or> field ''payloadHash'' \<noteq> JUndef) ''SEMANTIC'' ''EVENT_PAYLOAD''])"

definition validateCompression :: "jsval \<Rightarrow> unit verdict" where
  "validateCompression profile = checks
     [exact profile [''algorithm'', ''profile'', ''level'', ''checksum'', ''contentSize''] ''COMPRESSION_PROFILE_FIELDS'',
      requireThat (get_prop profile ''algorithm'' = JStr (js ''zstd'')
        \<and> get_prop profile ''profile'' = JStr (js ''g9p-zstd-v1'') \<and> get_prop profile ''level'' = JInt 3
        \<and> get_prop profile ''checksum'' = JBool True \<and> get_prop profile ''contentSize'' = JBool True)
        ''SEMANTIC'' ''COMPRESSION_PROFILE'']"

definition bytesEqual :: "jsval \<Rightarrow> byte list \<Rightarrow> string \<Rightarrow> unit verdict" where
  "bytesEqual left right code =
     requireThat (case left of JBytes b \<Rightarrow> b = right | _ \<Rightarrow> False) ''COMMITMENT'' code"

definition verifyEd25519 ::
  "platform \<Rightarrow> byte list \<Rightarrow> byte list \<Rightarrow> string \<Rightarrow> byte list \<Rightarrow> jsstr \<Rightarrow> unit verdict" where
  "verifyEd25519 X publicKey signature domain payload expectedKeyId = checks
     [requireThat (to_hex (iv_domainHash X ''public-key-id-v1'' [publicKey]) = expectedKeyId) ''IDENTITY'' ''KEY_ID'',
      requireThat (import_key X publicKey \<noteq> None) ''IDENTITY'' ''PUBLIC_KEY'',
      requireThat (ed_verify X publicKey (iv_domainHash X domain [payload]) signature) ''SIGNATURE'' ''SIGNATURE'']"

text \<open>The loop over the levels of the tree, two nodes at a time.\<close>

fun iv_next :: "platform \<Rightarrow> byte list list \<Rightarrow> byte list list" where
  "iv_next X [] = []"
| "iv_next X [h] = [h]"
| "iv_next X (l # r # level) = iv_domainHash X ''merkle-node-v1'' [l, r] # iv_next X level"

lemma length_iv_next: "length (iv_next X level) = (length level + 1) div 2"
  by (induction X level rule: iv_next.induct) simp_all

function iv_levels :: "platform \<Rightarrow> byte list list \<Rightarrow> byte list list" where
  "iv_levels X level = (if 1 < length level then iv_levels X (iv_next X level) else level)"
  by pat_completeness auto
termination
  by (relation "measure (\<lambda>(X, level). length level)") (auto simp: length_iv_next)

declare iv_levels.simps [simp del]

definition iv_merkle :: "platform \<Rightarrow> byte list list \<Rightarrow> byte list" where
  "iv_merkle X recordHashes =
     (case iv_levels X (map (\<lambda>h. iv_domainHash X ''merkle-leaf-v1'' [h]) recordHashes) of
        [] \<Rightarrow> iv_domainHash X ''merkle-empty-v1'' []
      | root # _ \<Rightarrow> root)"

text \<open>Reading a property of \<open>null\<close> or \<open>undefined\<close> throws. The result is the shard the event belongs to.\<close>

definition iv_route :: "platform \<Rightarrow> jsval \<Rightarrow> jsval \<Rightarrow> jsval \<Rightarrow> jsstr verdict" where
  "iv_route X ledgerId subject policy =
     (if policy = JNull \<or> policy = JUndef then Inl Thrown
      else andThen (checks
        [requireThat (get_prop policy ''id'' = JStr (js ''subject-sha256-v1'') \<and> get_prop policy ''version'' = JInt 1
           \<and> (case get_prop policy ''shardCount'' of JInt n \<Rightarrow> 1 \<le> n \<and> n \<le> 65536 | _ \<Rightarrow> False))
           ''SEMANTIC'' ''ROUTING_POLICY'',
         requireThat (is_text ledgerId \<and> is_text subject) ''SEMANTIC'' ''EVENT_ROUTE''])
      (let digest = iv_domainHash X ''shard-route-v1''
             [utf8 (case ledgerId of JStr s \<Rightarrow> s | _ \<Rightarrow> []), utf8 (case subject of JStr s \<Rightarrow> s | _ \<Rightarrow> [])];
           shards = (case get_prop policy ''shardCount'' of JInt n \<Rightarrow> nat n | _ \<Rightarrow> 0) in
       Inr (js ''shard-'' @ padded 4 (of_be (take 8 digest) mod shards))))"

section \<open>Segments\<close>

record iv_profile =
  ip_magic :: "byte list"
  ip_head :: string
  ip_manifest :: string
  ip_hd :: string
  ip_bd :: string
  ip_sd :: string
  ip_fd :: string

definition iv_MAGIC_V1 :: "byte list" where
  "iv_MAGIC_V1 = [0x47, 0x39, 0x50, 0x0d, 0x0a, 0x1a, 0x0a, 0x01]"

definition iv_MAGIC_V2 :: "byte list" where
  "iv_MAGIC_V2 = [0x47, 0x39, 0x50, 0x0d, 0x0a, 0x1a, 0x0a, 0x02]"

definition iv_profile_for :: "nat \<Rightarrow> iv_profile" where
  "iv_profile_for version =
     (if version = 1
      then \<lparr>ip_magic = iv_MAGIC_V1, ip_head = ''HEAD'', ip_manifest = ''MNF1'', ip_hd = ''header-payload-v1'',
        ip_bd = ''block-payload-v1'', ip_sd = ''segment-signature-v1'', ip_fd = ''segment-file-v1''\<rparr>
      else \<lparr>ip_magic = iv_MAGIC_V2, ip_head = ''HED2'', ip_manifest = ''MNF2'', ip_hd = ''header-payload-v2'',
        ip_bd = ''block-payload-v2'', ip_sd = ''segment-signature-v2'', ip_fd = ''segment-file-v2''\<rparr>)"

record iv_frames =
  if_header :: "byte list"
  if_blocks :: "byte list list"
  if_manifest :: "byte list"
  if_signature :: "byte list"

definition iv_segment_frames :: "iv_profile \<Rightarrow> byte list \<Rightarrow> iv_frames verdict" where
  "iv_segment_frames p bytes =
     bindR (iv_magic (ip_magic p) bytes) (\<lambda>bs0.
     bindR (iv_frame (ip_head p) bs0) (\<lambda>(header, bs1).
     bindR (iv_block_frames bs1) (\<lambda>(blocks, bs2).
     andThen (requireThat (0 < length blocks) ''SEMANTIC'' ''BLOCKS'')
     (bindR (iv_frame (ip_manifest p) bs2) (\<lambda>(manifest, bs3).
      bindR (iv_frame ''SIG1'' bs3) (\<lambda>(signature, bs4).
      bindR (iv_frame ''END!'' bs4) (\<lambda>(endPayload, bs5).
      andThen (requireThat (length endPayload = 0) ''FORMAT'' ''END'')
      (andThen (iv_end bs5)
      (Inr \<lparr>if_header = header, if_blocks = blocks, if_manifest = manifest, if_signature = signature\<rparr>)))))))))"

text \<open>The text a regular expression is applied to is \<open>String(value)\<close>: an array gives its items joined by
  commas, and a map without a prototype has no text at all.\<close>

fun no_text :: "jsval \<Rightarrow> bool" where
  "no_text (JObj _) = True"
| "no_text (JArr items) = list_ex no_text items"
| "no_text _ = False"

fun shard_pattern :: "jsval \<Rightarrow> bool" where
  "shard_pattern (JStr s) = is_shard_id s"
| "shard_pattern (JArr [v]) = shard_pattern v"
| "shard_pattern _ = False"

definition test_shard :: "jsval \<Rightarrow> bool verdict" where
  "test_shard v = (if no_text v then Inl Thrown else Inr (shard_pattern v))"

definition iv_check_header :: "platform \<Rightarrow> nat \<Rightarrow> jsval \<Rightarrow> unit verdict" where
  "iv_check_header X version header = checks
     [andThen (requireThat (is_text (get_prop header ''ledgerId'')) ''SEMANTIC'' ''IDENTITY'')
        (bindR (test_shard (get_prop header ''shardId'')) (\<lambda>matches. requireThat matches ''SEMANTIC'' ''IDENTITY'')),
      iv_integer (get_prop header ''segmentNumber'') 0 (int max_safe_integer) ''SEGMENT_NUMBER'',
      iv_timestamp X (get_prop header ''createdAt'') ''SEGMENT_CREATED_AT'',
      requireThat (get_prop header ''previousSegmentHash'' = JNull \<or> iv_bytes32 (get_prop header ''previousSegmentHash''))
        ''SEMANTIC'' ''PREVIOUS_SEGMENT'',
      (if version = 2 then checks
         [iv_integer (get_prop header ''routingEpochNumber'') 0 (int max_safe_integer) ''ROUTING_EPOCH_NUMBER'',
          requireThat (iv_bytes32 (get_prop header ''routingEpochHash'')) ''SEMANTIC'' ''ROUTING_EPOCH_HASH'']
       else Inr ()),
      validateCompression (get_prop header ''compression''),
      bindR (iv_route X (get_prop header ''ledgerId'') (JStr (js ''profile-check'')) (get_prop header ''routingPolicy''))
        (\<lambda>_. Inr ())]"

text \<open>\<open>manifest.blocks.length\<close> and \<open>manifest.blocks[index]\<close>: strings, byte strings and maps that
  have such properties are read as well.\<close>

definition js_length :: "jsval \<Rightarrow> jsval verdict" where
  "js_length v = (case v of
       JArr items \<Rightarrow> Inr (JInt (int (length items)))
     | JStr s \<Rightarrow> Inr (JInt (int (length s)))
     | JBytes b \<Rightarrow> Inr (JInt (int (length b)))
     | JNull \<Rightarrow> Inl Thrown
     | JUndef \<Rightarrow> Inl Thrown
     | _ \<Rightarrow> Inr (get_prop v ''length''))"

definition js_item :: "jsval \<Rightarrow> nat \<Rightarrow> jsval" where
  "js_item v i = (case v of
       JArr items \<Rightarrow> if i < length items then items ! i else JUndef
     | JStr s \<Rightarrow> if i < length s then JStr [s ! i] else JUndef
     | JBytes b \<Rightarrow> if i < length b then JInt (uint (b ! i)) else JUndef
     | JObj kvs \<Rightarrow> (case map_of kvs (decimal i) of Some x \<Rightarrow> x | None \<Rightarrow> JUndef)
     | _ \<Rightarrow> JUndef)"

definition iv_check_manifest :: "jsval \<Rightarrow> nat \<Rightarrow> unit verdict" where
  "iv_check_manifest manifest blocks = checks
     [requireThat (get_prop manifest ''blockCount'' = JInt (int blocks)) ''SEMANTIC'' ''BLOCK_COUNT'',
      bindR (js_length (get_prop manifest ''blocks''))
        (\<lambda>n. requireThat (n = JInt (int blocks)) ''SEMANTIC'' ''BLOCK_COUNT''),
      iv_integer (get_prop manifest ''recordCount'') 1 10000000 ''MANIFEST_RECORD_COUNT'',
      iv_integer (get_prop manifest ''blockCount'') 1 65536 ''MANIFEST_BLOCK_COUNT'',
      requireThat (iv_bytes32 (get_prop manifest ''recordMerkleRoot'')) ''SEMANTIC'' ''MERKLE_ROOT_LENGTH'']"

text \<open>The records of a decompressed block, each decoded, validated and routed as it is read; the result
  is the list of their hashes.\<close>

function iv_records :: "platform \<Rightarrow> jsval \<Rightarrow> byte list \<Rightarrow> byte list list verdict" where
  "iv_records X header output =
     (if output = [] then Inr []
      else
        andThen (requireThat (4 \<le> length output) ''FORMAT'' ''RECORD_TRUNCATED'')
        (let len = of_be (take 4 output); rest = drop 4 output; eventBytes = take len rest in
         andThen (checks
           [requireThat (len \<le> iv_MAX_RECORD) ''RESOURCE_LIMIT'' ''RECORD_LIMIT'',
            requireThat (len \<le> length rest) ''FORMAT'' ''RECORD_TRUNCATED''])
         (bindR (iv_decode eventBytes) (\<lambda>event.
          andThen (validateEvent X event)
          (andThen (if get_prop event ''ledgerId'' \<noteq> get_prop header ''ledgerId''
                    then Inl (Reject ''SEMANTIC'' ''EVENT'')
                    else bindR (iv_route X (get_prop event ''ledgerId'') (get_prop event ''subject'')
                        (get_prop header ''routingPolicy'')) (\<lambda>shard.
                      requireThat (JStr shard = get_prop header ''shardId'') ''SEMANTIC'' ''EVENT''))
          (bindR (iv_records X header (drop len rest)) (\<lambda>hashes.
           Inr (iv_domainHash X ''event-record-v1'' [eventBytes] # hashes))))))))"
  by pat_completeness auto
termination
  by (relation "measure (\<lambda>(X, header, output). length output)") auto

declare iv_records.simps [simp del]

definition iv_number :: "jsval \<Rightarrow> int" where
  "iv_number v = (case v of JInt i \<Rightarrow> i | _ \<Rightarrow> 0)"

definition iv_octets :: "jsval \<Rightarrow> byte list" where
  "iv_octets v = (case v of JBytes b \<Rightarrow> b | _ \<Rightarrow> [])"

text \<open>One round of the loop over the blocks, after which \<open>firstRecord\<close> has advanced.\<close>

definition iv_block ::
  "platform \<Rightarrow> iv_profile \<Rightarrow> jsval \<Rightarrow> nat \<Rightarrow> int \<Rightarrow> jsval \<Rightarrow> byte list \<Rightarrow> jsval \<Rightarrow> byte list list verdict" where
  "iv_block X p header i firstRecord block payload commitment =
     andThen (checks
       [exact block [''blockIndex'', ''firstRecordIndex'', ''recordCount'', ''uncompressedLength'', ''compression'',
          ''recordsHash'', ''data''] ''BLOCK_FIELDS'',
        exact commitment [''blockIndex'', ''firstRecordIndex'', ''recordCount'', ''payloadHash''] ''BLOCK_COMMITMENT_FIELDS'',
        iv_integer (get_prop block ''blockIndex'') 0 65535 ''BLOCK_INDEX'',
        iv_integer (get_prop block ''firstRecordIndex'') 0 10000000 ''BLOCK_FIRST_RECORD'',
        iv_integer (get_prop block ''recordCount'') 1 10000000 ''BLOCK_RECORD_COUNT'',
        requireThat (iv_bytes32 (get_prop block ''recordsHash'')
          \<and> (case get_prop block ''data'' of JBytes b \<Rightarrow> 0 < length b | _ \<Rightarrow> False)) ''SEMANTIC'' ''BLOCK_BYTES'',
        requireThat (iv_bytes32 (get_prop commitment ''payloadHash'')) ''SEMANTIC'' ''BLOCK_COMMITMENT_HASH'',
        requireThat (get_prop block ''blockIndex'' = JInt (int i) \<and> get_prop commitment ''blockIndex'' = JInt (int i)
          \<and> get_prop block ''firstRecordIndex'' = JInt firstRecord
          \<and> get_prop commitment ''firstRecordIndex'' = JInt firstRecord
          \<and> get_prop block ''recordCount'' = get_prop commitment ''recordCount'') ''SEMANTIC'' ''BLOCK_ORDER'',
        bytesEqual (get_prop commitment ''payloadHash'') (iv_domainHash X (ip_bd p) [payload]) ''BLOCK_HASH'',
        requireThat (get_prop block ''compression'' = JStr (js ''zstd'')
          \<and> (case get_prop block ''uncompressedLength'' of
               JInt n \<Rightarrow> 0 < n \<and> n \<le> int iv_MAX_BLOCK_OUTPUT | _ \<Rightarrow> False)) ''RESOURCE_LIMIT'' ''BLOCK_OUTPUT''])
     (case zstd_decompress X (iv_octets (get_prop block ''data'')) iv_MAX_BLOCK_OUTPUT of
        None \<Rightarrow> Inl (Reject ''COMPRESSION'' ''ZSTD'')
      | Some output \<Rightarrow>
          andThen (checks
            [requireThat (int (length output) = iv_number (get_prop block ''uncompressedLength''))
               ''COMPRESSION'' ''OUTPUT_LENGTH'',
             bytesEqual (get_prop block ''recordsHash'') (iv_domainHash X ''record-block-v1'' [output]) ''RECORD_BLOCK_HASH''])
          (bindR (iv_records X header output) (\<lambda>hashes.
           andThen (requireThat (int (length hashes) = iv_number (get_prop block ''recordCount''))
             ''SEMANTIC'' ''RECORD_COUNT'') (Inr hashes))))"

fun iv_blocks ::
  "platform \<Rightarrow> iv_profile \<Rightarrow> jsval \<Rightarrow> jsval \<Rightarrow> nat \<Rightarrow> int \<Rightarrow> byte list list \<Rightarrow> (jsval \<times> byte list) list
    \<Rightarrow> (int \<times> byte list list) verdict" where
  "iv_blocks X p header committed i firstRecord recordHashes [] = Inr (firstRecord, recordHashes)"
| "iv_blocks X p header committed i firstRecord recordHashes ((block, payload) # rest) =
     bindR (iv_block X p header i firstRecord block payload (js_item committed i)) (\<lambda>hashes.
     iv_blocks X p header committed (i + 1) (firstRecord + iv_number (get_prop block ''recordCount''))
       (recordHashes @ hashes) rest)"

definition iv_key_id_ok :: "jsval \<Rightarrow> bool" where
  "iv_key_id_ok identity \<longleftrightarrow> get_prop identity ''algorithm'' = JStr (js ''ed25519'')
     \<and> (case get_prop identity ''publicKey'' of JBytes b \<Rightarrow> length b = 44 | _ \<Rightarrow> False)
     \<and> iv_hash_text (get_prop identity ''keyId'')"

definition iv_signature_ok :: "jsval \<Rightarrow> jsval \<Rightarrow> bool" where
  "iv_signature_ok identity signature \<longleftrightarrow> get_prop signature ''algorithm'' = JStr (js ''ed25519'')
     \<and> get_prop signature ''keyId'' = get_prop identity ''keyId''
     \<and> (case get_prop signature ''signature'' of JBytes b \<Rightarrow> length b = 64 | _ \<Rightarrow> False)"

record segment_report =
  sg_formatVersion :: nat
  sg_ledgerId :: jsval
  sg_shardId :: jsval
  sg_recordCount :: jsval
  sg_blockCount :: jsval
  sg_logicalRoot :: jsstr
  sg_fileHash :: jsstr
  sg_signerKeyId :: jsval

definition iv_check_frames ::
  "platform \<Rightarrow> nat \<Rightarrow> byte list \<Rightarrow> iv_frames \<Rightarrow> segment_report verdict" where
  "iv_check_frames X version bytes f =
     (let p = iv_profile_for version in
      bindR (iv_decode (if_header f)) (\<lambda>header.
      bindR (mapR iv_decode (if_blocks f)) (\<lambda>blocks.
      bindR (iv_decode (if_manifest f)) (\<lambda>manifest.
      bindR (iv_decode (if_signature f)) (\<lambda>signature.
      let signer = get_prop manifest ''signer'' in
      andThen (checks
        [exact header ([''kind'', ''formatVersion'', ''ledgerId'', ''shardId'', ''segmentNumber'', ''createdAt'',
           ''previousSegmentHash'', ''routingPolicy'', ''compression'']
           @ (if version = 2 then [''routingEpochNumber'', ''routingEpochHash''] else [])) ''HEADER_FIELDS'',
         exact manifest [''kind'', ''manifestVersion'', ''headerHash'', ''recordCount'', ''blockCount'',
           ''recordMerkleRoot'', ''blocks'', ''signer''] ''MANIFEST_FIELDS'',
         exact signature [''algorithm'', ''keyId'', ''signature''] ''SIGNATURE_FIELDS'',
         requireThat (get_prop header ''kind'' = JStr (js ''g9p-segment'')
           \<and> get_prop header ''formatVersion'' = JInt (int version)
           \<and> get_prop manifest ''kind'' = JStr (js ''g9p-segment-manifest'')
           \<and> get_prop manifest ''manifestVersion'' = JInt (int version)) ''SEMANTIC'' ''VERSION'',
         iv_check_header X version header,
         bytesEqual (get_prop manifest ''headerHash'') (iv_domainHash X (ip_hd p) [if_header f]) ''HEADER_HASH'',
         iv_check_manifest manifest (length blocks)])
      (bindR (iv_blocks X p header (get_prop manifest ''blocks'') 0 0 [] (zip blocks (if_blocks f)))
        (\<lambda>(firstRecord, recordHashes).
       andThen (checks
         [requireThat (JInt firstRecord = get_prop manifest ''recordCount'') ''SEMANTIC'' ''RECORD_COUNT'',
          bytesEqual (get_prop manifest ''recordMerkleRoot'') (iv_merkle X recordHashes) ''MERKLE_ROOT'',
          exact signer [''algorithm'', ''keyId'', ''publicKey''] ''SIGNER_FIELDS'',
          requireThat (iv_key_id_ok signer) ''IDENTITY'' ''SIGNER_IDENTITY'',
          requireThat (iv_signature_ok signer signature) ''IDENTITY'' ''SIGNATURE_IDENTITY'',
          verifyEd25519 X (iv_octets (get_prop signer ''publicKey'')) (iv_octets (get_prop signature ''signature''))
            (ip_sd p) (if_manifest f) (case get_prop signer ''keyId'' of JStr s \<Rightarrow> s | _ \<Rightarrow> [])])
       (Inr \<lparr>sg_formatVersion = version, sg_ledgerId = get_prop header ''ledgerId'',
          sg_shardId = get_prop header ''shardId'', sg_recordCount = get_prop manifest ''recordCount'',
          sg_blockCount = get_prop manifest ''blockCount'',
          sg_logicalRoot = to_hex (iv_octets (get_prop manifest ''recordMerkleRoot'')),
          sg_fileHash = to_hex (iv_domainHash X (ip_fd p) [bytes]),
          sg_signerKeyId = get_prop signer ''keyId''\<rparr>))))))))"

definition iv_verify_segment :: "platform \<Rightarrow> byte list \<Rightarrow> nat \<Rightarrow> segment_report verdict" where
  "iv_verify_segment X bytes version =
     bindR (iv_segment_frames (iv_profile_for version) bytes) (iv_check_frames X version bytes)"

end
