(* ===== verification/G9P_Independent_Codec.thy ===== *)
theory G9P_Independent_Codec
  imports G9P_Independent G9P_Codec_Total
begin

text \<open>
  The two codecs agree: on every byte string within the size limit both decoders give the same
  value or both refuse. Only the errors differ, so results are compared with the error forgotten.
\<close>

section \<open>Results without their errors\<close>

definition result_of :: "'e + 'a \<Rightarrow> 'a option" where
  "result_of m = (case m of Inl _ \<Rightarrow> None | Inr x \<Rightarrow> Some x)"

named_theorems result_simps \<open>the result of a sequence of steps\<close>

lemma result_of_Inr [result_simps, simp]: "result_of (Inr x) = Some x"
  by (simp add: result_of_def)

lemma result_of_Inl [result_simps, simp]: "result_of (Inl e) = None"
  by (simp add: result_of_def)

lemma result_of_bindR [result_simps]: "result_of (bindR m f) = Option.bind (result_of m) (\<lambda>x. result_of (f x))"
  by (cases m) simp_all

lemma result_of_andThen [result_simps]: "result_of (andThen m k) = Option.bind (result_of m) (\<lambda>_. result_of k)"
  by (cases m) simp_all

lemma result_of_invariant [result_simps]: "result_of (invariant b c) = (if b then Some () else None)"
  by (simp add: invariant_def failWith_def)

lemma result_of_failWith [result_simps]: "result_of (failWith c) = None"
  by (simp add: failWith_def)

lemma result_of_requireThat [result_simps]: "result_of (requireThat b k c) = (if b then Some () else None)"
  by (simp add: requireThat_def)

lemma result_of_iff: "result_of m = Some x \<longleftrightarrow> m = Inr x"
  by (cases m) simp_all

lemma result_of_checks: "result_of (checks cs) = (if \<forall>c \<in> set cs. result_of c = Some () then Some () else None)"
proof (induction cs)
  case (Cons c cs)
  then show ?case by (cases "result_of c") (auto simp: result_simps)
qed simp

lemma result_of_mapR_cong:
  "(\<And>x. x \<in> set xs \<Longrightarrow> result_of (f x) = result_of (g x)) \<Longrightarrow> result_of (mapR f xs) = result_of (mapR g xs)"
  by (induction xs) (simp_all add: result_simps)

lemma result_of_repeatR_cong:
  assumes "\<And>s. P s \<Longrightarrow> result_of (f s) = result_of (g s)"
    and "\<And>s x s'. P s \<Longrightarrow> f s = Inr (x, s') \<Longrightarrow> P s'" and "P s"
  shows "result_of (repeatR n f s) = result_of (repeatR n g s)"
  using assms(3)
proof (induction n arbitrary: s)
  case (Suc n)
  show ?case
    unfolding repeatR.simps result_of_bindR
  proof (rule Option.bind_cong [OF assms(1) [OF Suc(2)]])
    fix y assume "result_of (g s) = Some y"
    then have "f s = Inr y" using assms(1) [OF Suc(2)] by (simp add: result_of_iff)
    then have "P (snd y)" using assms(2) [OF Suc(2), of "fst y" "snd y"] by simp
    then show "result_of (case y of (x, s') \<Rightarrow> bindR (repeatR n f s') (\<lambda>(xs, s''). Inr (x # xs, s'')))
        = result_of (case y of (x, s') \<Rightarrow> bindR (repeatR n g s') (\<lambda>(xs, s''). Inr (x # xs, s'')))"
      using Suc(1) by (simp add: result_of_bindR case_prod_unfold)
  qed
qed simp

section \<open>Encoders\<close>

lemma iv_varuint_eq: "varuint_loop count n = Inr bs \<Longrightarrow> iv_varuint n = bs"
proof (induction count n arbitrary: bs rule: varuint_loop.induct)
  case (1 count n)
  show ?case
  proof (cases "n div 128 = 0")
    case True
    with 1(2) show ?thesis
      by (subst (asm) varuint_loop.simps, subst iv_varuint.simps) (auto simp: res_simps Let_def)
  next
    case False
    with 1(2) obtain rest where "varuint_loop (Suc count) (n div 128) = Inr rest" "count < MAX_VARUINT_BYTES"
      and bs: "bs = ((of_nat (n mod 128) :: byte) OR 0x80) # rest"
      by (subst (asm) varuint_loop.simps) (auto simp: res_simps Let_def)
    then have "iv_varuint (n div 128) = rest" using 1(1) [OF _ refl refl False] by simp
    with False bs show ?thesis by (subst iv_varuint.simps) (simp add: Let_def)
  qed
qed

lemma iv_varuint_encode: "n < 2 ^ 70 \<Longrightarrow> encode_var_uint n = Inr (iv_varuint n)"
  using encode_var_uint_total [of n] iv_varuint_eq unfolding encode_var_uint_def by blast

lemma iv_length_encode: "n \<le> max_safe_integer \<Longrightarrow> encode_length n = Inr (iv_varuint n)"
  by (simp add: encode_length_def iv_varuint_encode max_safe_integer_def)

text \<open>What every decoded value satisfies, and what the limits of the first encoder ask for.\<close>

fun within :: "limits \<Rightarrow> nat \<Rightarrow> jsval \<Rightarrow> bool" where
  "within L depth JUndef = False"
| "within L depth JOther = False"
| "within L depth (JInt i) = (depth \<le> maxDepth L \<and> \<bar>i\<bar> \<le> int max_safe_integer)"
| "within L depth (JDbl w) = (depth \<le> maxDepth L \<and> dbl_is_finite w)"
| "within L depth (JStr s) = (depth \<le> maxDepth L \<and> length (utf8 s) \<le> max_safe_integer)"
| "within L depth (JBytes b) = (depth \<le> maxDepth L \<and> length b \<le> maxBytes L \<and> length b \<le> max_safe_integer)"
| "within L depth (JArr items) = (depth \<le> maxDepth L \<and> length items \<le> maxCollectionEntries L
     \<and> length items \<le> max_safe_integer \<and> (\<forall>x \<in> set items. within L (Suc depth) x))"
| "within L depth (JObj kvs) = (depth \<le> maxDepth L \<and> length kvs \<le> maxCollectionEntries L
     \<and> length kvs \<le> max_safe_integer
     \<and> (\<forall>(k, v) \<in> set kvs. length (utf8 k) \<le> max_safe_integer \<and> within L (Suc depth) v))"
| "within L depth v = (depth \<le> maxDepth L)"

lemma encode_string_iv: "length (utf8 s) \<le> max_safe_integer \<Longrightarrow> encode_string_value s = Inr (iv_text s)"
  by (simp add: encode_string_value_def iv_text_def iv_length_encode Let_def)

lemma encode_value_iv: "within L depth v \<Longrightarrow> result_of (encode_value L depth v) = result_of (iv_encode v)"
proof (induction L depth v rule: within.induct)
  case (3 L depth i)
  then have "zigzag i < 2 ^ 70" by (auto simp: zigzag_def max_safe_integer_def)
  with 3 show ?case by (simp add: check_depth_def iv_varuint_encode) (simp add: zigzag_def)
next
  case (7 L depth items)
  then have "result_of (mapR (encode_value L (Suc depth)) items) = result_of (mapR iv_encode items)"
    by (intro result_of_mapR_cong) simp
  with 7 show ?case by (simp add: check_depth_def iv_length_encode result_simps)
next
  case (8 L depth kvs)
  let ?s = "sort_key (\<lambda>(k, _). utf8 k) kvs"
  have "result_of (mapR (\<lambda>(key, entryValue). bindR (encode_string_value key) (\<lambda>keyPart.
        bindR (encode_value L (Suc depth) entryValue) (\<lambda>valuePart. Inr (keyPart @ valuePart)))) ?s)
      = result_of (mapR (\<lambda>(key, item). bindR (iv_encode item) (\<lambda>bs. Inr (iv_text key @ bs))) ?s)"
    using 8 by (intro result_of_mapR_cong) (fastforce simp: encode_string_iv result_simps)
  with 8 show ?case by (simp add: check_depth_def iv_length_encode result_simps)
qed (simp_all add: check_depth_def encode_string_iv iv_length_encode)

section \<open>Readers\<close>

text \<open>Every reader leaves a rest no longer than its input.\<close>

definition shrinks :: "(byte list \<Rightarrow> 'e + ('a \<times> byte list)) \<Rightarrow> bool" where
  "shrinks f \<longleftrightarrow> (\<forall>s x s'. f s = Inr (x, s') \<longrightarrow> length s' \<le> length s)"

lemma shrinksD: "shrinks f \<Longrightarrow> f s = Inr (x, s') \<Longrightarrow> length s' \<le> length s"
  unfolding shrinks_def by blast

lemma shrinksI: "(\<And>s x s'. f s = Inr (x, s') \<Longrightarrow> length s' \<le> length s) \<Longrightarrow> shrinks f"
  unfolding shrinks_def by blast

lemma shrinks_bind: "shrinks f \<Longrightarrow> (\<And>x. shrinks (g x)) \<Longrightarrow> shrinks (\<lambda>s. bindR (f s) (\<lambda>(x, s'). g x s'))"
  unfolding shrinks_def by (auto simp: res_simps) (meson le_trans)

lemma shrinks_pure: "(\<And>y. shrinks (g y)) \<Longrightarrow> shrinks (\<lambda>s. bindR m (\<lambda>y. g y s))"
  unfolding shrinks_def by (auto simp: res_simps)

lemma shrinks_and: "shrinks f \<Longrightarrow> shrinks (\<lambda>s. andThen m (f s))"
  unfolding shrinks_def by (auto simp: res_simps)

lemma shrinks_if: "shrinks f \<Longrightarrow> shrinks g \<Longrightarrow> shrinks (\<lambda>s. if b then f s else g s)"
  unfolding shrinks_def by auto

lemma shrinks_return: "shrinks (\<lambda>s. Inr (x, s))" and shrinks_fail: "shrinks (\<lambda>s. Inl e)"
  by (simp_all add: shrinks_def)

lemma iv_take_Inr: "iv_take n bs = Inr (taken, rest) \<longleftrightarrow> n \<le> max_safe_integer \<and> n \<le> length bs \<and> taken = take n bs \<and> rest = drop n bs"
  by (auto simp: iv_take_def requireThat_def)

lemma iv_byte_Inr: "iv_byte bs = Inr (b, rest) \<longleftrightarrow> bs = b # rest"
  by (cases bs) (auto simp: iv_byte_def iv_take_def requireThat_def max_safe_integer_def)

lemma iv_byte_eq: "iv_byte bs = (case bs of [] \<Rightarrow> Inl (Reject ''CANONICAL'' ''TRUNCATED'') | b # rest \<Rightarrow> Inr (b, rest))"
  by (cases bs) (simp_all add: iv_byte_def iv_take_def requireThat_def max_safe_integer_def)

lemma iv_uint_loop_shorter: "iv_uint_loop v shift count bs = Inr (n, rest) \<Longrightarrow> length rest \<le> length bs"
proof (induction v shift count bs rule: iv_uint_loop.induct)
  case (1 v shift count bs)
  from "1.prems" obtain b bs' where bs: "bs = b # bs'" and c: "count < 10"
    by (subst (asm) iv_uint_loop.simps) (auto simp: res_simps requireThat_def iv_byte_Inr split: if_splits)
  then have b: "iv_byte bs = Inr (b, bs')" by (simp add: iv_byte_Inr)
  show ?case
  proof (cases "b AND 0x80 = 0")
    case True
    with "1.prems" b show ?thesis
      by (subst (asm) iv_uint_loop.simps) (auto simp: requireThat_def Let_def bs split: if_splits)
  next
    case False
    with "1.prems" b c have "iv_uint_loop (v OR push_bit shift (unat (b AND 0x7F))) (shift + 7) (count + 1) bs' = Inr (n, rest)"
      by (subst (asm) iv_uint_loop.simps) (simp add: requireThat_def Let_def)
    then show ?thesis using "1.IH" [OF _ b refl refl refl refl False] c by (simp add: requireThat_def bs)
  qed
qed

lemma iv_length_shrinks: "shrinks iv_length"
  by (rule shrinksI)
    (auto simp: iv_length_def iv_uint_def res_simps requireThat_def dest: iv_uint_loop_shorter split: if_splits)

lemma iv_entries_shrinks: "shrinks readValue \<Longrightarrow> shrinks (iv_entries n readValue previous result)"
proof (induction n arbitrary: previous result)
  case (Suc n)
  show ?case
  proof (rule shrinksI)
    fix s x s' assume "iv_entries (Suc n) readValue previous result s = Inr (x, s')"
    then obtain tag b1 len b2 keyBytes b3 v b4 result' where
      "iv_byte s = Inr (tag, b1)" "iv_length b1 = Inr (len, b2)" "iv_take len b2 = Inr (keyBytes, b3)"
      "readValue b3 = Inr (v, b4)" "iv_entries n readValue (Some keyBytes) result' b4 = Inr (x, s')"
      by (auto simp: res_simps)
    then show "length s' \<le> length s"
      using shrinksD [OF iv_length_shrinks, of b1 len b2] shrinksD [OF Suc(2), of b3 v b4]
        shrinksD [OF Suc(1) [OF Suc(2)], of "Some keyBytes" result' b4 x s']
      by (auto simp: iv_byte_Inr iv_take_Inr)
  qed
qed (simp add: shrinks_def)

lemma repeatR_shrinks: "shrinks f \<Longrightarrow> shrinks (repeatR n f)"
proof (induction n)
  case (Suc n)
  have "repeatR (Suc n) f = (\<lambda>s. bindR (f s) (\<lambda>(x, s'). bindR (repeatR n f s') (\<lambda>(xs, s''). Inr (x # xs, s''))))"
    by (rule ext) simp
  then show ?case by (simp only:) (intro shrinks_bind shrinks_return Suc)
qed (simp add: shrinks_def)

lemma iv_byte_shrinks: "shrinks iv_byte" and iv_take_shrinks: "shrinks (iv_take n)" and iv_uint_shrinks: "shrinks iv_uint"
  by (auto simp: shrinks_def iv_byte_Inr iv_take_Inr iv_uint_def dest: iv_uint_loop_shorter)

lemmas shrinks_intros = shrinks_bind shrinks_and shrinks_if shrinks_return shrinks_fail iv_byte_shrinks
  iv_take_shrinks iv_uint_shrinks iv_length_shrinks repeatR_shrinks iv_entries_shrinks

lemma iv_value_shrinks: "shrinks (iv_value depth)"
proof (induction "65 - depth" arbitrary: depth rule: less_induct)
  case less
  show ?case
  proof (cases "depth \<le> 64")
    case True
    then have "shrinks (iv_value (depth + 1))" by (intro less) simp
    then show ?thesis
      by (subst iv_value.simps [abs_def]) (unfold Let_def, intro shrinks_intros shrinks_pure)
  next
    case False
    then show ?thesis
      by (intro shrinksI) (subst (asm) iv_value.simps, simp add: requireThat_def)
  qed
qed

section \<open>Decoders\<close>

lemma iv_uint_loop_agrees: "result_of (iv_uint_loop v shift count bs) = result_of (varuint_read_loop v shift count bs)"
proof (induction v shift count bs rule: varuint_read_loop.induct)
  case (1 v shift count bs)
  show ?case
  proof (cases bs)
    case Nil
    then show ?thesis
      by (subst iv_uint_loop.simps, subst varuint_read_loop.simps) (simp add: result_simps iv_byte_eq read_byte_def)
  next
    case (Cons b rest)
    have "count < 10 \<Longrightarrow> b AND 0x80 \<noteq> 0 \<Longrightarrow>
      result_of (iv_uint_loop (v OR push_bit shift (unat (b AND 0x7F))) (shift + 7) (Suc count) rest)
      = result_of (varuint_read_loop (v OR push_bit shift (unat (b AND 0x7F))) (shift + 7) (Suc count) rest)"
      by (rule 1 [where x = "(b, rest)"]) (simp_all add: read_byte_def Cons)
    then show ?thesis
      by (subst iv_uint_loop.simps, subst varuint_read_loop.simps)
        (simp add: result_simps iv_byte_eq read_byte_def Cons Let_def)
  qed
qed

lemma iv_uint_agrees: "result_of (iv_uint bs) = result_of (read_var_uint bs)"
  by (simp add: iv_uint_def read_var_uint_def iv_uint_loop_agrees)

lemma iv_byte_agrees: "result_of (iv_byte bs) = result_of (read_byte bs)"
  by (simp add: iv_byte_eq read_byte_def result_simps split: list.split)

lemma iv_length_agrees: "result_of (iv_length bs) = result_of (read_length bs)"
  by (simp add: iv_length_def read_length_def result_simps iv_uint_agrees case_prod_unfold)

text \<open>A buffer no longer than the limit of the first codec on input.\<close>

definition bounded :: "byte list \<Rightarrow> bool" where
  "bounded bs \<longleftrightarrow> length bs \<le> maxBytes DEFAULT_LIMITS"

lemma bounded_shorter: "bounded bs \<Longrightarrow> length rest \<le> length bs \<Longrightarrow> bounded rest"
  by (simp add: bounded_def)

lemma iv_take_agrees: "bounded bs \<Longrightarrow> result_of (iv_take n bs) = result_of (read_bytes DEFAULT_LIMITS n bs)"
  by (simp add: iv_take_def read_bytes_def result_simps bounded_def)

lemma bind_some_cong:
  "result_of m = result_of m' \<Longrightarrow> (\<And>x. m = Inr x \<Longrightarrow> result_of (f x) = result_of (g x)) \<Longrightarrow>
   result_of (bindR m f) = result_of (bindR m' g)"
  by (cases m; cases m') auto

lemma iv_string_agrees:
  assumes "bounded bs"
  shows "result_of (bindR (iv_length bs) (\<lambda>(n, r). bindR (iv_take n r) (\<lambda>(bytes, r').
      bindR (iv_utf8 bytes) (\<lambda>s. Inr ((s, bytes), r'))))) = result_of (decode_string DEFAULT_LIMITS bs)"
  unfolding decode_string_def
proof (rule bind_some_cong [OF iv_length_agrees], clarify, rule bind_some_cong, rule iv_take_agrees)
  show "bounded r" if "iv_length bs = Inr (n, r)" for n r
    using bounded_shorter [OF assms shrinksD [OF iv_length_shrinks that]] .
qed (auto simp: iv_utf8_def result_simps split: option.split)

lemma iv_entries_agrees:
  assumes "\<And>s. bounded s \<Longrightarrow> result_of (f s) = result_of (g s)" and "shrinks f" and "bounded bs"
  shows "result_of (iv_entries n f previous result bs) = result_of (decode_entries n DEFAULT_LIMITS g previous result bs)"
  using assms(3)
proof (induction n arbitrary: previous result bs)
  case (Suc n)
  show ?case
    unfolding iv_entries.simps decode_entries.simps
  proof (rule bind_some_cong [OF iv_byte_agrees], clarify)
    fix tag bs1 assume "iv_byte bs = Inr (tag, bs1)"
    then have b1: "bounded bs1" using Suc(2) bounded_shorter shrinksD [OF iv_byte_shrinks] by blast
    define rest where "rest = (\<lambda>((key, keyBytes), bs2). result_of (andThen (case previous of None \<Rightarrow> Inr ()
        | Some p \<Rightarrow> invariant (p < keyBytes) ''DECODE_MAP_ORDER'')
      (bindR (g bs2) (\<lambda>(v, bs3). decode_entries n DEFAULT_LIMITS g (Some keyBytes) (AList.update key v result) bs3))))"
    have "result_of (bindR (iv_length bs1) (\<lambda>(keyLength, bs2). bindR (iv_take keyLength bs2) (\<lambda>(keyBytes, bs3).
        andThen (requireThat (case previous of None \<Rightarrow> True | Some p \<Rightarrow> p < keyBytes) ''CANONICAL'' ''MAP_ORDER'')
        (bindR (iv_utf8 keyBytes) (\<lambda>key. bindR (f bs3) (\<lambda>(v, bs4).
          iv_entries n f (Some keyBytes) (AList.update key v result) bs4))))))
      = Option.bind (result_of (bindR (iv_length bs1) (\<lambda>(n, r). bindR (iv_take n r) (\<lambda>(bytes, r').
          bindR (iv_utf8 bytes) (\<lambda>s. Inr ((s, bytes), r')))))) rest"
      unfolding result_of_bindR Option.bind_assoc
    proof (rule Option.bind_cong [OF refl], clarsimp simp: result_of_bindR Option.bind_assoc result_of_iff,
        rule Option.bind_cong [OF refl], clarsimp simp: result_of_bindR Option.bind_assoc result_of_iff)
      fix len bs2 keyBytes bs3
      assume "iv_length bs1 = Inr (len, bs2)" and "iv_take len bs2 = Inr (keyBytes, bs3)"
      then have b3: "bounded bs3"
        using b1 bounded_shorter shrinksD [OF iv_length_shrinks] shrinksD [OF iv_take_shrinks] by blast
      have each: "result_of (bindR (f bs3) (\<lambda>(v, bs4). iv_entries n f (Some keyBytes) (AList.update key v result) bs4))
        = result_of (bindR (g bs3) (\<lambda>(v, bs4). decode_entries n DEFAULT_LIMITS g (Some keyBytes) (AList.update key v result) bs4))"
        for key
      proof (rule bind_some_cong [OF assms(1) [OF b3]], clarify)
        fix v bs4 assume "f bs3 = Inr (v, bs4)"
        then have "bounded bs4" using b3 bounded_shorter shrinksD [OF assms(2)] by blast
        then show "result_of (iv_entries n f (Some keyBytes) (AList.update key v result) bs4)
          = result_of (decode_entries n DEFAULT_LIMITS g (Some keyBytes) (AList.update key v result) bs4)" by (rule Suc(1))
      qed
      show "result_of (andThen (requireThat (case previous of None \<Rightarrow> True | Some p \<Rightarrow> p < keyBytes) ''CANONICAL'' ''MAP_ORDER'')
          (bindR (iv_utf8 keyBytes) (\<lambda>key. bindR (f bs3) (\<lambda>(v, bs4).
            iv_entries n f (Some keyBytes) (AList.update key v result) bs4))))
        = Option.bind (result_of (iv_utf8 keyBytes)) (\<lambda>key. rest ((key, keyBytes), bs3))"
        unfolding rest_def result_of_andThen result_of_bindR [of "iv_utf8 keyBytes"] each
        by (cases "iv_utf8 keyBytes"; cases previous) (simp_all add: result_simps)
    qed
    also have "\<dots> = Option.bind (result_of (decode_string DEFAULT_LIMITS bs1)) rest"
      by (simp only: iv_string_agrees [OF b1])
    finally show "result_of (andThen (requireThat (tag = 0x20) ''CANONICAL'' ''MAP_KEY'')
        (bindR (iv_length bs1) (\<lambda>(keyLength, bs2). bindR (iv_take keyLength bs2) (\<lambda>(keyBytes, bs3).
          andThen (requireThat (case previous of None \<Rightarrow> True | Some p \<Rightarrow> p < keyBytes) ''CANONICAL'' ''MAP_ORDER'')
          (bindR (iv_utf8 keyBytes) (\<lambda>key. bindR (f bs3) (\<lambda>(v, bs4).
            iv_entries n f (Some keyBytes) (AList.update key v result) bs4)))))))
      = result_of (andThen (invariant (tag = TAG_STRING) ''DECODE_MAP_KEY'')
        (bindR (decode_string DEFAULT_LIMITS bs1) (\<lambda>((key, keyBytes), bs2).
          andThen (case previous of None \<Rightarrow> Inr () | Some p \<Rightarrow> invariant (p < keyBytes) ''DECODE_MAP_ORDER'')
          (bindR (g bs2) (\<lambda>(v, bs3). decode_entries n DEFAULT_LIMITS g (Some keyBytes) (AList.update key v result) bs3)))))"
      unfolding rest_def by (simp add: result_of_andThen result_of_requireThat result_of_invariant result_of_bindR [of "decode_string DEFAULT_LIMITS bs1"] case_prod_unfold)
  qed
qed simp

lemma result_if:
  "result_of x = result_of x' \<Longrightarrow> result_of y = result_of y' \<Longrightarrow>
   result_of (if b then x else y) = result_of (if b then x' else y')"
  by simp

lemma result_if_or:
  "(b \<Longrightarrow> result_of z = result_of x) \<Longrightarrow> (\<not> b \<Longrightarrow> c \<Longrightarrow> result_of z = result_of x') \<Longrightarrow>
   result_of y = result_of y' \<Longrightarrow> result_of (if b \<or> c then z else y) = result_of (if b then x else if c then x' else y')"
  by simp

lemma iv_integer_agrees:
  "result_of (bindR (iv_uint rest) (\<lambda>(encoded, rest').
      let integer = (if encoded mod 2 = 0 then int (encoded div 2) else - int ((encoded + 1) div 2)) in
      andThen (requireThat (- int max_safe_integer \<le> integer \<and> integer \<le> int max_safe_integer)
        ''RESOURCE_LIMIT'' ''INTEGER_LIMIT'') (Inr (JInt integer, rest'))))
   = result_of (bindR (read_var_uint rest) (\<lambda>(z, rest').
      andThen (invariant (\<bar>unzigzag z\<bar> \<le> int max_safe_integer) ''DECODE_INTEGER'') (Inr (JInt (unzigzag z), rest'))))"
  by (rule bind_some_cong [OF iv_uint_agrees]) (auto simp: result_simps unzigzag_def)

lemma iv_float_agrees:
  assumes "bounded rest"
  shows "result_of (bindR (iv_take 8 rest) (\<lambda>(bytes, rest').
      let w = (of_nat (of_be bytes) :: 64 word) in
      andThen (requireThat (dbl_is_finite w \<and> \<not> dbl_is_safe_integer w) ''CANONICAL'' ''NUMBER'') (Inr (JDbl w, rest'))))
   = result_of (bindR (read_bytes DEFAULT_LIMITS 8 rest) (\<lambda>(bytes, rest').
      let w = (of_nat (of_be bytes) :: 64 word) in
      andThen (checks [invariant (dbl_is_finite w) ''DECODE_NUMBER'',
         invariant (\<not> dbl_is_safe_integer w) ''DECODE_NON_CANONICAL'']) (Inr (JDbl w, rest'))))"
  by (rule bind_some_cong [OF iv_take_agrees [OF assms]]) (auto simp: result_simps Let_def)

text \<open>The check that a length is at most the largest frame is implied by what is left to read.\<close>

lemma iv_limit_implied:
  assumes "bounded r"
  shows "result_of (andThen (requireThat (len \<le> iv_MAX_FRAME) c1 c2) (bindR (iv_take len r) f))
    = result_of (bindR (iv_take len r) f)"
  using assms by (auto simp: requireThat_def iv_take_def bounded_def DEFAULT_LIMITS_def iv_MAX_FRAME_def)

lemma iv_bytes_agrees:
  assumes "bounded rest"
  shows "result_of (bindR (iv_length rest) (\<lambda>(len, rest1).
      andThen (requireThat (len \<le> iv_MAX_FRAME) ''RESOURCE_LIMIT'' ''VALUE_LIMIT'')
      (bindR (iv_take len rest1) (\<lambda>(bytes, rest2). Inr (JBytes bytes, rest2)))))
   = result_of (bindR (read_length rest) (\<lambda>(len, rest1).
      bindR (read_bytes DEFAULT_LIMITS len rest1) (\<lambda>(bytes, rest2). Inr (JBytes bytes, rest2))))"
proof (rule bind_some_cong [OF iv_length_agrees], clarify)
  fix len rest1 assume "iv_length rest = Inr (len, rest1)"
  then have b: "bounded rest1" by (rule bounded_shorter [OF assms shrinksD [OF iv_length_shrinks]])
  then show "result_of (andThen (requireThat (len \<le> iv_MAX_FRAME) ''RESOURCE_LIMIT'' ''VALUE_LIMIT'')
      (bindR (iv_take len rest1) (\<lambda>(bytes, rest2). Inr (JBytes bytes, rest2))))
    = result_of (bindR (read_bytes DEFAULT_LIMITS len rest1) (\<lambda>(bytes, rest2). Inr (JBytes bytes, rest2)))"
    using iv_take_agrees [OF b, of len] by (simp add: iv_limit_implied [OF b] result_of_bindR case_prod_unfold)
qed

lemma iv_str_agrees:
  assumes "bounded rest"
  shows "result_of (bindR (iv_length rest) (\<lambda>(len, rest1).
      andThen (requireThat (len \<le> iv_MAX_FRAME) ''RESOURCE_LIMIT'' ''VALUE_LIMIT'')
      (bindR (iv_take len rest1) (\<lambda>(bytes, rest2). bindR (iv_utf8 bytes) (\<lambda>s. Inr (JStr s, rest2))))))
   = result_of (bindR (decode_string DEFAULT_LIMITS rest) (\<lambda>((value, _), rest'). Inr (JStr value, rest')))"
proof -
  have "result_of (bindR (decode_string DEFAULT_LIMITS rest) (\<lambda>((value, _), rest'). Inr (JStr value, rest')))
    = result_of (bindR (bindR (iv_length rest) (\<lambda>(n, r). bindR (iv_take n r) (\<lambda>(bytes, r').
        bindR (iv_utf8 bytes) (\<lambda>s. Inr ((s, bytes), r'))))) (\<lambda>((value, _), rest'). Inr (JStr value, rest')))"
    unfolding result_of_bindR [of _ "\<lambda>((value, _), rest'). Inr (JStr value, rest')"] iv_string_agrees [OF assms]
    by (simp add: case_prod_unfold)
  also have "\<dots> = result_of (bindR (iv_length rest) (\<lambda>(len, rest1).
      andThen (requireThat (len \<le> iv_MAX_FRAME) ''RESOURCE_LIMIT'' ''VALUE_LIMIT'')
      (bindR (iv_take len rest1) (\<lambda>(bytes, rest2). bindR (iv_utf8 bytes) (\<lambda>s. Inr (JStr s, rest2))))))"
    unfolding bindR_assoc
  proof (rule bind_some_cong [OF refl], clarsimp simp: bindR_assoc case_prod_unfold)
    fix len rest1 assume "iv_length rest = Inr (len, rest1)"
    then have b: "bounded rest1" by (rule bounded_shorter [OF assms shrinksD [OF iv_length_shrinks]])
    show "result_of (bindR (iv_take len rest1) (\<lambda>x. bindR (iv_utf8 (fst x)) (\<lambda>s. Inr (JStr s, snd x))))
      = result_of (andThen (requireThat (len \<le> iv_MAX_FRAME) ''RESOURCE_LIMIT'' ''VALUE_LIMIT'')
          (bindR (iv_take len rest1) (\<lambda>x. bindR (iv_utf8 (fst x)) (\<lambda>s. Inr (JStr s, snd x)))))"
      by (simp add: iv_limit_implied [OF b])
  qed
  finally show ?thesis ..
qed

lemma iv_value_agrees: "bounded bs \<Longrightarrow> result_of (iv_value depth bs) = result_of (decode_value DEFAULT_LIMITS depth bs)"
proof (induction "65 - depth" arbitrary: depth bs rule: less_induct)
  case less
  show ?case
  proof (cases "depth \<le> 64")
    case True
    then have IH: "bounded s \<Longrightarrow> result_of (iv_value (depth + 1) s) = result_of (decode_value DEFAULT_LIMITS (Suc depth) s)" for s
      using less(1) [of "depth + 1" s] by simp
    have limits: "maxDepth DEFAULT_LIMITS = 64" "maxCollectionEntries DEFAULT_LIMITS = 1000000"
      by (simp_all add: DEFAULT_LIMITS_def)
    show ?thesis
      unfolding iv_value.simps [of depth] decode_value.simps [of _ depth] limits result_of_andThen result_of_requireThat
        result_of_invariant
      apply (rule Option.bind_cong [OF refl], rule bind_some_cong [OF iv_byte_agrees], clarify)
      subgoal premises prems for tag rest
      proof -
        have b: "bounded rest" by (rule bounded_shorter [OF less(2) shrinksD [OF iv_byte_shrinks prems(2)]])
        have b1: "bounded r" if "iv_length rest = Inr (n, r)" for n r
          by (rule bounded_shorter [OF b shrinksD [OF iv_length_shrinks that]])
        have items: "result_of (repeatR len (\<lambda>s. iv_value (depth + 1) s) r)
          = result_of (repeatR len (\<lambda>s. decode_value DEFAULT_LIMITS (Suc depth) s) r)" if "bounded r" for len r
          using that by (intro result_of_repeatR_cong [where P = bounded])
            (blast intro: IH bounded_shorter shrinksD [OF iv_value_shrinks])+
        have entries: "result_of (iv_entries len (\<lambda>s. iv_value (depth + 1) s) None [] r)
          = result_of (decode_entries len DEFAULT_LIMITS (\<lambda>s. decode_value DEFAULT_LIMITS (Suc depth) s) None [] r)"
          if "bounded r" for len r using that by (intro iv_entries_agrees IH iv_value_shrinks)
        have array: "result_of (bindR (iv_length rest) (\<lambda>(len, rest1).
            andThen (requireThat (len \<le> 1000000) c1 c2)
            (bindR (repeatR len (\<lambda>s. iv_value (depth + 1) s) rest1) (\<lambda>(items, rest2). Inr (JArr items, rest2)))))
          = result_of (bindR (read_length rest) (\<lambda>(len, rest1).
            andThen (invariant (len \<le> 1000000) c3)
            (bindR (repeatR len (\<lambda>s. decode_value DEFAULT_LIMITS (Suc depth) s) rest1) (\<lambda>(items, rest2). Inr (JArr items, rest2)))))"
          for c1 c2 c3
          by (rule bind_some_cong [OF iv_length_agrees]) (auto simp: result_simps items [simplified] b1 case_prod_unfold)
        have map: "result_of (bindR (iv_length rest) (\<lambda>(len, rest1).
            andThen (requireThat (len \<le> 1000000) c1 c2)
            (bindR (iv_entries len (\<lambda>s. iv_value (depth + 1) s) None [] rest1) (\<lambda>(entries, rest2). Inr (JObj entries, rest2)))))
          = result_of (bindR (read_length rest) (\<lambda>(len, rest1).
            andThen (invariant (len \<le> 1000000) c3)
            (bindR (decode_entries len DEFAULT_LIMITS (\<lambda>s. decode_value DEFAULT_LIMITS (Suc depth) s) None [] rest1)
              (\<lambda>(entries, rest2). Inr (JObj entries, rest2)))))" for c1 c2 c3
          by (rule bind_some_cong [OF iv_length_agrees]) (auto simp: result_simps entries [simplified] b1 case_prod_unfold)
        show ?thesis
          by (intro result_if result_if_or iv_integer_agrees iv_float_agrees [OF b] array map)
            (simp_all add: iv_str_agrees [OF b] iv_bytes_agrees [OF b] result_of_failWith)
      qed
      done
  next
    case False
    then show ?thesis
      by (subst iv_value.simps, subst decode_value.simps) (simp add: result_simps DEFAULT_LIMITS_def)
  qed
qed

section \<open>Re-encoding\<close>

lemma decode_code_points_length: "decode_code_points bs = Some cps \<Longrightarrow> length cps \<le> length bs"
proof (induction bs arbitrary: cps rule: decode_code_points.induct)
  case (1 bs)
  then show ?case
    by (subst (asm) (2) decode_code_points.simps)
      (auto split: if_splits option.splits dest!: decode_code_point_shorter, force+)
qed

lemma text_decode_length: "text_decode bs = Some s \<Longrightarrow> length s \<le> 2 * length bs"
proof -
  assume "text_decode bs = Some s"
  then obtain cps where c: "decode_code_points bs = Some cps"
    and s: "s = concat (map code_units (case cps of [] \<Rightarrow> [] | c # cs \<Rightarrow> if c = byte_order_mark then cs else cps))"
    by (auto simp: text_decode_def split: option.splits)
  have each: "length (concat (map code_units xs)) \<le> 2 * length xs" for xs
    by (induction xs) (simp_all add: code_units_def)
  have "length s \<le> 2 * length cps"
    using each [of cps] each [of "tl cps"] unfolding s by (cases cps) auto
  then show ?thesis using decode_code_points_length [OF c] by linarith
qed

lemma decoded_text_short: "text_decode bs = Some s \<Longrightarrow> bounded bs \<Longrightarrow> length (utf8 s) \<le> max_safe_integer"
  using text_decode_length [of bs s] length_utf8 [of s]
  by (simp add: bounded_def DEFAULT_LIMITS_def max_safe_integer_def)

lemma update_entries: "set (AList.update k v kvs) \<subseteq> insert (k, v) (set kvs)" "length (AList.update k v kvs) \<le> Suc (length kvs)"
  by (induction kvs) auto

lemma decode_entries_within:
  assumes "\<And>s v s'. bounded s \<Longrightarrow> f s = Inr (v, s') \<Longrightarrow> bounded s' \<and> P v"
    and "decode_entries n DEFAULT_LIMITS f previous kvs bs = Inr (entries, rest)" and "bounded bs"
    and "\<forall>(k, v) \<in> set kvs. length (utf8 k) \<le> max_safe_integer \<and> P v"
  shows "length entries \<le> n + length kvs \<and> (\<forall>(k, v) \<in> set entries. length (utf8 k) \<le> max_safe_integer \<and> P v)"
  using assms(2-)
proof (induction n arbitrary: previous kvs bs)
  case (Suc n)
  then obtain tag b1 key keyBytes b2 v b3 where t: "read_byte bs = Inr (tag, b1)"
    and k: "decode_string DEFAULT_LIMITS b1 = Inr ((key, keyBytes), b2)" and v: "f b2 = Inr (v, b3)"
    and e: "decode_entries n DEFAULT_LIMITS f (Some keyBytes) (AList.update key v kvs) b3 = Inr (entries, rest)"
    by (auto simp: res_simps)
  have b1: "bounded b1" using t Suc(3) by (auto simp: read_byte_def bounded_def failWith_def split: list.splits)
  have "result_of (iv_length b1) = result_of (read_length b1)" by (rule iv_length_agrees)
  then obtain len r where len: "iv_length b1 = Inr (len, r)" and take: "read_bytes DEFAULT_LIMITS len r = Inr (keyBytes, b2)"
    and key: "text_decode keyBytes = Some key"
    using k by (auto simp: decode_string_def res_simps result_of_iff split: option.splits)
  have r: "bounded r" by (rule bounded_shorter [OF b1 shrinksD [OF iv_length_shrinks len]])
  have "bounded keyBytes" "bounded b2" using take r by (auto simp: read_bytes_def res_simps bounded_def)
  then have "length (utf8 key) \<le> max_safe_integer" "bounded b3" "P v"
    using decoded_text_short [OF key] assms(1) [OF _ v] by simp_all
  then have "length entries \<le> n + length (AList.update key v kvs)
      \<and> (\<forall>(k, v) \<in> set entries. length (utf8 k) \<le> max_safe_integer \<and> P v)"
    using Suc(4) update_entries(1) [of key v kvs] by (intro Suc(1) [OF e]) auto
  then show ?case using update_entries(2) [of key v kvs] by linarith
qed simp

lemma decode_value_within:
  "decode_value DEFAULT_LIMITS depth bs = Inr (v, rest) \<Longrightarrow> bounded bs \<Longrightarrow> bounded rest \<and> within DEFAULT_LIMITS depth v"
proof (induction "65 - depth" arbitrary: depth bs v rest rule: less_induct)
  case less
  have "result_of (iv_value depth bs) = Some (v, rest)" using iv_value_agrees [OF less(3)] less(2) by simp
  then have "iv_value depth bs = Inr (v, rest)" by (simp add: result_of_iff)
  then have rest: "bounded rest" by (rule bounded_shorter [OF less(3) shrinksD [OF iv_value_shrinks]])
  have limits: "maxDepth DEFAULT_LIMITS = 64" "maxCollectionEntries DEFAULT_LIMITS = 1000000" "maxBytes DEFAULT_LIMITS = 67108864"
    by (simp_all add: DEFAULT_LIMITS_def)
  from less(2) have depth: "depth \<le> 64" by (subst (asm) decode_value.simps) (simp add: limits res_simps)
  then have IH: "decode_value DEFAULT_LIMITS (Suc depth) s = Inr (v, s') \<Longrightarrow> bounded s \<Longrightarrow>
      bounded s' \<and> within DEFAULT_LIMITS (Suc depth) v" for s v s'
    using less(1) [of "Suc depth" s v s'] by simp
  have items: "bounded s \<Longrightarrow> repeatR n (\<lambda>s. decode_value DEFAULT_LIMITS (Suc depth) s) s = Inr (vs, s') \<Longrightarrow>
      \<forall>x \<in> set vs. within DEFAULT_LIMITS (Suc depth) x" for n s vs s'
  proof (induction n arbitrary: s vs)
    case (Suc n)
    then show ?case by (auto simp: res_simps dest!: IH)
  qed simp
  show ?case
  proof (rule conjI [OF rest])
    from less(2) obtain tag r where tag: "read_byte bs = Inr (tag, r)"
      by (subst (asm) decode_value.simps) (auto simp: res_simps)
    then have r: "bounded r" using less(3) by (auto simp: read_byte_def bounded_def failWith_def split: list.splits)
    have len: "bounded r1 \<and> n \<le> max_safe_integer" if "read_length r = Inr (n, r1)" for n r1
    proof -
      have "iv_length r = Inr (n, r1)" using that iv_length_agrees [of r] by (simp add: result_of_iff)
      then show ?thesis using that bounded_shorter [OF r shrinksD [OF iv_length_shrinks]]
        by (auto simp: read_length_def res_simps)
    qed
    have string: "length (utf8 s) \<le> max_safe_integer" if s: "decode_string DEFAULT_LIMITS r = Inr ((s, b), r2)" for s b r2
    proof -
      obtain n r1 where n: "read_length r = Inr (n, r1)" and b: "read_bytes DEFAULT_LIMITS n r1 = Inr (b, r2)"
        and dec: "text_decode b = Some s"
        using s by (auto simp: decode_string_def res_simps split: option.splits)
      have "bounded b" using b len [OF n] by (auto simp: read_bytes_def res_simps bounded_def)
      with decoded_text_short [OF dec] show ?thesis .
    qed
    have array: "within DEFAULT_LIMITS depth (JArr xs)"
      if n: "read_length r = Inr (n, r1)" "n \<le> 1000000"
        and xs: "repeatR n (\<lambda>s. decode_value DEFAULT_LIMITS (Suc depth) s) r1 = Inr (xs, r2)" for n r1 xs r2
      using len [OF n(1)] items [OF _ xs] repeatR_length [OF xs] n depth by (simp add: limits)
    have map: "within DEFAULT_LIMITS depth (JObj es)"
      if n: "read_length r = Inr (n, r1)" "n \<le> 1000000"
        and es: "decode_entries n DEFAULT_LIMITS (\<lambda>s. decode_value DEFAULT_LIMITS (Suc depth) s) None [] r1 = Inr (es, r2)"
      for n r1 es r2
      using decode_entries_within [OF _ es, of "within DEFAULT_LIMITS (Suc depth)"] IH len [OF n(1)] n depth
      by (auto simp: limits)
    show "within DEFAULT_LIMITS depth v"
      using less(2)
      by (subst (asm) decode_value.simps)
        (auto simp: limits tag depth res_simps read_bytes_def Let_def simp del: within.simps(7,8)
          split: if_splits dest: string len array [simplified] map [simplified])
  qed
qed

section \<open>Agreement\<close>

lemma iv_decode_agrees: "bounded bs \<Longrightarrow> result_of (iv_decode bs) = result_of (decode_canonical DEFAULT_LIMITS bs)"
proof -
  assume b: "bounded bs"
  have "result_of (decode_canonical DEFAULT_LIMITS bs) = result_of (bindR (decode_value DEFAULT_LIMITS 0 bs) (\<lambda>(v, rest).
      andThen (invariant (rest = []) ''DECODE_TRAILING'') (bindR (encode_canonical DEFAULT_LIMITS v) (\<lambda>reencoded.
      andThen (invariant (bs = reencoded) ''DECODE_NON_CANONICAL'') (Inr v)))))"
    using b by (simp add: decode_canonical_def bounded_def result_simps)
  also have "\<dots> = result_of (iv_decode bs)"
    unfolding iv_decode_def
  proof (rule bind_some_cong [OF iv_value_agrees [OF b, symmetric]], clarify)
    fix v rest assume "decode_value DEFAULT_LIMITS 0 bs = Inr (v, rest)"
    then have "result_of (encode_canonical DEFAULT_LIMITS v) = result_of (iv_encode v)"
      unfolding encode_canonical_def using b by (intro encode_value_iv) (blast dest: decode_value_within)
    then show "result_of (andThen (invariant (rest = []) ''DECODE_TRAILING'')
        (bindR (encode_canonical DEFAULT_LIMITS v) (\<lambda>reencoded.
          andThen (invariant (bs = reencoded) ''DECODE_NON_CANONICAL'') (Inr v))))
      = result_of (andThen (requireThat (rest = []) ''CANONICAL'' ''TRAILING_VALUE'')
        (bindR (iv_encode v) (\<lambda>reencoded. andThen (requireThat (bs = reencoded) ''CANONICAL'' ''REENCODE'') (Inr v))))"
      by (simp add: result_simps)
  qed
  finally show ?thesis ..
qed

lemma iv_decode_Inr: "bounded bs \<Longrightarrow> iv_decode bs = Inr v \<longleftrightarrow> decode_canonical DEFAULT_LIMITS bs = Inr v"
  using iv_decode_agrees [of bs] by (metis result_of_iff)

section \<open>Properties\<close>

text \<open>
  C18: The two implementations of the codec agree. On every byte string of at most 64 MiB, the
  decoder of the library and the decoder of the independent verifier, which share no code, either
  give the same value or both refuse.
\<close>

theorem independent_decoder_agrees:
  assumes "length bytes \<le> maxBytes DEFAULT_LIMITS"
  shows "iv_decode bytes = Inr v \<longleftrightarrow> decode_canonical DEFAULT_LIMITS bytes = Inr v"
  using assms by (intro iv_decode_Inr) (simp add: bounded_def)

theorem independent_decoder_agrees_witness:
  "iv_decode [0x50, 1, 0x20, 1, 97, 0x10, 3] = Inr (JObj [([97], JInt (- 2))])"
proof -
  have "length [0x50, 1, 0x20, 1, 97, 0x10, 3 :: byte] \<le> maxBytes DEFAULT_LIMITS" by (simp add: DEFAULT_LIMITS_def)
  note agrees = independent_decoder_agrees [OF this]
  have "encode_canonical DEFAULT_LIMITS (JObj [([97], JInt (- 2))]) = Inr [0x50, 1, 0x20, 1, 97, 0x10, 3]"
    by (simp add: codec_eval)
  moreover have "portable (JObj [([97], JInt (- 2))])"
    by (simp add: max_safe_integer_def portable_text_def starts_with_bom_def byte_order_mark_def is_surrogate_def)
  ultimately have "decode_canonical DEFAULT_LIMITS [0x50, 1, 0x20, 1, 97, 0x10, 3] = Inr (canon (JObj [([97], JInt (- 2))]))"
    by (rule decode_canonical_encode) (simp add: DEFAULT_LIMITS_def)
  then show ?thesis unfolding agrees by simp
qed

end
