(* ===== verification/G9P_Independent_Statements.thy ===== *)
theory G9P_Independent_Statements
  imports G9P_Independent
begin

text \<open>
  The independent verifier on routing epochs, checkpoints and witness receipts, and its entry point
  \<open>verifyG9pBytes\<close> (src/tools/independent-verifier/verify.js).
\<close>

section \<open>The common shape\<close>

record iv_statement =
  is_payload :: "byte list"
  is_value :: jsval
  is_signature :: jsval

definition iv_statement_frames :: "string \<Rightarrow> byte list \<Rightarrow> iv_statement verdict" where
  "iv_statement_frames type bytes =
     bindR (iv_magic iv_MAGIC_V2 bytes) (\<lambda>bs0.
     bindR (iv_frame type bs0) (\<lambda>(payload, bs1).
     bindR (iv_frame ''SIG1'' bs1) (\<lambda>(signaturePayload, bs2).
     bindR (iv_frame ''END!'' bs2) (\<lambda>(endPayload, bs3).
     andThen (requireThat (length endPayload = 0) ''FORMAT'' ''END'')
     (andThen (iv_end bs3)
     (bindR (iv_decode payload) (\<lambda>v.
      bindR (iv_decode signaturePayload) (\<lambda>signature.
      Inr \<lparr>is_payload = payload, is_value = v, is_signature = signature\<rparr>))))))))"

text \<open>One entry of a list of shard heads.\<close>

definition iv_head :: "int \<Rightarrow> string \<Rightarrow> string \<Rightarrow> nat \<times> jsval \<Rightarrow> unit verdict" where
  "iv_head epoch listCode code = (\<lambda>(i, head). checks
     [exact head [''epochNumber'', ''shardId'', ''segmentNumber'', ''segmentHash''] (listCode @ ''_FIELDS''),
      requireThat (get_prop head ''epochNumber'' = JInt epoch
        \<and> get_prop head ''shardId'' = JStr (js ''shard-'' @ padded 4 i)) ''SEMANTIC'' (listCode @ ''_ORDER''),
      requireThat (get_prop head ''segmentNumber'' = JNull \<and> get_prop head ''segmentHash'' = JNull
        \<or> (case get_prop head ''segmentNumber'' of JInt n \<Rightarrow> 0 \<le> n | _ \<Rightarrow> False)
          \<and> iv_bytes32 (get_prop head ''segmentHash'')) ''SEMANTIC'' code])"

definition iv_items :: "jsval \<Rightarrow> jsval list" where
  "iv_items v = (case v of JArr items \<Rightarrow> items | _ \<Rightarrow> [])"

definition iv_items_between :: "nat \<Rightarrow> nat \<Rightarrow> jsval \<Rightarrow> bool" where
  "iv_items_between lo hi v = (case v of JArr items \<Rightarrow> lo \<le> length items \<and> length items \<le> hi | _ \<Rightarrow> False)"

definition iv_signed_by :: "platform \<Rightarrow> jsval \<Rightarrow> jsval \<Rightarrow> string \<Rightarrow> byte list \<Rightarrow> unit verdict" where
  "iv_signed_by X identity signature domain payload =
     verifyEd25519 X (iv_octets (get_prop identity ''publicKey'')) (iv_octets (get_prop signature ''signature'')) domain
       payload (case get_prop identity ''keyId'' of JStr s \<Rightarrow> s | _ \<Rightarrow> [])"

section \<open>Routing epochs\<close>

record epoch_report =
  rp_ledger :: jsval
  rp_epoch :: jsval
  rp_epochHash :: jsstr
  rp_fileHash :: jsstr
  rp_authority :: jsval

definition iv_check_descriptor :: "platform \<Rightarrow> jsval \<Rightarrow> jsval \<Rightarrow> byte list \<Rightarrow> unit verdict" where
  "iv_check_descriptor X d signature payload =
     (let authority = get_prop d ''topologyAuthority''; policy = get_prop d ''authorizationPolicy'';
          n = get_prop d ''epochNumber''; previous = get_prop d ''previousEpochHash'';
          heads = get_prop d ''previousShardHeads'' in
      checks
        [exact d [''kind'', ''protocolVersion'', ''ledgerId'', ''epochNumber'', ''createdAt'', ''previousEpochHash'',
           ''previousShardHeads'', ''routingPolicy'', ''topologyAuthority'', ''authorizationPolicy'', ''reason'']
           ''EPOCH_FIELDS'',
         exact authority [''algorithm'', ''keyId'', ''publicKey''] ''AUTHORITY_FIELDS'',
         exact policy [''kind'', ''version'', ''threshold''] ''AUTHORIZATION_FIELDS'',
         exact signature [''algorithm'', ''keyId'', ''signature''] ''SIGNATURE_FIELDS'',
         requireThat (get_prop d ''kind'' = JStr (js ''g9p-routing-epoch'') \<and> get_prop d ''protocolVersion'' = JInt 1
           \<and> is_text (get_prop d ''ledgerId'') \<and> (case n of JInt i \<Rightarrow> 0 \<le> i | _ \<Rightarrow> False)) ''SEMANTIC'' ''EPOCH'',
         iv_check_text X (get_prop d ''ledgerId'') 1 1024 ''EPOCH_LEDGER'',
         iv_timestamp X (get_prop d ''createdAt'') ''EPOCH_CREATED_AT'',
         iv_check_text X (get_prop d ''reason'') 1 4096 ''EPOCH_REASON'',
         requireThat (iv_number n = 0 \<and> previous = JNull \<or> 0 < iv_number n \<and> iv_bytes32 previous)
           ''SEMANTIC'' ''EPOCH_LINK'',
         requireThat (get_prop policy ''kind'' = JStr (js ''single-ed25519'') \<and> get_prop policy ''version'' = JInt 1
           \<and> get_prop policy ''threshold'' = JInt 1) ''SEMANTIC'' ''AUTHORIZATION_POLICY'',
         requireThat (iv_items_between 0 65536 heads) ''RESOURCE_LIMIT'' ''SHARD_HEAD_LIMIT'',
         (if iv_number n = 0 then requireThat (iv_items heads = []) ''SEMANTIC'' ''GENESIS_HEADS'' else Inr ()),
         checks (map (iv_head (iv_number n - 1) ''SHARD_HEAD'' ''SHARD_HEAD'') (enumerate 0 (iv_items heads))),
         bindR (iv_route X (get_prop d ''ledgerId'') (JStr (js ''conformance-check'')) (get_prop d ''routingPolicy''))
           (\<lambda>_. Inr ()),
         requireThat (iv_key_id_ok authority) ''IDENTITY'' ''AUTHORITY_IDENTITY'',
         requireThat (iv_signature_ok authority signature) ''IDENTITY'' ''SIGNATURE_IDENTITY'',
         iv_signed_by X authority signature ''routing-epoch-signature-v1'' payload])"

definition iv_verify_epoch :: "platform \<Rightarrow> byte list \<Rightarrow> epoch_report verdict" where
  "iv_verify_epoch X bytes =
     bindR (iv_statement_frames ''RTE1'' bytes) (\<lambda>st.
     andThen (iv_check_descriptor X (is_value st) (is_signature st) (is_payload st))
     (Inr \<lparr>rp_ledger = get_prop (is_value st) ''ledgerId'', rp_epoch = get_prop (is_value st) ''epochNumber'',
        rp_epochHash = to_hex (iv_domainHash X ''routing-epoch-v1'' [is_payload st]),
        rp_fileHash = to_hex (iv_domainHash X ''routing-epoch-file-v1'' [bytes]),
        rp_authority = get_prop (get_prop (is_value st) ''topologyAuthority'') ''keyId''\<rparr>))"

section \<open>Checkpoints and witness receipts\<close>

record iv_attestation =
  at_frame :: string
  at_code :: string
  at_kind :: string
  at_identityField :: string
  at_fields :: "string list"
  at_signatureDomain :: string
  at_hashDomain :: string
  at_fileDomain :: string

definition iv_checkpoint_profile :: iv_attestation where
  "iv_checkpoint_profile = \<lparr>at_frame = ''CHK1'', at_code = ''CHECKPOINT'', at_kind = ''g9p-checkpoint'',
     at_identityField = ''publisher'',
     at_fields = [''kind'', ''protocolVersion'', ''ledgerId'', ''checkpointNumber'', ''createdAt'',
       ''previousCheckpointHash'', ''routingEpochNumber'', ''routingEpochHash'', ''shardHeads'', ''publisher''],
     at_signatureDomain = ''checkpoint-signature-v1'', at_hashDomain = ''checkpoint-v1'',
     at_fileDomain = ''checkpoint-file-v1''\<rparr>"

definition iv_witness_profile :: iv_attestation where
  "iv_witness_profile = \<lparr>at_frame = ''WIT1'', at_code = ''WITNESS'', at_kind = ''g9p-witness-receipt'',
     at_identityField = ''witness'',
     at_fields = [''kind'', ''protocolVersion'', ''ledgerId'', ''checkpointNumber'', ''checkpointHash'',
       ''checkpointFileHash'', ''observedAt'', ''witness''],
     at_signatureDomain = ''witness-signature-v1'', at_hashDomain = ''witness-receipt-v1'',
     at_fileDomain = ''witness-file-v1''\<rparr>"

definition iv_check_checkpoint :: "platform \<Rightarrow> jsval \<Rightarrow> unit verdict" where
  "iv_check_checkpoint X c = checks
     [iv_timestamp X (get_prop c ''createdAt'') ''CHECKPOINT_CREATED_AT'',
      requireThat (get_prop c ''previousCheckpointHash'' = JNull \<or> iv_bytes32 (get_prop c ''previousCheckpointHash''))
        ''SEMANTIC'' ''CHECKPOINT_LINK'',
      iv_integer (get_prop c ''routingEpochNumber'') 0 (int max_safe_integer) ''CHECKPOINT_EPOCH'',
      requireThat (iv_bytes32 (get_prop c ''routingEpochHash'')) ''SEMANTIC'' ''CHECKPOINT_EPOCH_HASH'',
      requireThat (iv_items_between 1 65536 (get_prop c ''shardHeads'')) ''RESOURCE_LIMIT'' ''CHECKPOINT_HEAD_LIMIT'',
      checks (map (iv_head (iv_number (get_prop c ''routingEpochNumber'')) ''CHECKPOINT_HEAD'' ''CHECKPOINT_HEAD'')
        (enumerate 0 (iv_items (get_prop c ''shardHeads''))))]"

definition iv_check_witness :: "platform \<Rightarrow> jsval \<Rightarrow> unit verdict" where
  "iv_check_witness X w = checks
     [requireThat (iv_bytes32 (get_prop w ''checkpointHash'') \<and> iv_bytes32 (get_prop w ''checkpointFileHash''))
        ''SEMANTIC'' ''WITNESS_CHECKPOINT_HASH'',
      iv_timestamp X (get_prop w ''observedAt'') ''WITNESS_OBSERVED_AT'']"

record attestation_report =
  rr_ledger :: jsval
  rr_number :: jsval
  rr_hash :: jsstr
  rr_file :: jsstr
  rr_key :: jsval
  rr_checkpoint :: "(jsstr \<times> jsstr) option"

definition iv_check_attestation :: "platform \<Rightarrow> iv_attestation \<Rightarrow> jsval \<Rightarrow> jsval \<Rightarrow> byte list \<Rightarrow> unit verdict" where
  "iv_check_attestation X p v signature payload =
     (let identity = get_prop v (at_identityField p) in
      checks
        [exact v (at_fields p) (at_code p @ ''_FIELDS''),
         exact identity [''algorithm'', ''keyId'', ''publicKey''] (at_code p @ ''_IDENTITY_FIELDS''),
         exact signature [''algorithm'', ''keyId'', ''signature''] ''SIGNATURE_FIELDS'',
         requireThat (get_prop v ''kind'' = JStr (js (at_kind p)) \<and> get_prop v ''protocolVersion'' = JInt 1)
           ''SEMANTIC'' (at_code p @ ''_VERSION''),
         iv_check_text X (get_prop v ''ledgerId'') 1 1024 (at_code p @ ''_LEDGER''),
         iv_integer (get_prop v ''checkpointNumber'') 0 (int max_safe_integer) (at_code p @ ''_NUMBER''),
         (if at_frame p = ''CHK1'' then iv_check_checkpoint X v else iv_check_witness X v),
         requireThat (iv_key_id_ok identity \<and> iv_signature_ok identity signature) ''IDENTITY'' (at_code p @ ''_IDENTITY''),
         iv_signed_by X identity signature (at_signatureDomain p) payload])"

definition iv_verify_attestation :: "platform \<Rightarrow> iv_attestation \<Rightarrow> byte list \<Rightarrow> attestation_report verdict" where
  "iv_verify_attestation X p bytes =
     bindR (iv_statement_frames (at_frame p) bytes) (\<lambda>st.
     andThen (iv_check_attestation X p (is_value st) (is_signature st) (is_payload st))
     (Inr \<lparr>rr_ledger = get_prop (is_value st) ''ledgerId'', rr_number = get_prop (is_value st) ''checkpointNumber'',
        rr_hash = to_hex (iv_domainHash X (at_hashDomain p) [is_payload st]),
        rr_file = to_hex (iv_domainHash X (at_fileDomain p) [bytes]),
        rr_key = get_prop (get_prop (is_value st) (at_identityField p)) ''keyId'',
        rr_checkpoint = (if at_frame p = ''WIT1'' then
          Some (to_hex (iv_octets (get_prop (is_value st) ''checkpointHash'')),
                to_hex (iv_octets (get_prop (is_value st) ''checkpointFileHash''))) else None)\<rparr>))"

section \<open>The entry point\<close>

datatype report =
    Segment_Report segment_report
  | Epoch_Report epoch_report
  | Attestation_Report attestation_report

definition report_as :: "('a \<Rightarrow> report) \<Rightarrow> 'a verdict \<Rightarrow> report verdict" where
  "report_as kind verdict = bindR verdict (\<lambda>r. Inr (kind r))"

definition verifyG9pBytes :: "platform \<Rightarrow> byte list \<Rightarrow> report verdict" where
  "verifyG9pBytes X bytes =
     andThen (requireThat (length bytes \<le> iv_MAX_FILE) ''RESOURCE_LIMIT'' ''FILE_LIMIT'')
     (if take 8 bytes = iv_MAGIC_V1 then report_as Segment_Report (iv_verify_segment X bytes 1)
      else
        andThen (checks
          [requireThat (take 8 bytes = iv_MAGIC_V2) ''FORMAT'' ''MAGIC'',
           requireThat (12 \<le> length bytes) ''FORMAT'' ''TRUNCATED''])
        (let profile = to_ascii (take 4 (drop 8 bytes)) in
         if profile = ''HED2'' then report_as Segment_Report (iv_verify_segment X bytes 2)
         else if profile = ''RTE1'' then report_as Epoch_Report (iv_verify_epoch X bytes)
         else if profile = ''CHK1'' then
           report_as Attestation_Report (iv_verify_attestation X iv_checkpoint_profile bytes)
         else if profile = ''WIT1'' then
           report_as Attestation_Report (iv_verify_attestation X iv_witness_profile bytes)
         else Inl (Reject ''FORMAT'' ''PROFILE'')))"

end
