(* ===== verification/G9P_Independent_Segment.thy ===== *)
theory G9P_Independent_Segment
  imports G9P_Independent_Codec G9P_Independent_Statements G9P_Segment_Total
begin

text \<open>
  The checks of the two segment verifiers compared part by part: frames, events, routes, records,
  blocks, header, manifest, signature and Merkle tree. Each lemma states when the independent check
  succeeds in terms of the library's check of the same part.
\<close>

lemma requireThat_Inr_iff [res_simps]: "requireThat b k c = Inr u \<longleftrightarrow> b"
  by (simp add: requireThat_def)

text \<open>Documented behaviour of Unicode: plain ASCII text is in normal form.\<close>

definition nfc_ascii :: "platform \<Rightarrow> bool" where
  "nfc_ascii X \<longleftrightarrow> (\<forall>s. plain_ascii s \<longrightarrow> is_nfc X s)"

section \<open>Frames\<close>

lemma iv_frame_agrees: "iv_frame t bs = Inr r \<longleftrightarrow> read_frame iv_MAX_FRAME t bs = Inr r"
  by (auto simp: iv_frame_def iv_peek_def read_frame_def FRAME_HEADER_BYTES_def Let_def res_simps)

lemma iv_peek_agrees: "iv_peek bs = Inr t \<longleftrightarrow> peek_type bs = Inr t"
  by (auto simp: iv_peek_def peek_type_def FRAME_HEADER_BYTES_def res_simps)

lemma iv_magic_agrees: "iv_magic m bs = Inr r \<longleftrightarrow> read_magic m bs = Inr r"
proof -
  have "take (length m) bs = m \<longrightarrow> length m \<le> length bs" by (metis length_take min.cobounded1)
  then show ?thesis by (auto simp: iv_magic_def read_magic_def res_simps)
qed

lemma iv_end_agrees: "iv_end bs = Inr u \<longleftrightarrow> assert_end bs = Inr u"
  by (simp add: iv_end_def assert_end_def res_simps)

lemma iv_block_frames_agrees:
  assumes "maxFrameBytes L = iv_MAX_FRAME" and "n \<le> maxBlocks L"
  shows "read_block_frames L n bs = Inr (ps, rest) \<longleftrightarrow> iv_block_frames bs = Inr (ps, rest) \<and> n + length ps \<le> maxBlocks L"
  using assms
proof (induction L n bs arbitrary: ps rest rule: read_block_frames.induct)
  case (1 L n bs)
  show ?case
  proof (cases "peek_type bs = Inr ''BLK1'' \<and> n < maxBlocks L")
    case True
    then have p: "peek_type bs = Inr ''BLK1''" "iv_peek bs = Inr ''BLK1''" by (simp_all add: iv_peek_agrees)
    have expand: "iv_block_frames bs = bindR (iv_frame ''BLK1'' bs) (\<lambda>(payload, rest).
        bindR (iv_block_frames rest) (\<lambda>(payloads, rest'). Inr (payload # payloads, rest')))"
      by (subst iv_block_frames.simps) (simp add: p(2))
    have IH: "read_block_frames L (Suc n) r = Inr (ps', rest') \<longleftrightarrow> iv_block_frames r = Inr (ps', rest') \<and> Suc n + length ps' \<le> maxBlocks L"
      if "read_frame (maxFrameBytes L) ''BLK1'' bs = Inr (q, r)" for q r ps' rest'
      using "1.IH" [OF p(1) refl _ that refl] True "1.prems"(1) by simp
    have "read_block_frames L n bs = Inr (ps, rest) \<longleftrightarrow> (\<exists>q r ps'. read_frame (maxFrameBytes L) ''BLK1'' bs = Inr (q, r)
        \<and> read_block_frames L (Suc n) r = Inr (ps', rest) \<and> ps = q # ps')"
      using p True by (subst read_block_frames.simps) (auto simp: res_simps)
    also have "\<dots> \<longleftrightarrow> (\<exists>q r ps'. read_frame (maxFrameBytes L) ''BLK1'' bs = Inr (q, r)
        \<and> iv_block_frames r = Inr (ps', rest) \<and> ps = q # ps') \<and> n + length ps \<le> maxBlocks L"
    proof (rule iffI; elim exE conjE)
      fix q r ps' assume a: "read_frame (maxFrameBytes L) ''BLK1'' bs = Inr (q, r)" "read_block_frames L (Suc n) r = Inr (ps', rest)"
        and "ps = q # ps'"
      then show "(\<exists>q r ps'. read_frame (maxFrameBytes L) ''BLK1'' bs = Inr (q, r)
        \<and> iv_block_frames r = Inr (ps', rest) \<and> ps = q # ps') \<and> n + length ps \<le> maxBlocks L"
        using IH [OF a(1), of ps' rest] by simp
    next
      fix q r ps' assume a: "read_frame (maxFrameBytes L) ''BLK1'' bs = Inr (q, r)" "iv_block_frames r = Inr (ps', rest)"
        and "ps = q # ps'" "n + length ps \<le> maxBlocks L"
      then show "\<exists>q r ps'. read_frame (maxFrameBytes L) ''BLK1'' bs = Inr (q, r)
        \<and> read_block_frames L (Suc n) r = Inr (ps', rest) \<and> ps = q # ps'"
        using IH [OF a(1), of ps' rest] by simp
    qed
    also have "\<dots> \<longleftrightarrow> iv_block_frames bs = Inr (ps, rest) \<and> n + length ps \<le> maxBlocks L"
      unfolding expand by (auto simp: res_simps iv_frame_agrees "1.prems"(1))
    finally show ?thesis .
  next
    case False
    then consider "\<nexists>t. peek_type bs = Inr t" | t where "peek_type bs = Inr t" "t \<noteq> ''BLK1''"
      | "peek_type bs = Inr ''BLK1''" "n = maxBlocks L" using "1.prems"(2) by fastforce
    then show ?thesis
    proof cases
      case 1
      then have "\<nexists>t. iv_peek bs = Inr t" by (simp add: iv_peek_agrees)
      with 1 have "read_block_frames L n bs \<noteq> Inr (ps, rest)" "iv_block_frames bs \<noteq> Inr (ps, rest)"
        by (subst read_block_frames.simps iv_block_frames.simps, simp add: res_simps)+
      then show ?thesis by simp
    next
      case 2
      then have "iv_peek bs = Inr t" by (simp add: iv_peek_agrees)
      with 2 have "read_block_frames L n bs = Inr ([], bs)" "iv_block_frames bs = Inr ([], bs)"
        by (subst read_block_frames.simps iv_block_frames.simps, simp)+
      then show ?thesis using "1.prems"(2) by auto
    next
      case 3
      then have "iv_peek bs = Inr ''BLK1''" by (simp add: iv_peek_agrees)
      then have "ps \<noteq> []" if "iv_block_frames bs = Inr (ps, rest)"
        using that by (subst (asm) iv_block_frames.simps) (auto simp: res_simps)
      moreover have "read_block_frames L n bs \<noteq> Inr (ps, rest)"
        using 3 by (subst read_block_frames.simps) (simp add: res_simps)
      ultimately show ?thesis using 3(2) by auto
    qed
  qed
qed

definition version_profile :: "nat \<Rightarrow> format_profile" where
  "version_profile version = (if version = 1 then profile_v1 else profile_v2)"

lemma profiles_agree:
  "ip_magic (iv_profile_for version) = fp_magic (version_profile version)"
  "ip_head (iv_profile_for version) = headerFrame (version_profile version)"
  "ip_manifest (iv_profile_for version) = manifestFrame (version_profile version)"
  "ip_hd (iv_profile_for version) = headerHashDomain (version_profile version)"
  "ip_bd (iv_profile_for version) = blockHashDomain (version_profile version)"
  "ip_sd (iv_profile_for version) = signatureDomain (version_profile version)"
  "ip_fd (iv_profile_for version) = fileHashDomain (version_profile version)"
  by (simp_all add: iv_profile_for_def version_profile_def profile_v1_def profile_v2_def iv_MAGIC_V1_def iv_MAGIC_V2_def
      G9P_MAGIC_V1_def G9P_MAGIC_V2_def)

definition plain_frames :: "iv_frames \<Rightarrow> segment_frames" where
  "plain_frames g = \<lparr>sf_header = if_header g, sf_blocks = if_blocks g, sf_manifest = if_manifest g,
     sf_signature = if_signature g\<rparr>"

lemma segment_frames_agree:
  "read_segment_frames VERIFY_LIMITS (version_profile version) bytes = Inr (plain_frames g)
   \<longleftrightarrow> iv_segment_frames (iv_profile_for version) bytes = Inr g \<and> length (if_blocks g) \<le> 65536"
proof -
  have L: "maxFrameBytes VERIFY_LIMITS = iv_MAX_FRAME" "maxBlocks VERIFY_LIMITS = 65536"
    by (simp_all add: VERIFY_LIMITS_def iv_MAX_FRAME_def)
  note blocks = iv_block_frames_agrees [of VERIFY_LIMITS 0, unfolded L, OF refl]
  show ?thesis
    unfolding read_segment_frames_def iv_segment_frames_def profiles_agree plain_frames_def
    by (cases g) (auto simp: res_simps L blocks iv_frame_agrees iv_magic_agrees iv_end_agrees iv_MAX_FRAME_def)
qed

lemma plain_frames_surj: obtains g where "f = plain_frames g"
  using that [of "\<lparr>if_header = sf_header f, if_blocks = sf_blocks f, if_manifest = sf_manifest f,
     if_signature = sf_signature f\<rparr>"] by (simp add: plain_frames_def)

section \<open>Events and routes\<close>

lemma iv_check_text_agrees: "iv_check_text X v lo hi code = Inr u \<longleftrightarrow> validate_text X lo hi v = Inr ()"
  by (cases v) (auto simp: iv_check_text_def validate_text_def res_simps)

lemma iv_timestamp_agrees: "iv_timestamp X v code = Inr u \<longleftrightarrow> validate_timestamp X v = Inr ()"
  by (cases v) (simp_all add: iv_timestamp_def validate_timestamp_def timestamp_text_def iv_check_text_agrees res_simps)

lemma validateData_agrees: "validateData X depth v = Inr () \<longleftrightarrow> validate_data X depth v = Inr ()"
proof (induction X depth v rule: validateData.induct)
  case (1 X depth v)
  show ?case
  proof (cases "depth \<le> 64")
    case True
    then have ok: "requireThat (depth \<le> 64) ''RESOURCE_LIMIT'' ''EVENT_DEPTH'' = Inr ()" by (simp add: requireThat_def)
    show ?thesis
    proof (cases v)
      case (JArr items)
      then show ?thesis using 1(1) [OF ok JArr] True
        by (subst validateData.simps, subst validate_data.simps) (simp add: res_simps)
    next
      case (JObj kvs)
      have "validateData X (Suc depth) b = Inr () \<longleftrightarrow> validate_data X (Suc depth) b = Inr ()"
        if "(a, b) \<in> set kvs" "validate_text X 1 256 (JStr a) = Inr ()" for a b
        using 1(2) [OF ok JObj that(1) refl] that(2) by (simp add: iv_check_text_agrees)
      then show ?thesis using True JObj
        by (subst validateData.simps, subst validate_data.simps)
          (force simp: res_simps iv_check_text_agrees)
    qed (use True in \<open>subst validateData.simps, subst validate_data.simps, simp add: res_simps\<close>)+
  next
    case False
    then show ?thesis by (subst validateData.simps, subst validate_data.simps) (simp add: res_simps)
  qed
qed

lemma within_get_prop: "within L depth v \<Longrightarrow> get_prop v name = JInt i \<Longrightarrow> \<bar>i\<bar> \<le> int max_safe_integer"
  by (cases v) (force simp: get_prop_def split: option.splits dest: map_of_SomeD)+

lemma get_prop_bytes [simp]: "get_prop (JBytes b) name = JUndef"
  by (simp add: get_prop_def)

lemma keys_within_object:
  "is_object v \<Longrightarrow> keys_within v allowed \<longleftrightarrow> reject_unknown_fields v allowed = Inr ()"
  by (cases v) (auto simp: keys_within_def own_keys_def reject_unknown_fields_def object_keys_def is_object_def res_simps
      list_all_iff)

lemma own_keys_cases: "own_keys v \<noteq> None \<longleftrightarrow> is_object v \<or> (\<exists>b. v = JBytes b)"
  by (cases v) (simp_all add: own_keys_def is_object_def)

lemma source_agrees:
  "own_keys source \<noteq> None \<and> keys_within source [''kind'', ''identity'', ''keyId'']
   \<and> get_prop source ''kind'' \<in> set (map (\<lambda>kind. JStr (js kind)) [''semantic'', ''outbox'', ''cdc'', ''webhook'', ''batch''])
   \<and> iv_check_text X (get_prop source ''identity'') 1 256 c1 = Inr ()
   \<and> if_present (get_prop source ''keyId'') (\<lambda>v. iv_check_text X v 1 256 c2) = Inr ()
   \<longleftrightarrow> validate_source X source = Inr ()"
proof (cases "is_object source")
  case True
  have "get_prop source ''kind'' \<in> set (map (\<lambda>kind. JStr (js kind)) [''semantic'', ''outbox'', ''cdc'', ''webhook'', ''batch''])
      \<longleftrightarrow> source_kind_ok (get_prop source ''kind'')"
    by (cases "get_prop source ''kind''") (auto simp: source_kind_ok_def SOURCE_KINDS_def simp del: js_Cons)
  moreover have "own_keys source \<noteq> None" using True unfolding own_keys_cases ..
  ultimately show ?thesis using True
    by (auto simp: validate_source_def SOURCE_FIELDS_def keys_within_object iv_check_text_agrees res_simps
        if_present_def when_present_def simp del: set_map list.set)
next
  case False
  then have "get_prop source ''kind'' = JUndef" by (cases source) (simp_all add: get_prop_def is_object_def)
  then show ?thesis using False by (auto simp: validate_source_def res_simps)
qed

lemma validateEvent_agrees:
  assumes "within L depth event"
  shows "validateEvent X event = Inr () \<longleftrightarrow> validate_event X event = Inr ()"
proof (cases "is_object event")
  case True
  have version: "iv_integer (get_prop event ''schemaVersion'') 1 (int max_safe_integer) c = Inr ()
      \<longleftrightarrow> positive_safe_integer (get_prop event ''schemaVersion'')" for c
    using within_get_prop [OF assms, of "''schemaVersion''"]
    by (cases "get_prop event ''schemaVersion''"; simp add: iv_integer_def positive_safe_integer_def res_simps; linarith)
  have hash: "if_present v (\<lambda>v. requireThat (iv_hash_text v) c d) = Inr () \<longleftrightarrow> when_present validate_hash v = Inr ()" for v c d
    by (simp add: if_present_def when_present_def validate_hash_def iv_hash_text_def hash_text_def res_simps)
  have data: "if_present v (validateData X 0) = Inr () \<longleftrightarrow> when_present (validate_data X 0) v = Inr ()" for v
    by (simp add: if_present_def when_present_def validateData_agrees)
  have refs: "if_present v (\<lambda>v. iv_check_text X v 1 512 c) = Inr () \<longleftrightarrow> when_present (validate_text X 1 512) v = Inr ()" for v c
    by (simp add: if_present_def when_present_def iv_check_text_agrees)
  show ?thesis
    unfolding validateEvent_def validate_event_def Let_def checks_Inr_iff
    using True
    by (simp add: source_agrees [symmetric, of X _ "''EVENT_SOURCE_IDENTITY''" "''EVENT_SOURCE_KEY''"] requireThat_Inr_iff
        keys_within_object EVENT_FIELDS_def version hash data refs [unfolded One_nat_def] iv_check_text_agrees iv_timestamp_agrees
        invariant_Inr_iff checks_Inr_iff andThen_Inr_iff)
next
  case False
  then have "get_prop event ''version'' = JUndef" by (cases event) (simp_all add: get_prop_def is_object_def)
  then show ?thesis using False
    by (simp add: validateEvent_def validate_event_def Let_def res_simps)
qed

text \<open>The part of the routing policy that both verifiers check.\<close>

definition policy_valid :: "jsval \<Rightarrow> bool" where
  "policy_valid policy \<longleftrightarrow> get_prop policy ''id'' = JStr ROUTING_POLICY_ID \<and> get_prop policy ''version'' = JInt 1
     \<and> int_in 1 65536 (get_prop policy ''shardCount'')"

lemma iv_route_agrees:
  "iv_route X l s policy = Inr shard \<longleftrightarrow> policy_valid policy \<and> (\<exists>ledger subject. l = JStr ledger \<and> s = JStr subject
     \<and> shard = shard_name (of_be (take 8 (route_digest X ledger subject)) mod policy_shard_count policy))"
proof -
  have "policy_valid policy \<Longrightarrow> policy \<noteq> JNull \<and> policy \<noteq> JUndef" by (auto simp: policy_valid_def get_prop_def)
  then have "iv_route X l s policy = Inr shard \<longleftrightarrow> policy_valid policy \<and> is_text l \<and> is_text s
      \<and> shard = shard_name (of_be (take 8 (route_digest X (case l of JStr s \<Rightarrow> s | _ \<Rightarrow> []) (case s of JStr s \<Rightarrow> s | _ \<Rightarrow> [])))
        mod policy_shard_count policy)"
    unfolding iv_route_def iv_domainHash_agrees route_digest_def policy_shard_count_def shard_name_def Let_def policy_valid_def int_in_def
      ROUTING_POLICY_ID_def
    by (simp only: res_simps checks.simps if_distribR) (auto simp only: res_simps sum.inject split: if_splits)
  then show ?thesis by (cases l; cases s) (simp_all add: is_text_def)
qed

lemma route_event_agrees:
  assumes "policy_valid policy"
  shows "route_event X event policy = Inr r \<longleftrightarrow> iv_route X (get_prop event ''ledgerId'') (get_prop event ''subject'') policy = Inr (shardId r)
     \<and> r = \<lparr>index = of_be (take 8 (route_digest X (text_prop event ''ledgerId'') (text_prop event ''subject''))) mod policy_shard_count policy,
          shardId = shardId r\<rparr>"
proof -
  have "positive_safe_integer (get_prop policy ''shardCount'')"
    using assms by (auto simp: policy_valid_def int_in_def positive_safe_integer_def split: jsval.splits)
  then show ?thesis
    using assms unfolding iv_route_agrees route_event_def Let_def
    by (cases r; cases "get_prop event ''ledgerId''"; cases "get_prop event ''subject''")
      (auto simp: res_simps is_text_def text_prop_def policy_valid_def)
qed

section \<open>Records\<close>

lemma decode_canonical_within: "decode_canonical DEFAULT_LIMITS bs = Inr v \<Longrightarrow> within DEFAULT_LIMITS 0 v"
  by (auto simp: decode_canonical_def res_simps bounded_def dest!: decode_value_within)

definition record_accepted :: "platform \<Rightarrow> jsval \<Rightarrow> byte list \<Rightarrow> bool" where
  "record_accepted X header bytes \<longleftrightarrow> (\<exists>event. iv_decode bytes = Inr event \<and> validateEvent X event = Inr ()
     \<and> get_prop event ''ledgerId'' = get_prop header ''ledgerId''
     \<and> (\<exists>shard. iv_route X (get_prop event ''ledgerId'') (get_prop event ''subject'') (get_prop header ''routingPolicy'') = Inr shard
          \<and> JStr shard = get_prop header ''shardId''))"

lemma check_event_agrees:
  assumes "policy_valid (get_prop header ''routingPolicy'')" and "bounded bytes"
  shows "record_accepted X header bytes \<longleftrightarrow> (\<exists>e. check_event X header bytes = Inr e)"
proof -
  have "decode_event X bytes = Inr event \<longleftrightarrow> iv_decode bytes = Inr event \<and> validateEvent X event = Inr ()" for event
    using iv_decode_Inr [OF assms(2), of event] decode_canonical_within [of bytes event] validateEvent_agrees [of _ _ event X]
    by (auto simp: decode_event_def res_simps)
  note decode = this
  show ?thesis
  proof
    assume "record_accepted X header bytes"
    then obtain event shard where e: "decode_event X bytes = Inr event"
      "get_prop event ''ledgerId'' = get_prop header ''ledgerId''" "JStr shard = get_prop header ''shardId''"
      and r: "iv_route X (get_prop event ''ledgerId'') (get_prop event ''subject'') (get_prop header ''routingPolicy'') = Inr shard"
      unfolding record_accepted_def decode by blast
    obtain r where "route_event X event (get_prop header ''routingPolicy'') = Inr r" "shardId r = shard"
      unfolding route_event_agrees [OF assms(1)] using r that [of "\<lparr>index = _, shardId = shard\<rparr>"] by simp
    then have "check_event X header bytes = Inr (event, event_hash X bytes)" using e by (simp add: check_event_def)
    then show "\<exists>e. check_event X header bytes = Inr e" ..
  next
    assume "\<exists>e. check_event X header bytes = Inr e"
    then obtain event r where "decode_event X bytes = Inr event"
      "get_prop event ''ledgerId'' = get_prop header ''ledgerId''" "JStr (shardId r) = get_prop header ''shardId''"
      and r: "route_event X event (get_prop header ''routingPolicy'') = Inr r"
      by (auto simp: check_event_def res_simps)
    moreover from r have "iv_route X (get_prop event ''ledgerId'') (get_prop event ''subject'') (get_prop header ''routingPolicy'')
        = Inr (shardId r)" unfolding route_event_agrees [OF assms(1)] by (rule conjunct1)
    ultimately show "record_accepted X header bytes" unfolding record_accepted_def decode by blast
  qed
qed

lemma check_event_hash: "check_event X header bytes = Inr e \<Longrightarrow> snd e = domain_digest X ''event-record-v1'' [bytes]"
  by (auto simp: check_event_def res_simps event_hash_def)

lemma mapR_some: "(\<exists>ys. mapR f xs = Inr ys) \<longleftrightarrow> (\<forall>x \<in> set xs. \<exists>y. f x = Inr y)"
  by (meson mapR_Inr_all mapR_total)

lemma check_events_agree:
  assumes "policy_valid (get_prop header ''routingPolicy'')" and "\<forall>r \<in> set records. bounded r"
  shows "(\<exists>cs. mapR (check_event X header) records = Inr cs \<and> hashes = map snd cs)
    \<longleftrightarrow> (\<forall>r \<in> set records. record_accepted X header r) \<and> hashes = map (\<lambda>r. domain_digest X ''event-record-v1'' [r]) records"
proof -
  have "map snd cs = map (\<lambda>r. domain_digest X ''event-record-v1'' [r]) records" if "mapR (check_event X header) records = Inr cs" for cs
    using that unfolding mapR_Inr_list_all2
    by (induction rule: list_all2_induct) (simp_all add: check_event_hash)
  then show ?thesis
    using check_event_agrees [OF assms(1)] assms(2) mapR_some [of "check_event X header" records] by auto
qed

lemma iv_records_agrees:
  "iv_records X hdr bytes = Inr hashes \<longleftrightarrow> (\<exists>records. read_records_loop iv_MAX_RECORD bytes = Inr records
     \<and> (\<forall>r \<in> set records. record_accepted X hdr r) \<and> hashes = map (\<lambda>r. domain_digest X ''event-record-v1'' [r]) records)"
proof (induction X hdr bytes arbitrary: hashes rule: iv_records.induct)
  case (1 X hdr bytes)
  let ?n = "of_be (take 4 bytes)" and ?r = "drop 4 bytes"
  show ?case
  proof (cases "bytes = [] \<or> \<not> (4 \<le> length bytes \<and> ?n \<le> iv_MAX_RECORD \<and> ?n \<le> length ?r \<and> record_accepted X hdr (take ?n ?r))")
    case True
    then show ?thesis
      by (subst iv_records.simps, subst read_records_loop.simps)
        (auto simp: res_simps Let_def record_accepted_def split: if_splits)
  next
    case False
    then have ok: "bytes \<noteq> []" "4 \<le> length bytes" "?n \<le> iv_MAX_RECORD" "?n \<le> length ?r" by auto
    from False obtain event shard where e: "iv_decode (take ?n ?r) = Inr event" "validateEvent X event = Inr ()"
      "get_prop event ''ledgerId'' = get_prop hdr ''ledgerId''"
      "iv_route X (get_prop event ''ledgerId'') (get_prop event ''subject'') (get_prop hdr ''routingPolicy'') = Inr shard"
      "JStr shard = get_prop hdr ''shardId''" by (auto simp: record_accepted_def)
    have IH: "iv_records X hdr (drop ?n ?r) = Inr h \<longleftrightarrow> (\<exists>records. read_records_loop iv_MAX_RECORD (drop ?n ?r) = Inr records
        \<and> (\<forall>r \<in> set records. record_accepted X hdr r) \<and> h = map (\<lambda>r. domain_digest X ''event-record-v1'' [r]) records)" for h
      by (rule 1 [OF ok(1) _ refl refl refl _ e(1,2)]) (use ok e in \<open>simp_all add: res_simps\<close>)
    have "iv_records X hdr bytes = bindR (iv_records X hdr (drop ?n ?r)) (\<lambda>hashes.
        Inr (domain_digest X ''event-record-v1'' [take ?n ?r] # hashes))"
      using ok e by (subst iv_records.simps) (simp add: requireThat_def Let_def)
    moreover have "read_records_loop iv_MAX_RECORD bytes = bindR (read_records_loop iv_MAX_RECORD (drop ?n ?r)) (\<lambda>records.
        Inr (take ?n ?r # records))"
      using ok by (subst read_records_loop.simps) (simp add: Let_def)
    ultimately show ?thesis using False by (auto simp: res_simps IH [unfolded drop_drop])
  qed
qed

section \<open>Blocks\<close>

text \<open>The fields of a block and of its commitment as both verifiers require them.\<close>

definition block_facts :: "platform \<Rightarrow> string \<Rightarrow> nat \<Rightarrow> int \<Rightarrow> jsval \<Rightarrow> byte list \<Rightarrow> jsval \<Rightarrow> bool" where
  "block_facts X domain i firstRecord block payload commitment \<longleftrightarrow>
     is_object block \<and> exact_keys block [''blockIndex'', ''firstRecordIndex'', ''recordCount'', ''uncompressedLength'',
        ''compression'', ''recordsHash'', ''data'']
     \<and> is_object commitment \<and> exact_keys commitment [''blockIndex'', ''firstRecordIndex'', ''recordCount'', ''payloadHash'']
     \<and> get_prop block ''blockIndex'' = JInt (int i) \<and> get_prop commitment ''blockIndex'' = JInt (int i) \<and> i \<le> 65535
     \<and> get_prop block ''firstRecordIndex'' = JInt firstRecord \<and> get_prop commitment ''firstRecordIndex'' = JInt firstRecord
     \<and> 0 \<le> firstRecord \<and> firstRecord \<le> 10000000
     \<and> int_in 1 10000000 (get_prop block ''recordCount'') \<and> get_prop block ''recordCount'' = get_prop commitment ''recordCount''
     \<and> int_in 1 67108864 (get_prop block ''uncompressedLength'') \<and> get_prop block ''compression'' = JStr (js ''zstd'')
     \<and> is_bytes 32 (get_prop block ''recordsHash'') \<and> non_empty_bytes (get_prop block ''data'')
     \<and> is_bytes 32 (get_prop commitment ''payloadHash'')
     \<and> get_prop commitment ''payloadHash'' = JBytes (domain_digest X domain [payload])"

lemma exact_agrees: "exact v names code = Inr u \<longleftrightarrow> is_object v \<and> exact_keys v names"
  by (simp add: exact_def exact_keys_def res_simps)

lemma iv_integer_agrees': "iv_integer v lo hi code = Inr u \<longleftrightarrow> int_in lo hi v"
  by (simp add: iv_integer_def int_in_def res_simps)

lemma iv_bytes32_agrees: "iv_bytes32 v = is_bytes 32 v"
  by (simp add: iv_bytes32_def is_bytes_def)

lemma bytesEqual_agrees: "bytesEqual v b code = Inr u \<longleftrightarrow> v = JBytes b"
  by (cases v) (auto simp: bytesEqual_def res_simps)

lemma buffers_equal_agrees: "buffers_equal v b code = Inr u \<longleftrightarrow> v = JBytes b"
  by (cases v) (auto simp: buffers_equal_def res_simps)

lemma int_in_JInt [simp]: "int_in lo hi (JInt i) \<longleftrightarrow> lo \<le> i \<and> i \<le> hi"
  by (simp add: int_in_def)

lemma iv_block_Inr:
  "iv_block X p header i firstRecord block payload commitment = Inr hashes \<longleftrightarrow>
     block_facts X (ip_bd p) i firstRecord block payload commitment
     \<and> (\<exists>out. zstd_decompress X (iv_octets (get_prop block ''data'')) iv_MAX_BLOCK_OUTPUT = Some out
          \<and> int (length out) = iv_number (get_prop block ''uncompressedLength'')
          \<and> get_prop block ''recordsHash'' = JBytes (domain_digest X ''record-block-v1'' [out])
          \<and> iv_records X header out = Inr hashes
          \<and> int (length hashes) = iv_number (get_prop block ''recordCount''))"
proof -
  have data: "(case v of JBytes b \<Rightarrow> 0 < length b | _ \<Rightarrow> False) = non_empty_bytes v" for v
    by (simp add: non_empty_bytes_def)
  have declared: "(case v of JInt n \<Rightarrow> 0 < n \<and> n \<le> int iv_MAX_BLOCK_OUTPUT | _ \<Rightarrow> False) = int_in 1 67108864 v" for v
    by (auto simp: int_in_def iv_MAX_BLOCK_OUTPUT_def split: jsval.split)
  have fields: "checks
       [exact block [''blockIndex'', ''firstRecordIndex'', ''recordCount'', ''uncompressedLength'', ''compression'',
          ''recordsHash'', ''data''] c1,
        exact commitment [''blockIndex'', ''firstRecordIndex'', ''recordCount'', ''payloadHash''] c2,
        iv_integer (get_prop block ''blockIndex'') 0 65535 c3,
        iv_integer (get_prop block ''firstRecordIndex'') 0 10000000 c4,
        iv_integer (get_prop block ''recordCount'') 1 10000000 c5,
        requireThat (iv_bytes32 (get_prop block ''recordsHash'') \<and> non_empty_bytes (get_prop block ''data'')) k c6,
        requireThat (iv_bytes32 (get_prop commitment ''payloadHash'')) k c7,
        requireThat (get_prop block ''blockIndex'' = JInt (int i) \<and> get_prop commitment ''blockIndex'' = JInt (int i)
          \<and> get_prop block ''firstRecordIndex'' = JInt firstRecord
          \<and> get_prop commitment ''firstRecordIndex'' = JInt firstRecord
          \<and> get_prop block ''recordCount'' = get_prop commitment ''recordCount'') k c8,
        bytesEqual (get_prop commitment ''payloadHash'') (domain_digest X (ip_bd p) [payload]) c9,
        requireThat (get_prop block ''compression'' = JStr (js ''zstd'')
          \<and> int_in 1 67108864 (get_prop block ''uncompressedLength'')) k' c10] = Inr ()
      \<longleftrightarrow> block_facts X (ip_bd p) i firstRecord block payload commitment" for c1 c2 c3 c4 c5 c6 c7 c8 c9 c10 k k'
    unfolding checks_Inr_iff block_facts_def
    by (auto simp: exact_agrees iv_integer_agrees' iv_bytes32_agrees bytesEqual_agrees requireThat_Inr_iff)
  show ?thesis
    unfolding iv_block_def iv_domainHash_agrees data declared andThen_Inr_iff fields
    by (cases "zstd_decompress X (iv_octets (get_prop block ''data'')) iv_MAX_BLOCK_OUTPUT")
      (auto simp: res_simps bytesEqual_agrees)
qed

lemma production_block:
  assumes "blockHashDomain profile = domain"
  shows "validate_block VERIFY_LIMITS block = Inr () \<and> validate_commitment VERIFY_LIMITS (i, commitment) = Inr ()
      \<and> i \<le> 65535 \<and> check_commitments X profile i firstRecord ((block, payload, commitment) # rest) = Inr tally
    \<longleftrightarrow> block_facts X domain i firstRecord block payload commitment
      \<and> check_commitments X profile (Suc i) (firstRecord + int_of (get_prop block ''recordCount'')) rest = Inr tally"
proof -
  have L: "maxBlocks VERIFY_LIMITS = 65536" "maxRecords VERIFY_LIMITS = 10000000" "maxBlockOutputBytes VERIFY_LIMITS = 67108864"
    by (simp_all add: VERIFY_LIMITS_def)
  show ?thesis
    unfolding validate_block_def validate_commitment_def check_commitments.simps andThen_Inr_iff checks_Inr_iff block_facts_def L assms
    by (auto simp: plain_object_def exact_fields_def safe_integer_def bytes_of_length_def is_js_def invariant_Inr_iff
        buffers_equal_agrees checks_Inr_iff andThen_Inr_iff simp del: js_Cons)
qed

lemma check_block_agrees:
  assumes "policy_valid (get_prop header ''routingPolicy'')" and "block_facts X domain i firstRecord block payload commitment"
  shows "(\<exists>out. zstd_decompress X (iv_octets (get_prop block ''data'')) iv_MAX_BLOCK_OUTPUT = Some out
          \<and> int (length out) = iv_number (get_prop block ''uncompressedLength'')
          \<and> get_prop block ''recordsHash'' = JBytes (domain_digest X ''record-block-v1'' [out])
          \<and> iv_records X header out = Inr hashes
          \<and> int (length hashes) = iv_number (get_prop block ''recordCount''))
    \<longleftrightarrow> (\<exists>cs. check_block X VERIFY_LIMITS header block = Inr cs \<and> hashes = map snd cs)"
proof -
  obtain n m d where n: "get_prop block ''recordCount'' = JInt n" "1 \<le> n" and m: "get_prop block ''uncompressedLength'' = JInt m"
    "1 \<le> m" "m \<le> 67108864" and d: "get_prop block ''data'' = JBytes d"
    using assms(2) by (auto simp: block_facts_def int_in_def non_empty_bytes_def split: jsval.splits)
  have L: "maxRecordBytes VERIFY_LIMITS = iv_MAX_RECORD" "maxBlockOutputBytes VERIFY_LIMITS = iv_MAX_BLOCK_OUTPUT"
    by (simp_all add: VERIFY_LIMITS_def iv_MAX_RECORD_def iv_MAX_BLOCK_OUTPUT_def)
  have short: "\<forall>r \<in> set records. bounded r" if "read_records_loop iv_MAX_RECORD out = Inr records" for out records
    using read_records_loop_sound [OF that] by (auto simp: list_all_iff iv_MAX_RECORD_def bounded_def DEFAULT_LIMITS_def)
  have out: "decompress_block X d (nat m) iv_MAX_BLOCK_OUTPUT = Inr out \<longleftrightarrow>
      zstd_decompress X d iv_MAX_BLOCK_OUTPUT = Some out \<and> int (length out) = m" for out
    using m by (auto simp: decompress_block_Inr iv_MAX_BLOCK_OUTPUT_def max_safe_integer_def)
  have "(\<exists>records cs. read_framed_records iv_MAX_RECORD out (nat n) = Inr records \<and> mapR (check_event X header) records = Inr cs
        \<and> hashes = map snd cs) \<longleftrightarrow> iv_records X header out = Inr hashes \<and> int (length hashes) = n" for out
  proof (cases "read_records_loop iv_MAX_RECORD out")
    case (Inr records)
    have "int (length hashes) = n \<longleftrightarrow> length records = nat n"
      if "hashes = map (\<lambda>r. domain_digest X ''event-record-v1'' [r]) records" using n that by auto
    then show ?thesis
      using check_events_agree [OF assms(1) short [OF Inr], of X hashes]
      using n(2) by (auto simp: iv_records_agrees read_framed_records_def Inr res_simps dest: mapR_Inr_length)
  qed (simp add: iv_records_agrees read_framed_records_def)
  then show ?thesis
    unfolding check_block_def L by (simp add: n m d iv_octets_def iv_number_def bytes_of_def int_of_def res_simps out buffers_equal_agrees) blast
qed

lemma iv_block_agrees:
  assumes "policy_valid (get_prop header ''routingPolicy'')"
  shows "iv_block X p header i firstRecord block payload commitment = Inr hashes \<longleftrightarrow>
    block_facts X (ip_bd p) i firstRecord block payload commitment
    \<and> (\<exists>cs. check_block X VERIFY_LIMITS header block = Inr cs \<and> hashes = map snd cs)"
  unfolding iv_block_Inr by (rule conj_cong [OF refl]) (rule check_block_agrees [OF assms])

lemma iv_blocks_agrees:
  assumes "policy_valid (get_prop header ''routingPolicy'')" and "blockHashDomain profile = ip_bd p"
    and "length payloads = length blocks" and "i + length blocks = length cs" and "length cs \<le> 65536"
  shows "iv_blocks X p header (JArr cs) i firstRecord acc (zip blocks payloads) = Inr (tally, hashes) \<longleftrightarrow>
    (\<forall>block \<in> set blocks. validate_block VERIFY_LIMITS block = Inr ())
    \<and> (\<forall>ic \<in> set (enumerate i (drop i cs)). validate_commitment VERIFY_LIMITS ic = Inr ())
    \<and> check_commitments X profile i firstRecord (zip blocks (zip payloads (drop i cs))) = Inr tally
    \<and> (\<exists>checked. mapR (check_block X VERIFY_LIMITS header) blocks = Inr checked \<and> hashes = acc @ map snd (concat checked))"
  using assms(3,4)
proof (induction blocks arbitrary: i firstRecord acc payloads hashes)
  case Nil
  then show ?case by auto
next
  case (Cons block blocks)
  then obtain payload payloads' where payloads: "payloads = payload # payloads'" by (cases payloads) auto
  have i: "i < length cs" "i \<le> 65535" using Cons(3) assms(5) by auto
  then have ith: "drop i cs = cs ! i # drop (Suc i) cs" "js_item (JArr cs) i = cs ! i"
    by (simp_all add: Cons_nth_drop_Suc js_item_def)
  let ?next = "firstRecord + iv_number (get_prop block ''recordCount'')"
  have number: "iv_number = int_of" by (rule ext) (simp add: iv_number_def int_of_def)
  have "iv_blocks X p header (JArr cs) i firstRecord acc (zip (block # blocks) payloads) = Inr (tally, hashes) \<longleftrightarrow>
      (\<exists>h. iv_block X p header i firstRecord block payload (cs ! i) = Inr h
        \<and> iv_blocks X p header (JArr cs) (Suc i) ?next (acc @ h) (zip blocks payloads') = Inr (tally, hashes))"
    by (simp add: payloads ith res_simps)
  also have "\<dots> \<longleftrightarrow> block_facts X (ip_bd p) i firstRecord block payload (cs ! i)
      \<and> (\<exists>h. (\<exists>cs. check_block X VERIFY_LIMITS header block = Inr cs \<and> h = map snd cs)
        \<and> iv_blocks X p header (JArr cs) (Suc i) ?next (acc @ h) (zip blocks payloads') = Inr (tally, hashes))"
    unfolding iv_block_agrees [OF assms(1)] by blast
  also have "\<dots> \<longleftrightarrow> block_facts X (ip_bd p) i firstRecord block payload (cs ! i)
      \<and> (\<exists>h. (\<exists>cs. check_block X VERIFY_LIMITS header block = Inr cs \<and> h = map snd cs)
        \<and> (\<forall>block \<in> set blocks. validate_block VERIFY_LIMITS block = Inr ())
        \<and> (\<forall>ic \<in> set (enumerate (Suc i) (drop (Suc i) cs)). validate_commitment VERIFY_LIMITS ic = Inr ())
        \<and> check_commitments X profile (Suc i) ?next (zip blocks (zip payloads' (drop (Suc i) cs))) = Inr tally
        \<and> (\<exists>checked. mapR (check_block X VERIFY_LIMITS header) blocks = Inr checked
             \<and> hashes = (acc @ h) @ map snd (concat checked)))"
    using Cons(2,3) by (subst Cons(1)) (simp_all add: payloads)
  also have "\<dots> \<longleftrightarrow> (block_facts X (ip_bd p) i firstRecord block payload (cs ! i)
        \<and> check_commitments X profile (Suc i) (firstRecord + int_of (get_prop block ''recordCount''))
            (zip blocks (zip payloads' (drop (Suc i) cs))) = Inr tally)
      \<and> (\<forall>block \<in> set blocks. validate_block VERIFY_LIMITS block = Inr ())
      \<and> (\<forall>ic \<in> set (enumerate (Suc i) (drop (Suc i) cs)). validate_commitment VERIFY_LIMITS ic = Inr ())
      \<and> (\<exists>checked. mapR (check_block X VERIFY_LIMITS header) (block # blocks) = Inr checked
           \<and> hashes = acc @ map snd (concat checked))"
    by (auto simp: res_simps number)
  also have "\<dots> \<longleftrightarrow> (\<forall>b \<in> set (block # blocks). validate_block VERIFY_LIMITS b = Inr ())
    \<and> (\<forall>ic \<in> set (enumerate i (drop i cs)). validate_commitment VERIFY_LIMITS ic = Inr ())
    \<and> check_commitments X profile i firstRecord (zip (block # blocks) (zip payloads (drop i cs))) = Inr tally
    \<and> (\<exists>checked. mapR (check_block X VERIFY_LIMITS header) (block # blocks) = Inr checked
         \<and> hashes = acc @ map snd (concat checked))"
    using i(2) unfolding production_block [OF assms(2), symmetric] ith(1) payloads
    by (simp only: enumerate_simps list.set ball_simps zip_Cons_Cons) blast
  finally show ?case .
qed

section \<open>Headers, manifests and signatures\<close>

lemma canonical_timestamp_text:
  assumes "is_canonical_timestamp s"
  shows "plain_ascii s" and "1 \<le> length s" and "length s \<le> 64" and "0 \<notin> set s"
proof -
  obtain y t where split: "split_year s = Some (y, t)" and t: "tail_form t"
    using assms by (auto simp: is_canonical_timestamp_def canonical_time_def split: option.splits if_splits prod.splits)
  have digits: "plain_ascii ds \<and> 0 \<notin> set ds" if "list_all is_digit ds" for ds
    using that by (auto simp: plain_ascii_def list_all_iff is_digit_ascii is_digit_def)
  have tail: "plain_ascii t \<and> 0 \<notin> set t \<and> length t = 20"
  proof -
    have "t ! i \<noteq> 0" if "i < 20" for i
    proof -
      from that have "i \<in> {0,3,6,9,12,15,19} \<or> i \<in> set [1, 2, 4, 5, 7, 8, 10, 11, 13, 14, 16, 17, 18]"
        by simp presburger
      then show ?thesis
      proof
        assume "i \<in> set [1, 2, 4, 5, 7, 8, 10, 11, 13, 14, 16, 17, 18]"
        then have "is_digit (t ! i)" using t by (auto simp: tail_form_def list_all_iff simp del: list.set)
        then show ?thesis by (auto simp: is_digit_def)
      qed (use t in \<open>auto simp: tail_form_def\<close>)
    qed
    then show ?thesis using t tail_form_ascii [OF t] by (auto simp: in_set_conv_nth tail_form_def)
  qed
  from split consider u us where "s = u # us" "u = of_nat 43 \<or> u = of_nat 45" "list_all is_digit (take 6 us)" "t = drop 6 us"
    | "list_all is_digit (take 4 s)" "t = drop 4 s"
    by (auto simp: split_year_def Let_def split: list.splits if_splits)
  then have "plain_ascii s \<and> 1 \<le> length s \<and> length s \<le> 64 \<and> 0 \<notin> set s"
  proof cases
    case 1
    have "us = take 6 us @ t" using 1(4) by simp
    then have "plain_ascii us" "0 \<notin> set us" using digits [OF 1(3)] tail by (metis plain_ascii_append, metis Un_iff set_append)
    with 1 tail show ?thesis by (auto simp: plain_ascii_def)
  next
    case 2
    have "s = take 4 s @ t" using 2(2) by simp
    then have "plain_ascii s" "0 \<notin> set s" using digits [OF 2(1)] tail by (metis plain_ascii_append, metis Un_iff set_append)
    then show ?thesis using 2 tail by auto
  qed
  then show "plain_ascii s" and "1 \<le> length s" and "length s \<le> 64" and "0 \<notin> set s" by simp_all
qed

lemma timestamp_agrees: "nfc_ascii X \<Longrightarrow> iv_timestamp X v code = Inr u \<longleftrightarrow> verify_timestamp v = Inr ()"
  using canonical_timestamp_text
  by (cases v) (auto simp: iv_timestamp_agrees validate_timestamp_def verify_timestamp_def timestamp_text_def validate_text_def
      res_simps nfc_ascii_def)

lemma validateCompression_agrees: "validateCompression profile = Inr () \<longleftrightarrow> verify_compression_profile profile = Inr ()"
  by (auto simp: validateCompression_def verify_compression_profile_def ZSTD_PROFILE_def exact_agrees plain_object_def
      exact_fields_def res_simps simp del: js_Cons)

lemma policy_agrees:
  "verify_routing_policy policy = Inr () \<longleftrightarrow> policy_valid policy \<and> exact_keys policy [''id'', ''version'', ''shardCount'']"
proof -
  have "policy_valid policy \<Longrightarrow> is_object policy" by (cases policy) (simp_all add: policy_valid_def get_prop_def is_object_def)
  then show ?thesis
    by (auto simp: verify_routing_policy_def plain_object_def exact_fields_def safe_integer_def policy_valid_def res_simps)
qed

lemma header_agrees:
  assumes "nfc_ascii X"
  shows "validate_header header version = Inr () \<longleftrightarrow>
    exact header (HEADER_FIELDS @ (if version = 2 then [''routingEpochNumber'', ''routingEpochHash''] else [])) c = Inr ()
    \<and> get_prop header ''kind'' = JStr (js ''g9p-segment'') \<and> get_prop header ''formatVersion'' = JInt (int version)
    \<and> iv_check_header X version header = Inr () \<and> non_empty_string (get_prop header ''ledgerId'')
    \<and> shard_id_text (get_prop header ''shardId'')
    \<and> exact_keys (get_prop header ''routingPolicy'') [''id'', ''version'', ''shardCount'']"
proof -
  have ledger: "non_empty_string v \<Longrightarrow> is_text v" for v by (cases v) (simp_all add: non_empty_string_def is_text_def)
  have shard: "shard_id_text v \<Longrightarrow> test_shard v = Inr True" for v
    by (cases v) (simp_all add: shard_id_text_def test_shard_def)
  have route: "(\<exists>shard. iv_route X l (JStr (js ''profile-check'')) policy = Inr shard) \<longleftrightarrow> policy_valid policy \<and> is_text l" for l policy
    by (cases l) (simp_all add: iv_route_agrees is_text_def)
  show ?thesis
    unfolding validate_header_def iv_check_header_def checks_Inr_iff
    by (cases "version = 2")
      (auto simp: res_simps plain_object_def exact_fields_def exact_agrees is_js_def safe_integer_def iv_integer_agrees'
        timestamp_agrees [OF assms] bytes_of_length_def iv_bytes32_agrees validateCompression_agrees policy_agrees route
        MAX_SAFE_def ledger shard simp del: js_Cons split: if_splits)
qed

lemma manifest_agrees:
  "(validate_manifest VERIFY_LIMITS version manifest = Inr () \<and> get_prop manifest ''blockCount'' = JInt (int n)
      \<and> get_prop manifest ''headerHash'' = JBytes digest \<and> length digest = 32)
   \<longleftrightarrow> (exact manifest [''kind'', ''manifestVersion'', ''headerHash'', ''recordCount'', ''blockCount'', ''recordMerkleRoot'',
          ''blocks'', ''signer''] c = Inr ()
      \<and> get_prop manifest ''kind'' = JStr (js ''g9p-segment-manifest'') \<and> get_prop manifest ''manifestVersion'' = JInt (int version)
      \<and> get_prop manifest ''headerHash'' = JBytes digest \<and> length digest = 32
      \<and> iv_check_manifest manifest n = Inr () \<and> is_array (get_prop manifest ''blocks'')
      \<and> (\<forall>ic \<in> set (enumerate 0 (array_items (get_prop manifest ''blocks''))). validate_commitment VERIFY_LIMITS ic = Inr ())
      \<and> exact (get_prop manifest ''signer'') [''algorithm'', ''keyId'', ''publicKey''] c' = Inr ()
      \<and> get_prop (get_prop manifest ''signer'') ''algorithm'' = JStr (js ''ed25519'')
      \<and> hash_text (get_prop (get_prop manifest ''signer'') ''keyId'')
      \<and> is_any_bytes (get_prop (get_prop manifest ''signer'') ''publicKey''))"
proof -
  have L: "maxBlocks VERIFY_LIMITS = 65536" "maxRecords VERIFY_LIMITS = 10000000" by (simp_all add: VERIFY_LIMITS_def)
  have array: "is_array v \<Longrightarrow> js_length v = Inr (JInt (int (length (array_items v))))" for v
    by (cases v) (simp_all add: is_array_def js_length_def array_items_def)
  have bytes: "v = JBytes d \<Longrightarrow> is_bytes 32 v \<longleftrightarrow> length d = 32" for v d by (simp add: is_bytes_def)
  show ?thesis
    unfolding validate_manifest_def iv_check_manifest_def checks_Inr_iff L
    by (auto simp: res_simps plain_object_def exact_fields_def exact_agrees is_js_def safe_integer_def iv_integer_agrees'
        bytes_of_length_def iv_bytes32_agrees array bytes simp del: js_Cons)
qed

lemma signature_agrees:
  assumes "get_prop signer ''algorithm'' = JStr (js ''ed25519'')" and "signer = get_prop manifest ''signer''"
  shows "validate_signature signature manifest = Inr () \<longleftrightarrow>
    exact signature [''algorithm'', ''keyId'', ''signature''] c = Inr () \<and> iv_signature_ok signer signature"
  using assms
  by (auto simp: validate_signature_def iv_signature_ok_def is_bytes_def exact_agrees plain_object_def exact_fields_def res_simps
      split: jsval.splits simp del: js_Cons)

lemma octets: "iv_octets = bytes_of"
  by (rule ext) (simp add: iv_octets_def bytes_of_def)

lemma check_signature_agrees:
  assumes "signer = get_prop manifest ''signer''"
  shows "check_signature X default_options profile payload manifest signature = Inr trusted \<longleftrightarrow>
    verifyEd25519 X (iv_octets (get_prop signer ''publicKey'')) (iv_octets (get_prop signature ''signature''))
      (signatureDomain profile) payload (case get_prop signer ''keyId'' of JStr s \<Rightarrow> s | _ \<Rightarrow> []) = Inr ()
    \<and> \<not> trusted"
  using assms
  by (auto simp: check_signature_def verifyEd25519_def default_options_def Let_def octets text_prop_def public_key_id_def
      verify_domain_commitment_def res_simps)

lemma iv_levels_eq: "iv_levels X level = merkle_levels (merkle_node X) level"
proof (induction X level rule: iv_levels.induct)
  case (1 X level)
  have "iv_next X xs = next_level (merkle_node X) xs" for xs
    by (induction X xs rule: iv_next.induct) (simp_all add: merkle_node_def)
  with 1 show ?case by (subst iv_levels.simps, subst merkle_levels.simps) simp
qed

lemma iv_levels_nonempty: "level \<noteq> [] \<Longrightarrow> iv_levels X level \<noteq> []"
proof (induction X level rule: iv_levels.induct)
  case (1 X level)
  have "iv_next X level \<noteq> []" if "1 < length level"
    using that by (cases "(X, level)" rule: iv_next.cases) auto
  with 1 show ?case by (subst iv_levels.simps) simp
qed

lemma merkle_agrees:
  assumes "\<forall>h \<in> set hashes. length h = 32"
  shows "merkle_root X hashes = Inr (iv_merkle X hashes)"
proof (cases "hashes = []")
  case True
  then show ?thesis by (simp add: merkle_root_def iv_merkle_def) (subst iv_levels.simps, simp)
next
  case False
  then have "iv_levels X (map (\<lambda>h. domain_digest X ''merkle-leaf-v1'' [h]) hashes) \<noteq> []" by (intro iv_levels_nonempty) simp
  then show ?thesis
    using assms False
    by (auto simp: merkle_root_def iv_merkle_def list_all_iff iv_levels_eq merkle_leaf_def [abs_def] neq_Nil_conv split: list.split)
qed

section \<open>Whole segments\<close>

lemma read_frame_bounded: "read_frame iv_MAX_FRAME t bs = Inr (payload, rest) \<Longrightarrow> bounded payload"
  by (auto simp: read_frame_def Let_def res_simps bounded_def DEFAULT_LIMITS_def iv_MAX_FRAME_def)

lemma iv_block_frames_bounded: "iv_block_frames bs = Inr (ps, rest) \<Longrightarrow> \<forall>p \<in> set ps. bounded p"
proof (induction bs arbitrary: ps rest rule: iv_block_frames.induct)
  case (1 bs)
  show ?case
  proof (cases "iv_peek bs = Inr ''BLK1''")
    case True
    with 1(2) obtain q r ps' where q: "iv_frame ''BLK1'' bs = Inr (q, r)" "iv_block_frames r = Inr (ps', rest)" "ps = q # ps'"
      by (subst (asm) iv_block_frames.simps) (auto simp: res_simps)
    then have "\<forall>p \<in> set ps'. bounded p" using 1(1) [OF True refl q(1) refl] by blast
    then show ?thesis using q read_frame_bounded by (auto simp: iv_frame_agrees)
  next
    case False
    with 1(2) show ?thesis by (subst (asm) iv_block_frames.simps) (auto simp: res_simps split: if_splits)
  qed
qed

definition frames_bounded :: "iv_frames \<Rightarrow> bool" where
  "frames_bounded g \<longleftrightarrow> bounded (if_header g) \<and> (\<forall>p \<in> set (if_blocks g). bounded p) \<and> bounded (if_manifest g)
     \<and> bounded (if_signature g)"

lemma iv_segment_frames_bounded: "iv_segment_frames p bytes = Inr g \<Longrightarrow> frames_bounded g"
  by (auto simp: iv_segment_frames_def frames_bounded_def res_simps iv_frame_agrees
      dest: read_frame_bounded iv_block_frames_bounded)

lemma iv_blocks_count:
  "iv_blocks X p header committed i firstRecord acc pairs = Inr (tally, hashes) \<Longrightarrow>
   tally - firstRecord = int (length hashes) - int (length acc)"
proof (induction pairs arbitrary: i firstRecord acc)
  case (Cons pair pairs)
  obtain block payload where pair: "pair = (block, payload)" by (cases pair)
  from Cons(2) obtain h where h: "iv_block X p header i firstRecord block payload (js_item committed i) = Inr h"
    and rest: "iv_blocks X p header committed (i + 1) (firstRecord + iv_number (get_prop block ''recordCount'')) (acc @ h) pairs
      = Inr (tally, hashes)" by (auto simp: pair res_simps)
  from h have "int (length h) = iv_number (get_prop block ''recordCount'')" by (auto simp: iv_block_Inr)
  with Cons(1) [OF rest] show ?case by simp
qed simp

end
