(* ===== verification/G9P_Independent_Agreement.thy ===== *)
theory G9P_Independent_Agreement
  imports G9P_Independent_Segment
begin

text \<open>
  The two verifiers agree on segments. What the library's verifier accepts, the independent one
  accepts with the same report, when the signer's public key is 44 bytes long; what the independent
  one accepts, the library's verifier accepts too, unless the routing policy has further fields or
  the block commitments are not an array.
\<close>

text \<open>What the independent verifier reports on a segment the library verified.\<close>

definition report_of :: "verified_segment \<Rightarrow> segment_report" where
  "report_of v = \<lparr>sg_formatVersion = vs_formatVersion v, sg_ledgerId = JStr (vs_ledgerId v),
     sg_shardId = JStr (vs_shardId v), sg_recordCount = JInt (int (vs_recordCount v)),
     sg_blockCount = JInt (int (vs_blockCount v)), sg_logicalRoot = vs_logicalRoot v, sg_fileHash = vs_segmentHash v,
     sg_signerKeyId = JStr (vs_signerKeyId v)\<rparr>"

definition signer_key :: "jsval \<Rightarrow> byte list" where
  "signer_key manifest = bytes_of (get_prop (get_prop manifest ''signer'') ''publicKey'')"

text \<open>The checks of the library's verifier without a caller's expectations, as one conjunction.\<close>

definition library_accepts ::
  "platform \<Rightarrow> nat \<Rightarrow> iv_frames \<Rightarrow> jsval \<Rightarrow> jsval list \<Rightarrow> jsval \<Rightarrow> jsval \<Rightarrow> (jsval \<times> byte list) list list \<Rightarrow> byte list \<Rightarrow> bool" where
  "library_accepts X version g header blocks manifest signature checked root \<longleftrightarrow>
     (let profile = version_profile version; cs = array_items (get_prop manifest ''blocks'') in
      decode_canonical DEFAULT_LIMITS (if_header g) = Inr header
      \<and> mapR (decode_canonical DEFAULT_LIMITS) (if_blocks g) = Inr blocks
      \<and> decode_canonical DEFAULT_LIMITS (if_manifest g) = Inr manifest
      \<and> decode_canonical DEFAULT_LIMITS (if_signature g) = Inr signature
      \<and> validate_header header (fp_version profile) = Inr ()
      \<and> (\<forall>block \<in> set blocks. validate_block VERIFY_LIMITS block = Inr ())
      \<and> validate_manifest VERIFY_LIMITS (fp_version profile) manifest = Inr ()
      \<and> validate_signature signature manifest = Inr ()
      \<and> get_prop manifest ''blockCount'' = JInt (int (length blocks))
      \<and> get_prop manifest ''headerHash'' = JBytes (domain_digest X (headerHashDomain profile) [if_header g])
      \<and> (\<exists>tally. check_commitments X profile 0 0 (zip blocks (zip (if_blocks g) cs)) = Inr tally
           \<and> get_prop manifest ''recordCount'' = JInt tally)
      \<and> check_signature X default_options profile (if_manifest g) manifest signature = Inr False
      \<and> mapR (check_block X VERIFY_LIMITS header) blocks = Inr checked
      \<and> get_prop manifest ''recordCount'' = JInt (int (length (concat checked)))
      \<and> merkle_root X (map snd (concat checked)) = Inr root
      \<and> get_prop manifest ''recordMerkleRoot'' = JBytes root)"

lemma verify_segment_frames_Inr:
  "verify_segment_frames X default_options (version_profile version) bytes (plain_frames g) = Inr v \<longleftrightarrow>
   (\<exists>header blocks manifest signature checked root. library_accepts X version g header blocks manifest signature checked root
     \<and> v = \<lparr>vs_formatVersion = fp_version (version_profile version), vs_header = header, vs_manifest = manifest,
         vs_logicalRoot = to_hex root, vs_segmentHash = to_hex (segment_hash X (version_profile version) bytes),
         vs_signerKeyId = text_prop (get_prop manifest ''signer'') ''keyId'', vs_signerTrusted = False,
         vs_byteLength = length bytes, vs_events = map fst (concat checked)\<rparr>)"
proof -
  have opts: "vo_limits default_options = VERIFY_LIMITS" "check_expectations default_options p h = Inr ()" for p h
    by (simp_all add: default_options_def check_expectations_def)
  have trusted: "check_signature X default_options p payload m s = Inr t \<Longrightarrow> \<not> t" for p payload m s t
    by (auto simp: check_signature_def default_options_def Let_def res_simps)
  note defs = verify_segment_frames_def plain_frames_def Let_def opts
  show ?thesis
  proof
    assume "verify_segment_frames X default_options (version_profile version) bytes (plain_frames g) = Inr v"
    then show "\<exists>header blocks manifest signature checked root. library_accepts X version g header blocks manifest signature checked root
     \<and> v = \<lparr>vs_formatVersion = fp_version (version_profile version), vs_header = header, vs_manifest = manifest,
         vs_logicalRoot = to_hex root, vs_segmentHash = to_hex (segment_hash X (version_profile version) bytes),
         vs_signerKeyId = text_prop (get_prop manifest ''signer'') ''keyId'', vs_signerTrusted = False,
         vs_byteLength = length bytes, vs_events = map fst (concat checked)\<rparr>"
      unfolding defs library_accepts_def
      apply (clarsimp simp: res_simps buffers_equal_agrees simp del: length_concat length_map)
      apply (frule trusted)
      apply simp
      done
  next
    assume "\<exists>header blocks manifest signature checked root. library_accepts X version g header blocks manifest signature checked root
     \<and> v = \<lparr>vs_formatVersion = fp_version (version_profile version), vs_header = header, vs_manifest = manifest,
         vs_logicalRoot = to_hex root, vs_segmentHash = to_hex (segment_hash X (version_profile version) bytes),
         vs_signerKeyId = text_prop (get_prop manifest ''signer'') ''keyId'', vs_signerTrusted = False,
         vs_byteLength = length bytes, vs_events = map fst (concat checked)\<rparr>"
    then show "verify_segment_frames X default_options (version_profile version) bytes (plain_frames g) = Inr v"
      unfolding defs library_accepts_def
      by (elim exE conjE) (simp add: res_simps buffers_equal_agrees checks_Inr_iff)
  qed
qed

text \<open>The same for the independent verifier.\<close>

definition independent_accepts ::
  "platform \<Rightarrow> nat \<Rightarrow> iv_frames \<Rightarrow> jsval \<Rightarrow> jsval list \<Rightarrow> jsval \<Rightarrow> jsval \<Rightarrow> byte list list \<Rightarrow> bool" where
  "independent_accepts X version g header blocks manifest signature hashes \<longleftrightarrow>
     (let p = iv_profile_for version; signer = get_prop manifest ''signer'' in
      iv_decode (if_header g) = Inr header \<and> mapR iv_decode (if_blocks g) = Inr blocks
      \<and> iv_decode (if_manifest g) = Inr manifest \<and> iv_decode (if_signature g) = Inr signature
      \<and> exact header (HEADER_FIELDS @ (if version = 2 then [''routingEpochNumber'', ''routingEpochHash''] else []))
          ''HEADER_FIELDS'' = Inr ()
      \<and> exact manifest [''kind'', ''manifestVersion'', ''headerHash'', ''recordCount'', ''blockCount'',
           ''recordMerkleRoot'', ''blocks'', ''signer''] ''MANIFEST_FIELDS'' = Inr ()
      \<and> exact signature [''algorithm'', ''keyId'', ''signature''] ''SIGNATURE_FIELDS'' = Inr ()
      \<and> get_prop header ''kind'' = JStr (js ''g9p-segment'') \<and> get_prop header ''formatVersion'' = JInt (int version)
      \<and> get_prop manifest ''kind'' = JStr (js ''g9p-segment-manifest'')
      \<and> get_prop manifest ''manifestVersion'' = JInt (int version)
      \<and> iv_check_header X version header = Inr ()
      \<and> get_prop manifest ''headerHash'' = JBytes (domain_digest X (ip_hd p) [if_header g])
      \<and> iv_check_manifest manifest (length blocks) = Inr ()
      \<and> (\<exists>tally. iv_blocks X p header (get_prop manifest ''blocks'') 0 0 [] (zip blocks (if_blocks g)) = Inr (tally, hashes)
           \<and> get_prop manifest ''recordCount'' = JInt tally)
      \<and> get_prop manifest ''recordMerkleRoot'' = JBytes (iv_merkle X hashes)
      \<and> exact signer [''algorithm'', ''keyId'', ''publicKey''] ''SIGNER_FIELDS'' = Inr ()
      \<and> iv_key_id_ok signer \<and> iv_signature_ok signer signature
      \<and> verifyEd25519 X (iv_octets (get_prop signer ''publicKey'')) (iv_octets (get_prop signature ''signature''))
          (ip_sd p) (if_manifest g) (case get_prop signer ''keyId'' of JStr s \<Rightarrow> s | _ \<Rightarrow> []) = Inr ())"

lemma iv_check_frames_Inr:
  "iv_check_frames X version bytes g = Inr r \<longleftrightarrow>
   (\<exists>header blocks manifest signature hashes. independent_accepts X version g header blocks manifest signature hashes
     \<and> r = \<lparr>sg_formatVersion = version, sg_ledgerId = get_prop header ''ledgerId'',
          sg_shardId = get_prop header ''shardId'', sg_recordCount = get_prop manifest ''recordCount'',
          sg_blockCount = get_prop manifest ''blockCount'',
          sg_logicalRoot = to_hex (iv_octets (get_prop manifest ''recordMerkleRoot'')),
          sg_fileHash = to_hex (domain_digest X (ip_fd (iv_profile_for version)) [bytes]),
          sg_signerKeyId = get_prop (get_prop manifest ''signer'') ''keyId''\<rparr>)"
proof -
  show ?thesis
    unfolding iv_check_frames_def iv_domainHash_agrees independent_accepts_def Let_def HEADER_FIELDS_def
  proof (rule iffI, goal_cases)
    case 1
    then show ?case by (cases "version = 2"; clarsimp simp: res_simps bytesEqual_agrees)
  next
    case 2
    then show ?case by (elim exE conjE) (simp add: res_simps bytesEqual_agrees)
  qed
qed

lemma version_profile_number: "version = 1 \<or> version = 2 \<Longrightarrow> fp_version (version_profile version) = version"
  by (auto simp: version_profile_def profile_v1_def profile_v2_def)

lemma decoded_agree:
  "frames_bounded g \<Longrightarrow> mapR (decode_canonical DEFAULT_LIMITS) (if_blocks g) = Inr blocks \<longleftrightarrow> mapR iv_decode (if_blocks g) = Inr blocks"
  unfolding mapR_Inr_list_all2 frames_bounded_def
  by (auto simp: list_all2_conv_all_nth iv_decode_Inr)

lemma key_agrees:
  "iv_key_id_ok signer \<longleftrightarrow> get_prop signer ''algorithm'' = JStr (js ''ed25519'') \<and> hash_text (get_prop signer ''keyId'')
     \<and> is_any_bytes (get_prop signer ''publicKey'') \<and> length (bytes_of (get_prop signer ''publicKey'')) = 44"
  by (auto simp: iv_key_id_ok_def iv_hash_text_def hash_text_def is_any_bytes_def bytes_of_def split: jsval.splits simp del: js_Cons)

lemma array_blocks: "is_array v \<Longrightarrow> v = JArr (array_items v)"
  by (cases v) (simp_all add: is_array_def array_items_def)

lemma merkle_root_eq: "merkle_root X hashes = Inr root \<Longrightarrow> root = iv_merkle X hashes"
proof -
  assume root: "merkle_root X hashes = Inr root"
  then have "\<forall>h \<in> set hashes. length h = 32"
    by (cases "hashes = []") (auto simp: merkle_root_def list_all_iff res_simps)
  from merkle_agrees [OF this, of X] root show ?thesis by simp
qed

lemma library_then_independent:
  assumes X: "nfc_ascii X" "sha256_ok X" and g: "frames_bounded g" "length (if_blocks g) \<le> 65536"
    and version: "version = 1 \<or> version = 2"
    and accepts: "library_accepts X version g header blocks manifest signature checked root"
    and key: "length (signer_key manifest) = 44"
  shows "independent_accepts X version g header blocks manifest signature (map snd (concat checked))"
proof -
  let ?profile = "version_profile version" and ?signer = "get_prop manifest ''signer''" and ?p = "iv_profile_for version"
  let ?digest = "domain_digest X (headerHashDomain ?profile) [if_header g]" and ?cs = "array_items (get_prop manifest ''blocks'')"
  have number: "fp_version ?profile = version" by (rule version_profile_number [OF version])
  from accepts obtain tally where a:
    "decode_canonical DEFAULT_LIMITS (if_header g) = Inr header"
    "mapR (decode_canonical DEFAULT_LIMITS) (if_blocks g) = Inr blocks"
    "decode_canonical DEFAULT_LIMITS (if_manifest g) = Inr manifest"
    "decode_canonical DEFAULT_LIMITS (if_signature g) = Inr signature"
    "validate_header header version = Inr ()" "\<forall>block \<in> set blocks. validate_block VERIFY_LIMITS block = Inr ()"
    "validate_manifest VERIFY_LIMITS version manifest = Inr ()" "validate_signature signature manifest = Inr ()"
    "get_prop manifest ''blockCount'' = JInt (int (length blocks))" "get_prop manifest ''headerHash'' = JBytes ?digest"
    "check_commitments X ?profile 0 0 (zip blocks (zip (if_blocks g) ?cs)) = Inr tally"
    "get_prop manifest ''recordCount'' = JInt tally"
    "check_signature X default_options ?profile (if_manifest g) manifest signature = Inr False"
    "mapR (check_block X VERIFY_LIMITS header) blocks = Inr checked"
    "merkle_root X (map snd (concat checked)) = Inr root" "get_prop manifest ''recordMerkleRoot'' = JBytes root"
    unfolding library_accepts_def Let_def number by blast
  have header: "exact header (HEADER_FIELDS @ (if version = 2 then [''routingEpochNumber'', ''routingEpochHash''] else []))
      ''HEADER_FIELDS'' = Inr ()"
    "get_prop header ''kind'' = JStr (js ''g9p-segment'')" "get_prop header ''formatVersion'' = JInt (int version)"
    "iv_check_header X version header = Inr ()"
    using a(5) unfolding header_agrees [OF X(1), of header version "''HEADER_FIELDS''"] by blast+
  have policy: "policy_valid (get_prop header ''routingPolicy'')"
    using a(5) by (simp add: validate_header_def andThen_Inr_iff policy_agrees)
  have manifest: "exact manifest [''kind'', ''manifestVersion'', ''headerHash'', ''recordCount'', ''blockCount'',
        ''recordMerkleRoot'', ''blocks'', ''signer''] ''MANIFEST_FIELDS'' = Inr ()"
    "get_prop manifest ''kind'' = JStr (js ''g9p-segment-manifest'')" "get_prop manifest ''manifestVersion'' = JInt (int version)"
    "iv_check_manifest manifest (length blocks) = Inr ()" "is_array (get_prop manifest ''blocks'')"
    "\<forall>ic \<in> set (enumerate 0 ?cs). validate_commitment VERIFY_LIMITS ic = Inr ()"
    "exact ?signer [''algorithm'', ''keyId'', ''publicKey''] ''SIGNER_FIELDS'' = Inr ()"
    "get_prop ?signer ''algorithm'' = JStr (js ''ed25519'')" "hash_text (get_prop ?signer ''keyId'')"
    "is_any_bytes (get_prop ?signer ''publicKey'')"
    using a(7,9,10) X(2) manifest_agrees [of version manifest "length blocks" ?digest "''MANIFEST_FIELDS''" "''SIGNER_FIELDS''"] by simp_all
  have len: "length blocks = length (if_blocks g)" by (rule mapR_Inr_length [OF a(2)])
  obtain cs where array: "get_prop manifest ''blocks'' = JArr cs" and items: "?cs = cs"
    using manifest(5) array_blocks by blast
  have cs: "length cs = length blocks"
    using a(7,9) items by (simp add: validate_manifest_def andThen_Inr_iff invariant_Inr_iff)
  have blocks: "iv_blocks X ?p header (get_prop manifest ''blocks'') 0 0 [] (zip blocks (if_blocks g))
      = Inr (tally, map snd (concat checked))"
    unfolding array
  proof (subst iv_blocks_agrees [OF policy, where profile = ?profile])
    show "blockHashDomain ?profile = ip_bd ?p" by (simp add: profiles_agree)
  qed (use len cs g(2) a(6,11,14) manifest(6) in \<open>simp_all add: items\<close>)
  have signature: "exact signature [''algorithm'', ''keyId'', ''signature''] ''SIGNATURE_FIELDS'' = Inr ()"
    "iv_signature_ok ?signer signature"
    using a(8) unfolding signature_agrees [OF manifest(8) refl, of signature "''SIGNATURE_FIELDS''"] by blast+
  have "iv_key_id_ok ?signer" using manifest(8-10) key unfolding key_agrees signer_key_def by simp
  moreover have "verifyEd25519 X (iv_octets (get_prop ?signer ''publicKey'')) (iv_octets (get_prop signature ''signature''))
      (ip_sd ?p) (if_manifest g) (case get_prop ?signer ''keyId'' of JStr s \<Rightarrow> s | _ \<Rightarrow> []) = Inr ()"
    using a(13) unfolding check_signature_agrees [OF refl] profiles_agree by (rule conjunct1)
  moreover have "iv_decode (if_header g) = Inr header" "iv_decode (if_manifest g) = Inr manifest" "iv_decode (if_signature g) = Inr signature"
    "mapR iv_decode (if_blocks g) = Inr blocks"
    using a(1-4) g(1) decoded_agree [OF g(1)] by (simp_all add: frames_bounded_def iv_decode_Inr)
  ultimately show ?thesis
    using header manifest signature blocks a(10,12,16) merkle_root_eq [OF a(15)]
    unfolding independent_accepts_def Let_def profiles_agree by blast
qed

lemma iv_blocks_record:
  "iv_blocks X p header committed i firstRecord acc pairs = Inr (tally, hashes) \<Longrightarrow> length acc < length hashes \<Longrightarrow>
   \<exists>bytes. record_accepted X header bytes \<and> bounded bytes"
proof (induction pairs arbitrary: i firstRecord acc)
  case (Cons pair pairs)
  obtain block payload where pair: "pair = (block, payload)" by (cases pair)
  from Cons(2) obtain h where h: "iv_block X p header i firstRecord block payload (js_item committed i) = Inr h"
    and rest: "iv_blocks X p header committed (i + 1) (firstRecord + iv_number (get_prop block ''recordCount'')) (acc @ h) pairs
      = Inr (tally, hashes)" by (auto simp: pair res_simps)
  show ?case
  proof (cases "h = []")
    case True
    then show ?thesis using Cons(1) [OF rest] Cons(3) by simp
  next
    case False
    from h obtain out where "iv_records X header out = Inr h" unfolding iv_block_Inr by blast
    then obtain records where r: "\<forall>r \<in> set records. record_accepted X header r"
      "h = map (\<lambda>r. domain_digest X ''event-record-v1'' [r]) records"
      and loop: "read_records_loop iv_MAX_RECORD out = Inr records" by (auto simp: iv_records_agrees)
    have "\<forall>r \<in> set records. bounded r"
      using read_records_loop_sound [OF loop] by (auto simp: list_all_iff iv_MAX_RECORD_def bounded_def DEFAULT_LIMITS_def)
    then show ?thesis using False r by (cases records) auto
  qed
qed simp

lemma record_identifies:
  assumes "record_accepted X header bytes" and "bounded bytes" and "no_text (get_prop header ''shardId'') = False"
    and "shard_pattern (get_prop header ''shardId'')"
  shows "non_empty_string (get_prop header ''ledgerId'') \<and> shard_id_text (get_prop header ''shardId'')"
proof -
  from assms(1) obtain event shard where e: "iv_decode bytes = Inr event" "validateEvent X event = Inr ()"
    "get_prop event ''ledgerId'' = get_prop header ''ledgerId''" "JStr shard = get_prop header ''shardId''"
    by (auto simp: record_accepted_def)
  have "validate_event X event = Inr ()"
    using e(1,2) validateEvent_agrees [of DEFAULT_LIMITS 0 event X] iv_decode_Inr [OF assms(2)] decode_canonical_within by blast
  then have "validate_text X 1 128 (get_prop event ''ledgerId'') = Inr ()" by (simp add: validate_event_def andThen_Inr_iff)
  then obtain s where "get_prop header ''ledgerId'' = JStr s" "s \<noteq> []" using e(3) by (auto simp: validate_text_Inr Suc_le_eq)
  then show ?thesis using assms(4) by (simp add: non_empty_string_def shard_id_text_def flip: e(4))
qed


lemma independent_then_library:
  assumes X: "nfc_ascii X" "sha256_ok X" and g: "frames_bounded g" "length (if_blocks g) \<le> 65536"
    and version: "version = 1 \<or> version = 2"
    and accepts: "independent_accepts X version g header blocks manifest signature hashes"
    and strict: "exact_keys (get_prop header ''routingPolicy'') [''id'', ''version'', ''shardCount'']"
      "is_array (get_prop manifest ''blocks'')"
  shows "\<exists>checked root. library_accepts X version g header blocks manifest signature checked root
    \<and> length (signer_key manifest) = 44"
proof -
  let ?profile = "version_profile version" and ?signer = "get_prop manifest ''signer''" and ?p = "iv_profile_for version"
  let ?digest = "domain_digest X (headerHashDomain ?profile) [if_header g]" and ?cs = "array_items (get_prop manifest ''blocks'')"
  have number: "fp_version ?profile = version" by (rule version_profile_number [OF version])
  from accepts obtain tally where a:
    "iv_decode (if_header g) = Inr header" "mapR iv_decode (if_blocks g) = Inr blocks"
    "iv_decode (if_manifest g) = Inr manifest" "iv_decode (if_signature g) = Inr signature"
    "exact header (HEADER_FIELDS @ (if version = 2 then [''routingEpochNumber'', ''routingEpochHash''] else [])) ''HEADER_FIELDS'' = Inr ()"
    "exact manifest [''kind'', ''manifestVersion'', ''headerHash'', ''recordCount'', ''blockCount'',
      ''recordMerkleRoot'', ''blocks'', ''signer''] ''MANIFEST_FIELDS'' = Inr ()"
    "exact signature [''algorithm'', ''keyId'', ''signature''] ''SIGNATURE_FIELDS'' = Inr ()"
    "get_prop header ''kind'' = JStr (js ''g9p-segment'')" "get_prop header ''formatVersion'' = JInt (int version)"
    "get_prop manifest ''kind'' = JStr (js ''g9p-segment-manifest'')" "get_prop manifest ''manifestVersion'' = JInt (int version)"
    "iv_check_header X version header = Inr ()" "get_prop manifest ''headerHash'' = JBytes ?digest"
    "iv_check_manifest manifest (length blocks) = Inr ()"
    "iv_blocks X ?p header (get_prop manifest ''blocks'') 0 0 [] (zip blocks (if_blocks g)) = Inr (tally, hashes)"
    "get_prop manifest ''recordCount'' = JInt tally" "get_prop manifest ''recordMerkleRoot'' = JBytes (iv_merkle X hashes)"
    "exact ?signer [''algorithm'', ''keyId'', ''publicKey''] ''SIGNER_FIELDS'' = Inr ()"
    "iv_key_id_ok ?signer" "iv_signature_ok ?signer signature"
    "verifyEd25519 X (iv_octets (get_prop ?signer ''publicKey'')) (iv_octets (get_prop signature ''signature''))
      (ip_sd ?p) (if_manifest g) (case get_prop ?signer ''keyId'' of JStr s \<Rightarrow> s | _ \<Rightarrow> []) = Inr ()"
    unfolding independent_accepts_def Let_def profiles_agree by blast
  have tally: "tally = int (length hashes)" using iv_blocks_count [OF a(15)] by simp
  have "int_in 1 10000000 (get_prop manifest ''recordCount'')" "get_prop manifest ''blockCount'' = JInt (int (length blocks))"
    using a(14) unfolding iv_check_manifest_def checks.simps andThen_Inr_iff iv_integer_agrees' requireThat_Inr_iff by blast+
  then have "0 < length hashes" and count: "get_prop manifest ''blockCount'' = JInt (int (length blocks))"
    using tally by (auto simp: a(16))
  then obtain record_bytes where "record_accepted X header record_bytes" "bounded record_bytes"
    using iv_blocks_record [OF a(15)] by auto
  moreover have "no_text (get_prop header ''shardId'') = False" "shard_pattern (get_prop header ''shardId'')"
    and route: "\<exists>shard. iv_route X (get_prop header ''ledgerId'') (JStr (js ''profile-check'')) (get_prop header ''routingPolicy'') = Inr shard"
    using a(12) by (auto simp: iv_check_header_def test_shard_def res_simps split: if_splits)
  ultimately have identity: "non_empty_string (get_prop header ''ledgerId'')" "shard_id_text (get_prop header ''shardId'')"
    using record_identifies by blast+
  have policy: "policy_valid (get_prop header ''routingPolicy'')" using route by (auto simp: iv_route_agrees)
  have header: "validate_header header version = Inr ()"
    unfolding header_agrees [OF X(1), of header version "''HEADER_FIELDS''"] using a(5,8,9,12) identity strict(1) by blast
  obtain cs where array: "get_prop manifest ''blocks'' = JArr cs" and items: "?cs = cs"
    using strict(2) array_blocks by blast
  have len: "length blocks = length (if_blocks g)" by (rule mapR_Inr_length [OF a(2)])
  have cs: "length cs = length blocks"
    using a(14) by (auto simp: iv_check_manifest_def js_length_def array res_simps)
  have domain: "blockHashDomain ?profile = ip_bd ?p" by (simp add: profiles_agree)
  have "(\<forall>block \<in> set blocks. validate_block VERIFY_LIMITS block = Inr ())
    \<and> (\<forall>ic \<in> set (enumerate 0 (drop 0 cs)). validate_commitment VERIFY_LIMITS ic = Inr ())
    \<and> check_commitments X ?profile 0 0 (zip blocks (zip (if_blocks g) (drop 0 cs))) = Inr tally
    \<and> (\<exists>checked. mapR (check_block X VERIFY_LIMITS header) blocks = Inr checked \<and> hashes = [] @ map snd (concat checked))"
    by (rule iv_blocks_agrees [OF policy domain, THEN iffD1]) (use len cs g(2) a(15) in \<open>simp_all add: array\<close>)
  then obtain checked where blocks: "\<forall>block \<in> set blocks. validate_block VERIFY_LIMITS block = Inr ()"
    "\<forall>ic \<in> set (enumerate 0 ?cs). validate_commitment VERIFY_LIMITS ic = Inr ()"
    "check_commitments X ?profile 0 0 (zip blocks (zip (if_blocks g) ?cs)) = Inr tally"
    "mapR (check_block X VERIFY_LIMITS header) blocks = Inr checked" "hashes = map snd (concat checked)"
    unfolding items by auto
  have key: "get_prop ?signer ''algorithm'' = JStr (js ''ed25519'')" "hash_text (get_prop ?signer ''keyId'')"
    "is_any_bytes (get_prop ?signer ''publicKey'')" "length (signer_key manifest) = 44"
    using a(19) unfolding key_agrees signer_key_def by blast+
  have "validate_manifest VERIFY_LIMITS version manifest = Inr ()"
    using manifest_agrees [of version manifest "length blocks" ?digest "''MANIFEST_FIELDS''" "''SIGNER_FIELDS''"]
      a(6,10,11,13,14,18) strict(2) blocks(2) key X(2) by simp
  moreover have "validate_signature signature manifest = Inr ()"
    unfolding signature_agrees [OF key(1) refl, of signature "''SIGNATURE_FIELDS''"] using a(7,20) by blast
  moreover have "check_signature X default_options ?profile (if_manifest g) manifest signature = Inr False"
    unfolding check_signature_agrees [OF refl] using a(21) by (simp add: profiles_agree)
  moreover have "\<forall>h \<in> set hashes. length h = 32"
  proof -
    have "length (snd e) = 32" if c: "check_block X VERIFY_LIMITS header b = Inr es" and e: "e \<in> set es" for b es e
    proof -
      from c obtain records where "mapR (check_event X header) records = Inr es" by (auto simp: check_block_def res_simps)
      then obtain r where "check_event X header r = Inr e" using e by (auto simp: mapR_Inr_list_all2 list_all2_conv_all_nth in_set_conv_nth)
      then show ?thesis using X(2) by (simp add: check_event_hash)
    qed
    then show ?thesis using blocks(4)
      by (fastforce simp: blocks(5) mapR_Inr_list_all2 list_all2_conv_all_nth in_set_conv_nth [of _ checked])
  qed
  then have "merkle_root X (map snd (concat checked)) = Inr (iv_merkle X hashes)" using merkle_agrees blocks(5) by blast
  moreover have "decode_canonical DEFAULT_LIMITS (if_header g) = Inr header" "decode_canonical DEFAULT_LIMITS (if_manifest g) = Inr manifest"
    "decode_canonical DEFAULT_LIMITS (if_signature g) = Inr signature" "mapR (decode_canonical DEFAULT_LIMITS) (if_blocks g) = Inr blocks"
    using a(1-4) g(1) decoded_agree [OF g(1)] by (simp_all add: frames_bounded_def flip: iv_decode_Inr)
  moreover have "get_prop manifest ''recordCount'' = JInt (int (length (concat checked)))"
    unfolding a(16) tally blocks(5) by simp
  ultimately show ?thesis
    using header blocks(1,3,4) a(13,16,17) count key(4) unfolding library_accepts_def Let_def number by blast
qed

section \<open>Properties\<close>

lemma verify_segment_bytes_Inr:
  "verify_segment_bytes X default_options bytes = Inr v \<Longrightarrow> \<exists>version g header blocks manifest signature checked root.
     length bytes \<le> iv_MAX_FILE \<and> (version = 1 \<or> version = 2) \<and> take 8 bytes = ip_magic (iv_profile_for version)
     \<and> iv_segment_frames (iv_profile_for version) bytes = Inr g \<and> length (if_blocks g) \<le> 65536
     \<and> library_accepts X version g header blocks manifest signature checked root
     \<and> v = \<lparr>vs_formatVersion = version, vs_header = header, vs_manifest = manifest,
         vs_logicalRoot = to_hex root, vs_segmentHash = to_hex (segment_hash X (version_profile version) bytes),
         vs_signerKeyId = text_prop (get_prop manifest ''signer'') ''keyId'', vs_signerTrusted = False,
         vs_byteLength = length bytes, vs_events = map fst (concat checked)\<rparr>"
proof -
  assume verified: "verify_segment_bytes X default_options bytes = Inr v"
  have L: "vo_limits default_options = VERIFY_LIMITS" "maxFileBytes VERIFY_LIMITS = iv_MAX_FILE"
    by (simp_all add: default_options_def VERIFY_LIMITS_def iv_MAX_FILE_def)
  have magic: "G9P_MAGIC = iv_MAGIC_V1" "G9P_MAGIC_V2 = iv_MAGIC_V2" "length iv_MAGIC_V1 = 8" "length iv_MAGIC_V2 = 8"
    by (simp_all add: G9P_MAGIC_V1_def G9P_MAGIC_V2_def iv_MAGIC_V1_def iv_MAGIC_V2_def)
  from verified obtain profile f where size: "length bytes \<le> iv_MAX_FILE" and profile: "select_profile bytes = Some profile"
    and f: "read_segment_frames VERIFY_LIMITS profile bytes = Inr f"
    and ok: "verify_segment_frames X default_options profile bytes f = Inr v"
    by (auto simp: verify_segment_bytes_def L res_simps iv_MAX_FILE_def split: option.splits)
  define version :: nat where "version = (if take 8 bytes = iv_MAGIC_V1 then 1 else 2)"
  have version: "version = 1 \<or> version = 2" by (simp add: version_def)
  have p: "profile = version_profile version" "take 8 bytes = ip_magic (iv_profile_for version)"
    using profile unfolding select_profile_def magic version_def version_profile_def iv_profile_for_def
    by (auto split: if_splits)
  obtain g where g: "f = plain_frames g" by (rule plain_frames_surj)
  have frames: "iv_segment_frames (iv_profile_for version) bytes = Inr g" "length (if_blocks g) \<le> 65536"
    using f unfolding p(1) g segment_frames_agree by simp_all
  show ?thesis
    using ok size version p(2) frames unfolding p(1) g verify_segment_frames_Inr version_profile_number [OF version] by blast
qed

lemma segment_entry:
  assumes "length bytes \<le> iv_MAX_FILE" and "version = 1 \<or> version = 2" and "take 8 bytes = ip_magic (iv_profile_for version)"
    and "iv_segment_frames (iv_profile_for version) bytes = Inr g"
  shows "verifyG9pBytes X bytes = report_as Segment_Report (iv_check_frames X version bytes g)"
proof (cases "version = 1")
  case True
  then show ?thesis using assms by (simp add: verifyG9pBytes_def iv_verify_segment_def requireThat_def iv_profile_for_def)
next
  case False
  then have v: "version = 2" using assms(2) by simp
  have "iv_MAGIC_V1 \<noteq> iv_MAGIC_V2" "length iv_MAGIC_V2 = 8" by (simp_all add: iv_MAGIC_V1_def iv_MAGIC_V2_def)
  moreover obtain payload rest where "iv_frame ''HED2'' (drop 8 bytes) = Inr (payload, rest)"
    using assms(4) calculation(2) by (auto simp: iv_segment_frames_def iv_magic_def v iv_profile_for_def res_simps)
  then have "to_ascii (take 4 (drop 8 bytes)) = ''HED2''" "12 \<le> length bytes"
    by (auto simp: iv_frame_def iv_peek_def res_simps)
  ultimately show ?thesis
    using assms(1,3,4) by (simp add: verifyG9pBytes_def iv_verify_segment_def requireThat_def v Let_def iv_profile_for_def)
qed

lemma report_fields:
  assumes "nfc_ascii X" and "validate_header header version = Inr ()" and "validate_manifest VERIFY_LIMITS version manifest = Inr ()"
  shows "JStr (text_prop header ''ledgerId'') = get_prop header ''ledgerId''"
    and "JStr (text_prop header ''shardId'') = get_prop header ''shardId''"
    and "JInt (int (nat (int_of (get_prop manifest ''recordCount'')))) = get_prop manifest ''recordCount''"
    and "JInt (int (nat (int_of (get_prop manifest ''blockCount'')))) = get_prop manifest ''blockCount''"
    and "JStr (text_prop (get_prop manifest ''signer'') ''keyId'') = get_prop (get_prop manifest ''signer'') ''keyId''"
proof -
  have "non_empty_string (get_prop header ''ledgerId'')" "shard_id_text (get_prop header ''shardId'')"
    using assms(2) by (simp_all add: validate_header_def andThen_Inr_iff invariant_Inr_iff)
  then show "JStr (text_prop header ''ledgerId'') = get_prop header ''ledgerId''"
    and "JStr (text_prop header ''shardId'') = get_prop header ''shardId''"
    by (auto simp: non_empty_string_def shard_id_text_def text_prop_def split: jsval.splits)
  have L: "maxBlocks VERIFY_LIMITS = 65536" "maxRecords VERIFY_LIMITS = 10000000" by (simp_all add: VERIFY_LIMITS_def)
  have "int_in 1 10000000 (get_prop manifest ''recordCount'')" "int_in 1 65536 (get_prop manifest ''blockCount'')"
    "hash_text (get_prop (get_prop manifest ''signer'') ''keyId'')"
    using assms(3) unfolding validate_manifest_def checks.simps andThen_Inr_iff safe_integer_def invariant_Inr_iff L of_nat_numeral
    by blast+
  then show "JInt (int (nat (int_of (get_prop manifest ''recordCount'')))) = get_prop manifest ''recordCount''"
    and "JInt (int (nat (int_of (get_prop manifest ''blockCount'')))) = get_prop manifest ''blockCount''"
    and "JStr (text_prop (get_prop manifest ''signer'') ''keyId'') = get_prop (get_prop manifest ''signer'') ''keyId''"
    by (auto simp: int_in_def int_of_def hash_text_def text_prop_def split: jsval.splits)
qed

lemma sample_confirmed:
  obtains bytes v where "verify_segment_bytes toy_platform default_options bytes = Inr v"
    and "length (signer_key (vs_manifest v)) = 44"
proof -
  obtain p bytes where p: "build_segment toy_platform sample_request = Inr p" "segment_file p = Inr bytes"
    "segment_fits p" "is_shard_id (sp_shard p)" "length bytes \<le> 536870912" by (rule sample_segment)
  then obtain result where w: "write_segment toy_platform sample_request = Inr (bytes, result)"
    by (auto simp: write_segment_def)
  have policy: "rq_routingPolicy sample_request = routing_policy 1" and signer: "rq_signer sample_request = sample_signer"
    by (simp_all add: sample_request_def)
  have port: "\<forall>e \<in> set (rq_events sample_request). portable e"
    by (simp add: sample_request_def sample_event_portable)
  have opts: "options_match sample_request p default_options" by (simp add: options_match_def default_options_def)
  from written_segment_verified [OF toy_sha256_ok toy_zstd_ok p(1) w policy _ _ port p(4,3,5) opts]
  obtain v where v: "verify_segment_bytes toy_platform default_options bytes = Inr v"
    "signer_key (vs_manifest v) = publicKeyDer sample_signer" unfolding signer signer_key_def by auto
  have "length (signer_key (vs_manifest v)) = 44" by (simp add: v(2) sample_signer_def)
  with v(1) show thesis by (rule that)
qed

lemma toy_nfc_ascii: "nfc_ascii toy_platform"
  by (simp add: nfc_ascii_def)

text \<open>
  The two points on which the independent verifier is more liberal: it does not look for further
  fields in the routing policy, and it reads the block commitments from anything that has a length.
\<close>

definition plain_segment :: "nat \<Rightarrow> byte list \<Rightarrow> bool" where
  "plain_segment version bytes \<longleftrightarrow> (\<forall>g header manifest. iv_segment_frames (iv_profile_for version) bytes = Inr g \<longrightarrow>
     iv_decode (if_header g) = Inr header \<longrightarrow> iv_decode (if_manifest g) = Inr manifest \<longrightarrow>
     exact_keys (get_prop header ''routingPolicy'') [''id'', ''version'', ''shardCount'']
     \<and> is_array (get_prop manifest ''blocks''))"

lemma segment_confirmed:
  assumes "nfc_ascii X" and "sha256_ok X" and "verify_segment_bytes X default_options bytes = Inr v"
    and "length (signer_key (vs_manifest v)) = 44"
  shows "verifyG9pBytes X bytes = Inr (Segment_Report (report_of v))
    \<and> plain_segment (vs_formatVersion v) bytes"
proof -
  from verify_segment_bytes_Inr [OF assms(3)] obtain version g header blocks manifest signature checked root where
    size: "length bytes \<le> iv_MAX_FILE" and version: "version = 1 \<or> version = 2"
    and magic: "take 8 bytes = ip_magic (iv_profile_for version)"
    and frames: "iv_segment_frames (iv_profile_for version) bytes = Inr g" "length (if_blocks g) \<le> 65536"
    and ok: "library_accepts X version g header blocks manifest signature checked root"
    and v: "v = \<lparr>vs_formatVersion = version, vs_header = header, vs_manifest = manifest,
         vs_logicalRoot = to_hex root, vs_segmentHash = to_hex (segment_hash X (version_profile version) bytes),
         vs_signerKeyId = text_prop (get_prop manifest ''signer'') ''keyId'', vs_signerTrusted = False,
         vs_byteLength = length bytes, vs_events = map fst (concat checked)\<rparr>" by blast
  note number = version_profile_number [OF version]
  have accepts: "independent_accepts X version g header blocks manifest signature (map snd (concat checked))"
    using library_then_independent [OF assms(1,2) iv_segment_frames_bounded [OF frames(1)] frames(2) version ok] assms(4)
    by (simp add: v)
  have valid: "validate_header header version = Inr ()"
    "validate_manifest VERIFY_LIMITS version manifest = Inr ()"
    and root: "get_prop manifest ''recordMerkleRoot'' = JBytes root"
    using ok unfolding library_accepts_def Let_def number by blast+
  have "iv_check_frames X version bytes g = Inr (report_of v)"
    unfolding iv_check_frames_Inr
    using accepts root valid by (intro exI conjI) (assumption, simp add: v report_of_def vs_ledgerId_def vs_shardId_def vs_recordCount_def
        vs_blockCount_def report_fields [OF assms(1)] iv_octets_def segment_hash_def profiles_agree del: int_nat_eq)
  then have "verifyG9pBytes X bytes = Inr (Segment_Report (report_of v))"
    by (simp add: segment_entry [OF size version magic frames(1)] report_as_def)
  moreover have decoded: "iv_decode (if_header g) = Inr header" "iv_decode (if_manifest g) = Inr manifest"
    using accepts unfolding independent_accepts_def Let_def by blast+
  have "exact_keys (get_prop header ''routingPolicy'') [''id'', ''version'', ''shardCount'']"
    using valid(1) header_agrees [OF assms(1)] by blast
  moreover have "is_array (get_prop manifest ''blocks'')"
    using valid(2) unfolding validate_manifest_def checks_Inr_iff by (auto simp: res_simps)
  ultimately show ?thesis using frames(1) decoded by (simp add: plain_segment_def v)
qed

text \<open>
  C3: The independent verifier confirms the library. Under the documented behaviour of SHA-256 and of
  Unicode normalisation, every segment that \<open>verifySegmentBytes\<close> accepts and whose signer has a
  public key of 44 bytes, the length of an Ed25519 key document, is accepted by \<open>verifyG9pBytes\<close>,
  which reports the same ledger, shard, counts, Merkle root, file hash and signer.
\<close>

theorem independent_verifier_confirms:
  assumes "nfc_ascii X" and "sha256_ok X" and "verify_segment_bytes X default_options bytes = Inr v"
    and "length (signer_key (vs_manifest v)) = 44"
  shows "verifyG9pBytes X bytes = Inr (Segment_Report (report_of v))"
  using segment_confirmed [OF assms] by blast

theorem independent_verifier_confirms_witness:
  "\<exists>bytes v. verify_segment_bytes toy_platform default_options bytes = Inr v
    \<and> verifyG9pBytes toy_platform bytes = Inr (Segment_Report (report_of v))"
proof -
  obtain bytes v where v: "verify_segment_bytes toy_platform default_options bytes = Inr v"
    "length (signer_key (vs_manifest v)) = 44" by (rule sample_confirmed)
  with independent_verifier_confirms [OF toy_nfc_ascii toy_sha256_ok v] show ?thesis by blast
qed

lemma segment_report_frames:
  assumes "verifyG9pBytes X bytes = Inr (Segment_Report r)"
  shows "\<exists>version g. length bytes \<le> iv_MAX_FILE \<and> (version = 1 \<or> version = 2)
    \<and> take 8 bytes = ip_magic (iv_profile_for version) \<and> iv_segment_frames (iv_profile_for version) bytes = Inr g
    \<and> iv_check_frames X version bytes g = Inr r"
proof -
  have kinds: "report_as Segment_Report m = Inr (Segment_Report r) \<longleftrightarrow> m = Inr r"
    "report_as Epoch_Report n \<noteq> Inr (Segment_Report r)" "report_as Attestation_Report k \<noteq> Inr (Segment_Report r)" for m n k
    by (auto simp: report_as_def res_simps)
  from assms consider "length bytes \<le> iv_MAX_FILE" "take 8 bytes = iv_MAGIC_V1" "iv_verify_segment X bytes 1 = Inr r"
    | "length bytes \<le> iv_MAX_FILE" "take 8 bytes = iv_MAGIC_V2" "iv_verify_segment X bytes 2 = Inr r"
    by (auto simp: verifyG9pBytes_def res_simps kinds Let_def split: if_splits)
  then show ?thesis
  proof cases
    case 1
    then show ?thesis by (intro exI [of _ 1]) (auto simp: iv_verify_segment_def res_simps iv_profile_for_def)
  next
    case 2
    then show ?thesis by (intro exI [of _ 2]) (auto simp: iv_verify_segment_def res_simps iv_profile_for_def)
  qed
qed

text \<open>
  C4: The library confirms the independent verifier. Under the same assumptions on the platform, every
  segment that \<open>verifyG9pBytes\<close> accepts is accepted by \<open>verifySegmentBytes\<close> with the same report,
  provided that its routing policy has no further fields and its block commitments are an array.
\<close>

theorem library_confirms_independent:
  assumes "nfc_ascii X" and "sha256_ok X" and "verifyG9pBytes X bytes = Inr (Segment_Report r)"
    and "plain_segment (sg_formatVersion r) bytes"
  shows "\<exists>v. verify_segment_bytes X default_options bytes = Inr v \<and> report_of v = r
    \<and> length (signer_key (vs_manifest v)) = 44"
proof -
  from segment_report_frames [OF assms(3)] obtain version g where size: "length bytes \<le> iv_MAX_FILE"
    and version: "version = 1 \<or> version = 2" and magic: "take 8 bytes = ip_magic (iv_profile_for version)"
    and frames: "iv_segment_frames (iv_profile_for version) bytes = Inr g" and ok: "iv_check_frames X version bytes g = Inr r"
    by blast
  from ok obtain header blocks manifest signature hashes where
    accepts: "independent_accepts X version g header blocks manifest signature hashes"
    and r: "r = \<lparr>sg_formatVersion = version, sg_ledgerId = get_prop header ''ledgerId'',
          sg_shardId = get_prop header ''shardId'', sg_recordCount = get_prop manifest ''recordCount'',
          sg_blockCount = get_prop manifest ''blockCount'',
          sg_logicalRoot = to_hex (iv_octets (get_prop manifest ''recordMerkleRoot'')),
          sg_fileHash = to_hex (domain_digest X (ip_fd (iv_profile_for version)) [bytes]),
          sg_signerKeyId = get_prop (get_prop manifest ''signer'') ''keyId''\<rparr>"
    unfolding iv_check_frames_Inr by blast
  note number = version_profile_number [OF version]
  have decoded: "iv_decode (if_header g) = Inr header" "iv_decode (if_manifest g) = Inr manifest"
    "mapR iv_decode (if_blocks g) = Inr blocks" and counted: "iv_check_manifest manifest (length blocks) = Inr ()"
    using accepts unfolding independent_accepts_def Let_def by blast+
  have "length (if_blocks g) \<le> 65536"
    using counted mapR_Inr_length [OF decoded(3)]
    by (auto simp: iv_check_manifest_def iv_integer_agrees' res_simps)
  moreover have "exact_keys (get_prop header ''routingPolicy'') [''id'', ''version'', ''shardCount'']"
    "is_array (get_prop manifest ''blocks'')"
    using assms(4) frames decoded(1,2) unfolding plain_segment_def r by auto
  ultimately obtain checked root where lib: "library_accepts X version g header blocks manifest signature checked root"
    and key: "length (signer_key manifest) = 44"
    using independent_then_library [OF assms(1,2) iv_segment_frames_bounded [OF frames] _ version accepts] by blast
  let ?v = "\<lparr>vs_formatVersion = version, vs_header = header, vs_manifest = manifest,
         vs_logicalRoot = to_hex root, vs_segmentHash = to_hex (segment_hash X (version_profile version) bytes),
         vs_signerKeyId = text_prop (get_prop manifest ''signer'') ''keyId'', vs_signerTrusted = False,
         vs_byteLength = length bytes, vs_events = map fst (concat checked)\<rparr>"
  have "verify_segment_frames X default_options (version_profile version) bytes (plain_frames g) = Inr ?v"
    unfolding verify_segment_frames_Inr number using lib by blast
  moreover have "read_segment_frames VERIFY_LIMITS (version_profile version) bytes = Inr (plain_frames g)"
    using frames \<open>length (if_blocks g) \<le> 65536\<close> by (simp add: segment_frames_agree)
  moreover have "select_profile bytes = Some (version_profile version)"
  proof -
    have m: "G9P_MAGIC = iv_MAGIC_V1" "G9P_MAGIC_V2 = iv_MAGIC_V2" "length iv_MAGIC_V1 = 8" "length iv_MAGIC_V2 = 8"
      "iv_MAGIC_V1 \<noteq> iv_MAGIC_V2"
      by (simp_all add: G9P_MAGIC_V1_def G9P_MAGIC_V2_def iv_MAGIC_V1_def iv_MAGIC_V2_def)
    show ?thesis using magic version m(5) unfolding select_profile_def m
      by (auto simp: version_profile_def iv_profile_for_def)
  qed
  ultimately have verified: "verify_segment_bytes X default_options bytes = Inr ?v"
    using size by (simp add: verify_segment_bytes_def default_options_def VERIFY_LIMITS_def iv_MAX_FILE_def)
  have "validate_header header version = Inr ()" "validate_manifest VERIFY_LIMITS version manifest = Inr ()"
    "get_prop manifest ''recordMerkleRoot'' = JBytes root"
    using lib unfolding library_accepts_def Let_def number by blast+
  then have "report_of ?v = r"
    by (simp add: r report_of_def vs_ledgerId_def vs_shardId_def vs_recordCount_def vs_blockCount_def
        report_fields [OF assms(1)] iv_octets_def segment_hash_def profiles_agree del: int_nat_eq)
  moreover have "length (signer_key (vs_manifest ?v)) = 44" using key by (simp only: verified_segment.simps)
  ultimately show ?thesis using verified by blast
qed

theorem library_confirms_independent_witness:
  "\<exists>bytes r v. verifyG9pBytes toy_platform bytes = Inr (Segment_Report r)
    \<and> verify_segment_bytes toy_platform default_options bytes = Inr v \<and> report_of v = r"
proof -
  obtain bytes v where v: "verify_segment_bytes toy_platform default_options bytes = Inr v"
    "length (signer_key (vs_manifest v)) = 44" by (rule sample_confirmed)
  then have accepted: "verifyG9pBytes toy_platform bytes = Inr (Segment_Report (report_of v))"
    and plain: "plain_segment (sg_formatVersion (report_of v)) bytes"
    using segment_confirmed [OF toy_nfc_ascii toy_sha256_ok v] by (simp_all add: report_of_def)
  from library_confirms_independent [OF toy_nfc_ascii toy_sha256_ok accepted plain] accepted show ?thesis by blast
qed

end
