(* ===== verification/G9P_Client.thy ===== *)
theory G9P_Client
  imports G9P_Checkpoint
begin

text \<open>
  The connector contract (packages/connector-contract/src): the client of the ledger service, its
  checks of the receipts that the service returns, and the reconciliation of a stored receipt with a
  current one. The transport is a function \<open>fetch\<close> on a state of its own. JSON text is represented by
  what \<open>JSON.parse\<close> makes of it; messages are not modelled.
\<close>

section \<open>Numbers as text\<close>

definition js_number :: "int \<Rightarrow> jsstr" where
  "js_number i = (if i < 0 then 45 # decimal (nat (- i)) else decimal (nat i))"

section \<open>Errors of the client\<close>

text \<open>\<open>Service\<close> is a \<open>ProvenanceServiceError\<close>; \<open>Runtime\<close> is any other error with its \<open>code\<close> property,
  which is \<open>undefined\<close> for a \<open>TypeError\<close>.\<close>

record service_error =
  se_status :: nat
  se_code :: jsval
  se_retryable :: jsval

datatype client_error = Service service_error | Runtime jsval

type_synonym 'a answer = "client_error + 'a"

definition service_failure :: "nat \<Rightarrow> string \<Rightarrow> bool \<Rightarrow> client_error" where
  "service_failure status code retryable =
     Service \<lparr>se_status = status, se_code = JStr (js code), se_retryable = JBool retryable\<rparr>"

definition type_error :: client_error where
  "type_error = Runtime JUndef"

definition demand :: "bool \<Rightarrow> client_error \<Rightarrow> unit answer" where
  "demand b e = (if b then Inr () else Inl e)"

lemma demand_Inr [res_simps]: "demand b e = Inr u \<longleftrightarrow> b"
  by (simp add: demand_def)

definition invalid_response :: client_error where
  "invalid_response = service_failure 0 ''INVALID_LEDGER_RESPONSE'' False"

text \<open>\<open>a ?? b\<close> and reading a property, which throws on \<open>null\<close> and \<open>undefined\<close>.\<close>

definition coalesce :: "jsval \<Rightarrow> jsval \<Rightarrow> jsval" where
  "coalesce a b = (if a = JUndef \<or> a = JNull then b else a)"

definition read_prop :: "jsval \<Rightarrow> string \<Rightarrow> jsval answer" where
  "read_prop v name = (if v = JUndef \<or> v = JNull then Inl type_error else Inr (get_prop v name))"

section \<open>Receipts\<close>

definition receiptObject :: "jsval \<Rightarrow> unit answer" where
  "receiptObject receipt = demand (is_object receipt) invalid_response"

definition requireHex :: "jsval \<Rightarrow> unit answer" where
  "requireHex v = demand (hash_text v) invalid_response"

definition requireReceiptString :: "jsval \<Rightarrow> unit answer" where
  "requireReceiptString v = demand (non_empty_string v) invalid_response"

definition requireInteger :: "jsval \<Rightarrow> unit answer" where
  "requireInteger v = demand (int_in 0 MAX_SAFE v) invalid_response"

definition requireTimestamp :: "jsval \<Rightarrow> unit answer" where
  "requireTimestamp v = andThen (requireReceiptString v) (demand (timestamp_text v) invalid_response)"

definition exactReceiptFields :: "jsval \<Rightarrow> string list \<Rightarrow> unit answer" where
  "exactReceiptFields receipt names = demand (exact_keys receipt names) invalid_response"

text \<open>The receipt of the first version of the contract: a sealed event.\<close>

definition validateReceipt :: "jsval \<Rightarrow> unit answer" where
  "validateReceipt receipt =
     andThen (receiptObject receipt)
     (andThen (checks (map (\<lambda>field. requireReceiptString (get_prop receipt field))
        [''eventId'', ''status'', ''ledgerId'', ''shardId'', ''recordHash'', ''segmentHash'', ''signerKeyId'']))
     (andThen (demand (get_prop receipt ''status'' = JStr (js ''sealed'')) invalid_response)
     (checks (map (\<lambda>field. demand (int_in 0 MAX_SAFE (get_prop receipt field)) invalid_response)
        [''segmentNumber'', ''recordIndex'']))))"

definition ACCEPTED_FIELDS :: "string list" where
  "ACCEPTED_FIELDS = [''eventId'', ''status'', ''ledgerId'', ''recordHash'', ''intakeSequence'', ''acceptedAt'']"

definition PROVISIONAL_FIELDS :: "string list" where
  "PROVISIONAL_FIELDS = [''eventId'', ''status'', ''ledgerId'', ''recordHash'', ''intakeSequence'', ''acceptedAt'',
     ''shardId'', ''routingEpochNumber'', ''segmentNumber'', ''blockIndex'', ''recordIndex'', ''openedAt'']"

definition SEALED_FIELDS :: "string list" where
  "SEALED_FIELDS = [''eventId'', ''status'', ''ledgerId'', ''recordHash'', ''shardId'', ''routingEpochNumber'',
     ''segmentNumber'', ''recordIndex'', ''segmentHash'', ''signerKeyId'']"

definition validateLifecycleReceipt :: "jsval \<Rightarrow> unit answer" where
  "validateLifecycleReceipt receipt =
     andThen (receiptObject receipt)
     (andThen (checks (map (\<lambda>field. requireReceiptString (get_prop receipt field)) [''eventId'', ''status'', ''ledgerId'']))
     (andThen (requireHex (get_prop receipt ''recordHash''))
     (let status = get_prop receipt ''status'';
          integers = (\<lambda>names. checks (map (\<lambda>field. requireInteger (get_prop receipt field)) names)) in
      if status = JStr (js ''accepted'') then
        andThen (exactReceiptFields receipt ACCEPTED_FIELDS)
        (andThen (requireInteger (get_prop receipt ''intakeSequence''))
        (requireTimestamp (get_prop receipt ''acceptedAt'')))
      else if status = JStr (js ''provisional'') then
        andThen (exactReceiptFields receipt PROVISIONAL_FIELDS)
        (andThen (requireReceiptString (get_prop receipt ''shardId''))
        (andThen (integers [''intakeSequence'', ''routingEpochNumber'', ''segmentNumber'', ''blockIndex'', ''recordIndex''])
        (andThen (requireTimestamp (get_prop receipt ''acceptedAt''))
        (requireTimestamp (get_prop receipt ''openedAt'')))))
      else if status = JStr (js ''sealed'') then
        andThen (exactReceiptFields receipt SEALED_FIELDS)
        (andThen (requireReceiptString (get_prop receipt ''shardId''))
        (andThen (integers [''routingEpochNumber'', ''segmentNumber'', ''recordIndex''])
        (andThen (requireHex (get_prop receipt ''segmentHash''))
        (requireHex (get_prop receipt ''signerKeyId'')))))
      else Inl invalid_response)))"

section \<open>Reconciliation\<close>

definition receipt_stage :: "jsval \<Rightarrow> nat" where
  "receipt_stage status =
     (if status = JStr (js ''accepted'') then 0 else if status = JStr (js ''provisional'') then 1 else 2)"

definition reconciliation_conflict :: client_error where
  "reconciliation_conflict = service_failure 0 ''RECEIPT_RECONCILIATION_CONFLICT'' False"

definition reconcileLifecycleReceipt :: "jsval \<Rightarrow> jsval \<Rightarrow> (bool \<times> jsval) answer" where
  "reconcileLifecycleReceipt stored current =
     (let stage = (\<lambda>receipt. receipt_stage (get_prop receipt ''status'')) in
      andThen (checks
        [validateLifecycleReceipt stored,
         validateLifecycleReceipt current,
         demand (get_prop current ''eventId'' = get_prop stored ''eventId'') reconciliation_conflict,
         demand (get_prop current ''ledgerId'' = get_prop stored ''ledgerId'') reconciliation_conflict,
         demand (get_prop current ''recordHash'' = get_prop stored ''recordHash'') reconciliation_conflict,
         demand (\<not> stage current < stage stored) reconciliation_conflict])
      (Inr (stage stored < stage current, current)))"

section \<open>Requests\<close>

record http_request =
  hq_method :: string
  hq_path :: jsstr
  hq_token :: jsstr
  hq_id :: jsstr
  hq_body :: "jsval option"

text \<open>
  A response: its status, the number that its content-length header states, and its body, which cannot
  be read to the end (with the code of that error), or has a number of bytes and a text of which
  \<open>JSON.parse\<close> makes a value or throws.
\<close>

datatype response_body = Unreadable jsval | Body nat "jsval option"

record http_response =
  hs_status :: nat
  hs_declared :: "nat option"
  hs_body :: response_body

datatype fetched = Response http_response | Timed_Out | Unreachable

type_synonym 's fetch = "http_request \<Rightarrow> 's \<Rightarrow> 's \<times> fetched"

record client =
  cl_tokens :: "jsstr list"
  cl_timeoutMs :: nat

definition requireString :: "jsval \<Rightarrow> unit answer" where
  "requireString v = demand (non_empty_string v) type_error"

text \<open>The constructor; \<open>web\<close> says whether the base URL is an HTTP or HTTPS one.\<close>

definition make_client :: "bool \<Rightarrow> jsval \<Rightarrow> jsval \<Rightarrow> client answer" where
  "make_client web tokens timeoutMs =
     andThen (checks
       [demand web type_error,
        demand (is_array tokens \<and> 1 \<le> length (array_items tokens) \<and> length (array_items tokens) \<le> 4) type_error,
        checks (map requireString (array_items tokens)),
        demand (distinct (array_items tokens)) type_error,
        demand (int_in 100 MAX_SAFE timeoutMs) type_error])
     (Inr \<lparr>cl_tokens = map str_of (array_items tokens), cl_timeoutMs = nat (int_of timeoutMs)\<rparr>)"

definition MAX_RESPONSE_BYTES :: nat where
  "MAX_RESPONSE_BYTES = 2097152"

definition parseResponse :: "http_response \<Rightarrow> jsval answer" where
  "parseResponse r =
     (let too_large = service_failure (hs_status r) ''LEDGER_RESPONSE_LIMIT'' True in
      andThen (demand (case hs_declared r of None \<Rightarrow> True | Some n \<Rightarrow> n \<le> MAX_RESPONSE_BYTES) too_large)
      (case hs_body r of
         Unreadable code \<Rightarrow> Inl (Runtime code)
       | Body bytes parsed \<Rightarrow>
           andThen (demand (bytes \<le> MAX_RESPONSE_BYTES) too_large)
           (if bytes = 0 then Inr (JObj [])
            else case parsed of
                Some v \<Rightarrow> Inr v
              | None \<Rightarrow> Inl (service_failure (hs_status r) ''INVALID_LEDGER_RESPONSE'' (500 \<le> hs_status r)))))"

text \<open>One attempt per credential, until the service does not answer 401 or none is left.\<close>

fun attempt :: "'s fetch \<Rightarrow> (jsstr \<Rightarrow> http_request) \<Rightarrow> jsstr list \<Rightarrow> 's \<Rightarrow> 's \<times> (http_response \<times> jsval) answer" where
  "attempt fetch rq [] s = (s, Inl type_error)"
| "attempt fetch rq (token # tokens) s =
     (case fetch (rq token) s of
        (s', Timed_Out) \<Rightarrow> (s', Inl (service_failure 0 ''LEDGER_TIMEOUT'' True))
      | (s', Unreachable) \<Rightarrow> (s', Inl (service_failure 0 ''LEDGER_UNAVAILABLE'' True))
      | (s', Response r) \<Rightarrow>
          (case parseResponse r of
             Inl e \<Rightarrow> (s', Inl e)
           | Inr payload \<Rightarrow> if hs_status r \<noteq> 401 \<or> tokens = [] then (s', Inr (r, payload))
               else attempt fetch rq tokens s'))"

definition accept_response :: "http_response \<times> jsval \<Rightarrow> jsval answer" where
  "accept_response = (\<lambda>(r, payload).
     if 200 \<le> hs_status r \<and> hs_status r \<le> 299 then Inr payload
     else
       bindR (read_prop payload ''message'') (\<lambda>_.
       Inl (Service \<lparr>se_status = hs_status r,
         se_code = coalesce (get_prop payload ''code'') (JStr (js ''LEDGER_REQUEST_FAILED'')),
         se_retryable = coalesce (get_prop payload ''retryable'') (JBool (500 \<le> hs_status r \<or> hs_status r = 429))\<rparr>)))"

definition request :: "client \<Rightarrow> 's fetch \<Rightarrow> jsstr \<Rightarrow> string \<Rightarrow> jsstr \<Rightarrow> jsval option \<Rightarrow> 's \<Rightarrow> 's \<times> jsval answer" where
  "request c fetch requestId method path body s =
     (let rq = (\<lambda>token. \<lparr>hq_method = method, hq_path = path, hq_token = token, hq_id = requestId, hq_body = body\<rparr>) in
      case attempt fetch rq (cl_tokens c) s of
        (s', Inl e) \<Rightarrow> (s', Inl e)
      | (s', Inr answer) \<Rightarrow> (s', accept_response answer))"

section \<open>The operations of the client\<close>

definition health :: "client \<Rightarrow> 's fetch \<Rightarrow> jsstr \<Rightarrow> 's \<Rightarrow> 's \<times> jsval answer" where
  "health c fetch requestId = request c fetch requestId ''GET'' (js ''/health'') None"

text \<open>The checks of a batch response that both versions of the contract share; \<open>validate\<close> checks one receipt.\<close>

definition batch_receipts :: "int \<Rightarrow> (jsval \<Rightarrow> unit answer) \<Rightarrow> jsval list \<Rightarrow> jsval \<Rightarrow> jsval list answer" where
  "batch_receipts version validate events payload =
     bindR (read_prop payload ''contractVersion'') (\<lambda>found.
     let receipts = array_items (get_prop payload ''receipts'') in
     andThen (demand (found = JInt version \<and> is_array (get_prop payload ''receipts'')
       \<and> length receipts = length events) invalid_response)
     (andThen (checks (map validate receipts))
     (andThen (checks (map (\<lambda>(receipt, event). demand (get_prop receipt ''eventId'' = get_prop event ''eventId'')
          invalid_response) (zip receipts events)))
     (Inr receipts))))"

definition batch_body :: "int \<Rightarrow> jsval list \<Rightarrow> jsval" where
  "batch_body version events = obj [(''contractVersion'', JInt version), (''events'', JArr events)]"

definition submitBatch :: "client \<Rightarrow> 's fetch \<Rightarrow> jsstr \<Rightarrow> jsval list \<Rightarrow> 's \<Rightarrow> 's \<times> jsval list answer" where
  "submitBatch c fetch requestId events s =
     (if events = [] then (s, Inl type_error)
      else case request c fetch requestId ''POST'' (js ''/v1/events:batch'') (Some (batch_body 1 events)) s of
          (s', answer) \<Rightarrow> (s', bindR answer (batch_receipts 1 validateReceipt events)))"

definition submitAcceptedBatch :: "client \<Rightarrow> 's fetch \<Rightarrow> jsstr \<Rightarrow> jsval list \<Rightarrow> 's \<Rightarrow> 's \<times> jsval list answer" where
  "submitAcceptedBatch c fetch requestId events s =
     (if events = [] then (s, Inl type_error)
      else case request c fetch requestId ''POST'' (js ''/v2/events:batch'') (Some (batch_body 2 events)) s of
          (s', answer) \<Rightarrow> (s', bindR answer (batch_receipts 2 validateLifecycleReceipt events)))"

text \<open>\<open>encodeURIComponent\<close>, which throws a \<open>URIError\<close> on a lone surrogate.\<close>

definition unreserved :: "nat \<Rightarrow> bool" where
  "unreserved b \<longleftrightarrow> 48 \<le> b \<and> b \<le> 57 \<or> 65 \<le> b \<and> b \<le> 90 \<or> 97 \<le> b \<and> b \<le> 122
     \<or> b \<in> {33, 39, 40, 41, 42, 45, 46, 95, 126}"

definition upper_hex :: "nat \<Rightarrow> 16 word" where
  "upper_hex d = of_nat (if d < 10 then 48 + d else 55 + d)"

definition encode_uri_component :: "jsstr \<Rightarrow> jsstr answer" where
  "encode_uri_component s =
     (if well_formed_utf16 s
      then Inr (concat (map (\<lambda>b. if unreserved (unat b) then [of_nat (unat b)]
        else [37, upper_hex (unat b div 16), upper_hex (unat b mod 16)]) (utf8 s)))
      else Inl type_error)"

definition getReceipt :: "client \<Rightarrow> 's fetch \<Rightarrow> jsstr \<Rightarrow> jsval \<Rightarrow> jsval \<Rightarrow> 's \<Rightarrow> 's \<times> jsval answer" where
  "getReceipt c fetch requestId eventId recordHash s =
     (case andThen (requireString eventId) (andThen (demand (hash_text recordHash) type_error)
          (encode_uri_component (str_of eventId))) of
        Inl e \<Rightarrow> (s, Inl e)
      | Inr name \<Rightarrow>
          (case request c fetch requestId ''GET''
             (js ''/v2/receipts/'' @ name @ js ''?recordHash='' @ str_of recordHash) None s of
             (s', answer) \<Rightarrow> (s',
               bindR answer (\<lambda>payload.
               bindR (read_prop payload ''contractVersion'') (\<lambda>found.
               andThen (demand (found = JInt 2) invalid_response)
               (let receipt = get_prop payload ''receipt'' in
                andThen (validateLifecycleReceipt receipt)
                (andThen (demand (get_prop receipt ''eventId'' = eventId \<and> get_prop receipt ''recordHash'' = recordHash)
                   invalid_response)
                (Inr receipt))))))))"

section \<open>What an accepted answer says\<close>

lemma receipts_match:
  assumes "length receipts = length events"
  shows "list_all2 (\<lambda>receipt event. validate receipt = Inr () \<and> get_prop receipt ''eventId'' = get_prop event ''eventId'')
     receipts events \<longleftrightarrow>
   checks (map validate receipts) = Inr () \<and> checks (map (\<lambda>(receipt, event).
     demand (get_prop receipt ''eventId'' = get_prop event ''eventId'') invalid_response) (zip receipts events)) = Inr ()"
proof -
  have "(\<forall>r \<in> set receipts. validate r = Inr ()) \<longleftrightarrow> (\<forall>(r, e) \<in> set (zip receipts events). validate r = Inr ())"
    using assms by (auto simp: set_zip in_set_conv_nth) (metis nth_mem)+
  then show ?thesis using assms by (auto simp: list_all2_iff checks_Inr_iff demand_Inr)
qed

lemma batch_receipts_Inr:
  "batch_receipts version validate events payload = Inr receipts \<longleftrightarrow>
     payload \<noteq> JUndef \<and> payload \<noteq> JNull \<and> get_prop payload ''contractVersion'' = JInt version
     \<and> get_prop payload ''receipts'' = JArr receipts
     \<and> list_all2 (\<lambda>receipt event. validate receipt = Inr () \<and> get_prop receipt ''eventId'' = get_prop event ''eventId'')
         receipts events"
proof -
  have arr: "is_array v \<and> array_items v = receipts \<longleftrightarrow> v = JArr receipts" for v
    by (cases v) (auto simp: is_array_def array_items_def)
  have "batch_receipts version validate events payload = Inr receipts \<longleftrightarrow>
     payload \<noteq> JUndef \<and> payload \<noteq> JNull \<and> get_prop payload ''contractVersion'' = JInt version
     \<and> (is_array (get_prop payload ''receipts'') \<and> array_items (get_prop payload ''receipts'') = receipts)
     \<and> length receipts = length events \<and> checks (map validate receipts) = Inr ()
     \<and> checks (map (\<lambda>(receipt, event). demand (get_prop receipt ''eventId'' = get_prop event ''eventId'')
          invalid_response) (zip receipts events)) = Inr ()"
    unfolding batch_receipts_def read_prop_def Let_def bindR_Inr_iff andThen_Inr_iff demand_Inr
    by (auto split: if_splits)
  then show ?thesis unfolding arr using receipts_match [of receipts events validate] list_all2_lengthD by blast
qed

end
