(* ===== verification/G9P_Outbox.thy ===== *)
theory G9P_Outbox
  imports G9P_Client
begin

text \<open>
  The MySQL connector (connectors/mysql/src): the outbox table with the transactions of the
  repository, and the worker that delivers claimed rows to the ledger service. The table is the list of
  its rows; a transaction is a function of it, committed as a whole or not at all. Times are
  microseconds. \<open>runtime\<close> holds the functions of the language whose definition is not modelled:
  \<open>JSON.parse\<close> and the text of a number that is not an integer.
\<close>

record runtime =
  rt_json :: "jsstr \<Rightarrow> jsval option"
  rt_double :: "64 word \<Rightarrow> jsstr"

fun js_string :: "runtime \<Rightarrow> jsval \<Rightarrow> jsstr" where
  "js_string rt JUndef = js ''undefined''"
| "js_string rt JNull = js ''null''"
| "js_string rt (JBool b) = js (if b then ''true'' else ''false'')"
| "js_string rt (JInt i) = js_number i"
| "js_string rt (JDbl w) = rt_double rt w"
| "js_string rt (JStr s) = s"
| "js_string rt (JBytes bs) = drop 1 (concat (map (\<lambda>b. 44 # decimal (unat b)) bs))"
| "js_string rt (JArr items) =
     drop 1 (concat (map (\<lambda>v. 44 # (if v = JNull \<or> v = JUndef then [] else js_string rt v)) items))"
| "js_string rt (JObj kvs) = js ''[object Object]''"

section \<open>The table\<close>

text \<open>A name of a table, or of a schema and a table, in safe identifiers (connectors/mysql/src/table.js).\<close>

fun split_dots :: "jsstr \<Rightarrow> jsstr list" where
  "split_dots [] = [[]]"
| "split_dots (u # us) =
     (if u = 46 then [] # split_dots us
      else case split_dots us of p # ps \<Rightarrow> (u # p) # ps | [] \<Rightarrow> [[u]])"

definition identifier_start :: "16 word \<Rightarrow> bool" where
  "identifier_start u \<longleftrightarrow> (let n = unat u in 65 \<le> n \<and> n \<le> 90 \<or> 97 \<le> n \<and> n \<le> 122 \<or> n = 95)"

definition is_identifier :: "jsstr \<Rightarrow> bool" where
  "is_identifier s \<longleftrightarrow> s \<noteq> [] \<and> identifier_start (hd s)
     \<and> list_all (\<lambda>u. identifier_start u \<or> 48 \<le> unat u \<and> unat u \<le> 57 \<or> u = 36) (tl s)"

definition validateTablePath :: "jsval \<Rightarrow> jsstr answer" where
  "validateTablePath v =
     andThen (demand (is_text v) type_error)
     (let parts = split_dots (str_of v) in
      andThen (demand (length parts \<le> 2 \<and> list_all is_identifier parts) type_error) (Inr (str_of v)))"

definition quoteTablePath :: "jsval \<Rightarrow> jsstr answer" where
  "quoteTablePath v =
     bindR (validateTablePath v) (\<lambda>path.
     Inr (drop 1 (concat (map (\<lambda>part. 46 # 96 # part @ [96]) (split_dots path)))))"

text \<open>The columns of \<open>provenance_outbox\<close> (connectors/mysql/sql); \<open>created_at\<close> is never used.\<close>

record outbox_row =
  ob_sequence :: nat
  ob_eventId :: jsstr
  ob_envelope :: jsval
  ob_availableAt :: int
  ob_leaseOwner :: "jsstr option"
  ob_leaseToken :: "jsstr option"
  ob_leaseExpires :: "int option"
  ob_attempts :: nat
  ob_deliveredAt :: "int option"
  ob_deadAt :: "int option"
  ob_receipt :: "jsval option"
  ob_errorCode :: "jsstr option"
  ob_errorMessage :: "jsstr option"

type_synonym outbox = "outbox_row list"

text \<open>The insertion by the application, in the transaction of its business change: the defaults of the columns.\<close>

definition inserted_row :: "nat \<Rightarrow> jsstr \<Rightarrow> jsval \<Rightarrow> int \<Rightarrow> outbox_row" where
  "inserted_row sequence eventId envelope now = \<lparr>ob_sequence = sequence, ob_eventId = eventId, ob_envelope = envelope,
     ob_availableAt = now, ob_leaseOwner = None, ob_leaseToken = None, ob_leaseExpires = None, ob_attempts = 0,
     ob_deliveredAt = None, ob_deadAt = None, ob_receipt = None, ob_errorCode = None, ob_errorMessage = None\<rparr>"

section \<open>Transactions\<close>

text \<open>
  How the database ends a transaction that the code wants to commit: it commits, or a statement or the
  commit fails with a code; in the last case the commit may have taken effect. What the code itself
  throws rolls the transaction back.
\<close>

datatype db_outcome = Committed | Rolled_Back jsval | Unconfirmed jsval

definition transaction :: "db_outcome \<Rightarrow> (outbox \<times> 'a) answer \<Rightarrow> outbox \<Rightarrow> outbox \<times> 'a answer" where
  "transaction outcome body t =
     (case body of
        Inl e \<Rightarrow> (t, Inl e)
      | Inr (t', x) \<Rightarrow>
          (case outcome of
             Committed \<Rightarrow> (t', Inr x)
           | Rolled_Back code \<Rightarrow> (t, Inl (Runtime code))
           | Unconfirmed code \<Rightarrow> (t', Inl (Runtime code))))"

text \<open>An \<open>UPDATE\<close> of the rows that satisfy a condition, with the number of affected rows.\<close>

definition update_rows :: "(outbox_row \<Rightarrow> bool) \<Rightarrow> (outbox_row \<Rightarrow> outbox_row) \<Rightarrow> outbox \<Rightarrow> outbox \<times> nat" where
  "update_rows c f t = (map (\<lambda>r. if c r then f r else r) t, length (filter c t))"

section \<open>The repository\<close>

record repository =
  rp_leaseSeconds :: nat
  rp_maxAttempts :: nat

definition make_repository :: "bool \<Rightarrow> jsval \<Rightarrow> jsval \<Rightarrow> jsval \<Rightarrow> repository answer" where
  "make_repository pool table leaseSeconds maxAttempts =
     andThen (checks
       [demand pool type_error,
        demand (int_in 5 3600 leaseSeconds) type_error,
        demand (int_in 1 10000 maxAttempts) type_error])
     (bindR (quoteTablePath table) (\<lambda>_.
      Inr \<lparr>rp_leaseSeconds = nat (int_of leaseSeconds), rp_maxAttempts = nat (int_of maxAttempts)\<rparr>))"

record claimed =
  ci_sequence :: nat
  ci_eventId :: jsstr
  ci_envelope :: jsval
  ci_attempts :: nat
  ci_token :: jsstr

definition parseEnvelope :: "runtime \<Rightarrow> jsval \<Rightarrow> jsval" where
  "parseEnvelope rt v = (case v of JStr s \<Rightarrow> (case rt_json rt s of None \<Rightarrow> JNull | Some parsed \<Rightarrow> parsed) | _ \<Rightarrow> v)"

definition claimable :: "int \<Rightarrow> outbox_row \<Rightarrow> bool" where
  "claimable now r \<longleftrightarrow> ob_deliveredAt r = None \<and> ob_deadAt r = None \<and> ob_availableAt r \<le> now
     \<and> (case ob_leaseExpires r of None \<Rightarrow> True | Some expires \<Rightarrow> expires \<le> now)"

text \<open>\<open>SELECT ... FOR UPDATE SKIP LOCKED\<close>; \<open>locked\<close> holds the rows that other transactions have locked.\<close>

definition select_rows :: "nat set \<Rightarrow> int \<Rightarrow> nat \<Rightarrow> outbox \<Rightarrow> outbox_row list" where
  "select_rows locked now batchSize t =
     take batchSize (sort_key ob_sequence (filter (\<lambda>r. claimable now r \<and> ob_sequence r \<notin> locked) t))"

definition leased :: "repository \<Rightarrow> jsstr \<Rightarrow> jsstr \<Rightarrow> int \<Rightarrow> outbox_row \<Rightarrow> outbox_row" where
  "leased rp leaseOwner token now r = r\<lparr>ob_leaseOwner := Some leaseOwner, ob_leaseToken := Some token,
     ob_leaseExpires := Some (now + int (rp_leaseSeconds rp) * 1000000), ob_attempts := ob_attempts r + 1,
     ob_errorCode := None, ob_errorMessage := None\<rparr>"

definition claim_of :: "runtime \<Rightarrow> jsstr \<Rightarrow> outbox_row \<Rightarrow> claimed" where
  "claim_of rt token r = \<lparr>ci_sequence = ob_sequence r, ci_eventId = ob_eventId r,
     ci_envelope = parseEnvelope rt (ob_envelope r), ci_attempts = ob_attempts r + 1, ci_token = token\<rparr>"

definition printable :: "jsstr \<Rightarrow> bool" where
  "printable s \<longleftrightarrow> list_all (\<lambda>u. 32 \<le> unat u \<and> unat u \<le> 126) s"

text \<open>The circumstances of one claim: the token it draws, the rows that are locked, the times of its two
  statements, and how its transaction ends.\<close>

record claim_env =
  ce_token :: jsstr
  ce_locked :: "nat set"
  ce_selectTime :: int
  ce_updateTime :: int
  ce_outcome :: db_outcome

definition lease_selected :: "runtime \<Rightarrow> repository \<Rightarrow> jsstr \<Rightarrow> claim_env \<Rightarrow> outbox_row list \<Rightarrow> outbox \<Rightarrow> (outbox \<times> claimed list) answer" where
  "lease_selected rt rp leaseOwner ce rows t =
     (let (t', affected) = update_rows
        (\<lambda>r. ob_sequence r \<in> ob_sequence ` set rows \<and> ob_deliveredAt r = None \<and> ob_deadAt r = None)
        (leased rp leaseOwner (ce_token ce) (ce_updateTime ce)) t in
      andThen (demand (affected = length rows) type_error)
      (Inr (t', map (claim_of rt (ce_token ce)) rows)))"

definition claimBatch :: "runtime \<Rightarrow> repository \<Rightarrow> nat \<Rightarrow> jsstr \<Rightarrow> claim_env \<Rightarrow> outbox \<Rightarrow> outbox \<times> claimed list answer" where
  "claimBatch rt rp batchSize leaseOwner ce t =
     (if \<not> (1 \<le> batchSize \<and> batchSize \<le> 1000) then (t, Inl type_error)
      else if \<not> (1 \<le> length leaseOwner \<and> length leaseOwner \<le> 128 \<and> printable leaseOwner) then (t, Inl type_error)
      else
        (let rows = select_rows (ce_locked ce) (ce_selectTime ce) batchSize t in
         transaction (ce_outcome ce)
           (if rows = [] then Inr (t, []) else lease_selected rt rp leaseOwner ce rows t) t))"

text \<open>The condition under which a claimed row may be settled: its lease token is still the one of the claim.\<close>

definition still_leased :: "claimed \<Rightarrow> outbox_row \<Rightarrow> bool" where
  "still_leased item r \<longleftrightarrow> ob_sequence r = ci_sequence item \<and> ob_leaseToken r = Some (ci_token item)
     \<and> ob_deliveredAt r = None"

definition settle_row :: "claimed \<Rightarrow> (outbox_row \<Rightarrow> outbox_row) \<Rightarrow> outbox \<Rightarrow> outbox answer" where
  "settle_row item f t =
     (let (t', affected) = update_rows (still_leased item) f t in
      andThen (demand (affected = 1) type_error) (Inr t'))"

definition delivered_row :: "jsval \<Rightarrow> int \<Rightarrow> outbox_row \<Rightarrow> outbox_row" where
  "delivered_row receipt now r = r\<lparr>ob_deliveredAt := Some now, ob_receipt := Some receipt, ob_leaseOwner := None,
     ob_leaseToken := None, ob_leaseExpires := None, ob_errorCode := None, ob_errorMessage := None\<rparr>"

definition receipts_by_id :: "jsval list \<Rightarrow> (jsval, jsval) jsmap" where
  "receipts_by_id receipts = fold (\<lambda>receipt. jm_set (get_prop receipt ''eventId'') receipt) receipts []"

definition deliver_row :: "(jsval, jsval) jsmap \<Rightarrow> int \<Rightarrow> outbox \<Rightarrow> claimed \<Rightarrow> outbox answer" where
  "deliver_row byEventId now t item =
     (case jm_get byEventId (JStr (ci_eventId item)) of
        None \<Rightarrow> Inl type_error
      | Some receipt \<Rightarrow> settle_row item (delivered_row receipt now) t)"

definition markDelivered :: "claimed list \<Rightarrow> jsval list \<Rightarrow> int \<Rightarrow> db_outcome \<Rightarrow> outbox \<Rightarrow> outbox \<times> unit answer" where
  "markDelivered items receipts now outcome t =
     transaction outcome
       (bindR (foldR (deliver_row (receipts_by_id receipts) now) t items) (\<lambda>t'. Inr (t', ()))) t"

definition own_code :: "client_error \<Rightarrow> jsval" where
  "own_code e = (case e of Service se \<Rightarrow> se_code se | Runtime code \<Rightarrow> code)"

definition error_code_of :: "client_error \<Rightarrow> jsval" where
  "error_code_of e = coalesce (own_code e) (JStr (js ''DELIVERY_FAILED''))"

definition error_retryable :: "client_error \<Rightarrow> bool" where
  "error_retryable e = (case e of Service se \<Rightarrow> se_retryable se \<noteq> JBool False | Runtime code \<Rightarrow> True)"

definition failed_row :: "jsstr \<Rightarrow> bool \<Rightarrow> nat \<Rightarrow> int \<Rightarrow> outbox_row \<Rightarrow> outbox_row" where
  "failed_row errorCode dead retryMicros now r = r\<lparr>ob_leaseOwner := None, ob_leaseToken := None, ob_leaseExpires := None,
     ob_errorCode := Some errorCode, ob_errorMessage := Some (js ''Delivery failed with code '' @ errorCode),
     ob_deadAt := (if dead then Some now else ob_deadAt r),
     ob_availableAt := (if dead then ob_availableAt r else now + int retryMicros)\<rparr>"

definition fail_row :: "runtime \<Rightarrow> repository \<Rightarrow> client_error \<Rightarrow> nat \<Rightarrow> int \<Rightarrow> outbox \<Rightarrow> claimed \<Rightarrow> outbox answer" where
  "fail_row rt rp e retryMicros now t item =
     settle_row item (failed_row (take 128 (js_string rt (error_code_of e)))
       (\<not> error_retryable e \<or> rp_maxAttempts rp \<le> ci_attempts item) retryMicros now) t"

definition markFailed :: "runtime \<Rightarrow> repository \<Rightarrow> claimed list \<Rightarrow> client_error \<Rightarrow> nat \<Rightarrow> int \<Rightarrow> db_outcome \<Rightarrow> outbox \<Rightarrow> outbox \<times> unit answer" where
  "markFailed rt rp items e retryDelayMs now outcome t =
     transaction outcome
       (bindR (foldR (fail_row rt rp e (max 100000 (retryDelayMs * 1000)) now) t items) (\<lambda>t'. Inr (t', ()))) t"

record outbox_metrics =
  om_ready :: nat
  om_leased :: nat
  om_delivered :: nat
  om_dead :: nat
  om_oldestReadyAge :: int

definition operationalMetrics :: "int \<Rightarrow> outbox \<Rightarrow> outbox_metrics" where
  "operationalMetrics now t =
     (let count = (\<lambda>c. length (filter c t)); ready = filter (claimable now) t in
      \<lparr>om_ready = length ready,
       om_leased = count (\<lambda>r. ob_deliveredAt r = None \<and> ob_deadAt r = None
         \<and> (case ob_leaseExpires r of None \<Rightarrow> False | Some expires \<Rightarrow> now < expires)),
       om_delivered = count (\<lambda>r. ob_deliveredAt r \<noteq> None),
       om_dead = count (\<lambda>r. ob_deadAt r \<noteq> None),
       om_oldestReadyAge = (if ready = [] then 0 else now - Min (ob_availableAt ` set ready))\<rparr>)"

section \<open>The worker\<close>

record worker =
  wk_connectorId :: jsstr
  wk_batchSize :: nat
  wk_retryBaseMs :: nat
  wk_retryMaxMs :: nat

definition retryDelay :: "worker \<Rightarrow> nat \<Rightarrow> nat" where
  "retryDelay w attemptCount = min (wk_retryMaxMs w) (wk_retryBaseMs w * 2 ^ min 20 (attemptCount - 1))"

record worker_status =
  ws_state :: string
  ws_inFlight :: nat
  ws_deliveredEvents :: nat
  ws_failedBatches :: nat
  ws_lastErrorCode :: jsval

definition starting_status :: worker_status where
  "starting_status = \<lparr>ws_state = ''starting'', ws_inFlight = 0, ws_deliveredEvents = 0, ws_failedBatches = 0,
     ws_lastErrorCode = JNull\<rparr>"

definition check_envelope :: "claimed \<Rightarrow> unit answer" where
  "check_envelope item = checks
     [demand (is_object (ci_envelope item)) (service_failure 0 ''INVALID_OUTBOX_ENVELOPE'' False),
      demand (get_prop (ci_envelope item) ''eventId'' = JStr (ci_eventId item))
        (service_failure 0 ''OUTBOX_EVENT_ID_MISMATCH'' False)]"

text \<open>The part of a run that speaks to the service.\<close>

definition submit_claimed :: "client \<Rightarrow> 's fetch \<Rightarrow> jsstr \<Rightarrow> claimed list \<Rightarrow> 's \<Rightarrow> 's \<times> jsval list answer" where
  "submit_claimed c fetch requestId items s =
     (case checks (map check_envelope items) of
        Inl e \<Rightarrow> (s, Inl e)
      | Inr _ \<Rightarrow> submitAcceptedBatch c fetch requestId (map ci_envelope items) s)"

record round_env =
  re_claim :: claim_env
  re_requestId :: jsstr
  re_markTime :: int
  re_markOutcome :: db_outcome
  re_failTime :: int
  re_failOutcome :: db_outcome

definition record_failure ::
  "runtime \<Rightarrow> repository \<Rightarrow> worker \<Rightarrow> round_env \<Rightarrow> claimed list \<Rightarrow> client_error \<Rightarrow> outbox \<Rightarrow> outbox \<times> unit answer" where
  "record_failure rt rp w env items e t =
     markFailed rt rp items e (retryDelay w (Max (set (map ci_attempts items)))) (re_failTime env) (re_failOutcome env) t"

definition runOnce ::
  "runtime \<Rightarrow> repository \<Rightarrow> worker \<Rightarrow> client \<Rightarrow> 's fetch \<Rightarrow> round_env \<Rightarrow> outbox \<times> 's \<Rightarrow> worker_status
    \<Rightarrow> (outbox \<times> 's) \<times> worker_status \<times> nat answer" where
  "runOnce rt rp w c fetch env = (\<lambda>(t, s) st.
     case claimBatch rt rp (wk_batchSize w) (wk_connectorId w) (re_claim env) t of
       (t1, Inl e) \<Rightarrow> ((t1, s), st, Inl e)
     | (t1, Inr items) \<Rightarrow>
         if items = [] then ((t1, s), st, Inr 0)
         else
           (let (s', answer) = submit_claimed c fetch (re_requestId env) items s;
                (t2, stored) = (case answer of
                    Inl e \<Rightarrow> (t1, Inl e)
                  | Inr receipts \<Rightarrow> markDelivered items receipts (re_markTime env) (re_markOutcome env) t1) in
            case stored of
              Inr _ \<Rightarrow> ((t2, s'), st\<lparr>ws_inFlight := 0, ws_deliveredEvents := ws_deliveredEvents st + length items,
                  ws_lastErrorCode := JNull\<rparr>, Inr (length items))
            | Inl e \<Rightarrow>
                (case record_failure rt rp w env items e t2 of
                   (t3, Inl e') \<Rightarrow> ((t3, s'), st\<lparr>ws_inFlight := 0\<rparr>, Inl e')
                 | (t3, Inr _) \<Rightarrow> ((t3, s'), st\<lparr>ws_inFlight := 0, ws_failedBatches := ws_failedBatches st + 1,
                     ws_lastErrorCode := error_code_of e\<rparr>, Inr 0))))"

text \<open>One turn of the loop of \<open>run\<close>; the second result says whether it waits before the next.\<close>

definition run_turn ::
  "runtime \<Rightarrow> repository \<Rightarrow> worker \<Rightarrow> client \<Rightarrow> 's fetch \<Rightarrow> round_env \<Rightarrow> outbox \<times> 's \<Rightarrow> worker_status
    \<Rightarrow> (outbox \<times> 's) \<times> worker_status \<times> bool" where
  "run_turn rt rp w c fetch env x st =
     (case runOnce rt rp w c fetch env x st of
        (y, st', Inr delivered) \<Rightarrow> (y, st', delivered = 0)
      | (y, st', Inl e) \<Rightarrow>
          (y, st'\<lparr>ws_failedBatches := ws_failedBatches st' + 1,
             ws_lastErrorCode := coalesce (own_code e) (JStr (js ''CONNECTOR_LOOP_FAILED''))\<rparr>, True))"

text \<open>\<open>run\<close> until the signal is aborted: one turn for each element of the list.\<close>

fun run_worker ::
  "runtime \<Rightarrow> repository \<Rightarrow> worker \<Rightarrow> client \<Rightarrow> 's fetch \<Rightarrow> round_env list \<Rightarrow> outbox \<times> 's \<Rightarrow> worker_status
    \<Rightarrow> (outbox \<times> 's) \<times> worker_status" where
  "run_worker rt rp w c fetch [] x st = (x, st\<lparr>ws_state := ''stopped''\<rparr>)"
| "run_worker rt rp w c fetch (env # envs) x st =
     (case run_turn rt rp w c fetch env x (st\<lparr>ws_state := ''running''\<rparr>) of
        (y, st', waits) \<Rightarrow> run_worker rt rp w c fetch envs y st')"

end
