(* ===== verification/G9P_Connector.thy ===== *)
theory G9P_Connector
  imports G9P_Outbox G9P_Machine
begin

text \<open>
  Any number of workers over one outbox table, and the service they deliver to. Their claims,
  submissions, settlements and crashes interleave in any order, together with the insertions of the
  application and whatever else happens to the service. A run of the worker is a run of these steps.
\<close>

section \<open>Rows\<close>

definition settled :: "outbox_row \<Rightarrow> bool" where
  "settled r \<longleftrightarrow> ob_deliveredAt r \<noteq> None \<or> ob_deadAt r \<noteq> None"

definition same_entry :: "outbox_row \<Rightarrow> outbox_row \<Rightarrow> bool" where
  "same_entry r q \<longleftrightarrow> ob_sequence q = ob_sequence r \<and> ob_eventId q = ob_eventId r \<and> ob_envelope q = ob_envelope r"

definition row_grows :: "outbox_row \<Rightarrow> outbox_row \<Rightarrow> bool" where
  "row_grows r q \<longleftrightarrow> same_entry r q \<and> ob_attempts r \<le> ob_attempts q \<and> (settled r \<longrightarrow> q = r)"

definition outbox_grows :: "outbox \<Rightarrow> outbox \<Rightarrow> bool" where
  "outbox_grows t u \<longleftrightarrow> (\<forall>r \<in> set t. \<exists>q \<in> set u. row_grows r q)"

definition row_ok :: "outbox_row \<Rightarrow> bool" where
  "row_ok r \<longleftrightarrow> (ob_leaseToken r = None \<longleftrightarrow> ob_leaseExpires r = None) \<and> (ob_leaseToken r = None \<longleftrightarrow> ob_leaseOwner r = None)
     \<and> (settled r \<longrightarrow> ob_leaseToken r = None) \<and> (ob_deliveredAt r = None \<or> ob_deadAt r = None)
     \<and> (ob_receipt r = None \<longleftrightarrow> ob_deliveredAt r = None)
     \<and> (\<forall>v. ob_receipt r = Some v \<longrightarrow> get_prop v ''eventId'' = JStr (ob_eventId r))"

definition outbox_ok :: "outbox \<Rightarrow> bool" where
  "outbox_ok t \<longleftrightarrow> distinct (map ob_sequence t) \<and> distinct (map ob_eventId t) \<and> list_all row_ok t"

lemma row_grows_refl [simp]: "row_grows r r"
  by (simp add: row_grows_def same_entry_def)

lemma row_grows_trans: "row_grows r q \<Longrightarrow> row_grows q p \<Longrightarrow> row_grows r p"
  by (auto simp: row_grows_def same_entry_def)

lemma outbox_grows_refl: "outbox_grows t t"
  using row_grows_refl unfolding outbox_grows_def by blast

lemma outbox_grows_trans: "outbox_grows t u \<Longrightarrow> outbox_grows u v \<Longrightarrow> outbox_grows t v"
  unfolding outbox_grows_def by (meson row_grows_trans)

lemma outbox_grows_map: "(\<And>r. r \<in> set t \<Longrightarrow> row_grows r (f r)) \<Longrightarrow> outbox_grows t (map f t)"
  by (auto simp: outbox_grows_def)

lemma outbox_ok_map:
  assumes "outbox_ok t" and "\<And>r. r \<in> set t \<Longrightarrow> row_grows r (f r)" and "\<And>r. r \<in> set t \<Longrightarrow> row_ok r \<Longrightarrow> row_ok (f r)"
  shows "outbox_ok (map f t)"
proof -
  have "map ob_sequence (map f t) = map ob_sequence t" "map ob_eventId (map f t) = map ob_eventId t"
    using assms(2) by (auto simp: row_grows_def same_entry_def)
  then show ?thesis using assms(1,3) unfolding outbox_ok_def by (simp add: list_all_iff del: map_map)
qed

lemma same_id:
  assumes "outbox_ok t" and "r \<in> set t" and "q \<in> set t" and "ob_eventId r = ob_eventId q \<or> ob_sequence r = ob_sequence q"
  shows "r = q"
  using assms unfolding outbox_ok_def by (auto dest: inj_onD simp: distinct_map)

section \<open>Transactions on rows\<close>

lemma transaction_cases:
  assumes "transaction outcome body t = (u, answer)"
  obtains (1) e where "u = t" and "answer = Inl e"
  | (2) x where "body = Inr (u, x)" and "answer = Inr x \<or> (\<exists>e. answer = Inl e)"
  using assms by (auto simp: transaction_def split: sum.splits prod.splits db_outcome.splits)

lemma settle_row_Inr:
  "settle_row item f t = Inr u \<longleftrightarrow> u = map (\<lambda>r. if still_leased item r then f r else r) t
     \<and> length (filter (still_leased item) t) = 1"
  by (auto simp: settle_row_def update_rows_def andThen_Inr_iff demand_Inr)

text \<open>What a change of leased rows must do so that a table stays in order.\<close>

lemma settle_row_ok:
  assumes "settle_row item f t = Inr u" and "outbox_ok t"
    and "\<And>r. r \<in> set t \<Longrightarrow> still_leased item r \<Longrightarrow> row_ok r \<Longrightarrow> row_grows r (f r) \<and> row_ok (f r)"
  shows "outbox_ok u \<and> outbox_grows t u"
proof -
  have rows: "\<And>r. r \<in> set t \<Longrightarrow> row_ok r" using assms(2) by (simp add: outbox_ok_def list_all_iff)
  have u: "u = map (\<lambda>r. if still_leased item r then f r else r) t" using assms(1) by (simp add: settle_row_Inr)
  have g: "\<And>r. r \<in> set t \<Longrightarrow> row_grows r (if still_leased item r then f r else r)"
    and k: "\<And>r. r \<in> set t \<Longrightarrow> row_ok r \<Longrightarrow> row_ok (if still_leased item r then f r else r)"
    using assms(3) rows by simp_all
  show ?thesis unfolding u using outbox_ok_map [OF assms(2) g k] outbox_grows_map [OF g] by blast
qed

lemma still_leased_open: "still_leased item r \<Longrightarrow> row_ok r \<Longrightarrow> \<not> settled r \<and> ob_receipt r = None"
  by (auto simp: still_leased_def row_ok_def)

lemma failed_row_ok:
  assumes "row_ok r" and "\<not> settled r" and "ob_receipt r = None"
  shows "row_grows r (failed_row code dead micros now r) \<and> row_ok (failed_row code dead micros now r)"
  using assms by (auto simp: failed_row_def row_grows_def same_entry_def row_ok_def settled_def)

lemma delivered_row_ok:
  assumes "row_ok r" and "\<not> settled r" and "get_prop receipt ''eventId'' = JStr (ob_eventId r)"
  shows "row_grows r (delivered_row receipt now r) \<and> row_ok (delivered_row receipt now r)"
  using assms by (auto simp: delivered_row_def row_grows_def same_entry_def row_ok_def settled_def)

section \<open>Claims\<close>

text \<open>A claim in hand belongs to a row of the table.\<close>

definition claim_matches :: "runtime \<Rightarrow> outbox \<Rightarrow> claimed \<Rightarrow> bool" where
  "claim_matches rt t item \<longleftrightarrow> (\<exists>r \<in> set t. ob_sequence r = ci_sequence item \<and> ob_eventId r = ci_eventId item
     \<and> parseEnvelope rt (ob_envelope r) = ci_envelope item)"

lemma claim_matches_later: "claim_matches rt t item \<Longrightarrow> outbox_grows t u \<Longrightarrow> claim_matches rt u item"
  unfolding claim_matches_def outbox_grows_def row_grows_def same_entry_def by metis

lemma matched_row:
  assumes "outbox_ok t" and "r \<in> set t" and "claim_matches rt t item"
    and "ob_sequence r = ci_sequence item \<or> ob_eventId r = ci_eventId item"
  shows "ob_sequence r = ci_sequence item \<and> ob_eventId r = ci_eventId item
    \<and> parseEnvelope rt (ob_envelope r) = ci_envelope item"
proof -
  obtain q where q: "q \<in> set t" "ob_sequence q = ci_sequence item" "ob_eventId q = ci_eventId item"
    "parseEnvelope rt (ob_envelope q) = ci_envelope item" using assms(3) by (auto simp: claim_matches_def)
  then have "r = q" using same_id [OF assms(1,2) q(1)] assms(4) by auto
  then show ?thesis using q by simp
qed

lemma select_rows_sub: "r \<in> set (select_rows locked now n t) \<Longrightarrow> r \<in> set t \<and> claimable now r"
  unfolding select_rows_def by (drule in_set_takeD) simp

lemma claimable_open: "claimable now r \<Longrightarrow> \<not> settled r"
  by (simp add: claimable_def settled_def)

lemma leased_ok:
  assumes "row_ok r" and "\<not> settled r"
  shows "row_grows r (leased rp owner token now r) \<and> row_ok (leased rp owner token now r)"
  using assms by (auto simp: leased_def row_grows_def same_entry_def row_ok_def settled_def)

lemma lease_selected_ok:
  assumes "lease_selected rt rp owner ce rows t = Inr (u, items)" and "outbox_ok t" and "set rows \<subseteq> set t"
  shows "outbox_ok u \<and> outbox_grows t u \<and> list_all (claim_matches rt u) items"
proof -
  let ?c = "\<lambda>r. ob_sequence r \<in> ob_sequence ` set rows \<and> ob_deliveredAt r = None \<and> ob_deadAt r = None"
  let ?f = "\<lambda>r. if ?c r then leased rp owner (ce_token ce) (ce_updateTime ce) r else r"
  have u: "u = map ?f t" "items = map (claim_of rt (ce_token ce)) rows"
    using assms(1) by (simp_all add: lease_selected_def update_rows_def andThen_Inr_iff demand_Inr)
  have rows: "\<And>r. r \<in> set t \<Longrightarrow> row_ok r" using assms(2) by (simp add: outbox_ok_def list_all_iff)
  have g: "\<And>r. r \<in> set t \<Longrightarrow> row_grows r (?f r)" and k: "\<And>r. r \<in> set t \<Longrightarrow> row_ok r \<Longrightarrow> row_ok (?f r)"
    using leased_ok rows by (simp_all add: settled_def)
  have more: "outbox_grows t u" unfolding u(1) by (rule outbox_grows_map [OF g])
  have "claim_matches rt t item" if "item \<in> set items" for item
    using that assms(3) by (auto simp: u claim_matches_def claim_of_def)
  then have "list_all (claim_matches rt u) items" using claim_matches_later [OF _ more] by (auto simp: list_all_iff)
  then show ?thesis using outbox_ok_map [OF assms(2) g k] more u(1) by blast
qed

lemma claimBatch_ok:
  assumes "claimBatch rt rp n owner ce t = (u, answer)" and "outbox_ok t"
  shows "outbox_ok u \<and> outbox_grows t u \<and> (\<forall>items. answer = Inr items \<longrightarrow> list_all (claim_matches rt u) items)"
proof -
  let ?rows = "select_rows (ce_locked ce) (ce_selectTime ce) n t"
  have sub: "set ?rows \<subseteq> set t" using select_rows_sub by blast
  from assms(1) consider "u = t" "\<exists>e. answer = Inl e"
    | "transaction (ce_outcome ce) (if ?rows = [] then Inr (t, []) else lease_selected rt rp owner ce ?rows t) t = (u, answer)"
    by (auto simp: claimBatch_def Let_def split: if_splits)
  then show ?thesis
  proof cases
    case 1
    then show ?thesis using assms(2) by (auto simp: outbox_grows_refl)
  next
    case 2
    then show ?thesis
    proof (cases rule: transaction_cases)
      case 1
      then show ?thesis using assms(2) by (simp add: outbox_grows_refl)
    next
      case (2 items)
      then have "outbox_ok u \<and> outbox_grows t u \<and> list_all (claim_matches rt u) items"
        using lease_selected_ok [OF _ assms(2) sub] assms(2) by (auto simp: outbox_grows_refl split: if_splits)
      then show ?thesis using 2(2) by auto
    qed
  qed
qed

section \<open>Settlement\<close>

lemma markFailed_ok:
  assumes "markFailed rt rp items e ms now outcome t = (u, answer)" and "outbox_ok t"
  shows "outbox_ok u \<and> outbox_grows t u"
proof -
  have all: "outbox_ok v \<and> outbox_grows w v"
    if "foldR (fail_row rt rp e micros now) w items = Inr v" and "outbox_ok w" for micros w v
    using that
  proof (induction items arbitrary: w)
    case Nil
    then show ?case by (simp add: outbox_grows_refl)
  next
    case (Cons item items)
    then obtain x where x: "fail_row rt rp e micros now w item = Inr x" "foldR (fail_row rt rp e micros now) x items = Inr v"
      by (auto simp: res_simps)
    have "outbox_ok x \<and> outbox_grows w x"
      using settle_row_ok [OF x(1) [unfolded fail_row_def] Cons.prems(2)] still_leased_open failed_row_ok by blast
    then show ?case using Cons.IH [OF x(2)] outbox_grows_trans by blast
  qed
  from assms(1) show ?thesis unfolding markFailed_def
  proof (cases rule: transaction_cases)
    case 1
    then show ?thesis using assms(2) by (simp add: outbox_grows_refl)
  next
    case (2 x)
    then show ?thesis using all [OF _ assms(2)] by (auto simp: res_simps)
  qed
qed

lemma receipts_by_id_Some:
  assumes "jm_get (receipts_by_id receipts) k = Some receipt"
  shows "receipt \<in> set receipts \<and> get_prop receipt ''eventId'' = k"
proof -
  have "jm_get (fold (\<lambda>receipt. jm_set (get_prop receipt ''eventId'') receipt) receipts m) k = Some receipt \<Longrightarrow>
      (receipt \<in> set receipts \<and> get_prop receipt ''eventId'' = k) \<or> jm_get m k = Some receipt" for m
  proof (induction receipts arbitrary: m)
    case (Cons r receipts)
    from Cons.IH [of "jm_set (get_prop r ''eventId'') r m"] Cons.prems show ?case by (auto split: if_splits)
  qed simp
  from this [of "[]"] assms show ?thesis by (simp add: receipts_by_id_def)
qed

text \<open>Every row that a settlement delivers gets the receipt under its event identifier; \<open>good\<close> is what is
  known of the rows that were delivered before and of the receipts of this batch.\<close>

lemma markDelivered_ok:
  assumes "markDelivered items receipts now outcome t = (u, answer)" and "outbox_ok t"
    and "list_all (claim_matches rt t) items"
    and "\<And>r receipt. r \<in> set t \<Longrightarrow> receipt \<in> set receipts \<Longrightarrow> get_prop receipt ''eventId'' = JStr (ob_eventId r)
      \<Longrightarrow> good (ob_eventId r) (ob_envelope r) receipt"
    and "\<And>r receipt. r \<in> set t \<Longrightarrow> ob_receipt r = Some receipt \<Longrightarrow> good (ob_eventId r) (ob_envelope r) receipt"
  shows "outbox_ok u \<and> outbox_grows t u
    \<and> (\<forall>r \<in> set u. \<forall>receipt. ob_receipt r = Some receipt \<longrightarrow> good (ob_eventId r) (ob_envelope r) receipt)"
proof -
  let ?go = "foldR (deliver_row (receipts_by_id receipts) now)"
  let ?kept = "\<lambda>v. \<forall>r \<in> set v. \<exists>q \<in> set t. same_entry q r"
  let ?good = "\<lambda>v. \<forall>r \<in> set v. \<forall>receipt. ob_receipt r = Some receipt \<longrightarrow> good (ob_eventId r) (ob_envelope r) receipt"
  have all: "outbox_ok v \<and> outbox_grows w v \<and> ?kept v \<and> ?good v"
    if "?go w its = Inr v" and "outbox_ok w" and "list_all (claim_matches rt w) its" and "?kept w" and "?good w" for its w v
    using that
  proof (induction its arbitrary: w)
    case Nil
    then show ?case by (simp add: outbox_grows_refl)
  next
    case (Cons item its)
    then obtain x where first: "deliver_row (receipts_by_id receipts) now w item = Inr x" and later: "?go x its = Inr v"
      by (auto simp: res_simps)
    then obtain receipt where receipt: "jm_get (receipts_by_id receipts) (JStr (ci_eventId item)) = Some receipt"
      and settle: "settle_row item (delivered_row receipt now) w = Inr x" by (auto simp: deliver_row_def split: option.splits)
    note x = settle later
    note rc = receipts_by_id_Some [OF receipt]
    have row: "ob_eventId r = ci_eventId item" if "r \<in> set w" "still_leased item r" for r
      using matched_row [OF Cons.prems(2) that(1), of rt item] that(2) Cons.prems(3) by (auto simp: still_leased_def)
    have step: "outbox_ok x \<and> outbox_grows w x"
      using settle_row_ok [OF x(1) Cons.prems(2)] still_leased_open delivered_row_ok row rc by metis
    have xs: "x = map (\<lambda>r. if still_leased item r then delivered_row receipt now r else r) w"
      using x(1) by (simp add: settle_row_Inr)
    have "?kept x" using Cons.prems(4) by (auto simp: xs delivered_row_def same_entry_def)
    moreover have "?good x"
    proof (intro ballI allI impI)
      fix r v assume r: "r \<in> set x" "ob_receipt r = Some v"
      then obtain q where q: "q \<in> set w" "r = (if still_leased item q then delivered_row receipt now q else q)"
        by (auto simp: xs)
      show "good (ob_eventId r) (ob_envelope r) v"
      proof (cases "still_leased item q")
        case True
        from Cons.prems(4) q(1) obtain p where p: "p \<in> set t" "same_entry p q" by blast
        have "good (ob_eventId p) (ob_envelope p) receipt"
          using assms(4) [OF p(1)] rc row [OF q(1) True] p(2) by (simp add: same_entry_def)
        then show ?thesis using q(2) True r(2) p(2) by (simp add: delivered_row_def same_entry_def)
      next
        case False
        then show ?thesis using q r(2) Cons.prems(5) by simp
      qed
    qed
    moreover have "list_all (claim_matches rt x) its"
      using Cons.prems(3) claim_matches_later step by (auto simp: list_all_iff)
    ultimately show ?case using Cons.IH [OF x(2)] step outbox_grows_trans by blast
  qed
  from assms(1) show ?thesis unfolding markDelivered_def
  proof (cases rule: transaction_cases)
    case 1
    then show ?thesis using assms(2,5) by (simp add: outbox_grows_refl)
  next
    case (2 y)
    then show ?thesis using all [OF _ assms(2,3)] assms(5) by (force simp: res_simps same_entry_def)
  qed
qed

section \<open>The steps\<close>

text \<open>A batch in flight: claimed; answered by the service with receipts; or failing, to be recorded as failed.\<close>

datatype flight =
    Claimed_Batch "claimed list"
  | Answered "claimed list" "jsval list"
  | Failing "claimed list" client_error

record 's connector =
  cn_table :: outbox
  cn_flights :: "flight set"
  cn_service :: 's

definition claimed_flights :: "claimed list answer \<Rightarrow> flight set" where
  "claimed_flights answer = (case answer of Inr (item # items) \<Rightarrow> {Claimed_Batch (item # items)} | _ \<Rightarrow> {})"

definition submitted_flight :: "claimed list \<Rightarrow> jsval list answer \<Rightarrow> flight" where
  "submitted_flight items answer = (case answer of Inl e \<Rightarrow> Failing items e | Inr receipts \<Rightarrow> Answered items receipts)"

definition stored_flights :: "claimed list \<Rightarrow> unit answer \<Rightarrow> flight set" where
  "stored_flights items answer = (case answer of Inl e \<Rightarrow> {Failing items e} | Inr _ \<Rightarrow> {})"

inductive connector_step ::
  "runtime \<Rightarrow> repository \<Rightarrow> 's fetch \<Rightarrow> ('s \<Rightarrow> 's \<Rightarrow> bool) \<Rightarrow> 's connector \<Rightarrow> 's connector \<Rightarrow> bool"
  for rt rp fetch other where
  Insert: "sequence \<notin> ob_sequence ` set (cn_table c) \<Longrightarrow> eventId \<notin> ob_eventId ` set (cn_table c) \<Longrightarrow>
    connector_step rt rp fetch other c (c\<lparr>cn_table := cn_table c @ [inserted_row sequence eventId envelope now]\<rparr>)"
| Claim: "claimBatch rt rp n owner ce (cn_table c) = (u, answer) \<Longrightarrow>
    connector_step rt rp fetch other c (c\<lparr>cn_table := u, cn_flights := claimed_flights answer \<union> cn_flights c\<rparr>)"
| Submit: "Claimed_Batch items \<in> cn_flights c \<Longrightarrow> submit_claimed cl fetch requestId items (cn_service c) = (s, result) \<Longrightarrow>
    connector_step rt rp fetch other c (c\<lparr>cn_flights := insert (submitted_flight items result)
      (cn_flights c - {Claimed_Batch items}), cn_service := s\<rparr>)"
| Store: "Answered items receipts \<in> cn_flights c \<Longrightarrow> markDelivered items receipts now outcome (cn_table c) = (u, stored) \<Longrightarrow>
    connector_step rt rp fetch other c (c\<lparr>cn_table := u,
      cn_flights := stored_flights items stored \<union> (cn_flights c - {Answered items receipts})\<rparr>)"
| Fail: "Failing items e \<in> cn_flights c \<Longrightarrow> markFailed rt rp items e ms now outcome (cn_table c) = (u, recorded_it) \<Longrightarrow>
    connector_step rt rp fetch other c (c\<lparr>cn_table := u, cn_flights := cn_flights c - {Failing items e}\<rparr>)"
| Crash: "connector_step rt rp fetch other c (c\<lparr>cn_flights := cn_flights c - {f}\<rparr>)"
| Service: "other (cn_service c) s \<Longrightarrow> connector_step rt rp fetch other c (c\<lparr>cn_service := s\<rparr>)"

text \<open>A run of the worker is a run of these steps.\<close>

lemma runOnce_steps:
  assumes "runOnce rt rp w cl fetch env (t, s) st = ((u, s'), st', result)"
  shows "(connector_step rt rp fetch other)\<^sup>*\<^sup>* \<lparr>cn_table = t, cn_flights = {}, cn_service = s\<rparr>
     \<lparr>cn_table = u, cn_flights = {}, cn_service = s'\<rparr>"
proof -
  let ?at = "\<lambda>t F s. \<lparr>cn_table = t, cn_flights = F, cn_service = s\<rparr>" and ?step = "connector_step rt rp fetch other"
  obtain t1 claim where claim: "claimBatch rt rp (wk_batchSize w) (wk_connectorId w) (re_claim env) t = (t1, claim)" by fastforce
  have first: "?step (?at t {} s) (?at t1 (claimed_flights claim) s)"
    using Claim [where c = "?at t {} s" and n = "wk_batchSize w" and owner = "wk_connectorId w" and ce = "re_claim env"
        and u = t1 and answer = claim and rt = rt and rp = rp] claim by simp
  show ?thesis
  proof (cases "claimed_flights claim = {}")
    case True
    then have "u = t1" "s' = s" using assms claim
      by (auto simp: runOnce_def claimed_flights_def split: sum.splits list.splits)
    then show ?thesis using first True by auto
  next
    case False
    then obtain items where items: "claim = Inr items" "items \<noteq> []" "claimed_flights claim = {Claimed_Batch items}"
      by (auto simp: claimed_flights_def split: sum.splits list.splits)
    obtain s1 answer where submit: "submit_claimed cl fetch (re_requestId env) items s = (s1, answer)" by fastforce
    have second: "?step (?at t1 (claimed_flights claim) s) (?at t1 {submitted_flight items answer} s1)"
      using Submit [of items "?at t1 (claimed_flights claim) s" cl fetch "re_requestId env" s1 answer rt rp other] submit items(3)
      by simp
    have fail: "?step (?at v {Failing items e} s1) (?at v' {} s1)"
      if "record_failure rt rp w env items e v = (v', x)" for e v v' x
      using Fail [of items e "?at v {Failing items e} s1"] that by (simp add: record_failure_def)
    show ?thesis
    proof (cases answer)
      case (Inl e)
      obtain t3 x where rec: "record_failure rt rp w env items e t1 = (t3, x)" by fastforce
      have "u = t3" "s' = s1" using assms claim items(1,2) submit Inl rec
        by (auto simp: runOnce_def Let_def split: sum.splits)
      then show ?thesis using first second fail [OF rec] Inl by (simp add: submitted_flight_def)
    next
      case (Inr receipts)
      obtain t2 stored where store: "markDelivered items receipts (re_markTime env) (re_markOutcome env) t1 = (t2, stored)" by fastforce
      have third: "?step (?at t1 {Answered items receipts} s1) (?at t2 (stored_flights items stored) s1)"
        using Store [of items receipts "?at t1 {Answered items receipts} s1"] store by simp
      show ?thesis
      proof (cases stored)
        case (Inl e)
        obtain t3 x where rec: "record_failure rt rp w env items e t2 = (t3, x)" by fastforce
        have "u = t3" "s' = s1" using assms claim items(1,2) submit Inr store Inl rec
          by (auto simp: runOnce_def Let_def split: sum.splits)
        then show ?thesis using first second third fail [OF rec] Inr Inl
          by (simp add: submitted_flight_def stored_flights_def)
      next
        case (Inr v)
        have "u = t2" "s' = s1" using assms claim items(1,2) submit \<open>answer = Inr receipts\<close> store Inr
          by (auto simp: runOnce_def Let_def)
        then show ?thesis using first second third \<open>answer = Inr receipts\<close> Inr
          by (simp add: submitted_flight_def stored_flights_def)
      qed
    qed
  qed
qed

section \<open>The service\<close>

text \<open>
  What a connector relies on: whatever the service does, it stays sane and goes on vouching for the
  receipts it gave; and it vouches for the receipts of every batch that a submission reports as accepted.
\<close>

locale receipt_service =
  fixes fetch :: "'s fetch" and other :: "'s \<Rightarrow> 's \<Rightarrow> bool" and sane :: "'s \<Rightarrow> bool"
    and vouches :: "'s \<Rightarrow> jsval \<Rightarrow> jsval \<Rightarrow> bool"
  assumes submit_sane: "sane s \<Longrightarrow> submitAcceptedBatch c fetch i events s = (s', answer) \<Longrightarrow> sane s'"
    and other_sane: "sane s \<Longrightarrow> other s s' \<Longrightarrow> sane s'"
    and submit_vouches: "sane s \<Longrightarrow> submitAcceptedBatch c fetch i events s = (s', answer) \<Longrightarrow>
      vouches s event receipt \<Longrightarrow> vouches s' event receipt"
    and other_vouches: "sane s \<Longrightarrow> other s s' \<Longrightarrow> vouches s event receipt \<Longrightarrow> vouches s' event receipt"
    and accepted_vouched: "sane s \<Longrightarrow> submitAcceptedBatch c fetch i events s = (s', Inr receipts) \<Longrightarrow>
      list_all2 (vouches s') events receipts"

definition answered_for :: "('s \<Rightarrow> jsval \<Rightarrow> jsval \<Rightarrow> bool) \<Rightarrow> 's \<Rightarrow> claimed \<Rightarrow> jsval \<Rightarrow> bool" where
  "answered_for vouches s item receipt \<longleftrightarrow> get_prop receipt ''eventId'' = JStr (ci_eventId item)
     \<and> vouches s (ci_envelope item) receipt"

fun flight_ok :: "runtime \<Rightarrow> ('s \<Rightarrow> jsval \<Rightarrow> jsval \<Rightarrow> bool) \<Rightarrow> outbox \<Rightarrow> 's \<Rightarrow> flight \<Rightarrow> bool" where
  "flight_ok rt vouches t s (Claimed_Batch items) = list_all (claim_matches rt t) items"
| "flight_ok rt vouches t s (Answered items receipts) =
     (list_all (claim_matches rt t) items \<and> list_all2 (answered_for vouches s) items receipts)"
| "flight_ok rt vouches t s (Failing items e) = list_all (claim_matches rt t) items"

definition receipts_ok :: "runtime \<Rightarrow> ('s \<Rightarrow> jsval \<Rightarrow> jsval \<Rightarrow> bool) \<Rightarrow> 's \<Rightarrow> outbox \<Rightarrow> bool" where
  "receipts_ok rt vouches s t \<longleftrightarrow> (\<forall>r \<in> set t. \<forall>receipt. ob_receipt r = Some receipt \<longrightarrow>
     vouches s (parseEnvelope rt (ob_envelope r)) receipt)"

definition connector_inv :: "runtime \<Rightarrow> ('s \<Rightarrow> bool) \<Rightarrow> ('s \<Rightarrow> jsval \<Rightarrow> jsval \<Rightarrow> bool) \<Rightarrow> 's connector \<Rightarrow> bool" where
  "connector_inv rt sane vouches c \<longleftrightarrow> sane (cn_service c) \<and> outbox_ok (cn_table c)
     \<and> receipts_ok rt vouches (cn_service c) (cn_table c)
     \<and> (\<forall>f \<in> cn_flights c. flight_ok rt vouches (cn_table c) (cn_service c) f)"

definition connector_grows :: "'s connector \<Rightarrow> 's connector \<Rightarrow> bool" where
  "connector_grows c d \<longleftrightarrow> outbox_grows (cn_table c) (cn_table d)"

lemma flight_ok_later:
  assumes "flight_ok rt vouches t s f" and "outbox_grows t u"
    and "\<And>event receipt. vouches s event receipt \<Longrightarrow> vouches s' event receipt"
  shows "flight_ok rt vouches u s' f"
proof -
  have items: "list_all (claim_matches rt t) items \<Longrightarrow> list_all (claim_matches rt u) items" for items
    using claim_matches_later [OF _ assms(2)] by (auto simp: list_all_iff)
  have "list_all2 (answered_for vouches s) items receipts \<Longrightarrow> list_all2 (answered_for vouches s') items receipts"
    for items receipts by (erule list.rel_mono_strong) (simp add: answered_for_def assms(3))
  with assms(1) items show ?thesis by (cases f) simp_all
qed

lemma insert_ok:
  assumes "outbox_ok t" and "sequence \<notin> ob_sequence ` set t" and "eventId \<notin> ob_eventId ` set t"
  shows "outbox_ok (t @ [inserted_row sequence eventId envelope now])
    \<and> outbox_grows t (t @ [inserted_row sequence eventId envelope now])"
proof -
  have "row_ok (inserted_row sequence eventId envelope now)" by (simp add: row_ok_def inserted_row_def settled_def)
  moreover have "outbox_grows t (t @ [r])" for r unfolding outbox_grows_def set_append using row_grows_refl by blast
  ultimately show ?thesis using assms by (auto simp: outbox_ok_def inserted_row_def)
qed

lemma settled_receipt: "row_ok r \<Longrightarrow> ob_receipt r = Some receipt \<Longrightarrow> settled r"
  by (simp add: row_ok_def settled_def)

lemma receipts_ok_unchanged:
  assumes "receipts_ok rt vouches s t" and "\<And>q receipt. q \<in> set u \<Longrightarrow> ob_receipt q = Some receipt \<Longrightarrow> q \<in> set t"
  shows "receipts_ok rt vouches s u"
  using assms unfolding receipts_ok_def by blast

lemma claimBatch_receipts:
  assumes "claimBatch rt rp n owner ce t = (u, answer)" and "outbox_ok t" and "receipts_ok rt' vouches s t"
  shows "receipts_ok rt' vouches s u"
proof (rule receipts_ok_unchanged [OF assms(3)])
  fix q receipt
  assume q: "q \<in> set u" "ob_receipt q = Some receipt"
  have rows: "\<And>r. r \<in> set t \<Longrightarrow> row_ok r" using assms(2) by (simp add: outbox_ok_def list_all_iff)
  show "q \<in> set t"
    using assms(1) q rows settled_receipt
    by (auto simp: claimBatch_def transaction_def lease_selected_def update_rows_def andThen_Inr_iff demand_Inr demand_def
        leased_def settled_def Let_def split: if_splits sum.splits prod.splits db_outcome.splits) fastforce+
qed

lemma markFailed_receipts:
  assumes "markFailed rt rp items e ms now outcome t = (u, answer)" and "outbox_ok t" and "receipts_ok rt' vouches s t"
  shows "receipts_ok rt' vouches s u"
proof -
  have all: "receipts_ok rt' vouches s v"
    if "foldR (fail_row rt rp e micros now) w items = Inr v" "receipts_ok rt' vouches s w" for micros w v
    using that
  proof (induction items arbitrary: w)
    case (Cons item items)
    then obtain x where x: "fail_row rt rp e micros now w item = Inr x" "foldR (fail_row rt rp e micros now) x items = Inr v"
      by (auto simp: res_simps)
    have "receipts_ok rt' vouches s x"
      using x(1) Cons.prems(2) by (auto simp: fail_row_def settle_row_Inr receipts_ok_def failed_row_def)
    then show ?case using Cons.IH [OF x(2)] by blast
  qed simp
  from assms(1) show ?thesis unfolding markFailed_def
    by (cases rule: transaction_cases) (use all assms(3) in \<open>auto simp: res_simps\<close>)
qed

context receipt_service begin

lemma submit_claimed_keeps:
  assumes "sane s" and "submit_claimed cl fetch requestId items s = (s', result)"
  shows "sane s' \<and> (\<forall>event receipt. vouches s event receipt \<longrightarrow> vouches s' event receipt)"
  using assms submit_sane submit_vouches unfolding submit_claimed_def by (auto split: sum.splits)

lemma submit_claimed_answer:
  assumes "sane s" and "submit_claimed cl fetch requestId items s = (s', Inr receipts)"
  shows "list_all2 (answered_for vouches s') items receipts"
proof -
  from assms(2) have env: "\<forall>item \<in> set items. get_prop (ci_envelope item) ''eventId'' = JStr (ci_eventId item)"
    and submit: "submitAcceptedBatch cl fetch requestId (map ci_envelope items) s = (s', Inr receipts)"
    by (auto simp: submit_claimed_def checks_Inr_iff check_envelope_def demand_Inr andThen_Inr_iff split: sum.splits)
  have v: "list_all2 (vouches s') (map ci_envelope items) receipts" by (rule accepted_vouched [OF assms(1) submit])
  from submit obtain answer payload where "answer = Inr payload"
    "batch_receipts 2 validateLifecycleReceipt (map ci_envelope items) payload = Inr receipts"
    by (auto simp: submitAcceptedBatch_def res_simps split: if_splits prod.splits)
  then have "list_all2 (\<lambda>receipt event. validateLifecycleReceipt receipt = Inr ()
      \<and> get_prop receipt ''eventId'' = get_prop event ''eventId'') receipts (map ci_envelope items)"
    unfolding batch_receipts_Inr by blast
  then have "list_all2 (\<lambda>receipt event. get_prop receipt ''eventId'' = get_prop event ''eventId'') receipts (map ci_envelope items)"
    by (rule list.rel_mono_strong) blast
  then show ?thesis using v env by (auto simp: list_all2_conv_all_nth answered_for_def)
qed

lemma step_keeps:
  assumes "connector_inv rt sane vouches c" and "connector_step rt rp fetch other c d"
  shows "connector_inv rt sane vouches d \<and> connector_grows c d"
proof -
  let ?t = "cn_table c" and ?F = "cn_flights c" and ?s = "cn_service c"
  from assms(1) have s: "sane ?s" and t: "outbox_ok ?t" and r: "receipts_ok rt vouches ?s ?t"
    and F: "\<And>f. f \<in> ?F \<Longrightarrow> flight_ok rt vouches ?t ?s f" by (auto simp: connector_inv_def)
  have table: "connector_inv rt sane vouches (c\<lparr>cn_table := u, cn_flights := G \<union> H\<rparr>) \<and> connector_grows c (c\<lparr>cn_table := u, cn_flights := G \<union> H\<rparr>)"
    if "outbox_ok u" "outbox_grows ?t u" "receipts_ok rt vouches ?s u" "H \<subseteq> ?F" "\<forall>f \<in> G. flight_ok rt vouches u ?s f" for u G H
    using that s F flight_ok_later [OF _ that(2), of rt vouches ?s _ ?s] by (auto simp: connector_inv_def connector_grows_def)
  have same: "c\<lparr>cn_table := u, cn_flights := ?F\<rparr> = c\<lparr>cn_table := u\<rparr>"
    "c\<lparr>cn_table := ?t, cn_flights := G\<rparr> = c\<lparr>cn_flights := G\<rparr>" for u G by simp_all
  from assms(2) show ?thesis
  proof cases
    case (Insert sequence eventId envelope now)
    note new = insert_ok [OF t Insert(2,3), of envelope now]
    have "receipts_ok rt vouches ?s (?t @ [inserted_row sequence eventId envelope now])"
      using r by (auto simp: receipts_ok_def inserted_row_def)
    then show ?thesis using table [where u = "?t @ [inserted_row sequence eventId envelope now]" and G = "{}" and H = ?F] new Insert(1) by (simp add: same)
  next
    case (Claim n owner ce u answer)
    note ok = claimBatch_ok [OF Claim(2) t]
    have "receipts_ok rt vouches ?s u" by (rule claimBatch_receipts [OF Claim(2) t r])
    moreover have "\<forall>f \<in> claimed_flights answer. flight_ok rt vouches u ?s f"
      using ok by (auto simp: claimed_flights_def split: sum.splits list.splits)
    ultimately show ?thesis using table [where u = u and G = "claimed_flights answer" and H = ?F] ok Claim(1) by simp
  next
    case (Submit items cl requestId s' result)
    have items: "list_all (claim_matches rt ?t) items" using F [OF Submit(2)] by simp
    have kept: "sane s'" "\<And>event receipt. vouches ?s event receipt \<Longrightarrow> vouches s' event receipt"
      using submit_claimed_keeps [OF s Submit(3)] by blast+
    have "flight_ok rt vouches ?t s' (submitted_flight items result)"
      using items submit_claimed_answer [OF s, of cl requestId items s'] Submit(3)
      by (auto simp: submitted_flight_def split: sum.splits)
    moreover have "\<And>f. f \<in> ?F \<Longrightarrow> flight_ok rt vouches ?t s' f" using flight_ok_later [OF F outbox_grows_refl kept(2)] by blast
    ultimately show ?thesis using t kept r Submit(1)
      by (auto simp: connector_inv_def connector_grows_def outbox_grows_refl receipts_ok_def)
  next
    case (Store items receipts now outcome u stored)
    have f: "list_all (claim_matches rt ?t) items" "list_all2 (answered_for vouches ?s) items receipts"
      using F [OF Store(2)] by simp_all
    have "outbox_ok u \<and> outbox_grows ?t u \<and> (\<forall>q \<in> set u. \<forall>receipt. ob_receipt q = Some receipt \<longrightarrow>
        vouches ?s (parseEnvelope rt (ob_envelope q)) receipt)"
    proof (rule markDelivered_ok [OF Store(3) t f(1), where good = "\<lambda>i e receipt. vouches ?s (parseEnvelope rt e) receipt"])
      fix q receipt
      assume q: "q \<in> set ?t" "receipt \<in> set receipts" "get_prop receipt ''eventId'' = JStr (ob_eventId q)"
      from f(2) q(2) have "\<exists>item \<in> set items. answered_for vouches ?s item receipt"
        by (induction rule: list_all2_induct) auto
      then obtain item where item: "item \<in> set items" "answered_for vouches ?s item receipt" by blast
      have "claim_matches rt ?t item" using f(1) item(1) by (simp add: list_all_iff)
      moreover have "ob_eventId q = ci_eventId item" using item(2) q(3) unfolding answered_for_def by simp
      ultimately have "parseEnvelope rt (ob_envelope q) = ci_envelope item" using matched_row [OF t q(1)] by blast
      then show "vouches ?s (parseEnvelope rt (ob_envelope q)) receipt" using item(2) unfolding answered_for_def by simp
    next
      show "vouches ?s (parseEnvelope rt (ob_envelope q)) receipt" if "q \<in> set ?t" "ob_receipt q = Some receipt" for q receipt
        using r that unfolding receipts_ok_def by blast
    qed
    then have ok: "outbox_ok u" "outbox_grows ?t u" "receipts_ok rt vouches ?s u" unfolding receipts_ok_def by blast+
    have "list_all (claim_matches rt u) items" using f(1) claim_matches_later [OF _ ok(2)] by (auto simp: list_all_iff)
    then have "\<forall>f \<in> stored_flights items stored. flight_ok rt vouches u ?s f"
      by (auto simp: stored_flights_def split: sum.splits)
    then show ?thesis
      using table [where u = u and G = "stored_flights items stored" and H = "?F - {Answered items receipts}", OF ok] Store(1)
      by simp
  next
    case (Fail items e ms now outcome u recorded_it)
    note ok = markFailed_ok [OF Fail(3) t]
    have "receipts_ok rt vouches ?s u" by (rule markFailed_receipts [OF Fail(3) t r])
    then show ?thesis using table [where u = u and G = "{}" and H = "?F - {Failing items e}"] ok Fail(1) by simp
  next
    case (Crash f)
    then show ?thesis using table [where u = ?t and G = "{}" and H = "?F - {f}"] t r Crash by (simp add: outbox_grows_refl same)
  next
    case (Service s')
    have kept: "sane s'" "\<And>event receipt. vouches ?s event receipt \<Longrightarrow> vouches s' event receipt"
      using other_sane [OF s Service(2)] other_vouches [OF s Service(2)] by blast+
    then have "\<And>f. f \<in> ?F \<Longrightarrow> flight_ok rt vouches ?t s' f" using flight_ok_later [OF F outbox_grows_refl] by blast
    then show ?thesis using t kept r Service(1)
      by (auto simp: connector_inv_def connector_grows_def outbox_grows_refl receipts_ok_def)
  qed
qed

end

sublocale receipt_service \<subseteq> conn: machine "connector_step rt rp fetch other" "connector_inv rt sane vouches" connector_grows
  for rt rp
proof
  fix c d e
  show "connector_inv rt sane vouches d" and "connector_grows c d"
    if "connector_inv rt sane vouches c" "connector_step rt rp fetch other c d"
    using step_keeps [OF that] by blast+
  show "connector_grows c c" by (simp add: connector_grows_def outbox_grows_refl)
  show "connector_grows c e" if "connector_grows c d" "connector_grows d e"
    using that outbox_grows_trans by (auto simp: connector_grows_def)
qed

end
