(* ===== verification/G9P_Server.thy ===== *)
theory G9P_Server
  imports G9P_Ledger G9P_Client
begin

text \<open>
  The HTTP service in front of the ledger (services/ledger/src/server.js, services/ledger/src/metrics.js):
  credentials, the request body, the routes with their guards, and the mapping of errors to statuses.
  A request holds what the platform makes of it: the parsed URL, the sizes of the chunks of its body
  and the value that \<open>JSON.parse\<close> makes of them. What the handler throws becomes an error response.
\<close>

section \<open>What the ledger tells about itself\<close>

record ledger_info =
  in_knownEvents :: nat
  in_acceptedEvents :: nat
  in_acceptedBytes :: int
  in_provisionalEvents :: nat
  in_activeSegments :: nat
  in_activeBlockBytes :: int
  in_activeShardStreams :: nat
  in_knownRoutingLedgers :: nat
  in_lifecycle :: lifecycle
  in_policy :: jsval
  in_signerKeyId :: jsstr
  in_topologyAuthorityKeyId :: jsstr
  in_checkpointPublisherKeyId :: jsstr
  in_bundleId :: "jsstr option"
  in_backgroundError :: "string option"

text \<open>\<open>background\<close> is the code of the error that the age timer met last.\<close>

definition ledger_info_of :: "ledger_config \<Rightarrow> string option \<Rightarrow> ledger \<Rightarrow> ledger_info" where
  "ledger_info_of cfg background s = \<lparr>
     in_knownEvents = length (eventIndex s), in_acceptedEvents = length (pendingIndex s),
     in_acceptedBytes = pendingBytes s, in_provisionalEvents = length (provisionalIndex s),
     in_activeSegments = length (activeSegments s), in_activeBlockBytes = activeBlockBytes s,
     in_activeShardStreams = length (shardStates s), in_knownRoutingLedgers = length (routingEpochs s),
     in_lifecycle = limits_of cfg, in_policy = default_policy cfg, in_signerKeyId = keyId (segmentSigner cfg),
     in_topologyAuthorityKeyId = keyId (topologyAuthority cfg),
     in_checkpointPublisherKeyId = keyId (checkpointPublisher cfg),
     in_bundleId = map_option tu_bundleId (segmentTrustBundle cfg), in_backgroundError = background\<rparr>"

definition metric :: "string \<Rightarrow> string \<Rightarrow> int \<Rightarrow> jsstr" where
  "metric name help v = js ''# HELP '' @ js name @ [32] @ js help @ [10] @ js ''# TYPE '' @ js name @ js '' gauge''
     @ [10] @ js name @ [32] @ js_number v @ [10]"

definition ledger_metrics :: "ledger_info \<Rightarrow> jsstr" where
  "ledger_metrics info = concat
     [metric ''g9p_ledger_ready'' ''Whether the ledger has no recorded background failure.''
        (if in_backgroundError info = None then 1 else 0),
      metric ''g9p_ledger_known_events'' ''Events reconstructed from sealed verified history.'' (int (in_knownEvents info)),
      metric ''g9p_ledger_accepted_events'' ''Events retained in durable accepted intake.'' (int (in_acceptedEvents info)),
      metric ''g9p_ledger_accepted_bytes'' ''Canonical bytes retained in durable accepted intake.'' (in_acceptedBytes info),
      metric ''g9p_ledger_provisional_events'' ''Events in completed provisional blocks.'' (int (in_provisionalEvents info)),
      metric ''g9p_ledger_active_segments'' ''Active epoch-scoped shard segments.'' (int (in_activeSegments info)),
      metric ''g9p_ledger_active_block_bytes'' ''Aggregate uncompressed bytes in active memory blocks.''
        (in_activeBlockBytes info),
      metric ''g9p_ledger_routing_ledgers'' ''Ledgers with verified signed routing history.''
        (int (in_knownRoutingLedgers info)),
      metric ''g9p_ledger_intake_event_capacity'' ''Configured durable intake event capacity.''
        (int (maxAcceptedEvents (in_lifecycle info))),
      metric ''g9p_ledger_intake_byte_capacity'' ''Configured durable intake byte capacity.''
        (int (maxAcceptedBytes (in_lifecycle info))),
      metric ''g9p_ledger_active_block_byte_capacity'' ''Configured aggregate active-block memory capacity.''
        (int (maxActiveBlockBytes (in_lifecycle info)))]"

section \<open>Requests and responses\<close>

record server_config =
  sv_apiTokens :: "jsstr list"
  sv_adminTokens :: "jsstr list"
  sv_maxBatchEvents :: nat
  sv_maxRequestBytes :: nat

text \<open>\<open>sq_url\<close> is the path and the query parameters of the URL, \<open>None\<close> when it cannot be parsed.\<close>

record server_request =
  sq_method :: string
  sq_url :: "(jsstr \<times> (jsstr \<times> jsstr) list) option"
  sq_requestId :: jsstr
  sq_authorization :: "jsstr option"
  sq_chunks :: "nat list"
  sq_json :: "jsval option"

datatype server_payload =
    Error_Payload string bool
  | State_Payload string
  | Transition_Payload verified_epoch bool
  | Checkpoint_Payload verified_checkpoint
  | Info_Payload ledger_info
  | Metrics_Payload jsstr
  | Receipt_Payload receipt
  | Receipts_Payload nat "receipt list"

type_synonym server_response = "nat \<times> server_payload"

definition tokenMatches :: "jsstr option \<Rightarrow> jsstr list \<Rightarrow> bool" where
  "tokenMatches header expectedTokens =
     (case header of
        None \<Rightarrow> False
      | Some h \<Rightarrow> take 7 h = js ''Bearer '' \<and> (\<exists>token \<in> set expectedTokens. utf8 (drop 7 h) = utf8 token))"

definition hasExactFields :: "jsval \<Rightarrow> string list \<Rightarrow> bool" where
  "hasExactFields v expected \<longleftrightarrow> is_object v \<and> exact_keys v expected"

fun read_chunks :: "nat \<Rightarrow> nat \<Rightarrow> nat list \<Rightarrow> unit res" where
  "read_chunks allowed len [] = Inr ()"
| "read_chunks allowed len (chunk # chunks) =
     andThen (invariant (len + chunk \<le> allowed) ''REQUEST_TOO_LARGE'') (read_chunks allowed (len + chunk) chunks)"

definition readJson :: "server_config \<Rightarrow> server_request \<Rightarrow> jsval res" where
  "readJson sv rq =
     andThen (read_chunks (sv_maxRequestBytes sv) 0 (sq_chunks rq))
     (case sq_json rq of None \<Rightarrow> failWith ''INVALID_JSON'' | Some v \<Rightarrow> Inr v)"

section \<open>Errors\<close>

definition error_code :: "js_error \<Rightarrow> string option" where
  "error_code e = (case e of G9p c \<Rightarrow> Some c | JsTypeError \<Rightarrow> None | PlainError c \<Rightarrow> if c = [] then None else Some c)"

definition is_g9p_error :: "js_error \<Rightarrow> bool" where
  "is_g9p_error e = (case e of G9p c \<Rightarrow> True | _ \<Rightarrow> False)"

definition STORAGE_ERRORS :: "string list" where
  "STORAGE_ERRORS = [''INTAKE_WRITE'', ''ACTIVE_STATE_WRITE'', ''SEGMENT_WRITE'', ''COMPRESS_FAILED'']"

definition errorStatus :: "js_error \<Rightarrow> nat" where
  "errorStatus e =
     (if error_code e = Some ''REQUEST_TOO_LARGE'' then 413
      else if error_code e = Some ''EVENT_ID_CONFLICT'' then 409
      else if error_code e = Some ''RECEIPT_NOT_FOUND'' then 404
      else if error_code e = Some ''LEDGER_BACKPRESSURE'' then 429
      else if error_code e \<in> Some ` set STORAGE_ERRORS then 503
      else if is_g9p_error e then 400 else 500)"

definition retryable :: "js_error \<Rightarrow> bool" where
  "retryable e = (\<not> is_g9p_error e \<or> error_code e \<in> Some ` set (STORAGE_ERRORS @ [''LEDGER_BACKPRESSURE'']))"

definition error_response :: "js_error \<Rightarrow> server_response" where
  "error_response e = (errorStatus e,
     Error_Payload (case error_code e of None \<Rightarrow> ''INTERNAL_ERROR'' | Some c \<Rightarrow> c) (retryable e))"

definition unauthorised :: server_response where
  "unauthorised = (401, Error_Payload ''UNAUTHORISED'' False)"

definition route_not_found :: server_response where
  "route_not_found = (404, Error_Payload ''NOT_FOUND'' False)"

section \<open>Decoding a path component\<close>

definition hex_digit :: "16 word \<Rightarrow> nat option" where
  "hex_digit u =
     (let n = unat u in
      if 48 \<le> n \<and> n \<le> 57 then Some (n - 48) else if 65 \<le> n \<and> n \<le> 70 then Some (n - 55)
      else if 97 \<le> n \<and> n \<le> 102 then Some (n - 87) else None)"

fun percent_bytes :: "nat \<Rightarrow> jsstr \<Rightarrow> (byte list \<times> jsstr) option" where
  "percent_bytes 0 us = Some ([], us)"
| "percent_bytes (Suc n) (p # h # l # us) =
     (case (hex_digit h, hex_digit l) of
        (Some a, Some b) \<Rightarrow> if p = 37 then map_option (\<lambda>(bs, rest). (of_nat (16 * a + b) # bs, rest)) (percent_bytes n us)
          else None
      | _ \<Rightarrow> None)"
| "percent_bytes (Suc n) _ = None"

lemma percent_bytes_shorter: "percent_bytes n us = Some (bs, rest) \<Longrightarrow> length rest + 3 * n = length us"
  by (induction n us arbitrary: bs rule: percent_bytes.induct) (auto split: option.splits if_splits)

definition sequence_length :: "byte \<Rightarrow> nat" where
  "sequence_length b = (let n = unat b in if n < 0x80 then 1 else if n < 0xE0 then 2 else if n < 0xF0 then 3 else 4)"

text \<open>\<open>decodeURIComponent\<close>; \<open>None\<close> where it throws a \<open>URIError\<close>.\<close>

function decode_uri :: "jsstr \<Rightarrow> jsstr option" where
  "decode_uri us =
     (case us of
        [] \<Rightarrow> Some []
      | u # later \<Rightarrow>
          if u \<noteq> 37 then map_option (Cons u) (decode_uri later)
          else case percent_bytes 1 us of
              None \<Rightarrow> None
            | Some (lead, _) \<Rightarrow>
                (case percent_bytes (sequence_length (hd lead)) us of
                   None \<Rightarrow> None
                 | Some (bytes, rest) \<Rightarrow>
                     (case decode_code_point bytes of
                        Some (cp, []) \<Rightarrow> map_option ((@) (code_units cp)) (decode_uri rest)
                      | _ \<Rightarrow> None)))"
  by pat_completeness auto
termination
  by (relation "measure length") (auto dest!: percent_bytes_shorter simp: sequence_length_def Let_def split: if_splits)

declare decode_uri.simps [simp del]

section \<open>The routes\<close>

definition between :: "nat \<Rightarrow> nat \<Rightarrow> nat \<Rightarrow> bool" where
  "between lo hi n \<longleftrightarrow> lo \<le> n \<and> n \<le> hi"

definition batch_events :: "server_config \<Rightarrow> jsval \<Rightarrow> jsval list res" where
  "batch_events sv body =
     andThen (invariant (is_array (get_prop body ''events'')
         \<and> between 1 (sv_maxBatchEvents sv) (length (array_items (get_prop body ''events'')))) ''INVALID_BATCH'')
     (Inr (array_items (get_prop body ''events'')))"

text \<open>A property of the body that is not of the type a transition needs is refused there; a shard count
  that is missing is the default of \<open>createRoutingPolicy\<close>.\<close>

definition shard_argument :: "jsval \<Rightarrow> nat" where
  "shard_argument v = (if v = JUndef then 1 else nat (int_of v))"

definition run_transition :: "platform \<Rightarrow> ledger_config \<Rightarrow> jsval \<Rightarrow> server_response lm" where
  "run_transition X cfg body =
     (case get_prop body ''ledgerId'' of
        JStr ledgerId \<Rightarrow>
          bindS (transition_routing X cfg ledgerId (shard_argument (get_prop body ''shardCount''))
             (text_prop body ''reason'') (get_prop body ''expectedCurrentEpoch''))
          (\<lambda>(epoch, alreadyActive). retS (200, Transition_Payload epoch alreadyActive))
      | _ \<Rightarrow> failS ''LEDGER_TRANSITION_LEDGER'')"

definition find_receipt_request :: "jsstr \<Rightarrow> (jsstr \<times> jsstr) list \<Rightarrow> server_response lm" where
  "find_receipt_request name params =
     (case decode_uri name of
        None \<Rightarrow> failS ''RECEIPT_EVENT_ID''
      | Some eventId \<Rightarrow>
          thenS (checkS (length params = 1 \<and> js ''recordHash'' \<in> fst ` set params) ''RECEIPT_RECORD_HASH'')
          (bindS (receipt_lookup (JStr eventId) (case map_of params (js ''recordHash'') of Some h \<Rightarrow> JStr h | None \<Rightarrow> JNull))
          (\<lambda>r. retS (200, Receipt_Payload r))))"

definition as_admin :: "server_config \<Rightarrow> server_request \<Rightarrow> (jsval \<Rightarrow> server_response lm) \<Rightarrow> server_response lm" where
  "as_admin sv rq run =
     (if sv_adminTokens sv = [] then retS route_not_found
      else if \<not> tokenMatches (sq_authorization rq) (sv_adminTokens sv) then retS unauthorised
      else bindS (liftS (readJson sv rq)) run)"

definition serve ::
  "platform \<Rightarrow> ledger_config \<Rightarrow> server_config \<Rightarrow> string option \<Rightarrow> server_request \<Rightarrow> server_response lm" where
  "serve X cfg sv background rq =
     (case sq_url rq of
        None \<Rightarrow> liftS (Inl (PlainError ''ERR_INVALID_URL''))
      | Some (pathname, params) \<Rightarrow>
          (let route = (\<lambda>method path. sq_method rq = method \<and> pathname = js path);
               receipts = js ''/v2/receipts/'' in
           if route ''GET'' ''/health'' then retS (200, State_Payload ''ok'')
           else if route ''GET'' ''/ready'' then
             retS (if background = None then (200, State_Payload ''ready'') else (503, State_Payload ''not-ready''))
           else if route ''POST'' ''/v1/admin/routing-transitions'' then
             as_admin sv rq (\<lambda>body.
               thenS (checkS (get_prop body ''contractVersion'' = JInt 1) ''INVALID_TRANSITION'')
               (run_transition X cfg body))
           else if route ''POST'' ''/v1/admin/checkpoints'' then
             as_admin sv rq (\<lambda>body.
               thenS (checkS (hasExactFields body [''contractVersion'', ''ledgerId'']
                 \<and> get_prop body ''contractVersion'' = JInt 1 \<and> is_text (get_prop body ''ledgerId'')) ''INVALID_CHECKPOINT'')
               (bindS (publish_checkpoint X cfg (text_prop body ''ledgerId''))
               (\<lambda>checkpoint. retS (200, Checkpoint_Payload checkpoint))))
           else if \<not> tokenMatches (sq_authorization rq) (sv_apiTokens sv) then retS unauthorised
           else if route ''GET'' ''/v1/info'' then
             bindS (getS (ledger_info_of cfg background)) (\<lambda>info. retS (200, Info_Payload info))
           else if route ''GET'' ''/metrics'' then
             bindS (getS (ledger_info_of cfg background)) (\<lambda>info. retS (200, Metrics_Payload (ledger_metrics info)))
           else if sq_method rq = ''GET'' \<and> take (length receipts) pathname = receipts then
             find_receipt_request (drop (length receipts) pathname) params
           else if route ''POST'' ''/v1/events:batch'' then
             bindS (liftS (readJson sv rq)) (\<lambda>body.
             thenS (checkS (get_prop body ''contractVersion'' = JInt 1) ''INVALID_BATCH'')
             (bindS (liftS (batch_events sv body)) (\<lambda>events.
             bindS (ingest_batch X cfg events) (\<lambda>rs. retS (200, Receipts_Payload 1 rs)))))
           else if route ''POST'' ''/v2/events:batch'' then
             bindS (liftS (readJson sv rq)) (\<lambda>body.
             thenS (checkS (hasExactFields body [''contractVersion'', ''events'']
               \<and> get_prop body ''contractVersion'' = JInt 2) ''INVALID_BATCH'')
             (bindS (liftS (batch_events sv body)) (\<lambda>events.
             bindS (ingest_accepted_batch X cfg events) (\<lambda>rs. retS (202, Receipts_Payload 2 rs)))))
           else retS route_not_found))"

definition handle_request ::
  "platform \<Rightarrow> ledger_config \<Rightarrow> server_config \<Rightarrow> string option \<Rightarrow> server_request \<Rightarrow> ledger \<Rightarrow> ledger \<times> server_response" where
  "handle_request X cfg sv background rq s =
     (case serve X cfg sv background rq s of
        (t, Inr response) \<Rightarrow> (t, response)
      | (t, Inl e) \<Rightarrow> (t, error_response e))"

section \<open>Receipts as JSON\<close>

fun receipt_json :: "receipt \<Rightarrow> jsval" where
  "receipt_json (Sealed r) = obj
     [(''eventId'', JStr (rs_eventId r)), (''status'', JStr (js ''sealed'')), (''ledgerId'', JStr (rs_ledgerId r)),
      (''shardId'', JStr (rs_shardId r)), (''routingEpochNumber'', JInt (int (rs_routingEpochNumber r))),
      (''segmentNumber'', JInt (int (rs_segmentNumber r))), (''recordIndex'', JInt (int (rs_recordIndex r))),
      (''recordHash'', JStr (rs_recordHash r)), (''segmentHash'', JStr (rs_segmentHash r)),
      (''signerKeyId'', JStr (rs_signerKeyId r))]"
| "receipt_json (Provisional r) = obj
     [(''eventId'', JStr (rp_eventId r)), (''status'', JStr (js ''provisional'')), (''ledgerId'', JStr (rp_ledgerId r)),
      (''shardId'', JStr (rp_shardId r)), (''routingEpochNumber'', JInt (int (rp_routingEpochNumber r))),
      (''segmentNumber'', JInt (int (rp_segmentNumber r))), (''blockIndex'', JInt (int (rp_blockIndex r))),
      (''recordIndex'', JInt (int (rp_recordIndex r))), (''recordHash'', JStr (rp_recordHash r)),
      (''intakeSequence'', JInt (int (rp_intakeSequence r))), (''acceptedAt'', JStr (rp_acceptedAt r)),
      (''openedAt'', JStr (rp_openedAt r))]"
| "receipt_json (Accepted r) = obj
     [(''eventId'', JStr (ra_eventId r)), (''status'', JStr (js ''accepted'')), (''ledgerId'', JStr (ra_ledgerId r)),
      (''recordHash'', JStr (ra_recordHash r)), (''intakeSequence'', JInt (int (ra_intakeSequence r))),
      (''acceptedAt'', JStr (ra_acceptedAt r))]"

text \<open>The JSON that a connector reads; the message of an error is not modelled.\<close>

fun payload_json :: "jsstr \<Rightarrow> server_payload \<Rightarrow> jsval option" where
  "payload_json requestId (Error_Payload code retry) = Some (obj
     [(''code'', JStr (js code)), (''retryable'', JBool retry), (''requestId'', JStr requestId)])"
| "payload_json requestId (State_Payload status) = Some (obj [(''status'', JStr (js status))])"
| "payload_json requestId (Receipt_Payload r) = Some (obj
     [(''contractVersion'', JInt 2), (''receipt'', receipt_json r), (''requestId'', JStr requestId)])"
| "payload_json requestId (Receipts_Payload version rs) = Some (obj
     [(''contractVersion'', JInt (int version)), (''receipts'', JArr (map receipt_json rs)), (''requestId'', JStr requestId)])"
| "payload_json requestId _ = None"

end
