(* ===== verification/G9P_Receipts.thy ===== *)
theory G9P_Receipts
  imports G9P_Server G9P_Ledger_Theorems "HOL-Library.Multiset"
begin

text \<open>
  The receipts of the ledger and the contract of the connector client: the client accepts exactly the
  JSON objects of well-formed receipts, and the ledger's receipts for the events in its intake are
  well-formed.
\<close>

section \<open>Well-formed receipts\<close>

definition wf_count :: "nat \<Rightarrow> bool" where
  "wf_count n \<longleftrightarrow> n \<le> max_safe_integer"

fun wf_receipt :: "receipt \<Rightarrow> bool" where
  "wf_receipt (Accepted r) \<longleftrightarrow> ra_eventId r \<noteq> [] \<and> ra_ledgerId r \<noteq> [] \<and> is_hex64 (ra_recordHash r)
     \<and> wf_count (ra_intakeSequence r) \<and> is_canonical_timestamp (ra_acceptedAt r)"
| "wf_receipt (Provisional r) \<longleftrightarrow> rp_eventId r \<noteq> [] \<and> rp_ledgerId r \<noteq> [] \<and> is_hex64 (rp_recordHash r) \<and> rp_shardId r \<noteq> []
     \<and> wf_count (rp_intakeSequence r) \<and> wf_count (rp_routingEpochNumber r) \<and> wf_count (rp_segmentNumber r)
     \<and> wf_count (rp_blockIndex r) \<and> wf_count (rp_recordIndex r)
     \<and> is_canonical_timestamp (rp_acceptedAt r) \<and> is_canonical_timestamp (rp_openedAt r)"
| "wf_receipt (Sealed r) \<longleftrightarrow> rs_eventId r \<noteq> [] \<and> rs_ledgerId r \<noteq> [] \<and> is_hex64 (rs_recordHash r) \<and> rs_shardId r \<noteq> []
     \<and> wf_count (rs_routingEpochNumber r) \<and> wf_count (rs_segmentNumber r) \<and> wf_count (rs_recordIndex r)
     \<and> is_hex64 (rs_segmentHash r) \<and> is_hex64 (rs_signerKeyId r)"

text \<open>Objects with the same properties, in whatever order.\<close>

definition same_object :: "jsval \<Rightarrow> jsval \<Rightarrow> bool" where
  "same_object v w \<longleftrightarrow> is_object v \<and> is_object w \<and> sort (object_keys v) = sort (object_keys w)
     \<and> (\<forall>name. get_prop v name = get_prop w name)"

lemma timestamp_not_empty: "is_canonical_timestamp s \<Longrightarrow> s \<noteq> []"
  by (auto simp: is_canonical_timestamp_def canonical_time_def split_year_def)

lemma int_in_count: "int_in 0 MAX_SAFE v \<longleftrightarrow> (\<exists>n. v = JInt (int n) \<and> wf_count n)"
proof
  assume "int_in 0 MAX_SAFE v"
  then obtain i where i: "v = JInt i" "0 \<le> i" "i \<le> int max_safe_integer"
    by (cases v) (auto simp: int_in_def MAX_SAFE_def)
  then show "\<exists>n. v = JInt (int n) \<and> wf_count n" by (intro exI [of _ "nat i"]) (simp add: wf_count_def nat_le_iff)
qed (auto simp: int_in_def wf_count_def MAX_SAFE_def)

lemma non_empty_iff: "non_empty_string v \<longleftrightarrow> (\<exists>s. v = JStr s \<and> s \<noteq> [])"
  by (cases v) (simp_all add: non_empty_string_def)

lemma hash_iff: "hash_text v \<longleftrightarrow> (\<exists>s. v = JStr s \<and> is_hex64 s)"
  by (cases v) (simp_all add: hash_text_def)

lemma timestamp_iff: "non_empty_string v \<and> timestamp_text v \<longleftrightarrow> (\<exists>s. v = JStr s \<and> is_canonical_timestamp s)"
  using timestamp_not_empty by (cases v) (auto simp: non_empty_string_def timestamp_text_def)

lemma contract_simps:
  "receiptObject v = Inr () \<longleftrightarrow> is_object v"
  "requireHex v = Inr () \<longleftrightarrow> (\<exists>s. v = JStr s \<and> is_hex64 s)"
  "requireReceiptString v = Inr () \<longleftrightarrow> (\<exists>s. v = JStr s \<and> s \<noteq> [])"
  "requireInteger v = Inr () \<longleftrightarrow> (\<exists>n. v = JInt (int n) \<and> wf_count n)"
  "requireTimestamp v = Inr () \<longleftrightarrow> (\<exists>s. v = JStr s \<and> is_canonical_timestamp s)"
  "exactReceiptFields v ks = Inr () \<longleftrightarrow> exact_keys v ks"
  using timestamp_iff
  by (simp_all add: receiptObject_def requireHex_def requireReceiptString_def requireInteger_def requireTimestamp_def
    exactReceiptFields_def demand_Inr andThen_Inr_iff non_empty_iff hash_iff int_in_count)

text \<open>Whether an object has exactly the fields of another does not depend on their order.\<close>

lemma exact_keys_mset: "exact_keys v ks \<longleftrightarrow> mset (object_keys v) = mset (map js ks)"
proof
  assume "exact_keys v ks"
  then have "mset (sort (object_keys v)) = mset (sort (map js ks))" by (simp only: exact_keys_def)
  then show "mset (object_keys v) = mset (map js ks)" by simp
next
  assume "mset (object_keys v) = mset (map js ks)"
  then have "sorted_list_of_multiset (mset (object_keys v)) = sorted_list_of_multiset (mset (map js ks))" by simp
  then show "exact_keys v ks" by (simp only: exact_keys_def sorted_list_of_multiset_mset)
qed

lemma receipt_keys:
  "exact_keys (receipt_json (Accepted a)) ACCEPTED_FIELDS"
  "exact_keys (receipt_json (Provisional p)) PROVISIONAL_FIELDS"
  "exact_keys (receipt_json (Sealed q)) SEALED_FIELDS"
  by (simp_all add: exact_keys_mset ACCEPTED_FIELDS_def PROVISIONAL_FIELDS_def SEALED_FIELDS_def add_mset_commute
      del: js_Cons)

lemma is_object_receipt: "is_object (receipt_json r)"
  by (cases r) simp_all

lemma same_objectI:
  assumes "is_object v" and "exact_keys v ks" and "is_object w" and "exact_keys w ks"
    and "\<And>name. name \<in> set ks \<Longrightarrow> get_prop v name = get_prop w name"
  shows "same_object v w"
proof -
  have absent: "get_prop u name = JUndef" if "exact_keys u ks" "name \<notin> set ks" for u name
  proof -
    have "set (object_keys u) = js ` set ks" using that(1) by (metis exact_keys_mset set_map set_mset_mset)
    then have "js name \<notin> set (object_keys u)" using that(2) by auto
    then show ?thesis by (cases u) (force simp: get_prop_def object_keys_def split: option.split dest!: map_of_SomeD)+
  qed
  have "get_prop v name = get_prop w name" for name
    using assms(5) absent [OF assms(2)] absent [OF assms(4)] by (cases "name \<in> set ks") simp_all
  then show ?thesis using assms(1-4) by (simp add: same_object_def exact_keys_def)
qed

lemma wf_receipt_accepted:
  assumes "wf_receipt r" and "same_object v (receipt_json r)"
  shows "validateLifecycleReceipt v = Inr ()"
proof -
  have v: "is_object v" "\<And>name. get_prop v name = get_prop (receipt_json r) name"
    "exact_keys v ks \<longleftrightarrow> exact_keys (receipt_json r) ks" for ks
    using assms(2) by (simp_all add: same_object_def exact_keys_def)
  have texts: "is_hex64 s \<Longrightarrow> s \<noteq> []" for s by (auto simp: is_hex64_def)
  show ?thesis
    using assms(1) v(1) receipt_keys timestamp_not_empty
    by (cases r) (simp_all add: validateLifecycleReceipt_def Let_def contract_simps andThen_Inr_iff v(2,3)
        checks_Inr_iff del: js_Cons)
qed


text \<open>The receipt that an accepted object states.\<close>

definition count_of :: "jsval \<Rightarrow> string \<Rightarrow> nat" where
  "count_of v name = nat (int_of (get_prop v name))"

definition receipt_of :: "jsval \<Rightarrow> receipt" where
  "receipt_of v =
     (let text = text_prop v; number = count_of v in
      if text ''status'' = js ''accepted'' then Accepted \<lparr>ra_eventId = text ''eventId'', ra_ledgerId = text ''ledgerId'',
        ra_recordHash = text ''recordHash'', ra_intakeSequence = number ''intakeSequence'', ra_acceptedAt = text ''acceptedAt''\<rparr>
      else if text ''status'' = js ''provisional'' then Provisional \<lparr>rp_eventId = text ''eventId'',
        rp_ledgerId = text ''ledgerId'', rp_shardId = text ''shardId'', rp_routingEpochNumber = number ''routingEpochNumber'',
        rp_segmentNumber = number ''segmentNumber'', rp_blockIndex = number ''blockIndex'',
        rp_recordIndex = number ''recordIndex'', rp_recordHash = text ''recordHash'',
        rp_intakeSequence = number ''intakeSequence'', rp_acceptedAt = text ''acceptedAt'', rp_openedAt = text ''openedAt''\<rparr>
      else Sealed \<lparr>rs_eventId = text ''eventId'', rs_ledgerId = text ''ledgerId'', rs_shardId = text ''shardId'',
        rs_routingEpochNumber = number ''routingEpochNumber'', rs_segmentNumber = number ''segmentNumber'',
        rs_recordIndex = number ''recordIndex'', rs_recordHash = text ''recordHash'', rs_segmentHash = text ''segmentHash'',
        rs_signerKeyId = text ''signerKeyId''\<rparr>)"

lemma accepted_wf_receipt:
  assumes "validateLifecycleReceipt v = Inr ()"
  shows "wf_receipt (receipt_of v)" and "same_object v (receipt_json (receipt_of v))"
proof -
  obtain i l h where obj: "is_object v" and base: "get_prop v ''eventId'' = JStr i" "i \<noteq> []"
    "get_prop v ''ledgerId'' = JStr l" "l \<noteq> []" "get_prop v ''recordHash'' = JStr h" "is_hex64 h"
    using assms by (auto simp: validateLifecycleReceipt_def contract_simps andThen_Inr_iff checks_Inr_iff simp del: js_Cons)

  consider (acc) "get_prop v ''status'' = JStr (js ''accepted'')" | (prov) "get_prop v ''status'' = JStr (js ''provisional'')"
    | (seal) "get_prop v ''status'' = JStr (js ''sealed'')"
    using assms by (auto simp: validateLifecycleReceipt_def Let_def andThen_Inr_iff simp del: js_Cons split: if_splits)
  then have "wf_receipt (receipt_of v) \<and> same_object v (receipt_json (receipt_of v))"
  proof cases
    case acc
    then have "exact_keys v ACCEPTED_FIELDS" "\<exists>n. get_prop v ''intakeSequence'' = JInt (int n) \<and> wf_count n"
      "\<exists>s. get_prop v ''acceptedAt'' = JStr s \<and> is_canonical_timestamp s"
      using assms by (simp_all add: validateLifecycleReceipt_def Let_def contract_simps andThen_Inr_iff checks_Inr_iff del: js_Cons)
    note fields = this
    obtain x0 where own0: "get_prop v ''intakeSequence'' = JInt (int x0)" "wf_count x0" using fields(2) by blast
    obtain x1 where own1: "get_prop v ''acceptedAt'' = JStr x1" "is_canonical_timestamp x1" using fields(3) by blast
    note own = own0 own1
    have r: "receipt_of v = Accepted \<lparr>ra_eventId = i, ra_ledgerId = l, ra_recordHash = h, ra_intakeSequence = x0, ra_acceptedAt = x1\<rparr>"
      using own acc base by (simp add: receipt_of_def text_prop_def count_of_def int_of_def Let_def del: js_Cons)
    have "same_object v (receipt_json (receipt_of v))" unfolding r
      by (rule same_objectI [OF obj fields(1) is_object_receipt receipt_keys(1)])
        (use base acc own in \<open>auto simp: ACCEPTED_FIELDS_def simp del: js_Cons\<close>)
    then show ?thesis using base own by (simp add: r)
  next
    case prov
    then have "exact_keys v PROVISIONAL_FIELDS" "\<exists>s. get_prop v ''shardId'' = JStr s \<and> s \<noteq> []"
      "\<exists>n. get_prop v ''intakeSequence'' = JInt (int n) \<and> wf_count n"
      "\<exists>n. get_prop v ''routingEpochNumber'' = JInt (int n) \<and> wf_count n"
      "\<exists>n. get_prop v ''segmentNumber'' = JInt (int n) \<and> wf_count n"
      "\<exists>n. get_prop v ''blockIndex'' = JInt (int n) \<and> wf_count n"
      "\<exists>n. get_prop v ''recordIndex'' = JInt (int n) \<and> wf_count n"
      "\<exists>s. get_prop v ''acceptedAt'' = JStr s \<and> is_canonical_timestamp s"
      "\<exists>s. get_prop v ''openedAt'' = JStr s \<and> is_canonical_timestamp s"
      using assms by (simp_all add: validateLifecycleReceipt_def Let_def contract_simps andThen_Inr_iff checks_Inr_iff del: js_Cons)
    note fields = this
    obtain x0 where own0: "get_prop v ''shardId'' = JStr x0" "x0 \<noteq> []" using fields(2) by blast
    obtain x1 where own1: "get_prop v ''intakeSequence'' = JInt (int x1)" "wf_count x1" using fields(3) by blast
    obtain x2 where own2: "get_prop v ''routingEpochNumber'' = JInt (int x2)" "wf_count x2" using fields(4) by blast
    obtain x3 where own3: "get_prop v ''segmentNumber'' = JInt (int x3)" "wf_count x3" using fields(5) by blast
    obtain x4 where own4: "get_prop v ''blockIndex'' = JInt (int x4)" "wf_count x4" using fields(6) by blast
    obtain x5 where own5: "get_prop v ''recordIndex'' = JInt (int x5)" "wf_count x5" using fields(7) by blast
    obtain x6 where own6: "get_prop v ''acceptedAt'' = JStr x6" "is_canonical_timestamp x6" using fields(8) by blast
    obtain x7 where own7: "get_prop v ''openedAt'' = JStr x7" "is_canonical_timestamp x7" using fields(9) by blast
    note own = own0 own1 own2 own3 own4 own5 own6 own7
    have r: "receipt_of v = Provisional \<lparr>rp_eventId = i, rp_ledgerId = l, rp_shardId = x0, rp_routingEpochNumber = x2, rp_segmentNumber = x3, rp_blockIndex = x4, rp_recordIndex = x5, rp_recordHash = h, rp_intakeSequence = x1, rp_acceptedAt = x6, rp_openedAt = x7\<rparr>"
      using own prov base by (simp add: receipt_of_def text_prop_def count_of_def int_of_def Let_def del: js_Cons)
    have "same_object v (receipt_json (receipt_of v))" unfolding r
      by (rule same_objectI [OF obj fields(1) is_object_receipt receipt_keys(2)])
        (use base prov own in \<open>auto simp: PROVISIONAL_FIELDS_def simp del: js_Cons\<close>)
    then show ?thesis using base own by (simp add: r)
  next
    case seal
    then have "exact_keys v SEALED_FIELDS" "\<exists>s. get_prop v ''shardId'' = JStr s \<and> s \<noteq> []"
      "\<exists>n. get_prop v ''routingEpochNumber'' = JInt (int n) \<and> wf_count n"
      "\<exists>n. get_prop v ''segmentNumber'' = JInt (int n) \<and> wf_count n"
      "\<exists>n. get_prop v ''recordIndex'' = JInt (int n) \<and> wf_count n"
      "\<exists>s. get_prop v ''segmentHash'' = JStr s \<and> is_hex64 s"
      "\<exists>s. get_prop v ''signerKeyId'' = JStr s \<and> is_hex64 s"
      using assms by (simp_all add: validateLifecycleReceipt_def Let_def contract_simps andThen_Inr_iff checks_Inr_iff del: js_Cons)
    note fields = this
    obtain x0 where own0: "get_prop v ''shardId'' = JStr x0" "x0 \<noteq> []" using fields(2) by blast
    obtain x1 where own1: "get_prop v ''routingEpochNumber'' = JInt (int x1)" "wf_count x1" using fields(3) by blast
    obtain x2 where own2: "get_prop v ''segmentNumber'' = JInt (int x2)" "wf_count x2" using fields(4) by blast
    obtain x3 where own3: "get_prop v ''recordIndex'' = JInt (int x3)" "wf_count x3" using fields(5) by blast
    obtain x4 where own4: "get_prop v ''segmentHash'' = JStr x4" "is_hex64 x4" using fields(6) by blast
    obtain x5 where own5: "get_prop v ''signerKeyId'' = JStr x5" "is_hex64 x5" using fields(7) by blast
    note own = own0 own1 own2 own3 own4 own5
    have r: "receipt_of v = Sealed \<lparr>rs_eventId = i, rs_ledgerId = l, rs_shardId = x0, rs_routingEpochNumber = x1, rs_segmentNumber = x2, rs_recordIndex = x3, rs_recordHash = h, rs_segmentHash = x4, rs_signerKeyId = x5\<rparr>"
      using own seal base by (simp add: receipt_of_def text_prop_def count_of_def int_of_def Let_def del: js_Cons)
    have "same_object v (receipt_json (receipt_of v))" unfolding r
      by (rule same_objectI [OF obj fields(1) is_object_receipt receipt_keys(3)])
        (use base seal own in \<open>auto simp: SEALED_FIELDS_def simp del: js_Cons\<close>)
    then show ?thesis using base own by (simp add: r)
  qed
  then show "wf_receipt (receipt_of v)" and "same_object v (receipt_json (receipt_of v))" by blast+
qed

section \<open>The receipts of the ledger\<close>

lemma well_recorded_receipt:
  assumes "sha256_ok X" and "well_recorded X directory p"
  shows "wf_receipt (accepted_receipt_of p)"
proof -
  obtain hash where h: "event_hash_of_event X (pe_event p) = Inr hash" "pe_recordHash p = to_hex hash"
    and p: "pe_sequence p \<le> MAX_SEQUENCE" "is_canonical_timestamp (pe_acceptedAt p)"
    using assms(2) by (auto simp: well_recorded_def)
  have "length hash = 32" by (rule event_hash_facts(4) [OF h(1) assms(1)])
  then have "is_hex64 (to_hex hash)" by (simp add: is_hex64_def lower_hex_to_hex)
  moreover have "event_id (pe_event p) \<noteq> []" "event_ledger (pe_event p) \<noteq> []"
    using event_hash_facts(1) [OF h(1)]
    by (auto simp: validate_event_def event_id_def event_ledger_def text_prop_def res_simps validate_text_Inr)
  ultimately show ?thesis using p
    by (simp add: accepted_receipt_of_def h(2) wf_count_def MAX_SEQUENCE_def max_safe_integer_def)
qed

lemma waiting_receipts_conform:
  assumes "root_ok (dataDirectory cfg)" and "sha256_ok X" and "ledger_reachable X cfg s"
    and "jm_get (pendingIndex s) i = Some p"
  shows "validateLifecycleReceipt (receipt_json (accepted_receipt_of p)) = Inr ()"
proof -
  have "p \<in> held s" using assms(4) by (auto simp: held_def)
  then have "well_recorded X (intakeDirectory cfg) p"
    using guarded_record [OF reachable_guarded [OF assms(1,3)]] by (simp add: record_ok_def)
  then show ?thesis
    by (intro wf_receipt_accepted [OF well_recorded_receipt [OF assms(2)]])
      (auto simp: same_object_def accepted_receipt_of_def)
qed

section \<open>Property\<close>

text \<open>
  C23: The contract of the receipts. The connector client accepts an object as a receipt exactly if it has
  the fields of a well-formed receipt of the ledger, in any order and no others: texts that are not
  empty, hashes of 64 hexadecimal digits, counts that are safe integers and canonical timestamps.
\<close>

theorem receipts_are_typed:
  "validateLifecycleReceipt v = Inr () \<longleftrightarrow> (\<exists>r. wf_receipt r \<and> same_object v (receipt_json r))"
  using wf_receipt_accepted accepted_wf_receipt by blast

end
