(* ===== verification/G9P_Outbox_Props.thy ===== *)
theory G9P_Outbox_Props
  imports G9P_Connector G9P_Receipts
begin

text \<open>
  The promises of the outbox connector that do not depend on the service: rows settle once, leases are
  exclusive, one bad row takes its whole batch with it, and a run that nothing disturbs delivers.
\<close>

section \<open>Any service\<close>

text \<open>Of a service about which nothing is known, nothing is vouched for.\<close>

interpretation any_service: receipt_service fetch other "\<lambda>_. True" "\<lambda>_ _ _. True" for fetch other
proof
  fix s c i events s' receipts
  assume "submitAcceptedBatch c fetch i events s = (s', Inr receipts)"
  then have "length receipts = length events"
    by (auto simp: submitAcceptedBatch_def batch_receipts_Inr res_simps dest: list_all2_lengthD split: if_splits prod.splits)
  then show "list_all2 (\<lambda>_ _. True) events receipts" by (simp add: list_all2_conv_all_nth)
qed simp_all

section \<open>Lost leases\<close>

lemma no_lease_kept:
  assumes "\<forall>r \<in> set t. \<not> still_leased item r" and "settle_row other f t = Inr u"
    and "\<And>r. ob_sequence (f r) = ob_sequence r \<and> (ob_leaseToken (f r) = None \<or> ob_leaseToken (f r) = ob_leaseToken r)
      \<and> (ob_deliveredAt (f r) = None \<longrightarrow> ob_deliveredAt r = None)"
  shows "\<forall>r \<in> set u. \<not> still_leased item r"
proof
  fix q assume "q \<in> set u"
  then obtain r where r: "r \<in> set t" "q = (if still_leased other r then f r else r)" using assms(2) by (auto simp: settle_row_Inr)
  then show "\<not> still_leased item q" using assms(1) assms(3) [of r] by (fastforce simp: still_leased_def split: if_splits)
qed

lemma settle_row_lost: "\<forall>r \<in> set t. \<not> still_leased item r \<Longrightarrow> settle_row item f t = Inl type_error"
proof -
  assume "\<forall>r \<in> set t. \<not> still_leased item r"
  then have "filter (still_leased item) t = []" by (simp add: filter_empty_conv)
  then show ?thesis by (simp add: settle_row_def update_rows_def demand_def)
qed

text \<open>A sequence of settlements stops at an item whose lease is lost, whatever the others do.\<close>

lemma settle_all_lost:
  assumes "item \<in> set items" and "\<forall>r \<in> set t. \<not> still_leased item r"
    and "\<And>w it u. run w it = Inr u \<Longrightarrow> \<exists>f. settle_row it f w = Inr u \<and>
      (\<forall>r. ob_sequence (f r) = ob_sequence r \<and> ob_leaseToken (f r) = None \<and> (ob_deliveredAt (f r) = None \<longrightarrow> ob_deliveredAt r = None))"
  shows "\<exists>e. foldR run t items = Inl e"
  using assms(1,2)
proof (induction items arbitrary: t)
  case (Cons it items)
  show ?case
  proof (cases "run t it")
    case (Inl e)
    then show ?thesis by (simp add: res_simps)
  next
    case (Inr u)
    obtain f where f: "settle_row it f t = Inr u" "\<forall>r. ob_sequence (f r) = ob_sequence r \<and> ob_leaseToken (f r) = None
        \<and> (ob_deliveredAt (f r) = None \<longrightarrow> ob_deliveredAt r = None)" using assms(3) [OF Inr] by blast
    then have "it \<noteq> item" using settle_row_lost [OF Cons.prems(2)] by auto
    then have "item \<in> set items" using Cons.prems(1) by simp
    moreover have "\<forall>r \<in> set u. \<not> still_leased item r" using no_lease_kept [OF Cons.prems(2) f(1)] f(2) by blast
    ultimately show ?thesis using Cons.IH Inr by simp
  qed
qed simp

lemma markDelivered_lost:
  assumes "item \<in> set items" and "\<forall>r \<in> set t. \<not> still_leased item r"
  shows "\<exists>e. markDelivered items receipts now outcome t = (t, Inl e)"
proof -
  have "\<exists>e. foldR (deliver_row (receipts_by_id receipts) now) t items = Inl e"
  proof (rule settle_all_lost [OF assms])
    fix w it u
    assume "deliver_row (receipts_by_id receipts) now w it = Inr u"
    then obtain receipt where "settle_row it (delivered_row receipt now) w = Inr u"
      by (auto simp: deliver_row_def split: option.splits)
    then show "\<exists>f. settle_row it f w = Inr u \<and> (\<forall>r. ob_sequence (f r) = ob_sequence r \<and> ob_leaseToken (f r) = None
        \<and> (ob_deliveredAt (f r) = None \<longrightarrow> ob_deliveredAt r = None))"
      by (intro exI [of _ "delivered_row receipt now"]) (simp add: delivered_row_def)
  qed
  then show ?thesis by (auto simp: markDelivered_def transaction_def)
qed

lemma markFailed_lost:
  assumes "item \<in> set items" and "\<forall>r \<in> set t. \<not> still_leased item r"
  shows "\<exists>e. markFailed rt rp items reason ms now outcome t = (t, Inl e)"
proof -
  have "\<exists>e. foldR (fail_row rt rp reason micros now) t items = Inl e" for micros
  proof (rule settle_all_lost [OF assms])
    fix w it u
    assume "fail_row rt rp reason micros now w it = Inr u"
    then show "\<exists>f. settle_row it f w = Inr u \<and> (\<forall>r. ob_sequence (f r) = ob_sequence r \<and> ob_leaseToken (f r) = None
        \<and> (ob_deliveredAt (f r) = None \<longrightarrow> ob_deliveredAt r = None))"
      unfolding fail_row_def by (intro exI conjI) (auto simp: failed_row_def)
  qed
  then obtain e where "foldR (fail_row rt rp reason (max 100000 (ms * 1000)) now) t items = Inl e" by blast
  then show ?thesis by (simp add: markFailed_def transaction_def)
qed

section \<open>What a claim holds\<close>

lemma claimBatch_Inr:
  assumes "claimBatch rt rp n owner ce t = (u, Inr items)"
  shows "items = map (claim_of rt (ce_token ce)) (select_rows (ce_locked ce) (ce_selectTime ce) n t)"
    and "u = map (\<lambda>r. if ob_sequence r \<in> ob_sequence ` set (select_rows (ce_locked ce) (ce_selectTime ce) n t)
      \<and> ob_deliveredAt r = None \<and> ob_deadAt r = None then leased rp owner (ce_token ce) (ce_updateTime ce) r else r) t"
  using assms
  by (auto simp: claimBatch_def transaction_def lease_selected_def update_rows_def andThen_Inr_iff demand_Inr demand_def Let_def
      intro: map_idI [symmetric] split: if_splits sum.splits prod.splits db_outcome.splits)

lemma select_rows_distinct: "distinct (map ob_sequence t) \<Longrightarrow> distinct (map ob_sequence (select_rows locked now n t))"
proof -
  assume "distinct (map ob_sequence t)"
  then have "distinct (map ob_sequence (filter c t))" for c by (rule distinct_map_filter)
  then have "distinct (map ob_sequence (sort_key ob_sequence (filter c t)))" for c
    by (simp add: distinct_map)
  then show ?thesis unfolding select_rows_def take_map [symmetric] by (rule distinct_take)
qed

text \<open>After a claim has been committed, each of its items holds exactly its row.\<close>

lemma claimBatch_leased:
  assumes "claimBatch rt rp n owner ce t = (u, Inr items)" and "outbox_ok t"
  shows "distinct (map ci_sequence items)" and "distinct (map ob_sequence u)"
    and "item \<in> set items \<Longrightarrow> \<exists>r \<in> set t. claimable (ce_selectTime ce) r \<and> item = claim_of rt (ce_token ce) r
      \<and> leased rp owner (ce_token ce) (ce_updateTime ce) r \<in> set u"
    and "r \<in> set u \<Longrightarrow> item \<in> set items \<Longrightarrow> ob_sequence r = ci_sequence item \<Longrightarrow> still_leased item r"
proof -
  let ?rows = "select_rows (ce_locked ce) (ce_selectTime ce) n t"
  let ?lease = "\<lambda>r. if ob_sequence r \<in> ob_sequence ` set ?rows \<and> ob_deliveredAt r = None \<and> ob_deadAt r = None
    then leased rp owner (ce_token ce) (ce_updateTime ce) r else r"
  note eq = claimBatch_Inr [OF assms(1)]
  have d: "distinct (map ob_sequence t)" using assms(2) by (simp add: outbox_ok_def)
  have "map ci_sequence items = map ob_sequence ?rows" by (simp add: eq(1) claim_of_def)
  then show "distinct (map ci_sequence items)" using select_rows_distinct [OF d] by simp
  have "map ob_sequence u = map ob_sequence t" by (simp add: eq(2) leased_def)
  then show "distinct (map ob_sequence u)" using d by simp
  have open_row: "ob_deliveredAt r = None \<and> ob_deadAt r = None" if "r \<in> set ?rows" for r
    using select_rows_sub [OF that] by (simp add: claimable_def)
  show "\<exists>r \<in> set t. claimable (ce_selectTime ce) r \<and> item = claim_of rt (ce_token ce) r
      \<and> leased rp owner (ce_token ce) (ce_updateTime ce) r \<in> set u" if item: "item \<in> set items"
  proof -
    from item obtain r where r: "r \<in> set ?rows" "item = claim_of rt (ce_token ce) r" by (auto simp: eq(1))
    then have "r \<in> set t" "claimable (ce_selectTime ce) r" using select_rows_sub by blast+
    moreover have "?lease r = leased rp owner (ce_token ce) (ce_updateTime ce) r" using r(1) open_row [OF r(1)] by simp
    moreover have "?lease r \<in> set u" using \<open>r \<in> set t\<close> unfolding eq(2) set_map by (rule imageI)
    ultimately show ?thesis using r(2) by auto
  qed
  show "still_leased item r" if r: "r \<in> set u" "item \<in> set items" "ob_sequence r = ci_sequence item"
  proof -
    from r(2) obtain p where p: "p \<in> set ?rows" "item = claim_of rt (ce_token ce) p" by (auto simp: eq(1))
    from r(1) obtain q where q: "q \<in> set t" "r = ?lease q" by (auto simp: eq(2))
    then have "ob_sequence q = ob_sequence p" using r(3) p(2) by (auto simp: leased_def claim_of_def split: if_splits)
    then have "q = p" using same_id [OF assms(2) q(1)] select_rows_sub [OF p(1)] by blast
    then show ?thesis using p q open_row [OF p(1)] by (simp add: still_leased_def claim_of_def leased_def)
  qed
qed

section \<open>Settling a whole claim\<close>

definition settled_by :: "claimed list \<Rightarrow> (claimed \<Rightarrow> outbox_row \<Rightarrow> outbox_row) \<Rightarrow> outbox_row \<Rightarrow> outbox_row" where
  "settled_by items f r = (case find (\<lambda>item. ci_sequence item = ob_sequence r) items of None \<Rightarrow> r | Some item \<Rightarrow> f item r)"

lemma find_SomeD: "find P xs = Some x \<Longrightarrow> x \<in> set xs \<and> P x"
  by (induction xs) (auto split: if_splits)

lemma settled_by_item:
  assumes "distinct (map ci_sequence items)" and "item \<in> set items" and "ob_sequence r = ci_sequence item"
  shows "settled_by items f r = f item r"
proof -
  obtain other where other: "find (\<lambda>item. ci_sequence item = ob_sequence r) items = Some other"
    using assms(2,3) find_None_iff [of "\<lambda>item. ci_sequence item = ob_sequence r" items] by fastforce
  then have "other \<in> set items" "ci_sequence other = ci_sequence item" using assms(3) find_SomeD by fastforce+
  then have "other = item" using assms(1,2) by (auto simp: distinct_map dest: inj_onD)
  then show ?thesis using other by (simp add: settled_by_def)
qed

lemma settled_by_other: "ob_sequence r \<notin> ci_sequence ` set items \<Longrightarrow> settled_by items f r = r"
  by (auto simp: settled_by_def image_iff split: option.split dest!: find_SomeD)

lemma the_only: "p \<in> set t \<Longrightarrow> distinct (map ob_sequence t) \<Longrightarrow> filter (\<lambda>r. ob_sequence r = ob_sequence p) t = [p]"
proof (induction t)
  case (Cons q t)
  show ?case
  proof (cases "q = p")
    case True
    then have "\<forall>r \<in> set t. ob_sequence r \<noteq> ob_sequence p" using Cons.prems(2) by (metis distinct.simps(2) image_eqI list.simps(9) set_map)
    then show ?thesis using True by (simp add: filter_empty_conv)
  next
    case False
    then have "p \<in> set t" "ob_sequence q \<noteq> ob_sequence p" using Cons.prems by auto
    then show ?thesis using Cons by simp
  qed
qed simp

lemma settle_all:
  assumes "distinct (map ob_sequence t)" and "distinct (map ci_sequence items)"
    and "\<And>item. item \<in> set items \<Longrightarrow> \<exists>r \<in> set t. ob_sequence r = ci_sequence item"
    and "\<And>item r. item \<in> set items \<Longrightarrow> r \<in> set t \<Longrightarrow> ob_sequence r = ci_sequence item \<Longrightarrow> still_leased item r"
    and "\<And>w item. item \<in> set items \<Longrightarrow> run w item = settle_row item (f item) w"
    and "\<And>item r. ob_sequence (f item r) = ob_sequence r"
  shows "foldR run t items = Inr (map (settled_by items f) t)"
  using assms(1-5)
proof (induction items arbitrary: t)
  case Nil
  then show ?case by (simp add: settled_by_def map_idI)
next
  case (Cons item items)
  let ?u = "map (\<lambda>r. if still_leased item r then f item r else r) t"
  have leased: "still_leased item r \<longleftrightarrow> ob_sequence r = ci_sequence item" if "r \<in> set t" for r
    using Cons.prems(4) [OF _ that, of item] by (auto simp: still_leased_def)
  obtain p where p: "p \<in> set t" "ob_sequence p = ci_sequence item" using Cons.prems(3) by auto
  have "filter (still_leased item) t = filter (\<lambda>r. ob_sequence r = ob_sequence p) t" using leased p(2) by (simp cong: filter_cong)
  also have "\<dots> = [p]" using p(1) Cons.prems(1) by (rule the_only)
  finally have u: "run t item = Inr ?u" using Cons.prems(5) by (simp add: settle_row_Inr)
  have seqs: "map ob_sequence ?u = map ob_sequence t" using assms(6) by simp
  have rest: "foldR run ?u items = Inr (map (settled_by items f) ?u)"
  proof (rule Cons.IH)
    show "distinct (map ob_sequence ?u)" by (simp only: seqs Cons.prems(1))
    show "distinct (map ci_sequence items)" using Cons.prems(2) by simp
    show "\<exists>r \<in> set ?u. ob_sequence r = ci_sequence other" if "other \<in> set items" for other
    proof -
      obtain r where r: "r \<in> set t" "ob_sequence r = ci_sequence other" using Cons.prems(3) [of other] \<open>other \<in> set items\<close> by auto
      then have "(if still_leased item r then f item r else r) \<in> set ?u" by simp
      then show ?thesis by (rule rev_bexI) (simp add: assms(6) r(2))
    qed
    show "still_leased other r" if "other \<in> set items" "r \<in> set ?u" "ob_sequence r = ci_sequence other" for other r
    proof -
      from that(2) obtain q where q: "q \<in> set t" "r = (if still_leased item q then f item q else q)" by auto
      have "ci_sequence other \<noteq> ci_sequence item" using that(1) Cons.prems(2) by (metis distinct.simps(2) image_eqI list.simps(9) set_map)
      then have "r = q" using q that(3) leased [OF q(1)] assms(6) by (auto split: if_splits)
      then show ?thesis using Cons.prems(4) q(1) that by auto
    qed
    show "run w other = settle_row other (f other) w" if "other \<in> set items" for w other
      using Cons.prems(5) that by simp
  qed
  have "settled_by items f (if still_leased item r then f item r else r) = settled_by (item # items) f r" if r: "r \<in> set t" for r
  proof (cases "ob_sequence r = ci_sequence item")
    case True
    then have "ob_sequence (f item r) \<notin> ci_sequence ` set items" using Cons.prems(2) assms(6) by simp
    then show ?thesis using settled_by_other True leased [OF r] by (simp add: settled_by_def)
  next
    case False
    then show ?thesis using leased [OF r] by (auto simp: settled_by_def)
  qed
  then show ?case using rest u by simp
qed

section \<open>Runs of the worker\<close>

lemma receipts_by_id_found:
  assumes "receipt \<in> set receipts"
  shows "\<exists>found. jm_get (receipts_by_id receipts) (get_prop receipt ''eventId'') = Some found"
proof -
  have "jm_get (fold (\<lambda>receipt. jm_set (get_prop receipt ''eventId'') receipt) receipts m) k \<noteq> None"
    if "(\<exists>r \<in> set receipts. get_prop r ''eventId'' = k) \<or> jm_get m k \<noteq> None" for k m
    using that
  proof (induction receipts arbitrary: m)
    case (Cons r receipts)
    from Cons.prems have "(\<exists>r \<in> set receipts. get_prop r ''eventId'' = k) \<or> jm_get (jm_set (get_prop r ''eventId'') r m) k \<noteq> None"
      by auto
    from Cons.IH [OF this] show ?case by simp
  qed simp
  from this [where m = "[]"] assms show ?thesis by (auto simp: receipts_by_id_def)
qed

text \<open>A settlement right after a claim reaches every row of the claim.\<close>

lemma settle_claim:
  assumes "claimBatch rt rp n owner ce t = (u, Inr items)" and "outbox_ok t"
    and "\<And>w item. item \<in> set items \<Longrightarrow> run w item = settle_row item (f item) w"
    and "\<And>item r. ob_sequence (f item r) = ob_sequence r"
  obtains v where "foldR run u items = Inr v"
    and "\<And>item. item \<in> set items \<Longrightarrow> \<exists>r. row_ok r \<and> claimable (ce_selectTime ce) r \<and> ob_sequence r = ci_sequence item
      \<and> ob_eventId r = ci_eventId item \<and> f item (leased rp owner (ce_token ce) (ce_updateTime ce) r) \<in> set v"
proof -
  note claim = claimBatch_leased [OF assms(1,2)]
  have row: "\<exists>r \<in> set t. claimable (ce_selectTime ce) r \<and> ob_sequence r = ci_sequence item \<and> ob_eventId r = ci_eventId item
      \<and> leased rp owner (ce_token ce) (ce_updateTime ce) r \<in> set u" if "item \<in> set items" for item
    using claim(3) [OF that] by (auto simp: claim_of_def)
  have all: "foldR run u items = Inr (map (settled_by items f) u)"
  proof (rule settle_all [OF claim(2,1)])
    show "\<exists>r \<in> set u. ob_sequence r = ci_sequence item" if "item \<in> set items" for item
    proof -
      obtain r where "leased rp owner (ce_token ce) (ce_updateTime ce) r \<in> set u" "ob_sequence r = ci_sequence item"
        using row [of item] \<open>item \<in> set items\<close> by blast
      then show ?thesis by (intro bexI [of _ "leased rp owner (ce_token ce) (ce_updateTime ce) r"]) (simp_all add: leased_def)
    qed
  qed (use assms(3,4) claim(4) in auto)
  show thesis
  proof (rule that [OF all])
    fix item assume item: "item \<in> set items"
    obtain r where r: "r \<in> set t" "claimable (ce_selectTime ce) r" "ob_sequence r = ci_sequence item"
      "ob_eventId r = ci_eventId item" "leased rp owner (ce_token ce) (ce_updateTime ce) r \<in> set u" using row [OF item] by blast
    have "settled_by items f (leased rp owner (ce_token ce) (ce_updateTime ce) r) \<in> set (map (settled_by items f) u)"
      using r(5) by simp
    moreover have "settled_by items f (leased rp owner (ce_token ce) (ce_updateTime ce) r)
        = f item (leased rp owner (ce_token ce) (ce_updateTime ce) r)"
      using settled_by_item [OF claim(1) item] r(3) by (simp add: leased_def)
    moreover have "row_ok r" using assms(2) r(1) by (simp add: outbox_ok_def list_all_iff)
    ultimately show "\<exists>r. row_ok r \<and> claimable (ce_selectTime ce) r \<and> ob_sequence r = ci_sequence item
      \<and> ob_eventId r = ci_eventId item \<and> f item (leased rp owner (ce_token ce) (ce_updateTime ce) r) \<in> set (map (settled_by items f) u)"
      using r(2-4) by auto
  qed
qed

lemma check_envelope_refuses:
  "check_envelope item = Inl e \<Longrightarrow> e = service_failure 0 ''INVALID_OUTBOX_ENVELOPE'' False
     \<or> e = service_failure 0 ''OUTBOX_EVENT_ID_MISMATCH'' False"
  by (auto simp: check_envelope_def demand_def andThen_def split: if_splits sum.splits)

lemma checks_Inl: "checks rs = Inl e \<Longrightarrow> Inl e \<in> set rs"
  by (induction rs) (auto simp: andThen_def bindR_def split: sum.splits)

section \<open>Samples\<close>

definition no_service :: "unit fetch" where
  "no_service rq = (\<lambda>s. (s, Unreachable))"

definition plain_runtime :: runtime where
  "plain_runtime = \<lparr>rt_json = (\<lambda>_. None), rt_double = (\<lambda>_. [])\<rparr>"

definition plain_repository :: repository where
  "plain_repository = \<lparr>rp_leaseSeconds = 30, rp_maxAttempts = 20\<rparr>"

definition plain_worker :: worker where
  "plain_worker = \<lparr>wk_connectorId = js ''w'', wk_batchSize = 100, wk_retryBaseMs = 1000, wk_retryMaxMs = 60000\<rparr>"

definition plain_claim :: "string \<Rightarrow> claim_env" where
  "plain_claim token = \<lparr>ce_token = js token, ce_locked = {}, ce_selectTime = 10, ce_updateTime = 11, ce_outcome = Committed\<rparr>"

definition plain_round :: round_env where
  "plain_round = \<lparr>re_claim = plain_claim ''t'', re_requestId = js ''r'', re_markTime = 20, re_markOutcome = Committed,
     re_failTime = 30, re_failOutcome = Committed\<rparr>"

definition plain_row :: "string \<Rightarrow> jsval \<Rightarrow> outbox_row" where
  "plain_row i envelope = inserted_row 1 (js i) envelope 5"

lemma plain_table: "outbox_ok [plain_row i envelope]"
  by (simp add: outbox_ok_def row_ok_def settled_def plain_row_def inserted_row_def)

lemma plain_claimed:
  "claimBatch plain_runtime plain_repository 100 (js ''w'') (plain_claim token) [plain_row i envelope]
    = ([leased plain_repository (js ''w'') (js token) 11 (plain_row i envelope)],
       Inr [claim_of plain_runtime (js token) (plain_row i envelope)])"
  by (simp add: claimBatch_def plain_claim_def plain_row_def inserted_row_def select_rows_def claimable_def
      lease_selected_def update_rows_def demand_def transaction_def printable_def)

section \<open>Properties\<close>

text \<open>
  C8: The rows of the outbox settle once and for good. Whatever the service answers and however
  many workers take turns and crash, a row that the application inserted stays, with its event and
  its envelope; sequence numbers and event identifiers stay unique; owner, token and expiry of a lease
  come and go together; a row is never both delivered and dead; a receipt is there exactly for a
  delivered row and is for its event; and once a row is delivered or dead it never changes again.
\<close>

theorem outbox_rows_settle_once:
  assumes "(connector_step rt rp fetch other)\<^sup>*\<^sup>* \<lparr>cn_table = [], cn_flights = {}, cn_service = s\<rparr> c"
    and "(connector_step rt rp fetch other)\<^sup>*\<^sup>* c d" and "r \<in> set (cn_table c)"
  shows "row_ok r \<and> distinct (map ob_sequence (cn_table c)) \<and> distinct (map ob_eventId (cn_table c))
    \<and> (\<exists>q \<in> set (cn_table d). same_entry r q \<and> ob_attempts r \<le> ob_attempts q \<and> (settled r \<longrightarrow> q = r))"
proof -
  let ?inv = "connector_inv rt (\<lambda>_. True) (\<lambda>_ _ _. True)"
  have "?inv \<lparr>cn_table = [], cn_flights = {}, cn_service = s\<rparr>"
    by (simp add: connector_inv_def outbox_ok_def receipts_ok_def)
  from any_service.conn.run_inv [OF assms(1) this] have c: "?inv c" .
  then have "outbox_ok (cn_table c)" by (simp add: connector_inv_def)
  moreover have "outbox_grows (cn_table c) (cn_table d)"
    using any_service.conn.run_grows [OF assms(2) c] by (simp add: connector_grows_def)
  ultimately show ?thesis using assms(3) unfolding outbox_ok_def outbox_grows_def row_grows_def list_all_iff by blast
qed

theorem outbox_rows_settle_once_witness:
  "\<exists>d :: unit connector. \<exists>q \<in> set (cn_table d). same_entry (plain_row ''e'' JNull) q"
proof -
  let ?step = "connector_step plain_runtime plain_repository no_service (\<lambda>_ _. False)"
  let ?at = "\<lambda>t F. \<lparr>cn_table = t, cn_flights = F, cn_service = ()\<rparr>"
  let ?d = "?at [leased plain_repository (js ''w'') (js ''t'') 11 (plain_row ''e'' JNull)]
    {Claimed_Batch [claim_of plain_runtime (js ''t'') (plain_row ''e'' JNull)]}"
  have 1: "?step (?at [] {}) (?at [plain_row ''e'' JNull] {})"
    using Insert [where c = "?at [] {}" and sequence = 1 and eventId = "js ''e''" and envelope = JNull and now = 5]
    by (simp add: plain_row_def del: js_Cons)
  have 2: "?step (?at [plain_row ''e'' JNull] {}) ?d"
    using Claim [where c = "?at [plain_row ''e'' JNull] {}", unfolded connector.simps, OF plain_claimed]
    by (simp add: claimed_flights_def del: js_Cons)
  have "\<exists>q \<in> set (cn_table ?d). same_entry (plain_row ''e'' JNull) q"
    using outbox_rows_settle_once [OF r_into_rtranclp [where r = ?step, OF 1] r_into_rtranclp [where r = ?step, OF 2],
        of "plain_row ''e'' JNull"] by auto
  then show ?thesis by blast
qed

text \<open>
  C13: A lease belongs to one worker. A worker claims only rows without an unexpired lease; and when it
  has claimed a row that another worker had in hand before, the other can no longer settle any row of
  its batch: to store receipts or to record a failure is refused, and the table stays as it is.
\<close>

theorem leases_are_exclusive:
  assumes "outbox_ok t" and "claimBatch rt rp n owner ce t = (u, Inr items)"
    and "taken \<in> set items" and "mine \<in> set claims" and "ci_sequence mine = ci_sequence taken"
    and "ci_token mine \<noteq> ce_token ce"
  shows "(\<exists>r \<in> set t. ob_sequence r = ci_sequence taken \<and>
      (case ob_leaseExpires r of None \<Rightarrow> True | Some expires \<Rightarrow> expires \<le> ce_selectTime ce))
    \<and> (\<exists>e. markDelivered claims receipts now outcome u = (u, Inl e))
    \<and> (\<exists>e. markFailed rt rp claims reason ms now outcome u = (u, Inl e))"
proof -
  note claim = claimBatch_leased [OF assms(2,1)]
  have token: "ci_token taken = ce_token ce" using claim(3) [OF assms(3)] by (auto simp: claim_of_def)
  have "\<not> still_leased mine r" if "r \<in> set u" for r
    using claim(4) [OF that assms(3)] assms(5,6) token by (auto simp: still_leased_def)
  then have lost: "\<forall>r \<in> set u. \<not> still_leased mine r" by blast
  have "\<exists>r \<in> set t. ob_sequence r = ci_sequence taken \<and>
      (case ob_leaseExpires r of None \<Rightarrow> True | Some expires \<Rightarrow> expires \<le> ce_selectTime ce)"
    using claim(3) [OF assms(3)] by (auto simp: claim_of_def claimable_def)
  with markDelivered_lost [OF assms(4) lost] markFailed_lost [OF assms(4) lost] show ?thesis by blast
qed

theorem leases_are_exclusive_witness:
  "\<exists>e. markDelivered [claim_of plain_runtime (js ''old'') (plain_row ''e'' JNull)] [] 12 Committed
      [leased plain_repository (js ''w'') (js ''new'') 11 (plain_row ''e'' JNull)]
    = ([leased plain_repository (js ''w'') (js ''new'') 11 (plain_row ''e'' JNull)], Inl e)"
  using leases_are_exclusive [OF plain_table plain_claimed [where token = "''new''" and i = "''e''" and envelope = JNull],
      where taken = "claim_of plain_runtime (js ''new'') (plain_row ''e'' JNull)"
        and mine = "claim_of plain_runtime (js ''old'') (plain_row ''e'' JNull)"
        and claims = "[claim_of plain_runtime (js ''old'') (plain_row ''e'' JNull)]"
        and receipts = "[]" and now = 12 and outcome = Committed]
  by (simp add: claim_of_def plain_claim_def)

text \<open>
  C26: One bad row takes its batch with it. When one of the rows of a claim does not hold an event
  object, or an event with another identifier, nothing is submitted, and once the failure is
  recorded every row of the claim is dead, with the code of that failure, the good ones too.
\<close>

theorem bad_row_kills_its_batch:
  assumes "outbox_ok t" and "claimBatch rt rp (wk_batchSize w) (wk_connectorId w) (re_claim env) t = (u, Inr items)"
    and "bad \<in> set items" and "check_envelope bad = Inl refusal" and "re_failOutcome env = Committed"
  shows "\<exists>v st'. runOnce rt rp w c fetch env (t, s) st = ((v, s), st', Inr 0)
    \<and> (\<forall>item \<in> set items. \<exists>q \<in> set v. ob_sequence q = ci_sequence item \<and> ob_eventId q = ci_eventId item
        \<and> ob_deadAt q = Some (re_failTime env) \<and> ob_deliveredAt q = None
        \<and> ob_errorCode q \<in> {Some (js ''INVALID_OUTBOX_ENVELOPE''), Some (js ''OUTBOX_EVENT_ID_MISMATCH'')})"
proof -
  have "checks (map check_envelope items) \<noteq> Inr ()" using assms(3,4) by (force simp: checks_Inr_iff)
  then obtain e where e: "checks (map check_envelope items) = Inl e" by (cases "checks (map check_envelope items)") auto
  then have "Inl e \<in> check_envelope ` set items" using checks_Inl by force
  then have code: "e = service_failure 0 ''INVALID_OUTBOX_ENVELOPE'' False \<or> e = service_failure 0 ''OUTBOX_EVENT_ID_MISMATCH'' False"
    using check_envelope_refuses by (auto simp: image_iff) (metis+)
  let ?micros = "max 100000 (retryDelay w (Max (set (map ci_attempts items))) * 1000)"
  obtain v where v: "foldR (fail_row rt rp e ?micros (re_failTime env)) u items = Inr v"
    and rows: "\<And>item. item \<in> set items \<Longrightarrow> \<exists>r. row_ok r \<and> claimable (ce_selectTime (re_claim env)) r
      \<and> ob_sequence r = ci_sequence item \<and> ob_eventId r = ci_eventId item
      \<and> failed_row (take 128 (js_string rt (error_code_of e))) True ?micros (re_failTime env)
          (leased rp (wk_connectorId w) (ce_token (re_claim env)) (ce_updateTime (re_claim env)) r) \<in> set v"
  proof (rule settle_claim [OF assms(2,1), where run = "fail_row rt rp e ?micros (re_failTime env)"
        and f = "\<lambda>item. failed_row (take 128 (js_string rt (error_code_of e))) True ?micros (re_failTime env)"])
    show "fail_row rt rp e ?micros (re_failTime env) x item
        = settle_row item (failed_row (take 128 (js_string rt (error_code_of e))) True ?micros (re_failTime env)) x" for x item
      using code by (auto simp: fail_row_def error_retryable_def service_failure_def)
  qed (simp_all add: failed_row_def)
  have "take 128 (js_string rt (error_code_of e)) \<in> {js ''INVALID_OUTBOX_ENVELOPE'', js ''OUTBOX_EVENT_ID_MISMATCH''}"
    using code by (auto simp: error_code_of_def own_code_def service_failure_def coalesce_def)
  moreover have "runOnce rt rp w c fetch env (t, s) st = ((v, s), st\<lparr>ws_inFlight := 0, ws_failedBatches := ws_failedBatches st + 1,
      ws_lastErrorCode := error_code_of e\<rparr>, Inr 0)"
    using assms(2,3,5) e v
    by (auto simp: runOnce_def Let_def submit_claimed_def record_failure_def markFailed_def transaction_def)
  moreover have "\<exists>q \<in> set v. ob_sequence q = ci_sequence item \<and> ob_eventId q = ci_eventId item
      \<and> ob_deadAt q = Some (re_failTime env) \<and> ob_deliveredAt q = None
      \<and> ob_errorCode q = Some (take 128 (js_string rt (error_code_of e)))" if "item \<in> set items" for item
  proof -
    obtain r where r: "claimable (ce_selectTime (re_claim env)) r" "ob_sequence r = ci_sequence item" "ob_eventId r = ci_eventId item"
      "failed_row (take 128 (js_string rt (error_code_of e))) True ?micros (re_failTime env)
          (leased rp (wk_connectorId w) (ce_token (re_claim env)) (ce_updateTime (re_claim env)) r) \<in> set v"
      using rows [OF \<open>item \<in> set items\<close>] by blast
    from r(4) show ?thesis by (rule rev_bexI) (use r(1-3) in \<open>simp add: failed_row_def leased_def claimable_def\<close>)
  qed
  ultimately show ?thesis by (intro exI [of _ v] exI conjI ballI) (assumption | fastforce)+
qed

theorem bad_row_kills_its_batch_witness:
  "\<exists>v st'. runOnce plain_runtime plain_repository plain_worker \<lparr>cl_tokens = [], cl_timeoutMs = 100\<rparr> no_service plain_round
      ([plain_row ''e'' JNull], ()) starting_status = ((v, ()), st', Inr 0) \<and> (\<exists>q \<in> set v. ob_deadAt q = Some 30)"
proof -
  let ?item = "claim_of plain_runtime (js ''t'') (plain_row ''e'' JNull)"
  have refused: "check_envelope ?item = Inl (service_failure 0 ''INVALID_OUTBOX_ENVELOPE'' False)"
    by (simp add: check_envelope_def claim_of_def parseEnvelope_def plain_row_def inserted_row_def is_object_def demand_def)
  have "claimBatch plain_runtime plain_repository (wk_batchSize plain_worker) (wk_connectorId plain_worker)
      (re_claim plain_round) [plain_row ''e'' JNull] = ([leased plain_repository (js ''w'') (js ''t'') 11 (plain_row ''e'' JNull)], Inr [?item])"
    using plain_claimed [of "''t''" "''e''" JNull] by (simp add: plain_worker_def plain_round_def del: js_Cons)
  note dead = bad_row_kills_its_batch [OF plain_table this _ refused, where c = "\<lparr>cl_tokens = [], cl_timeoutMs = 100\<rparr>"
      and fetch = no_service and s = "()" and st = starting_status]
  have "?item \<in> set [?item]" "re_failOutcome plain_round = Committed" "re_failTime plain_round = 30"
    by (simp_all add: plain_round_def)
  then show ?thesis using dead by (metis (no_types, lifting))
qed

text \<open>
  C25: A run that nothing disturbs delivers. When a worker has claimed rows that hold their events, the
  service accepts them and the database commits, the run reports the number of rows, and every
  row of the claim is delivered with the receipt that the service returned for its event.
\<close>

theorem undisturbed_run_delivers:
  assumes "outbox_ok t" and "claimBatch rt rp (wk_batchSize w) (wk_connectorId w) (re_claim env) t = (u, Inr items)"
    and "\<And>item. item \<in> set items \<Longrightarrow> check_envelope item = Inr ()"
    and "submitAcceptedBatch c fetch (re_requestId env) (map ci_envelope items) s = (s', Inr receipts)"
    and "re_markOutcome env = Committed"
  shows "\<exists>v st'. runOnce rt rp w c fetch env (t, s) st = ((v, s'), st', Inr (length items)) \<and> 0 < length items
    \<and> ws_deliveredEvents st' = ws_deliveredEvents st + length items
    \<and> (\<forall>item \<in> set items. \<exists>q \<in> set v. \<exists>receipt \<in> set receipts. ob_sequence q = ci_sequence item
        \<and> ob_eventId q = ci_eventId item \<and> ob_deliveredAt q = Some (re_markTime env) \<and> ob_receipt q = Some receipt
        \<and> get_prop receipt ''eventId'' = JStr (ci_eventId item))"
proof -
  have ok: "checks (map check_envelope items) = Inr ()" using assms(3) by (auto simp: checks_Inr_iff)
  have submitted: "submit_claimed c fetch (re_requestId env) items s = (s', Inr receipts)"
    using assms(4) by (simp add: submit_claimed_def ok)
  then have "list_all2 (answered_for (\<lambda>_ _ _. True) s') items receipts"
    by (rule any_service.submit_claimed_answer [OF TrueI])
  then have answered: "\<exists>receipt \<in> set receipts. get_prop receipt ''eventId'' = JStr (ci_eventId item)" if "item \<in> set items" for item
    using that by (induction rule: list_all2_induct) (auto simp: answered_for_def)
  let ?get = "\<lambda>item. jm_get (receipts_by_id receipts) (JStr (ci_eventId item))"
  have get: "\<exists>receipt. ?get item = Some receipt \<and> receipt \<in> set receipts \<and> get_prop receipt ''eventId'' = JStr (ci_eventId item)"
    if "item \<in> set items" for item
    using answered [OF that] receipts_by_id_found receipts_by_id_Some by metis
  let ?now = "re_markTime env"
  obtain v where v: "foldR (deliver_row (receipts_by_id receipts) ?now) u items = Inr v"
    and rows: "\<And>item. item \<in> set items \<Longrightarrow> \<exists>r. row_ok r \<and> claimable (ce_selectTime (re_claim env)) r
      \<and> ob_sequence r = ci_sequence item \<and> ob_eventId r = ci_eventId item \<and> delivered_row (the (?get item)) ?now
          (leased rp (wk_connectorId w) (ce_token (re_claim env)) (ce_updateTime (re_claim env)) r) \<in> set v"
  proof (rule settle_claim [OF assms(2,1), where run = "deliver_row (receipts_by_id receipts) ?now"
        and f = "\<lambda>item. delivered_row (the (?get item)) ?now"])
    show "deliver_row (receipts_by_id receipts) ?now x item = settle_row item (delivered_row (the (?get item)) ?now) x"
      if "item \<in> set items" for x item using get [OF that] by (auto simp: deliver_row_def)
  qed (simp_all add: delivered_row_def)
  have some: "items \<noteq> []" using assms(4) by (auto simp: submitAcceptedBatch_def)
  then have run: "runOnce rt rp w c fetch env (t, s) st = ((v, s'), st\<lparr>ws_inFlight := 0,
      ws_deliveredEvents := ws_deliveredEvents st + length items, ws_lastErrorCode := JNull\<rparr>, Inr (length items))"
    using assms(2,5) submitted v by (simp add: runOnce_def Let_def markDelivered_def transaction_def)
  have "\<exists>q \<in> set v. \<exists>receipt \<in> set receipts. ob_sequence q = ci_sequence item
        \<and> ob_eventId q = ci_eventId item \<and> ob_deliveredAt q = Some ?now \<and> ob_receipt q = Some receipt
        \<and> get_prop receipt ''eventId'' = JStr (ci_eventId item)" if "item \<in> set items" for item
  proof -
    obtain receipt where receipt: "?get item = Some receipt" "receipt \<in> set receipts"
      "get_prop receipt ''eventId'' = JStr (ci_eventId item)" using get [OF \<open>item \<in> set items\<close>] by blast
    obtain q where q: "q \<in> set v" "ob_sequence q = ci_sequence item" "ob_eventId q = ci_eventId item"
      "ob_deliveredAt q = Some ?now" "ob_receipt q = Some receipt"
      using rows [OF \<open>item \<in> set items\<close>] receipt(1) by (force simp: delivered_row_def leased_def)
    show ?thesis using receipt(2,3) q by blast
  qed
  then show ?thesis using run some by (intro exI conjI) auto
qed

definition plain_receipt :: jsval where
  "plain_receipt = obj [(''eventId'', JStr (js ''e'')), (''status'', JStr (js ''accepted'')), (''ledgerId'', JStr (js ''l'')),
     (''recordHash'', JStr (to_hex (replicate 32 0))), (''intakeSequence'', JInt 0),
     (''acceptedAt'', JStr (js ''2026-01-02T03:04:05.007Z''))]"

definition accepting_service :: "unit fetch" where
  "accepting_service rq = (\<lambda>s. (s, Response \<lparr>hs_status = 202, hs_declared = None, hs_body = Body 100 (Some (obj
     [(''contractVersion'', JInt 2), (''receipts'', JArr [plain_receipt])]))\<rparr>))"

lemma plain_receipt_ok: "validateLifecycleReceipt plain_receipt = Inr ()"
proof (rule wf_receipt_accepted)
  let ?r = "Accepted \<lparr>ra_eventId = js ''e'', ra_ledgerId = js ''l'', ra_recordHash = to_hex (replicate 32 0),
    ra_intakeSequence = 0, ra_acceptedAt = js ''2026-01-02T03:04:05.007Z''\<rparr>"
  show "wf_receipt ?r" using sample_times is_hex64_to_hex [of "replicate 32 0"] by (simp add: wf_count_def del: js_Cons)
  have "plain_receipt = receipt_json ?r" by (simp add: plain_receipt_def)
  then show "same_object plain_receipt (receipt_json ?r)" using is_object_receipt [of ?r] by (simp add: same_object_def)
qed

lemma plain_submitted:
  "submitAcceptedBatch \<lparr>cl_tokens = [js ''k''], cl_timeoutMs = 100\<rparr> accepting_service i [obj [(''eventId'', JStr (js ''e''))]] ()
    = ((), Inr [plain_receipt])"
proof -
  have "get_prop plain_receipt ''eventId'' = JStr (js ''e'')" by (simp add: plain_receipt_def)
  then have "batch_receipts 2 validateLifecycleReceipt [obj [(''eventId'', JStr (js ''e''))]]
      (obj [(''contractVersion'', JInt 2), (''receipts'', JArr [plain_receipt])]) = Inr [plain_receipt]"
    using plain_receipt_ok by (simp add: batch_receipts_Inr del: js_Cons) (simp add: obj_def)
  then show ?thesis
    by (simp add: submitAcceptedBatch_def request_def accepting_service_def parseResponse_def MAX_RESPONSE_BYTES_def demand_def
        accept_response_def)
qed

theorem undisturbed_run_delivers_witness:
  "\<exists>v st'. runOnce plain_runtime plain_repository plain_worker \<lparr>cl_tokens = [js ''k''], cl_timeoutMs = 100\<rparr> accepting_service
      plain_round ([plain_row ''e'' (obj [(''eventId'', JStr (js ''e''))])], ()) starting_status = ((v, ()), st', Inr 1)
    \<and> ws_deliveredEvents st' = 1 \<and> (\<exists>q \<in> set v. ob_deliveredAt q = Some 20)"
proof -
  let ?row = "plain_row ''e'' (obj [(''eventId'', JStr (js ''e''))])" and ?c = "\<lparr>cl_tokens = [js ''k''], cl_timeoutMs = 100\<rparr>"
  let ?item = "claim_of plain_runtime (js ''t'') ?row"
  have envelope: "ci_envelope ?item = obj [(''eventId'', JStr (js ''e''))]" "ci_eventId ?item = js ''e''"
    by (simp_all add: claim_of_def plain_row_def inserted_row_def parseEnvelope_def obj_def del: js_Cons)
  have ok: "item \<in> set [?item] \<Longrightarrow> check_envelope item = Inr ()" for item
    by (simp add: check_envelope_def envelope demand_def del: js_Cons)
  have claim: "claimBatch plain_runtime plain_repository (wk_batchSize plain_worker) (wk_connectorId plain_worker)
      (re_claim plain_round) [?row] = ([leased plain_repository (js ''w'') (js ''t'') 11 ?row], Inr [?item])"
    using plain_claimed [of "''t''" "''e''"] by (simp add: plain_worker_def plain_round_def del: js_Cons)
  have sent: "submitAcceptedBatch ?c accepting_service (re_requestId plain_round) (map ci_envelope [?item]) () = ((), Inr [plain_receipt])"
    using plain_submitted by (simp add: envelope del: js_Cons)
  have outcome: "re_markOutcome plain_round = Committed" "re_markTime plain_round = 20" by (simp_all add: plain_round_def)
  from undisturbed_run_delivers [OF plain_table claim ok sent outcome(1), of starting_status] outcome(2)
  show ?thesis by (auto simp: starting_status_def)
qed

lemma counted_once:
  assumes "\<And>x. x \<in> set xs \<Longrightarrow> of_bool (a x) + of_bool (b x) + of_bool (c x) + of_bool (d x) + of_bool (e x) = (1::nat)"
  shows "length (filter a xs) + length (filter b xs) + length (filter c xs) + length (filter d xs) + length (filter e xs) = length xs"
  using assms
proof (induction xs)
  case (Cons x xs)
  then have "of_bool (a x) + of_bool (b x) + of_bool (c x) + of_bool (d x) + of_bool (e x) = (1::nat)"
    "length (filter a xs) + length (filter b xs) + length (filter c xs) + length (filter d xs) + length (filter e xs) = length xs"
    by simp_all
  then show ?case by (auto simp: of_bool_def split: if_splits)
qed simp

text \<open>The metrics count every row but those that wait for their next attempt.\<close>

lemma metrics_miss_waiting_rows:
  assumes "outbox_ok t" and "m = operationalMetrics now t"
  shows "om_ready m + om_leased m + om_delivered m + om_dead m
      + length (filter (\<lambda>r. \<not> settled r \<and> now < ob_availableAt r \<and> (case ob_leaseExpires r of None \<Rightarrow> True | Some e \<Rightarrow> e \<le> now)) t)
    = length t"
proof -
  have "list_all row_ok t" using assms(1) by (simp add: outbox_ok_def)
  moreover have "om_ready m = length (filter (claimable now) t)"
    "om_leased m = length (filter (\<lambda>r. ob_deliveredAt r = None \<and> ob_deadAt r = None
         \<and> (case ob_leaseExpires r of None \<Rightarrow> False | Some expires \<Rightarrow> now < expires)) t)"
    "om_delivered m = length (filter (\<lambda>r. ob_deliveredAt r \<noteq> None) t)"
    "om_dead m = length (filter (\<lambda>r. ob_deadAt r \<noteq> None) t)"
    by (simp_all add: assms(2) operationalMetrics_def Let_def)
  moreover have "of_bool (claimable now r) + of_bool (ob_deliveredAt r = None \<and> ob_deadAt r = None
         \<and> (case ob_leaseExpires r of None \<Rightarrow> False | Some expires \<Rightarrow> now < expires))
      + of_bool (ob_deliveredAt r \<noteq> None) + of_bool (ob_deadAt r \<noteq> None)
      + of_bool (\<not> settled r \<and> now < ob_availableAt r \<and> (case ob_leaseExpires r of None \<Rightarrow> True | Some e \<Rightarrow> e \<le> now)) = (1::nat)"
    if "row_ok r" for r
  proof -
    consider "ob_deliveredAt r \<noteq> None" "ob_deadAt r = None" | "ob_deliveredAt r = None" "ob_deadAt r \<noteq> None"
      | "ob_deliveredAt r = None" "ob_deadAt r = None" using \<open>row_ok r\<close> by (auto simp: row_ok_def)
    then show ?thesis by cases (auto simp: claimable_def settled_def split: option.split)
  qed
  ultimately show ?thesis by (simp only:) (rule counted_once, simp add: list_all_iff)
qed

end
