(* ===== verification/G9P_Network.thy ===== *)
theory G9P_Network
  imports G9P_Receipts
begin

text \<open>The network between the client and the HTTP service: what happens to one request.\<close>

section \<open>The network\<close>

text \<open>
  What URL parsers make of the paths that the client builds, which have at most one query parameter,
  whose text needs no decoding: the segments \<open>.\<close> and \<open>..\<close> are taken away.
\<close>

definition cut_at :: "16 word \<Rightarrow> jsstr \<Rightarrow> jsstr \<times> jsstr" where
  "cut_at u s = (takeWhile (\<lambda>v. v \<noteq> u) s, drop 1 (dropWhile (\<lambda>v. v \<noteq> u) s))"

fun dot_segments :: "jsstr list \<Rightarrow> jsstr list \<Rightarrow> jsstr list" where
  "dot_segments out [] = rev out"
| "dot_segments out (segment # later) =
     (if segment = [46] then dot_segments (if later = [] then [] # out else out) later
      else if segment = [46, 46] then dot_segments (if later = [] then [] # tl out else tl out) later
      else dot_segments (segment # out) later)"

definition url_of :: "jsstr \<Rightarrow> jsstr \<times> (jsstr \<times> jsstr) list" where
  "url_of path =
     (let (pathname, query) = cut_at 63 path in
      (concat (map (\<lambda>segment. 47 # segment) (dot_segments [] (tl (split_slash pathname)))),
       if query = [] then [] else [cut_at 61 query]))"

text \<open>What happens to one request: it is answered, in chunks of some sizes and with a body of some size; it
  never arrives; it is served but the answer comes too late; it is served but the answer cannot be read.\<close>

datatype net_event = Answer "nat list" nat | Lost | Late "nat list" | Cut "nat list" jsval

type_synonym 's wire = "'s \<times> net_event list"

definition to_server :: "nat list \<Rightarrow> http_request \<Rightarrow> server_request" where
  "to_server chunks rq = \<lparr>sq_method = hq_method rq, sq_url = Some (url_of (hq_path rq)), sq_requestId = hq_id rq,
     sq_authorization = Some (js ''Bearer '' @ hq_token rq), sq_chunks = chunks, sq_json = hq_body rq\<rparr>"

definition network ::
  "platform \<Rightarrow> ledger_config \<Rightarrow> server_config \<Rightarrow> string option \<Rightarrow> ledger wire fetch" where
  "network X cfg sv background rq = (\<lambda>(s, events).
     let serve_it = (\<lambda>chunks. handle_request X cfg sv background (to_server chunks rq) s) in
     case events of
       [] \<Rightarrow> ((s, []), Unreachable)
     | Lost # later \<Rightarrow> ((s, later), Unreachable)
     | Late chunks # later \<Rightarrow> ((fst (serve_it chunks), later), Timed_Out)
     | Cut chunks code # later \<Rightarrow>
         (case serve_it chunks of (t, status, payload) \<Rightarrow>
            ((t, later), Response \<lparr>hs_status = status, hs_declared = None, hs_body = Unreadable code\<rparr>))
     | Answer chunks bytes # later \<Rightarrow>
         (case serve_it chunks of (t, status, payload) \<Rightarrow>
            ((t, later), Response \<lparr>hs_status = status, hs_declared = Some bytes,
               hs_body = Body bytes (payload_json (hq_id rq) payload)\<rparr>)))"

end
