(* ===== verification/G9P_Delivery.thy ===== *)
theory G9P_Delivery
  imports G9P_Outbox_Props G9P_Network
begin

text \<open>
  Connector, network, service and ledger together. The network may lose a request or a response, be too
  slow, or cut a response off; other clients speak to the service, and the ledger works on its own.
  Whatever happens, a row that is marked delivered is in the custody of the ledger.
\<close>

section \<open>The ledger at work\<close>

text \<open>Everything else that happens to the ledger while a connector is at work.\<close>

inductive ledger_activity ::
  "platform \<Rightarrow> ledger_config \<Rightarrow> server_config \<Rightarrow> string option \<Rightarrow> ledger wire \<Rightarrow> ledger wire \<Rightarrow> bool"
  for X cfg sv background where
  Own: "ledger_step X cfg s t \<Longrightarrow> ledger_activity X cfg sv background (s, events) (t, events)"
| Other_Client: "ledger_activity X cfg sv background (s, events) (fst (handle_request X cfg sv background rq s), events)"
| Weather: "ledger_activity X cfg sv background (s, events) (s, events')"

section \<open>The service keeps custody\<close>

lemma keeps_run_transition:
  assumes "root_ok (dataDirectory cfg)"
  shows "keeps (guarded X cfg s0 R) (run_transition X cfg body)"
  unfolding run_transition_def
  by (cases "get_prop body ''ledgerId''") (auto intro!: keeps_intro keeps_transition assms)

lemma keeps_serve:
  assumes "root_ok (dataDirectory cfg)"
  shows "keeps (guarded X cfg s0 R) (serve X cfg sv background rq)"
  unfolding serve_def as_admin_def find_receipt_request_def receipt_lookup_def Let_def
  by (intro keeps_intro keeps_ingest keeps_run_transition keeps_checkpoint assms)

lemma handle_custody:
  assumes "in_custody X cfg s" and "handle_request X cfg sv background rq s = (t, response)"
  shows "in_custody X cfg t \<and> keeps_faith s t"
proof -
  from assms(1) have root: "root_ok (dataDirectory cfg)" and g: "guarded X cfg s {} s"
    by (simp_all add: in_custody_guarded)
  have "t = fst (serve X cfg sv background rq s)"
    using assms(2) by (auto simp: handle_request_def split: prod.splits sum.splits)
  then have "guarded X cfg s {} t" using keepsD [OF keeps_serve [OF root] g] by simp
  then show ?thesis using root by (simp add: in_custody_def guarded_def)
qed

lemma network_custody:
  assumes "in_custody X cfg (fst x)" and "network X cfg sv background rq x = (y, fetched)"
  shows "in_custody X cfg (fst y) \<and> keeps_faith (fst x) (fst y)"
proof -
  obtain s events where x: "x = (s, events)" by (cases x)
  have same: "in_custody X cfg s \<and> keeps_faith s s" using assms(1) by (simp add: x keeps_faith_refl)
  note handled = handle_custody [of X cfg s sv background]
  show ?thesis
  proof (cases events)
    case Nil
    then show ?thesis using assms(2) same by (auto simp: x network_def)
  next
    case (Cons e later)
    then show ?thesis
    proof (cases e)
      case Lost
      then show ?thesis using assms(2) same Cons by (auto simp: x network_def)
    next
      case (Late chunks)
      then have "y = (fst (handle_request X cfg sv background (to_server chunks rq) s), later)"
        using assms(2) Cons by (auto simp: x network_def Let_def)
      then show ?thesis using handled assms(1) by (simp add: x) (metis prod.collapse)
    next
      case (Answer chunks bytes)
      then obtain t status payload where "handle_request X cfg sv background (to_server chunks rq) s = (t, status, payload)" "fst y = t"
        using assms(2) Cons by (auto simp: x network_def Let_def split: prod.splits)
      then show ?thesis using handled assms(1) by (simp add: x)
    next
      case (Cut chunks code)
      then obtain t status payload where "handle_request X cfg sv background (to_server chunks rq) s = (t, status, payload)" "fst y = t"
        using assms(2) Cons by (auto simp: x network_def Let_def split: prod.splits)
      then show ?thesis using handled assms(1) by (simp add: x)
    qed
  qed
qed

lemma attempt_custody:
  assumes "in_custody X cfg (fst x)" and "attempt (network X cfg sv background) rq tokens x = (y, answer)"
  shows "in_custody X cfg (fst y) \<and> keeps_faith (fst x) (fst y)
    \<and> (\<forall>r payload. answer = Inr (r, payload) \<longrightarrow> (\<exists>token z. in_custody X cfg (fst z) \<and> keeps_faith (fst x) (fst z)
         \<and> network X cfg sv background (rq token) z = (y, Response r) \<and> parseResponse r = Inr payload))"
  using assms
proof (induction tokens arbitrary: x)
  case Nil
  then show ?case by (auto simp: keeps_faith_refl)
next
  case (Cons token tokens)
  obtain z f where z: "network X cfg sv background (rq token) x = (z, f)" by fastforce
  note one = network_custody [OF Cons.prems(1) z]
  show ?case
  proof (cases f)
    case (Response r)
    show ?thesis
    proof (cases "\<exists>payload. parseResponse r = Inr payload \<and> \<not> (hs_status r \<noteq> 401 \<or> tokens = [])")
      case True
      then have "attempt (network X cfg sv background) rq tokens z = (y, answer)"
        using Cons.prems(2) z Response by (auto split: sum.splits)
      from Cons.IH [OF conjunct1 [OF one] this] show ?thesis using one keeps_faith_trans by blast
    next
      case False
      then have "y = z \<and> (\<forall>r' payload. answer = Inr (r', payload) \<longrightarrow> r' = r \<and> parseResponse r = Inr payload)"
        using Cons.prems(2) z Response by (auto split: sum.splits if_splits)
      then show ?thesis using one z Response Cons.prems(1) keeps_faith_refl by blast
    qed
  qed (use Cons.prems(2) z one in auto)
qed

section \<open>Accepted batches\<close>

lemma error_status: "\<not> errorStatus e \<le> 299"
  by (simp add: errorStatus_def)

lemma handle_batch:
  assumes "handle_request X cfg sv background (to_server chunks rq) s = (t, status, payload)"
    and "hq_method rq = ''POST''" and "hq_path rq = js ''/v2/events:batch''" and "hq_body rq = Some (batch_body 2 events)"
    and "status \<le> 299"
  shows "\<exists>rs. payload = Receipts_Payload 2 rs \<and> ingest_accepted_batch X cfg events s = (t, Inr rs)"
proof -
  let ?rq = "to_server chunks rq"
  have route: "sq_method ?rq = ''POST''" "sq_url ?rq = Some (js ''/v2/events:batch'', [])" "sq_json ?rq = Some (batch_body 2 events)"
    using assms(2-4) by (simp_all add: to_server_def url_of_def cut_at_def)
  from assms(1,5) have ok: "serve X cfg sv background ?rq s = (t, Inr (status, payload))"
    by (auto simp: handle_request_def error_response_def error_status split: prod.splits sum.splits)
  have body: "get_prop (batch_body 2 events) ''events'' = JArr events" by (simp add: batch_body_def obj_def get_prop_def)
  have json: "readJson sv ?rq = Inr v \<Longrightarrow> v = batch_body 2 events" for v
    by (auto simp: readJson_def route res_simps)
  show ?thesis
    using ok assms(5) unfolding serve_def route option.case prod.case Let_def
    by (auto simp: unauthorised_def bindS_Inr thenS_Inr liftS_def retS_def batch_events_def res_simps array_items_def body
        dest!: json split: if_splits)
qed

text \<open>The ledger vouches for a receipt: the event it is for is on record under the hash that it states.\<close>

definition vouched :: "platform \<Rightarrow> ledger wire \<Rightarrow> jsval \<Rightarrow> jsval \<Rightarrow> bool" where
  "vouched X w event receipt \<longleftrightarrow> (\<exists>hash. event_hash_of_event X event = Inr hash
     \<and> get_prop receipt ''eventId'' = JStr (event_id event)
     \<and> get_prop receipt ''recordHash'' = JStr (to_hex hash)
     \<and> recorded (fst w) (event_id event) = Some (to_hex hash))"

definition custodian :: "platform \<Rightarrow> ledger_config \<Rightarrow> ledger wire \<Rightarrow> bool" where
  "custodian X cfg w \<longleftrightarrow> in_custody X cfg (fst w)"

lemma vouched_later: "vouched X w event receipt \<Longrightarrow> keeps_faith (fst w) (fst w') \<Longrightarrow> vouched X w' event receipt"
proof -
  assume v: "vouched X w event receipt" and f: "keeps_faith (fst w) (fst w')"
  have "recorded (fst w') i = Some h" if "recorded (fst w) i = Some h" for i h
    using f that by (simp add: keeps_faith_def map_le_def) (metis domI)
  then show "vouched X w' event receipt" using v unfolding vouched_def by blast
qed

lemma receipt_json_props:
  "get_prop (receipt_json r) ''eventId'' = JStr (receipt_id r)"
  "get_prop (receipt_json r) ''recordHash'' = JStr (receipt_hash r)"
  by (cases r; simp add: obj_def get_prop_def)+

lemma ingested_vouched:
  assumes "in_custody X cfg s" and "ingest_accepted_batch X cfg events s = (t, Inr rs)"
  shows "list_all2 (vouched X (t, later)) events (map receipt_json rs)"
proof -
  have root: "root_ok (dataDirectory cfg)" and g: "guarded X cfg s {} s" using assms(1) by (simp_all add: in_custody_guarded)
  obtain items where items: "prepare_items X events = Inr items" "list_all2 (receipted t) items rs"
    using ingest_receipts [where run = "ingest_accepted_batch X cfg", OF root g disjI2 [OF refl] assms(2)] by blast
  have p: "list_all (prepared X) items" "events = map it_event items" using prepare_items_Inr [OF items(1)] by simp_all
  show ?thesis unfolding p(2) list_all2_map1 list_all2_map2
    using items(2) by (rule list.rel_mono_strong)
      (use p(1) in \<open>auto simp: list_all_iff prepared_def receipted_def it_id_def vouched_def receipt_json_props\<close>)
qed

lemma submit_custody:
  assumes "in_custody X cfg (fst x)"
    and "submitAcceptedBatch c (network X cfg sv background) i events x = (y, answer)"
  shows "in_custody X cfg (fst y) \<and> keeps_faith (fst x) (fst y)
    \<and> (\<forall>receipts. answer = Inr receipts \<longrightarrow> list_all2 (vouched X y) events receipts)"
proof (cases "events = []")
  case True
  then show ?thesis using assms by (auto simp: submitAcceptedBatch_def keeps_faith_refl)
next
  case False
  let ?rq = "\<lambda>token. \<lparr>hq_method = ''POST'', hq_path = js ''/v2/events:batch'', hq_token = token, hq_id = i,
      hq_body = Some (batch_body 2 events)\<rparr>"
  obtain z a where a: "attempt (network X cfg sv background) ?rq (cl_tokens c) x = (z, a)" by fastforce
  have z: "y = z" and answer: "answer = bindR (bindR a accept_response) (batch_receipts 2 validateLifecycleReceipt events)"
    using assms(2) False a by (auto simp: submitAcceptedBatch_def request_def split: sum.splits prod.splits)
  note run = attempt_custody [OF assms(1) a]
  have "list_all2 (vouched X z) events receipts" if "answer = Inr receipts" for receipts
  proof -
    from that answer obtain r payload where ok: "a = Inr (r, payload)" "200 \<le> hs_status r" "hs_status r \<le> 299"
      "batch_receipts 2 validateLifecycleReceipt events payload = Inr receipts"
      by (auto simp: res_simps accept_response_def split: if_splits)
    then obtain token w where w: "in_custody X cfg (fst w)" "network X cfg sv background (?rq token) w = (z, Response r)"
      "parseResponse r = Inr payload" using run by blast
    obtain s net where s: "w = (s, net)" by (cases w)
    from w(2,3) obtain chunks bytes later t status pl where
      net: "net = Answer chunks bytes # later" "handle_request X cfg sv background (to_server chunks (?rq token)) s = (t, status, pl)"
      and z': "z = (t, later)" and r: "r = \<lparr>hs_status = status, hs_declared = Some bytes, hs_body = Body bytes (payload_json i pl)\<rparr>"
      by (auto simp: s network_def parseResponse_def Let_def res_simps split: list.splits net_event.splits prod.splits)
    have "status \<le> 299" using ok(3) by (simp add: r)
    with handle_batch [OF net(2)] obtain rs where rs: "pl = Receipts_Payload 2 rs" "ingest_accepted_batch X cfg events s = (t, Inr rs)"
      by auto
    have "get_prop payload ''receipts'' = JArr receipts" using ok(4) by (simp add: batch_receipts_Inr)
    moreover have "payload = JObj [] \<or> Some payload = payload_json i pl"
      using w(3) by (auto simp: parseResponse_def r res_simps Let_def split: if_splits option.splits)
    ultimately have "receipts = map receipt_json rs" by (auto simp: rs(1) get_prop_def obj_def)
    then show ?thesis using ingested_vouched [OF _ rs(2)] w(1) by (simp add: s z')
  qed
  then show ?thesis using run z by blast
qed

lemma activity_custody:
  assumes "in_custody X cfg (fst x)" and "ledger_activity X cfg sv background x y"
  shows "in_custody X cfg (fst y) \<and> keeps_faith (fst x) (fst y)"
  using assms(2)
proof cases
  case (Own s t events)
  then show ?thesis using ledger.step_inv ledger.step_grows assms(1) by simp
next
  case (Other_Client s events rq)
  then show ?thesis using handle_custody [of X cfg s sv background rq] assms(1) by simp (metis prod.collapse)
next
  case (Weather s events events')
  then show ?thesis using assms(1) by (simp add: keeps_faith_refl)
qed

interpretation custody: receipt_service "network X cfg sv background" "ledger_activity X cfg sv background"
    "custodian X cfg" "vouched X" for X cfg sv background
proof
  fix s c i events s' answer event receipt
  show "custodian X cfg s'" if "custodian X cfg s" "submitAcceptedBatch c (network X cfg sv background) i events s = (s', answer)"
    using submit_custody [OF _ that(2)] that(1) by (simp add: custodian_def)
  show "vouched X s' event receipt" if "custodian X cfg s"
      "submitAcceptedBatch c (network X cfg sv background) i events s = (s', answer)" "vouched X s event receipt"
    using submit_custody [OF _ that(2)] that(1) vouched_later [OF that(3)] by (simp add: custodian_def)
next
  fix s s' event receipt
  show "custodian X cfg s'" if "custodian X cfg s" "ledger_activity X cfg sv background s s'"
    using activity_custody [OF _ that(2)] that(1) by (simp add: custodian_def)
  show "vouched X s' event receipt" if "custodian X cfg s" "ledger_activity X cfg sv background s s'" "vouched X s event receipt"
    using activity_custody [OF _ that(2)] that(1) vouched_later [OF that(3)] by (simp add: custodian_def)
next
  fix s c i events s' receipts
  show "list_all2 (vouched X s') events receipts"
    if "custodian X cfg s" "submitAcceptedBatch c (network X cfg sv background) i events s = (s', Inr receipts)"
    using submit_custody [OF _ that(2)] that(1) by (simp add: custodian_def)
qed

section \<open>A sample delivery\<close>

definition empty_world :: "jsstr set \<Rightarrow> jsstr set \<Rightarrow> fault list \<Rightarrow> jsstr \<Rightarrow> net_event list \<Rightarrow> ledger wire connector" where
  "empty_world F D ahead now events = \<lparr>cn_table = [], cn_flights = {},
     cn_service = (bare_ledger F D ahead now, events)\<rparr>"

definition sample_server :: server_config where
  "sample_server = \<lparr>sv_apiTokens = [js ''secret''], sv_adminTokens = [], sv_maxBatchEvents = 500, sv_maxRequestBytes = 8388608\<rparr>"

definition sample_client :: client where
  "sample_client = \<lparr>cl_tokens = [js ''secret''], cl_timeoutMs = 15000\<rparr>"

definition sample_request :: http_request where
  "sample_request = \<lparr>hq_method = ''POST'', hq_path = js ''/v2/events:batch'', hq_token = js ''secret'', hq_id = js ''r'',
     hq_body = Some (batch_body 2 [sample_event ''e1''])\<rparr>"

lemma batch_body_keys: "hasExactFields (batch_body n events) [''contractVersion'', ''events'']"
  by (simp add: hasExactFields_def batch_body_def exact_keys_mset del: js_Cons)

lemma batch_body_props:
  "get_prop (batch_body n events) ''contractVersion'' = JInt n" "get_prop (batch_body n events) ''events'' = JArr events"
  by (simp_all add: batch_body_def)

lemma sample_served:
  assumes "ingest_accepted_batch toy_platform sample_config [sample_event ''e1''] first_ledger = (t, Inr rs)"
  shows "handle_request toy_platform sample_config sample_server None (to_server [100] sample_request) first_ledger
    = (t, 202, Receipts_Payload 2 rs)"
proof -
  have json: "readJson sample_server (to_server [100] sample_request) = Inr (batch_body 2 [sample_event ''e1''])"
    by (simp add: readJson_def to_server_def sample_server_def sample_request_def invariant_def)
  have token: "tokenMatches (sq_authorization (to_server [100] sample_request)) (sv_apiTokens sample_server)"
    by (simp add: tokenMatches_def to_server_def sample_server_def sample_request_def)
  have url: "sq_url (to_server [100] sample_request) = Some (js ''/v2/events:batch'', [])"
    by (simp add: to_server_def sample_request_def url_of_def cut_at_def)
  have events: "batch_events sample_server (batch_body 2 [sample_event ''e1'']) = Inr [sample_event ''e1'']"
    by (simp add: batch_events_def batch_body_props is_array_def array_items_def between_def sample_server_def invariant_def)
  show ?thesis
    using assms token json events url
    by (simp add: handle_request_def serve_def Let_def)
      (simp add: to_server_def sample_request_def bindS_def thenS_def liftS_def invariant_def batch_body_keys batch_body_props)
qed

lemma sample_submitted:
  obtains t receipt where "submitAcceptedBatch sample_client (network toy_platform sample_config sample_server None) (js ''r'')
      [sample_event ''e1''] (first_ledger, [Answer [100] 100]) = ((t, []), Inr [receipt])"
    and "get_prop receipt ''eventId'' = JStr (js ''e1'')"
proof -
  obtain t p where run: "ingest_accepted_batch toy_platform sample_config [sample_event ''e1''] first_ledger
      = (t, Inr [accepted_receipt_of p])"
    and p: "pe_event p = sample_event ''e1''" "well_recorded toy_platform (intakeDirectory sample_config) p"
    by (rule sample_ingest_receipt)
  let ?receipt = "receipt_json (accepted_receipt_of p)"
  have id: "get_prop ?receipt ''eventId'' = JStr (js ''e1'')"
    by (simp add: receipt_json_props accepted_receipt_of_def p(1) event_id_def text_prop_def sample_props del: js_Cons)
  have valid: "validateLifecycleReceipt ?receipt = Inr ()"
    by (rule wf_receipt_accepted [OF well_recorded_receipt [OF toy_sha256_ok p(2)]])
      (simp add: same_object_def is_object_receipt)
  define payload where "payload = obj [(''contractVersion'', JInt 2), (''receipts'', JArr [?receipt]), (''requestId'', JStr (js ''r''))]"
  have json: "payload_json (js ''r'') (Receipts_Payload 2 [accepted_receipt_of p]) = Some payload" by (simp add: payload_def)
  have net: "network toy_platform sample_config sample_server None sample_request (first_ledger, [Answer [100] 100])
      = ((t, []), Response \<lparr>hs_status = 202, hs_declared = Some 100, hs_body = Body 100 (Some payload)\<rparr>)"
    using sample_served [OF run] json by (simp add: network_def) (simp add: sample_request_def)
  have receipts: "batch_receipts 2 validateLifecycleReceipt [sample_event ''e1''] payload = Inr [?receipt]"
    using valid id by (simp add: batch_receipts_Inr payload_def sample_props del: js_Cons) (simp add: obj_def)
  have "submitAcceptedBatch sample_client (network toy_platform sample_config sample_server None) (js ''r'')
      [sample_event ''e1''] (first_ledger, [Answer [100] 100]) = ((t, []), Inr [?receipt])"
    using net receipts
    by (simp add: submitAcceptedBatch_def request_def sample_client_def sample_request_def [symmetric] parseResponse_def
        MAX_RESPONSE_BYTES_def demand_def accept_response_def del: js_Cons)
  then show thesis using id by (rule that)
qed

text \<open>The sample event is inserted, claimed, submitted and stored as delivered.\<close>

lemma sample_stored:
  assumes "get_prop receipt ''eventId'' = JStr (js ''e1'')"
  shows "markDelivered [claim_of plain_runtime (js ''t'') (plain_row ''e1'' (sample_event ''e1''))] [receipt] 20 Committed
      [leased plain_repository (js ''w'') (js ''t'') 11 (plain_row ''e1'' (sample_event ''e1''))]
    = ([delivered_row receipt 20 (leased plain_repository (js ''w'') (js ''t'') 11 (plain_row ''e1'' (sample_event ''e1'')))], Inr ())"
  using assms
  by (simp add: markDelivered_def transaction_def deliver_row_def receipts_by_id_def claim_of_def plain_row_def
      inserted_row_def settle_row_def update_rows_def still_leased_def leased_def demand_def jm_set_def jm_get_def)

abbreviation world_step ::
  "platform \<Rightarrow> ledger_config \<Rightarrow> server_config \<Rightarrow> string option \<Rightarrow> runtime \<Rightarrow> repository
    \<Rightarrow> ledger wire connector \<Rightarrow> ledger wire connector \<Rightarrow> bool" where
  "world_step X cfg sv background rt rp \<equiv>
     connector_step rt rp (network X cfg sv background) (ledger_activity X cfg sv background)"

lemma sample_delivery:
  obtains c receipt where
    "(world_step toy_platform sample_config sample_server None plain_runtime plain_repository)\<^sup>*\<^sup>*
       (empty_world sample_folders {} [] (js ''2026-01-02T03:04:05.007Z'') []) c"
    and "cn_table c = [delivered_row receipt 20 (leased plain_repository (js ''w'') (js ''t'') 11 (plain_row ''e1'' (sample_event ''e1'')))]"
proof -
  let ?step = "world_step toy_platform sample_config sample_server None plain_runtime plain_repository"
  let ?at = "\<lambda>t F s. \<lparr>cn_table = t, cn_flights = F, cn_service = s\<rparr>"
  let ?row = "leased plain_repository (js ''w'') (js ''t'') 11 (plain_row ''e1'' (sample_event ''e1''))"
  let ?item = "claim_of plain_runtime (js ''t'') (plain_row ''e1'' (sample_event ''e1''))"
  obtain s receipt where submit: "submitAcceptedBatch sample_client (network toy_platform sample_config sample_server None)
      (js ''r'') [sample_event ''e1''] (first_ledger, [Answer [100] 100]) = ((s, []), Inr [receipt])"
    and id: "get_prop receipt ''eventId'' = JStr (js ''e1'')" by (rule sample_submitted)
  have item: "ci_envelope ?item = sample_event ''e1''" "ci_eventId ?item = js ''e1''"
    by (simp_all add: claim_of_def parseEnvelope_def plain_row_def inserted_row_def sample_event_def obj_def del: js_Cons)
  have submitted: "submit_claimed sample_client (network toy_platform sample_config sample_server None) (js ''r'') [?item]
      (first_ledger, [Answer [100] 100]) = ((s, []), Inr [receipt])"
    using submit
    by (simp add: submit_claimed_def check_envelope_def demand_def item sample_props del: js_Cons)
      (simp add: sample_event_def is_object_def obj_def del: js_Cons)
  have 1: "?step (?at [] {} (first_ledger, [])) (?at [plain_row ''e1'' (sample_event ''e1'')] {} (first_ledger, []))"
    using Insert [where c = "?at [] {} (first_ledger, [])" and sequence = 1 and eventId = "js ''e1''"
        and envelope = "sample_event ''e1''" and now = 5] by (simp add: plain_row_def del: js_Cons)
  have 2: "?step (?at [plain_row ''e1'' (sample_event ''e1'')] {} (first_ledger, [])) (?at [?row] {Claimed_Batch [?item]} (first_ledger, []))"
    using Claim [where c = "?at [plain_row ''e1'' (sample_event ''e1'')] {} (first_ledger, [])", unfolded connector.simps, OF plain_claimed]
    by (simp add: claimed_flights_def del: js_Cons)
  have 3: "?step (?at [?row] {Claimed_Batch [?item]} (first_ledger, []))
      (?at [?row] {Claimed_Batch [?item]} (first_ledger, [Answer [100] 100]))"
    using Service [where c = "?at [?row] {Claimed_Batch [?item]} (first_ledger, [])"
        and s = "(first_ledger, [Answer [100] 100])"] by (simp add: Weather del: js_Cons)
  have 4: "?step (?at [?row] {Claimed_Batch [?item]} (first_ledger, [Answer [100] 100])) (?at [?row] {Answered [?item] [receipt]} (s, []))"
    using Submit [where c = "?at [?row] {Claimed_Batch [?item]} (first_ledger, [Answer [100] 100])", unfolded connector.simps,
        OF _ submitted] by (simp add: submitted_flight_def del: js_Cons)
  have 5: "?step (?at [?row] {Answered [?item] [receipt]} (s, [])) (?at [delivered_row receipt 20 ?row] {} (s, []))"
    using Store [where c = "?at [?row] {Answered [?item] [receipt]} (s, [])", unfolded connector.simps, OF _ sample_stored [OF id]]
    by (simp add: stored_flights_def del: js_Cons)
  note onwards = converse_rtranclp_into_rtranclp [where r = ?step]
  have "empty_world sample_folders {} [] (js ''2026-01-02T03:04:05.007Z'') [] = ?at [] {} (first_ledger, [])"
    by (simp only: empty_world_def first_ledger_def)
  then have "?step\<^sup>*\<^sup>* (empty_world sample_folders {} [] (js ''2026-01-02T03:04:05.007Z'') []) (?at [delivered_row receipt 20 ?row] {} (s, []))"
    by (simp only:) (rule onwards [OF 1] onwards [OF 2] onwards [OF 3] onwards [OF 4] onwards [OF 5] rtranclp.rtrancl_refl)+
  then show thesis by (rule that) simp
qed

section \<open>Property\<close>

text \<open>
  C1: What is marked as delivered is in the custody of the ledger. Any number of workers claim, submit,
  store and crash in any order, the network loses, delays and cuts what it likes, other clients speak
  to the service, and the ledger meets any faults of its file system: a row that is marked delivered
  holds a receipt for the event in it; the ledger has that event on record under the record hash of
  the receipt, which is the hash of the envelope in the row; and an intake file or a sealed segment
  backs the record.
\<close>

theorem delivered_events_are_in_custody:
  assumes "root_ok (dataDirectory cfg)"
    and "(world_step X cfg sv background rt rp)\<^sup>*\<^sup>* (empty_world F D ahead now events) c"
    and "r \<in> set (cn_table c)" and "ob_deliveredAt r = Some time"
  shows "\<exists>receipt hash. ob_receipt r = Some receipt
    \<and> event_hash_of_event X (parseEnvelope rt (ob_envelope r)) = Inr hash
    \<and> get_prop receipt ''eventId'' = JStr (ob_eventId r) \<and> get_prop receipt ''recordHash'' = JStr (to_hex hash)
    \<and> (let s = fst (cn_service c); i = ob_eventId r in
        recorded s i = Some (to_hex hash)
        \<and> ((\<exists>p. jm_get (pendingIndex s) i = Some p \<and> pe_id p = i \<and> pe_recordHash p = to_hex hash \<and> retained X (intake_disk s) p)
          \<or> (\<exists>q. jm_get (eventIndex s) i = Some q \<and> rs_recordHash q = to_hex hash \<and> evidence X cfg (sealed_disk s) q)))"
proof -
  have "connector_inv rt (custodian X cfg) (vouched X) (empty_world F D ahead now events)"
    using fresh_in_custody [OF assms(1)]
    by (simp add: connector_inv_def empty_world_def custodian_def outbox_ok_def receipts_ok_def)
  from custody.conn.run_inv [OF assms(2) this] have custody: "in_custody X cfg (fst (cn_service c))"
    and row: "row_ok r" and receipts: "receipts_ok rt (vouched X) (cn_service c) (cn_table c)"
    using assms(3) by (auto simp: connector_inv_def custodian_def outbox_ok_def list_all_iff)
  then obtain receipt where receipt: "ob_receipt r = Some receipt" "get_prop receipt ''eventId'' = JStr (ob_eventId r)"
    using assms(4) by (auto simp: row_ok_def)
  then have "vouched X (cn_service c) (parseEnvelope rt (ob_envelope r)) receipt"
    using receipts assms(3) by (simp add: receipts_ok_def)
  then show ?thesis using receipt recorded_backed [OF custody] unfolding vouched_def Let_def by fastforce
qed

theorem delivered_events_are_in_custody_witness:
  "\<exists>(c :: ledger wire connector) r receipt hash. r \<in> set (cn_table c) \<and> ob_eventId r = js ''e1'' \<and> ob_receipt r = Some receipt
    \<and> recorded (fst (cn_service c)) (js ''e1'') = Some (to_hex hash)"
proof -
  let ?leased = "leased plain_repository (js ''w'') (js ''t'') 11 (plain_row ''e1'' (sample_event ''e1''))"
  obtain c receipt where run: "(world_step toy_platform sample_config sample_server None plain_runtime plain_repository)\<^sup>*\<^sup>*
       (empty_world sample_folders {} [] (js ''2026-01-02T03:04:05.007Z'') []) c"
    and table: "cn_table c = [delivered_row receipt 20 ?leased]" by (rule sample_delivery)
  have r: "delivered_row receipt 20 ?leased \<in> set (cn_table c)" "ob_deliveredAt (delivered_row receipt 20 ?leased) = Some 20"
    "ob_eventId (delivered_row receipt 20 ?leased) = js ''e1''"
    by (simp_all add: table delivered_row_def leased_def plain_row_def inserted_row_def del: js_Cons)
  obtain q hash where q: "ob_receipt (delivered_row receipt 20 ?leased) = Some q"
    "recorded (fst (cn_service c)) (ob_eventId (delivered_row receipt 20 ?leased)) = Some (to_hex hash)"
    using delivered_events_are_in_custody [OF sample_root run r(1,2)] unfolding Let_def by blast
  show ?thesis using r(1,3) q(1) q(2) [unfolded r(3)] by blast
qed

end
