(* ===== verification/G9P_Lookup.thy ===== *)
theory G9P_Lookup
  imports G9P_Network
begin

text \<open>
  Looking up a receipt over HTTP: the path that the client builds from an event identifier, and the
  identifier that the service takes from the path. \<open>decodeURIComponent\<close> undoes \<open>encodeURIComponent\<close>.
\<close>

section \<open>One byte\<close>

definition encoded_byte :: "byte \<Rightarrow> jsstr" where
  "encoded_byte b = (if unreserved (unat b) then [of_nat (unat b)]
     else [37, upper_hex (unat b div 16), upper_hex (unat b mod 16)])"

lemma encode_uri_component_eq:
  "encode_uri_component s = (if well_formed_utf16 s then Inr (concat (map encoded_byte (utf8 s))) else Inl type_error)"
  unfolding encode_uri_component_def encoded_byte_def by (rule refl)

lemma unat_upper_hex: "d < 16 \<Longrightarrow> unat (upper_hex d) = (if d < 10 then 48 + d else 55 + d)"
proof -
  assume "d < 16"
  then have "unat (of_nat (if d < 10 then 48 + d else 55 + d) :: 16 word) = (if d < 10 then 48 + d else 55 + d)"
    by (subst unat_of_nat) simp
  then show ?thesis by (simp only: upper_hex_def)
qed

lemma hex_digit_upper_hex: "d < 16 \<Longrightarrow> hex_digit (upper_hex d) = Some d"
  by (simp add: hex_digit_def Let_def unat_upper_hex)

lemma percent_bytes_encoded:
  "list_all (\<lambda>b. \<not> unreserved (unat b)) bytes \<Longrightarrow>
     percent_bytes (length bytes) (concat (map encoded_byte bytes) @ rest) = Some (bytes, rest)"
proof (induction bytes)
  case (Cons b bytes)
  have "unat b div 16 < 16" using unat8_less [of b] by simp
  moreover have "(of_nat (16 * (unat b div 16) + unat b mod 16) :: byte) = b"
    by (simp only: mult_div_mod_eq) simp
  ultimately show ?case using Cons
    by (simp add: encoded_byte_def hex_digit_upper_hex del: of_nat_add of_nat_mult)
qed simp

section \<open>One code point\<close>

lemma utf8_lead:
  assumes "scalar_value cp"
  shows "sequence_length (hd (utf8_code_point cp)) = length (utf8_code_point cp)"
    and "0x80 \<le> cp \<Longrightarrow> b \<in> set (utf8_code_point cp) \<Longrightarrow> 0x80 \<le> unat b"
proof -
  have range: "cp < 0x110000" using assms by (simp add: scalar_value_def)
  have w: "unat (of_nat n :: byte) = n" if "n < 256" for n using that by (simp add: unat_of_nat)
  consider "cp < 0x80" | "0x80 \<le> cp" "cp < 0x800" | "0x800 \<le> cp" "cp < 0x10000" | "0x10000 \<le> cp" by linarith
  then have "sequence_length (hd (utf8_code_point cp)) = length (utf8_code_point cp)
    \<and> (0x80 \<le> cp \<longrightarrow> (\<forall>b \<in> set (utf8_code_point cp). 0x80 \<le> unat b))"
  proof cases
    case 1
    then show ?thesis by (simp add: utf8_code_point_def sequence_length_def Let_def)
  next
    case 2
    then have "cp div 64 < 32" "cp mod 64 < 64" by auto
    then have "unat (of_nat (0xC0 + cp div 64) :: byte) = 0xC0 + cp div 64" "unat (of_nat (0x80 + cp mod 64) :: byte) = 0x80 + cp mod 64"
      by (intro w, linarith)+
    then show ?thesis using 2 \<open>cp div 64 < 32\<close>
      by (simp add: utf8_code_point_def sequence_length_def Let_def del: of_nat_add of_nat_numeral)
  next
    case 3
    then have q: "cp div 4096 < 16" "cp div 64 mod 64 < 64" "cp mod 64 < 64" by auto
    then have "unat (of_nat (0xE0 + cp div 4096) :: byte) = 0xE0 + cp div 4096"
      "unat (of_nat (0x80 + cp div 64 mod 64) :: byte) = 0x80 + cp div 64 mod 64"
      "unat (of_nat (0x80 + cp mod 64) :: byte) = 0x80 + cp mod 64"
      by (intro w, linarith)+
    then show ?thesis using 3 q
      by (simp add: utf8_code_point_def sequence_length_def Let_def del: of_nat_add of_nat_numeral)
  next
    case 4
    then have q: "cp div 262144 < 5" "cp div 4096 mod 64 < 64" "cp div 64 mod 64 < 64" "cp mod 64 < 64" using range by auto
    then have "unat (of_nat (0xF0 + cp div 262144) :: byte) = 0xF0 + cp div 262144"
      "unat (of_nat (0x80 + cp div 4096 mod 64) :: byte) = 0x80 + cp div 4096 mod 64"
      "unat (of_nat (0x80 + cp div 64 mod 64) :: byte) = 0x80 + cp div 64 mod 64"
      "unat (of_nat (0x80 + cp mod 64) :: byte) = 0x80 + cp mod 64"
      by (intro w, linarith)+
    then show ?thesis using 4 q
      by (simp add: utf8_code_point_def sequence_length_def Let_def del: of_nat_add of_nat_numeral)
  qed
  then show "sequence_length (hd (utf8_code_point cp)) = length (utf8_code_point cp)"
    and "0x80 \<le> cp \<Longrightarrow> b \<in> set (utf8_code_point cp) \<Longrightarrow> 0x80 \<le> unat b" by blast+
qed

lemma decode_uri_escape:
  "us = 37 # later \<Longrightarrow> percent_bytes 1 us = Some (lead, x) \<Longrightarrow> percent_bytes (sequence_length (hd lead)) us = Some (bytes, rest)
    \<Longrightarrow> decode_code_point bytes = Some (cp, []) \<Longrightarrow> decode_uri us = map_option ((@) (code_units cp)) (decode_uri rest)"
  by (subst decode_uri.simps) simp

lemma decode_uri_code_point:
  assumes "scalar_value cp"
  shows "decode_uri (concat (map encoded_byte (utf8_code_point cp)) @ rest) = map_option ((@) (code_units cp)) (decode_uri rest)"
proof (cases "cp < 0x80 \<and> unreserved cp")
  case True
  then have "cp \<noteq> 37" by (auto simp: unreserved_def)
  then have "unat (of_nat cp :: 16 word) \<noteq> unat (37 :: 16 word)" using True by (simp add: unat_of_nat)
  then have plain: "(of_nat cp :: 16 word) \<noteq> 37" by (metis (no_types))
  have "unat (of_nat cp :: byte) = cp" using True by (simp add: unat_of_nat)
  then have "concat (map encoded_byte (utf8_code_point cp)) = [of_nat cp]" "code_units cp = [of_nat cp]"
    using True by (simp_all add: utf8_code_point_def encoded_byte_def code_units_def)
  moreover have "(@) [u] = (\<lambda>us. u # us)" for u :: "16 word" by auto
  ultimately show ?thesis using plain by (subst decode_uri.simps) simp
next
  case False
  let ?bytes = "utf8_code_point cp"
  have escaped: "\<not> unreserved (unat b)" if "b \<in> set ?bytes" for b
  proof (cases "cp < 0x80")
    case True
    then have "unat b = cp" using that by (simp add: utf8_code_point_def unat_of_nat)
    then show ?thesis using True False by simp
  next
    case high: False
    then have "0x80 \<le> unat b" using utf8_lead(2) [OF assms _ that] by simp
    then show ?thesis by (auto simp: unreserved_def)
  qed
  obtain lead more' where bytes: "?bytes = lead # more'" using utf8_code_point_nonempty [of cp] by (cases ?bytes) auto
  let ?us = "concat (map encoded_byte ?bytes) @ rest"
  have first: "percent_bytes 1 ?us = Some ([lead], concat (map encoded_byte more') @ rest)"
    using percent_bytes_encoded [of "[lead]" "concat (map encoded_byte more') @ rest"] escaped bytes by simp
  have all: "percent_bytes (sequence_length (hd [lead])) ?us = Some (?bytes, rest)"
    using percent_bytes_encoded [of ?bytes rest] escaped utf8_lead(1) [OF assms] bytes by (simp add: list_all_iff)
  have head: "?us = 37 # tl ?us" using escaped bytes by (simp add: encoded_byte_def)
  have whole: "decode_code_point ?bytes = Some (cp, [])" using decode_code_point_utf8 [OF assms, of "[]"] by simp
  show ?thesis by (rule decode_uri_escape [OF head first all whole])
qed

lemma decode_uri_code_points:
  "\<forall>cp \<in> set cps. scalar_value cp \<Longrightarrow> decode_uri (concat (map encoded_byte (concat (map utf8_code_point cps))))
    = Some (concat (map code_units cps))"
proof (induction cps)
  case Nil
  then show ?case by (simp add: decode_uri.simps)
next
  case (Cons cp cps)
  then show ?case using decode_uri_code_point [of cp "concat (map encoded_byte (concat (map utf8_code_point cps)))"] by simp
qed

lemma decode_encode_uri:
  assumes "encode_uri_component s = Inr name"
  shows "decode_uri name = Some s"
proof -
  have s: "well_formed_utf16 s" and name: "name = concat (map encoded_byte (utf8 s))"
    using assms by (auto simp: encode_uri_component_eq split: if_splits)
  show ?thesis using decode_uri_code_points [of "code_points s"] scalar_code_points code_units_code_points [OF s]
    by (simp add: name utf8_def)
qed

section \<open>The request of the client at the service\<close>

lemma cut_at_append: "u \<notin> set s \<Longrightarrow> cut_at u (s @ u # t) = (s, t)"
  by (induction s) (auto simp: cut_at_def)

lemma cut_at_none: "u \<notin> set s \<Longrightarrow> cut_at u s = (s, [])"
  by (induction s) (auto simp: cut_at_def)

lemma encoded_byte_units: "v \<in> set (encoded_byte b) \<Longrightarrow> v \<noteq> 63 \<and> v \<noteq> 47"
proof -
  assume v: "v \<in> set (encoded_byte b)"
  have b: "unat b div 16 < 16" "unat b mod 16 < 16" "unat b < 65536" using unat8_less [of b] by simp_all
  have "unat v \<noteq> 63 \<and> unat v \<noteq> 47"
  proof (cases "unreserved (unat b)")
    case True
    then have "v = of_nat (unat b)" using v by (simp add: encoded_byte_def)
    then have "unat v = unat b" using b(3) by (simp only: unat_of_nat) simp
    then show ?thesis using True by (auto simp: unreserved_def)
  next
    case False
    then show ?thesis using v unat_upper_hex [OF b(1)] unat_upper_hex [OF b(2)] b by (auto simp: encoded_byte_def split: if_splits)
  qed
  then show "v \<noteq> 63 \<and> v \<noteq> 47" by auto
qed

lemma encoded_units:
  assumes "encode_uri_component i = Inr name"
  shows "63 \<notin> set name" and "47 \<notin> set name"
proof -
  have "63 \<notin> set (concat (map encoded_byte bs)) \<and> 47 \<notin> set (concat (map encoded_byte bs))" for bs
    using encoded_byte_units by (induction bs) auto
  then show "63 \<notin> set name" and "47 \<notin> set name" using assms by (auto simp: encode_uri_component_eq split: if_splits)
qed

lemma encoded_dots:
  assumes "encode_uri_component i = Inr name" and "i \<noteq> js ''.''" and "i \<noteq> js ''..''"
  shows "name \<noteq> [46]" and "name \<noteq> [46, 46]"
  using decode_encode_uri [OF assms(1)] assms(2,3) by (auto simp: decode_uri.simps)

lemma lookup_url:
  assumes "encode_uri_component i = Inr name" and "i \<noteq> js ''.''" and "i \<noteq> js ''..''"
  shows "url_of (js ''/v2/receipts/'' @ name @ js ''?recordHash='' @ h) = (js ''/v2/receipts/'' @ name, [(js ''recordHash'', h)])"
proof -
  note units = encoded_units [OF assms(1)]
  have path: "63 \<notin> set (js ''/v2/receipts/'' @ name)" using units(1) by simp
  have "js ''/v2/receipts/'' @ name @ js ''?recordHash='' @ h = (js ''/v2/receipts/'' @ name) @ 63 # js ''recordHash='' @ h" by simp
  moreover have "js ''recordHash='' @ h = js ''recordHash'' @ 61 # h" by simp
  moreover have "cut_at 61 (js ''recordHash'' @ 61 # h) = (js ''recordHash'', h)" by (rule cut_at_append) simp
  moreover have "split_slash (js ''/v2/receipts/'' @ name) = [[], js ''v2'', js ''receipts'', name]"
    using split_slash_plain [OF units(2)] by simp
  then have "concat (map (\<lambda>segment. 47 # segment) (dot_segments [] (tl (split_slash (js ''/v2/receipts/'' @ name)))))
      = js ''/v2/receipts/'' @ name"
    using encoded_dots [OF assms] by simp
  ultimately show ?thesis using cut_at_append [OF path] by (simp add: url_of_def del: js_Cons)
qed

text \<open>An identifier that is one dot or two is no segment of a path: its lookup asks for another identifier.\<close>

lemma dots_are_lost:
  "url_of (js ''/v2/receipts/.?recordHash='' @ h) = (js ''/v2/receipts/'', [(js ''recordHash'', h)])"
  "url_of (js ''/v2/receipts/..?recordHash='' @ h) = (js ''/v2/'', [(js ''recordHash'', h)])"
  by (simp_all add: url_of_def cut_at_def)

lemma encoded_not_empty: "encode_uri_component i = Inr name \<Longrightarrow> i \<noteq> [] \<Longrightarrow> name \<noteq> []"
  using decode_encode_uri [of i name] by (auto simp: decode_uri.simps)

lemma lookup_served:
  assumes "root_ok (dataDirectory cfg)" and "ledger_reachable X cfg s" and "sha256_ok X"
    and "jm_get (pendingIndex s) i = Some p" and "find_receipt s i = Some (accepted_receipt_of p)"
    and "encode_uri_component i = Inr name" and "i \<noteq> js ''.''" and "i \<noteq> js ''..''"
    and "token \<in> set (sv_apiTokens sv)" and "rq = \<lparr>hq_method = ''GET'',
      hq_path = js ''/v2/receipts/'' @ name @ js ''?recordHash='' @ pe_recordHash p, hq_token = token, hq_id = requestId, hq_body = None\<rparr>"
  shows "handle_request X cfg sv background (to_server chunks rq) s = (s, 200, Receipt_Payload (accepted_receipt_of p))"
proof -
  let ?h = "pe_recordHash p"
  have "p \<in> held s" using assms(4) by (auto simp: held_def)
  then have well: "well_recorded X (intakeDirectory cfg) p"
    using guarded_record [OF reachable_guarded [OF assms(1,2)]] by (simp add: record_ok_def)
  have indexes: "indexes_ok X cfg s" using reachable_in_custody [OF assms(1,2)] by (simp add: in_custody_def custody_def)
  have id: "i = event_id (pe_event p)" using indexes_okD(4) [OF indexes assms(4)] by (simp add: pe_id_def)
  have "wf_receipt (accepted_receipt_of p)" by (rule well_recorded_receipt [OF assms(3) well])
  then have ok: "i \<noteq> []" "is_hex64 ?h" by (simp_all add: accepted_receipt_of_def id)
  have "receipt_lookup (JStr i) (JStr ?h) s = (s, Inr (accepted_receipt_of p))"
    using ok assms(5)
    by (simp add: receipt_lookup_def bindS_def thenS_def non_empty_string_def hash_text_def str_of_def invariant_def
        accepted_receipt_of_def)
  then have found: "find_receipt_request name [(js ''recordHash'', ?h)] s = (s, Inr (200, Receipt_Payload (accepted_receipt_of p)))"
    by (simp add: find_receipt_request_def decode_encode_uri [OF assms(6)] bindS_def thenS_def invariant_def del: js_Cons)
  have url: "sq_url (to_server chunks rq) = Some (js ''/v2/receipts/'' @ name, [(js ''recordHash'', ?h)])"
    by (simp add: to_server_def assms(10) lookup_url [OF assms(6-8)] del: js_Cons)
  have verb: "sq_method (to_server chunks rq) = ''GET''" by (simp add: to_server_def assms(10))
  have credential: "tokenMatches (sq_authorization (to_server chunks rq)) (sv_apiTokens sv)"
    using assms(9) by (auto simp: tokenMatches_def to_server_def assms(10))
  have "serve X cfg sv background (to_server chunks rq) s = (s, Inr (200, Receipt_Payload (accepted_receipt_of p)))"
    using found url verb credential by (simp add: serve_def Let_def)
  then show ?thesis by (simp add: handle_request_def)
qed

section \<open>Property\<close>

text \<open>
  C10: An accepted event is found over HTTP, unless its identifier is a dot or two dots. For an event that
  waits in the intake, under an identifier (of well-formed text) other than these two, \<open>getReceipt\<close>, asked for
  the identifier and the record hash with the one credential of the client, which the service knows, gets
  the accepted receipt of the event, through the encoding of the identifier into the path and back, and
  through the checks of the client, when the answer arrives whole and below the client's limit; the ledger
  does not change. The two identifiers are accepted, but their receipts cannot be asked for: the parser of
  the request's URL resolves the dots away (\<open>dots_are_lost\<close>).
\<close>

theorem accepted_event_is_found_over_http:
  assumes "root_ok (dataDirectory cfg)" and "ledger_reachable X cfg s" and "sha256_ok X"
    and "jm_get (pendingIndex s) i = Some p" and "find_receipt s i = Some (accepted_receipt_of p)"
    and "well_formed_utf16 i" and "i \<noteq> js ''.''" and "i \<noteq> js ''..''"
    and "cl_tokens c = [token]" and "token \<in> set (sv_apiTokens sv)" and "0 < bytes" and "bytes \<le> MAX_RESPONSE_BYTES"
  shows "getReceipt c (network X cfg sv background) requestId (JStr i) (JStr (pe_recordHash p)) (s, [Answer chunks bytes])
    = ((s, []), Inr (receipt_json (accepted_receipt_of p)))"
proof -
  let ?r = "accepted_receipt_of p" and ?h = "pe_recordHash p"
  have "encode_uri_component i \<noteq> Inl type_error" using assms(6) by (simp add: encode_uri_component_eq)
  then obtain name where name: "encode_uri_component i = Inr name" using assms(6) by (simp add: encode_uri_component_eq)
  define rq where "rq = \<lparr>hq_method = ''GET'', hq_path = js ''/v2/receipts/'' @ name @ js ''?recordHash='' @ ?h, hq_token = token,
    hq_id = requestId, hq_body = None\<rparr>"
  note served = lookup_served [OF assms(1-5) name assms(7,8,10) rq_def]
  have valid: "validateLifecycleReceipt (receipt_json ?r) = Inr ()" by (rule waiting_receipts_conform [OF assms(1,3,2,4)])
  have id: "receipt_id ?r = i" "receipt_hash ?r = ?h"
    using find_receipt_recorded(2) [OF reachable_guarded [OF assms(1,2)] assms(5)] by (simp_all add: accepted_receipt_of_def)
  have props: "get_prop (receipt_json ?r) ''eventId'' = JStr i" "get_prop (receipt_json ?r) ''recordHash'' = JStr ?h"
    using id by (simp_all add: accepted_receipt_of_def)
  have hash: "hash_text (JStr ?h)" "i \<noteq> []"
    using valid props by (auto simp: validateLifecycleReceipt_def contract_simps andThen_Inr_iff hash_text_def)
  define payload where "payload = obj [(''contractVersion'', JInt 2), (''receipt'', receipt_json ?r), (''requestId'', JStr requestId)]"
  have net: "network X cfg sv background rq (s, [Answer chunks bytes])
      = ((s, []), Response \<lparr>hs_status = 200, hs_declared = Some bytes, hs_body = Body bytes (Some payload)\<rparr>)"
    using served by (simp add: network_def payload_def) (simp add: rq_def)
  have reply: "request c (network X cfg sv background) requestId ''GET'' (js ''/v2/receipts/'' @ name @ js ''?recordHash='' @ ?h)
      None (s, [Answer chunks bytes]) = ((s, []), Inr payload)"
    using net assms(9,11,12)
    by (simp add: request_def rq_def [symmetric] parseResponse_def demand_def accept_response_def del: js_Cons)
  have "payload \<noteq> JUndef" "payload \<noteq> JNull" "get_prop payload ''contractVersion'' = JInt 2"
    "get_prop payload ''receipt'' = receipt_json ?r" by (simp_all add: payload_def obj_def get_prop_def)
  then show ?thesis
    using reply name valid props hash
    by (simp add: getReceipt_def requireString_def demand_def non_empty_string_def str_of_def read_prop_def Let_def del: js_Cons)
qed

theorem accepted_event_is_found_over_http_witness:
  "\<exists>s p. getReceipt \<lparr>cl_tokens = [js ''k''], cl_timeoutMs = 100\<rparr>
      (network toy_platform sample_config \<lparr>sv_apiTokens = [js ''k''], sv_adminTokens = [], sv_maxBatchEvents = 500,
         sv_maxRequestBytes = 8388608\<rparr> None) (js ''r'') (JStr (js ''e1'')) (JStr (pe_recordHash p)) (s, [Answer [] 300])
    = ((s, []), Inr (receipt_json (accepted_receipt_of p)))"
proof -
  obtain d n p bytes where a: "accept_batch toy_platform sample_config [sample_event ''e1''] first_ledger
      = (accepted_ledger d n p bytes, Inr [accepted_receipt_of p])" by (rule sample_accept)
  let ?s = "accepted_ledger d n p bytes"
  have "ledger_step toy_platform sample_config first_ledger ?s"
    using Accept [of toy_platform sample_config first_ledger "[sample_event ''e1'']"] by (simp add: a)
  then have reach: "ledger_reachable toy_platform sample_config ?s"
    unfolding ledger_reachable_def first_ledger_def by blast
  have p: "jm_get (pendingIndex ?s) (js ''e1'') = Some p" by (simp add: accepted_ledger_def jm_get_def del: js_Cons)
  have found: "find_receipt ?s (js ''e1'') = Some (accepted_receipt_of p)"
    by (simp add: find_receipt_def p del: js_Cons)
      (simp add: accepted_ledger_def first_ledger_def bare_ledger_def fresh_ledger_def jm_get_def)
  have name: "well_formed_utf16 (js ''e1'')" "js ''e1'' \<noteq> js ''.''" "js ''e1'' \<noteq> js ''..''"
    using portable_js [of "''e1''"] by (simp_all add: portable_text_def del: js_Cons)
  show ?thesis
    by (rule exI [of _ ?s], rule exI [of _ p],
        rule accepted_event_is_found_over_http [OF sample_root reach toy_sha256_ok p found name])
      (simp_all add: MAX_RESPONSE_BYTES_def)
qed

end
