(* ===== verification/G9P_Room.thy ===== *)
theory G9P_Room
  imports G9P_Custody_Ops G9P_Ledger_Sample
begin

text \<open>
  The loop of \<open>#makeRoom\<close> ends: every round empties the block of one segment and fills none, so one
  round per active segment is enough for the condition of the loop to become false.
\<close>

definition roomy :: "jsstr \<Rightarrow> ledger \<Rightarrow> jsstr set" where
  "roomy exceptKey s = {k. k \<noteq> exceptKey \<and> (\<exists>a. jm_get (activeSegments s) k = Some a \<and> ac_activeBlock a \<noteq> [])}"

lemma room_candidates_roomy:
  assumes "jm_wf (activeSegments s)"
  shows "set (room_candidates e s) = roomy e s" and "length (room_candidates e s) = card (roomy e s)"
proof -
  have d: "distinct (map fst (activeSegments s))" using assms by (simp add: jm_wf_def)
  show set: "set (room_candidates e s) = roomy e s"
    using map_of_eq_Some_iff [OF d] by (force simp: room_candidates_def roomy_def jm_get_def)
  have "distinct (map fst (filter c (activeSegments s)))" for c using d by (rule distinct_map_filter)
  then have "distinct (room_candidates e s)" by (simp add: room_candidates_def distinct_map)
  then show "length (room_candidates e s) = card (roomy e s)" using distinct_card set by metis
qed

lemma roomy_finite: "finite (roomy e s)"
proof -
  have "roomy e s \<subseteq> fst ` set (activeSegments s)" by (force simp: roomy_def jm_get_def dest: map_of_SomeD)
  then show ?thesis by (rule finite_subset) simp
qed

lemma roomy_few:
  assumes "jm_wf (activeSegments s)"
  shows "card (roomy e s) \<le> length (activeSegments s)"
  unfolding room_candidates_roomy(2) [OF assms, symmetric] by (simp add: room_candidates_def)

lemma complete_empties:
  assumes "jm_wf (activeSegments s)" and "complete_active_block X cfg k s = (t, Inr ())"
  shows "jm_wf (activeSegments t)" and "roomy e t = roomy e s - {k}"
proof -
  obtain a where a: "jm_get (activeSegments s) k = Some a"
    using assms(2) by (auto simp: complete_active_block_def the_active_def bindS_Inr liftS_def split: option.splits)
  have "jm_wf (activeSegments t) \<and> roomy e t = roomy e s - {k}"
  proof (cases "ac_activeBlock a = []")
    case True
    then have "t = s" using assms(2) a by (simp add: complete_active_block_def the_active_def bindS_def)
    then show ?thesis using assms(1) a True by (auto simp: roomy_def)
  next
    case False
    obtain block where block: "completed_block X a = Inr block"
      using assms(2) a False by (cases "completed_block X a") (auto simp: complete_active_block_def the_active_def bindS_def)
    define c where "c = a\<lparr>ac_blocks := ac_blocks a @ [block], ac_activeBlock := [], ac_activeBlockBytes := 0\<rparr>"
    define u where "u = set_active k c (s\<lparr>activeBlockBytes := activeBlockBytes s - int (ac_activeBlockBytes a)\<rparr>)"
    obtain v path where v: "persist_state (activeStateDirectory cfg) (state_of_active X c) u = (v, Inr path)"
      and t: "t = rebuild_provisional (c\<lparr>ac_statePath := Some path\<rparr>) (set_active k (c\<lparr>ac_statePath := Some path\<rparr>) v)"
      using assms(2) a False block
      by (auto simp: complete_active_block_def the_active_def bindS_def thenS_def Let_def c_def [symmetric] u_def [symmetric]
          split: sum.splits prod.splits)
    have "core (fst (persist_state (activeStateDirectory cfg) (state_of_active X c) u)) = core u"
      using quiet_persist unfolding quiet_def by blast
    then have "activeSegments v = activeSegments u" by (simp add: v core_def)
    then have now: "activeSegments t = jm_set k (c\<lparr>ac_statePath := Some path\<rparr>) (jm_set k c (activeSegments s))"
      by (simp add: t u_def set_active_def rebuild_provisional_def)
    then show ?thesis using jm.wf_upd assms(1) by (auto simp: roomy_def c_def)
  qed
  then show "jm_wf (activeSegments t)" and "roomy e t = roomy e s - {k}" by blast+
qed

lemma room_loop_ends:
  "jm_wf (activeSegments s) \<Longrightarrow> card (roomy exceptKey s) \<le> rounds \<Longrightarrow>
     make_room_loop X cfg (rounds + extra) requiredBytes exceptKey s = make_room_loop X cfg rounds requiredBytes exceptKey s
   \<and> (\<forall>t. make_room_loop X cfg rounds requiredBytes exceptKey s = (t, Inr ()) \<longrightarrow>
        activeBlockBytes t + int requiredBytes \<le> int (maxActiveBlockBytes (limits_of cfg)) \<or> room_candidates exceptKey t = [])"
proof (induction rounds arbitrary: s)
  case 0
  then have "room_candidates exceptKey s = []" using room_candidates_roomy(2) [of s exceptKey] by simp
  then show ?case by (cases extra) (simp_all add: bindS_def)
next
  case (Suc rounds)
  let ?stop = "activeBlockBytes s + int requiredBytes \<le> int (maxActiveBlockBytes (limits_of cfg)) \<or> room_candidates exceptKey s = []"
  let ?k = "hd (room_candidates exceptKey s)"
  show ?case
  proof (cases ?stop)
    case True
    then show ?thesis by (auto simp: bindS_def)
  next
    case False
    obtain u r where u: "complete_active_block X cfg ?k s = (u, r)" by fastforce
    show ?thesis
    proof (cases r)
      case (Inl e)
      then show ?thesis using False u by (simp add: bindS_def thenS_def)
    next
      case (Inr x)
      then have u: "complete_active_block X cfg ?k s = (u, Inr ())" using u by simp
      have "?k \<in> roomy exceptKey s" using False room_candidates_roomy(1) [OF Suc.prems(1), of exceptKey] by (metis hd_in_set)
      then have "card (roomy exceptKey u) \<le> rounds"
        using Suc.prems(2) roomy_finite [of exceptKey s] complete_empties(2) [OF Suc.prems(1) u, of exceptKey]
        by (simp add: card_Diff_singleton)
      from Suc.IH [OF complete_empties(1) [OF Suc.prems(1) u] this] show ?thesis
        using False u by (simp add: bindS_def thenS_def)
    qed
  qed
qed

section \<open>Property\<close>

text \<open>
  C35: Making room for a block ends. With as many rounds as there are active segments, the loop of
  \<open>#makeRoom\<close> has come to its own end, more rounds change nothing; and when it ends without an error,
  the memory of the blocks fits the limit again or no other segment has a block that could be completed.
\<close>

theorem making_room_ends:
  assumes "jm_wf (activeSegments s)"
  shows "make_room_loop X cfg (length (activeSegments s) + extra) requiredBytes exceptKey s
      = make_room_loop X cfg (length (activeSegments s)) requiredBytes exceptKey s
    \<and> (\<forall>t. make_room_loop X cfg (length (activeSegments s)) requiredBytes exceptKey s = (t, Inr ()) \<longrightarrow>
      activeBlockBytes t + int requiredBytes \<le> int (maxActiveBlockBytes (limits_of cfg)) \<or> room_candidates exceptKey t = [])"
  by (rule room_loop_ends [OF assms roomy_few [OF assms]])

definition sample_segments :: ledger where
  "sample_segments = first_ledger\<lparr>activeSegments :=
     [(js ''a'', new_active toy_platform (js ''L'') (js ''shard-0000'') 0 2 None (js ''2026-01-02T03:04:05.007Z'')),
      (js ''b'', new_active toy_platform (js ''L'') (js ''shard-0001'') 0 2 None (js ''2026-01-02T03:04:05.007Z''))]\<rparr>"

theorem making_room_ends_witness:
  "make_room_loop toy_platform sample_config 5 100 (js ''a'') sample_segments
    = make_room_loop toy_platform sample_config 2 100 (js ''a'') sample_segments"
proof -
  have "jm_wf (activeSegments sample_segments)" "length (activeSegments sample_segments) = 2"
    by (simp_all add: sample_segments_def jm_wf_def)
  with making_room_ends [of sample_segments toy_platform sample_config 3] show ?thesis by simp
qed

end
