(* ===== verification/G9P_Base64.thy ===== *)
theory G9P_Base64
  imports G9P_Text
begin

text \<open>
  \<open>Buffer.toString("base64")\<close> and \<open>Buffer.from(text, "base64")\<close>, which stops at the first padding sign, skips
  what is not a digit, takes the digits of the URL alphabet too, and drops a last digit on its own.
\<close>

definition b64_unit :: "nat \<Rightarrow> 16 word" where
  "b64_unit d = of_nat (if d < 26 then 65 + d else if d < 52 then 71 + d else if d < 62 then d - 4
     else if d = 62 then 43 else 47)"

definition b64_value :: "16 word \<Rightarrow> nat option" where
  "b64_value u =
     (let n = unat u in
      if 65 \<le> n \<and> n \<le> 90 then Some (n - 65) else if 97 \<le> n \<and> n \<le> 122 then Some (n - 71)
      else if 48 \<le> n \<and> n \<le> 57 then Some (n + 4) else if n = 43 \<or> n = 45 then Some 62
      else if n = 47 \<or> n = 95 then Some 63 else None)"

fun base64 :: "byte list \<Rightarrow> jsstr" where
  "base64 [] = []"
| "base64 [a] = [b64_unit (unat a div 4), b64_unit (unat a mod 4 * 16), 61, 61]"
| "base64 [a, b] = [b64_unit (unat a div 4), b64_unit (unat a mod 4 * 16 + unat b div 16), b64_unit (unat b mod 16 * 4), 61]"
| "base64 (a # b # c # bs) =
     [b64_unit (unat a div 4), b64_unit (unat a mod 4 * 16 + unat b div 16), b64_unit (unat b mod 16 * 4 + unat c div 64),
      b64_unit (unat c mod 64)] @ base64 bs"

fun sextet_bytes :: "nat list \<Rightarrow> byte list" where
  "sextet_bytes (w # x # y # z # ds) =
     [of_nat (w * 4 + x div 16), of_nat (x mod 16 * 16 + y div 4), of_nat (y mod 4 * 64 + z)] @ sextet_bytes ds"
| "sextet_bytes [w, x, y] = [of_nat (w * 4 + x div 16), of_nat (x mod 16 * 16 + y div 4)]"
| "sextet_bytes [w, x] = [of_nat (w * 4 + x div 16)]"
| "sextet_bytes [w] = []"
| "sextet_bytes [] = []"

definition base64_digits :: "jsstr \<Rightarrow> nat list" where
  "base64_digits s = List.map_filter b64_value (takeWhile (\<lambda>u. u \<noteq> 61) s)"

definition base64_bytes :: "jsstr \<Rightarrow> byte list" where
  "base64_bytes s = sextet_bytes (base64_digits s)"

section \<open>Decoding what was encoded\<close>

lemma unat_b64_unit:
  "d < 64 \<Longrightarrow> unat (b64_unit d) = (if d < 26 then 65 + d else if d < 52 then 71 + d else if d < 62 then d - 4
     else if d = 62 then 43 else 47)"
  unfolding b64_unit_def by (subst unat_of_nat) simp

lemma b64_value_unit [simp]: "d < 64 \<Longrightarrow> b64_value (b64_unit d) = Some d"
  by (auto simp: b64_value_def Let_def unat_b64_unit)

lemma b64_value_pad [simp]: "b64_value 61 = None"
  by (simp add: b64_value_def)

lemma byte_digits:
  fixes a b c :: byte
  shows "unat a div 4 < 64" and "unat a mod 4 * 16 < 64" and "unat a mod 4 * 16 + unat b div 16 < 64"
    and "unat b mod 16 * 4 < 64" and "unat b mod 16 * 4 + unat c div 64 < 64" and "unat c mod 64 < 64"
proof -
  have "unat a mod 4 < 4" "unat b mod 16 < 16" by simp_all
  moreover have "unat a div 4 < 64" "unat b div 16 < 16" "unat c div 64 < 4"
    using unat8_less [of a] unat8_less [of b] unat8_less [of c] by simp_all
  ultimately show "unat a div 4 < 64" and "unat a mod 4 * 16 < 64" and "unat a mod 4 * 16 + unat b div 16 < 64"
    and "unat b mod 16 * 4 < 64" and "unat b mod 16 * 4 + unat c div 64 < 64" and "unat c mod 64 < 64" by linarith+
qed

lemma sextet_joins:
  fixes a b c :: byte
  shows "of_nat (unat a div 4 * 4 + unat a mod 4 * 16 div 16) = a"
    and "of_nat (unat a div 4 * 4 + (unat a mod 4 * 16 + unat b div 16) div 16) = a"
    and "of_nat ((unat a mod 4 * 16 + unat b div 16) mod 16 * 16 + unat b mod 16 * 4 div 4) = b"
    and "of_nat ((unat a mod 4 * 16 + unat b div 16) mod 16 * 16 + (unat b mod 16 * 4 + unat c div 64) div 4) = b"
    and "of_nat ((unat b mod 16 * 4 + unat c div 64) mod 4 * 64 + unat c mod 64) = c"
proof -
  have small: "unat b div 16 < 16" "unat c div 64 < 4" using unat8_less [of b] unat8_less [of c] by simp_all
  have again: "(of_nat (unat (d :: byte)) :: byte) = d" for d by simp
  have "unat a div 4 * 4 + unat a mod 4 * 16 div 16 = unat a" by simp
  then show "of_nat (unat a div 4 * 4 + unat a mod 4 * 16 div 16) = a" by (simp only: again)
  have "unat a div 4 * 4 + (unat a mod 4 * 16 + unat b div 16) div 16 = unat a" using small by simp
  then show "of_nat (unat a div 4 * 4 + (unat a mod 4 * 16 + unat b div 16) div 16) = a" by (simp only: again)
  have "(unat a mod 4 * 16 + unat b div 16) mod 16 * 16 + unat b mod 16 * 4 div 4 = unat b" using small by simp
  then show "of_nat ((unat a mod 4 * 16 + unat b div 16) mod 16 * 16 + unat b mod 16 * 4 div 4) = b" by (simp only: again)
  have "(unat a mod 4 * 16 + unat b div 16) mod 16 * 16 + (unat b mod 16 * 4 + unat c div 64) div 4 = unat b" using small by simp
  then show "of_nat ((unat a mod 4 * 16 + unat b div 16) mod 16 * 16 + (unat b mod 16 * 4 + unat c div 64) div 4) = b"
    by (simp only: again)
  have "(unat b mod 16 * 4 + unat c div 64) mod 4 * 64 + unat c mod 64 = unat c" using small by simp
  then show "of_nat ((unat b mod 16 * 4 + unat c div 64) mod 4 * 64 + unat c mod 64) = c" by (simp only: again)
qed

lemma base64_digits_rules:
  "base64_digits [] = []" "base64_digits (61 # s) = []"
  "d < 64 \<Longrightarrow> base64_digits (b64_unit d # s) = d # base64_digits s"
proof -
  show "base64_digits [] = []" "base64_digits (61 # s) = []"
    by (simp_all add: base64_digits_def map_filter_simps)
  assume d: "d < 64"
  then have "b64_unit d \<noteq> 61" using b64_value_unit [of d] by fastforce
  with d show "base64_digits (b64_unit d # s) = d # base64_digits s"
    by (simp add: base64_digits_def map_filter_simps)
qed

lemma digits_of_base64:
  "base64_digits (base64 []) = []"
  "base64_digits (base64 [a]) = [unat a div 4, unat a mod 4 * 16]"
  "base64_digits (base64 [a, b]) = [unat a div 4, unat a mod 4 * 16 + unat b div 16, unat b mod 16 * 4]"
  "base64_digits (base64 (a # b # c # bs)) = unat a div 4 # (unat a mod 4 * 16 + unat b div 16)
     # (unat b mod 16 * 4 + unat c div 64) # unat c mod 64 # base64_digits (base64 bs)"
  by (simp_all only: base64.simps append_Cons append_Nil base64_digits_rules(1,2) base64_digits_rules(3) [OF byte_digits(1)]
    base64_digits_rules(3) [OF byte_digits(2)] base64_digits_rules(3) [OF byte_digits(3)]
    base64_digits_rules(3) [OF byte_digits(4)] base64_digits_rules(3) [OF byte_digits(5)]
    base64_digits_rules(3) [OF byte_digits(6)])

lemma base64_bytes_base64 [simp]: "base64_bytes (base64 bs) = bs"
  unfolding base64_bytes_def
  by (induction bs rule: base64.induct)
    (simp_all only: digits_of_base64 sextet_bytes.simps sextet_joins append_Cons append_Nil)

lemma length_base64: "length (base64 bs) = 4 * ((length bs + 2) div 3)"
proof (induction bs rule: base64.induct)
  case (4 a b c bs)
  have "(length (a # b # c # bs) + 2) div 3 = Suc ((length bs + 2) div 3)" by simp
  then show ?case using 4 by simp
qed simp_all

text \<open>The text of an encoding is digits of the standard alphabet, then at most two padding signs.\<close>

definition b64_digit :: "16 word \<Rightarrow> bool" where
  "b64_digit u \<longleftrightarrow> b64_value u \<noteq> None \<and> u \<noteq> 45 \<and> u \<noteq> 95"

lemma b64_digit_unit [simp]: "d < 64 \<Longrightarrow> b64_digit (b64_unit d)"
proof -
  assume d: "d < 64"
  have "unat (b64_unit d) \<noteq> unat (45 :: 16 word)" "unat (b64_unit d) \<noteq> unat (95 :: 16 word)"
    using d by (auto simp: unat_b64_unit split: if_splits)
  with d show ?thesis by (auto simp: b64_digit_def)
qed

lemma b64_digit_pad [simp]: "\<not> b64_digit 61"
  by (simp add: b64_digit_def)

lemma base64_shape: "dropWhile b64_digit (base64 bs) \<in> {[], [61], [61, 61]}"
  by (induction bs rule: base64.induct) (simp_all add: byte_digits)

lemma base64_head: "bs \<noteq> [] \<Longrightarrow> takeWhile b64_digit (base64 bs) \<noteq> []"
  by (cases bs rule: base64.cases) (simp_all add: byte_digits)

end
