(* ===== verification/G9P_Signer_Service.thy ===== *)
theory G9P_Signer_Service
  imports G9P_Checkpoint G9P_Segment_Total G9P_Base64
begin

text \<open>
  Separated custody: the signer service that holds the keys (services/signer/src) and the signer that the
  ledger loads through its socket (services/ledger/src/socket-signer.js). Text on the socket is represented
  by what \<open>JSON.parse\<close> makes of its first line, and by the sizes of the chunks in which it arrives.
\<close>

section \<open>Lines on a socket\<close>

text \<open>A chunk is its number of bytes and whether it holds a line feed; \<open>tx_json\<close> is \<open>None\<close> where
  \<open>JSON.parse\<close> throws.\<close>

record wire_text =
  tx_chunks :: "(nat \<times> bool) list"
  tx_json :: "jsval option"

datatype line = Whole | Too_Long | Unfinished

fun read_line :: "nat \<Rightarrow> nat \<Rightarrow> (nat \<times> bool) list \<Rightarrow> line" where
  "read_line allowed received [] = Unfinished"
| "read_line allowed received ((bytes, newline) # chunks) =
     (if allowed < received + bytes then Too_Long
      else if newline then Whole
      else read_line allowed (received + bytes) chunks)"

definition MAX_LINE_BYTES :: nat where
  "MAX_LINE_BYTES = 16384"

definition ROLES :: "jsstr list" where
  "ROLES = [js ''segment'', js ''topology'', js ''checkpoint'']"

text \<open>\<open>Object.keys(value).sort().join("\0")\<close> compared with the joined names.\<close>

definition join_nul :: "jsstr list \<Rightarrow> jsstr" where
  "join_nul parts = drop 1 (concat (map (\<lambda>part. 0 # part) parts))"

definition exact_fields :: "jsval \<Rightarrow> string list \<Rightarrow> bool" where
  "exact_fields v names \<longleftrightarrow> is_object v \<and> join_nul (sort (object_keys v)) = join_nul (sort (map js names))"

section \<open>The messages\<close>

definition identity_request :: "jsstr \<Rightarrow> jsval" where
  "identity_request role = obj [(''kind'', JStr (js ''g9p-signer-request'')), (''version'', JInt 1),
     (''operation'', JStr (js ''identity'')), (''role'', JStr role)]"

definition sign_request :: "jsstr \<Rightarrow> byte list \<Rightarrow> jsval" where
  "sign_request role message = obj [(''kind'', JStr (js ''g9p-signer-request'')), (''version'', JInt 1),
     (''operation'', JStr (js ''sign'')), (''role'', JStr role), (''message'', JStr (base64 message))]"

definition refusal :: "string \<Rightarrow> jsval" where
  "refusal code = obj [(''ok'', JBool False), (''code'', JStr (js code))]"

definition identity_response :: "jsstr \<Rightarrow> signer \<Rightarrow> jsval" where
  "identity_response role s = obj [(''ok'', JBool True), (''kind'', JStr (js ''g9p-signer-response'')), (''version'', JInt 1),
     (''role'', JStr role), (''algorithm'', JStr (algorithm s)), (''keyId'', JStr (keyId s)),
     (''publicKey'', JStr (base64 (publicKeyDer s)))]"

definition signature_response :: "jsstr \<Rightarrow> signer \<Rightarrow> byte list \<Rightarrow> jsval" where
  "signature_response role s signature = obj [(''ok'', JBool True), (''kind'', JStr (js ''g9p-signer-response'')),
     (''version'', JInt 1), (''role'', JStr role), (''algorithm'', JStr (algorithm s)), (''keyId'', JStr (keyId s)),
     (''signature'', JStr (base64 signature))]"

section \<open>The service\<close>

type_synonym signers = "jsstr \<Rightarrow> signer"

definition custody_signers :: "signers \<Rightarrow> unit res" where
  "custody_signers signers = checks (map (\<lambda>role.
     if algorithm (signers role) = js ''ed25519'' \<and> sign_operation (signers role) \<noteq> None then Inr ()
     else Inl (PlainError [])) ROLES)"

definition base64_pattern :: "jsstr \<Rightarrow> bool" where
  "base64_pattern s =
     (takeWhile b64_digit s \<noteq> [] \<and> dropWhile b64_digit s \<in> {[], [61], [61, 61]})"

definition canonicalBase64 :: "jsval \<Rightarrow> nat \<Rightarrow> byte list option" where
  "canonicalBase64 v expectedBytes =
     (case v of
        JStr s \<Rightarrow>
          if base64_pattern s \<and> length (base64_bytes s) = expectedBytes \<and> base64 (base64_bytes s) = s
          then Some (base64_bytes s) else None
      | _ \<Rightarrow> None)"

record audit_entry =
  au_operation :: string
  au_role :: jsstr
  au_keyId :: jsstr
  au_status :: string

datatype signer_result = Refuse string | Respond jsval | Sign_With signer "byte list"

definition handle_signer_request :: "signers \<Rightarrow> jsval \<Rightarrow> audit_entry list \<times> signer_result" where
  "handle_signer_request signers request =
     (case get_prop request ''role'' of
        JStr role \<Rightarrow>
          let s = signers role in
          if get_prop request ''kind'' \<noteq> JStr (js ''g9p-signer-request'') \<or> get_prop request ''version'' \<noteq> JInt 1
            \<or> role \<notin> set ROLES then ([], Refuse ''SIGNER_REQUEST'')
          else if get_prop request ''operation'' = JStr (js ''identity'')
            \<and> exact_fields request [''kind'', ''version'', ''operation'', ''role'']
          then ([\<lparr>au_operation = ''identity'', au_role = role, au_keyId = keyId s, au_status = ''allowed''\<rparr>],
                Respond (identity_response role s))
          else if get_prop request ''operation'' \<noteq> JStr (js ''sign'')
            \<or> \<not> exact_fields request [''kind'', ''version'', ''operation'', ''role'', ''message'']
          then ([], Refuse ''SIGNER_REQUEST'')
          else (case canonicalBase64 (get_prop request ''message'') 32 of
              None \<Rightarrow> ([], Refuse ''SIGNER_MESSAGE'')
            | Some message \<Rightarrow> ([], Sign_With s message))
      | _ \<Rightarrow> ([], Refuse ''SIGNER_REQUEST''))"

text \<open>One connection: what is written to the audit log, and the answer, if there is one.\<close>

definition serve_signer :: "platform \<Rightarrow> signers \<Rightarrow> wire_text \<Rightarrow> audit_entry list \<times> jsval option" where
  "serve_signer X signers incoming =
     (case read_line MAX_LINE_BYTES 0 (tx_chunks incoming) of
        Unfinished \<Rightarrow> ([], None)
      | Too_Long \<Rightarrow> ([], Some (refusal ''SIGNER_REQUEST_LIMIT''))
      | Whole \<Rightarrow>
          (case tx_json incoming of
             None \<Rightarrow> ([], Some (refusal ''SIGNER_REQUEST''))
           | Some request \<Rightarrow>
               let role = str_of (get_prop request ''role'');
                   entry = (\<lambda>s status. \<lparr>au_operation = ''sign'', au_role = role, au_keyId = keyId s, au_status = status\<rparr>) in
               (case handle_signer_request signers request of
                  (audit, Refuse code) \<Rightarrow> (audit, Some (refusal code))
                | (audit, Respond response) \<Rightarrow> (audit, Some response)
                | (audit, Sign_With s message) \<Rightarrow>
                    (case sign_message X s message of
                       Inl e \<Rightarrow> (audit @ [entry s ''failed''], Some (refusal ''SIGNER_OPERATION''))
                     | Inr signature \<Rightarrow>
                         if length signature \<noteq> 64 then (audit, Some (refusal ''SIGNER_SIGNATURE''))
                         else (audit @ [entry s ''allowed''], Some (signature_response role s signature))))))"

section \<open>Keys in files\<close>

text \<open>\<open>unix\<close> says whether the platform has permission bits; the codes are those of the signer service or of
  the ledger. \<open>decrypt\<close> stands for \<open>createPrivateKey\<close> and \<open>createPublicKey\<close>: the private key and the
  SPKI document of its public key.\<close>

record key_file =
  kf_regular :: bool
  kf_mode :: nat
  kf_bytes :: "byte list"

definition readProtectedPassphrase :: "bool \<Rightarrow> string \<Rightarrow> key_file \<Rightarrow> byte list res" where
  "readProtectedPassphrase unix prefix f =
     (let refuse = (\<lambda>b code. if b then Inr () else Inl (PlainError (prefix @ code))) in
      andThen (checks
        [refuse (kf_regular f) ''_PASSPHRASE_FILE'',
         refuse (unix \<longrightarrow> kf_mode f mod 64 = 0) ''_PASSPHRASE_PERMISSIONS'',
         refuse (32 \<le> length (kf_bytes f) \<and> length (kf_bytes f) \<le> 4096) ''_PASSPHRASE_LENGTH''])
      (Inr (kf_bytes f)))"

definition loadCustodySigner ::
  "platform \<Rightarrow> (byte list \<Rightarrow> byte list \<Rightarrow> (byte list \<times> byte list) option) \<Rightarrow> byte list \<Rightarrow> byte list \<Rightarrow> signer res" where
  "loadCustodySigner X decrypt pem passphrase =
     (case decrypt pem passphrase of
        None \<Rightarrow> Inl (PlainError ''SIGNER_KEY_LOAD'')
      | Some (key, der) \<Rightarrow> Inr \<lparr>algorithm = js ''ed25519'', keyId = public_key_id X der, publicKeyDer = der,
          sign_operation = Some (\<lambda>message. Inr (ed_sign X key message)), privateKey = None\<rparr>)"

section \<open>The signer of the ledger\<close>

text \<open>What comes of a connection: none, or a text after which the other side ended (or else the time ran out).\<close>

datatype conversation = No_Socket | Heard wire_text bool

definition plain_failure :: "string \<Rightarrow> 'a res" where
  "plain_failure code = Inl (PlainError code)"

definition plain_check :: "bool \<Rightarrow> string \<Rightarrow> unit res" where
  "plain_check b code = (if b then Inr () else plain_failure code)"

lemma plain_check_Inr [res_simps]: "plain_check b code = Inr u \<longleftrightarrow> b"
  by (simp add: plain_check_def plain_failure_def)

definition code_text :: "jsval \<Rightarrow> string" where
  "code_text v = (case v of JStr s \<Rightarrow> map (\<lambda>u. char_of (unat u)) s | _ \<Rightarrow> ''SIGNER_REJECTED'')"

record socket_options =
  so_path :: jsval
  so_timeoutMs :: jsval

definition requestSigner :: "socket_options \<Rightarrow> (jsval \<Rightarrow> conversation) \<Rightarrow> jsval \<Rightarrow> jsval res" where
  "requestSigner so talk request =
     andThen (checks
       [plain_check (non_empty_string (so_path so)) ''SIGNER_SOCKET_PATH'',
        plain_check (int_in 100 60000 (so_timeoutMs so)) ''SIGNER_TIMEOUT''])
     (case talk request of
        No_Socket \<Rightarrow> plain_failure ''SIGNER_UNAVAILABLE''
      | Heard text ended \<Rightarrow>
          (case read_line MAX_LINE_BYTES 0 (tx_chunks text) of
             Too_Long \<Rightarrow> plain_failure ''SIGNER_RESPONSE_LIMIT''
           | Unfinished \<Rightarrow> plain_failure (if ended then ''SIGNER_RESPONSE'' else ''SIGNER_TIMEOUT'')
           | Whole \<Rightarrow>
               (case tx_json text of
                  None \<Rightarrow> plain_failure ''SIGNER_RESPONSE''
                | Some response \<Rightarrow>
                    if get_prop response ''ok'' = JBool True then Inr response
                    else plain_failure (code_text (get_prop response ''code'')))))"

text \<open>\<open>buffer\<close> is \<open>Buffer.from\<close> of what is not text, \<open>None\<close> where it throws.\<close>

definition remote_sign ::
  "socket_options \<Rightarrow> (jsval \<Rightarrow> conversation) \<Rightarrow> (jsval \<Rightarrow> byte list option) \<Rightarrow> jsstr \<Rightarrow> jsstr \<Rightarrow> jsstr
    \<Rightarrow> byte list \<Rightarrow> byte list res" where
  "remote_sign so talk buffer role algo key_id message =
     andThen (plain_check (length message = 32) ''SIGNER_MESSAGE'')
     (bindR (requestSigner so talk (sign_request role message)) (\<lambda>response.
     andThen (plain_check (exact_fields response [''ok'', ''kind'', ''version'', ''role'', ''algorithm'', ''keyId'', ''signature'']
       \<and> get_prop response ''kind'' = JStr (js ''g9p-signer-response'') \<and> get_prop response ''version'' = JInt 1
       \<and> get_prop response ''role'' = JStr role \<and> get_prop response ''algorithm'' = JStr algo
       \<and> get_prop response ''keyId'' = JStr key_id) ''SIGNER_RESPONSE'')
     (case get_prop response ''signature'' of
        JStr s \<Rightarrow>
          andThen (plain_check (length (base64_bytes s) = 64 \<and> base64 (base64_bytes s) = s) ''SIGNER_SIGNATURE'')
          (Inr (base64_bytes s))
      | v \<Rightarrow> (case buffer v of None \<Rightarrow> Inl JsTypeError | Some bytes \<Rightarrow> plain_failure ''SIGNER_SIGNATURE''))))"

definition loadSocketSigner ::
  "platform \<Rightarrow> socket_options \<Rightarrow> (jsval \<Rightarrow> conversation) \<Rightarrow> (jsval \<Rightarrow> byte list option) \<Rightarrow> jsstr \<Rightarrow> signer res" where
  "loadSocketSigner X so talk buffer role =
     andThen (plain_check (role \<in> set ROLES) ''SIGNER_ROLE'')
     (bindR (requestSigner so talk (identity_request role)) (\<lambda>identity.
     andThen (plain_check (exact_fields identity [''ok'', ''kind'', ''version'', ''role'', ''algorithm'', ''keyId'', ''publicKey''])
       ''SIGNER_IDENTITY'')
     (bindR (case get_prop identity ''publicKey'' of
         JStr s \<Rightarrow> Inr (base64_bytes s)
       | v \<Rightarrow> (case buffer v of None \<Rightarrow> plain_failure ''SIGNER_IDENTITY'' | Some bytes \<Rightarrow> Inr bytes)) (\<lambda>der.
      andThen (plain_check (get_prop identity ''kind'' = JStr (js ''g9p-signer-response'')
        \<and> get_prop identity ''version'' = JInt 1 \<and> get_prop identity ''role'' = JStr role
        \<and> get_prop identity ''algorithm'' = JStr (js ''ed25519'') \<and> length der = 44
        \<and> get_prop identity ''keyId'' = JStr (public_key_id X der)) ''SIGNER_IDENTITY'')
      (Inr \<lparr>algorithm = js ''ed25519'', keyId = public_key_id X der, publicKeyDer = der,
        sign_operation = Some (remote_sign so talk buffer role (js ''ed25519'') (public_key_id X der)), privateKey = None\<rparr>)))))"


section \<open>The conversation of the service and its client\<close>

lemma exact_fields_obj [simp]: "map fst kvs = names \<Longrightarrow> exact_fields (obj kvs) names"
  by (simp add: exact_fields_def del: js_Cons)

lemma identity_request_props [simp]:
  "get_prop (identity_request role) ''kind'' = JStr (js ''g9p-signer-request'')"
  "get_prop (identity_request role) ''version'' = JInt 1"
  "get_prop (identity_request role) ''operation'' = JStr (js ''identity'')"
  "get_prop (identity_request role) ''role'' = JStr role"
  "exact_fields (identity_request role) [''kind'', ''version'', ''operation'', ''role'']"
  by (simp_all add: identity_request_def del: js_Cons)

lemma sign_request_props [simp]:
  "get_prop (sign_request role m) ''kind'' = JStr (js ''g9p-signer-request'')"
  "get_prop (sign_request role m) ''version'' = JInt 1"
  "get_prop (sign_request role m) ''operation'' = JStr (js ''sign'')"
  "get_prop (sign_request role m) ''role'' = JStr role"
  "get_prop (sign_request role m) ''message'' = JStr (base64 m)"
  "exact_fields (sign_request role m) [''kind'', ''version'', ''operation'', ''role'', ''message'']"
  by (simp_all add: sign_request_def del: js_Cons)

lemma identity_response_props [simp]:
  "get_prop (identity_response role s) ''ok'' = JBool True"
  "get_prop (identity_response role s) ''kind'' = JStr (js ''g9p-signer-response'')"
  "get_prop (identity_response role s) ''version'' = JInt 1"
  "get_prop (identity_response role s) ''role'' = JStr role"
  "get_prop (identity_response role s) ''algorithm'' = JStr (algorithm s)"
  "get_prop (identity_response role s) ''keyId'' = JStr (keyId s)"
  "get_prop (identity_response role s) ''publicKey'' = JStr (base64 (publicKeyDer s))"
  "exact_fields (identity_response role s) [''ok'', ''kind'', ''version'', ''role'', ''algorithm'', ''keyId'', ''publicKey'']"
  by (simp_all add: identity_response_def del: js_Cons)

lemma signature_response_props [simp]:
  "get_prop (signature_response role s sig) ''ok'' = JBool True"
  "get_prop (signature_response role s sig) ''kind'' = JStr (js ''g9p-signer-response'')"
  "get_prop (signature_response role s sig) ''version'' = JInt 1"
  "get_prop (signature_response role s sig) ''role'' = JStr role"
  "get_prop (signature_response role s sig) ''algorithm'' = JStr (algorithm s)"
  "get_prop (signature_response role s sig) ''keyId'' = JStr (keyId s)"
  "get_prop (signature_response role s sig) ''signature'' = JStr (base64 sig)"
  "exact_fields (signature_response role s sig)
     [''ok'', ''kind'', ''version'', ''role'', ''algorithm'', ''keyId'', ''signature'']"
  by (simp_all add: signature_response_def del: js_Cons)

lemma refusal_props [simp]:
  "get_prop (refusal code) ''ok'' = JBool False" "get_prop (refusal code) ''code'' = JStr (js code)"
  "get_prop (refusal code) ''signature'' = JUndef"
  by (simp_all add: refusal_def del: js_Cons)

lemma get_prop_identity_signature [simp]: "get_prop (identity_response role s) ''signature'' = JUndef"
  by (simp add: identity_response_def del: js_Cons)

lemma operation_names [simp]: "js ''identity'' \<noteq> js ''sign''" "js ''sign'' \<noteq> js ''identity''"
  by simp_all

lemma canonicalBase64_base64: "length m = 32 \<Longrightarrow> canonicalBase64 (JStr (base64 m)) 32 = Some m"
  using base64_shape [of m] base64_head [of m] by (cases m) (simp_all add: canonicalBase64_def base64_pattern_def)

lemma canonicalBase64_Some: "canonicalBase64 v n = Some m \<Longrightarrow> v = JStr (base64 m) \<and> length m = n"
  by (auto simp: canonicalBase64_def split: jsval.splits if_splits)

lemma identity_served:
  assumes "role \<in> set ROLES" and "read_line MAX_LINE_BYTES 0 sent = Whole"
  shows "serve_signer X signers \<lparr>tx_chunks = sent, tx_json = Some (identity_request role)\<rparr> =
    ([\<lparr>au_operation = ''identity'', au_role = role, au_keyId = keyId (signers role), au_status = ''allowed''\<rparr>],
     Some (identity_response role (signers role)))"
  using assms by (simp add: serve_signer_def handle_signer_request_def Let_def del: js_Cons)

lemma sign_handled:
  assumes "role \<in> set ROLES" and "length m = 32"
  shows "handle_signer_request signers (sign_request role m) = ([], Sign_With (signers role) m)"
  using assms canonicalBase64_base64 [OF assms(2)]
  by (simp add: handle_signer_request_def Let_def del: js_Cons)

lemma sign_served:
  assumes "role \<in> set ROLES" and "length m = 32" and "read_line MAX_LINE_BYTES 0 sent = Whole"
  shows "snd (serve_signer X signers \<lparr>tx_chunks = sent, tx_json = Some (sign_request role m)\<rparr>) =
    Some (case sign_message X (signers role) m of
        Inl e \<Rightarrow> refusal ''SIGNER_OPERATION''
      | Inr sig \<Rightarrow> if length sig \<noteq> 64 then refusal ''SIGNER_SIGNATURE'' else signature_response role (signers role) sig)"
  using assms by (simp add: serve_signer_def sign_handled Let_def str_of_def split: sum.splits del: js_Cons)

text \<open>The socket carries each request whole, in any pieces, and its answer back.\<close>

definition carried :: "platform \<Rightarrow> signers \<Rightarrow> (jsval \<Rightarrow> conversation) \<Rightarrow> jsval \<Rightarrow> bool" where
  "carried X signers talk request \<longleftrightarrow>
     (\<exists>sent pieces ended. read_line MAX_LINE_BYTES 0 sent = Whole \<and> read_line MAX_LINE_BYTES 0 pieces = Whole
        \<and> talk request = Heard \<lparr>tx_chunks = pieces,
            tx_json = snd (serve_signer X signers \<lparr>tx_chunks = sent, tx_json = Some request\<rparr>)\<rparr> ended)"

definition valid_options :: "socket_options \<Rightarrow> bool" where
  "valid_options so \<longleftrightarrow> non_empty_string (so_path so) \<and> int_in 100 60000 (so_timeoutMs so)"

definition socket_signer ::
  "platform \<Rightarrow> socket_options \<Rightarrow> (jsval \<Rightarrow> conversation) \<Rightarrow> (jsval \<Rightarrow> byte list option) \<Rightarrow> jsstr \<Rightarrow> byte list \<Rightarrow> signer" where
  "socket_signer X so talk buffer role der = \<lparr>algorithm = js ''ed25519'', keyId = public_key_id X der, publicKeyDer = der,
     sign_operation = Some (remote_sign so talk buffer role (js ''ed25519'') (public_key_id X der)), privateKey = None\<rparr>"

definition ed25519_custody :: "platform \<Rightarrow> signer \<Rightarrow> bool" where
  "ed25519_custody X s \<longleftrightarrow> algorithm s = js ''ed25519'' \<and> length (publicKeyDer s) = 44
     \<and> keyId s = public_key_id X (publicKeyDer s) \<and> sign_operation s \<noteq> None"

lemma requestSigner_carried:
  assumes "valid_options so" and "carried X signers talk request"
  shows "\<exists>sent. read_line MAX_LINE_BYTES 0 sent = Whole \<and>
    (\<forall>r. requestSigner so talk request = Inr r \<longleftrightarrow>
      snd (serve_signer X signers \<lparr>tx_chunks = sent, tx_json = Some request\<rparr>) = Some r \<and> get_prop r ''ok'' = JBool True)"
proof -
  obtain sent pieces ended where sent: "read_line MAX_LINE_BYTES 0 sent = Whole"
    and pieces: "read_line MAX_LINE_BYTES 0 pieces = Whole"
    and talk: "talk request = Heard \<lparr>tx_chunks = pieces,
      tx_json = snd (serve_signer X signers \<lparr>tx_chunks = sent, tx_json = Some request\<rparr>)\<rparr> ended"
    using assms(2) by (auto simp: carried_def)
  have "requestSigner so talk request = Inr r \<longleftrightarrow>
      snd (serve_signer X signers \<lparr>tx_chunks = sent, tx_json = Some request\<rparr>) = Some r \<and> get_prop r ''ok'' = JBool True" for r
    using assms(1) pieces talk
    by (auto simp: requestSigner_def valid_options_def plain_check_def plain_failure_def res_simps split: option.splits)
  with sent show ?thesis by blast
qed

lemma identity_requested:
  assumes "valid_options so" and "role \<in> set ROLES" and "carried X signers talk (identity_request role)"
  shows "requestSigner so talk (identity_request role) = Inr (identity_response role (signers role))"
  using requestSigner_carried [OF assms(1,3)] identity_served [OF assms(2)] by auto

lemma socket_signer_loads:
  assumes "valid_options so" and "role \<in> set ROLES" and "carried X signers talk (identity_request role)"
    and "ed25519_custody X (signers role)"
  shows "loadSocketSigner X so talk buffer role = Inr (socket_signer X so talk buffer role (publicKeyDer (signers role)))"
  using assms(2,4) identity_requested [OF assms(1-3)]
  by (simp add: loadSocketSigner_def socket_signer_def ed25519_custody_def plain_check_def res_simps del: js_Cons)

lemma signature_requested:
  assumes "valid_options so" and "role \<in> set ROLES" and "length m = 32" and "carried X signers talk (sign_request role m)"
    and "ed25519_custody X (signers role)"
  shows "remote_sign so talk buffer role (js ''ed25519'') (public_key_id X (publicKeyDer (signers role))) m = Inr sig
    \<longleftrightarrow> sign_message X (signers role) m = Inr sig \<and> length sig = 64"
proof -
  let ?s = "signers role"
  obtain sent where sent: "read_line MAX_LINE_BYTES 0 sent = Whole"
    and heard: "\<And>r. requestSigner so talk (sign_request role m) = Inr r \<longleftrightarrow>
      snd (serve_signer X signers \<lparr>tx_chunks = sent, tx_json = Some (sign_request role m)\<rparr>) = Some r
      \<and> get_prop r ''ok'' = JBool True"
    using requestSigner_carried [OF assms(1,4)] by blast
  have asked: "requestSigner so talk (sign_request role m) = Inr r \<longleftrightarrow>
      (\<exists>sig. sign_message X ?s m = Inr sig \<and> length sig = 64 \<and> r = signature_response role ?s sig)" for r
    by (auto simp: heard sign_served [OF assms(2,3) sent] split: sum.splits if_splits)
  show ?thesis
    using assms(3,5)
    by (auto simp: remote_sign_def res_simps asked ed25519_custody_def simp del: js_Cons)
qed

text \<open>Computations that succeed alike.\<close>

definition succeed_alike :: "'a res \<Rightarrow> 'a res \<Rightarrow> bool" where
  "succeed_alike a b \<longleftrightarrow> (\<forall>v. a = Inr v \<longleftrightarrow> b = Inr v)"

lemma succeed_alike_refl: "succeed_alike a a"
  by (simp add: succeed_alike_def)

lemma succeed_alike_bind:
  "succeed_alike a b \<Longrightarrow> (\<And>v. a = Inr v \<Longrightarrow> succeed_alike (f v) (g v)) \<Longrightarrow> succeed_alike (bindR a f) (bindR b g)"
  by (auto simp: succeed_alike_def res_simps)

lemma succeed_alike_then: "succeed_alike a b \<Longrightarrow> succeed_alike c d \<Longrightarrow> succeed_alike (andThen a c) (andThen b d)"
  by (auto simp: succeed_alike_def res_simps)

lemma socket_signer_signs_alike:
  assumes "sha256_ok X" and "valid_options so" and "role \<in> set ROLES"
    and "\<And>m. length m = 32 \<Longrightarrow> carried X signers talk (sign_request role m)"
    and "ed25519_custody X (signers role)"
  shows "succeed_alike
    (sign_domain_with_signer X (socket_signer X so talk buffer role (publicKeyDer (signers role))) domain payload)
    (sign_domain_with_signer X (signers role) domain payload)"
proof -
  let ?s = "signers role" and ?r = "socket_signer X so talk buffer role (publicKeyDer (signers role))"
  let ?m = "domain_digest X domain [payload]"
  have "length ?m = 32" by (rule length_domain_digest [OF assms(1)])
  from signature_requested [OF assms(2,3) this assms(4) [OF this] assms(5)]
  have "sign_message X ?r ?m = Inr sig \<longleftrightarrow> sign_message X ?s ?m = Inr sig \<and> length sig = 64" for sig
    by (simp add: socket_signer_def sign_message_def)
  moreover have "validate_signer X ?r code = validate_signer X ?s code" for code
    using assms(5) by (simp add: validate_signer_def ed25519_custody_def socket_signer_def can_sign_def del: js_Cons)
  ultimately show ?thesis
    by (auto simp: succeed_alike_def sign_domain_with_signer_def Let_def res_simps socket_signer_def simp del: js_Cons)
qed

lemma written_alike:
  assumes "\<And>domain payload. succeed_alike (sign_domain_with_signer X r domain payload) (sign_domain_with_signer X s domain payload)"
    and "algorithm r = algorithm s" and "keyId r = keyId s" and "publicKeyDer r = publicKeyDer s" and "can_sign r = can_sign s"
  shows "succeed_alike (write_segment X (rq\<lparr>rq_signer := r\<rparr>)) (write_segment X (rq\<lparr>rq_signer := s\<rparr>))"
proof -
  have "validate_request X (rq\<lparr>rq_signer := r\<rparr>) = validate_request X (rq\<lparr>rq_signer := s\<rparr>)"
    using assms(2-5) by (simp add: validate_request_def cong: option.case_cong)
  moreover have "segment_manifest X p r h n b t = segment_manifest X p s h n b t" for p h n b t
    using assms(2-5) by (simp add: segment_manifest_def signer_value_def del: js_Cons)
  moreover have "signature_value r sig = signature_value s sig" for sig
    using assms(2-5) by (simp add: signature_value_def)
  moreover have "segment_header (rq\<lparr>rq_signer := r\<rparr>) = segment_header (rq\<lparr>rq_signer := s\<rparr>)"
    by (intro ext) (simp add: segment_header_def)
  ultimately have "succeed_alike (build_segment X (rq\<lparr>rq_signer := r\<rparr>)) (build_segment X (rq\<lparr>rq_signer := s\<rparr>))"
    unfolding build_segment_def request_profile_def Let_def
    by (auto simp: Let_def intro!: succeed_alike_then succeed_alike_bind succeed_alike_refl assms(1))
  then show ?thesis
    unfolding write_segment_def using assms(3) by (intro succeed_alike_bind) (auto intro: succeed_alike_refl)
qed

section \<open>The service signs commitments only\<close>

lemma handle_signs:
  assumes "handle_signer_request signers request = (audit, Sign_With s m)"
  shows "audit = [] \<and> (\<exists>role \<in> set ROLES. s = signers role \<and> length m = 32
    \<and> get_prop request ''role'' = JStr role \<and> get_prop request ''message'' = JStr (base64 m)
    \<and> get_prop request ''operation'' = JStr (js ''sign'') \<and> get_prop request ''kind'' = JStr (js ''g9p-signer-request'')
    \<and> exact_fields request [''kind'', ''version'', ''operation'', ''role'', ''message''])"
  using assms canonicalBase64_Some
  by (auto simp: handle_signer_request_def Let_def simp del: js_Cons split: jsval.splits if_splits option.splits)

lemma handle_responds:
  assumes "handle_signer_request signers request = (audit, Respond v)"
  shows "\<exists>role \<in> set ROLES. v = identity_response role (signers role)
    \<and> audit = [\<lparr>au_operation = ''identity'', au_role = role, au_keyId = keyId (signers role), au_status = ''allowed''\<rparr>]"
  using assms
  by (auto simp: handle_signer_request_def Let_def simp del: js_Cons split: jsval.splits if_splits option.splits)

section \<open>A custody of three signers\<close>

definition custody_sample :: signers where
  "custody_sample role = \<lparr>algorithm = js ''ed25519'', keyId = public_key_id toy_platform (replicate 44 1),
     publicKeyDer = replicate 44 1, sign_operation = Some (\<lambda>m. Inr (m @ replicate 32 7)), privateKey = None\<rparr>"

definition whole_line :: "(nat \<times> bool) list" where
  "whole_line = [(100, False), (90, True)]"

definition local_talk :: "platform \<Rightarrow> signers \<Rightarrow> jsval \<Rightarrow> conversation" where
  "local_talk X signers request = Heard \<lparr>tx_chunks = whole_line,
     tx_json = snd (serve_signer X signers \<lparr>tx_chunks = whole_line, tx_json = Some request\<rparr>)\<rparr> True"

lemma whole_line_read [simp]: "read_line MAX_LINE_BYTES 0 whole_line = Whole"
  by (simp add: whole_line_def MAX_LINE_BYTES_def)

lemma local_talk_carries: "carried X signers (local_talk X signers) request"
  unfolding carried_def local_talk_def using whole_line_read by blast

definition sample_options :: socket_options where
  "sample_options = \<lparr>so_path = JStr (js ''/run/g9p/signer.sock''), so_timeoutMs = JInt 5000\<rparr>"

lemma sample_options_valid: "valid_options sample_options"
  by (simp add: valid_options_def sample_options_def non_empty_string_def int_in_def)

lemma custody_sample_ed25519: "ed25519_custody toy_platform (custody_sample role)"
  by (simp add: ed25519_custody_def custody_sample_def del: js_Cons)

lemma custody_sample_writes: "\<exists>v. write_segment toy_platform (sample_request\<lparr>rq_signer := custody_sample role\<rparr>) = Inr v"
proof -
  obtain p bytes where "build_segment toy_platform sample_request = Inr p" "segment_file p = Inr bytes"
    by (rule sample_segment)
  then obtain v where w: "write_segment toy_platform sample_request = Inr v" by (auto simp: write_segment_def)
  have fields: "algorithm sample_signer = algorithm (custody_sample role)" "keyId sample_signer = keyId (custody_sample role)"
    "publicKeyDer sample_signer = publicKeyDer (custody_sample role)" "can_sign sample_signer = can_sign (custody_sample role)"
    by (simp_all add: sample_signer_def custody_sample_def can_sign_def del: js_Cons)
  have "sign_message toy_platform sample_signer m = sign_message toy_platform (custody_sample role) m" for m
    by (simp add: sign_message_def sample_signer_def custody_sample_def toy_platform_def)
  then have "sign_domain_with_signer toy_platform sample_signer domain payload
      = sign_domain_with_signer toy_platform (custody_sample role) domain payload" for domain payload
    using fields by (simp add: sign_domain_with_signer_def validate_signer_def)
  then have "succeed_alike (write_segment toy_platform (sample_request\<lparr>rq_signer := sample_signer\<rparr>))
      (write_segment toy_platform (sample_request\<lparr>rq_signer := custody_sample role\<rparr>))"
    by (intro written_alike fields) (simp add: succeed_alike_refl)
  moreover have "sample_request\<lparr>rq_signer := sample_signer\<rparr> = sample_request" by (simp add: sample_request_def)
  ultimately show ?thesis using w unfolding succeed_alike_def by metis
qed

section \<open>The properties\<close>

text \<open>
  C14: Separated custody seals alike. A ledger that loads its signer through the socket of the signer service,
  over a connection that carries each request and answer whole, gets the identity of the custody signer of that
  role and no key; the segments it writes are exactly, byte for byte, those it would write holding the signer itself.
\<close>

theorem separated_custody_seals_alike:
  assumes "sha256_ok X" and "valid_options so" and "role \<in> set ROLES" and "ed25519_custody X (signers role)"
    and "carried X signers talk (identity_request role)"
    and "\<forall>m. length m = 32 \<longrightarrow> carried X signers talk (sign_request role m)"
  shows "\<exists>remote. loadSocketSigner X so talk buffer role = Inr remote
    \<and> publicKeyDer remote = publicKeyDer (signers role) \<and> keyId remote = keyId (signers role) \<and> privateKey remote = None
    \<and> (\<forall>rq v. write_segment X (rq\<lparr>rq_signer := remote\<rparr>) = Inr v
        \<longleftrightarrow> write_segment X (rq\<lparr>rq_signer := signers role\<rparr>) = Inr v)"
proof -
  let ?remote = "socket_signer X so talk buffer role (publicKeyDer (signers role))"
  have "succeed_alike (write_segment X (rq\<lparr>rq_signer := ?remote\<rparr>)) (write_segment X (rq\<lparr>rq_signer := signers role\<rparr>))" for rq
  proof (rule written_alike)
    show "succeed_alike (sign_domain_with_signer X ?remote domain payload) (sign_domain_with_signer X (signers role) domain payload)"
      for domain payload
      by (rule socket_signer_signs_alike [OF assms(1-3)]) (use assms(4,6) in simp_all)
  qed (use assms(4) in \<open>simp_all add: socket_signer_def ed25519_custody_def can_sign_def\<close>)
  with socket_signer_loads [OF assms(2,3,5,4)] assms(4) show ?thesis
    by (intro exI [of _ ?remote]) (simp add: succeed_alike_def socket_signer_def ed25519_custody_def)
qed

lemma separated_custody_seals_alike_witness:
  "\<exists>remote. loadSocketSigner toy_platform sample_options (local_talk toy_platform custody_sample) (\<lambda>_. None) (js ''segment'') = Inr remote
    \<and> (\<exists>v. write_segment toy_platform (sample_request\<lparr>rq_signer := remote\<rparr>) = Inr v)"
  using separated_custody_seals_alike [OF toy_sha256_ok sample_options_valid, where role = "js ''segment''" and signers = custody_sample
      and talk = "local_talk toy_platform custody_sample" and buffer = "\<lambda>_. None"]
    custody_sample_writes [of "js ''segment''"] custody_sample_ed25519 local_talk_carries
  by (fastforce simp: ROLES_def simp del: js_Cons)

text \<open>
  C22: The signer service signs commitments only. An answer of the service that carries a signature answers a whole,
  well-formed signing request for one of the three roles; the signature is that of the role's own signer on the 32
  bytes of the request, and the audit log gains exactly the entry that says so.
\<close>

theorem signer_service_signs_commitments_only:
  assumes "serve_signer X signers incoming = (audit, Some reply)" and "get_prop reply ''signature'' \<noteq> JUndef"
  shows "\<exists>role request m sig. tx_json incoming = Some request \<and> read_line MAX_LINE_BYTES 0 (tx_chunks incoming) = Whole
    \<and> role \<in> set ROLES \<and> get_prop request ''role'' = JStr role \<and> get_prop request ''operation'' = JStr (js ''sign'')
    \<and> exact_fields request [''kind'', ''version'', ''operation'', ''role'', ''message'']
    \<and> get_prop request ''message'' = JStr (base64 m) \<and> length m = 32
    \<and> sign_message X (signers role) m = Inr sig \<and> length sig = 64 \<and> reply = signature_response role (signers role) sig
    \<and> audit = [\<lparr>au_operation = ''sign'', au_role = role, au_keyId = keyId (signers role), au_status = ''allowed''\<rparr>]"
  using assms handle_signs handle_responds
  by (fastforce simp: serve_signer_def Let_def str_of_def simp del: js_Cons split: line.splits option.splits signer_result.splits
      sum.splits if_splits prod.splits)

lemma signer_service_signs_commitments_only_witness:
  "serve_signer toy_platform custody_sample \<lparr>tx_chunks = whole_line,
      tx_json = Some (sign_request (js ''topology'') (replicate 32 9))\<rparr>
    = ([\<lparr>au_operation = ''sign'', au_role = js ''topology'', au_keyId = keyId (custody_sample (js ''topology'')),
         au_status = ''allowed''\<rparr>],
       Some (signature_response (js ''topology'') (custody_sample (js ''topology'')) (replicate 32 9 @ replicate 32 7)))"
    (is "serve_signer _ _ ?incoming = (_, Some ?reply)")
proof -
  let ?role = "js ''topology''" and ?m = "replicate 32 (9 :: byte)"
  have role: "?role \<in> set ROLES" by (simp add: ROLES_def del: js_Cons)
  have signed: "sign_message toy_platform (custody_sample ?role) ?m = Inr (?m @ replicate 32 7)"
    by (simp add: sign_message_def custody_sample_def)
  obtain audit where served: "serve_signer toy_platform custody_sample ?incoming = (audit, Some ?reply)"
    using sign_served [OF role _ whole_line_read, of ?m toy_platform custody_sample] signed
    by (cases "serve_signer toy_platform custody_sample ?incoming") (simp del: js_Cons)
  show ?thesis
    using signer_service_signs_commitments_only [OF served] served by (auto simp del: js_Cons)
qed

end
