(* ===== verification/G9P_Writer_Lock.thy ===== *)
theory G9P_Writer_Lock
  imports G9P_Codec_Props G9P_Machine
begin

text \<open>
  The lock file of the data directory (services/ledger/src/writer-lock.js): the operations of one process on the
  file, and the interleaving of processes that use it, with crashes, power loss and an operator who removes a
  stale lock as the message of the code says: when no ledger process is running.
\<close>

section \<open>The operations\<close>

text \<open>The content of the file is what \<open>JSON.parse\<close> makes of it, \<open>None\<close> for a text that it refuses.\<close>

type_synonym lock_file = "jsval option"

record lock_owner =
  lo_pid :: nat
  lo_host :: jsstr
  lo_startedAt :: jsstr
  lo_token :: jsstr

definition lock_text :: "lock_owner \<Rightarrow> jsval" where
  "lock_text owner = obj [(''kind'', JStr (js ''g9p-ledger-writer-lock'')), (''version'', JInt 1),
     (''pid'', JInt (int (lo_pid owner))), (''host'', JStr (lo_host owner)), (''startedAt'', JStr (lo_startedAt owner)),
     (''token'', JStr (lo_token owner))]"

text \<open>\<open>open(path, "wx")\<close> fails with \<open>EEXIST\<close> on a file that is there. Otherwise it creates an empty file, or
  fails with another error, as \<open>mkdir\<close> before it may; that error is passed on.\<close>

definition open_lock :: "js_error option \<Rightarrow> lock_file option \<Rightarrow> lock_file option \<times> unit res" where
  "open_lock failure file =
     (case file of
        Some l \<Rightarrow> (file, failWith ''LEDGER_WRITER_LOCKED'')
      | None \<Rightarrow> (case failure of Some e \<Rightarrow> (None, Inl e) | None \<Rightarrow> (Some None, Inr ())))"

text \<open>How the attempt goes on a free path: no file is made; the lock is written; it is not written, and the file
  is removed, or left as it is when it cannot be removed either.\<close>

datatype lock_outcome = Unopened js_error | Established | Abandoned | Left_Behind lock_file

definition open_failure :: "lock_outcome \<Rightarrow> js_error option" where
  "open_failure outcome = (case outcome of Unopened e \<Rightarrow> Some e | _ \<Rightarrow> None)"

definition establish_lock :: "lock_owner \<Rightarrow> lock_outcome \<Rightarrow> lock_file option \<times> unit res" where
  "establish_lock owner outcome =
     (case outcome of
        Unopened e \<Rightarrow> (None, Inl e)
      | Established \<Rightarrow> (Some (Some (lock_text owner)), Inr ())
      | Abandoned \<Rightarrow> (None, failWith ''LEDGER_WRITER_LOCK'')
      | Left_Behind l \<Rightarrow> (Some l, failWith ''LEDGER_WRITER_LOCK''))"

definition acquireWriterLock :: "lock_owner \<Rightarrow> lock_outcome \<Rightarrow> lock_file option \<Rightarrow> lock_file option \<times> unit res" where
  "acquireWriterLock owner outcome file =
     (case open_lock (open_failure outcome) file of
        (file', Inl e) \<Rightarrow> (file', Inl e)
      | (file', Inr u) \<Rightarrow> establish_lock owner outcome)"

definition check_owner :: "lock_owner \<Rightarrow> lock_file option \<Rightarrow> unit res" where
  "check_owner owner file =
     (case file of
        Some (Some current) \<Rightarrow> invariant (get_prop current ''token'' = JStr (lo_token owner)) ''LEDGER_WRITER_LOCK''
      | _ \<Rightarrow> failWith ''LEDGER_WRITER_LOCK'')"

text \<open>The first argument is the flag \<open>released\<close>; the second says whether \<open>unlink\<close> works.\<close>

definition release_lock :: "lock_owner \<Rightarrow> bool \<Rightarrow> bool \<Rightarrow> lock_file option \<Rightarrow> lock_file option \<times> unit res" where
  "release_lock owner released unlinks file =
     (if released then (file, Inr ())
      else case check_owner owner file of
          Inl e \<Rightarrow> (file, Inl e)
        | Inr u \<Rightarrow> if unlinks then (None, Inr ()) else (file, Inl (PlainError ''EIO'')))"

lemma check_owner_Inr [res_simps]:
  "check_owner owner file = Inr u \<longleftrightarrow> (\<exists>current. file = Some (Some current) \<and> get_prop current ''token'' = JStr (lo_token owner))"
  by (auto simp: check_owner_def res_simps split: option.splits)

lemma check_own_lock [simp]: "check_owner owner (Some (Some (lock_text owner))) = Inr ()"
  by (simp add: res_simps lock_text_def del: js_Cons)

lemma acquired_lock:
  "acquireWriterLock owner outcome file = (file', Inr u) \<Longrightarrow> file = None \<and> file' = Some (Some (lock_text owner))"
  by (auto simp: acquireWriterLock_def open_lock_def establish_lock_def open_failure_def failWith_def split: option.splits lock_outcome.splits)

lemma release_acquired_lock:
  "acquireWriterLock owner outcome file = (file', Inr u) \<Longrightarrow> release_lock owner False True file' = (None, Inr ())"
  by (auto dest!: acquired_lock simp: release_lock_def)

lemma foreign_lock_stays:
  "lo_token owner \<noteq> lo_token other \<Longrightarrow>
   release_lock owner False unlinks (Some (Some (lock_text other))) = (Some (Some (lock_text other)), failWith ''LEDGER_WRITER_LOCK'')"
  by (simp add: release_lock_def check_owner_def lock_text_def invariant_def failWith_def del: js_Cons)

section \<open>Processes\<close>

datatype phase = Outside | Opening | Holding | Releasing

record lock_world =
  lw_file :: "lock_file option"
  lw_phase :: "nat \<Rightarrow> phase"

definition enters :: "nat \<Rightarrow> phase \<Rightarrow> lock_file option \<Rightarrow> lock_world \<Rightarrow> lock_world" where
  "enters p ph file w = w\<lparr>lw_file := file, lw_phase := (lw_phase w)(p := ph)\<rparr>"

definition nobody :: "lock_world \<Rightarrow> bool" where
  "nobody w \<longleftrightarrow> (\<forall>q. lw_phase w q = Outside)"

inductive lock_step :: "(nat \<Rightarrow> lock_owner) \<Rightarrow> lock_world \<Rightarrow> lock_world \<Rightarrow> bool" for owners where
  opens: "lw_phase w p = Outside \<Longrightarrow> open_lock None (lw_file w) = (file, Inr ()) \<Longrightarrow> lock_step owners w (enters p Opening file w)"
| establishes: "lw_phase w p = Opening \<Longrightarrow> establish_lock (owners p) outcome = (file, Inr ()) \<Longrightarrow>
    lock_step owners w (enters p Holding file w)"
| gives_up: "lw_phase w p = Opening \<Longrightarrow> establish_lock (owners p) outcome = (file, Inl e) \<Longrightarrow>
    lock_step owners w (enters p Outside file w)"
| checks_owner: "lw_phase w p = Holding \<Longrightarrow> check_owner (owners p) (lw_file w) = Inr () \<Longrightarrow>
    lock_step owners w (enters p Releasing (lw_file w) w)"
| changed: "lw_phase w p = Holding \<Longrightarrow> check_owner (owners p) (lw_file w) = Inl e \<Longrightarrow>
    lock_step owners w (enters p Outside (lw_file w) w)"
| unlinks: "lw_phase w p = Releasing \<Longrightarrow> file \<in> {None, lw_file w} \<Longrightarrow> lock_step owners w (enters p Outside file w)"
| dies_opening: "lw_phase w p = Opening \<Longrightarrow> lock_step owners w (enters p Outside (Some l) w)"
| dies: "lw_phase w p \<in> {Holding, Releasing} \<Longrightarrow> lock_step owners w (enters p Outside (lw_file w) w)"
| loses_power: "lock_step owners w \<lparr>lw_file = file, lw_phase = (\<lambda>_. Outside)\<rparr>"
| operator_removes: "nobody w \<Longrightarrow> lock_step owners w (w\<lparr>lw_file := None\<rparr>)"

definition lock_reachable :: "(nat \<Rightarrow> lock_owner) \<Rightarrow> lock_world \<Rightarrow> bool" where
  "lock_reachable owners = (lock_step owners)\<^sup>*\<^sup>* \<lparr>lw_file = None, lw_phase = (\<lambda>_. Outside)\<rparr>"

definition one_writer :: "(nat \<Rightarrow> lock_owner) \<Rightarrow> lock_world \<Rightarrow> bool" where
  "one_writer owners w \<longleftrightarrow> (\<forall>p. lw_phase w p \<noteq> Outside \<longrightarrow>
     lw_file w \<noteq> None \<and> (\<forall>q. q \<noteq> p \<longrightarrow> lw_phase w q = Outside)
     \<and> (lw_phase w p \<in> {Holding, Releasing} \<longrightarrow> lw_file w = Some (Some (lock_text (owners p)))))"

lemma one_writer_step: "lock_step owners w w' \<Longrightarrow> one_writer owners w \<Longrightarrow> one_writer owners w'"
proof (induction rule: lock_step.induct)
  case opens
  then show ?case by (auto simp: one_writer_def enters_def open_lock_def res_simps split: option.splits)
next
  case establishes
  then show ?case by (auto simp: one_writer_def enters_def establish_lock_def res_simps split: lock_outcome.splits)
next
  case operator_removes
  then show ?case by (auto simp: one_writer_def nobody_def)
next
  case checks_owner
  then show ?case by (auto simp: one_writer_def enters_def res_simps)
qed (auto simp: one_writer_def enters_def)

interpretation writers: machine "lock_step owners" "one_writer owners" "\<lambda>_ _. True" for owners
  by unfold_locales (simp_all add: one_writer_step)

lemma one_writer_reachable: "lock_reachable owners w \<Longrightarrow> one_writer owners w"
  unfolding lock_reachable_def by (erule writers.run_inv) (simp add: one_writer_def)

text \<open>
  C15: One writer at a time. Whatever processes open, lose and release the lock file in any order, with processes
  that die, machines that lose power and an operator who removes a stale lock while no process runs, at most one
  process holds the lock; the file is then its own, so that its release finds it unchanged and takes it away.
\<close>

theorem one_writer_at_a_time:
  assumes "lock_reachable owners w" and "lw_phase w p = Holding"
  shows "(\<forall>q. lw_phase w q \<noteq> Outside \<longleftrightarrow> q = p)
    \<and> (\<forall>owner outcome. acquireWriterLock owner outcome (lw_file w) = (lw_file w, failWith ''LEDGER_WRITER_LOCKED''))
    \<and> release_lock (owners p) False True (lw_file w) = (None, Inr ())"
proof -
  have "one_writer owners w" by (rule one_writer_reachable [OF assms(1)])
  with assms(2) have own: "lw_file w = Some (Some (lock_text (owners p)))" and alone: "\<forall>q. q \<noteq> p \<longrightarrow> lw_phase w q = Outside"
    by (auto simp: one_writer_def)
  from alone assms(2) have "\<forall>q. lw_phase w q \<noteq> Outside \<longleftrightarrow> q = p" by (metis phase.distinct(3))
  then show ?thesis by (simp add: own acquireWriterLock_def open_lock_def failWith_def release_lock_def)
qed

definition sample_owner :: "nat \<Rightarrow> lock_owner" where
  "sample_owner p = \<lparr>lo_pid = 100 + p, lo_host = js ''host'', lo_startedAt = js ''2026-01-02T03:04:05.006Z'',
     lo_token = decimal p\<rparr>"

definition held_world :: lock_world where
  "held_world = enters 1 Holding (Some (Some (lock_text (sample_owner 1))))
     (enters 1 Opening (Some None) \<lparr>lw_file = None, lw_phase = (\<lambda>_. Outside)\<rparr>)"

lemma held_world_reachable: "lock_reachable sample_owner held_world"
proof -
  let ?free = "\<lparr>lw_file = None, lw_phase = (\<lambda>_. Outside)\<rparr>"
  have "lock_step sample_owner ?free (enters 1 Opening (Some None) ?free)"
    by (rule opens) (simp_all add: open_lock_def)
  moreover have "lock_step sample_owner (enters 1 Opening (Some None) ?free) held_world"
    unfolding held_world_def by (rule establishes [where outcome = Established]) (simp_all add: enters_def establish_lock_def)
  ultimately show ?thesis unfolding lock_reachable_def by (meson rtranclp.rtrancl_into_rtrancl rtranclp.rtrancl_refl)
qed

lemma one_writer_at_a_time_witness:
  "lw_phase held_world 2 = Outside
    \<and> acquireWriterLock (sample_owner 2) Established (lw_file held_world) = (lw_file held_world, failWith ''LEDGER_WRITER_LOCKED'')"
proof -
  have "lw_phase held_world 1 = Holding" by (simp add: held_world_def enters_def)
  note held = one_writer_at_a_time [OF held_world_reachable this]
  then have "lw_phase held_world 2 = Outside" by (metis numeral_eq_one_iff semiring_norm(85))
  with held show ?thesis by simp
qed

end
