(* ===== verification/G9P_Startup.thy ===== *)
theory G9P_Startup
  imports G9P_Server G9P_Signer_Service G9P_Writer_Lock G9P_Ledger_Startup G9P_Sealed_Objects
begin

text \<open>
  The start of the ledger service (services/ledger/src/main.js): the settings from the environment
  (config.js), the keys of the installation (key-store.js, socket-signer.js), the installation manifest
  (installation-manifest.js), and the composition of these with the writer lock and the ledger.
\<close>

section \<open>The host\<close>

text \<open>\<open>ho_number\<close> is \<open>Number\<close>, \<open>None\<close> where its value is not a safe integer; \<open>ho_date\<close> says which texts
  \<open>Date\<close> reads; \<open>ho_json\<close> is the reading of a JSON file; \<open>ho_import\<close> stands for \<open>createPrivateKey\<close> with an optional
  passphrase, with the public key of the result; \<open>ho_generate\<close> for \<open>generateKeyPairSync\<close>; \<open>ho_talk\<close> for the
  socket at a path.\<close>

type_synonym environment = "string \<Rightarrow> jsstr option"
type_synonym key_files = "jsstr \<Rightarrow> key_file option"

record host =
  ho_number :: "jsstr \<Rightarrow> int option"
  ho_resolve :: "jsstr \<Rightarrow> jsstr"
  ho_date :: "jsstr \<Rightarrow> bool"
  ho_collate :: "jsstr \<Rightarrow> jsstr \<Rightarrow> int"
  ho_json :: "jsstr \<Rightarrow> jsval res"
  ho_unix :: bool
  ho_import :: "byte list \<Rightarrow> byte list option \<Rightarrow> (byte list \<times> byte list) option"
  ho_generate :: "string \<Rightarrow> byte list \<times> byte list"
  ho_talk :: "jsstr \<Rightarrow> jsval \<Rightarrow> conversation"
  ho_buffer :: "jsval \<Rightarrow> byte list option"

fun the_default :: "'a \<Rightarrow> 'a option \<Rightarrow> 'a" where
  "the_default d None = d"
| "the_default d (Some x) = x"

section \<open>Settings\<close>

definition integer_setting :: "host \<Rightarrow> environment \<Rightarrow> string \<Rightarrow> int \<Rightarrow> int \<Rightarrow> int \<Rightarrow> nat res" where
  "integer_setting h env name fallback least greatest =
     (case (case env name of None \<Rightarrow> Some fallback | Some v \<Rightarrow> ho_number h v) of
        None \<Rightarrow> plain_failure []
      | Some n \<Rightarrow> andThen (plain_check (least \<le> n \<and> n \<le> greatest) []) (Inr (nat n)))"

definition boolean_setting :: "environment \<Rightarrow> string \<Rightarrow> bool res" where
  "boolean_setting env name =
     (case env name of
        None \<Rightarrow> Inr False
      | Some v \<Rightarrow> if v = js ''true'' then Inr True else if v = js ''false'' then Inr False else plain_failure [])"

text \<open>\<open>trim\<close> takes away white space and line terminators.\<close>

definition is_white :: "16 word \<Rightarrow> bool" where
  "is_white u \<longleftrightarrow> u \<in> {9, 10, 11, 12, 13, 32, 160, 0x1680, 0x2028, 0x2029, 0x202F, 0x205F, 0x3000, 0xFEFF}
     \<or> 0x2000 \<le> unat u \<and> unat u \<le> 0x200A"

definition trim :: "jsstr \<Rightarrow> jsstr" where
  "trim s = rev (dropWhile is_white (rev (dropWhile is_white s)))"

fun split_commas :: "jsstr \<Rightarrow> jsstr list" where
  "split_commas [] = [[]]"
| "split_commas (u # us) =
     (if u = 44 then [] # split_commas us
      else case split_commas us of p # ps \<Rightarrow> (u # p) # ps | [] \<Rightarrow> [[u]])"

definition token_set :: "environment \<Rightarrow> string \<Rightarrow> string \<Rightarrow> jsstr list res" where
  "token_set env name single =
     (case (case env name of None \<Rightarrow> env single | Some v \<Rightarrow> Some v) of
        None \<Rightarrow> plain_failure []
      | Some source \<Rightarrow>
          let credentials = map trim (split_commas source) in
          andThen (plain_check (1 \<le> length credentials \<and> length credentials \<le> 4
            \<and> list_all (\<lambda>t. 16 \<le> length t) credentials \<and> distinct credentials) [])
          (Inr credentials))"

definition optional_path :: "host \<Rightarrow> environment \<Rightarrow> string \<Rightarrow> jsstr option" where
  "optional_path h env name = map_option (ho_resolve h) (env name)"

definition custody_mode :: "environment \<Rightarrow> jsstr res" where
  "custody_mode env =
     (let mode = (case env ''PROVENANCE_CUSTODY_MODE'' of None \<Rightarrow> js ''development'' | Some m \<Rightarrow> m) in
      andThen (plain_check (mode \<in> {js ''development'', js ''integrated'', js ''separated''}) []) (Inr mode))"

record tls_settings =
  tl_cert :: jsstr
  tl_key :: jsstr
  tl_ca :: "jsstr option"
  tl_requireClient :: bool

record ledger_settings =
  ls_apiTokens :: "jsstr list"
  ls_adminTokens :: "jsstr list"
  ls_tls :: "tls_settings option"
  ls_host :: jsstr
  ls_port :: nat
  ls_dataDirectory :: jsstr
  ls_custodyMode :: jsstr
  ls_manifestPath :: "jsstr option"
  ls_passphrasePath :: "jsstr option"
  ls_segmentKeyPath :: "jsstr option"
  ls_topologyKeyPath :: "jsstr option"
  ls_checkpointKeyPath :: "jsstr option"
  ls_socketPath :: "jsstr option"
  ls_signerTimeoutMs :: nat
  ls_bundlePath :: "jsstr option"
  ls_shardCount :: nat
  ls_adoptLegacy :: bool
  ls_maxBatchEvents :: nat
  ls_maxRequestBytes :: nat
  ls_lifecycle :: lifecycle

definition lifecycle_settings :: "host \<Rightarrow> environment \<Rightarrow> lifecycle res" where
  "lifecycle_settings h env =
     bindR (integer_setting h env ''PROVENANCE_BLOCK_MAX_BYTES'' 1048576 1024 67108864) (\<lambda>blockBytes.
     bindR (integer_setting h env ''PROVENANCE_BLOCK_MAX_RECORDS'' 1000 1 100000) (\<lambda>blockRecords.
     bindR (integer_setting h env ''PROVENANCE_SEGMENT_MAX_BYTES'' 33554432 1024 67108864) (\<lambda>segmentBytes.
     bindR (integer_setting h env ''PROVENANCE_SEGMENT_MAX_RECORDS'' 10000 1 100000) (\<lambda>segmentRecords.
     bindR (integer_setting h env ''PROVENANCE_SEGMENT_MAX_AGE_MS'' 30000 100 604800000) (\<lambda>age.
     bindR (integer_setting h env ''PROVENANCE_MAX_ACCEPTED_EVENTS'' 100000 1 10000000) (\<lambda>events.
     bindR (integer_setting h env ''PROVENANCE_MAX_ACCEPTED_BYTES'' 1073741824 1024 (int max_safe_integer)) (\<lambda>bytes.
     bindR (integer_setting h env ''PROVENANCE_MAX_ACTIVE_BLOCK_BYTES'' 16777216 1024 1073741824) (\<lambda>active.
     Inr \<lparr>blockMaxBytes = blockBytes, blockMaxRecords = blockRecords, segmentMaxBytes = segmentBytes,
       segmentMaxRecords = segmentRecords, segmentMaxAgeMs = age, maxAcceptedEvents = events,
       maxAcceptedBytes = bytes, maxActiveBlockBytes = active\<rparr>))))))))"

definition loadLedgerConfig :: "host \<Rightarrow> environment \<Rightarrow> ledger_settings res" where
  "loadLedgerConfig h env =
     (let path = optional_path h env;
          cert = path ''PROVENANCE_TLS_CERT_PATH''; key = path ''PROVENANCE_TLS_KEY_PATH''; ca = path ''PROVENANCE_TLS_CLIENT_CA_PATH'';
          manifest = path ''PROVENANCE_INSTALLATION_MANIFEST_PATH''; passphrase = path ''PROVENANCE_KEY_PASSPHRASE_FILE'';
          segmentKey = path ''PROVENANCE_SEGMENT_SIGNING_KEY_PATH''; topologyKey = path ''PROVENANCE_TOPOLOGY_SIGNING_KEY_PATH'';
          checkpointKey = path ''PROVENANCE_CHECKPOINT_SIGNING_KEY_PATH''; socket = path ''PROVENANCE_SIGNER_SOCKET_PATH'';
          custody = [passphrase, segmentKey, topologyKey, checkpointKey] in
      bindR (token_set env ''PROVENANCE_API_TOKENS'' ''PROVENANCE_API_TOKEN'') (\<lambda>api.
      bindR (if env ''PROVENANCE_ADMIN_TOKENS'' = None \<and> env ''PROVENANCE_ADMIN_TOKEN'' = None then Inr []
             else token_set env ''PROVENANCE_ADMIN_TOKENS'' ''PROVENANCE_ADMIN_TOKEN'') (\<lambda>admin.
      andThen (plain_check (list_all (\<lambda>t. t \<notin> set admin) api) [])
      (andThen (plain_check ((cert = None) = (key = None)) [])
      (bindR (boolean_setting env ''PROVENANCE_TLS_REQUIRE_CLIENT_CERTIFICATE'') (\<lambda>requireClient.
       andThen (plain_check (\<not> (requireClient \<and> ca = None)) [])
       (bindR (custody_mode env) (\<lambda>mode.
        andThen (checks
          [plain_check (\<not> (mode \<noteq> js ''development'' \<and> manifest = None)) [],
           plain_check (\<not> (mode = js ''integrated'' \<and> None \<in> set custody)) [],
           plain_check (\<not> (mode = js ''separated'' \<and> socket = None)) [],
           plain_check (\<not> (mode = js ''separated'' \<and> list_ex (\<lambda>p. p \<noteq> None) custody)) []])
        (bindR (integer_setting h env ''PROVENANCE_PORT'' 8787 1 65535) (\<lambda>port.
         bindR (integer_setting h env ''PROVENANCE_SIGNER_TIMEOUT_MS'' 5000 100 60000) (\<lambda>timeout.
         bindR (integer_setting h env ''PROVENANCE_SHARD_COUNT'' 1 1 65536) (\<lambda>shards.
         bindR (boolean_setting env ''PROVENANCE_ADOPT_LEGACY_ROUTING_HISTORY'') (\<lambda>adopt.
         bindR (integer_setting h env ''PROVENANCE_MAX_BATCH_EVENTS'' 500 1 10000) (\<lambda>batch.
         bindR (integer_setting h env ''PROVENANCE_MAX_REQUEST_BYTES'' 8388608 1024 67108864) (\<lambda>largest.
         bindR (lifecycle_settings h env) (\<lambda>limits.
         Inr \<lparr>ls_apiTokens = api, ls_adminTokens = admin,
           ls_tls = (case (cert, key) of
               (Some c, Some k) \<Rightarrow> Some \<lparr>tl_cert = c, tl_key = k, tl_ca = ca, tl_requireClient = requireClient\<rparr>
             | _ \<Rightarrow> None),
           ls_host = (case env ''PROVENANCE_HOST'' of None \<Rightarrow> js ''127.0.0.1'' | Some name \<Rightarrow> name), ls_port = port,
           ls_dataDirectory = ho_resolve h (case env ''PROVENANCE_DATA_DIR'' of None \<Rightarrow> js ''runtime/ledger-service'' | Some d \<Rightarrow> d),
           ls_custodyMode = mode, ls_manifestPath = manifest, ls_passphrasePath = passphrase,
           ls_segmentKeyPath = segmentKey, ls_topologyKeyPath = topologyKey, ls_checkpointKeyPath = checkpointKey,
           ls_socketPath = socket, ls_signerTimeoutMs = timeout,
           ls_bundlePath = path ''PROVENANCE_SEGMENT_TRUST_BUNDLE_PATH'', ls_shardCount = shards, ls_adoptLegacy = adopt,
           ls_maxBatchEvents = batch, ls_maxRequestBytes = largest, ls_lifecycle = limits\<rparr>))))))))))))))))"

section \<open>Keys\<close>

definition loadSignerFile :: "platform \<Rightarrow> host \<Rightarrow> key_files \<Rightarrow> jsstr \<Rightarrow> byte list option \<Rightarrow> signer res" where
  "loadSignerFile X h files path passphrase =
     (case files path of
        None \<Rightarrow> plain_failure ''ENOENT''
      | Some f \<Rightarrow>
          (case ho_import h (kf_bytes f) passphrase of
             None \<Rightarrow> plain_failure ''KEY_LOAD''
           | Some (key, der) \<Rightarrow> Inr \<lparr>algorithm = js ''ed25519'', keyId = public_key_id X der, publicKeyDer = der,
               sign_operation = None, privateKey = Some key\<rparr>))"

definition loadProtectedSigner :: "platform \<Rightarrow> host \<Rightarrow> key_files \<Rightarrow> jsstr \<Rightarrow> jsstr \<Rightarrow> signer res" where
  "loadProtectedSigner X h files path passphrasePath =
     (case files passphrasePath of
        None \<Rightarrow> plain_failure ''ENOENT''
      | Some f \<Rightarrow> bindR (readProtectedPassphrase (ho_unix h) ''KEY'' f) (\<lambda>passphrase.
          loadSignerFile X h files path (Some passphrase)))"

text \<open>\<open>writeExclusive\<close>: a file that is already there is left alone, as \<open>EEXIST\<close> is caught.\<close>

definition write_exclusive :: "jsstr \<Rightarrow> nat \<Rightarrow> byte list \<Rightarrow> key_files \<Rightarrow> key_files" where
  "write_exclusive path mode bytes files =
     (if files path = None then files(path \<mapsto> \<lparr>kf_regular = True, kf_mode = mode, kf_bytes = bytes\<rparr>) else files)"

definition loadOrCreateNamedSigner :: "platform \<Rightarrow> host \<Rightarrow> jsstr \<Rightarrow> string \<Rightarrow> key_files \<Rightarrow> key_files \<times> signer res" where
  "loadOrCreateNamedSigner X h dataDir name files =
     (let at = (\<lambda>suffix. storage_path (storage_path dataDir (js ''keys'')) (js name @ js suffix));
          path = at ''.pk8'' in
      if files path \<noteq> None then (files, loadSignerFile X h files path None)
      else let (private, public) = ho_generate h name;
               files' = write_exclusive (at ''.spki'') 420 public (write_exclusive path 384 private files) in
           (files', loadSignerFile X h files' path None))"

section \<open>The signers of the three roles\<close>

record signing_roles =
  sg_segment :: signer
  sg_topology :: signer
  sg_checkpoint :: signer

text \<open>\<open>Promise.all\<close> fails with an error of one of the three; here with the first of them in order.\<close>

definition three_signers :: "signer res \<Rightarrow> signer res \<Rightarrow> signer res \<Rightarrow> signing_roles res" where
  "three_signers a b c =
     bindR a (\<lambda>segment. bindR b (\<lambda>topology. bindR c (\<lambda>checkpoint.
     Inr \<lparr>sg_segment = segment, sg_topology = topology, sg_checkpoint = checkpoint\<rparr>)))"

definition loadSigningRoles :: "platform \<Rightarrow> host \<Rightarrow> ledger_settings \<Rightarrow> key_files \<Rightarrow> key_files \<times> signing_roles res" where
  "loadSigningRoles X h s files =
     (if ls_custodyMode s = js ''integrated'' then
        let load = (\<lambda>path. loadProtectedSigner X h files (the_default [] path) (the_default [] (ls_passphrasePath s))) in
        (files, three_signers (load (ls_segmentKeyPath s)) (load (ls_topologyKeyPath s)) (load (ls_checkpointKeyPath s)))
      else if ls_custodyMode s = js ''separated'' then
        let so = \<lparr>so_path = JStr (the_default [] (ls_socketPath s)), so_timeoutMs = JInt (int (ls_signerTimeoutMs s))\<rparr>;
            load = (\<lambda>role. loadSocketSigner X so (ho_talk h (the_default [] (ls_socketPath s))) (ho_buffer h) (js role)) in
        (files, three_signers (load ''segment'') (load ''topology'') (load ''checkpoint''))
      else
        let (files1, segment) = (case ls_segmentKeyPath s of
               None \<Rightarrow> loadOrCreateNamedSigner X h (ls_dataDirectory s) ''segment-signing-key'' files
             | Some path \<Rightarrow> (files, loadSignerFile X h files path None));
            (files2, topology) = loadOrCreateNamedSigner X h (ls_dataDirectory s) ''topology-authority-key'' files1;
            (files3, checkpoint) = loadOrCreateNamedSigner X h (ls_dataDirectory s) ''checkpoint-publisher-key'' files2 in
        (files3, three_signers segment topology checkpoint))"

section \<open>The installation manifest\<close>

definition PRODUCT_NAMES :: "jsstr list" where
  "PRODUCT_NAMES = [js ''Provenance'' @ 0x2022 # js ''9'', js ''Glare'' @ 0x2022 # js ''9 Provenance'']"

definition manifest_exact :: "jsval \<Rightarrow> string list \<Rightarrow> unit res" where
  "manifest_exact v wanted = plain_check (exact_fields v wanted) ''INSTALLATION_MANIFEST''"

definition check_manifest_key :: "jsval \<Rightarrow> string \<times> signer \<Rightarrow> unit res" where
  "check_manifest_key keys = (\<lambda>(role, s).
     let key = get_prop keys role in
     andThen (manifest_exact key [''algorithm'', ''keyId''])
     (plain_check (get_prop key ''algorithm'' = JStr (js ''ed25519'') \<and> get_prop key ''keyId'' = JStr (keyId s))
       ''INSTALLATION_KEY_ID''))"

definition check_manifest_time :: "host \<Rightarrow> jsval \<Rightarrow> unit res" where
  "check_manifest_time h v =
     (case v of
        JStr t \<Rightarrow> if ho_date h t then plain_check (is_canonical_timestamp t) ''INSTALLATION_MANIFEST'' else plain_failure []
      | _ \<Rightarrow> plain_failure ''INSTALLATION_MANIFEST'')"

definition check_manifest_directory :: "host \<Rightarrow> ledger_settings \<Rightarrow> jsval \<Rightarrow> unit res" where
  "check_manifest_directory h s v =
     (case v of
        JStr path \<Rightarrow> plain_check (ho_resolve h path = ls_dataDirectory s) ''INSTALLATION_DATA_DIRECTORY''
      | _ \<Rightarrow> Inl JsTypeError)"

definition validateInstallationManifest ::
  "host \<Rightarrow> ledger_settings \<Rightarrow> signing_roles \<Rightarrow> jsval \<Rightarrow> (jsstr \<times> jsstr) res" where
  "validateInstallationManifest h s roles m =
     (let expected = (if ls_custodyMode s = js ''separated'' then JStr (the_default [] (ls_socketPath s)) else JNull);
          keys = get_prop m ''keys'' in
      andThen (checks
        [manifest_exact m [''kind'', ''version'', ''product'', ''installationId'', ''createdAt'', ''custodyMode'',
           ''dataDirectory'', ''signerSocketPath'', ''keys''],
         plain_check (get_prop m ''kind'' = JStr (js ''g9p-installation'') \<and> get_prop m ''version'' = JInt 1
           \<and> get_prop m ''product'' \<in> JStr ` set PRODUCT_NAMES) ''INSTALLATION_MANIFEST'',
         plain_check (hash_text (get_prop m ''installationId'')) ''INSTALLATION_MANIFEST'',
         check_manifest_time h (get_prop m ''createdAt''),
         plain_check (get_prop m ''custodyMode'' = JStr (ls_custodyMode s)) ''INSTALLATION_CUSTODY'',
         check_manifest_directory h s (get_prop m ''dataDirectory''),
         plain_check (get_prop m ''signerSocketPath'' = expected) ''INSTALLATION_SIGNER_SOCKET'',
         manifest_exact keys [''segment'', ''topology'', ''checkpoint''],
         check_manifest_key keys (''segment'', sg_segment roles),
         check_manifest_key keys (''topology'', sg_topology roles),
         check_manifest_key keys (''checkpoint'', sg_checkpoint roles)])
      (Inr (str_of (get_prop m ''installationId''), str_of (get_prop m ''custodyMode''))))"

section \<open>The start\<close>

text \<open>The constructor of \<open>LocalLedger\<close>, with the checks in its order.\<close>

definition lifecycle_object :: "lifecycle \<Rightarrow> jsval" where
  "lifecycle_object l = obj [(''blockMaxBytes'', JInt (int (blockMaxBytes l))), (''blockMaxRecords'', JInt (int (blockMaxRecords l))),
     (''segmentMaxBytes'', JInt (int (segmentMaxBytes l))), (''segmentMaxRecords'', JInt (int (segmentMaxRecords l))),
     (''segmentMaxAgeMs'', JInt (int (segmentMaxAgeMs l))), (''maxAcceptedEvents'', JInt (int (maxAcceptedEvents l))),
     (''maxAcceptedBytes'', JInt (int (maxAcceptedBytes l))), (''maxActiveBlockBytes'', JInt (int (maxActiveBlockBytes l)))]"

definition make_ledger :: "host \<Rightarrow> ledger_settings \<Rightarrow> signing_roles \<Rightarrow> jsval option \<Rightarrow> ledger_config res" where
  "make_ledger h s roles bundle =
     andThen (checks
       [invariant (algorithm (sg_topology roles) = js ''ed25519'' \<and> can_sign (sg_topology roles)) ''LEDGER_TOPOLOGY_AUTHORITY'',
        invariant (algorithm (sg_checkpoint roles) = js ''ed25519'' \<and> can_sign (sg_checkpoint roles))
          ''LEDGER_CHECKPOINT_PUBLISHER''])
     (bindR (case bundle of None \<Rightarrow> Inr None | Some v \<Rightarrow> bindR (validate_trust_bundle (ho_collate h) v) (\<lambda>b. Inr (Some b))) (\<lambda>trust.
      bindR (create_routing_policy (ls_shardCount s)) (\<lambda>_.
      bindR (lifecycle_config (lifecycle_object (ls_lifecycle s))) (\<lambda>limits.
      Inr \<lparr>dataDirectory = ls_dataDirectory s, segmentSigner = sg_segment roles, topologyAuthority = sg_topology roles,
        checkpointPublisher = sg_checkpoint roles, segmentTrustBundle = trust, defaultShardCount = ls_shardCount s,
        adoptLegacyRoutingHistory = ls_adoptLegacy s, limits_of = limits\<rparr>))))"

definition read_optional :: "host \<Rightarrow> jsstr option \<Rightarrow> jsval option res" where
  "read_optional h path = (case path of None \<Rightarrow> Inr None | Some p \<Rightarrow> bindR (ho_json h p) (\<lambda>v. Inr (Some v)))"

record process =
  pr_lock :: "lock_file option"
  pr_keys :: key_files
  pr_ledger :: ledger

record running =
  ru_ledger :: ledger_config
  ru_server :: server_config
  ru_installation :: "(jsstr \<times> jsstr) option"

text \<open>What \<open>main\<close> does with the lock in hand; \<open>listening\<close> is the outcome of the TLS files and of \<open>listen\<close>.\<close>

definition configure :: "platform \<Rightarrow> host \<Rightarrow> ledger_settings \<Rightarrow> key_files \<Rightarrow> key_files \<times> running res" where
  "configure X h s files =
     (case loadSigningRoles X h s files of
        (files', Inl e) \<Rightarrow> (files', Inl e)
      | (files', Inr roles) \<Rightarrow> (files',
          bindR (read_optional h (ls_manifestPath s)) (\<lambda>manifest.
          bindR (case manifest of None \<Rightarrow> Inr None
             | Some m \<Rightarrow> bindR (validateInstallationManifest h s roles m) (\<lambda>i. Inr (Some i))) (\<lambda>installation.
          bindR (read_optional h (ls_bundlePath s)) (\<lambda>bundle.
          bindR (make_ledger h s roles bundle) (\<lambda>cfg.
          Inr \<lparr>ru_ledger = cfg,
            ru_server = \<lparr>sv_apiTokens = ls_apiTokens s, sv_adminTokens = ls_adminTokens s,
              sv_maxBatchEvents = ls_maxBatchEvents s, sv_maxRequestBytes = ls_maxRequestBytes s\<rparr>,
            ru_installation = installation\<rparr>))))))"

definition start_locked ::
  "platform \<Rightarrow> host \<Rightarrow> ledger_settings \<Rightarrow> unit res \<Rightarrow> process \<Rightarrow> process \<times> running res" where
  "start_locked X h s listening p =
     (case configure X h s (pr_keys p) of
        (files, Inl e) \<Rightarrow> (p\<lparr>pr_keys := files\<rparr>, Inl e)
      | (files, Inr r) \<Rightarrow>
          (case start_ledger X (ru_ledger r) (pr_ledger p) of
             (l, Inl e) \<Rightarrow> (p\<lparr>pr_keys := files, pr_ledger := l\<rparr>, Inl e)
           | (l, Inr u) \<Rightarrow> (p\<lparr>pr_keys := files, pr_ledger := l\<rparr>, andThen listening (Inr r))))"

definition start_service ::
  "platform \<Rightarrow> host \<Rightarrow> environment \<Rightarrow> lock_owner \<Rightarrow> lock_outcome \<Rightarrow> bool \<Rightarrow> unit res \<Rightarrow> process \<Rightarrow> process \<times> running res" where
  "start_service X h env owner outcome unlinks listening p =
     (case loadLedgerConfig h env of
        Inl e \<Rightarrow> (p, Inl e)
      | Inr s \<Rightarrow>
          (case acquireWriterLock owner outcome (pr_lock p) of
             (lock, Inl e) \<Rightarrow> (p\<lparr>pr_lock := lock\<rparr>, Inl e)
           | (lock, Inr u) \<Rightarrow>
               (case start_locked X h s listening (p\<lparr>pr_lock := lock\<rparr>) of
                  (p', Inr r) \<Rightarrow> (p', Inr r)
                | (p', Inl e) \<Rightarrow> (p'\<lparr>pr_lock := fst (release_lock owner False unlinks (pr_lock p'))\<rparr>, Inl e))))"


section \<open>What the settings guarantee\<close>

lemma integer_setting_Inr [res_simps]:
  "integer_setting h env name fallback least greatest = Inr n \<longleftrightarrow>
    (\<exists>i. (case env name of None \<Rightarrow> Some fallback | Some v \<Rightarrow> ho_number h v) = Some i \<and> least \<le> i \<and> i \<le> greatest \<and> n = nat i)"
  by (auto simp: integer_setting_def plain_failure_def res_simps split: option.splits)

lemma token_set_Inr:
  "token_set env name single = Inr ts \<Longrightarrow> ts \<noteq> [] \<and> length ts \<le> 4 \<and> distinct ts \<and> (\<forall>t \<in> set ts. 16 \<le> length t)"
  by (auto simp: token_set_def Let_def plain_failure_def res_simps list_all_iff split: option.splits)

definition settings_ok :: "ledger_settings \<Rightarrow> bool" where
  "settings_ok s \<longleftrightarrow> ls_apiTokens s \<noteq> [] \<and> length (ls_apiTokens s) \<le> 4 \<and> length (ls_adminTokens s) \<le> 4
     \<and> (\<forall>t \<in> set (ls_apiTokens s) \<union> set (ls_adminTokens s). 16 \<le> length t)
     \<and> set (ls_apiTokens s) \<inter> set (ls_adminTokens s) = {}
     \<and> 1 \<le> ls_maxBatchEvents s \<and> ls_maxBatchEvents s \<le> 10000 \<and> ls_maxRequestBytes s \<le> 67108864
     \<and> 1 \<le> ls_shardCount s \<and> ls_shardCount s \<le> 65536
     \<and> ls_custodyMode s \<in> {js ''development'', js ''integrated'', js ''separated''}
     \<and> (ls_custodyMode s \<noteq> js ''development'' \<longrightarrow> ls_manifestPath s \<noteq> None)
     \<and> (ls_custodyMode s = js ''separated'' \<longrightarrow> ls_socketPath s \<noteq> None)"

lemma admin_tokens_ok:
  assumes "(if env a = None \<and> env b = None then Inr [] else token_set env a b) = Inr ts"
  shows "length ts \<le> 4 \<and> (\<forall>t \<in> set ts. 16 \<le> length t)"
  using assms token_set_Inr [of env a b ts] by (auto split: if_splits)

lemma loaded_settings_ok:
  assumes "loadLedgerConfig h env = Inr s"
  shows "settings_ok s"
proof -
  obtain api admin mode batch largest shards where
    api: "token_set env ''PROVENANCE_API_TOKENS'' ''PROVENANCE_API_TOKEN'' = Inr api"
    and admin: "(if env ''PROVENANCE_ADMIN_TOKENS'' = None \<and> env ''PROVENANCE_ADMIN_TOKEN'' = None then Inr []
      else token_set env ''PROVENANCE_ADMIN_TOKENS'' ''PROVENANCE_ADMIN_TOKEN'') = Inr admin"
    and apart: "list_all (\<lambda>t. t \<notin> set admin) api"
    and mode: "custody_mode env = Inr mode"
    and installed: "\<not> (mode \<noteq> js ''development'' \<and> ls_manifestPath s = None)"
    and socket: "\<not> (mode = js ''separated'' \<and> ls_socketPath s = None)"
    and shards: "integer_setting h env ''PROVENANCE_SHARD_COUNT'' 1 1 65536 = Inr shards"
    and batch: "integer_setting h env ''PROVENANCE_MAX_BATCH_EVENTS'' 500 1 10000 = Inr batch"
    and largest: "integer_setting h env ''PROVENANCE_MAX_REQUEST_BYTES'' 8388608 1024 67108864 = Inr largest"
    and s: "ls_apiTokens s = api" "ls_adminTokens s = admin" "ls_custodyMode s = mode" "ls_shardCount s = shards"
      "ls_maxBatchEvents s = batch" "ls_maxRequestBytes s = largest"
    using assms
    unfolding loadLedgerConfig_def Let_def bindR_Inr_iff andThen_Inr_iff checks_Inr_iff list.set ball_simps
      plain_check_Inr sum.inject
    apply (elim exE conjE)
    apply (rule that)
    apply assumption+
    subgoal by (drule sym [where t = s]) (simp del: js_Cons)
    subgoal by (drule sym [where t = s]) (simp del: js_Cons)
    apply assumption+
    apply (drule sym [where t = s], simp only: ledger_settings.simps)+
    done
  have "nat 1 \<le> shards \<and> shards \<le> 65536" "1 \<le> batch \<and> batch \<le> 10000" "largest \<le> 67108864"
    using shards batch largest by (auto simp: res_simps)
  moreover have "mode \<in> {js ''development'', js ''integrated'', js ''separated''}"
    using mode by (auto simp: custody_mode_def Let_def res_simps simp del: js_Cons)
  ultimately show ?thesis
    using token_set_Inr [OF api] admin_tokens_ok [OF admin] apart installed socket
    unfolding settings_ok_def s by (auto simp: list_all_iff simp del: js_Cons)
qed

section \<open>What a running service is configured with\<close>

definition no_local_key :: "platform \<Rightarrow> signer \<Rightarrow> bool" where
  "no_local_key X s \<longleftrightarrow> privateKey s = None \<and> keyId s = public_key_id X (publicKeyDer s) \<and> length (publicKeyDer s) = 44"

lemma socket_signer_holds_no_key: "loadSocketSigner X so talk buffer role = Inr s \<Longrightarrow> no_local_key X s"
  by (auto simp: loadSocketSigner_def no_local_key_def res_simps simp del: js_Cons)

lemma three_signers_Inr:
  "three_signers a b c = Inr roles \<longleftrightarrow> a = Inr (sg_segment roles) \<and> b = Inr (sg_topology roles) \<and> c = Inr (sg_checkpoint roles)"
  by (cases roles) (auto simp: three_signers_def res_simps)

lemma separated_roles_hold_no_key:
  assumes "loadSigningRoles X h s files = (files', Inr roles)" and "ls_custodyMode s = js ''separated''"
  shows "files' = files \<and> no_local_key X (sg_segment roles) \<and> no_local_key X (sg_topology roles) \<and> no_local_key X (sg_checkpoint roles)"
  using assms by (auto simp: loadSigningRoles_def Let_def three_signers_Inr dest: socket_signer_holds_no_key)

definition manifest_names :: "ledger_settings \<Rightarrow> signing_roles \<Rightarrow> jsval \<Rightarrow> bool" where
  "manifest_names s roles m \<longleftrightarrow> get_prop m ''custodyMode'' = JStr (ls_custodyMode s)
     \<and> get_prop (get_prop (get_prop m ''keys'') ''segment'') ''keyId'' = JStr (keyId (sg_segment roles))
     \<and> get_prop (get_prop (get_prop m ''keys'') ''topology'') ''keyId'' = JStr (keyId (sg_topology roles))
     \<and> get_prop (get_prop (get_prop m ''keys'') ''checkpoint'') ''keyId'' = JStr (keyId (sg_checkpoint roles))"

lemma validated_manifest:
  assumes "validateInstallationManifest h s roles m = Inr i"
  shows "manifest_names s roles m \<and> (\<exists>path. get_prop m ''dataDirectory'' = JStr path \<and> ho_resolve h path = ls_dataDirectory s)"
proof -
  have "check_manifest_directory h s (get_prop m ''dataDirectory'') = Inr ()"
    using assms by (simp add: validateInstallationManifest_def Let_def res_simps del: js_Cons)
  then have "\<exists>path. get_prop m ''dataDirectory'' = JStr path \<and> ho_resolve h path = ls_dataDirectory s"
    by (auto simp: check_manifest_directory_def res_simps split: jsval.splits)
  moreover have "manifest_names s roles m"
    using assms by (simp add: validateInstallationManifest_def manifest_names_def check_manifest_key_def Let_def res_simps del: js_Cons)
  ultimately show ?thesis by blast
qed

lemma made_ledger:
  assumes "make_ledger h s roles bundle = Inr cfg"
  shows "check_ledger_config cfg = Inr () \<and> dataDirectory cfg = ls_dataDirectory s \<and> defaultShardCount cfg = ls_shardCount s
    \<and> segmentSigner cfg = sg_segment roles \<and> topologyAuthority cfg = sg_topology roles
    \<and> checkpointPublisher cfg = sg_checkpoint roles
    \<and> lifecycle_config (lifecycle_object (ls_lifecycle s)) = Inr (limits_of cfg)"
  using assms by (auto simp: make_ledger_def check_ledger_config_def res_simps simp del: js_Cons)

lemma lifecycle_kept:
  "lifecycle_config (lifecycle_object l) = Inr l' \<Longrightarrow> l' = l \<and> blockMaxBytes l \<le> segmentMaxBytes l
    \<and> blockMaxRecords l \<le> segmentMaxRecords l \<and> blockMaxBytes l \<le> maxActiveBlockBytes l"
  by (cases l) (auto simp: lifecycle_config_def lifecycle_object_def option_or_def positive_integer_def Let_def res_simps int_of_def)

definition roles_of :: "ledger_config \<Rightarrow> signing_roles" where
  "roles_of cfg = \<lparr>sg_segment = segmentSigner cfg, sg_topology = topologyAuthority cfg, sg_checkpoint = checkpointPublisher cfg\<rparr>"

lemma configured:
  assumes "configure X h s files = (files', Inr r)"
  obtains roles where "loadSigningRoles X h s files = (files', Inr roles)" and "roles_of (ru_ledger r) = roles"
    and "check_ledger_config (ru_ledger r) = Inr ()" and "dataDirectory (ru_ledger r) = ls_dataDirectory s"
    and "limits_of (ru_ledger r) = ls_lifecycle s"
    and "sv_apiTokens (ru_server r) = ls_apiTokens s" and "sv_adminTokens (ru_server r) = ls_adminTokens s"
    and "\<forall>path. ls_manifestPath s = Some path \<longrightarrow> (\<exists>m i. ho_json h path = Inr m \<and> validateInstallationManifest h s roles m = Inr i)"
proof -
  obtain roles where roles: "loadSigningRoles X h s files = (files', Inr roles)"
    using assms by (auto simp: configure_def split: prod.splits sum.splits)
  obtain manifest installation pinned cfg where m: "read_optional h (ls_manifestPath s) = Inr manifest"
    and i: "(case manifest of None \<Rightarrow> Inr None
      | Some m \<Rightarrow> bindR (validateInstallationManifest h s roles m) (\<lambda>i. Inr (Some i))) = Inr installation"
    and cfg: "make_ledger h s roles pinned = Inr cfg"
    and r: "ru_ledger r = cfg" "sv_apiTokens (ru_server r) = ls_apiTokens s" "sv_adminTokens (ru_server r) = ls_adminTokens s"
    using assms roles by (auto simp: configure_def res_simps)
  have "\<exists>m i. ho_json h path = Inr m \<and> validateInstallationManifest h s roles m = Inr i" if "ls_manifestPath s = Some path" for path
    using m i that by (auto simp: read_optional_def res_simps)
  moreover have "roles_of (ru_ledger r) = roles"
    using made_ledger [OF cfg] r(1) by (cases roles) (simp add: roles_of_def)
  ultimately show thesis
    by (intro that [OF roles]) (use made_ledger [OF cfg] lifecycle_kept r in auto)
qed

lemma started:
  assumes "start_service X h env owner outcome unlinks listening p = (p', Inr r)"
  obtains s files where "loadLedgerConfig h env = Inr s" and "pr_lock p = None" and "pr_lock p' = Some (Some (lock_text owner))"
    and "configure X h s (pr_keys p) = (files, Inr r)"
    and "start_ledger X (ru_ledger r) (pr_ledger p) = (pr_ledger p', Inr ())"
proof -
  obtain s where s: "loadLedgerConfig h env = Inr s"
    using assms by (auto simp: start_service_def split: sum.splits)
  obtain lock u where lock: "acquireWriterLock owner outcome (pr_lock p) = (lock, Inr u)"
    using assms s by (auto simp: start_service_def split: prod.splits sum.splits)
  note l = acquired_lock [OF lock]
  have locked: "start_locked X h s listening (p\<lparr>pr_lock := lock\<rparr>) = (p', Inr r)"
    using assms s lock by (auto simp: start_service_def split: prod.splits sum.splits)
  then obtain files where "configure X h s (pr_keys p) = (files, Inr r)"
    and "start_ledger X (ru_ledger r) (pr_ledger p) = (pr_ledger p', Inr ())" and "pr_lock p' = lock"
    by (auto simp: start_locked_def res_simps split: prod.splits sum.splits)
  with s l show thesis by (intro that) simp_all
qed

lemma failed_start_returns_the_lock:
  assumes "start_service X h env owner outcome True listening p = (p', Inl e)" and "\<forall>l. outcome \<noteq> Left_Behind l"
  shows "pr_lock p' = pr_lock p"
proof (cases "loadLedgerConfig h env")
  case (Inr s)
  show ?thesis
  proof (cases "acquireWriterLock owner outcome (pr_lock p)")
    case (Pair lock result)
    show ?thesis
    proof (cases result)
      case Inl
      then show ?thesis using assms Inr Pair
        by (auto simp: start_service_def acquireWriterLock_def open_lock_def open_failure_def establish_lock_def failWith_def
            split: option.splits lock_outcome.splits)
    next
      case (Inr u)
      note acquired = Pair [unfolded Inr]
      have kept: "pr_lock q = lock" if "start_locked X h s listening (p\<lparr>pr_lock := lock\<rparr>) = (q, result')" for q result'
        using that by (auto simp: start_locked_def split: prod.splits sum.splits)
      show ?thesis
        using assms(1) \<open>loadLedgerConfig h env = Inr s\<close> acquired acquired_lock [OF acquired] release_acquired_lock [OF acquired] kept
        by (auto simp: start_service_def split: prod.splits sum.splits)
    qed
  qed
qed (use assms in \<open>auto simp: start_service_def\<close>)

text \<open>
  C16: A ledger runs only under its installation. A service that has started holds the writer lock, which was free,
  and has rebuilt its ledger from the stores; its administration credentials are none of its ingestion credentials. Outside
  development its three signers are those that the installation manifest names, for the same data directory, and in
  separated custody none of them holds a private key.
\<close>

theorem service_runs_under_its_installation:
  assumes "start_service X h env owner outcome unlinks listening p = (p', Inr r)"
  shows "\<exists>s. loadLedgerConfig h env = Inr s \<and> pr_lock p = None \<and> pr_lock p' = Some (Some (lock_text owner))
    \<and> start_ledger X (ru_ledger r) (pr_ledger p) = (pr_ledger p', Inr ()) \<and> check_ledger_config (ru_ledger r) = Inr ()
    \<and> dataDirectory (ru_ledger r) = ls_dataDirectory s \<and> limits_of (ru_ledger r) = ls_lifecycle s
    \<and> set (sv_apiTokens (ru_server r)) \<inter> set (sv_adminTokens (ru_server r)) = {}
    \<and> (ls_custodyMode s \<noteq> js ''development'' \<longrightarrow> (\<exists>path m directory. ls_manifestPath s = Some path \<and> ho_json h path = Inr m
        \<and> manifest_names s (roles_of (ru_ledger r)) m
        \<and> get_prop m ''dataDirectory'' = JStr directory \<and> ho_resolve h directory = dataDirectory (ru_ledger r)))
    \<and> (ls_custodyMode s = js ''separated'' \<longrightarrow> no_local_key X (segmentSigner (ru_ledger r))
        \<and> no_local_key X (topologyAuthority (ru_ledger r)) \<and> no_local_key X (checkpointPublisher (ru_ledger r)))"
proof -
  obtain s files where s: "loadLedgerConfig h env = Inr s" and lock: "pr_lock p = None" "pr_lock p' = Some (Some (lock_text owner))"
    and run: "start_ledger X (ru_ledger r) (pr_ledger p) = (pr_ledger p', Inr ())"
    and conf: "configure X h s (pr_keys p) = (files, Inr r)" by (rule started [OF assms])
  obtain roles where roles: "loadSigningRoles X h s (pr_keys p) = (files, Inr roles)" "roles_of (ru_ledger r) = roles"
    and cfg: "check_ledger_config (ru_ledger r) = Inr ()" "dataDirectory (ru_ledger r) = ls_dataDirectory s"
      "limits_of (ru_ledger r) = ls_lifecycle s"
    and sv: "sv_apiTokens (ru_server r) = ls_apiTokens s" "sv_adminTokens (ru_server r) = ls_adminTokens s"
    and valid: "\<forall>path. ls_manifestPath s = Some path
      \<longrightarrow> (\<exists>m i. ho_json h path = Inr m \<and> validateInstallationManifest h s roles m = Inr i)"
    by (rule configured [OF conf])
  have ok: "settings_ok s" by (rule loaded_settings_ok [OF s])
  have "\<exists>path m directory. ls_manifestPath s = Some path \<and> ho_json h path = Inr m
      \<and> manifest_names s (roles_of (ru_ledger r)) m
      \<and> get_prop m ''dataDirectory'' = JStr directory \<and> ho_resolve h directory = dataDirectory (ru_ledger r)"
    if "ls_custodyMode s \<noteq> js ''development''"
  proof -
    obtain path where path: "ls_manifestPath s = Some path" using ok \<open>ls_custodyMode s \<noteq> js ''development''\<close> by (auto simp: settings_ok_def simp del: js_Cons)
    then show ?thesis using valid [rule_format, OF path] validated_manifest roles(2) cfg(2) by metis
  qed
  moreover have "no_local_key X (segmentSigner (ru_ledger r))
      \<and> no_local_key X (topologyAuthority (ru_ledger r)) \<and> no_local_key X (checkpointPublisher (ru_ledger r))"
    if "ls_custodyMode s = js ''separated''"
    using separated_roles_hold_no_key [OF roles(1) that] unfolding roles(2) [symmetric] by (simp add: roles_of_def)
  ultimately show ?thesis using s lock run cfg sv ok by (intro exI [of _ s]) (simp add: settings_ok_def)
qed

section \<open>A start in separated custody\<close>

text \<open>Stores that have their directories, and no file yet.\<close>

definition store_directories :: "ledger_config \<Rightarrow> jsstr set" where
  "store_directories cfg = set (dataDirectory cfg # intakeDirectory cfg # activeStateDirectory cfg
     # map (storage_path (dataDirectory cfg)) NAMESPACES)"

lemma made_already: "is_folder d p \<Longrightarrow> make_directories d p = []"
  by (simp add: make_directories.simps)

lemma empty_stores_start:
  assumes "list_objects (dataDirectory cfg) (js ''routing/'') (bare_disk F D) = Inr []"
    and "list_objects (dataDirectory cfg) (js ''segments/'') (bare_disk F D) = Inr []"
    and "list_objects (dataDirectory cfg) (js ''checkpoints/'') (bare_disk F D) = Inr []"
    and F: "store_directories cfg \<subseteq> F" and s: "s = bare_ledger F D [] now"
  shows "start_ledger X cfg s = (s, Inr ())"
proof -
  have disks: "sealed_disk s = bare_disk F D" "intake_disk s = bare_disk F D" "state_disk s = bare_disk F D" "faults s = []"
    "routingHistory s = []" "pendingIndex s = []" "activeSegments s = []"
    by (simp_all add: s bare_ledger_def fresh_ledger_def)
  have made: "is_folder (bare_disk F D) p" if "p \<in> store_directories cfg" for p
    using F that by (auto simp: with_ancestors_def)
  have none: "make_directories (bare_disk F D) p = []" if "p \<in> store_directories cfg" for p
    using made [OF that] by (rule made_already)
  have "namespace_calls (bare_disk F D) (storage_path (dataDirectory cfg) ns) = []" if "ns \<in> set NAMESPACES" for ns
    using made [of "storage_path (dataDirectory cfg) ns"] that
    by (simp add: namespace_calls_def namespace_cleanup_def stale_parts_def walk_files_def Let_def store_directories_def
        del: bare_disk_simps(2))
  then have "initialize_calls (dataDirectory cfg) (bare_disk F D) = []"
    using none [of "dataDirectory cfg"] by (simp add: initialize_calls_def store_directories_def)
  then have "initialize_storage cfg s = (s, Inr ())"
    by (simp add: initialize_storage_def bindS_def next_fault_def disks initialize_def s bare_ledger_def fresh_ledger_def)
  moreover have "load_routing_epochs X cfg s = (s, Inr ())" "load_segments X cfg s = (s, Inr ())" "load_checkpoints X cfg s = (s, Inr ())"
    using assms(1-3) by (simp_all add: load_routing_epochs_def load_segments_def load_checkpoints_def list_sealed_def bindS_def getS_def
        disks liftS_def grouped_def del: js_Cons)
  moreover have "verify_transition_heads s = Inr ()" by (simp add: verify_transition_heads_def disks)
  moreover have "load_durable_intake X cfg s = (s, Inr ())"
    using none [of "intakeDirectory cfg"]
    by (simp add: load_durable_intake_def initialize_intake_def ensure_directory_def bindS_def thenS_def getS_def dir_files_def
        walk_files_def disks store_directories_def)
  moreover have "load_active_segments X cfg s = (s, Inr ())"
    using none [of "activeStateDirectory cfg"]
    by (simp add: load_active_segments_def initialize_states_def ensure_directory_def bindS_def thenS_def getS_def dir_files_def
        walk_files_def disks store_directories_def)
  moreover have "drain_accepted X cfg True s = (s, Inr ())"
    by (simp add: drain_accepted_def bindS_def thenS_def getS_def liftS_def whenS_def seal_all_def by_sequence_def disks jm_values_def)
  ultimately show ?thesis by (simp add: start_ledger_def thenS_def bindS_def getS_def liftS_def)
qed

lemma empty_list_objects:
  "list_objects (js ''/d'') (js ''routing/'') (bare_disk F D) = Inr []"
  "list_objects (js ''/d'') (js ''segments/'') (bare_disk F D) = Inr []"
  "list_objects (js ''/d'') (js ''checkpoints/'') (bare_disk F D) = Inr []"
proof -
  have ok: "local_path (js ''/d'') (js ''routing'') = Inr (js ''/d/routing'')"
    "local_path (js ''/d'') (js ''segments'') = Inr (js ''/d/segments'')"
    "local_path (js ''/d'') (js ''checkpoints'') = Inr (js ''/d/checkpoints'')" by code_simp+
  have key: "validate_key True (js ''routing/'') = Inr (js ''routing/'')" "validate_key True (js ''segments/'') = Inr (js ''segments/'')"
    "validate_key True (js ''checkpoints/'') = Inr (js ''checkpoints/'')" by code_simp+
  have cut: "ends_with ''/'' (js ''routing/'')" "ends_with ''/'' (js ''segments/'')" "ends_with ''/'' (js ''checkpoints/'')"
    "butlast (js ''routing/'') = js ''routing''" "butlast (js ''segments/'') = js ''segments''"
    "butlast (js ''checkpoints/'') = js ''checkpoints''" by code_simp+
  show "list_objects (js ''/d'') (js ''routing/'') (bare_disk F D) = Inr []"
    "list_objects (js ''/d'') (js ''segments/'') (bare_disk F D) = Inr []"
    "list_objects (js ''/d'') (js ''checkpoints/'') (bare_disk F D) = Inr []"
    by (simp_all add: list_objects_def key ok cut walk_files_def del: js_Cons)
qed

definition installed_environment :: environment where
  "installed_environment = map_of [(''PROVENANCE_API_TOKENS'', js ''ingestion-token-1''),
     (''PROVENANCE_DATA_DIR'', js ''/d''), (''PROVENANCE_CUSTODY_MODE'', js ''separated''),
     (''PROVENANCE_INSTALLATION_MANIFEST_PATH'', js ''/m''), (''PROVENANCE_SIGNER_SOCKET_PATH'', js ''/s'')]"

definition custody_key_id :: jsstr where
  "custody_key_id = public_key_id toy_platform (replicate 44 1)"

definition installed_manifest :: jsval where
  "installed_manifest = (let key = obj [(''algorithm'', JStr (js ''ed25519'')), (''keyId'', JStr custody_key_id)] in
     obj [(''kind'', JStr (js ''g9p-installation'')), (''version'', JInt 1), (''product'', JStr (hd PRODUCT_NAMES)),
       (''installationId'', JStr custody_key_id), (''createdAt'', JStr (js ''2026-01-02T03:04:05.006Z'')),
       (''custodyMode'', JStr (js ''separated'')), (''dataDirectory'', JStr (js ''/d'')), (''signerSocketPath'', JStr (js ''/s'')),
       (''keys'', obj [(''segment'', key), (''topology'', key), (''checkpoint'', key)])])"

definition installed_host :: host where
  "installed_host = \<lparr>ho_number = (\<lambda>_. None), ho_resolve = (\<lambda>path. path), ho_date = (\<lambda>_. True), ho_collate = (\<lambda>_ _. 0),
     ho_json = (\<lambda>_. Inr installed_manifest), ho_unix = True, ho_import = (\<lambda>_ _. None), ho_generate = (\<lambda>_. ([], [])),
     ho_talk = (\<lambda>_. local_talk toy_platform custody_sample), ho_buffer = (\<lambda>_. None)\<rparr>"

definition installed_settings :: ledger_settings where
  "installed_settings = \<lparr>ls_apiTokens = [js ''ingestion-token-1''], ls_adminTokens = [], ls_tls = None, ls_host = js ''127.0.0.1'',
     ls_port = 8787, ls_dataDirectory = js ''/d'', ls_custodyMode = js ''separated'', ls_manifestPath = Some (js ''/m''),
     ls_passphrasePath = None, ls_segmentKeyPath = None, ls_topologyKeyPath = None, ls_checkpointKeyPath = None,
     ls_socketPath = Some (js ''/s''), ls_signerTimeoutMs = 5000, ls_bundlePath = None, ls_shardCount = 1, ls_adoptLegacy = False,
     ls_maxBatchEvents = 500, ls_maxRequestBytes = 8388608, ls_lifecycle = DEFAULT_LIFECYCLE\<rparr>"

lemma installed_settings_load: "loadLedgerConfig installed_host installed_environment = Inr installed_settings"
proof -
  have one: "token_set installed_environment ''PROVENANCE_API_TOKENS'' ''PROVENANCE_API_TOKEN'' = Inr [js ''ingestion-token-1'']"
    by (simp add: token_set_def installed_environment_def trim_def is_white_def plain_check_def)
  have lifecycle: "lifecycle_settings installed_host installed_environment = Inr DEFAULT_LIFECYCLE"
    by (simp add: lifecycle_settings_def integer_setting_def installed_environment_def DEFAULT_LIFECYCLE_def plain_check_def
        max_safe_integer_def)
  have mode: "custody_mode installed_environment = Inr (js ''separated'')"
    by (simp add: custody_mode_def installed_environment_def plain_check_def)
  show ?thesis
    by (simp add: loadLedgerConfig_def Let_def one lifecycle mode)
       (simp add: installed_environment_def installed_settings_def installed_host_def optional_path_def boolean_setting_def
         integer_setting_def plain_check_def)
qed

lemma installed_roles_load:
  "\<exists>roles. loadSigningRoles toy_platform installed_host installed_settings files = (files, Inr roles)
    \<and> keyId (sg_segment roles) = custody_key_id \<and> keyId (sg_topology roles) = custody_key_id
    \<and> keyId (sg_checkpoint roles) = custody_key_id
    \<and> algorithm (sg_topology roles) = js ''ed25519'' \<and> algorithm (sg_checkpoint roles) = js ''ed25519''
    \<and> can_sign (sg_topology roles) \<and> can_sign (sg_checkpoint roles)"
proof -
  let ?so = "\<lparr>so_path = JStr (js ''/s''), so_timeoutMs = JInt 5000\<rparr>"
  let ?signer = "\<lambda>role. socket_signer toy_platform ?so (local_talk toy_platform custody_sample) (\<lambda>_. None) (js role) (replicate 44 1)"
  have "valid_options ?so" by (simp add: valid_options_def non_empty_string_def int_in_def)
  then have "loadSocketSigner toy_platform ?so (local_talk toy_platform custody_sample) (\<lambda>_. None) (js role) = Inr (?signer role)"
    if "role \<in> {''segment'', ''topology'', ''checkpoint''}" for role
    using that socket_signer_loads [of ?so "js role" toy_platform custody_sample "local_talk toy_platform custody_sample" "\<lambda>_. None"]
      local_talk_carries custody_sample_ed25519 by (auto simp: ROLES_def custody_sample_def simp del: js_Cons)
  then have "loadSigningRoles toy_platform installed_host installed_settings files = (files, Inr
      \<lparr>sg_segment = ?signer ''segment'', sg_topology = ?signer ''topology'', sg_checkpoint = ?signer ''checkpoint''\<rparr>)"
    by (simp add: loadSigningRoles_def installed_settings_def installed_host_def three_signers_def Let_def del: js_Cons)
  then show ?thesis by (simp add: socket_signer_def custody_key_id_def can_sign_def del: js_Cons)
qed

definition installed_process :: process where
  "installed_process = \<lparr>pr_lock = None, pr_keys = (\<lambda>_. None),
     pr_ledger = bare_ledger (set (map js [''/d'', ''/d/intake'', ''/d/provisional'', ''/d/segments'', ''/d/routing'',
       ''/d/checkpoints'', ''/d/witnesses''])) {} [] (js ''2026-01-02T03:04:05.007Z'')\<rparr>"

lemma installed_manifest_valid:
  assumes "keyId (sg_segment roles) = custody_key_id" and "keyId (sg_topology roles) = custody_key_id"
    and "keyId (sg_checkpoint roles) = custody_key_id"
  shows "validateInstallationManifest installed_host installed_settings roles installed_manifest = Inr (custody_key_id, js ''separated'')"
proof -
  have "hash_text (JStr custody_key_id)"
    by (simp add: hash_text_def custody_key_id_def public_key_id_def is_hex64_to_hex length_domain_digest [OF toy_sha256_ok])
  moreover have "is_canonical_timestamp (js ''2026-01-02T03:04:05.006Z'')" using sample_times by simp
  ultimately show ?thesis
    using assms
    by (simp add: validateInstallationManifest_def installed_manifest_def check_manifest_key_def check_manifest_time_def
        check_manifest_directory_def manifest_exact_def installed_settings_def installed_host_def Let_def PRODUCT_NAMES_def
        plain_check_def str_of_def del: js_Cons)
qed

lemma installed_configures:
  obtains r where "configure toy_platform installed_host installed_settings files = (files, Inr r)"
    and "dataDirectory (ru_ledger r) = js ''/d''"
proof -
  obtain roles where roles: "loadSigningRoles toy_platform installed_host installed_settings files = (files, Inr roles)"
    "keyId (sg_segment roles) = custody_key_id" "keyId (sg_topology roles) = custody_key_id"
    "keyId (sg_checkpoint roles) = custody_key_id"
    "algorithm (sg_topology roles) = js ''ed25519'' \<and> can_sign (sg_topology roles)"
    "algorithm (sg_checkpoint roles) = js ''ed25519'' \<and> can_sign (sg_checkpoint roles)"
    using installed_roles_load by blast
  have "lifecycle_config (lifecycle_object DEFAULT_LIFECYCLE) = Inr DEFAULT_LIFECYCLE"
    by (simp add: lifecycle_config_def lifecycle_object_def option_or_def positive_integer_def DEFAULT_LIFECYCLE_def Let_def
        positive_safe_integer_def max_safe_integer_def invariant_def int_of_def)
  then have "\<exists>cfg. make_ledger installed_host installed_settings roles None = Inr cfg \<and> dataDirectory cfg = js ''/d''"
    using roles by (simp add: make_ledger_def installed_settings_def create_routing_policy_def invariant_def del: js_Cons)
  then obtain cfg where cfg: "make_ledger installed_host installed_settings roles None = Inr cfg" "dataDirectory cfg = js ''/d''"
    by blast
  have files: "ls_manifestPath installed_settings = Some (js ''/m'')" "ls_bundlePath installed_settings = None"
    "ho_json installed_host path = Inr installed_manifest" for path
    by (simp_all add: installed_settings_def installed_host_def)
  obtain r where r: "configure toy_platform installed_host installed_settings files = (files, Inr r)" "ru_ledger r = cfg"
    using roles(1) cfg(1) installed_manifest_valid [OF roles(2-4)]
    by (simp add: configure_def read_optional_def files del: js_Cons)
  show thesis by (rule that [OF r(1)]) (simp only: r(2) cfg(2))
qed

lemma service_runs_under_its_installation_witness:
  "\<exists>p r. start_service toy_platform installed_host installed_environment (sample_owner 1) Established True (Inr ()) installed_process
      = (p, Inr r)
    \<and> pr_lock p = Some (Some (lock_text (sample_owner 1))) \<and> no_local_key toy_platform (segmentSigner (ru_ledger r))"
proof -
  obtain r where conf: "configure toy_platform installed_host installed_settings (\<lambda>_. None) = (\<lambda>_. None, Inr r)"
    and dir: "dataDirectory (ru_ledger r) = js ''/d''" by (rule installed_configures)
  have "start_ledger toy_platform (ru_ledger r) (pr_ledger installed_process) = (pr_ledger installed_process, Inr ())"
    unfolding installed_process_def process.simps
    by (rule empty_stores_start, unfold dir) (rule empty_list_objects, rule empty_list_objects, rule empty_list_objects,
      simp_all add: dir store_directories_def intakeDirectory_def activeStateDirectory_def storage_path_def NAMESPACES_def)
  then obtain p where run: "start_service toy_platform installed_host installed_environment (sample_owner 1) Established True (Inr ())
      installed_process = (p, Inr r)"
    using conf by (simp add: start_service_def installed_settings_load acquireWriterLock_def open_lock_def open_failure_def establish_lock_def
        start_locked_def installed_process_def)
  have "ls_custodyMode installed_settings = js ''separated''" by (simp add: installed_settings_def)
  with service_runs_under_its_installation [OF run] run installed_settings_load show ?thesis by auto
qed

end
