(* ===== verification/G9P_Services.thy ===== *)
theory G9P_Services
  imports G9P_Startup G9P_Outbox
begin

text \<open>
  The other two processes: the connector with its settings, its status endpoint and its metrics
  (connectors/mysql/src/config.js, main.js, health-server.js, metrics.js), and the signer service with its settings and
  its keys (services/signer/src/config.js, main.js).
\<close>

section \<open>The settings of the connector\<close>

definition required_setting :: "environment \<Rightarrow> string \<Rightarrow> jsstr res" where
  "required_setting env name =
     (case env name of None \<Rightarrow> plain_failure [] | Some v \<Rightarrow> andThen (plain_check (v \<noteq> []) []) (Inr v))"

definition boolean_setting_or :: "environment \<Rightarrow> string \<Rightarrow> bool \<Rightarrow> bool res" where
  "boolean_setting_or env name fallback = (if env name = None then Inr fallback else boolean_setting env name)"

definition optional_token :: "environment \<Rightarrow> string \<Rightarrow> jsstr option res" where
  "optional_token env name =
     (case env name of None \<Rightarrow> Inr None | Some v \<Rightarrow> andThen (plain_check (16 \<le> length v) []) (Inr (Some v)))"

definition connector_token_set :: "environment \<Rightarrow> string \<Rightarrow> string \<Rightarrow> jsstr list res" where
  "connector_token_set env name single =
     (case (case env name of None \<Rightarrow> env single | Some v \<Rightarrow> Some v) of
        None \<Rightarrow> plain_failure []
      | Some source \<Rightarrow>
          let credentials = map trim (split_commas source) in
          andThen (plain_check (source \<noteq> []) [])
          (andThen (plain_check (length credentials \<le> 4 \<and> list_all (\<lambda>t. 16 \<le> length t) credentials \<and> distinct credentials) [])
          (Inr credentials)))"

record mysql_settings =
  my_host :: jsstr
  my_port :: nat
  my_user :: jsstr
  my_password :: jsstr
  my_database :: jsstr
  my_ssl :: "(bool \<times> jsstr option) option"

record connector_settings =
  cs_mysql :: mysql_settings
  cs_table :: jsstr
  cs_url :: jsstr
  cs_tokens :: "jsstr list"
  cs_connectorId :: jsstr
  cs_batchSize :: nat
  cs_pollIntervalMs :: nat
  cs_leaseSeconds :: nat
  cs_maxAttempts :: nat
  cs_retryBaseMs :: nat
  cs_retryMaxMs :: nat
  cs_healthHost :: jsstr
  cs_healthPort :: nat
  cs_metricsToken :: "jsstr option"

definition default_to :: "string \<Rightarrow> jsstr option \<Rightarrow> jsstr" where
  "default_to fallback v = the_default (js fallback) v"

text \<open>The one step whose errors are those of the client is the check of the table name.\<close>

definition table_check :: "jsstr \<Rightarrow> unit res" where
  "table_check table = (case validateTablePath (JStr table) of Inl e \<Rightarrow> Inl JsTypeError | Inr path \<Rightarrow> Inr ())"

definition mysql_config :: "host \<Rightarrow> environment \<Rightarrow> mysql_settings res" where
  "mysql_config h env =
     (let sslMode = default_to ''required'' (env ''MYSQL_SSL_MODE'') in
      andThen (plain_check (sslMode \<in> {js ''required'', js ''disabled''}) [])
      (bindR (required_setting env ''MYSQL_HOST'') (\<lambda>name.
       bindR (integer_setting h env ''MYSQL_PORT'' 3306 1 65535) (\<lambda>port.
       bindR (required_setting env ''MYSQL_USER'') (\<lambda>user.
       bindR (required_setting env ''MYSQL_PASSWORD'') (\<lambda>password.
       bindR (required_setting env ''MYSQL_DATABASE'') (\<lambda>database.
       bindR (if sslMode = js ''required''
              then bindR (boolean_setting_or env ''MYSQL_SSL_REJECT_UNAUTHORIZED'' True) (\<lambda>b. Inr (Some (b, env ''MYSQL_SSL_CA'')))
              else Inr None) (\<lambda>ssl.
       Inr \<lparr>my_host = name, my_port = port, my_user = user, my_password = password, my_database = database, my_ssl = ssl\<rparr>))))))))"

definition loadConnectorConfig :: "host \<Rightarrow> environment \<Rightarrow> connector_settings res" where
  "loadConnectorConfig h env =
     bindR (mysql_config h env) (\<lambda>mysql.
     (let table = default_to ''provenance_outbox'' (env ''MYSQL_OUTBOX_TABLE'') in
      andThen (table_check table)
      (bindR (required_setting env ''PROVENANCE_URL'') (\<lambda>url.
       bindR (connector_token_set env ''PROVENANCE_API_TOKENS'' ''PROVENANCE_API_TOKEN'') (\<lambda>credentials.
       bindR (required_setting env ''CONNECTOR_ID'') (\<lambda>connector.
       bindR (integer_setting h env ''CONNECTOR_BATCH_SIZE'' 100 1 1000) (\<lambda>batch.
       bindR (integer_setting h env ''CONNECTOR_POLL_INTERVAL_MS'' 1000 50 300000) (\<lambda>poll.
       bindR (integer_setting h env ''CONNECTOR_LEASE_SECONDS'' 30 5 3600) (\<lambda>lease.
       bindR (integer_setting h env ''CONNECTOR_MAX_ATTEMPTS'' 20 1 10000) (\<lambda>attempts.
       bindR (integer_setting h env ''CONNECTOR_RETRY_BASE_MS'' 1000 100 3600000) (\<lambda>base.
       bindR (integer_setting h env ''CONNECTOR_RETRY_MAX_MS'' 60000 100 86400000) (\<lambda>longest.
       bindR (integer_setting h env ''CONNECTOR_HEALTH_PORT'' 8790 1 65535) (\<lambda>healthPort.
       bindR (optional_token env ''CONNECTOR_METRICS_TOKEN'') (\<lambda>metricsToken.
       Inr \<lparr>cs_mysql = mysql, cs_table = table, cs_url = url, cs_tokens = credentials, cs_connectorId = connector,
         cs_batchSize = batch, cs_pollIntervalMs = poll, cs_leaseSeconds = lease, cs_maxAttempts = attempts,
         cs_retryBaseMs = base, cs_retryMaxMs = longest,
         cs_healthHost = default_to ''127.0.0.1'' (env ''CONNECTOR_HEALTH_HOST''), cs_healthPort = healthPort,
         cs_metricsToken = metricsToken\<rparr>))))))))))))))"

text \<open>\<open>main\<close> up to the loop: the three objects; \<open>web\<close> says whether the URL of the ledger is one of HTTP or HTTPS.\<close>

definition make_connector :: "(jsstr \<Rightarrow> bool) \<Rightarrow> connector_settings \<Rightarrow> (repository \<times> client \<times> worker) answer" where
  "make_connector web s =
     bindR (make_repository True (JStr (cs_table s)) (JInt (int (cs_leaseSeconds s))) (JInt (int (cs_maxAttempts s)))) (\<lambda>rp.
     bindR (make_client (web (cs_url s)) (JArr (map JStr (cs_tokens s))) (JInt 15000)) (\<lambda>c.
     Inr (rp, c, \<lparr>wk_connectorId = cs_connectorId s, wk_batchSize = cs_batchSize s, wk_retryBaseMs = cs_retryBaseMs s,
       wk_retryMaxMs = cs_retryMaxMs s\<rparr>)))"

section \<open>The status endpoint of the connector\<close>

definition connector_metric :: "string \<Rightarrow> string \<Rightarrow> jsstr \<Rightarrow> string \<Rightarrow> jsstr" where
  "connector_metric name help v type = js ''# HELP '' @ js name @ [32] @ js help @ [10] @ js ''# TYPE '' @ js name @ [32]
     @ js type @ [10] @ js name @ [32] @ v @ [10]"

text \<open>The texts of the two times are arguments, as the status keeps no times here.\<close>

definition connectorMetrics :: "worker_status \<Rightarrow> jsstr \<times> jsstr \<Rightarrow> bool \<Rightarrow> outbox_metrics option \<Rightarrow> jsstr" where
  "connectorMetrics st stamps ready outbox =
     (let flag = (\<lambda>b. js_number (if b then 1 else 0)); count = (\<lambda>n. js_number (int n)) in
      concat (
        [connector_metric ''g9p_mysql_connector_ready'' ''Whether the connector can query its MySQL dependency.'' (flag ready) ''gauge'',
         connector_metric ''g9p_mysql_connector_running'' ''Whether the connector worker loop reports running state.''
           (flag (ws_state st = ''running'')) ''gauge'',
         connector_metric ''g9p_mysql_connector_in_flight'' ''Outbox events in the currently claimed batch.''
           (count (ws_inFlight st)) ''gauge'',
         connector_metric ''g9p_mysql_connector_delivered_events_total'' ''Events delivered since process start.''
           (count (ws_deliveredEvents st)) ''counter'',
         connector_metric ''g9p_mysql_connector_failed_batches_total'' ''Failed delivery or loop batches since process start.''
           (count (ws_failedBatches st)) ''counter'',
         connector_metric ''g9p_mysql_connector_last_success_timestamp_seconds'' ''Unix timestamp of the last successful delivery.''
           (fst stamps) ''gauge'',
         connector_metric ''g9p_mysql_connector_last_error_timestamp_seconds'' ''Unix timestamp of the last delivery or loop error.''
           (snd stamps) ''gauge''] @
        (case outbox of
           None \<Rightarrow> []
         | Some m \<Rightarrow>
             [connector_metric ''g9p_mysql_outbox_ready_events'' ''Outbox events currently available for lease.''
                (count (om_ready m)) ''gauge'',
              connector_metric ''g9p_mysql_outbox_leased_events'' ''Undelivered outbox events with unexpired leases.''
                (count (om_leased m)) ''gauge'',
              connector_metric ''g9p_mysql_outbox_delivered_events'' ''Outbox rows with persisted custody receipts.''
                (count (om_delivered m)) ''gauge'',
              connector_metric ''g9p_mysql_outbox_dead_lettered_events'' ''Outbox rows quarantined for operator review.''
                (count (om_dead m)) ''gauge'',
              connector_metric ''g9p_mysql_outbox_oldest_ready_age_seconds'' ''Age of the oldest currently available outbox event.''
                (js_number (om_oldestReadyAge m)) ''gauge''])))"

record status_request =
  hr_method :: string
  hr_path :: jsstr
  hr_authorization :: "jsstr option"

datatype status_payload = Status_Text string | Status_Code string | Status_Metrics jsstr

text \<open>\<open>now\<close> is \<open>None\<close> where the database does not answer.\<close>

definition serve_status ::
  "jsstr option \<Rightarrow> worker_status \<Rightarrow> jsstr \<times> jsstr \<Rightarrow> int option \<Rightarrow> outbox \<Rightarrow> status_request \<Rightarrow> nat \<times> status_payload" where
  "serve_status metricsToken st stamps now t rq =
     (if hr_method rq = ''GET'' \<and> hr_path rq = js ''/health'' then (200, Status_Text ''ok'')
      else if hr_method rq = ''GET'' \<and> hr_path rq = js ''/ready'' then
        (if now \<noteq> None then (200, Status_Text ''ready'') else (503, Status_Text ''not-ready''))
      else if hr_method rq = ''GET'' \<and> hr_path rq = js ''/metrics'' then
        (case metricsToken of
           None \<Rightarrow> (404, Status_Code ''NOT_FOUND'')
         | Some expected \<Rightarrow>
             if \<not> tokenMatches (hr_authorization rq) [expected] then (401, Status_Code ''UNAUTHORISED'')
             else (200, Status_Metrics (connectorMetrics st stamps (now \<noteq> None)
               (map_option (\<lambda>time. operationalMetrics time t) now))))
      else (404, Status_Code ''NOT_FOUND''))"

section \<open>The signer service\<close>

record signer_settings =
  sc_socketPath :: jsstr
  sc_socketMode :: nat
  sc_passphrasePath :: jsstr
  sc_keyPaths :: "(jsstr \<times> jsstr) list"

definition octal_digit :: "16 word \<Rightarrow> bool" where
  "octal_digit u \<longleftrightarrow> 48 \<le> unat u \<and> unat u \<le> 55"

text \<open>Three octal digits, with or without a zero before them; others must neither read nor write.\<close>

definition socketMode :: "jsstr option \<Rightarrow> nat res" where
  "socketMode v =
     (let s = the_default (js ''0600'') v;
          digits = (if length s = 4 \<and> hd s = 48 then tl s else s);
          mode = foldl (\<lambda>n u. n * 8 + (unat u - 48)) 0 digits in
      andThen (plain_check (length digits = 3 \<and> list_all octal_digit digits) [])
      (andThen (plain_check (mode mod 8 div 2 = 0) []) (Inr mode)))"

definition loadSignerConfig :: "host \<Rightarrow> environment \<Rightarrow> signer_settings res" where
  "loadSignerConfig h env =
     (let path = (\<lambda>name. bindR (required_setting env name) (\<lambda>v. Inr (ho_resolve h v))) in
      bindR (path ''PROVENANCE_SIGNER_SOCKET_PATH'') (\<lambda>socket.
      bindR (socketMode (env ''PROVENANCE_SIGNER_SOCKET_MODE'')) (\<lambda>mode.
      bindR (path ''PROVENANCE_SIGNER_PASSPHRASE_FILE'') (\<lambda>passphrase.
      bindR (path ''PROVENANCE_SIGNER_SEGMENT_KEY_PATH'') (\<lambda>segment.
      bindR (path ''PROVENANCE_SIGNER_TOPOLOGY_KEY_PATH'') (\<lambda>topology.
      bindR (path ''PROVENANCE_SIGNER_CHECKPOINT_KEY_PATH'') (\<lambda>checkpoint.
      Inr \<lparr>sc_socketPath = socket, sc_socketMode = mode, sc_passphrasePath = passphrase,
        sc_keyPaths = zip ROLES [segment, topology, checkpoint]\<rparr>)))))))"

definition custody_key :: "platform \<Rightarrow> host \<Rightarrow> key_files \<Rightarrow> byte list \<Rightarrow> jsstr \<Rightarrow> signer res" where
  "custody_key X h files passphrase path =
     (case files path of
        None \<Rightarrow> plain_failure ''SIGNER_KEY_LOAD''
      | Some f \<Rightarrow> loadCustodySigner X (\<lambda>pem p. ho_import h pem (Some p)) (kf_bytes f) passphrase)"

definition start_signer :: "platform \<Rightarrow> host \<Rightarrow> environment \<Rightarrow> key_files \<Rightarrow> (signer_settings \<times> signers) res" where
  "start_signer X h env files =
     bindR (loadSignerConfig h env) (\<lambda>s.
     bindR (case files (sc_passphrasePath s) of
         None \<Rightarrow> plain_failure ''ENOENT''
       | Some f \<Rightarrow> readProtectedPassphrase (ho_unix h) ''SIGNER'' f) (\<lambda>passphrase.
     bindR (mapR (\<lambda>(role, path). bindR (custody_key X h files passphrase path) (\<lambda>key. Inr (role, key))) (sc_keyPaths s)) (\<lambda>keys.
     let signers = (\<lambda>role. the_default (snd (hd keys)) (map_of keys role)) in
     andThen (custody_signers signers) (Inr (s, signers)))))"

section \<open>What the settings guarantee\<close>

lemma connector_token_set_Inr:
  "connector_token_set env name single = Inr ts \<Longrightarrow>
   ts \<noteq> [] \<and> length ts \<le> 4 \<and> distinct ts \<and> (\<forall>t \<in> set ts. t \<noteq> [])"
proof -
  have "split_commas s \<noteq> []" for s by (induction s) (auto split: list.splits)
  then show "connector_token_set env name single = Inr ts \<Longrightarrow> ?thesis"
    by (fastforce simp: connector_token_set_def Let_def plain_failure_def res_simps list_all_iff split: option.splits)
qed

lemma loaded_connector_settings:
  assumes "loadConnectorConfig h env = Inr s"
  shows "validateTablePath (JStr (cs_table s)) = Inr (cs_table s)"
    and "cs_tokens s \<noteq> [] \<and> length (cs_tokens s) \<le> 4 \<and> distinct (cs_tokens s) \<and> (\<forall>t \<in> set (cs_tokens s). t \<noteq> [])"
    and "1 \<le> cs_batchSize s \<and> cs_batchSize s \<le> 1000" and "5 \<le> cs_leaseSeconds s \<and> cs_leaseSeconds s \<le> 3600"
    and "1 \<le> cs_maxAttempts s \<and> cs_maxAttempts s \<le> 10000"
proof -
  obtain credentials batch lease attempts where
    table: "table_check (cs_table s) = Inr ()"
    and credentials: "connector_token_set env ''PROVENANCE_API_TOKENS'' ''PROVENANCE_API_TOKEN'' = Inr credentials"
    and batch: "integer_setting h env ''CONNECTOR_BATCH_SIZE'' 100 1 1000 = Inr batch"
    and lease: "integer_setting h env ''CONNECTOR_LEASE_SECONDS'' 30 5 3600 = Inr lease"
    and attempts: "integer_setting h env ''CONNECTOR_MAX_ATTEMPTS'' 20 1 10000 = Inr attempts"
    and s: "cs_tokens s = credentials" "cs_batchSize s = batch" "cs_leaseSeconds s = lease" "cs_maxAttempts s = attempts"
    using assms
    unfolding loadConnectorConfig_def Let_def bindR_Inr_iff andThen_Inr_iff sum.inject
    apply (elim exE conjE)
    apply (rule that)
    subgoal by (drule sym [where t = s]) (simp only: connector_settings.simps)
    apply assumption+
    apply (drule sym [where t = s], simp only: connector_settings.simps)+
    done
  show "validateTablePath (JStr (cs_table s)) = Inr (cs_table s)"
    using table by (auto simp: table_check_def validateTablePath_def str_of_def Let_def res_simps split: sum.splits)
  show "cs_tokens s \<noteq> [] \<and> length (cs_tokens s) \<le> 4 \<and> distinct (cs_tokens s) \<and> (\<forall>t \<in> set (cs_tokens s). t \<noteq> [])"
    using connector_token_set_Inr [OF credentials] s by simp
  show "1 \<le> cs_batchSize s \<and> cs_batchSize s \<le> 1000" "5 \<le> cs_leaseSeconds s \<and> cs_leaseSeconds s \<le> 3600"
    "1 \<le> cs_maxAttempts s \<and> cs_maxAttempts s \<le> 10000"
    using batch lease attempts by (auto simp: s res_simps)
qed

text \<open>The settings that load are those with which the repository and the client can be made.\<close>

lemma loaded_connector_starts:
  assumes "loadConnectorConfig h env = Inr s" and "web (cs_url s)"
  shows "make_connector web s = Inr
    (\<lparr>rp_leaseSeconds = cs_leaseSeconds s, rp_maxAttempts = cs_maxAttempts s\<rparr>,
     \<lparr>cl_tokens = cs_tokens s, cl_timeoutMs = 15000\<rparr>,
     \<lparr>wk_connectorId = cs_connectorId s, wk_batchSize = cs_batchSize s, wk_retryBaseMs = cs_retryBaseMs s,
       wk_retryMaxMs = cs_retryMaxMs s\<rparr>)"
  using loaded_connector_settings [OF assms(1)] assms(2) length_greater_0_conv [of "cs_tokens s"]
  by (auto simp: make_connector_def make_repository_def quoteTablePath_def make_client_def res_simps int_in_def int_of_def
      array_items_def is_array_def MAX_SAFE_def max_safe_integer_def Suc_le_eq requireString_def non_empty_string_def demand_def comp_def str_of_def distinct_map
      inj_on_def list_all_iff)

text \<open>A connector identifier that the settings allow and the claims do not.\<close>

lemma long_connector_id_claims_nothing:
  assumes "128 < length (wk_connectorId w)"
  shows "claimBatch rt rp (wk_batchSize w) (wk_connectorId w) ce t = (t, Inl type_error)"
  using assms by (simp add: claimBatch_def)

lemma socket_mode_private: "socketMode v = Inr m \<Longrightarrow> m mod 8 \<le> 1 \<and> m < 512"
proof -
  have fold: "foldl (\<lambda>n u. n * 8 + (unat u - 48)) 0 [a, b, c] < 512"
    if "octal_digit a" "octal_digit b" "octal_digit c" for a b c :: "16 word"
  proof -
    have "unat a - 48 \<le> 7" "unat b - 48 \<le> 7" "unat c - 48 \<le> 7" using that by (auto simp: octal_digit_def)
    moreover have "((0 * 8 + x) * 8 + y) * 8 + z < 512" if "x \<le> 7" "y \<le> 7" "z \<le> 7" for x y z :: nat
      using that by simp
    ultimately show ?thesis unfolding foldl.simps by blast
  qed
  assume "socketMode v = Inr m"
  then obtain digits where d: "length digits = 3" "list_all octal_digit digits" "m = foldl (\<lambda>n u. n * 8 + (unat u - 48)) 0 digits"
    and "m mod 8 div 2 = 0" by (auto simp: socketMode_def Let_def res_simps)
  moreover obtain a b c where "digits = [a, b, c]" using d(1) by (auto simp: length_Suc_conv numeral_3_eq_3)
  ultimately show ?thesis using fold [of a b c] by (auto simp: div_eq_0_iff)
qed

lemma started_signer_signs:
  assumes "start_signer X h env files = Inr (s, signers)" and "role \<in> set ROLES"
  shows "algorithm (signers role) = js ''ed25519'' \<and> sign_operation (signers role) \<noteq> None"
proof -
  have "custody_signers signers = Inr ()"
    using assms(1) by (auto simp: start_signer_def Let_def res_simps)
  then have "\<forall>c \<in> (\<lambda>role. if algorithm (signers role) = js ''ed25519'' \<and> sign_operation (signers role) \<noteq> None then Inr ()
      else Inl (PlainError [])) ` set ROLES. c = Inr ()"
    unfolding custody_signers_def checks_Inr_iff set_map .
  with assms(2) have "(if algorithm (signers role) = js ''ed25519'' \<and> sign_operation (signers role) \<noteq> None then Inr ()
      else Inl (PlainError [])) = Inr ()" by blast
  then show ?thesis by (simp split: if_splits del: js_Cons)
qed

end
