(* ===== verification/Spec2Isabelle.thy ===== *)
theory Spec2Isabelle
  imports
    G9P_Codec_Props
    G9P_Codec_Total
    G9P_Merkle
    G9P_Event_Props
    G9P_Segment_Total
    G9P_Epoch_Theorems
    G9P_Threshold
    G9P_Signer_Trust
    G9P_Sealed_Objects
    G9P_Ledger_Startup
    G9P_Ledger_Theorems
    G9P_Independent_Agreement
    G9P_Delivery
    G9P_Lookup
    G9P_Room
    G9P_Startup
    G9P_Services
begin

text \<open>
  Provenance 9 keeps tamper-evident histories of business events. An application writes events into an outbox table; a
  connector delivers them to a ledger service; the service keeps accepted events durably, groups them into blocks and
  active segments, and seals these into signed segment files that anyone can verify with the published keys. This
  development models the program as definitions of HOL and proves what each part promises and what the parts promise
  together.

  The parts and the theories, from the bottom up.

  Vocabulary. \<open>G9P_Prelude\<close> has bytes, thrown errors as values of a sum (\<open>G9p code\<close> is a \<open>G9pError\<close>; messages and
  causes are not modelled), steps that may throw (\<open>bindR\<close>, \<open>andThen\<close>, \<open>checks\<close>, with the collection \<open>res_simps\<close>), insertion-ordered maps
  (\<open>jsmap\<close>, the locale \<open>dictionary\<close>) and the locale \<open>prefix_codec\<close> of encodings that can be read back from the front of a buffer.
  \<open>G9P_Text\<close> has JavaScript strings as lists of 16-bit units, UTF-8 and its strict decoder, numerals, hexadecimal text and canonical
  times; \<open>G9P_Base64\<close> the encoding of buffers as text. \<open>G9P_Effects\<close> has computations with state and errors and triples over them;
  \<open>G9P_Machine\<close> the locale of a component that moves by steps.

  The file format (src/src). \<open>G9P_Codec\<close> is codec/canonical.js; \<open>G9P_Codec_Props\<close> shows that decoding inverts encoding and that equal encodings come
  from equal values, \<open>G9P_Codec_Total\<close> when encoding succeeds. \<open>G9P_Crypto\<close> is crypto.js and compression.js, \<open>G9P_Framing\<close> format/framing.js and
  format/records.js, \<open>G9P_Merkle\<close> merkle.js, \<open>G9P_Event\<close> event.js, \<open>G9P_Sharding\<close> sharding.js and shard-planner.js; \<open>G9P_Event_Props\<close> collects
  the properties of these. \<open>G9P_Segment_Writer\<close> is segment-writer.js and \<open>G9P_Segment_Verifier\<close> segment-verifier.js; \<open>G9P_Segment_Props\<close> and
  \<open>G9P_Segment_Total\<close> show that what is written verifies, with the same events, and that writing succeeds. \<open>G9P_Statement\<close> is the container of
  signed statements (locale \<open>signed_statement\<close>) for \<open>G9P_Routing_Epoch\<close> (routing-epoch.js; properties in \<open>G9P_Routing_Epoch_Props\<close> and
  \<open>G9P_Epoch_Theorems\<close>) and \<open>G9P_Checkpoint\<close> (checkpoint.js; properties in \<open>G9P_Attestation\<close>, \<open>G9P_Attestation_Total\<close> and \<open>G9P_Threshold\<close>). \<open>G9P_Signer_Trust\<close> is
  signer-trust.js.

  The independent verifier (src/tools/independent-verifier/verify.js). \<open>G9P_Independent\<close> and \<open>G9P_Independent_Statements\<close> model it;
  \<open>G9P_Independent_Codec\<close>, \<open>G9P_Independent_Segment\<close> and \<open>G9P_Independent_Agreement\<close> compare it with the library's verifier: the second verifier is
  the reference for the first, and the two lists of reasons for disagreement are exact.

  Storage. \<open>G9P_Disk\<close> is a file system of files and directories, each with a current and a durable side, in which a run of system calls may fail at any
  call and the power may fail between any two. A recursive mkdir makes the missing directories one by one and fails where a file is in the way; a new directory is durable
  only when its parent has been synchronised, and a power failure takes a directory that is not, with all that is under it (\<open>anchored\<close>: all directories on the way are
  durable). \<open>G9P_Sealed_Storage\<close> is sealed-file.js and sealed-storage.js, \<open>G9P_Sealed_Objects\<close> its abstract view: publication is an atomic insertion
  into an immutable map, along every run with faults and restarts; through power failures an object stays if its directories are anchored, and it can be lost if they are not,
  for the code never synchronises the parents of the directories it makes. \<open>G9P_Intake\<close> and \<open>G9P_Intake_Props\<close> are services/ledger/src/durable-intake.js,
  \<open>G9P_Active_Store\<close> active-segment-store.js. Ledgers and storages start from any file system that has directories, durable or not, and no files (\<open>bare_disk\<close>, \<open>bare_ledger\<close>).

  The ledger service (src/services/ledger/src). \<open>G9P_Ledger_State\<close>, \<open>G9P_Ledger\<close> and \<open>G9P_Ledger_Startup\<close> are local-ledger.js: the state, the operations, and the
  rebuilding of the state from the stores. The code serialises the operations, so each is one step of \<open>ledger_step\<close>. \<open>G9P_Custody\<close> states the invariant
  (every accepted event has a durable intake file or a place in a sealed segment), \<open>G9P_Custody_Ops\<close> shows that every operation keeps it under every
  fault, \<open>G9P_Acceptance\<close> what a batch is answered with, \<open>G9P_Room\<close> that the loop of \<open>#makeRoom\<close> ends, \<open>G9P_Ledger_Sample\<close> a concrete run and \<open>G9P_Ledger_Theorems\<close> the
  theorems along runs. \<open>G9P_Server\<close> is server.js and metrics.js. \<open>G9P_Signer_Service\<close> is separated custody: src/services/signer/src and socket-signer.js, with the
  conversation of the two. \<open>G9P_Writer_Lock\<close> is writer-lock.js as an interleaving of processes. \<open>G9P_Startup\<close> is config.js, key-store.js,
  installation-manifest.js and the function \<open>main\<close> of main.js, up to the service that listens.

  Delivery. \<open>G9P_Client\<close> is src/packages/connector-contract/src; \<open>G9P_Receipts\<close> compares its checks with the receipts of the ledger. \<open>G9P_Outbox\<close> is
  src/connectors/mysql/src (table, repository and worker) over the table of the SQL migration, \<open>G9P_Outbox_Props\<close> its promises for any service. \<open>G9P_Connector\<close> interleaves any
  number of workers with a service that satisfies the locale \<open>receipt_service\<close>; \<open>G9P_Network\<close> is what may happen to one request; \<open>G9P_Delivery\<close>
  interprets the locale on the modelled service behind the modelled network, and \<open>G9P_Lookup\<close> takes a receipt's path through the URL and back.
  \<open>G9P_Services\<close> has the settings, the status endpoint and the metrics of the connector process and the settings and keys of the signer process, and shows that
  settings that load are accepted by the objects made from them. \<open>G9P_Samples\<close> holds concrete events for the instances.

  Interfaces. The locales are \<open>prefix_codec\<close> (interpreted for variable-length integers, hash parts and frames), \<open>dictionary\<close> (for \<open>jsmap\<close>),
  \<open>signed_statement\<close> (for epochs, checkpoints and witness receipts), \<open>machine\<close> (for sealed storage, the ledger, the writer lock and, as a sublocale, the
  connector) and \<open>receipt_service\<close> (for an arbitrary service that promises nothing and for the network with the ledger behind it).

  Parameters and hypotheses. SHA-256, Ed25519, key import, Zstandard and Unicode normalisation are the fields of \<open>platform\<close>; what is assumed of them is
  named (\<open>sha256_ok\<close>: digests of 32 bytes; \<open>zstd_ok\<close>: decompression undoes compression within the limit; \<open>working_signer\<close>). Collision freedom is never
  assumed: commitment theorems conclude with the colliding inputs as their alternative. \<open>runtime\<close> and \<open>host\<close> hold the functions of the language and the host that
  are not modelled (\<open>JSON.parse\<close> of a column, \<open>Number\<close> of a text, resolution of paths, the import of keys). \<open>localeCompare\<close> is the parameter \<open>collate\<close>, of
  which \<open>comparator_ok\<close> assumes a consistent comparison that may give 0 for different texts, as it does for canonically equivalent ones. JSON
  text on the network is represented by the value that \<open>JSON.parse\<close> makes of it and by the sizes of its chunks. \<open>toy_platform\<close> satisfies all
  hypotheses at once; the witnesses run on it.

  Bounds and termination. All functions are total. Recursion over bytes ends because the rest of the buffer shrinks; the loop of \<open>#makeRoom\<close> takes as many
  rounds as there are active segments, and \<open>making_room_ends\<close> shows that this is enough; the polling loop of the worker is a list of turns of any length. Integers
  of the format are byte strings of their width or naturals with the limit of the code (2^53-1 for safe integers) as a check; bitwise steps are on words.

  Not modelled: messages, causes and logs; sockets, TLS and signals; the stop of the service (closing seals all segments, an operation that is modelled, and
  releases the lock); the test fault injector, whose effects the faults of the file system subsume; the wrappers that read a file and call a modelled
  function; the command line tool, the scripts, and the witness service, which drive the modelled functions with file and
  process input and output. Interleaving inside one operation of the ledger is excluded by its queue of operations; where \<open>Promise.all\<close> may fail with any of
  several errors, the first in order is taken.
\<close>

end
